(* ===== verification/Prelude.thy ===== *)
theory Prelude
  imports Main "HOL-Library.Word" "HOL-Library.Monad_Syntax"
begin

text \<open>
  Shared vocabulary of the development: the machine integers of the AVR XMEGA target, the effect
  in which the C code is modelled, arrays with bounds, and the generic lemmas on them.

  The firmware is compiled by avr-gcc, where \<open>int\<close> has 16 bits.  An expression such as
  \<open>buffer->head + element_position\<close> over \<open>uint16_t\<close> is therefore computed modulo
  \<open>2 ^ 16\<close>, and arithmetic on \<^typ>\<open>16 word\<close> is exactly that computation.

  A C computation that may go wrong is a value of type \<open>'a option\<close>.  \<^const>\<open>None\<close> stands for
  undefined behaviour (an access outside an array, a division by zero, a null function pointer)
  and for a loop that does not return.  A theorem that concludes \<open>f x = Some y\<close> therefore says
  that the code returns, that it performs no undefined access, and what it returns.
\<close>

section \<open>Machine integers\<close>

type_synonym u8 = "8 word"
type_synonym u16 = "16 word"
type_synonym u32 = "32 word"

section \<open>Collections of rewrite rules\<close>

named_theorems c_eval \<open>rules that evaluate the effect of C code\<close>
named_theorems cb_simps \<open>what the operations of the circular buffer do on its contents\<close>

section \<open>Undefined behaviour and arrays\<close>

definition c_assert :: "bool \<Rightarrow> unit option" where
  "c_assert b = (if b then Some () else None)"

definition array_get :: "'a list \<Rightarrow> nat \<Rightarrow> 'a option" where
  "array_get xs i = (if i < length xs then Some (xs ! i) else None)"

definition array_set :: "'a list \<Rightarrow> nat \<Rightarrow> 'a \<Rightarrow> 'a list option" where
  "array_set xs i x = (if i < length xs then Some (xs[i := x]) else None)"

definition array_prefix :: "'a list \<Rightarrow> nat \<Rightarrow> 'a list option" where
  "array_prefix xs n = (if n \<le> length xs then Some (take n xs) else None)"

lemma c_assert_simps [simp, c_eval]:
  "c_assert True = Some ()"
  "c_assert False = None"
  by (simp_all add: c_assert_def)

lemma c_assert_eq_Some [simp]: "c_assert b = Some u \<longleftrightarrow> b"
  by (cases b) (simp_all add: c_assert_def)

lemma array_get_in [simp, c_eval]: "i < length xs \<Longrightarrow> array_get xs i = Some (xs ! i)"
  by (simp add: array_get_def)

lemma array_get_eq_Some: "array_get xs i = Some x \<longleftrightarrow> i < length xs \<and> x = xs ! i"
  by (auto simp: array_get_def)

lemma array_set_in [simp, c_eval]: "i < length xs \<Longrightarrow> array_set xs i x = Some (xs[i := x])"
  by (simp add: array_set_def)

lemma array_set_eq_Some: "array_set xs i x = Some ys \<longleftrightarrow> i < length xs \<and> ys = xs[i := x]"
  by (auto simp: array_set_def)

lemma array_prefix_in [simp, c_eval]: "n \<le> length xs \<Longrightarrow> array_prefix xs n = Some (take n xs)"
  by (simp add: array_prefix_def)

lemma array_prefix_eq_Some:
  "array_prefix xs n = Some ys \<longleftrightarrow> n \<le> length xs \<and> ys = take n xs"
  by (auto simp: array_prefix_def)

section \<open>Words read as natural numbers\<close>

lemma unat_less_size16 [simp]: "unat (x :: u16) < 65536"
  using unsigned_less [of x] by simp

lemma unat_add_small:
  "unat a + unat b < 65536 \<Longrightarrow> unat ((a :: u16) + b) = unat a + unat b"
  by (simp add: unat_word_ariths)

lemma unat_sub_small: "b \<le> a \<Longrightarrow> unat ((a :: u16) - b) = unat a - unat b"
  by (rule unat_sub)

lemma unat_mult_small:
  "unat a * unat b < 65536 \<Longrightarrow> unat ((a :: u16) * b) = unat a * unat b"
  by (simp add: unat_word_ariths)

lemma unat_of_nat16: "n < 65536 \<Longrightarrow> unat (of_nat n :: u16) = n"
  by (simp add: unat_of_nat)

lemma unat_inc: "unat (a :: u16) < 65535 \<Longrightarrow> unat (a + 1) = unat a + 1"
  by (simp add: unat_word_ariths)

lemma unat_pred: "a \<noteq> 0 \<Longrightarrow> unat ((a :: u16) - 1) = unat a - 1"
  by (metis unat_minus_one)

lemma u16_eq_iff: "(a :: u16) = b \<longleftrightarrow> unat a = unat b"
  by (simp add: word_unat_eq_iff)

lemma u16_less_iff: "(a :: u16) < b \<longleftrightarrow> unat a < unat b"
  by (rule word_less_nat_alt)

lemma u16_le_iff: "(a :: u16) \<le> b \<longleftrightarrow> unat a \<le> unat b"
  by (rule word_le_nat_alt)

lemma unat_less_size8 [simp]: "unat (x :: u8) < 256"
  using unsigned_less [of x] by simp

lemma unat_ucast_8_16 [simp]: "unat (ucast (x :: u8) :: u16) = unat x"
  by (simp add: unsigned_ucast_eq take_bit_nat_eq_self less_trans [OF unat_less_size8])

lemma unat_ucast_8_32 [simp]: "unat (ucast (x :: u8) :: u32) = unat x"
  by (simp add: unsigned_ucast_eq take_bit_nat_eq_self less_trans [OF unat_less_size8])

lemma unat_ucast_16_32 [simp]: "unat (ucast (x :: u16) :: u32) = unat x"
  by (simp add: unsigned_ucast_eq take_bit_nat_eq_self less_trans [OF unat_less_size16])

lemma unat_ucast_16_8: "unat (ucast (x :: u16) :: u8) = unat x mod 256"
  by (simp add: unsigned_ucast_eq take_bit_eq_mod)

lemma unat_of_nat8: "n < 256 \<Longrightarrow> unat (of_nat n :: u8) = n"
  by (simp add: unat_of_nat)

lemma unat_of_nat32: "n < 4294967296 \<Longrightarrow> unat (of_nat n :: u32) = n"
  by (simp add: unat_of_nat)

end
