(* ===== verification/Circular_Buffer.thy ===== *)
theory Circular_Buffer
  imports Prelude
begin

text \<open>
  The ring buffer of \<open>SDK/core/circular_buffer.c\<close>, on which every queue of the firmware is built.

  The C code is untyped: \<open>storage\<close> is a \<open>void*\<close> to \<open>storage_size\<close> elements of
  \<open>element_size\<close> bytes, and elements are copied with \<open>memcpy\<close>.  The model keeps the array of
  elements as a list and copies whole elements; a copy whose byte offset does not fit the 16-bit
  arithmetic of \<open>copy_bytes\<close>, or that leaves the array, is undefined (\<^const>\<open>None\<close>).  The
  pointers to the buffer itself and to input elements are never null in the model (every caller
  passes the address of an object); the null output pointer of \<open>circular_buffer_pop\<close>, which the
  code uses to drop elements, is the flag \<open>wanted\<close>.

  The first section is the code, the second its invariant \<open>cb_inv\<close> and its contents
  \<open>cb_list\<close>, the third the functional behaviour of every operation on the contents, stated
  on every branch, and the last the interface (a locale) through which the queues use it.
\<close>

section \<open>The code\<close>

record 'a circular_buffer =
  cb_head :: u16
  cb_tail :: u16
  cb_storage :: "'a list"
  cb_storage_size :: u16
  cb_element_size :: u16
  cb_empty :: bool
  cb_full :: bool
  cb_wrap :: bool

definition increase_pointer :: "u16 \<Rightarrow> u16 \<Rightarrow> u16" where
  "increase_pointer p n = (if p = n - 1 then 0 else p + 1)"

definition decrease_pointer :: "u16 \<Rightarrow> u16 \<Rightarrow> u16" where
  "decrease_pointer p n = (if p = 0 then n - 1 else p - 1)"

text \<open>
  \<open>copy_bytes\<close> computes \<open>offset * data_length\<close> in 16 bits: element \<open>i\<close> is reached
  only when the product does not wrap and the index is inside the array.
\<close>

definition slot_ok :: "'a circular_buffer \<Rightarrow> u16 \<Rightarrow> bool" where
  "slot_ok b i \<longleftrightarrow> unat i < length (cb_storage b) \<and> unat i * unat (cb_element_size b) < 65536"

definition copy_in :: "'a circular_buffer \<Rightarrow> u16 \<Rightarrow> 'a \<Rightarrow> 'a circular_buffer option" where
  "copy_in b i x = do {
     c_assert (slot_ok b i);
     Some (b\<lparr>cb_storage := (cb_storage b)[unat i := x]\<rparr>)
   }"

definition copy_out :: "'a circular_buffer \<Rightarrow> u16 \<Rightarrow> 'a option" where
  "copy_out b i = do {
     c_assert (slot_ok b i);
     Some (cb_storage b ! unat i)
   }"

text \<open>
  \<open>memset(storage, 0, storage_size * element_size)\<close>: the byte count is a 16-bit product; when
  it wraps only part of the array is cleared, which is no longer a whole number of elements.
  \<open>z\<close> is the element whose bytes are all zero.
\<close>

definition circular_buffer_clear :: "'a \<Rightarrow> 'a circular_buffer \<Rightarrow> 'a circular_buffer option" where
  "circular_buffer_clear z b = do {
     c_assert (unat (cb_storage_size b) \<le> length (cb_storage b) \<and>
               unat (cb_storage_size b) * unat (cb_element_size b) < 65536);
     Some (b\<lparr>cb_head := 0, cb_tail := 0, cb_empty := True, cb_full := False,
             cb_storage := replicate (unat (cb_storage_size b)) z @
                           drop (unat (cb_storage_size b)) (cb_storage b)\<rparr>)
   }"

definition circular_buffer_init ::
  "'a \<Rightarrow> 'a circular_buffer \<Rightarrow> 'a list \<Rightarrow> u16 \<Rightarrow> u16 \<Rightarrow> bool \<Rightarrow> bool \<Rightarrow> 'a circular_buffer option" where
  "circular_buffer_init z b st n esize wr clear =
     (let b' = b\<lparr>cb_storage := st, cb_storage_size := n, cb_element_size := esize, cb_wrap := wr\<rparr>
      in if clear then circular_buffer_clear z b' else Some b')"

definition circular_buffer_size :: "'a circular_buffer \<Rightarrow> u16" where
  "circular_buffer_size b =
     (if cb_empty b then 0
      else if cb_full b then cb_storage_size b
      else if cb_tail b > cb_head b then cb_tail b - cb_head b
      else cb_storage_size b - cb_head b + cb_tail b)"

definition circular_buffer_free_space :: "'a circular_buffer \<Rightarrow> u16" where
  "circular_buffer_free_space b = cb_storage_size b - circular_buffer_size b"

definition circular_buffer_empty :: "'a circular_buffer \<Rightarrow> bool" where
  "circular_buffer_empty b = cb_empty b"

definition circular_buffer_full :: "'a circular_buffer \<Rightarrow> bool" where
  "circular_buffer_full b = cb_full b"

definition circular_buffer_add ::
  "'a circular_buffer \<Rightarrow> 'a \<Rightarrow> (bool \<times> 'a circular_buffer) option" where
  "circular_buffer_add b x =
     (if cb_full b \<and> \<not> cb_wrap b then Some (False, b)
      else do {
        let b1 = (if cb_full b
                  then b\<lparr>cb_head := increase_pointer (cb_head b) (cb_storage_size b)\<rparr> else b);
        b2 \<leftarrow> copy_in b1 (cb_tail b1) x;
        let b3 = b2\<lparr>cb_tail := increase_pointer (cb_tail b2) (cb_storage_size b2)\<rparr>;
        Some (True, b3\<lparr>cb_empty := False, cb_full := (cb_tail b3 = cb_head b3)\<rparr>)
      })"

text \<open>
  The loop of \<open>circular_buffer_add_array\<close> and \<open>circular_buffer_add_as_many_as_possible\<close>: the
  result of each single add is ignored, as in the code.
\<close>

fun add_elements :: "'a circular_buffer \<Rightarrow> 'a list \<Rightarrow> 'a circular_buffer option" where
  "add_elements b [] = Some b"
| "add_elements b (x # xs) = do {
     (_, b') \<leftarrow> circular_buffer_add b x;
     add_elements b' xs
   }"

definition circular_buffer_add_array ::
  "'a circular_buffer \<Rightarrow> 'a list \<Rightarrow> u16 \<Rightarrow> (bool \<times> 'a circular_buffer) option" where
  "circular_buffer_add_array b elements len =
     (let free_space = circular_buffer_free_space b in
      if \<not> cb_wrap b \<and> len > free_space then Some (False, b)
      else do {
        xs \<leftarrow> array_prefix elements (unat len);
        b' \<leftarrow> add_elements b xs;
        Some (True, b')
      })"

definition circular_buffer_add_as_many_as_possible ::
  "'a circular_buffer \<Rightarrow> 'a list \<Rightarrow> u16 \<Rightarrow> (u16 \<times> 'a circular_buffer) option" where
  "circular_buffer_add_as_many_as_possible b elements len =
     (let free = circular_buffer_free_space b;
          to_add = (if len < free then len else free)
      in do {
        xs \<leftarrow> array_prefix elements (unat to_add);
        b' \<leftarrow> add_elements b xs;
        Some (to_add, b')
      })"

text \<open>The result is the C return value, the element written through the pointer, the new buffer.\<close>

definition circular_buffer_pop ::
  "bool \<Rightarrow> 'a circular_buffer \<Rightarrow> (bool \<times> 'a option \<times> 'a circular_buffer) option" where
  "circular_buffer_pop wanted b =
     (if cb_empty b then Some (False, None, b)
      else do {
        out \<leftarrow> (if wanted then map_option Some (copy_out b (cb_head b)) else Some None);
        let b1 = b\<lparr>cb_head := increase_pointer (cb_head b) (cb_storage_size b)\<rparr>;
        Some (True, out, b1\<lparr>cb_full := False, cb_empty := (cb_tail b1 = cb_head b1)\<rparr>)
      })"

text \<open>The loop of \<open>circular_buffer_pop_array\<close>, with the number of iterations left.\<close>

fun pop_elements ::
  "bool \<Rightarrow> nat \<Rightarrow> 'a circular_buffer \<Rightarrow> (nat \<times> 'a list \<times> 'a circular_buffer) option" where
  "pop_elements wanted 0 b = Some (0, [], b)"
| "pop_elements wanted (Suc n) b = do {
     (popped, out, b') \<leftarrow> circular_buffer_pop wanted b;
     if \<not> popped then Some (0, [], b')
     else do {
       (read, xs, b'') \<leftarrow> pop_elements wanted n b';
       Some (Suc read, case_option [] (\<lambda>x. [x]) out @ xs, b'')
     }
   }"

definition circular_buffer_pop_array ::
  "bool \<Rightarrow> 'a circular_buffer \<Rightarrow> u16 \<Rightarrow> (u16 \<times> 'a list \<times> 'a circular_buffer) option" where
  "circular_buffer_pop_array wanted b len = do {
     (read, xs, b') \<leftarrow> pop_elements wanted (unat len) b;
     Some (of_nat read, xs, b')
   }"

definition circular_buffer_drop_from_beggining ::
  "'a circular_buffer \<Rightarrow> u16 \<Rightarrow> (u16 \<times> 'a circular_buffer) option" where
  "circular_buffer_drop_from_beggining b n = do {
     (read, _, b') \<leftarrow> circular_buffer_pop_array False b n;
     Some (read, b')
   }"

text \<open>One iteration of the loop of \<open>circular_buffer_drop_from_end\<close>.\<close>

definition drop_last_element :: "'a circular_buffer \<Rightarrow> 'a circular_buffer" where
  "drop_last_element b =
     b\<lparr>cb_tail := decrease_pointer (cb_tail b) (cb_storage_size b), cb_full := False\<rparr>"

definition circular_buffer_drop_from_end ::
  "'a circular_buffer \<Rightarrow> u16 \<Rightarrow> u16 \<times> 'a circular_buffer" where
  "circular_buffer_drop_from_end b n = (n, (drop_last_element ^^ unat n) b)"

definition circular_buffer_peek ::
  "'a circular_buffer \<Rightarrow> u16 \<Rightarrow> (bool \<times> 'a option) option" where
  "circular_buffer_peek b pos =
     (if cb_empty b \<or> pos \<ge> circular_buffer_size b then Some (False, None)
      else do {
        x \<leftarrow> copy_out b (if cb_head b + pos < cb_storage_size b then cb_head b + pos
                       else cb_head b + pos - cb_storage_size b);
        Some (True, Some x)
      })"

fun peek_elements :: "'a circular_buffer \<Rightarrow> u16 \<Rightarrow> nat \<Rightarrow> (nat \<times> 'a list) option" where
  "peek_elements b pos 0 = Some (0, [])"
| "peek_elements b pos (Suc n) = do {
     (ok, out) \<leftarrow> circular_buffer_peek b pos;
     if \<not> ok then Some (0, [])
     else do {
       (read, xs) \<leftarrow> peek_elements b (pos + 1) n;
       Some (Suc read, case_option [] (\<lambda>x. [x]) out @ xs)
     }
   }"

definition circular_buffer_peek_array ::
  "'a circular_buffer \<Rightarrow> u16 \<Rightarrow> u16 \<Rightarrow> (u16 \<times> 'a list) option" where
  "circular_buffer_peek_array b pos len = do {
     (read, xs) \<leftarrow> peek_elements b pos (unat len);
     Some (of_nat read, xs)
   }"

section \<open>Invariant and contents\<close>

text \<open>The state every operation keeps, once the buffer was initialised with \<open>clear\<close>.\<close>

definition cb_inv :: "'a circular_buffer \<Rightarrow> bool" where
  "cb_inv b \<longleftrightarrow>
     length (cb_storage b) = unat (cb_storage_size b) \<and>
     unat (cb_storage_size b) * unat (cb_element_size b) < 65536 \<and>
     unat (cb_head b) < unat (cb_storage_size b) \<and>
     unat (cb_tail b) < unat (cb_storage_size b) \<and>
     (if cb_empty b then \<not> cb_full b \<and> cb_head b = cb_tail b
      else cb_full b = (cb_head b = cb_tail b))"

definition cb_capacity :: "'a circular_buffer \<Rightarrow> nat" where
  "cb_capacity b = unat (cb_storage_size b)"

text \<open>The number of elements, and the elements from the oldest to the newest.\<close>

definition cb_count :: "'a circular_buffer \<Rightarrow> nat" where
  "cb_count b =
     (if cb_empty b then 0
      else if unat (cb_head b) < unat (cb_tail b) then unat (cb_tail b) - unat (cb_head b)
      else unat (cb_storage_size b) + unat (cb_tail b) - unat (cb_head b))"

definition cb_list :: "'a circular_buffer \<Rightarrow> 'a list" where
  "cb_list b = map (\<lambda>k. cb_storage b ! ((unat (cb_head b) + k) mod unat (cb_storage_size b)))
                 [0..<cb_count b]"

section \<open>Arithmetic of the two pointers\<close>

lemma unat_increase_pointer:
  assumes "unat p < unat n"
  shows "unat (increase_pointer p n) = (unat p + 1) mod unat n"
proof -
  have n: "unat (n - 1) = unat n - 1" using assms by (intro unat_pred) auto
  show ?thesis
  proof (cases "p = n - 1")
    case True
    with assms n show ?thesis by (simp add: increase_pointer_def)
  next
    case False
    with n have "unat p \<noteq> unat n - 1" by (metis u16_eq_iff)
    with assms have lt: "unat p + 1 < unat n" by simp
    moreover have "unat n < 65536" by simp
    ultimately have "unat (p + 1) = unat p + 1" by (intro unat_inc) linarith
    with lt False show ?thesis by (simp add: increase_pointer_def)
  qed
qed

lemma unat_decrease_pointer:
  assumes "unat p < unat n"
  shows "unat (decrease_pointer p n) = (unat p + unat n - 1) mod unat n"
proof (cases "p = 0")
  case True
  have "unat (n - 1) = unat n - 1" using assms by (intro unat_pred) auto
  with True assms show ?thesis by (simp add: decrease_pointer_def)
next
  case False
  then have "unat (p - 1) = unat p - 1" by (rule unat_pred)
  moreover from False have "0 < unat p" by (simp add: unat_gt_0)
  ultimately show ?thesis using False assms
    by (simp add: decrease_pointer_def mod_if)
qed

lemma cb_count_facts:
  assumes "cb_inv b"
  shows cb_count_le: "cb_count b \<le> cb_capacity b"
    and cb_tail_eq: "unat (cb_tail b) = (unat (cb_head b) + cb_count b) mod cb_capacity b"
    and cb_empty_iff: "cb_empty b \<longleftrightarrow> cb_count b = 0"
    and cb_full_iff: "cb_full b \<longleftrightarrow> cb_count b = cb_capacity b"
  using assms
  by (auto simp: cb_inv_def cb_count_def cb_capacity_def u16_eq_iff mod_if split: if_splits)

lemma cb_invI:
  assumes "length (cb_storage b) = cb_capacity b"
    and "cb_capacity b * unat (cb_element_size b) < 65536"
    and "unat (cb_head b) < cb_capacity b"
    and "c \<le> cb_capacity b"
    and "unat (cb_tail b) = (unat (cb_head b) + c) mod cb_capacity b"
    and "cb_empty b = (c = 0)" and "cb_full b = (c = cb_capacity b)"
  shows "cb_inv b" and "cb_count b = c"
  using assms
  by (auto simp: cb_inv_def cb_count_def cb_capacity_def u16_eq_iff mod_if split: if_splits)


text \<open>The invariant and the capacity in the form the later proofs use.\<close>

lemma cb_inv_storage:
  assumes "cb_inv b"
  shows "length (cb_storage b) = cb_capacity b"
    and "cb_capacity b * unat (cb_element_size b) < 65536"
    and "unat (cb_head b) < cb_capacity b"
    and "unat (cb_tail b) < cb_capacity b"
    and "0 < cb_capacity b"
    and "cb_capacity b < 65536"
    and "unat (cb_storage_size b) = cb_capacity b"
  using assms by (auto simp: cb_inv_def cb_capacity_def)

lemma cb_slot_ok: "cb_inv b \<Longrightarrow> unat i < cb_capacity b \<Longrightarrow> slot_ok b i"
proof -
  assume b: "cb_inv b" and i: "unat i < cb_capacity b"
  have "unat i * unat (cb_element_size b) \<le> cb_capacity b * unat (cb_element_size b)"
    using i by (intro mult_le_mono1) simp
  also have "\<dots> < 65536" using b by (rule cb_inv_storage)
  finally show ?thesis using i cb_inv_storage(1) [OF b] by (simp add: slot_ok_def)
qed

section \<open>Reading the contents\<close>

lemma length_cb_list [simp]: "length (cb_list b) = cb_count b"
  by (simp add: cb_list_def)

lemma cb_list_nth:
  "k < cb_count b \<Longrightarrow> cb_list b ! k = cb_storage b ! ((unat (cb_head b) + k) mod cb_capacity b)"
  by (simp add: cb_list_def cb_capacity_def)

lemma cb_list_Nil [cb_simps]: "cb_inv b \<Longrightarrow> cb_list b = [] \<longleftrightarrow> cb_empty b"
  by (simp add: cb_empty_iff flip: length_0_conv)

lemma cb_size_count [cb_simps]:
  assumes b: "cb_inv b"
  shows "unat (circular_buffer_size b) = cb_count b"
proof -
  note s = cb_inv_storage [OF b]
  let ?h = "cb_head b" and ?t = "cb_tail b" and ?n = "cb_storage_size b"
  consider (triv) "cb_empty b \<or> cb_full b" | (up) "\<not> cb_empty b" "\<not> cb_full b" "?h < ?t"
    | (down) "\<not> cb_empty b" "\<not> cb_full b" "\<not> ?h < ?t" by blast
  then show ?thesis
  proof cases
    case triv
    with b s show ?thesis
      by (auto simp: circular_buffer_size_def cb_full_iff cb_empty_iff)
  next
    case up
    then have "unat (?t - ?h) = unat ?t - unat ?h" by (simp add: unat_sub_small)
    with up show ?thesis
      by (simp add: circular_buffer_size_def cb_count_def u16_less_iff)
  next
    case down
    then have lt: "unat ?t < unat ?h"
      using b by (auto simp: cb_inv_def u16_less_iff u16_eq_iff)
    have "?h \<le> ?n" using s by (simp add: u16_le_iff)
    then have d: "unat (?n - ?h) = unat ?n - unat ?h" by (rule unat_sub_small)
    with lt s have "unat (?n - ?h) + unat ?t < 65536" by simp
    then have "unat (?n - ?h + ?t) = unat ?n - unat ?h + unat ?t"
      using d by (simp add: unat_add_small)
    with down lt s show ?thesis
      by (simp add: circular_buffer_size_def cb_count_def u16_less_iff)
  qed
qed

lemma cb_size_of_nat [cb_simps]: "cb_inv b \<Longrightarrow> circular_buffer_size b = of_nat (length (cb_list b))"
  using cb_count_le [of b] cb_inv_storage(6) [of b]
  by (simp add: u16_eq_iff cb_size_count unat_of_nat16)

lemma cb_free_space [cb_simps]:
  assumes b: "cb_inv b"
  shows "unat (circular_buffer_free_space b) = cb_capacity b - cb_count b"
  using cb_size_count [OF b] cb_inv_storage [OF b] cb_count_le [OF b]
  by (simp add: circular_buffer_free_space_def unat_sub_small u16_le_iff)

section \<open>Clearing and initialising\<close>

lemma cb_clear:
  assumes "0 < unat (cb_storage_size b)"
    and "length (cb_storage b) = unat (cb_storage_size b)"
    and "unat (cb_storage_size b) * unat (cb_element_size b) < 65536"
  obtains b' where "circular_buffer_clear z b = Some b'" "cb_inv b'" "cb_list b' = []"
    "cb_storage_size b' = cb_storage_size b" "cb_element_size b' = cb_element_size b"
    "cb_wrap b' = cb_wrap b"
proof -
  let ?b = "b\<lparr>cb_head := 0, cb_tail := 0, cb_empty := True, cb_full := False,
              cb_storage := replicate (unat (cb_storage_size b)) z @
                            drop (unat (cb_storage_size b)) (cb_storage b)\<rparr>"
  have "circular_buffer_clear z b = Some ?b"
    using assms by (simp add: circular_buffer_clear_def)
  moreover have "cb_inv ?b" using assms by (simp add: cb_inv_def)
  moreover have "cb_list ?b = []" by (simp add: cb_list_def cb_count_def)
  ultimately show thesis by (rule that [of ?b]) simp_all
qed


section \<open>Adding and removing single elements\<close>

text \<open>The configuration an operation must not change.\<close>

definition cb_same_config :: "'a circular_buffer \<Rightarrow> 'a circular_buffer \<Rightarrow> bool" where
  "cb_same_config b b' \<longleftrightarrow>
     cb_storage_size b' = cb_storage_size b \<and> cb_element_size b' = cb_element_size b \<and>
     cb_wrap b' = cb_wrap b"

lemma cb_same_configD:
  assumes "cb_same_config b b'"
  shows "cb_capacity b' = cb_capacity b" and "cb_wrap b' = cb_wrap b"
    and "cb_element_size b' = cb_element_size b" and "cb_storage_size b' = cb_storage_size b"
  using assms by (simp_all add: cb_same_config_def cb_capacity_def)

lemma cb_same_config_refl [simp]: "cb_same_config b b"
  by (simp add: cb_same_config_def)

lemma cb_same_config_trans [trans]:
  "cb_same_config a b \<Longrightarrow> cb_same_config b c \<Longrightarrow> cb_same_config a c"
  by (simp add: cb_same_config_def)

lemma ring_mod: "h < n \<Longrightarrow> k \<le> n \<Longrightarrow> (h + k) mod n = (if h + k < n then h + k else h + k - n)"
  for h :: nat
  by (simp add: mod_if)

lemma ring_mod_neq: "k < c \<Longrightarrow> c < n \<Longrightarrow> h < n \<Longrightarrow> (h + k) mod n \<noteq> (h + c) mod n"
  for h :: nat
  by (auto simp: ring_mod)

lemma ring_mod_pred: "t < n \<Longrightarrow> (t + n - 1) mod n = (if t = 0 then n - 1 else t - 1)"
  for t :: nat
  by (auto simp: mod_if)

lemma ring_step_back:
  fixes h :: nat
  assumes "h < n" "0 < c" "c \<le> n" "t = (h + c) mod n" "t' = (if t = 0 then n - 1 else t - 1)"
  shows "t' = (h + (c - 1)) mod n"
proof -
  obtain d where d: "c = Suc d" using assms(2) by (cases c) simp_all
  show ?thesis
    using assms ring_mod [of h n "Suc d"] ring_mod [of h n d] by (auto simp: d split: if_splits)
qed

lemma ring_mod_eq_self: "h < n \<Longrightarrow> k \<le> n \<Longrightarrow> (h + k) mod n = h \<longleftrightarrow> k = 0 \<or> k = n"
  for h :: nat
  by (auto simp: ring_mod)

lemma cb_add_not_full:
  assumes b: "cb_inv b" and nf: "\<not> cb_full b"
  obtains b' where "circular_buffer_add b x = Some (True, b')" "cb_inv b'"
    "cb_list b' = cb_list b @ [x]" "cb_same_config b b'"
proof -
  note s = cb_inv_storage [OF b]
  let ?h = "unat (cb_head b)" and ?c = "cb_count b" and ?n = "cb_capacity b"
  let ?t' = "increase_pointer (cb_tail b) (cb_storage_size b)"
  have c: "?c < ?n" using b nf cb_count_le [OF b] by (simp add: cb_full_iff)
  have t: "unat (cb_tail b) = (?h + ?c) mod ?n" using b by (rule cb_tail_eq)
  have inc: "unat ?t' = (?h + Suc ?c) mod ?n"
    using s t by (simp add: unat_increase_pointer mod_Suc_eq)
  define b' where "b' = b\<lparr>cb_storage := (cb_storage b)[unat (cb_tail b) := x], cb_tail := ?t',
                          cb_empty := False, cb_full := (?t' = cb_head b)\<rparr>"
  have f: "cb_head b' = cb_head b" "cb_tail b' = ?t'" "cb_empty b' = False"
    "cb_full b' = (?t' = cb_head b)" "cb_storage b' = (cb_storage b)[unat (cb_tail b) := x]"
    "cb_capacity b' = ?n" "cb_element_size b' = cb_element_size b"
    by (simp_all add: b'_def cb_capacity_def)
  have ret: "circular_buffer_add b x = Some (True, b')"
    using nf cb_slot_ok [OF b s(4)] by (simp add: circular_buffer_add_def copy_in_def b'_def)
  have "cb_full b' = (Suc ?c = ?n)"
    using ring_mod_eq_self [OF s(3), of "Suc ?c"] inc c f by (simp add: u16_eq_iff)
  then have inv: "cb_inv b'" and cnt: "cb_count b' = Suc ?c"
    using cb_invI [of b' "Suc ?c"] s inc c f by simp_all
  have "cb_list b' = cb_list b @ [x]"
  proof (rule nth_equalityI)
    show "length (cb_list b') = length (cb_list b @ [x])" by (simp add: cnt)
    fix k assume "k < length (cb_list b')"
    then have k: "k < Suc ?c" by (simp add: cnt)
    then have "cb_list b' ! k = cb_storage b' ! ((?h + k) mod ?n)"
      using cnt f by (simp add: cb_list_nth)
    then show "cb_list b' ! k = (cb_list b @ [x]) ! k"
      using k c s t f ring_mod_neq [of k ?c ?n ?h]
      by (auto simp: nth_append cb_list_nth nth_list_update less_Suc_eq)
  qed
  moreover have "cb_same_config b b'" by (simp add: cb_same_config_def b'_def)
  ultimately show thesis using ret inv that by blast
qed

text \<open>Removing the oldest element, and the wrap-around case of \<open>circular_buffer_add\<close>.\<close>

lemma cb_advance_head:
  assumes b: "cb_inv b" and ne: "\<not> cb_empty b"
  defines "b' \<equiv> b\<lparr>cb_head := increase_pointer (cb_head b) (cb_storage_size b), cb_full := False,
                    cb_empty := (cb_tail b = increase_pointer (cb_head b) (cb_storage_size b))\<rparr>"
  shows "cb_inv b'" and "cb_list b' = tl (cb_list b)" and "cb_same_config b b'"
proof -
  note s = cb_inv_storage [OF b]
  let ?h = "unat (cb_head b)" and ?c = "cb_count b" and ?n = "cb_capacity b"
  let ?h' = "increase_pointer (cb_head b) (cb_storage_size b)"
  have c: "0 < ?c" using b ne by (simp add: cb_empty_iff)
  note cn = cb_count_le [OF b]
  have inc: "unat ?h' = (?h + 1) mod ?n" using s by (simp add: unat_increase_pointer)
  have t: "unat (cb_tail b) = (?h + ?c) mod ?n" using b by (rule cb_tail_eq)
  have ht: "(unat ?h' + (?c - 1)) mod ?n = (?h + ?c) mod ?n"
  proof -
    have "(unat ?h' + (?c - 1)) mod ?n = (?h + 1 + (?c - 1)) mod ?n"
      unfolding inc by (rule mod_add_left_eq)
    then show ?thesis using c by simp
  qed
  have lt: "unat ?h' < ?n" using inc s by simp
  have f: "cb_head b' = ?h'" "cb_tail b' = cb_tail b" "cb_full b' = False"
    "cb_empty b' = (cb_tail b = ?h')" "cb_storage b' = cb_storage b"
    "cb_capacity b' = ?n" "cb_element_size b' = cb_element_size b"
    by (simp_all add: b'_def cb_capacity_def)
  have "unat (cb_tail b) = (unat ?h' + (?c - 1)) mod ?n" using t ht by simp
  then have "cb_empty b' = (?c - 1 = 0)"
    using ring_mod_eq_self [OF lt, of "?c - 1"] c cn f by (auto simp: u16_eq_iff)
  then have inv: "cb_inv b'" and cnt: "cb_count b' = ?c - 1"
    using cb_invI [of b' "?c - 1"] s f c cn t ht lt by simp_all
  show "cb_inv b'" by (fact inv)
  show "cb_list b' = tl (cb_list b)"
  proof (rule nth_equalityI)
    show "length (cb_list b') = length (tl (cb_list b))" by (simp add: cnt)
    fix k assume "k < length (cb_list b')"
    then have k: "k < ?c - 1" by (simp add: cnt)
    have "(unat ?h' + k) mod ?n = (?h + Suc k) mod ?n" by (simp add: inc mod_simps)
    with k cnt f show "cb_list b' ! k = tl (cb_list b) ! k"
      by (simp add: cb_list_nth nth_tl)
  qed
  show "cb_same_config b b'" by (simp add: cb_same_config_def b'_def)
qed


lemma cb_pop_empty [cb_simps]: "cb_inv b \<Longrightarrow> cb_list b = [] \<Longrightarrow> circular_buffer_pop w b = Some (False, None, b)"
  by (simp add: circular_buffer_pop_def cb_list_Nil)

lemma cb_pop_nonempty:
  assumes b: "cb_inv b" and ne: "cb_list b \<noteq> []"
  obtains b' where
    "circular_buffer_pop w b = Some (True, if w then Some (hd (cb_list b)) else None, b')"
    "cb_inv b'" "cb_list b' = tl (cb_list b)" "cb_same_config b b'"
proof -
  have ne': "\<not> cb_empty b" using b ne by (simp add: cb_list_Nil)
  then have c: "0 < cb_count b" using b by (simp add: cb_empty_iff)
  have "hd (cb_list b) = cb_storage b ! unat (cb_head b)"
    using cb_list_nth [OF c] cb_inv_storage [OF b] ne by (simp add: hd_conv_nth)
  then have "copy_out b (cb_head b) = Some (hd (cb_list b))"
    using cb_slot_ok [OF b cb_inv_storage(3) [OF b]] by (simp add: copy_out_def)
  with ne' cb_advance_head [OF b ne'] show thesis
    by (intro that) (auto simp: circular_buffer_pop_def)
qed

lemma cb_add_full_wrap:
  assumes b: "cb_inv b" and full: "cb_full b" and wr: "cb_wrap b"
  obtains b' where "circular_buffer_add b x = Some (True, b')" "cb_inv b'"
    "cb_list b' = tl (cb_list b) @ [x]" "cb_same_config b b'"
proof -
  note s = cb_inv_storage [OF b]
  have ne: "\<not> cb_empty b" using b full by (simp add: cb_inv_def split: if_splits)
  define b1 where "b1 = b\<lparr>cb_head := increase_pointer (cb_head b) (cb_storage_size b),
    cb_full := False,
    cb_empty := (cb_tail b = increase_pointer (cb_head b) (cb_storage_size b))\<rparr>"
  have b1: "cb_inv b1" "cb_list b1 = tl (cb_list b)" "cb_same_config b b1"
    unfolding b1_def using cb_advance_head [OF b ne] by blast+
  have nf: "\<not> cb_full b1" by (simp add: b1_def)
  from cb_add_not_full [OF b1(1) nf] obtain b' where
    b': "circular_buffer_add b1 x = Some (True, b')" "cb_inv b'"
      "cb_list b' = cb_list b1 @ [x]" "cb_same_config b1 b'" .
  have "circular_buffer_add b x = circular_buffer_add b1 x"
    using full wr by (simp add: circular_buffer_add_def copy_in_def slot_ok_def b1_def)
  with b' b1 show thesis
    by (intro that [of b']) (auto intro: cb_same_config_trans)
qed

lemma cb_add_full_no_wrap [cb_simps]:
  "cb_full b \<Longrightarrow> \<not> cb_wrap b \<Longrightarrow> circular_buffer_add b x = Some (False, b)"
  by (simp add: circular_buffer_add_def)


section \<open>Adding arrays\<close>

text \<open>The newest \<open>n\<close> elements of a list: what an overwriting buffer of capacity \<open>n\<close> keeps.\<close>

definition keep_last :: "nat \<Rightarrow> 'a list \<Rightarrow> 'a list" where
  "keep_last n xs = drop (length xs - n) xs"

lemma keep_last_all [simp]: "length xs \<le> n \<Longrightarrow> keep_last n xs = xs"
  by (simp add: keep_last_def)

lemma keep_last_snoc:
  "0 < n \<Longrightarrow> keep_last n (keep_last n xs @ ys) = keep_last n (xs @ ys)"
  by (cases "length xs \<le> n") (auto simp: keep_last_def add.commute)

lemma length_keep_last [simp]: "length (keep_last n xs) = min n (length xs)"
  by (simp add: keep_last_def)

text \<open>One add on a buffer that can take it, in the total form the queue proofs rewrite with.\<close>

definition cb_push :: "'a circular_buffer \<Rightarrow> 'a \<Rightarrow> 'a circular_buffer" where
  "cb_push b x = snd (the (circular_buffer_add b x))"

lemma cb_push:
  assumes b: "cb_inv b" and room: "cb_wrap b \<or> \<not> cb_full b"
  shows cb_add_push: "circular_buffer_add b x = Some (True, cb_push b x)"
    and cb_inv_push: "cb_inv (cb_push b x)"
    and cb_list_push: "cb_list (cb_push b x) = keep_last (cb_capacity b) (cb_list b @ [x])"
    and cb_config_push: "cb_same_config b (cb_push b x)"
proof -
  have "circular_buffer_add b x = Some (True, cb_push b x) \<and> cb_inv (cb_push b x) \<and>
    cb_list (cb_push b x) = keep_last (cb_capacity b) (cb_list b @ [x]) \<and>
    cb_same_config b (cb_push b x)"
  proof (cases "cb_full b")
    case False
    then have "cb_count b < cb_capacity b" using b cb_count_le [OF b] by (simp add: cb_full_iff)
    then have "keep_last (cb_capacity b) (cb_list b @ [x]) = cb_list b @ [x]" by simp
    moreover from cb_add_not_full [OF b False, of x] obtain b' where
      "circular_buffer_add b x = Some (True, b')" "cb_inv b'" "cb_list b' = cb_list b @ [x]"
      "cb_same_config b b'" .
    ultimately show ?thesis by (simp add: cb_push_def)
  next
    case True
    then have c: "cb_count b = cb_capacity b" using b by (simp add: cb_full_iff)
    with cb_inv_storage(5) [OF b]
    have "keep_last (cb_capacity b) (cb_list b @ [x]) = tl (cb_list b) @ [x]"
      by (auto simp: keep_last_def drop_Suc)
    moreover from room True have "cb_wrap b" by simp
    from cb_add_full_wrap [OF b True this, of x] obtain b' where
      "circular_buffer_add b x = Some (True, b')" "cb_inv b'" "cb_list b' = tl (cb_list b) @ [x]"
      "cb_same_config b b'" .
    ultimately show ?thesis by (simp add: cb_push_def)
  qed
  then show "circular_buffer_add b x = Some (True, cb_push b x)" and "cb_inv (cb_push b x)"
    and "cb_list (cb_push b x) = keep_last (cb_capacity b) (cb_list b @ [x])"
    and "cb_same_config b (cb_push b x)" by blast+
qed

lemma add_elements_ok:
  assumes "cb_inv b" and "cb_wrap b \<or> cb_count b + length xs \<le> cb_capacity b"
  shows "\<exists>b'. add_elements b xs = Some b' \<and> cb_inv b' \<and>
              cb_list b' = keep_last (cb_capacity b) (cb_list b @ xs) \<and> cb_same_config b b'"
  using assms
proof (induction xs arbitrary: b)
  case Nil
  then show ?case using cb_count_le [OF Nil.prems(1)] by simp
next
  case (Cons x xs)
  note b = Cons.prems(1)
  have room: "cb_wrap b \<or> \<not> cb_full b" using Cons.prems by (auto simp: cb_full_iff)
  note push = cb_push [OF b room, of x]
  note same = cb_same_configD [OF push(4)]
  have "cb_wrap (cb_push b x) \<or> cb_count (cb_push b x) + length xs \<le> cb_capacity (cb_push b x)"
    using Cons.prems(2) arg_cong [OF push(3), of length] by (auto simp: same)
  from Cons.IH [OF push(2) this] obtain b' where
    b': "add_elements (cb_push b x) xs = Some b'" "cb_inv b'"
      "cb_list b' = keep_last (cb_capacity b) (cb_list (cb_push b x) @ xs)"
      "cb_same_config (cb_push b x) b'" by (auto simp: same)
  have "cb_list b' = keep_last (cb_capacity b) (cb_list b @ x # xs)"
    using cb_inv_storage(5) [OF b] by (simp add: b'(3) push(3) keep_last_snoc)
  with b' push show ?case by (auto intro: cb_same_config_trans)
qed

lemma cb_add_array:
  assumes b: "cb_inv b" and len: "unat len \<le> length xs"
    and room: "cb_wrap b \<or> cb_count b + unat len \<le> cb_capacity b"
  obtains b' where "circular_buffer_add_array b xs len = Some (True, b')" "cb_inv b'"
    "cb_list b' = keep_last (cb_capacity b) (cb_list b @ take (unat len) xs)"
    "cb_same_config b b'"
proof -
  have "cb_wrap b \<or> cb_count b + length (take (unat len) xs) \<le> cb_capacity b"
    using room len by simp
  from add_elements_ok [OF b this] obtain b' where
    b': "add_elements b (take (unat len) xs) = Some b'" "cb_inv b'"
      "cb_list b' = keep_last (cb_capacity b) (cb_list b @ take (unat len) xs)"
      "cb_same_config b b'" by blast
  moreover have "\<not> (\<not> cb_wrap b \<and> len > circular_buffer_free_space b)"
    using room cb_free_space [OF b] by (auto simp: u16_less_iff)
  ultimately show thesis using len
    by (intro that [of b']) (auto simp: circular_buffer_add_array_def Let_def)
qed

lemma cb_add_array_rejected:
  assumes b: "cb_inv b" and "\<not> cb_wrap b" and "cb_capacity b < cb_count b + unat len"
  shows "circular_buffer_add_array b xs len = Some (False, b)"
  using assms cb_free_space [OF b] cb_count_le [OF b]
  by (auto simp: circular_buffer_add_array_def Let_def u16_less_iff)

lemma cb_add_as_many:
  assumes b: "cb_inv b" and len: "unat len \<le> length xs"
  obtains b' n where "circular_buffer_add_as_many_as_possible b xs len = Some (n, b')"
    "unat n = min (unat len) (cb_capacity b - cb_count b)"
    "cb_inv b'" "cb_list b' = cb_list b @ take (unat n) xs" "cb_same_config b b'"
proof -
  let ?free = "circular_buffer_free_space b"
  let ?n = "if len < ?free then len else ?free"
  have n: "unat ?n = min (unat len) (cb_capacity b - cb_count b)"
    using cb_free_space [OF b] by (auto simp: u16_less_iff)
  then have room: "cb_count b + unat ?n \<le> cb_capacity b" using cb_count_le [OF b] by simp
  with n len have "cb_wrap b \<or> cb_count b + length (take (unat ?n) xs) \<le> cb_capacity b" by simp
  from add_elements_ok [OF b this] obtain b' where
    b': "add_elements b (take (unat ?n) xs) = Some b'" "cb_inv b'"
      "cb_list b' = cb_list b @ take (unat ?n) xs" "cb_same_config b b'"
    using room n len by auto
  have "unat ?n \<le> length xs" using n len by simp
  with b' n show thesis
    by (intro that [of ?n b']) (auto simp: circular_buffer_add_as_many_as_possible_def Let_def)
qed

section \<open>Removing and reading arrays\<close>

lemma pop_elements_ok:
  assumes "cb_inv b"
  shows "\<exists>b'. pop_elements w n b =
              Some (min n (cb_count b), if w then take n (cb_list b) else [], b') \<and>
              cb_inv b' \<and> cb_list b' = drop n (cb_list b) \<and> cb_same_config b b'"
  using assms
proof (induction n arbitrary: b)
  case 0
  then show ?case by simp
next
  case (Suc n)
  note b = Suc.prems
  show ?case
  proof (cases "cb_list b = []")
    case True
    then have "cb_count b = 0" by (metis length_cb_list list.size(3))
    with True show ?thesis using b by (simp add: cb_pop_empty)
  next
    case False
    from cb_pop_nonempty [OF b False, of w] obtain b1 where
      b1: "circular_buffer_pop w b = Some (True, if w then Some (hd (cb_list b)) else None, b1)"
        "cb_inv b1" "cb_list b1 = tl (cb_list b)" "cb_same_config b b1" .
    from False obtain x xs where l: "cb_list b = x # xs" by (auto simp: neq_Nil_conv)
    with b1(3) have l1: "cb_list b1 = xs" by simp
    have cnt: "cb_count b = Suc (cb_count b1)"
      using arg_cong [OF l, of length] arg_cong [OF l1, of length] by simp
    from Suc.IH [OF b1(2)] obtain b' where
      "pop_elements w n b1 = Some (min n (cb_count b1), if w then take n (cb_list b1) else [], b')"
      "cb_inv b'" "cb_list b' = drop n (cb_list b1)" "cb_same_config b1 b'" by blast
    with b1(1,4) show ?thesis
      by (intro exI [of _ b']) (simp add: l l1 cnt cb_same_config_trans [OF b1(4)])
  qed
qed

lemma cb_pop_array:
  assumes b: "cb_inv b"
  obtains b' n where
    "circular_buffer_pop_array w b len = Some (n, if w then take (unat len) (cb_list b) else [], b')"
    "unat n = min (unat len) (cb_count b)"
    "cb_inv b'" "cb_list b' = drop (unat len) (cb_list b)" "cb_same_config b b'"
proof -
  from pop_elements_ok [OF b, of w "unat len"] obtain b' where
    p: "pop_elements w (unat len) b =
        Some (min (unat len) (cb_count b), if w then take (unat len) (cb_list b) else [], b')"
      "cb_inv b'" "cb_list b' = drop (unat len) (cb_list b)" "cb_same_config b b'" by blast
  have "min (unat len) (cb_count b) < 65536" by (simp add: min.strict_coboundedI1)
  with p show thesis
    by (intro that [of "of_nat (min (unat len) (cb_count b))" b'])
      (simp_all add: circular_buffer_pop_array_def unat_of_nat16)
qed

lemma cb_drop_from_beginning:
  assumes b: "cb_inv b"
  obtains b' n where "circular_buffer_drop_from_beggining b len = Some (n, b')"
    "unat n = min (unat len) (cb_count b)"
    "cb_inv b'" "cb_list b' = drop (unat len) (cb_list b)" "cb_same_config b b'"
  by (rule cb_pop_array [OF b, of False len])
    (auto intro: that simp: circular_buffer_drop_from_beggining_def)


text \<open>
  \<open>circular_buffer_peek\<close> computes \<open>head + element_position\<close> in 16 bits, which is right as long as
  twice the capacity fits; beyond that the sum can wrap below \<open>storage_size\<close> and the wrong slot
  is read.  Every buffer of the firmware has at most 768 elements.
\<close>

lemma cb_peek:
  assumes b: "cb_inv b" and small: "cb_capacity b \<le> 32768"
  shows "circular_buffer_peek b pos =
    (if unat pos < cb_count b then Some (True, Some (cb_list b ! unat pos)) else Some (False, None))"
proof (cases "unat pos < cb_count b")
  case False
  then show ?thesis
    using cb_size_count [OF b] by (simp add: circular_buffer_peek_def u16_le_iff)
next
  case True
  note s = cb_inv_storage [OF b]
  let ?h = "cb_head b" and ?n = "cb_storage_size b"
  let ?i = "if ?h + pos < ?n then ?h + pos else ?h + pos - ?n"
  have ne: "\<not> cb_empty b" using b True by (simp add: cb_empty_iff)
  have pn: "unat pos < cb_capacity b" using True cb_count_le [OF b] by simp
  with s small have "unat ?h + unat pos < 65536" by simp
  then have "unat (?h + pos) = unat ?h + unat pos" by (rule unat_add_small)
  with s pn have "unat ?i = (unat ?h + unat pos) mod cb_capacity b"
    by (auto simp: u16_less_iff u16_le_iff ring_mod unat_sub_small not_less)
  then have "copy_out b ?i = Some (cb_list b ! unat pos)"
    using cb_slot_ok [OF b, of ?i] s(5) True by (simp add: copy_out_def cb_list_nth)
  with True ne show ?thesis
    using cb_size_count [OF b] by (simp add: circular_buffer_peek_def u16_le_iff)
qed

lemma peek_elements_ok:
  assumes b: "cb_inv b" and small: "cb_capacity b \<le> 32768"
    and "unat pos + n < 65536"
  shows "peek_elements b pos n =
    Some (min n (cb_count b - unat pos), take n (drop (unat pos) (cb_list b)))"
  using assms(3)
proof (induction n arbitrary: pos)
  case 0
  then show ?case by simp
next
  case (Suc n)
  then have p1: "unat (pos + 1) = unat pos + 1" by (simp add: unat_inc)
  show ?case
  proof (cases "unat pos < cb_count b")
    case True
    then have "drop (unat pos) (cb_list b) = cb_list b ! unat pos # drop (Suc (unat pos)) (cb_list b)"
      by (simp add: Cons_nth_drop_Suc)
    with True Suc p1 show ?thesis by (simp add: cb_peek [OF b small])
  qed (simp add: cb_peek [OF b small])
qed

lemma cb_peek_array:
  assumes b: "cb_inv b" and small: "cb_capacity b \<le> 32768" and fits: "unat pos + unat len < 65536"
  shows "circular_buffer_peek_array b pos len =
    Some (of_nat (min (unat len) (cb_count b - unat pos)), take (unat len) (drop (unat pos) (cb_list b)))"
  using peek_elements_ok [OF b small fits] by (simp add: circular_buffer_peek_array_def)

lemma cb_tail_drop_last:
  assumes b: "cb_inv b" and pos: "0 < cb_count b"
  shows "unat (cb_tail (drop_last_element b)) =
         (unat (cb_head b) + (cb_count b - 1)) mod cb_capacity b"
proof (rule ring_step_back [OF cb_inv_storage(3) [OF b] pos cb_count_le [OF b] cb_tail_eq [OF b]])
  note s = cb_inv_storage [OF b]
  show "unat (cb_tail (drop_last_element b)) =
        (if unat (cb_tail b) = 0 then cb_capacity b - 1 else unat (cb_tail b) - 1)"
    using ring_mod_pred [OF s(4)] s(4,7) by (simp add: drop_last_element_def unat_decrease_pointer)
qed

lemma cb_drop_last_element:
  assumes b: "cb_inv b" and two: "Suc 0 < cb_count b"
  shows "cb_inv (drop_last_element b)"
    and "cb_list (drop_last_element b) = take (cb_count b - 1) (cb_list b)"
    and "cb_same_config b (drop_last_element b)"
proof -
  note s = cb_inv_storage [OF b]
  let ?h = "unat (cb_head b)" and ?c = "cb_count b" and ?n = "cb_capacity b"
  let ?b = "drop_last_element b"
  have f: "cb_head ?b = cb_head b" "cb_full ?b = False" "cb_storage ?b = cb_storage b"
    "cb_empty ?b = cb_empty b" "cb_capacity ?b = ?n" "cb_element_size ?b = cb_element_size b"
    "cb_tail ?b = decrease_pointer (cb_tail b) (cb_storage_size b)"
    by (simp_all add: drop_last_element_def cb_capacity_def)
  note cn = cb_count_le [OF b]
  have t: "unat (cb_tail ?b) = (?h + (?c - 1)) mod ?n"
    using two by (intro cb_tail_drop_last [OF b]) simp
  have e: "\<not> cb_empty b" using b two by (simp add: cb_empty_iff)
  have inv: "cb_inv ?b" and cnt: "cb_count ?b = ?c - 1"
    using cb_invI [of ?b "?c - 1"] s f t e cn two by simp_all
  show "cb_inv ?b" by (fact inv)
  show "cb_list ?b = take (?c - 1) (cb_list b)"
  proof (rule nth_equalityI)
    show "length (cb_list ?b) = length (take (?c - 1) (cb_list b))" by (simp add: cnt)
    fix k assume "k < length (cb_list ?b)"
    with cnt f show "cb_list ?b ! k = take (?c - 1) (cb_list b) ! k" by (simp add: cb_list_nth)
  qed
  show "cb_same_config b ?b" by (simp add: cb_same_config_def drop_last_element_def)
qed

lemma cb_drop_last_elements:
  assumes b: "cb_inv b"
  shows "n < cb_count b \<Longrightarrow>
         cb_inv ((drop_last_element ^^ n) b) \<and>
         cb_list ((drop_last_element ^^ n) b) = take (cb_count b - n) (cb_list b) \<and>
         cb_same_config b ((drop_last_element ^^ n) b)"
proof (induction n)
  case 0
  show ?case using b by simp
next
  case (Suc n)
  let ?b = "(drop_last_element ^^ n) b"
  from Suc have IH: "cb_inv ?b" "cb_list ?b = take (cb_count b - n) (cb_list b)"
    "cb_same_config b ?b" by simp_all
  have cnt: "cb_count ?b = cb_count b - n" using arg_cong [OF IH(2), of length] by simp
  with Suc.prems have "Suc 0 < cb_count ?b" by simp
  from cb_drop_last_element [OF IH(1) this] IH(2,3) cnt show ?case
    by (auto simp: min_def intro: cb_same_config_trans)
qed

lemma cb_drop_from_end:
  assumes "cb_inv b" and "unat n < cb_count b"
  obtains b' where "circular_buffer_drop_from_end b n = (n, b')" "cb_inv b'"
    "cb_list b' = take (cb_count b - unat n) (cb_list b)" "cb_same_config b b'"
  using cb_drop_last_elements [OF assms] that by (simp add: circular_buffer_drop_from_end_def)

text \<open>
  Dropping every element does not empty the buffer: the loop never sets \<open>empty\<close>, so the two
  pointers meet with both flags clear and the buffer reports \<open>storage_size\<close> elements.
\<close>

lemma cb_drop_all_from_end:
  assumes b: "cb_inv b" and pos: "0 < cb_count b" and n: "unat n = cb_count b"
  defines "b' \<equiv> snd (circular_buffer_drop_from_end b n)"
  shows "\<not> cb_empty b'" and "\<not> cb_full b'" and "circular_buffer_size b' = cb_storage_size b"
proof -
  obtain m where m: "cb_count b = Suc m" using pos by (cases "cb_count b") simp_all
  let ?b = "(drop_last_element ^^ m) b"
  have "cb_inv ?b \<and> cb_list ?b = take (cb_count b - m) (cb_list b) \<and> cb_same_config b ?b"
    using m by (intro cb_drop_last_elements [OF b]) simp
  then have i: "cb_inv ?b" "cb_list ?b = take 1 (cb_list b)" "cb_same_config b ?b"
    using m by auto
  note s = cb_inv_storage [OF i(1)]
  have one: "cb_count ?b = 1" using arg_cong [OF i(2), of length] pos by simp
  have e: "\<not> cb_empty ?b" using cb_empty_iff [OF i(1)] one by simp
  have b': "b' = drop_last_element ?b"
    by (simp add: b'_def circular_buffer_drop_from_end_def n m)
  have ne: "\<not> cb_empty b'" and nf: "\<not> cb_full b'"
    using e by (simp_all add: b' drop_last_element_def)
  then show "\<not> cb_empty b'" and "\<not> cb_full b'" by simp_all
  have "unat (cb_tail b') = unat (cb_head ?b)"
    using cb_tail_drop_last [OF i(1)] one s(3) by (simp add: b')
  then have "cb_tail b' = cb_head b'"
    using s(3) by (simp add: b' drop_last_element_def u16_eq_iff)
  then show "circular_buffer_size b' = cb_storage_size b"
    using ne nf cb_same_configD(4) [OF i(3)]
    by (simp add: circular_buffer_size_def b' drop_last_element_def)
qed

section \<open>The interface of a bounded queue\<close>

text \<open>
  What the event queues, the readings log and the system log rely on.  \<open>enq\<close> and \<open>deq\<close> are the
  operations the clients call; the laws say what each call does on every branch.
\<close>

locale bounded_fifo =
  fixes inv :: "'q \<Rightarrow> bool"
    and contents :: "'q \<Rightarrow> 'e list"
    and capacity :: "'q \<Rightarrow> nat"
    and overwrites :: "'q \<Rightarrow> bool"
    and enq :: "'q \<Rightarrow> 'e \<Rightarrow> (bool \<times> 'q) option"
    and deq :: "'q \<Rightarrow> (bool \<times> 'e option \<times> 'q) option"
  assumes capacity_pos: "inv q \<Longrightarrow> 0 < capacity q"
    and contents_bound: "inv q \<Longrightarrow> length (contents q) \<le> capacity q"
    and enq_room: "inv q \<Longrightarrow> overwrites q \<or> length (contents q) < capacity q \<Longrightarrow>
      \<exists>q'. enq q x = Some (True, q') \<and> inv q' \<and> capacity q' = capacity q \<and>
           overwrites q' = overwrites q \<and>
           contents q' = keep_last (capacity q) (contents q @ [x])"
    and enq_refused: "inv q \<Longrightarrow> \<not> overwrites q \<Longrightarrow> length (contents q) = capacity q \<Longrightarrow>
      enq q x = Some (False, q)"
    and deq_empty: "inv q \<Longrightarrow> contents q = [] \<Longrightarrow> deq q = Some (False, None, q)"
    and deq_first: "inv q \<Longrightarrow> contents q = x # xs \<Longrightarrow>
      \<exists>q'. deq q = Some (True, Some x, q') \<and> inv q' \<and> capacity q' = capacity q \<and>
           overwrites q' = overwrites q \<and> contents q' = xs"

text \<open>Runs of a queue: enqueue a list, then dequeue until the queue refuses.\<close>

fun enq_all :: "('q \<Rightarrow> 'e \<Rightarrow> (bool \<times> 'q) option) \<Rightarrow> 'q \<Rightarrow> 'e list \<Rightarrow> 'q option" where
  "enq_all enq q [] = Some q"
| "enq_all enq q (x # xs) = do { (_, q') \<leftarrow> enq q x; enq_all enq q' xs }"

fun drain :: "('q \<Rightarrow> (bool \<times> 'e option \<times> 'q) option) \<Rightarrow> nat \<Rightarrow> 'q \<Rightarrow> ('e list \<times> 'q) option" where
  "drain deq 0 q = Some ([], q)"
| "drain deq (Suc n) q = do {
     (ok, out, q') \<leftarrow> deq q;
     case out of None \<Rightarrow> Some ([], q')
     | Some x \<Rightarrow> do { (xs, q'') \<leftarrow> drain deq n q'; Some (x # xs, q'') }
   }"

context bounded_fifo
begin

lemma enq_all_overwriting:
  "inv q \<Longrightarrow> overwrites q \<Longrightarrow>
   \<exists>q'. enq_all enq q xs = Some q' \<and> inv q' \<and> capacity q' = capacity q \<and> overwrites q' \<and>
        contents q' = keep_last (capacity q) (contents q @ xs)"
proof (induction xs arbitrary: q)
  case Nil
  then show ?case using contents_bound by simp
next
  case (Cons x xs)
  from enq_room [OF Cons.prems(1), of x] Cons.prems(2) obtain q1 where
    q1: "enq q x = Some (True, q1)" "inv q1" "capacity q1 = capacity q" "overwrites q1"
      "contents q1 = keep_last (capacity q) (contents q @ [x])" by auto
  from Cons.IH [OF q1(2,4)] q1 capacity_pos [OF Cons.prems(1)] show ?case
    by (auto simp: keep_last_snoc)
qed

lemma enq_all_fitting:
  "inv q \<Longrightarrow> length (contents q) + length xs \<le> capacity q \<Longrightarrow>
   \<exists>q'. enq_all enq q xs = Some q' \<and> inv q' \<and> capacity q' = capacity q \<and>
        overwrites q' = overwrites q \<and> contents q' = contents q @ xs"
proof (induction xs arbitrary: q)
  case Nil
  then show ?case by simp
next
  case (Cons x xs)
  from enq_room [OF Cons.prems(1), of x] Cons.prems(2) obtain q1 where
    q1: "enq q x = Some (True, q1)" "inv q1" "capacity q1 = capacity q"
      "overwrites q1 = overwrites q" "contents q1 = contents q @ [x]" by auto
  from Cons.IH [OF q1(2)] q1 Cons.prems(2) show ?case by auto
qed

lemma drain_contents:
  "inv q \<Longrightarrow> length (contents q) \<le> n \<Longrightarrow>
   \<exists>q'. drain deq n q = Some (contents q, q') \<and> inv q' \<and> contents q' = [] \<and>
        capacity q' = capacity q \<and> overwrites q' = overwrites q"
proof (induction n arbitrary: q)
  case 0
  then show ?case by simp
next
  case (Suc n)
  show ?case
  proof (cases "contents q")
    case Nil
    with Suc.prems deq_empty show ?thesis by simp
  next
    case (Cons x xs)
    from deq_first [OF Suc.prems(1) Cons] obtain q1 where
      q1: "deq q = Some (True, Some x, q1)" "inv q1" "contents q1 = xs" "capacity q1 = capacity q"
        "overwrites q1 = overwrites q" by blast
    from Suc.IH [OF q1(2)] q1 Suc.prems(2) Cons show ?thesis by auto
  qed
qed

end

interpretation cb: bounded_fifo cb_inv cb_list cb_capacity cb_wrap circular_buffer_add
  "circular_buffer_pop True"
proof unfold_locales
  fix b :: "'a circular_buffer" and x :: 'a and xs :: "'a list"
  assume b: "cb_inv b"
  show "0 < cb_capacity b" using b by (rule cb_inv_storage)
  show "length (cb_list b) \<le> cb_capacity b" using cb_count_le [OF b] by simp
  show "\<exists>b'. circular_buffer_add b x = Some (True, b') \<and> cb_inv b' \<and> cb_capacity b' = cb_capacity b \<and>
         cb_wrap b' = cb_wrap b \<and> cb_list b' = keep_last (cb_capacity b) (cb_list b @ [x])"
    if "cb_wrap b \<or> length (cb_list b) < cb_capacity b"
  proof -
    have "cb_wrap b \<or> \<not> cb_full b" using that b by (auto simp: cb_full_iff)
    from cb_push [OF b this, of x] show ?thesis by (auto dest: cb_same_configD)
  qed
  show "circular_buffer_add b x = Some (False, b)"
    if "\<not> cb_wrap b" "length (cb_list b) = cb_capacity b"
    using that b by (simp add: cb_add_full_no_wrap cb_full_iff)
  show "circular_buffer_pop True b = Some (False, None, b)" if "cb_list b = []"
    using b that by (rule cb_pop_empty)
  show "\<exists>b'. circular_buffer_pop True b = Some (True, Some x, b') \<and> cb_inv b' \<and>
         cb_capacity b' = cb_capacity b \<and> cb_wrap b' = cb_wrap b \<and> cb_list b' = xs"
    if l: "cb_list b = x # xs"
  proof -
    from l have "cb_list b \<noteq> []" by simp
    from cb_pop_nonempty [OF b this, of True] obtain b' where
      "circular_buffer_pop True b = Some (True, Some (hd (cb_list b)), b')"
      "cb_inv b'" "cb_list b' = tl (cb_list b)" "cb_same_config b b'" by auto
    with l show ?thesis by (auto dest: cb_same_configD)
  qed
qed

end
