(* ===== verification/Buffer_Refinement.thy ===== *)
theory Buffer_Refinement
  imports Circular_Buffer
begin

text \<open>
  The contract of the ring buffer as a whole.  The abstract machine is a list with a capacity; its
  operations are the functions \<open>q_exec\<close> a reader of \<open>circular_buffer.h\<close> expects.  The
  concrete machine \<open>cb_exec\<close> calls the modelled C functions.  The refinement theorem says that
  any sequence of calls gives, call by call, the results of the abstract machine, never reaches
  undefined behaviour, and ends in the corresponding state.  What a call needs is stated on the abstract
  queue: \<open>circular_buffer_drop_from_end\<close> keeps the contract only while an element remains.
\<close>

section \<open>Calls and their results\<close>

datatype 'a cb_call =
    Add 'a
  | AddArray "'a list"
  | AddAsMany "'a list"
  | Pop
  | PopArray u16
  | DropFirst u16
  | DropLast u16
  | Peek u16
  | PeekArray u16 u16
  | Size
  | FreeSpace
  | IsEmpty
  | IsFull
  | Clear

datatype 'a cb_result =
    RBool bool
  | RCount nat
  | RElement bool "'a option"
  | RArray nat "'a list"
  | RUnit

text \<open>What a call needs when the queue holds \<open>q\<close>.\<close>

fun call_fits :: "'a list \<Rightarrow> 'a cb_call \<Rightarrow> bool" where
  "call_fits q (AddArray xs) = (length xs < 65536)"
| "call_fits q (AddAsMany xs) = (length xs < 65536)"
| "call_fits q (PeekArray pos len) = (unat pos + unat len < 65536)"
| "call_fits q (DropLast k) = (k = 0 \<or> unat k < length q)"
| "call_fits q _ = True"

section \<open>The concrete and the abstract machine\<close>

fun cb_exec :: "'a \<Rightarrow> 'a circular_buffer \<Rightarrow> 'a cb_call \<Rightarrow> ('a cb_result \<times> 'a circular_buffer) option" where
  "cb_exec z b (Add x) = do { (r, b') \<leftarrow> circular_buffer_add b x; Some (RBool r, b') }"
| "cb_exec z b (AddArray xs) =
     do { (r, b') \<leftarrow> circular_buffer_add_array b xs (of_nat (length xs)); Some (RBool r, b') }"
| "cb_exec z b (AddAsMany xs) =
     do { (n, b') \<leftarrow> circular_buffer_add_as_many_as_possible b xs (of_nat (length xs));
          Some (RCount (unat n), b') }"
| "cb_exec z b Pop = do { (r, x, b') \<leftarrow> circular_buffer_pop True b; Some (RElement r x, b') }"
| "cb_exec z b (PopArray n) =
     do { (k, xs, b') \<leftarrow> circular_buffer_pop_array True b n; Some (RArray (unat k) xs, b') }"
| "cb_exec z b (DropFirst n) =
     do { (k, b') \<leftarrow> circular_buffer_drop_from_beggining b n; Some (RCount (unat k), b') }"
| "cb_exec z b (DropLast n) = (let (k, b') = circular_buffer_drop_from_end b n in Some (RCount (unat k), b'))"
| "cb_exec z b (Peek i) = do { (r, x) \<leftarrow> circular_buffer_peek b i; Some (RElement r x, b) }"
| "cb_exec z b (PeekArray i n) =
     do { (k, xs) \<leftarrow> circular_buffer_peek_array b i n; Some (RArray (unat k) xs, b) }"
| "cb_exec z b Size = Some (RCount (unat (circular_buffer_size b)), b)"
| "cb_exec z b FreeSpace = Some (RCount (unat (circular_buffer_free_space b)), b)"
| "cb_exec z b IsEmpty = Some (RBool (circular_buffer_empty b), b)"
| "cb_exec z b IsFull = Some (RBool (circular_buffer_full b), b)"
| "cb_exec z b Clear = do { b' \<leftarrow> circular_buffer_clear z b; Some (RUnit, b') }"

fun cb_run :: "'a \<Rightarrow> 'a circular_buffer \<Rightarrow> 'a cb_call list \<Rightarrow> ('a cb_result list \<times> 'a circular_buffer) option" where
  "cb_run z b [] = Some ([], b)"
| "cb_run z b (c # cs) = do {
     (r, b') \<leftarrow> cb_exec z b c;
     (rs, b'') \<leftarrow> cb_run z b' cs;
     Some (r # rs, b'')
   }"

text \<open>The abstract queue: capacity \<open>n\<close>, overwriting when \<open>wr\<close>, contents oldest first.\<close>

fun q_exec :: "nat \<Rightarrow> bool \<Rightarrow> 'a list \<Rightarrow> 'a cb_call \<Rightarrow> 'a cb_result \<times> 'a list" where
  "q_exec n wr q (Add x) =
     (if wr \<or> length q < n then (RBool True, keep_last n (q @ [x])) else (RBool False, q))"
| "q_exec n wr q (AddArray xs) =
     (if wr \<or> length q + length xs \<le> n then (RBool True, keep_last n (q @ xs)) else (RBool False, q))"
| "q_exec n wr q (AddAsMany xs) =
     (let k = min (length xs) (n - length q) in (RCount k, q @ take k xs))"
| "q_exec n wr q Pop =
     (case q of [] \<Rightarrow> (RElement False None, []) | x # q' \<Rightarrow> (RElement True (Some x), q'))"
| "q_exec n wr q (PopArray k) = (RArray (min (unat k) (length q)) (take (unat k) q), drop (unat k) q)"
| "q_exec n wr q (DropFirst k) = (RCount (min (unat k) (length q)), drop (unat k) q)"
| "q_exec n wr q (DropLast k) = (RCount (unat k), take (length q - unat k) q)"
| "q_exec n wr q (Peek i) =
     (if unat i < length q then (RElement True (Some (q ! unat i)), q) else (RElement False None, q))"
| "q_exec n wr q (PeekArray i k) =
     (RArray (min (unat k) (length q - unat i)) (take (unat k) (drop (unat i) q)), q)"
| "q_exec n wr q Size = (RCount (length q), q)"
| "q_exec n wr q FreeSpace = (RCount (n - length q), q)"
| "q_exec n wr q IsEmpty = (RBool (q = []), q)"
| "q_exec n wr q IsFull = (RBool (length q = n), q)"
| "q_exec n wr q Clear = (RUnit, [])"

fun q_run :: "nat \<Rightarrow> bool \<Rightarrow> 'a list \<Rightarrow> 'a cb_call list \<Rightarrow> 'a cb_result list \<times> 'a list" where
  "q_run n wr q [] = ([], q)"
| "q_run n wr q (c # cs) =
     (let (r, q') = q_exec n wr q c; (rs, q'') = q_run n wr q' cs in (r # rs, q''))"

text \<open>Every call of a sequence finds the queue as it needs it.\<close>

fun calls_fit :: "nat \<Rightarrow> bool \<Rightarrow> 'a list \<Rightarrow> 'a cb_call list \<Rightarrow> bool" where
  "calls_fit n wr q [] = True"
| "calls_fit n wr q (c # cs) = (call_fits q c \<and> calls_fit n wr (snd (q_exec n wr q c)) cs)"

section \<open>Simulation\<close>

definition cb_simulates :: "'a circular_buffer \<Rightarrow> ('a cb_result \<times> 'a circular_buffer) option \<Rightarrow> 'a cb_result \<times> 'a list \<Rightarrow> bool" where
  "cb_simulates b res spec \<longleftrightarrow>
     (\<exists>b'. res = Some (fst spec, b') \<and> cb_inv b' \<and> cb_list b' = snd spec \<and> cb_same_config b b')"

lemma cb_exec_simulates:
  assumes b: "cb_inv b" and small: "cb_capacity b \<le> 32768" and fits: "call_fits (cb_list b) c"
  shows "cb_simulates b (cb_exec z b c) (q_exec (cb_capacity b) (cb_wrap b) (cb_list b) c)"
proof (cases c)
  case (Add x)
  show ?thesis
  proof (cases "cb_wrap b \<or> \<not> cb_full b")
    case True
    then have "cb_wrap b \<or> cb_count b < cb_capacity b"
      using b cb_count_le [OF b] by (auto simp: cb_full_iff)
    with cb_push [OF b True, of x] show ?thesis by (auto simp: Add cb_simulates_def)
  next
    case False
    then show ?thesis using b by (auto simp: Add cb_simulates_def cb_add_full_no_wrap cb_full_iff)
  qed
next
  case (AddArray xs)
  let ?n = "of_nat (length xs) :: u16"
  have n: "unat ?n = length xs" using fits by (simp add: AddArray unat_of_nat16)
  show ?thesis
  proof (cases "cb_wrap b \<or> cb_count b + length xs \<le> cb_capacity b")
    case True
    with n have "cb_wrap b \<or> cb_count b + unat ?n \<le> cb_capacity b" by simp
    from cb_add_array [OF b _ this, of xs] n obtain b' where
      "circular_buffer_add_array b xs ?n = Some (True, b')" "cb_inv b'"
      "cb_list b' = keep_last (cb_capacity b) (cb_list b @ xs)" "cb_same_config b b'" by auto
    with True show ?thesis by (auto simp: AddArray cb_simulates_def)
  next
    case False
    then have "circular_buffer_add_array b xs ?n = Some (False, b)"
      using n by (intro cb_add_array_rejected [OF b]) auto
    with False b show ?thesis by (auto simp: AddArray cb_simulates_def)
  qed
next
  case (AddAsMany xs)
  let ?n = "of_nat (length xs) :: u16"
  have n: "unat ?n = length xs" using fits by (simp add: AddAsMany unat_of_nat16)
  then have "unat ?n \<le> length xs" by simp
  from cb_add_as_many [OF b this] obtain b' k where
    "circular_buffer_add_as_many_as_possible b xs ?n = Some (k, b')"
    "unat k = min (unat ?n) (cb_capacity b - cb_count b)"
    "cb_inv b'" "cb_list b' = cb_list b @ take (unat k) xs" "cb_same_config b b'" .
  then show ?thesis using n by (simp add: AddAsMany cb_simulates_def Let_def)
next
  case Pop
  show ?thesis
  proof (cases "cb_list b")
    case Nil
    with b show ?thesis by (simp add: Pop cb_simulates_def cb_pop_empty)
  next
    case (Cons x xs)
    then have "cb_list b \<noteq> []" by simp
    from cb_pop_nonempty [OF b this, of True] Cons obtain b' where
      "circular_buffer_pop True b = Some (True, Some x, b')" "cb_inv b'" "cb_list b' = xs"
      "cb_same_config b b'" by auto
    with Cons show ?thesis by (simp add: Pop cb_simulates_def)
  qed
next
  case (PopArray n)
  from cb_pop_array [OF b, where w = True and len = n] obtain b' k where
    "circular_buffer_pop_array True b n = Some (k, if True then take (unat n) (cb_list b) else [], b')"
    "unat k = min (unat n) (cb_count b)" "cb_inv b'" "cb_list b' = drop (unat n) (cb_list b)"
    "cb_same_config b b'" .
  then show ?thesis by (simp add: PopArray cb_simulates_def)
next
  case (DropFirst n)
  from cb_drop_from_beginning [OF b, of n] obtain b' k where
    "circular_buffer_drop_from_beggining b n = Some (k, b')"
    "unat k = min (unat n) (cb_count b)" "cb_inv b'" "cb_list b' = drop (unat n) (cb_list b)"
    "cb_same_config b b'" .
  then show ?thesis by (simp add: DropFirst cb_simulates_def)
next
  case (DropLast n)
  show ?thesis
  proof (cases "n = 0")
    case True
    then show ?thesis
      using b by (simp add: DropLast cb_simulates_def circular_buffer_drop_from_end_def cb_same_config_refl)
  next
    case False
    with fits have "unat n < cb_count b" by (simp add: DropLast)
    then obtain b' where "circular_buffer_drop_from_end b n = (n, b')" "cb_inv b'"
      "cb_list b' = take (cb_count b - unat n) (cb_list b)" "cb_same_config b b'" by (rule cb_drop_from_end [OF b])
    then show ?thesis by (simp add: DropLast cb_simulates_def)
  qed
next
  case (Peek i)
  then show ?thesis using b by (simp add: cb_peek [OF b small] cb_simulates_def)
next
  case (PeekArray i n)
  then have "unat i + unat n < 65536" using fits by simp
  moreover from this have "unat (of_nat (min (unat n) (cb_count b - unat i)) :: u16) =
      min (unat n) (cb_count b - unat i)" by (intro unat_of_nat16) linarith
  ultimately show ?thesis
    using b by (simp add: PeekArray cb_peek_array [OF b small] cb_simulates_def)
next
  case Clear
  from cb_inv_storage [OF b] have "0 < unat (cb_storage_size b)"
    "length (cb_storage b) = unat (cb_storage_size b)"
    "unat (cb_storage_size b) * unat (cb_element_size b) < 65536" by simp_all
  from cb_clear [OF this, of z] obtain b' where "circular_buffer_clear z b = Some b'" "cb_inv b'"
    "cb_list b' = []" "cb_same_config b b'" unfolding cb_same_config_def by blast
  then show ?thesis by (simp add: Clear cb_simulates_def)
qed (use b in \<open>simp_all add: cb_simulates_def cb_size_count cb_free_space circular_buffer_empty_def
       circular_buffer_full_def cb_list_Nil cb_full_iff\<close>)


text \<open>
  The end of the contract: after every element was dropped from the end the code counts a full buffer, where the queue
  is empty.
\<close>

lemma drop_everything_diverges:
  assumes "cb_inv b" "0 < cb_count b" "unat n = cb_count b"
  shows "\<exists>b'. cb_run z b [DropLast n, Size] = Some ([RCount (cb_count b), RCount (cb_capacity b)], b')"
    "fst (q_run (cb_capacity b) (cb_wrap b) (cb_list b) [DropLast n, Size]) = [RCount (cb_count b), RCount 0]"
  using cb_drop_all_from_end(3) [OF assms] assms(3)
  by (auto simp: circular_buffer_drop_from_end_def cb_capacity_def)


text \<open>A three-element overwriting buffer holding 8, 9 with its data wrapped round the end.\<close>

definition sample_buffer :: "u8 circular_buffer" where
  "sample_buffer =
     \<lparr>cb_head = 2, cb_tail = 1, cb_storage = [9, 7, 8], cb_storage_size = 3, cb_element_size = 1,
      cb_empty = False, cb_full = False, cb_wrap = True\<rparr>"

lemma sample_buffer_inv: "cb_inv sample_buffer"
  by (simp add: sample_buffer_def cb_inv_def)

lemma sample_buffer_simps:
  "cb_capacity sample_buffer = 3" "cb_wrap sample_buffer" "cb_list sample_buffer = [8, 9]"
  by (simp_all add: sample_buffer_def cb_capacity_def cb_list_def cb_count_def upt_rec)


end
