(* ===== verification/Inet.thy ===== *)
theory Inet
  imports Prelude "HOL-Library.Char_ord"
begin

unbundle bit_operations_syntax

text \<open>
  IPv4 addresses in text (\<open>wolksensor/src/inet.c\<close>): \<open>inet_ntoa\<close> prints the four octets,
  \<open>inet_pton_ipv4\<close> accepts exactly the printed form, and \<open>inet_aton\<close> reads the classical forms
  with one to four parts in decimal, octal or hexadecimal.

  A C string is the list of its characters without the terminating NUL, so the end of the list
  is where the code sees the NUL.  An early \<open>return false\<close> of \<open>inet_aton\<close> is the address 0.
\<close>

section \<open>Character classes\<close>

abbreviation code :: "char \<Rightarrow> nat" where
  "code c \<equiv> of_char c"

definition isdigit :: "char \<Rightarrow> bool" where
  "isdigit c \<longleftrightarrow> 48 \<le> code c \<and> code c \<le> 57"

definition islower :: "char \<Rightarrow> bool" where
  "islower c \<longleftrightarrow> 97 \<le> code c \<and> code c \<le> 122"

definition isxdigit :: "char \<Rightarrow> bool" where
  "isxdigit c \<longleftrightarrow> isdigit c \<or> (65 \<le> code c \<and> code c \<le> 70) \<or> (97 \<le> code c \<and> code c \<le> 102)"

definition isspace :: "char \<Rightarrow> bool" where
  "isspace c \<longleftrightarrow> code c = 32 \<or> (9 \<le> code c \<and> code c \<le> 13)"

definition isascii :: "char \<Rightarrow> bool" where
  "isascii c \<longleftrightarrow> code c < 128"

definition digit :: "nat \<Rightarrow> char" where
  "digit d = char_of (48 + d)"

section \<open>Printing\<close>

text \<open>\<open>integer_to_ascii\<close> works on 16-bit \<open>unsigned int\<close>; it is called on single octets.\<close>

definition integer_to_ascii :: "u16 \<Rightarrow> string" where
  "integer_to_ascii source =
     (let (hundreds, temp) = (if source \<ge> 100
            then ([char_of (unat (source div 100 + 48))], source mod 100) else ([], source));
          (tens, temp) = (if source \<ge> 10
            then ([char_of (unat (temp div 10 + 48))], temp mod 10) else ([], temp))
      in hundreds @ tens @ [char_of (unat (temp + 48))])"

definition octet :: "u32 \<Rightarrow> nat \<Rightarrow> u8" where
  "octet ip i = ucast (drop_bit (8 * i) ip)"

definition inet_ntoa :: "u32 \<Rightarrow> string" where
  "inet_ntoa ip =
     integer_to_ascii (ucast (octet ip 3)) @ ''.'' @ integer_to_ascii (ucast (octet ip 2)) @ ''.'' @
     integer_to_ascii (ucast (octet ip 1)) @ ''.'' @ integer_to_ascii (ucast (octet ip 0))"

section \<open>\<open>inet_pton_ipv4\<close>\<close>

text \<open>
  The state of the loop: the octets written so far (the last one is \<open>*tp\<close>), \<open>saw_digit\<close> and
  \<open>octets\<close>.  Writing a fifth octet would leave the array \<open>tmp\<close>.  A step gives \<^const>\<open>None\<close> for
  undefined behaviour and \<open>Some None\<close> for \<open>return false\<close>.
\<close>

type_synonym pton_state = "u8 list \<times> bool \<times> nat"

definition pton_step :: "pton_state \<Rightarrow> char \<Rightarrow> pton_state option option" where
  "pton_step st ch =
     (let (tmp, saw_digit, octets) = st in
      if isdigit ch then
        let val = ucast (last tmp) * 10 + of_nat (code ch - 48) :: u16 in
        if saw_digit \<and> last tmp = 0 then Some None
        else if val > 255 then Some None
        else let tmp' = butlast tmp @ [ucast val] in
          if \<not> saw_digit
          then (if octets + 1 > 4 then Some None else Some (Some (tmp', True, octets + 1)))
          else Some (Some (tmp', saw_digit, octets))
      else if ch = CHR ''.'' \<and> saw_digit then
        if octets = 4 then Some None
        else do { c_assert (length tmp < 4); Some (Some (tmp @ [0], False, octets)) }
      else Some None)"

fun pton_loop :: "pton_state \<Rightarrow> string \<Rightarrow> pton_state option option" where
  "pton_loop st [] = Some (Some st)"
| "pton_loop st (ch # src) = do {
     r \<leftarrow> pton_step st ch;
     (case r of None \<Rightarrow> Some None | Some st' \<Rightarrow> pton_loop st' src)
   }"

text \<open>The result: \<^const>\<open>None\<close> inside for rejection, otherwise the four octets copied to \<open>dst\<close>.\<close>

definition inet_pton_ipv4 :: "string \<Rightarrow> u8 list option option" where
  "inet_pton_ipv4 src = do {
     r \<leftarrow> pton_loop ([0], False, 0) src;
     (case r of
        None \<Rightarrow> Some None
      | Some (tmp, saw_digit, octets) \<Rightarrow>
          if octets < 4 then Some None
          else do { bytes \<leftarrow> array_prefix tmp 4; Some (Some bytes) })
   }"

section \<open>\<open>inet_aton\<close>\<close>

fun aton_digits :: "u32 \<Rightarrow> u32 \<Rightarrow> string \<Rightarrow> u32 \<times> string" where
  "aton_digits base val [] = (val, [])"
| "aton_digits base val (c # cs) =
     (if isascii c \<and> isdigit c then aton_digits base (val * base + of_nat (code c - 48)) cs
      else if base = 16 \<and> isascii c \<and> isxdigit c
      then aton_digits base (push_bit 4 val OR of_nat (code c + 10 - (if islower c then 97 else 65))) cs
      else (val, c # cs))"

definition aton_part :: "string \<Rightarrow> (u32 \<times> string) option" where
  "aton_part cp =
     (case cp of
        [] \<Rightarrow> None
      | c # cs \<Rightarrow>
          if \<not> isdigit c then None
          else if c = CHR ''0''
          then (if cs \<noteq> [] \<and> (hd cs = CHR ''x'' \<or> hd cs = CHR ''X'')
                then Some (aton_digits 16 0 (tl cs)) else Some (aton_digits 8 0 cs))
          else Some (aton_digits 10 0 cp))"

text \<open>The outer loop; at most three parts are followed by a dot, which bounds it.\<close>

function aton_parts :: "u32 list \<Rightarrow> string \<Rightarrow> (u32 list \<times> u32 \<times> string) option" where
  "aton_parts parts cp =
     (case aton_part cp of
        None \<Rightarrow> None
      | Some (val, rest) \<Rightarrow>
          if rest \<noteq> [] \<and> hd rest = CHR ''.''
          then (if length parts \<ge> 3 then None else aton_parts (parts @ [val]) (tl rest))
          else Some (parts, val, rest))"
  by pat_completeness auto
termination by (relation "measure (\<lambda>(parts, _). 4 - length parts)") auto

declare aton_parts.simps [simp del]

definition inet_aton :: "string \<Rightarrow> u32" where
  "inet_aton cp =
     (case aton_parts [] cp of
        None \<Rightarrow> 0
      | Some (parts, val, rest) \<Rightarrow>
          if rest \<noteq> [] \<and> \<not> (isascii (hd rest) \<and> isspace (hd rest)) then 0
          else (case parts of
              [] \<Rightarrow> val
            | [p0] \<Rightarrow> if val > 0xffffff \<or> p0 > 0xff then 0 else val OR push_bit 24 p0
            | [p0, p1] \<Rightarrow>
                if val > 0xffff \<or> p0 > 0xff \<or> p1 > 0xff then 0
                else val OR (push_bit 24 p0 OR push_bit 16 p1)
            | [p0, p1, p2] \<Rightarrow>
                if val > 0xff \<or> p0 > 0xff \<or> p1 > 0xff \<or> p2 > 0xff then 0
                else val OR (push_bit 24 p0 OR push_bit 16 p1 OR push_bit 8 p2)
            | _ \<Rightarrow> 0))"

section \<open>The decimal form of an octet\<close>

definition decimal :: "nat \<Rightarrow> string" where
  "decimal n = (if n \<ge> 100 then [digit (n div 100)] else []) @
     (if n \<ge> 10 then [digit (n div 10 mod 10)] else []) @ [digit (n mod 10)]"

lemma code_digit [simp]: "d < 10 \<Longrightarrow> code (digit d) = 48 + d"
  by (simp add: digit_def of_char_of)

lemma digit_eq_iff: "d < 10 \<Longrightarrow> digit d = c \<longleftrightarrow> 48 + d = code c"
  by (metis code_digit of_char_eq_iff)

lemma digit_props [simp]:
  assumes "d < 10"
  shows "isdigit (digit d)" "isascii (digit d)" "digit d \<noteq> CHR ''.''" "digit d = CHR ''0'' \<longleftrightarrow> d = 0"
    "digit d \<noteq> CHR ''x''" "digit d \<noteq> CHR ''X''"
  using assms by (auto simp: isdigit_def isascii_def digit_eq_iff)

lemma isdigit_digit:
  assumes "isdigit c"
  shows "c = digit (code c - 48)" "code c - 48 < 10"
  using assms by (auto simp: isdigit_def digit_def)

lemma digit_word:
  assumes "unat w < 10"
  shows "char_of (unat (w + 48 :: u16)) = digit (unat w)"
proof -
  have "unat (48 :: u16) = 48" by simp
  then have "unat (w + 48) = 48 + unat w" using unat_add_small [of w 48] assms by linarith
  then show ?thesis by (simp add: digit_def)
qed

lemma integer_to_ascii_decimal: "integer_to_ascii (ucast (x :: u8)) = decimal (unat x)"
proof -
  let ?w = "ucast x :: u16"
  have x: "unat x < 256" by simp
  have cmp: "?w \<ge> 100 \<longleftrightarrow> unat x \<ge> 100" "?w \<ge> 10 \<longleftrightarrow> unat x \<ge> 10"
    by (simp_all add: u16_le_iff)
  have u: "unat (?w div 100) = unat x div 100" "unat (?w mod 100) = unat x mod 100"
    "unat (?w mod 100 div 10) = unat x mod 100 div 10" "unat (?w mod 100 mod 10) = unat x mod 10"
    "unat (?w div 10) = unat x div 10" "unat (?w mod 10) = unat x mod 10"
    by (simp_all add: unat_div unat_mod mod_mod_cancel)
  have small: "unat x div 100 < 10" "unat x mod 100 div 10 < 10"
    using x by (linarith, linarith)
  have tens: "unat x mod 100 div 10 = unat x div 10 mod 10"
    using mod_mult2_eq [of "unat x" 10 10] by simp
  show ?thesis
  proof (cases "unat x \<ge> 100")
    case True
    then have "unat x \<ge> 10" by simp
    with True show ?thesis
      by (simp add: integer_to_ascii_def decimal_def cmp digit_word u small tens)
  next
    case False
    moreover from this have "unat x div 10 < 10" by simp
    ultimately show ?thesis
      by (simp add: integer_to_ascii_def decimal_def cmp digit_word u small)
  qed
qed

lemma decimal_snoc:
  assumes "0 < n" "d < 10" "n * 10 + d < 256"
  shows "decimal (n * 10 + d) = decimal n @ [digit d]"
proof -
  have t: "(n * 10 + d) div 10 = n" using assms by simp
  have h: "(n * 10 + d) div 100 = n div 10"
    using div_mult2_eq [of "n * 10 + d" 10 10] t by simp
  have m: "(n * 10 + d) mod 10 = d" using assms by simp
  have "n div 10 mod 10 = n div 10" using assms by simp
  moreover have "n * 10 + d \<ge> 100 \<longleftrightarrow> n \<ge> 10" "n * 10 + d \<ge> 10" "\<not> n \<ge> 100"
    using assms by linarith+
  ultimately show ?thesis using assms(2) by (simp add: decimal_def t h m)
qed

lemma decimal_one: "d < 10 \<Longrightarrow> decimal d = [digit d]"
  by (simp add: decimal_def)

lemma decimal_digits: "n < 256 \<Longrightarrow> c \<in> set (decimal n) \<Longrightarrow> isdigit c"
  by (auto simp: decimal_def less_mult_imp_div_less split: if_splits)

section \<open>\<open>inet_pton_ipv4\<close> accepts exactly the printed form\<close>

text \<open>The characters that a state of the loop has consumed.\<close>

fun consumed :: "pton_state \<Rightarrow> string" where
  "consumed (tmp, saw, octets) =
     concat (map (\<lambda>x. decimal (unat x) @ ''.'') (butlast tmp)) @ (if saw then decimal (unat (last tmp)) else [])"

fun pton_inv :: "pton_state \<Rightarrow> bool" where
  "pton_inv (tmp, saw, octets) \<longleftrightarrow>
     0 < length tmp \<and> length tmp \<le> 4 \<and> octets = length tmp - (if saw then 0 else 1) \<and>
     (saw \<or> last tmp = 0)"

lemma pton_value:
  assumes "d < 10"
  shows "unat (ucast (x :: u8) * 10 + of_nat d :: u16) = unat x * 10 + d"
proof -
  have "unat (ucast x * 10 :: u16) = unat x * 10"
    using unat_mult_small [of "ucast x" 10] less_trans [OF unat_less_size8 [of x], of 6000] by simp
  moreover have "unat (of_nat d :: u16) = d" using assms by (simp add: unat_of_nat16)
  ultimately show ?thesis
    using unat_add_small [of "ucast x * 10" "of_nat d"] unat_less_size8 [of x] assms by simp
qed

lemma pton_digit:
  assumes inv: "pton_inv (tmp, saw, octets)" and c: "isdigit c"
  shows "(pton_step (tmp, saw, octets) c = Some None \<and>
            (saw \<and> last tmp = 0 \<or> unat (last tmp) * 10 + (code c - 48) > 255)) \<or>
         (\<exists>st. pton_step (tmp, saw, octets) c = Some (Some st) \<and> pton_inv st \<and>
            consumed st = consumed (tmp, saw, octets) @ [c] \<and>
            st = (butlast tmp @ [of_nat (unat (last tmp) * 10 + (code c - 48))], True,
                  length tmp))"
proof -
  let ?d = "code c - 48"
  let ?v = "ucast (last tmp) * 10 + of_nat ?d :: u16"
  have c': "c = digit ?d" "?d < 10" using isdigit_digit [OF c] by simp_all
  have v: "unat ?v = unat (last tmp) * 10 + ?d" by (rule pton_value [OF c'(2)])
  have ne: "tmp \<noteq> []" "length tmp \<le> 4" using inv by auto
  have len: "Suc (length tmp - Suc 0) = length tmp" using ne by simp
  show ?thesis
  proof (cases "saw \<and> last tmp = 0 \<or> ?v > 255")
    case True
    moreover from this have "saw \<and> last tmp = 0 \<or> unat (last tmp) * 10 + ?d > 255"
      using v by (auto simp: u16_less_iff)
    ultimately show ?thesis using c by (auto simp: pton_step_def Let_def)
  next
    case False
    then have fit: "unat (last tmp) * 10 + ?d < 256" using v by (simp add: u16_less_iff)
    have uv: "(ucast ?v :: u8) = of_nat (unat (last tmp) * 10 + ?d)"
      using v by (intro word_unat_eq_iff [THEN iffD2])
        (simp add: unat_ucast_16_8 unat_of_nat del: of_nat_add of_nat_mult)
    have un: "unat (of_nat (unat (last tmp) * 10 + ?d) :: u8) = unat (last tmp) * 10 + ?d"
      using fit by (rule unat_of_nat8)
    let ?st = "(butlast tmp @ [of_nat (unat (last tmp) * 10 + ?d)], True, length tmp)"
    have step: "pton_step (tmp, saw, octets) c = Some (Some ?st)"
      using False c inv len uv by (auto simp: pton_step_def Let_def simp del: of_nat_add of_nat_mult)
    have "consumed ?st = consumed (tmp, saw, octets) @ [c]"
    proof (cases saw)
      case True
      then have "0 < unat (last tmp)" using False by (simp add: unat_gt_0)
      then have "decimal (unat (last tmp) * 10 + ?d) = decimal (unat (last tmp)) @ [c]"
        using decimal_snoc [OF _ c'(2) fit] c'(1) by simp
      with True un show ?thesis by (simp del: of_nat_add of_nat_mult)
    next
      case False
      then have "last tmp = 0" using inv by simp
      with False c' un decimal_one [OF c'(2)] show ?thesis
        by (simp del: of_nat_add of_nat_mult of_nat_diff)
    qed
    with step ne show ?thesis by (auto simp del: of_nat_add of_nat_mult)
  qed
qed

lemma pton_step_sound:
  assumes inv: "pton_inv st" and step: "pton_step st c = Some (Some st')"
  shows "pton_inv st' \<and> consumed st' = consumed st @ [c]"
proof (cases st)
  case (fields tmp saw octets)
  show ?thesis
  proof (cases "isdigit c")
    case True
    with pton_digit [of tmp saw octets c] inv step show ?thesis by (auto simp: fields)
  next
    case False
    with step have dot: "c = CHR ''.''" "saw" "octets \<noteq> 4" "st' = (tmp @ [0], False, octets)"
      by (auto simp: fields pton_step_def Let_def bind_eq_Some_conv split: if_splits)
    from inv have "tmp \<noteq> []" by (auto simp: fields)
    then have "concat (map (\<lambda>x. decimal (unat x) @ ''.'') tmp) =
        concat (map (\<lambda>x. decimal (unat x) @ ''.'') (butlast tmp)) @ decimal (unat (last tmp)) @ ''.''"
      by (cases tmp rule: rev_cases) simp_all
    with dot inv show ?thesis by (simp add: fields)
  qed
qed

lemma pton_step_defined: "pton_inv st \<Longrightarrow> pton_step st c \<noteq> None"
  by (cases st) (auto simp: pton_step_def Let_def split: if_splits)

lemma pton_loop_sound:
  assumes "pton_inv st"
  shows "pton_loop st s \<noteq> None \<and>
    (\<forall>st'. pton_loop st s = Some (Some st') \<longrightarrow> pton_inv st' \<and> consumed st' = consumed st @ s)"
  using assms
proof (induction s arbitrary: st)
  case (Cons c s)
  obtain r where r: "pton_step st c = Some r" using pton_step_defined [OF Cons.prems] by blast
  show ?case
  proof (cases r)
    case None
    with r show ?thesis by simp
  next
    case (Some st1)
    with r pton_step_sound [OF Cons.prems] have "pton_inv st1" "consumed st1 = consumed st @ [c]"
      by simp_all
    with Cons.IH [of st1] r Some show ?thesis by simp
  qed
qed simp

lemma pton_step_digit:
  assumes "pton_inv (tmp @ [x], saw, octets)" "d < 10" "unat x * 10 + d < 256" "saw \<longrightarrow> x \<noteq> 0"
  shows "pton_step (tmp @ [x], saw, octets) (digit d) =
    Some (Some (tmp @ [of_nat (unat x * 10 + d)], True, length tmp + 1))"
  using pton_digit [OF assms(1), of "digit d"] assms(2-4) by (auto simp del: of_nat_add of_nat_mult)

lemma pton_loop_decimal:
  assumes "n < 256" "length tmp < 4"
  shows "pton_loop (tmp @ [0], False, length tmp) (decimal n @ rest) =
         pton_loop (tmp @ [of_nat n], True, length tmp + 1) rest"
  using assms
proof (induction n arbitrary: rest rule: less_induct)
  case (less n)
  show ?case
  proof (cases "n < 10")
    case True
    then show ?thesis
      using less.prems pton_step_digit [of tmp 0 False "length tmp" n] by (simp add: decimal_one)
  next
    case False
    define m d where "m = n div 10" and "d = n mod 10"
    have n: "n = m * 10 + d" "0 < m" "m < n" "d < 10" using False by (auto simp: m_def d_def)
    have um: "unat (of_nat m :: u8) = m" using n less.prems by (intro unat_of_nat8) simp
    then have m0: "(of_nat m :: u8) \<noteq> 0" using n(2) by (metis less_numeral_extra(3) unat_0)
    have "decimal n = decimal m @ [digit d]"
      using decimal_snoc [OF n(2,4)] less.prems n(1) by simp
    moreover have "pton_step (tmp @ [of_nat m], True, length tmp + 1) (digit d) =
        Some (Some (tmp @ [of_nat n], True, length tmp + 1))"
      using pton_step_digit [of tmp "of_nat m" True "length tmp + 1" d] less.prems n um m0
      by (simp del: of_nat_add of_nat_mult)
    ultimately show ?thesis using less.IH [OF n(3), of "digit d # rest"] less.prems n(3) by simp
  qed
qed

lemma pton_step_dot:
  assumes "length tmp \<le> 3"
  shows "pton_step (tmp, True, length tmp) (CHR ''.'') = Some (Some (tmp @ [0], False, length tmp))"
  using assms by (simp add: pton_step_def isdigit_def)

definition dotted :: "u8 list \<Rightarrow> string" where
  "dotted bs = decimal (unat (bs ! 0)) @ ''.'' @ decimal (unat (bs ! 1)) @ ''.'' @
     decimal (unat (bs ! 2)) @ ''.'' @ decimal (unat (bs ! 3))"

lemma inet_pton_dotted: "inet_pton_ipv4 (dotted [a, b, c, d]) = Some (Some [a, b, c, d])"
proof -
  have u: "unat x < 256" for x :: u8 by simp
  show ?thesis
    unfolding inet_pton_ipv4_def dotted_def
    using pton_loop_decimal [OF u [of a], of "[]" "''.'' @ decimal (unat b) @ ''.'' @
        decimal (unat c) @ ''.'' @ decimal (unat d)"]
      pton_step_dot [of "[a]"] pton_loop_decimal [OF u [of b], of "[a]" "''.'' @
        decimal (unat c) @ ''.'' @ decimal (unat d)"]
      pton_step_dot [of "[a, b]"] pton_loop_decimal [OF u [of c], of "[a, b]" "''.'' @ decimal (unat d)"]
      pton_step_dot [of "[a, b, c]"] pton_loop_decimal [OF u [of d], of "[a, b, c]" "[]"]
    by simp
qed

text \<open>C33: \<open>inet_pton_ipv4\<close> accepts a string exactly when it is four decimal octets from 0 to 255,
  without leading zeros, separated by single dots, and then returns these four octets; on no
  input does it write outside its buffer.\<close>

theorem inet_pton_ipv4_iff:
  "inet_pton_ipv4 s \<noteq> None \<and>
   (inet_pton_ipv4 s = Some (Some bs) \<longleftrightarrow> length bs = 4 \<and> s = dotted bs)"
proof -
  have start: "pton_inv ([0], False, 0)" by simp
  obtain r where r: "pton_loop ([0], False, 0) s = Some r"
    using pton_loop_sound [OF start, of s] by blast
  have fwd: "length bs = 4 \<and> s = dotted bs" if "inet_pton_ipv4 s = Some (Some bs)" for bs
  proof -
    from that r obtain tmp saw octets where
      st: "r = Some (tmp, saw, octets)" "octets \<ge> 4" "4 \<le> length tmp" "bs = take 4 tmp"
      by (auto simp: inet_pton_ipv4_def bind_eq_Some_conv array_prefix_eq_Some
          split: option.splits if_splits)
    with pton_loop_sound [OF start, of s] r
    have inv: "pton_inv (tmp, saw, octets)" "consumed (tmp, saw, octets) = s" by auto
    with st have l: "length tmp = 4" "saw" by (auto split: if_splits)
    then obtain a b c d where "tmp = [a, b, c, d]"
      by (auto simp: length_Suc_conv eval_nat_numeral)
    with st inv l show ?thesis by (auto simp: dotted_def)
  qed
  have bwd: "inet_pton_ipv4 s = Some (Some bs)" if "length bs = 4" "s = dotted bs"
  proof -
    from that(1) obtain a b c d where "bs = [a, b, c, d]"
      by (auto simp: length_Suc_conv eval_nat_numeral)
    with that(2) show ?thesis by (simp add: inet_pton_dotted)
  qed
  have "inet_pton_ipv4 s \<noteq> None"
  proof (cases r)
    case None
    with r show ?thesis by (simp add: inet_pton_ipv4_def)
  next
    case (Some st)
    obtain tmp saw octets where st: "st = (tmp, saw, octets)" by (cases st)
    with Some r pton_loop_sound [OF start, of s] have "pton_inv (tmp, saw, octets)" by auto
    then show ?thesis using r Some st by (auto simp: inet_pton_ipv4_def split: if_splits)
  qed
  with fwd bwd show ?thesis by blast
qed

section \<open>\<open>inet_aton\<close> reads back what \<open>inet_ntoa\<close> prints\<close>

lemma of_nat_decimal:
  "(of_nat n :: u32) = of_nat (n mod 10) + 10 * (of_nat (n div 10 mod 10) + 10 * of_nat (n div 100))"
proof -
  have "n mod 10 + 10 * (n div 10 mod 10 + 10 * (n div 100)) = n"
    using mod_mult_div_eq [of "n div 10" 10] div_mult2_eq [of n 10 10] by simp
  then have "(of_nat n :: u32) = of_nat (n mod 10 + 10 * (n div 10 mod 10 + 10 * (n div 100)))"
    by (simp only:)
  then show ?thesis by (simp only: of_nat_add of_nat_mult of_nat_numeral)
qed

lemma aton_digits_decimal:
  assumes "n < 256" "rest = [] \<or> \<not> isdigit (hd rest)"
  shows "aton_digits 10 0 (decimal n @ rest) = (of_nat n, rest)"
proof -
  have stop: "aton_digits 10 w rest = (w, rest)" for w using assms(2) by (cases rest) auto
  have step: "aton_digits 10 w (digit d # cs) = aton_digits 10 (w * 10 + of_nat d) cs" if "d < 10" for w d cs
    using that by simp
  show ?thesis
  proof (cases "n < 10")
    case True
    then show ?thesis by (simp add: decimal_def step stop del: aton_digits.simps)
  next
    case ten: False
    show ?thesis
    proof (cases "n < 100")
      case True
      then have "n div 10 mod 10 = n div 10" "n div 100 = 0" by simp_all
      with ten True of_nat_decimal [of n] show ?thesis
        by (simp add: decimal_def step stop algebra_simps del: aton_digits.simps)
    next
      case False
      have "n div 100 < 10" using assms(1) by linarith
      with ten False of_nat_decimal [of n] show ?thesis
        by (simp add: decimal_def step stop distrib_left distrib_right mult.commute add.commute
            del: aton_digits.simps)
    qed
  qed
qed

lemma decimal_first:
  assumes "n < 256"
  shows "\<exists>d ds. decimal n = digit d # ds \<and> d < 10 \<and> (d = 0 \<longrightarrow> n = 0 \<and> ds = [])"
proof -
  have "n \<ge> 10 \<Longrightarrow> 0 < n div 10" "n \<ge> 100 \<Longrightarrow> 0 < n div 100" by simp_all
  moreover have "n div 100 < 10" using assms by linarith
  ultimately show ?thesis by (auto simp: decimal_def)
qed

lemma aton_part_decimal:
  assumes "n < 256" "rest = [] \<or> hd rest = CHR ''.''"
  shows "aton_part (decimal n @ rest) = Some (of_nat n, rest)"
proof -
  have nd: "rest = [] \<or> \<not> isdigit (hd rest)" using assms(2) by (auto simp: isdigit_def)
  obtain d ds where d: "decimal n = digit d # ds" "d < 10" "d = 0 \<longrightarrow> n = 0 \<and> ds = []"
    using decimal_first [OF assms(1)] by blast
  show ?thesis
  proof (cases "d = 0")
    case True
    moreover have "aton_digits 8 0 rest = (0, rest)" using nd by (cases rest) auto
    ultimately show ?thesis using d assms(2) by (auto simp: aton_part_def)
  next
    case False
    then show ?thesis using d aton_digits_decimal [OF assms(1) nd] by (simp add: aton_part_def)
  qed
qed

lemma aton_parts_more:
  assumes "n < 256" "length parts < 3"
  shows "aton_parts parts (decimal n @ CHR ''.'' # rest) = aton_parts (parts @ [of_nat n]) rest"
  using assms aton_part_decimal [OF assms(1), of "CHR ''.'' # rest"]
  by (simp add: aton_parts.simps [of parts])

lemma aton_parts_last:
  "n < 256 \<Longrightarrow> aton_parts parts (decimal n) = Some (parts, of_nat n, [])"
  using aton_part_decimal [of n "[]"] by (simp add: aton_parts.simps [of parts])

lemma inet_aton_dotted:
  "inet_aton (dotted [a, b, c, d]) =
     ucast d OR (push_bit 24 (ucast a) OR push_bit 16 (ucast b) OR push_bit 8 (ucast c))"
proof -
  have u: "(of_nat (unat x) :: u32) = ucast x" for x :: u8
    by (simp add: word_unat_eq_iff unat_of_nat take_bit_nat_eq_self less_trans [OF unat_less_size8])
  have le: "\<not> (ucast x :: u32) > 0xff" for x :: u8
  proof (simp add: word_less_nat_alt not_less)
    show "unat x \<le> 255" using unat_less_size8 [of x] by linarith
  qed
  have "aton_parts [] (dotted [a, b, c, d]) = Some ([ucast a, ucast b, ucast c], ucast d, [])"
    by (simp add: dotted_def aton_parts_more aton_parts_last u)
  then show ?thesis by (simp add: inet_aton_def le)
qed

lemma inet_ntoa_dotted:
  "inet_ntoa ip = dotted [octet ip 3, octet ip 2, octet ip 1, octet ip 0]"
  by (simp add: inet_ntoa_def dotted_def integer_to_ascii_decimal)

lemma octets_compose:
  "ucast (octet ip 0) OR (push_bit 24 (ucast (octet ip 3)) OR push_bit 16 (ucast (octet ip 2)) OR
     push_bit 8 (ucast (octet ip 1))) = (ip :: u32)"
proof (rule bit_word_eqI)
  fix n assume "n < LENGTH(32)"
  then consider "n < 8" | "8 \<le> n" "n < 16" | "16 \<le> n" "n < 24" | "24 \<le> n" "n < 32"
    by (auto simp: not_less [symmetric])
  then show "bit (ucast (octet ip 0) OR (push_bit 24 (ucast (octet ip 3)) OR
      push_bit 16 (ucast (octet ip 2)) OR push_bit 8 (ucast (octet ip 1)) :: u32)) n = bit ip n"
    by cases (auto simp: octet_def bit_simps)
qed

text \<open>Printing an address and reading it gives the address back: \<open>inet_aton\<close> returns the 32-bit
  address, and \<open>inet_pton_ipv4\<close> accepts the text with the four octets from the most significant
  one down.\<close>

theorem inet_text_round_trip:
  "inet_aton (inet_ntoa ip) = ip \<and>
   inet_pton_ipv4 (inet_ntoa ip) = Some (Some [octet ip 3, octet ip 2, octet ip 1, octet ip 0])"
  by (simp add: inet_ntoa_dotted inet_pton_dotted inet_aton_dotted octets_compose [unfolded One_nat_def])

text \<open>The printed form, with its NUL, fits the static buffer of 20 bytes.\<close>

lemma inet_ntoa_fits: "length (inet_ntoa ip) + 1 \<le> 16"
  by (simp add: inet_ntoa_dotted dotted_def decimal_def)

end
