(* ===== verification/Encryption.thy ===== *)
theory Encryption
  imports Prelude
begin

unbundle bit_operations_syntax

text \<open>
  The cipher of the payload, \<open>wolksensor/src/encryption.c\<close>: AES with a key of 16 bytes, in cipher block chaining
  from a block of zeros, over messages padded with zeros.  Blocks are changed in place as in the code,
  \<open>state[i]\<close> being element \<open>i\<close> of a list.
\<close>

section \<open>Tables\<close>

definition sbox :: "u8 list" where
  "sbox = [
    0x63, 0x7c, 0x77, 0x7b, 0xf2, 0x6b, 0x6f, 0xc5, 0x30, 0x01, 0x67, 0x2b, 0xfe, 0xd7, 0xab, 0x76,
    0xca, 0x82, 0xc9, 0x7d, 0xfa, 0x59, 0x47, 0xf0, 0xad, 0xd4, 0xa2, 0xaf, 0x9c, 0xa4, 0x72, 0xc0,
    0xb7, 0xfd, 0x93, 0x26, 0x36, 0x3f, 0xf7, 0xcc, 0x34, 0xa5, 0xe5, 0xf1, 0x71, 0xd8, 0x31, 0x15,
    0x04, 0xc7, 0x23, 0xc3, 0x18, 0x96, 0x05, 0x9a, 0x07, 0x12, 0x80, 0xe2, 0xeb, 0x27, 0xb2, 0x75,
    0x09, 0x83, 0x2c, 0x1a, 0x1b, 0x6e, 0x5a, 0xa0, 0x52, 0x3b, 0xd6, 0xb3, 0x29, 0xe3, 0x2f, 0x84,
    0x53, 0xd1, 0x00, 0xed, 0x20, 0xfc, 0xb1, 0x5b, 0x6a, 0xcb, 0xbe, 0x39, 0x4a, 0x4c, 0x58, 0xcf,
    0xd0, 0xef, 0xaa, 0xfb, 0x43, 0x4d, 0x33, 0x85, 0x45, 0xf9, 0x02, 0x7f, 0x50, 0x3c, 0x9f, 0xa8,
    0x51, 0xa3, 0x40, 0x8f, 0x92, 0x9d, 0x38, 0xf5, 0xbc, 0xb6, 0xda, 0x21, 0x10, 0xff, 0xf3, 0xd2,
    0xcd, 0x0c, 0x13, 0xec, 0x5f, 0x97, 0x44, 0x17, 0xc4, 0xa7, 0x7e, 0x3d, 0x64, 0x5d, 0x19, 0x73,
    0x60, 0x81, 0x4f, 0xdc, 0x22, 0x2a, 0x90, 0x88, 0x46, 0xee, 0xb8, 0x14, 0xde, 0x5e, 0x0b, 0xdb,
    0xe0, 0x32, 0x3a, 0x0a, 0x49, 0x06, 0x24, 0x5c, 0xc2, 0xd3, 0xac, 0x62, 0x91, 0x95, 0xe4, 0x79,
    0xe7, 0xc8, 0x37, 0x6d, 0x8d, 0xd5, 0x4e, 0xa9, 0x6c, 0x56, 0xf4, 0xea, 0x65, 0x7a, 0xae, 0x08,
    0xba, 0x78, 0x25, 0x2e, 0x1c, 0xa6, 0xb4, 0xc6, 0xe8, 0xdd, 0x74, 0x1f, 0x4b, 0xbd, 0x8b, 0x8a,
    0x70, 0x3e, 0xb5, 0x66, 0x48, 0x03, 0xf6, 0x0e, 0x61, 0x35, 0x57, 0xb9, 0x86, 0xc1, 0x1d, 0x9e,
    0xe1, 0xf8, 0x98, 0x11, 0x69, 0xd9, 0x8e, 0x94, 0x9b, 0x1e, 0x87, 0xe9, 0xce, 0x55, 0x28, 0xdf,
    0x8c, 0xa1, 0x89, 0x0d, 0xbf, 0xe6, 0x42, 0x68, 0x41, 0x99, 0x2d, 0x0f, 0xb0, 0x54, 0xbb, 0x16]"

definition rsbox :: "u8 list" where
  "rsbox = [
    0x52, 0x09, 0x6a, 0xd5, 0x30, 0x36, 0xa5, 0x38, 0xbf, 0x40, 0xa3, 0x9e, 0x81, 0xf3, 0xd7, 0xfb,
    0x7c, 0xe3, 0x39, 0x82, 0x9b, 0x2f, 0xff, 0x87, 0x34, 0x8e, 0x43, 0x44, 0xc4, 0xde, 0xe9, 0xcb,
    0x54, 0x7b, 0x94, 0x32, 0xa6, 0xc2, 0x23, 0x3d, 0xee, 0x4c, 0x95, 0x0b, 0x42, 0xfa, 0xc3, 0x4e,
    0x08, 0x2e, 0xa1, 0x66, 0x28, 0xd9, 0x24, 0xb2, 0x76, 0x5b, 0xa2, 0x49, 0x6d, 0x8b, 0xd1, 0x25,
    0x72, 0xf8, 0xf6, 0x64, 0x86, 0x68, 0x98, 0x16, 0xd4, 0xa4, 0x5c, 0xcc, 0x5d, 0x65, 0xb6, 0x92,
    0x6c, 0x70, 0x48, 0x50, 0xfd, 0xed, 0xb9, 0xda, 0x5e, 0x15, 0x46, 0x57, 0xa7, 0x8d, 0x9d, 0x84,
    0x90, 0xd8, 0xab, 0x00, 0x8c, 0xbc, 0xd3, 0x0a, 0xf7, 0xe4, 0x58, 0x05, 0xb8, 0xb3, 0x45, 0x06,
    0xd0, 0x2c, 0x1e, 0x8f, 0xca, 0x3f, 0x0f, 0x02, 0xc1, 0xaf, 0xbd, 0x03, 0x01, 0x13, 0x8a, 0x6b,
    0x3a, 0x91, 0x11, 0x41, 0x4f, 0x67, 0xdc, 0xea, 0x97, 0xf2, 0xcf, 0xce, 0xf0, 0xb4, 0xe6, 0x73,
    0x96, 0xac, 0x74, 0x22, 0xe7, 0xad, 0x35, 0x85, 0xe2, 0xf9, 0x37, 0xe8, 0x1c, 0x75, 0xdf, 0x6e,
    0x47, 0xf1, 0x1a, 0x71, 0x1d, 0x29, 0xc5, 0x89, 0x6f, 0xb7, 0x62, 0x0e, 0xaa, 0x18, 0xbe, 0x1b,
    0xfc, 0x56, 0x3e, 0x4b, 0xc6, 0xd2, 0x79, 0x20, 0x9a, 0xdb, 0xc0, 0xfe, 0x78, 0xcd, 0x5a, 0xf4,
    0x1f, 0xdd, 0xa8, 0x33, 0x88, 0x07, 0xc7, 0x31, 0xb1, 0x12, 0x10, 0x59, 0x27, 0x80, 0xec, 0x5f,
    0x60, 0x51, 0x7f, 0xa9, 0x19, 0xb5, 0x4a, 0x0d, 0x2d, 0xe5, 0x7a, 0x9f, 0x93, 0xc9, 0x9c, 0xef,
    0xa0, 0xe0, 0x3b, 0x4d, 0xae, 0x2a, 0xf5, 0xb0, 0xc8, 0xeb, 0xbb, 0x3c, 0x83, 0x53, 0x99, 0x61,
    0x17, 0x2b, 0x04, 0x7e, 0xba, 0x77, 0xd6, 0x26, 0xe1, 0x69, 0x14, 0x63, 0x55, 0x21, 0x0c, 0x7d]"

definition Rcon :: "u8 list" where
  "Rcon = [0x8d, 0x01, 0x02, 0x04, 0x08, 0x10, 0x20, 0x40, 0x80, 0x1b, 0x36]"

definition sub_byte :: "u8 \<Rightarrow> u8" where
  "sub_byte x = sbox ! unat x"

definition rsub_byte :: "u8 \<Rightarrow> u8" where
  "rsub_byte x = rsbox ! unat x"

definition galois_mul2 :: "u8 \<Rightarrow> u8" where
  "galois_mul2 value = (if drop_bit 7 value \<noteq> 0 then push_bit 1 value XOR 0x1b else push_bit 1 value)"

section \<open>The key\<close>

text \<open>Every byte of the static array is written before it is read.\<close>

definition expand_first :: "nat \<Rightarrow> u8 list \<Rightarrow> u8 list" where
  "expand_first ii ek = (
     let buf1 = ek ! (ii * 16 - 4);
       ek = ek[ii * 16 + 0 := sub_byte (ek ! (ii * 16 - 3)) XOR ek ! ((ii - 1) * 16 + 0) XOR Rcon ! ii];
       ek = ek[ii * 16 + 1 := sub_byte (ek ! (ii * 16 - 2)) XOR ek ! ((ii - 1) * 16 + 1)];
       ek = ek[ii * 16 + 2 := sub_byte (ek ! (ii * 16 - 1)) XOR ek ! ((ii - 1) * 16 + 2)];
       ek = ek[ii * 16 + 3 := sub_byte buf1 XOR ek ! ((ii - 1) * 16 + 3)]
     in ek)"

definition expand_round :: "nat \<Rightarrow> u8 list \<Rightarrow> u8 list" where
  "expand_round ii ek =
     fold (\<lambda>i ek. ek[ii * 16 + i := ek ! ((ii - 1) * 16 + i) XOR ek ! (ii * 16 + (i - 4))]) [4..<16] (expand_first ii ek)"

definition expandKey :: "u8 list \<Rightarrow> u8 list option" where
  "expandKey key = do {
     key \<leftarrow> array_prefix key 16;
     Some (fold expand_round [1..<11] (key @ replicate 160 0))
   }"

section \<open>Rounds\<close>

text \<open>The key is added, every byte substituted, and the rows of the block shifted.\<close>

definition shift_rows_sub :: "u8 list \<Rightarrow> nat \<Rightarrow> u8 list \<Rightarrow> u8 list" where
  "shift_rows_sub ek round state = (
     let k = (\<lambda>i. ek ! (round * 16 + i));
       state = state[0 := sub_byte (state ! 0 XOR k 0)];
       state = state[4 := sub_byte (state ! 4 XOR k 4)];
       state = state[8 := sub_byte (state ! 8 XOR k 8)];
       state = state[12 := sub_byte (state ! 12 XOR k 12)];
       buf1 = state ! 1 XOR k 1;
       state = state[1 := sub_byte (state ! 5 XOR k 5)];
       state = state[5 := sub_byte (state ! 9 XOR k 9)];
       state = state[9 := sub_byte (state ! 13 XOR k 13)];
       state = state[13 := sub_byte buf1];
       buf1 = state ! 2 XOR k 2;
       buf2 = state ! 6 XOR k 6;
       state = state[2 := sub_byte (state ! 10 XOR k 10)];
       state = state[6 := sub_byte (state ! 14 XOR k 14)];
       state = state[10 := sub_byte buf1];
       state = state[14 := sub_byte buf2];
       buf1 = state ! 15 XOR k 15;
       state = state[15 := sub_byte (state ! 11 XOR k 11)];
       state = state[11 := sub_byte (state ! 7 XOR k 7)];
       state = state[7 := sub_byte (state ! 3 XOR k 3)];
       state = state[3 := sub_byte buf1]
     in state)"

definition mix_column :: "nat \<Rightarrow> u8 list \<Rightarrow> u8 list" where
  "mix_column c state = (
     let buf1 = state ! c XOR state ! (c + 1) XOR state ! (c + 2) XOR state ! (c + 3);
       buf2 = state ! c;
       buf3 = galois_mul2 (state ! c XOR state ! (c + 1));
       state = state[c := state ! c XOR buf3 XOR buf1];
       buf3 = galois_mul2 (state ! (c + 1) XOR state ! (c + 2));
       state = state[c + 1 := state ! (c + 1) XOR buf3 XOR buf1];
       buf3 = galois_mul2 (state ! (c + 2) XOR state ! (c + 3));
       state = state[c + 2 := state ! (c + 2) XOR buf3 XOR buf1];
       buf3 = galois_mul2 (state ! (c + 3) XOR buf2);
       state = state[c + 3 := state ! (c + 3) XOR buf3 XOR buf1]
     in state)"

definition mix_columns :: "u8 list \<Rightarrow> u8 list" where
  "mix_columns state = mix_column 12 (mix_column 8 (mix_column 4 (mix_column 0 state)))"

text \<open>What turns the mixing of columns into its inverse.\<close>

definition barreto_column :: "nat \<Rightarrow> u8 list \<Rightarrow> u8 list" where
  "barreto_column c state = (
     let buf1 = galois_mul2 (galois_mul2 (state ! c XOR state ! (c + 2)));
       buf2 = galois_mul2 (galois_mul2 (state ! (c + 1) XOR state ! (c + 3)));
       state = state[c := state ! c XOR buf1];
       state = state[c + 1 := state ! (c + 1) XOR buf2];
       state = state[c + 2 := state ! (c + 2) XOR buf1];
       state = state[c + 3 := state ! (c + 3) XOR buf2]
     in state)"

definition barreto_columns :: "u8 list \<Rightarrow> u8 list" where
  "barreto_columns state = barreto_column 12 (barreto_column 8 (barreto_column 4 (barreto_column 0 state)))"

definition rshift_rows_sub :: "u8 list \<Rightarrow> nat \<Rightarrow> u8 list \<Rightarrow> u8 list" where
  "rshift_rows_sub ek round state = (
     let k = (\<lambda>i. ek ! (round * 16 + i));
       state = state[0 := rsub_byte (state ! 0) XOR k 0];
       state = state[4 := rsub_byte (state ! 4) XOR k 4];
       state = state[8 := rsub_byte (state ! 8) XOR k 8];
       state = state[12 := rsub_byte (state ! 12) XOR k 12];
       buf1 = rsub_byte (state ! 13) XOR k 1;
       state = state[13 := rsub_byte (state ! 9) XOR k 13];
       state = state[9 := rsub_byte (state ! 5) XOR k 9];
       state = state[5 := rsub_byte (state ! 1) XOR k 5];
       state = state[1 := buf1];
       buf1 = rsub_byte (state ! 2) XOR k 10;
       buf2 = rsub_byte (state ! 6) XOR k 14;
       state = state[2 := rsub_byte (state ! 10) XOR k 2];
       state = state[6 := rsub_byte (state ! 14) XOR k 6];
       state = state[10 := buf1];
       state = state[14 := buf2];
       buf1 = rsub_byte (state ! 3) XOR k 15;
       state = state[3 := rsub_byte (state ! 7) XOR k 3];
       state = state[7 := rsub_byte (state ! 11) XOR k 7];
       state = state[11 := rsub_byte (state ! 15) XOR k 11];
       state = state[15 := buf1]
     in state)"

definition add_last_key :: "u8 list \<Rightarrow> u8 list \<Rightarrow> u8 list" where
  "add_last_key ek state = fold (\<lambda>i state. state[i := state ! i XOR ek ! (160 + i)]) [0..<16] state"

definition aes_encr :: "u8 list \<Rightarrow> u8 list \<Rightarrow> u8 list" where
  "aes_encr state ek =
     add_last_key ek (shift_rows_sub ek 9
       (fold (\<lambda>round state. mix_columns (shift_rows_sub ek round state)) [0..<9] state))"

definition aes_decr :: "u8 list \<Rightarrow> u8 list \<Rightarrow> u8 list" where
  "aes_decr state ek =
     fold (\<lambda>round state. rshift_rows_sub ek round (mix_columns (barreto_columns state))) (rev [0..<9])
       (rshift_rows_sub ek 9 (add_last_key ek state))"

section \<open>Messages\<close>

definition put_block :: "nat \<Rightarrow> u8 list \<Rightarrow> u8 list \<Rightarrow> u8 list" where
  "put_block i block buff = take i buff @ block @ drop (i + length block) buff"

definition get_block :: "nat \<Rightarrow> u8 list \<Rightarrow> u8 list option" where
  "get_block i buff = do { c_assert (i + 16 \<le> length buff); Some (take 16 (drop i buff)) }"

partial_function (option) encrypt_loop :: "u8 list \<Rightarrow> u16 \<Rightarrow> u16 \<Rightarrow> u8 list \<Rightarrow> u8 list option" where
  "encrypt_loop ek i buff_size buff =
     (if i < buff_size then do {
        block \<leftarrow> get_block (unat i) buff;
        block \<leftarrow> (if 0 < i then do { last \<leftarrow> get_block (unat i - 16) buff; Some (map2 (XOR) block last) } else Some block);
        encrypt_loop ek (i + 16) buff_size (put_block (unat i) (aes_encr block ek) buff)
      } else Some buff)"

definition encrypt :: "u8 list \<Rightarrow> u16 \<Rightarrow> u8 list \<Rightarrow> (u16 \<times> u8 list) option" where
  "encrypt buff buff_size key = do {
     (buff_size, buff) \<leftarrow> (if buff_size AND 0x000f \<noteq> 0 then do {
        let newsize = (buff_size AND 0xfff0) + 0x0010;
        let n = unat (newsize - buff_size);
        c_assert (unat buff_size + n \<le> length buff);
        Some (newsize, put_block (unat buff_size) (replicate n 0) buff)
      } else Some (buff_size, buff));
     ek \<leftarrow> expandKey key;
     buff \<leftarrow> encrypt_loop ek 0 buff_size buff;
     Some (buff_size, buff)
   }"

text \<open>The last ciphered block is kept beside the message.  The bound \<open>message_len - 1\<close> wraps for an empty message.\<close>

partial_function (option) decrypt_loop :: "u8 list \<Rightarrow> u16 \<Rightarrow> u16 \<Rightarrow> u8 list \<Rightarrow> u8 list \<Rightarrow> u8 list option" where
  "decrypt_loop ek i message_len tmp2 crypto =
     (if i < message_len - 1 then do {
        tmp1 \<leftarrow> get_block (unat i) crypto;
        decrypt_loop ek (i + 16) message_len tmp1 (put_block (unat i) (map2 (XOR) (aes_decr tmp1 ek) tmp2) crypto)
      } else Some crypto)"

definition decrypt :: "u8 list \<Rightarrow> u16 \<Rightarrow> u8 list \<Rightarrow> u8 list option" where
  "decrypt message message_len key = do {
     ek \<leftarrow> expandKey key;
     decrypt_loop ek 0 message_len (replicate 16 0) message
   }"

section \<open>The substitution and the mixing\<close>

lemma substitutions_inverse: "map rsub_byte sbox = map of_nat [0..<256]"
  unfolding rsub_byte_def by code_simp

lemma length_sbox [simp]: "length sbox = 256"
  by (simp add: sbox_def)

lemma rsub_sub [simp]: "rsub_byte (sub_byte x) = x"
proof -
  have "unat x < 256" using unsigned_less [of x] by simp
  then have "rsub_byte (sbox ! unat x) = map rsub_byte sbox ! unat x" by simp
  also have "\<dots> = x" using \<open>unat x < 256\<close> by (simp add: substitutions_inverse)
  finally show ?thesis by (simp add: sub_byte_def)
qed

lemma mul2_xor: "galois_mul2 (x XOR y) = galois_mul2 x XOR galois_mul2 y"
proof -
  have top: "(drop_bit 7 v \<noteq> 0) = bit v 7" for v :: u8
  proof -
    have "bit (drop_bit 7 v) n \<longleftrightarrow> n = 0 \<and> bit v 7" for n
      using bit_imp_le_length [of v "n + 7"] by (cases n) (auto simp: bit_drop_bit_eq add.commute)
    then show ?thesis by (auto simp: bit_eq_iff [of "drop_bit 7 v"])
  qed
  have "galois_mul2 v = (if bit v 7 then push_bit 1 v XOR 0x1b else push_bit 1 v)" for v by (simp only: galois_mul2_def top)
  then show ?thesis by (auto simp: push_bit_xor bit_xor_iff ac_simps)
qed

text \<open>On a column.\<close>

lemma xor_left_self [simp]: "(x :: u8) XOR (x XOR y) = y"
  by (simp flip: xor.assoc)

lemma xor_right_self [simp]: "((x :: u8) XOR y) XOR y = x"
  by (simp add: xor.assoc)

lemma block16:
  assumes "length s = 16"
  obtains a b c d e f g h i j k l m n p q where "s = [a, b, c, d, e, f, g, h, i, j, k, l, m, n, p, q]"
  using assms by (auto simp: numeral_eq_Suc length_Suc_conv)

lemma mixing_inverse:
  assumes "length s = 16"
  shows "mix_columns (barreto_columns (mix_columns s)) = s"
  using assms by (elim block16) (simp add: mix_columns_def barreto_columns_def mix_column_def barreto_column_def Let_def mul2_xor ac_simps)

lemma lengths [simp]:
  "length (mix_columns s) = length s" "length (barreto_columns s) = length s" "length (shift_rows_sub ek r s) = length s"
  "length (rshift_rows_sub ek r s) = length s"
  by (simp_all add: mix_columns_def barreto_columns_def mix_column_def barreto_column_def shift_rows_sub_def rshift_rows_sub_def Let_def)

lemma shift_inverse:
  assumes "length s = 16"
  shows "rshift_rows_sub ek r (shift_rows_sub ek r s) = s"
  using assms by (elim block16) (simp add: rshift_rows_sub_def shift_rows_sub_def Let_def)

lemma length_add [simp]: "length (add_last_key ek s) = length s"
proof -
  have "length (fold (\<lambda>i s. s[i := s ! i XOR ek ! (160 + i)]) is s) = length s" for "is" by (induction "is" arbitrary: s) auto
  then show ?thesis by (simp add: add_last_key_def)
qed

lemma add_inverse:
  assumes "length s = 16"
  shows "add_last_key ek (add_last_key ek s) = s"
  using assms by (elim block16) (simp add: add_last_key_def upt_rec)

lemma length_rounds [simp]: "length (fold (\<lambda>r s. mix_columns (shift_rows_sub ek r s)) rs s) = length s"
  by (induction rs arbitrary: s) simp_all

lemma length_aes [simp]: "length (aes_encr s ek) = length s"
  by (simp add: aes_encr_def)

text \<open>Decryption of a block undoes its encryption, for every expanded key.\<close>

lemma rounds_inverse:
  assumes "length s = 16"
  shows "fold (\<lambda>r s. rshift_rows_sub ek r (mix_columns (barreto_columns s))) (rev rs)
      (fold (\<lambda>r s. mix_columns (shift_rows_sub ek r s)) rs s) = s"
  using assms
proof (induction rs arbitrary: s)
  case (Cons r rs)
  then show ?case by (simp add: mixing_inverse shift_inverse)
qed simp

lemma aes_inverse:
  assumes "length s = 16"
  shows "aes_decr (aes_encr s ek) ek = s"
  using assms by (simp add: aes_encr_def aes_decr_def add_inverse shift_inverse rounds_inverse del: upt_conv_Cons upt_rec_numeral)

section \<open>Chaining\<close>

text \<open>The first \<open>n\<close> blocks of a text, each combined with the ciphered block before it, \<open>v\<close> before the first.\<close>

fun cbc :: "(u8 list \<Rightarrow> u8 list) \<Rightarrow> nat \<Rightarrow> u8 list \<Rightarrow> u8 list \<Rightarrow> u8 list" where
  "cbc E 0 v bs = bs"
| "cbc E (Suc n) v bs = (let c = E (map2 (XOR) (take 16 bs) v) in c @ cbc E n c (drop 16 bs))"

fun cbc_inverse :: "(u8 list \<Rightarrow> u8 list) \<Rightarrow> nat \<Rightarrow> u8 list \<Rightarrow> u8 list \<Rightarrow> u8 list" where
  "cbc_inverse D 0 v bs = bs"
| "cbc_inverse D (Suc n) v bs = map2 (XOR) (D (take 16 bs)) v @ cbc_inverse D n (take 16 bs) (drop 16 bs)"

lemma xor_twice: "length xs = length ys \<Longrightarrow> map2 (XOR) (map2 (XOR) xs ys) ys = (xs :: u8 list)"
  by (induction xs ys rule: list_induct2) simp_all

lemma xor_zeros: "length xs = n \<Longrightarrow> map2 (XOR) xs (replicate n 0) = (xs :: u8 list)"
  by (induction xs arbitrary: n) auto

lemma length_cbc:
  assumes "\<And>b. length b = 16 \<Longrightarrow> length (E b) = 16" "length v = 16" "16 * n \<le> length bs"
  shows "length (cbc E n v bs) = length bs"
  using assms(2,3)
proof (induction n arbitrary: v bs)
  case (Suc n)
  then have "length (map2 (XOR) (take 16 bs) v) = 16" by simp
  with Suc show ?case by (simp add: Let_def assms(1))
qed simp

lemma cbc_inverse_cbc:
  assumes "\<And>b. length b = 16 \<Longrightarrow> length (E b) = 16" "\<And>b. length b = 16 \<Longrightarrow> D (E b) = b"
    and "length v = 16" "16 * n \<le> length bs"
  shows "cbc_inverse D n v (cbc E n v bs) = bs"
  using assms(3,4)
proof (induction n arbitrary: v bs)
  case (Suc n)
  then have "length (map2 (XOR) (take 16 bs) v) = 16" by simp
  with Suc show ?case by (simp add: Let_def assms(1,2) xor_twice)
qed simp

section \<open>The loops\<close>

lemma get_block_in: "length pre = i \<Longrightarrow> 16 \<le> length bs \<Longrightarrow> get_block i (pre @ bs) = Some (take 16 bs)"
  by (simp add: get_block_def)

lemma put_block_in: "length pre = i \<Longrightarrow> length b = 16 \<Longrightarrow> put_block i b (pre @ bs) = (pre @ b) @ drop 16 bs"
  by (simp add: put_block_def)

lemma next_block:
  fixes i m :: u16
  assumes "unat i = 16 * k" "16 * Suc k \<le> 65520"
  shows "unat (i + 16) = 16 * Suc k"
  using assms by (simp add: unat_add_small)

lemma encrypt_loop_cbc:
  assumes "unat i = 16 * k" "length pre = 16 * k" "16 * n \<le> length bs" "unat m = 16 * (k + n)"
    and "v = (if k = 0 then replicate 16 0 else drop (16 * k - 16) pre)"
  shows "encrypt_loop ek i m (pre @ bs) = Some (pre @ cbc (\<lambda>b. aes_encr b ek) n v bs)"
  using assms
proof (induction n arbitrary: i k pre bs v)
  case 0
  then show ?case by (subst encrypt_loop.simps) (simp add: u16_less_iff)
next
  case (Suc n)
  have "16 * (k + Suc n) < 65536" using Suc.prems(4) unat_less_size16 [of m] by simp
  then have small: "16 * Suc k \<le> 65520" by simp
  have less: "i < m" and pos: "(0 < i) = (k \<noteq> 0)" using Suc.prems(1,4) by (simp_all add: u16_less_iff)
  let ?c = "aes_encr (map2 (XOR) (take 16 bs) v) ek"
  have v: "length v = 16" using Suc.prems(2,5) by simp
  have before: "get_block (16 * k - 16) (pre @ bs) = Some v" if "k \<noteq> 0"
  proof -
    from that have "pre = take (16 * k - 16) pre @ v" using Suc.prems(5) by simp
    then have "get_block (16 * k - 16) (pre @ bs) = get_block (16 * k - 16) (take (16 * k - 16) pre @ (v @ bs))" by (metis append.assoc)
    with that v Suc.prems(2) show ?thesis by (simp add: get_block_in)
  qed
  have here: "get_block (unat i) (pre @ bs) = Some (take 16 bs)" using Suc.prems(1,2,3) by (simp add: get_block_in)
  have block: "(if 0 < i then do { last \<leftarrow> get_block (unat i - 16) (pre @ bs); Some (map2 (XOR) (take 16 bs) last) }
      else Some (take 16 bs)) = Some (map2 (XOR) (take 16 bs) v)"
  proof (cases "k = 0")
    case True
    have "map2 (XOR) (take 16 bs) v = take 16 bs" unfolding Suc.prems(5) if_P [OF True] by (rule xor_zeros) (use Suc.prems(3) in simp)
    with True pos show ?thesis by simp
  next
    case False
    with before pos Suc.prems(1) show ?thesis by simp
  qed
  have put: "put_block (unat i) ?c (pre @ bs) = (pre @ ?c) @ drop 16 bs"
    by (rule put_block_in) (use Suc.prems(1-3) v in simp_all)
  have "encrypt_loop ek i m (pre @ bs) = encrypt_loop ek (i + 16) m ((pre @ ?c) @ drop 16 bs)"
    by (subst encrypt_loop.simps) (simp only: less here block put if_True bind.bind_lunit)
  also have "\<dots> = Some ((pre @ ?c) @ cbc (\<lambda>b. aes_encr b ek) n ?c (drop 16 bs))"
    by (rule Suc.IH [OF next_block [OF Suc.prems(1) small]]) (use Suc.prems v in simp_all)
  finally show ?case by (simp add: Let_def)
qed

lemma decrypt_loop_cbc:
  assumes "unat i = 16 * k" "length pre = 16 * k" "16 * n \<le> length bs" "m \<noteq> 0" "unat m \<le> 65520" "k + n = (unat m + 14) div 16"
    and "length v = 16" "\<And>b. length b = 16 \<Longrightarrow> length (aes_decr b ek) = 16"
  shows "decrypt_loop ek i m v (pre @ bs) = Some (pre @ cbc_inverse (\<lambda>b. aes_decr b ek) n v bs)"
  using assms
proof (induction n arbitrary: i k pre bs v)
  case 0
  have "unat m - 1 \<le> 16 * ((unat m + 14) div 16)" by presburger
  then have "\<not> i < m - 1" using 0(1,6) unat_pred [OF assms(4)] by (simp add: u16_less_iff)
  then show ?case by (subst decrypt_loop.simps) simp
next
  case (Suc n)
  have less: "i < m - 1" using Suc.prems(1,6) unat_pred [OF assms(4)] by (simp add: u16_less_iff)
  have small: "16 * Suc k \<le> 65520" using Suc.prems(5,6) by simp
  let ?p = "map2 (XOR) (aes_decr (take 16 bs) ek) v"
  have here: "get_block (unat i) (pre @ bs) = Some (take 16 bs)" using Suc.prems(1,2,3) by (simp add: get_block_in)
  have put: "put_block (unat i) ?p (pre @ bs) = (pre @ ?p) @ drop 16 bs"
    by (rule put_block_in) (use Suc.prems(1-3,7,8) in simp_all)
  have "decrypt_loop ek i m v (pre @ bs) = decrypt_loop ek (i + 16) m (take 16 bs) ((pre @ ?p) @ drop 16 bs)"
    by (subst decrypt_loop.simps) (simp only: less here put if_True bind.bind_lunit)
  also have "\<dots> = Some ((pre @ ?p) @ cbc_inverse (\<lambda>b. aes_decr b ek) n (take 16 bs) (drop 16 bs))"
    by (rule Suc.IH [OF next_block [OF Suc.prems(1) small]]) (use Suc.prems in simp_all)
  finally show ?case by simp
qed

section \<open>Encryption and decryption of messages\<close>

definition padded_length :: "u16 \<Rightarrow> nat" where
  "padded_length n = (unat n + 15) div 16 * 16"

definition padded :: "u16 \<Rightarrow> u8 list \<Rightarrow> u8 list" where
  "padded n buff = take (unat n) buff @ replicate (padded_length n - unat n) 0 @ drop (padded_length n) buff"

lemma and_15: "unat (n AND 0x000f :: u16) = unat n mod 16"
proof -
  have "n AND 0x000f = take_bit 4 n" by (simp add: take_bit_eq_mask mask_eq_exp_minus_1)
  then show ?thesis by (simp add: take_bit_eq_mod unat_mod)
qed

lemma and_rest: "unat (n AND 0xfff0 :: u16) = unat n div 16 * 16"
proof -
  have rest: "(0xfff0 :: u16) = NOT (mask 4)" by (simp add: mask_eq_exp_minus_1)
  have "n AND 0xfff0 = push_bit 4 (drop_bit 4 n)"
    unfolding rest
    by (auto simp: bit_eq_iff [of "n AND _"] bit_and_iff bit_not_iff bit_mask_iff bit_push_bit_iff bit_drop_bit_eq)
  then have "n = (n AND 0xfff0) + take_bit 4 n" by (simp only: bits_ident)
  then have "n AND 0xfff0 = n - n mod 16" by (simp add: take_bit_eq_mod algebra_simps)
  then have "unat (n AND 0xfff0) = unat n - unat n mod 16"
    by (simp add: unat_sub_small u16_le_iff unat_mod)
  then show ?thesis by (simp add: minus_mod_eq_div_mult)
qed

lemma expandKey_defined: "16 \<le> length key \<longleftrightarrow> (\<exists>ek. expandKey key = Some ek)"
  by (auto simp: expandKey_def array_prefix_def)

lemma padded_length_cases:
  "padded_length n = (if unat n mod 16 = 0 then unat n else 16 + unat n div 16 * 16)"
proof -
  have "(16 * q + r + 15) div 16 = (if r = 0 then q else Suc q)" if "r < 16" for q r :: nat
    by (rule div_nat_eqI; use that in \<open>cases "r = 0"; simp\<close>)
  from this [of "unat n mod 16" "unat n div 16"] have "(unat n + 15) div 16 = (if unat n mod 16 = 0 then unat n div 16 else Suc (unat n div 16))"
    by simp
  then show ?thesis by (auto simp: padded_length_def)
qed

lemma padded_length_bounds:
  assumes "unat n \<le> 65520"
  shows "unat n \<le> padded_length n" "padded_length n \<le> 65520" "padded_length n div 16 * 16 = padded_length n"
proof -
  have "16 * q + r \<le> (if r = 0 then 16 * q + r else 16 + q * 16)" if "r < 16" for q r :: nat using that by simp
  from this [of "unat n mod 16" "unat n div 16"] show "unat n \<le> padded_length n"
    by (simp add: padded_length_cases mult_div_mod_eq split: if_splits)
  have "unat n + 15 < 4096 * 16" using assms by simp
  then have "(unat n + 15) div 16 < 4096" by (rule less_mult_imp_div_less)
  then show "padded_length n \<le> 65520" unfolding padded_length_def by simp
  show "padded_length n div 16 * 16 = padded_length n" by (simp add: padded_length_def)
qed

text \<open>The padding of a message whose padded length fits into sixteen bits.\<close>

lemma padding:
  assumes "unat n \<le> 65520"
  shows "if n AND 0x000f \<noteq> 0
    then unat ((n AND 0xfff0) + 0x0010) = padded_length n \<and> unat ((n AND 0xfff0) + 0x0010 - n) = padded_length n - unat n
    else unat n = padded_length n"
proof (cases "unat n mod 16 = 0")
  case True
  then have "n AND 0x000f = 0" by (simp add: u16_eq_iff and_15)
  with True show ?thesis by (simp add: padded_length_cases)
next
  case False
  then have masked: "n AND 0x000f \<noteq> 0" by (simp add: u16_eq_iff and_15)
  from False have len: "16 + unat n div 16 * 16 = padded_length n" by (simp add: padded_length_cases)
  note bounds = padded_length_bounds [OF assms]
  have up: "unat ((n AND 0xfff0) + 0x0010) = padded_length n"
  proof -
    have "unat (0x0010 :: u16) = 16" "padded_length n < 65536" using bounds(2) by simp_all
    then show ?thesis using len unat_add_small [of "n AND 0xfff0" "0x0010"] by (simp only: and_rest add.commute [of "_ * 16" 16] len)
  qed
  have "n \<le> (n AND 0xfff0) + 0x0010" using bounds(1) by (simp only: u16_le_iff up)
  then have "unat ((n AND 0xfff0) + 0x0010 - n) = padded_length n - unat n" by (simp only: unat_sub_small up)
  with masked up show ?thesis by (simp only: if_True simp_thms)
qed

lemma length_padded: "padded_length n \<le> length buff \<Longrightarrow> unat n \<le> padded_length n \<Longrightarrow> length (padded n buff) = length buff"
  by (simp add: padded_def)

lemma encrypt_chained:
  assumes "16 \<le> length key" "unat n \<le> 65520" "padded_length n \<le> length buff"
  shows "\<exists>ek. expandKey key = Some ek \<and> encrypt buff n key = Some (of_nat (padded_length n),
    cbc (\<lambda>b. aes_encr b ek) (padded_length n div 16) (replicate 16 0) (padded n buff))"
proof -
  from assms(1) obtain ek where ek: "expandKey key = Some ek" using expandKey_defined by blast
  let ?m = "of_nat (padded_length n) :: u16"
  note le = padded_length_bounds [OF assms(2)]
  then have m: "unat ?m = padded_length n" by (intro unat_of_nat16) simp
  have pad: "(if n AND 0x000f \<noteq> 0 then do {
        let newsize = (n AND 0xfff0) + 0x0010;
        let k = unat (newsize - n);
        c_assert (unat n + k \<le> length buff);
        Some (newsize, put_block (unat n) (replicate k 0) buff)
      } else Some (n, buff)) = Some (?m, padded n buff)"
  proof (cases "n AND 0x000f \<noteq> 0")
    case True
    with padding [OF assms(2)] have p: "unat ((n AND 0xfff0) + 0x0010) = padded_length n"
      "unat ((n AND 0xfff0) + 0x0010 - n) = padded_length n - unat n" by simp_all
    then have "(n AND 0xfff0) + 0x0010 = ?m" using m by (simp only: u16_eq_iff)
    with True p(2) le assms(3) show ?thesis by (simp add: put_block_def padded_def)
  next
    case False
    with padding [OF assms(2)] have p: "unat n = padded_length n" by simp
    then have "n = ?m" using m by (simp only: u16_eq_iff)
    with False p show ?thesis by (simp add: padded_def)
  qed
  have "encrypt_loop ek 0 ?m ([] @ padded n buff) =
      Some ([] @ cbc (\<lambda>b. aes_encr b ek) (padded_length n div 16) (replicate 16 0) (padded n buff))"
    by (rule encrypt_loop_cbc [where k = 0]) (use le m assms(3) in \<open>simp_all add: length_padded\<close>)
  then show ?thesis unfolding encrypt_def using pad ek by simp
qed

lemma length_aes_decr: "length (aes_decr b ek) = length b"
proof -
  have "length (fold (\<lambda>r s. rshift_rows_sub ek r (mix_columns (barreto_columns s))) rs s) = length s" for rs s
    by (induction rs arbitrary: s) simp_all
  then show ?thesis by (simp add: aes_decr_def)
qed

text \<open>C23: Deciphering what was enciphered gives the padded message back, whatever the key, and nothing
  behind the padding is changed.\<close>

theorem decrypt_inverts_encrypt:
  assumes "16 \<le> length key" "0 < n" "unat n \<le> 65520" "padded_length n \<le> length buff"
  shows "\<exists>c. encrypt buff n key = Some (of_nat (padded_length n), c) \<and> length c = length buff \<and>
    decrypt c (of_nat (padded_length n)) key = Some (take (unat n) buff @
      replicate (padded_length n - unat n) 0 @ drop (padded_length n) buff)"
proof -
  obtain ek where ek: "expandKey key = Some ek" and enc: "encrypt buff n key = Some (of_nat (padded_length n),
      cbc (\<lambda>b. aes_encr b ek) (padded_length n div 16) (replicate 16 0) (padded n buff))"
    using encrypt_chained [OF assms(1,3,4)] by blast
  let ?c = "cbc (\<lambda>b. aes_encr b ek) (padded_length n div 16) (replicate 16 0) (padded n buff)"
  let ?m = "of_nat (padded_length n) :: u16"
  note le = padded_length_bounds [OF assms(3)]
  then have m: "unat ?m = padded_length n" by (intro unat_of_nat16) simp
  have pos: "0 < padded_length n" using assms(2) le(1) by (simp add: u16_less_iff)
  then have "?m \<noteq> 0" using m by auto
  have len: "length (padded n buff) = length buff" using assms(4) le(1) by (rule length_padded)
  then have c: "length ?c = length buff" using assms(4) le(3) by (subst length_cbc) simp_all
  have "padded_length n div 16 = (padded_length n + 14) div 16"
  proof -
    obtain k where "padded_length n = 16 * k" using le(3) by (metis mult.commute)
    then show ?thesis by (simp add: div_add1_eq)
  qed
  then have "decrypt_loop ek 0 ?m (replicate 16 0) ([] @ ?c) =
      Some ([] @ cbc_inverse (\<lambda>b. aes_decr b ek) (padded_length n div 16) (replicate 16 0) ?c)"
    by (intro decrypt_loop_cbc [where k = 0]) (use \<open>?m \<noteq> 0\<close> m le c assms(4) in \<open>simp_all add: length_aes_decr\<close>)
  moreover have "cbc_inverse (\<lambda>b. aes_decr b ek) (padded_length n div 16) (replicate 16 0) ?c = padded n buff"
    by (rule cbc_inverse_cbc) (use le(3) len assms(4) in \<open>simp_all add: aes_inverse\<close>)
  ultimately have "decrypt ?c ?m key = Some (padded n buff)" using ek by (simp add: decrypt_def)
  with enc c show ?thesis unfolding padded_def by blast
qed

text \<open>Deciphering an empty message, whose length less one wraps around, does not stop within a
  memory of 65520 bytes: it leaves every buffer of that size or less.\<close>

theorem decrypt_empty_message_overruns:
  assumes "length message \<le> 65520"
  shows "decrypt message 0 key = None"
proof -
  have "decrypt_loop ek i 0 v bs = None" if "length bs \<le> 65520" "length v = 16" "16 dvd unat i" for ek i v bs
    using that
  proof (induction "65536 - unat i" arbitrary: i v bs rule: less_induct)
    case less
    then have "unat i \<noteq> 65535" "unat i < 65536" by (auto simp: dvd_def) presburger
    moreover have "unat (0 - 1 :: u16) = 65535" by (simp add: unsigned_minus_1_eq_mask mask_eq_exp_minus_1)
    ultimately have i: "i < 0 - 1" by (simp only: u16_less_iff)
    show ?case
    proof (cases "unat i + 16 \<le> length bs")
      case False
      then have "get_block (unat i) bs = None" by (simp add: get_block_def)
      with i show ?thesis by (subst decrypt_loop.simps) simp
    next
      case True
      let ?t = "take 16 (drop (unat i) bs)"
      let ?bs = "put_block (unat i) (map2 (XOR) (aes_decr ?t ek) v) bs"
      have "get_block (unat i) bs = Some ?t" using True by (simp add: get_block_def)
      then have "decrypt_loop ek i 0 v bs = decrypt_loop ek (i + 16) 0 ?t ?bs" using i by (subst decrypt_loop.simps) simp
      also have "\<dots> = None"
      proof (rule less.hyps)
        have there: "unat (i + 16) = unat i + 16" using True less.prems(1) by (simp add: unat_add_small)
        then show "65536 - unat (i + 16) < 65536 - unat i" "16 dvd unat (i + 16)" using less.prems(3) \<open>unat i < 65536\<close> by (simp_all only: there) simp_all
        show "length ?bs \<le> 65520" "length ?t = 16" using True less.prems by (simp_all add: put_block_def length_aes_decr)
      qed
      finally show ?thesis .
    qed
  qed
  then show ?thesis using assms by (cases "expandKey key") (simp_all add: decrypt_def)
qed

section \<open>Examples\<close>

definition sample_key :: "u8 list" where
  "sample_key = [0x2b, 0x7e, 0x15, 0x16, 0x28, 0xae, 0xd2, 0xa6, 0xab, 0xf7, 0x15, 0x88, 0x09, 0xcf, 0x4f, 0x3c]"

definition sample_message :: "u8 list" where
  "sample_message = [0x52, 0x54, 0x43, 0x20, 0x31, 0x34, 0x33, 0x37, 0x3b] @ replicate 11 0x41 @ replicate 20 0xff"

lemma padded_length_20: "padded_length 20 = 32"
  by (simp add: padded_length_def)

lemma decrypt_inverts_encrypt_witness:
  "\<exists>c. encrypt sample_message 20 sample_key = Some (32, c) \<and> length c = 40 \<and>
     decrypt c 32 sample_key = Some (take 20 sample_message @ replicate 12 0 @ replicate 8 0xff)"
  using decrypt_inverts_encrypt [of sample_key 20 sample_message]
  by (simp add: padded_length_20 sample_key_def sample_message_def)

lemma decrypt_empty_message_overruns_witness: "decrypt sample_message 0 sample_key = None"
  by (rule decrypt_empty_message_overruns) (simp add: sample_message_def)

end
