(* ===== verification/Aes.thy ===== *)
theory Aes
  imports Encryption
begin

text \<open>
  The cipher as the standard (FIPS 197) states it: a key schedule of words, and rounds that substitute, shift rows, mix columns and
  add a key; and the proof that the merged and reordered rounds of \<open>encryption.c\<close> compute it.  The
  substitution is the table of the standard, which is that of the code.
\<close>

section \<open>The standard\<close>

definition add_round_key :: "u8 list \<Rightarrow> nat \<Rightarrow> u8 list \<Rightarrow> u8 list" where
  "add_round_key w r s = map2 (XOR) s (take 16 (drop (16 * r) w))"

text \<open>Byte \<open>i\<close> of a block is in row \<open>i mod 4\<close> and column \<open>i div 4\<close>.\<close>

definition shift_rows :: "u8 list \<Rightarrow> u8 list" where
  "shift_rows s = map (\<lambda>i. s ! ((i + 4 * (i mod 4)) mod 16)) [0..<16]"

definition fips_mix_columns :: "u8 list \<Rightarrow> u8 list" where
  "fips_mix_columns s = map (\<lambda>i. let a = (\<lambda>k. s ! (i div 4 * 4 + (i + k) mod 4)) in
     galois_mul2 (a 0) XOR (galois_mul2 (a 1) XOR a 1) XOR a 2 XOR a 3) [0..<16]"

definition fips_round :: "u8 list \<Rightarrow> nat \<Rightarrow> u8 list \<Rightarrow> u8 list" where
  "fips_round w r s = add_round_key w r (fips_mix_columns (shift_rows (map sub_byte s)))"

definition fips_cipher :: "u8 list \<Rightarrow> u8 list \<Rightarrow> u8 list" where
  "fips_cipher w s = add_round_key w 10 (shift_rows (map sub_byte (fold (fips_round w) [1..<10] (add_round_key w 0 s))))"

function fips_key_word :: "u8 list \<Rightarrow> nat \<Rightarrow> u8 list" where
  "fips_key_word key i =
     (if i < 4 then take 4 (drop (4 * i) key)
      else map2 (XOR) (fips_key_word key (i - 4))
        (if i mod 4 = 0
         then map2 (XOR) (map sub_byte (rotate1 (fips_key_word key (i - 1)))) [Rcon ! (i div 4), 0, 0, 0]
         else fips_key_word key (i - 1)))"
  by pat_completeness auto
termination
  by (relation "measure snd") auto

declare fips_key_word.simps [simp del]

definition fips_schedule :: "u8 list \<Rightarrow> u8 list" where
  "fips_schedule key = concat (map (fips_key_word key) [0..<44])"

section \<open>Rounds\<close>

lemma upt16: "[0..<16] = [0, 1, 2, 3, 4, 5, 6, 7, 8, 9, 10, 11, 12, 13, 14, 15 :: nat]"
  by code_simp

lemma take_drop_block: "n + 16 \<le> length w \<Longrightarrow> take 16 (drop n w) = map (\<lambda>i. w ! (n + i)) [0..<16]"
  by (rule nth_equalityI) simp_all

lemma add_round_key_block:
  assumes "16 * r + 16 \<le> length w"
  shows "add_round_key w r [a, b, c, d, e, f, g, h, i, j, k, l, m, n, p, q] =
    map2 (XOR) [a, b, c, d, e, f, g, h, i, j, k, l, m, n, p, q] (map (\<lambda>i. w ! (r * 16 + i)) [0..<16])"
  using assms by (simp only: add_round_key_def take_drop_block mult.commute)

lemma shift_sub_block:
  assumes "length s = 16" "16 * r + 16 \<le> length w"
  shows "shift_rows_sub w r s = shift_rows (map sub_byte (add_round_key w r s))"
  using assms by (elim block16)
    (simp add: add_round_key_block shift_rows_sub_def shift_rows_def Let_def upt16)

lemma mix_columns_block:
  assumes "length s = 16"
  shows "mix_columns s = fips_mix_columns s"
  using assms by (elim block16)
    (simp add: mix_columns_def mix_column_def fips_mix_columns_def Let_def upt16 mul2_xor ac_simps)

lemma add_last_block:
  assumes "length s = 16" "176 \<le> length w"
  shows "add_last_key w s = add_round_key w 10 s"
  using assms by (elim block16) (simp add: add_round_key_block add_last_key_def upt16)

lemma length_fips [simp]:
  "length (shift_rows s) = 16" "length (fips_mix_columns s) = 16"
  "length s = 16 \<Longrightarrow> 16 * r + 16 \<le> length w \<Longrightarrow> length (add_round_key w r s) = 16"
  by (simp_all add: shift_rows_def fips_mix_columns_def add_round_key_def)

text \<open>The key is added before the substitution of the next round in the code, after the mixing of the last in the standard.\<close>

lemma rounds_agree:
  assumes "length s = 16" "16 * k + 16 \<le> length w" "r + n \<le> k"
  shows "add_round_key w (r + n) (fold (\<lambda>r s. mix_columns (shift_rows_sub w r s)) [r..<r + n] s) =
    fold (fips_round w) [Suc r..<Suc (r + n)] (add_round_key w r s)"
  using assms(3)
proof (induction n)
  case (Suc n)
  let ?s = "fold (\<lambda>r s. mix_columns (shift_rows_sub w r s)) [r..<r + n] s"
  have fits: "16 * (r + n) + 16 \<le> length w" using Suc.prems assms(2) by simp
  have "mix_columns (shift_rows_sub w (r + n) ?s) = fips_mix_columns (shift_rows (map sub_byte (add_round_key w (r + n) ?s)))"
    using assms(1) fits by (simp add: mix_columns_block shift_sub_block)
  with Suc show ?case by (simp add: fips_round_def)
qed simp

lemma aes_is_fips_cipher:
  assumes "length s = 16" "length w = 176"
  shows "aes_encr s w = fips_cipher w s"
proof -
  let ?s = "fold (\<lambda>r s. mix_columns (shift_rows_sub w r s)) [0..<0 + 9] s"
  have "add_round_key w (0 + 9) ?s = fold (fips_round w) [Suc 0..<Suc (0 + 9)] (add_round_key w 0 s)"
    by (rule rounds_agree [where k = 9]) (use assms in simp_all)
  then have "shift_rows_sub w 9 ?s = shift_rows (map sub_byte (fold (fips_round w) [1..<10] (add_round_key w 0 s)))"
    using assms by (simp add: shift_sub_block del: upt_conv_Cons)
  with assms show ?thesis by (simp add: aes_encr_def fips_cipher_def add_last_block del: upt_conv_Cons)
qed

section \<open>The key schedule\<close>

lemma behind:
  assumes "length pre = r * 16"
  shows "(pre @ xs)[r * 16 + k := y] = pre @ xs[k := y]" "(pre @ xs) ! (r * 16 + k) = xs ! k"
    "(pre @ xs)[r * 16 := y] = pre @ xs[0 := y]" "(pre @ xs) ! (r * 16) = xs ! 0"
    "(pre @ xs) ! Suc (r * 16) = xs ! 1" "(pre @ xs) ! Suc (Suc (r * 16)) = xs ! 2"
  using assms by (simp_all add: list_update_append nth_append)

lemma upt_4_16: "[4..<16] = [4, 5, 6, 7, 8, 9, 10, 11, 12, 13, 14, 15 :: nat]"
  by code_simp

lemma expand_first_block:
  assumes "length pre = r * 16"
  shows "expand_first (Suc r) (pre @ a0 # a1 # a2 # a3 # a4 # a5 # a6 # a7 # a8 # a9 # a10 # a11 # a12 # a13 # a14 # a15 # x0 # x1 # x2 # x3 # x4 # x5 # x6 # x7 # x8 # x9 # x10 # x11 # x12 # x13 # x14 # x15 # post) =
    pre @ a0 # a1 # a2 # a3 # a4 # a5 # a6 # a7 # a8 # a9 # a10 # a11 # a12 # a13 # a14 # a15 #
    (sub_byte a13 XOR a0 XOR Rcon ! Suc r) # (sub_byte a14 XOR a1) # (sub_byte a15 XOR a2) # (sub_byte a12 XOR a3) # x4 # x5 # x6 # x7 # x8 # x9 # x10 # x11 # x12 # x13 # x14 # x15 # post"
  by (simp add: expand_first_def Let_def behind [OF assms] add.commute [of _ "r * 16"])

lemma expand_round_block:
  assumes "length pre = r * 16"
  shows "expand_round (Suc r) (pre @ a0 # a1 # a2 # a3 # a4 # a5 # a6 # a7 # a8 # a9 # a10 # a11 # a12 # a13 # a14 # a15 # x0 # x1 # x2 # x3 # x4 # x5 # x6 # x7 # x8 # x9 # x10 # x11 # x12 # x13 # x14 # x15 # post) =
    pre @ a0 # a1 # a2 # a3 # a4 # a5 # a6 # a7 # a8 # a9 # a10 # a11 # a12 # a13 # a14 # a15 #
    (sub_byte a13 XOR a0 XOR Rcon ! Suc r) # (sub_byte a14 XOR a1) # (sub_byte a15 XOR a2) # (sub_byte a12 XOR a3) # (a4 XOR (sub_byte a13 XOR a0 XOR Rcon ! Suc r)) # (a5 XOR (sub_byte a14 XOR a1)) # (a6 XOR (sub_byte a15 XOR a2)) # (a7 XOR (sub_byte a12 XOR a3)) # (a8 XOR (a4 XOR (sub_byte a13 XOR a0 XOR Rcon ! Suc r))) # (a9 XOR (a5 XOR (sub_byte a14 XOR a1))) # (a10 XOR (a6 XOR (sub_byte a15 XOR a2))) # (a11 XOR (a7 XOR (sub_byte a12 XOR a3))) # (a12 XOR (a8 XOR (a4 XOR (sub_byte a13 XOR a0 XOR Rcon ! Suc r)))) # (a13 XOR (a9 XOR (a5 XOR (sub_byte a14 XOR a1)))) # (a14 XOR (a10 XOR (a6 XOR (sub_byte a15 XOR a2)))) # (a15 XOR (a11 XOR (a7 XOR (sub_byte a12 XOR a3)))) # post"
  by (simp add: expand_round_def upt_4_16 expand_first_block [OF assms] behind [OF assms] add.commute [of _ "r * 16"])

lemma length_key_word: "16 \<le> length key \<Longrightarrow> length (fips_key_word key i) = 4"
proof (induction i rule: less_induct)
  case (less i)
  then show ?case by (subst fips_key_word.simps) simp
qed

lemma key_word_later:
  "fips_key_word key (i + 4) = map2 (XOR) (fips_key_word key i)
    (if i mod 4 = 0 then map2 (XOR) (map sub_byte (rotate1 (fips_key_word key (i + 3)))) [Rcon ! Suc (i div 4), 0, 0, 0]
     else fips_key_word key (i + 3))"
proof -
  have "i + 4 - 1 = i + 3" "(i + 4) div 4 = Suc (i div 4)" by simp_all
  then show ?thesis by (subst fips_key_word.simps) (simp only: add_diff_cancel_right', simp)
qed

lemma key_word_step:
  "fips_key_word key (4 * r + 4) = map2 (XOR) (fips_key_word key (4 * r))
    (map2 (XOR) (map sub_byte (rotate1 (fips_key_word key (4 * r + 3)))) [Rcon ! Suc r, 0, 0, 0])"
  "fips_key_word key (4 * r + 5) = map2 (XOR) (fips_key_word key (4 * r + 1)) (fips_key_word key (4 * r + 4))"
  "fips_key_word key (4 * r + 6) = map2 (XOR) (fips_key_word key (4 * r + 2)) (fips_key_word key (4 * r + 5))"
  "fips_key_word key (4 * r + 7) = map2 (XOR) (fips_key_word key (4 * r + 3)) (fips_key_word key (4 * r + 6))"
proof -
  have "(4 * r + 1) mod 4 \<noteq> 0" "(4 * r + 2) mod 4 \<noteq> 0" "(4 * r + 3) mod 4 \<noteq> 0" by presburger+
  then show "fips_key_word key (4 * r + 5) = map2 (XOR) (fips_key_word key (4 * r + 1)) (fips_key_word key (4 * r + 4))"
    "fips_key_word key (4 * r + 6) = map2 (XOR) (fips_key_word key (4 * r + 2)) (fips_key_word key (4 * r + 5))"
    "fips_key_word key (4 * r + 7) = map2 (XOR) (fips_key_word key (4 * r + 3)) (fips_key_word key (4 * r + 6))"
    using key_word_later [of key "4 * r + 1"] key_word_later [of key "4 * r + 2"] key_word_later [of key "4 * r + 3"]
    by (simp_all only: add.assoc if_False one_add_one numeral_plus_numeral one_plus_numeral add_num_simps)
qed (simp only: key_word_later [of key "4 * r"], simp)

abbreviation key_words :: "u8 list \<Rightarrow> nat \<Rightarrow> u8 list" where
  "key_words key n \<equiv> concat (map (fips_key_word key) [0..<n])"

lemma length_key_words: "16 \<le> length key \<Longrightarrow> length (key_words key n) = 4 * n"
  by (induction n) (simp_all add: length_key_word)

lemma four_words: "key_words key (4 * r + 4) = key_words key (4 * r) @ fips_key_word key (4 * r) @ fips_key_word key (4 * r + 1) @
    fips_key_word key (4 * r + 2) @ fips_key_word key (4 * r + 3)"
  by (simp add: numeral_eq_Suc)

lemma word4:
  assumes "length w = 4"
  obtains a b c d where "w = [a, b, c, d]"
  using assms by (auto simp: numeral_eq_Suc length_Suc_conv)

lemma expand_round_words:
  assumes "16 \<le> length key"
  shows "expand_round (Suc r) (key_words key (4 * r + 4) @ replicate 16 0 @ post) = key_words key (4 * r + 8) @ post"
proof -
  let ?w = "fips_key_word key"
  note four = length_key_word [OF assms]
  obtain a0 a1 a2 a3 where w0: "?w (4 * r) = [a0, a1, a2, a3]" by (rule word4 [OF four])
  obtain a4 a5 a6 a7 where w1: "?w (4 * r + 1) = [a4, a5, a6, a7]" by (rule word4 [OF four])
  obtain a8 a9 a10 a11 where w2: "?w (4 * r + 2) = [a8, a9, a10, a11]" by (rule word4 [OF four])
  obtain a12 a13 a14 a15 where w3: "?w (4 * r + 3) = [a12, a13, a14, a15]" by (rule word4 [OF four])
  note steps = key_word_step [of key r, unfolded w0 w1 w2 w3]
  have "length (key_words key (4 * r)) = r * 16" by (simp add: length_key_words [OF assms])
  note block = expand_round_block [OF this]
  have zeros: "replicate 16 (0 :: u8) = [0, 0, 0, 0, 0, 0, 0, 0, 0, 0, 0, 0, 0, 0, 0, 0]" by (simp add: numeral_eq_Suc)
  have "key_words key (4 * r + 8) = key_words key (4 * Suc r + 4)" by (simp add: numeral_eq_Suc)
  also have "\<dots> = key_words key (4 * r + 4) @ ?w (4 * r + 4) @ ?w (4 * r + 5) @ ?w (4 * r + 6) @ ?w (4 * r + 7)"
    unfolding four_words [of key "Suc r"] by (simp add: add.commute del: upt_Suc)
  finally show ?thesis
    unfolding four_words [of key r] w0 w1 w2 w3 zeros by (simp add: block steps xor.commute xor.left_commute xor.assoc del: upt_Suc)
qed

lemma expandKey_is_schedule:
  assumes "16 \<le> length key"
  shows "expandKey key = Some (fips_schedule key)"
proof -
  have "fold expand_round [1..<Suc r] (take 16 key @ replicate 160 0) = key_words key (4 * r + 4) @ replicate (160 - 16 * r) 0"
    if "r \<le> 10" for r
    using that
  proof (induction r)
    case 0
    have "take 4 key @ take 4 (drop 4 key) @ take 4 (drop 8 key) @ take 4 (drop 12 key) = take 16 key"
      using take_add [of 4 12 key] take_add [of 4 8 "drop 4 key"] take_add [of 4 4 "drop 8 key"] by simp
    moreover have "fips_key_word key i = take 4 (drop (4 * i) key)" if "i < 4" for i using that by (simp add: fips_key_word.simps)
    moreover have "[0..<4] = [0, 1, 2, 3 :: nat]" by code_simp
    ultimately show ?case by simp
  next
    case (Suc r)
    then have "replicate (160 - 16 * r) (0 :: u8) = replicate 16 0 @ replicate (160 - 16 * Suc r) 0" by (simp flip: replicate_add)
    with Suc expand_round_words [OF assms, of r] show ?case by (simp add: add.commute)
  qed
  from this [of 10] assms show ?thesis by (simp add: expandKey_def fips_schedule_def del: upt_Suc)
qed

section \<open>Messages\<close>

text \<open>C22: The firmware enciphers with the Advanced Encryption Standard: a message with room for its padding is
  padded with zeros to whole blocks, and the blocks are chained and ciphered by the cipher of FIPS 197 on its
  schedule of the key; the padded length is returned.\<close>

theorem encrypt_is_aes_cbc:
  assumes "16 \<le> length key" "unat n \<le> 65520" "padded_length n \<le> length buff"
  shows "encrypt buff n key = Some (of_nat (padded_length n),
    cbc (fips_cipher (fips_schedule key)) (padded_length n div 16) (replicate 16 0) (padded n buff))"
proof -
  have length: "length (fips_schedule key) = 176" using length_key_words [OF assms(1), of 44] by (simp add: fips_schedule_def)
  note bounds = padded_length_bounds [OF assms(2)]
  have "cbc (\<lambda>b. aes_encr b (fips_schedule key)) k v bs = cbc (fips_cipher (fips_schedule key)) k v bs"
    if "length v = 16" "16 * k \<le> length bs" for k v bs
    using that
  proof (induction k arbitrary: v bs)
    case (Suc k)
    let ?x = "map2 (XOR) (take 16 bs) v"
    have x: "length ?x = 16" using Suc.prems by simp
    then have "aes_encr ?x (fips_schedule key) = fips_cipher (fips_schedule key) ?x" by (simp only: aes_is_fips_cipher length)
    with Suc x show ?case by (metis (no_types, lifting) cbc.simps(2) length_aes length_drop add_diff_cancel_left' diff_le_mono mult_Suc_right)
  qed simp
  from this [of "replicate 16 0" "padded_length n div 16" "padded n buff"] show ?thesis
    using encrypt_chained [OF assms] expandKey_is_schedule [OF assms(1)] bounds assms(3) by (simp add: length_padded)
qed

lemma encrypt_is_aes_cbc_witness:
  "encrypt sample_message 20 sample_key = Some (32, cbc (fips_cipher (fips_schedule sample_key)) 2 (replicate 16 0)
     (take 20 sample_message @ replicate 12 0 @ replicate 8 0xff))"
  using encrypt_is_aes_cbc [of sample_key 20 sample_message]
  by (simp add: padded_length_20 padded_def sample_key_def sample_message_def)

end
