(* ===== verification/Sensors.thy ===== *)
theory Sensors
  imports Prelude Complex_Main
begin

text \<open>
  Sensors and their alarms (\<open>SDK/core/sensors.c\<close>).  The two global arrays are the fields of one
  record.  An \<open>int8_t\<close> index is an 8-bit word read with \<^const>\<open>sint\<close>; where the code stores it in
  a \<open>uint8_t\<close> it is read with \<^const>\<open>unat\<close>, so \<open>-1\<close> becomes 255 and the array access
  fails.

  A \<open>float\<close> is a rational number, an infinity or not a number.  The only float operations here
  are the comparisons with an \<open>int16_t\<close>, which is exact as a float (24 bits of mantissa).
\<close>

section \<open>Floats, as far as they are compared\<close>

datatype c_float = Finite rat | PosInf | NegInf | NotANumber

fun float_le_int :: "c_float \<Rightarrow> int \<Rightarrow> bool" where
  "float_le_int (Finite q) i \<longleftrightarrow> q \<le> of_int i"
| "float_le_int PosInf i \<longleftrightarrow> False"
| "float_le_int NegInf i \<longleftrightarrow> True"
| "float_le_int NotANumber i \<longleftrightarrow> False"

fun float_ge_int :: "c_float \<Rightarrow> int \<Rightarrow> bool" where
  "float_ge_int (Finite q) i \<longleftrightarrow> of_int i \<le> q"
| "float_ge_int PosInf i \<longleftrightarrow> True"
| "float_ge_int NegInf i \<longleftrightarrow> False"
| "float_ge_int NotANumber i \<longleftrightarrow> False"

definition float_eq_int :: "c_float \<Rightarrow> int \<Rightarrow> bool" where
  "float_eq_int v i \<longleftrightarrow> v = Finite (of_int i)"

section \<open>Data\<close>

datatype sensor_type = VALUE_ON_DEMAND | NOTIFIES_VALUE
datatype sensor_alarm_type = ALARM_TYPE_NOTIFY_ALWAYS | ALARM_TYPE_NOTIFY_ONCE

record sensor =
  sensor_id :: char
  sensor_type_of :: sensor_type
  sensor_alarm_type_of :: sensor_alarm_type

record sensor_state =
  state_id :: char
  state_value :: c_float

record sensor_alarm =
  alarm_enabled :: bool
  alarm_value :: "16 word"
  alarm_active :: bool
  alarm_sound :: bool

record sensor_alarms =
  alarm_low :: sensor_alarm
  alarm_high :: sensor_alarm

record sensor_table =
  sensors :: "sensor list"
  sensors_alarms :: "sensor_alarms list"

definition NUMBER_OF_SENSORS :: nat where [simp]: "NUMBER_OF_SENSORS = 4"

definition SENSOR_VALUE_NOT_SET :: int where [simp]: "SENSOR_VALUE_NOT_SET = -32768"

text \<open>The arrays are declared with \<open>NUMBER_OF_SENSORS\<close> elements each.\<close>

definition sensor_table_wf :: "sensor_table \<Rightarrow> bool" where
  "sensor_table_wf t \<longleftrightarrow>
     length (sensors t) = NUMBER_OF_SENSORS \<and> length (sensors_alarms t) = NUMBER_OF_SENSORS"

section \<open>Operations\<close>

definition zero_alarm :: sensor_alarm where
  "zero_alarm = \<lparr>alarm_enabled = False, alarm_value = 0, alarm_active = False, alarm_sound = False\<rparr>"

definition sensors_init :: "sensor_table \<Rightarrow> sensor_table" where
  "sensors_init t =
     t\<lparr>sensors_alarms := replicate NUMBER_OF_SENSORS \<lparr>alarm_low = zero_alarm, alarm_high = zero_alarm\<rparr>\<rparr>"

fun find_sensor :: "sensor list \<Rightarrow> char \<Rightarrow> nat \<Rightarrow> nat \<Rightarrow> 8 word" where
  "find_sensor ss c i 0 = -1"
| "find_sensor ss c i (Suc n) =
     (if sensor_id (ss ! i) = c then of_nat i else find_sensor ss c (i + 1) n)"

definition get_index_of_sensor :: "sensor_table \<Rightarrow> char \<Rightarrow> 8 word" where
  "get_index_of_sensor t c = find_sensor (sensors t) c 0 NUMBER_OF_SENSORS"

text \<open>One side of one alarm: the alarm after the check, and what is added to \<open>new_alarms\<close>.\<close>

definition check_alarm :: "sensor_alarm_type \<Rightarrow> bool \<Rightarrow> sensor_alarm \<Rightarrow> sensor_alarm \<times> u8" where
  "check_alarm ty hit a =
     (if alarm_enabled a \<and> hit
      then (a\<lparr>alarm_sound := alarm_sound a \<or> \<not> alarm_active a,
              alarm_active := (ty = ALARM_TYPE_NOTIFY_ONCE)\<rparr>,
            of_bool (\<not> alarm_active a))
      else (a\<lparr>alarm_active := False\<rparr>, 0))"

definition check_sensor_alarm :: "sensor_table \<Rightarrow> sensor_state \<Rightarrow> (sensor_table \<times> u8) option" where
  "check_sensor_alarm t s = do {
     let sensor_index = unat (get_index_of_sensor t (state_id s));
     a \<leftarrow> array_get (sensors_alarms t) sensor_index;
     d \<leftarrow> array_get (sensors t) sensor_index;
     let (low, n1) = check_alarm (sensor_alarm_type_of d)
           (float_le_int (state_value s) (sint (alarm_value (alarm_low a)))) (alarm_low a);
     let (high, n2) = check_alarm (sensor_alarm_type_of d)
           (float_ge_int (state_value s) (sint (alarm_value (alarm_high a)))) (alarm_high a);
     Some (t\<lparr>sensors_alarms :=
               (sensors_alarms t)[sensor_index := \<lparr>alarm_low = low, alarm_high = high\<rparr>]\<rparr>,
           n1 + n2)
   }"

fun check_sensor_alarms :: "sensor_table \<Rightarrow> u8 \<Rightarrow> sensor_state list \<Rightarrow> (sensor_table \<times> u8) option" where
  "check_sensor_alarms t new_alarms [] = Some (t, new_alarms)"
| "check_sensor_alarms t new_alarms (s # ss) = do {
     (t', n) \<leftarrow> check_sensor_alarm t s;
     check_sensor_alarms t' (new_alarms + n) ss
   }"

definition check_sensor_alarm_updates ::
  "sensor_table \<Rightarrow> sensor_state list \<Rightarrow> u8 \<Rightarrow> (bool \<times> sensor_table) option" where
  "check_sensor_alarm_updates t states number_of_sensors = do {
     ss \<leftarrow> array_prefix states (unat number_of_sensors);
     (t', new_alarms) \<leftarrow> check_sensor_alarms t 0 ss;
     Some (new_alarms > 0, t')
   }"

definition alarm_sounds :: "sensor_alarms \<Rightarrow> u8" where
  "alarm_sounds a = of_bool (alarm_sound (alarm_low a)) + of_bool (alarm_sound (alarm_high a))"

definition number_of_unsounded_alarms :: "sensor_table \<Rightarrow> u8" where
  "number_of_unsounded_alarms t =
     foldl (\<lambda>n i. n + alarm_sounds (sensors_alarms t ! i)) 0 [0..<NUMBER_OF_SENSORS]"

definition sensors_have_unsounded_alarms :: "sensor_table \<Rightarrow> bool" where
  "sensors_have_unsounded_alarms t \<longleftrightarrow> number_of_unsounded_alarms t > 0"

definition silence :: "sensor_alarms \<Rightarrow> sensor_alarms" where
  "silence a = a\<lparr>alarm_low := (alarm_low a)\<lparr>alarm_sound := False\<rparr>,
                 alarm_high := (alarm_high a)\<lparr>alarm_sound := False\<rparr>\<rparr>"

definition clear_sounded_alarms :: "sensor_table \<Rightarrow> sensor_table" where
  "clear_sounded_alarms t =
     t\<lparr>sensors_alarms := map silence (take NUMBER_OF_SENSORS (sensors_alarms t)) @
                         drop NUMBER_OF_SENSORS (sensors_alarms t)\<rparr>"

definition get_value_on_demand_sensors_ids :: "sensor_table \<Rightarrow> char list \<times> u8" where
  "get_value_on_demand_sensors_ids t =
     (let ids = map sensor_id (filter (\<lambda>d. sensor_type_of d = VALUE_ON_DEMAND)
                                 (take NUMBER_OF_SENSORS (sensors t)))
      in (ids, of_nat (length ids)))"

section \<open>Looking up a sensor\<close>

lemma find_sensor_cases:
  assumes "i + n \<le> 128"
  shows "(find_sensor ss c i n = -1 \<and> (\<forall>j \<in> {i..<i + n}. sensor_id (ss ! j) \<noteq> c)) \<or>
         (\<exists>j \<in> {i..<i + n}. find_sensor ss c i n = of_nat j \<and> sensor_id (ss ! j) = c \<and>
            (\<forall>k \<in> {i..<j}. sensor_id (ss ! k) \<noteq> c))"
  using assms
proof (induction n arbitrary: i)
  case 0
  then show ?case by simp
next
  case (Suc n)
  show ?case
  proof (cases "sensor_id (ss ! i) = c")
    case True
    then show ?thesis by auto
  next
    case False
    have range: "k \<in> {i..<m} \<Longrightarrow> k = i \<or> k \<in> {Suc i..<m}" for k m by auto
    from Suc.IH [of "i + 1"] Suc.prems False show ?thesis by (fastforce dest!: range)
  qed
qed

definition known_sensor :: "sensor_table \<Rightarrow> char \<Rightarrow> bool" where
  "known_sensor t c \<longleftrightarrow> (\<exists>j < NUMBER_OF_SENSORS. sensor_id (sensors t ! j) = c)"

abbreviation sensor_index :: "sensor_table \<Rightarrow> char \<Rightarrow> nat" where
  "sensor_index t c \<equiv> unat (get_index_of_sensor t c)"

lemma sensor_index_known:
  assumes "known_sensor t c"
  shows "sensor_index t c < 4" "sensor_id (sensors t ! sensor_index t c) = c"
    "\<not> sint (get_index_of_sensor t c) < 0"
proof -
  obtain j where j: "j < 4" "get_index_of_sensor t c = of_nat j" "sensor_id (sensors t ! j) = c"
    using find_sensor_cases [of 0 4 "sensors t" c] assms
    by (auto simp: known_sensor_def get_index_of_sensor_def)
  then have u: "sensor_index t c = j" by (simp add: unat_of_nat)
  with j show "sensor_index t c < 4" "sensor_id (sensors t ! sensor_index t c) = c" by simp_all
  from j(1) have "j = 0 \<or> j = 1 \<or> j = 2 \<or> j = 3" by linarith
  then show "\<not> sint (get_index_of_sensor t c) < 0" by (elim disjE) (simp_all add: j(2))
qed

lemma sensor_index_unknown:
  assumes "\<not> known_sensor t c"
  shows "get_index_of_sensor t c = -1" "sensor_index t c = 255"
proof -
  show u: "get_index_of_sensor t c = -1"
    using find_sensor_cases [of 0 4 "sensors t" c] assms
    by (auto simp: known_sensor_def get_index_of_sensor_def)
  show "sensor_index t c = 255" by (simp add: u unsigned_minus_1_eq_mask mask_eq_exp_minus_1)
qed

text \<open>A name that is found is found where the table has it, whatever the alarms are.\<close>

lemma get_index_of_sensor_alarms [simp]:
  "get_index_of_sensor (t\<lparr>sensors_alarms := a\<rparr>) c = get_index_of_sensor t c"
  "known_sensor (t\<lparr>sensors_alarms := a\<rparr>) c = known_sensor t c"
  by (simp_all add: get_index_of_sensor_def known_sensor_def)

section \<open>One check\<close>

definition alarms_after :: "sensor_table \<Rightarrow> sensor_state \<Rightarrow> sensor_alarms \<times> u8" where
  "alarms_after t s =
     (let a = sensors_alarms t ! sensor_index t (state_id s);
          ty = sensor_alarm_type_of (sensors t ! sensor_index t (state_id s));
          l = check_alarm ty (float_le_int (state_value s) (sint (alarm_value (alarm_low a)))) (alarm_low a);
          h = check_alarm ty (float_ge_int (state_value s) (sint (alarm_value (alarm_high a)))) (alarm_high a)
      in (\<lparr>alarm_low = fst l, alarm_high = fst h\<rparr>, snd l + snd h))"

definition table_after :: "sensor_table \<Rightarrow> sensor_state \<Rightarrow> sensor_table" where
  "table_after t s = t\<lparr>sensors_alarms :=
     (sensors_alarms t)[sensor_index t (state_id s) := fst (alarms_after t s)]\<rparr>"

lemma check_sensor_alarm_known:
  assumes "sensor_table_wf t" and "known_sensor t (state_id s)"
  shows "check_sensor_alarm t s = Some (table_after t s, snd (alarms_after t s))"
  using assms sensor_index_known [OF assms(2)]
  by (simp add: check_sensor_alarm_def sensor_table_wf_def table_after_def alarms_after_def
      Let_def split_beta)

lemma check_sensor_alarm_unknown:
  assumes "sensor_table_wf t" and "\<not> known_sensor t (state_id s)"
  shows "check_sensor_alarm t s = None"
  using assms sensor_index_unknown(2) [OF assms(2)]
  by (simp add: check_sensor_alarm_def sensor_table_wf_def array_get_def Let_def)

lemma table_after_simps [simp]:
  "sensors (table_after t s) = sensors t"
  "length (sensors_alarms (table_after t s)) = length (sensors_alarms t)"
  "get_index_of_sensor (table_after t s) c = get_index_of_sensor t c"
  "known_sensor (table_after t s) c = known_sensor t c"
  "sensor_table_wf (table_after t s) = sensor_table_wf t"
  by (simp_all add: table_after_def sensor_table_wf_def)

lemma table_after_alarms:
  assumes "sensor_table_wf t" and "known_sensor t (state_id s)" and "known_sensor t c"
  shows "sensors_alarms (table_after t s) ! sensor_index t c =
    (if c = state_id s then fst (alarms_after t s) else sensors_alarms t ! sensor_index t c)"
proof -
  note k = sensor_index_known [OF assms(2)] sensor_index_known [OF assms(3)]
  have "sensor_index t c = sensor_index t (state_id s) \<longleftrightarrow> c = state_id s"
    using k by metis
  with k assms(1) show ?thesis
    by (auto simp: table_after_def sensor_table_wf_def nth_list_update)
qed

fun tables_after :: "sensor_table \<Rightarrow> sensor_state list \<Rightarrow> sensor_table" where
  "tables_after t [] = t"
| "tables_after t (s # ss) = tables_after (table_after t s) ss"

fun raised :: "sensor_table \<Rightarrow> sensor_state list \<Rightarrow> u8" where
  "raised t [] = 0"
| "raised t (s # ss) = snd (alarms_after t s) + raised (table_after t s) ss"

lemma tables_after_simps [simp]:
  "sensors (tables_after t ss) = sensors t"
  "get_index_of_sensor (tables_after t ss) c = get_index_of_sensor t c"
  "known_sensor (tables_after t ss) c = known_sensor t c"
  "sensor_table_wf (tables_after t ss) = sensor_table_wf t"
  by (induction ss arbitrary: t) simp_all

lemma check_sensor_alarms_known:
  assumes "sensor_table_wf t" and "\<forall>s \<in> set ss. known_sensor t (state_id s)"
  shows "check_sensor_alarms t n ss = Some (tables_after t ss, n + raised t ss)"
  using assms
  by (induction ss arbitrary: t n) (simp_all add: check_sensor_alarm_known add.assoc)

lemma check_updates_known:
  assumes "sensor_table_wf t" and "\<forall>s \<in> set ss. known_sensor t (state_id s)"
    and "unat n = length ss"
  shows "check_sensor_alarm_updates t ss n = Some (raised t ss > 0, tables_after t ss)"
  using assms by (simp add: check_sensor_alarm_updates_def check_sensor_alarms_known)

lemma check_sensor_alarms_unknown:
  assumes "sensor_table_wf t" and "\<exists>s \<in> set ss. \<not> known_sensor t (state_id s)"
  shows "check_sensor_alarms t n ss = None"
  using assms
proof (induction ss arbitrary: t n)
  case (Cons s ss)
  then show ?case
    by (cases "known_sensor t (state_id s)")
      (auto simp: check_sensor_alarm_known check_sensor_alarm_unknown)
qed simp

section \<open>What the alarms promise\<close>

text \<open>Once a notify-once alarm has fired it stays silent while the value stays beyond the bound.\<close>

definition settled :: "sensor_table \<Rightarrow> sensor_state \<Rightarrow> bool" where
  "settled t s \<longleftrightarrow>
     (let a = sensors_alarms t ! sensor_index t (state_id s) in
        (alarm_enabled (alarm_low a) \<and>
           float_le_int (state_value s) (sint (alarm_value (alarm_low a))) \<longrightarrow> alarm_active (alarm_low a)) \<and>
        (alarm_enabled (alarm_high a) \<and>
           float_ge_int (state_value s) (sint (alarm_value (alarm_high a))) \<longrightarrow> alarm_active (alarm_high a)))"

abbreviation notify_once :: "sensor_table \<Rightarrow> char \<Rightarrow> bool" where
  "notify_once t c \<equiv>
     sensor_alarm_type_of (sensors t ! sensor_index t c) = ALARM_TYPE_NOTIFY_ONCE"

lemma settled_after:
  assumes "sensor_table_wf t" "known_sensor t (state_id s)" "notify_once t (state_id s)"
  shows "settled (table_after t s) s"
  using assms
  by (simp add: settled_def table_after_alarms alarms_after_def Let_def check_alarm_def)

lemma settled_silent: "settled t s \<Longrightarrow> snd (alarms_after t s) = 0"
  by (simp add: settled_def alarms_after_def Let_def check_alarm_def)

lemma settled_other:
  assumes "sensor_table_wf t" "known_sensor t (state_id s)" "known_sensor t (state_id r)"
    "state_id s \<noteq> state_id r"
  shows "settled (table_after t r) s = settled t s"
  using assms by (simp add: settled_def table_after_alarms)

lemma settled_tables_other:
  assumes "sensor_table_wf t" "known_sensor t (state_id s)"
    "\<forall>r \<in> set ss. known_sensor t (state_id r) \<and> state_id s \<noteq> state_id r"
  shows "settled (tables_after t ss) s = settled t s"
  using assms by (induction ss arbitrary: t) (simp_all add: settled_other)

lemma all_settled:
  assumes "sensor_table_wf t" "distinct (map state_id ss)"
    "\<forall>s \<in> set ss. known_sensor t (state_id s) \<and> notify_once t (state_id s)"
  shows "\<forall>s \<in> set ss. settled (tables_after t ss) s"
  using assms
proof (induction ss arbitrary: t)
  case (Cons s ss)
  then have "settled (table_after t s) s" by (simp add: settled_after)
  moreover have "\<forall>r \<in> set ss. state_id s \<noteq> state_id r" using Cons.prems(2) by auto
  ultimately have "settled (tables_after t (s # ss)) s"
    using Cons.prems by (auto simp: settled_tables_other)
  with Cons show ?case by simp
qed simp

lemma raised_settled:
  assumes "sensor_table_wf t" "distinct (map state_id ss)"
    "\<forall>s \<in> set ss. known_sensor t (state_id s) \<and> settled t s"
  shows "raised t ss = 0"
  using assms
proof (induction ss arbitrary: t)
  case (Cons s ss)
  have "\<forall>r \<in> set ss. settled (table_after t s) r"
    using Cons.prems by (metis (no_types, lifting) distinct.simps(2) image_eqI list.set_intros
        list.set_map list.simps(9) settled_other)
  with Cons show ?case by (simp add: settled_silent)
qed simp

lemma sound_kept:
  assumes "sensor_table_wf t" "known_sensor t c" "\<forall>s \<in> set ss. known_sensor t (state_id s)"
    and "alarm_sounds (sensors_alarms t ! sensor_index t c) \<noteq> 0"
  shows "alarm_sounds (sensors_alarms (tables_after t ss) ! sensor_index t c) \<noteq> 0"
  using assms
proof (induction ss arbitrary: t)
  case (Cons s ss)
  have "alarm_sounds (sensors_alarms (table_after t s) ! sensor_index t c) \<noteq> 0"
    using Cons.prems
    by (auto simp: table_after_alarms alarms_after_def Let_def check_alarm_def alarm_sounds_def
        split: if_splits)
  with Cons.IH [of "table_after t s"] Cons.prems show ?case by simp
qed simp

lemma raised_sounds:
  assumes "sensor_table_wf t" "\<forall>s \<in> set ss. known_sensor t (state_id s)" "raised t ss \<noteq> 0"
  shows "\<exists>c. known_sensor t c \<and> alarm_sounds (sensors_alarms (tables_after t ss) ! sensor_index t c) \<noteq> 0"
  using assms
proof (induction ss arbitrary: t)
  case (Cons s ss)
  show ?case
  proof (cases "snd (alarms_after t s) = 0")
    case True
    with Cons.IH [of "table_after t s"] Cons.prems show ?thesis by simp
  next
    case False
    then have "alarm_sounds (sensors_alarms (table_after t s) ! sensor_index t (state_id s)) \<noteq> 0"
      using Cons.prems
      by (auto simp: table_after_alarms alarms_after_def Let_def check_alarm_def alarm_sounds_def
          split: if_splits)
    with sound_kept [of "table_after t s" "state_id s" ss] Cons.prems
    have "alarm_sounds (sensors_alarms (tables_after t (s # ss)) ! sensor_index t (state_id s)) \<noteq> 0"
      by simp
    with Cons.prems(2) show ?thesis by (metis list.set_intros(1))
  qed
qed simp

lemma sum_of_four_sounds:
  "\<forall>a \<in> {0, 1, 2 :: u8}. \<forall>b \<in> {0, 1, 2}. \<forall>c \<in> {0, 1, 2}. \<forall>d \<in> {0, 1, 2}.
     0 < a + b + c + d \<longleftrightarrow> a \<noteq> 0 \<or> b \<noteq> 0 \<or> c \<noteq> 0 \<or> d \<noteq> 0"
  by simp

lemma Ex_less_4: "(\<exists>i < 4. P i) \<longleftrightarrow> P 0 \<or> P 1 \<or> P 2 \<or> P (3 :: nat)"
  by (simp add: eval_nat_numeral Ex_less_Suc) blast

lemma unsounded_iff:
  "sensors_have_unsounded_alarms t \<longleftrightarrow> (\<exists>i < 4. alarm_sounds (sensors_alarms t ! i) \<noteq> 0)"
proof -
  have small: "alarm_sounds a \<in> {0, 1, 2}" for a by (auto simp: alarm_sounds_def)
  have "number_of_unsounded_alarms t =
      alarm_sounds (sensors_alarms t ! 0) + alarm_sounds (sensors_alarms t ! 1) +
      alarm_sounds (sensors_alarms t ! 2) + alarm_sounds (sensors_alarms t ! 3)"
    by (simp add: number_of_unsounded_alarms_def upt_rec numeral_2_eq_2 numeral_3_eq_3)
  with sum_of_four_sounds small show ?thesis
    unfolding sensors_have_unsounded_alarms_def Ex_less_4 by metis
qed

text \<open>The alarm check is defined exactly when every reported sensor is in the table (an unknown
  name makes it index the alarm table out of bounds); when it reports a new alarm, an alarm
  is waiting to be sounded afterwards.\<close>

theorem alarm_check_defined_iff_known:
  assumes "sensor_table_wf t" and "unat n = length ss"
  shows "((\<exists>b t'. check_sensor_alarm_updates t ss n = Some (b, t')) \<longleftrightarrow>
            (\<forall>s \<in> set ss. known_sensor t (state_id s))) \<and>
         (\<forall>t'. check_sensor_alarm_updates t ss n = Some (True, t') \<longrightarrow>
            sensor_table_wf t' \<and> sensors_have_unsounded_alarms t')"
proof (cases "\<forall>s \<in> set ss. known_sensor t (state_id s)")
  case True
  note c = check_updates_known [OF assms(1) True assms(2)]
  have "sensors_have_unsounded_alarms (tables_after t ss)" if "raised t ss > 0"
    using raised_sounds [OF assms(1) True] that sensor_index_known(1) [of t]
    by (auto simp: unsounded_iff word_gt_0)
  with True assms(1) show ?thesis by (simp add: c)
next
  case False
  then have "check_sensor_alarm_updates t ss n = None"
    using assms by (auto simp: check_sensor_alarm_updates_def check_sensor_alarms_unknown)
  with False show ?thesis by auto
qed

text \<open>With one state per sensor and notify-once alarms, checking the same states a second time
  raises nothing new: an alarm fires once for each excursion of the value.\<close>

theorem repeated_check_raises_nothing:
  assumes "sensor_table_wf t" and "unat n = length ss" and "distinct (map state_id ss)"
    and "\<forall>s \<in> set ss. known_sensor t (state_id s) \<and> notify_once t (state_id s)"
  shows "\<exists>b t' t''. check_sensor_alarm_updates t ss n = Some (b, t') \<and>
           check_sensor_alarm_updates t' ss n = Some (False, t'')"
proof -
  have known: "\<forall>s \<in> set ss. known_sensor t (state_id s)" using assms(4) by simp
  have "raised (tables_after t ss) ss = 0"
    using all_settled [OF assms(1,3,4)] known assms by (intro raised_settled) simp_all
  moreover have "check_sensor_alarm_updates (tables_after t ss) ss n =
      Some (raised (tables_after t ss) ss > 0, tables_after (tables_after t ss) ss)"
    using known assms by (intro check_updates_known) simp_all
  ultimately show ?thesis using check_updates_known [OF assms(1) known assms(2)] by simp
qed

section \<open>The firmware's table\<close>

text \<open>\<open>set_sensors_types\<close> of \<open>main.c\<close>; the movement alarm is the one \<open>init_wolksensor\<close> enables.\<close>

definition set_sensors_types :: "sensor list" where
  "set_sensors_types =
     [\<lparr>sensor_id = CHR ''P'', sensor_type_of = VALUE_ON_DEMAND, sensor_alarm_type_of = ALARM_TYPE_NOTIFY_ONCE\<rparr>,
      \<lparr>sensor_id = CHR ''T'', sensor_type_of = VALUE_ON_DEMAND, sensor_alarm_type_of = ALARM_TYPE_NOTIFY_ONCE\<rparr>,
      \<lparr>sensor_id = CHR ''H'', sensor_type_of = VALUE_ON_DEMAND, sensor_alarm_type_of = ALARM_TYPE_NOTIFY_ONCE\<rparr>,
      \<lparr>sensor_id = CHR ''M'', sensor_type_of = NOTIFIES_VALUE, sensor_alarm_type_of = ALARM_TYPE_NOTIFY_ALWAYS\<rparr>]"

definition sample_table :: sensor_table where
  "sample_table = \<lparr>sensors = set_sensors_types, sensors_alarms = replicate 4
     \<lparr>alarm_low = zero_alarm, alarm_high = zero_alarm\<lparr>alarm_enabled := True, alarm_value := 25\<rparr>\<rparr>\<rparr>"

lemma sample_table_wf: "sensor_table_wf sample_table"
  by (simp add: sensor_table_wf_def sample_table_def set_sensors_types_def)

lemma alarm_check_defined_iff_known_witness:
  "(\<exists>b t'. check_sensor_alarm_updates sample_table
      [\<lparr>state_id = CHR ''T'', state_value = Finite 30\<rparr>, \<lparr>state_id = CHR ''P'', state_value = NegInf\<rparr>] 2
      = Some (b, t')) \<and>
   (\<nexists>b t'. check_sensor_alarm_updates sample_table [\<lparr>state_id = CHR ''X'', state_value = Finite 30\<rparr>] 1
      = Some (b, t'))"
  using alarm_check_defined_iff_known [OF sample_table_wf, of 2
      "[\<lparr>state_id = CHR ''T'', state_value = Finite 30\<rparr>, \<lparr>state_id = CHR ''P'', state_value = NegInf\<rparr>]"]
    alarm_check_defined_iff_known [OF sample_table_wf, of 1
      "[\<lparr>state_id = CHR ''X'', state_value = Finite 30\<rparr>]"]
  by (simp add: known_sensor_def sample_table_def set_sensors_types_def Ex_less_4)

lemma repeated_check_raises_nothing_witness:
  "\<exists>b t' t''. check_sensor_alarm_updates sample_table [\<lparr>state_id = CHR ''T'', state_value = Finite 30\<rparr>] 1
      = Some (b, t') \<and>
    check_sensor_alarm_updates t' [\<lparr>state_id = CHR ''T'', state_value = Finite 30\<rparr>] 1
      = Some (False, t'')"
proof (rule repeated_check_raises_nothing [OF sample_table_wf])
  have i: "sensor_index sample_table (CHR ''T'') = 1"
    by (simp add: get_index_of_sensor_def sample_table_def set_sensors_types_def eval_nat_numeral)
  show "\<forall>s \<in> set [\<lparr>state_id = CHR ''T'', state_value = Finite 30\<rparr>].
      known_sensor sample_table (state_id s) \<and> notify_once sample_table (state_id s)"
    using i by (auto simp: known_sensor_def Ex_less_4 sample_table_def set_sensors_types_def)
qed simp_all

end
