(* ===== verification/System_Data.thy ===== *)
theory System_Data
  imports Prelude
begin

text \<open>
  The results that a communication attempt leaves behind (\<open>SDK/core/system.c\<close>, \<open>system.h\<close>) and
  the clock offset (\<open>SDK/core/chrono.c\<close>).  Each phase of an attempt reports a result; the
  application appends it to a running total, which keeps the first error and adds up the times.

  The C union \<open>communication_module_data_t\<close> is read through the member that its tag selects.
  Its three members start with the same error byte and error code and go on with 16-bit times, so
  the union is one record here; the UDP member has a 16-bit \<open>int\<close> as its error code, which
  overlays the low half of the 32-bit code of the others.
\<close>

section \<open>Data\<close>

datatype communication_module_type =
    COMMUNICATION_MODULE_WIFI | COMMUNICATION_MODULE_TCP | COMMUNICATION_MODULE_UDP

datatype communication_protocol_type = COMMUNICATION_PROTOCOL_MQTT | COMMUNICATION_PROTOCOL_KNX

record communication_module_data =
  cmd_error :: u8
  cmd_platform_code :: u32
  cmd_connect_to_ap_time :: u16
  cmd_acquire_ip_address_time :: u16
  cmd_connect_to_server_time :: u16
  cmd_data_exchange_time :: u16
  cmd_disconnect_time :: u16

record communication_module_type_data =
  cmtd_type :: communication_module_type
  cmtd_data :: communication_module_data

record communication_protocol_type_data =
  cptd_type :: communication_protocol_type
  cptd_mqtt_error :: u8
  cptd_module :: communication_module_type_data

record communication_and_battery_data =
  cbd_protocol :: communication_protocol_type_data
  cbd_battery_min_voltage :: u16

datatype system_error_type = SYSTEM_RESET u8 | SYSTEM_BROWNOUT

datatype system_data =
    SystemError system_error_type
  | ProtocolData communication_protocol_type_data
  | CommunicationAndBatteryData communication_and_battery_data

record system_item =
  sys_timestamp :: u32
  sys_data :: system_data

section \<open>Appending a result to the total\<close>

definition append_mqtt_communication_protocol_data :: "u8 \<Rightarrow> u8 \<Rightarrow> u8" where
  "append_mqtt_communication_protocol_data op tot = (if tot = 0 then op else tot)"

definition append_tcp_communication_module_data ::
  "communication_module_data \<Rightarrow> communication_module_data \<Rightarrow> communication_module_data" where
  "append_tcp_communication_module_data op tot =
     (if cmd_error tot = 0
      then tot\<lparr>cmd_error := cmd_error op, cmd_platform_code := cmd_platform_code op\<rparr> else tot)"

text \<open>Only the low 16 bits of the code are assigned through the UDP member.\<close>

definition append_udp_communication_module_data ::
  "communication_module_data \<Rightarrow> communication_module_data \<Rightarrow> communication_module_data" where
  "append_udp_communication_module_data op tot =
     (if cmd_error tot = 0
      then tot\<lparr>cmd_error := cmd_error op,
               cmd_platform_code := word_of_int (uint (cmd_platform_code tot) div 65536 * 65536 +
                                                 uint (cmd_platform_code op) mod 65536)\<rparr>
      else tot)"

definition append_wifi_communication_module_data ::
  "communication_module_data \<Rightarrow> communication_module_data \<Rightarrow> communication_module_data" where
  "append_wifi_communication_module_data op tot =
     (let tot' = (if cmd_error tot = 0
                  then tot\<lparr>cmd_error := cmd_error op, cmd_platform_code := cmd_platform_code op\<rparr>
                  else tot)
      in tot'\<lparr>cmd_connect_to_ap_time := cmd_connect_to_ap_time tot' + cmd_connect_to_ap_time op,
              cmd_acquire_ip_address_time :=
                cmd_acquire_ip_address_time tot' + cmd_acquire_ip_address_time op,
              cmd_connect_to_server_time :=
                cmd_connect_to_server_time tot' + cmd_connect_to_server_time op,
              cmd_data_exchange_time := cmd_data_exchange_time tot' + cmd_data_exchange_time op,
              cmd_disconnect_time := cmd_disconnect_time tot' + cmd_disconnect_time op\<rparr>)"

definition append_communication_module_type_data ::
  "communication_module_type_data \<Rightarrow> communication_module_type_data \<Rightarrow>
   communication_module_type_data" where
  "append_communication_module_type_data op tot =
     (let tot' = tot\<lparr>cmtd_type := cmtd_type op\<rparr> in
      case cmtd_type tot' of
        COMMUNICATION_MODULE_WIFI \<Rightarrow>
          tot'\<lparr>cmtd_data := append_wifi_communication_module_data (cmtd_data op) (cmtd_data tot')\<rparr>
      | COMMUNICATION_MODULE_TCP \<Rightarrow>
          tot'\<lparr>cmtd_data := append_tcp_communication_module_data (cmtd_data op) (cmtd_data tot')\<rparr>
      | COMMUNICATION_MODULE_UDP \<Rightarrow>
          tot'\<lparr>cmtd_data := append_udp_communication_module_data (cmtd_data op) (cmtd_data tot')\<rparr>)"

definition append_communication_protocol_type_data ::
  "communication_protocol_type_data \<Rightarrow> communication_protocol_type_data \<Rightarrow>
   communication_protocol_type_data" where
  "append_communication_protocol_type_data op tot =
     (let t1 = tot\<lparr>cptd_type := cptd_type op\<rparr>;
          t2 = (case cptd_type t1 of
                  COMMUNICATION_PROTOCOL_MQTT \<Rightarrow>
                    t1\<lparr>cptd_mqtt_error := append_mqtt_communication_protocol_data
                                           (cptd_mqtt_error op) (cptd_mqtt_error t1)\<rparr>
                | _ \<Rightarrow> t1)
      in t2\<lparr>cptd_module := append_communication_module_type_data (cptd_module op) (cptd_module t2)\<rparr>)"

definition append_communication_and_battery_data ::
  "communication_and_battery_data \<Rightarrow> communication_and_battery_data \<Rightarrow>
   communication_and_battery_data" where
  "append_communication_and_battery_data op tot =
     (let t1 = tot\<lparr>cbd_protocol :=
                     append_communication_protocol_type_data (cbd_protocol op) (cbd_protocol tot)\<rparr>
      in if cbd_battery_min_voltage t1 = 0 \<or> cbd_battery_min_voltage t1 > cbd_battery_min_voltage op
         then t1\<lparr>cbd_battery_min_voltage := cbd_battery_min_voltage op\<rparr> else t1)"

section \<open>Success\<close>

definition is_mqtt_communication_protocol_success :: "u8 \<Rightarrow> bool" where
  "is_mqtt_communication_protocol_success e \<longleftrightarrow> e = 0"

definition is_wifi_communication_module_success :: "communication_module_data \<Rightarrow> bool" where
  "is_wifi_communication_module_success d \<longleftrightarrow> cmd_error d = 0"

definition is_tcp_communication_module_success :: "communication_module_data \<Rightarrow> bool" where
  "is_tcp_communication_module_success d \<longleftrightarrow> cmd_error d = 0"

definition is_udp_communication_module_success :: "communication_module_data \<Rightarrow> bool" where
  "is_udp_communication_module_success d \<longleftrightarrow> cmd_error d = 0"

definition is_communication_module_success :: "communication_module_type_data \<Rightarrow> bool" where
  "is_communication_module_success d =
     (case cmtd_type d of
        COMMUNICATION_MODULE_WIFI \<Rightarrow> is_wifi_communication_module_success (cmtd_data d)
      | COMMUNICATION_MODULE_TCP \<Rightarrow> is_tcp_communication_module_success (cmtd_data d)
      | COMMUNICATION_MODULE_UDP \<Rightarrow> is_udp_communication_module_success (cmtd_data d))"

definition is_communication_protocol_success :: "communication_protocol_type_data \<Rightarrow> bool" where
  "is_communication_protocol_success d =
     (let protocol_success = (case cptd_type d of
            COMMUNICATION_PROTOCOL_MQTT \<Rightarrow> is_mqtt_communication_protocol_success (cptd_mqtt_error d)
          | _ \<Rightarrow> False)
      in protocol_success \<and> is_communication_module_success (cptd_module d))"

section \<open>The total keeps the first error\<close>

definition first_nonzero :: "u8 list \<Rightarrow> u8" where
  "first_nonzero es = (case filter (\<lambda>e. e \<noteq> 0) es of [] \<Rightarrow> 0 | e # _ \<Rightarrow> e)"

lemma first_nonzero_simps [simp]:
  "first_nonzero [] = 0"
  "first_nonzero (e # es) = (if e \<noteq> 0 then e else first_nonzero es)"
  by (simp_all add: first_nonzero_def)

lemma first_nonzero_eq_0: "first_nonzero es = 0 \<longleftrightarrow> (\<forall>e \<in> set es. e = 0)"
  by (induction es) auto

abbreviation module_error :: "communication_protocol_type_data \<Rightarrow> u8" where
  "module_error d \<equiv> cmd_error (cmtd_data (cptd_module d))"

lemma is_communication_module_success_iff:
  "is_communication_module_success d \<longleftrightarrow> cmd_error (cmtd_data d) = 0"
  by (simp add: is_communication_module_success_def is_wifi_communication_module_success_def
      is_tcp_communication_module_success_def is_udp_communication_module_success_def
      split: communication_module_type.splits)

lemma is_communication_protocol_success_iff:
  "is_communication_protocol_success d \<longleftrightarrow>
     cptd_type d = COMMUNICATION_PROTOCOL_MQTT \<and> cptd_mqtt_error d = 0 \<and> module_error d = 0"
  by (simp add: is_communication_protocol_success_def is_communication_module_success_iff
      is_mqtt_communication_protocol_success_def split: communication_protocol_type.splits)

lemma append_module_error:
  "cmd_error (cmtd_data (append_communication_module_type_data op tot)) =
     (if cmd_error (cmtd_data tot) = 0 then cmd_error (cmtd_data op) else cmd_error (cmtd_data tot))"
  by (simp add: append_communication_module_type_data_def Let_def
      append_wifi_communication_module_data_def append_tcp_communication_module_data_def
      append_udp_communication_module_data_def split: communication_module_type.splits)

lemma append_module_type [simp]:
  "cmtd_type (append_communication_module_type_data op tot) = cmtd_type op"
  by (simp add: append_communication_module_type_data_def Let_def
      split: communication_module_type.splits)

lemma append_protocol_simps:
  "cptd_type (append_communication_protocol_type_data op tot) = cptd_type op"
  "cptd_module (append_communication_protocol_type_data op tot) =
     append_communication_module_type_data (cptd_module op) (cptd_module tot)"
  "cptd_type op = COMMUNICATION_PROTOCOL_MQTT \<Longrightarrow>
   cptd_mqtt_error (append_communication_protocol_type_data op tot) =
     (if cptd_mqtt_error tot = 0 then cptd_mqtt_error op else cptd_mqtt_error tot)"
  by (simp_all add: append_communication_protocol_type_data_def Let_def
      append_mqtt_communication_protocol_data_def split: communication_protocol_type.splits)

text \<open>The application appends the results of its phases one after the other.\<close>

definition append_results ::
  "communication_protocol_type_data list \<Rightarrow> communication_protocol_type_data \<Rightarrow>
   communication_protocol_type_data" where
  "append_results rs tot = foldl (\<lambda>t r. append_communication_protocol_type_data r t) tot rs"

lemma append_results_simps [simp]:
  "append_results [] tot = tot"
  "append_results (r # rs) tot = append_results rs (append_communication_protocol_type_data r tot)"
  by (simp_all add: append_results_def)

lemma append_results_errors:
  assumes "\<forall>r \<in> set rs. cptd_type r = COMMUNICATION_PROTOCOL_MQTT"
  shows "cptd_mqtt_error (append_results rs tot) =
           first_nonzero (cptd_mqtt_error tot # map cptd_mqtt_error rs) \<and>
         module_error (append_results rs tot) =
           first_nonzero (module_error tot # map module_error rs)"
  using assms
  by (induction rs arbitrary: tot) (simp_all add: append_protocol_simps append_module_error)

lemma append_results_type:
  assumes "\<forall>r \<in> set rs. cptd_type r = COMMUNICATION_PROTOCOL_MQTT"
    and "cptd_type tot = COMMUNICATION_PROTOCOL_MQTT"
  shows "cptd_type (append_results rs tot) = COMMUNICATION_PROTOCOL_MQTT"
  using assms by (induction rs arbitrary: tot) (simp_all add: append_protocol_simps)

text \<open>Whatever results an attempt appends over MQTT (from any mix of Wi-Fi, TCP and UDP modules),
  the total carries the first non-zero protocol error and the first non-zero module error, and it
  counts as a success exactly when the starting total and every appended result were successes.\<close>

theorem total_is_success_iff_all_are:
  assumes "\<forall>r \<in> set (tot # rs). cptd_type r = COMMUNICATION_PROTOCOL_MQTT"
  shows "cptd_mqtt_error (append_results rs tot) =
           first_nonzero (map cptd_mqtt_error (tot # rs)) \<and>
         module_error (append_results rs tot) = first_nonzero (map module_error (tot # rs)) \<and>
         (is_communication_protocol_success (append_results rs tot) \<longleftrightarrow>
            (\<forall>r \<in> set (tot # rs). is_communication_protocol_success r))"
proof (intro conjI)
  have rs: "\<forall>r \<in> set rs. cptd_type r = COMMUNICATION_PROTOCOL_MQTT" using assms by simp
  note e = append_results_errors [OF rs, of tot]
  show "cptd_mqtt_error (append_results rs tot) = first_nonzero (map cptd_mqtt_error (tot # rs))"
    using e by simp
  show "module_error (append_results rs tot) = first_nonzero (map module_error (tot # rs))"
    using e by simp
  have "cptd_type (append_results rs tot) = COMMUNICATION_PROTOCOL_MQTT"
    using append_results_type [OF rs] assms by simp
  with e assms show "is_communication_protocol_success (append_results rs tot) \<longleftrightarrow>
      (\<forall>r \<in> set (tot # rs). is_communication_protocol_success r)"
    by (auto simp: is_communication_protocol_success_iff first_nonzero_eq_0)
qed

definition sample_result :: "communication_module_type \<Rightarrow> u8 \<Rightarrow> u8 \<Rightarrow> communication_protocol_type_data" where
  "sample_result m pe me =
     \<lparr>cptd_type = COMMUNICATION_PROTOCOL_MQTT, cptd_mqtt_error = pe,
      cptd_module = \<lparr>cmtd_type = m, cmtd_data = \<lparr>cmd_error = me, cmd_platform_code = 7,
        cmd_connect_to_ap_time = 1, cmd_acquire_ip_address_time = 2,
        cmd_connect_to_server_time = 3, cmd_data_exchange_time = 4, cmd_disconnect_time = 5\<rparr>\<rparr>\<rparr>"

lemma total_is_success_iff_all_are_witness:
  "let rs = [sample_result COMMUNICATION_MODULE_TCP 0 0, sample_result COMMUNICATION_MODULE_WIFI 32 64,
             sample_result COMMUNICATION_MODULE_UDP 16 16];
       tot = sample_result COMMUNICATION_MODULE_WIFI 0 0
   in cptd_mqtt_error (append_results rs tot) = 32 \<and> module_error (append_results rs tot) = 64 \<and>
      \<not> is_communication_protocol_success (append_results rs tot)"
  using total_is_success_iff_all_are
    [of "sample_result COMMUNICATION_MODULE_WIFI 0 0"
      "[sample_result COMMUNICATION_MODULE_TCP 0 0, sample_result COMMUNICATION_MODULE_WIFI 32 64,
        sample_result COMMUNICATION_MODULE_UDP 16 16]"]
  by (simp add: sample_result_def is_communication_protocol_success_iff del: append_results_simps)

lemma append_battery_minimum:
  "cbd_battery_min_voltage (append_communication_and_battery_data op tot) =
     (if cbd_battery_min_voltage tot = 0 then cbd_battery_min_voltage op
      else min (cbd_battery_min_voltage tot) (cbd_battery_min_voltage op))"
  by (auto simp: append_communication_and_battery_data_def Let_def min_def)

section \<open>The clock\<close>

text \<open>\<open>RTC_offset\<close> lives in memory that a reset does not clear; \<open>rtc\<close> is the platform's counter.\<close>

definition chrono_init :: "bool \<Rightarrow> u32 \<Rightarrow> u32" where
  "chrono_init reset offset = (if reset then 0x5B85E200 else offset)"

definition rtc_get_ts :: "u32 \<Rightarrow> u32 \<Rightarrow> u32" where
  "rtc_get_ts offset rtc = offset + rtc"

definition rtc_set :: "u32 \<Rightarrow> u32 \<Rightarrow> u32" where
  "rtc_set time rtc = time - rtc"

text \<open>Setting the clock and reading it after \<open>d\<close> counter ticks gives the set time plus \<open>d\<close>, modulo
  \<open>2 ^ 32\<close>, also when the counter wraps in between.\<close>

lemma rtc_set_get: "rtc_get_ts (rtc_set time rtc) (rtc + d) = time + d"
  by (simp add: rtc_get_ts_def rtc_set_def)

end
