(* ===== verification/Record_Buffers.thy ===== *)
theory Record_Buffers
  imports Circular_Buffer Sensors System_Data
begin

text \<open>
  The three record buffers of the firmware on top of the circular buffer: event queues
  (\<open>SDK/core/event_buffer.c\<close>), the sensor readings waiting to be sent
  (\<open>SDK/core/sensor_readings_buffer.c\<close>) and the system items
  (\<open>SDK/core/system_buffer.c\<close>).  The time that \<open>rtc_get_ts\<close> returns is the argument \<open>now\<close>; the
  element size that \<open>sizeof\<close> gives is the argument \<open>esize\<close>, because it depends on compiler
  flags.  The event argument is written by nobody in this firmware (it has no actuators) and is
  not part of the record.
\<close>

section \<open>Events\<close>

record event =
  event_type :: u8
  event_timestamp :: u32

type_synonym event_buffer = "event circular_buffer"

definition add_event_type :: "u32 \<Rightarrow> event_buffer \<Rightarrow> u8 \<Rightarrow> event_buffer option" where
  "add_event_type now b ty = do {
     (_, b') \<leftarrow> circular_buffer_add b \<lparr>event_type = ty, event_timestamp = now\<rparr>;
     Some b'
   }"

definition add_event :: "u32 \<Rightarrow> event_buffer \<Rightarrow> event \<Rightarrow> (event \<times> event_buffer) option" where
  "add_event now b e = do {
     let e' = e\<lparr>event_timestamp := now\<rparr>;
     (_, b') \<leftarrow> circular_buffer_add b e';
     Some (e', b')
   }"

definition pop_event :: "event_buffer \<Rightarrow> (bool \<times> event option \<times> event_buffer) option" where
  "pop_event b = circular_buffer_pop True b"

definition clear_event_buffer :: "event_buffer \<Rightarrow> event_buffer option" where
  "clear_event_buffer b = circular_buffer_clear \<lparr>event_type = 0, event_timestamp = 0\<rparr> b"

definition events_count :: "event_buffer \<Rightarrow> u16" where
  "events_count b = circular_buffer_size b"

section \<open>Sensor readings\<close>

record sensor_readings =
  readings_timestamp :: u32
  readings_values :: "c_float list"

definition SENSOR_READINGS_BUFFER_SIZE :: u16 where "SENSOR_READINGS_BUFFER_SIZE = 150"

definition init_sensor_readings_buffer ::
  "u16 \<Rightarrow> sensor_readings list \<Rightarrow> sensor_readings circular_buffer \<Rightarrow> bool \<Rightarrow>
   sensor_readings circular_buffer option" where
  "init_sensor_readings_buffer esize storage b clear =
     circular_buffer_init \<lparr>readings_timestamp = 0, readings_values = replicate NUMBER_OF_SENSORS (Finite 0)\<rparr>
       b storage SENSOR_READINGS_BUFFER_SIZE esize False clear"

definition store_sensor_readings ::
  "u32 \<Rightarrow> sensor_readings circular_buffer \<Rightarrow> c_float list \<Rightarrow> sensor_readings circular_buffer option" where
  "store_sensor_readings now b sensor_values = do {
     vs \<leftarrow> array_prefix sensor_values NUMBER_OF_SENSORS;
     (_, b') \<leftarrow> circular_buffer_add b \<lparr>readings_timestamp = now, readings_values = vs\<rparr>;
     Some b'
   }"

definition remove_sensor_readings ::
  "sensor_readings circular_buffer \<Rightarrow> u16 \<Rightarrow> sensor_readings circular_buffer option" where
  "remove_sensor_readings b n = map_option snd (circular_buffer_drop_from_beggining b n)"

definition sensor_readings_count :: "sensor_readings circular_buffer \<Rightarrow> u16" where
  "sensor_readings_count b = circular_buffer_size b"

definition sensor_readings_buffer_full :: "sensor_readings circular_buffer \<Rightarrow> bool" where
  "sensor_readings_buffer_full b = circular_buffer_full b"

definition sensor_readings_buffer_clear ::
  "sensor_readings circular_buffer \<Rightarrow> sensor_readings circular_buffer option" where
  "sensor_readings_buffer_clear b =
     circular_buffer_clear \<lparr>readings_timestamp = 0, readings_values = replicate NUMBER_OF_SENSORS (Finite 0)\<rparr> b"

section \<open>System items\<close>

definition SYSTEM_BUFFER_SIZE :: u16 where "SYSTEM_BUFFER_SIZE = 60"

text \<open>A cleared slot has type 0, which is \<open>SYSTEM_ERROR\<close> with a reset reason of 0.\<close>

definition zero_system_item :: system_item where
  "zero_system_item = \<lparr>sys_timestamp = 0, sys_data = SystemError (SYSTEM_RESET 0)\<rparr>"

definition init_system_buffer ::
  "u16 \<Rightarrow> system_item list \<Rightarrow> system_item circular_buffer \<Rightarrow> bool \<Rightarrow> system_item circular_buffer option" where
  "init_system_buffer esize storage b clear =
     circular_buffer_init zero_system_item b storage SYSTEM_BUFFER_SIZE esize True clear"

definition remove_system_data ::
  "system_item circular_buffer \<Rightarrow> u16 \<Rightarrow> system_item circular_buffer option" where
  "remove_system_data b n = map_option snd (circular_buffer_drop_from_beggining b n)"

definition system_items_count :: "system_item circular_buffer \<Rightarrow> u16" where
  "system_items_count b = circular_buffer_size b"

definition pop_system_item ::
  "system_item circular_buffer \<Rightarrow> (bool \<times> system_item option \<times> system_item circular_buffer) option" where
  "pop_system_item b = circular_buffer_pop True b"

definition system_buffer_clear :: "system_item circular_buffer \<Rightarrow> system_item circular_buffer option" where
  "system_buffer_clear b = circular_buffer_clear zero_system_item b"

definition add_system_data ::
  "u32 \<Rightarrow> system_data \<Rightarrow> system_item circular_buffer \<Rightarrow> system_item circular_buffer option" where
  "add_system_data now d b =
     map_option snd (circular_buffer_add b \<lparr>sys_timestamp = now, sys_data = d\<rparr>)"

definition add_communication_and_battery_data ::
  "u32 \<Rightarrow> communication_and_battery_data \<Rightarrow> system_item circular_buffer \<Rightarrow>
   system_item circular_buffer option" where
  "add_communication_and_battery_data now d b =
     add_system_data now (CommunicationAndBatteryData d) b"

definition add_communication_protocol_data ::
  "u32 \<Rightarrow> communication_protocol_type_data \<Rightarrow> system_item circular_buffer \<Rightarrow>
   system_item circular_buffer option" where
  "add_communication_protocol_data now d b = add_system_data now (ProtocolData d) b"

definition add_system_error ::
  "u32 \<Rightarrow> system_error_type \<Rightarrow> system_item circular_buffer \<Rightarrow> system_item circular_buffer option" where
  "add_system_error now e b = add_system_data now (SystemError e) b"

section \<open>What they do on the contents\<close>

lemma cb_add_wrap:
  assumes "cb_inv b" "cb_wrap b"
  obtains b' where "circular_buffer_add b x = Some (True, b')" "cb_inv b'"
    "cb_list b' = keep_last (cb_capacity b) (cb_list b @ [x])" "cb_same_config b b'"
  using cb_push [OF assms(1), of x] assms(2) by blast

lemma map_keep_last: "map f (keep_last n xs) = keep_last n (map f xs)"
  by (simp add: keep_last_def drop_map)

text \<open>An event queue overwrites, so posting always succeeds and keeps the newest events.\<close>

definition event_queue :: "event_buffer \<Rightarrow> bool" where
  "event_queue b \<longleftrightarrow> cb_inv b \<and> cb_wrap b"

definition event_types :: "event_buffer \<Rightarrow> u8 list" where
  "event_types b = map event_type (cb_list b)"

lemma add_event_type_ok:
  assumes "event_queue b"
  obtains b' where "add_event_type now b ty = Some b'" "event_queue b'" "cb_capacity b' = cb_capacity b"
    "cb_list b' = keep_last (cb_capacity b) (cb_list b @ [\<lparr>event_type = ty, event_timestamp = now\<rparr>])"
    "event_types b' = keep_last (cb_capacity b) (event_types b @ [ty])"
proof -
  from assms have "cb_inv b" "cb_wrap b" by (simp_all add: event_queue_def)
  then obtain b' where
    "circular_buffer_add b \<lparr>event_type = ty, event_timestamp = now\<rparr> = Some (True, b')" "cb_inv b'"
    "cb_list b' = keep_last (cb_capacity b) (cb_list b @ [\<lparr>event_type = ty, event_timestamp = now\<rparr>])"
    "cb_same_config b b'" by (rule cb_add_wrap)
  with \<open>cb_wrap b\<close> show thesis
    by (intro that [of b'])
      (simp_all add: add_event_type_def event_queue_def event_types_def cb_same_configD map_keep_last)
qed

lemma pop_event_ok:
  assumes "event_queue b"
  obtains b' where
    "pop_event b = Some (cb_list b \<noteq> [], (case cb_list b of [] \<Rightarrow> None | e # _ \<Rightarrow> Some e), b')"
    "event_queue b'" "cb_list b' = tl (cb_list b)" "cb_capacity b' = cb_capacity b"
proof (cases "cb_list b")
  case Nil
  with assms that [of b] show thesis
    by (simp add: pop_event_def event_queue_def cb_pop_empty)
next
  case (Cons e es)
  from assms have "cb_inv b" "cb_wrap b" by (simp_all add: event_queue_def)
  from cb_pop_nonempty [OF this(1), of True] Cons obtain b' where
    "circular_buffer_pop True b = Some (True, Some e, b')" "cb_inv b'" "cb_list b' = es"
    "cb_same_config b b'" by auto
  with Cons \<open>cb_wrap b\<close> that [of b'] show thesis
    by (simp add: pop_event_def event_queue_def cb_same_configD)
qed

section \<open>Readings are kept until they are removed\<close>

definition readings_queue :: "sensor_readings circular_buffer \<Rightarrow> bool" where
  "readings_queue b \<longleftrightarrow> cb_inv b \<and> \<not> cb_wrap b \<and> cb_storage_size b = SENSOR_READINGS_BUFFER_SIZE"

text \<open>Storing a reading appends it while there is room and is ignored once 150 readings wait: the
  buffer never loses an older reading to a newer one, and what is stored are the first four
  values with the time of storing.\<close>

theorem store_sensor_readings_appends_or_ignores:
  assumes "readings_queue b" and "NUMBER_OF_SENSORS \<le> length vs"
  shows "\<exists>b'. store_sensor_readings now b vs = Some b' \<and> readings_queue b' \<and>
     cb_list b' = (if length (cb_list b) < 150
                   then cb_list b @ [\<lparr>readings_timestamp = now, readings_values = take 4 vs\<rparr>]
                   else cb_list b)"
proof -
  let ?x = "\<lparr>readings_timestamp = now, readings_values = take 4 vs\<rparr>"
  from assms(1) have b: "cb_inv b" "\<not> cb_wrap b" "cb_capacity b = 150"
    by (simp_all add: readings_queue_def cb_capacity_def SENSOR_READINGS_BUFFER_SIZE_def)
  show ?thesis
  proof (cases "cb_full b")
    case True
    with b assms show ?thesis
      by (simp add: store_sensor_readings_def cb_add_full_no_wrap cb_full_iff)
  next
    case False
    with cb_count_le [OF b(1)] b have room: "length (cb_list b) < 150" by (simp add: cb_full_iff)
    from cb_push [OF b(1), of ?x] False obtain b' where
      "circular_buffer_add b ?x = Some (True, b')" "cb_inv b'" "cb_same_config b b'"
      "cb_list b' = keep_last (cb_capacity b) (cb_list b @ [?x])" by blast
    with b room assms show ?thesis
      by (simp add: store_sensor_readings_def readings_queue_def cb_same_configD)
  qed
qed

text \<open>A reset that is not a power-on keeps every reading: initialising the buffer without clearing,
  on the memory the reset left, gives back the same queue, while a power-on empties it.\<close>

theorem init_sensor_readings_buffer_keeps_or_clears:
  assumes "readings_queue b"
  shows "init_sensor_readings_buffer (cb_element_size b) (cb_storage b) b False = Some b \<and>
         (\<exists>b'. init_sensor_readings_buffer (cb_element_size b) (cb_storage b) b True = Some b' \<and>
               readings_queue b' \<and> cb_list b' = [])"
proof
  let ?z = "\<lparr>readings_timestamp = 0, readings_values = replicate NUMBER_OF_SENSORS (Finite 0)\<rparr>"
  have same: "b\<lparr>cb_storage := cb_storage b, cb_storage_size := SENSOR_READINGS_BUFFER_SIZE,
      cb_element_size := cb_element_size b, cb_wrap := False\<rparr> = b"
    using assms(1) by (simp add: readings_queue_def)
  show "init_sensor_readings_buffer (cb_element_size b) (cb_storage b) b False = Some b"
    unfolding init_sensor_readings_buffer_def circular_buffer_init_def Let_def same by simp
  from assms have pre: "0 < unat (cb_storage_size b)"
    "length (cb_storage b) = unat (cb_storage_size b)"
    "unat (cb_storage_size b) * unat (cb_element_size b) < 65536"
    using cb_inv_storage [of b] by (simp_all add: readings_queue_def SENSOR_READINGS_BUFFER_SIZE_def)
  obtain b' where "circular_buffer_clear ?z b = Some b'" "cb_inv b'" "cb_list b' = []"
    "cb_storage_size b' = cb_storage_size b" "cb_wrap b' = cb_wrap b"
    using cb_clear [OF pre, of ?z] by blast
  then show "\<exists>b'. init_sensor_readings_buffer (cb_element_size b) (cb_storage b) b True = Some b' \<and>
      readings_queue b' \<and> cb_list b' = []"
    using assms(1)
    unfolding init_sensor_readings_buffer_def circular_buffer_init_def Let_def same
    by (simp add: readings_queue_def)
qed

text \<open>Two readings in a buffer of 150 slots of 20 bytes, just behind the wrap.\<close>

definition sample_readings :: "sensor_readings circular_buffer" where
  "sample_readings =
     \<lparr>cb_head = 149, cb_tail = 1,
      cb_storage = replicate 150 \<lparr>readings_timestamp = 3, readings_values = replicate 4 PosInf\<rparr>,
      cb_storage_size = 150, cb_element_size = 20, cb_empty = False, cb_full = False, cb_wrap = False\<rparr>"

lemma sample_readings_queue: "readings_queue sample_readings"
  by (simp add: readings_queue_def cb_inv_def sample_readings_def SENSOR_READINGS_BUFFER_SIZE_def)

lemma sample_readings_length: "length (cb_list sample_readings) = 2"
  by (simp add: sample_readings_def cb_list_def cb_count_def)

lemma store_sensor_readings_appends_or_ignores_witness:
  "\<exists>b'. store_sensor_readings 9 sample_readings [Finite 1, Finite 2, Finite 3, Finite 4] = Some b' \<and>
        readings_queue b' \<and> cb_list b' = cb_list sample_readings @
          [\<lparr>readings_timestamp = 9, readings_values = [Finite 1, Finite 2, Finite 3, Finite 4]\<rparr>]"
  using store_sensor_readings_appends_or_ignores
    [OF sample_readings_queue, of "[Finite 1, Finite 2, Finite 3, Finite 4]" 9] sample_readings_length
  by auto

lemma init_sensor_readings_buffer_keeps_or_clears_witness:
  "init_sensor_readings_buffer 20 (cb_storage sample_readings) sample_readings False = Some sample_readings"
  using init_sensor_readings_buffer_keeps_or_clears [OF sample_readings_queue]
  by (simp add: sample_readings_def)

end
