(* ===== verification/Command_Parser.thy ===== *)
theory Command_Parser
  imports Record_Buffers Inet
begin

text \<open>
  The text commands that arrive over USB, UART and MQTT (\<open>SDK/core/command_parser.c\<close>, the types of
  \<open>SDK/core/commands.h\<close>, the checks of \<open>wolksensor/src/util_conversions.c\<close>).  Characters collect in
  a circular buffer; a command is what stands before a semicolon.

  A C string is the list of its characters up to the NUL.  The library functions are modelled as
  avr-libc has them: \<open>atoi\<close> computes in 16 bits, \<open>strtoul\<close> saturates at \<open>2 ^ 32 - 1\<close> and
  negates after a minus sign, \<open>atof\<close> is the decimal number (before it is rounded to a float).
  \<open>inet_pton_ipv4\<close> is called with a null destination; on the target its four bytes go to the
  general purpose registers at address 0, which nothing else uses.
\<close>

section \<open>Commands\<close>

datatype commands_t =
    COMMAND_BAD | COMMAND_MAC | COMMAND_NOW | COMMAND_RELOAD | COMMAND_HEARTBEAT | COMMAND_RTC
  | COMMAND_VERSION | COMMAND_STATUS | COMMAND_READINGS | COMMAND_ID | COMMAND_SIGNATURE
  | COMMAND_URL | COMMAND_PORT | COMMAND_SSID | COMMAND_PASS | COMMAND_AUTH | COMMAND_MOVEMENT
  | COMMAND_ATMO | COMMAND_SYSTEM | COMMAND_STATIC_IP | COMMAND_STATIC_MASK
  | COMMAND_STATIC_GATEWAY | COMMAND_STATIC_DNS | COMMAND_ALARM | COMMAND_SET | COMMAND_LOCATION
  | COMMAND_SSL | COMMAND_MQTT_USERNAME | COMMAND_TEMP_OFFSET | COMMAND_HUMIDITY_OFFSET
  | COMMAND_PRESSURE_OFFSET | COMMAND_OFFSET_FACTORY | COMMAND_ACQUISITION

datatype actuator_type = ACTUATOR_TYPE_SWITCH | ACTUATOR_TYPE_DC_MOTOR | ACTUATOR_TYPE_SERVO

record actuator =
  actuator_id :: string
  actuator_type_of :: actuator_type

text \<open>
  The union \<open>command_argument_t\<close>, by the member last written; \<open>ZeroArgument\<close> is all bytes zero and
  \<open>StringArgument\<close> holds at most 64 characters, without a NUL when it has 64.  The member
  \<open>set_argument\<close> appears with its id alone or with the value of the actuator's type.
\<close>

datatype command_argument =
    ZeroArgument
  | UInt32Argument u32
  | FloatArgument rat
  | UInt16Argument u16
  | StringArgument string
  | BoolArgument bool
  | AlarmsArgument "sensor_alarms list"
  | SetIdArgument string
  | SwitchArgument string bool
  | MotorArgument string "32 word"

record command =
  command_type :: commands_t
  command_has_argument :: bool
  command_arg :: command_argument

definition COMMAND_MAX_LENGTH :: nat where "COMMAND_MAX_LENGTH = 96"
definition COMMAND_ARGUMENT_MAX_LENGTH :: nat where "COMMAND_ARGUMENT_MAX_LENGTH = 64"
definition MAX_INT_LENGTH :: nat where "MAX_INT_LENGTH = 5"

abbreviation NUL :: char where "NUL \<equiv> CHR 0x00"
abbreviation COMMAND_TERMINATOR :: char where "COMMAND_TERMINATOR \<equiv> CHR '';''"
abbreviation COMMAND_ARGUMENT_SEPARATOR :: char where "COMMAND_ARGUMENT_SEPARATOR \<equiv> CHR '' ''"

definition command_table :: "(commands_t \<times> string) list" where
  "command_table =
     [(COMMAND_MAC, ''MAC''), (COMMAND_NOW, ''NOW''), (COMMAND_RELOAD, ''RELOAD''),
      (COMMAND_HEARTBEAT, ''HEARTBEAT''), (COMMAND_RTC, ''RTC''), (COMMAND_VERSION, ''VERSION''),
      (COMMAND_STATUS, ''STATUS''), (COMMAND_READINGS, ''READINGS''), (COMMAND_ID, ''ID''),
      (COMMAND_SIGNATURE, ''SIGNATURE''), (COMMAND_URL, ''URL''), (COMMAND_PORT, ''PORT''),
      (COMMAND_SSID, ''SSID''), (COMMAND_PASS, ''PASS''), (COMMAND_AUTH, ''AUTH''),
      (COMMAND_MOVEMENT, ''MOVEMENT''), (COMMAND_ATMO, ''ATMO''), (COMMAND_SYSTEM, ''SYSTEM''),
      (COMMAND_STATIC_IP, ''STATIC_IP''), (COMMAND_STATIC_MASK, ''STATIC_MASK''),
      (COMMAND_STATIC_GATEWAY, ''STATIC_GATEWAY''), (COMMAND_STATIC_DNS, ''STATIC_DNS''),
      (COMMAND_ALARM, ''ALARM''), (COMMAND_SET, ''SET''), (COMMAND_LOCATION, ''LOCATION''),
      (COMMAND_SSL, ''SSL''), (COMMAND_TEMP_OFFSET, ''TEMP_OFFSET''),
      (COMMAND_HUMIDITY_OFFSET, ''HUMIDITY_OFFSET''), (COMMAND_PRESSURE_OFFSET, ''PRESSURE_OFFSET''),
      (COMMAND_OFFSET_FACTORY, ''OFFSET_FACTORY''), (COMMAND_ACQUISITION, ''ACQUISITION'')]"

section \<open>Numbers in text\<close>

definition isalpha :: "char \<Rightarrow> bool" where
  "isalpha c \<longleftrightarrow> (65 \<le> code c \<and> code c \<le> 90) \<or> (97 \<le> code c \<and> code c \<le> 122)"

definition digits_value :: "string \<Rightarrow> nat" where
  "digits_value s = foldl (\<lambda>v c. v * 10 + (code c - 48)) 0 (takeWhile isdigit s)"

definition c_atoi :: "string \<Rightarrow> u16" where
  "c_atoi s =
     (let t = dropWhile isspace s in
      if t \<noteq> [] \<and> hd t = CHR ''-'' then - of_nat (digits_value (tl t))
      else if t \<noteq> [] \<and> hd t = CHR ''+'' then of_nat (digits_value (tl t))
      else of_nat (digits_value t))"

definition c_strtoul :: "string \<Rightarrow> u32" where
  "c_strtoul s =
     (let neg = (s \<noteq> [] \<and> hd s = CHR ''-'');
          v = min (digits_value (if neg then tl s else s)) 4294967295
      in if neg then - of_nat v else of_nat v)"

definition c_atof :: "string \<Rightarrow> rat" where
  "c_atof s =
     (let neg = (s \<noteq> [] \<and> hd s = CHR ''-'');
          t = (if neg then tl s else s);
          whole = takeWhile isdigit t;
          rest = dropWhile isdigit t;
          frac = (if rest \<noteq> [] \<and> hd rest = CHR ''.'' then takeWhile isdigit (tl rest) else []);
          v = of_nat (digits_value whole) + of_nat (digits_value frac) / 10 ^ length frac
      in if neg then - v else v)"

definition is_string_numeric :: "string \<Rightarrow> bool" where
  "is_string_numeric str =
     (let s = (if str \<noteq> [] \<and> hd str = CHR ''-'' then tl str else str)
      in s \<noteq> [] \<and> (\<forall>c \<in> set s. isdigit c))"

fun decimal_numeric_loop :: "string \<Rightarrow> nat \<Rightarrow> bool" where
  "decimal_numeric_loop [] dots = (\<not> dots > 1)"
| "decimal_numeric_loop (c # cs) dots =
     (if isdigit c then decimal_numeric_loop cs dots
      else if c = CHR ''.'' then cs \<noteq> [] \<and> decimal_numeric_loop cs (dots + 1)
      else False)"

definition is_string_decimal_numeric :: "string \<Rightarrow> bool" where
  "is_string_decimal_numeric str =
     (let s = (if str \<noteq> [] \<and> hd str = CHR ''-'' then tl str else str)
      in s \<noteq> [] \<and> decimal_numeric_loop s 0)"

definition is_string_hex :: "string \<Rightarrow> bool" where
  "is_string_hex s \<longleftrightarrow> (\<forall>c \<in> set s. c \<in> set ''0123456789ABCDEF'')"

section \<open>Host names\<close>

definition check_top_level_domain :: "string \<Rightarrow> bool" where
  "check_top_level_domain s =
     (let remain = dropWhile (\<lambda>c. c \<noteq> CHR ''.'') s
      in \<forall>c \<in> set (butlast remain). c = CHR ''.'' \<or> isalpha c)"

definition check_hostname_constraints :: "string \<Rightarrow> bool" where
  "check_hostname_constraints s =
     (if length s > 63 \<or> CHR ''.'' \<notin> set s \<or> hd s = CHR ''-'' then False
      else if \<not> (\<forall>c \<in> set (butlast s). isalpha c \<or> isdigit c \<or> c = CHR ''.'' \<or> c = CHR ''-'')
      then False
      else if last s = CHR ''-'' \<or> hd s = CHR ''-'' then False
      else check_top_level_domain s)"

section \<open>The alarm argument\<close>

fun find_argument_item :: "string \<Rightarrow> nat" where
  "find_argument_item [] = 0"
| "find_argument_item (c # cs) = (if c = CHR ''|'' then 1 else 1 + find_argument_item cs)"

lemma find_argument_item_le: "find_argument_item s \<le> length s"
  by (induction s) auto

text \<open>
  The search for the comma; the end of the list is the end of the bytes that were written, so to
  go on is undefined.  \<open>Some None\<close> is \<open>return false\<close>.
\<close>

fun find_values_separator :: "string \<Rightarrow> nat \<Rightarrow> nat \<Rightarrow> nat option option" where
  "find_values_separator [] pos limit = None"
| "find_values_separator (c # cs) pos limit =
     (if c \<noteq> CHR '',''
      then (if pos + 1 = limit then Some None else find_values_separator cs (pos + 1) limit)
      else Some (Some (pos + 1)))"

definition parse_alarm_limit :: "string \<Rightarrow> sensor_alarm \<Rightarrow> sensor_alarm" where
  "parse_alarm_limit s a =
     (if take 3 s = ''OFF'' then a\<lparr>alarm_enabled := False\<rparr>
      else a\<lparr>alarm_enabled := True, alarm_value := c_atoi s\<rparr>)"

text \<open>\<open>junk\<close> is what the uninitialised local \<open>sensor_alarms\<close> happens to hold.\<close>

definition parse_alarm_argument_item ::
  "sensor_alarms \<Rightarrow> string \<Rightarrow> nat \<Rightarrow> (bool \<times> char \<times> sensor_alarms) option" where
  "parse_alarm_argument_item junk argument limit = do {
     let mem = argument @ [NUL];
     c0 \<leftarrow> array_get mem 0;
     c1 \<leftarrow> array_get mem 1;
     (if c1 \<noteq> CHR '':'' then Some (False, c0, junk)
      else do {
        r \<leftarrow> find_values_separator mem 0 limit;
        (case r of
           None \<Rightarrow> Some (False, c0, junk)
         | Some pos \<Rightarrow>
             Some (True, c0,
               \<lparr>alarm_low = parse_alarm_limit (drop 2 argument) (alarm_low junk),
                alarm_high = parse_alarm_limit (drop pos argument) (alarm_high junk)\<rparr>))
      })
   }"

definition set_alarm_limits :: "sensor_alarms \<Rightarrow> sensor_alarms \<Rightarrow> sensor_alarms" where
  "set_alarm_limits new old =
     \<lparr>alarm_low = (alarm_low old)\<lparr>alarm_enabled := alarm_enabled (alarm_low new),
                                  alarm_value := alarm_value (alarm_low new)\<rparr>,
      alarm_high = (alarm_high old)\<lparr>alarm_enabled := alarm_enabled (alarm_high new),
                                    alarm_value := alarm_value (alarm_high new)\<rparr>\<rparr>"

text \<open>
  The loop over the items.  The item's search gets its end position within the whole argument as
  its size, not its length.
\<close>

function parse_alarm_items ::
  "sensor_table \<Rightarrow> sensor_alarms \<Rightarrow> string \<Rightarrow> nat \<Rightarrow> sensor_alarms list \<Rightarrow>
   (bool \<times> sensor_alarms list) option" where
  "parse_alarm_items t junk argument start alarms =
     (let end_pos = start + find_argument_item (drop start argument) in
      if start = end_pos then Some (True, alarms)
      else do {
        (ok, c, new) \<leftarrow> parse_alarm_argument_item junk (drop start argument) end_pos;
        (if \<not> ok then Some (False, alarms)
         else do {
           let i = get_index_of_sensor t c;
           alarms' \<leftarrow> (if sint i \<ge> 0 then do {
                          old \<leftarrow> array_get alarms (unat i);
                          array_set alarms (unat i) (set_alarm_limits new old)
                        } else Some alarms);
           parse_alarm_items t junk argument end_pos alarms'
         })
      })"
  by pat_completeness auto

termination
proof (relation "measure (\<lambda>(t, junk, argument, start, alarms). length argument - start)")
  show "wf (measure (\<lambda>(t, junk, argument, start, alarms). length argument - start))" by simp
next
  fix t junk argument start alarms x a p b c y z i
  assume end_eq: "x = start + find_argument_item (drop start argument)" and ne: "start \<noteq> x"
  then have "0 < find_argument_item (drop start argument)" by simp
  with find_argument_item_le [of "drop start argument"] have "start < length argument"
    by simp
  with end_eq ne show "((t, junk, argument, x, y), t, junk, argument, start, alarms)
      \<in> measure (\<lambda>(t, junk, argument, start, alarms). length argument - start)"
    by simp
qed

declare parse_alarm_items.simps [simp del]

definition parse_alarm_argument ::
  "sensor_table \<Rightarrow> sensor_alarms \<Rightarrow> string \<Rightarrow> (bool \<times> command_argument) option" where
  "parse_alarm_argument t junk argument = do {
     (ok, alarms) \<leftarrow> parse_alarm_items t junk argument 0 (sensors_alarms t);
     Some (ok, AlarmsArgument alarms)
   }"

section \<open>The other arguments\<close>

text \<open>\<open>strtok(s, ":")\<close>: the next token and what a following call continues with.\<close>

definition c_strtok :: "string \<Rightarrow> (string \<times> string) option" where
  "c_strtok s =
     (let t = dropWhile (\<lambda>c. c = CHR '':'') s
      in if t = [] then None
         else Some (takeWhile (\<lambda>c. c \<noteq> CHR '':'') t, tl (dropWhile (\<lambda>c. c \<noteq> CHR '':'') t)))"

text \<open>A null \<open>value\<close> is passed to \<open>strcmp_P\<close> or \<open>atoi\<close>.  \<open>atoi\<close> gives a 16-bit \<open>int\<close>.\<close>

definition parse_set_argument ::
  "actuator list \<Rightarrow> string \<Rightarrow> command_argument \<Rightarrow> (bool \<times> command_argument) option" where
  "parse_set_argument actuators argument old =
     (case c_strtok argument of
        None \<Rightarrow> Some (False, old)
      | Some (i, rest) \<Rightarrow>
          (case List.find (\<lambda>a. actuator_id a = i) actuators of
             None \<Rightarrow> Some (False, old)
           | Some a \<Rightarrow> do {
               (v, _) \<leftarrow> c_strtok rest;
               (case actuator_type_of a of
                  ACTUATOR_TYPE_SWITCH \<Rightarrow>
                    if v = ''ON'' then Some (True, SwitchArgument i True)
                    else if v = ''OFF'' then Some (True, SwitchArgument i False)
                    else Some (False, SetIdArgument i)
                | _ \<Rightarrow> Some (True, MotorArgument i (word_of_int (sint (c_atoi v)))))
             }))"

definition parse_numeric_argument :: "string \<Rightarrow> command_argument option" where
  "parse_numeric_argument argument =
     (if length argument > MAX_INT_LENGTH \<or> \<not> is_string_numeric argument then None
      else Some (UInt32Argument (c_strtoul argument)))"

definition string_argument :: "string \<Rightarrow> command_argument" where
  "string_argument s = StringArgument (take COMMAND_ARGUMENT_MAX_LENGTH s)"

definition WIFI_SECURITY_UNSECURED :: u32 where "WIFI_SECURITY_UNSECURED = 0"
definition WIFI_SECURITY_WEP :: u32 where "WIFI_SECURITY_WEP = 1"
definition WIFI_SECURITY_WPA2 :: u32 where "WIFI_SECURITY_WPA2 = 2"
definition WIFI_SECURITY_WPA :: u32 where "WIFI_SECURITY_WPA = 3"

definition accepted :: "command_argument option \<Rightarrow> command_argument \<Rightarrow> bool \<times> command_argument" where
  "accepted r old = (case r of None \<Rightarrow> (False, old) | Some a \<Rightarrow> (True, a))"

text \<open>What the parser reads besides the text.\<close>

record parser_env =
  env_sensors :: sensor_table
  env_actuators :: "actuator list"
  env_junk :: sensor_alarms

definition parse_command_argument ::
  "parser_env \<Rightarrow> commands_t \<Rightarrow> string \<Rightarrow> command_argument \<Rightarrow> (bool \<times> command_argument) option" where
  "parse_command_argument env ty argument old =
     (if ty \<in> {COMMAND_MOVEMENT, COMMAND_ATMO, COMMAND_LOCATION, COMMAND_SSL} then
        Some (accepted (if argument = ''ON'' then Some (BoolArgument True)
                        else if argument = ''OFF'' then Some (BoolArgument False) else None) old)
      else if ty \<in> {COMMAND_HEARTBEAT, COMMAND_PORT} then
        Some (accepted (parse_numeric_argument argument) old)
      else if ty \<in> {COMMAND_TEMP_OFFSET, COMMAND_HUMIDITY_OFFSET, COMMAND_PRESSURE_OFFSET} then
        Some (accepted (if length argument > MAX_INT_LENGTH \<or> \<not> is_string_decimal_numeric argument
                        then None else Some (FloatArgument (c_atof argument))) old)
      else if ty = COMMAND_RTC then
        Some (accepted (if \<not> is_string_numeric argument \<or> CHR ''-'' \<in> set argument \<or> length argument > 10
                        then None else Some (UInt32Argument (c_strtoul argument))) old)
      else if ty \<in> {COMMAND_ID, COMMAND_SIGNATURE, COMMAND_SSID, COMMAND_PASS, COMMAND_OFFSET_FACTORY} then
        Some (True, string_argument argument)
      else if ty = COMMAND_URL then do {
        ip \<leftarrow> inet_pton_ipv4 argument;
        Some (accepted (if ip = None \<and> \<not> check_hostname_constraints argument then None
                        else Some (string_argument argument)) old)
      }
      else if ty \<in> {COMMAND_STATIC_MASK, COMMAND_STATIC_GATEWAY, COMMAND_STATIC_DNS, COMMAND_STATIC_IP} then do {
        ip \<leftarrow> inet_pton_ipv4 argument;
        Some (accepted (if ip = None \<and> argument \<noteq> ''OFF'' then None
                        else Some (string_argument argument)) old)
      }
      else if ty = COMMAND_AUTH then
        Some (accepted (if argument = ''NONE'' then Some (UInt32Argument WIFI_SECURITY_UNSECURED)
                        else if argument = ''WEP'' then Some (UInt32Argument WIFI_SECURITY_WEP)
                        else if argument = ''WPA'' then Some (UInt32Argument WIFI_SECURITY_WPA)
                        else if argument = ''WPA2'' then Some (UInt32Argument WIFI_SECURITY_WPA2)
                        else None) old)
      else if ty \<in> {COMMAND_READINGS, COMMAND_SYSTEM} then
        Some (accepted (if argument = ''CLEAR'' then Some (BoolArgument True) else None) old)
      else if ty = COMMAND_ALARM then
        parse_alarm_argument (env_sensors env) (env_junk env) argument
      else if ty = COMMAND_SET then parse_set_argument (env_actuators env) argument old
      else Some (False, ZeroArgument))"

section \<open>One command\<close>

definition c_string :: "string \<Rightarrow> string" where
  "c_string s = takeWhile (\<lambda>c. c \<noteq> NUL) s"

text \<open>
  The loop over the command table.  \<open>s\<close> is the local array up to the length of the command; its
  last character is overwritten with NUL when an argument is looked at, and stays so.
\<close>

fun parse_table ::
  "parser_env \<Rightarrow> (commands_t \<times> string) list \<Rightarrow> string \<Rightarrow> command \<Rightarrow> (bool \<times> command) option" where
  "parse_table env [] s command = Some (False, command)"
| "parse_table env ((ty, token) # es) s command =
     (if take (length token) s \<noteq> token then parse_table env es s command
      else do {
        let command = command\<lparr>command_type := ty\<rparr>;
        ch \<leftarrow> array_get s (length token);
        (if ch = COMMAND_TERMINATOR then
           Some (True, command\<lparr>command_has_argument := False, command_arg := ZeroArgument\<rparr>)
         else if ch = COMMAND_ARGUMENT_SEPARATOR then do {
           let s = s[length s - 1 := NUL];
           (ok, a) \<leftarrow> parse_command_argument env ty (c_string (drop (length token + 1) s)) (command_arg command);
           let command = command\<lparr>command_arg := a\<rparr>;
           (if ok then Some (True, command\<lparr>command_has_argument := True\<rparr>)
            else parse_table env es s command)
         }
         else parse_table env es s command)
      })"

definition parse_command :: "parser_env \<Rightarrow> string \<Rightarrow> command \<Rightarrow> (bool \<times> command) option" where
  "parse_command env command_string command = do {
     ch \<leftarrow> array_get command_string (length command_string - 1);
     (if ch \<noteq> COMMAND_TERMINATOR then Some (False, command)
      else parse_table env command_table command_string command)
   }"

section \<open>Commands out of the character buffer\<close>

type_synonym char_buffer = "char circular_buffer"
type_synonym command_buffer = "command circular_buffer"

text \<open>The peek loop: \<open>pos\<close> counts the characters looked at, \<open>ch\<close> is \<open>command_character\<close>.\<close>

partial_function (option) scan_for_terminator ::
  "char_buffer \<Rightarrow> u16 \<Rightarrow> char \<Rightarrow> (u16 \<times> char) option" where
  "scan_for_terminator b pos ch = do {
     r \<leftarrow> circular_buffer_peek b pos;
     let ch' = (case snd r of None \<Rightarrow> ch | Some c \<Rightarrow> c);
     (if fst r \<and> ch' \<noteq> COMMAND_TERMINATOR then scan_for_terminator b (pos + 1) ch'
      else Some (pos + 1, ch'))
   }"

text \<open>The command is popped into an array of \<open>COMMAND_MAX_LENGTH\<close> characters, unchecked.\<close>

definition extract_command_from_string_buffer ::
  "parser_env \<Rightarrow> char_buffer \<Rightarrow> command \<Rightarrow> (bool \<times> char_buffer \<times> command) option" where
  "extract_command_from_string_buffer env b command = do {
     (command_string_length, ch) \<leftarrow> scan_for_terminator b 0 NUL;
     (if ch \<noteq> COMMAND_TERMINATOR then Some (False, b, command)
      else do {
        (_, command_string, b') \<leftarrow> circular_buffer_pop_array True b command_string_length;
        c_assert (length command_string \<le> COMMAND_MAX_LENGTH);
        (ok, command') \<leftarrow> parse_command env command_string command;
        Some (True, b', if ok then command' else command'\<lparr>command_type := COMMAND_BAD\<rparr>)
      })
   }"

partial_function (option) extract_commands_loop ::
  "parser_env \<Rightarrow> char_buffer \<Rightarrow> command_buffer \<Rightarrow> command \<Rightarrow> u8 \<Rightarrow>
   (u8 \<times> char_buffer \<times> command_buffer) option" where
  "extract_commands_loop env sb cb command n = do {
     r \<leftarrow> extract_command_from_string_buffer env sb command;
     (if fst r then do {
        p \<leftarrow> circular_buffer_add cb (snd (snd r));
        extract_commands_loop env (fst (snd r)) (snd p) (snd (snd r)) (n + 1)
      } else Some (n, fst (snd r), cb))
   }"

text \<open>\<open>junk\<close> is the uninitialised local \<open>command\<close>.\<close>

definition extract_commands_from_string_buffer ::
  "parser_env \<Rightarrow> command \<Rightarrow> char_buffer \<Rightarrow> command_buffer \<Rightarrow> (u8 \<times> char_buffer \<times> command_buffer) option" where
  "extract_commands_from_string_buffer env junk sb cb = extract_commands_loop env sb cb junk 0"

section \<open>The peek loop\<close>

lemma scan_step:
  assumes "cb_inv b" "cb_capacity b \<le> 32768"
  shows "scan_for_terminator b pos ch =
    (if unat pos < length (cb_list b)
     then (if cb_list b ! unat pos = COMMAND_TERMINATOR then Some (pos + 1, COMMAND_TERMINATOR)
           else scan_for_terminator b (pos + 1) (cb_list b ! unat pos))
     else Some (pos + 1, ch))"
  by (subst scan_for_terminator.simps) (simp add: cb_peek [OF assms])

lemma scan_found:
  assumes "cb_inv b" "cb_capacity b \<le> 32768"
    and "cb_list b = p @ c @ COMMAND_TERMINATOR # rest" "COMMAND_TERMINATOR \<notin> set c"
  shows "scan_for_terminator b (of_nat (length p)) ch =
    Some (of_nat (length p + length c + 1), COMMAND_TERMINATOR)"
  using assms(3,4)
proof (induction c arbitrary: p ch)
  case Nil
  have "length (cb_list b) < 65536" using cb_count_le [OF assms(1)] assms(2) by simp
  then have "unat (of_nat (length p) :: u16) = length p"
    using Nil by (intro unat_of_nat16) simp
  then show ?case using Nil by (subst scan_step [OF assms(1,2)]) (simp add: add.commute)
next
  case (Cons x c)
  have "length (cb_list b) < 65536" using cb_count_le [OF assms(1)] assms(2) by simp
  then have u: "unat (of_nat (length p) :: u16) = length p"
    using Cons.prems by (intro unat_of_nat16) simp
  have "x \<noteq> COMMAND_TERMINATOR" using Cons.prems by auto
  then show ?case
    using Cons.IH [of "p @ [x]" x] Cons.prems u
    by (subst scan_step [OF assms(1,2)]) (simp add: nth_append add.commute)
qed

lemma scan_not_found:
  assumes "cb_inv b" "cb_capacity b \<le> 32768"
    and "cb_list b = p @ c" "COMMAND_TERMINATOR \<notin> set c" "ch \<noteq> COMMAND_TERMINATOR"
  shows "\<exists>n ch'. scan_for_terminator b (of_nat (length p)) ch = Some (n, ch') \<and> ch' \<noteq> COMMAND_TERMINATOR"
  using assms(3-)
proof (induction c arbitrary: p ch)
  case Nil
  have "length (cb_list b) < 65536" using cb_count_le [OF assms(1)] assms(2) by simp
  then have "unat (of_nat (length p) :: u16) = length p"
    using Nil by (intro unat_of_nat16) simp
  then show ?case using Nil by (subst scan_step [OF assms(1,2)]) simp
next
  case (Cons x c)
  have "length (cb_list b) < 65536" using cb_count_le [OF assms(1)] assms(2) by simp
  then have u: "unat (of_nat (length p) :: u16) = length p"
    using Cons.prems by (intro unat_of_nat16) simp
  have "x \<noteq> COMMAND_TERMINATOR" using Cons.prems by auto
  then show ?case
    using Cons.IH [of "p @ [x]" x] Cons.prems u
    by (subst scan_step [OF assms(1,2)]) (simp add: nth_append add.commute)
qed

section \<open>One command out of the buffer\<close>

definition parsed :: "parser_env \<Rightarrow> command \<Rightarrow> string \<Rightarrow> command option" where
  "parsed env old s =
     map_option (\<lambda>(ok, c). if ok then c else c\<lparr>command_type := COMMAND_BAD\<rparr>) (parse_command env s old)"

lemma extract_none:
  assumes "cb_inv b" "cb_capacity b \<le> 32768" "COMMAND_TERMINATOR \<notin> set (cb_list b)"
  shows "extract_command_from_string_buffer env b command = Some (False, b, command)"
  using scan_not_found [OF assms(1,2), of "[]" "cb_list b" NUL] assms(3)
  by (auto simp: extract_command_from_string_buffer_def)

lemma extract_one:
  assumes "cb_inv b" "cb_capacity b \<le> 32768"
    and l: "cb_list b = c @ COMMAND_TERMINATOR # rest" "COMMAND_TERMINATOR \<notin> set c"
  obtains b' where "cb_inv b'" "cb_capacity b' = cb_capacity b" "cb_list b' = rest"
    "extract_command_from_string_buffer env b command =
       (if length c < 96
        then map_option (\<lambda>c'. (True, b', c')) (parsed env command (c @ [COMMAND_TERMINATOR])) else None)"
proof -
  let ?n = "of_nat (length c + 1) :: u16"
  have "length (cb_list b) < 65536" using cb_count_le [OF assms(1)] assms(2) by simp
  with l have n: "unat ?n = length c + 1" by (intro unat_of_nat16) simp
  have scan: "scan_for_terminator b 0 NUL = Some (?n, COMMAND_TERMINATOR)"
    using scan_found [OF assms(1,2), of "[]" c rest NUL] l by simp
  from cb_pop_array [OF assms(1), where w = True and len = ?n] obtain b' k where
    b': "circular_buffer_pop_array True b ?n = Some (k, if True then take (unat ?n) (cb_list b) else [], b')"
    "cb_inv b'" "cb_list b' = drop (unat ?n) (cb_list b)" "cb_same_config b b'" by blast
  have "extract_command_from_string_buffer env b command =
       (if length c < 96
        then map_option (\<lambda>c'. (True, b', c')) (parsed env command (c @ [COMMAND_TERMINATOR])) else None)"
    using b'(1) l n
    by (auto simp: extract_command_from_string_buffer_def scan parsed_def COMMAND_MAX_LENGTH_def
        simp del: of_nat_add split: Option.bind_split)
  with b' l n show thesis by (intro that [of b']) (simp_all add: cb_same_configD)
qed

section \<open>All commands of the buffer\<close>

text \<open>The commands parsed one after the other; a bad one keeps the fields of the one before it.\<close>

fun parse_all :: "parser_env \<Rightarrow> command \<Rightarrow> string list \<Rightarrow> command list option" where
  "parse_all env old [] = Some []"
| "parse_all env old (c # cs) = do {
     c' \<leftarrow> parsed env old (c @ [COMMAND_TERMINATOR]);
     rest \<leftarrow> parse_all env c' cs;
     Some (c' # rest)
   }"

definition command_stream :: "string list \<Rightarrow> string \<Rightarrow> string" where
  "command_stream cs tail = concat (map (\<lambda>c. c @ [COMMAND_TERMINATOR]) cs) @ tail"

lemma extract_commands_loop_stream:
  assumes "cb_inv sb" "cb_capacity sb \<le> 32768" "cb_inv cb" "cb_wrap cb"
    and "cb_list sb = command_stream cs tail"
    and "\<forall>c \<in> set cs. COMMAND_TERMINATOR \<notin> set c \<and> length c < 96" "COMMAND_TERMINATOR \<notin> set tail"
    and "parse_all env old cs = Some cmds"
  shows "\<exists>sb' cb'. extract_commands_loop env sb cb old n = Some (n + of_nat (length cs), sb', cb') \<and>
    cb_inv sb' \<and> cb_list sb' = tail \<and> cb_inv cb' \<and> cb_same_config cb cb' \<and>
    cb_list cb' = keep_last (cb_capacity cb) (cb_list cb @ cmds)"
  using assms
proof (induction cs arbitrary: sb cb old n cmds)
  case Nil
  then have "extract_command_from_string_buffer env sb old = Some (False, sb, old)"
    by (intro extract_none) (simp_all add: command_stream_def)
  with Nil cb_count_le [OF Nil.prems(3)] show ?case
    by (subst extract_commands_loop.simps) (simp add: command_stream_def cb_same_config_refl)
next
  case (Cons c cs)
  from Cons.prems(8) obtain c' cmds' where
    c': "parsed env old (c @ [COMMAND_TERMINATOR]) = Some c'" "parse_all env c' cs = Some cmds'"
      "cmds = c' # cmds'" by (auto simp: bind_eq_Some_conv)
  have l: "cb_list sb = c @ COMMAND_TERMINATOR # command_stream cs tail" "COMMAND_TERMINATOR \<notin> set c"
    using Cons.prems(5,6) by (simp_all add: command_stream_def)
  obtain sb1 where sb1: "cb_inv sb1" "cb_capacity sb1 = cb_capacity sb" "cb_list sb1 = command_stream cs tail"
    "extract_command_from_string_buffer env sb old =
       (if length c < 96
        then map_option (\<lambda>c'. (True, sb1, c')) (parsed env old (c @ [COMMAND_TERMINATOR])) else None)"
    by (rule extract_one [OF Cons.prems(1,2) l])
  with Cons.prems(6) c'(1) have ex: "extract_command_from_string_buffer env sb old = Some (True, sb1, c')"
    by simp
  obtain cb1 where cb1: "circular_buffer_add cb c' = Some (True, cb1)" "cb_inv cb1"
    "cb_list cb1 = keep_last (cb_capacity cb) (cb_list cb @ [c'])" "cb_same_config cb cb1"
    by (rule cb_add_wrap [OF Cons.prems(3,4)])
  then have cap: "cb_capacity cb1 = cb_capacity cb" "cb_wrap cb1"
    using Cons.prems(4) by (simp_all add: cb_same_configD)
  have "\<forall>c \<in> set cs. COMMAND_TERMINATOR \<notin> set c \<and> length c < 96" using Cons.prems(6) by simp
  from Cons.IH [OF sb1(1) _ cb1(2) cap(2) sb1(3) this Cons.prems(7) c'(2), of "n + 1"] sb1(2) Cons.prems(2)
  obtain sb' cb' where r: "extract_commands_loop env sb1 cb1 c' (n + 1) =
      Some (n + 1 + of_nat (length cs), sb', cb')" "cb_inv sb'" "cb_list sb' = tail" "cb_inv cb'"
    "cb_same_config cb1 cb'" "cb_list cb' = keep_last (cb_capacity cb1) (cb_list cb1 @ cmds')"
    by auto
  have "keep_last (cb_capacity cb) (keep_last (cb_capacity cb) (cb_list cb @ [c']) @ cmds') =
      keep_last (cb_capacity cb) (cb_list cb @ cmds)"
    using cb_inv_storage(3) [OF Cons.prems(3)] by (simp add: c'(3) keep_last_snoc)
  with r cap cb1 ex show ?case
    by (subst extract_commands_loop.simps) (auto simp: add.assoc intro: cb_same_config_trans)
qed

text \<open>A command that is too long for the local array, or that the parser fails on, is the end.\<close>

lemma extract_commands_loop_fails:
  assumes "cb_inv sb" "cb_capacity sb \<le> 32768" "cb_inv cb" "cb_wrap cb"
    and "cb_list sb = command_stream cs tail" "\<forall>c \<in> set cs. COMMAND_TERMINATOR \<notin> set c"
    and "(\<exists>c \<in> set cs. 96 \<le> length c) \<or> parse_all env old cs = None"
  shows "extract_commands_loop env sb cb old n = None"
  using assms
proof (induction cs arbitrary: sb cb old n)
  case (Cons c cs)
  have l: "cb_list sb = c @ COMMAND_TERMINATOR # command_stream cs tail" "COMMAND_TERMINATOR \<notin> set c"
    using Cons.prems(5,6) by (simp_all add: command_stream_def)
  obtain sb1 where sb1: "cb_inv sb1" "cb_capacity sb1 = cb_capacity sb" "cb_list sb1 = command_stream cs tail"
    "extract_command_from_string_buffer env sb old =
       (if length c < 96
        then map_option (\<lambda>c'. (True, sb1, c')) (parsed env old (c @ [COMMAND_TERMINATOR])) else None)"
    by (rule extract_one [OF Cons.prems(1,2) l])
  show ?case
  proof (cases "length c < 96 \<and> parsed env old (c @ [COMMAND_TERMINATOR]) \<noteq> None")
    case True
    then obtain c' where c': "length c < 96" "parsed env old (c @ [COMMAND_TERMINATOR]) = Some c'" by auto
    obtain cb1 where cb1: "circular_buffer_add cb c' = Some (True, cb1)" "cb_inv cb1" "cb_same_config cb cb1"
      by (rule cb_add_wrap [OF Cons.prems(3,4)])
    from Cons.prems(7) c' have "(\<exists>c \<in> set cs. 96 \<le> length c) \<or> parse_all env c' cs = None"
      by (auto simp: bind_eq_None_conv)
    moreover have "cb_wrap cb1" using cb1(3) Cons.prems(4) by (simp add: cb_same_configD)
    ultimately have "extract_commands_loop env sb1 cb1 c' (n + 1) = None"
      using Cons.IH [OF sb1(1) _ cb1(2) _ sb1(3)] sb1(2) Cons.prems(2,6) by simp
    with sb1(4) c' cb1(1) show ?thesis by (subst extract_commands_loop.simps) simp
  next
    case False
    with sb1(4) have "extract_command_from_string_buffer env sb old = None" by auto
    then show ?thesis by (subst extract_commands_loop.simps) simp
  qed
qed simp


text \<open>Every text is such a stream.\<close>

lemma text_is_stream:
  obtains cs tail where "s = command_stream cs tail" "\<forall>c \<in> set cs. COMMAND_TERMINATOR \<notin> set c" "COMMAND_TERMINATOR \<notin> set tail"
proof -
  have "\<exists>cs tail. s = command_stream cs tail \<and> (\<forall>c \<in> set cs. COMMAND_TERMINATOR \<notin> set c) \<and> COMMAND_TERMINATOR \<notin> set tail"
  proof (induction s rule: length_induct)
    case (1 s)
    show ?case
    proof (cases "COMMAND_TERMINATOR \<in> set s")
      case True
      then obtain c rest where s: "s = c @ COMMAND_TERMINATOR # rest" "COMMAND_TERMINATOR \<notin> set c" by (meson split_list_first)
      then have "length rest < length s" by simp
      with 1 obtain cs tail where "rest = command_stream cs tail" "\<forall>c \<in> set cs. COMMAND_TERMINATOR \<notin> set c"
        "COMMAND_TERMINATOR \<notin> set tail" by blast
      with s show ?thesis by (intro exI [of _ "c # cs"] exI [of _ tail]) (simp add: command_stream_def)
    next
      case False
      then show ?thesis by (intro exI [of _ "[]"] exI [of _ s]) (simp add: command_stream_def)
    qed
  qed
  with that show thesis by blast
qed

text \<open>A first command of 96 characters or more before its semicolon (the character buffer takes 768)
  makes the extraction write past the 96 characters of its local array.\<close>

theorem long_command_overflows:
  assumes "cb_inv sb" "cb_capacity sb \<le> 32768"
    and "cb_list sb = c @ COMMAND_TERMINATOR # rest" "COMMAND_TERMINATOR \<notin> set c" "96 \<le> length c"
  shows "extract_command_from_string_buffer env sb command = None"
proof -
  obtain sb' where "extract_command_from_string_buffer env sb command =
      (if length c < 96
       then map_option (\<lambda>c'. (True, sb', c')) (parsed env command (c @ [COMMAND_TERMINATOR])) else None)"
    by (rule extract_one [OF assms(1-4)])
  with assms(5) show ?thesis by simp
qed

section \<open>The command table\<close>

text \<open>No name is a prefix of another, and no name contains a blank or a semicolon.\<close>

lemma command_table_prefix_free:
  "\<forall>(ty, a) \<in> set command_table. \<forall>(ty', b) \<in> set command_table. take (length a) b = a \<longrightarrow> (ty, a) = (ty', b)"
  by (simp add: command_table_def)

lemma command_table_chars:
  "\<forall>(ty, a) \<in> set command_table. COMMAND_TERMINATOR \<notin> set a \<and> COMMAND_ARGUMENT_SEPARATOR \<notin> set a \<and> a \<noteq> []"
  by (simp add: command_table_def)

lemma command_name_unique:
  assumes "(ty, a) \<in> set command_table" "(ty', b) \<in> set command_table"
    and "take (length a) (b @ d # rest) = a" "d = COMMAND_TERMINATOR \<or> d = COMMAND_ARGUMENT_SEPARATOR"
  shows "(ty, a) = (ty', b)"
proof (cases "length a \<le> length b")
  case True
  with assms command_table_prefix_free show ?thesis by fastforce
next
  case False
  then have "d \<in> set (take (length a) (b @ d # rest))"
    by (cases "length a - length b") simp_all
  with assms command_table_chars show ?thesis by fastforce
qed

lemma parse_table_skip:
  assumes "\<forall>(ty, tok) \<in> set es. take (length tok) s \<noteq> tok"
  shows "parse_table env (es @ es') s command = parse_table env es' s command"
  using assms by (induction es) auto

lemma parse_table_at:
  assumes tok: "(ty, tok) \<in> set command_table" and d: "d = COMMAND_TERMINATOR \<or> d = COMMAND_ARGUMENT_SEPARATOR"
  obtains es where "parse_table env command_table (tok @ d # rest) command =
    parse_table env ((ty, tok) # es) (tok @ d # rest) command"
proof -
  obtain pre es where e: "command_table = pre @ (ty, tok) # es" "(ty, tok) \<notin> set pre"
    using split_list_first [OF tok] by blast
  have "\<forall>(ty', a) \<in> set pre. take (length a) (tok @ d # rest) \<noteq> a"
  proof clarify
    fix ty' a assume a: "(ty', a) \<in> set pre" "take (length a) (tok @ d # rest) = a"
    then have "(ty', a) \<in> set command_table" unfolding e(1) by simp
    from command_name_unique [OF this tok a(2) d] a(1) e(2) show False by simp
  qed
  then have "parse_table env command_table (tok @ d # rest) command =
      parse_table env ((ty, tok) # es) (tok @ d # rest) command"
    unfolding e(1) by (rule parse_table_skip)
  then show thesis by (rule that)
qed

lemma parse_command_bare:
  assumes "(ty, tok) \<in> set command_table"
  shows "parse_command env (tok @ [COMMAND_TERMINATOR]) old =
    Some (True, \<lparr>command_type = ty, command_has_argument = False, command_arg = ZeroArgument\<rparr>)"
proof -
  obtain es where "parse_table env command_table (tok @ [COMMAND_TERMINATOR]) old =
      parse_table env ((ty, tok) # es) (tok @ [COMMAND_TERMINATOR]) old"
    by (rule parse_table_at [OF assms, of COMMAND_TERMINATOR env "[]" old]) simp_all
  then show ?thesis by (cases old) (simp add: parse_command_def)
qed

lemma parse_command_with_argument:
  assumes "(ty, tok) \<in> set command_table" and "NUL \<notin> set arg"
    and "parse_command_argument env ty arg (command_arg old) = Some (True, a)"
  shows "parse_command env (tok @ COMMAND_ARGUMENT_SEPARATOR # arg @ [COMMAND_TERMINATOR]) old =
    Some (True, \<lparr>command_type = ty, command_has_argument = True, command_arg = a\<rparr>)"
proof -
  let ?s = "tok @ COMMAND_ARGUMENT_SEPARATOR # arg @ [COMMAND_TERMINATOR]"
  obtain es where es: "parse_table env command_table ?s old = parse_table env ((ty, tok) # es) ?s old"
    by (rule parse_table_at [OF assms(1), of COMMAND_ARGUMENT_SEPARATOR env
        "arg @ [COMMAND_TERMINATOR]" old]) simp_all
  have "c_string (arg @ [NUL]) = arg" using assms(2)
    unfolding c_string_def by (subst takeWhile_append2) auto
  moreover have "?s[length ?s - 1 := NUL] = tok @ COMMAND_ARGUMENT_SEPARATOR # arg @ [NUL]"
    by (simp add: list_update_append)
  ultimately have arg: "c_string (drop (length tok + 1) (?s[length ?s - 1 := NUL])) = arg"
    by simp
  have ch: "array_get ?s (length tok) = Some COMMAND_ARGUMENT_SEPARATOR"
    by simp
  have "parse_table env ((ty, tok) # es) ?s old =
      Some (True, \<lparr>command_type = ty, command_has_argument = True, command_arg = a\<rparr>)"
    unfolding parse_table.simps Let_def ch bind.bind_lunit arg
    using assms(3) by (cases old) simp
  then show ?thesis unfolding parse_command_def es [symmetric] by (simp add: nth_append)
qed

text \<open>Every name of the command table, followed by a semicolon, parses to its command without an
  argument, and followed by a blank, an argument and a semicolon, to its command with exactly
  what the argument parser of that command made of the text between.\<close>

theorem parse_command_by_name:
  assumes "(ty, tok) \<in> set command_table"
  shows "parse_command env (tok @ [COMMAND_TERMINATOR]) old =
      Some (True, \<lparr>command_type = ty, command_has_argument = False, command_arg = ZeroArgument\<rparr>) \<and>
    (\<forall>arg a. NUL \<notin> set arg \<and> parse_command_argument env ty arg (command_arg old) = Some (True, a) \<longrightarrow>
       parse_command env (tok @ COMMAND_ARGUMENT_SEPARATOR # arg @ [COMMAND_TERMINATOR]) old =
         Some (True, \<lparr>command_type = ty, command_has_argument = True, command_arg = a\<rparr>))"
  using parse_command_bare [OF assms] parse_command_with_argument [OF assms] by blast

lemma digits_value_snoc:
  "\<forall>c \<in> set s. isdigit c \<Longrightarrow> isdigit d \<Longrightarrow> digits_value (s @ [d]) = digits_value s * 10 + (code d - 48)"
proof -
  assume s: "\<forall>c \<in> set s. isdigit c" and d: "isdigit d"
  then have "takeWhile isdigit s = s" "takeWhile isdigit (s @ [d]) = s @ [d]"
    by (simp_all add: takeWhile_eq_all_conv)
  then show "digits_value (s @ [d]) = digits_value s * 10 + (code d - 48)"
    unfolding digits_value_def by (simp only: foldl_append foldl.simps)
qed

lemma digits_value_bound:
  "\<forall>c \<in> set s. isdigit c \<Longrightarrow> digits_value s < 10 ^ length s"
proof (induction s rule: rev_induct)
  case (snoc d s)
  then have "code d - 48 < 10" using isdigit_digit by simp
  with snoc show ?case by (simp add: digits_value_snoc)
qed (simp add: digits_value_def)

lemma isdigit_not_minus: "isdigit c \<Longrightarrow> c \<noteq> CHR ''-''"
  by (auto simp: isdigit_def)

text \<open>\<open>HEARTBEAT\<close> and \<open>PORT\<close> accept every number of one to five digits and deliver its value;
  six digits or a character that is not a digit are rejected as a bad argument.  A leading minus
  is accepted and delivers the two's complement of the value in 32 bits.\<close>

theorem numeric_argument_value:
  assumes "ty \<in> {COMMAND_HEARTBEAT, COMMAND_PORT}"
  shows "(s \<noteq> [] \<and> length s \<le> 5 \<and> (\<forall>c \<in> set s. isdigit c) \<longrightarrow>
            parse_command_argument env ty s old = Some (True, UInt32Argument (of_nat (digits_value s)))) \<and>
         (s \<noteq> [] \<and> length s \<le> 4 \<and> (\<forall>c \<in> set s. isdigit c) \<longrightarrow>
            parse_command_argument env ty (CHR ''-'' # s) old =
              Some (True, UInt32Argument (- of_nat (digits_value s)))) \<and>
         (length s > 5 \<or> \<not> is_string_numeric s \<longrightarrow>
            parse_command_argument env ty s old = Some (False, old))"
proof -
  have arg: "parse_command_argument env ty r old = Some (accepted (parse_numeric_argument r) old)" for r
    using assms by (auto simp: parse_command_argument_def)
  have "min (digits_value s) 4294967295 = digits_value s"
    if "length s \<le> 5" "\<forall>c \<in> set s. isdigit c"
  proof -
    have "digits_value s < 10 ^ 5"
      using digits_value_bound [OF that(2)] power_increasing [OF that(1), of "10 :: nat"] by linarith
    then show ?thesis by simp
  qed
  moreover have "hd s \<noteq> CHR ''-''" if "s \<noteq> []" "\<forall>c \<in> set s. isdigit c"
    using that isdigit_not_minus by (cases s) auto
  ultimately show ?thesis
    by (auto simp: arg parse_numeric_argument_def accepted_def MAX_INT_LENGTH_def
        is_string_numeric_def c_strtoul_def)
qed

section \<open>Undefined behaviour while parsing\<close>

lemma parse_command_argument_defined:
  assumes "ty \<noteq> COMMAND_ALARM" "env_actuators env = []"
  shows "parse_command_argument env ty s old \<noteq> None"
proof -
  obtain r where r: "inet_pton_ipv4 s = Some r"
    using inet_pton_ipv4_iff [of s "[]"] by auto
  show ?thesis
    using assms by (cases "c_strtok s") (auto simp: parse_command_argument_def parse_set_argument_def r)
qed

lemma parse_table_defined:
  assumes "env_actuators env = []" "\<forall>(ty, tok) \<in> set es. COMMAND_TERMINATOR \<notin> set tok"
    and "s \<noteq> []" "last s = COMMAND_TERMINATOR \<or> last s = NUL"
    and "\<forall>(ty, tok) \<in> set es. NUL \<notin> set tok"
    and "take 6 s \<noteq> ''ALARM ''" "\<forall>(ty, tok) \<in> set es. ty = COMMAND_ALARM \<longrightarrow> tok = ''ALARM''"
  shows "parse_table env es s command \<noteq> None"
  using assms(2-)
proof (induction es arbitrary: s command)
  case (Cons e es)
  obtain ty tok where e: "e = (ty, tok)" by (cases e)
  show ?case
  proof (cases "take (length tok) s = tok")
    case False
    with Cons show ?thesis by (simp add: e)
  next
    case True
    have len: "length tok < length s"
    proof (rule ccontr)
      assume "\<not> length tok < length s"
      with True have "s = tok" by simp
      then have "last s \<in> set tok" using Cons.prems(2) last_in_set by simp
      with Cons.prems(1,3,4) e show False by auto
    qed
    let ?s = "s[length s - 1 := NUL]"
    have s': "?s \<noteq> []" "last ?s = NUL" using Cons.prems(2) by (simp_all add: last_list_update)
    show ?thesis
    proof (cases "s ! length tok = COMMAND_ARGUMENT_SEPARATOR")
      case True
      have ty: "ty \<noteq> COMMAND_ALARM"
      proof
        assume "ty = COMMAND_ALARM"
        then have tok: "tok = ''ALARM''" using Cons.prems(6) e by auto
        have "take 6 s = take 5 s @ [s ! 5]" using len tok by (simp add: take_Suc_conv_app_nth eval_nat_numeral)
        moreover have "length tok = 5" by (simp add: tok)
        ultimately show False
          using True \<open>take (length tok) s = tok\<close> tok Cons.prems(5) by (metis append_Cons append_Nil)
      qed
      have "take 6 ?s \<noteq> ''ALARM ''"
      proof
        assume "take 6 ?s = ''ALARM ''"
        moreover from this have "length ?s \<ge> 6" by (cases "length ?s \<ge> 6") (auto dest: arg_cong [where f = length])
        ultimately show False
          using Cons.prems(3,5) s' by (cases "length s = 6") (auto simp: take_update_cancel last_conv_nth)
      qed
      with Cons.IH [of ?s] Cons.prems s' have "parse_table env es ?s c \<noteq> None" for c by simp
      moreover obtain ok a where "parse_command_argument env ty
          (c_string (drop (length tok + 1) ?s)) (command_arg command) = Some (ok, a)"
        using parse_command_argument_defined [OF ty assms(1)] by fastforce
      ultimately show ?thesis using True \<open>take (length tok) s = tok\<close> len by (auto simp: e Let_def)
    next
      case False
      with True len Cons show ?thesis by (auto simp: e Let_def)
    qed
  qed
qed simp

text \<open>Without actuators, as the firmware is configured, parsing a terminated command is defined for
  every text except an \<open>ALARM\<close> command with an argument: all other argument parsers stay inside
  the text, whatever it is.\<close>


theorem parse_command_defined:
  assumes "env_actuators env = []" and "take 6 (c @ [COMMAND_TERMINATOR]) \<noteq> ''ALARM ''"
  shows "parse_command env (c @ [COMMAND_TERMINATOR]) old \<noteq> None"
proof -
  have "\<forall>(ty, tok) \<in> set command_table. NUL \<notin> set tok"
    "\<forall>(ty, tok) \<in> set command_table. ty = COMMAND_ALARM \<longrightarrow> tok = ''ALARM''"
    by (simp_all add: command_table_def)
  then have "parse_table env command_table (c @ [COMMAND_TERMINATOR]) old \<noteq> None"
    using assms command_table_chars by (intro parse_table_defined) auto
  then show ?thesis by (simp add: parse_command_def)
qed

section \<open>Concrete texts\<close>

definition sample_env :: parser_env where
  "sample_env = \<lparr>env_sensors = sample_table, env_actuators = [],
     env_junk = \<lparr>alarm_low = zero_alarm, alarm_high = zero_alarm\<rparr>\<rparr>"

definition sample_command :: command where
  "sample_command = \<lparr>command_type = COMMAND_BAD, command_has_argument = False, command_arg = ZeroArgument\<rparr>"

lemma sample_index:
  "get_index_of_sensor sample_table (CHR ''P'') = 0" "get_index_of_sensor sample_table (CHR ''T'') = 1"
  "get_index_of_sensor sample_table (CHR ''H'') = 2"
  by (simp_all add: get_index_of_sensor_def sample_table_def set_sensors_types_def eval_nat_numeral)

lemma sample_alarms_length: "length (sensors_alarms sample_table) = 4"
  by (simp add: sample_table_def)

lemmas alarm_eval = parse_alarm_argument_def parse_alarm_items.simps parse_alarm_argument_item_def
  sample_index sample_alarms_length

text \<open>A second alarm item without a comma passes its check, because the search for the comma is
  bounded by the item's end in the whole text: after \<open>P:1,2|\<close> the item \<open>T:5\<close> makes the search
  read past the end of the text, and before \<open>|H:3,4\<close> it takes the high limit of \<open>T\<close> from the
  next item; as a first item it is rejected.\<close>

theorem alarm_item_bound_is_absolute:
  "parse_alarm_argument sample_table j ''P:1,2|T:5'' = None \<and>
   (\<exists>alarms. parse_alarm_argument sample_table j ''P:1,2|T:5|H:3,4'' = Some (True, AlarmsArgument alarms) \<and>
      alarm_value (alarm_low (alarms ! 1)) = 5 \<and> alarm_value (alarm_high (alarms ! 1)) = 4) \<and>
   (\<exists>alarms. parse_alarm_argument sample_table j ''T:5|H:3,4'' = Some (False, AlarmsArgument alarms))"
proof (intro conjI)
  show "parse_alarm_argument sample_table j ''P:1,2|T:5'' = None" by (simp add: alarm_eval)
  show "\<exists>alarms. parse_alarm_argument sample_table j ''P:1,2|T:5|H:3,4'' = Some (True, AlarmsArgument alarms) \<and>
      alarm_value (alarm_low (alarms ! 1)) = 5 \<and> alarm_value (alarm_high (alarms ! 1)) = 4"
    by (simp add: alarm_eval set_alarm_limits_def parse_alarm_limit_def c_atoi_def digits_value_def
        isdigit_def isspace_def)
  show "\<exists>alarms. parse_alarm_argument sample_table j ''T:5|H:3,4'' = Some (False, AlarmsArgument alarms)"
    by (simp add: alarm_eval)
qed

lemma parse_command_by_name_witness:
  "parse_command sample_env ''HEARTBEAT 15;'' sample_command =
     Some (True, \<lparr>command_type = COMMAND_HEARTBEAT, command_has_argument = True, command_arg = UInt32Argument 15\<rparr>)"
proof -
  have t: "(COMMAND_HEARTBEAT, ''HEARTBEAT'') \<in> set command_table" by (simp add: command_table_def)
  have "parse_command_argument sample_env COMMAND_HEARTBEAT ''15'' ZeroArgument = Some (True, UInt32Argument 15)"
    by (simp add: parse_command_argument_def parse_numeric_argument_def accepted_def MAX_INT_LENGTH_def
        is_string_numeric_def c_strtoul_def digits_value_def isdigit_def)
  then show ?thesis
    using parse_command_by_name [OF t, of sample_env sample_command, THEN conjunct2, rule_format,
        of "''15''" "UInt32Argument 15"]
    by (simp add: sample_command_def)
qed

lemma numeric_argument_value_witness:
  "parse_command_argument sample_env COMMAND_PORT ''-80'' ZeroArgument =
     Some (True, UInt32Argument (- 80))"
  using numeric_argument_value [of COMMAND_PORT "''80''" sample_env ZeroArgument]
  by (simp add: isdigit_def digits_value_def)

lemma parse_command_defined_witness:
  "parse_command sample_env ''ALARMS P:1,2|T:5;'' sample_command \<noteq> None"
  using parse_command_defined [of sample_env "''ALARMS P:1,2|T:5''" sample_command]
  by (simp add: sample_env_def)

definition text_buffer :: "string \<Rightarrow> char_buffer" where
  "text_buffer s = \<lparr>cb_head = 0, cb_tail = of_nat (length s), cb_storage = s @ replicate (768 - length s) NUL,
     cb_storage_size = 768, cb_element_size = 1, cb_empty = (s = []), cb_full = False, cb_wrap = True\<rparr>"

lemma text_buffer:
  assumes "length s < 768"
  shows "cb_inv (text_buffer s)" "cb_capacity (text_buffer s) = 768" "cb_list (text_buffer s) = s"
proof -
  have u: "unat (of_nat (length s) :: u16) = length s" using assms by (intro unat_of_nat16) simp
  show "cb_inv (text_buffer s)" using assms
    by (auto simp: cb_inv_def text_buffer_def u u16_eq_iff)
  show "cb_capacity (text_buffer s) = 768" by (simp add: cb_capacity_def text_buffer_def)
  show "cb_list (text_buffer s) = s" using assms
    by (auto simp: cb_list_def cb_count_def text_buffer_def u nth_append intro: nth_equalityI)
qed

definition empty_commands :: command_buffer where
  "empty_commands = \<lparr>cb_head = 0, cb_tail = 0, cb_storage = replicate 10 sample_command,
     cb_storage_size = 10, cb_element_size = 70, cb_empty = True, cb_full = False, cb_wrap = True\<rparr>"


lemma long_command_overflows_witness:
  "extract_command_from_string_buffer sample_env (text_buffer (replicate 100 CHR ''A'' @ '';'')) sample_command = None"
  by (rule long_command_overflows [of _ "replicate 100 CHR ''A''" "[]"]) (simp_all add: text_buffer)

end
