(* ===== verification/Protocol.thy ===== *)
theory Protocol
  imports Command_Parser
begin

text \<open>
  The texts that the firmware sends (\<open>SDK/core/protocol.c\<close>) and the configuration variables they
  show (\<open>SDK/core/config.c\<close>).  A text is printed into the static array \<open>tmp[128]\<close> and then added
  to a character buffer that does not overwrite.

  \<open>fmt\<close> prints a float with one decimal, as the library's \<open>%.1f\<close> does; \<open>platform_error\<close> is the
  function pointer \<open>serialize_platform_specific_error_code\<close> of the communication module.
\<close>

section \<open>Printing numbers\<close>

fun show_nat :: "nat \<Rightarrow> string" where
  "show_nat n = (if n < 10 then [digit n] else show_nat (n div 10) @ [digit (n mod 10)])"

declare show_nat.simps [simp del]

definition show_u16 :: "u16 \<Rightarrow> string" where "show_u16 w = show_nat (unat w)"
definition show_u32 :: "u32 \<Rightarrow> string" where "show_u32 w = show_nat (unat w)"

definition show_i16 :: "u16 \<Rightarrow> string" where
  "show_i16 w = (if sint w < 0 then CHR ''-'' # show_nat (nat (- sint w)) else show_nat (nat (sint w)))"

definition hex_digit :: "nat \<Rightarrow> char" where
  "hex_digit d = (if d < 10 then digit d else char_of (55 + d))"

text \<open>\<open>%01X\<close> and \<open>%02X\<close> of a byte.\<close>

definition show_hex1 :: "u8 \<Rightarrow> string" where
  "show_hex1 w = (if unat w < 16 then [hex_digit (unat w)]
                  else [hex_digit (unat w div 16), hex_digit (unat w mod 16)])"

definition show_hex2 :: "u8 \<Rightarrow> string" where
  "show_hex2 w = [hex_digit (unat w div 16), hex_digit (unat w mod 16)]"

section \<open>Configuration variables\<close>

text \<open>Character arrays have their declared length; \<open>%s\<close> needs a NUL inside.\<close>

record config =
  cfg_device_preshared_key :: string
  cfg_device_id :: string
  cfg_system_heartbeat :: u16
  cfg_wifi_ssid :: string
  cfg_wifi_password :: string
  cfg_wifi_auth_type :: u8
  cfg_wifi_static_ip :: string
  cfg_wifi_static_mask :: string
  cfg_wifi_static_gateway :: string
  cfg_wifi_static_dns :: string
  cfg_ssl :: bool
  cfg_mac_address :: "u8 list"
  cfg_server_ip :: string
  cfg_hostname :: string
  cfg_server_port :: u16
  cfg_movement_status :: bool
  cfg_atmo_status :: bool
  cfg_location :: bool
  cfg_mqtt_username :: string
  cfg_mqtt_password :: string
  cfg_atmo_offset :: "c_float list"
  cfg_atmo_offset_factory :: "c_float list"

definition c_str :: "string \<Rightarrow> string option" where
  "c_str arr = (if NUL \<in> set arr then Some (c_string arr) else None)"

section \<open>Adding a text\<close>

definition add_text :: "char_buffer \<Rightarrow> string \<Rightarrow> (bool \<times> char_buffer) option" where
  "add_text b s = do {
     c_assert (length s < 128);
     circular_buffer_add_array b s (of_nat (length s))
   }"

text \<open>The many functions that print one line ignore whether it was added.\<close>

definition append_line :: "char_buffer \<Rightarrow> string \<Rightarrow> char_buffer option" where
  "append_line b s = map_option snd (add_text b s)"

definition append_bad_request :: "char_buffer \<Rightarrow> char_buffer option" where
  "append_bad_request b = append_line b ''BAD_REQUEST;''"

definition append_done :: "char_buffer \<Rightarrow> char_buffer option" where
  "append_done b = append_line b ''DONE;''"

definition append_busy :: "char_buffer \<Rightarrow> char_buffer option" where
  "append_busy b = append_line b ''BUSY;''"

text \<open>Replacing the last separator with a semicolon.\<close>

definition end_message :: "char_buffer \<Rightarrow> char_buffer option" where
  "end_message b = do {
     let b' = snd (circular_buffer_drop_from_end b 1);
     map_option snd (circular_buffer_add b' COMMAND_TERMINATOR)
   }"

section \<open>Sensor readings\<close>

definition serialize_sensor_reading :: "(c_float \<Rightarrow> string) \<Rightarrow> sensor list \<Rightarrow> sensor_readings \<Rightarrow> string" where
  "serialize_sensor_reading fmt ss r =
     (let s = ''R:'' @ show_u32 (readings_timestamp r) @ '','' @
        concat (map (\<lambda>i. if \<not> float_eq_int (readings_values r ! i) SENSOR_VALUE_NOT_SET
                         then sensor_id (ss ! i) # '':'' @ fmt (readings_values r ! i) @ '',''
                         else []) [0..<NUMBER_OF_SENSORS])
      in butlast s @ ''|'')"

partial_function (option) serialize_sensor_readings_loop ::
  "(c_float \<Rightarrow> string) \<Rightarrow> sensor list \<Rightarrow> sensor_readings circular_buffer \<Rightarrow> u16 \<Rightarrow> u16 \<Rightarrow> char_buffer \<Rightarrow>
   (u16 \<times> char_buffer) option" where
  "serialize_sensor_readings_loop fmt ss rb start n mb = do {
     r \<leftarrow> circular_buffer_peek rb (start + n);
     (case snd r of
        None \<Rightarrow> Some (n, mb)
      | Some reading \<Rightarrow> do {
          p \<leftarrow> add_text mb (serialize_sensor_reading fmt ss reading);
          (if fst p then serialize_sensor_readings_loop fmt ss rb start (n + 1) (snd p)
           else Some (n, snd p))
        })
   }"

definition serialize_sensor_readings ::
  "(c_float \<Rightarrow> string) \<Rightarrow> sensor list \<Rightarrow> sensor_readings circular_buffer \<Rightarrow> u16 \<Rightarrow> char_buffer \<Rightarrow>
   (u16 \<times> char_buffer) option" where
  "serialize_sensor_readings fmt ss rb start mb = serialize_sensor_readings_loop fmt ss rb start 0 mb"

definition append_sensor_readings ::
  "(c_float \<Rightarrow> string) \<Rightarrow> sensor list \<Rightarrow> sensor_readings circular_buffer \<Rightarrow> u16 \<Rightarrow> char_buffer \<Rightarrow> bool \<Rightarrow>
   (u16 \<times> char_buffer) option" where
  "append_sensor_readings fmt ss rb start mb split = do {
     (ok, mb) \<leftarrow> (if start = 0 then add_text mb ''READINGS '' else Some (True, mb));
     (if \<not> ok then Some (0, mb)
      else do {
        (n, mb) \<leftarrow> serialize_sensor_readings fmt ss rb start mb;
        mb \<leftarrow> (if \<not> split \<or> start + n = circular_buffer_size rb then end_message mb else Some mb);
        Some (n, mb)
      })
   }"

section \<open>Errors and system items\<close>

fun type_code :: "communication_module_type \<Rightarrow> u8" where
  "type_code COMMUNICATION_MODULE_WIFI = 0"
| "type_code COMMUNICATION_MODULE_TCP = 1"
| "type_code COMMUNICATION_MODULE_UDP = 2"

definition serialize_module_error ::
  "(u32 \<Rightarrow> string) \<Rightarrow> communication_module_type \<Rightarrow> communication_module_data \<Rightarrow> string" where
  "serialize_module_error platform_error ty d =
     (if cmd_error d \<noteq> 0
      then show_hex1 (type_code ty) @ show_hex2 (cmd_error d) @ platform_error (cmd_platform_code d) else [])"

text \<open>The UDP member's code is a 16-bit \<open>int\<close>, sign-extended when it is passed on.\<close>

definition udp_code :: "communication_module_data \<Rightarrow> communication_module_data" where
  "udp_code d = d\<lparr>cmd_platform_code := word_of_int (sint (word_of_int (uint (cmd_platform_code d)) :: u16))\<rparr>"

definition serialize_wifi_communication_module_error ::
  "(u32 \<Rightarrow> string) \<Rightarrow> communication_module_data \<Rightarrow> string" where
  "serialize_wifi_communication_module_error pe d = serialize_module_error pe COMMUNICATION_MODULE_WIFI d"

definition serialize_udp_communication_module_error ::
  "(u32 \<Rightarrow> string) \<Rightarrow> communication_module_data \<Rightarrow> string" where
  "serialize_udp_communication_module_error pe d = serialize_module_error pe COMMUNICATION_MODULE_UDP (udp_code d)"

definition serialize_tcp_communication_module_error ::
  "(u32 \<Rightarrow> string) \<Rightarrow> communication_module_data \<Rightarrow> string" where
  "serialize_tcp_communication_module_error pe d = serialize_module_error pe COMMUNICATION_MODULE_TCP d"

definition time_item :: "char \<Rightarrow> u16 \<Rightarrow> string" where
  "time_item c t = (if t \<noteq> 0 then '','' @ c # '':'' @ show_u16 t else [])"

definition serialize_wifi_communication_module_data ::
  "(u32 \<Rightarrow> string) \<Rightarrow> communication_module_data \<Rightarrow> string" where
  "serialize_wifi_communication_module_data pe d =
     (let online = cmd_connect_to_ap_time d + cmd_acquire_ip_address_time d +
            cmd_connect_to_server_time d + cmd_data_exchange_time d + cmd_disconnect_time d
      in serialize_wifi_communication_module_error pe d @
         time_item (CHR ''A'') (cmd_connect_to_ap_time d) @
         time_item (CHR ''D'') (cmd_acquire_ip_address_time d) @
         time_item (CHR ''S'') (cmd_connect_to_server_time d) @
         time_item (CHR ''Q'') (cmd_data_exchange_time d) @
         time_item (CHR ''L'') (cmd_disconnect_time d) @
         time_item (CHR ''C'') online)"

definition serialize_communication_module_error ::
  "(u32 \<Rightarrow> string) \<Rightarrow> communication_module_type_data \<Rightarrow> string" where
  "serialize_communication_module_error pe d =
     (case cmtd_type d of
        COMMUNICATION_MODULE_WIFI \<Rightarrow> serialize_wifi_communication_module_error pe (cmtd_data d)
      | COMMUNICATION_MODULE_TCP \<Rightarrow> serialize_tcp_communication_module_error pe (cmtd_data d)
      | _ \<Rightarrow> [])"

definition serialize_communication_module_data ::
  "(u32 \<Rightarrow> string) \<Rightarrow> communication_module_type_data \<Rightarrow> string" where
  "serialize_communication_module_data pe d =
     (case cmtd_type d of
        COMMUNICATION_MODULE_WIFI \<Rightarrow> serialize_wifi_communication_module_data pe (cmtd_data d)
      | COMMUNICATION_MODULE_TCP \<Rightarrow> serialize_tcp_communication_module_error pe (cmtd_data d)
      | COMMUNICATION_MODULE_UDP \<Rightarrow> serialize_udp_communication_module_error pe (cmtd_data d))"

definition serialize_mqtt_communication_protocol_error :: "u8 \<Rightarrow> string" where
  "serialize_mqtt_communication_protocol_error e = (if e \<noteq> 0 then show_hex1 0 @ show_hex2 e else [])"

definition serialize_communication_protocol_data ::
  "(u32 \<Rightarrow> string) \<Rightarrow> communication_protocol_type_data \<Rightarrow> string" where
  "serialize_communication_protocol_data pe d =
     (case cptd_type d of
        COMMUNICATION_PROTOCOL_MQTT \<Rightarrow> serialize_mqtt_communication_protocol_error (cptd_mqtt_error d)
      | _ \<Rightarrow> []) @
     serialize_communication_module_data pe (cptd_module d)"

text \<open>The constants of \<open>system_type_t\<close>: \<open>SYSTEM_ERROR\<close> is 0, \<open>COMMUNICATION_PROTOCOL_DATA\<close> is 1.\<close>

definition serialize_communication_protocol_error ::
  "(u32 \<Rightarrow> string) \<Rightarrow> communication_protocol_type_data \<Rightarrow> string" where
  "serialize_communication_protocol_error pe d =
     show_hex1 1 @
     (case cptd_type d of
        COMMUNICATION_PROTOCOL_MQTT \<Rightarrow> serialize_mqtt_communication_protocol_error (cptd_mqtt_error d)
      | _ \<Rightarrow> []) @
     serialize_communication_module_error pe (cptd_module d)"

definition serialize_communication_and_battery_data ::
  "(u32 \<Rightarrow> string) \<Rightarrow> communication_and_battery_data \<Rightarrow> string" where
  "serialize_communication_and_battery_data pe d =
     serialize_communication_protocol_data pe (cbd_protocol d) @
     '',B:'' @ show_u16 (cbd_battery_min_voltage d) @ '',V:4.3.6''"

fun serialize_system_error :: "system_error_type \<Rightarrow> string" where
  "serialize_system_error (SYSTEM_RESET reason) = show_hex1 0 @ show_hex2 reason"
| "serialize_system_error SYSTEM_BROWNOUT = show_hex1 1"

definition serialize_system_item :: "(u32 \<Rightarrow> string) \<Rightarrow> system_item \<Rightarrow> string" where
  "serialize_system_item pe i =
     ''R:'' @ show_u32 (sys_timestamp i) @
     (case sys_data i of
        SystemError e \<Rightarrow> '',E:'' @ show_hex1 0 @ serialize_system_error e
      | CommunicationAndBatteryData d \<Rightarrow>
          (if \<not> is_communication_protocol_success (cbd_protocol d) then '',E:'' @ show_hex1 1 else []) @
          serialize_communication_and_battery_data pe d
      | ProtocolData d \<Rightarrow>
          (if \<not> is_communication_protocol_success d then '',E:'' @ show_hex1 1 else []) @
          serialize_communication_protocol_data pe d)"

text \<open>The separator is added on its own, and whether it fitted is not looked at.\<close>

partial_function (option) serialize_system_data_loop ::
  "(u32 \<Rightarrow> string) \<Rightarrow> system_item circular_buffer \<Rightarrow> u16 \<Rightarrow> u16 \<Rightarrow> char_buffer \<Rightarrow>
   (u16 \<times> char_buffer) option" where
  "serialize_system_data_loop pe sb start n mb = do {
     r \<leftarrow> circular_buffer_peek sb (start + n);
     (case snd r of
        None \<Rightarrow> Some (n, mb)
      | Some item \<Rightarrow> do {
          p \<leftarrow> add_text mb (serialize_system_item pe item);
          (if fst p then do {
             q \<leftarrow> circular_buffer_add (snd p) (CHR ''|'');
             serialize_system_data_loop pe sb start (n + 1) (snd q)
           } else Some (n, snd p))
        })
   }"

definition serialize_system_data ::
  "(u32 \<Rightarrow> string) \<Rightarrow> system_item circular_buffer \<Rightarrow> u16 \<Rightarrow> char_buffer \<Rightarrow> (u16 \<times> char_buffer) option" where
  "serialize_system_data pe sb start mb = serialize_system_data_loop pe sb start 0 mb"

definition append_system_info ::
  "(u32 \<Rightarrow> string) \<Rightarrow> system_item circular_buffer \<Rightarrow> u16 \<Rightarrow> char_buffer \<Rightarrow> bool \<Rightarrow> (u16 \<times> char_buffer) option" where
  "append_system_info pe sb start mb split = do {
     (ok, mb) \<leftarrow> (if start = 0 then add_text mb ''SYSTEM '' else Some (True, mb));
     (if \<not> ok then Some (0, mb)
      else do {
        (n, mb) \<leftarrow> serialize_system_data pe sb start mb;
        mb \<leftarrow> (if \<not> split \<or> start + n = circular_buffer_size sb then end_message mb else Some mb);
        Some (n, mb)
      })
   }"

section \<open>Settings\<close>

definition append_mac_address :: "u8 list \<Rightarrow> char_buffer \<Rightarrow> char_buffer option" where
  "append_mac_address mac b = append_line b (''MAC '' @ concat (map show_hex2 (take 6 mac)) @ '';'')"

definition append_heartbeat :: "config \<Rightarrow> char_buffer \<Rightarrow> char_buffer option" where
  "append_heartbeat c b = append_line b (''HEARTBEAT '' @ show_u16 (cfg_system_heartbeat c) @ '';'')"

definition append_rtc :: "u32 \<Rightarrow> char_buffer \<Rightarrow> char_buffer option" where
  "append_rtc rtc b = append_line b (''RTC '' @ show_u32 rtc @ '';'')"

definition append_version :: "string \<Rightarrow> char_buffer \<Rightarrow> char_buffer option" where
  "append_version v b = append_line b (''VERSION '' @ v @ '';'')"

definition append_status :: "string \<Rightarrow> char_buffer \<Rightarrow> char_buffer option" where
  "append_status s b = append_line b (''STATUS '' @ s @ '';'')"

definition append_string :: "string \<Rightarrow> string \<Rightarrow> char_buffer \<Rightarrow> char_buffer option" where
  "append_string name arr b = do { s \<leftarrow> c_str arr; append_line b (name @ '' '' @ s @ '';'') }"

definition append_id :: "config \<Rightarrow> char_buffer \<Rightarrow> char_buffer option" where
  "append_id c = append_string ''ID'' (cfg_device_id c)"

definition append_signature :: "config \<Rightarrow> char_buffer \<Rightarrow> char_buffer option" where
  "append_signature c b =
     append_line b (''SIGNATURE '' @ (if hd (cfg_device_preshared_key c) \<noteq> NUL then ''****'' else []) @ '';'')"

definition append_url :: "config \<Rightarrow> char_buffer \<Rightarrow> char_buffer option" where
  "append_url c = append_string ''URL'' (cfg_hostname c)"

definition append_port :: "config \<Rightarrow> char_buffer \<Rightarrow> char_buffer option" where
  "append_port c b = append_line b (''PORT '' @ show_u16 (cfg_server_port c) @ '';'')"

definition append_ssid :: "config \<Rightarrow> char_buffer \<Rightarrow> char_buffer option" where
  "append_ssid c = append_string ''SSID'' (cfg_wifi_ssid c)"

definition append_pass :: "config \<Rightarrow> char_buffer \<Rightarrow> char_buffer option" where
  "append_pass c = append_string ''PASS'' (cfg_wifi_password c)"

text \<open>For any other type \<open>tmp\<close> keeps what was printed before; here \<open>tmp\<close> is the argument.\<close>

definition append_auth :: "string \<Rightarrow> config \<Rightarrow> char_buffer \<Rightarrow> char_buffer option" where
  "append_auth tmp c b =
     append_line b
       (if cfg_wifi_auth_type c = 0 then ''AUTH NONE;''
        else if cfg_wifi_auth_type c = 1 then ''AUTH WEP;''
        else if cfg_wifi_auth_type c = 3 then ''AUTH WPA;''
        else if cfg_wifi_auth_type c = 2 then ''AUTH WPA2;''
        else tmp)"

definition append_switch :: "string \<Rightarrow> bool \<Rightarrow> char_buffer \<Rightarrow> char_buffer option" where
  "append_switch name on b = append_line b (name @ (if on then '' ON;'' else '' OFF;''))"

definition append_movement_enabled :: "config \<Rightarrow> char_buffer \<Rightarrow> char_buffer option" where
  "append_movement_enabled c = append_switch ''MOVEMENT'' (cfg_movement_status c)"

definition append_atmo_enabled :: "config \<Rightarrow> char_buffer \<Rightarrow> char_buffer option" where
  "append_atmo_enabled c = append_switch ''ATMO'' (cfg_atmo_status c)"

definition append_location_status :: "bool \<Rightarrow> char_buffer \<Rightarrow> char_buffer option" where
  "append_location_status on = append_switch ''LOCATION'' on"

definition append_ssl_status :: "bool \<Rightarrow> char_buffer \<Rightarrow> char_buffer option" where
  "append_ssl_status on = append_switch ''SSL'' on"

definition append_static_ip :: "config \<Rightarrow> char_buffer \<Rightarrow> char_buffer option" where
  "append_static_ip c b = do {
     s \<leftarrow> c_str (cfg_wifi_static_ip c);
     append_line b (if s = [] then ''STATIC_IP OFF;'' else ''STATIC_IP '' @ s @ '';'')
   }"

definition append_static_mask :: "config \<Rightarrow> char_buffer \<Rightarrow> char_buffer option" where
  "append_static_mask c = append_string ''STATIC_MASK'' (cfg_wifi_static_mask c)"

definition append_static_gateway :: "config \<Rightarrow> char_buffer \<Rightarrow> char_buffer option" where
  "append_static_gateway c = append_string ''STATIC_GATEWAY'' (cfg_wifi_static_gateway c)"

definition append_static_dns :: "config \<Rightarrow> char_buffer \<Rightarrow> char_buffer option" where
  "append_static_dns c = append_string ''STATIC_DNS'' (cfg_wifi_static_dns c)"

definition alarm_limit_text :: "sensor_alarm \<Rightarrow> string" where
  "alarm_limit_text a = (if alarm_enabled a then show_i16 (alarm_value a) else ''OFF'')"

definition alarm_item_text :: "sensor \<Rightarrow> sensor_alarms \<Rightarrow> string" where
  "alarm_item_text s a =
     sensor_id s # '':'' @ alarm_limit_text (alarm_low a) @ '','' @ alarm_limit_text (alarm_high a) @ ''|''"

fun append_alarm_items :: "sensor_table \<Rightarrow> nat list \<Rightarrow> char_buffer \<Rightarrow> (bool \<times> char_buffer) option" where
  "append_alarm_items t [] b = Some (True, b)"
| "append_alarm_items t (i # is) b = do {
     (ok, b) \<leftarrow> add_text b (alarm_item_text (sensors t ! i) (sensors_alarms t ! i));
     (if ok then append_alarm_items t is b else Some (False, b))
   }"

definition append_alarms :: "sensor_table \<Rightarrow> char_buffer \<Rightarrow> (bool \<times> char_buffer) option" where
  "append_alarms t b = do {
     (ok, b) \<leftarrow> add_text b ''ALARM '';
     (if \<not> ok then Some (False, b)
      else do {
        (ok, b) \<leftarrow> append_alarm_items t [0..<NUMBER_OF_SENSORS] b;
        (if \<not> ok then Some (False, b) else do { b \<leftarrow> end_message b; Some (True, b) })
      })
   }"

definition append_temp_offset :: "(c_float \<Rightarrow> string) \<Rightarrow> config \<Rightarrow> char_buffer \<Rightarrow> char_buffer option" where
  "append_temp_offset fmt c b = append_line b (''TEMP_OFFSET '' @ fmt (cfg_atmo_offset c ! 0) @ '';'')"

definition append_humidity_offset :: "(c_float \<Rightarrow> string) \<Rightarrow> config \<Rightarrow> char_buffer \<Rightarrow> char_buffer option" where
  "append_humidity_offset fmt c b = append_line b (''HUMIDITY_OFFSET '' @ fmt (cfg_atmo_offset c ! 2) @ '';'')"

definition append_pressure_offset :: "(c_float \<Rightarrow> string) \<Rightarrow> config \<Rightarrow> char_buffer \<Rightarrow> char_buffer option" where
  "append_pressure_offset fmt c b = append_line b (''PRESSURE_OFFSET '' @ fmt (cfg_atmo_offset c ! 1) @ '';'')"

definition append_offset_factory ::
  "(c_float \<Rightarrow> string) \<Rightarrow> config \<Rightarrow> string \<Rightarrow> char_buffer \<Rightarrow> char_buffer option" where
  "append_offset_factory fmt c argument b =
     append_line b
       (if argument = ''RESET'' then ''OFFSET_FACTORY RESET;''
        else ''OFFSET_FACTORY P:'' @ fmt (cfg_atmo_offset_factory c ! 1) @ '',T:'' @
             fmt (cfg_atmo_offset_factory c ! 0) @ '',H:'' @ fmt (cfg_atmo_offset_factory c ! 2) @ '';'')"

section \<open>Adding texts to a message buffer\<close>

text \<open>
  A message is built from the start of the array, so that it can be sent as it lies there.  Adding
  to a buffer that does not overwrite, and dropping from its end, leave the head where it is.
\<close>

definition message_buffer :: "char_buffer \<Rightarrow> bool" where
  "message_buffer b \<longleftrightarrow> cb_inv b \<and> \<not> cb_wrap b \<and> cb_capacity b \<le> 32768 \<and> cb_head b = 0"

lemma head_add:
  "circular_buffer_add b x = Some (ok, b') \<Longrightarrow> \<not> cb_wrap b \<Longrightarrow> cb_head b' = cb_head b \<and> \<not> cb_wrap b'"
  by (auto simp: circular_buffer_add_def copy_in_def bind_eq_Some_conv Let_def split: if_splits)

lemma head_add_elements:
  "add_elements b xs = Some b' \<Longrightarrow> \<not> cb_wrap b \<Longrightarrow> cb_head b' = cb_head b \<and> \<not> cb_wrap b'"
proof (induction b xs rule: add_elements.induct)
  case (2 b x xs)
  then obtain ok b1 where "circular_buffer_add b x = Some (ok, b1)" "add_elements b1 xs = Some b'"
    by (auto simp: bind_eq_Some_conv)
  with head_add [OF this(1)] 2 show ?case by auto
qed simp

lemma head_add_array:
  "circular_buffer_add_array b xs n = Some (ok, b') \<Longrightarrow> \<not> cb_wrap b \<Longrightarrow> cb_head b' = cb_head b"
  by (auto simp: circular_buffer_add_array_def bind_eq_Some_conv Let_def split: if_splits dest: head_add_elements)

lemma head_drop_from_end: "cb_head (snd (circular_buffer_drop_from_end b n)) = cb_head b"
proof -
  have "cb_head ((drop_last_element ^^ k) b) = cb_head b" for k
    by (induction k) (simp_all add: drop_last_element_def Let_def)
  then show ?thesis by (simp add: circular_buffer_drop_from_end_def Let_def)
qed

lemma message_prefix:
  assumes "message_buffer b"
  shows "array_prefix (cb_storage b) (unat (circular_buffer_size b)) = Some (cb_list b)"
proof -
  from assms have b: "cb_inv b" "cb_head b = 0" by (simp_all add: message_buffer_def)
  have "take (cb_count b) (cb_storage b) = cb_list b"
    using b(2) cb_count_le [OF b(1)] cb_inv_storage(1,4,5) [OF b(1)]
    by (auto simp: cb_list_def cb_capacity_def list_eq_iff_nth_eq)
  then show ?thesis using b cb_size_count [OF b(1)] cb_count_le [OF b(1)] cb_inv_storage(1) [OF b(1)]
    by simp
qed

lemma message_clear:
  assumes "message_buffer b"
  obtains b' where "circular_buffer_clear NUL b = Some b'" "message_buffer b'" "cb_list b' = []"
    "cb_capacity b' = cb_capacity b"
proof -
  from assms have b: "cb_inv b" "\<not> cb_wrap b" "cb_capacity b \<le> 32768" by (simp_all add: message_buffer_def)
  have "0 < unat (cb_storage_size b)" "length (cb_storage b) = unat (cb_storage_size b)"
    "unat (cb_storage_size b) * unat (cb_element_size b) < 65536"
    using cb_inv_storage(1,2,5) [OF b(1)] by (simp_all add: cb_capacity_def)
  from cb_clear [OF this, of NUL] obtain b' where b': "circular_buffer_clear NUL b = Some b'" "cb_inv b'"
    "cb_list b' = []" "cb_storage_size b' = cb_storage_size b" "cb_wrap b' = cb_wrap b" by blast
  moreover from b'(1) have "cb_head b' = 0" by (auto simp: circular_buffer_clear_def bind_eq_Some_conv)
  ultimately show thesis using b by (intro that [of b']) (simp_all add: message_buffer_def cb_capacity_def)
qed

abbreviation room :: "char_buffer \<Rightarrow> nat" where
  "room b \<equiv> cb_capacity b - length (cb_list b)"

lemma add_text_ok:
  assumes "message_buffer b" "length s < 128"
  obtains b' where "add_text b s = Some (length s \<le> room b, b')" "message_buffer b'"
    "cb_capacity b' = cb_capacity b"
    "cb_list b' = (if length s \<le> room b then cb_list b @ s else cb_list b)"
proof -
  from assms(1) have b: "cb_inv b" "\<not> cb_wrap b" "cb_capacity b \<le> 32768" "cb_head b = 0"
    by (simp_all add: message_buffer_def)
  have n: "unat (of_nat (length s) :: u16) = length s" using assms(2) by (intro unat_of_nat16) simp
  show thesis
  proof (cases "cb_count b + length s \<le> cb_capacity b")
    case True
    with n have "cb_wrap b \<or> cb_count b + unat (of_nat (length s) :: u16) \<le> cb_capacity b" by simp
    from cb_add_array [OF b(1) _ this, of s] n obtain b' where
      "circular_buffer_add_array b s (of_nat (length s)) = Some (True, b')" "cb_inv b'"
      "cb_list b' = keep_last (cb_capacity b) (cb_list b @ s)" "cb_same_config b b'" by auto
    with True b assms(2) head_add_array [OF this(1) b(2)] show thesis
      by (intro that [of b']) (simp_all add: add_text_def message_buffer_def cb_same_configD le_diff_conv2 cb_count_le)
  next
    case False
    then have "circular_buffer_add_array b s (of_nat (length s)) = Some (False, b)"
      using b n by (intro cb_add_array_rejected) auto
    moreover have "\<not> length s \<le> room b" using False cb_count_le [OF b(1)] by simp
    ultimately show thesis using assms b by (intro that [of b]) (simp_all add: add_text_def)
  qed
qed

lemma end_message_ok:
  assumes "message_buffer b" "2 \<le> length (cb_list b)"
  obtains b' where "end_message b = Some b'" "message_buffer b'" "cb_capacity b' = cb_capacity b"
    "cb_list b' = butlast (cb_list b) @ [COMMAND_TERMINATOR]"
proof -
  from assms(1) have b: "cb_inv b" "\<not> cb_wrap b" "cb_capacity b \<le> 32768" "cb_head b = 0"
    by (simp_all add: message_buffer_def)
  have one: "unat (1 :: u16) < cb_count b" using assms(2) by simp
  from cb_drop_from_end [OF b(1) one] obtain b1 where
    b1: "circular_buffer_drop_from_end b 1 = (1, b1)" "cb_inv b1"
      "cb_list b1 = take (cb_count b - unat (1 :: u16)) (cb_list b)" "cb_same_config b b1" .
  from b1(3) have l1: "cb_list b1 = butlast (cb_list b)" by (simp add: butlast_conv_take)
  then have "length (cb_list b1) < cb_capacity b1"
    using cb_count_le [OF b(1)] assms(2) b1(4) by (simp add: cb_same_configD)
  then have "\<not> cb_full b1" using b1(2) by (simp add: cb_full_iff)
  with cb_push [OF b1(2), of COMMAND_TERMINATOR] obtain b' where
    b': "circular_buffer_add b1 COMMAND_TERMINATOR = Some (True, b')" "cb_inv b'" "cb_same_config b1 b'"
      "cb_list b' = keep_last (cb_capacity b1) (cb_list b1 @ [COMMAND_TERMINATOR])" by blast
  moreover have "cb_same_config b b'" using b1(4) b'(3) by (rule cb_same_config_trans)
  moreover have "cb_head b1 = 0" using head_drop_from_end [of b 1] b1(1) b(4) by simp
  moreover have "\<not> cb_wrap b1" using b1(4) b(2) by (simp add: cb_same_configD)
  ultimately show thesis using head_add [OF b'(1)]
    using \<open>length (cb_list b1) < cb_capacity b1\<close> b b1 l1
    by (intro that [of b']) (simp_all add: end_message_def message_buffer_def cb_same_configD)
qed

text \<open>How many of the texts fit, taken in order and never split.\<close>

fun fitting :: "nat \<Rightarrow> string list \<Rightarrow> nat" where
  "fitting free [] = 0"
| "fitting free (t # ts) = (if length t \<le> free then Suc (fitting (free - length t) ts) else 0)"

lemma fitting_le: "fitting free ts \<le> length ts"
  by (induction free ts rule: fitting.induct) auto

lemma fitting_room: "length (concat (take (fitting free ts) ts)) \<le> free"
  by (induction free ts rule: fitting.induct) auto

lemma fitting_max:
  "fitting free ts < length ts \<Longrightarrow> free < length (concat (take (Suc (fitting free ts)) ts))"
  by (induction free ts rule: fitting.induct) auto

section \<open>Sending the readings\<close>

abbreviation reading_texts ::
  "(c_float \<Rightarrow> string) \<Rightarrow> sensor list \<Rightarrow> sensor_readings circular_buffer \<Rightarrow> string list" where
  "reading_texts fmt ss rb \<equiv> map (serialize_sensor_reading fmt ss) (cb_list rb)"

lemma serialize_readings_loop_ok:
  assumes rb: "cb_inv rb" "cb_capacity rb \<le> 32768"
    and short: "\<forall>t \<in> set (reading_texts fmt ss rb). length t < 128"
    and mb: "message_buffer mb" and pos: "unat start + unat n \<le> length (cb_list rb)"
  shows "\<exists>k mb'. k = fitting (room mb) (drop (unat start + unat n) (reading_texts fmt ss rb)) \<and>
    serialize_sensor_readings_loop fmt ss rb start n mb = Some (n + of_nat k, mb') \<and>
    message_buffer mb' \<and> cb_capacity mb' = cb_capacity mb \<and>
    cb_list mb' = cb_list mb @ concat (take k (drop (unat start + unat n) (reading_texts fmt ss rb)))"
  using mb pos
proof (induction "length (cb_list rb) - (unat start + unat n)" arbitrary: n mb)
  case 0
  have lt: "length (cb_list rb) < 65536" using cb_count_le [OF rb(1)] rb(2) by simp
  have u: "unat (start + n) = unat start + unat n" using 0 lt by (intro unat_add_small) simp
  show ?case using 0 by (subst serialize_sensor_readings_loop.simps) (simp add: cb_peek [OF rb] u)
next
  case (Suc d)
  have lt: "length (cb_list rb) < 65536" using cb_count_le [OF rb(1)] rb(2) by simp
  have u: "unat (start + n) = unat start + unat n" using Suc.prems lt by (intro unat_add_small) simp
  have u1: "unat (n + 1) = unat n + 1" using Suc lt by (intro unat_inc) simp
  let ?i = "unat start + unat n"
  let ?t = "serialize_sensor_reading fmt ss (cb_list rb ! ?i)"
  have i: "?i < length (cb_list rb)" using Suc.hyps(2) by simp
  then have rest: "drop ?i (reading_texts fmt ss rb) = ?t # drop (Suc ?i) (reading_texts fmt ss rb)"
    by (metis Cons_nth_drop_Suc length_map nth_map)
  have "length ?t < 128" using short i by (simp add: nth_mem del: length_cb_list)
  from add_text_ok [OF Suc.prems(1) this] obtain mb1 where
    mb1: "add_text mb ?t = Some (length ?t \<le> room mb, mb1)" "message_buffer mb1"
      "cb_capacity mb1 = cb_capacity mb"
      "cb_list mb1 = (if length ?t \<le> room mb then cb_list mb @ ?t else cb_list mb)" .
  show ?case
  proof (cases "length ?t \<le> room mb")
    case False
    with mb1 i u rest show ?thesis
      by (subst serialize_sensor_readings_loop.simps) (simp add: cb_peek [OF rb])
  next
    case True
    have r1: "room mb1 = room mb - length ?t" using mb1(3,4) True by simp
    have "d = length (cb_list rb) - (unat start + unat (n + 1))" "unat start + unat (n + 1) \<le> length (cb_list rb)"
      using Suc.hyps(2) i u1 by simp_all
    from Suc.hyps(1) [OF this(1) mb1(2) this(2)] u1 r1 obtain k mb' where
      "k = fitting (room mb - length ?t) (drop (Suc ?i) (reading_texts fmt ss rb))"
      "serialize_sensor_readings_loop fmt ss rb start (n + 1) mb1 = Some (n + 1 + of_nat k, mb')"
      "message_buffer mb'" "cb_capacity mb' = cb_capacity mb1"
      "cb_list mb' = cb_list mb1 @ concat (take k (drop (Suc ?i) (reading_texts fmt ss rb)))"
      by auto
    with mb1 True i u rest show ?thesis
      by (subst serialize_sensor_readings_loop.simps) (auto simp: cb_peek [OF rb] algebra_simps)
  qed
qed

lemma serialize_sensor_reading_shape:
  "length (serialize_sensor_reading fmt ss r) \<ge> 3" "last (serialize_sensor_reading fmt ss r) = CHR ''|''"
proof -
  have "show_nat n \<noteq> []" for n by (subst show_nat.simps) simp
  then have "show_u32 w \<noteq> []" for w by (simp add: show_u32_def)
  then show "length (serialize_sensor_reading fmt ss r) \<ge> 3"
    by (cases "show_u32 (readings_timestamp r)")
      (auto simp: serialize_sensor_reading_def Let_def simp del: upt_Suc)
  show "last (serialize_sensor_reading fmt ss r) = CHR ''|''"
    by (simp add: serialize_sensor_reading_def Let_def del: upt_Suc)
qed

definition readings_header :: "u16 \<Rightarrow> string" where
  "readings_header start = (if start = 0 then ''READINGS '' else [])"

text \<open>One message: the header at the start, as many readings as fit, the semicolon after the last.\<close>

lemma append_sensor_readings_ok:
  assumes rb: "cb_inv rb" "cb_capacity rb \<le> 32768"
    and short: "\<forall>t \<in> set (reading_texts fmt ss rb). length t < 128"
    and mb: "message_buffer mb" "cb_list mb = []" "9 \<le> cb_capacity mb"
    and pos: "unat start < length (cb_list rb) \<or> start = 0"
  shows "\<exists>k mb'. k = fitting (cb_capacity mb - length (readings_header start))
                            (drop (unat start) (reading_texts fmt ss rb)) \<and>
    append_sensor_readings fmt ss rb start mb True = Some (of_nat k, mb') \<and>
    message_buffer mb' \<and> cb_capacity mb' = cb_capacity mb \<and>
    (let s = readings_header start @ concat (take k (drop (unat start) (reading_texts fmt ss rb)))
     in cb_list mb' = (if unat start + k = length (cb_list rb)
                       then butlast s @ [COMMAND_TERMINATOR] else s))"
proof -
  let ?ts = "drop (unat start) (reading_texts fmt ss rb)"
  let ?h = "readings_header start"
  have lt: "length (cb_list rb) < 65536" using cb_count_le [OF rb(1)] rb(2) by simp
  obtain mb1 where mb1: "(if start = 0 then add_text mb ''READINGS '' else Some (True, mb)) = Some (True, mb1)"
    "message_buffer mb1" "cb_capacity mb1 = cb_capacity mb" "cb_list mb1 = ?h"
  proof (cases "start = 0")
    case True
    from add_text_ok [OF mb(1), of "''READINGS ''"] obtain b' where
      "add_text mb ''READINGS '' = Some (length ''READINGS '' \<le> room mb, b')" "message_buffer b'"
      "cb_capacity b' = cb_capacity mb"
      "cb_list b' = (if length ''READINGS '' \<le> room mb then cb_list mb @ ''READINGS '' else cb_list mb)"
      by auto
    with True mb(2,3) that [of b'] show thesis by (simp add: readings_header_def)
  next
    case False
    with mb that [of mb] show thesis by (simp add: readings_header_def)
  qed
  have "unat start + unat (0 :: u16) \<le> length (cb_list rb)" using pos by auto
  from serialize_readings_loop_ok [OF rb short mb1(2) this] mb1 obtain mb2 where
    mb2: "serialize_sensor_readings_loop fmt ss rb start 0 mb1 =
        Some (of_nat (fitting (cb_capacity mb - length ?h) ?ts), mb2)" "message_buffer mb2"
      "cb_capacity mb2 = cb_capacity mb"
      "cb_list mb2 = ?h @ concat (take (fitting (cb_capacity mb - length ?h) ?ts) ?ts)"
    by auto
  define k where "k = fitting (cb_capacity mb - length ?h) ?ts"
  have k: "unat start + k \<le> length (cb_list rb)" using fitting_le [of "cb_capacity mb - length ?h" ?ts] pos
    by (auto simp: k_def)
  then have fin: "start + of_nat k = circular_buffer_size rb \<longleftrightarrow> unat start + k = length (cb_list rb)"
    using lt cb_size_count [OF rb(1)]
    by (simp add: u16_eq_iff unat_add_small unat_of_nat16)
  show ?thesis
  proof (cases "unat start + k = length (cb_list rb)")
    case False
    with fin mb1(1) mb2 show ?thesis
      by (auto simp: append_sensor_readings_def serialize_sensor_readings_def k_def Let_def)
  next
    case True
    have "2 \<le> length (cb_list mb2)"
    proof (cases "start = 0")
      case True
      then show ?thesis using mb2(4) by (simp add: readings_header_def)
    next
      case False
      with True pos obtain j where j: "k = Suc j" by (cases k) auto
      from True False pos j have "?ts \<noteq> []" by auto
      then obtain t ts' where "?ts = t # ts'" "t \<in> set (reading_texts fmt ss rb)"
        by (metis in_set_dropD list.exhaust list.set_intros(1))
      moreover from this obtain r where "t = serialize_sensor_reading fmt ss r" by auto
      then have "3 \<le> length t" using serialize_sensor_reading_shape(1) by simp
      ultimately show ?thesis
        unfolding mb2(4) k_def [symmetric] j by simp
    qed
    from end_message_ok [OF mb2(2) this] obtain mb3 where "end_message mb2 = Some mb3" "message_buffer mb3"
      "cb_capacity mb3 = cb_capacity mb2" "cb_list mb3 = butlast (cb_list mb2) @ [COMMAND_TERMINATOR]" .
    with True fin mb1(1) mb2 show ?thesis
      by (auto simp: append_sensor_readings_def serialize_sensor_readings_def k_def Let_def)
  qed
qed

end
