(* ===== verification/State_Machine.thy ===== *)
theory State_Machine
  imports Prelude
begin

text \<open>
  The hierarchical state machine on which every module of the SDK is built
  (\<open>SDK/core/state_machine.c\<close>).  A machine has a root and an array of states; each state points to
  its parent and knows the state that is current below it.  A node of the tree is the root or an
  index of the array, and \<open>current_state = -1\<close> is \<^const>\<open>None\<close>.

  A handler is a function on the whole machine together with the data \<open>'w\<close> of its module, because
  the handlers of the program call \<open>transition\<close> and change the data.  A null handler is
  \<^const>\<open>None\<close>.  Only the type of an event reaches the handlers.
\<close>

section \<open>The tree\<close>

datatype node = Root | Node nat

record 'w machine =
  root_current :: "nat option"
  state_current :: "nat option list"
  state_parent :: "node list"
  world :: 'w

type_synonym 'w handler = "u8 \<Rightarrow> 'w machine \<Rightarrow> (bool \<times> 'w machine) option"
type_synonym 'w handlers = "node \<Rightarrow> 'w handler option"

definition EVENT_ENTERING_STATE :: u8 where "EVENT_ENTERING_STATE = 254"
definition EVENT_LEAVING_STATE :: u8 where "EVENT_LEAVING_STATE = 255"

fun current_state :: "'w machine \<Rightarrow> node \<Rightarrow> nat option option" where
  "current_state m Root = Some (root_current m)"
| "current_state m (Node i) = array_get (state_current m) i"

fun set_current_state :: "'w machine \<Rightarrow> node \<Rightarrow> nat option \<Rightarrow> 'w machine option" where
  "set_current_state m Root c = Some (m\<lparr>root_current := c\<rparr>)"
| "set_current_state m (Node i) c =
     map_option (\<lambda>cs. m\<lparr>state_current := cs\<rparr>) (array_set (state_current m) i c)"

definition state_machine_init_state ::
  "'w machine \<Rightarrow> nat \<Rightarrow> node \<Rightarrow> nat option \<Rightarrow> 'w machine option" where
  "state_machine_init_state m i parent initial = do {
     cs \<leftarrow> array_set (state_current m) i initial;
     ps \<leftarrow> array_set (state_parent m) i parent;
     Some (m\<lparr>state_current := cs, state_parent := ps\<rparr>)
   }"

section \<open>Dispatch and transition\<close>

text \<open>Both loops follow \<open>current_state\<close> pointers; on a cycle they do not return.\<close>

partial_function (option) state_machine_process_event ::
  "'w handlers \<Rightarrow> node \<Rightarrow> u8 \<Rightarrow> 'w machine \<Rightarrow> (bool \<times> 'w machine) option" where
  "state_machine_process_event H n e m = do {
     c \<leftarrow> current_state m n;
     r \<leftarrow> (case c of None \<Rightarrow> Some (False, m)
            | Some i \<Rightarrow> state_machine_process_event H (Node i) e m);
     (if \<not> fst r then (case H n of None \<Rightarrow> Some (False, snd r) | Some h \<Rightarrow> h e (snd r)) else Some r)
   }"

definition run_handler :: "'w handlers \<Rightarrow> node \<Rightarrow> u8 \<Rightarrow> 'w machine \<Rightarrow> 'w machine option" where
  "run_handler H n e m = (case H n of None \<Rightarrow> Some m | Some h \<Rightarrow> map_option snd (h e m))"

partial_function (option) enter_children :: "'w handlers \<Rightarrow> node \<Rightarrow> 'w machine \<Rightarrow> 'w machine option" where
  "enter_children H n m = do {
     c \<leftarrow> current_state m n;
     (case c of None \<Rightarrow> Some m
      | Some i \<Rightarrow> do {
          m' \<leftarrow> run_handler H (Node i) EVENT_ENTERING_STATE m;
          enter_children H (Node i) m'
        })
   }"

definition state_machine_transition :: "'w handlers \<Rightarrow> nat \<Rightarrow> 'w machine \<Rightarrow> 'w machine option" where
  "state_machine_transition H new_state_id m = do {
     parent \<leftarrow> array_get (state_parent m) new_state_id;
     c \<leftarrow> current_state m parent;
     m1 \<leftarrow> (case c of None \<Rightarrow> Some m
             | Some i \<Rightarrow> map_option snd (state_machine_process_event H (Node i) EVENT_LEAVING_STATE m));
     m2 \<leftarrow> set_current_state m1 parent (Some new_state_id);
     m3 \<leftarrow> run_handler H (Node new_state_id) EVENT_ENTERING_STATE m2;
     enter_children H (Node new_state_id) m3
   }"

section \<open>What dispatch means\<close>

text \<open>
  The descent ends before the first handler runs, so the states that see the event are fixed by
  the machine at the start: the active path, offered the event from the leaf upwards until one
  handler says it processed it.
\<close>

fun active_path :: "nat \<Rightarrow> 'w machine \<Rightarrow> node \<Rightarrow> node list option" where
  "active_path 0 m n = None"
| "active_path (Suc d) m n = do {
     c \<leftarrow> current_state m n;
     (case c of None \<Rightarrow> Some [n] | Some i \<Rightarrow> map_option ((#) n) (active_path d m (Node i)))
   }"

fun offer :: "'w handlers \<Rightarrow> node list \<Rightarrow> u8 \<Rightarrow> 'w machine \<Rightarrow> (bool \<times> 'w machine) option" where
  "offer H [] e m = Some (False, m)"
| "offer H (n # ns) e m =
     (case H n of None \<Rightarrow> offer H ns e m
      | Some h \<Rightarrow> do { r \<leftarrow> h e m; (if fst r then Some r else offer H ns e (snd r)) })"

lemma offer_snoc:
  "offer H (ns @ [n]) e m = do {
     r \<leftarrow> offer H ns e m;
     (if fst r then Some r else (case H n of None \<Rightarrow> Some (False, snd r) | Some h \<Rightarrow> h e (snd r)))
   }"
proof (induction ns arbitrary: m)
  case Nil
  show ?case
    by (cases "H n") (auto simp: bind_eq_Some_conv split: Option.bind_split)
next
  case (Cons k ns)
  then show ?case
    by (cases "H k") (auto split: Option.bind_split)
qed

text \<open>C34: Processing an event offers it to the handlers of the active path from the innermost state up
  to the given node, each on the machine the one before left, and stops at the first handler that
  says it processed the event.\<close>

theorem process_event_bubbles:
  assumes "active_path d m n = Some ns"
  shows "state_machine_process_event H n e m = offer H (rev ns) e m"
  using assms
proof (induction d arbitrary: n ns)
  case (Suc d)
  then obtain c where c: "current_state m n = Some c" by (auto simp: bind_eq_Some_conv)
  show ?case
  proof (cases c)
    case None
    with Suc.prems c show ?thesis
      by (simp add: state_machine_process_event.simps [of H n] split: option.splits)
         (auto split: Option.bind_split)
  next
    case (Some i)
    with Suc.prems c obtain ns' where ns': "active_path d m (Node i) = Some ns'" "ns = n # ns'" by auto
    show ?thesis
      unfolding state_machine_process_event.simps [of H n] ns'(2) rev.simps offer_snoc
      using c Some Suc.IH [OF ns'(1)] by (auto split: Option.bind_split)
  qed
qed simp

text \<open>Rules that evaluate dispatch on a machine whose shape is known.\<close>

lemma process_event_leaf [c_eval]:
  "current_state m n = Some None \<Longrightarrow> H n = Some h \<Longrightarrow> state_machine_process_event H n e m = h e m"
  by (simp add: state_machine_process_event.simps [of H n])

lemma process_event_inner [c_eval]:
  "current_state m n = Some (Some i) \<Longrightarrow> H n = Some h \<Longrightarrow>
   state_machine_process_event H n e m = do {
     r \<leftarrow> state_machine_process_event H (Node i) e m;
     (if \<not> fst r then h e (snd r) else Some r)
   }"
  by (simp add: state_machine_process_event.simps [of H n] cong: if_cong)

lemma enter_children_leaf [c_eval]:
  "current_state m n = Some None \<Longrightarrow> enter_children H n m = Some m"
  by (simp add: enter_children.simps [of H n])

lemma enter_children_inner [c_eval]:
  "current_state m n = Some (Some i) \<Longrightarrow>
   enter_children H n m = do {
     m' \<leftarrow> run_handler H (Node i) EVENT_ENTERING_STATE m;
     enter_children H (Node i) m'
   }"
  by (simp add: enter_children.simps [of H n])

lemma run_handler_Some [c_eval]: "H n = Some h \<Longrightarrow> run_handler H n e m = map_option snd (h e m)"
  by (simp add: run_handler_def)

section \<open>Names\<close>

text \<open>
  \<open>get_state_human_readable_name\<close> prints the path from the root, the names joined by dashes; the
  argument \<open>size\<close> is never compared with anything.
\<close>

partial_function (option) get_state_human_readable_name ::
  "(node \<Rightarrow> string option) \<Rightarrow> (node \<Rightarrow> node option) \<Rightarrow> node \<Rightarrow> string option" where
  "get_state_human_readable_name name parent n = do {
     p \<leftarrow> (case parent n of None \<Rightarrow> Some []
            | Some k \<Rightarrow> get_state_human_readable_name name parent k);
     Some ((if p \<noteq> [] then p @ ''-'' else []) @ (case name n of None \<Rightarrow> [] | Some s \<Rightarrow> s))
   }"

section \<open>Knotting the handlers with \<open>transition\<close>\<close>

text \<open>
  The handlers of a module call \<open>transition\<close>, which calls the handlers.  A module defines its
  handlers over the transition they call, and ties the knot with the number of transitions that
  may nest; \<^const>\<open>None\<close> is returned beyond that number.
\<close>

primrec nested_transition ::
  "((nat \<Rightarrow> 'w machine \<Rightarrow> 'w machine option) \<Rightarrow> 'w handlers) \<Rightarrow> nat \<Rightarrow> nat \<Rightarrow> 'w machine \<Rightarrow>
   'w machine option" where
  "nested_transition HS 0 i m = None"
| "nested_transition HS (Suc k) i m = state_machine_transition (HS (nested_transition HS k)) i m"

section \<open>Invariants of a hierarchical machine\<close>

text \<open>
  The interface of a module that is built on the state machine: its handlers \<open>HS\<close>, defined over
  the transition they call, keep \<open>I\<close> provided that transition keeps it, and pointing the parent
  of a state at the state keeps it.  Then dispatch and every nested transition keep it.
\<close>

locale hierarchical_machine =
  fixes HS :: "(nat \<Rightarrow> 'w machine \<Rightarrow> 'w machine option) \<Rightarrow> 'w handlers"
    and I :: "'w machine \<Rightarrow> bool"
  assumes handler_keeps:
      "(\<And>i m m'. I m \<Longrightarrow> tr i m = Some m' \<Longrightarrow> I m') \<Longrightarrow>
       HS tr n = Some h \<Longrightarrow> I m \<Longrightarrow> h e m = Some r \<Longrightarrow> I (snd r)"
    and enter_keeps:
      "I m \<Longrightarrow> array_get (state_parent m) i = Some p \<Longrightarrow> I m1 \<Longrightarrow>
       set_current_state m1 p (Some i) = Some m' \<Longrightarrow> I m'"
begin

lemma dispatch_keeps:
  assumes tr: "\<And>i m m'. I m \<Longrightarrow> tr i m = Some m' \<Longrightarrow> I m'"
    and run: "state_machine_process_event (HS tr) n e m = Some r" and I: "I m"
  shows "I (snd r)"
proof -
  have "HS tr = HS tr \<longrightarrow> I m \<longrightarrow> I (snd r)"
  proof (rule state_machine_process_event.raw_induct
      [where P = "\<lambda>H n e m r. H = HS tr \<longrightarrow> I m \<longrightarrow> I (snd r)", OF _ run], intro impI)
    fix f :: "'w handlers \<Rightarrow> node \<Rightarrow> u8 \<Rightarrow> 'w machine \<Rightarrow> (bool \<times> 'w machine) option" and H n e m r
    assume IH: "\<And>H n e m r. f H n e m = Some r \<Longrightarrow> H = HS tr \<longrightarrow> I m \<longrightarrow> I (snd r)"
      and body: "(do {
        c \<leftarrow> current_state m n;
        r \<leftarrow> (case c of None \<Rightarrow> Some (False, m) | Some i \<Rightarrow> f H (Node i) e m);
        (if \<not> fst r then (case H n of None \<Rightarrow> Some (False, snd r) | Some h \<Rightarrow> h e (snd r)) else Some r)
      }) = Some r" and H: "H = HS tr" and "I m"
    from body obtain c r' where
      c: "(case c of None \<Rightarrow> Some (False, m) | Some i \<Rightarrow> f H (Node i) e m) = Some r'" and
      r: "(if \<not> fst r' then (case H n of None \<Rightarrow> Some (False, snd r') | Some h \<Rightarrow> h e (snd r')) else Some r')
          = Some r"
      by (auto simp: bind_eq_Some_conv)
    from c IH H \<open>I m\<close> have "I (snd r')" by (cases c) auto
    with r H show "I (snd r)"
      by (cases "fst r'"; cases "H n") (auto intro: handler_keeps [where tr = tr, OF tr])
  qed
  with I show ?thesis by simp
qed

lemma run_handler_keeps:
  assumes tr: "\<And>i m m'. I m \<Longrightarrow> tr i m = Some m' \<Longrightarrow> I m'"
    and "run_handler (HS tr) n e m = Some m'" "I m"
  shows "I m'"
proof (cases "HS tr n")
  case None
  with assms(2,3) show ?thesis by (simp add: run_handler_def)
next
  case (Some h)
  with assms(2) obtain p where "h e m = Some (p, m')" by (auto simp: run_handler_def)
  from handler_keeps [where tr = tr, OF tr Some assms(3) this] show ?thesis by simp
qed

lemma enter_children_keeps:
  assumes tr: "\<And>i m m'. I m \<Longrightarrow> tr i m = Some m' \<Longrightarrow> I m'"
    and run: "enter_children (HS tr) n m = Some m'" and I: "I m"
  shows "I m'"
proof -
  have "HS tr = HS tr \<longrightarrow> I m \<longrightarrow> I m'"
  proof (rule enter_children.raw_induct
      [where P = "\<lambda>H n m m'. H = HS tr \<longrightarrow> I m \<longrightarrow> I m'", OF _ run], intro impI)
    fix f :: "'w handlers \<Rightarrow> node \<Rightarrow> 'w machine \<Rightarrow> 'w machine option" and H n m m'
    assume IH: "\<And>H n m m'. f H n m = Some m' \<Longrightarrow> H = HS tr \<longrightarrow> I m \<longrightarrow> I m'"
      and body: "(do {
        c \<leftarrow> current_state m n;
        (case c of None \<Rightarrow> Some m
         | Some i \<Rightarrow> do { m' \<leftarrow> run_handler H (Node i) EVENT_ENTERING_STATE m; f H (Node i) m' })
      }) = Some m'" and H: "H = HS tr" and "I m"
    from body obtain c where c: "(case c of None \<Rightarrow> Some m
        | Some i \<Rightarrow> do { m' \<leftarrow> run_handler H (Node i) EVENT_ENTERING_STATE m; f H (Node i) m' }) = Some m'"
      by (auto simp: bind_eq_Some_conv)
    show "I m'"
    proof (cases c)
      case None
      with c \<open>I m\<close> show ?thesis by simp
    next
      case (Some i)
      with c obtain m1 where m1: "run_handler H (Node i) EVENT_ENTERING_STATE m = Some m1" "f H (Node i) m1 = Some m'"
        by (auto simp: bind_eq_Some_conv)
      have "I m1"
        by (rule run_handler_keeps [where tr = tr, OF tr _ \<open>I m\<close>]) (use m1(1) H in auto)
      with IH [OF m1(2)] H show ?thesis by blast
    qed
  qed
  with I show ?thesis by simp
qed

lemma transition_keeps:
  assumes tr: "\<And>i m m'. I m \<Longrightarrow> tr i m = Some m' \<Longrightarrow> I m'"
    and run: "state_machine_transition (HS tr) i m = Some m'" and I: "I m"
  shows "I m'"
proof -
  from run obtain p c m1 m2 m3 where
    p: "array_get (state_parent m) i = Some p" and
    m1: "(case c of None \<Rightarrow> Some m | Some k \<Rightarrow>
           map_option snd (state_machine_process_event (HS tr) (Node k) EVENT_LEAVING_STATE m)) = Some m1" and
    m2: "set_current_state m1 p (Some i) = Some m2" and
    m3: "run_handler (HS tr) (Node i) EVENT_ENTERING_STATE m2 = Some m3" and
    m': "enter_children (HS tr) (Node i) m3 = Some m'"
    by (auto simp: state_machine_transition_def bind_eq_Some_conv)
  from m1 I have "I m1"
  proof (cases c)
    case (Some k)
    with m1 obtain p' where "state_machine_process_event (HS tr) (Node k) EVENT_LEAVING_STATE m = Some (p', m1)"
      by auto
    from dispatch_keeps [where tr = tr, OF tr this I] show ?thesis by simp
  qed simp
  from enter_keeps [OF I p this m2] have "I m2" .
  from run_handler_keeps [where tr = tr, OF tr m3 this] have "I m3" .
  from enter_children_keeps [where tr = tr, OF tr m' this] show ?thesis .
qed

lemma nested_transition_keeps: "nested_transition HS k i m = Some m' \<Longrightarrow> I m \<Longrightarrow> I m'"
proof (induction k arbitrary: i m m')
  case (Suc k)
  show ?case
    by (rule transition_keeps [where tr = "nested_transition HS k", OF Suc.IH])
       (use Suc.prems in auto)
qed simp

lemma process_event_keeps:
  "state_machine_process_event (HS (nested_transition HS k)) n e m = Some r \<Longrightarrow> I m \<Longrightarrow> I (snd r)"
  by (rule dispatch_keeps [OF nested_transition_keeps])

end

section \<open>A machine with two levels\<close>

definition sample_machine :: "nat list machine" where
  "sample_machine = \<lparr>root_current = Some 0, state_current = [Some 1, None],
     state_parent = [Root, Node 0], world = []\<rparr>"

text \<open>Each handler records its node; state 0 processes event 7, the root processes everything.\<close>

fun sample_handlers :: "nat list handlers" where
  "sample_handlers Root = Some (\<lambda>e m. Some (True, m\<lparr>world := world m @ [9]\<rparr>))"
| "sample_handlers (Node i) = Some (\<lambda>e m. Some (i = 0 \<and> e = 7, m\<lparr>world := world m @ [i]\<rparr>))"

lemma process_event_bubbles_witness:
  "map_option (\<lambda>(p, m). (p, world m)) (state_machine_process_event sample_handlers Root 7 sample_machine)
     = Some (True, [1, 0]) \<and>
   map_option (\<lambda>(p, m). (p, world m)) (state_machine_process_event sample_handlers Root 8 sample_machine)
     = Some (True, [1, 0, 9])"
proof -
  have "active_path 3 sample_machine Root = Some [Root, Node 0, Node 1]"
    by (simp add: sample_machine_def eval_nat_numeral)
  from process_event_bubbles [OF this, of sample_handlers] show ?thesis
    by (simp add: sample_machine_def)
qed

end
