(* ===== verification/App_State.thy ===== *)
theory App_State
  imports Protocol State_Machine
begin

text \<open>
  The variables of the application and the configuration, and the operations that commands and
  listeners perform on them (the static variables and small functions of
  \<open>SDK/application/wolksensor.c\<close>, and the null-initialised dependency tables of
  \<open>SDK/core/commands_dependencies.h\<close>, \<open>global_dependencies.h\<close> and \<open>wolksensor_dependencies.h\<close>).

  What stands behind the function pointers (EEPROM, radio, USB, clock, sensor bus) is a state
  \<open>'p\<close> and a record of functions on it; a null pointer is \<^const>\<open>None\<close>.  A loop
  \<open>while(handle())\<close> on a returned handle is one function that gives \<^const>\<open>None\<close> when it does
  not end.
\<close>

section \<open>The platform\<close>

datatype cfg_t =
    CFG_SYSTEM_HEARTBEAT | CFG_SERVER_IP | CFG_SERVER_PORT | CFG_DEVICE_ID
  | CFG_DEVICE_PRESHARED_KEY | CFG_WIFI_SSID | CFG_WIFI_PASS | CFG_WIFI_AUTH | CFG_MOVEMENT
  | CFG_ATMO | CFG_WIFI_STATIC_IP | CFG_WIFI_STATIC_MASK | CFG_WIFI_STATIC_GATEWAY
  | CFG_WIFI_STATIC_DNS | CFG_MAC | CFG_LOCATION | CFG_SSL | CFG_MQTT_USERNAME | CFG_MQTT_PASSWORD | CFG_OFFSET | CFG_OFFSET_FACTORY

datatype cfg_value =
    CfgString string | CfgU16 u16 | CfgU8 u8 | CfgBool bool | CfgFloats "c_float list"
  | CfgBytes "u8 list"

record 'p platform_ops =
  rtc_get :: "'p \<Rightarrow> u32"
  config_read :: "cfg_t \<Rightarrow> 'p \<Rightarrow> cfg_value option"
  config_write :: "cfg_t \<Rightarrow> cfg_value \<Rightarrow> 'p \<Rightarrow> 'p"
  system_reset :: "'p \<Rightarrow> 'p"
  get_usb_state :: "'p \<Rightarrow> bool"
  enable_movement :: "'p \<Rightarrow> 'p"
  disable_movement :: "'p \<Rightarrow> 'p"
  enable_battery_voltage_monitor :: "'p \<Rightarrow> 'p"
  disable_battery_voltage_monitor :: "'p \<Rightarrow> 'p"
  get_sensors_states :: "char list \<Rightarrow> u8 \<Rightarrow> 'p \<Rightarrow> sensor_state list option \<times> 'p"
  is_static_ip_set :: "('p \<Rightarrow> bool) option"
  wifi_disconnect_and_wait :: "('p \<Rightarrow> 'p option) option"
  close_socket_and_wait :: "('p \<Rightarrow> 'p option) option"
  module_status :: "'p \<Rightarrow> string"
  print_float :: "c_float \<Rightarrow> string"
  print_platform_error :: "u32 \<Rightarrow> string"
  tmp_contents :: string
  junk_alarms :: sensor_alarms
  junk_command :: command

section \<open>The application\<close>

record 'p app =
  app_config :: config
  app_sensors :: sensor_table
  app_readings :: "sensor_readings circular_buffer"
  app_system :: "system_item circular_buffer"
  app_events :: event_buffer
  app_command_string :: char_buffer
  app_commands :: command_buffer
  app_response :: char_buffer
  current_heartbeat :: u16
  heartbeat_timer :: u16
  no_connection_heartbeat :: u16
  no_connection_count :: u8
  brownout :: bool
  sound_alarm_retries :: u8
  sent_system_items :: u16
  sent_sensor_readings :: u16
  battery_voltage :: u16
  app_result :: communication_and_battery_data
  process_handle :: nat
  stop_handle :: nat
  rtc_offset :: u32
  responses :: "string list"
  platform :: 'p

type_synonym 'p app_step = "'p app \<Rightarrow> 'p app option"

definition EVENT_MOVEMENT :: u8 where "EVENT_MOVEMENT = 0"
definition EVENT_HEARTBEAT :: u8 where "EVENT_HEARTBEAT = 1"
definition EVENT_ACQUIRE :: u8 where "EVENT_ACQUIRE = 2"
definition EVENT_COMMAND_RECEIVED :: u8 where "EVENT_COMMAND_RECEIVED = 3"
definition EVENT_USB_CONNECTED :: u8 where "EVENT_USB_CONNECTED = 4"
definition EVENT_USB_DISCONNECTED :: u8 where "EVENT_USB_DISCONNECTED = 5"
definition EVENT_ALARM :: u8 where "EVENT_ALARM = 6"
definition EVENT_COMMUNICATION_PROTOCOL_PROCESS :: u8 where "EVENT_COMMUNICATION_PROTOCOL_PROCESS = 7"
definition EVENT_COMMUNICATION_PROTOCOL_DONE :: u8 where "EVENT_COMMUNICATION_PROTOCOL_DONE = 8"
definition EVENT_RESET :: u8 where "EVENT_RESET = 9"

lemmas app_event_defs = EVENT_MOVEMENT_def EVENT_HEARTBEAT_def EVENT_ACQUIRE_def
  EVENT_COMMAND_RECEIVED_def EVENT_USB_CONNECTED_def EVENT_USB_DISCONNECTED_def EVENT_ALARM_def
  EVENT_COMMUNICATION_PROTOCOL_PROCESS_def EVENT_COMMUNICATION_PROTOCOL_DONE_def EVENT_RESET_def
  EVENT_ENTERING_STATE_def EVENT_LEAVING_STATE_def

lemma app_events_distinct:
  "distinct [EVENT_MOVEMENT, EVENT_HEARTBEAT, EVENT_ACQUIRE,
     EVENT_COMMAND_RECEIVED, EVENT_USB_CONNECTED, EVENT_USB_DISCONNECTED,
     EVENT_ALARM, EVENT_COMMUNICATION_PROTOCOL_PROCESS, EVENT_COMMUNICATION_PROTOCOL_DONE,
     EVENT_RESET, EVENT_ENTERING_STATE, EVENT_LEAVING_STATE]"
  "distinct [EVENT_LEAVING_STATE, EVENT_ENTERING_STATE, EVENT_RESET,
     EVENT_COMMUNICATION_PROTOCOL_DONE, EVENT_COMMUNICATION_PROTOCOL_PROCESS, EVENT_ALARM,
     EVENT_USB_DISCONNECTED, EVENT_USB_CONNECTED, EVENT_COMMAND_RECEIVED,
     EVENT_ACQUIRE, EVENT_HEARTBEAT, EVENT_MOVEMENT]"
  by (simp_all add: app_event_defs)

lemmas app_event_neq [simp] = app_events_distinct [simplified]

definition MAX_ALARM_RETRIES :: u8 where "MAX_ALARM_RETRIES = 2"
definition MAX_NO_CONNECTION_HEARTBEAT :: u16 where "MAX_NO_CONNECTION_HEARTBEAT = 60"
definition MINIMUM_REQUIRED_VOLTAGE :: u16 where "MINIMUM_REQUIRED_VOLTAGE = 280"

definition app_now :: "'p platform_ops \<Rightarrow> 'p app \<Rightarrow> u32" where
  "app_now ops a = rtc_get_ts (rtc_offset a) (rtc_get ops (platform a))"

definition post_event :: "'p platform_ops \<Rightarrow> u8 \<Rightarrow> 'p app_step" where
  "post_event ops ty a = do {
     ev \<leftarrow> add_event_type (app_now ops a) (app_events a) ty;
     Some (a\<lparr>app_events := ev\<rparr>)
   }"

definition send_command_response_string :: "string \<Rightarrow> 'p app \<Rightarrow> 'p app" where
  "send_command_response_string s a = a\<lparr>responses := responses a @ [s]\<rparr>"

section \<open>Heartbeat\<close>

text \<open>A period of 0 divides by zero when the timer is not 0.\<close>

definition start_heartbeat :: "u16 \<Rightarrow> 'p app_step" where
  "start_heartbeat period a =
     (if current_heartbeat a = period then Some a
      else do {
        timer \<leftarrow> (if heartbeat_timer a \<noteq> 0
                  then do { c_assert (period \<noteq> 0); Some (period - heartbeat_timer a mod period) }
                  else Some (heartbeat_timer a));
        Some (a\<lparr>heartbeat_timer := timer, current_heartbeat := period\<rparr>)
      })"

definition minute_expired_listener :: "'p platform_ops \<Rightarrow> 'p app_step" where
  "minute_expired_listener ops a = do {
     a \<leftarrow> post_event ops EVENT_ACQUIRE a;
     (if current_heartbeat a \<noteq> 0 then do {
        let a = a\<lparr>heartbeat_timer := heartbeat_timer a + 1\<rparr>;
        (if heartbeat_timer a = current_heartbeat a then do {
           a \<leftarrow> post_event ops EVENT_HEARTBEAT a;
           Some (a\<lparr>heartbeat_timer := 0\<rparr>)
         } else Some a)
      } else Some a)
   }"

definition exchange_data :: "'p platform_ops \<Rightarrow> 'p app_step" where
  "exchange_data ops = post_event ops EVENT_HEARTBEAT"

definition acquisition :: "'p platform_ops \<Rightarrow> 'p app_step" where
  "acquisition ops = post_event ops EVENT_ACQUIRE"

definition reset :: "'p platform_ops \<Rightarrow> 'p app_step" where
  "reset ops = post_event ops EVENT_RESET"

section \<open>Listeners\<close>

definition process_alarms :: "'p platform_ops \<Rightarrow> sensor_state list \<Rightarrow> u8 \<Rightarrow> 'p app_step" where
  "process_alarms ops states n a = do {
     (new_alarms_present, t) \<leftarrow> check_sensor_alarm_updates (app_sensors a) states n;
     let a = a\<lparr>app_sensors := t\<rparr>;
     (if new_alarms_present then post_event ops EVENT_ALARM (a\<lparr>sound_alarm_retries := 0\<rparr>)
      else if sensors_have_unsounded_alarms t \<and> sound_alarm_retries a < MAX_ALARM_RETRIES
      then post_event ops EVENT_ALARM (a\<lparr>sound_alarm_retries := sound_alarm_retries a + 1\<rparr>)
      else Some a)
   }"

text \<open>The values by sensor index; an unknown name is skipped.\<close>

fun collect_values :: "sensor_table \<Rightarrow> sensor_state list \<Rightarrow> c_float list \<Rightarrow> c_float list option" where
  "collect_values t [] vs = Some vs"
| "collect_values t (s # ss) vs =
     (let i = get_index_of_sensor t (state_id s) in
      if sint i < 0 then collect_values t ss vs
      else do { vs' \<leftarrow> array_set vs (unat i) (state_value s); collect_values t ss vs' })"

definition sensors_states_listener :: "'p platform_ops \<Rightarrow> sensor_state list \<Rightarrow> u8 \<Rightarrow> 'p app_step" where
  "sensors_states_listener ops states n a = do {
     ss \<leftarrow> array_prefix states (unat n);
     vs \<leftarrow> collect_values (app_sensors a) ss
            (replicate NUMBER_OF_SENSORS (Finite (of_int SENSOR_VALUE_NOT_SET)));
     (if \<exists>v \<in> set vs. \<not> float_eq_int v SENSOR_VALUE_NOT_SET then do {
        rb \<leftarrow> store_sensor_readings (app_now ops a) (app_readings a) vs;
        process_alarms ops states n (a\<lparr>app_readings := rb\<rparr>)
      } else Some a)
   }"

definition battery_voltage_listener :: "u16 \<Rightarrow> 'p app \<Rightarrow> 'p app" where
  "battery_voltage_listener voltage a =
     (if battery_voltage a = 0 \<or> voltage < battery_voltage a then a\<lparr>battery_voltage := voltage\<rparr> else a)"

definition usb_state_change_listener :: "'p platform_ops \<Rightarrow> bool \<Rightarrow> 'p app_step" where
  "usb_state_change_listener ops usb_state =
     post_event ops (if usb_state then EVENT_USB_CONNECTED else EVENT_USB_DISCONNECTED)"

fun post_commands_received :: "'p platform_ops \<Rightarrow> string \<Rightarrow> 'p app_step" where
  "post_commands_received ops [] a = Some a"
| "post_commands_received ops (c # cs) a = do {
     a \<leftarrow> (if c = COMMAND_TERMINATOR then post_event ops EVENT_COMMAND_RECEIVED a else Some a);
     post_commands_received ops cs a
   }"

definition command_data_listener :: "'p platform_ops \<Rightarrow> string \<Rightarrow> u16 \<Rightarrow> 'p app_step" where
  "command_data_listener ops data len a = do {
     (_, b) \<leftarrow> circular_buffer_add_array (app_command_string a) data len;
     cs \<leftarrow> array_prefix data (unat len);
     post_commands_received ops cs (a\<lparr>app_command_string := b\<rparr>)
   }"

end
