(* ===== verification/Commands.thy ===== *)
theory Commands
  imports App_State
begin

text \<open>
  The execution of a parsed command (\<open>SDK/core/commands.c\<close>): it changes the configuration, writes
  it to the EEPROM, triggers the application and prints the answer into the response buffer.
  The answer \<open>STATUS\<close> needs is the argument \<open>status\<close>, which the application computes.

  \<open>device_id\<close> and the other character arrays have fixed lengths; \<open>strncpy\<close> fills them without a NUL
  when the argument is too long, and a later \<open>%s\<close> is then undefined.
\<close>

section \<open>Reading the argument\<close>

text \<open>The string member; its length is defined only when it ends inside the 64 characters.\<close>

fun string_member :: "command_argument \<Rightarrow> string option" where
  "string_member (StringArgument s) = Some s"
| "string_member ZeroArgument = Some []"
| "string_member _ = None"

definition string_value :: "command_argument \<Rightarrow> string option" where
  "string_value a = do {
     s \<leftarrow> string_member a;
     c_assert (length s < COMMAND_ARGUMENT_MAX_LENGTH);
     Some s
   }"

fun uint32_member :: "command_argument \<Rightarrow> u32 option" where
  "uint32_member (UInt32Argument w) = Some w"
| "uint32_member ZeroArgument = Some 0"
| "uint32_member _ = None"

fun bool_member :: "command_argument \<Rightarrow> bool option" where
  "bool_member (BoolArgument b) = Some b"
| "bool_member (UInt16Argument w) = Some (unat w mod 256 \<noteq> 0)"
| "bool_member ZeroArgument = Some False"
| "bool_member _ = None"

fun uint16_member :: "command_argument \<Rightarrow> u16 option" where
  "uint16_member (UInt16Argument w) = Some w"
| "uint16_member ZeroArgument = Some 0"
| "uint16_member _ = None"

fun float_member :: "command_argument \<Rightarrow> rat option" where
  "float_member (FloatArgument q) = Some q"
| "float_member ZeroArgument = Some 0"
| "float_member _ = None"

fun alarms_member :: "command_argument \<Rightarrow> sensor_alarms list option" where
  "alarms_member (AlarmsArgument as) = Some as"
| "alarms_member _ = None"

definition c_strncpy :: "nat \<Rightarrow> string \<Rightarrow> string" where
  "c_strncpy n s = take n (s @ replicate n NUL)"

definition c_strcpy :: "string \<Rightarrow> string \<Rightarrow> string option" where
  "c_strcpy dst s = do {
     c_assert (length s < length dst);
     Some (s @ NUL # drop (length s + 1) dst)
   }"

section \<open>Shorthands of the handlers\<close>

datatype command_execution_result =
    COMMAND_EXECUTED_SUCCESSFULLY | COMMAND_EXECUTED_PARTIALLY | COMMAND_EXECUTION_ERROR

type_synonym 'p command_step = "(command_execution_result \<times> command \<times> 'p app) option"

definition respond :: "(char_buffer \<Rightarrow> char_buffer option) \<Rightarrow> 'p app_step" where
  "respond f a = do { b \<leftarrow> f (app_response a); Some (a\<lparr>app_response := b\<rparr>) }"

definition finished :: "command \<Rightarrow> 'p app option \<Rightarrow> 'p command_step" where
  "finished c r = map_option (\<lambda>a. (COMMAND_EXECUTED_SUCCESSFULLY, c, a)) r"

definition write_config :: "'p platform_ops \<Rightarrow> cfg_t \<Rightarrow> cfg_value \<Rightarrow> 'p app \<Rightarrow> 'p app" where
  "write_config ops k v a = a\<lparr>platform := config_write ops k v (platform a)\<rparr>"

definition set_config :: "(config \<Rightarrow> config) \<Rightarrow> 'p app \<Rightarrow> 'p app" where
  "set_config f a = a\<lparr>app_config := f (app_config a)\<rparr>"

text \<open>Calling a function pointer of the platform: checked for null, or not.\<close>

definition call_if_set :: "('p \<Rightarrow> 'p option) option \<Rightarrow> 'p app_step" where
  "call_if_set f a = (case f of None \<Rightarrow> Some a
     | Some g \<Rightarrow> do { p \<leftarrow> g (platform a); Some (a\<lparr>platform := p\<rparr>) })"

definition call_unchecked :: "('p \<Rightarrow> 'p option) option \<Rightarrow> 'p app_step" where
  "call_unchecked f a = do { g \<leftarrow> f; p \<leftarrow> g (platform a); Some (a\<lparr>platform := p\<rparr>) }"

definition disconnect_if_static_ip :: "'p platform_ops \<Rightarrow> 'p app_step" where
  "disconnect_if_static_ip ops a =
     (case (is_static_ip_set ops, wifi_disconnect_and_wait ops) of
        (Some q, Some g) \<Rightarrow>
          if q (platform a) then do { p \<leftarrow> g (platform a); Some (a\<lparr>platform := p\<rparr>) } else Some a
      | _ \<Rightarrow> Some a)"

section \<open>The handlers\<close>

definition cmd_now :: "'p platform_ops \<Rightarrow> command \<Rightarrow> 'p app \<Rightarrow> 'p command_step" where
  "cmd_now ops c a = finished c (do { a \<leftarrow> respond append_done a; exchange_data ops a })"

definition cmd_reload :: "'p platform_ops \<Rightarrow> command \<Rightarrow> 'p app \<Rightarrow> 'p command_step" where
  "cmd_reload ops c a = finished c (do { a \<leftarrow> respond append_done a; reset ops a })"

definition cmd_acquisition :: "'p platform_ops \<Rightarrow> command \<Rightarrow> 'p app \<Rightarrow> 'p command_step" where
  "cmd_acquisition ops c a = finished c (do { a \<leftarrow> respond append_done a; acquisition ops a })"

definition cmd_heartbeat :: "'p platform_ops \<Rightarrow> command \<Rightarrow> 'p app \<Rightarrow> 'p command_step" where
  "cmd_heartbeat ops c a = finished c (do {
     w \<leftarrow> (if command_has_argument c then uint32_member (command_arg c) else Some 0);
     (if command_has_argument c \<and> ucast (cfg_system_heartbeat (app_config a)) \<noteq> w then
        (if w > ucast MAX_NO_CONNECTION_HEARTBEAT then respond append_bad_request a
         else do {
           let a = set_config (\<lambda>k. k\<lparr>cfg_system_heartbeat := ucast w\<rparr>) a;
           let a = write_config ops CFG_SYSTEM_HEARTBEAT (CfgU16 (ucast w)) a;
           a \<leftarrow> start_heartbeat (cfg_system_heartbeat (app_config a)) a;
           respond (append_heartbeat (app_config a)) a
         })
      else respond (append_heartbeat (app_config a)) a)
   })"

definition cmd_rtc :: "'p platform_ops \<Rightarrow> command \<Rightarrow> 'p app \<Rightarrow> 'p command_step" where
  "cmd_rtc ops c a = finished c (do {
     a \<leftarrow> (if command_has_argument c then do {
              w \<leftarrow> uint32_member (command_arg c);
              Some (a\<lparr>rtc_offset := rtc_set w (rtc_get ops (platform a))\<rparr>)
            } else Some a);
     respond (append_rtc (app_now ops a)) a
   })"

text \<open>The null check is on \<open>start_heartbeat\<close>, but both pointers are set together.\<close>

definition cmd_status :: "string \<Rightarrow> command \<Rightarrow> 'p app \<Rightarrow> 'p command_step" where
  "cmd_status status c a = finished c (respond (append_status status) a)"

definition cmd_version :: "command \<Rightarrow> 'p app \<Rightarrow> 'p command_step" where
  "cmd_version c a = finished c (respond (append_version ''4.3.6'') a)"

definition cmd_id :: "'p platform_ops \<Rightarrow> command \<Rightarrow> 'p app \<Rightarrow> 'p command_step" where
  "cmd_id ops c a = finished c
     (if command_has_argument c then
        (if hd (cfg_device_id (app_config a)) = NUL then do {
           s \<leftarrow> string_member (command_arg c);
           let v = c_strncpy 30 s;
           let a = write_config ops CFG_DEVICE_ID (CfgString v) (set_config (\<lambda>k. k\<lparr>cfg_device_id := v\<rparr>) a);
           respond (append_id (app_config a)) a
         }
         else respond append_bad_request a)
      else respond (append_id (app_config a)) a)"

definition cmd_signature :: "'p platform_ops \<Rightarrow> command \<Rightarrow> 'p app \<Rightarrow> 'p command_step" where
  "cmd_signature ops c a = finished c
     (if command_has_argument c then
        (if hd (cfg_device_preshared_key (app_config a)) = NUL then do {
           s \<leftarrow> string_member (command_arg c);
           let v = c_strncpy 30 s;
           let a = write_config ops CFG_DEVICE_PRESHARED_KEY (CfgString v)
                     (set_config (\<lambda>k. k\<lparr>cfg_device_preshared_key := v\<rparr>) a);
           respond (append_signature (app_config a)) a
         }
         else respond append_bad_request a)
      else respond (append_signature (app_config a)) a)"

definition cmd_movement :: "'p platform_ops \<Rightarrow> command \<Rightarrow> 'p app \<Rightarrow> 'p command_step" where
  "cmd_movement ops c a = finished c (do {
     b \<leftarrow> (if command_has_argument c then bool_member (command_arg c) else Some False);
     let a = (if command_has_argument c \<and> cfg_movement_status (app_config a) \<noteq> b then
                let a = write_config ops CFG_MOVEMENT (CfgBool b)
                          (set_config (\<lambda>k. k\<lparr>cfg_movement_status := b\<rparr>) a)
                in a\<lparr>platform := (if b then enable_movement ops else disable_movement ops) (platform a)\<rparr>
              else a);
     respond (append_movement_enabled (app_config a)) a
   })"

definition cmd_atmo :: "'p platform_ops \<Rightarrow> command \<Rightarrow> 'p app \<Rightarrow> 'p command_step" where
  "cmd_atmo ops c a = finished c (do {
     b \<leftarrow> (if command_has_argument c then bool_member (command_arg c) else Some False);
     let a = (if command_has_argument c \<and> cfg_atmo_status (app_config a) \<noteq> b
              then write_config ops CFG_ATMO (CfgBool b) (set_config (\<lambda>k. k\<lparr>cfg_atmo_status := b\<rparr>) a)
              else a);
     respond (append_atmo_enabled (app_config a)) a
   })"

definition cmd_location :: "'p platform_ops \<Rightarrow> command \<Rightarrow> 'p app \<Rightarrow> 'p command_step" where
  "cmd_location ops c a = finished c (do {
     b \<leftarrow> (if command_has_argument c then bool_member (command_arg c) else Some False);
     let a = (if command_has_argument c \<and> cfg_location (app_config a) \<noteq> b
              then write_config ops CFG_LOCATION (CfgBool b) (set_config (\<lambda>k. k\<lparr>cfg_location := b\<rparr>) a)
              else a);
     respond (append_location_status (cfg_location (app_config a))) a
   })"

definition cmd_ssl :: "'p platform_ops \<Rightarrow> command \<Rightarrow> 'p app \<Rightarrow> 'p command_step" where
  "cmd_ssl ops c a = finished c (do {
     b \<leftarrow> (if command_has_argument c then bool_member (command_arg c) else Some False);
     let a = (if command_has_argument c \<and> cfg_ssl (app_config a) \<noteq> b
              then write_config ops CFG_SSL (CfgBool b) (set_config (\<lambda>k. k\<lparr>cfg_ssl := b\<rparr>) a)
              else a);
     respond (append_ssl_status (cfg_ssl (app_config a))) a
   })"

text \<open>
  \<open>SYSTEM\<close> and \<open>READINGS\<close> count in the argument what was sent so far and return
  \<open>COMMAND_EXECUTED_PARTIALLY\<close> until everything is.
\<close>

definition cmd_system :: "'p platform_ops \<Rightarrow> command \<Rightarrow> 'p app \<Rightarrow> 'p command_step" where
  "cmd_system ops c a = do {
     clear \<leftarrow> (if command_has_argument c then bool_member (command_arg c) else Some False);
     (start, a) \<leftarrow> (if clear then do { b \<leftarrow> system_buffer_clear (app_system a); Some (0, a\<lparr>app_system := b\<rparr>) }
                    else do { n \<leftarrow> uint16_member (command_arg c); Some (n, a) });
     (n, b) \<leftarrow> append_system_info (print_platform_error ops) (app_system a) start (app_response a) True;
     let c = c\<lparr>command_arg := UInt16Argument (start + n)\<rparr>;
     Some (if start + n = circular_buffer_size (app_system a)
           then COMMAND_EXECUTED_SUCCESSFULLY else COMMAND_EXECUTED_PARTIALLY,
           c, a\<lparr>app_response := b\<rparr>)
   }"

definition cmd_readings :: "'p platform_ops \<Rightarrow> command \<Rightarrow> 'p app \<Rightarrow> 'p command_step" where
  "cmd_readings ops c a = do {
     clear \<leftarrow> (if command_has_argument c then bool_member (command_arg c) else Some False);
     (start, a) \<leftarrow> (if clear then do { b \<leftarrow> sensor_readings_buffer_clear (app_readings a);
                                        Some (0, a\<lparr>app_readings := b\<rparr>) }
                    else do { n \<leftarrow> uint16_member (command_arg c); Some (n, a) });
     (n, b) \<leftarrow> append_sensor_readings (print_float ops) (sensors (app_sensors a)) (app_readings a) start
                 (app_response a) True;
     let c = c\<lparr>command_arg := UInt16Argument (start + n)\<rparr>;
     Some (if start + n = circular_buffer_size (app_readings a)
           then COMMAND_EXECUTED_SUCCESSFULLY else COMMAND_EXECUTED_PARTIALLY,
           c, a\<lparr>app_response := b\<rparr>)
   }"

definition cmd_alarm :: "command \<Rightarrow> 'p app \<Rightarrow> 'p command_step" where
  "cmd_alarm c a = finished c (do {
     a \<leftarrow> (if command_has_argument c then do {
              alarms \<leftarrow> alarms_member (command_arg c);
              Some (a\<lparr>app_sensors := (app_sensors a)\<lparr>sensors_alarms := alarms\<rparr>\<rparr>)
            } else Some a);
     respond (\<lambda>b. map_option snd (append_alarms (app_sensors a) b)) a
   })"

definition cmd_mac :: "command \<Rightarrow> 'p app \<Rightarrow> 'p command_step" where
  "cmd_mac c a = finished c (respond (append_mac_address (cfg_mac_address (app_config a))) a)"

definition cmd_url :: "'p platform_ops \<Rightarrow> command \<Rightarrow> 'p app \<Rightarrow> 'p command_step" where
  "cmd_url ops c a = finished c
     (if command_has_argument c then do {
        s \<leftarrow> string_value (command_arg c);
        (if length s > 29 then respond append_bad_request a
         else do {
           let v = c_strncpy 30 s;
           let a = set_config (\<lambda>k. k\<lparr>cfg_hostname := v, cfg_server_ip := v\<rparr>) a;
           a \<leftarrow> call_if_set (close_socket_and_wait ops) (write_config ops CFG_SERVER_IP (CfgString v) a);
           respond (append_url (app_config a)) a
         })
      } else respond (append_url (app_config a)) a)"

definition cmd_port :: "'p platform_ops \<Rightarrow> command \<Rightarrow> 'p app \<Rightarrow> 'p command_step" where
  "cmd_port ops c a = finished c
     (if command_has_argument c then do {
        w \<leftarrow> uint32_member (command_arg c);
        (if w > 65535 then respond append_bad_request a
         else do {
           let a = set_config (\<lambda>k. k\<lparr>cfg_server_port := ucast w\<rparr>) a;
           a \<leftarrow> call_if_set (close_socket_and_wait ops) (write_config ops CFG_SERVER_PORT (CfgU16 (ucast w)) a);
           respond (append_port (app_config a)) a
         })
      } else respond (append_port (app_config a)) a)"

definition cmd_ssid :: "'p platform_ops \<Rightarrow> command \<Rightarrow> 'p app \<Rightarrow> 'p command_step" where
  "cmd_ssid ops c a = finished c
     (if command_has_argument c then do {
        s \<leftarrow> string_member (command_arg c);
        r \<leftarrow> (if s = ''NULL'' then Some (Some (replicate 33 NUL))
              else do { s \<leftarrow> string_value (command_arg c);
                        Some (if length s > 32 then None else Some (c_strncpy 33 s)) });
        (case r of
           None \<Rightarrow> respond append_bad_request a
         | Some v \<Rightarrow> do {
             let a = write_config ops CFG_WIFI_SSID (CfgString v) (set_config (\<lambda>k. k\<lparr>cfg_wifi_ssid := v\<rparr>) a);
             a \<leftarrow> call_if_set (wifi_disconnect_and_wait ops) a;
             respond (append_ssid (app_config a)) a
           })
      } else respond (append_ssid (app_config a)) a)"

definition cmd_pass :: "'p platform_ops \<Rightarrow> command \<Rightarrow> 'p app \<Rightarrow> 'p command_step" where
  "cmd_pass ops c a = finished c
     (if command_has_argument c then do {
        s \<leftarrow> string_member (command_arg c);
        r \<leftarrow> (if s = ''NULL'' then Some (Some (replicate 64 NUL))
              else do {
                s \<leftarrow> string_value (command_arg c);
                Some (if length s > 63 then None
                      else if ucast (cfg_wifi_auth_type (app_config a)) = WIFI_SECURITY_WEP \<and>
                              (length s < 10 \<or> length s > 26 \<or> \<not> is_string_hex s) then None
                      else Some (c_strncpy 64 s)) });
        (case r of
           None \<Rightarrow> respond append_bad_request a
         | Some v \<Rightarrow> do {
             let a = write_config ops CFG_WIFI_PASS (CfgString v)
                       (set_config (\<lambda>k. k\<lparr>cfg_wifi_password := v\<rparr>) a);
             a \<leftarrow> call_if_set (wifi_disconnect_and_wait ops) a;
             respond (append_pass (app_config a)) a
           })
      } else respond (append_pass (app_config a)) a)"

definition cmd_auth :: "'p platform_ops \<Rightarrow> command \<Rightarrow> 'p app \<Rightarrow> 'p command_step" where
  "cmd_auth ops c a = finished c (do {
     a \<leftarrow> (if command_has_argument c then do {
              w \<leftarrow> uint32_member (command_arg c);
              let a = set_config (\<lambda>k. k\<lparr>cfg_wifi_auth_type := ucast w\<rparr>) a;
              call_if_set (wifi_disconnect_and_wait ops) (write_config ops CFG_WIFI_AUTH (CfgU8 (ucast w)) a)
            } else Some a);
     respond (append_auth (tmp_contents ops) (app_config a)) a
   })"

definition cmd_static_ip :: "'p platform_ops \<Rightarrow> command \<Rightarrow> 'p app \<Rightarrow> 'p command_step" where
  "cmd_static_ip ops c a = finished c (do {
     a \<leftarrow> (if command_has_argument c then do {
              s \<leftarrow> string_member (command_arg c);
              (if s = ''OFF'' then do {
                 let z = replicate 30 NUL;
                 let a = write_config ops CFG_WIFI_STATIC_IP (CfgString z)
                           (set_config (\<lambda>k. k\<lparr>cfg_wifi_static_ip := z\<rparr>) a);
                 let a = write_config ops CFG_WIFI_STATIC_MASK (CfgString z)
                           (set_config (\<lambda>k. k\<lparr>cfg_wifi_static_mask := z\<rparr>) a);
                 let a = write_config ops CFG_WIFI_STATIC_GATEWAY (CfgString z)
                           (set_config (\<lambda>k. k\<lparr>cfg_wifi_static_gateway := z\<rparr>) a);
                 let a = write_config ops CFG_WIFI_STATIC_DNS (CfgString z)
                           (set_config (\<lambda>k. k\<lparr>cfg_wifi_static_dns := z\<rparr>) a);
                 call_unchecked (wifi_disconnect_and_wait ops) a
               } else do {
                 s \<leftarrow> string_value (command_arg c);
                 v \<leftarrow> c_strcpy (cfg_wifi_static_ip (app_config a)) s;
                 disconnect_if_static_ip ops
                   (write_config ops CFG_WIFI_STATIC_IP (CfgString v)
                      (set_config (\<lambda>k. k\<lparr>cfg_wifi_static_ip := v\<rparr>) a))
               })
            } else Some a);
     respond (append_static_ip (app_config a)) a
   })"

definition cmd_static_mask :: "'p platform_ops \<Rightarrow> command \<Rightarrow> 'p app \<Rightarrow> 'p command_step" where
  "cmd_static_mask ops c a = finished c (do {
     a \<leftarrow> (if command_has_argument c then do {
              s \<leftarrow> string_value (command_arg c);
              v \<leftarrow> c_strcpy (cfg_wifi_static_mask (app_config a)) s;
              disconnect_if_static_ip ops
                (write_config ops CFG_WIFI_STATIC_MASK (CfgString v)
                   (set_config (\<lambda>k. k\<lparr>cfg_wifi_static_mask := v\<rparr>) a))
            } else Some a);
     respond (append_static_mask (app_config a)) a
   })"

definition cmd_static_gateway :: "'p platform_ops \<Rightarrow> command \<Rightarrow> 'p app \<Rightarrow> 'p command_step" where
  "cmd_static_gateway ops c a = finished c (do {
     a \<leftarrow> (if command_has_argument c then do {
              s \<leftarrow> string_value (command_arg c);
              v \<leftarrow> c_strcpy (cfg_wifi_static_gateway (app_config a)) s;
              disconnect_if_static_ip ops
                (write_config ops CFG_WIFI_STATIC_GATEWAY (CfgString v)
                   (set_config (\<lambda>k. k\<lparr>cfg_wifi_static_gateway := v\<rparr>) a))
            } else Some a);
     respond (append_static_gateway (app_config a)) a
   })"

definition cmd_static_dns :: "'p platform_ops \<Rightarrow> command \<Rightarrow> 'p app \<Rightarrow> 'p command_step" where
  "cmd_static_dns ops c a = finished c (do {
     a \<leftarrow> (if command_has_argument c then do {
              s \<leftarrow> string_value (command_arg c);
              v \<leftarrow> c_strcpy (cfg_wifi_static_dns (app_config a)) s;
              disconnect_if_static_ip ops
                (write_config ops CFG_WIFI_STATIC_DNS (CfgString v)
                   (set_config (\<lambda>k. k\<lparr>cfg_wifi_static_dns := v\<rparr>) a))
            } else Some a);
     respond (append_static_dns (app_config a)) a
   })"

text \<open>The firmware never sets the two actuator pointers, so \<open>SET\<close> only answers.\<close>

definition cmd_set :: "command \<Rightarrow> 'p app \<Rightarrow> 'p command_step" where
  "cmd_set c a = finished c (respond append_done a)"

section \<open>Offsets\<close>

text \<open>
  \<open>!x\<close> on a float.  A factory offset is recorded once: element \<open>k\<close> holds the offset and element
  \<open>flag\<close> the mark that it was set; \<open>atmo_offset_factory\<close> has five elements.
\<close>

definition float_is_zero :: "c_float \<Rightarrow> bool" where
  "float_is_zero v \<longleftrightarrow> v = Finite 0"

definition set_offset :: "'p platform_ops \<Rightarrow> nat \<Rightarrow> nat \<Rightarrow> rat \<Rightarrow> 'p app_step" where
  "set_offset ops k flag q a = do {
     f0 \<leftarrow> array_get (cfg_atmo_offset_factory (app_config a)) k;
     a \<leftarrow> (if float_is_zero f0 then do {
              m \<leftarrow> array_get (cfg_atmo_offset_factory (app_config a)) flag;
              (if float_is_zero m then do {
                 f \<leftarrow> array_set (cfg_atmo_offset_factory (app_config a)) flag (Finite 1);
                 f \<leftarrow> array_set f k (Finite q);
                 Some (write_config ops CFG_OFFSET_FACTORY (CfgFloats f)
                         (set_config (\<lambda>c. c\<lparr>cfg_atmo_offset_factory := f\<rparr>) a))
               } else Some a)
            } else Some a);
     os \<leftarrow> array_set (cfg_atmo_offset (app_config a)) k (Finite q);
     Some (write_config ops CFG_OFFSET (CfgFloats os) (set_config (\<lambda>c. c\<lparr>cfg_atmo_offset := os\<rparr>) a))
   }"

definition cmd_temp_offset :: "'p platform_ops \<Rightarrow> command \<Rightarrow> 'p app \<Rightarrow> 'p command_step" where
  "cmd_temp_offset ops c a = finished c
     (if command_has_argument c then do {
        q \<leftarrow> float_member (command_arg c);
        (if q > 37/10 \<or> q < -2 then respond append_bad_request a
         else do {
           a \<leftarrow> set_offset ops 0 3 q a;
           respond (append_temp_offset (print_float ops) (app_config a)) a
         })
      } else respond (append_temp_offset (print_float ops) (app_config a)) a)"

definition cmd_humidity_offset :: "'p platform_ops \<Rightarrow> command \<Rightarrow> 'p app \<Rightarrow> 'p command_step" where
  "cmd_humidity_offset ops c a = finished c
     (if command_has_argument c then do {
        q \<leftarrow> float_member (command_arg c);
        (if q > 3 \<or> q < -3 then respond append_bad_request a
         else do {
           a \<leftarrow> set_offset ops 2 4 q a;
           respond (append_humidity_offset (print_float ops) (app_config a)) a
         })
      } else respond (append_humidity_offset (print_float ops) (app_config a)) a)"

definition cmd_pressure_offset :: "'p platform_ops \<Rightarrow> command \<Rightarrow> 'p app \<Rightarrow> 'p command_step" where
  "cmd_pressure_offset ops c a = finished c
     (if command_has_argument c then do {
        q \<leftarrow> float_member (command_arg c);
        (if q > 10 \<or> q < -10 then respond append_bad_request a
         else do {
           a \<leftarrow> set_offset ops 1 5 q a;
           respond (append_pressure_offset (print_float ops) (app_config a)) a
         })
      } else respond (append_pressure_offset (print_float ops) (app_config a)) a)"

definition cmd_offset_factory :: "'p platform_ops \<Rightarrow> command \<Rightarrow> 'p app \<Rightarrow> 'p command_step" where
  "cmd_offset_factory ops c a = finished c (do {
     s \<leftarrow> string_member (command_arg c);
     (if command_has_argument c \<and> s \<noteq> ''RESET'' then respond append_bad_request a
      else do {
        a \<leftarrow> (if command_has_argument c then do {
                 f0 \<leftarrow> array_get (cfg_atmo_offset_factory (app_config a)) 0;
                 f1 \<leftarrow> array_get (cfg_atmo_offset_factory (app_config a)) 1;
                 f2 \<leftarrow> array_get (cfg_atmo_offset_factory (app_config a)) 2;
                 let os = [f0, f1, f2];
                 Some (write_config ops CFG_OFFSET (CfgFloats os)
                         (set_config (\<lambda>c. c\<lparr>cfg_atmo_offset := os\<rparr>) a))
               } else Some a);
        respond (append_offset_factory (print_float ops) (app_config a) s) a
      })
   })"

section \<open>Dispatch\<close>

fun execute_command_type ::
  "'p platform_ops \<Rightarrow> string \<Rightarrow> commands_t \<Rightarrow> command \<Rightarrow> 'p app \<Rightarrow> 'p command_step" where
  "execute_command_type ops status COMMAND_MAC c a = cmd_mac c a"
| "execute_command_type ops status COMMAND_NOW c a = cmd_now ops c a"
| "execute_command_type ops status COMMAND_RELOAD c a = cmd_reload ops c a"
| "execute_command_type ops status COMMAND_HEARTBEAT c a = cmd_heartbeat ops c a"
| "execute_command_type ops status COMMAND_RTC c a = cmd_rtc ops c a"
| "execute_command_type ops status COMMAND_VERSION c a = cmd_version c a"
| "execute_command_type ops status COMMAND_STATUS c a = cmd_status status c a"
| "execute_command_type ops status COMMAND_READINGS c a = cmd_readings ops c a"
| "execute_command_type ops status COMMAND_ID c a = cmd_id ops c a"
| "execute_command_type ops status COMMAND_SIGNATURE c a = cmd_signature ops c a"
| "execute_command_type ops status COMMAND_URL c a = cmd_url ops c a"
| "execute_command_type ops status COMMAND_PORT c a = cmd_port ops c a"
| "execute_command_type ops status COMMAND_SSID c a = cmd_ssid ops c a"
| "execute_command_type ops status COMMAND_PASS c a = cmd_pass ops c a"
| "execute_command_type ops status COMMAND_AUTH c a = cmd_auth ops c a"
| "execute_command_type ops status COMMAND_MOVEMENT c a = cmd_movement ops c a"
| "execute_command_type ops status COMMAND_ATMO c a = cmd_atmo ops c a"
| "execute_command_type ops status COMMAND_SYSTEM c a = cmd_system ops c a"
| "execute_command_type ops status COMMAND_STATIC_IP c a = cmd_static_ip ops c a"
| "execute_command_type ops status COMMAND_STATIC_MASK c a = cmd_static_mask ops c a"
| "execute_command_type ops status COMMAND_STATIC_GATEWAY c a = cmd_static_gateway ops c a"
| "execute_command_type ops status COMMAND_STATIC_DNS c a = cmd_static_dns ops c a"
| "execute_command_type ops status COMMAND_ALARM c a = cmd_alarm c a"
| "execute_command_type ops status COMMAND_SET c a = cmd_set c a"
| "execute_command_type ops status COMMAND_LOCATION c a = cmd_location ops c a"
| "execute_command_type ops status COMMAND_SSL c a = cmd_ssl ops c a"
| "execute_command_type ops status COMMAND_TEMP_OFFSET c a = cmd_temp_offset ops c a"
| "execute_command_type ops status COMMAND_HUMIDITY_OFFSET c a = cmd_humidity_offset ops c a"
| "execute_command_type ops status COMMAND_PRESSURE_OFFSET c a = cmd_pressure_offset ops c a"
| "execute_command_type ops status COMMAND_OFFSET_FACTORY c a = cmd_offset_factory ops c a"
| "execute_command_type ops status COMMAND_ACQUISITION c a = cmd_acquisition ops c a"
| "execute_command_type ops status _ c a = finished c (respond append_bad_request a)"

definition execute_command :: "'p platform_ops \<Rightarrow> string \<Rightarrow> command \<Rightarrow> 'p app \<Rightarrow> 'p command_step" where
  "execute_command ops status c a = execute_command_type ops status (command_type c) c a"

end
