(* ===== verification/Config.thy ===== *)
theory Config
  imports App_State
begin

text \<open>
  Loading the configuration variables from the EEPROM at start (\<open>SDK/core/config.c\<close>).  Each
  function takes the stored value when \<open>config_read\<close> finds one and a default otherwise, and
  returns which of the two it was.  \<open>config_read\<close> delivers a value of the variable's type.
\<close>

section \<open>Reading a value\<close>

definition read_string :: "'p platform_ops \<Rightarrow> cfg_t \<Rightarrow> 'p \<Rightarrow> string option" where
  "read_string ops k p = (case config_read ops k p of Some (CfgString s) \<Rightarrow> Some s | _ \<Rightarrow> None)"

definition read_u16 :: "'p platform_ops \<Rightarrow> cfg_t \<Rightarrow> 'p \<Rightarrow> u16 option" where
  "read_u16 ops k p = (case config_read ops k p of Some (CfgU16 w) \<Rightarrow> Some w | _ \<Rightarrow> None)"

definition read_u8 :: "'p platform_ops \<Rightarrow> cfg_t \<Rightarrow> 'p \<Rightarrow> u8 option" where
  "read_u8 ops k p = (case config_read ops k p of Some (CfgU8 w) \<Rightarrow> Some w | _ \<Rightarrow> None)"

definition read_bool :: "'p platform_ops \<Rightarrow> cfg_t \<Rightarrow> 'p \<Rightarrow> bool option" where
  "read_bool ops k p = (case config_read ops k p of Some (CfgBool b) \<Rightarrow> Some b | _ \<Rightarrow> None)"

definition read_bytes :: "'p platform_ops \<Rightarrow> cfg_t \<Rightarrow> 'p \<Rightarrow> u8 list option" where
  "read_bytes ops k p = (case config_read ops k p of Some (CfgBytes b) \<Rightarrow> Some b | _ \<Rightarrow> None)"

definition read_floats :: "'p platform_ops \<Rightarrow> cfg_t \<Rightarrow> 'p \<Rightarrow> c_float list option" where
  "read_floats ops k p = (case config_read ops k p of Some (CfgFloats f) \<Rightarrow> Some f | _ \<Rightarrow> None)"

definition load_var ::
  "'v option \<Rightarrow> 'v \<Rightarrow> ('v \<Rightarrow> config \<Rightarrow> config) \<Rightarrow> 'p app \<Rightarrow> bool \<times> 'p app" where
  "load_var r dflt upd a =
     (r \<noteq> None, a\<lparr>app_config := upd (case r of None \<Rightarrow> dflt | Some v \<Rightarrow> v) (app_config a)\<rparr>)"

section \<open>The loaders\<close>

definition load_device_id :: "'p platform_ops \<Rightarrow> 'p app \<Rightarrow> bool \<times> 'p app" where
  "load_device_id ops a = load_var (read_string ops CFG_DEVICE_ID (platform a)) (replicate 30 NUL)
     (\<lambda>v c. c\<lparr>cfg_device_id := v\<rparr>) a"

definition load_device_preshared_key :: "'p platform_ops \<Rightarrow> 'p app \<Rightarrow> bool \<times> 'p app" where
  "load_device_preshared_key ops a =
     load_var (read_string ops CFG_DEVICE_PRESHARED_KEY (platform a)) (replicate 30 NUL)
     (\<lambda>v c. c\<lparr>cfg_device_preshared_key := v\<rparr>) a"

definition load_system_heartbeat :: "'p platform_ops \<Rightarrow> 'p app \<Rightarrow> bool \<times> 'p app" where
  "load_system_heartbeat ops a = load_var (read_u16 ops CFG_SYSTEM_HEARTBEAT (platform a)) 10
     (\<lambda>v c. c\<lparr>cfg_system_heartbeat := v\<rparr>) a"

definition load_wifi_ssid :: "'p platform_ops \<Rightarrow> 'p app \<Rightarrow> bool \<times> 'p app" where
  "load_wifi_ssid ops a = load_var (read_string ops CFG_WIFI_SSID (platform a)) (replicate 33 NUL)
     (\<lambda>v c. c\<lparr>cfg_wifi_ssid := v\<rparr>) a"

definition load_wifi_password :: "'p platform_ops \<Rightarrow> 'p app \<Rightarrow> bool \<times> 'p app" where
  "load_wifi_password ops a = load_var (read_string ops CFG_WIFI_PASS (platform a)) (replicate 64 NUL)
     (\<lambda>v c. c\<lparr>cfg_wifi_password := v\<rparr>) a"

definition load_wifi_auth_type :: "'p platform_ops \<Rightarrow> 'p app \<Rightarrow> bool \<times> 'p app" where
  "load_wifi_auth_type ops a = load_var (read_u8 ops CFG_WIFI_AUTH (platform a)) 0
     (\<lambda>v c. c\<lparr>cfg_wifi_auth_type := v\<rparr>) a"

definition load_wifi_static_ip :: "'p platform_ops \<Rightarrow> 'p app \<Rightarrow> bool \<times> 'p app" where
  "load_wifi_static_ip ops a = load_var (read_string ops CFG_WIFI_STATIC_IP (platform a)) (replicate 30 NUL)
     (\<lambda>v c. c\<lparr>cfg_wifi_static_ip := v\<rparr>) a"

definition load_wifi_static_mask :: "'p platform_ops \<Rightarrow> 'p app \<Rightarrow> bool \<times> 'p app" where
  "load_wifi_static_mask ops a = load_var (read_string ops CFG_WIFI_STATIC_MASK (platform a)) (replicate 30 NUL)
     (\<lambda>v c. c\<lparr>cfg_wifi_static_mask := v\<rparr>) a"

definition load_wifi_static_gateway :: "'p platform_ops \<Rightarrow> 'p app \<Rightarrow> bool \<times> 'p app" where
  "load_wifi_static_gateway ops a =
     load_var (read_string ops CFG_WIFI_STATIC_GATEWAY (platform a)) (replicate 30 NUL)
     (\<lambda>v c. c\<lparr>cfg_wifi_static_gateway := v\<rparr>) a"

definition load_wifi_static_dns :: "'p platform_ops \<Rightarrow> 'p app \<Rightarrow> bool \<times> 'p app" where
  "load_wifi_static_dns ops a = load_var (read_string ops CFG_WIFI_STATIC_DNS (platform a)) (replicate 30 NUL)
     (\<lambda>v c. c\<lparr>cfg_wifi_static_dns := v\<rparr>) a"

definition load_wifi_mac_address :: "'p platform_ops \<Rightarrow> 'p app \<Rightarrow> bool \<times> 'p app" where
  "load_wifi_mac_address ops a = load_var (read_bytes ops CFG_MAC (platform a)) (replicate 6 0)
     (\<lambda>v c. c\<lparr>cfg_mac_address := v\<rparr>) a"

definition load_server_ip :: "'p platform_ops \<Rightarrow> 'p app \<Rightarrow> bool \<times> 'p app" where
  "load_server_ip ops a = load_var (read_string ops CFG_SERVER_IP (platform a)) (replicate 30 NUL)
     (\<lambda>v c. c\<lparr>cfg_hostname := v\<rparr>) a"

definition load_server_port :: "'p platform_ops \<Rightarrow> 'p app \<Rightarrow> bool \<times> 'p app" where
  "load_server_port ops a = load_var (read_u16 ops CFG_SERVER_PORT (platform a)) 8883
     (\<lambda>v c. c\<lparr>cfg_server_port := v\<rparr>) a"

definition load_movement_status :: "'p platform_ops \<Rightarrow> 'p app \<Rightarrow> bool \<times> 'p app" where
  "load_movement_status ops a =
     (let (ok, a) = load_var (read_bool ops CFG_MOVEMENT (platform a)) False
                      (\<lambda>v c. c\<lparr>cfg_movement_status := v\<rparr>) a
      in (ok, a\<lparr>platform := (if cfg_movement_status (app_config a) then enable_movement ops
                             else disable_movement ops) (platform a)\<rparr>))"

definition load_atmo_status :: "'p platform_ops \<Rightarrow> 'p app \<Rightarrow> bool \<times> 'p app" where
  "load_atmo_status ops a = load_var (read_bool ops CFG_ATMO (platform a)) True
     (\<lambda>v c. c\<lparr>cfg_atmo_status := v\<rparr>) a"

definition load_location_status :: "'p platform_ops \<Rightarrow> 'p app \<Rightarrow> bool \<times> 'p app" where
  "load_location_status ops a = load_var (read_bool ops CFG_LOCATION (platform a)) False
     (\<lambda>v c. c\<lparr>cfg_location := v\<rparr>) a"

definition load_ssl_status :: "'p platform_ops \<Rightarrow> 'p app \<Rightarrow> bool \<times> 'p app" where
  "load_ssl_status ops a = load_var (read_bool ops CFG_SSL (platform a)) True
     (\<lambda>v c. c\<lparr>cfg_ssl := v\<rparr>) a"

definition load_mqtt_username :: "'p platform_ops \<Rightarrow> 'p app \<Rightarrow> bool \<times> 'p app" where
  "load_mqtt_username ops a = load_var (read_string ops CFG_MQTT_USERNAME (platform a)) (replicate 30 NUL)
     (\<lambda>v c. c\<lparr>cfg_mqtt_username := v\<rparr>) a"

definition load_mqtt_password :: "'p platform_ops \<Rightarrow> 'p app \<Rightarrow> bool \<times> 'p app" where
  "load_mqtt_password ops a = load_var (read_string ops CFG_MQTT_PASSWORD (platform a)) (replicate 30 NUL)
     (\<lambda>v c. c\<lparr>cfg_mqtt_password := v\<rparr>) a"

section \<open>The offsets\<close>

text \<open>A value outside its range becomes 0; a comparison with a NaN is false.\<close>

definition float_outside :: "rat \<Rightarrow> rat \<Rightarrow> c_float \<Rightarrow> bool" where
  "float_outside lo hi v = (case v of Finite q \<Rightarrow> q > hi \<or> q < lo | PosInf \<Rightarrow> True | NegInf \<Rightarrow> True
                              | NotANumber \<Rightarrow> False)"

definition bounded :: "rat \<Rightarrow> rat \<Rightarrow> c_float \<Rightarrow> c_float" where
  "bounded lo hi v = (if float_outside lo hi v then Finite 0 else v)"

definition bound_offsets :: "c_float list \<Rightarrow> c_float list" where
  "bound_offsets f = f[0 := bounded (-2) (37/10) (f ! 0), 1 := bounded (-10) 10 (f ! 1),
                       2 := bounded (-3) 3 (f ! 2)]"

definition load_offset_status :: "'p platform_ops \<Rightarrow> 'p app \<Rightarrow> bool \<times> 'p app" where
  "load_offset_status ops a =
     load_var (map_option bound_offsets (read_floats ops CFG_OFFSET (platform a))) (replicate 3 (Finite 0))
       (\<lambda>v c. c\<lparr>cfg_atmo_offset := v\<rparr>) a"

definition load_offset_factory_status :: "'p platform_ops \<Rightarrow> 'p app \<Rightarrow> bool \<times> 'p app" where
  "load_offset_factory_status ops a =
     (let zero3 = (\<lambda>f. f[0 := Finite 0, 1 := Finite 0, 2 := Finite 0]) in
      case read_floats ops CFG_OFFSET_FACTORY (platform a) of
        None \<Rightarrow> (False, a\<lparr>app_config := (app_config a)\<lparr>cfg_atmo_offset_factory :=
                            zero3 (cfg_atmo_offset_factory (app_config a))\<rparr>\<rparr>)
      | Some f \<Rightarrow>
          if \<exists>i < 3. f ! i = NotANumber
          then (False, a\<lparr>app_config := (app_config a)\<lparr>cfg_atmo_offset_factory := zero3 f\<rparr>\<rparr>)
          else (True, a\<lparr>app_config := (app_config a)\<lparr>cfg_atmo_offset_factory := bound_offsets f\<rparr>\<rparr>))"

end
