(* ===== verification/Wolksensor.thy ===== *)
theory Wolksensor
  imports Commands Config
begin

text \<open>
  The application (\<open>SDK/application/wolksensor.c\<close>): nine states that acquire sensor values,
  exchange data with the server and execute commands.  A handler is a definition with the
  transition it calls as its argument \<open>tr\<close>; \<open>app_transition\<close> ties the knot.

  The communication protocol and the communication module are the function pointers of
  \<open>communication_protocol\<close> and \<open>communication_module\<close>: starting an operation returns a handle,
  and processing a handle says whether it has to be called again.
\<close>

section \<open>States and the communication interface\<close>

definition STATE_IDLE :: nat where "STATE_IDLE = 0"
definition STATE_BROWNOUT :: nat where "STATE_BROWNOUT = 1"
definition STATE_NORMAL :: nat where "STATE_NORMAL = 2"
definition STATE_ACQUISITION :: nat where "STATE_ACQUISITION = 3"
definition STATE_DATA_EXCHANGE :: nat where "STATE_DATA_EXCHANGE = 4"
definition STATE_SEND :: nat where "STATE_SEND = 5"
definition STATE_RECEIVE :: nat where "STATE_RECEIVE = 6"
definition STATE_DISCONNECT :: nat where "STATE_DISCONNECT = 7"
definition STATE_STOP_COMMUNICATION_MODULE :: nat where "STATE_STOP_COMMUNICATION_MODULE = 8"

lemmas app_state_defs = STATE_IDLE_def STATE_BROWNOUT_def STATE_NORMAL_def STATE_ACQUISITION_def
  STATE_DATA_EXCHANGE_def STATE_SEND_def STATE_RECEIVE_def STATE_DISCONNECT_def
  STATE_STOP_COMMUNICATION_MODULE_def

record 'p comm_ops =
  comm_send :: "'p app \<Rightarrow> (nat \<times> 'p app) option"
  comm_receive :: "'p app \<Rightarrow> (nat \<times> 'p app) option"
  comm_disconnect :: "'p app \<Rightarrow> (nat \<times> 'p app) option"
  comm_process :: "nat \<Rightarrow> 'p app \<Rightarrow> (bool \<times> 'p app) option"
  comm_result :: "'p app \<Rightarrow> communication_protocol_type_data"
  module_stop :: "'p app \<Rightarrow> (nat \<times> 'p app) option"
  module_process :: "nat \<Rightarrow> 'p app \<Rightarrow> (bool \<times> 'p app) option"
  module_result :: "'p app \<Rightarrow> communication_module_type_data"

type_synonym 'p appm = "'p app machine"
type_synonym 'p step = "'p appm \<Rightarrow> 'p appm option"

definition lift_app :: "'p app_step \<Rightarrow> 'p step" where
  "lift_app f m = do { a \<leftarrow> f (world m); Some (m\<lparr>world := a\<rparr>) }"

definition post :: "'p platform_ops \<Rightarrow> u8 \<Rightarrow> 'p step" where
  "post ops ty = lift_app (post_event ops ty)"

section \<open>Commands\<close>

fun state_name :: "node \<Rightarrow> string option" where
  "state_name Root = None"
| "state_name (Node i) =
     (if i = STATE_BROWNOUT then Some ''BROWNOUT'' else if i = STATE_NORMAL then Some ''IDLE''
      else if i = STATE_ACQUISITION then Some ''ACQUISITION'' else None)"

fun parent_node :: "'w machine \<Rightarrow> node \<Rightarrow> node option" where
  "parent_node m Root = None"
| "parent_node m (Node i) = Some (state_parent m ! i)"

partial_function (option) innermost :: "'w machine \<Rightarrow> node \<Rightarrow> node option" where
  "innermost m n = do {
     c \<leftarrow> current_state m n;
     (case c of None \<Rightarrow> Some n | Some i \<Rightarrow> innermost m (Node i))
   }"

definition get_status :: "'p platform_ops \<Rightarrow> 'p appm \<Rightarrow> string option" where
  "get_status ops m =
     (if root_current m = Some STATE_DATA_EXCHANGE then Some (module_status ops (platform (world m)))
      else do { n \<leftarrow> innermost m Root; get_state_human_readable_name state_name (parent_node m) n })"

text \<open>The response is sent from the start of the storage, whatever the head is.\<close>

definition send_response_buffer :: "'p app_step" where
  "send_response_buffer a = do {
     s \<leftarrow> array_prefix (cb_storage (app_response a)) (unat (circular_buffer_size (app_response a)));
     Some (send_command_response_string s a)
   }"

partial_function (option) execute_until_done ::
  "'p platform_ops \<Rightarrow> string \<Rightarrow> command \<Rightarrow> 'p app \<Rightarrow> (command \<times> 'p app) option" where
  "execute_until_done ops status c a = do {
     b \<leftarrow> circular_buffer_clear NUL (app_response a);
     r \<leftarrow> execute_command ops status c (a\<lparr>app_response := b\<rparr>);
     a' \<leftarrow> send_response_buffer (snd (snd r));
     (if fst r = COMMAND_EXECUTED_PARTIALLY then execute_until_done ops status (fst (snd r)) a'
      else Some (fst (snd r), a'))
   }"

definition answer_busy :: "'p app_step" where
  "answer_busy a = do {
     b \<leftarrow> circular_buffer_clear NUL (app_response a);
     b \<leftarrow> append_busy b;
     send_response_buffer (a\<lparr>app_response := b\<rparr>)
   }"

definition execute_one :: "'p platform_ops \<Rightarrow> bool \<Rightarrow> command \<Rightarrow> 'p step" where
  "execute_one ops allow_write c m =
     (if \<not> allow_write \<and> (command_has_argument c \<or> command_type c = COMMAND_RELOAD)
      then lift_app answer_busy m
      else do {
        status \<leftarrow> (if command_type c = COMMAND_STATUS then get_status ops m else Some []);
        lift_app (\<lambda>a. map_option snd (execute_until_done ops status c a)) m
      })"

partial_function (option) execute_commands :: "'p platform_ops \<Rightarrow> bool \<Rightarrow> 'p step" where
  "execute_commands ops allow_write m = do {
     r \<leftarrow> circular_buffer_pop True (app_commands (world m));
     (let m' = m\<lparr>world := (world m)\<lparr>app_commands := snd (snd r)\<rparr>\<rparr> in
      case fst (snd r) of
        None \<Rightarrow> Some m'
      | Some c \<Rightarrow> do { m'' \<leftarrow> execute_one ops allow_write c m'; execute_commands ops allow_write m'' })
   }"

definition extract_commands :: "'p platform_ops \<Rightarrow> 'p app_step" where
  "extract_commands ops a = do {
     (_, sb, cb) \<leftarrow> extract_commands_from_string_buffer
        \<lparr>env_sensors = app_sensors a, env_actuators = [], env_junk = junk_alarms ops\<rparr>
        (junk_command ops) (app_command_string a) (app_commands a);
     Some (a\<lparr>app_command_string := sb, app_commands := cb\<rparr>)
   }"

section \<open>The handlers\<close>

definition processed :: "bool \<Rightarrow> 'a option \<Rightarrow> (bool \<times> 'a) option" where
  "processed p r = map_option (Pair p) r"

definition wolksensor_handler :: "'p platform_ops \<Rightarrow> 'p app handler" where
  "wolksensor_handler ops e m =
     (if e = EVENT_ENTERING_STATE then Some (True, m)
      else if e = EVENT_USB_CONNECTED then
        processed True (lift_app (\<lambda>a. do {
          let a = a\<lparr>no_connection_count := 0,
                    no_connection_heartbeat := cfg_system_heartbeat (app_config a)\<rparr>;
          a \<leftarrow> start_heartbeat (cfg_system_heartbeat (app_config a)) a;
          b \<leftarrow> circular_buffer_clear NUL (app_command_string a);
          Some (a\<lparr>app_command_string := b\<rparr>)
        }) m)
      else if e = EVENT_USB_DISCONNECTED then Some (True, m)
      else if e = EVENT_ACQUIRE then processed True (post ops EVENT_ACQUIRE m)
      else if e = EVENT_HEARTBEAT then processed True (post ops EVENT_HEARTBEAT m)
      else if e = EVENT_LEAVING_STATE then Some (False, m)
      else Some (True, m))"

type_synonym 'p trans = "nat \<Rightarrow> 'p appm \<Rightarrow> 'p appm option"

definition state_idle :: "'p platform_ops \<Rightarrow> 'p trans \<Rightarrow> 'p app handler" where
  "state_idle ops tr e m =
     (if e = EVENT_ENTERING_STATE then
        processed True (set_current_state m (Node STATE_IDLE)
          (Some (if brownout (world m) then STATE_BROWNOUT else STATE_NORMAL)))
      else if e = EVENT_ACQUIRE then
        processed True
          (if cfg_atmo_status (app_config (world m)) \<and> \<not> sensor_readings_buffer_full (app_readings (world m))
           then tr STATE_ACQUISITION m else Some m)
      else if e = EVENT_COMMAND_RECEIVED then
        processed True (do { m \<leftarrow> lift_app (extract_commands ops) m; execute_commands ops True m })
      else if e = EVENT_RESET then
        Some (True, m\<lparr>world := (world m)\<lparr>platform := system_reset ops (platform (world m))\<rparr>\<rparr>)
      else Some (False, m))"

definition state_normal :: "'p trans \<Rightarrow> 'p app handler" where
  "state_normal tr e m =
     (if e = EVENT_ENTERING_STATE then
        Some (True, m\<lparr>world := (send_command_response_string ''STATUS IDLE;'' (world m))\<lparr>brownout := False\<rparr>\<rparr>)
      else if e = EVENT_ALARM then processed True (tr STATE_DATA_EXCHANGE m)
      else if e = EVENT_HEARTBEAT then processed True (tr STATE_DATA_EXCHANGE m)
      else Some (False, m))"

definition state_brownout :: "'p trans \<Rightarrow> 'p app handler" where
  "state_brownout tr e m =
     (if e = EVENT_ENTERING_STATE then
        Some (True, m\<lparr>world := (send_command_response_string ''STATUS BROWNOUT;'' (world m))\<lparr>brownout := True\<rparr>\<rparr>)
      else if e = EVENT_ALARM \<or> e = EVENT_HEARTBEAT then Some (True, m)
      else if e = EVENT_USB_CONNECTED then processed False (tr STATE_NORMAL m)
      else Some (False, m))"

text \<open>\<open>get_sensors_states\<close> calls the listener with the states it read before it returns.\<close>

definition state_acquisition :: "'p platform_ops \<Rightarrow> 'p trans \<Rightarrow> 'p app handler" where
  "state_acquisition ops tr e m =
     (if e = EVENT_ENTERING_STATE then
        processed True (do {
          let a = send_command_response_string ''STATUS ACQUISITION;'' (world m);
          let (ids, n) = get_value_on_demand_sensors_ids (app_sensors a);
          let (states, p) = get_sensors_states ops ids n (platform a);
          let a = a\<lparr>platform := p\<rparr>;
          a \<leftarrow> (case states of None \<Rightarrow> Some a | Some ss \<Rightarrow> sensors_states_listener ops ss n a);
          tr STATE_IDLE (m\<lparr>world := a\<rparr>)
        })
      else Some (False, m))"

definition adjust_heartbeat_on_error :: "'p platform_ops \<Rightarrow> 'p app_step" where
  "adjust_heartbeat_on_error ops a =
     (if get_usb_state ops (platform a) then start_heartbeat (cfg_system_heartbeat (app_config a)) a
      else if sensors_have_unsounded_alarms (app_sensors a) \<and> sound_alarm_retries a \<le> MAX_ALARM_RETRIES
      then Some a
      else (let a = (if no_connection_count a = 0
                     then a\<lparr>no_connection_heartbeat := cfg_system_heartbeat (app_config a)\<rparr> else a);
                a = a\<lparr>no_connection_count := no_connection_count a + 1\<rparr>
            in if no_connection_count a mod 2 = 0 \<and> no_connection_heartbeat a < MAX_NO_CONNECTION_HEARTBEAT
               then (let h = no_connection_heartbeat a * 2;
                         h = (if h < MAX_NO_CONNECTION_HEARTBEAT then h else MAX_NO_CONNECTION_HEARTBEAT)
                     in start_heartbeat h (a\<lparr>no_connection_heartbeat := h\<rparr>))
               else Some a))"

definition zero_module_data :: communication_module_data where
  "zero_module_data = \<lparr>cmd_error = 0, cmd_platform_code = 0, cmd_connect_to_ap_time = 0,
     cmd_acquire_ip_address_time = 0, cmd_connect_to_server_time = 0, cmd_data_exchange_time = 0,
     cmd_disconnect_time = 0\<rparr>"

definition zero_result :: communication_and_battery_data where
  "zero_result = \<lparr>cbd_protocol = \<lparr>cptd_type = COMMUNICATION_PROTOCOL_MQTT, cptd_mqtt_error = 0,
     cptd_module = \<lparr>cmtd_type = COMMUNICATION_MODULE_WIFI, cmtd_data = zero_module_data\<rparr>\<rparr>,
     cbd_battery_min_voltage = 0\<rparr>"

text \<open>What leaving the data exchange does with the result, before the voltage is forgotten.\<close>

definition evaluate_exchange :: "'p platform_ops \<Rightarrow> 'p app_step" where
  "evaluate_exchange ops a = do {
     let a = a\<lparr>app_result := (app_result a)\<lparr>cbd_battery_min_voltage := battery_voltage a\<rparr>\<rparr>;
     sb \<leftarrow> add_communication_and_battery_data (app_now ops a) (app_result a) (app_system a);
     let a = a\<lparr>app_system := sb\<rparr>;
     (if is_communication_protocol_success (cbd_protocol (app_result a)) then do {
        let a = a\<lparr>app_sensors := clear_sounded_alarms (app_sensors a), no_connection_count := 0,
                  no_connection_heartbeat := cfg_system_heartbeat (app_config a)\<rparr>;
        start_heartbeat (cfg_system_heartbeat (app_config a)) a
      } else do {
        let a = send_command_response_string ''STATUS ERROR:'' a;
        let a = send_command_response_string
          (serialize_communication_protocol_error (print_platform_error ops) (cbd_protocol (app_result a)) @ '';'') a;
        a \<leftarrow> (if cbd_battery_min_voltage (app_result a) < MINIMUM_REQUIRED_VOLTAGE then do {
                 sb \<leftarrow> add_system_error (app_now ops a) SYSTEM_BROWNOUT (app_system a);
                 Some (a\<lparr>brownout := True, app_system := sb\<rparr>)
               } else Some a);
        adjust_heartbeat_on_error ops a
      })
   }"

definition state_data_exchange :: "'p platform_ops \<Rightarrow> 'p comm_ops \<Rightarrow> 'p trans \<Rightarrow> 'p app handler" where
  "state_data_exchange ops cops tr e m =
     (if e = EVENT_ENTERING_STATE then
        processed True (do {
          m \<leftarrow> set_current_state m (Node STATE_DATA_EXCHANGE) (Some STATE_SEND);
          let a = world m;
          Some (m\<lparr>world := a\<lparr>app_result := zero_result,
                             platform := enable_battery_voltage_monitor ops (platform a)\<rparr>\<rparr>)
        })
      else if e = EVENT_COMMAND_RECEIVED then
        processed True (do { m \<leftarrow> lift_app (extract_commands ops) m; execute_commands ops False m })
      else if e = EVENT_COMMUNICATION_PROTOCOL_PROCESS then
        processed True (do {
          (again, a) \<leftarrow> comm_process cops (process_handle (world m)) (world m);
          post ops (if again then EVENT_COMMUNICATION_PROTOCOL_PROCESS else EVENT_COMMUNICATION_PROTOCOL_DONE)
            (m\<lparr>world := a\<rparr>)
        })
      else if e = EVENT_LEAVING_STATE then
        processed False (lift_app (\<lambda>a. do {
          a \<leftarrow> evaluate_exchange ops
                 (a\<lparr>platform := disable_battery_voltage_monitor ops (platform a)\<rparr>);
          Some (a\<lparr>battery_voltage := 0\<rparr>)
        }) m)
      else Some (False, m))"

text \<open>Starting an operation of the communication protocol.\<close>

definition start_operation ::
  "'p platform_ops \<Rightarrow> ('p app \<Rightarrow> (nat \<times> 'p app) option) \<Rightarrow> 'p app_step" where
  "start_operation ops f a = do {
     (h, a) \<leftarrow> f a;
     post_event ops EVENT_COMMUNICATION_PROTOCOL_PROCESS (a\<lparr>process_handle := h\<rparr>)
   }"

definition append_to_result :: "communication_protocol_type_data \<Rightarrow> 'p app \<Rightarrow> 'p app" where
  "append_to_result r a = a\<lparr>app_result := (app_result a)\<lparr>cbd_protocol :=
     append_communication_protocol_type_data r (cbd_protocol (app_result a))\<rparr>\<rparr>"

definition state_send :: "'p platform_ops \<Rightarrow> 'p comm_ops \<Rightarrow> 'p trans \<Rightarrow> 'p app handler" where
  "state_send ops cops tr e m =
     (if e = EVENT_ENTERING_STATE then
        processed True (lift_app (\<lambda>a. start_operation ops (comm_send cops)
          (a\<lparr>sent_system_items := 0, sent_sensor_readings := 0\<rparr>)) m)
      else if e = EVENT_COMMUNICATION_PROTOCOL_DONE then
        (let r = comm_result cops (world m);
             m = m\<lparr>world := append_to_result r (world m)\<rparr>
         in processed True (tr (if is_communication_protocol_success r then STATE_RECEIVE
                                else STATE_STOP_COMMUNICATION_MODULE) m))
      else Some (False, m))"

definition remove_sent :: "'p app_step" where
  "remove_sent a = do {
     sb \<leftarrow> remove_system_data (app_system a) (sent_system_items a);
     rb \<leftarrow> remove_sensor_readings (app_readings a) (sent_sensor_readings a);
     Some (a\<lparr>app_system := sb, app_readings := rb\<rparr>)
   }"

definition state_receive :: "'p platform_ops \<Rightarrow> 'p comm_ops \<Rightarrow> 'p trans \<Rightarrow> 'p app handler" where
  "state_receive ops cops tr e m =
     (if e = EVENT_ENTERING_STATE then
        processed True (lift_app (start_operation ops (comm_receive cops)) m)
      else if e = EVENT_COMMUNICATION_PROTOCOL_DONE then
        (let r = comm_result cops (world m);
             m = m\<lparr>world := append_to_result r (world m)\<rparr>
         in processed True
              (if is_communication_protocol_success r then
                 (if circular_buffer_size (app_commands (world m)) > 0 then do {
                    m \<leftarrow> lift_app remove_sent m;
                    m \<leftarrow> execute_commands ops True m;
                    tr (if sensor_readings_count (app_readings (world m)) > 0 then STATE_SEND
                        else STATE_DISCONNECT) m
                  } else tr STATE_DISCONNECT m)
               else tr STATE_STOP_COMMUNICATION_MODULE m))
      else Some (False, m))"

definition state_disconnect :: "'p platform_ops \<Rightarrow> 'p comm_ops \<Rightarrow> 'p trans \<Rightarrow> 'p app handler" where
  "state_disconnect ops cops tr e m =
     (if e = EVENT_ENTERING_STATE then
        processed True (lift_app (start_operation ops (comm_disconnect cops)) m)
      else if e = EVENT_COMMUNICATION_PROTOCOL_DONE then
        (let r = comm_result cops (world m)
         in processed True (tr STATE_STOP_COMMUNICATION_MODULE
                              (m\<lparr>world := append_to_result r (world m)\<rparr>)))
      else Some (False, m))"

definition state_stop_communication_module ::
  "'p platform_ops \<Rightarrow> 'p comm_ops \<Rightarrow> 'p trans \<Rightarrow> 'p app handler" where
  "state_stop_communication_module ops cops tr e m =
     (if e = EVENT_ENTERING_STATE then
        processed True (lift_app (\<lambda>a. do {
          (h, a) \<leftarrow> module_stop cops a;
          post_event ops EVENT_COMMUNICATION_PROTOCOL_PROCESS (a\<lparr>stop_handle := h\<rparr>)
        }) m)
      else if e = EVENT_COMMUNICATION_PROTOCOL_PROCESS then
        processed True (do {
          (again, a) \<leftarrow> module_process cops (stop_handle (world m)) (world m);
          post ops (if again then EVENT_COMMUNICATION_PROTOCOL_PROCESS else EVENT_COMMUNICATION_PROTOCOL_DONE)
            (m\<lparr>world := a\<rparr>)
        })
      else if e = EVENT_COMMUNICATION_PROTOCOL_DONE then
        (let r = module_result cops (world m);
             a = world m;
             t = cbd_protocol (app_result a);
             t = t\<lparr>cptd_module := append_communication_module_type_data r (cptd_module t)\<rparr>
         in processed True (tr STATE_IDLE
              (m\<lparr>world := a\<lparr>app_result := (app_result a)\<lparr>cbd_protocol := t\<rparr>\<rparr>\<rparr>)))
      else Some (False, m))"

section \<open>The machine\<close>

fun app_handlers :: "'p platform_ops \<Rightarrow> 'p comm_ops \<Rightarrow> 'p trans \<Rightarrow> 'p app handlers" where
  "app_handlers ops cops tr Root = Some (wolksensor_handler ops)"
| "app_handlers ops cops tr (Node i) =
     (if i = STATE_IDLE then Some (state_idle ops tr)
      else if i = STATE_BROWNOUT then Some (state_brownout tr)
      else if i = STATE_NORMAL then Some (state_normal tr)
      else if i = STATE_ACQUISITION then Some (state_acquisition ops tr)
      else if i = STATE_DATA_EXCHANGE then Some (state_data_exchange ops cops tr)
      else if i = STATE_SEND then Some (state_send ops cops tr)
      else if i = STATE_RECEIVE then Some (state_receive ops cops tr)
      else if i = STATE_DISCONNECT then Some (state_disconnect ops cops tr)
      else if i = STATE_STOP_COMMUNICATION_MODULE then Some (state_stop_communication_module ops cops tr)
      else None)"

lemma app_handlers_at [simp]:
  "app_handlers ops cops tr (Node STATE_IDLE) = Some (state_idle ops tr)"
  "app_handlers ops cops tr (Node STATE_BROWNOUT) = Some (state_brownout tr)"
  "app_handlers ops cops tr (Node STATE_NORMAL) = Some (state_normal tr)"
  "app_handlers ops cops tr (Node STATE_ACQUISITION) = Some (state_acquisition ops tr)"
  "app_handlers ops cops tr (Node STATE_DATA_EXCHANGE) = Some (state_data_exchange ops cops tr)"
  "app_handlers ops cops tr (Node STATE_SEND) = Some (state_send ops cops tr)"
  "app_handlers ops cops tr (Node STATE_RECEIVE) = Some (state_receive ops cops tr)"
  "app_handlers ops cops tr (Node STATE_DISCONNECT) = Some (state_disconnect ops cops tr)"
  "app_handlers ops cops tr (Node STATE_STOP_COMMUNICATION_MODULE) =
     Some (state_stop_communication_module ops cops tr)"
  by (simp_all add: app_state_defs)

declare app_handlers.simps(2) [simp del]

text \<open>
  At most two transitions nest: from \<open>STATE_IDLE\<close> to \<open>STATE_ACQUISITION\<close>, whose entering handler
  goes back to \<open>STATE_IDLE\<close>.  Three are allowed.
\<close>

definition app_transition :: "'p platform_ops \<Rightarrow> 'p comm_ops \<Rightarrow> 'p trans" where
  "app_transition ops cops = nested_transition (app_handlers ops cops) 3"

definition process_wolksensor_event ::
  "'p platform_ops \<Rightarrow> 'p comm_ops \<Rightarrow> 'p appm \<Rightarrow> (bool \<times> 'p appm) option" where
  "process_wolksensor_event ops cops m = do {
     (ok, ev, b) \<leftarrow> pop_event (app_events (world m));
     let m = m\<lparr>world := (world m)\<lparr>app_events := b\<rparr>\<rparr>;
     (case ev of
        None \<Rightarrow> Some (False, m)
      | Some e \<Rightarrow> do {
          (_, m) \<leftarrow> state_machine_process_event (app_handlers ops cops (app_transition ops cops)) Root
                      (event_type e) m;
          Some (True, m)
        })
   }"

definition wolksensor_process ::
  "'p platform_ops \<Rightarrow> 'p comm_ops \<Rightarrow> 'p appm \<Rightarrow> (bool \<times> 'p appm) option" where
  "wolksensor_process ops cops m = process_wolksensor_event ops cops m"

section \<open>Initialisation\<close>

text \<open>
  The sizes of the element types on the target: no padding, enums of one byte
  (\<open>-fshort-enums\<close>).  The storage arrays and everything that is not set here is what the
  memory \<open>a\<close> holds at start: zero, or, for the readings, the system items and the clock, what a
  warm reset left there.
\<close>

datatype start_type = POWER_ON | BROWNOUT_RESET | WATCHDOG_RESET

definition init_events_buffer :: "'p app_step" where
  "init_events_buffer a = do {
     b \<leftarrow> circular_buffer_init \<lparr>event_type = 0, event_timestamp = 0\<rparr> (app_events a)
            (cb_storage (app_events a)) 10 20 True True;
     Some (a\<lparr>app_events := b\<rparr>)
   }"

definition init_commands_buffer :: "'p app_step" where
  "init_commands_buffer a = do {
     b \<leftarrow> circular_buffer_init
            \<lparr>command_type = COMMAND_BAD, command_has_argument = False, command_arg = ZeroArgument\<rparr>
            (app_commands a) (cb_storage (app_commands a)) 10 66 True True;
     Some (a\<lparr>app_commands := b\<rparr>)
   }"

definition init_command_string_buffer :: "'p app_step" where
  "init_command_string_buffer a = do {
     b \<leftarrow> circular_buffer_init NUL (app_command_string a) (cb_storage (app_command_string a)) 768 1 True True;
     Some (a\<lparr>app_command_string := b\<rparr>)
   }"

definition init_command_response_buffer :: "'p app_step" where
  "init_command_response_buffer a = do {
     b \<leftarrow> circular_buffer_init NUL (app_response a) (cb_storage (app_response a)) 768 1 False True;
     Some (a\<lparr>app_response := b\<rparr>)
   }"

text \<open>The index is an \<open>uint8_t\<close>, so the check that it is not negative never fails.\<close>

definition preset_movement_alarm :: "'p app_step" where
  "preset_movement_alarm a = do {
     let t = app_sensors a;
     let i = unat (get_index_of_sensor t (CHR ''M''));
     al \<leftarrow> array_get (sensors_alarms t) i;
     als \<leftarrow> array_set (sensors_alarms t) i
              (al\<lparr>alarm_high := (alarm_high al)\<lparr>alarm_enabled := True, alarm_value := 1\<rparr>\<rparr>);
     Some (a\<lparr>app_sensors := t\<lparr>sensors_alarms := als\<rparr>\<rparr>)
   }"

definition init_data :: "'p platform_ops \<Rightarrow> start_type \<Rightarrow> 'p app_step" where
  "init_data ops st a = do {
     let a = snd (load_system_heartbeat ops a);
     let a = snd (load_atmo_status ops a);
     let a = snd (load_offset_status ops a);
     let a = snd (load_offset_factory_status ops a);
     let a = snd (load_movement_status ops a);
     a \<leftarrow> preset_movement_alarm (a\<lparr>app_sensors := sensors_init (app_sensors a)\<rparr>);
     rb \<leftarrow> init_sensor_readings_buffer 20 (cb_storage (app_readings a)) (app_readings a) (st = POWER_ON);
     sb \<leftarrow> init_system_buffer 25 (cb_storage (app_system a)) (app_system a) (st = POWER_ON);
     a \<leftarrow> init_events_buffer (a\<lparr>app_readings := rb, app_system := sb\<rparr>);
     a \<leftarrow> init_commands_buffer a;
     a \<leftarrow> init_command_string_buffer a;
     init_command_response_buffer a
   }"

definition init_states :: "start_type \<Rightarrow> 'p step" where
  "init_states st m = do {
     let m = m\<lparr>root_current := Some STATE_IDLE\<rparr>;
     m \<leftarrow> state_machine_init_state m STATE_IDLE Root
            (Some (if st = BROWNOUT_RESET then STATE_BROWNOUT else STATE_NORMAL));
     m \<leftarrow> state_machine_init_state m STATE_BROWNOUT (Node STATE_IDLE) None;
     m \<leftarrow> state_machine_init_state m STATE_NORMAL (Node STATE_IDLE) None;
     m \<leftarrow> state_machine_init_state m STATE_ACQUISITION Root None;
     m \<leftarrow> state_machine_init_state m STATE_DATA_EXCHANGE Root (Some STATE_SEND);
     m \<leftarrow> state_machine_init_state m STATE_SEND (Node STATE_DATA_EXCHANGE) None;
     m \<leftarrow> state_machine_init_state m STATE_RECEIVE (Node STATE_DATA_EXCHANGE) None;
     m \<leftarrow> state_machine_init_state m STATE_DISCONNECT (Node STATE_DATA_EXCHANGE) None;
     state_machine_init_state m STATE_STOP_COMMUNICATION_MODULE (Node STATE_DATA_EXCHANGE) None
   }"

definition init_wolksensor ::
  "'p platform_ops \<Rightarrow> 'p comm_ops \<Rightarrow> start_type \<Rightarrow> 'p app \<Rightarrow> 'p appm option" where
  "init_wolksensor ops cops st a = do {
     a \<leftarrow> init_data ops st a;
     m \<leftarrow> init_states st \<lparr>root_current = None, state_current = replicate 9 (Some 0),
                           state_parent = replicate 9 Root, world = a\<rparr>;
     let m = m\<lparr>world := (world m)\<lparr>rtc_offset := chrono_init (st = POWER_ON) (rtc_offset (world m))\<rparr>\<rparr>;
     m \<leftarrow> lift_app (\<lambda>a. start_heartbeat (if brownout a then cfg_system_heartbeat (app_config a) else 1) a) m;
     m \<leftarrow> app_transition ops cops STATE_IDLE m;
     post ops EVENT_ACQUIRE m
   }"

end
