(* ===== verification/App_Machine.thy ===== *)
theory App_Machine
  imports Wolksensor
begin

text \<open>
  The state machine of the application: the tree of its nine states, the invariant that every
  event keeps it (by the interface of \<^theory_text>\<open>State_Machine\<close>), and what the machine does on the
  events that move it.
\<close>

section \<open>The tree\<close>

definition app_parents :: "node list" where
  "app_parents = [Root, Node STATE_IDLE, Node STATE_IDLE, Root, Root, Node STATE_DATA_EXCHANGE,
                  Node STATE_DATA_EXCHANGE, Node STATE_DATA_EXCHANGE, Node STATE_DATA_EXCHANGE]"

definition app_tree :: "nat \<Rightarrow> nat \<Rightarrow> nat \<Rightarrow> 'p app \<Rightarrow> 'p appm" where
  "app_tree r i d a = \<lparr>root_current = Some r,
     state_current = [Some i, None, None, None, Some d, None, None, None, None],
     state_parent = app_parents, world = a\<rparr>"

definition app_shape :: "'p appm \<Rightarrow> bool" where
  "app_shape m \<longleftrightarrow> (\<exists>r \<in> {STATE_IDLE, STATE_ACQUISITION, STATE_DATA_EXCHANGE}.
     \<exists>i \<in> {STATE_BROWNOUT, STATE_NORMAL}.
     \<exists>d \<in> {STATE_SEND, STATE_RECEIVE, STATE_DISCONNECT, STATE_STOP_COMMUNICATION_MODULE}.
       m = app_tree r i d (world m))"

lemma app_tree_simps [simp]:
  "world (app_tree r i d a) = a"
  "(app_tree r i d a)\<lparr>world := a'\<rparr> = app_tree r i d a'"
  "root_current (app_tree r i d a) = Some r"
  "lift_app f (app_tree r i d a) = map_option (app_tree r i d) (f a)"
  by (auto simp: app_tree_def lift_app_def split: Option.bind_split)

lemma app_tree_current [simp]:
  "current_state (app_tree r i d a) Root = Some (Some r)"
  "current_state (app_tree r i d a) (Node STATE_IDLE) = Some (Some i)"
  "current_state (app_tree r i d a) (Node STATE_BROWNOUT) = Some None"
  "current_state (app_tree r i d a) (Node STATE_NORMAL) = Some None"
  "current_state (app_tree r i d a) (Node STATE_ACQUISITION) = Some None"
  "current_state (app_tree r i d a) (Node STATE_DATA_EXCHANGE) = Some (Some d)"
  "current_state (app_tree r i d a) (Node STATE_SEND) = Some None"
  "current_state (app_tree r i d a) (Node STATE_RECEIVE) = Some None"
  "current_state (app_tree r i d a) (Node STATE_DISCONNECT) = Some None"
  "current_state (app_tree r i d a) (Node STATE_STOP_COMMUNICATION_MODULE) = Some None"
  by (simp_all add: app_tree_def app_state_defs eval_nat_numeral)

lemma app_tree_set_current [simp]:
  "(app_tree r i d a)\<lparr>root_current := Some k\<rparr> = app_tree k i d a"
  "set_current_state (app_tree r i d a) (Node STATE_IDLE) (Some k) = Some (app_tree r k d a)"
  "set_current_state (app_tree r i d a) (Node STATE_DATA_EXCHANGE) (Some k) = Some (app_tree r i k a)"
  by (simp_all add: app_tree_def app_state_defs eval_nat_numeral)

declare current_state.simps(2) [simp del] set_current_state.simps(2) [simp del]

lemma app_tree_parent [simp]:
  "state_parent (app_tree r i d a) = app_parents"
  by (simp add: app_tree_def)

lemma app_parents_nth [simp]:
  "array_get app_parents STATE_IDLE = Some Root"
  "array_get app_parents STATE_BROWNOUT = Some (Node STATE_IDLE)"
  "array_get app_parents STATE_NORMAL = Some (Node STATE_IDLE)"
  "array_get app_parents STATE_ACQUISITION = Some Root"
  "array_get app_parents STATE_DATA_EXCHANGE = Some Root"
  "array_get app_parents STATE_SEND = Some (Node STATE_DATA_EXCHANGE)"
  "array_get app_parents STATE_RECEIVE = Some (Node STATE_DATA_EXCHANGE)"
  "array_get app_parents STATE_DISCONNECT = Some (Node STATE_DATA_EXCHANGE)"
  "array_get app_parents STATE_STOP_COMMUNICATION_MODULE = Some (Node STATE_DATA_EXCHANGE)"
  by (simp_all add: app_parents_def array_get_def app_state_defs eval_nat_numeral)

lemma app_shape_tree [simp]:
  "app_shape (app_tree r i d a) \<longleftrightarrow>
     r \<in> {STATE_IDLE, STATE_ACQUISITION, STATE_DATA_EXCHANGE} \<and> i \<in> {STATE_BROWNOUT, STATE_NORMAL} \<and>
     d \<in> {STATE_SEND, STATE_RECEIVE, STATE_DISCONNECT, STATE_STOP_COMMUNICATION_MODULE}"
  by (auto simp: app_shape_def app_tree_def)

lemma app_shapeE:
  assumes "app_shape m"
  obtains r i d where "m = app_tree r i d (world m)"
    "r \<in> {STATE_IDLE, STATE_ACQUISITION, STATE_DATA_EXCHANGE}" "i \<in> {STATE_BROWNOUT, STATE_NORMAL}"
    "d \<in> {STATE_SEND, STATE_RECEIVE, STATE_DISCONNECT, STATE_STOP_COMMUNICATION_MODULE}"
  using assms unfolding app_shape_def by blast

lemma app_shape_world [simp]: "app_shape (m\<lparr>world := a\<rparr>) \<longleftrightarrow> app_shape m"
  by (cases m) (simp add: app_shape_def app_tree_def)

lemma lift_app_world: "lift_app f m = Some m' \<Longrightarrow> \<exists>a. m' = m\<lparr>world := a\<rparr>"
  by (auto simp: lift_app_def bind_eq_Some_conv)

lemma lift_app_shape: "lift_app f m = Some m' \<Longrightarrow> app_shape m' \<longleftrightarrow> app_shape m"
  using lift_app_world by fastforce

lemma post_shape: "post ops e m = Some m' \<Longrightarrow> app_shape m' \<longleftrightarrow> app_shape m"
  unfolding post_def by (rule lift_app_shape)

lemma execute_one_shape: "execute_one ops w c m = Some m' \<Longrightarrow> app_shape m' \<longleftrightarrow> app_shape m"
  by (auto simp: execute_one_def bind_eq_Some_conv split: if_splits dest: lift_app_shape)

lemma execute_commands_shape:
  assumes run: "execute_commands ops w m = Some m'"
  shows "app_shape m' \<longleftrightarrow> app_shape m"
proof (rule execute_commands.raw_induct
    [where P = "\<lambda>ops w m m'. app_shape m' \<longleftrightarrow> app_shape m", OF _ run])
  fix f :: "'a platform_ops \<Rightarrow> bool \<Rightarrow> 'a step" and ops w m m'
  assume IH: "\<And>ops w m m'. f ops w m = Some m' \<Longrightarrow> app_shape m' \<longleftrightarrow> app_shape m"
    and body: "(do {
      r \<leftarrow> circular_buffer_pop True (app_commands (world m));
      (let m' = m\<lparr>world := (world m)\<lparr>app_commands := snd (snd r)\<rparr>\<rparr> in
       case fst (snd r) of
         None \<Rightarrow> Some m'
       | Some c \<Rightarrow> do { m'' \<leftarrow> execute_one ops w c m'; f ops w m'' }) }) = Some m'"
  then obtain r where r: "circular_buffer_pop True (app_commands (world m)) = Some r"
    and c: "(case fst (snd r) of
        None \<Rightarrow> Some (m\<lparr>world := (world m)\<lparr>app_commands := snd (snd r)\<rparr>\<rparr>)
      | Some c \<Rightarrow> do {
          m'' \<leftarrow> execute_one ops w c (m\<lparr>world := (world m)\<lparr>app_commands := snd (snd r)\<rparr>\<rparr>);
          f ops w m'' }) = Some m'"
    by (auto simp: bind_eq_Some_conv Let_def)
  show "app_shape m' \<longleftrightarrow> app_shape m"
  proof (cases "fst (snd r)")
    case None
    with c show ?thesis by auto
  next
    case (Some x)
    with c obtain m1 where
      m1: "execute_one ops w x (m\<lparr>world := (world m)\<lparr>app_commands := snd (snd r)\<rparr>\<rparr>) = Some m1" and
      f: "f ops w m1 = Some m'"
      by (auto simp: bind_eq_Some_conv)
    from execute_one_shape [OF m1] IH [OF f] show ?thesis by simp
  qed
qed

section \<open>Every event keeps the tree\<close>

lemma processed_eq_Some: "processed p r = Some x \<longleftrightarrow> (\<exists>m. r = Some m \<and> x = (p, m))"
  by (auto simp: processed_def)

lemma app_parents_cases:
  assumes "array_get app_parents k = Some n"
  shows "(n = Root \<and> k \<in> {STATE_IDLE, STATE_ACQUISITION, STATE_DATA_EXCHANGE}) \<or>
         (n = Node STATE_IDLE \<and> k \<in> {STATE_BROWNOUT, STATE_NORMAL}) \<or>
         (n = Node STATE_DATA_EXCHANGE \<and>
          k \<in> {STATE_SEND, STATE_RECEIVE, STATE_DISCONNECT, STATE_STOP_COMMUNICATION_MODULE})"
proof -
  from assms have "k < 9" by (simp add: array_get_def app_parents_def split: if_splits)
  then have "k \<in> {0,1,2,3,4,5,6,7,8}" by auto
  with assms show ?thesis by (auto simp: array_get_def app_parents_def app_state_defs)
qed

lemma set_current_shape:
  assumes "app_shape m" "set_current_state m n (Some k) = Some m'"
    and "array_get app_parents k = Some n"
  shows "app_shape m'"
proof -
  from assms(1) obtain r i d where m: "m = app_tree r i d (world m)"
    and *: "r \<in> {STATE_IDLE, STATE_ACQUISITION, STATE_DATA_EXCHANGE}" "i \<in> {STATE_BROWNOUT, STATE_NORMAL}"
      "d \<in> {STATE_SEND, STATE_RECEIVE, STATE_DISCONNECT, STATE_STOP_COMMUNICATION_MODULE}"
    by (rule app_shapeE)
  have "set_current_state (app_tree r i d (world m)) n (Some k) = Some m'"
    using assms(2) m by simp
  with * show ?thesis
    using app_parents_cases [OF assms(3)] by (elim disjE conjE) (auto simp del: insert_iff)
qed

lemmas shape_dests = lift_app_shape post_shape execute_commands_shape

lemmas handler_unfolds = wolksensor_handler_def state_idle_def state_normal_def state_brownout_def
  state_acquisition_def state_data_exchange_def state_send_def state_receive_def
  state_disconnect_def state_stop_communication_module_def

lemma set_current_idle:
  assumes "set_current_state m (Node STATE_IDLE) (Some k) = Some m'" "k = STATE_BROWNOUT \<or> k = STATE_NORMAL"
  shows "app_shape m \<longrightarrow> app_shape m'"
  using set_current_shape [OF _ assms(1)] assms(2) by auto

lemma set_current_exchange:
  assumes "set_current_state m (Node STATE_DATA_EXCHANGE) (Some STATE_SEND) = Some m'"
  shows "app_shape m \<longrightarrow> app_shape m'"
  using set_current_shape [OF _ assms] by auto

lemma app_handlers_keep_shape:
  assumes tr: "\<And>i m m'. app_shape m \<Longrightarrow> tr i m = Some m' \<Longrightarrow> app_shape m'"
    and h: "app_handlers ops cops tr n = Some h" and m: "app_shape m" and r: "h e m = Some r"
  shows "app_shape (snd r)"
proof -
  note keep = processed_eq_Some bind_eq_Some_conv Let_def
  have tr': "app_shape m \<longrightarrow> app_shape m'" if "tr i m = Some m'" for i m m'
    using tr that by blast
  have "app_shape (snd r)" if "wolksensor_handler ops e m = Some r"
    using that m by (auto simp: wolksensor_handler_def keep split: if_splits dest!: shape_dests)
  moreover have "app_shape (snd r)" if "state_idle ops tr e m = Some r"
    using that m by (auto simp: state_idle_def keep split: if_splits dest!: shape_dests tr' set_current_idle)
  moreover have "app_shape (snd r)" if "state_brownout tr e m = Some r"
    using that m by (auto simp: state_brownout_def keep split: if_splits dest!: tr')
  moreover have "app_shape (snd r)" if "state_normal tr e m = Some r"
    using that m by (auto simp: state_normal_def keep split: if_splits dest!: tr')
  moreover have "app_shape (snd r)" if "state_acquisition ops tr e m = Some r"
    using that m by (auto simp: state_acquisition_def keep split: if_splits prod.splits option.splits dest!: tr')
  moreover have "app_shape (snd r)" if "state_data_exchange ops cops tr e m = Some r"
    using that m by (auto simp: state_data_exchange_def keep split: if_splits prod.splits
        dest!: shape_dests set_current_exchange tr')
  moreover have "app_shape (snd r)" if "state_send ops cops tr e m = Some r"
    using that m by (auto simp: state_send_def keep split: if_splits dest!: shape_dests tr')
  moreover have "app_shape (snd r)" if "state_receive ops cops tr e m = Some r"
    using that m by (auto simp: state_receive_def keep split: if_splits dest!: shape_dests tr')
  moreover have "app_shape (snd r)" if "state_disconnect ops cops tr e m = Some r"
    using that m by (auto simp: state_disconnect_def keep split: if_splits dest!: shape_dests tr')
  moreover have "app_shape (snd r)" if "state_stop_communication_module ops cops tr e m = Some r"
    using that m by (auto simp: state_stop_communication_module_def keep split: if_splits prod.splits
        dest!: shape_dests tr')
  ultimately show ?thesis
    using h r by (cases n) (auto simp: app_handlers.simps(2) split: if_splits)
qed

interpretation app: hierarchical_machine "app_handlers ops cops" app_shape for ops cops
proof
  fix m m1 m' :: "'a appm" and i p
  assume m: "app_shape m" and p: "array_get (state_parent m) i = Some p" and
    m1: "app_shape m1" "set_current_state m1 p (Some i) = Some m'"
  from m obtain r k d where "m = app_tree r k d (world m)" by (rule app_shapeE)
  then have "state_parent m = app_parents" by (metis app_tree_def machine.select_convs(3))
  with p m1 show "app_shape m'" by (metis set_current_shape)
qed (rule app_handlers_keep_shape)

lemma app_transition_keeps_shape:
  "app_transition ops cops i m = Some m' \<Longrightarrow> app_shape m \<Longrightarrow> app_shape m'"
  unfolding app_transition_def by (rule app.nested_transition_keeps)

lemma process_wolksensor_event_keeps_shape:
  "process_wolksensor_event ops cops m = Some r \<Longrightarrow> app_shape m \<Longrightarrow> app_shape (snd r)"
  unfolding process_wolksensor_event_def app_transition_def
  by (auto simp: bind_eq_Some_conv Let_def split: option.splits dest!: app.process_event_keeps)

section \<open>Dispatch and transitions on the tree\<close>

text \<open>What entering the idle state, leaving the data exchange and starting it do to the data.\<close>

abbreviation "idle_child a \<equiv> (if brownout a then STATE_BROWNOUT else STATE_NORMAL)"

definition enter_idle :: "'p app \<Rightarrow> 'p app" where
  "enter_idle a =
     (if brownout a then send_command_response_string ''STATUS BROWNOUT;'' a
      else send_command_response_string ''STATUS IDLE;'' a)"

definition leave_exchange :: "'p platform_ops \<Rightarrow> 'p app_step" where
  "leave_exchange ops a = do {
     a \<leftarrow> evaluate_exchange ops (a\<lparr>platform := disable_battery_voltage_monitor ops (platform a)\<rparr>);
     Some (a\<lparr>battery_voltage := 0\<rparr>)
   }"

definition start_exchange :: "'p platform_ops \<Rightarrow> 'p comm_ops \<Rightarrow> 'p app_step" where
  "start_exchange ops cops a = start_operation ops (comm_send cops)
     (a\<lparr>app_result := zero_result, platform := enable_battery_voltage_monitor ops (platform a),
        sent_system_items := 0, sent_sensor_readings := 0\<rparr>)"

abbreviation "idle_states \<equiv> {STATE_BROWNOUT, STATE_NORMAL}"
abbreviation "exchange_states \<equiv> {STATE_SEND, STATE_RECEIVE, STATE_DISCONNECT, STATE_STOP_COMMUNICATION_MODULE}"

lemmas dispatch = process_event_leaf process_event_inner enter_children_leaf enter_children_inner
  run_handler_Some processed_def

lemma leaving_idle:
  "i \<in> idle_states \<Longrightarrow>
   state_machine_process_event (app_handlers ops cops tr) (Node STATE_IDLE) EVENT_LEAVING_STATE (app_tree r i d a) =
     Some (False, app_tree r i d a)"
  by (elim insertE emptyE)
     (simp_all add: dispatch state_idle_def state_brownout_def state_normal_def app_event_defs)

lemma leaving_exchange_state:
  "d \<in> exchange_states \<Longrightarrow>
   state_machine_process_event (app_handlers ops cops tr) (Node d) EVENT_LEAVING_STATE (app_tree r i d a) =
     Some (False, app_tree r i d a)"
  by (elim insertE emptyE)
     (simp_all add: dispatch state_send_def state_receive_def state_disconnect_def
        state_stop_communication_module_def app_event_defs)

lemma leaving_exchange:
  "d \<in> exchange_states \<Longrightarrow>
   state_machine_process_event (app_handlers ops cops tr) (Node STATE_DATA_EXCHANGE) EVENT_LEAVING_STATE
     (app_tree r i d a) = map_option (\<lambda>a. (False, app_tree r i d a)) (leave_exchange ops a)"
proof -
  assume "d \<in> exchange_states"
  then have "state_data_exchange ops cops tr EVENT_LEAVING_STATE (app_tree r i d a) =
      map_option (\<lambda>a. (False, app_tree r i d a)) (leave_exchange ops a)"
    by (simp add: state_data_exchange_def processed_def leave_exchange_def app_event_defs
        option.map_comp comp_def)
  then show ?thesis
    by (simp add: process_event_inner leaving_exchange_state [OF \<open>d \<in> exchange_states\<close>])
qed

lemma entering_idle:
  "do {
     m \<leftarrow> run_handler (app_handlers ops cops tr) (Node STATE_IDLE) EVENT_ENTERING_STATE (app_tree r i d a);
     enter_children (app_handlers ops cops tr) (Node STATE_IDLE) m
   } = Some (app_tree r (idle_child a) d (enter_idle a))"
  by (cases a) (simp add: dispatch state_idle_def state_brownout_def state_normal_def enter_idle_def
      send_command_response_string_def)

lemma to_idle:
  assumes "i \<in> idle_states"
  shows "nested_transition (app_handlers ops cops) (Suc k) STATE_IDLE (app_tree STATE_IDLE i d a) =
      Some (app_tree STATE_IDLE (idle_child a) d (enter_idle a))"
    "nested_transition (app_handlers ops cops) (Suc k) STATE_IDLE (app_tree STATE_ACQUISITION i d a) =
      Some (app_tree STATE_IDLE (idle_child a) d (enter_idle a))"
    "d \<in> exchange_states \<Longrightarrow>
     nested_transition (app_handlers ops cops) (Suc k) STATE_IDLE (app_tree STATE_DATA_EXCHANGE i d a) = do {
       a \<leftarrow> leave_exchange ops a;
       Some (app_tree STATE_IDLE (idle_child a) d (enter_idle a))
     }"
  by (simp_all add: state_machine_transition_def leaving_idle [OF assms] leaving_exchange
      process_event_leaf [where n = "Node STATE_ACQUISITION"] state_acquisition_def Option.bind_map_option comp_def
      entering_idle)

text \<open>Entering the other states.\<close>

definition enter_exchange_state :: "'p platform_ops \<Rightarrow> 'p comm_ops \<Rightarrow> nat \<Rightarrow> 'p app_step" where
  "enter_exchange_state ops cops d a =
     (if d = STATE_SEND then
        start_operation ops (comm_send cops) (a\<lparr>sent_system_items := 0, sent_sensor_readings := 0\<rparr>)
      else if d = STATE_RECEIVE then start_operation ops (comm_receive cops) a
      else if d = STATE_DISCONNECT then start_operation ops (comm_disconnect cops) a
      else do {
        (h, a) \<leftarrow> module_stop cops a;
        post_event ops EVENT_COMMUNICATION_PROTOCOL_PROCESS (a\<lparr>stop_handle := h\<rparr>)
      })"

definition acquire :: "'p platform_ops \<Rightarrow> 'p app_step" where
  "acquire ops a = do {
     let a = send_command_response_string ''STATUS ACQUISITION;'' a;
     let (ids, n) = get_value_on_demand_sensors_ids (app_sensors a);
     let (states, p) = get_sensors_states ops ids n (platform a);
     let a = a\<lparr>platform := p\<rparr>;
     (case states of None \<Rightarrow> Some a | Some ss \<Rightarrow> sensors_states_listener ops ss n a)
   }"

lemma to_exchange:
  assumes "i \<in> idle_states"
  shows "nested_transition (app_handlers ops cops) (Suc k) STATE_DATA_EXCHANGE (app_tree STATE_IDLE i d a) =
    map_option (app_tree STATE_DATA_EXCHANGE i STATE_SEND) (start_exchange ops cops a)"
  by (simp add: state_machine_transition_def leaving_idle [OF assms] dispatch state_data_exchange_def
      state_send_def start_exchange_def option.map_comp comp_def)
     (cases "start_exchange ops cops a"; simp add: start_exchange_def enter_children_leaf)

lemma entering_children:
  "d' \<in> exchange_states \<Longrightarrow>
   map_option (app_tree r i d) x \<bind> enter_children H (Node d') = map_option (app_tree r i d) x"
  by (cases x) (auto simp: enter_children_leaf)

lemma entering_exchange_state:
  "d' \<in> exchange_states \<Longrightarrow>
   run_handler (app_handlers ops cops tr) (Node d') EVENT_ENTERING_STATE (app_tree r i d a) =
     map_option (app_tree r i d) (enter_exchange_state ops cops d' a)"
  by (elim insertE emptyE)
     (simp_all add: run_handler_Some processed_def option.map_comp comp_def enter_exchange_state_def
       state_send_def state_receive_def state_disconnect_def state_stop_communication_module_def,
      simp_all add: app_state_defs)

lemma to_exchange_state:
  assumes "d \<in> exchange_states" "d' \<in> exchange_states"
  shows "nested_transition (app_handlers ops cops) (Suc k) d' (app_tree STATE_DATA_EXCHANGE i d a) =
    map_option (app_tree STATE_DATA_EXCHANGE i d') (enter_exchange_state ops cops d' a)"
proof -
  have "array_get app_parents d' = Some (Node STATE_DATA_EXCHANGE)"
    using assms(2) by auto
  then show ?thesis
    by (simp add: state_machine_transition_def leaving_exchange_state [OF assms(1)]
        entering_exchange_state [OF assms(2)] entering_children [OF assms(2)])
qed

lemma entering_acquisition:
  "state_acquisition ops tr EVENT_ENTERING_STATE (app_tree r i d a) =
     processed True (acquire ops a \<bind> (\<lambda>a. tr STATE_IDLE (app_tree r i d a)))"
  by (simp add: state_acquisition_def acquire_def Let_def split_def)

lemma to_normal:
  "nested_transition (app_handlers ops cops) (Suc k) STATE_NORMAL (app_tree STATE_IDLE STATE_BROWNOUT d a) =
     Some (app_tree STATE_IDLE STATE_NORMAL d
       ((send_command_response_string ''STATUS IDLE;'' a)\<lparr>brownout := False\<rparr>))"
  by (simp add: state_machine_transition_def dispatch state_brownout_def state_normal_def)

lemma to_acquisition:
  assumes "i \<in> idle_states"
  shows "nested_transition (app_handlers ops cops) (Suc (Suc k)) STATE_ACQUISITION (app_tree STATE_IDLE i d a) = do {
      a \<leftarrow> acquire ops a;
      Some (app_tree STATE_IDLE (idle_child a) d (enter_idle a))
    }"
  by (subst nested_transition.simps(2))
     (cases "acquire ops a"; simp add: state_machine_transition_def leaving_idle [OF assms] run_handler_Some
       entering_acquisition processed_def to_idle(2) [OF assms] enter_children_leaf del: nested_transition.simps)

end
