(* ===== verification/App_Modes.thy ===== *)
theory App_Modes
  imports App_Machine
begin

text \<open>
  What the application machine promises, without its tree: four kinds of mode and one table that
  says what each event does in each mode.  The refinement lemma says that dispatch through the
  hierarchy of handlers is this table.
\<close>

section \<open>The modes\<close>

datatype phase = Sending | Receiving | Disconnecting | Stopping
datatype mode = Normal | Brownout | Exchanging phase

fun phase_state :: "phase \<Rightarrow> nat" where
  "phase_state Sending = STATE_SEND"
| "phase_state Receiving = STATE_RECEIVE"
| "phase_state Disconnecting = STATE_DISCONNECT"
| "phase_state Stopping = STATE_STOP_COMMUNICATION_MODULE"

text \<open>The tree in a mode: the current child of a state that is not active does not matter.\<close>

fun in_mode :: "mode \<Rightarrow> 'p app \<Rightarrow> 'p appm \<Rightarrow> bool" where
  "in_mode Normal a m \<longleftrightarrow> (\<exists>d \<in> exchange_states. m = app_tree STATE_IDLE STATE_NORMAL d a)"
| "in_mode Brownout a m \<longleftrightarrow> (\<exists>d \<in> exchange_states. m = app_tree STATE_IDLE STATE_BROWNOUT d a)"
| "in_mode (Exchanging ph) a m \<longleftrightarrow> (\<exists>i \<in> idle_states. m = app_tree STATE_DATA_EXCHANGE i (phase_state ph) a)"

type_synonym 'p mode_step = "('p app \<times> mode) option"

fun mode_status :: "'p platform_ops \<Rightarrow> mode \<Rightarrow> 'p app \<Rightarrow> string" where
  "mode_status ops Normal a = ''IDLE''"
| "mode_status ops Brownout a = ''BROWNOUT''"
| "mode_status ops (Exchanging ph) a = module_status ops (platform a)"

section \<open>Commands in a mode\<close>

definition mode_execute_one :: "'p platform_ops \<Rightarrow> mode \<Rightarrow> bool \<Rightarrow> command \<Rightarrow> 'p app_step" where
  "mode_execute_one ops md allow_write c a =
     (if \<not> allow_write \<and> (command_has_argument c \<or> command_type c = COMMAND_RELOAD) then answer_busy a
      else map_option snd
        (execute_until_done ops (if command_type c = COMMAND_STATUS then mode_status ops md a else []) c a))"

partial_function (option) mode_execute :: "'p platform_ops \<Rightarrow> mode \<Rightarrow> bool \<Rightarrow> 'p app_step" where
  "mode_execute ops md allow_write a = do {
     r \<leftarrow> circular_buffer_pop True (app_commands a);
     (let a = a\<lparr>app_commands := snd (snd r)\<rparr> in
      case fst (snd r) of
        None \<Rightarrow> Some a
      | Some c \<Rightarrow> do { a \<leftarrow> mode_execute_one ops md allow_write c a; mode_execute ops md allow_write a })
   }"

section \<open>The table\<close>

definition settle :: "'p app \<Rightarrow> 'p app \<times> mode" where
  "settle a = (enter_idle a, if brownout a then Brownout else Normal)"

definition enter_phase :: "'p platform_ops \<Rightarrow> 'p comm_ops \<Rightarrow> phase \<Rightarrow> 'p app \<Rightarrow> 'p mode_step" where
  "enter_phase ops cops ph a =
     map_option (\<lambda>a. (a, Exchanging ph)) (enter_exchange_state ops cops (phase_state ph) a)"

definition usb_connected :: "'p app_step" where
  "usb_connected a = do {
     let a = a\<lparr>no_connection_count := 0, no_connection_heartbeat := cfg_system_heartbeat (app_config a)\<rparr>;
     a \<leftarrow> start_heartbeat (cfg_system_heartbeat (app_config a)) a;
     b \<leftarrow> circular_buffer_clear NUL (app_command_string a);
     Some (a\<lparr>app_command_string := b\<rparr>)
   }"

definition mode_commands :: "'p platform_ops \<Rightarrow> mode \<Rightarrow> bool \<Rightarrow> 'p app_step" where
  "mode_commands ops md allow_write a = do {
     a \<leftarrow> extract_commands ops a;
     mode_execute ops md allow_write a
   }"

definition idle_event :: "'p platform_ops \<Rightarrow> 'p comm_ops \<Rightarrow> mode \<Rightarrow> u8 \<Rightarrow> 'p app \<Rightarrow> 'p mode_step" where
  "idle_event ops cops md e a =
     (if e = EVENT_ALARM \<or> e = EVENT_HEARTBEAT then
        (if md = Brownout then Some (a, md)
         else map_option (\<lambda>a. (a, Exchanging Sending)) (start_exchange ops cops a))
      else if e = EVENT_ACQUIRE then
        (if cfg_atmo_status (app_config a) \<and> \<not> sensor_readings_buffer_full (app_readings a)
         then map_option settle (acquire ops a) else Some (a, md))
      else if e = EVENT_COMMAND_RECEIVED then
        map_option (\<lambda>a. (a, md)) (mode_commands ops md True a)
      else if e = EVENT_RESET then Some (a\<lparr>platform := system_reset ops (platform a)\<rparr>, md)
      else if e = EVENT_USB_CONNECTED then
        map_option (\<lambda>a. (a, Normal))
          (usb_connected (if md = Brownout
             then (send_command_response_string ''STATUS IDLE;'' a)\<lparr>brownout := False\<rparr> else a))
      else Some (a, md))"

fun phase_done :: "'p platform_ops \<Rightarrow> 'p comm_ops \<Rightarrow> phase \<Rightarrow> 'p app \<Rightarrow> 'p mode_step" where
  "phase_done ops cops Sending a =
     enter_phase ops cops
       (if is_communication_protocol_success (comm_result cops a) then Receiving else Stopping)
       (append_to_result (comm_result cops a) a)"
| "phase_done ops cops Receiving a =
     (let r = comm_result cops a; a = append_to_result r a in
      if \<not> is_communication_protocol_success r then enter_phase ops cops Stopping a
      else if circular_buffer_size (app_commands a) > 0 then do {
        a \<leftarrow> remove_sent a;
        a \<leftarrow> mode_execute ops (Exchanging Receiving) True a;
        enter_phase ops cops (if sensor_readings_count (app_readings a) > 0 then Sending else Disconnecting) a
      } else enter_phase ops cops Disconnecting a)"
| "phase_done ops cops Disconnecting a =
     enter_phase ops cops Stopping (append_to_result (comm_result cops a) a)"
| "phase_done ops cops Stopping a = do {
     let t = cbd_protocol (app_result a);
     let t = t\<lparr>cptd_module := append_communication_module_type_data (module_result cops a) (cptd_module t)\<rparr>;
     a \<leftarrow> leave_exchange ops (a\<lparr>app_result := (app_result a)\<lparr>cbd_protocol := t\<rparr>\<rparr>);
     Some (settle a)
   }"

definition phase_process :: "'p platform_ops \<Rightarrow> 'p comm_ops \<Rightarrow> phase \<Rightarrow> 'p app_step" where
  "phase_process ops cops ph a = do {
     (again, a) \<leftarrow> (if ph = Stopping then module_process cops (stop_handle a) a
                    else comm_process cops (process_handle a) a);
     post_event ops (if again then EVENT_COMMUNICATION_PROTOCOL_PROCESS
                     else EVENT_COMMUNICATION_PROTOCOL_DONE) a
   }"

definition exchange_event :: "'p platform_ops \<Rightarrow> 'p comm_ops \<Rightarrow> phase \<Rightarrow> u8 \<Rightarrow> 'p app \<Rightarrow> 'p mode_step" where
  "exchange_event ops cops ph e a =
     (if e = EVENT_COMMUNICATION_PROTOCOL_DONE then phase_done ops cops ph a
      else map_option (\<lambda>a. (a, Exchanging ph))
       (if e = EVENT_COMMUNICATION_PROTOCOL_PROCESS then phase_process ops cops ph a
        else if e = EVENT_COMMAND_RECEIVED then mode_commands ops (Exchanging ph) False a
        else if e = EVENT_ACQUIRE \<or> e = EVENT_HEARTBEAT then post_event ops e a
        else if e = EVENT_USB_CONNECTED then usb_connected a
        else Some a))"

fun mode_event :: "'p platform_ops \<Rightarrow> 'p comm_ops \<Rightarrow> u8 \<Rightarrow> 'p app \<times> mode \<Rightarrow> 'p mode_step" where
  "mode_event ops cops e (a, Exchanging ph) = exchange_event ops cops ph e a"
| "mode_event ops cops e (a, md) = idle_event ops cops md e a"

section \<open>Commands on the tree\<close>

lemma innermost_step:
  "current_state m n = Some None \<Longrightarrow> innermost m n = Some n"
  "current_state m n = Some (Some i) \<Longrightarrow> innermost m n = innermost m (Node i)"
  by (simp_all add: innermost.simps [of m n])

lemma readable_name_step:
  "parent n = None \<Longrightarrow> get_state_human_readable_name name parent n =
     Some (case name n of None \<Rightarrow> [] | Some s \<Rightarrow> s)"
  "parent n = Some k \<Longrightarrow> get_state_human_readable_name name parent n = do {
     p \<leftarrow> get_state_human_readable_name name parent k;
     Some ((if p \<noteq> [] then p @ ''-'' else []) @ (case name n of None \<Rightarrow> [] | Some s \<Rightarrow> s))
   }"
  by (simp_all add: get_state_human_readable_name.simps [of name parent n])

lemma get_status_in_mode:
  assumes "in_mode md a m"
  shows "get_status ops m = Some (mode_status ops md a)"
proof (cases md)
  case (Exchanging ph)
  with assms show ?thesis by (auto simp: get_status_def)
next
  case Normal
  with assms obtain d where m: "m = app_tree STATE_IDLE STATE_NORMAL d a" by auto
  have "get_state_human_readable_name state_name (parent_node m) (Node STATE_NORMAL) = Some ''IDLE''"
    by (simp add: m readable_name_step app_parents_def app_state_defs eval_nat_numeral)
  moreover have "innermost m Root = Some (Node STATE_NORMAL)" by (simp add: m innermost_step)
  ultimately show ?thesis using Normal m by (simp add: get_status_def app_state_defs)
next
  case Brownout
  with assms obtain d where m: "m = app_tree STATE_IDLE STATE_BROWNOUT d a" by auto
  have "get_state_human_readable_name state_name (parent_node m) (Node STATE_BROWNOUT) = Some ''BROWNOUT''"
    by (simp add: m readable_name_step app_parents_def app_state_defs eval_nat_numeral)
  moreover have "innermost m Root = Some (Node STATE_BROWNOUT)" by (simp add: m innermost_step)
  ultimately show ?thesis using Brownout m by (simp add: get_status_def app_state_defs)
qed

lemma in_mode_world:
  "in_mode md a m \<Longrightarrow> world m = a"
  "in_mode md a m \<Longrightarrow> in_mode md a' (m\<lparr>world := a'\<rparr>)"
  by (cases md; auto)+

lemma execute_one_in_mode:
  assumes "in_mode md a m"
  shows "execute_one ops w c m = map_option (\<lambda>a. m\<lparr>world := a\<rparr>) (mode_execute_one ops md w c a)"
  using assms in_mode_world(1) [OF assms]
  by (auto simp: execute_one_def mode_execute_one_def lift_app_def get_status_in_mode
      split: Option.bind_split)

lemma execute_commands_to_mode:
  assumes run: "execute_commands ops w m = Some m'" and m: "in_mode md a m"
  shows "\<exists>a'. mode_execute ops md w a = Some a' \<and> m' = m\<lparr>world := a'\<rparr>"
proof -
  have "\<forall>a. in_mode md a m \<longrightarrow> (\<exists>a'. mode_execute ops md w a = Some a' \<and> m' = m\<lparr>world := a'\<rparr>)"
  proof (rule execute_commands.raw_induct [where P = "\<lambda>ops w m m'. \<forall>a. in_mode md a m \<longrightarrow>
      (\<exists>a'. mode_execute ops md w a = Some a' \<and> m' = m\<lparr>world := a'\<rparr>)", OF _ run], intro allI impI)
    fix f :: "'a platform_ops \<Rightarrow> bool \<Rightarrow> 'a step" and ops w m m' a
    assume IH: "\<And>ops w m m'. f ops w m = Some m' \<Longrightarrow> \<forall>a. in_mode md a m \<longrightarrow>
        (\<exists>a'. mode_execute ops md w a = Some a' \<and> m' = m\<lparr>world := a'\<rparr>)"
      and body: "(do {
        r \<leftarrow> circular_buffer_pop True (app_commands (world m));
        (let m' = m\<lparr>world := (world m)\<lparr>app_commands := snd (snd r)\<rparr>\<rparr> in
         case fst (snd r) of
           None \<Rightarrow> Some m'
         | Some c \<Rightarrow> do { m'' \<leftarrow> execute_one ops w c m'; f ops w m'' }) }) = Some m'"
      and m: "in_mode md a m"
    from m have a: "world m = a" by (rule in_mode_world)
    from body a obtain r where r: "circular_buffer_pop True (app_commands a) = Some r"
      and c: "(case fst (snd r) of
          None \<Rightarrow> Some (m\<lparr>world := a\<lparr>app_commands := snd (snd r)\<rparr>\<rparr>)
        | Some c \<Rightarrow> do {
            m'' \<leftarrow> execute_one ops w c (m\<lparr>world := a\<lparr>app_commands := snd (snd r)\<rparr>\<rparr>);
            f ops w m'' }) = Some m'"
      by (auto simp: bind_eq_Some_conv Let_def)
    note unfold = mode_execute.simps [of ops md w a] r Let_def
    show "\<exists>a'. mode_execute ops md w a = Some a' \<and> m' = m\<lparr>world := a'\<rparr>"
    proof (cases "fst (snd r)")
      case None
      with c show ?thesis by (auto simp: unfold)
    next
      case (Some x)
      let ?b = "a\<lparr>app_commands := snd (snd r)\<rparr>"
      have m1: "in_mode md ?b (m\<lparr>world := ?b\<rparr>)" using m by (rule in_mode_world)
      from c Some execute_one_in_mode [OF m1, of ops w x] obtain a1 where
        a1: "mode_execute_one ops md w x ?b = Some a1" "f ops w (m\<lparr>world := a1\<rparr>) = Some m'"
        by (auto simp: bind_eq_Some_conv)
      have "in_mode md a1 (m\<lparr>world := a1\<rparr>)" using m by (rule in_mode_world)
      with IH [OF a1(2)] a1(1) Some show ?thesis by (auto simp: unfold)
    qed
  qed
  with m show ?thesis by blast
qed

lemma mode_execute_to_commands:
  assumes run: "mode_execute ops md w a = Some a'" and m: "in_mode md a m"
  shows "execute_commands ops w m = Some (m\<lparr>world := a'\<rparr>)"
proof -
  have "\<forall>m. in_mode md a m \<longrightarrow> execute_commands ops w m = Some (m\<lparr>world := a'\<rparr>)"
  proof (rule mode_execute.raw_induct [where P = "\<lambda>ops md w a a'. \<forall>m. in_mode md a m \<longrightarrow>
      execute_commands ops w m = Some (m\<lparr>world := a'\<rparr>)", OF _ run], intro allI impI)
    fix f :: "'a platform_ops \<Rightarrow> mode \<Rightarrow> bool \<Rightarrow> 'a app_step" and ops md w a a' m
    assume IH: "\<And>ops md w a a'. f ops md w a = Some a' \<Longrightarrow> \<forall>m. in_mode md a m \<longrightarrow>
        execute_commands ops w m = Some (m\<lparr>world := a'\<rparr>)"
      and body: "(do {
        r \<leftarrow> circular_buffer_pop True (app_commands a);
        (let a = a\<lparr>app_commands := snd (snd r)\<rparr> in
         case fst (snd r) of
           None \<Rightarrow> Some a
         | Some c \<Rightarrow> do { a \<leftarrow> mode_execute_one ops md w c a; f ops md w a }) }) = Some a'"
      and m: "in_mode md a m"
    from m have a: "world m = a" by (rule in_mode_world)
    from body obtain r where r: "circular_buffer_pop True (app_commands a) = Some r"
      and c: "(case fst (snd r) of
          None \<Rightarrow> Some (a\<lparr>app_commands := snd (snd r)\<rparr>)
        | Some c \<Rightarrow> do { a \<leftarrow> mode_execute_one ops md w c (a\<lparr>app_commands := snd (snd r)\<rparr>); f ops md w a }) = Some a'"
      by (auto simp: bind_eq_Some_conv Let_def)
    note unfold = execute_commands.simps [of ops w m] r Let_def a
    show "execute_commands ops w m = Some (m\<lparr>world := a'\<rparr>)"
    proof (cases "fst (snd r)")
      case None
      with c show ?thesis by (auto simp: unfold)
    next
      case (Some x)
      let ?b = "a\<lparr>app_commands := snd (snd r)\<rparr>"
      have m1: "in_mode md ?b (m\<lparr>world := ?b\<rparr>)" using m by (rule in_mode_world)
      from c Some obtain a1 where a1: "mode_execute_one ops md w x ?b = Some a1" "f ops md w a1 = Some a'"
        by (auto simp: bind_eq_Some_conv)
      have "in_mode md a1 (m\<lparr>world := a1\<rparr>)" using m by (rule in_mode_world)
      with IH [OF a1(2)] a1(1) Some execute_one_in_mode [OF m1, of ops w x] show ?thesis
        by (auto simp: unfold)
    qed
  qed
  with m show ?thesis by blast
qed

lemma execute_commands_in_mode:
  assumes "in_mode md a m"
  shows "execute_commands ops w m = map_option (\<lambda>a. m\<lparr>world := a\<rparr>) (mode_execute ops md w a)"
proof (cases "mode_execute ops md w a")
  case None
  with execute_commands_to_mode [OF _ assms] show ?thesis
    by (cases "execute_commands ops w m") force+
next
  case (Some a')
  with mode_execute_to_commands [OF Some assms] show ?thesis by simp
qed

section \<open>Dispatch is the table\<close>

abbreviation app_dispatch :: "'p platform_ops \<Rightarrow> 'p comm_ops \<Rightarrow> u8 \<Rightarrow> 'p appm \<Rightarrow> (bool \<times> 'p appm) option" where
  "app_dispatch ops cops \<equiv> state_machine_process_event (app_handlers ops cops (app_transition ops cops)) Root"

definition simulates :: "(bool \<times> 'p appm) option \<Rightarrow> 'p mode_step \<Rightarrow> bool" where
  "simulates r s \<longleftrightarrow> rel_option (\<lambda>(_, m) (a, md). in_mode md a m) r s"

lemma simulates_Some: "simulates (Some (p, m)) (Some (a, md)) \<longleftrightarrow> in_mode md a m"
  by (simp add: simulates_def)

lemma simulates_map:
  "(\<And>x. in_mode (snd (g x)) (fst (g x)) (snd (f x))) \<Longrightarrow> simulates (map_option f r) (map_option g r)"
  by (cases r) (auto simp: simulates_def split_def)

lemma app_transitions:
  "i \<in> idle_states \<Longrightarrow> app_transition ops cops STATE_DATA_EXCHANGE (app_tree STATE_IDLE i d a) =
     map_option (app_tree STATE_DATA_EXCHANGE i STATE_SEND) (start_exchange ops cops a)"
  "d \<in> exchange_states \<Longrightarrow> d' \<in> exchange_states \<Longrightarrow>
   app_transition ops cops d' (app_tree STATE_DATA_EXCHANGE i d a) =
     map_option (app_tree STATE_DATA_EXCHANGE i d') (enter_exchange_state ops cops d' a)"
  "i \<in> idle_states \<Longrightarrow> d \<in> exchange_states \<Longrightarrow>
   app_transition ops cops STATE_IDLE (app_tree STATE_DATA_EXCHANGE i d a) =
     map_option (\<lambda>a. app_tree STATE_IDLE (idle_child a) d (enter_idle a)) (leave_exchange ops a)"
  "i \<in> idle_states \<Longrightarrow> app_transition ops cops STATE_ACQUISITION (app_tree STATE_IDLE i d a) =
     map_option (\<lambda>a. app_tree STATE_IDLE (idle_child a) d (enter_idle a)) (acquire ops a)"
  "app_transition ops cops STATE_NORMAL (app_tree STATE_IDLE STATE_BROWNOUT d a) =
     Some (app_tree STATE_IDLE STATE_NORMAL d ((send_command_response_string ''STATUS IDLE;'' a)\<lparr>brownout := False\<rparr>))"
proof -
  have three: "(3 :: nat) = Suc (Suc (Suc 0))" by simp
  show "app_transition ops cops STATE_DATA_EXCHANGE (app_tree STATE_IDLE i d a) =
     map_option (app_tree STATE_DATA_EXCHANGE i STATE_SEND) (start_exchange ops cops a)" if "i \<in> idle_states"
    unfolding app_transition_def three using that by (rule to_exchange)
  show "app_transition ops cops d' (app_tree STATE_DATA_EXCHANGE i d a) =
     map_option (app_tree STATE_DATA_EXCHANGE i d') (enter_exchange_state ops cops d' a)"
    if "d \<in> exchange_states" "d' \<in> exchange_states"
    unfolding app_transition_def three using that by (rule to_exchange_state)
  show "app_transition ops cops STATE_IDLE (app_tree STATE_DATA_EXCHANGE i d a) =
     map_option (\<lambda>a. app_tree STATE_IDLE (idle_child a) d (enter_idle a)) (leave_exchange ops a)"
    if "i \<in> idle_states" "d \<in> exchange_states"
    unfolding app_transition_def three to_idle(3) [OF that] by (cases "leave_exchange ops a") simp_all
  show "app_transition ops cops STATE_ACQUISITION (app_tree STATE_IDLE i d a) =
     map_option (\<lambda>a. app_tree STATE_IDLE (idle_child a) d (enter_idle a)) (acquire ops a)"
    if "i \<in> idle_states"
    unfolding app_transition_def three to_acquisition [OF that] by (cases "acquire ops a") simp_all
  show "app_transition ops cops STATE_NORMAL (app_tree STATE_IDLE STATE_BROWNOUT d a) =
     Some (app_tree STATE_IDLE STATE_NORMAL d ((send_command_response_string ''STATUS IDLE;'' a)\<lparr>brownout := False\<rparr>))"
    unfolding app_transition_def three by (rule to_normal)
qed

lemma dispatch_path:
  "app_dispatch ops cops e (app_tree STATE_IDLE STATE_NORMAL d a) = do {
     r \<leftarrow> state_normal (app_transition ops cops) e (app_tree STATE_IDLE STATE_NORMAL d a);
     r \<leftarrow> (if fst r then Some r else state_idle ops (app_transition ops cops) e (snd r));
     (if fst r then Some r else wolksensor_handler ops e (snd r))
   }"
  "app_dispatch ops cops e (app_tree STATE_IDLE STATE_BROWNOUT d a) = do {
     r \<leftarrow> state_brownout (app_transition ops cops) e (app_tree STATE_IDLE STATE_BROWNOUT d a);
     r \<leftarrow> (if fst r then Some r else state_idle ops (app_transition ops cops) e (snd r));
     (if fst r then Some r else wolksensor_handler ops e (snd r))
   }"
  "h = (case ph of Sending \<Rightarrow> state_send ops cops | Receiving \<Rightarrow> state_receive ops cops
        | Disconnecting \<Rightarrow> state_disconnect ops cops | Stopping \<Rightarrow> state_stop_communication_module ops cops) \<Longrightarrow>
   app_dispatch ops cops e (app_tree STATE_DATA_EXCHANGE i (phase_state ph) a) = do {
     r \<leftarrow> h (app_transition ops cops) e (app_tree STATE_DATA_EXCHANGE i (phase_state ph) a);
     r \<leftarrow> (if fst r then Some r else state_data_exchange ops cops (app_transition ops cops) e (snd r));
     (if fst r then Some r else wolksensor_handler ops e (snd r))
   }"
  by (simp_all add: process_event_inner process_event_leaf if_not_P split: phase.splits)
    (auto intro!: bind_option_cong)

end
