(* ===== verification/App_Dispatch.thy ===== *)
theory App_Dispatch
  imports App_Modes
begin

text \<open>
  The refinement: dispatch through the handlers of \<open>SDK/application/wolksensor.c\<close> and
  \<open>SDK/core/state_machine.c\<close> is the table of \<^theory_text>\<open>App_Modes\<close>.
\<close>

section \<open>Single modes\<close>

text \<open>The events that are posted have types below 10.\<close>

lemma app_event_cases:
  assumes "e < 10"
  obtains "e = EVENT_MOVEMENT" | "e = EVENT_HEARTBEAT" | "e = EVENT_ACQUIRE" | "e = EVENT_COMMAND_RECEIVED"
    | "e = EVENT_USB_CONNECTED" | "e = EVENT_USB_DISCONNECTED" | "e = EVENT_ALARM"
    | "e = EVENT_COMMUNICATION_PROTOCOL_PROCESS" | "e = EVENT_COMMUNICATION_PROTOCOL_DONE" | "e = EVENT_RESET"
proof -
  from assms have "unat e < 10" by (simp add: word_less_nat_alt)
  then have "unat e \<in> {0,1,2,3,4,5,6,7,8,9}" by auto
  then have "e \<in> {0,1,2,3,4,5,6,7,8,9}"
    by (auto simp: word_unat_eq_iff)
  then show ?thesis using that by (auto simp: app_event_defs)
qed

lemma processed_Some [simp]: "processed p (Some m) = Some (p, m)"
  by (simp add: processed_def)

lemma bind_if_processed:
  "(do { r \<leftarrow> processed True x; (if fst r then Some r else g r) }) = processed True x"
  "(do { r \<leftarrow> processed True x; r \<leftarrow> (if fst r then Some r else f r); (if fst r then Some r else g r) }) = processed True x"
  by (cases x; simp add: processed_def)+

lemma commands_in_mode:
  assumes "\<And>a. in_mode md a (M a)" "\<And>a a'. (M a)\<lparr>world := a'\<rparr> = M a'"
  shows "map_option M (extract_commands ops a) \<bind> execute_commands ops w =
    map_option M (mode_commands ops md w a)"
  using execute_commands_in_mode [OF assms(1)]
  by (cases "extract_commands ops a") (simp_all add: mode_commands_def assms(2))

lemma commands_on_tree:
  "d \<in> exchange_states \<Longrightarrow>
   map_option (app_tree STATE_IDLE STATE_NORMAL d) (extract_commands ops a) \<bind> execute_commands ops w =
     map_option (app_tree STATE_IDLE STATE_NORMAL d) (mode_commands ops Normal w a)"
  "d \<in> exchange_states \<Longrightarrow>
   map_option (app_tree STATE_IDLE STATE_BROWNOUT d) (extract_commands ops a) \<bind> execute_commands ops w =
     map_option (app_tree STATE_IDLE STATE_BROWNOUT d) (mode_commands ops Brownout w a)"
  "i \<in> idle_states \<Longrightarrow>
   map_option (app_tree STATE_DATA_EXCHANGE i (phase_state ph)) (extract_commands ops a) \<bind> execute_commands ops w =
     map_option (app_tree STATE_DATA_EXCHANGE i (phase_state ph)) (mode_commands ops (Exchanging ph) w a)"
  by (rule commands_in_mode; auto)+

lemma simulates_processed:
  "(\<And>x. in_mode (snd (g x)) (fst (g x)) (f x)) \<Longrightarrow>
   simulates (processed p (map_option f r)) (map_option g r)"
  by (cases r) (auto simp: simulates_def processed_def split_def)

lemma settled_mode:
  "d \<in> exchange_states \<Longrightarrow> in_mode (snd (settle a)) (fst (settle a)) (app_tree STATE_IDLE (idle_child a) d (enter_idle a))"
  by (auto simp: settle_def)

lemma root_usb: "wolksensor_handler ops EVENT_USB_CONNECTED (app_tree r i d a) =
    processed True (map_option (app_tree r i d) (usb_connected a))"
  by (simp add: wolksensor_handler_def usb_connected_def)

lemma normal_simulates:
  assumes d: "d \<in> exchange_states" and e: "e < 10"
  shows "simulates (app_dispatch ops cops e (app_tree STATE_IDLE STATE_NORMAL d a)) (idle_event ops cops Normal e a)"
proof -
  note path = dispatch_path(1) state_normal_def state_idle_def idle_event_def bind_if_processed app_transitions
  show ?thesis
    using e
  proof (cases rule: app_event_cases)
    case 2
    then show ?thesis using d
      by (simp add: path) (rule simulates_processed, auto)
  next
    case 3
    show ?thesis
    proof (cases "cfg_atmo_status (app_config a) \<and> \<not> sensor_readings_buffer_full (app_readings a)")
      case True
      with 3 show ?thesis
        by (simp add: path) (rule simulates_processed, rule settled_mode [OF d])
    next
      case False
      with 3 d show ?thesis by (auto simp: path processed_def simulates_Some)
    qed
  next
    case 4
    then show ?thesis using d
      by (simp add: path commands_on_tree(1,2) [OF d]) (rule simulates_processed, auto)
  next
    case 5
    then show ?thesis using d
      by (simp add: path root_usb) (rule simulates_processed, auto)
  next
    case 7
    then show ?thesis using d
      by (simp add: path) (rule simulates_processed, auto)
  qed (use d in \<open>auto simp: path wolksensor_handler_def simulates_Some\<close>)
qed

lemma brownout_simulates:
  assumes d: "d \<in> exchange_states" and e: "e < 10"
  shows "simulates (app_dispatch ops cops e (app_tree STATE_IDLE STATE_BROWNOUT d a)) (idle_event ops cops Brownout e a)"
proof -
  note path = dispatch_path(2) state_brownout_def state_idle_def idle_event_def bind_if_processed app_transitions
  show ?thesis
    using e
  proof (cases rule: app_event_cases)
      case 3
    show ?thesis
    proof (cases "cfg_atmo_status (app_config a) \<and> \<not> sensor_readings_buffer_full (app_readings a)")
      case True
      with 3 show ?thesis
        by (simp add: path) (rule simulates_processed, rule settled_mode [OF d])
    next
      case False
      with 3 d show ?thesis by (auto simp: path processed_def simulates_Some)
    qed
  next
    case 4
    then show ?thesis using d
      by (simp add: path commands_on_tree(1,2) [OF d]) (rule simulates_processed, auto)
  next
    case 5
    then show ?thesis using d
      by (simp add: path root_usb) (rule simulates_processed, auto)
  qed (use d in \<open>auto simp: path wolksensor_handler_def simulates_Some\<close>)
qed

lemma phase_state_exchange [simp]: "phase_state ph \<in> exchange_states"
  by (cases ph) auto

lemma phase_transition:
  "app_transition ops cops (phase_state ph') (app_tree STATE_DATA_EXCHANGE i (phase_state ph) a) =
     map_option (app_tree STATE_DATA_EXCHANGE i (phase_state ph')) (enter_exchange_state ops cops (phase_state ph') a)"
  by (rule app_transitions(2)) (rule phase_state_exchange)+

lemma phase_transition_idle:
  "i \<in> idle_states \<Longrightarrow>
   app_transition ops cops STATE_IDLE (app_tree STATE_DATA_EXCHANGE i (phase_state ph) a) =
     map_option (\<lambda>a. app_tree STATE_IDLE (idle_child a) (phase_state ph) (enter_idle a)) (leave_exchange ops a)"
  by (rule app_transitions(3)) (assumption, rule phase_state_exchange)

lemma simulates_enter_phase:
  assumes "i \<in> idle_states"
  shows "simulates (processed p (app_transition ops cops (phase_state ph') (app_tree STATE_DATA_EXCHANGE i (phase_state ph) a)))
    (enter_phase ops cops ph' a)"
  unfolding phase_transition enter_phase_def
  by (rule simulates_processed) (use assms in auto)

text \<open>The innermost handler of a phase.\<close>

fun phase_handler :: "'p platform_ops \<Rightarrow> 'p comm_ops \<Rightarrow> phase \<Rightarrow> 'p app handler" where
  "phase_handler ops cops Sending = state_send ops cops (app_transition ops cops)"
| "phase_handler ops cops Receiving = state_receive ops cops (app_transition ops cops)"
| "phase_handler ops cops Disconnecting = state_disconnect ops cops (app_transition ops cops)"
| "phase_handler ops cops Stopping = state_stop_communication_module ops cops (app_transition ops cops)"

lemma phase_path:
  "app_dispatch ops cops e (app_tree STATE_DATA_EXCHANGE i (phase_state ph) a) = do {
     r \<leftarrow> phase_handler ops cops ph e (app_tree STATE_DATA_EXCHANGE i (phase_state ph) a);
     r \<leftarrow> (if fst r then Some r else state_data_exchange ops cops (app_transition ops cops) e (snd r));
     (if fst r then Some r else wolksensor_handler ops e (snd r))
   }"
  by (subst dispatch_path(3) [OF refl]) (cases ph; simp)

lemma phase_handler_ignores:
  assumes "e \<noteq> EVENT_ENTERING_STATE" "e \<noteq> EVENT_COMMUNICATION_PROTOCOL_DONE"
    "e \<noteq> EVENT_COMMUNICATION_PROTOCOL_PROCESS \<or> ph \<noteq> Stopping"
  shows "phase_handler ops cops ph e m = Some (False, m)"
  using assms by (cases ph) (auto simp: state_send_def state_receive_def state_disconnect_def
      state_stop_communication_module_def)

lemma phase_done_simulates:
  assumes i: "i \<in> idle_states"
  shows "simulates (phase_handler ops cops ph EVENT_COMMUNICATION_PROTOCOL_DONE
      (app_tree STATE_DATA_EXCHANGE i (phase_state ph) a)) (phase_done ops cops ph a)"
proof (cases ph)
  case Sending
  have "simulates (processed True (app_transition ops cops
      (phase_state (if is_communication_protocol_success (comm_result cops a) then Receiving else Stopping))
      (app_tree STATE_DATA_EXCHANGE i (phase_state Sending) (append_to_result (comm_result cops a) a))))
    (phase_done ops cops Sending a)"
    unfolding phase_done.simps by (rule simulates_enter_phase [OF i])
  with Sending show ?thesis by (simp add: state_send_def split: if_splits)
next
  case Disconnecting
  from simulates_enter_phase [OF i, of True ops cops Stopping Disconnecting] Disconnecting show ?thesis
    by (simp add: state_disconnect_def)
next
  case Stopping
  let ?t = "cbd_protocol (app_result a)"
  let ?a = "a\<lparr>app_result := (app_result a)\<lparr>cbd_protocol := ?t\<lparr>cptd_module :=
    append_communication_module_type_data (module_result cops a) (cptd_module ?t)\<rparr>\<rparr>\<rparr>"
  have "simulates (processed True (app_transition ops cops STATE_IDLE
      (app_tree STATE_DATA_EXCHANGE i (phase_state Stopping) ?a))) (map_option settle (leave_exchange ops ?a))"
    unfolding phase_transition_idle [OF i] by (rule simulates_processed, rule settled_mode) simp
  moreover have "phase_done ops cops Stopping a = map_option settle (leave_exchange ops ?a)"
    by (cases "leave_exchange ops ?a") (simp_all add: Let_def)
  ultimately show ?thesis using Stopping by (simp add: state_stop_communication_module_def Let_def)
next
  case Receiving
  let ?r = "comm_result cops a"
  let ?a = "append_to_result ?r a"
  let ?T = "app_tree STATE_DATA_EXCHANGE i (phase_state Receiving)"
  have enter: "simulates (processed True (app_transition ops cops (phase_state ph') (?T b))) (enter_phase ops cops ph' b)"
    for ph' b by (rule simulates_enter_phase [OF i])
  have run: "execute_commands ops True (?T b) = map_option ?T (mode_execute ops (Exchanging Receiving) True b)" for b
    by (subst execute_commands_in_mode [where a = b and md = "Exchanging Receiving"]) (use i in auto)
  note code = state_receive_def Let_def Receiving
  consider "\<not> is_communication_protocol_success ?r"
    | "is_communication_protocol_success ?r" "circular_buffer_size (app_commands ?a) = 0"
    | "is_communication_protocol_success ?r" "circular_buffer_size (app_commands ?a) > 0"
    using word_neq_0_conv by blast
  then show ?thesis
  proof cases
    case 1
    with enter [of Stopping ?a] show ?thesis by (simp add: code)
  next
    case 2
    with enter [of Disconnecting ?a] show ?thesis by (simp add: code)
  next
    case 3
    show ?thesis
    proof (cases "remove_sent ?a \<bind> mode_execute ops (Exchanging Receiving) True")
      case None
      with 3 run show ?thesis
        by (cases "remove_sent ?a") (auto simp: code processed_def simulates_def)
    next
      case (Some b)
      then obtain b' where "remove_sent ?a = Some b'" "mode_execute ops (Exchanging Receiving) True b' = Some b"
        by (auto simp: bind_eq_Some_conv)
      with 3 run [of b'] enter [of Sending b] enter [of Disconnecting b] show ?thesis
        by (simp add: code)
    qed
  qed
qed

lemma simulates_unprocessed:
  "simulates x s \<Longrightarrow> x = processed True y \<Longrightarrow>
   simulates (do { r \<leftarrow> x; (if fst r then Some r else g r) }) s"
  by (simp add: bind_if_processed)

lemma map_option_bind: "map_option f (x \<bind> g) = x \<bind> (\<lambda>y. map_option f (g y))"
  by (cases x) simp_all

lemma exchange_simulates:
  assumes i: "i \<in> idle_states" and e: "e < 10"
  shows "simulates (app_dispatch ops cops e (app_tree STATE_DATA_EXCHANGE i (phase_state ph) a))
    (exchange_event ops cops ph e a)"
proof -
  let ?T = "app_tree STATE_DATA_EXCHANGE i (phase_state ph)"
  have T: "in_mode (Exchanging ph) b (?T b)" for b using i by auto
  have entering: "e \<noteq> EVENT_ENTERING_STATE" using e by (auto simp: app_event_defs)
  note rest = phase_path phase_handler_ignores exchange_event_def state_data_exchange_def bind_if_processed
  show ?thesis
    using e
  proof (cases rule: app_event_cases)
    case 2
    then show ?thesis
      by (simp add: rest wolksensor_handler_def post_def) (rule simulates_processed, use T in simp)
  next
    case 3
    then show ?thesis
      by (simp add: rest wolksensor_handler_def post_def) (rule simulates_processed, use T in simp)
  next
    case 4
    then show ?thesis
      by (simp add: rest commands_on_tree(3) [OF i] del: in_mode.simps)
         (rule simulates_processed, use T in simp)
  next
    case 5
    then show ?thesis
      by (simp add: rest root_usb) (rule simulates_processed, use T in simp)
  next
    case 8
    show ?thesis
    proof (cases "ph = Stopping")
      case True
      have "app_dispatch ops cops e (?T a) = processed True (map_option ?T (phase_process ops cops ph a))"
        unfolding phase_path using 8 True
        by (simp add: state_stop_communication_module_def phase_process_def post_def
            bind_if_processed map_option_bind split_def)
      with 8 show ?thesis
        by (simp add: exchange_event_def) (rule simulates_processed, use T in simp)
    next
      case False
      have "app_dispatch ops cops e (?T a) = processed True (map_option ?T (phase_process ops cops ph a))"
        using 8 False by (simp add: phase_path phase_handler_ignores state_data_exchange_def phase_process_def
            post_def bind_if_processed map_option_bind split_def)
      with 8 show ?thesis
        by (simp add: exchange_event_def) (rule simulates_processed, use T in simp)
    qed
  next
    case 9
    have "\<exists>y. phase_handler ops cops ph EVENT_COMMUNICATION_PROTOCOL_DONE (?T a) = processed True y"
      by (cases ph) (auto simp: state_send_def state_receive_def state_disconnect_def
          state_stop_communication_module_def Let_def)
    with phase_done_simulates [OF i, of ops cops ph a] 9 show ?thesis
      by (auto simp: phase_path exchange_event_def bind_if_processed)
  qed (use T in \<open>simp_all add: rest wolksensor_handler_def simulates_Some del: in_mode.simps\<close>)
qed

text \<open>The innermost states, their parents and the root together do what the table says.\<close>

lemma dispatch_simulates:
  assumes m: "in_mode md a m" and e: "e < 10"
  shows "simulates (app_dispatch ops cops e m) (mode_event ops cops e (a, md))"
proof (cases md)
  case Normal
  with m normal_simulates [OF _ e] show ?thesis by auto
next
  case Brownout
  with m brownout_simulates [OF _ e] show ?thesis by auto
next
  case (Exchanging ph)
  with m obtain i where i: "i \<in> idle_states" "m = app_tree STATE_DATA_EXCHANGE i (phase_state ph) a"
    by auto
  from exchange_simulates [OF i(1) e] show ?thesis by (simp add: i(2) Exchanging)
qed

section \<open>One event of the queue\<close>

definition mode_process :: "'p platform_ops \<Rightarrow> 'p comm_ops \<Rightarrow> 'p app \<times> mode \<Rightarrow> (bool \<times> 'p app \<times> mode) option" where
  "mode_process ops cops s = do {
     (ok, ev, b) \<leftarrow> pop_event (app_events (fst s));
     let a = (fst s)\<lparr>app_events := b\<rparr>;
     (case ev of None \<Rightarrow> Some (False, a, snd s)
      | Some e \<Rightarrow> map_option (Pair True) (mode_event ops cops (event_type e) (a, snd s)))
   }"

definition known_events :: "'p app \<Rightarrow> bool" where
  "known_events a \<longleftrightarrow> event_queue (app_events a) \<and> (\<forall>t \<in> set (event_types (app_events a)). t < 10)"

lemma pop_known_event:
  assumes "known_events a"
  obtains b' where "pop_event (app_events a) = Some (False, None, b')" "event_types (app_events a) = []"
  | e b' where "pop_event (app_events a) = Some (True, Some e, b')" "event_type e < 10"
      "event_types (app_events a) = event_type e # event_types b'" "event_queue b'"
proof -
  from assms have q: "event_queue (app_events a)" and t: "\<forall>t \<in> set (event_types (app_events a)). t < 10"
    by (simp_all add: known_events_def)
  from q obtain b' where b': "pop_event (app_events a) =
      Some (cb_list (app_events a) \<noteq> [], (case cb_list (app_events a) of [] \<Rightarrow> None | e # _ \<Rightarrow> Some e), b')"
    "event_queue b'" "cb_list b' = tl (cb_list (app_events a))"
    by (rule pop_event_ok)
  show thesis
  proof (cases "cb_list (app_events a)")
    case Nil
    with b' that(1) [of b'] show ?thesis by (simp add: event_types_def)
  next
    case (Cons e es)
    with b' t that(2) [of e b'] show ?thesis by (simp add: event_types_def)
  qed
qed

lemma in_mode_events:
  "in_mode md a m \<Longrightarrow> in_mode md (a\<lparr>app_events := b\<rparr>) (m\<lparr>world := (world m)\<lparr>app_events := b\<rparr>\<rparr>)"
  by (cases md) auto

definition same_step :: "(bool \<times> 'p appm) option \<Rightarrow> (bool \<times> 'p app \<times> mode) option \<Rightarrow> bool" where
  "same_step = rel_option (\<lambda>(p, m) (q, a, md). p = q \<and> in_mode md a m)"

text \<open>C1: Whatever mode the machine is in, processing one posted event through the hierarchy of the ten
  handlers is defined exactly when the flat table of modes and events defines a step, leaves the data
  the table says, and ends in the mode the table says.\<close>

theorem machine_follows_mode_table:
  assumes m: "in_mode md a m" and known: "known_events a"
  shows "same_step (process_wolksensor_event ops cops m) (mode_process ops cops (a, md))"
  using known
proof (cases rule: pop_known_event)
  case (1 b')
  with in_mode_events [OF m, of b'] in_mode_world(1) [OF m] show ?thesis
    by (simp add: same_step_def process_wolksensor_event_def mode_process_def)
next
  case (2 e b')
  let ?a = "a\<lparr>app_events := b'\<rparr>"
  let ?m = "m\<lparr>world := (world m)\<lparr>app_events := b'\<rparr>\<rparr>"
  from dispatch_simulates [OF in_mode_events [OF m] 2(2), of ops cops b']
  have "rel_option (\<lambda>(_, m) (a, md). in_mode md a m)
      (app_dispatch ops cops (event_type e) ?m) (mode_event ops cops (event_type e) (?a, md))"
    by (simp add: simulates_def)
  with 2(1) in_mode_world(1) [OF m] show ?thesis
    by (cases "app_dispatch ops cops (event_type e) ?m"; cases "mode_event ops cops (event_type e) (?a, md)")
       (auto simp: same_step_def process_wolksensor_event_def mode_process_def)
qed

end
