(* ===== verification/App_Samples.thy ===== *)
theory App_Samples
  imports App_Dispatch
begin

text \<open>
  A small application on a trivial platform, on which the theorems about the application are
  instantiated.
\<close>

section \<open>Buffers with given contents\<close>

definition filled :: "'a \<Rightarrow> nat \<Rightarrow> nat \<Rightarrow> bool \<Rightarrow> 'a list \<Rightarrow> 'a circular_buffer" where
  "filled z n esize wr xs = \<lparr>cb_head = 0, cb_tail = of_nat (length xs), cb_storage = xs @ replicate (n - length xs) z,
     cb_storage_size = of_nat n, cb_element_size = of_nat esize, cb_empty = (xs = []), cb_full = False, cb_wrap = wr\<rparr>"

lemma filled:
  assumes "length xs < n" "n * esize < 65536" "0 < esize"
  shows "cb_inv (filled z n esize wr xs)" "cb_list (filled z n esize wr xs) = xs"
    "cb_capacity (filled z n esize wr xs) = n" "cb_wrap (filled z n esize wr xs) = wr"
    "cb_head (filled z n esize wr xs) = 0"
proof -
  have "n \<le> n * esize" "esize \<le> n * esize" using assms by simp_all
  with assms(2) have "n < 65536" "esize < 65536" by linarith+
  then have u: "unat (of_nat n :: u16) = n" "unat (of_nat (length xs) :: u16) = length xs"
    "unat (of_nat esize :: u16) = esize"
    using assms by (simp_all add: unat_of_nat16)
  then have cap: "cb_capacity (filled z n esize wr xs) = n" by (simp add: cb_capacity_def filled_def)
  then show "cb_capacity (filled z n esize wr xs) = n" .
  show "cb_inv (filled z n esize wr xs)"
    by (rule cb_invI [where c = "length xs"], unfold cap) (use assms u in \<open>simp_all add: filled_def\<close>)
  have count: "cb_count (filled z n esize wr xs) = length xs"
    by (rule cb_invI(2) [where c = "length xs"], unfold cap) (use assms u in \<open>simp_all add: filled_def\<close>)
  show "cb_list (filled z n esize wr xs) = xs"
  proof (rule nth_equalityI)
    fix k
    assume "k < length (cb_list (filled z n esize wr xs))"
    with count have "k < length xs" by simp
    then show "cb_list (filled z n esize wr xs) ! k = xs ! k"
      using assms(1) u(1) count by (simp add: cb_list_def) (simp add: filled_def nth_append)
  qed (simp add: count)
qed (simp_all add: filled_def)

section \<open>The application\<close>

definition sample_ops :: "'p platform_ops" where
  "sample_ops = \<lparr>rtc_get = (\<lambda>_. 0), config_read = (\<lambda>_ _. None), config_write = (\<lambda>_ _ p. p),
     system_reset = id, get_usb_state = (\<lambda>_. False), enable_movement = id, disable_movement = id,
     enable_battery_voltage_monitor = id, disable_battery_voltage_monitor = id,
     get_sensors_states = (\<lambda>_ _ p. (None, p)), is_static_ip_set = None, wifi_disconnect_and_wait = None,
     close_socket_and_wait = None, module_status = (\<lambda>_. ''CONNECTING''), print_float = (\<lambda>_. ''1.0''),
     print_platform_error = (\<lambda>_. []), tmp_contents = [],
     junk_alarms = \<lparr>alarm_low = zero_alarm, alarm_high = zero_alarm\<rparr>,
     junk_command = sample_command\<rparr>"

definition sample_config :: config where
  "sample_config = \<lparr>cfg_device_preshared_key = replicate 30 NUL, cfg_device_id = replicate 30 NUL,
     cfg_system_heartbeat = 10, cfg_wifi_ssid = replicate 33 NUL, cfg_wifi_password = replicate 64 NUL,
     cfg_wifi_auth_type = 0, cfg_wifi_static_ip = replicate 30 NUL, cfg_wifi_static_mask = replicate 30 NUL,
     cfg_wifi_static_gateway = replicate 30 NUL, cfg_wifi_static_dns = replicate 30 NUL, cfg_ssl = True,
     cfg_mac_address = replicate 6 0, cfg_server_ip = replicate 30 NUL, cfg_hostname = replicate 30 NUL,
     cfg_server_port = 8883, cfg_movement_status = False, cfg_atmo_status = True, cfg_location = False,
     cfg_mqtt_username = replicate 30 NUL, cfg_mqtt_password = replicate 30 NUL,
     cfg_atmo_offset = replicate 3 (Finite 0), cfg_atmo_offset_factory = replicate 5 (Finite 0)\<rparr>"

definition sample_app :: "event list \<Rightarrow> sensor_readings list \<Rightarrow> string \<Rightarrow> nat app" where
  "sample_app evs rds text = \<lparr>app_config = sample_config, app_sensors = sample_table,
     app_readings = filled \<lparr>readings_timestamp = 0, readings_values = replicate NUMBER_OF_SENSORS (Finite 0)\<rparr>
                      150 20 False rds,
     app_system = filled zero_system_item 60 25 True [],
     app_events = filled \<lparr>event_type = 0, event_timestamp = 0\<rparr> 10 20 True evs,
     app_command_string = filled NUL 768 1 True text,
     app_commands = filled sample_command 10 66 True [],
     app_response = filled NUL 768 1 False [],
     current_heartbeat = 0, heartbeat_timer = 0, no_connection_heartbeat = 10, no_connection_count = 0,
     brownout = False, sound_alarm_retries = 0, sent_system_items = 0, sent_sensor_readings = 0,
     battery_voltage = 0, app_result = zero_result, process_handle = 0, stop_handle = 0, rtc_offset = 0,
     responses = [], platform = 0\<rparr>"

definition sample_comm :: "nat comm_ops" where
  "sample_comm = \<lparr>comm_send = (\<lambda>a. Some (1, a)), comm_receive = (\<lambda>a. Some (2, a)), comm_disconnect = (\<lambda>a. Some (3, a)),
     comm_process = (\<lambda>_ a. Some (False, a)), comm_result = (\<lambda>a. cbd_protocol zero_result),
     module_stop = (\<lambda>a. Some (4, a)), module_process = (\<lambda>_ a. Some (False, a)),
     module_result = (\<lambda>a. cptd_module (cbd_protocol zero_result))\<rparr>"

definition sample_event :: "u8 \<Rightarrow> event" where
  "sample_event ty = \<lparr>event_type = ty, event_timestamp = 0\<rparr>"

lemma sample_app_simps [simp]:
  "length evs < 10 \<Longrightarrow> event_queue (app_events (sample_app evs rds text))"
  "length evs < 10 \<Longrightarrow> event_types (app_events (sample_app evs rds text)) = map event_type evs"
  "length rds < 150 \<Longrightarrow> cb_inv (app_readings (sample_app evs rds text))"
  "length rds < 150 \<Longrightarrow> cb_list (app_readings (sample_app evs rds text)) = rds"
  "length rds < 150 \<Longrightarrow> cb_capacity (app_readings (sample_app evs rds text)) = 150"
  "message_buffer (app_response (sample_app evs rds text))"
  "cb_capacity (app_response (sample_app evs rds text)) = 768"
  "app_sensors (sample_app evs rds text) = sample_table"
  by (simp_all add: sample_app_def event_queue_def event_types_def filled message_buffer_def)

end
