(* ===== verification/Nonvolatile_Memory.thy ===== *)
theory Nonvolatile_Memory
  imports Config
begin

text \<open>
  The configuration in the EEPROM (\<open>wolksensor/src/OS/nonvolatile_memory.c\<close>): pages of 32 bytes, each with a
  field's type, its version and up to 30 bytes.  The name and the password of a network take two and three
  fields.  Writing a page is an argument: it takes the page and the bytes loaded for it.  The sizes of the EEPROM and of
  its pages come with the device, the ATxmega256C3 of \<open>WolkSensor.cproj\<close>: 4096 bytes, the last of which, 0x0FFF, is the flag
  of the bootloader.
\<close>

section \<open>Pages\<close>

type_synonym page = "u8 list"
type_synonym page_writer = "page \<Rightarrow> u8 list \<Rightarrow> page"

definition EEPROM_PAGE_SIZE :: nat where "EEPROM_PAGE_SIZE = 32"
definition EEPROM_SIZE :: nat where "EEPROM_SIZE = 4096"
definition CFG_EMPTY :: u8 where "CFG_EMPTY = 255"

primrec cfg_code :: "cfg_t \<Rightarrow> u8" where
  "cfg_code CFG_SYSTEM_HEARTBEAT = 0"
| "cfg_code CFG_SERVER_IP = 1"
| "cfg_code CFG_SERVER_PORT = 2"
| "cfg_code CFG_DEVICE_ID = 3"
| "cfg_code CFG_DEVICE_PRESHARED_KEY = 4"
| "cfg_code CFG_WIFI_SSID = 5"
| "cfg_code CFG_WIFI_PASS = 6"
| "cfg_code CFG_WIFI_AUTH = 7"
| "cfg_code CFG_MOVEMENT = 8"
| "cfg_code CFG_ATMO = 9"
| "cfg_code CFG_WIFI_STATIC_IP = 11"
| "cfg_code CFG_WIFI_STATIC_MASK = 12"
| "cfg_code CFG_WIFI_STATIC_GATEWAY = 13"
| "cfg_code CFG_WIFI_STATIC_DNS = 14"
| "cfg_code CFG_MAC = 15"
| "cfg_code CFG_LOCATION = 21"
| "cfg_code CFG_SSL = 22"
| "cfg_code CFG_MQTT_USERNAME = 23"
| "cfg_code CFG_MQTT_PASSWORD = 24"
| "cfg_code CFG_OFFSET = 25"
| "cfg_code CFG_OFFSET_FACTORY = 26"

definition CFG_WIFI_SSID_SEC :: u8 where "CFG_WIFI_SSID_SEC = 27"
definition CFG_WIFI_PASS_SEC :: u8 where "CFG_WIFI_PASS_SEC = 28"
definition CFG_WIFI_PASS_THIRD :: u8 where "CFG_WIFI_PASS_THIRD = 29"

text \<open>The loops stop before the last page.\<close>

abbreviation searched :: "page list \<Rightarrow> page list" where
  "searched e \<equiv> take ((EEPROM_SIZE - EEPROM_PAGE_SIZE) div EEPROM_PAGE_SIZE) e"

fun find_field :: "u8 \<Rightarrow> u8 \<Rightarrow> page list \<Rightarrow> page option" where
  "find_field ty version [] = None"
| "find_field ty version (p # ps) = (if p ! 0 = ty \<and> p ! 1 = version then Some p else find_field ty version ps)"

definition config_read_eeprom :: "u8 \<Rightarrow> u8 \<Rightarrow> u8 \<Rightarrow> page list \<Rightarrow> u8 list option" where
  "config_read_eeprom ty version n e =
     (if unat n > EEPROM_PAGE_SIZE - 2 then None
      else map_option (\<lambda>p. take (unat n) (drop 2 p)) (find_field ty version (searched e)))"

text \<open>The page of the field, or else the first empty one.\<close>

fun find_place :: "u8 \<Rightarrow> nat \<Rightarrow> nat option \<Rightarrow> page list \<Rightarrow> nat option" where
  "find_place ty i free [] = free"
| "find_place ty i free (p # ps) =
     (if p ! 0 = CFG_EMPTY then find_place ty (i + 1) (if free = None then Some i else free) ps
      else if p ! 0 = ty then Some i
      else find_place ty (i + 1) free ps)"

definition config_write_eeprom ::
  "page_writer \<Rightarrow> u8 list \<Rightarrow> u8 \<Rightarrow> u8 \<Rightarrow> u8 \<Rightarrow> page list \<Rightarrow> (bool \<times> page list) option" where
  "config_write_eeprom W data ty version n e =
     (if unat n > EEPROM_PAGE_SIZE - 2 then Some (False, e)
      else case find_place ty 0 None (searched e) of
        None \<Rightarrow> Some (False, e)
      | Some i \<Rightarrow> do {
          bytes \<leftarrow> array_prefix data (unat n);
          Some (True, e[i := W (e ! i) (ty # version # bytes)])
        })"

section \<open>Fields\<close>

text \<open>\<open>strncpy\<close> and \<open>strcat\<close> on arrays of bytes.\<close>

fun copy_string :: "nat \<Rightarrow> u8 list \<Rightarrow> u8 list option" where
  "copy_string 0 src = Some []"
| "copy_string (Suc n) [] = None"
| "copy_string (Suc n) (c # cs) = (if c = 0 then Some (replicate (Suc n) 0) else map_option ((#) c) (copy_string n cs))"

definition put_front :: "u8 list \<Rightarrow> u8 list \<Rightarrow> u8 list option" where
  "put_front bs dst = do { c_assert (length bs \<le> length dst); Some (bs @ drop (length bs) dst) }"

definition text_of :: "u8 list \<Rightarrow> u8 list option" where
  "text_of bs = (let s = takeWhile (\<lambda>c. c \<noteq> 0) bs in do { c_assert (length s < length bs); Some s })"

definition append_text :: "u8 list \<Rightarrow> u8 list \<Rightarrow> u8 list option" where
  "append_text dst src = do {
     s \<leftarrow> text_of dst;
     t \<leftarrow> text_of src;
     put_front (s @ t @ [0]) dst
   }"

text \<open>\<open>tmp_string\<close> after it was cleared and \<open>n\<close> bytes were read, if the field was there.\<close>

definition read_cleared :: "u8 \<Rightarrow> u8 \<Rightarrow> u8 \<Rightarrow> page list \<Rightarrow> u8 list" where
  "read_cleared ty version n e = (case config_read_eeprom ty version n e of
     None \<Rightarrow> replicate EEPROM_PAGE_SIZE 0
   | Some bs \<Rightarrow> bs @ replicate (EEPROM_PAGE_SIZE - length bs) 0)"

text \<open>\<open>sizeof(data)\<close> is the size of a pointer, two bytes.\<close>

definition eeprom_config_read :: "u8 list \<Rightarrow> u8 \<Rightarrow> u8 \<Rightarrow> u8 \<Rightarrow> page list \<Rightarrow> (bool \<times> u8 list) option" where
  "eeprom_config_read data ty version n e =
     (if ty = cfg_code CFG_WIFI_SSID then
        (case config_read_eeprom ty version 30 e of
           None \<Rightarrow> Some (False, data)
         | Some tmp \<Rightarrow> do {
             data \<leftarrow> put_front [0, 0] data;
             s \<leftarrow> copy_string 30 tmp;
             data \<leftarrow> put_front s data;
             data \<leftarrow> append_text data (read_cleared CFG_WIFI_SSID_SEC version 30 e);
             Some (True, data)
           })
      else if ty = cfg_code CFG_WIFI_PASS then do {
        data \<leftarrow> put_front [0, 0] data;
        (case config_read_eeprom ty version 30 e of
           None \<Rightarrow> Some (False, data)
         | Some tmp \<Rightarrow> do {
             s \<leftarrow> copy_string 30 tmp;
             data \<leftarrow> put_front s data;
             data \<leftarrow> append_text data (read_cleared CFG_WIFI_PASS_SEC version 30 e);
             data \<leftarrow> append_text data (read_cleared CFG_WIFI_PASS_THIRD version 3 e);
             Some (True, data)
           })
      }
      else case config_read_eeprom ty version n e of
          None \<Rightarrow> Some (False, data)
        | Some bs \<Rightarrow> do { data \<leftarrow> put_front bs data; Some (True, data) })"

definition eeprom_config_write ::
  "page_writer \<Rightarrow> u8 list \<Rightarrow> u8 \<Rightarrow> u8 \<Rightarrow> u8 \<Rightarrow> page list \<Rightarrow> (bool \<times> page list) option" where
  "eeprom_config_write W data ty version n e =
     (if ty = cfg_code CFG_WIFI_SSID \<and> unat n > 30 then do {
        tmp \<leftarrow> copy_string 30 data;
        (ok, e) \<leftarrow> config_write_eeprom W tmp ty version 30 e;
        (if \<not> ok then Some (False, e)
         else do {
           c_assert (unat n - 30 \<le> EEPROM_PAGE_SIZE);
           tmp \<leftarrow> copy_string (unat n - 30) (drop 30 data);
           config_write_eeprom W tmp CFG_WIFI_SSID_SEC version (n - 30) e
         })
      }
      else if ty = cfg_code CFG_WIFI_PASS \<and> unat n > 30 then do {
        tmp \<leftarrow> copy_string 30 data;
        (ok, e) \<leftarrow> config_write_eeprom W tmp ty version 30 e;
        (if \<not> ok then Some (False, e)
         else do {
           tmp \<leftarrow> copy_string 30 (drop 30 data);
           (ok, e) \<leftarrow> config_write_eeprom W tmp CFG_WIFI_PASS_SEC version 30 e;
           (if \<not> ok then Some (False, e)
            else do {
              c_assert (60 \<le> unat n \<and> unat n - 60 \<le> EEPROM_PAGE_SIZE);
              tmp \<leftarrow> copy_string (unat n - 60) (drop 60 data);
              config_write_eeprom W tmp CFG_WIFI_PASS_THIRD version (n - 60) e
            })
         })
      }
      else config_write_eeprom W data ty version n e)"

section \<open>The memory as a map of fields\<close>

text \<open>What is loaded is written; the rest of the page is as the hardware leaves it.\<close>

definition writes_pages :: "page_writer \<Rightarrow> bool" where
  "writes_pages W \<longleftrightarrow> (\<forall>p bs. length p = 32 \<and> length bs \<le> 32 \<longrightarrow> length (W p bs) = 32 \<and> take (length bs) (W p bs) = bs)"

definition memory_ok :: "page list \<Rightarrow> bool" where
  "memory_ok e \<longleftrightarrow> length e = 128 \<and> (\<forall>p \<in> set e. length p = 32) \<and>
     (\<forall>i < 127. \<forall>j < 127. e ! i ! 0 = e ! j ! 0 \<longrightarrow> e ! i ! 0 \<noteq> CFG_EMPTY \<longrightarrow> i = j)"

text \<open>The contents of the fields: version and bytes.\<close>

definition field :: "page list \<Rightarrow> u8 \<rightharpoonup> u8 list" where
  "field e ty = (if ty = CFG_EMPTY then None else map_option (drop 1) (find (\<lambda>p. p ! 0 = ty) (take 127 e)))"

declare EEPROM_SIZE_def [simp] EEPROM_PAGE_SIZE_def [simp]

lemma memory_unique: "memory_ok e \<Longrightarrow> i < 127 \<Longrightarrow> j < 127 \<Longrightarrow> e ! i ! 0 = e ! j ! 0 \<Longrightarrow> e ! j ! 0 \<noteq> CFG_EMPTY \<Longrightarrow> i = j"
  unfolding memory_ok_def by metis

lemma memory_sizes: "memory_ok e \<Longrightarrow> length e = 128" "memory_ok e \<Longrightarrow> i < 128 \<Longrightarrow> length (e ! i) = 32"
  by (auto simp: memory_ok_def)

lemma page_split:
  assumes "length p = 32"
  shows "p = p ! 0 # p ! 1 # drop 2 p"
  using assms by (cases p; cases "tl p") auto

lemma field_at:
  assumes "memory_ok e" "i < 127" "e ! i ! 0 = ty" "ty \<noteq> CFG_EMPTY"
  shows "field e ty = Some (drop 1 (e ! i))"
proof -
  have "e ! j ! 0 \<noteq> ty" if "j < i" for j using memory_unique [OF assms(1), of j i] assms that by auto
  then have "find (\<lambda>p. p ! 0 = ty) (take 127 e) = Some (e ! i)" using assms by (auto simp: memory_ok_def find_Some_iff)
  with assms(4) show ?thesis by (simp add: field_def)
qed

lemma field_none: "length e = 128 \<Longrightarrow> field e ty = None \<longleftrightarrow> ty = CFG_EMPTY \<or> (\<forall>i < 127. e ! i ! 0 \<noteq> ty)"
  by (auto simp: field_def find_None_iff in_set_conv_nth)

lemma field_some:
  assumes "length e = 128" "field e ty = Some f"
  obtains i where "i < 127" "e ! i ! 0 = ty" "ty \<noteq> CFG_EMPTY" "f = drop 1 (e ! i)"
  using assms by (auto simp: field_def find_Some_iff split: if_splits)

lemma find_field_find: "find_field ty v ps = find (\<lambda>p. p ! 0 = ty \<and> p ! 1 = v) ps"
  by (induction ps) simp_all

text \<open>A field is read if it is there in the wanted version.\<close>

lemma config_read_eeprom_field:
  assumes "memory_ok e" "ty \<noteq> CFG_EMPTY" "unat n \<le> 30"
  shows "config_read_eeprom ty v n e =
    (case field e ty of Some (v' # bs) \<Rightarrow> if v' = v then Some (take (unat n) bs) else None | _ \<Rightarrow> None)"
proof (cases "field e ty")
  case None
  then have "\<forall>i < 127. e ! i ! 0 \<noteq> ty" using assms by (simp add: field_none memory_ok_def)
  then have "find (\<lambda>p. p ! 0 = ty \<and> p ! 1 = v) (take 127 e) = None"
    by (auto simp: find_None_iff in_set_conv_nth)
  with None show ?thesis by (simp add: config_read_eeprom_def find_field_find)
next
  case (Some f)
  with assms(1) obtain i where i: "i < 127" "e ! i ! 0 = ty" "f = drop 1 (e ! i)" by (auto simp: memory_ok_def elim: field_some)
  have "length e = 128" using assms(1) by (rule memory_sizes)
  have "e ! i = e ! i ! 0 # e ! i ! 1 # drop 2 (e ! i)" by (rule page_split) (use memory_sizes [OF assms(1)] i(1) in simp)
  then have f: "f = e ! i ! 1 # drop 2 (e ! i)" using i(3) by (metis drop_0 drop_Suc_Cons One_nat_def)
  have other: "e ! j ! 0 \<noteq> ty" if "j < 127" "j \<noteq> i" for j using memory_unique [OF assms(1), of j i] assms(2) i(1,2) that by auto
  have "find (\<lambda>p. p ! 0 = ty \<and> p ! 1 = v) (take 127 e) = (if e ! i ! 1 = v then Some (e ! i) else None)"
  proof (cases "e ! i ! 1 = v")
    case True
    with i other \<open>length e = 128\<close> show ?thesis by (auto simp: find_Some_iff)
  next
    case False
    then show ?thesis using i other by (auto simp: find_None_iff in_set_conv_nth)
  qed
  with Some f assms(3) show ?thesis by (simp add: config_read_eeprom_def find_field_find)
qed

lemma find_place_some:
  assumes "find_place ty i free ps = Some j" "ty \<noteq> CFG_EMPTY"
  shows "(\<exists>k < length ps. j = i + k \<and> ps ! k ! 0 = ty) \<or>
    (\<forall>k < length ps. ps ! k ! 0 \<noteq> ty) \<and> (free = Some j \<or> (\<exists>k < length ps. j = i + k \<and> ps ! k ! 0 = CFG_EMPTY))"
  using assms
proof (induction ty i free ps rule: find_place.induct)
  case (2 ty i free p ps)
  show ?case
  proof (cases "p ! 0 = ty")
    case True
    with 2 show ?thesis by auto
  next
    case False
    show ?thesis
    proof (cases "p ! 0 = CFG_EMPTY")
      case empty: True
      with 2 False have "(\<exists>k < length ps. j = i + 1 + k \<and> ps ! k ! 0 = ty) \<or> (\<forall>k < length ps. ps ! k ! 0 \<noteq> ty) \<and>
        ((if free = None then Some i else free) = Some j \<or> (\<exists>k < length ps. j = i + 1 + k \<and> ps ! k ! 0 = CFG_EMPTY))"
        by simp
      with False empty show ?thesis by (auto simp: Ex_less_Suc2 All_less_Suc2 split: if_splits)
    next
      case used: False
      with 2 False have "(\<exists>k < length ps. j = i + 1 + k \<and> ps ! k ! 0 = ty) \<or> (\<forall>k < length ps. ps ! k ! 0 \<noteq> ty) \<and>
        (free = Some j \<or> (\<exists>k < length ps. j = i + 1 + k \<and> ps ! k ! 0 = CFG_EMPTY))"
        by simp
      with False show ?thesis by (auto simp: Ex_less_Suc2 All_less_Suc2)
    qed
  qed
qed simp

lemma find_place_none:
  assumes "find_place ty i free ps = None" "ty \<noteq> CFG_EMPTY"
  shows "free = None \<and> (\<forall>k < length ps. ps ! k ! 0 \<noteq> ty \<and> ps ! k ! 0 \<noteq> CFG_EMPTY)"
  using assms by (induction ty i free ps rule: find_place.induct) (auto simp: All_less_Suc2 split: if_splits)

text \<open>A successful write is an update of the map, a failed one changes nothing.\<close>

lemma write_at:
  assumes "memory_ok e" "i < 127" "length p = 32" "p ! 0 = ty" "ty \<noteq> CFG_EMPTY"
    and "e ! i ! 0 = ty \<or> e ! i ! 0 = CFG_EMPTY \<and> (\<forall>j < 127. e ! j ! 0 \<noteq> ty)"
  shows "memory_ok (e[i := p])" "field (e[i := p]) = (field e)(ty \<mapsto> drop 1 p)"
proof -
  let ?e = "e[i := p]"
  have len: "length e = 128" using assms(1) by (rule memory_sizes)
  have other: "e ! j ! 0 \<noteq> ty" if "j < 127" "j \<noteq> i" for j
    using memory_unique [OF assms(1), of i j] assms(2,5,6) that by auto
  have at: "?e ! j = (if j = i then p else e ! j)" if "j < 127" for j using that len by (simp add: nth_list_update)
  show ok: "memory_ok ?e"
    unfolding memory_ok_def
  proof (intro conjI allI impI)
    show "length ?e = 128" using len by simp
    show "\<forall>q \<in> set ?e. length q = 32" using assms(1,3) by (auto simp: memory_ok_def dest: set_update_subset_insert [THEN subsetD])
    fix j k assume "j < 127" "k < 127" "?e ! j ! 0 = ?e ! k ! 0" "?e ! j ! 0 \<noteq> CFG_EMPTY"
    then show "j = k" using other [of j] other [of k] assms(4) memory_unique [OF assms(1), of j k] by (auto simp: at split: if_splits)
  qed
  show "field ?e = (field e)(ty \<mapsto> drop 1 p)"
  proof
    fix t
    show "field ?e t = ((field e)(ty \<mapsto> drop 1 p)) t"
    proof (cases "t = ty")
      case True
      with field_at [OF ok assms(2)] at [OF assms(2)] assms(4,5) show ?thesis by simp
    next
      case False
      show ?thesis
      proof (cases "field e t")
        case None
        then have "t = CFG_EMPTY \<or> (\<forall>j < 127. e ! j ! 0 \<noteq> t)" using len by (simp add: field_none)
        then have "field ?e t = None" using False at assms(4) len by (auto simp: field_none)
        with None False show ?thesis by simp
      next
        case (Some x)
        with len obtain j where j: "j < 127" "e ! j ! 0 = t" "t \<noteq> CFG_EMPTY" "x = drop 1 (e ! j)" by (rule field_some)
        with False assms(6) have "j \<noteq> i" by auto
        with field_at [OF ok j(1)] at [OF j(1)] j Some False show ?thesis by simp
      qed
    qed
  qed
qed

lemma page_written: "writes_pages W \<Longrightarrow> length p = 32 \<Longrightarrow> length bs \<le> 32 \<Longrightarrow> length (W p bs) = 32 \<and> take (length bs) (W p bs) = bs"
  by (simp add: writes_pages_def)

lemma config_write_eeprom_cases:
  assumes "memory_ok e" "writes_pages W" "ty \<noteq> CFG_EMPTY" "config_write_eeprom W data ty v n e = Some (ok, e')"
  obtains (failed) "\<not> ok" "e' = e"
  | (written) rest where "ok" "unat n \<le> 30" "unat n \<le> length data" "memory_ok e'"
      "field e' = (field e)(ty \<mapsto> v # take (unat n) data @ rest)"
proof (cases "unat n > 30")
  case True
  with assms(4) failed show thesis by (simp add: config_write_eeprom_def)
next
  case False
  show thesis
  proof (cases "find_place ty 0 None (take 127 e)")
    case None
    with False assms(4) failed show thesis by (simp add: config_write_eeprom_def)
  next
    case (Some i)
    let ?bs = "ty # v # take (unat n) data"
    let ?p = "W (e ! i) ?bs"
    from Some False assms(4) have r: "ok" "e' = e[i := ?p]" "unat n \<le> length data"
      by (auto simp: config_write_eeprom_def EEPROM_PAGE_SIZE_def bind_eq_Some_conv array_prefix_eq_Some)
    have len: "length e = 128" using assms(1) by (rule memory_sizes)
    from find_place_some [OF Some assms(3)] len have i: "i < 127"
      "e ! i ! 0 = ty \<or> e ! i ! 0 = CFG_EMPTY \<and> (\<forall>j < 127. e ! j ! 0 \<noteq> ty)" by auto
    have "length (e ! i) = 32" using i(1) by (simp add: memory_sizes [OF assms(1)])
    moreover have bs: "length ?bs = unat n + 2" using r(3) by simp
    moreover have "length ?bs \<le> 32" using False by (simp only: bs)
    ultimately have "length ?p = 32 \<and> take (length ?bs) ?p = ?bs" by (intro page_written [OF assms(2)])
    then have p: "length ?p = 32" "take (unat n + 2) ?p = ?bs" by (simp_all only: bs)
    then have split: "?p = ?bs @ drop (unat n + 2) ?p" by (metis append_take_drop_id)
    then have "?p ! 0 = ty" by (metis append_Cons nth_Cons_0)
    note at = write_at [OF assms(1) i(1) p(1) this assms(3) i(2)]
    have "drop 1 ?p = v # take (unat n) data @ drop (unat n + 2) ?p" by (subst split) simp
    with at r False written show thesis by simp
  qed
qed

text \<open>A field can be written if it is there, or if a page is empty.\<close>

lemma config_write_eeprom_succeeds:
  assumes "memory_ok e" "ty \<noteq> CFG_EMPTY" "unat n \<le> 30" "unat n \<le> length data"
    and "field e ty \<noteq> None \<or> (\<exists>i < 127. e ! i ! 0 = CFG_EMPTY)"
  shows "\<exists>e'. config_write_eeprom W data ty v n e = Some (True, e')"
proof -
  have len: "length e = 128" using assms(1) by (rule memory_sizes)
  have "find_place ty 0 None (take 127 e) \<noteq> None"
  proof
    assume "find_place ty 0 None (take 127 e) = None"
    from find_place_none [OF this assms(2)] len have none: "\<forall>k < 127. e ! k ! 0 \<noteq> ty \<and> e ! k ! 0 \<noteq> CFG_EMPTY" by simp
    then have "field e ty = None" using len by (simp add: field_none)
    with none assms(5) show False by auto
  qed
  with assms(3,4) show ?thesis by (auto simp: config_write_eeprom_def)
qed

section \<open>Reading back\<close>

text \<open>The fields that a configuration variable takes.\<close>

definition fields_of :: "u8 \<Rightarrow> u8 set" where
  "fields_of ty = (if ty = cfg_code CFG_WIFI_SSID then {ty, CFG_WIFI_SSID_SEC}
     else if ty = cfg_code CFG_WIFI_PASS then {ty, CFG_WIFI_PASS_SEC, CFG_WIFI_PASS_THIRD} else {ty})"

text \<open>An array with a text and zeros behind it, and what is known of it after its first \<open>k\<close> characters.\<close>

definition text_array :: "nat \<Rightarrow> u8 list \<Rightarrow> u8 list" where
  "text_array n s = s @ replicate (n - length s) 0"

lemma length_text_array: "length s \<le> n \<Longrightarrow> length (text_array n s) = n"
  by (simp add: text_array_def)

lemma drop_text_array: "k \<le> n \<Longrightarrow> drop k (text_array n s) = text_array (n - k) (drop k s)"
  by (simp add: text_array_def diff_diff_left add.commute)

lemma take_text_array: "length s \<le> n \<Longrightarrow> k \<le> n \<Longrightarrow> take k (text_array n s) = text_array k (take k s)"
  by (simp add: text_array_def min_def)

lemma text_array_longer: "length s \<le> k \<Longrightarrow> text_array k s @ replicate m 0 = text_array (k + m) s"
  by (simp add: text_array_def flip: replicate_add)

lemma copy_text_array: "0 \<notin> set s \<Longrightarrow> length s \<le> n \<Longrightarrow> k \<le> n \<Longrightarrow> copy_string k (text_array n s) = Some (text_array k (take k s))"
proof (induction k arbitrary: n s)
  case 0
  then show ?case by (simp add: text_array_def)
next
  case (Suc k)
  then obtain m where n: "n = Suc m" by (cases n) auto
  show ?case
  proof (cases s)
    case Nil
    with n show ?thesis by (simp add: text_array_def)
  next
    case (Cons c s')
    have "text_array n s = c # text_array m s'" using Cons n by (simp add: text_array_def)
    with Suc Cons n show ?thesis by (simp add: text_array_def)
  qed
qed

lemma text_of_text: "0 \<notin> set t \<Longrightarrow> text_of (t @ 0 # r) = Some t"
proof -
  assume "0 \<notin> set t"
  then have "takeWhile (\<lambda>c. c \<noteq> 0) (t @ 0 # r) = t" by (induction t) auto
  then show ?thesis by (simp add: text_of_def)
qed

lemma text_of_array:
  assumes "0 \<notin> set s" "length s < n"
  shows "text_of (text_array n s @ r) = Some s"
proof -
  have "replicate (n - length s) (0 :: u8) = 0 # replicate (n - length s - 1) 0" using assms(2) by (simp flip: replicate_Suc)
  with text_of_text [OF assms(1)] show ?thesis by (simp add: text_array_def)
qed

lemma append_text_array:
  assumes "0 \<notin> set s" "length s < n" "text_of src = Some (take m (drop k s))"
  shows "append_text (text_array n (take k s)) src = Some (text_array n (take (k + m) s))"
proof -
  have "text_of (text_array n (take k s)) = Some (take k s)"
    by (rule text_of_array [of "take k s" n "[]", simplified append_Nil2]) (use assms(1,2) in \<open>auto dest: in_set_takeD\<close>)
  moreover have "take k s @ take m (drop k s) = take (k + m) s" by (simp add: take_add)
  moreover have "put_front (take (k + m) s @ [0]) (text_array n (take k s)) = Some (text_array n (take (k + m) s))"
  proof -
    have "replicate (n - length (take (k + m) s)) (0 :: u8) = 0 # replicate (n - length (take (k + m) s) - 1) 0"
      using assms(2) by (simp flip: replicate_Suc)
    moreover have "drop (length (take (k + m) s) + 1) (text_array n (take k s)) = replicate (n - length (take (k + m) s) - 1) 0"
      using assms(2) by (simp add: text_array_def)
    moreover have "Suc (min (length s) (k + m)) \<le> n" using assms(2) by simp
    ultimately show ?thesis using assms(2) by (simp add: put_front_def length_text_array) (simp add: text_array_def)
  qed
  ultimately show ?thesis using assms(3) by (simp add: append_text_def flip: append_assoc)
qed

lemma read_written:
  assumes "memory_ok e" "field e ty = Some (v # bs)" "ty \<noteq> CFG_EMPTY" "unat n \<le> 30"
  shows "config_read_eeprom ty v n e = Some (take (unat n) bs)"
  using config_read_eeprom_field [OF assms(1,3,4)] assms(2) by simp

lemma front_of_array:
  assumes "length s \<le> k" "k \<le> length data" "drop k data = replicate (length data - k) 0"
  shows "put_front (text_array k s) data = Some (text_array (length data) s)"
  using assms by (simp add: put_front_def text_array_def flip: replicate_add)

lemma zeros_in_front:
  assumes "k \<le> length data" "2 \<le> k"
  obtains d where "put_front [0, 0] data = Some d" "length d = length data" "drop k d = drop k data"
proof
  obtain j where "k = j + 2" using assms(2) by (metis le_add_diff_inverse2)
  then show "put_front [0, 0] data = Some ([0, 0] @ drop 2 data)" "length ([0, 0] @ drop 2 data) = length data"
    "drop k ([0, 0] @ drop 2 data) = drop k data" using assms(1) by (simp_all add: put_front_def numeral_2_eq_2)
qed

lemma no_zeros [simp]: "0 \<notin> set s \<Longrightarrow> 0 \<notin> set (take k s)" "0 \<notin> set s \<Longrightarrow> 0 \<notin> set (drop k s)"
  by (auto dest: in_set_takeD in_set_dropD)

definition data_ready :: "nat \<Rightarrow> u8 list \<Rightarrow> bool" where
  "data_ready n data \<longleftrightarrow> length data = n \<and> drop 30 data = replicate (n - 30) 0"

lemma special_codes [simp]:
  "cfg_code k \<noteq> CFG_EMPTY" "CFG_WIFI_SSID_SEC \<noteq> CFG_EMPTY" "CFG_WIFI_PASS_SEC \<noteq> CFG_EMPTY" "CFG_WIFI_PASS_THIRD \<noteq> CFG_EMPTY"
  "cfg_code k \<noteq> CFG_WIFI_SSID_SEC" "cfg_code k \<noteq> CFG_WIFI_PASS_SEC" "cfg_code k \<noteq> CFG_WIFI_PASS_THIRD"
  "CFG_WIFI_SSID_SEC \<noteq> cfg_code k" "CFG_WIFI_PASS_SEC \<noteq> cfg_code k" "CFG_WIFI_PASS_THIRD \<noteq> cfg_code k"
  "CFG_WIFI_SSID_SEC \<noteq> CFG_WIFI_PASS_SEC" "CFG_WIFI_SSID_SEC \<noteq> CFG_WIFI_PASS_THIRD"
  "CFG_WIFI_PASS_SEC \<noteq> CFG_WIFI_SSID_SEC" "CFG_WIFI_PASS_THIRD \<noteq> CFG_WIFI_SSID_SEC"
  "CFG_WIFI_PASS_SEC \<noteq> CFG_WIFI_PASS_THIRD" "CFG_WIFI_PASS_THIRD \<noteq> CFG_WIFI_PASS_SEC"
  "CFG_EMPTY \<noteq> cfg_code k" "CFG_EMPTY \<noteq> CFG_WIFI_SSID_SEC" "CFG_EMPTY \<noteq> CFG_WIFI_PASS_SEC" "CFG_EMPTY \<noteq> CFG_WIFI_PASS_THIRD"
  by (cases k; simp add: CFG_EMPTY_def CFG_WIFI_SSID_SEC_def CFG_WIFI_PASS_SEC_def CFG_WIFI_PASS_THIRD_def)+

lemma cfg_code_eq [simp]: "cfg_code j = cfg_code k \<longleftrightarrow> j = k"
  by (cases j; cases k) simp_all

declare cfg_code.simps [simp del]

lemma ssid_reads_back:
  assumes "memory_ok e" "writes_pages W" "0 \<notin> set s" "length s \<le> 32"
    and "eeprom_config_write W (text_array 33 s) (cfg_code CFG_WIFI_SSID) v 33 e = Some (True, e')"
  shows "data_ready 33 data \<Longrightarrow> eeprom_config_read data (cfg_code CFG_WIFI_SSID) v 33 e' = Some (True, text_array 33 s)"
    and "memory_ok e'" "\<forall>t. t \<notin> fields_of (cfg_code CFG_WIFI_SSID) \<longrightarrow> field e' t = field e t"
proof -
  let ?c = "cfg_code CFG_WIFI_SSID"
  have tmp: "copy_string 30 (text_array 33 s) = Some (text_array 30 (take 30 s))"
    "copy_string 3 (drop 30 (text_array 33 s)) = Some (text_array 3 (drop 30 s))"
    using assms(3,4) copy_text_array [of "drop 30 s" 3 3] by (simp_all add: copy_text_array drop_text_array)
  from assms(5) tmp obtain e1 where
    w1: "config_write_eeprom W (text_array 30 (take 30 s)) ?c v 30 e = Some (True, e1)" and
    w2: "config_write_eeprom W (text_array 3 (drop 30 s)) CFG_WIFI_SSID_SEC v 3 e1 = Some (True, e')"
    by (auto simp: eeprom_config_write_def bind_eq_Some_conv split: prod.splits if_splits)
  from config_write_eeprom_cases [OF assms(1,2) _ w1] obtain r1 where
    e1: "memory_ok e1" "field e1 = (field e)(?c \<mapsto> v # text_array 30 (take 30 s) @ r1)" by (auto simp: length_text_array)
  from config_write_eeprom_cases [OF e1(1) assms(2) _ w2] obtain r2 where
    e2: "memory_ok e'" "field e' = (field e1)(CFG_WIFI_SSID_SEC \<mapsto> v # text_array 3 (drop 30 s) @ r2)"
    using assms(4) by (auto simp: length_text_array)
  show "memory_ok e'" by (rule e2(1))
  show "\<forall>t. t \<notin> fields_of ?c \<longrightarrow> field e' t = field e t" using e1(2) e2(2) by (simp add: fields_of_def)
  have first: "config_read_eeprom ?c v 30 e' = Some (text_array 30 (take 30 s))"
    using read_written [OF e2(1), of ?c v "text_array 30 (take 30 s) @ r1" 30] e1(2) e2(2) by (simp add: length_text_array)
  have "config_read_eeprom CFG_WIFI_SSID_SEC v 30 e' = Some (take 30 (text_array 3 (drop 30 s) @ r2))"
    using read_written [OF e2(1), of CFG_WIFI_SSID_SEC v "text_array 3 (drop 30 s) @ r2" 30] e2(2) by simp
  then have "\<exists>r. read_cleared CFG_WIFI_SSID_SEC v 30 e' = text_array 3 (drop 30 s) @ r"
    using assms(4) by (simp add: read_cleared_def length_text_array)
  then have second: "text_of (read_cleared CFG_WIFI_SSID_SEC v 30 e') = Some (drop 30 s)"
    using text_of_array [of "drop 30 s" 3] assms(3,4) by auto
  assume "data_ready 33 data"
  then obtain d where d: "put_front [0, 0] data = Some d" "length d = 33" "drop 30 d = [0, 0, 0]"
    using zeros_in_front [of 30 data] by (auto simp: data_ready_def numeral_eq_Suc)
  have "put_front (text_array 30 (take 30 s)) d = Some (text_array 33 (take 30 s))"
    using front_of_array [of "take 30 s" 30 d] d by (simp add: numeral_eq_Suc)
  moreover have "copy_string 30 (text_array 30 (take 30 s)) = Some (text_array 30 (take 30 s))"
    using copy_text_array [of "take 30 s" 30 30] assms(3) by simp
  moreover have "append_text (text_array 33 (take 30 s)) (read_cleared CFG_WIFI_SSID_SEC v 30 e') = Some (text_array 33 s)"
    using append_text_array [OF assms(3), of 33 _ 3 30] second assms(4) by simp
  ultimately show "eeprom_config_read data ?c v 33 e' = Some (True, text_array 33 s)"
    using first d by (simp add: eeprom_config_read_def)
qed

lemma password_reads_back:
  assumes "memory_ok e" "writes_pages W" "0 \<notin> set s" "length s \<le> 63"
    and "eeprom_config_write W (text_array 64 s) (cfg_code CFG_WIFI_PASS) v 64 e = Some (True, e')"
  shows "data_ready 64 data \<Longrightarrow> eeprom_config_read data (cfg_code CFG_WIFI_PASS) v 64 e' = Some (True, text_array 64 s)"
    and "memory_ok e'" "\<forall>t. t \<notin> fields_of (cfg_code CFG_WIFI_PASS) \<longrightarrow> field e' t = field e t"
proof -
  let ?c = "cfg_code CFG_WIFI_PASS"
  let ?a = "text_array 30 (take 30 s)" and ?b = "text_array 30 (take 30 (drop 30 s))" and ?d = "text_array 4 (drop 60 s)"
  have tmp: "copy_string 30 (text_array 64 s) = Some ?a" "copy_string 30 (drop 30 (text_array 64 s)) = Some ?b"
    "copy_string 4 (drop 60 (text_array 64 s)) = Some ?d"
    using assms(3,4) by (simp_all add: copy_text_array drop_text_array)
  from assms(5) tmp obtain e1 e2 where
    w1: "config_write_eeprom W ?a ?c v 30 e = Some (True, e1)" and
    w2: "config_write_eeprom W ?b CFG_WIFI_PASS_SEC v 30 e1 = Some (True, e2)" and
    w3: "config_write_eeprom W ?d CFG_WIFI_PASS_THIRD v 4 e2 = Some (True, e')"
    by (auto simp: eeprom_config_write_def bind_eq_Some_conv split: prod.splits if_splits)
  from config_write_eeprom_cases [OF assms(1,2) _ w1] obtain r1 where
    e1: "memory_ok e1" "field e1 = (field e)(?c \<mapsto> v # ?a @ r1)" by (auto simp: length_text_array)
  from config_write_eeprom_cases [OF e1(1) assms(2) _ w2] obtain r2 where
    e2: "memory_ok e2" "field e2 = (field e1)(CFG_WIFI_PASS_SEC \<mapsto> v # ?b @ r2)"
    using assms(4) by (auto simp: length_text_array)
  from config_write_eeprom_cases [OF e2(1) assms(2) _ w3] obtain r3 where
    e3: "memory_ok e'" "field e' = (field e2)(CFG_WIFI_PASS_THIRD \<mapsto> v # ?d @ r3)"
    using assms(4) by (auto simp: length_text_array)
  show "memory_ok e'" by (rule e3(1))
  show "\<forall>t. t \<notin> fields_of ?c \<longrightarrow> field e' t = field e t" using e1(2) e2(2) e3(2) by (simp add: fields_of_def)
  have first: "config_read_eeprom ?c v 30 e' = Some ?a"
    using read_written [OF e3(1), of ?c v "?a @ r1" 30] e1(2) e2(2) e3(2) by (simp add: length_text_array)
  have "config_read_eeprom CFG_WIFI_PASS_SEC v 30 e' = Some ?b"
    using read_written [OF e3(1), of CFG_WIFI_PASS_SEC v "?b @ r2" 30] e2(2) e3(2) by (simp add: length_text_array)
  then have "read_cleared CFG_WIFI_PASS_SEC v 30 e' = text_array 32 (take 30 (drop 30 s))"
    using text_array_longer [of "take 30 (drop 30 s)" 30 2] by (simp add: read_cleared_def length_text_array)
  then have second: "text_of (read_cleared CFG_WIFI_PASS_SEC v 30 e') = Some (take 30 (drop 30 s))"
    using text_of_array [of "take 30 (drop 30 s)" 32 "[]"] assms(3) by simp
  have "config_read_eeprom CFG_WIFI_PASS_THIRD v 3 e' = Some (take 3 (?d @ r3))"
    using read_written [OF e3(1), of CFG_WIFI_PASS_THIRD v "?d @ r3" 3] e3(2) by simp
  also have "take 3 (?d @ r3) = text_array 3 (drop 60 s)" using assms(4) by (simp add: length_text_array take_text_array)
  finally have "read_cleared CFG_WIFI_PASS_THIRD v 3 e' = text_array 32 (drop 60 s)"
    using assms(4) text_array_longer [of "drop 60 s" 3 29] by (simp add: read_cleared_def length_text_array)
  then have third: "text_of (read_cleared CFG_WIFI_PASS_THIRD v 3 e') = Some (drop 60 s)"
    using text_of_array [of "drop 60 s" 32 "[]"] assms(3,4) by simp
  assume "data_ready 64 data"
  then obtain d where d: "put_front [0, 0] data = Some d" "length d = 64" "drop 30 d = replicate 34 0"
    using zeros_in_front [of 30 data] by (auto simp: data_ready_def)
  have "put_front ?a d = Some (text_array 64 (take 30 s))"
    using front_of_array [of "take 30 s" 30 d] d by simp
  moreover have "copy_string 30 ?a = Some ?a" using copy_text_array [of "take 30 s" 30 30] assms(3) by simp
  moreover have "append_text (text_array 64 (take 30 s)) (read_cleared CFG_WIFI_PASS_SEC v 30 e') = Some (text_array 64 (take 60 s))"
    using append_text_array [OF assms(3), of 64 _ 30 30] second assms(4) by simp
  moreover have "append_text (text_array 64 (take 60 s)) (read_cleared CFG_WIFI_PASS_THIRD v 3 e') = Some (text_array 64 s)"
    using append_text_array [OF assms(3), of 64 _ 3 60] third assms(4) by simp
  ultimately show "eeprom_config_read data ?c v 64 e' = Some (True, text_array 64 s)"
    using first d by (simp add: eeprom_config_read_def)
qed

text \<open>The contents of a variable: any bytes that fit into a field, or a name or password with zeros behind it.\<close>

definition storable :: "cfg_t \<Rightarrow> u8 list \<Rightarrow> bool" where
  "storable k bs \<longleftrightarrow> (case k of
     CFG_WIFI_SSID \<Rightarrow> \<exists>s. 0 \<notin> set s \<and> length s \<le> 32 \<and> bs = text_array 33 s
   | CFG_WIFI_PASS \<Rightarrow> \<exists>s. 0 \<notin> set s \<and> length s \<le> 63 \<and> bs = text_array 64 s
   | _ \<Rightarrow> length bs \<le> 30)"

lemma variable_stored:
  assumes "memory_ok e" "writes_pages W" "storable k bs"
    and "eeprom_config_write W bs (cfg_code k) v (of_nat (length bs)) e = Some (True, e')"
  shows "data_ready (length bs) data \<Longrightarrow> eeprom_config_read data (cfg_code k) v (of_nat (length bs)) e' = Some (True, bs)"
    and "memory_ok e'" "\<And>t. t \<notin> fields_of (cfg_code k) \<Longrightarrow> field e' t = field e t"
proof -
  consider (name) s where "k = CFG_WIFI_SSID" "0 \<notin> set s" "length s \<le> 32" "bs = text_array 33 s"
    | (password) s where "k = CFG_WIFI_PASS" "0 \<notin> set s" "length s \<le> 63" "bs = text_array 64 s"
    | (other) "k \<noteq> CFG_WIFI_SSID" "k \<noteq> CFG_WIFI_PASS" "length bs \<le> 30"
    using assms(3) by (cases k) (auto simp: storable_def)
  then have "(data_ready (length bs) data \<longrightarrow> eeprom_config_read data (cfg_code k) v (of_nat (length bs)) e' = Some (True, bs)) \<and>
    memory_ok e' \<and> (\<forall>t. t \<notin> fields_of (cfg_code k) \<longrightarrow> field e' t = field e t)"
  proof cases
    case name
    with assms(4) ssid_reads_back [OF assms(1,2) name(2,3), of v e'] show ?thesis by (simp add: length_text_array)
  next
    case password
    with assms(4) password_reads_back [OF assms(1,2) password(2,3), of v e'] show ?thesis by (simp add: length_text_array)
  next
    case other
    then have n: "unat (of_nat (length bs) :: u8) = length bs" by (intro unat_of_nat8) simp
    from other assms(4) have "config_write_eeprom W bs (cfg_code k) v (of_nat (length bs)) e = Some (True, e')"
      by (simp add: eeprom_config_write_def)
    from config_write_eeprom_cases [OF assms(1,2) _ this] obtain r where
      e': "memory_ok e'" "field e' = (field e)(cfg_code k \<mapsto> v # bs @ r)" by (auto simp: n)
    have "config_read_eeprom (cfg_code k) v (of_nat (length bs)) e' = Some bs"
      using read_written [OF e'(1), of "cfg_code k" v "bs @ r" "of_nat (length bs)"] e'(2) n other(3) by simp
    with e' other show ?thesis by (simp add: eeprom_config_read_def fields_of_def put_front_def data_ready_def)
  qed
  then show "data_ready (length bs) data \<Longrightarrow> eeprom_config_read data (cfg_code k) v (of_nat (length bs)) e' = Some (True, bs)"
    and "memory_ok e'" "\<And>t. t \<notin> fields_of (cfg_code k) \<Longrightarrow> field e' t = field e t" by auto
qed

text \<open>What is read of a variable depends on its own fields.\<close>

lemma read_depends:
  assumes "memory_ok e" "memory_ok e'" "\<And>t. t \<in> fields_of (cfg_code k) \<Longrightarrow> field e' t = field e t" "unat n \<le> 30 \<or> k \<in> {CFG_WIFI_SSID, CFG_WIFI_PASS}"
  shows "eeprom_config_read data (cfg_code k) v n e' = eeprom_config_read data (cfg_code k) v n e"
proof -
  have same: "config_read_eeprom t v m e' = config_read_eeprom t v m e" if "t \<in> fields_of (cfg_code k)" "unat m \<le> 30" for t m
  proof -
    have "t \<noteq> CFG_EMPTY" using that(1) by (auto simp: fields_of_def split: if_splits)
    with assms(1,2) that show ?thesis by (simp add: config_read_eeprom_field assms(3))
  qed
  consider "k = CFG_WIFI_SSID" | "k = CFG_WIFI_PASS" | "k \<noteq> CFG_WIFI_SSID" "k \<noteq> CFG_WIFI_PASS" by blast
  then show ?thesis
  proof cases
    case 1
    then show ?thesis using same by (simp add: eeprom_config_read_def read_cleared_def fields_of_def cong: option.case_cong)
  next
    case 2
    then show ?thesis using same by (simp add: eeprom_config_read_def read_cleared_def fields_of_def cong: option.case_cong)
  next
    case 3
    then show ?thesis using same assms(4) by (simp add: eeprom_config_read_def fields_of_def)
  qed
qed

lemma fields_disjoint: "j \<noteq> k \<Longrightarrow> t \<in> fields_of (cfg_code j) \<Longrightarrow> t \<notin> fields_of (cfg_code k)"
  by (auto simp: fields_of_def split: if_splits)

text \<open>C24: In a memory that holds every field once, a variable that was written is read back as it was written,
  names and passwords spread over several pages included, whatever the hardware does with the rest of a
  page, and every other variable is read as before; the memory goes on holding every field once.\<close>

theorem stored_variable_reads_back:
  assumes "memory_ok e" "writes_pages W" "storable k bs"
    and "eeprom_config_write W bs (cfg_code k) v (of_nat (length bs)) e = Some (True, e')"
    and "data_ready (length bs) data"
  shows "eeprom_config_read data (cfg_code k) v (of_nat (length bs)) e' = Some (True, bs) \<and> memory_ok e' \<and>
    (\<forall>j old v' n. j \<noteq> k \<longrightarrow> unat n \<le> 30 \<or> j \<in> {CFG_WIFI_SSID, CFG_WIFI_PASS} \<longrightarrow>
       eeprom_config_read old (cfg_code j) v' n e' = eeprom_config_read old (cfg_code j) v' n e)"
proof -
  note stored = variable_stored [OF assms(1-4)]
  have "eeprom_config_read old (cfg_code j) v' n e' = eeprom_config_read old (cfg_code j) v' n e"
    if "j \<noteq> k" "unat n \<le> 30 \<or> j \<in> {CFG_WIFI_SSID, CFG_WIFI_PASS}" for j old v' n
    by (rule read_depends [OF assms(1) stored(2) stored(3) [OF fields_disjoint [OF that(1)]] that(2)])
  with stored(1,2) assms(5) show ?thesis by blast
qed

end
