(* ===== verification/Mqtt_Packets.thy ===== *)
theory Mqtt_Packets
  imports Protocol
begin

text \<open>
  The MQTT 3.1 packet encoder and parser, \<open>SDK/core/libemqtt.c\<close>.  A packet is a list of bytes; a C
  pointer into a packet is its offset.  The texts of a broker record are C strings, held without
  their NUL.
\<close>

unbundle bit_operations_syntax

section \<open>The broker\<close>

record mqtt_broker =
  clientid :: string
  broker_username :: string
  broker_password :: string
  will_retain :: u8
  will_qos :: "8 word"
  clean_session :: u8
  will_topic :: "string option"
  will_msg :: "string option"
  broker_seq :: u16
  broker_alive :: u16

definition MQTT_MSG_CONNECT :: u8 where "MQTT_MSG_CONNECT = 0x10"
definition MQTT_MSG_CONNACK :: u8 where "MQTT_MSG_CONNACK = 0x20"
definition MQTT_MSG_PUBLISH :: u8 where "MQTT_MSG_PUBLISH = 0x30"
definition MQTT_MSG_PUBACK :: u8 where "MQTT_MSG_PUBACK = 0x40"
definition MQTT_MSG_PUBREC :: u8 where "MQTT_MSG_PUBREC = 0x50"
definition MQTT_MSG_PUBREL :: u8 where "MQTT_MSG_PUBREL = 0x60"
definition MQTT_MSG_PUBCOMP :: u8 where "MQTT_MSG_PUBCOMP = 0x70"
definition MQTT_MSG_SUBSCRIBE :: u8 where "MQTT_MSG_SUBSCRIBE = 0x80"
definition MQTT_MSG_SUBACK :: u8 where "MQTT_MSG_SUBACK = 0x90"
definition MQTT_MSG_UNSUBACK :: u8 where "MQTT_MSG_UNSUBACK = 0xB0"
definition MQTT_MSG_PINGREQ :: u8 where "MQTT_MSG_PINGREQ = 0xC0"
definition MQTT_MSG_PINGRESP :: u8 where "MQTT_MSG_PINGRESP = 0xD0"
definition MQTT_MSG_DISCONNECT :: u8 where "MQTT_MSG_DISCONNECT = 0xE0"

lemmas mqtt_msg_defs = MQTT_MSG_CONNECT_def MQTT_MSG_CONNACK_def MQTT_MSG_PUBLISH_def MQTT_MSG_PUBACK_def
  MQTT_MSG_PUBREC_def MQTT_MSG_PUBREL_def MQTT_MSG_PUBCOMP_def MQTT_MSG_SUBSCRIBE_def MQTT_MSG_SUBACK_def
  MQTT_MSG_UNSUBACK_def MQTT_MSG_PINGREQ_def MQTT_MSG_PINGRESP_def MQTT_MSG_DISCONNECT_def

definition bytes_of :: "string \<Rightarrow> u8 list" where
  "bytes_of s = map (\<lambda>c. of_nat (of_char c)) s"

definition chars_of :: "u8 list \<Rightarrow> string" where
  "chars_of bs = map (\<lambda>b. char_of (unat b)) bs"

text \<open>\<open>memcpy(packet + offset, bytes, length)\<close>.\<close>

definition put_bytes :: "u8 list \<Rightarrow> nat \<Rightarrow> u8 list \<Rightarrow> u8 list option" where
  "put_bytes buf offset bs =
     (if offset + length bs \<le> length buf
      then Some (take offset buf @ bs @ drop (offset + length bs) buf) else None)"

definition high_byte :: "u16 \<Rightarrow> u8" where
  "high_byte w = ucast (drop_bit 8 w)"

definition low_byte :: "u16 \<Rightarrow> u8" where
  "low_byte w = ucast w"

section \<open>Parsing\<close>

definition parse_message_type :: "u8 list \<Rightarrow> u8 option" where
  "parse_message_type buf = map_option (\<lambda>b. b AND 0xF0) (array_get buf 0)"

definition parse_message_qos :: "u8 list \<Rightarrow> u8 option" where
  "parse_message_qos buf = map_option (\<lambda>b. drop_bit 1 (b AND 0x06)) (array_get buf 0)"

definition mqtt_num_rem_len_bytes :: "u8 list \<Rightarrow> u8 option" where
  "mqtt_num_rem_len_bytes buf = do {
     b1 \<leftarrow> array_get buf 1;
     (if b1 AND 0x80 = 0x80 then do {
        b2 \<leftarrow> array_get buf 2;
        (if b2 AND 0x80 = 0x80 then do {
           b3 \<leftarrow> array_get buf 3;
           Some (if b3 AND 0x80 = 0x80 then 4 else 3)
         } else Some 2)
      } else Some 1)
   }"

fun rem_len_loop :: "u8 list \<Rightarrow> u16 \<Rightarrow> u16 \<Rightarrow> u16 option" where
  "rem_len_loop [] multiplier val = None"
| "rem_len_loop (d # ds) multiplier val =
     (let val = val + ucast (d AND 127) * multiplier in
      if d AND 128 \<noteq> 0 then rem_len_loop ds (multiplier * 128) val else Some val)"

definition mqtt_parse_rem_len :: "u8 list \<Rightarrow> u16 option" where
  "mqtt_parse_rem_len buf = rem_len_loop (drop 1 buf) 1 0"

text \<open>The offset of a topic and the identifier are \<open>uint8_t\<close>, so their high bytes are lost.\<close>

definition mqtt_parse_msg_id :: "u8 list \<Rightarrow> u8 option" where
  "mqtt_parse_msg_id buf = do {
     ty \<leftarrow> parse_message_type buf;
     qos \<leftarrow> parse_message_qos buf;
     (if ty \<ge> MQTT_MSG_PUBLISH \<and> ty \<le> MQTT_MSG_UNSUBACK then do {
        rlb \<leftarrow> (if ty = MQTT_MSG_PUBLISH \<and> qos = 0 then Some 0 else mqtt_num_rem_len_bytes buf);
        (if ty = MQTT_MSG_PUBLISH then
           (if qos \<noteq> 0 then do {
              _ \<leftarrow> array_get buf (unat rlb + 1);
              topic_len \<leftarrow> array_get buf (unat rlb + 2);
              let offset = topic_len + (1 + rlb + 2);
              _ \<leftarrow> array_get buf (unat offset);
              array_get buf (unat offset + 1)
            } else Some 0)
         else do {
           _ \<leftarrow> array_get buf (unat rlb + 1);
           array_get buf (unat rlb + 2)
         })
      } else Some 0)
   }"

definition mqtt_parse_pub_topic_ptr :: "u8 list \<Rightarrow> (u16 \<times> nat option) option" where
  "mqtt_parse_pub_topic_ptr buf = do {
     ty \<leftarrow> parse_message_type buf;
     (if ty = MQTT_MSG_PUBLISH then do {
        rlb \<leftarrow> mqtt_num_rem_len_bytes buf;
        msb \<leftarrow> array_get buf (unat rlb + 1);
        lsb \<leftarrow> array_get buf (unat rlb + 2);
        Some (push_bit 8 (ucast msb) OR ucast lsb, Some (unat rlb + 3))
      } else Some (0, None))
   }"

definition mqtt_parse_pub_topic :: "u8 list \<Rightarrow> (u16 \<times> u8 list) option" where
  "mqtt_parse_pub_topic buf = do {
     (len, ptr) \<leftarrow> mqtt_parse_pub_topic_ptr buf;
     (case ptr of
        Some p \<Rightarrow> (if len \<noteq> 0 then map_option (Pair len) (array_prefix (drop p buf) (unat len)) else Some (len, []))
      | None \<Rightarrow> Some (len, []))
   }"

definition mqtt_parse_pub_msg_ptr :: "u8 list \<Rightarrow> (u16 \<times> nat option) option" where
  "mqtt_parse_pub_msg_ptr buf = do {
     ty \<leftarrow> parse_message_type buf;
     (if ty = MQTT_MSG_PUBLISH then do {
        rlb \<leftarrow> mqtt_num_rem_len_bytes buf;
        _ \<leftarrow> array_get buf (unat rlb + 1);
        lsb \<leftarrow> array_get buf (unat rlb + 2);
        qos \<leftarrow> parse_message_qos buf;
        let offset = lsb + (1 + rlb + 2) + (if qos \<noteq> 0 then 2 else 0);
        len \<leftarrow> mqtt_parse_rem_len buf;
        Some (len - (ucast offset - (ucast rlb + 1)), Some (unat offset))
      } else Some (0, None))
   }"

definition mqtt_parse_publish_msg :: "u8 list \<Rightarrow> (u16 \<times> u8 list) option" where
  "mqtt_parse_publish_msg buf = do {
     (len, ptr) \<leftarrow> mqtt_parse_pub_msg_ptr buf;
     (case ptr of
        Some p \<Rightarrow> (if len \<noteq> 0 then map_option (Pair len) (array_prefix (drop p buf) (unat len)) else Some (len, []))
      | None \<Rightarrow> Some (len, []))
   }"

section \<open>Filling the broker\<close>

definition strncpy_text :: "nat \<Rightarrow> string \<Rightarrow> string option" where
  "strncpy_text n s = (if length s < n then Some s else None)"

text \<open>The record is static, and only \<open>mqttlib_init\<close> clears it.  A client identifier that fills the
  array is left without a NUL, so it is not a string any more.\<close>

definition mqttlib_init :: "mqtt_broker \<Rightarrow> string option \<Rightarrow> mqtt_broker option" where
  "mqttlib_init b cid = do {
     c \<leftarrow> (case cid of Some s \<Rightarrow> strncpy_text 50 s | None \<Rightarrow> Some ''emqtt'');
     Some (b\<lparr>clientid := c, broker_username := [], broker_password := [], clean_session := 1,
             broker_seq := 1, broker_alive := 300\<rparr>)
   }"

definition mqtt_init_will :: "mqtt_broker \<Rightarrow> string \<Rightarrow> string \<Rightarrow> u8 \<Rightarrow> u8 \<Rightarrow> mqtt_broker" where
  "mqtt_init_will b topic msg qos retain =
     b\<lparr>will_qos := qos, will_retain := retain, will_topic := Some topic, will_msg := Some msg\<rparr>"

text \<open>\<open>strncpy\<close> of 29 characters over an array of 30: a longer text is cut.\<close>

definition mqttlib_init_auth :: "mqtt_broker \<Rightarrow> string option \<Rightarrow> string option \<Rightarrow> mqtt_broker" where
  "mqttlib_init_auth b user pass =
     (let b = (case user of Some (c # cs) \<Rightarrow> b\<lparr>broker_username := take 29 (c # cs)\<rparr> | _ \<Rightarrow> b)
      in case pass of Some (c # cs) \<Rightarrow> b\<lparr>broker_password := take 29 (c # cs)\<rparr> | _ \<Rightarrow> b)"

definition mqtt_set_alive :: "mqtt_broker \<Rightarrow> u16 \<Rightarrow> mqtt_broker" where
  "mqtt_set_alive b alive = b\<lparr>broker_alive := alive\<rparr>"

section \<open>Packets\<close>

definition strlen16 :: "string option \<Rightarrow> u16" where
  "strlen16 s = (case s of None \<Rightarrow> 0 | Some s \<Rightarrow> of_nat (length s))"

text \<open>A text with its length in front.\<close>

definition utf_field :: "string \<Rightarrow> u8 list" where
  "utf_field s = high_byte (of_nat (length s)) # low_byte (of_nat (length s)) # bytes_of s"

definition optional_field :: "string option \<Rightarrow> u8 list" where
  "optional_field s = (case s of Some (c # cs) \<Rightarrow> utf_field (c # cs) | _ \<Rightarrow> [])"

definition connect_flags :: "mqtt_broker \<Rightarrow> u8 option" where
  "connect_flags b = do {
     let flags = 0 OR (if broker_username b \<noteq> [] then 0x80 else 0)
                   OR (if broker_password b \<noteq> [] then 0x40 else 0)
                   OR (if clean_session b \<noteq> 0 then 0x02 else 0);
     (if strlen16 (will_topic b) > 0 \<and> strlen16 (will_msg b) > 0 then do {
        c_assert (-1 < sint (will_qos b) \<and> sint (will_qos b) < 3);
        Some (flags OR 0x04 OR (if will_retain b \<noteq> 0 then 0x20 else 0) OR push_bit 3 (will_qos b))
      } else Some flags)
   }"

definition connect_payload_length :: "mqtt_broker \<Rightarrow> u16" where
  "connect_payload_length b =
     (strlen16 (Some (clientid b)) + 2)
     + (if broker_username b \<noteq> [] then strlen16 (Some (broker_username b)) + 2 else 0)
     + (if broker_password b \<noteq> [] then strlen16 (Some (broker_password b)) + 2 else 0)
     + (if strlen16 (will_topic b) > 0 \<and> strlen16 (will_msg b) > 0
        then strlen16 (will_topic b) + 2 + (strlen16 (will_msg b) + 2) else 0)"

text \<open>The remaining length is an \<open>uint8_t\<close>.  The result is the returned size, -1 for a bad quality
  of service, and the packet.\<close>

definition mqtt_connect :: "mqtt_broker \<Rightarrow> u8 list \<Rightarrow> (int \<times> u8 list) option" where
  "mqtt_connect b packet =
     (case connect_flags b of
        None \<Rightarrow> Some (-1, packet)
      | Some flags \<Rightarrow> do {
          let payload_len = connect_payload_length b;
          let var_header = [0x00, 0x06, 0x4d, 0x51, 0x49, 0x73, 0x64, 0x70, 0x03, flags,
                            high_byte (broker_alive b), low_byte (broker_alive b)];
          let remain_len = (ucast (12 + payload_len) :: u8);
          let fixed_header = (if remain_len > 127
            then [MQTT_MSG_CONNECT, (remain_len mod 128) OR 0x80, remain_len div 128]
            else [MQTT_MSG_CONNECT, remain_len]);
          let message_size = (of_nat (length fixed_header) + 12 + payload_len :: u16);
          packet \<leftarrow> put_bytes packet 0 (replicate (unat message_size) 0);
          packet \<leftarrow> put_bytes packet 0
            (fixed_header @ var_header @ utf_field (clientid b) @ optional_field (will_topic b)
              @ optional_field (will_msg b) @ optional_field (Some (broker_username b))
              @ optional_field (Some (broker_password b)));
          Some (uint message_size, packet)
        })"

definition mqtt_disconnect :: "u8 list \<Rightarrow> (u16 \<times> u8 list) option" where
  "mqtt_disconnect packet = map_option (Pair 2) (put_bytes packet 0 [MQTT_MSG_DISCONNECT, 0])"

definition mqtt_ping :: "u8 list \<Rightarrow> (u16 \<times> u8 list) option" where
  "mqtt_ping packet = map_option (Pair 2) (put_bytes packet 0 [MQTT_MSG_PINGREQ, 0])"

text \<open>The topic is built in an array of 32 bytes; the whole packet of \<open>packet_size\<close> bytes is cleared.\<close>

definition mqtt_subscribe ::
  "mqtt_broker \<Rightarrow> string \<Rightarrow> u8 list \<Rightarrow> u16 \<Rightarrow> (u8 \<times> u16 \<times> mqtt_broker \<times> u8 list) option" where
  "mqtt_subscribe b topic packet packet_size = do {
     let topiclen = (of_nat (length topic) :: u16);
     let utf_topic_size = (ucast topiclen + 3 :: u8);
     utf_topic \<leftarrow> put_bytes (replicate 32 0) 0 (utf_field topic);
     utf_topic \<leftarrow> array_prefix utf_topic (unat utf_topic_size);
     packet \<leftarrow> put_bytes packet 0 (replicate (unat packet_size) 0);
     packet \<leftarrow> put_bytes packet 0 ([MQTT_MSG_SUBSCRIBE OR 0x02, 2 + utf_topic_size,
        high_byte (broker_seq b), low_byte (broker_seq b)] @ utf_topic);
     Some (4 + utf_topic_size, broker_seq b, b\<lparr>broker_seq := broker_seq b + 1\<rparr>, packet)
   }"

text \<open>Of the variable header only the length of the topic and the topic are written, and of the
  message nothing: it is in place when the function is called.\<close>

definition mqtt_publish_with_qos ::
  "mqtt_broker \<Rightarrow> string \<Rightarrow> u8 \<Rightarrow> u8 \<Rightarrow> u8 list \<Rightarrow> u16 \<Rightarrow> (u16 \<times> u16 option \<times> mqtt_broker \<times> u8 list) option" where
  "mqtt_publish_with_qos b topic retain qos_flag packet msglen = do {
     let topic_len = (of_nat (length topic) :: u16);
     let qos_size = ((if qos_flag = 0 then 0 else 2) :: u16);
     let (mid, b') = (if qos_flag \<noteq> 0 then (Some (broker_seq b), b\<lparr>broker_seq := broker_seq b + 1\<rparr>) else (None, b));
     let remaining_length = topic_len + 2 + qos_size + msglen;
     let flags = (MQTT_MSG_PUBLISH OR qos_flag) OR (if retain \<noteq> 0 then 1 else 0);
     let flags = (if qos_flag = 4 \<or> qos_flag = 0 then flags AND 0xF7 else flags);
     packet \<leftarrow> put_bytes packet 0 ([flags, ucast (remaining_length mod 128) OR 0x80,
        ucast (remaining_length div 128)] @ utf_field topic);
     Some (topic_len + 2 + qos_size + 3 + msglen, mid, b', packet)
   }"

text \<open>The packet of \<open>mqtt_pubrel\<close> is a local array: only its size leaves the function.\<close>

definition mqtt_pubrel :: "u16 \<Rightarrow> u16" where
  "mqtt_pubrel message_id =
     of_nat (length [MQTT_MSG_PUBREL OR 0x02, 0x02, high_byte message_id, low_byte message_id])"

end
