(* ===== verification/Mqtt_Round_Trip.thy ===== *)
theory Mqtt_Round_Trip
  imports Mqtt_Packets
begin

text \<open>
  What the MQTT packets of \<open>SDK/core/libemqtt.c\<close> say to a reader: the parser of the same file finds in
  a packet what was put into it.
\<close>

section \<open>Bytes\<close>

lemma low_seven_bits:
  assumes "(x :: u8) < 128"
  shows "(x OR 0x80) AND 127 = x" "(x OR 0x80) AND 128 \<noteq> 0" "x AND 127 = x" "x AND 128 = 0"
proof -
  have mask: "y AND 127 = take_bit 7 y" for y :: u8
    by (simp add: take_bit_eq_mask mask_eq_exp_minus_1)
  have seven: "y AND 128 = 0 \<longleftrightarrow> \<not> bit y 7" for y :: u8
    using and_exp_eq_0_iff_not_bit [of y 7] by simp
  have x: "take_bit 7 x = x"
  proof (rule word_unat_eq_iff [THEN iffD2])
    show "unat (take_bit 7 x) = unat x"
      using assms by (simp add: unsigned_take_bit_eq take_bit_nat_eq_self word_less_nat_alt)
  qed
  show "x AND 127 = x" by (simp add: mask x)
  show "(x OR 0x80) AND 127 = x"
    using x by (simp add: mask)
  have "\<not> bit x 7"
    by (metis bit_take_bit_iff nat_less_le x)
  then show "x AND 128 = 0" by (simp add: seven)
  have "bit (0x80 :: u8) 7" by (simp add: bit_numeral_rec)
  then show "(x OR 0x80) AND 128 \<noteq> 0" by (simp add: seven bit_or_iff)
qed

lemma join_bytes: "push_bit 8 (ucast (high_byte w)) OR ucast (low_byte w) = (w :: u16)"
  unfolding high_byte_def low_byte_def
  by (rule bit_word_eqI) (auto simp: bit_or_iff bit_push_bit_iff bit_ucast_iff bit_drop_bit_eq)

lemma of_nat16_zero: "n < 65536 \<Longrightarrow> (of_nat n :: u16) = 0 \<longleftrightarrow> n = 0"
  using unat_eq_zero [of "of_nat n :: u16"] by (simp add: unat_of_nat16)

lemma chars_of_bytes [simp]: "chars_of (bytes_of s) = s"
  by (induction s) (simp_all add: chars_of_def bytes_of_def unat_of_nat8 nat_of_char_less_256)

lemma length_bytes_of [simp]: "length (bytes_of s) = length s"
  by (simp add: bytes_of_def)

section \<open>The remaining length\<close>

text \<open>A digit of the remaining length, as a byte and back.\<close>

lemma length_digit:
  assumes "unat (r :: u16) < 128"
  shows "(ucast r :: u8) < 128" "ucast (ucast r :: u8) = r"
proof -
  have u: "unat (ucast r :: u8) = unat r" using assms by (simp add: unat_ucast_16_8)
  then show "(ucast r :: u8) < 128" using assms by (simp add: word_less_nat_alt)
  show "ucast (ucast r :: u8) = r"
    by (rule word_unat_eq_iff [THEN iffD2]) (simp add: u)
qed

lemma rem_len_one:
  assumes "unat (r :: u16) < 128"
  shows "rem_len_loop (ucast r # ds) 1 0 = Some r"
  using low_seven_bits(3,4) [OF length_digit(1) [OF assms]] length_digit(2) [OF assms] by simp

lemma rem_len_two:
  assumes "unat (r :: u16) < 16384"
  shows "rem_len_loop ((ucast (r mod 128) OR 0x80) # ucast (r div 128) # ds) 1 0 = Some r"
proof -
  have digits: "unat (r mod 128) < 128" "unat (r div 128) < 128"
    using assms by (simp_all add: unat_mod unat_div)
  note lo = low_seven_bits(1,2) [OF length_digit(1) [OF digits(1)]] length_digit(2) [OF digits(1)]
  note hi = low_seven_bits(3,4) [OF length_digit(1) [OF digits(2)]] length_digit(2) [OF digits(2)]
  have "r mod 128 + (r div 128) * 128 = r" by (rule mod_div_mult_eq)
  with lo hi show ?thesis by simp
qed

lemma rem_len_two_bytes:
  assumes "unat (r :: u16) < 16384"
  shows "mqtt_num_rem_len_bytes (ty # (ucast (r mod 128) OR 0x80) # ucast (r div 128) # ds) = Some 2"
proof -
  have digits: "unat (r mod 128) < 128" "unat (r div 128) < 128"
    using assms by (simp_all add: unat_mod unat_div)
  have "(x OR 0x80) AND 128 = 128" for x :: u8
    by (rule bit_word_eqI) (auto simp: bit_and_iff bit_or_iff)
  with low_seven_bits(4) [OF length_digit(1) [OF digits(2)]] show ?thesis
    by (simp add: mqtt_num_rem_len_bytes_def array_get_def)
qed

section \<open>Publishing\<close>

definition publish_flags :: "u8 \<Rightarrow> u8 \<Rightarrow> u8" where
  "publish_flags retain qos_flag = (0x30 OR qos_flag) OR (if retain \<noteq> 0 then 1 else 0)"

definition publish_header :: "string \<Rightarrow> u8 \<Rightarrow> u8 \<Rightarrow> u16 \<Rightarrow> u8 list" where
  "publish_header topic retain qos_flag r =
     publish_flags retain qos_flag # (ucast (r mod 128) OR 0x80) # ucast (r div 128) # utf_field topic"

text \<open>The room of the identifier of a packet that is to be acknowledged.\<close>

definition id_room :: "u8 \<Rightarrow> nat" where
  "id_room qos_flag = (if qos_flag = 0 then 0 else 2)"

lemma publish_defined:
  assumes "5 + length topic \<le> length packet" "qos_flag \<in> {0, 2, 4}"
  shows "mqtt_publish_with_qos b topic retain qos_flag packet n =
    Some (of_nat (length topic + 5 + id_room qos_flag) + n, if qos_flag = 0 then None else Some (broker_seq b),
      if qos_flag = 0 then b else b\<lparr>broker_seq := broker_seq b + 1\<rparr>,
      publish_header topic retain qos_flag (of_nat (length topic + 2 + id_room qos_flag) + n) @ drop (5 + length topic) packet)"
proof -
  have flags: "(if qos_flag = 4 \<or> qos_flag = 0 then ((0x30 OR qos_flag) OR (if retain \<noteq> 0 then 1 else 0)) AND 0xF7
      else (0x30 OR qos_flag) OR (if retain \<noteq> 0 then 1 else 0)) = publish_flags retain qos_flag"
    using assms(2) by (auto simp: publish_flags_def)
  have room: "(if qos_flag = 0 then 0 else 2 :: u16) = of_nat (id_room qos_flag)" by (simp add: id_room_def)
  show ?thesis
    using assms(1) unfolding mqtt_publish_with_qos_def Let_def MQTT_MSG_PUBLISH_def flags room
    by (simp add: publish_header_def put_bytes_def utf_field_def split_def ac_simps eval_nat_numeral)
qed

lemma short_length:
  assumes "n < 256"
  shows "high_byte (of_nat n) = 0" "low_byte (of_nat n) = of_nat n"
proof -
  have n: "unat (of_nat n :: u16) = n" using assms by (simp add: unat_of_nat16)
  then show "high_byte (of_nat n) = 0"
    using assms by (simp add: high_byte_def word_unat_eq_iff unat_ucast_16_8 drop_bit_eq_div unat_div)
  show "low_byte (of_nat n) = of_nat n"
    using assms n by (simp add: low_byte_def word_unat_eq_iff unat_ucast_16_8 unat_of_nat8)
qed

lemma publish_flags_read:
  assumes "qos_flag \<in> {0, 2, 4}"
  shows "publish_flags retain qos_flag AND 0xF0 = MQTT_MSG_PUBLISH"
    "drop_bit 1 (publish_flags retain qos_flag AND 0x06) = drop_bit 1 qos_flag"
    "drop_bit 1 qos_flag = 0 \<longleftrightarrow> qos_flag = 0"
  using assms by (auto simp: publish_flags_def MQTT_MSG_PUBLISH_def)


section \<open>Connecting\<close>

text \<open>Everything after the fixed header of a \<open>CONNECT\<close> packet.\<close>

definition connect_body :: "u8 \<Rightarrow> mqtt_broker \<Rightarrow> u8 list" where
  "connect_body flags b =
     [0x00, 0x06, 0x4d, 0x51, 0x49, 0x73, 0x64, 0x70, 0x03, flags, high_byte (broker_alive b), low_byte (broker_alive b)] @
     utf_field (clientid b) @ optional_field (will_topic b) @ optional_field (will_msg b) @
     optional_field (Some (broker_username b)) @ optional_field (Some (broker_password b))"

lemma length_utf_field [simp]: "length (utf_field s) = length s + 2"
  by (simp add: utf_field_def)

lemma optional_field_length:
  assumes "length (optional_field s) < 256"
  shows "of_nat (length (optional_field s)) = (if strlen16 s > 0 then strlen16 s + 2 else 0)"
proof (cases s)
  case (Some t)
  have "(0 :: u16) < of_nat (length t) \<longleftrightarrow> t \<noteq> []" if "length t < 256"
    using that by (simp add: word_less_nat_alt unat_of_nat16)
  with Some assms show ?thesis by (cases t) (auto simp: optional_field_def strlen16_def)
qed (simp add: optional_field_def strlen16_def)

lemma connect_payload:
  assumes "length (connect_body flags b) < 256" "strlen16 (will_topic b) > 0 \<longleftrightarrow> strlen16 (will_msg b) > 0"
  shows "12 + connect_payload_length b = of_nat (length (connect_body flags b))"
proof -
  note parts = assms(1) [unfolded connect_body_def]
  have "length (optional_field (will_topic b)) < 256" "length (optional_field (will_msg b)) < 256"
    "length (optional_field (Some (broker_username b))) < 256" "length (optional_field (Some (broker_password b))) < 256"
    using parts by simp_all
  note fields = this [THEN optional_field_length]
  have nonempty: "strlen16 (Some t) > 0 \<longleftrightarrow> t \<noteq> []" if "length (optional_field (Some t)) < 256" for t
    using that by (cases t) (auto simp: optional_field_def strlen16_def word_less_nat_alt unat_of_nat16 simp del: of_nat_Suc)
  have "strlen16 (Some (broker_username b)) > 0 \<longleftrightarrow> broker_username b \<noteq> []"
    "strlen16 (Some (broker_password b)) > 0 \<longleftrightarrow> broker_password b \<noteq> []"
    using parts by (simp_all add: nonempty)
  with fields assms(2) show ?thesis
    by (simp add: connect_body_def connect_payload_length_def) (simp add: strlen16_def)
qed

text \<open>The remaining length as \<open>mqtt_connect\<close> writes it, an \<open>uint8_t\<close>.\<close>

definition connect_header :: "nat \<Rightarrow> u8 list" where
  "connect_header n = (if n > 127 then [MQTT_MSG_CONNECT, ucast (of_nat n mod 128 :: u16) OR 0x80, ucast (of_nat n div 128 :: u16)]
     else [MQTT_MSG_CONNECT, ucast (of_nat n :: u16)])"

lemma connect_header_written:
  assumes "n < 256"
  shows "(let r = ucast (of_nat n :: u16) :: u8 in
      if r > 127 then [MQTT_MSG_CONNECT, (r mod 128) OR 0x80, r div 128] else [MQTT_MSG_CONNECT, r]) = connect_header n"
proof -
  have n: "unat (of_nat n :: u16) = n" "unat (ucast (of_nat n :: u16) :: u8) = n"
    using assms by (simp_all add: unat_of_nat16 unat_ucast_16_8)
  then have "(ucast (of_nat n :: u16) :: u8) > 127 \<longleftrightarrow> n > 127" by (simp add: word_less_nat_alt)
  moreover have "(ucast (of_nat n :: u16) :: u8) mod 128 = ucast (of_nat n mod 128 :: u16)"
    "(ucast (of_nat n :: u16) :: u8) div 128 = ucast (of_nat n div 128 :: u16)"
    using n assms by (simp_all add: word_unat_eq_iff unat_ucast_16_8 unat_mod unat_div)
  ultimately show ?thesis by (simp add: connect_header_def Let_def)
qed

lemma connect_header_read:
  assumes "n < 256"
  shows "mqtt_parse_rem_len (connect_header n @ rest) = Some (of_nat n)"
proof -
  have n: "unat (of_nat n :: u16) = n" using assms by (simp add: unat_of_nat16)
  show ?thesis
    using rem_len_one [of "of_nat n"] rem_len_two [of "of_nat n"] n assms
    by (simp add: mqtt_parse_rem_len_def connect_header_def)
qed

text \<open>The remaining length that \<open>mqtt_connect\<close> announces is the real length of the packet's body, and the
  returned size that of the whole packet, as long as the body is shorter than 256 bytes (the length
  is computed in eight bits) and the will has either both a topic and a message or none.\<close>

theorem connect_announces_length:
  assumes flags: "connect_flags b = Some flags" and small: "length (connect_body flags b) < 256"
    and will: "strlen16 (will_topic b) > 0 \<longleftrightarrow> strlen16 (will_msg b) > 0"
    and room: "length (connect_body flags b) + 3 \<le> length packet"
  shows "\<exists>p. mqtt_connect b packet = Some (int (length (connect_header (length (connect_body flags b))) + length (connect_body flags b)), p) \<and>
    mqtt_parse_rem_len p = Some (of_nat (length (connect_body flags b))) \<and>
    parse_message_type p = Some MQTT_MSG_CONNECT \<and>
    (\<exists>rest. p = connect_header (length (connect_body flags b)) @ connect_body flags b @ rest)"
proof -
  let ?n = "length (connect_body flags b)"
  let ?h = "connect_header ?n"
  have h: "length ?h \<le> 3" "parse_message_type (?h @ rest) = Some MQTT_MSG_CONNECT" for rest
    by (simp_all add: connect_header_def parse_message_type_def array_get_def MQTT_MSG_CONNECT_def)
  have size: "of_nat (length ?h) + 12 + connect_payload_length b = (of_nat (length ?h + ?n) :: u16)"
    using connect_payload [OF small will] by (simp add: add.assoc)
  have size16: "unat (of_nat (length ?h + ?n) :: u16) = length ?h + ?n" "uint (of_nat (length ?h + ?n) :: u16) = int (length ?h + ?n)"
  proof -
    show "unat (of_nat (length ?h + ?n) :: u16) = length ?h + ?n"
      by (rule unat_of_nat16) (use h(1) small in simp)
    then show "uint (of_nat (length ?h + ?n) :: u16) = int (length ?h + ?n)"
      by (simp only: uint_nat)
  qed
  let ?p = "?h @ connect_body flags b @ drop (length ?h + ?n) packet"
  have "mqtt_connect b packet = Some (int (length ?h + ?n), ?p)"
  proof -
    have len: "length ?h + ?n \<le> length packet" using h(1) room by simp
    then have zeros: "put_bytes packet 0 (replicate (length ?h + ?n) 0) =
        Some (replicate (length ?h + ?n) 0 @ drop (length ?h + ?n) packet)"
      by (simp add: put_bytes_def)
    have body: "put_bytes (replicate (length ?h + ?n) 0 @ drop (length ?h + ?n) packet) 0 (?h @ connect_body flags b) = Some ?p"
      using len by (simp add: put_bytes_def)
    show ?thesis
      unfolding mqtt_connect_def flags option.case Let_def connect_payload [OF small will]
        connect_header_written [OF small, unfolded Let_def] size size16 zeros bind.bind_lunit
        connect_body_def [symmetric] body
      by simp
  qed
  then show ?thesis using connect_header_read [OF small] h(2) by blast
qed

end
