(* ===== verification/Config_Storage.thy ===== *)
theory Config_Storage
  imports Nonvolatile_Memory Commands Mqtt_Round_Trip
begin

unbundle bit_operations_syntax

text \<open>
  The configuration variables (\<open>SDK/core/config.c\<close>, \<open>SDK/core/commands.c\<close>) over a storage, and the EEPROM of
  \<open>nonvolatile_memory.c\<close> as that storage, as \<open>WolkSensor/main.c\<close> plugs them together: a setting that was
  stored is there after a restart.
\<close>

section \<open>What the commands and the loaders expect of a storage\<close>

locale config_storage =
  fixes ops :: "'p platform_ops"
    and sound :: "'p \<Rightarrow> bool"
    and accepts :: "cfg_t \<Rightarrow> cfg_value \<Rightarrow> 'p \<Rightarrow> bool"
  assumes read_written: "sound p \<Longrightarrow> accepts k v p \<Longrightarrow> config_read ops k (config_write ops k v p) = Some v"
    and read_other: "sound p \<Longrightarrow> accepts k v p \<Longrightarrow> j \<noteq> k \<Longrightarrow> config_read ops j (config_write ops k v p) = config_read ops j p"
    and sound_written: "sound p \<Longrightarrow> accepts k v p \<Longrightarrow> sound (config_write ops k v p)"
begin

text \<open>Loading after a restart, whatever the variables hold by then.\<close>

lemma loads_written:
  assumes "sound p"
  shows "accepts CFG_DEVICE_ID (CfgString s) p \<Longrightarrow> platform a = config_write ops CFG_DEVICE_ID (CfgString s) p \<Longrightarrow>
      load_device_id ops a = (True, set_config (\<lambda>c. c\<lparr>cfg_device_id := s\<rparr>) a)"
    and "accepts CFG_DEVICE_PRESHARED_KEY (CfgString s) p \<Longrightarrow> platform a = config_write ops CFG_DEVICE_PRESHARED_KEY (CfgString s) p \<Longrightarrow>
      load_device_preshared_key ops a = (True, set_config (\<lambda>c. c\<lparr>cfg_device_preshared_key := s\<rparr>) a)"
    and "accepts CFG_SYSTEM_HEARTBEAT (CfgU16 w) p \<Longrightarrow> platform a = config_write ops CFG_SYSTEM_HEARTBEAT (CfgU16 w) p \<Longrightarrow>
      load_system_heartbeat ops a = (True, set_config (\<lambda>c. c\<lparr>cfg_system_heartbeat := w\<rparr>) a)"
    and "accepts CFG_WIFI_SSID (CfgString s) p \<Longrightarrow> platform a = config_write ops CFG_WIFI_SSID (CfgString s) p \<Longrightarrow>
      load_wifi_ssid ops a = (True, set_config (\<lambda>c. c\<lparr>cfg_wifi_ssid := s\<rparr>) a)"
    and "accepts CFG_WIFI_PASS (CfgString s) p \<Longrightarrow> platform a = config_write ops CFG_WIFI_PASS (CfgString s) p \<Longrightarrow>
      load_wifi_password ops a = (True, set_config (\<lambda>c. c\<lparr>cfg_wifi_password := s\<rparr>) a)"
  using assms
  by (simp_all add: load_device_id_def load_device_preshared_key_def load_system_heartbeat_def load_wifi_ssid_def load_wifi_password_def
      load_var_def read_string_def read_u16_def read_written set_config_def)

end

section \<open>The EEPROM as the storage\<close>

definition variable_size :: "cfg_t \<Rightarrow> u8" where
  "variable_size k = (case k of
     CFG_SYSTEM_HEARTBEAT \<Rightarrow> 2 | CFG_SERVER_PORT \<Rightarrow> 2 | CFG_WIFI_SSID \<Rightarrow> 33 | CFG_WIFI_PASS \<Rightarrow> 64 | CFG_WIFI_AUTH \<Rightarrow> 1
   | CFG_MOVEMENT \<Rightarrow> 1 | CFG_ATMO \<Rightarrow> 1 | CFG_MAC \<Rightarrow> 6 | CFG_LOCATION \<Rightarrow> 1 | CFG_SSL \<Rightarrow> 1 | CFG_OFFSET \<Rightarrow> 12
   | CFG_OFFSET_FACTORY \<Rightarrow> 20 | _ \<Rightarrow> 30)"

text \<open>The bytes of a value in memory; those of floats are an argument.\<close>

primrec value_bytes :: "(c_float list \<Rightarrow> u8 list) \<Rightarrow> cfg_value \<Rightarrow> u8 list" where
  "value_bytes F (CfgString s) = bytes_of s"
| "value_bytes F (CfgU16 w) = [low_byte w, high_byte w]"
| "value_bytes F (CfgU8 b) = [b]"
| "value_bytes F (CfgBool b) = [if b then 1 else 0]"
| "value_bytes F (CfgFloats f) = F f"
| "value_bytes F (CfgBytes bs) = bs"

definition bytes_value :: "(u8 list \<Rightarrow> c_float list) \<Rightarrow> cfg_t \<Rightarrow> u8 list \<Rightarrow> cfg_value" where
  "bytes_value G k bs =
     (if k \<in> {CFG_SYSTEM_HEARTBEAT, CFG_SERVER_PORT} then CfgU16 (push_bit 8 (ucast (bs ! 1)) OR ucast (bs ! 0))
      else if k = CFG_WIFI_AUTH then CfgU8 (bs ! 0)
      else if k \<in> {CFG_MOVEMENT, CFG_ATMO, CFG_LOCATION, CFG_SSL} then CfgBool (bs ! 0 \<noteq> 0)
      else if k \<in> {CFG_OFFSET, CFG_OFFSET_FACTORY} then CfgFloats (G bs)
      else if k = CFG_MAC then CfgBytes bs
      else CfgString (chars_of bs))"

text \<open>The variables are zero when they are loaded; a write that fails is not noticed by the commands.\<close>

definition eeprom_ops ::
  "page_writer \<Rightarrow> (c_float list \<Rightarrow> u8 list) \<Rightarrow> (u8 list \<Rightarrow> c_float list) \<Rightarrow>
   (page list \<times> 'q) platform_ops \<Rightarrow> (page list \<times> 'q) platform_ops" where
  "eeprom_ops W F G base = base\<lparr>
     config_read := (\<lambda>k (e, q).
       case eeprom_config_read (replicate (unat (variable_size k)) 0) (cfg_code k) 1 (variable_size k) e of
         Some (True, bs) \<Rightarrow> Some (bytes_value G k bs)
       | _ \<Rightarrow> None),
     config_write := (\<lambda>k v (e, q).
       case eeprom_config_write W (value_bytes F v) (cfg_code k) 1 (variable_size k) e of
         Some (_, e') \<Rightarrow> (e', q)
       | None \<Rightarrow> (e, q))\<rparr>"

text \<open>A page as the hardware writes it: only what was loaded for it changes.\<close>

definition load_page :: page_writer where
  "load_page p bs = bs @ drop (length bs) p"

lemma load_page_writes: "writes_pages load_page"
  by (simp add: writes_pages_def load_page_def)

definition has_type :: "cfg_t \<Rightarrow> cfg_value \<Rightarrow> bool" where
  "has_type k v = (case v of
     CfgU16 _ \<Rightarrow> k \<in> {CFG_SYSTEM_HEARTBEAT, CFG_SERVER_PORT}
   | CfgU8 _ \<Rightarrow> k = CFG_WIFI_AUTH
   | CfgBool _ \<Rightarrow> k \<in> {CFG_MOVEMENT, CFG_ATMO, CFG_LOCATION, CFG_SSL}
   | CfgFloats _ \<Rightarrow> False
   | CfgBytes _ \<Rightarrow> k = CFG_MAC
   | CfgString _ \<Rightarrow> k \<notin> {CFG_SYSTEM_HEARTBEAT, CFG_SERVER_PORT, CFG_WIFI_AUTH, CFG_MOVEMENT, CFG_ATMO, CFG_LOCATION, CFG_SSL,
       CFG_OFFSET, CFG_OFFSET_FACTORY, CFG_MAC})"

definition eeprom_accepts ::
  "page_writer \<Rightarrow> (c_float list \<Rightarrow> u8 list) \<Rightarrow> cfg_t \<Rightarrow> cfg_value \<Rightarrow> page list \<times> 'q \<Rightarrow> bool" where
  "eeprom_accepts W F k v p \<longleftrightarrow> has_type k v \<and> storable k (value_bytes F v) \<and> length (value_bytes F v) = unat (variable_size k) \<and>
     (\<exists>e'. eeprom_config_write W (value_bytes F v) (cfg_code k) 1 (variable_size k) (fst p) = Some (True, e'))"

lemma value_reads_back: "has_type k v \<Longrightarrow> bytes_value G k (value_bytes F v) = v"
  by (cases v) (auto simp: has_type_def bytes_value_def join_bytes)

lemma variable_zero: "data_ready (unat (variable_size k)) (replicate (unat (variable_size k)) 0)"
  by (simp add: data_ready_def)

lemma small_variable: "unat (variable_size k) \<le> 30 \<or> k \<in> {CFG_WIFI_SSID, CFG_WIFI_PASS}"
  by (cases k) (simp_all add: variable_size_def)

lemma eeprom_stores:
  assumes "memory_ok (fst p)" "eeprom_accepts load_page F k v p"
  obtains e' where "config_write (eeprom_ops load_page F G base) k v p = (e', snd p)" "memory_ok e'"
    "config_read (eeprom_ops load_page F G base) k (e', snd p) = Some v"
    "\<And>j. j \<noteq> k \<Longrightarrow> config_read (eeprom_ops load_page F G base) j (e', snd p) = config_read (eeprom_ops load_page F G base) j p"
proof -
  from assms(2) obtain e' where w: "eeprom_config_write load_page (value_bytes F v) (cfg_code k) 1 (variable_size k) (fst p) = Some (True, e')"
    and typed: "has_type k v" and fits: "storable k (value_bytes F v)" "of_nat (length (value_bytes F v)) = variable_size k"
    by (auto simp: eeprom_accepts_def)
  note stored = variable_stored [OF assms(1) load_page_writes fits(1), unfolded fits(2), OF w]
  have "length (value_bytes F v) = unat (variable_size k)" using assms(2) by (simp add: eeprom_accepts_def)
  with stored(1) variable_zero [of k] have "config_read (eeprom_ops load_page F G base) k (e', snd p) = Some v"
    by (simp add: eeprom_ops_def value_reads_back [OF typed])
  moreover have "config_read (eeprom_ops load_page F G base) j (e', snd p) = config_read (eeprom_ops load_page F G base) j p" if "j \<noteq> k" for j
    using read_depends [OF assms(1) stored(2) stored(3) [OF fields_disjoint [OF that]] small_variable]
    by (simp add: eeprom_ops_def split_def)
  moreover have "config_write (eeprom_ops load_page F G base) k v p = (e', snd p)"
    using w by (simp add: eeprom_ops_def split_def)
  ultimately show thesis using that stored(2) by blast
qed

interpretation eeprom: config_storage "eeprom_ops load_page F G base" "\<lambda>p. memory_ok (fst p)" "eeprom_accepts load_page F"
  for F G and base :: "(page list \<times> 'q) platform_ops"
proof
  fix p :: "page list \<times> 'q" and k v
  assume p: "memory_ok (fst p)" "eeprom_accepts load_page F k v p"
  show "config_read (eeprom_ops load_page F G base) k (config_write (eeprom_ops load_page F G base) k v p) = Some v"
    using p by (auto elim: eeprom_stores [where G = G and base = base])
  show "memory_ok (fst (config_write (eeprom_ops load_page F G base) k v p))"
    using p by (auto elim: eeprom_stores [where G = G and base = base])
  show "config_read (eeprom_ops load_page F G base) j (config_write (eeprom_ops load_page F G base) k v p) =
      config_read (eeprom_ops load_page F G base) j p" if "j \<noteq> k" for j
    using p that by (auto elim: eeprom_stores [where G = G and base = base])
qed

lemma config_read_memory: "fst p = fst q \<Longrightarrow> config_read (eeprom_ops W F G base) k p = config_read (eeprom_ops W F G base) k q"
  by (simp add: eeprom_ops_def split_def)

lemma bytes_of_strncpy:
  assumes "NUL \<notin> set s" "length s \<le> n"
  shows "bytes_of (c_strncpy n s) = text_array n (bytes_of s)" "0 \<notin> set (bytes_of s)"
proof -
  have nul: "chars_of [0] = [NUL]" by (simp add: chars_of_def char_of_def)
  have "c = NUL" if "(of_nat (of_char c) :: u8) = 0" for c
  proof -
    have "chars_of (bytes_of [c]) = chars_of [0]" by (simp only: bytes_of_def list.map that)
    then show ?thesis unfolding chars_of_bytes nul by simp
  qed
  then show "0 \<notin> set (bytes_of s)" using assms(1) by (fastforce simp: bytes_of_def)
  show "bytes_of (c_strncpy n s) = text_array n (bytes_of s)"
    using assms(2) by (simp add: c_strncpy_def text_array_def bytes_of_def take_map)
qed

text \<open>C25: The name of a network that the SSID command stored, and that the answer shows, is loaded after a restart,
  whatever the variables hold by then, as long as what disconnects the module leaves the memory alone; every other variable is
  loaded as before the command.\<close>

theorem wifi_name_survives_restart:
  fixes base :: "(page list \<times> 'q) platform_ops"
  assumes "memory_ok (fst (platform a))" "command_has_argument c" "string_member (command_arg c) = Some s"
    and "s \<noteq> ''NULL''" "NUL \<notin> set s" "length s \<le> 32"
    and "eeprom_config_write load_page (bytes_of (c_strncpy 33 s)) (cfg_code CFG_WIFI_SSID) 1 33 (fst (platform a)) = Some (True, e')"
    and "\<And>g p p'. wifi_disconnect_and_wait base = Some g \<Longrightarrow> g p = Some p' \<Longrightarrow> fst p' = fst p"
    and "cmd_ssid (eeprom_ops load_page F G base) c a = Some (r, c', a')" and "fst (platform b) = fst (platform a')"
  shows "load_wifi_ssid (eeprom_ops load_page F G base) b = (True, set_config (\<lambda>k. k\<lparr>cfg_wifi_ssid := c_strncpy 33 s\<rparr>) b) \<and>
    cfg_wifi_ssid (app_config a') = c_strncpy 33 s \<and>
    (\<forall>j. j \<noteq> CFG_WIFI_SSID \<longrightarrow>
      config_read (eeprom_ops load_page F G base) j (platform b) = config_read (eeprom_ops load_page F G base) j (platform a))"
proof -
  let ?ops = "eeprom_ops load_page F G base" and ?v = "CfgString (c_strncpy 33 s)"
  let ?a = "write_config ?ops CFG_WIFI_SSID ?v (set_config (\<lambda>k. k\<lparr>cfg_wifi_ssid := c_strncpy 33 s\<rparr>) a)"
  note name = bytes_of_strncpy [OF assms(5), of 33]
  have "storable CFG_WIFI_SSID (value_bytes F ?v)" using name assms(6) by (auto simp: storable_def intro!: exI [of _ "bytes_of s"])
  then have accepts: "eeprom_accepts load_page F CFG_WIFI_SSID ?v (platform a)"
    using assms(7) name assms(6) by (auto simp: eeprom_accepts_def has_type_def variable_size_def length_text_array)
  from assms(2-4,6,9) obtain a1 where
    a1: "call_if_set (wifi_disconnect_and_wait ?ops) ?a = Some a1" "respond (append_ssid (app_config a1)) a1 = Some a'"
    by (auto simp: cmd_ssid_def finished_def string_value_def bind_eq_Some_conv Let_def split: if_splits)
  have same_call: "wifi_disconnect_and_wait ?ops = wifi_disconnect_and_wait base" by (simp add: eeprom_ops_def)
  have called: "call_if_set f x = Some y \<Longrightarrow> y = x \<or> (\<exists>g p'. f = Some g \<and> g (platform x) = Some p' \<and> y = x\<lparr>platform := p'\<rparr>)"
    for f and x y :: "(page list \<times> 'q) app" by (cases f) (auto simp: call_if_set_def bind_eq_Some_conv)
  from called [OF a1(1)] consider "a1 = ?a" | g p' where "wifi_disconnect_and_wait base = Some g" "g (platform ?a) = Some p'" "a1 = ?a\<lparr>platform := p'\<rparr>"
    unfolding same_call by blast
  then have "app_config a1 = app_config ?a \<and> fst (platform a1) = fst (platform ?a)"
  proof cases
    case 2
    with assms(8) [OF 2(1,2)] show ?thesis by simp
  qed simp
  moreover have "app_config a' = app_config a1" "platform a' = platform a1" using a1(2) by (auto simp: respond_def bind_eq_Some_conv)
  ultimately have same: "app_config a' = app_config ?a" "fst (platform b) = fst (config_write ?ops CFG_WIFI_SSID ?v (platform a))"
    using assms(10) by (simp_all add: write_config_def set_config_def)
  note read = config_read_memory [OF same(2), of load_page F G base]
  have "config_read ?ops CFG_WIFI_SSID (platform b) = Some ?v"
    unfolding read by (rule eeprom.read_written [OF assms(1) accepts])
  moreover have "config_read ?ops j (platform b) = config_read ?ops j (platform a)" if "j \<noteq> CFG_WIFI_SSID" for j
    unfolding read by (rule eeprom.read_other [OF assms(1) accepts that])
  moreover have "cfg_wifi_ssid (app_config a') = c_strncpy 33 s" unfolding same(1) by (simp add: write_config_def set_config_def)
  ultimately show ?thesis by (simp add: load_wifi_ssid_def load_var_def read_string_def set_config_def)
qed

end
