(* ===== verification/Command_Effects.thy ===== *)
theory Command_Effects
  imports Commands
begin

text \<open>
  What executing a command may change: a command without an argument only writes the response
  buffer and posts events, and no command posts more than one event.
\<close>

definition only_responds :: "'p app \<Rightarrow> 'p app \<Rightarrow> bool" where
  "only_responds a a' \<longleftrightarrow> a' = a\<lparr>app_response := app_response a', app_events := app_events a'\<rparr>"

lemma only_respondsI: "only_responds a (a\<lparr>app_response := b\<rparr>)" "only_responds a (a\<lparr>app_response := b, app_events := e\<rparr>)"
  by (cases a; simp add: only_responds_def)+

lemma respond_only: "respond f a = Some a' \<Longrightarrow> \<exists>b. a' = a\<lparr>app_response := b\<rparr>"
  by (auto simp: respond_def bind_eq_Some_conv)

lemma post_event_only: "post_event ops e a = Some a' \<Longrightarrow> \<exists>b. a' = a\<lparr>app_events := b\<rparr>"
  by (auto simp: post_event_def bind_eq_Some_conv)

lemma finished_eq_Some: "finished c r = Some (x, c', a') \<longleftrightarrow> r = Some a' \<and> x = COMMAND_EXECUTED_SUCCESSFULLY \<and> c' = c"
  by (auto simp: finished_def)

lemmas command_defs = cmd_now_def cmd_reload_def cmd_acquisition_def cmd_heartbeat_def cmd_rtc_def cmd_status_def
  cmd_version_def cmd_id_def cmd_signature_def cmd_movement_def cmd_atmo_def cmd_location_def cmd_ssl_def
  cmd_system_def cmd_readings_def cmd_alarm_def cmd_mac_def cmd_url_def cmd_port_def cmd_ssid_def cmd_pass_def
  cmd_auth_def cmd_static_ip_def cmd_static_mask_def cmd_static_gateway_def cmd_static_dns_def cmd_set_def
  cmd_temp_offset_def cmd_humidity_offset_def cmd_pressure_offset_def cmd_offset_factory_def

lemma bare_command_only_responds:
  assumes "execute_command ops st c a = Some (r, c', a')" "\<not> command_has_argument c"
  shows "only_responds a a' \<and> c' = c\<lparr>command_arg := command_arg c'\<rparr>"
  using assms
  by (cases "command_type c")
     (auto simp: execute_command_def command_defs finished_eq_Some exchange_data_def reset_def acquisition_def bind_eq_Some_conv
       dest!: respond_only post_event_only intro: only_respondsI split: if_splits)
text \<open>A command posts at most one event.\<close>

definition posts_one :: "'p app \<Rightarrow> 'p app \<Rightarrow> bool" where
  "posts_one a a' \<longleftrightarrow> app_events a' = app_events a \<or>
     (\<exists>now ty. ty < 10 \<and> add_event_type now (app_events a) ty = Some (app_events a'))"

lemma post_event_posts: "post_event ops e a = Some a' \<Longrightarrow> e < 10 \<Longrightarrow> posts_one a a'"
  by (auto simp: post_event_def posts_one_def bind_eq_Some_conv)

lemma respond_events: "respond f a = Some a' \<Longrightarrow> app_events a' = app_events a"
  by (auto simp: respond_def bind_eq_Some_conv)

lemma start_heartbeat_events: "start_heartbeat p a = Some a' \<Longrightarrow> app_events a' = app_events a"
  by (auto simp: start_heartbeat_def bind_eq_Some_conv split: if_splits)

lemma call_events:
  "call_if_set f a = Some a' \<Longrightarrow> app_events a' = app_events a"
  "call_unchecked f a = Some a' \<Longrightarrow> app_events a' = app_events a"
  "disconnect_if_static_ip ops a = Some a' \<Longrightarrow> app_events a' = app_events a"
  by (auto simp: call_if_set_def call_unchecked_def disconnect_if_static_ip_def bind_eq_Some_conv split: option.splits if_splits)

lemma write_config_events [simp]:
  "app_events (write_config ops k v a) = app_events a" "app_events (set_config f a) = app_events a"
  by (simp_all add: write_config_def set_config_def)

lemma set_offset_events: "set_offset ops k l q a = Some a' \<Longrightarrow> app_events a' = app_events a"
  by (force simp: set_offset_def bind_eq_Some_conv simp del: array_get_in array_set_in split: if_split_asm)

lemma command_posts_one:
  assumes "execute_command ops st c a = Some (r, c', a')"
  shows "posts_one a a'"
proof -
  have ev: "EVENT_HEARTBEAT < 10" "EVENT_RESET < 10" "EVENT_ACQUIRE < 10" by (simp_all add: app_event_defs)
  show ?thesis
    using assms ev
  by (cases "command_type c")
     (auto simp: execute_command_def command_defs finished_eq_Some exchange_data_def reset_def acquisition_def bind_eq_Some_conv
         posts_one_def post_event_def Let_def
       dest!: respond_events start_heartbeat_events call_events set_offset_events split: if_splits option.splits)
qed
end
