(* ===== verification/Command_Limits.thy ===== *)
theory Command_Limits
  imports Command_Effects Config
begin

text \<open>
  What the commands of \<open>SDK/core/commands.c\<close> let into the configuration: the ranges of the offsets,
  and the character arrays.
\<close>

section \<open>Offsets stay in their ranges\<close>

definition offset_ok :: "nat \<Rightarrow> c_float \<Rightarrow> bool" where
  "offset_ok i v \<longleftrightarrow> \<not> (if i = 0 then float_outside (-2) (37/10) v
                        else if i = 1 then float_outside (-10) 10 v else float_outside (-3) 3 v)"

definition offsets_ok :: "config \<Rightarrow> bool" where
  "offsets_ok c \<longleftrightarrow> length (cfg_atmo_offset c) = 3 \<and> length (cfg_atmo_offset_factory c) = 5 \<and>
     (\<forall>i < 3. offset_ok i (cfg_atmo_offset c ! i) \<and> offset_ok i (cfg_atmo_offset_factory c ! i))"

lemma offsets_ok_cong:
  "cfg_atmo_offset c' = cfg_atmo_offset c \<Longrightarrow> cfg_atmo_offset_factory c' = cfg_atmo_offset_factory c \<Longrightarrow>
   offsets_ok c' \<longleftrightarrow> offsets_ok c"
  by (simp add: offsets_ok_def)

lemma respond_config: "respond f a = Some a' \<Longrightarrow> app_config a' = app_config a"
  by (auto simp: respond_def bind_eq_Some_conv)

lemma post_event_config: "post_event ops e a = Some a' \<Longrightarrow> app_config a' = app_config a"
  by (auto simp: post_event_def bind_eq_Some_conv)

lemma start_heartbeat_config: "start_heartbeat p a = Some a' \<Longrightarrow> app_config a' = app_config a"
  by (auto simp: start_heartbeat_def bind_eq_Some_conv split: if_splits)

lemma call_config:
  "call_if_set f a = Some a' \<Longrightarrow> app_config a' = app_config a"
  "call_unchecked f a = Some a' \<Longrightarrow> app_config a' = app_config a"
  "disconnect_if_static_ip ops a = Some a' \<Longrightarrow> app_config a' = app_config a"
  by (auto simp: call_if_set_def call_unchecked_def disconnect_if_static_ip_def bind_eq_Some_conv
      split: option.splits if_splits)

lemma config_setters [simp]:
  "app_config (write_config ops k v a) = app_config a" "app_config (set_config f a) = f (app_config a)"
  by (simp_all add: write_config_def set_config_def)

lemma set_offset_config:
  assumes "set_offset ops k flag q a = Some a'"
    and "length (cfg_atmo_offset (app_config a)) = 3" "length (cfg_atmo_offset_factory (app_config a)) = 5" "k < 3"
  shows "cfg_atmo_offset (app_config a') = (cfg_atmo_offset (app_config a))[k := Finite q]"
    and "cfg_atmo_offset_factory (app_config a') \<in> {cfg_atmo_offset_factory (app_config a),
           (cfg_atmo_offset_factory (app_config a))[flag := Finite 1, k := Finite q]}"
proof -
  let ?f = "cfg_atmo_offset_factory (app_config a)"
  have f0: "array_get ?f k = Some (?f ! k)" using assms by simp
  have os: "array_set (cfg_atmo_offset c) k v = Some ((cfg_atmo_offset c)[k := v])"
    if "length (cfg_atmo_offset c) = 3" for c v using that assms(4) by simp
  have "cfg_atmo_offset (app_config a') = (cfg_atmo_offset (app_config a))[k := Finite q] \<and>
    cfg_atmo_offset_factory (app_config a') \<in> {?f, ?f[flag := Finite 1, k := Finite q]}"
  proof (cases "float_is_zero (?f ! k)")
    case False
    with assms(1) f0 os [OF assms(2)] show ?thesis by (auto simp: set_offset_def)
  next
    case True
    show ?thesis
    proof (cases "flag < 5")
      case False
      with assms(1,3) f0 True show ?thesis by (simp add: set_offset_def array_get_def)
    next
      case flag: True
      with assms(3,4) have "array_get ?f flag = Some (?f ! flag)" "array_set ?f flag v = Some (?f[flag := v])"
        "array_set (?f[flag := v]) k w = Some (?f[flag := v, k := w])" for v w by simp_all
      with assms(1) f0 True os [OF assms(2)] assms(2,4) show ?thesis
        by (cases "float_is_zero (?f ! flag)") (auto simp: set_offset_def)
    qed
  qed
  then show "cfg_atmo_offset (app_config a') = (cfg_atmo_offset (app_config a))[k := Finite q]"
    "cfg_atmo_offset_factory (app_config a') \<in> {?f, ?f[flag := Finite 1, k := Finite q]}" by simp_all
qed

lemma set_offset_keeps:
  assumes "set_offset ops k flag q a = Some a'" "offsets_ok (app_config a)" "k < 3" "3 \<le> flag"
    and q: "offset_ok k (Finite q)"
  shows "offsets_ok (app_config a')"
proof -
  from assms(2) have len: "length (cfg_atmo_offset (app_config a)) = 3" "length (cfg_atmo_offset_factory (app_config a)) = 5"
    by (simp_all add: offsets_ok_def)
  from set_offset_config [OF assms(1) len assms(3)] assms(2-4) q show ?thesis
    by (elim insertE emptyE) (simp_all add: offsets_ok_def nth_list_update)
qed

lemma offset_factory_keeps:
  assumes "offsets_ok c"
  shows "offsets_ok (c\<lparr>cfg_atmo_offset :=
    [cfg_atmo_offset_factory c ! 0, cfg_atmo_offset_factory c ! 1, cfg_atmo_offset_factory c ! 2]\<rparr>)"
  using assms by (auto simp: offsets_ok_def less_Suc_eq eval_nat_numeral)

text \<open>The commands that are not about offsets leave them alone.\<close>

definition same_offsets :: "'p app \<Rightarrow> 'p app \<Rightarrow> bool" where
  "same_offsets a a' \<longleftrightarrow> cfg_atmo_offset (app_config a') = cfg_atmo_offset (app_config a) \<and>
     cfg_atmo_offset_factory (app_config a') = cfg_atmo_offset_factory (app_config a)"

lemmas config_dests = respond_config post_event_config start_heartbeat_config call_config

lemma server_setting:
  assumes "(if h then do {
      x \<leftarrow> M;
      (if C x then respond f a else do { b \<leftarrow> call_if_set g (F x); respond (G (app_config b)) b })
    } else respond f' a) = Some a'"
    and "\<And>x. same_offsets a (F x)"
  shows "same_offsets a a'"
  using assms
  by (auto simp: bind_eq_Some_conv same_offsets_def dest!: respond_config call_config split: if_splits)

lemma server_same_offsets:
  "cmd_url ops c a = Some (r, c', a') \<Longrightarrow> same_offsets a a'"
  "cmd_port ops c a = Some (r, c', a') \<Longrightarrow> same_offsets a a'"
  unfolding cmd_url_def cmd_port_def finished_eq_Some Let_def
  by (elim conjE, erule server_setting, simp add: same_offsets_def)+

lemma switch_same_offsets:
  "cmd_movement ops c a = Some (r, c', a') \<Longrightarrow> same_offsets a a'"
  "cmd_atmo ops c a = Some (r, c', a') \<Longrightarrow> same_offsets a a'"
  "cmd_location ops c a = Some (r, c', a') \<Longrightarrow> same_offsets a a'"
  "cmd_ssl ops c a = Some (r, c', a') \<Longrightarrow> same_offsets a a'"
  unfolding same_offsets_def cmd_movement_def cmd_atmo_def cmd_location_def cmd_ssl_def finished_eq_Some Let_def
  by (clarsimp simp: bind_eq_Some_conv; drule respond_config; clarsimp split: if_split)+

lemma other_same_offsets:
  assumes "execute_command ops st c a = Some (r, c', a')"
    and "command_type c \<notin> {COMMAND_TEMP_OFFSET, COMMAND_HUMIDITY_OFFSET, COMMAND_PRESSURE_OFFSET, COMMAND_OFFSET_FACTORY,
      COMMAND_URL, COMMAND_PORT, COMMAND_MOVEMENT, COMMAND_ATMO, COMMAND_LOCATION, COMMAND_SSL}"
  shows "same_offsets a a'"
  using assms
  by (cases "command_type c"; simp add: execute_command_def)
     (auto simp: same_offsets_def command_defs finished_eq_Some exchange_data_def reset_def acquisition_def
        bind_eq_Some_conv Let_def dest!: config_dests split: if_splits option.splits)

lemma offset_command_keeps:
  assumes "offsets_ok (app_config a)"
  shows "cmd_temp_offset ops c a = Some (r, c', a') \<Longrightarrow> offsets_ok (app_config a')"
    "cmd_humidity_offset ops c a = Some (r, c', a') \<Longrightarrow> offsets_ok (app_config a')"
    "cmd_pressure_offset ops c a = Some (r, c', a') \<Longrightarrow> offsets_ok (app_config a')"
    "cmd_offset_factory ops c a = Some (r, c', a') \<Longrightarrow> offsets_ok (app_config a')"
  using assms
  by (auto simp: cmd_temp_offset_def cmd_humidity_offset_def cmd_pressure_offset_def cmd_offset_factory_def
      finished_eq_Some bind_eq_Some_conv Let_def offset_ok_def float_outside_def offset_factory_keeps [simplified] array_get_eq_Some
      dest!: respond_config set_offset_keeps split: if_split_asm)

text \<open>C32: No command brings a temperature, pressure or humidity offset, stored or factory, out of its
  range.\<close>

theorem offsets_stay_in_range:
  assumes "execute_command ops st c a = Some (r, c', a')" "offsets_ok (app_config a)"
  shows "offsets_ok (app_config a')"
proof (cases "command_type c \<in> {COMMAND_TEMP_OFFSET, COMMAND_HUMIDITY_OFFSET, COMMAND_PRESSURE_OFFSET, COMMAND_OFFSET_FACTORY}")
  case True
  with offset_command_keeps [OF assms(2)] assms(1) show ?thesis by (auto simp: execute_command_def)
next
  case False
  have "same_offsets a a'"
  proof (cases "command_type c \<in> {COMMAND_URL, COMMAND_PORT, COMMAND_MOVEMENT, COMMAND_ATMO, COMMAND_LOCATION, COMMAND_SSL}")
    case True
    with assms(1) server_same_offsets switch_same_offsets show ?thesis by (auto simp: execute_command_def)
  next
    case o: False
    show ?thesis by (rule other_same_offsets [OF assms(1)]) (use False o in auto)
  qed
  with assms(2) show ?thesis by (simp add: same_offsets_def offsets_ok_def)
qed

section \<open>Character arrays\<close>

lemma append_line_ok:
  assumes "message_buffer b" "cb_list b = []" "length s < 128" "128 \<le> cb_capacity b"
  obtains b' where "append_line b s = Some b'" "message_buffer b'" "cb_list b' = s" "cb_capacity b' = cb_capacity b"
proof -
  from add_text_ok [OF assms(1,3)] obtain b' where
    "add_text b s = Some (length s \<le> room b, b')" "message_buffer b'" "cb_capacity b' = cb_capacity b"
    "cb_list b' = (if length s \<le> room b then cb_list b @ s else cb_list b)" .
  with assms that [of b'] show thesis by (simp add: append_line_def)
qed

lemma c_string_strncpy:
  assumes "NUL \<notin> set s" "length s < n"
  shows "c_str (c_strncpy n s) = Some s"
proof -
  obtain k where "n = length s + Suc k" using assms(2) less_iff_Suc_add by auto
  then have "c_strncpy n s = s @ NUL # replicate k NUL"
    by (simp add: c_strncpy_def replicate_add [symmetric])
  moreover have "takeWhile (\<lambda>c. c \<noteq> NUL) (s @ NUL # replicate k NUL) = s"
    using assms(1) by (subst takeWhile_append2) auto
  ultimately show ?thesis by (simp add: c_str_def c_string_def)
qed

lemma c_string_unterminated:
  assumes "NUL \<notin> set s" "n \<le> length s"
  shows "c_str (c_strncpy n s) = None"
  using assms by (auto simp: c_strncpy_def c_str_def dest: in_set_takeD)

text \<open>The identifier as its handler leaves it.\<close>

definition id_set :: "'p platform_ops \<Rightarrow> string \<Rightarrow> 'p app \<Rightarrow> 'p app" where
  "id_set ops s a = write_config ops CFG_DEVICE_ID (CfgString (c_strncpy 30 s))
     (set_config (\<lambda>k. k\<lparr>cfg_device_id := c_strncpy 30 s\<rparr>) a)"

text \<open>A device identifier is accepted only while none is set.  One of at most 29 characters is stored,
  written and answered; a longer one fills the array without a NUL, and already the answer reads past
  its end.\<close>

theorem device_id_set_once:
  assumes "message_buffer (app_response a)" "cb_list (app_response a) = []" "128 \<le> cb_capacity (app_response a)"
    and "command_has_argument c" "command_arg c = StringArgument s" "NUL \<notin> set s"
  shows "(if hd (cfg_device_id (app_config a)) \<noteq> NUL
          then \<exists>b. cmd_id ops c a = Some (COMMAND_EXECUTED_SUCCESSFULLY, c, a\<lparr>app_response := b\<rparr>) \<and>
                   cb_list b = ''BAD_REQUEST;''
          else if length s < 30
          then \<exists>b. cmd_id ops c a = Some (COMMAND_EXECUTED_SUCCESSFULLY, c, (id_set ops s a)\<lparr>app_response := b\<rparr>) \<and>
                   cb_list b = ''ID '' @ s @ '';''
          else cmd_id ops c a = None)"
proof -
  have id: "cfg_device_id (app_config (id_set ops s a)) = c_strncpy 30 s"
    "app_response (id_set ops s a) = app_response a"
    by (simp_all add: id_set_def write_config_def set_config_def)
  obtain b where b: "append_bad_request (app_response a) = Some b" "cb_list b = ''BAD_REQUEST;''"
    by (rule append_line_ok [OF assms(1,2), of "''BAD_REQUEST;''"])
       (use assms(3) in \<open>simp_all add: append_bad_request_def\<close>)
  show ?thesis
  proof (cases "length s < 30")
    case True
    then have "length (''ID '' @ s @ '';'') < 128" by simp
    from append_line_ok [OF assms(1,2) this assms(3)] obtain b' where
      "append_line (app_response a) (''ID '' @ s @ '';'') = Some b'" "cb_list b' = ''ID '' @ s @ '';''" .
    with b True id c_string_strncpy [OF assms(6) True] assms(4,5) show ?thesis
      by (auto simp: cmd_id_def finished_def respond_def append_id_def append_string_def id_set_def [symmetric])
  next
    case False
    with c_string_unterminated [OF assms(6), of 30] have "c_str (c_strncpy 30 s) = None" by simp
    with b False id assms(4,5) show ?thesis
      by (auto simp: cmd_id_def finished_def respond_def append_id_def append_string_def id_set_def [symmetric])
  qed
qed

text \<open>Setting the pressure offset while its factory value is still 0 reads the array of five factory
  offsets at index 5, whatever the new offset is.\<close>

theorem pressure_offset_out_of_bounds:
  assumes "command_has_argument c" "command_arg c = FloatArgument q" "-10 \<le> q" "q \<le> 10"
    and "length (cfg_atmo_offset_factory (app_config a)) = 5" "cfg_atmo_offset_factory (app_config a) ! 1 = Finite 0"
  shows "cmd_pressure_offset ops c a = None"
  using assms
  by (simp add: cmd_pressure_offset_def finished_def set_offset_def float_is_zero_def array_get_def not_less)

end
