(* ===== verification/Storage_Witnesses.thy ===== *)
theory Storage_Witnesses
  imports App_Samples Config_Storage Command_Limits
begin

text \<open>The theorems on the stored configuration, applied to a blank memory.\<close>

definition blank_memory :: "page list" where
  "blank_memory = replicate 128 (replicate 32 255)"

lemma blank_memory_ok: "memory_ok blank_memory"
  by (auto simp: memory_ok_def blank_memory_def CFG_EMPTY_def)

lemma blank_stores_name:
  "\<exists>e'. eeprom_config_write load_page (bytes_of (c_strncpy 33 ''Home'')) (cfg_code CFG_WIFI_SSID) 1 33 blank_memory = Some (True, e')"
proof -
  have "map_option fst (eeprom_config_write load_page (bytes_of (c_strncpy 33 ''Home'')) (cfg_code CFG_WIFI_SSID) 1 33 blank_memory) = Some True"
    by code_simp
  then show ?thesis by auto
qed

lemma stored_variable_reads_back_witness:
  "\<exists>e'. eeprom_config_write load_page (text_array 33 [72, 111, 109, 101]) (cfg_code CFG_WIFI_SSID) 1 33 blank_memory = Some (True, e') \<and>
     eeprom_config_read (replicate 33 0) (cfg_code CFG_WIFI_SSID) 1 33 e' = Some (True, text_array 33 [72, 111, 109, 101])"
proof -
  let ?t = "text_array 33 [72, 111, 109, 101]"
  have "map_option fst (eeprom_config_write load_page ?t (cfg_code CFG_WIFI_SSID) 1 33 blank_memory) = Some True"
    by code_simp
  then obtain e' where e': "eeprom_config_write load_page ?t (cfg_code CFG_WIFI_SSID) 1 33 blank_memory = Some (True, e')" by auto
  have "storable CFG_WIFI_SSID ?t" by (auto simp: storable_def intro!: exI [of _ "[72, 111, 109, 101]"])
  from stored_variable_reads_back [OF blank_memory_ok load_page_writes this, of 1 e' "replicate 33 0"] e'
  show ?thesis by (simp add: length_text_array data_ready_def)
qed

definition storage_app :: "page list \<Rightarrow> (page list \<times> nat) app" where
  "storage_app e = (let a = sample_app [] [] [] in \<lparr>app_config = app_config a, app_sensors = app_sensors a, app_readings = app_readings a, app_system = app_system
     a, app_events = app_events a, app_command_string = app_command_string a, app_commands = app_commands a,
     app_response = app_response a, current_heartbeat = current_heartbeat a, heartbeat_timer = heartbeat_timer a,
     no_connection_heartbeat = no_connection_heartbeat a, no_connection_count = no_connection_count a, brownout =
     brownout a, sound_alarm_retries = sound_alarm_retries a, sent_system_items = sent_system_items a,
     sent_sensor_readings = sent_sensor_readings a, battery_voltage = battery_voltage a, app_result = app_result a,
     process_handle = process_handle a, stop_handle = stop_handle a, rtc_offset = rtc_offset a, responses =
     responses a, platform = (e, 0)\<rparr>)"

text \<open>A platform on which no offset is a number.\<close>

definition no_offsets :: "c_float list \<Rightarrow> u8 list" where
  "no_offsets fs = replicate 40 255"

definition read_no_offsets :: "u8 list \<Rightarrow> c_float list" where
  "read_no_offsets bs = replicate 10 NotANumber"

lemma wifi_name_survives_restart_witness:
  "\<exists>r c' a'. cmd_ssid (eeprom_ops load_page no_offsets read_no_offsets sample_ops) \<lparr>command_type = COMMAND_SSID, command_has_argument = True,
       command_arg = StringArgument ''Home''\<rparr> (storage_app blank_memory) = Some (r, c', a') \<and>
     load_wifi_ssid (eeprom_ops load_page no_offsets read_no_offsets sample_ops) (storage_app (fst (platform a'))) =
       (True, set_config (\<lambda>k. k\<lparr>cfg_wifi_ssid := c_strncpy 33 ''Home''\<rparr>) (storage_app (fst (platform a'))))"
proof -
  let ?ops = "eeprom_ops load_page no_offsets read_no_offsets sample_ops :: (page list \<times> nat) platform_ops"
  let ?c = "\<lparr>command_type = COMMAND_SSID, command_has_argument = True, command_arg = StringArgument ''Home''\<rparr>"
  let ?a = "storage_app blank_memory"
  obtain e' where e': "eeprom_config_write load_page (bytes_of (c_strncpy 33 ''Home'')) (cfg_code CFG_WIFI_SSID) 1 33 blank_memory = Some (True, e')"
    using blank_stores_name by blast
  have response: "message_buffer (app_response ?a)" "cb_list (app_response ?a) = []" "128 \<le> cb_capacity (app_response ?a)"
    by (simp_all add: storage_app_def Let_def) (simp_all add: sample_app_def filled)
  obtain b where b: "append_line (app_response ?a) ''SSID Home;'' = Some b"
    using append_line_ok [OF response(1,2) _ response(3), of "''SSID Home;''"] by auto
  have name: "c_str (c_strncpy 33 ''Home'') = Some ''Home''" by code_simp
  have "wifi_disconnect_and_wait ?ops = None" by (simp add: eeprom_ops_def sample_ops_def)
  then obtain r c' a' where run: "cmd_ssid ?ops ?c ?a = Some (r, c', a')"
    using b name by (simp add: cmd_ssid_def finished_def string_value_def call_if_set_def respond_def append_ssid_def append_string_def
        write_config_def set_config_def COMMAND_ARGUMENT_MAX_LENGTH_def Let_def)
  have "load_wifi_ssid ?ops (storage_app (fst (platform a'))) =
      (True, set_config (\<lambda>k. k\<lparr>cfg_wifi_ssid := c_strncpy 33 ''Home''\<rparr>) (storage_app (fst (platform a'))))"
    by (rule wifi_name_survives_restart [OF _ _ _ _ _ _ _ _ run, THEN conjunct1])
       (use e' blank_memory_ok in \<open>simp_all add: storage_app_def Let_def sample_ops_def\<close>)
  with run show ?thesis by blast
qed

end
