(* ===== verification/Command_Responses.thy ===== *)
theory Command_Responses
  imports Command_Effects Wolksensor
begin

text \<open>
  What the answers to commands are: the messages that \<open>execute_commands\<close> of
  \<open>SDK/application/wolksensor.c\<close> sends for one command.
\<close>

section \<open>Sending the response buffer\<close>

lemma send_message:
  "message_buffer (app_response a) \<Longrightarrow>
   send_response_buffer a = Some (a\<lparr>responses := responses a @ [cb_list (app_response a)]\<rparr>)"
  by (simp add: send_response_buffer_def message_prefix send_command_response_string_def)

text \<open>One round of the loop in \<open>execute_commands\<close>.\<close>

lemma execute_round:
  assumes "circular_buffer_clear NUL (app_response a) = Some b"
    and "execute_command ops st c (a\<lparr>app_response := b\<rparr>) = Some (r, c', a')"
    and "message_buffer (app_response a')"
  shows "execute_until_done ops st c a =
    (let a'' = a'\<lparr>responses := responses a' @ [cb_list (app_response a')]\<rparr> in
     if r = COMMAND_EXECUTED_PARTIALLY then execute_until_done ops st c' a'' else Some (c', a''))"
  using assms by (subst execute_until_done.simps) (simp add: send_message Let_def)

section \<open>READINGS\<close>

lemma concat_drop_split: "concat (drop i ts) = concat (take k (drop i ts)) @ concat (drop (i + k) ts)"
  by (metis add.commute append_take_drop_id concat_append drop_drop)

definition dump_state :: "'p platform_ops \<Rightarrow> 'p app \<Rightarrow> bool" where
  "dump_state ops a \<longleftrightarrow> cb_inv (app_readings a) \<and> cb_capacity (app_readings a) \<le> 32768 \<and>
     message_buffer (app_response a) \<and> 136 \<le> cb_capacity (app_response a) \<and>
     (\<forall>t \<in> set (reading_texts (print_float ops) (sensors (app_sensors a)) (app_readings a)). length t < 128)"

abbreviation app_reading_texts :: "'p platform_ops \<Rightarrow> 'p app \<Rightarrow> string list" where
  "app_reading_texts ops a \<equiv> reading_texts (print_float ops) (sensors (app_sensors a)) (app_readings a)"

lemma readings_round:
  assumes a: "dump_state ops a"
    and c: "command_type c = COMMAND_READINGS" "\<not> command_has_argument c" "uint16_member (command_arg c) = Some start"
    and pos: "unat start < length (app_reading_texts ops a) \<or> start = 0"
  obtains k b where "0 < k \<or> length (app_reading_texts ops a) \<le> unat start"
    "unat start + k \<le> length (app_reading_texts ops a)"
    "message_buffer b" "cb_capacity b = cb_capacity (app_response a)"
    "cb_list b = (let s = readings_header start @ concat (take k (drop (unat start) (app_reading_texts ops a)))
       in if unat start + k = length (app_reading_texts ops a) then butlast s @ [COMMAND_TERMINATOR] else s)"
    "execute_until_done ops st c a =
      (let a' = a\<lparr>app_response := b, responses := responses a @ [cb_list b]\<rparr>;
           c' = c\<lparr>command_arg := UInt16Argument (of_nat (unat start + k))\<rparr>
       in if unat start + k = length (app_reading_texts ops a) then Some (c', a')
          else execute_until_done ops st c' a')"
proof -
  let ?ts = "app_reading_texts ops a"
  from a have rb: "cb_inv (app_readings a)" "cb_capacity (app_readings a) \<le> 32768"
    and mb: "message_buffer (app_response a)" "136 \<le> cb_capacity (app_response a)"
    and short: "\<forall>t \<in> set ?ts. length t < 128" by (simp_all add: dump_state_def)
  from message_clear [OF mb(1)] obtain b0 where b0: "circular_buffer_clear NUL (app_response a) = Some b0"
    "message_buffer b0" "cb_list b0 = []" "cb_capacity b0 = cb_capacity (app_response a)" .
  have "9 \<le> cb_capacity b0" using mb(2) b0(4) by simp
  from append_sensor_readings_ok [OF rb short b0(2,3) this, of start] pos obtain k b where
    k: "k = fitting (cb_capacity b0 - length (readings_header start)) (drop (unat start) ?ts)" and
    b: "append_sensor_readings (print_float ops) (sensors (app_sensors a)) (app_readings a) start b0 True = Some (of_nat k, b)"
      "message_buffer b" "cb_capacity b = cb_capacity b0" and
    l: "let s = readings_header start @ concat (take k (drop (unat start) ?ts)) in
       cb_list b = (if unat start + k = length (cb_list (app_readings a)) then butlast s @ [COMMAND_TERMINATOR] else s)"
    by auto
  have le: "unat start + k \<le> length ?ts"
    using fitting_le [of "cb_capacity b0 - length (readings_header start)" "drop (unat start) ?ts"] pos
    by (auto simp: k)
  have lt: "length ?ts < 65536" using cb_count_le [OF rb(1)] rb(2) by simp
  have sum: "start + of_nat k = (of_nat (unat start + k) :: u16)" by simp
  have fin: "start + of_nat k = circular_buffer_size (app_readings a) \<longleftrightarrow> unat start + k = length ?ts"
    using lt le cb_size_count [OF rb(1)] by (simp add: u16_eq_iff unat_add_small unat_of_nat16)
  have run: "execute_command ops st c (a\<lparr>app_response := b0\<rparr>) =
      Some (if unat start + k = length ?ts then COMMAND_EXECUTED_SUCCESSFULLY else COMMAND_EXECUTED_PARTIALLY,
        c\<lparr>command_arg := UInt16Argument (start + of_nat k)\<rparr>, a\<lparr>app_response := b\<rparr>)"
    using c b(1) fin by (simp add: execute_command_def cmd_readings_def)
  have "0 < k" if "unat start < length ?ts"
  proof -
    from that obtain t rest where t: "drop (unat start) ?ts = t # rest"
      by (metis Cons_nth_drop_Suc)
    then have "t \<in> set ?ts" by (metis in_set_dropD list.set_intros(1))
    with short have "length t < 128" by blast
    moreover have "length (readings_header start) \<le> 9" by (simp add: readings_header_def)
    ultimately have "length t \<le> cb_capacity b0 - length (readings_header start)" using mb(2) b0(4) by linarith
    with t show ?thesis by (simp add: k)
  qed
  then have "0 < k \<or> length ?ts \<le> unat start" by linarith
  then show thesis
    using le b(2,3) b0(4) l execute_round [OF b0(1) run] sum
    by (intro that [of k b]) (simp_all add: Let_def)
qed

lemma dump_state_response:
  "dump_state ops a \<Longrightarrow> message_buffer b \<Longrightarrow> cb_capacity b = cb_capacity (app_response a) \<Longrightarrow>
   dump_state ops (a\<lparr>app_response := b, responses := rs\<rparr>)"
  by (simp add: dump_state_def)

lemma reading_texts_nonempty: "t \<in> set (reading_texts fmt ss rb) \<Longrightarrow> t \<noteq> []"
proof -
  assume "t \<in> set (reading_texts fmt ss rb)"
  then obtain r where "t = serialize_sensor_reading fmt ss r" by auto
  with serialize_sensor_reading_shape(1) [of fmt ss r] show ?thesis by auto
qed

lemma readings_dump_from:
  assumes "dump_state ops a" "command_type c = COMMAND_READINGS" "\<not> command_has_argument c"
    "uint16_member (command_arg c) = Some start"
    "unat start < length (app_reading_texts ops a) \<or> start = 0"
  shows "\<exists>ms c' b. execute_until_done ops st c a = Some (c', a\<lparr>app_response := b, responses := responses a @ ms\<rparr>) \<and>
    message_buffer b \<and>
    concat ms = butlast (readings_header start @ concat (drop (unat start) (app_reading_texts ops a))) @ [COMMAND_TERMINATOR]"
  using assms
proof (induction "length (app_reading_texts ops a) - unat start" arbitrary: a c start rule: less_induct)
  case less
  let ?ts = "app_reading_texts ops a"
  note start = less.prems(5)
  from readings_round [OF less.prems, of st] obtain k b where
    k: "0 < k \<or> length ?ts \<le> unat start" "unat start + k \<le> length ?ts" and
    b: "message_buffer b" "cb_capacity b = cb_capacity (app_response a)"
      "cb_list b = (let s = readings_header start @ concat (take k (drop (unat start) ?ts))
         in if unat start + k = length ?ts then butlast s @ [COMMAND_TERMINATOR] else s)" and
    run: "execute_until_done ops st c a =
      (let a' = a\<lparr>app_response := b, responses := responses a @ [cb_list b]\<rparr>;
           c' = c\<lparr>command_arg := UInt16Argument (of_nat (unat start + k))\<rparr>
       in if unat start + k = length ?ts then Some (c', a') else execute_until_done ops st c' a')" .
  show ?case
  proof (cases "unat start + k = length ?ts")
    case True
    then have "take k (drop (unat start) ?ts) = drop (unat start) ?ts" by simp
    with True b(1,3) run have "execute_until_done ops st c a =
        Some (c\<lparr>command_arg := UInt16Argument (of_nat (unat start + k))\<rparr>,
          a\<lparr>app_response := b, responses := responses a @ [cb_list b]\<rparr>)"
      and "concat [cb_list b] =
        butlast (readings_header start @ concat (drop (unat start) ?ts)) @ [COMMAND_TERMINATOR]"
      by (simp_all add: Let_def)
    with b(1) show ?thesis by blast
  next
    case False
    with k start have pos: "0 < k" "unat start + k < length ?ts" by auto
    let ?a = "a\<lparr>app_response := b, responses := responses a @ [cb_list b]\<rparr>"
    let ?s = "of_nat (unat start + k) :: u16"
    have "length ?ts < 65536"
      using less.prems(1) cb_count_le [of "app_readings a"] by (simp add: dump_state_def)
    with pos have u: "unat ?s = unat start + k" by (intro unat_of_nat16) simp
    have d: "dump_state ops ?a" using less.prems(1) b(1,2) by (rule dump_state_response)
    have m: "length (app_reading_texts ops ?a) - unat ?s < length ?ts - unat start"
      using pos u by simp
    have "unat ?s < length (app_reading_texts ops ?a) \<or> ?s = 0" using pos u by simp
    from less.hyps [OF m d _ _ _ this, of "c\<lparr>command_arg := UInt16Argument ?s\<rparr>"] less.prems(2,3)
    obtain ms c' b' where
      rest: "execute_until_done ops st (c\<lparr>command_arg := UInt16Argument ?s\<rparr>) ?a =
          Some (c', ?a\<lparr>app_response := b', responses := responses ?a @ ms\<rparr>)" "message_buffer b'"
        "concat ms = butlast (readings_header ?s @ concat (drop (unat ?s) ?ts)) @ [COMMAND_TERMINATOR]"
      by (auto simp del: of_nat_add)
    have "?s \<noteq> 0" using u pos by (metis add_gr_0 less_numeral_extra(3) unat_0)
    then have "readings_header ?s = []" by (simp add: readings_header_def)
    moreover have "concat (drop (unat start + k) ?ts) \<noteq> []"
    proof -
      have "?ts ! (unat start + k) \<in> set (drop (unat start + k) ?ts)"
        using pos(2) by (metis Cons_nth_drop_Suc list.set_intros(1))
      moreover from this have "?ts ! (unat start + k) \<noteq> []"
        using reading_texts_nonempty in_set_dropD by fast
      ultimately show ?thesis by (metis concat_eq_Nil_conv)
    qed
    ultimately have "concat ([cb_list b] @ ms) =
        butlast (readings_header start @ concat (drop (unat start) ?ts)) @ [COMMAND_TERMINATOR]"
      using rest(3) False b(3) u concat_drop_split [of "unat start" ?ts k]
      by (auto simp: Let_def butlast_append)
    moreover have "execute_until_done ops st c a =
        Some (c', a\<lparr>app_response := b', responses := responses a @ [cb_list b] @ ms\<rparr>)"
      using run rest(1) False by (simp add: Let_def)
    ultimately show ?thesis using rest(2) by blast
  qed
qed

text \<open>C29: A \<open>READINGS\<close> command always returns, and however many responses it takes, the texts sent are
  together the header and every stored reading in order, once each, with the last separator
  replaced by the semicolon; nothing of the application but the response buffer changes.\<close>

theorem readings_dump_complete:
  assumes "dump_state ops a" "command_type c = COMMAND_READINGS" "\<not> command_has_argument c"
    "command_arg c = ZeroArgument"
  shows "\<exists>ms c' b. execute_until_done ops st c a = Some (c', a\<lparr>app_response := b, responses := responses a @ ms\<rparr>) \<and>
    concat ms = butlast (''READINGS '' @ concat (app_reading_texts ops a)) @ [COMMAND_TERMINATOR]"
proof -
  have "uint16_member (command_arg c) = Some 0" using assms(4) by simp
  from readings_dump_from [OF assms(1-3) this, of st] show ?thesis
    unfolding readings_header_def by (simp only: unat_0 drop_0 if_True refl) blast
qed

end
