(* ===== verification/App_Exchange.thy ===== *)
theory App_Exchange
  imports App_Dispatch Command_Responses
begin

text \<open>
  The data exchange (\<open>STATE_DATA_EXCHANGE\<close> of \<open>SDK/application/wolksensor.c\<close>): what its events
  leave unchanged, and when stored readings are removed.
\<close>

section \<open>Commands without an argument\<close>

text \<open>What a command may not change during an exchange.\<close>

definition kept :: "'p app \<Rightarrow>
  (config \<times> sensor_table \<times> sensor_readings circular_buffer \<times> system_item circular_buffer) \<times>
  (u16 \<times> u16 \<times> u32) \<times> communication_and_battery_data \<times> 'p" where
  "kept a = ((app_config a, app_sensors a, app_readings a, app_system a),
             (current_heartbeat a, heartbeat_timer a, rtc_offset a), app_result a, platform a)"

lemma kept_simps [simp]:
  "kept (a\<lparr>app_response := b\<rparr>) = kept a" "kept (a\<lparr>app_events := e\<rparr>) = kept a"
  "kept (a\<lparr>responses := rs\<rparr>) = kept a" "kept (a\<lparr>app_commands := cs\<rparr>) = kept a"
  "kept (a\<lparr>app_command_string := s\<rparr>) = kept a"
  by (simp_all add: kept_def)

lemma only_responds_kept: "only_responds a a' \<Longrightarrow> kept a' = kept a"
proof -
  assume "only_responds a a'"
  then have "kept a' = kept (a\<lparr>app_response := app_response a', app_events := app_events a'\<rparr>)"
    unfolding only_responds_def by (rule arg_cong)
  then show ?thesis by simp
qed

lemma send_response_kept: "send_response_buffer a = Some a' \<Longrightarrow> kept a' = kept a"
  by (auto simp: send_response_buffer_def send_command_response_string_def bind_eq_Some_conv)

lemma until_done_kept:
  assumes run: "execute_until_done ops st c a = Some r" and "\<not> command_has_argument c"
  shows "kept (snd r) = kept a"
proof -
  have "\<not> command_has_argument c \<longrightarrow> kept (snd r) = kept a"
  proof (rule execute_until_done.raw_induct
      [where P = "\<lambda>ops st c a r. \<not> command_has_argument c \<longrightarrow> kept (snd r) = kept a", OF _ run], intro impI)
    fix f :: "'a platform_ops \<Rightarrow> string \<Rightarrow> command \<Rightarrow> 'a app \<Rightarrow> (command \<times> 'a app) option" and ops st c a r
    assume IH: "\<And>ops st c a r. f ops st c a = Some r \<Longrightarrow> \<not> command_has_argument c \<longrightarrow> kept (snd r) = kept a"
      and body: "(do {
        b \<leftarrow> circular_buffer_clear NUL (app_response a);
        r \<leftarrow> execute_command ops st c (a\<lparr>app_response := b\<rparr>);
        a' \<leftarrow> send_response_buffer (snd (snd r));
        (if fst r = COMMAND_EXECUTED_PARTIALLY then f ops st (fst (snd r)) a' else Some (fst (snd r), a')) }) = Some r"
      and c: "\<not> command_has_argument c"
    from body obtain b y a2 where
      y: "execute_command ops st c (a\<lparr>app_response := b\<rparr>) = Some y" "send_response_buffer (snd (snd y)) = Some a2"
        "(if fst y = COMMAND_EXECUTED_PARTIALLY then f ops st (fst (snd y)) a2 else Some (fst (snd y), a2)) = Some r"
      by (auto simp: bind_eq_Some_conv simp del: split_paired_Ex)
    obtain x c' a1 where "y = (x, c', a1)" by (cases y)
    with y(1,2) y(3) [unfolded \<open>y = (x, c', a1)\<close> fst_conv snd_conv] have
      x: "execute_command ops st c (a\<lparr>app_response := b\<rparr>) = Some (x, c', a1)" and
      a2: "send_response_buffer a1 = Some a2" and
      r: "(if x = COMMAND_EXECUTED_PARTIALLY then f ops st c' a2 else Some (c', a2)) = Some r"
      by simp_all
    from bare_command_only_responds [OF x c] have "kept a1 = kept a" and c': "c' = c\<lparr>command_arg := command_arg c'\<rparr>"
      using only_responds_kept by fastforce+
    moreover from send_response_kept [OF a2] have "kept a2 = kept a1" .
    moreover from c' c have "\<not> command_has_argument c'" by (metis command.ext_inject command.surjective command.update_convs(3))
    ultimately show "kept (snd r) = kept a"
      using r IH [of ops st c' a2 r] by (auto split: if_splits)
  qed
  with assms(2) show ?thesis by simp
qed

lemma answer_busy_kept: "answer_busy a = Some a' \<Longrightarrow> kept a' = kept a"
  by (auto simp: answer_busy_def bind_eq_Some_conv dest: send_response_kept)

lemma mode_execute_one_kept:
  "mode_execute_one ops md False c a = Some a' \<Longrightarrow> kept a' = kept a"
  by (auto simp: mode_execute_one_def split: if_splits dest: answer_busy_kept until_done_kept)

lemma mode_execute_kept:
  assumes run: "mode_execute ops md w a = Some a'" and w: "\<not> w"
  shows "kept a' = kept a"
proof -
  have "\<not> w \<longrightarrow> kept a' = kept a"
  proof (rule mode_execute.raw_induct [where P = "\<lambda>ops md w a a'. \<not> w \<longrightarrow> kept a' = kept a", OF _ run], intro impI)
    fix f :: "'a platform_ops \<Rightarrow> mode \<Rightarrow> bool \<Rightarrow> 'a app_step" and ops md w a a'
    assume IH: "\<And>ops md w a a'. f ops md w a = Some a' \<Longrightarrow> \<not> w \<longrightarrow> kept a' = kept a"
      and body: "(do {
        r \<leftarrow> circular_buffer_pop True (app_commands a);
        (let a = a\<lparr>app_commands := snd (snd r)\<rparr> in
         case fst (snd r) of
           None \<Rightarrow> Some a
         | Some c \<Rightarrow> do { a \<leftarrow> mode_execute_one ops md w c a; f ops md w a }) }) = Some a'"
      and w: "\<not> w"
    then obtain r where r: "circular_buffer_pop True (app_commands a) = Some r" and
      c: "(case fst (snd r) of
          None \<Rightarrow> Some (a\<lparr>app_commands := snd (snd r)\<rparr>)
        | Some c \<Rightarrow> do { a \<leftarrow> mode_execute_one ops md w c (a\<lparr>app_commands := snd (snd r)\<rparr>); f ops md w a }) = Some a'"
      by (auto simp: bind_eq_Some_conv Let_def)
    show "kept a' = kept a"
    proof (cases "fst (snd r)")
      case None
      with c show ?thesis by auto
    next
      case (Some x)
      with c obtain a1 where a1: "mode_execute_one ops md w x (a\<lparr>app_commands := snd (snd r)\<rparr>) = Some a1"
        and "f ops md w a1 = Some a'" by (auto simp: bind_eq_Some_conv)
      from IH [OF this(2)] w have "kept a' = kept a1" by simp
      moreover from a1 w have "kept a1 = kept (a\<lparr>app_commands := snd (snd r)\<rparr>)"
        by (cases w) (auto dest: mode_execute_one_kept)
      ultimately show ?thesis by simp
    qed
  qed
  with w show ?thesis by simp
qed

lemma extract_commands_kept: "extract_commands ops a = Some a' \<Longrightarrow> kept a' = kept a"
  by (auto simp: extract_commands_def bind_eq_Some_conv)

lemma mode_commands_kept: "mode_commands ops md False a = Some a' \<Longrightarrow> kept a' = kept a"
  by (auto simp: mode_commands_def bind_eq_Some_conv dest!: mode_execute_kept [where w = False] extract_commands_kept)

section \<open>One event of an exchange\<close>

text \<open>The first event of the queue is processed on the table.\<close>

lemma first_event_step:
  assumes m: "in_mode md a m" and known: "known_events a" and first: "event_types (app_events a) = e # es"
  obtains b where "event_types b = es" "event_queue b"
    "rel_option (\<lambda>(p, m') (a', md'). p \<and> in_mode md' a' m') (process_wolksensor_event ops cops m)
       (mode_event ops cops e (a\<lparr>app_events := b\<rparr>, md))"
  using known
proof (cases rule: pop_known_event)
  case 1
  with first show ?thesis by simp
next
  case (2 ev b)
  let ?m = "m\<lparr>world := (world m)\<lparr>app_events := b\<rparr>\<rparr>"
  from 2 first have e: "event_type ev = e" "event_types b = es" by simp_all
  from dispatch_simulates [OF in_mode_events [OF m] 2(2), of ops cops b]
  have "rel_option (\<lambda>(_, m) (a, md). in_mode md a m)
      (app_dispatch ops cops e ?m) (mode_event ops cops e (a\<lparr>app_events := b\<rparr>, md))"
    by (simp add: simulates_def e)
  then have "rel_option (\<lambda>(p, m') (a', md'). p \<and> in_mode md' a' m') (process_wolksensor_event ops cops m)
      (mode_event ops cops e (a\<lparr>app_events := b\<rparr>, md))"
    using 2(1) in_mode_world(1) [OF m] e
    by (cases "app_dispatch ops cops e ?m"; cases "mode_event ops cops e (a\<lparr>app_events := b\<rparr>, md)")
       (auto simp: process_wolksensor_event_def)
  with that 2(4) e show ?thesis by blast
qed

lemma process_first_event:
  assumes "in_mode md a m" "known_events a" "event_types (app_events a) = e # es"
    and run: "process_wolksensor_event ops cops m = Some (p, m')"
  obtains b a' md' where "p" "mode_event ops cops e (a\<lparr>app_events := b\<rparr>, md) = Some (a', md')" "in_mode md' a' m'"
    "event_types b = es" "event_queue b"
proof -
  from first_event_step [OF assms(1-3), of ops cops] obtain b where
    "event_types b = es" "event_queue b"
    "rel_option (\<lambda>(p, m') (a', md'). p \<and> in_mode md' a' m') (Some (p, m'))
       (mode_event ops cops e (a\<lparr>app_events := b\<rparr>, md))"
    using run by auto
  then show thesis by (auto simp: option_rel_Some1 intro: that)
qed


text \<open>A reset or an alarm event that is processed while data is exchanged is lost: the event is taken
  from the queue and nothing else happens, so a \<open>RELOAD\<close> received from the server, which is executed
  before the machine disconnects, never resets the device.\<close>

theorem exchange_drops_reset_and_alarm:
  assumes "in_mode (Exchanging ph) a m" "known_events a"
    and "event_types (app_events a) = e # es" "e = EVENT_RESET \<or> e = EVENT_ALARM"
  shows "\<exists>b m'. process_wolksensor_event ops cops m = Some (True, m') \<and>
    in_mode (Exchanging ph) (a\<lparr>app_events := b\<rparr>) m' \<and> event_types b = es"
proof -
  from first_event_step [OF assms(1-3), of ops cops] obtain b where b: "event_types b = es"
    "rel_option (\<lambda>(p, m') (a', md'). p \<and> in_mode md' a' m') (process_wolksensor_event ops cops m)
       (mode_event ops cops e (a\<lparr>app_events := b\<rparr>, Exchanging ph))" .
  have "mode_event ops cops e (a\<lparr>app_events := b\<rparr>, Exchanging ph) = Some (a\<lparr>app_events := b\<rparr>, Exchanging ph)"
    using assms(4) by (auto simp: exchange_event_def)
  with b show ?thesis by (auto simp: option_rel_Some2)
qed

section \<open>Readings are removed only after they were sent\<close>

lemma post_event_readings: "post_event ops e a = Some a' \<Longrightarrow> app_readings a' = app_readings a"
  by (auto simp: post_event_def bind_eq_Some_conv)

lemma start_heartbeat_readings: "start_heartbeat p a = Some a' \<Longrightarrow> app_readings a' = app_readings a"
  by (auto simp: start_heartbeat_def bind_eq_Some_conv split: if_splits)

lemma adjust_heartbeat_readings: "adjust_heartbeat_on_error ops a = Some a' \<Longrightarrow> app_readings a' = app_readings a"
  by (auto simp: adjust_heartbeat_on_error_def Let_def dest!: start_heartbeat_readings split: if_splits)

lemma leave_exchange_readings: "leave_exchange ops a = Some a' \<Longrightarrow> app_readings a' = app_readings a"
  by (auto simp: leave_exchange_def evaluate_exchange_def Let_def bind_eq_Some_conv send_command_response_string_def
      dest!: start_heartbeat_readings adjust_heartbeat_readings split: if_splits)

lemma append_to_result_readings [simp]: "app_readings (append_to_result r a) = app_readings a"
  by (simp add: append_to_result_def)

lemma enter_idle_readings [simp]: "app_readings (enter_idle a) = app_readings a"
  by (simp add: enter_idle_def send_command_response_string_def)

lemma usb_connected_readings: "usb_connected a = Some a' \<Longrightarrow> app_readings a' = app_readings a"
  by (auto simp: usb_connected_def Let_def bind_eq_Some_conv dest!: start_heartbeat_readings)

lemma kept_readings: "kept a' = kept a \<Longrightarrow> app_readings a' = app_readings a"
  by (simp add: kept_def)

text \<open>
  The interface of the communication below the application: it delivers commands, says how much it
  has sent and changes its own state, and leaves everything else of the application alone.
\<close>

definition only_exchanges :: "'p app \<Rightarrow> 'p app \<Rightarrow> bool" where
  "only_exchanges a a' \<longleftrightarrow>
     a' = a\<lparr>app_commands := app_commands a', sent_system_items := sent_system_items a',
            sent_sensor_readings := sent_sensor_readings a', platform := platform a'\<rparr>"

lemma only_exchanges_readings: "only_exchanges a a' \<Longrightarrow> app_readings a' = app_readings a"
  unfolding only_exchanges_def by (erule ssubst) simp

lemma only_exchanges_events: "only_exchanges a a' \<Longrightarrow> app_events a' = app_events a"
  unfolding only_exchanges_def by (erule ssubst) simp

locale communication =
  fixes cops :: "'p comm_ops"
  assumes operation_frame:
      "f \<in> {comm_send cops, comm_receive cops, comm_disconnect cops, module_stop cops} \<Longrightarrow>
       f a = Some (h, a') \<Longrightarrow> only_exchanges a a'"
    and process_frame:
      "g \<in> {comm_process cops h, module_process cops h} \<Longrightarrow> g a = Some (p, a') \<Longrightarrow> only_exchanges a a'"
begin

lemma operations_only_exchange:
  "comm_send cops a = Some (h, a') \<Longrightarrow> only_exchanges a a'"
  "comm_receive cops a = Some (h, a') \<Longrightarrow> only_exchanges a a'"
  "comm_disconnect cops a = Some (h, a') \<Longrightarrow> only_exchanges a a'"
  "module_stop cops a = Some (h, a') \<Longrightarrow> only_exchanges a a'"
  by (simp_all add: operation_frame [of "comm_send cops"] operation_frame [of "comm_receive cops"]
      operation_frame [of "comm_disconnect cops"] operation_frame [of "module_stop cops"])

lemma processes_only_exchange:
  "comm_process cops h a = Some (p, a') \<Longrightarrow> only_exchanges a a'"
  "module_process cops h a = Some (p, a') \<Longrightarrow> only_exchanges a a'"
  by (simp_all add: process_frame [of "comm_process cops h" h] process_frame [of "module_process cops h" h])

lemmas communication_readings =
  operations_only_exchange [THEN only_exchanges_readings] processes_only_exchange [THEN only_exchanges_readings]

lemmas communication_events =
  operations_only_exchange [THEN only_exchanges_events] processes_only_exchange [THEN only_exchanges_events]

lemma enter_exchange_state_readings:
  assumes "enter_exchange_state ops cops d a = Some a'"
  shows "app_readings a' = app_readings a"
  using assms
  by (auto simp: enter_exchange_state_def start_operation_def bind_eq_Some_conv
      dest!: post_event_readings communication_readings split: if_splits)

lemma phase_done_readings:
  assumes run: "phase_done ops cops ph a = Some (a', md')"
    and keep: "ph \<noteq> Receiving \<or> \<not> is_communication_protocol_success (comm_result cops a) \<or>
      circular_buffer_size (app_commands a) = 0"
  shows "app_readings a' = app_readings a"
proof -
  have enter: "app_readings a' = app_readings b" if "enter_phase ops cops k b = Some (a', md')" for k b
    using that enter_exchange_state_readings by (auto simp: enter_phase_def)
  have "app_commands (append_to_result r a) = app_commands a" for r by (simp add: append_to_result_def)
  with run keep show ?thesis
    by (cases ph) (auto simp: Let_def settle_def bind_eq_Some_conv dest!: enter leave_exchange_readings split: if_splits)
qed

lemma phase_process_readings: "phase_process ops cops ph a = Some a' \<Longrightarrow> app_readings a' = app_readings a"
  by (auto simp: phase_process_def bind_eq_Some_conv dest!: post_event_readings communication_readings split: if_splits)

lemma exchange_event_readings:
  assumes run: "exchange_event ops cops ph e a = Some (a', md')"
    and keep: "ph \<noteq> Receiving \<or> e \<noteq> EVENT_COMMUNICATION_PROTOCOL_DONE \<or>
      \<not> is_communication_protocol_success (comm_result cops a) \<or> circular_buffer_size (app_commands a) = 0"
  shows "app_readings a' = app_readings a"
proof (cases "e = EVENT_COMMUNICATION_PROTOCOL_DONE")
  case True
  with run keep show ?thesis by (auto simp: exchange_event_def intro: phase_done_readings)
next
  case False
  with run show ?thesis
    by (auto simp: exchange_event_def dest!: post_event_readings usb_connected_readings
        kept_readings [OF mode_commands_kept] phase_process_readings split: if_splits)
qed

lemma readings_survive:
  assumes "in_mode (Exchanging ph) a m" "known_events a" "event_types (app_events a) = e # es"
    and "process_wolksensor_event ops cops m = Some (p, m')"
    and "ph \<noteq> Receiving \<or> e \<noteq> EVENT_COMMUNICATION_PROTOCOL_DONE \<or> circular_buffer_size (app_commands a) = 0 \<or>
      (\<forall>b. \<not> is_communication_protocol_success (comm_result cops (a\<lparr>app_events := b\<rparr>)))"
  shows "app_readings (world m') = app_readings a"
proof -
  from process_first_event [OF assms(1-4)] obtain b a' md' where
    run: "mode_event ops cops e (a\<lparr>app_events := b\<rparr>, Exchanging ph) = Some (a', md')" and m': "in_mode md' a' m'" .
  have "app_readings a' = app_readings (a\<lparr>app_events := b\<rparr>)"
    by (rule exchange_event_readings) (use run assms(5) in auto)
  with in_mode_world(1) [OF m'] show ?thesis by simp
qed

end

end
