(* ===== verification/App_Start.thy ===== *)
theory App_Start
  imports App_Dispatch
begin

text \<open>
  Starting the application: \<open>init_wolksensor\<close> of \<open>SDK/application/wolksensor.c\<close>.
\<close>

section \<open>The data\<close>

definition memory_ok :: "'p app \<Rightarrow> bool" where
  "memory_ok a \<longleftrightarrow> sensor_table_wf (app_sensors a) \<and> unat (get_index_of_sensor (app_sensors a) (CHR ''M'')) < 4 \<and>
     length (cb_storage (app_readings a)) = 150 \<and> length (cb_storage (app_system a)) = 60 \<and>
     length (cb_storage (app_events a)) = 10 \<and> length (cb_storage (app_commands a)) = 10 \<and>
     length (cb_storage (app_command_string a)) = 768 \<and> length (cb_storage (app_response a)) = 768 \<and>
     \<not> brownout a \<and> heartbeat_timer a = 0"

lemma init_clears:
  assumes "length st = unat n" "0 < unat n" "unat n * unat esize < 65536"
  obtains b' where "circular_buffer_init z b st n esize wr True = Some b'" "cb_inv b'" "cb_list b' = []"
    "cb_wrap b' = wr" "cb_capacity b' = unat n"
proof -
  let ?b = "b\<lparr>cb_storage := st, cb_storage_size := n, cb_element_size := esize, cb_wrap := wr\<rparr>"
  from assms have "0 < unat (cb_storage_size ?b)" "length (cb_storage ?b) = unat (cb_storage_size ?b)"
    "unat (cb_storage_size ?b) * unat (cb_element_size ?b) < 65536" by simp_all
  from cb_clear [OF this, of z] obtain b' where "circular_buffer_clear z ?b = Some b'" "cb_inv b'" "cb_list b' = []"
    "cb_storage_size b' = n" "cb_wrap b' = wr" by auto
  then show thesis by (intro that [of b']) (simp_all add: circular_buffer_init_def cb_capacity_def)
qed

text \<open>The rest of the data is what \<open>load_\<close> functions and the movement alarm leave.\<close>

definition loaded :: "'p platform_ops \<Rightarrow> 'p app \<Rightarrow> 'p app" where
  "loaded ops a =
     (let a = snd (load_system_heartbeat ops a);
          a = snd (load_atmo_status ops a);
          a = snd (load_offset_status ops a);
          a = snd (load_offset_factory_status ops a);
          a = snd (load_movement_status ops a)
      in a\<lparr>app_sensors := sensors_init (app_sensors a)\<rparr>)"

lemma load_frame [simp]:
  "app_sensors (snd (load_var r d f a)) = app_sensors a" "app_readings (snd (load_var r d f a)) = app_readings a"
  "app_system (snd (load_var r d f a)) = app_system a" "app_events (snd (load_var r d f a)) = app_events a"
  "app_commands (snd (load_var r d f a)) = app_commands a" "app_response (snd (load_var r d f a)) = app_response a"
  "app_command_string (snd (load_var r d f a)) = app_command_string a" "brownout (snd (load_var r d f a)) = brownout a"
  "heartbeat_timer (snd (load_var r d f a)) = heartbeat_timer a" "current_heartbeat (snd (load_var r d f a)) = current_heartbeat a"
  "responses (snd (load_var r d f a)) = responses a" "rtc_offset (snd (load_var r d f a)) = rtc_offset a"
  "platform (snd (load_var r d f a)) = platform a"
  by (simp_all add: load_var_def)

lemmas loaders = load_system_heartbeat_def load_atmo_status_def load_offset_status_def
  load_offset_factory_status_def load_movement_status_def

lemma loaded_frame:
  "app_sensors (loaded ops a) = sensors_init (app_sensors a)" "app_readings (loaded ops a) = app_readings a"
  "app_system (loaded ops a) = app_system a" "app_events (loaded ops a) = app_events a"
  "app_commands (loaded ops a) = app_commands a" "app_response (loaded ops a) = app_response a"
  "app_command_string (loaded ops a) = app_command_string a" "brownout (loaded ops a) = brownout a"
  "heartbeat_timer (loaded ops a) = heartbeat_timer a" "current_heartbeat (loaded ops a) = current_heartbeat a"
  "responses (loaded ops a) = responses a" "rtc_offset (loaded ops a) = rtc_offset a"
  by (simp_all add: loaded_def loaders Let_def split_def split: option.split)

text \<open>The movement sensor's high alarm is set to 1, the other alarms are cleared.\<close>

definition started_sensors :: "sensor_table \<Rightarrow> sensor_table" where
  "started_sensors t = (let i = unat (get_index_of_sensor t (CHR ''M'')) in
     (sensors_init t)\<lparr>sensors_alarms := (sensors_alarms (sensors_init t))
        [i := \<lparr>alarm_low = zero_alarm, alarm_high = zero_alarm\<lparr>alarm_enabled := True, alarm_value := 1\<rparr>\<rparr>]\<rparr>)"

lemma preset_alarm:
  assumes "unat (get_index_of_sensor (app_sensors a) (CHR ''M'')) < 4"
    and "app_sensors b = sensors_init (app_sensors a)"
  shows "preset_movement_alarm b = Some (b\<lparr>app_sensors := started_sensors (app_sensors a)\<rparr>)"
proof -
  have "get_index_of_sensor (sensors_init t) c = get_index_of_sensor t c" for t c
    by (simp add: get_index_of_sensor_def sensors_init_def)
  then show ?thesis
    using assms by (simp add: preset_movement_alarm_def started_sensors_def Let_def)
      (simp add: sensors_init_def)
qed

text \<open>Keeping a ring over a warm reset leaves its pointers and elements.\<close>

definition kept_or_cleared :: "start_type \<Rightarrow> u16 \<Rightarrow> u16 \<Rightarrow> bool \<Rightarrow> 'a circular_buffer \<Rightarrow> 'a circular_buffer \<Rightarrow> bool" where
  "kept_or_cleared st n esize wr b b' \<longleftrightarrow>
     (if st = POWER_ON then cb_inv b' \<and> cb_list b' = []
      else b' = b\<lparr>cb_storage_size := n, cb_element_size := esize, cb_wrap := wr\<rparr>)"

lemma init_kept_or_cleared:
  assumes "length (cb_storage b) = unat n" "0 < unat n" "unat n * unat esize < 65536"
  obtains b' where "circular_buffer_init z b (cb_storage b) n esize wr (st = POWER_ON) = Some b'"
    "kept_or_cleared st n esize wr b b'"
proof (cases "st = POWER_ON")
  case True
  from init_clears [OF assms, of z b wr] obtain b' where
    "circular_buffer_init z b (cb_storage b) n esize wr True = Some b'" "cb_inv b'" "cb_list b' = []" by blast
  with True that [of b'] show thesis by (simp add: kept_or_cleared_def)
next
  case False
  with that show thesis by (cases b) (simp add: kept_or_cleared_def circular_buffer_init_def)
qed

lemma init_data_ok:
  assumes a: "memory_ok a"
  obtains rb sb eb cb tb mb where
    "init_data ops st a = Some ((loaded ops a)\<lparr>app_sensors := started_sensors (app_sensors a), app_readings := rb,
       app_system := sb, app_events := eb, app_commands := cb, app_command_string := tb, app_response := mb\<rparr>)"
    "kept_or_cleared st 150 20 False (app_readings a) rb" "kept_or_cleared st 60 25 True (app_system a) sb"
    "event_queue eb" "event_types eb = []" "cb_capacity eb = 10"
    "cb_inv cb" "cb_list cb = []" "cb_inv tb" "cb_list tb = []" "message_buffer mb" "cb_capacity mb = 768"
proof -
  note m = a [unfolded memory_ok_def]
  obtain rb where rb: "init_sensor_readings_buffer 20 (cb_storage (app_readings a)) (app_readings a) (st = POWER_ON) = Some rb"
      "kept_or_cleared st 150 20 False (app_readings a) rb"
    unfolding init_sensor_readings_buffer_def SENSOR_READINGS_BUFFER_SIZE_def
    by (rule init_kept_or_cleared [of "app_readings a" 150 20]) (use m in simp_all)
  obtain sb where sb: "init_system_buffer 25 (cb_storage (app_system a)) (app_system a) (st = POWER_ON) = Some sb"
      "kept_or_cleared st 60 25 True (app_system a) sb"
    unfolding init_system_buffer_def SYSTEM_BUFFER_SIZE_def
    by (rule init_kept_or_cleared [of "app_system a" 60 25]) (use m in simp_all)
  obtain eb where eb: "circular_buffer_init \<lparr>event_type = 0, event_timestamp = 0\<rparr> (app_events a)
      (cb_storage (app_events a)) 10 20 True True = Some eb" "cb_inv eb" "cb_list eb = []" "cb_wrap eb" "cb_capacity eb = 10"
    by (rule init_clears [of "cb_storage (app_events a)" 10 20 "\<lparr>event_type = 0, event_timestamp = 0\<rparr>" "app_events a" True]) (use m in simp_all)
  obtain cb where cb: "circular_buffer_init
      \<lparr>command_type = COMMAND_BAD, command_has_argument = False, command_arg = ZeroArgument\<rparr> (app_commands a)
      (cb_storage (app_commands a)) 10 66 True True = Some cb" "cb_inv cb" "cb_list cb = []"
    by (rule init_clears [of "cb_storage (app_commands a)" 10 66
         "\<lparr>command_type = COMMAND_BAD, command_has_argument = False, command_arg = ZeroArgument\<rparr>" "app_commands a" True]) (use m in simp_all)
  obtain tb where tb: "circular_buffer_init NUL (app_command_string a) (cb_storage (app_command_string a)) 768 1 True True
      = Some tb" "cb_inv tb" "cb_list tb = []"
    by (rule init_clears [of "cb_storage (app_command_string a)" 768 1 NUL "app_command_string a" True]) (use m in simp_all)
  obtain mb where mb: "circular_buffer_init NUL (app_response a) (cb_storage (app_response a)) 768 1 False True
      = Some mb" "cb_inv mb" "cb_list mb = []" "\<not> cb_wrap mb" "cb_capacity mb = 768"
    by (rule init_clears [of "cb_storage (app_response a)" 768 1 NUL "app_response a" False]) (use m in simp_all)
  have head: "cb_head mb = 0"
    using mb(1) by (auto simp: circular_buffer_init_def circular_buffer_clear_def bind_eq_Some_conv)
  let ?l = "(loaded ops a)\<lparr>app_sensors := started_sensors (app_sensors a)\<rparr>"
  have "init_data ops st a = do {
      l \<leftarrow> preset_movement_alarm (loaded ops a);
      rb \<leftarrow> init_sensor_readings_buffer 20 (cb_storage (app_readings l)) (app_readings l) (st = POWER_ON);
      sb \<leftarrow> init_system_buffer 25 (cb_storage (app_system l)) (app_system l) (st = POWER_ON);
      l \<leftarrow> init_events_buffer (l\<lparr>app_readings := rb, app_system := sb\<rparr>);
      l \<leftarrow> init_commands_buffer l;
      l \<leftarrow> init_command_string_buffer l;
      init_command_response_buffer l
    }"
    by (simp add: init_data_def loaded_def Let_def)
  moreover have "preset_movement_alarm (loaded ops a) = Some ?l"
    using m by (intro preset_alarm) (simp_all add: loaded_frame)
  ultimately have "init_data ops st a = Some (?l\<lparr>app_readings := rb,
       app_system := sb, app_events := eb, app_commands := cb, app_command_string := tb, app_response := mb\<rparr>)"
    using rb(1) sb(1) eb(1) cb(1) tb(1) mb(1)
    by (simp add: loaded_frame init_events_buffer_def init_commands_buffer_def init_command_string_buffer_def
        init_command_response_buffer_def)
  from that [OF this rb(2) sb(2)] show thesis
    using eb cb tb mb head by (simp add: event_queue_def event_types_def message_buffer_def)
qed

section \<open>The machine\<close>

lemma init_states_ok:
  "init_states st \<lparr>root_current = None, state_current = replicate 9 (Some 0), state_parent = replicate 9 Root, world = a\<rparr>
     = Some (app_tree STATE_IDLE (if st = BROWNOUT_RESET then STATE_BROWNOUT else STATE_NORMAL) STATE_SEND a)"
  by (simp add: init_states_def state_machine_init_state_def app_tree_def app_parents_def app_state_defs eval_nat_numeral)

lemma init_wolksensor_ok:
  assumes "memory_ok a" "current_heartbeat a = 0"
  obtains b where
    "init_wolksensor ops cops st a = Some (app_tree STATE_IDLE STATE_NORMAL STATE_SEND b)"
    "\<not> brownout b" "current_heartbeat b = 1" "heartbeat_timer b = 0"
    "event_types (app_events b) = [EVENT_ACQUIRE]" "event_queue (app_events b)"
    "responses b = responses a @ [''STATUS IDLE;'']"
    "app_sensors b = started_sensors (app_sensors a)"
    "kept_or_cleared st 150 20 False (app_readings a) (app_readings b)"
    "kept_or_cleared st 60 25 True (app_system a) (app_system b)"
    "rtc_offset b = (if st = POWER_ON then 0x5B85E200 else rtc_offset a)" "platform b = platform (loaded ops a)"
proof -
  from init_data_ok [OF assms(1)] obtain rb sb eb cb tb mb where
    d: "init_data ops st a = Some ((loaded ops a)\<lparr>app_sensors := started_sensors (app_sensors a), app_readings := rb,
       app_system := sb, app_events := eb, app_commands := cb, app_command_string := tb, app_response := mb\<rparr>)"
      (is "_ = Some ?d") and
    b: "kept_or_cleared st 150 20 False (app_readings a) rb" "kept_or_cleared st 60 25 True (app_system a) sb"
      "event_queue eb" "event_types eb = []" "cb_capacity eb = 10"
      "cb_inv cb" "cb_list cb = []" "cb_inv tb" "cb_list tb = []" "message_buffer mb" "cb_capacity mb = 768" .
  let ?a = "?d\<lparr>rtc_offset := chrono_init (st = POWER_ON) (rtc_offset a), heartbeat_timer := 0, current_heartbeat := 1,
    responses := responses a @ [''STATUS IDLE;'']\<rparr>"
  have norm: "\<not> brownout (loaded ops a)" "heartbeat_timer (loaded ops a) = 0" "current_heartbeat (loaded ops a) = 0"
    using assms by (simp_all add: loaded_frame memory_ok_def)
  from b(3) obtain eb' where eb': "add_event_type (app_now ops ?a) eb EVENT_ACQUIRE = Some eb'" "event_queue eb'"
    "event_types eb' = keep_last (cb_capacity eb) (event_types eb @ [EVENT_ACQUIRE])"
    by (rule add_event_type_ok)
  let ?t = "\<lambda>a. app_tree STATE_IDLE (if st = BROWNOUT_RESET then STATE_BROWNOUT else STATE_NORMAL) STATE_SEND a"
  have tr: "app_transition ops cops STATE_IDLE (?t x) = Some (app_tree STATE_IDLE (idle_child x) STATE_SEND (enter_idle x))" for x
  proof -
    have "(3 :: nat) = Suc 2" by simp
    then show ?thesis unfolding app_transition_def by (simp only: ) (rule to_idle(1), simp)
  qed
  have "init_wolksensor ops cops st a = Some (app_tree STATE_IDLE STATE_NORMAL STATE_SEND (?a\<lparr>app_events := eb'\<rparr>))"
    unfolding init_wolksensor_def d using norm eb'(1)
    by (simp add: init_states_ok tr start_heartbeat_def enter_idle_def send_command_response_string_def
        post_def post_event_def loaded_frame)
  then show thesis
    by (rule that) (use b(1-5) eb'(2,3) norm in \<open>simp_all add: chrono_init_def loaded_frame\<close>)
qed

text \<open>Whatever the reason for the reset, a BROWNOUT_RESET included, the application starts in the
  normal idle mode with the heartbeat in one minute, an acquisition pending, the answer
  \<open>STATUS IDLE;\<close> sent and the movement alarm armed; power on clears the stored readings and system
  items and sets the clock, another reset keeps them.\<close>

theorem application_starts_normal:
  assumes "memory_ok a" "current_heartbeat a = 0"
  shows "\<exists>b m. init_wolksensor ops cops st a = Some m \<and> in_mode Normal b m \<and> \<not> brownout b \<and>
    current_heartbeat b = 1 \<and> heartbeat_timer b = 0 \<and> event_types (app_events b) = [EVENT_ACQUIRE] \<and>
    responses b = responses a @ [''STATUS IDLE;''] \<and>
    app_sensors b = started_sensors (app_sensors a) \<and>
    kept_or_cleared st 150 20 False (app_readings a) (app_readings b) \<and>
    kept_or_cleared st 60 25 True (app_system a) (app_system b) \<and>
    rtc_offset b = (if st = POWER_ON then 0x5B85E200 else rtc_offset a)"
proof -
  from init_wolksensor_ok [OF assms, of ops cops st] obtain b where
    b: "init_wolksensor ops cops st a = Some (app_tree STATE_IDLE STATE_NORMAL STATE_SEND b)" and
    facts: "\<not> brownout b" "current_heartbeat b = 1" "heartbeat_timer b = 0"
      "event_types (app_events b) = [EVENT_ACQUIRE]" "event_queue (app_events b)"
      "responses b = responses a @ [''STATUS IDLE;'']" "app_sensors b = started_sensors (app_sensors a)"
      "kept_or_cleared st 150 20 False (app_readings a) (app_readings b)"
      "kept_or_cleared st 60 25 True (app_system a) (app_system b)"
      "rtc_offset b = (if st = POWER_ON then 0x5B85E200 else rtc_offset a)" "platform b = platform (loaded ops a)" .
  have "in_mode Normal b (app_tree STATE_IDLE STATE_NORMAL STATE_SEND b)" by simp
  with b facts show ?thesis by blast
qed

end
