(* ===== verification/App_Reachable.thy ===== *)
theory App_Reachable
  imports App_Exchange App_Start
begin

text \<open>
  Everything the application can become: the machine after start, after any sequence of processed
  events and of calls of its listeners.
\<close>

section \<open>Only known events are queued\<close>

lemma known_events_cong: "app_events a' = app_events a \<Longrightarrow> known_events a' = known_events a"
  by (simp add: known_events_def)

lemma known_after_add:
  assumes "add_event_type now (app_events a) ty = Some (app_events a')" "ty < 10" "known_events a"
  shows "known_events a'"
proof -
  from assms(3) have q: "event_queue (app_events a)" and t: "\<forall>t \<in> set (event_types (app_events a)). t < 10"
    by (simp_all add: known_events_def)
  from q obtain b where b: "add_event_type now (app_events a) ty = Some b" "event_queue b"
    "event_types b = keep_last (cb_capacity (app_events a)) (event_types (app_events a) @ [ty])"
    by (rule add_event_type_ok)
  have "set (keep_last n xs) \<subseteq> set xs" for n and xs :: "u8 list"
    by (auto simp: keep_last_def dest: in_set_dropD)
  then have "set (event_types b) \<subseteq> set (event_types (app_events a) @ [ty])" unfolding b(3) .
  with b assms(1,2) t show ?thesis by (auto simp: known_events_def)
qed

lemma post_event_known: "post_event ops e a = Some a' \<Longrightarrow> e < 10 \<Longrightarrow> known_events a \<Longrightarrow> known_events a'"
  using known_after_add [of "app_now ops a" a e a'] by (auto simp: post_event_def bind_eq_Some_conv)

lemma posts_one_known: "posts_one a a' \<Longrightarrow> known_events a \<Longrightarrow> known_events a'"
  unfolding posts_one_def using known_after_add known_events_cong by blast

lemma known_frames [simp]:
  "known_events (a\<lparr>app_response := b\<rparr>) = known_events a" "known_events (a\<lparr>responses := rs\<rparr>) = known_events a"
  "known_events (a\<lparr>app_commands := cs\<rparr>) = known_events a" "known_events (a\<lparr>app_command_string := s\<rparr>) = known_events a"
  "known_events (a\<lparr>app_readings := rb\<rparr>) = known_events a" "known_events (a\<lparr>app_system := sb\<rparr>) = known_events a"
  "known_events (a\<lparr>app_sensors := t\<rparr>) = known_events a" "known_events (a\<lparr>platform := p\<rparr>) = known_events a"
  "known_events (a\<lparr>app_result := r\<rparr>) = known_events a" "known_events (a\<lparr>process_handle := h\<rparr>) = known_events a"
  "known_events (a\<lparr>stop_handle := h\<rparr>) = known_events a" "known_events (a\<lparr>brownout := x\<rparr>) = known_events a"
  "known_events (a\<lparr>battery_voltage := v\<rparr>) = known_events a" "known_events (a\<lparr>heartbeat_timer := w\<rparr>) = known_events a"
  "known_events (a\<lparr>sent_system_items := w\<rparr>) = known_events a" "known_events (a\<lparr>sent_sensor_readings := w\<rparr>) = known_events a"
  "known_events (a\<lparr>sound_alarm_retries := n\<rparr>) = known_events a" "known_events (a\<lparr>no_connection_count := n\<rparr>) = known_events a"
  "known_events (a\<lparr>no_connection_heartbeat := w\<rparr>) = known_events a"
  "known_events (send_command_response_string t' a) = known_events a"
  "known_events (append_to_result d a) = known_events a" "known_events (enter_idle a) = known_events a"
  by (simp_all add: known_events_def send_command_response_string_def append_to_result_def enter_idle_def)

lemma known_below: "EVENT_HEARTBEAT < 10" "EVENT_ACQUIRE < 10" "EVENT_ALARM < 10" "EVENT_COMMAND_RECEIVED < 10"
  "EVENT_COMMUNICATION_PROTOCOL_PROCESS < 10" "EVENT_COMMUNICATION_PROTOCOL_DONE < 10" "EVENT_USB_CONNECTED < 10"
  "EVENT_USB_DISCONNECTED < 10"
  by (simp_all add: app_event_defs)

lemma start_heartbeat_known: "start_heartbeat p a = Some a' \<Longrightarrow> known_events a \<Longrightarrow> known_events a'"
  using known_events_cong start_heartbeat_events by blast

lemma send_response_known: "send_response_buffer a = Some a' \<Longrightarrow> known_events a \<Longrightarrow> known_events a'"
  by (auto simp: send_response_buffer_def bind_eq_Some_conv)

lemma answer_busy_known: "answer_busy a = Some a' \<Longrightarrow> known_events a \<Longrightarrow> known_events a'"
  by (auto simp: answer_busy_def bind_eq_Some_conv dest: send_response_known)

lemma until_done_known:
  assumes run: "execute_until_done ops st c a = Some r" and known: "known_events a"
  shows "known_events (snd r)"
proof -
  have "known_events a \<longrightarrow> known_events (snd r)"
  proof (rule execute_until_done.raw_induct
      [where P = "\<lambda>ops st c a r. known_events a \<longrightarrow> known_events (snd r)", OF _ run], intro impI)
    fix f :: "'a platform_ops \<Rightarrow> string \<Rightarrow> command \<Rightarrow> 'a app \<Rightarrow> (command \<times> 'a app) option" and ops st c a r
    assume IH: "\<And>ops st c a r. f ops st c a = Some r \<Longrightarrow> known_events a \<longrightarrow> known_events (snd r)"
      and body: "(do {
        b \<leftarrow> circular_buffer_clear NUL (app_response a);
        r \<leftarrow> execute_command ops st c (a\<lparr>app_response := b\<rparr>);
        a' \<leftarrow> send_response_buffer (snd (snd r));
        (if fst r = COMMAND_EXECUTED_PARTIALLY then f ops st (fst (snd r)) a' else Some (fst (snd r), a')) }) = Some r"
      and known: "known_events a"
    from body obtain b y a2 where
      y: "execute_command ops st c (a\<lparr>app_response := b\<rparr>) = Some y" "send_response_buffer (snd (snd y)) = Some a2"
        "(if fst y = COMMAND_EXECUTED_PARTIALLY then f ops st (fst (snd y)) a2 else Some (fst (snd y), a2)) = Some r"
      by (auto simp: bind_eq_Some_conv simp del: split_paired_Ex)
    have "posts_one (a\<lparr>app_response := b\<rparr>) (snd (snd y))"
      by (rule command_posts_one [of ops st c _ "fst y" "fst (snd y)"]) (simp add: y(1))
    with known have "known_events (snd (snd y))" using posts_one_known by fastforce
    with send_response_known [OF y(2)] have "known_events a2" by blast
    with IH y(3) show "known_events (snd r)" by (cases "fst y = COMMAND_EXECUTED_PARTIALLY") auto
  qed
  with known show ?thesis by simp
qed

lemma mode_execute_one_known:
  "mode_execute_one ops md w c a = Some a' \<Longrightarrow> known_events a \<Longrightarrow> known_events a'"
  by (auto simp: mode_execute_one_def split: if_splits dest: answer_busy_known until_done_known)

lemma mode_execute_known:
  assumes run: "mode_execute ops md w a = Some a'" and known: "known_events a"
  shows "known_events a'"
proof -
  have "known_events a \<longrightarrow> known_events a'"
  proof (rule mode_execute.raw_induct [where P = "\<lambda>ops md w a a'. known_events a \<longrightarrow> known_events a'", OF _ run],
      intro impI)
    fix f :: "'a platform_ops \<Rightarrow> mode \<Rightarrow> bool \<Rightarrow> 'a app_step" and ops md w a a'
    assume IH: "\<And>ops md w a a'. f ops md w a = Some a' \<Longrightarrow> known_events a \<longrightarrow> known_events a'"
      and body: "(do {
        r \<leftarrow> circular_buffer_pop True (app_commands a);
        (let a = a\<lparr>app_commands := snd (snd r)\<rparr> in
         case fst (snd r) of
           None \<Rightarrow> Some a
         | Some c \<Rightarrow> do { a \<leftarrow> mode_execute_one ops md w c a; f ops md w a }) }) = Some a'"
      and known: "known_events a"
    then obtain r where r: "circular_buffer_pop True (app_commands a) = Some r" and
      c: "(case fst (snd r) of
          None \<Rightarrow> Some (a\<lparr>app_commands := snd (snd r)\<rparr>)
        | Some c \<Rightarrow> do { a \<leftarrow> mode_execute_one ops md w c (a\<lparr>app_commands := snd (snd r)\<rparr>); f ops md w a }) = Some a'"
      by (auto simp: bind_eq_Some_conv Let_def)
    show "known_events a'"
    proof (cases "fst (snd r)")
      case None
      with c known show ?thesis by auto
    next
      case (Some x)
      with c obtain a1 where "mode_execute_one ops md w x (a\<lparr>app_commands := snd (snd r)\<rparr>) = Some a1"
        "f ops md w a1 = Some a'" by (auto simp: bind_eq_Some_conv)
      with IH mode_execute_one_known [OF this(1)] known show ?thesis by simp
    qed
  qed
  with known show ?thesis by simp
qed

lemma mode_commands_known: "mode_commands ops md w a = Some a' \<Longrightarrow> known_events a \<Longrightarrow> known_events a'"
  by (auto simp: mode_commands_def extract_commands_def bind_eq_Some_conv dest!: mode_execute_known)

lemma adjust_heartbeat_known: "adjust_heartbeat_on_error ops a = Some a' \<Longrightarrow> known_events a \<Longrightarrow> known_events a'"
  by (auto simp: adjust_heartbeat_on_error_def Let_def dest!: start_heartbeat_known split: if_splits)

lemma leave_exchange_known: "leave_exchange ops a = Some a' \<Longrightarrow> known_events a \<Longrightarrow> known_events a'"
  by (auto simp: leave_exchange_def evaluate_exchange_def Let_def bind_eq_Some_conv
      dest!: start_heartbeat_known adjust_heartbeat_known split: if_splits)

lemma sensors_listener_known:
  "sensors_states_listener ops ss n a = Some a' \<Longrightarrow> known_events a \<Longrightarrow> known_events a'"
  by (auto simp: sensors_states_listener_def process_alarms_def Let_def bind_eq_Some_conv known_below
      dest!: post_event_known split: if_splits)

lemma acquire_known: "acquire ops a = Some a' \<Longrightarrow> known_events a \<Longrightarrow> known_events a'"
  by (auto simp: acquire_def Let_def split_def dest!: sensors_listener_known split: option.splits)

lemma usb_connected_known: "usb_connected a = Some a' \<Longrightarrow> known_events a \<Longrightarrow> known_events a'"
  by (auto simp: usb_connected_def Let_def bind_eq_Some_conv dest!: start_heartbeat_known)

lemma minute_known: "minute_expired_listener ops a = Some a' \<Longrightarrow> known_events a \<Longrightarrow> known_events a'"
  by (auto simp: minute_expired_listener_def Let_def bind_eq_Some_conv known_below dest!: post_event_known split: if_splits)

lemma commands_received_known: "post_commands_received ops cs a = Some a' \<Longrightarrow> known_events a \<Longrightarrow> known_events a'"
  by (induction cs arbitrary: a) (auto simp: bind_eq_Some_conv known_below dest!: post_event_known split: if_splits)

lemma data_listener_known: "command_data_listener ops s n a = Some a' \<Longrightarrow> known_events a \<Longrightarrow> known_events a'"
  by (auto simp: command_data_listener_def bind_eq_Some_conv dest!: commands_received_known)


lemma remove_sent_known: "remove_sent a = Some a' \<Longrightarrow> known_events a \<Longrightarrow> known_events a'"
  by (auto simp: remove_sent_def bind_eq_Some_conv)

context communication
begin

lemma communication_known:
  "comm_send cops a = Some (h, a') \<Longrightarrow> known_events a \<Longrightarrow> known_events a'"
  "comm_receive cops a = Some (h, a') \<Longrightarrow> known_events a \<Longrightarrow> known_events a'"
  "comm_disconnect cops a = Some (h, a') \<Longrightarrow> known_events a \<Longrightarrow> known_events a'"
  "module_stop cops a = Some (h, a') \<Longrightarrow> known_events a \<Longrightarrow> known_events a'"
  "comm_process cops h a = Some (p, a') \<Longrightarrow> known_events a \<Longrightarrow> known_events a'"
  "module_process cops h a = Some (p, a') \<Longrightarrow> known_events a \<Longrightarrow> known_events a'"
  by (drule communication_events, simp add: known_events_def)+

lemma enter_exchange_state_known:
  "enter_exchange_state ops cops d a = Some a' \<Longrightarrow> known_events a \<Longrightarrow> known_events a'"
  by (auto simp: enter_exchange_state_def start_operation_def bind_eq_Some_conv known_below
      dest!: post_event_known communication_known split: if_split_asm)

lemma start_exchange_known: "start_exchange ops cops a = Some a' \<Longrightarrow> known_events a \<Longrightarrow> known_events a'"
  by (auto simp: start_exchange_def start_operation_def bind_eq_Some_conv known_below
      dest!: post_event_known communication_known)

lemma enter_phase_known: "enter_phase ops cops ph a = Some s \<Longrightarrow> known_events a \<Longrightarrow> known_events (fst s)"
  by (auto simp: enter_phase_def dest: enter_exchange_state_known)

lemma phase_done_known:
  assumes run: "phase_done ops cops ph a = Some s" and known: "known_events a"
  shows "known_events (fst s)"
proof (cases ph)
  case Stopping
  with run known show ?thesis
    by (auto simp: Let_def bind_eq_Some_conv settle_def dest!: leave_exchange_known)
next
  case Receiving
  let ?a = "append_to_result (comm_result cops a) a"
  have "known_events ?a" using known by simp
  with run Receiving show ?thesis
    by (auto simp: Let_def bind_eq_Some_conv dest!: remove_sent_known mode_execute_known enter_phase_known split: if_splits)
qed (use run known in \<open>auto dest!: enter_phase_known\<close>)

lemma phase_process_known: "phase_process ops cops ph a = Some a' \<Longrightarrow> known_events a \<Longrightarrow> known_events a'"
  by (auto simp: phase_process_def bind_eq_Some_conv known_below dest!: post_event_known communication_known split: if_splits)

lemma mode_event_known:
  assumes run: "mode_event ops cops e (a, md) = Some s" and known: "known_events a"
  shows "known_events (fst s)"
proof (cases "\<exists>ph. md = Exchanging ph")
  case True
  then obtain ph where ph: "md = Exchanging ph" ..
  from run known ph show ?thesis
    by (auto simp: exchange_event_def known_below
        dest!: phase_done_known phase_process_known mode_commands_known usb_connected_known post_event_known split: if_splits)
next
  case False
  then have "mode_event ops cops e (a, md) = idle_event ops cops md e a" by (cases md) auto
  with run known show ?thesis
    by (auto simp: idle_event_def settle_def
        dest!: start_exchange_known acquire_known mode_commands_known usb_connected_known split: if_splits)
qed

end

section \<open>The reachable machines\<close>

text \<open>
  What happens to the application: it is started, it processes an event, one of its listeners is
  called (by the clock, the USB driver, the command interface, the voltage monitor and the sensors),
  or the platform changes on its own.
\<close>

inductive app_reachable :: "'p platform_ops \<Rightarrow> 'p comm_ops \<Rightarrow> 'p appm \<Rightarrow> bool" for ops cops where
  start: "memory_ok a \<Longrightarrow> current_heartbeat a = 0 \<Longrightarrow> init_wolksensor ops cops st a = Some m \<Longrightarrow>
    app_reachable ops cops m"
| event: "app_reachable ops cops m \<Longrightarrow> wolksensor_process ops cops m = Some (p, m') \<Longrightarrow> app_reachable ops cops m'"
| minute: "app_reachable ops cops m \<Longrightarrow> lift_app (minute_expired_listener ops) m = Some m' \<Longrightarrow> app_reachable ops cops m'"
| usb: "app_reachable ops cops m \<Longrightarrow> lift_app (usb_state_change_listener ops u) m = Some m' \<Longrightarrow> app_reachable ops cops m'"
| data: "app_reachable ops cops m \<Longrightarrow> lift_app (command_data_listener ops s n) m = Some m' \<Longrightarrow> app_reachable ops cops m'"
| sensors: "app_reachable ops cops m \<Longrightarrow> lift_app (sensors_states_listener ops ss k) m = Some m' \<Longrightarrow> app_reachable ops cops m'"
| voltage: "app_reachable ops cops m \<Longrightarrow> app_reachable ops cops (m\<lparr>world := battery_voltage_listener v (world m)\<rparr>)"
| platform: "app_reachable ops cops m \<Longrightarrow> app_reachable ops cops (m\<lparr>world := (world m)\<lparr>platform := q\<rparr>\<rparr>)"

lemma listener_step:
  assumes "lift_app f m = Some m'" "in_mode md (world m) m" "known_events (world m)"
    and "\<And>a'. f (world m) = Some a' \<Longrightarrow> known_events a'"
  shows "in_mode md (world m') m' \<and> known_events (world m')"
proof -
  from assms(1) obtain a' where "f (world m) = Some a'" "m' = m\<lparr>world := a'\<rparr>"
    by (auto simp: lift_app_def bind_eq_Some_conv)
  with assms(2,4) in_mode_world(2) [OF assms(2)] show ?thesis by simp
qed

text \<open>
  The application is always in one of its modes, idle, brownout or one of the four phases of an
  exchange: between two events the machine never rests in the acquisition state or in a state
  without a current child, and only events the application knows are queued.
\<close>

context communication
begin

lemma reachable_mode:
  assumes "app_reachable ops cops m"
  shows "\<exists>md. in_mode md (world m) m \<and> known_events (world m)"
  using assms
proof induction
  case (start a st m)
  from init_wolksensor_ok [OF start(1,2), of ops cops st] obtain b where
    "init_wolksensor ops cops st a = Some (app_tree STATE_IDLE STATE_NORMAL STATE_SEND b)"
    "event_types (app_events b) = [EVENT_ACQUIRE]" "event_queue (app_events b)" by metis
  with start(3) have "in_mode Normal (world m) m" "known_events (world m)"
    by (auto simp: known_events_def known_below)
  then show ?case by blast
next
  case (event m p m')
  then obtain md where md: "in_mode md (world m) m" "known_events (world m)" by blast
  show ?case
  proof (cases "event_types (app_events (world m))")
    case Nil
    with md(2) event(2) have "\<exists>b. event_types b = [] \<and> event_queue b \<and> m' = m\<lparr>world := (world m)\<lparr>app_events := b\<rparr>\<rparr>"
      by (auto simp: known_events_def wolksensor_process_def process_wolksensor_event_def event_types_def pop_event_def
          event_queue_def cb_pop_empty)
    then obtain b where "event_types b = []" "event_queue b" "m' = m\<lparr>world := (world m)\<lparr>app_events := b\<rparr>\<rparr>" by blast
    with in_mode_world(2) [OF md(1)] have "in_mode md (world m') m'" "known_events (world m')"
      by (auto simp: known_events_def)
    then show ?thesis by blast
  next
    case (Cons e es)
    from process_first_event [OF md Cons event(2) [unfolded wolksensor_process_def]] obtain b a' md' where
      b: "mode_event ops cops e ((world m)\<lparr>app_events := b\<rparr>, md) = Some (a', md')" "in_mode md' a' m'"
        "event_types b = es" "event_queue b" .
    from md(2) b(3,4) Cons have "known_events ((world m)\<lparr>app_events := b\<rparr>)" by (auto simp: known_events_def)
    from mode_event_known [OF b(1) this] b(2) in_mode_world(1) [OF b(2)] show ?thesis by auto
  qed
next
  case (minute m m')
  then show ?case by (metis listener_step minute_known)
next
  case (usb m u m')
  have "known_events a'" if "usb_state_change_listener ops u a = Some a'" "known_events a" for a a'
    using that by (cases u) (auto simp: usb_state_change_listener_def known_below dest: post_event_known)
  with usb show ?case by (metis listener_step)
next
  case (data m s n m')
  then show ?case by (metis listener_step data_listener_known)
next
  case (sensors m ss k m')
  then show ?case by (metis listener_step sensors_listener_known)
next
  case (voltage m v)
  then obtain md where md: "in_mode md (world m) m" "known_events (world m)" by blast
  have "known_events (battery_voltage_listener v (world m))" using md(2) by (simp add: battery_voltage_listener_def)
  with in_mode_world(2) [OF md(1)] show ?case by auto
next
  case (platform m q)
  then obtain md where md: "in_mode md (world m) m" "known_events (world m)" by blast
  have "known_events ((world m)\<lparr>platform := q\<rparr>)" using md(2) by simp
  with in_mode_world(2) [OF md(1)] show ?case by auto
qed

end

end
