(* ===== verification/App_Heartbeat.thy ===== *)
theory App_Heartbeat
  imports App_State
begin

text \<open>
  When the next heartbeat comes: \<open>minute_expired_listener\<close> and \<open>start_heartbeat\<close> of
  \<open>SDK/application/wolksensor.c\<close> over a number of minutes.
\<close>

fun minutes :: "'p platform_ops \<Rightarrow> nat \<Rightarrow> 'p app_step" where
  "minutes ops 0 a = Some a"
| "minutes ops (Suc k) a = do { a \<leftarrow> minutes ops k a; minute_expired_listener ops a }"

text \<open>A minute posts \<open>EVENT_ACQUIRE\<close>, and \<open>EVENT_HEARTBEAT\<close> after it when the period is over.\<close>

definition heartbeat_last :: "'p app \<Rightarrow> bool" where
  "heartbeat_last a \<longleftrightarrow> event_types (app_events a) \<noteq> [] \<and> last (event_types (app_events a)) = EVENT_HEARTBEAT"

lemma last_keep_last: "0 < n \<Longrightarrow> keep_last n (xs @ [x]) \<noteq> [] \<and> last (keep_last n (xs @ [x])) = x"
  by (auto simp: keep_last_def)

lemma post_event_last:
  assumes "event_queue (app_events a)"
  obtains b where "post_event ops e a = Some (a\<lparr>app_events := b\<rparr>)" "event_queue b"
    "event_types b \<noteq> []" "last (event_types b) = e"
proof -
  from assms obtain b where b: "add_event_type (app_now ops a) (app_events a) e = Some b" "event_queue b"
    "event_types b = keep_last (cb_capacity (app_events a)) (event_types (app_events a) @ [e])"
    by (rule add_event_type_ok)
  have "0 < cb_capacity (app_events a)" using assms cb_inv_storage(5) by (auto simp: event_queue_def)
  from last_keep_last [OF this, of "event_types (app_events a)" e] b that [of b] show thesis
    by (simp add: post_event_def)
qed

lemma minute_step:
  assumes q: "event_queue (app_events a)" and p: "current_heartbeat a \<noteq> 0"
  obtains a' where "minute_expired_listener ops a = Some a'" "event_queue (app_events a')"
    "current_heartbeat a' = current_heartbeat a"
    "heartbeat_timer a' = (if heartbeat_timer a + 1 = current_heartbeat a then 0 else heartbeat_timer a + 1)"
    "heartbeat_last a' \<longleftrightarrow> heartbeat_timer a + 1 = current_heartbeat a"
proof -
  from post_event_last [OF q, of ops EVENT_ACQUIRE] obtain b where
    b: "post_event ops EVENT_ACQUIRE a = Some (a\<lparr>app_events := b\<rparr>)" "event_queue b"
      "event_types b \<noteq> []" "last (event_types b) = EVENT_ACQUIRE" .
  let ?a = "a\<lparr>app_events := b, heartbeat_timer := heartbeat_timer a + 1\<rparr>"
  have "event_queue (app_events ?a)" using b(2) by simp
  from post_event_last [OF this, of ops EVENT_HEARTBEAT] obtain b' where
    b': "post_event ops EVENT_HEARTBEAT ?a = Some (?a\<lparr>app_events := b'\<rparr>)" "event_queue b'"
      "event_types b' \<noteq> []" "last (event_types b') = EVENT_HEARTBEAT" .
  show thesis
  proof (cases "heartbeat_timer a + 1 = current_heartbeat a")
    case True
    with b b' p show ?thesis
      by (intro that [of "?a\<lparr>app_events := b', heartbeat_timer := 0\<rparr>"])
         (simp_all add: minute_expired_listener_def heartbeat_last_def)
  next
    case False
    with b p show ?thesis
      by (intro that [of ?a]) (simp_all add: minute_expired_listener_def heartbeat_last_def)
  qed
qed

lemma minutes_before:
  assumes q: "event_queue (app_events a)" and p: "current_heartbeat a \<noteq> 0"
    and d: "\<forall>j. 0 < j \<and> j \<le> k \<longrightarrow> heartbeat_timer a + of_nat j \<noteq> current_heartbeat a"
  shows "\<exists>a'. minutes ops k a = Some a' \<and> event_queue (app_events a') \<and>
    current_heartbeat a' = current_heartbeat a \<and> heartbeat_timer a' = heartbeat_timer a + of_nat k \<and>
    (0 < k \<longrightarrow> \<not> heartbeat_last a')"
  using d
proof (induction k)
  case 0
  with q show ?case by simp
next
  case (Suc k)
  then obtain a' where a': "minutes ops k a = Some a'" "event_queue (app_events a')"
    "current_heartbeat a' = current_heartbeat a" "heartbeat_timer a' = heartbeat_timer a + of_nat k"
    by auto
  have "heartbeat_timer a + of_nat (Suc k) \<noteq> current_heartbeat a" using Suc.prems by blast
  then have ne: "heartbeat_timer a' + 1 \<noteq> current_heartbeat a'" using a' by (simp add: algebra_simps)
  from minute_step [OF a'(2), of ops] a'(3) p obtain a'' where
    "minute_expired_listener ops a' = Some a''" "event_queue (app_events a'')"
    "current_heartbeat a'' = current_heartbeat a'"
    "heartbeat_timer a'' = (if heartbeat_timer a' + 1 = current_heartbeat a' then 0 else heartbeat_timer a' + 1)"
    "heartbeat_last a'' \<longleftrightarrow> heartbeat_timer a' + 1 = current_heartbeat a'" by auto
  with a' ne show ?case by (auto simp: algebra_simps)
qed

text \<open>From a timer \<open>t\<close> the period \<open>p\<close> is reached after \<open>p - t\<close> minutes, modulo the timer's width.\<close>

definition minutes_to_heartbeat :: "u16 \<Rightarrow> u16 \<Rightarrow> nat" where
  "minutes_to_heartbeat t p = (if p = t then 65536 else unat (p - t))"

lemma reaches_period:
  "0 < j \<Longrightarrow> j \<le> 65536 \<Longrightarrow> (t :: u16) + of_nat j = p \<longleftrightarrow> j = minutes_to_heartbeat t p"
proof -
  assume j: "0 < j" "j \<le> 65536"
  have "t + of_nat j = p \<longleftrightarrow> (of_nat j :: u16) = p - t" by (auto simp: algebra_simps)
  also have "\<dots> \<longleftrightarrow> j = minutes_to_heartbeat t p"
  proof (cases "j = 65536")
    case True
    have "(of_nat 65536 :: u16) = 0" by simp
    moreover have "unat (p - t) \<noteq> 65536" by (metis less_irrefl unat_less_size16)
    ultimately show ?thesis using True by (auto simp: minutes_to_heartbeat_def simp del: of_nat_numeral)
  next
    case False
    with j have "unat (of_nat j :: u16) = j" by (intro unat_of_nat16) simp
    then have "(of_nat j :: u16) = p - t \<longleftrightarrow> j = unat (p - t)" by (simp add: u16_eq_iff)
    moreover have "unat (p - t) = 0 \<longleftrightarrow> p = t" by (simp add: unat_eq_0)
    ultimately show ?thesis using j False by (auto simp: minutes_to_heartbeat_def)
  qed
  finally show ?thesis .
qed

lemma heartbeat_comes:
  assumes q: "event_queue (app_events a)" and p: "current_heartbeat a \<noteq> 0"
    and k: "0 < k" "k \<le> minutes_to_heartbeat (heartbeat_timer a) (current_heartbeat a)"
  shows "\<exists>a'. minutes ops k a = Some a' \<and>
    (heartbeat_last a' \<longleftrightarrow> k = minutes_to_heartbeat (heartbeat_timer a) (current_heartbeat a))"
proof -
  let ?d = "minutes_to_heartbeat (heartbeat_timer a) (current_heartbeat a)"
  have d: "?d \<le> 65536" by (simp add: minutes_to_heartbeat_def less_imp_le)
  obtain j where j: "k = Suc j" using k by (cases k) auto
  have "\<forall>i. 0 < i \<and> i \<le> j \<longrightarrow> heartbeat_timer a + of_nat i \<noteq> current_heartbeat a"
    using reaches_period [of _ "heartbeat_timer a" "current_heartbeat a"] d k j by auto
  from minutes_before [OF q p this, of ops] obtain a' where
    a': "minutes ops j a = Some a'" "event_queue (app_events a')" "current_heartbeat a' = current_heartbeat a"
      "heartbeat_timer a' = heartbeat_timer a + of_nat j" by blast
  from minute_step [OF a'(2), of ops] a'(3) p obtain a'' where
    "minute_expired_listener ops a' = Some a''"
    "heartbeat_last a'' \<longleftrightarrow> heartbeat_timer a' + 1 = current_heartbeat a'" by auto
  moreover have "heartbeat_timer a' + 1 = current_heartbeat a' \<longleftrightarrow> k = ?d"
    using reaches_period [of k "heartbeat_timer a" "current_heartbeat a"] a'(3,4) k d j
    by (simp add: algebra_simps)
  ultimately show ?thesis using a'(1) j by auto
qed

text \<open>C35: A new heartbeat period set while the timer has run \<open>t\<close> minutes: the next heartbeat comes
  after \<open>t mod p\<close> minutes, not after the rest of the period, and when \<open>t\<close> is a multiple of the
  new period it comes only after the 65536 minutes in which the timer wraps.\<close>

theorem new_period_next_heartbeat:
  assumes "event_queue (app_events a)" and "period \<noteq> 0" "period \<noteq> current_heartbeat a" "heartbeat_timer a \<noteq> 0"
    and "d = (if unat (heartbeat_timer a) mod unat period = 0 then 65536 else unat (heartbeat_timer a) mod unat period)"
    and "0 < k" "k \<le> d"
  shows "\<exists>a' a''. start_heartbeat period a = Some a' \<and> minutes ops k a' = Some a'' \<and> (heartbeat_last a'' \<longleftrightarrow> k = d)"
proof -
  let ?t = "period - heartbeat_timer a mod period"
  let ?a = "a\<lparr>heartbeat_timer := ?t, current_heartbeat := period\<rparr>"
  have s: "start_heartbeat period a = Some ?a" using assms by (simp add: start_heartbeat_def)
  have m: "unat (heartbeat_timer a mod period) = unat (heartbeat_timer a) mod unat period"
    by (rule unat_mod)
  have "period = ?t \<longleftrightarrow> heartbeat_timer a mod period = 0" by (auto simp: algebra_simps)
  then have "minutes_to_heartbeat ?t period = d"
    using assms(5) m by (simp add: minutes_to_heartbeat_def u16_eq_iff)
  with heartbeat_comes [of ?a k ops] assms s show ?thesis by auto
qed

end
