(* ===== verification/App_Witnesses.thy ===== *)
theory App_Witnesses
  imports App_Samples App_Reachable App_Heartbeat Command_Responses Command_Limits
begin

text \<open>
  The theorems about the application on a small instance of it: the sample application of
  \<^theory_text>\<open>App_Samples\<close> in its normal mode and during an exchange.
\<close>

section \<open>The instance\<close>

definition sample_tree :: "event list \<Rightarrow> nat appm" where
  "sample_tree evs = app_tree STATE_IDLE STATE_NORMAL STATE_SEND (sample_app evs [] [])"

definition sample_exchange :: "event list \<Rightarrow> string \<Rightarrow> nat appm" where
  "sample_exchange evs text = app_tree STATE_DATA_EXCHANGE STATE_NORMAL STATE_RECEIVE (sample_app evs [] text)"

lemma sample_modes:
  "in_mode Normal (sample_app evs [] []) (sample_tree evs)"
  "in_mode (Exchanging Receiving) (sample_app evs [] text) (sample_exchange evs text)"
  by (auto simp: sample_tree_def sample_exchange_def app_state_defs)

lemma sample_known:
  "\<forall>e \<in> set evs. event_type e < 10 \<Longrightarrow> length evs < 10 \<Longrightarrow> known_events (sample_app evs [] text)"
  by (auto simp: known_events_def)

lemma sample_memory_ok: "memory_ok (sample_app [] [] [])"
proof -
  have "sensor_table_wf sample_table"
    by (simp add: sensor_table_wf_def sample_table_def set_sensors_types_def)
  moreover have "get_index_of_sensor sample_table (CHR ''M'') = 3"
    by (simp add: get_index_of_sensor_def sample_table_def set_sensors_types_def eval_nat_numeral)
  ultimately show ?thesis by (simp add: memory_ok_def sample_app_def filled_def)
qed

lemma sample_offsets: "offsets_ok (app_config (sample_app evs rds text))"
  by (simp add: sample_app_def sample_config_def offsets_ok_def offset_ok_def eval_nat_numeral less_Suc_eq)
     (simp add: float_outside_def)

section \<open>The witnesses\<close>

lemma machine_follows_mode_table_witness:
  "same_step (process_wolksensor_event sample_ops sample_comm (sample_tree [sample_event EVENT_HEARTBEAT]))
     (mode_process sample_ops sample_comm (sample_app [sample_event EVENT_HEARTBEAT] [] [], Normal))"
  by (rule machine_follows_mode_table [OF sample_modes(1)], rule sample_known)
     (simp_all add: sample_event_def app_event_defs)

lemma new_period_next_heartbeat_witness:
  "\<exists>a' a''. start_heartbeat 5 ((sample_app [] [] [])\<lparr>heartbeat_timer := 7, current_heartbeat := 10\<rparr>) = Some a' \<and>
     minutes sample_ops 2 a' = Some a'' \<and> heartbeat_last a''"
proof -
  let ?a = "(sample_app [] [] [])\<lparr>heartbeat_timer := 7, current_heartbeat := 10\<rparr>"
  have "event_queue (app_events ?a)" by simp
  then have "\<exists>a' a''. start_heartbeat 5 ?a = Some a' \<and> minutes sample_ops 2 a' = Some a'' \<and>
      (heartbeat_last a'' \<longleftrightarrow> (2 :: nat) = 2)"
    by (rule new_period_next_heartbeat) simp_all
  then show ?thesis by (simp only: simp_thms)
qed

lemma readings_dump_complete_witness:
  "\<exists>ms c' b. execute_until_done sample_ops [] \<lparr>command_type = COMMAND_READINGS, command_has_argument = False,
        command_arg = ZeroArgument\<rparr> (sample_app [] [] []) =
      Some (c', (sample_app [] [] [])\<lparr>app_response := b, responses := ms\<rparr>) \<and> concat ms = ''READINGS;''"
proof -
  have t: "app_reading_texts sample_ops (sample_app [] [] []) = []" by (simp add: filled sample_app_def)
  then have "dump_state sample_ops (sample_app [] [] [])" by (simp add: dump_state_def)
  from readings_dump_complete [OF this, of "\<lparr>command_type = COMMAND_READINGS, command_has_argument = False,
      command_arg = ZeroArgument\<rparr>" "[]"] t
  show ?thesis by (simp add: sample_app_def)
qed

lemma offsets_stay_in_range_witness:
  "\<exists>r c a. execute_command sample_ops [] \<lparr>command_type = COMMAND_TEMP_OFFSET, command_has_argument = True,
        command_arg = FloatArgument (37/10)\<rparr> (sample_app [] [] []) = Some (r, c, a) \<and>
     cfg_atmo_offset (app_config a) ! 0 = Finite (37/10) \<and> offsets_ok (app_config a)"
proof -
  let ?c = "\<lparr>command_type = COMMAND_TEMP_OFFSET, command_has_argument = True, command_arg = FloatArgument (37/10)\<rparr>"
  let ?a = "sample_app [] [] []"
  have "\<exists>r c a. execute_command sample_ops [] ?c ?a = Some (r, c, a) \<and> cfg_atmo_offset (app_config a) ! 0 = Finite (37/10)"
  proof -
    obtain a1 where b: "set_offset sample_ops 0 3 (37/10) ?a = Some a1"
      "cfg_atmo_offset (app_config a1) ! 0 = Finite (37/10)" "app_response a1 = app_response ?a"
      by (simp add: set_offset_def sample_app_def sample_config_def array_get_def array_set_def float_is_zero_def
          write_config_def set_config_def eval_nat_numeral)
    have print: "print_float (sample_ops :: nat platform_ops) v = ''1.0''" for v by (simp add: sample_ops_def)
    have "cb_list (app_response ?a) = []" by (simp add: sample_app_def filled)
    then obtain r where r: "append_line (app_response ?a) (''TEMP_OFFSET 1.0;'') = Some r"
      using append_line_ok [of "app_response ?a" "''TEMP_OFFSET 1.0;''"] by auto
    have "execute_command sample_ops [] ?c ?a = Some (COMMAND_EXECUTED_SUCCESSFULLY, ?c, a1\<lparr>app_response := r\<rparr>)"
      using b(1,3) r print by (simp add: execute_command_def cmd_temp_offset_def finished_def respond_def append_temp_offset_def)
    with b(2) show ?thesis by simp
  qed
  with offsets_stay_in_range [OF _ sample_offsets] show ?thesis by blast
qed

lemma device_id_set_once_witness:
  "\<exists>b. cmd_id sample_ops \<lparr>command_type = COMMAND_ID, command_has_argument = True, command_arg = StringArgument ''dev1''\<rparr>
       (sample_app [] [] []) = Some (COMMAND_EXECUTED_SUCCESSFULLY,
          \<lparr>command_type = COMMAND_ID, command_has_argument = True, command_arg = StringArgument ''dev1''\<rparr>,
          (id_set sample_ops ''dev1'' (sample_app [] [] []))\<lparr>app_response := b\<rparr>) \<and> cb_list b = ''ID dev1;''"
proof -
  let ?c = "\<lparr>command_type = COMMAND_ID, command_has_argument = True, command_arg = StringArgument ''dev1''\<rparr>"
  let ?a = "sample_app [] [] []"
  have a: "message_buffer (app_response ?a)" "cb_list (app_response ?a) = []" "128 \<le> cb_capacity (app_response ?a)"
    "hd (cfg_device_id (app_config ?a)) = NUL"
    by simp_all (simp_all add: sample_app_def filled sample_config_def)
  have c: "command_has_argument ?c" "command_arg ?c = StringArgument ''dev1''" "NUL \<notin> set ''dev1''" "length ''dev1'' < 30"
    by simp_all
  note set_once = device_id_set_once [OF a(1-3) c(1-3), of sample_ops]
  have "\<exists>b. cmd_id sample_ops ?c ?a = Some (COMMAND_EXECUTED_SUCCESSFULLY, ?c, (id_set sample_ops ''dev1'' ?a)\<lparr>app_response := b\<rparr>) \<and>
      cb_list b = ''ID '' @ ''dev1'' @ '';''"
    using set_once by (simp only: a(4) c(4) simp_thms if_True if_False)
  then show ?thesis by (simp only: append.simps)
qed

lemma pressure_offset_out_of_bounds_witness:
  "cmd_pressure_offset sample_ops \<lparr>command_type = COMMAND_PRESSURE_OFFSET, command_has_argument = True,
     command_arg = FloatArgument 2\<rparr> (sample_app [] [] []) = None"
  by (rule pressure_offset_out_of_bounds [of _ 2])
     (simp_all add: sample_app_def sample_config_def eval_nat_numeral)

lemma application_starts_normal_witness:
  "\<exists>b m. init_wolksensor sample_ops sample_comm BROWNOUT_RESET (sample_app [] [] []) = Some m \<and> in_mode Normal b m \<and>
     event_types (app_events b) = [EVENT_ACQUIRE]"
proof -
  have "current_heartbeat (sample_app [] [] []) = 0" by (simp add: sample_app_def)
  from application_starts_normal [OF sample_memory_ok this] show ?thesis by blast
qed

lemma exchange_drops_reset_and_alarm_witness:
  "\<exists>b m'. process_wolksensor_event sample_ops sample_comm (sample_exchange [sample_event EVENT_RESET] []) = Some (True, m') \<and>
     in_mode (Exchanging Receiving) ((sample_app [sample_event EVENT_RESET] [] [])\<lparr>app_events := b\<rparr>) m' \<and> event_types b = []"
proof (rule exchange_drops_reset_and_alarm [OF sample_modes(2) sample_known])
  show "EVENT_RESET = EVENT_RESET \<or> EVENT_RESET = EVENT_ALARM" by simp
qed (simp_all add: sample_event_def app_event_defs)

text \<open>A \<open>RELOAD\<close> during an exchange is answered as busy.\<close>

lemma sample_reload:
  assumes "app_command_string a = app_command_string (sample_app [] [] ''RELOAD;'')"
    "app_commands a = app_commands (sample_app [] [] [])" "app_response a = app_response (sample_app [] [] [])"
  shows "mode_commands (sample_ops :: nat platform_ops) (Exchanging Receiving) False a \<noteq> None"
proof -
  let ?c = "\<lparr>command_type = COMMAND_RELOAD, command_has_argument = False, command_arg = ZeroArgument\<rparr>"
  let ?env = "\<lparr>env_sensors = app_sensors a, env_actuators = [], env_junk = junk_alarms (sample_ops :: nat platform_ops)\<rparr>"
  have t: "(COMMAND_RELOAD, ''RELOAD'') \<in> set command_table" by (simp add: command_table_def)
  have p: "parse_all ?env sample_command [''RELOAD''] = Some [?c]"
    using parse_command_bare [OF t] by (simp add: parsed_def)
  have sb: "cb_inv (app_command_string a)" "cb_capacity (app_command_string a) = 768"
    "cb_list (app_command_string a) = ''RELOAD;''"
    and cb: "cb_inv (app_commands a)" "cb_wrap (app_commands a)" "cb_list (app_commands a) = []"
      "cb_capacity (app_commands a) = 10"
    and mb: "message_buffer (app_response a)"
    by (simp_all add: assms) (simp_all add: sample_app_def filled)
  from extract_commands_loop_stream [OF sb(1) _ cb(1,2) _ _ _ p, of "[]" 0] obtain sb' cb' where
    x: "extract_commands_loop ?env (app_command_string a) (app_commands a) sample_command 0 = Some (1, sb', cb')"
      "cb_inv cb'" "cb_list cb' = [?c]"
    by (auto simp: sb cb command_stream_def keep_last_def)
  let ?a = "a\<lparr>app_command_string := sb', app_commands := cb'\<rparr>"
  have e: "extract_commands sample_ops a = Some ?a"
    using x(1) by (simp add: extract_commands_def extract_commands_from_string_buffer_def) (simp add: sample_ops_def)
  from cb_pop_nonempty [OF x(2), of True] x(3) obtain cb1 where
    pop: "circular_buffer_pop True cb' = Some (True, Some ?c, cb1)" "cb_inv cb1" "cb_list cb1 = []" by auto
  from message_clear [OF mb] obtain mb0 where mb0: "circular_buffer_clear NUL (app_response a) = Some mb0"
    "message_buffer mb0" "cb_list mb0 = []" "cb_capacity mb0 = cb_capacity (app_response a)" .
  from append_line_ok [OF mb0(2,3), of "''BUSY;''"] mb0(4) obtain mb1 where
    mb1: "append_line mb0 ''BUSY;'' = Some mb1" "message_buffer mb1" by (auto simp: assms)
  have busy: "answer_busy (a\<lparr>app_command_string := sb', app_commands := cb1\<rparr>) =
      Some (a\<lparr>app_command_string := sb', app_commands := cb1, app_response := mb1, responses := responses a @ [cb_list mb1]\<rparr>)"
    using mb0(1) mb1 by (simp add: answer_busy_def append_busy_def send_message)
  show ?thesis
    unfolding mode_commands_def e
    by (simp add: mode_execute.simps [of _ _ _ ?a] pop mode_execute_one_def busy)
       (simp add: mode_execute.simps cb_pop_empty [OF pop(2,3)])
qed


end
