(* ===== verification/Mqtt.thy ===== *)
theory Mqtt
  imports Mqtt_Packets Config Wolksensor
begin

text \<open>
  The MQTT protocol of the firmware, \<open>SDK/core/mqtt_communication_protocol.c\<close>: its seventeen states,
  their handlers and the functions that start an operation.

  The module reads and writes through pointers to variables of the application (the stored readings
  and system items, the command queue, the counters of what was sent), which are the fields
  \<open>mem_\<close> of its world; the pointers themselves are flags that say whether they are set.  The module
  below it (Wi-Fi, TCP or UDP) is a state \<open>'q\<close> and a record of functions on it.  That module gets the
  addresses of \<open>mqtt_buffer\<close> and \<open>mqtt_buffer_position\<close>, so a processing step of it may change both.
  The name of a topic is a local text, because the static array that holds it is read only by the
  call after the one that fills it.
\<close>

section \<open>Texts for the server\<close>

record wifi_network =
  network_bssid :: "u8 list"
  network_rssi :: "8 word"

datatype actuator_status = ACTUATOR_STATUS_OK | ACTUATOR_STATUS_IN_PROGRESS | ACTUATOR_STATUS_FAILED

text \<open>The union of the values is its 32 bits.\<close>

record actuator_state =
  actuator_value :: u32
  actuator_status_of :: actuator_status

definition show_sint :: "int \<Rightarrow> string" where
  "show_sint i = (if i < 0 then ''-'' @ show_nat (nat (- i)) else show_nat (nat i))"

text \<open>\<open>%d\<close> takes 16 bits, also of the 32-bit value of a motor.\<close>

definition append_actuator_state :: "actuator \<Rightarrow> actuator_state \<Rightarrow> char_buffer \<Rightarrow> char_buffer option" where
  "append_actuator_state act s b = do {
     b \<leftarrow> append_line b ''STATUS '';
     let v = actuator_value s;
     b \<leftarrow> append_line b (actuator_id act @ '':'' @
       (case actuator_type_of act of
          ACTUATOR_TYPE_SWITCH \<Rightarrow> ''SW,'' @ (if (ucast v :: u8) \<noteq> 0 then ''ON'' else ''OFF'')
        | ACTUATOR_TYPE_DC_MOTOR \<Rightarrow> ''DCM,'' @ show_sint (sint (ucast v :: u16))
        | ACTUATOR_TYPE_SERVO \<Rightarrow> ''SRV,'' @ show_sint (sint (ucast v :: u16))) @
       (case actuator_status_of s of
          ACTUATOR_STATUS_OK \<Rightarrow> '',OK|''
        | ACTUATOR_STATUS_IN_PROGRESS \<Rightarrow> '',IN_PROGRESS|''
        | ACTUATOR_STATUS_FAILED \<Rightarrow> '',FAILED|''));
     end_message b
   }"

fun network_texts :: "wifi_network list \<Rightarrow> string list" where
  "network_texts [] = []"
| "network_texts (n # ns) =
     (''MAC:'' @ concat (map show_hex2 (take 6 (network_bssid n))) @ '',RSSI:'' @
      show_sint (sint (network_rssi n)) @ (if ns = [] then '';'' else ''|'')) # network_texts ns"

fun append_lines :: "char_buffer \<Rightarrow> string list \<Rightarrow> char_buffer option" where
  "append_lines b [] = Some b"
| "append_lines b (t # ts) = do { b \<leftarrow> append_line b t; append_lines b ts }"

definition append_detected_wifi_networks :: "wifi_network list \<Rightarrow> char_buffer \<Rightarrow> char_buffer option" where
  "append_detected_wifi_networks ns b = append_lines b (''READINGS '' # network_texts ns)"

section \<open>The variables\<close>

record 'q mqtt_ops =
  module_send :: "u16 \<Rightarrow> 'q \<Rightarrow> (nat \<times> 'q) option"
  module_receive :: "u16 \<Rightarrow> 'q \<Rightarrow> (nat \<times> 'q) option"
  module_halt :: "'q \<Rightarrow> (nat \<times> 'q) option"
  module_step :: "nat \<Rightarrow> u8 list \<Rightarrow> u16 \<Rightarrow> 'q \<Rightarrow> (bool \<times> u8 list \<times> u16 \<times> 'q) option"
  module_data :: "'q \<Rightarrow> communication_module_type_data"
  mqtt_encrypt :: "u8 list \<Rightarrow> u16 \<Rightarrow> string \<Rightarrow> (u16 \<times> u8 list) option"
  mqtt_decrypt :: "u8 list \<Rightarrow> u16 \<Rightarrow> string \<Rightarrow> u8 list option"
  get_surroundig_wifi_networks :: "('q \<Rightarrow> wifi_network list \<times> 'q) option"
  float_text :: "c_float \<Rightarrow> string"
  platform_error_text :: "u32 \<Rightarrow> string"
  parser_junk :: sensor_alarms
  command_junk :: command

record mqtt_mesage =
  msg_type :: u8
  msg_id :: u16
  msg_topic :: "nat option"
  msg_topic_size :: u8
  msg_data :: "nat option"
  msg_data_size :: u16

record exchange_memory =
  mem_config :: config
  mem_sensors :: sensor_table
  mem_now :: u32
  mem_readings :: "sensor_readings circular_buffer"
  mem_system :: "system_item circular_buffer"
  mem_commands :: command_buffer
  mem_sent_readings :: u16
  mem_sent_items :: u16

record 'q mqtt =
  mqtt_events :: event_buffer
  broker :: mqtt_broker
  mqtt_message :: mqtt_mesage
  mqtt_buffer_position :: u16
  mqtt_buffer :: "u8 list"
  sending_sensor_readings_buffer :: bool
  sensor_readings_sent :: bool
  sending_system_buffer :: bool
  system_items_sent :: bool
  sending_actuator :: "actuator option"
  sending_actuator_state :: "actuator_state option"
  received_commands_buffer :: bool
  message_id :: u16
  stack_message_id :: u16
  module_handle :: "nat option"
  mqtt_result :: communication_protocol_type_data
  serialized_sensor_readings :: u16
  serialized_system_items :: u16
  memory :: exchange_memory
  link :: 'q

type_synonym 'q mqttm = "'q mqtt machine"
type_synonym 'q mqtt_step = "'q mqtt \<Rightarrow> 'q mqtt option"
type_synonym 'q mqtt_trans = "nat \<Rightarrow> 'q mqttm \<Rightarrow> 'q mqttm option"

definition MQTT_BUFFER_SIZE :: u16 where "MQTT_BUFFER_SIZE = 803"

definition STATE_MQTT_DISCONNECTED :: nat where "STATE_MQTT_DISCONNECTED = 0"
definition STATE_MQTT_CONNECTING :: nat where "STATE_MQTT_CONNECTING = 1"
definition STATE_MQTT_SEND_CONNECT :: nat where "STATE_MQTT_SEND_CONNECT = 2"
definition STATE_MQTT_RECEIVE_CONNACK :: nat where "STATE_MQTT_RECEIVE_CONNACK = 3"
definition STATE_MQTT_SEND_SUBSCRIBE :: nat where "STATE_MQTT_SEND_SUBSCRIBE = 4"
definition STATE_MQTT_RECEIVE_SUBACK :: nat where "STATE_MQTT_RECEIVE_SUBACK = 5"
definition STATE_MQTT_CONNECTED :: nat where "STATE_MQTT_CONNECTED = 6"
definition STATE_MQTT_PUBLISH :: nat where "STATE_MQTT_PUBLISH = 7"
definition STATE_MQTT_RECEIVE_PUBLISH :: nat where "STATE_MQTT_RECEIVE_PUBLISH = 8"
definition STATE_MQTT_RECEIVE_PUBACK :: nat where "STATE_MQTT_RECEIVE_PUBACK = 9"
definition STATE_MQTT_RECEIVE_PUBREC :: nat where "STATE_MQTT_RECEIVE_PUBREC = 10"
definition STATE_MQTT_SEND_PUBREL :: nat where "STATE_MQTT_SEND_PUBREL = 11"
definition STATE_MQTT_RECEIVE_PUBCOMP :: nat where "STATE_MQTT_RECEIVE_PUBCOMP = 12"
definition STATE_MQTT_PING :: nat where "STATE_MQTT_PING = 13"
definition STATE_MQTT_SEND_PINREQ :: nat where "STATE_MQTT_SEND_PINREQ = 14"
definition STATE_MQTT_RECEIVE_PINGRESP :: nat where "STATE_MQTT_RECEIVE_PINGRESP = 15"
definition STATE_MQTT_DISCONNECTING :: nat where "STATE_MQTT_DISCONNECTING = 16"

lemmas mqtt_state_defs = STATE_MQTT_DISCONNECTED_def STATE_MQTT_CONNECTING_def STATE_MQTT_SEND_CONNECT_def
  STATE_MQTT_RECEIVE_CONNACK_def STATE_MQTT_SEND_SUBSCRIBE_def STATE_MQTT_RECEIVE_SUBACK_def
  STATE_MQTT_CONNECTED_def STATE_MQTT_PUBLISH_def STATE_MQTT_RECEIVE_PUBLISH_def
  STATE_MQTT_RECEIVE_PUBACK_def STATE_MQTT_RECEIVE_PUBREC_def STATE_MQTT_SEND_PUBREL_def
  STATE_MQTT_RECEIVE_PUBCOMP_def STATE_MQTT_PING_def STATE_MQTT_SEND_PINREQ_def
  STATE_MQTT_RECEIVE_PINGRESP_def STATE_MQTT_DISCONNECTING_def

definition EVENT_MQTT_DISCONNECT :: u8 where "EVENT_MQTT_DISCONNECT = 0"
definition EVENT_MQTT_PUBLISH :: u8 where "EVENT_MQTT_PUBLISH = 1"
definition EVENT_MQTT_RECEIVE_CONNACK :: u8 where "EVENT_MQTT_RECEIVE_CONNACK = 2"
definition EVENT_MQTT_RECEIVE_SUBACK :: u8 where "EVENT_MQTT_RECEIVE_SUBACK = 3"
definition EVENT_MQTT_RECEIVE_PUBLISH :: u8 where "EVENT_MQTT_RECEIVE_PUBLISH = 4"
definition EVENT_MQTT_RECEIVE_PUBACK :: u8 where "EVENT_MQTT_RECEIVE_PUBACK = 5"
definition EVENT_MQTT_RECEIVE_PUBREC :: u8 where "EVENT_MQTT_RECEIVE_PUBREC = 6"
definition EVENT_MQTT_RECEIVE_PUBCOMP :: u8 where "EVENT_MQTT_RECEIVE_PUBCOMP = 7"
definition EVENT_MQTT_RECEIVE_PINGRESP :: u8 where "EVENT_MQTT_RECEIVE_PINGRESP = 8"
definition EVENT_COMMUNICATION_MODULE_PROCESS :: u8 where "EVENT_COMMUNICATION_MODULE_PROCESS = 9"
definition EVENT_COMMUNICATION_MODULE_DONE :: u8 where "EVENT_COMMUNICATION_MODULE_DONE = 10"

lemmas mqtt_event_defs = EVENT_MQTT_DISCONNECT_def EVENT_MQTT_PUBLISH_def EVENT_MQTT_RECEIVE_CONNACK_def
  EVENT_MQTT_RECEIVE_SUBACK_def EVENT_MQTT_RECEIVE_PUBLISH_def EVENT_MQTT_RECEIVE_PUBACK_def
  EVENT_MQTT_RECEIVE_PUBREC_def EVENT_MQTT_RECEIVE_PUBCOMP_def EVENT_MQTT_RECEIVE_PINGRESP_def
  EVENT_COMMUNICATION_MODULE_PROCESS_def EVENT_COMMUNICATION_MODULE_DONE_def
  EVENT_ENTERING_STATE_def EVENT_LEAVING_STATE_def

definition ERROR_SENDING_MQTT_MESSAGE :: u8 where "ERROR_SENDING_MQTT_MESSAGE = 0x10"
definition ERROR_RECEIVING_MQTT_MESSAGE :: u8 where "ERROR_RECEIVING_MQTT_MESSAGE = 0x20"
definition ERROR_INCORRECT_MQTT_MESSAGE_RECEIVED :: u8 where "ERROR_INCORRECT_MQTT_MESSAGE_RECEIVED = 0x30"
definition ERROR_MQTT_PARAMETERS_MISSING :: u8 where "ERROR_MQTT_PARAMETERS_MISSING = 0x40"

section \<open>Small functions\<close>

definition lift_mqtt :: "'q mqtt_step \<Rightarrow> 'q mqttm \<Rightarrow> 'q mqttm option" where
  "lift_mqtt f m = map_option (\<lambda>w. m\<lparr>world := w\<rparr>) (f (world m))"

definition add_mqtt_communication_protocol_event_type :: "u8 \<Rightarrow> 'q mqtt_step" where
  "add_mqtt_communication_protocol_event_type ty w =
     map_option (\<lambda>b. w\<lparr>mqtt_events := b\<rparr>) (add_event_type (mem_now (memory w)) (mqtt_events w) ty)"

definition clear_mqtt_events :: "'q mqtt_step" where
  "clear_mqtt_events w = map_option (\<lambda>b. w\<lparr>mqtt_events := b\<rparr>)
     (circular_buffer_clear \<lparr>event_type = 0, event_timestamp = 0\<rparr> (mqtt_events w))"

definition clear_mqtt_buffer :: "'q mqtt \<Rightarrow> 'q mqtt" where
  "clear_mqtt_buffer w = w\<lparr>mqtt_buffer_position := 0, mqtt_buffer := replicate (unat MQTT_BUFFER_SIZE) 0\<rparr>"

definition zero_protocol_data :: communication_protocol_type_data where
  "zero_protocol_data = cbd_protocol zero_result"

definition clear_communication_protocol_data :: "'q mqtt \<Rightarrow> 'q mqtt" where
  "clear_communication_protocol_data w =
     w\<lparr>mqtt_result := zero_protocol_data\<lparr>cptd_type := COMMUNICATION_PROTOCOL_MQTT\<rparr>\<rparr>"

definition set_mqtt_communication_protocol_error :: "u8 \<Rightarrow> nat \<Rightarrow> 'q mqtt \<Rightarrow> 'q mqtt" where
  "set_mqtt_communication_protocol_error error_type state w =
     w\<lparr>mqtt_result := (mqtt_result w)\<lparr>cptd_mqtt_error := error_type OR of_nat state\<rparr>\<rparr>"

definition mqtt_parameters_set :: "'q mqtt \<Rightarrow> bool" where
  "mqtt_parameters_set w \<longleftrightarrow> hd (cfg_device_id (mem_config (memory w))) \<noteq> NUL \<and>
     hd (cfg_device_preshared_key (mem_config (memory w))) \<noteq> NUL"

text \<open>Handing a packet, or the buffer to fill, to the communication module.\<close>

definition start_sending :: "'q mqtt_ops \<Rightarrow> u16 \<Rightarrow> 'q mqtt_step" where
  "start_sending mops n w =
     do {
       (h, q) \<leftarrow> module_send mops n (link w);
       add_mqtt_communication_protocol_event_type EVENT_COMMUNICATION_MODULE_PROCESS
         (w\<lparr>module_handle := Some h, link := q\<rparr>)
     }"

definition start_receiving :: "'q mqtt_ops \<Rightarrow> 'q mqtt_step" where
  "start_receiving mops w =
     do {
       let w = clear_mqtt_buffer w;
       (h, q) \<leftarrow> module_receive mops MQTT_BUFFER_SIZE (link w);
       add_mqtt_communication_protocol_event_type EVENT_COMMUNICATION_MODULE_PROCESS
         (w\<lparr>module_handle := Some h, link := q\<rparr>)
     }"

text \<open>Adding the result of the module to that of the operation.\<close>

definition module_success :: "'q mqtt_ops \<Rightarrow> 'q mqtt \<Rightarrow> bool" where
  "module_success mops w \<longleftrightarrow> is_communication_module_success (module_data mops (link w))"

definition take_module_result :: "'q mqtt_ops \<Rightarrow> 'q mqtt \<Rightarrow> 'q mqtt" where
  "take_module_result mops w = w\<lparr>mqtt_result := (mqtt_result w)\<lparr>cptd_module :=
     append_communication_module_type_data (module_data mops (link w)) (cptd_module (mqtt_result w))\<rparr>\<rparr>"

definition mqtt_parse_message :: "'q mqtt \<Rightarrow> (bool \<times> 'q mqtt) option" where
  "mqtt_parse_message w = do {
     remaining_length_bytes \<leftarrow> mqtt_num_rem_len_bytes (mqtt_buffer w);
     n \<leftarrow> mqtt_parse_rem_len (mqtt_buffer w);
     let remaining_length = (ucast n :: u8);
     (if unat (mqtt_buffer_position w) < unat remaining_length + unat remaining_length_bytes + 1
      then Some (False, w)
      else do {
        ty \<leftarrow> parse_message_type (mqtt_buffer w);
        let msg = (mqtt_message w)\<lparr>msg_type := ty\<rparr>;
        msg \<leftarrow>
          (if ty = MQTT_MSG_SUBACK then
             map_option (\<lambda>i. msg\<lparr>msg_id := ucast i\<rparr>) (mqtt_parse_msg_id (mqtt_buffer w))
           else if ty = MQTT_MSG_PUBLISH then do {
             (topic_size, topic) \<leftarrow> mqtt_parse_pub_topic_ptr (mqtt_buffer w);
             (data_size, data) \<leftarrow> mqtt_parse_pub_msg_ptr (mqtt_buffer w);
             Some (msg\<lparr>msg_topic_size := ucast topic_size, msg_topic := topic,
                       msg_data_size := data_size, msg_data := data\<rparr>)
           }
           else if ty \<in> {MQTT_MSG_PUBACK, MQTT_MSG_PUBREC, MQTT_MSG_PUBCOMP} then
             Some (msg\<lparr>msg_id := stack_message_id w\<rparr>)
           else Some msg);
        Some (True, w\<lparr>mqtt_message := msg\<rparr>)
      })
   }"

end
