(* ===== verification/Mqtt_States.thy ===== *)
theory Mqtt_States
  imports Mqtt
begin

text \<open>
  The handlers of the MQTT state machine, the functions the application calls and the processing
  step, \<open>SDK/core/mqtt_communication_protocol.c\<close>.
\<close>

section \<open>Disconnected and connecting\<close>

definition mqtt_communication_protocol_handler :: "'q mqtt_ops \<Rightarrow> 'q mqtt handler" where
  "mqtt_communication_protocol_handler mops e m =
     (if e = EVENT_ENTERING_STATE then Some (True, m)
      else if e = EVENT_COMMUNICATION_MODULE_PROCESS then
        processed True (lift_mqtt (\<lambda>w. do {
          h \<leftarrow> module_handle w;
          (again, buf, pos, q) \<leftarrow> module_step mops h (mqtt_buffer w) (mqtt_buffer_position w) (link w);
          add_mqtt_communication_protocol_event_type
            (if again then EVENT_COMMUNICATION_MODULE_PROCESS else EVENT_COMMUNICATION_MODULE_DONE)
            (w\<lparr>mqtt_buffer := buf, mqtt_buffer_position := pos, link := q\<rparr>)
        }) m)
      else Some (False, m))"

definition state_mqtt_disconnected :: "'q mqtt_trans \<Rightarrow> 'q mqtt handler" where
  "state_mqtt_disconnected tr e m =
     (if e = EVENT_ENTERING_STATE then processed True (lift_mqtt clear_mqtt_events m)
      else if e = EVENT_MQTT_DISCONNECT then Some (True, m)
      else if e \<in> {EVENT_MQTT_PUBLISH, EVENT_MQTT_RECEIVE_PUBLISH, EVENT_MQTT_RECEIVE_PUBACK,
                   EVENT_MQTT_RECEIVE_PUBREC, EVENT_MQTT_RECEIVE_PUBCOMP} then
        (if mqtt_parameters_set (world m) then
           processed True (do {
             m \<leftarrow> lift_mqtt (add_mqtt_communication_protocol_event_type e) m;
             tr STATE_MQTT_CONNECTING m
           })
         else Some (True, m\<lparr>world := set_mqtt_communication_protocol_error ERROR_MQTT_PARAMETERS_MISSING
                                       STATE_MQTT_DISCONNECTED (world m)\<rparr>))
      else Some (False, m))"

definition state_mqtt_connecting :: "'q mqtt handler" where
  "state_mqtt_connecting e m =
     (if e = EVENT_ENTERING_STATE then
        processed True (set_current_state m (Node STATE_MQTT_CONNECTING) (Some STATE_MQTT_SEND_CONNECT))
      else if e = EVENT_MQTT_DISCONNECT then Some (True, m)
      else if e \<in> {EVENT_MQTT_PUBLISH, EVENT_MQTT_RECEIVE_PUBACK, EVENT_MQTT_RECEIVE_PUBREC,
                   EVENT_MQTT_RECEIVE_PUBCOMP, EVENT_MQTT_RECEIVE_PUBLISH} then
        processed True (lift_mqtt (add_mqtt_communication_protocol_event_type e) m)
      else Some (False, m))"

text \<open>What all states that wait for a packet to be sent do when the module is done.\<close>

definition packet_sent ::
  "'q mqtt_ops \<Rightarrow> 'q mqtt_trans \<Rightarrow> nat \<Rightarrow> nat \<Rightarrow> 'q mqttm \<Rightarrow> (bool \<times> 'q mqttm) option" where
  "packet_sent mops tr state next m =
     (let w = take_module_result mops (world m) in
      processed True
       (if module_success mops w then tr next (m\<lparr>world := w\<rparr>)
        else tr STATE_MQTT_DISCONNECTED
          (m\<lparr>world := set_mqtt_communication_protocol_error ERROR_SENDING_MQTT_MESSAGE state w\<rparr>)))"

definition topic_text :: "string \<Rightarrow> string \<Rightarrow> string \<Rightarrow> string option" where
  "topic_text prefix dev_id suffix = do {
     let s = prefix @ dev_id @ suffix;
     c_assert (length s < 32);
     Some s
   }"

definition send_connect :: "'q mqtt_ops \<Rightarrow> 'q mqtt_step" where
  "send_connect mops w = do {
     let w = clear_mqtt_buffer w;
     let cfg = mem_config (memory w);
     dev_id \<leftarrow> c_str (cfg_device_id cfg);
     b \<leftarrow> mqttlib_init (broker w) (Some dev_id);
     topic \<leftarrow> topic_text ''will/'' dev_id ''/001'';
     let b = mqtt_set_alive (mqtt_init_will b topic ''Connection break with WolkSensor'' 0 0) 60;
     let b = mqttlib_init_auth b (Some dev_id) (Some (c_string (cfg_device_preshared_key cfg)));
     (n, packet) \<leftarrow> mqtt_connect b (mqtt_buffer w);
     start_sending mops (of_int n) (w\<lparr>broker := b, mqtt_buffer := packet\<rparr>)
   }"

definition state_mqtt_send_connect :: "'q mqtt_ops \<Rightarrow> 'q mqtt_trans \<Rightarrow> 'q mqtt handler" where
  "state_mqtt_send_connect mops tr e m =
     (if e = EVENT_ENTERING_STATE then processed True (lift_mqtt (send_connect mops) m)
      else if e = EVENT_COMMUNICATION_MODULE_DONE then
        packet_sent mops tr STATE_MQTT_SEND_CONNECT STATE_MQTT_RECEIVE_CONNACK m
      else Some (False, m))"

text \<open>
  What the states that wait for an answer have in common: entering posts the event that starts
  receiving, and a failed module ends the connection.
\<close>

definition receive_failed :: "'q mqtt_trans \<Rightarrow> nat \<Rightarrow> nat \<Rightarrow> 'q mqttm \<Rightarrow> (bool \<times> 'q mqttm) option" where
  "receive_failed tr state next m = processed True
     (tr next (m\<lparr>world := set_mqtt_communication_protocol_error ERROR_RECEIVING_MQTT_MESSAGE state (world m)\<rparr>))"

definition post_mqtt :: "u8 \<Rightarrow> 'q mqttm \<Rightarrow> (bool \<times> 'q mqttm) option" where
  "post_mqtt ty m = processed True (lift_mqtt (add_mqtt_communication_protocol_event_type ty) m)"

definition state_mqtt_receive_connnack :: "'q mqtt_ops \<Rightarrow> 'q mqtt_trans \<Rightarrow> 'q mqtt handler" where
  "state_mqtt_receive_connnack mops tr e m =
     (if e = EVENT_ENTERING_STATE then post_mqtt EVENT_MQTT_RECEIVE_CONNACK m
      else if e = EVENT_MQTT_RECEIVE_CONNACK then processed True (lift_mqtt (start_receiving mops) m)
      else if e = EVENT_COMMUNICATION_MODULE_DONE then
        (let m = m\<lparr>world := take_module_result mops (world m)\<rparr> in
         if module_success mops (world m) then do {
           (complete, w) \<leftarrow> mqtt_parse_message (world m);
           let m = m\<lparr>world := w\<rparr>;
           (if complete then
              (if msg_type (mqtt_message w) = MQTT_MSG_CONNACK
               then processed True (tr STATE_MQTT_SEND_SUBSCRIBE m)
               else post_mqtt EVENT_MQTT_RECEIVE_CONNACK m)
            else receive_failed tr STATE_MQTT_RECEIVE_CONNACK STATE_MQTT_DISCONNECTED m)
         } else receive_failed tr STATE_MQTT_RECEIVE_CONNACK STATE_MQTT_DISCONNECTED m)
      else Some (False, m))"

definition send_subscribe :: "'q mqtt_ops \<Rightarrow> 'q mqtt_step" where
  "send_subscribe mops w = do {
     let w = clear_mqtt_buffer w;
     dev_id \<leftarrow> c_str (cfg_device_id (mem_config (memory w)));
     topic \<leftarrow> topic_text ''config/'' dev_id [];
     (n, mid, b, packet) \<leftarrow> mqtt_subscribe (broker w) topic (mqtt_buffer w) MQTT_BUFFER_SIZE;
     start_sending mops (ucast n) (w\<lparr>broker := b, message_id := mid, mqtt_buffer := packet\<rparr>)
   }"

definition state_mqtt_send_subscribe :: "'q mqtt_ops \<Rightarrow> 'q mqtt_trans \<Rightarrow> 'q mqtt handler" where
  "state_mqtt_send_subscribe mops tr e m =
     (if e = EVENT_ENTERING_STATE then processed True (lift_mqtt (send_subscribe mops) m)
      else if e = EVENT_COMMUNICATION_MODULE_DONE then
        packet_sent mops tr STATE_MQTT_SEND_SUBSCRIBE STATE_MQTT_RECEIVE_SUBACK m
      else Some (False, m))"

text \<open>
  The answers that carry the identifier of a packet.  When it is not the expected one, the number
  of the state \<open>STATE_MQTT_DISCONNECTING\<close> is posted as an event.
\<close>

definition answer_received ::
  "'q mqtt_ops \<Rightarrow> 'q mqtt_trans \<Rightarrow> nat \<Rightarrow> u8 \<Rightarrow> u8 \<Rightarrow> nat \<Rightarrow> 'q mqttm \<Rightarrow> (bool \<times> 'q mqttm) option" where
  "answer_received mops tr state ty retry next m =
     (let m = m\<lparr>world := take_module_result mops (world m)\<rparr> in
      if module_success mops (world m) then do {
        (complete, w) \<leftarrow> mqtt_parse_message (world m);
        let m = m\<lparr>world := w\<rparr>;
        (if complete then
           (if msg_type (mqtt_message w) = ty then
              (if msg_id (mqtt_message w) = message_id w then processed True (tr next m)
               else post_mqtt (of_nat STATE_MQTT_DISCONNECTING)
                 (m\<lparr>world := set_mqtt_communication_protocol_error ERROR_INCORRECT_MQTT_MESSAGE_RECEIVED state w\<rparr>))
            else post_mqtt retry m)
         else receive_failed tr state STATE_MQTT_DISCONNECTING m)
      } else receive_failed tr state STATE_MQTT_DISCONNECTED m)"

definition state_mqtt_receive_suback :: "'q mqtt_ops \<Rightarrow> 'q mqtt_trans \<Rightarrow> 'q mqtt handler" where
  "state_mqtt_receive_suback mops tr e m =
     (if e = EVENT_ENTERING_STATE then post_mqtt EVENT_MQTT_RECEIVE_SUBACK m
      else if e = EVENT_MQTT_RECEIVE_SUBACK then processed True (lift_mqtt (start_receiving mops) m)
      else if e = EVENT_COMMUNICATION_MODULE_DONE then
        answer_received mops tr STATE_MQTT_RECEIVE_SUBACK MQTT_MSG_SUBACK EVENT_MQTT_RECEIVE_SUBACK
          STATE_MQTT_CONNECTED m
      else Some (False, m))"

section \<open>Connected\<close>

definition state_mqtt_connected :: "'q mqtt_trans \<Rightarrow> 'q mqtt handler" where
  "state_mqtt_connected tr e m =
     (if e = EVENT_ENTERING_STATE then
        processed True (set_current_state m (Node STATE_MQTT_CONNECTED) None)
      else if e = EVENT_MQTT_DISCONNECT then processed True (tr STATE_MQTT_DISCONNECTING m)
      else if e = EVENT_MQTT_PUBLISH then processed True (tr STATE_MQTT_PUBLISH m)
      else if e = EVENT_MQTT_RECEIVE_PUBLISH then processed True (tr STATE_MQTT_RECEIVE_PUBLISH m)
      else if e = EVENT_MQTT_RECEIVE_PUBACK then processed True (tr STATE_MQTT_RECEIVE_PUBACK m)
      else if e = EVENT_MQTT_RECEIVE_PUBREC then processed True (tr STATE_MQTT_RECEIVE_PUBREC m)
      else if e = EVENT_MQTT_RECEIVE_PUBCOMP then processed True (tr STATE_MQTT_RECEIVE_PUBCOMP m)
      else Some (False, m))"

text \<open>The text of the message is composed in the buffer behind the place of its header: the time, the
  networks around, the system items and the readings, encrypted unless the connection is.\<close>

definition append_networks :: "'q mqtt_ops \<Rightarrow> char_buffer \<Rightarrow> 'q mqtt \<Rightarrow> (char_buffer \<times> 'q mqtt) option" where
  "append_networks mops mb w =
     (case get_surroundig_wifi_networks mops of
        Some scan \<Rightarrow>
          (if cfg_location (mem_config (memory w)) then do {
             let (ns, q) = scan (link w);
             mb \<leftarrow> append_detected_wifi_networks ns mb;
             Some (mb, w\<lparr>link := q\<rparr>)
           } else Some (mb, w))
      | None \<Rightarrow> Some (mb, w))"

definition append_stored :: "'q mqtt_ops \<Rightarrow> 'q mqtt \<Rightarrow> char_buffer \<Rightarrow> (u16 \<times> u16 \<times> char_buffer) option" where
  "append_stored mops w mb = do {
     let mem = memory w;
     (items, mb) \<leftarrow> (if sending_system_buffer w
        then append_system_info (platform_error_text mops) (mem_system mem) 0 mb False else Some (0, mb));
     (readings, mb) \<leftarrow> (if sending_sensor_readings_buffer w
        then append_sensor_readings (float_text mops) (sensors (mem_sensors mem)) (mem_readings mem) 0 mb False
        else Some (0, mb));
     Some (items, readings, mb)
   }"

definition encrypt_message :: "'q mqtt_ops \<Rightarrow> 'q mqtt \<Rightarrow> char_buffer \<Rightarrow> char_buffer option" where
  "encrypt_message mops w mb =
     (if cfg_ssl (mem_config (memory w)) then Some mb
      else do {
        (n, bs) \<leftarrow> mqtt_encrypt mops (bytes_of (cb_storage mb)) (circular_buffer_size mb)
                     (cfg_device_preshared_key (mem_config (memory w)));
        Some (mb\<lparr>cb_storage := chars_of bs, cb_tail := n\<rparr>)
      })"

definition compose_message :: "'q mqtt_ops \<Rightarrow> char_buffer \<Rightarrow> 'q mqtt \<Rightarrow> (char_buffer \<times> 'q mqtt) option" where
  "compose_message mops mb w =
     (case (sending_actuator w, sending_actuator_state w) of
        (Some act, Some s) \<Rightarrow> do { mb \<leftarrow> append_actuator_state act s mb; Some (mb, w) }
      | _ \<Rightarrow> do {
          mb \<leftarrow> append_rtc (mem_now (memory w)) mb;
          (mb, w) \<leftarrow> append_networks mops mb w;
          (items, readings, mb) \<leftarrow> append_stored mops w mb;
          mb \<leftarrow> encrypt_message mops w mb;
          Some (mb, w\<lparr>serialized_system_items := items, serialized_sensor_readings := readings\<rparr>)
        })"

definition send_publish :: "'q mqtt_ops \<Rightarrow> 'q mqtt_step" where
  "send_publish mops w = do {
     let w = (clear_mqtt_buffer w)\<lparr>serialized_sensor_readings := 0, serialized_system_items := 0\<rparr>;
     dev_id \<leftarrow> c_str (cfg_device_id (mem_config (memory w)));
     topic \<leftarrow> topic_text ''sensors/'' dev_id [];
     let header_size = 3 + length topic + 2;
     let room = unat MQTT_BUFFER_SIZE - header_size;
     mb \<leftarrow> circular_buffer_init NUL
       \<lparr>cb_head = 0, cb_tail = 0, cb_storage = [], cb_storage_size = 0, cb_element_size = 0,
        cb_empty = False, cb_full = False, cb_wrap = False\<rparr>
       (chars_of (drop header_size (mqtt_buffer w))) (of_nat room) 1 False True;
     (mb, w) \<leftarrow> compose_message mops mb w;
     let buffer = take header_size (mqtt_buffer w) @ bytes_of (cb_storage mb);
     (n, mid, b, packet) \<leftarrow>
       mqtt_publish_with_qos (broker w) topic 0 0 buffer (circular_buffer_size mb);
     start_sending mops n (w\<lparr>broker := b, mqtt_buffer := packet,
       message_id := (case mid of None \<Rightarrow> message_id w | Some i \<Rightarrow> i),
       stack_message_id := msg_id (mqtt_message w)\<rparr>)
   }"

definition report_sent :: "u16 \<Rightarrow> u16 \<Rightarrow> 'q mqtt \<Rightarrow> 'q mqtt" where
  "report_sent readings items w =
     (let mem = memory w;
          mem = (if sensor_readings_sent w then mem\<lparr>mem_sent_readings := readings\<rparr> else mem);
          mem = (if system_items_sent w then mem\<lparr>mem_sent_items := items\<rparr> else mem)
      in w\<lparr>memory := mem\<rparr>)"

definition state_mqtt_publish :: "'q mqtt_ops \<Rightarrow> 'q mqtt_trans \<Rightarrow> 'q mqtt handler" where
  "state_mqtt_publish mops tr e m =
     (if e = EVENT_ENTERING_STATE then processed True (lift_mqtt (send_publish mops) m)
      else if e = EVENT_COMMUNICATION_MODULE_DONE then
        (let w = take_module_result mops (world m) in
         processed True
          (if module_success mops w then
             tr STATE_MQTT_CONNECTED
               (m\<lparr>world := report_sent (serialized_sensor_readings w) (serialized_system_items w) w\<rparr>)
           else
             tr STATE_MQTT_DISCONNECTED
               (m\<lparr>world := report_sent 0 0
                  (set_mqtt_communication_protocol_error ERROR_SENDING_MQTT_MESSAGE STATE_MQTT_PUBLISH w)\<rparr>)))
      else Some (False, m))"

text \<open>
  The data of a received message is read as a C string, from its start to the first NUL of the
  buffer.
\<close>

definition extract_received_commands :: "'q mqtt_ops \<Rightarrow> 'q mqtt_step" where
  "extract_received_commands mops w =
     (if msg_data_size (mqtt_message w) = 0 then Some w
      else do {
        data \<leftarrow> msg_data (mqtt_message w);
        let mem = memory w;
        bs \<leftarrow> (if cfg_ssl (mem_config mem) then Some (drop data (mqtt_buffer w))
               else mqtt_decrypt mops (drop data (mqtt_buffer w)) (msg_data_size (mqtt_message w))
                      (cfg_device_preshared_key (mem_config mem)));
        s \<leftarrow> c_str (chars_of bs);
        sb \<leftarrow> circular_buffer_init NUL
          \<lparr>cb_head = 0, cb_tail = 0, cb_storage = [], cb_storage_size = 0, cb_element_size = 0,
           cb_empty = False, cb_full = False, cb_wrap = False\<rparr> s (of_nat (length s)) 1 False False;
        let sb = sb\<lparr>cb_head := 0, cb_tail := 0, cb_empty := False, cb_full := True\<rparr>;
        c_assert (received_commands_buffer w);
        (_, _, cb) \<leftarrow> extract_commands_from_string_buffer
          \<lparr>env_sensors = mem_sensors mem, env_actuators = [], env_junk = parser_junk mops\<rparr>
          (command_junk mops) sb (mem_commands mem);
        Some (w\<lparr>mqtt_buffer := take data (mqtt_buffer w) @ bs, memory := mem\<lparr>mem_commands := cb\<rparr>\<rparr>)
      })"

definition state_mqtt_receive_publish :: "'q mqtt_ops \<Rightarrow> 'q mqtt_trans \<Rightarrow> 'q mqtt handler" where
  "state_mqtt_receive_publish mops tr e m =
     (if e = EVENT_ENTERING_STATE then post_mqtt EVENT_MQTT_RECEIVE_PUBLISH m
      else if e = EVENT_MQTT_RECEIVE_PUBLISH then processed True (lift_mqtt (start_receiving mops) m)
      else if e = EVENT_COMMUNICATION_MODULE_DONE then
        (let m = m\<lparr>world := take_module_result mops (world m)\<rparr> in
         if module_success mops (world m) then do {
           (complete, w) \<leftarrow> mqtt_parse_message (world m);
           let m = m\<lparr>world := w\<rparr>;
           (if complete then
              (let ty = msg_type (mqtt_message w) in
               if ty = MQTT_MSG_PUBLISH then
                 processed True (do {
                   m \<leftarrow> lift_mqtt (extract_received_commands mops) m;
                   tr STATE_MQTT_CONNECTED m
                 })
               else if ty = MQTT_MSG_PUBACK then processed True (tr STATE_MQTT_RECEIVE_PUBLISH m)
               else if ty = MQTT_MSG_PUBREC then processed True (tr STATE_MQTT_SEND_PUBREL m)
               else if ty = MQTT_MSG_PUBCOMP then processed True (tr STATE_MQTT_RECEIVE_PUBLISH m)
               else post_mqtt EVENT_MQTT_RECEIVE_PUBLISH m)
            else processed True (tr STATE_MQTT_PING m))
         } else receive_failed tr STATE_MQTT_RECEIVE_PUBLISH STATE_MQTT_DISCONNECTED m)
      else Some (False, m))"

definition state_mqtt_receive_puback :: "'q mqtt_ops \<Rightarrow> 'q mqtt_trans \<Rightarrow> 'q mqtt handler" where
  "state_mqtt_receive_puback mops tr e m =
     (if e = EVENT_ENTERING_STATE then post_mqtt EVENT_MQTT_RECEIVE_PUBACK m
      else if e = EVENT_MQTT_RECEIVE_PUBACK then processed True (lift_mqtt (start_receiving mops) m)
      else if e = EVENT_COMMUNICATION_MODULE_DONE then
        answer_received mops tr STATE_MQTT_RECEIVE_PUBACK MQTT_MSG_PUBACK EVENT_MQTT_RECEIVE_PUBACK
          STATE_MQTT_CONNECTED m
      else Some (False, m))"

text \<open>Another packet makes this state post the event of \<open>PUBACK\<close>.\<close>

definition state_mqtt_receive_pubrec :: "'q mqtt_ops \<Rightarrow> 'q mqtt_trans \<Rightarrow> 'q mqtt handler" where
  "state_mqtt_receive_pubrec mops tr e m =
     (if e = EVENT_ENTERING_STATE then post_mqtt EVENT_MQTT_RECEIVE_PUBREC m
      else if e = EVENT_MQTT_RECEIVE_PUBREC then processed True (lift_mqtt (start_receiving mops) m)
      else if e = EVENT_COMMUNICATION_MODULE_DONE then
        answer_received mops tr STATE_MQTT_RECEIVE_PUBREC MQTT_MSG_PUBREC EVENT_MQTT_RECEIVE_PUBACK
          STATE_MQTT_SEND_PUBREL m
      else Some (False, m))"

text \<open>The packet that \<open>mqtt_pubrel\<close> builds is not sent: the buffer holds zeros.\<close>

definition state_mqtt_send_pubrel :: "'q mqtt_ops \<Rightarrow> 'q mqtt_trans \<Rightarrow> 'q mqtt handler" where
  "state_mqtt_send_pubrel mops tr e m =
     (if e = EVENT_ENTERING_STATE then
        processed True (lift_mqtt (\<lambda>w.
          start_sending mops (mqtt_pubrel (stack_message_id w)) (clear_mqtt_buffer w)) m)
      else if e = EVENT_COMMUNICATION_MODULE_DONE then
        packet_sent mops tr STATE_MQTT_SEND_PUBREL STATE_MQTT_RECEIVE_PUBLISH m
      else Some (False, m))"

definition state_mqtt_receive_pubcomp :: "'q mqtt_ops \<Rightarrow> 'q mqtt_trans \<Rightarrow> 'q mqtt handler" where
  "state_mqtt_receive_pubcomp mops tr e m =
     (if e = EVENT_ENTERING_STATE then post_mqtt EVENT_MQTT_RECEIVE_PUBCOMP m
      else if e = EVENT_MQTT_RECEIVE_PUBCOMP then processed True (lift_mqtt (start_receiving mops) m)
      else if e = EVENT_COMMUNICATION_MODULE_DONE then
        answer_received mops tr STATE_MQTT_RECEIVE_PUBCOMP MQTT_MSG_PUBCOMP EVENT_MQTT_RECEIVE_PUBCOMP
          STATE_MQTT_CONNECTED m
      else Some (False, m))"

definition state_mqtt_ping :: "'q mqtt handler" where
  "state_mqtt_ping e m =
     (if e = EVENT_ENTERING_STATE then
        processed True (set_current_state m (Node STATE_MQTT_PING) (Some STATE_MQTT_SEND_PINREQ))
      else Some (False, m))"

definition send_fixed_packet ::
  "'q mqtt_ops \<Rightarrow> (u8 list \<Rightarrow> (u16 \<times> u8 list) option) \<Rightarrow> 'q mqtt_step" where
  "send_fixed_packet mops f w = do {
     let w = clear_mqtt_buffer w;
     (n, packet) \<leftarrow> f (mqtt_buffer w);
     start_sending mops n (w\<lparr>mqtt_buffer := packet\<rparr>)
   }"

definition state_mqtt_send_pingreq :: "'q mqtt_ops \<Rightarrow> 'q mqtt_trans \<Rightarrow> 'q mqtt handler" where
  "state_mqtt_send_pingreq mops tr e m =
     (if e = EVENT_ENTERING_STATE then processed True (lift_mqtt (send_fixed_packet mops mqtt_ping) m)
      else if e = EVENT_COMMUNICATION_MODULE_DONE then
        packet_sent mops tr STATE_MQTT_SEND_PINREQ STATE_MQTT_RECEIVE_PINGRESP m
      else Some (False, m))"

definition state_mqtt_receive_pingresp :: "'q mqtt_ops \<Rightarrow> 'q mqtt_trans \<Rightarrow> 'q mqtt handler" where
  "state_mqtt_receive_pingresp mops tr e m =
     (if e = EVENT_ENTERING_STATE then post_mqtt EVENT_MQTT_RECEIVE_PINGRESP m
      else if e = EVENT_MQTT_RECEIVE_PINGRESP then processed True (lift_mqtt (start_receiving mops) m)
      else if e = EVENT_COMMUNICATION_MODULE_DONE then
        (let m = m\<lparr>world := take_module_result mops (world m)\<rparr> in
         if module_success mops (world m) then do {
           (complete, w) \<leftarrow> mqtt_parse_message (world m);
           let m = m\<lparr>world := w\<rparr>;
           (if complete \<and> msg_type (mqtt_message w) = MQTT_MSG_PINGRESP
            then processed True (tr STATE_MQTT_CONNECTED m)
            else receive_failed tr STATE_MQTT_RECEIVE_PINGRESP STATE_MQTT_DISCONNECTED m)
         } else receive_failed tr STATE_MQTT_RECEIVE_PINGRESP STATE_MQTT_DISCONNECTED m)
      else Some (False, m))"

definition state_mqtt_disconnecting :: "'q mqtt_ops \<Rightarrow> 'q mqtt_trans \<Rightarrow> 'q mqtt handler" where
  "state_mqtt_disconnecting mops tr e m =
     (if e = EVENT_ENTERING_STATE then processed True (lift_mqtt (send_fixed_packet mops mqtt_disconnect) m)
      else if e = EVENT_COMMUNICATION_MODULE_DONE then
        packet_sent mops tr STATE_MQTT_DISCONNECTING STATE_MQTT_DISCONNECTED m
      else if e = EVENT_LEAVING_STATE then processed False (lift_mqtt clear_mqtt_events m)
      else Some (False, m))"

section \<open>The machine\<close>

fun mqtt_handlers :: "'q mqtt_ops \<Rightarrow> 'q mqtt_trans \<Rightarrow> 'q mqtt handlers" where
  "mqtt_handlers mops tr Root = Some (mqtt_communication_protocol_handler mops)"
| "mqtt_handlers mops tr (Node i) =
     (if i = STATE_MQTT_DISCONNECTED then Some (state_mqtt_disconnected tr)
      else if i = STATE_MQTT_CONNECTING then Some state_mqtt_connecting
      else if i = STATE_MQTT_SEND_CONNECT then Some (state_mqtt_send_connect mops tr)
      else if i = STATE_MQTT_RECEIVE_CONNACK then Some (state_mqtt_receive_connnack mops tr)
      else if i = STATE_MQTT_SEND_SUBSCRIBE then Some (state_mqtt_send_subscribe mops tr)
      else if i = STATE_MQTT_RECEIVE_SUBACK then Some (state_mqtt_receive_suback mops tr)
      else if i = STATE_MQTT_CONNECTED then Some (state_mqtt_connected tr)
      else if i = STATE_MQTT_PUBLISH then Some (state_mqtt_publish mops tr)
      else if i = STATE_MQTT_RECEIVE_PUBLISH then Some (state_mqtt_receive_publish mops tr)
      else if i = STATE_MQTT_RECEIVE_PUBACK then Some (state_mqtt_receive_puback mops tr)
      else if i = STATE_MQTT_RECEIVE_PUBREC then Some (state_mqtt_receive_pubrec mops tr)
      else if i = STATE_MQTT_SEND_PUBREL then Some (state_mqtt_send_pubrel mops tr)
      else if i = STATE_MQTT_RECEIVE_PUBCOMP then Some (state_mqtt_receive_pubcomp mops tr)
      else if i = STATE_MQTT_PING then Some state_mqtt_ping
      else if i = STATE_MQTT_SEND_PINREQ then Some (state_mqtt_send_pingreq mops tr)
      else if i = STATE_MQTT_RECEIVE_PINGRESP then Some (state_mqtt_receive_pingresp mops tr)
      else if i = STATE_MQTT_DISCONNECTING then Some (state_mqtt_disconnecting mops tr)
      else None)"

text \<open>No handler of an entered or left state starts a transition, so transitions do not nest.\<close>

definition mqtt_transition :: "'q mqtt_ops \<Rightarrow> 'q mqtt_trans" where
  "mqtt_transition mops = nested_transition (mqtt_handlers mops) 1"

definition mqtt_communinication_protocol_process :: "'q mqtt_ops \<Rightarrow> 'q mqttm \<Rightarrow> (bool \<times> 'q mqttm) option" where
  "mqtt_communinication_protocol_process mops m = do {
     r \<leftarrow> pop_event (mqtt_events (world m));
     (let m = m\<lparr>world := (world m)\<lparr>mqtt_events := snd (snd r)\<rparr>\<rparr> in
      case fst (snd r) of
        None \<Rightarrow> Some (False, m)
      | Some e \<Rightarrow> map_option (\<lambda>r. (True, snd r))
          (state_machine_process_event (mqtt_handlers mops (mqtt_transition mops)) Root (event_type e) m))
   }"

section \<open>The functions the application calls\<close>

text \<open>The arguments say which of the pointers are not null.\<close>

definition mqtt_protocol_send_sensor_readings_and_system_data :: "bool \<Rightarrow> bool \<Rightarrow> bool \<Rightarrow> bool \<Rightarrow> 'q mqtt_step" where
  "mqtt_protocol_send_sensor_readings_and_system_data readings items readings_sent items_sent w =
     add_mqtt_communication_protocol_event_type EVENT_MQTT_PUBLISH
      (clear_communication_protocol_data
        (w\<lparr>sending_sensor_readings_buffer := readings, sensor_readings_sent := readings_sent,
           sending_system_buffer := items, system_items_sent := items_sent, sending_actuator_state := None\<rparr>))"

definition mqtt_protocol_send_actuator_state :: "actuator \<Rightarrow> actuator_state \<Rightarrow> 'q mqtt_step" where
  "mqtt_protocol_send_actuator_state act s w =
     add_mqtt_communication_protocol_event_type EVENT_MQTT_PUBLISH
      (clear_communication_protocol_data
        (w\<lparr>sending_actuator := Some act, sending_actuator_state := Some s,
           sending_sensor_readings_buffer := False, sensor_readings_sent := False,
           sending_system_buffer := False, system_items_sent := False\<rparr>))"

definition mqtt_protocol_receive_commands :: "bool \<Rightarrow> 'q mqtt_step" where
  "mqtt_protocol_receive_commands commands w =
     map_option clear_communication_protocol_data
      (add_mqtt_communication_protocol_event_type EVENT_MQTT_RECEIVE_PUBLISH
        (w\<lparr>received_commands_buffer := commands\<rparr>))"

definition mqtt_protocol_disconnect :: "'q mqtt_step" where
  "mqtt_protocol_disconnect w =
     add_mqtt_communication_protocol_event_type EVENT_MQTT_DISCONNECT (clear_communication_protocol_data w)"

definition get_mqtt_communication_result :: "'q mqtt \<Rightarrow> communication_protocol_type_data" where
  "get_mqtt_communication_result w = mqtt_result w"

fun init_mqtt_states :: "(nat \<times> node \<times> nat option) list \<Rightarrow> 'q mqttm \<Rightarrow> 'q mqttm option" where
  "init_mqtt_states [] m = Some m"
| "init_mqtt_states ((i, parent, initial) # xs) m = do {
     m \<leftarrow> state_machine_init_state m i parent initial;
     init_mqtt_states xs m
   }"

text \<open>The configuration is that of the application, loaded with the functions of \<open>config.c\<close>; the
  memory of the module gets it when an operation starts.\<close>

definition mqtt_protocol_init ::
  "'p platform_ops \<Rightarrow> u16 \<Rightarrow> 'p app \<times> 'q mqttm \<Rightarrow> ('p app \<times> 'q mqttm) option" where
  "mqtt_protocol_init ops event_size am = do {
     let (a, m) = am;
     eb \<leftarrow> circular_buffer_init \<lparr>event_type = 0, event_timestamp = 0\<rparr> (mqtt_events (world m))
             (cb_storage (mqtt_events (world m))) 10 event_size True True;
     let m = m\<lparr>world := clear_mqtt_buffer ((world m)\<lparr>mqtt_events := eb\<rparr>)\<rparr>;
     let a = snd (load_location_status ops (snd (load_device_preshared_key ops (snd (load_device_id ops a)))));
     m \<leftarrow> init_mqtt_states
       [(STATE_MQTT_DISCONNECTED, Root, None),
        (STATE_MQTT_CONNECTING, Root, Some STATE_MQTT_SEND_CONNECT),
        (STATE_MQTT_SEND_CONNECT, Node STATE_MQTT_CONNECTING, None),
        (STATE_MQTT_RECEIVE_CONNACK, Node STATE_MQTT_CONNECTING, None),
        (STATE_MQTT_SEND_SUBSCRIBE, Node STATE_MQTT_CONNECTING, None),
        (STATE_MQTT_RECEIVE_SUBACK, Node STATE_MQTT_CONNECTING, None),
        (STATE_MQTT_CONNECTED, Root, None),
        (STATE_MQTT_PUBLISH, Node STATE_MQTT_CONNECTED, None),
        (STATE_MQTT_RECEIVE_PUBLISH, Node STATE_MQTT_CONNECTED, None),
        (STATE_MQTT_RECEIVE_PUBACK, Node STATE_MQTT_CONNECTED, None),
        (STATE_MQTT_RECEIVE_PUBREC, Node STATE_MQTT_CONNECTED, None),
        (STATE_MQTT_SEND_PUBREL, Node STATE_MQTT_CONNECTED, None),
        (STATE_MQTT_RECEIVE_PUBCOMP, Node STATE_MQTT_CONNECTED, None),
        (STATE_MQTT_PING, Node STATE_MQTT_CONNECTED, None),
        (STATE_MQTT_SEND_PINREQ, Node STATE_MQTT_PING, None),
        (STATE_MQTT_RECEIVE_PINGRESP, Node STATE_MQTT_PING, None),
        (STATE_MQTT_DISCONNECTING, Root, None)]
       (m\<lparr>root_current := Some STATE_MQTT_DISCONNECTED\<rparr>);
     Some (a, m)
   }"

end
