(* ===== verification/Mqtt_Machine.thy ===== *)
theory Mqtt_Machine
  imports Mqtt_States
begin

text \<open>
  The tree of the MQTT machine, that every event keeps it (through the interface of
  \<^theory_text>\<open>State_Machine\<close>), and what its transitions do.
\<close>

section \<open>The tree\<close>

abbreviation "connecting_states \<equiv> {STATE_MQTT_SEND_CONNECT, STATE_MQTT_RECEIVE_CONNACK,
  STATE_MQTT_SEND_SUBSCRIBE, STATE_MQTT_RECEIVE_SUBACK}"

abbreviation "connected_states \<equiv> {STATE_MQTT_PUBLISH, STATE_MQTT_RECEIVE_PUBLISH, STATE_MQTT_RECEIVE_PUBACK,
  STATE_MQTT_RECEIVE_PUBREC, STATE_MQTT_SEND_PUBREL, STATE_MQTT_RECEIVE_PUBCOMP}"

abbreviation "ping_states \<equiv> {STATE_MQTT_SEND_PINREQ, STATE_MQTT_RECEIVE_PINGRESP}"

abbreviation "top_states \<equiv> {STATE_MQTT_DISCONNECTED, STATE_MQTT_CONNECTING, STATE_MQTT_CONNECTED, STATE_MQTT_DISCONNECTING}"

definition mqtt_parents :: "node list" where
  "mqtt_parents = [Root, Root, Node STATE_MQTT_CONNECTING, Node STATE_MQTT_CONNECTING, Node STATE_MQTT_CONNECTING,
     Node STATE_MQTT_CONNECTING, Root, Node STATE_MQTT_CONNECTED, Node STATE_MQTT_CONNECTED,
     Node STATE_MQTT_CONNECTED, Node STATE_MQTT_CONNECTED, Node STATE_MQTT_CONNECTED, Node STATE_MQTT_CONNECTED,
     Node STATE_MQTT_CONNECTED, Node STATE_MQTT_PING, Node STATE_MQTT_PING, Root]"

definition mqtt_tree :: "nat \<Rightarrow> nat \<Rightarrow> nat option \<Rightarrow> nat option \<Rightarrow> 'q mqtt \<Rightarrow> 'q mqttm" where
  "mqtt_tree r c k p w = \<lparr>root_current = Some r,
     state_current = [None, Some c, None, None, None, None, k, None, None, None, None, None, None, p, None, None, None],
     state_parent = mqtt_parents, world = w\<rparr>"

lemma mqtt_tree_simps [simp]:
  "world (mqtt_tree r c k p w) = w"
  "(mqtt_tree r c k p w)\<lparr>world := w'\<rparr> = mqtt_tree r c k p w'"
  "root_current (mqtt_tree r c k p w) = Some r"
  "state_parent (mqtt_tree r c k p w) = mqtt_parents"
  by (simp_all add: mqtt_tree_def)

lemma lift_mqtt_tree [simp]:
  "lift_mqtt f (mqtt_tree r c k p w) = map_option (mqtt_tree r c k p) (f w)"
  by (simp add: lift_mqtt_def)

lemma mqtt_tree_current [simp]:
  "current_state (mqtt_tree r c k p w) Root = Some (Some r)"
  "current_state (mqtt_tree r c k p w) (Node STATE_MQTT_CONNECTING) = Some (Some c)"
  "current_state (mqtt_tree r c k p w) (Node STATE_MQTT_CONNECTED) = Some k"
  "current_state (mqtt_tree r c k p w) (Node STATE_MQTT_PING) = Some p"
  "current_state (mqtt_tree r c k p w) (Node STATE_MQTT_DISCONNECTED) = Some None"
  "current_state (mqtt_tree r c k p w) (Node STATE_MQTT_DISCONNECTING) = Some None"
  by (simp_all add: mqtt_tree_def mqtt_state_defs eval_nat_numeral)

lemma mqtt_tree_leaf [simp]:
  "s \<in> connecting_states \<Longrightarrow> current_state (mqtt_tree r c k p w) (Node s) = Some None"
  "s \<in> connected_states \<Longrightarrow> current_state (mqtt_tree r c k p w) (Node s) = Some None"
  "s \<in> ping_states \<Longrightarrow> current_state (mqtt_tree r c k p w) (Node s) = Some None"
  by (auto simp: mqtt_tree_def mqtt_state_defs eval_nat_numeral)

lemma mqtt_tree_set_current [simp]:
  "(mqtt_tree r c k p w)\<lparr>root_current := Some r'\<rparr> = mqtt_tree r' c k p w"
  "set_current_state (mqtt_tree r c k p w) (Node STATE_MQTT_CONNECTING) (Some c') = Some (mqtt_tree r c' k p w)"
  "set_current_state (mqtt_tree r c k p w) (Node STATE_MQTT_CONNECTED) k' = Some (mqtt_tree r c k' p w)"
  "set_current_state (mqtt_tree r c k p w) (Node STATE_MQTT_PING) p' = Some (mqtt_tree r c k p' w)"
  by (simp_all add: mqtt_tree_def mqtt_state_defs eval_nat_numeral)

declare current_state.simps(2) [simp del] set_current_state.simps(2) [simp del]

lemma mqtt_parents_nth [simp]:
  "t \<in> top_states \<Longrightarrow> array_get mqtt_parents t = Some Root"
  "t \<in> connecting_states \<Longrightarrow> array_get mqtt_parents t = Some (Node STATE_MQTT_CONNECTING)"
  "t \<in> connected_states \<Longrightarrow> array_get mqtt_parents t = Some (Node STATE_MQTT_CONNECTED)"
  "array_get mqtt_parents STATE_MQTT_PING = Some (Node STATE_MQTT_CONNECTED)"
  "t \<in> ping_states \<Longrightarrow> array_get mqtt_parents t = Some (Node STATE_MQTT_PING)"
  by (auto simp: mqtt_parents_def array_get_def mqtt_state_defs eval_nat_numeral)

text \<open>The machine at a leaf.  Children of states that are not active do not matter.\<close>

definition top_state :: "nat \<Rightarrow> nat" where
  "top_state s = (if s \<in> connecting_states then STATE_MQTT_CONNECTING
     else if s \<in> connected_states \<or> s \<in> ping_states then STATE_MQTT_CONNECTED else s)"

abbreviation "mqtt_leaves \<equiv> {STATE_MQTT_DISCONNECTED, STATE_MQTT_SEND_CONNECT, STATE_MQTT_RECEIVE_CONNACK,
  STATE_MQTT_SEND_SUBSCRIBE, STATE_MQTT_RECEIVE_SUBACK, STATE_MQTT_CONNECTED, STATE_MQTT_PUBLISH,
  STATE_MQTT_RECEIVE_PUBLISH, STATE_MQTT_RECEIVE_PUBACK, STATE_MQTT_RECEIVE_PUBREC, STATE_MQTT_SEND_PUBREL,
  STATE_MQTT_RECEIVE_PUBCOMP, STATE_MQTT_SEND_PINREQ, STATE_MQTT_RECEIVE_PINGRESP, STATE_MQTT_DISCONNECTING}"

definition at_leaf :: "nat \<Rightarrow> 'q mqtt \<Rightarrow> 'q mqttm \<Rightarrow> bool" where
  "at_leaf s w m \<longleftrightarrow> s \<in> mqtt_leaves \<and> (\<exists>c k p. m = mqtt_tree (top_state s) c k p w \<and>
     (s \<in> connecting_states \<longrightarrow> c = s) \<and>
     (s = STATE_MQTT_CONNECTED \<longrightarrow> k = None) \<and>
     (s \<in> connected_states \<longrightarrow> k = Some s) \<and>
     (s \<in> ping_states \<longrightarrow> k = Some STATE_MQTT_PING \<and> p = Some s))"

lemma mqtt_states_distinct:
  "distinct [STATE_MQTT_DISCONNECTED, STATE_MQTT_CONNECTING, STATE_MQTT_SEND_CONNECT, STATE_MQTT_RECEIVE_CONNACK,
     STATE_MQTT_SEND_SUBSCRIBE, STATE_MQTT_RECEIVE_SUBACK, STATE_MQTT_CONNECTED, STATE_MQTT_PUBLISH,
     STATE_MQTT_RECEIVE_PUBLISH, STATE_MQTT_RECEIVE_PUBACK, STATE_MQTT_RECEIVE_PUBREC, STATE_MQTT_SEND_PUBREL,
     STATE_MQTT_RECEIVE_PUBCOMP, STATE_MQTT_PING, STATE_MQTT_SEND_PINREQ, STATE_MQTT_RECEIVE_PINGRESP,
     STATE_MQTT_DISCONNECTING]"
  "distinct [STATE_MQTT_DISCONNECTING, STATE_MQTT_RECEIVE_PINGRESP, STATE_MQTT_SEND_PINREQ, STATE_MQTT_PING,
     STATE_MQTT_RECEIVE_PUBCOMP, STATE_MQTT_SEND_PUBREL, STATE_MQTT_RECEIVE_PUBREC, STATE_MQTT_RECEIVE_PUBACK,
     STATE_MQTT_RECEIVE_PUBLISH, STATE_MQTT_PUBLISH, STATE_MQTT_CONNECTED, STATE_MQTT_RECEIVE_SUBACK,
     STATE_MQTT_SEND_SUBSCRIBE, STATE_MQTT_RECEIVE_CONNACK, STATE_MQTT_SEND_CONNECT, STATE_MQTT_CONNECTING,
     STATE_MQTT_DISCONNECTED]"
  by (simp_all add: mqtt_state_defs)

lemmas mqtt_state_neq [simp] = mqtt_states_distinct [simplified]

lemma mqtt_events_distinct:
  "distinct [EVENT_MQTT_DISCONNECT, EVENT_MQTT_PUBLISH, EVENT_MQTT_RECEIVE_CONNACK, EVENT_MQTT_RECEIVE_SUBACK,
     EVENT_MQTT_RECEIVE_PUBLISH, EVENT_MQTT_RECEIVE_PUBACK, EVENT_MQTT_RECEIVE_PUBREC, EVENT_MQTT_RECEIVE_PUBCOMP,
     EVENT_MQTT_RECEIVE_PINGRESP, EVENT_COMMUNICATION_MODULE_PROCESS, EVENT_COMMUNICATION_MODULE_DONE,
     EVENT_ENTERING_STATE, EVENT_LEAVING_STATE]"
  "distinct [EVENT_LEAVING_STATE, EVENT_ENTERING_STATE, EVENT_COMMUNICATION_MODULE_DONE,
     EVENT_COMMUNICATION_MODULE_PROCESS, EVENT_MQTT_RECEIVE_PINGRESP, EVENT_MQTT_RECEIVE_PUBCOMP,
     EVENT_MQTT_RECEIVE_PUBREC, EVENT_MQTT_RECEIVE_PUBACK, EVENT_MQTT_RECEIVE_PUBLISH, EVENT_MQTT_RECEIVE_SUBACK,
     EVENT_MQTT_RECEIVE_CONNACK, EVENT_MQTT_PUBLISH, EVENT_MQTT_DISCONNECT]"
  by (simp_all add: mqtt_event_defs)

lemmas mqtt_event_neq [simp] = mqtt_events_distinct [simplified]

section \<open>Transitions\<close>

lemmas mqtt_handler_defs = state_mqtt_disconnected_def state_mqtt_connecting_def state_mqtt_send_connect_def
  state_mqtt_receive_connnack_def state_mqtt_send_subscribe_def state_mqtt_receive_suback_def
  state_mqtt_connected_def state_mqtt_publish_def state_mqtt_receive_publish_def state_mqtt_receive_puback_def
  state_mqtt_receive_pubrec_def state_mqtt_send_pubrel_def state_mqtt_receive_pubcomp_def state_mqtt_ping_def
  state_mqtt_send_pingreq_def state_mqtt_receive_pingresp_def state_mqtt_disconnecting_def

lemma mqtt_handlers_at [simp]:
  "mqtt_handlers mops tr (Node STATE_MQTT_DISCONNECTED) = Some (state_mqtt_disconnected tr)"
  "mqtt_handlers mops tr (Node STATE_MQTT_CONNECTING) = Some state_mqtt_connecting"
  "mqtt_handlers mops tr (Node STATE_MQTT_SEND_CONNECT) = Some (state_mqtt_send_connect mops tr)"
  "mqtt_handlers mops tr (Node STATE_MQTT_RECEIVE_CONNACK) = Some (state_mqtt_receive_connnack mops tr)"
  "mqtt_handlers mops tr (Node STATE_MQTT_SEND_SUBSCRIBE) = Some (state_mqtt_send_subscribe mops tr)"
  "mqtt_handlers mops tr (Node STATE_MQTT_RECEIVE_SUBACK) = Some (state_mqtt_receive_suback mops tr)"
  "mqtt_handlers mops tr (Node STATE_MQTT_CONNECTED) = Some (state_mqtt_connected tr)"
  "mqtt_handlers mops tr (Node STATE_MQTT_PUBLISH) = Some (state_mqtt_publish mops tr)"
  "mqtt_handlers mops tr (Node STATE_MQTT_RECEIVE_PUBLISH) = Some (state_mqtt_receive_publish mops tr)"
  "mqtt_handlers mops tr (Node STATE_MQTT_RECEIVE_PUBACK) = Some (state_mqtt_receive_puback mops tr)"
  "mqtt_handlers mops tr (Node STATE_MQTT_RECEIVE_PUBREC) = Some (state_mqtt_receive_pubrec mops tr)"
  "mqtt_handlers mops tr (Node STATE_MQTT_SEND_PUBREL) = Some (state_mqtt_send_pubrel mops tr)"
  "mqtt_handlers mops tr (Node STATE_MQTT_RECEIVE_PUBCOMP) = Some (state_mqtt_receive_pubcomp mops tr)"
  "mqtt_handlers mops tr (Node STATE_MQTT_PING) = Some state_mqtt_ping"
  "mqtt_handlers mops tr (Node STATE_MQTT_SEND_PINREQ) = Some (state_mqtt_send_pingreq mops tr)"
  "mqtt_handlers mops tr (Node STATE_MQTT_RECEIVE_PINGRESP) = Some (state_mqtt_receive_pingresp mops tr)"
  "mqtt_handlers mops tr (Node STATE_MQTT_DISCONNECTING) = Some (state_mqtt_disconnecting mops tr)"
  by simp_all

declare mqtt_handlers.simps(2) [simp del]

text \<open>Leaving changes only the state that sends the disconnect packet.\<close>

lemma leaving_handler:
  assumes "s \<in> mqtt_leaves \<or> s \<in> {STATE_MQTT_CONNECTING, STATE_MQTT_PING}" "s \<noteq> STATE_MQTT_DISCONNECTING"
  obtains h where "mqtt_handlers mops tr (Node s) = Some h" "\<And>m. h EVENT_LEAVING_STATE m = Some (False, m)"
  using assms by (elim disjE insertE emptyE) (auto simp: mqtt_handler_defs)

definition leave_leaf :: "nat \<Rightarrow> 'q mqtt_step" where
  "leave_leaf s w = (if s = STATE_MQTT_DISCONNECTING then clear_mqtt_events w else Some w)"

lemma leaving_leaf:
  assumes "s \<in> mqtt_leaves" "s \<noteq> STATE_MQTT_DISCONNECTING" "current_state m (Node s) = Some None"
  shows "state_machine_process_event (mqtt_handlers mops tr) (Node s) EVENT_LEAVING_STATE m = Some (False, m)"
proof -
  obtain h where "mqtt_handlers mops tr (Node s) = Some h" "\<And>m. h EVENT_LEAVING_STATE m = Some (False, m)"
    by (rule leaving_handler [of s mops tr]) (use assms(1,2) in simp_all)
  with assms(3) show ?thesis by (simp add: process_event_leaf)
qed

lemma leaving_inner:
  assumes "n \<in> {STATE_MQTT_CONNECTING, STATE_MQTT_CONNECTED, STATE_MQTT_PING}"
    and "current_state m (Node n) = Some (Some i)"
    and "state_machine_process_event (mqtt_handlers mops tr) (Node i) EVENT_LEAVING_STATE m = Some (False, m)"
  shows "state_machine_process_event (mqtt_handlers mops tr) (Node n) EVENT_LEAVING_STATE m = Some (False, m)"
proof -
  obtain h where "mqtt_handlers mops tr (Node n) = Some h" "\<And>m. h EVENT_LEAVING_STATE m = Some (False, m)"
    by (rule leaving_handler [of n mops tr]) (use assms(1) in auto)
  with assms(2,3) show ?thesis by (simp add: process_event_inner)
qed

text \<open>The path from the active top state to the leaf is left as a whole.\<close>

lemma leaving_ping:
  assumes "s \<in> ping_states"
  shows "state_machine_process_event (mqtt_handlers mops tr) (Node STATE_MQTT_PING) EVENT_LEAVING_STATE
    (mqtt_tree r c k (Some s) w) = Some (False, mqtt_tree r c k (Some s) w)"
  by (rule leaving_inner [where i = s], simp, simp, rule leaving_leaf) (use assms in auto)

lemma leaving_connected:
  assumes "s \<in> connected_states \<or> s \<in> ping_states"
    and "k = Some (if s \<in> ping_states then STATE_MQTT_PING else s)" "s \<in> ping_states \<longrightarrow> p = Some s"
  shows "state_machine_process_event (mqtt_handlers mops tr) (Node (the k)) EVENT_LEAVING_STATE
    (mqtt_tree r c k p w) = Some (False, mqtt_tree r c k p w)"
proof (cases "s \<in> ping_states")
  case True
  with assms(2,3) have "k = Some STATE_MQTT_PING" "p = Some s" by (simp_all only: simp_thms if_True)
  with leaving_ping [OF True] show ?thesis by simp
next
  case False
  with assms show ?thesis by (auto intro!: leaving_leaf)
qed

lemma leaving_top:
  assumes "at_leaf s w m"
  shows "state_machine_process_event (mqtt_handlers mops tr) (Node (top_state s)) EVENT_LEAVING_STATE m =
    map_option (\<lambda>w. (False, m\<lparr>world := w\<rparr>)) (leave_leaf s w)"
proof -
  from assms obtain c k p where m: "m = mqtt_tree (top_state s) c k p w" and s: "s \<in> mqtt_leaves"
    "s \<in> connecting_states \<longrightarrow> c = s" "s = STATE_MQTT_CONNECTED \<longrightarrow> k = None"
    "s \<in> connected_states \<longrightarrow> k = Some s" "s \<in> ping_states \<longrightarrow> k = Some STATE_MQTT_PING \<and> p = Some s"
    unfolding at_leaf_def by (elim conjE exE)
  consider "s = STATE_MQTT_DISCONNECTED" | "s \<in> connecting_states" | "s = STATE_MQTT_CONNECTED"
    | "s \<in> connected_states \<or> s \<in> ping_states" | "s = STATE_MQTT_DISCONNECTING" using s(1) by blast
  then show ?thesis
  proof cases
    case 2
    have "state_machine_process_event (mqtt_handlers mops tr) (Node s) EVENT_LEAVING_STATE m = Some (False, m)"
      by (rule leaving_leaf) (use 2 s(1) in \<open>auto simp only: m mqtt_tree_leaf mqtt_state_neq\<close>)
    moreover have "current_state m (Node STATE_MQTT_CONNECTING) = Some (Some s)"
      using 2 s(2) by (simp only: m mqtt_tree_current simp_thms)
    ultimately have "state_machine_process_event (mqtt_handlers mops tr) (Node STATE_MQTT_CONNECTING) EVENT_LEAVING_STATE m
        = Some (False, m)"
      using leaving_inner by blast
    moreover have "top_state s = STATE_MQTT_CONNECTING" "s \<noteq> STATE_MQTT_DISCONNECTING"
      using 2 by (auto simp only: top_state_def mqtt_state_neq if_True)
    ultimately show ?thesis by (simp add: leave_leaf_def m)
  next
    case 4
    let ?k = "if s \<in> ping_states then STATE_MQTT_PING else s"
    have "state_machine_process_event (mqtt_handlers mops tr) (Node (the k)) EVENT_LEAVING_STATE m = Some (False, m)"
      unfolding m by (rule leaving_connected [OF 4]) (use 4 s(4,5) in \<open>auto simp only: mqtt_state_neq split: if_splits\<close>)
    moreover have "k = Some (the k)" using 4 s(4,5) by (auto simp only: option.sel)
    then have "current_state m (Node STATE_MQTT_CONNECTED) = Some (Some (the k))"
      by (simp only: m mqtt_tree_current)
    ultimately have "state_machine_process_event (mqtt_handlers mops tr) (Node STATE_MQTT_CONNECTED) EVENT_LEAVING_STATE m
        = Some (False, m)"
      using leaving_inner by blast
    moreover have "top_state s = STATE_MQTT_CONNECTED" "s \<noteq> STATE_MQTT_DISCONNECTING"
      using 4 by (auto simp: top_state_def)
    ultimately show ?thesis by (simp add: leave_leaf_def m)
  next
    case 5
    then show ?thesis
      by (simp add: top_state_def m process_event_leaf state_mqtt_disconnecting_def leave_leaf_def processed_def
          option.map_comp comp_def)
  qed (use s in \<open>simp_all add: top_state_def m process_event_leaf leave_leaf_def mqtt_handler_defs\<close>)
qed

text \<open>Entering a leaf starts its operation, or posts the event for which it waits.\<close>

definition awaited_event :: "nat \<Rightarrow> u8" where
  "awaited_event s =
     (if s = STATE_MQTT_RECEIVE_CONNACK then EVENT_MQTT_RECEIVE_CONNACK
      else if s = STATE_MQTT_RECEIVE_SUBACK then EVENT_MQTT_RECEIVE_SUBACK
      else if s = STATE_MQTT_RECEIVE_PUBLISH then EVENT_MQTT_RECEIVE_PUBLISH
      else if s = STATE_MQTT_RECEIVE_PUBACK then EVENT_MQTT_RECEIVE_PUBACK
      else if s = STATE_MQTT_RECEIVE_PUBREC then EVENT_MQTT_RECEIVE_PUBREC
      else if s = STATE_MQTT_RECEIVE_PUBCOMP then EVENT_MQTT_RECEIVE_PUBCOMP
      else EVENT_MQTT_RECEIVE_PINGRESP)"

definition enter_leaf :: "'q mqtt_ops \<Rightarrow> nat \<Rightarrow> 'q mqtt_step" where
  "enter_leaf mops t w =
     (if t = STATE_MQTT_DISCONNECTED then clear_mqtt_events w
      else if t = STATE_MQTT_SEND_CONNECT then send_connect mops w
      else if t = STATE_MQTT_SEND_SUBSCRIBE then send_subscribe mops w
      else if t = STATE_MQTT_CONNECTED then Some w
      else if t = STATE_MQTT_PUBLISH then send_publish mops w
      else if t = STATE_MQTT_SEND_PUBREL then
        start_sending mops (mqtt_pubrel (stack_message_id w)) (clear_mqtt_buffer w)
      else if t = STATE_MQTT_SEND_PINREQ then send_fixed_packet mops mqtt_ping w
      else if t = STATE_MQTT_DISCONNECTING then send_fixed_packet mops mqtt_disconnect w
      else add_mqtt_communication_protocol_event_type (awaited_event t) w)"

lemma entering_leaf:
  assumes "t \<in> mqtt_leaves" "t \<noteq> STATE_MQTT_CONNECTED"
  shows "run_handler (mqtt_handlers mops tr) (Node t) EVENT_ENTERING_STATE (mqtt_tree r c k p w) =
    map_option (mqtt_tree r c k p) (enter_leaf mops t w)"
  using assms
  by (elim insertE emptyE)
     (simp_all add: run_handler_def mqtt_handler_defs processed_def post_mqtt_def enter_leaf_def awaited_event_def
       option.map_comp comp_def)

lemma entering_inner:
  "run_handler (mqtt_handlers mops tr) (Node STATE_MQTT_CONNECTING) EVENT_ENTERING_STATE (mqtt_tree r c k p w) =
     Some (mqtt_tree r STATE_MQTT_SEND_CONNECT k p w)"
  "run_handler (mqtt_handlers mops tr) (Node STATE_MQTT_CONNECTED) EVENT_ENTERING_STATE (mqtt_tree r c k p w) =
     Some (mqtt_tree r c None p w)"
  "run_handler (mqtt_handlers mops tr) (Node STATE_MQTT_PING) EVENT_ENTERING_STATE (mqtt_tree r c k p w) =
     Some (mqtt_tree r c k (Some STATE_MQTT_SEND_PINREQ) w)"
  by (simp_all add: run_handler_def mqtt_handler_defs processed_def)

lemma mqtt_entering_children:
  assumes "\<And>w. current_state (T w) n = Some None"
  shows "map_option T x \<bind> enter_children H n = map_option T x"
  by (cases x) (simp_all add: enter_children_leaf assms)

definition mqtt_move :: "'q mqtt_ops \<Rightarrow> nat \<Rightarrow> nat \<Rightarrow> 'q mqtt_step" where
  "mqtt_move mops s t w = do { w \<leftarrow> leave_leaf s w; enter_leaf mops t w }"

lemma top_state [simp]:
  "s \<in> connecting_states \<Longrightarrow> top_state s = STATE_MQTT_CONNECTING"
  "s \<in> connected_states \<Longrightarrow> top_state s = STATE_MQTT_CONNECTED"
  "s \<in> ping_states \<Longrightarrow> top_state s = STATE_MQTT_CONNECTED"
  by (auto simp: top_state_def)

lemma at_connecting:
  assumes "at_leaf s w m" "s \<in> connecting_states"
  obtains k p where "m = mqtt_tree STATE_MQTT_CONNECTING s k p w"
  using assms top_state(1) [OF assms(2)] unfolding at_leaf_def by metis

lemma at_ping:
  assumes "at_leaf s w m" "s \<in> ping_states"
  obtains c where "m = mqtt_tree STATE_MQTT_CONNECTED c (Some STATE_MQTT_PING) (Some s) w"
  using assms top_state(3) [OF assms(2)] unfolding at_leaf_def by metis

lemma at_leaf_intros:
  "s \<in> connecting_states \<Longrightarrow> at_leaf s w (mqtt_tree STATE_MQTT_CONNECTING s k p w)"
  "at_leaf STATE_MQTT_CONNECTED w (mqtt_tree STATE_MQTT_CONNECTED c None p w)"
  "s \<in> connected_states \<Longrightarrow> at_leaf s w (mqtt_tree STATE_MQTT_CONNECTED c (Some s) p w)"
  "s \<in> ping_states \<Longrightarrow> at_leaf s w (mqtt_tree STATE_MQTT_CONNECTED c (Some STATE_MQTT_PING) (Some s) w)"
  "at_leaf STATE_MQTT_DISCONNECTED w (mqtt_tree STATE_MQTT_DISCONNECTED c k p w)"
  "at_leaf STATE_MQTT_DISCONNECTING w (mqtt_tree STATE_MQTT_DISCONNECTING c k p w)"
proof -
  show "at_leaf s w (mqtt_tree STATE_MQTT_CONNECTING s k p w)" if "s \<in> connecting_states"
    using that by (elim insertE emptyE; simp add: at_leaf_def top_state_def; blast)
  show "at_leaf s w (mqtt_tree STATE_MQTT_CONNECTED c (Some s) p w)" if "s \<in> connected_states"
    using that by (elim insertE emptyE; simp add: at_leaf_def top_state_def; blast)
  show "at_leaf s w (mqtt_tree STATE_MQTT_CONNECTED c (Some STATE_MQTT_PING) (Some s) w)" if "s \<in> ping_states"
    using that by (elim insertE emptyE; simp add: at_leaf_def top_state_def; blast)
qed (simp add: at_leaf_def top_state_def; blast)+

text \<open>The argument of the transition that leads to a leaf, and the leaves from which it is called.\<close>

definition move_target :: "nat \<Rightarrow> nat" where
  "move_target t = (if t = STATE_MQTT_SEND_CONNECT then STATE_MQTT_CONNECTING
     else if t = STATE_MQTT_SEND_PINREQ then STATE_MQTT_PING else t)"

abbreviation "connected_leaves \<equiv> insert STATE_MQTT_CONNECTED (connected_states \<union> ping_states)"

definition may_move :: "nat \<Rightarrow> nat \<Rightarrow> bool" where
  "may_move s t \<longleftrightarrow>
     t \<in> {STATE_MQTT_DISCONNECTED, STATE_MQTT_SEND_CONNECT, STATE_MQTT_CONNECTED, STATE_MQTT_DISCONNECTING} \<or>
     (t \<in> connecting_states \<and> s \<in> connecting_states) \<or>
     (t \<in> insert STATE_MQTT_SEND_PINREQ connected_states \<and> s \<in> connected_leaves) \<or>
     (t = STATE_MQTT_RECEIVE_PINGRESP \<and> s \<in> ping_states)"

lemma may_move_cases:
  assumes "may_move s t"
  obtains (top) "t \<in> {STATE_MQTT_DISCONNECTED, STATE_MQTT_SEND_CONNECT, STATE_MQTT_CONNECTED, STATE_MQTT_DISCONNECTING}"
    | (connecting) "t \<in> connecting_states" "s \<in> connecting_states"
    | (connected) "t \<in> connected_states" "s \<in> connected_leaves"
    | (ping) "t = STATE_MQTT_SEND_PINREQ" "s \<in> connected_leaves"
    | (pingresp) "t = STATE_MQTT_RECEIVE_PINGRESP" "s \<in> ping_states"
proof -
  from assms show thesis
    unfolding may_move_def
    using that by (elim disjE conjE insertE [of t STATE_MQTT_SEND_PINREQ connected_states]) assumption+
qed

lemma move_to_top:
  assumes m: "at_leaf s w m"
    and t: "t \<in> {STATE_MQTT_DISCONNECTED, STATE_MQTT_SEND_CONNECT, STATE_MQTT_CONNECTED, STATE_MQTT_DISCONNECTING}"
  obtains T where "\<And>w. at_leaf t w (T w)"
    "nested_transition (mqtt_handlers mops) (Suc n) (move_target t) m = map_option T (mqtt_move mops s t w)"
proof -
  from m obtain c k p where tree: "m = mqtt_tree (top_state s) c k p w" unfolding at_leaf_def by blast
  note left = leaving_top [OF m, of mops "nested_transition (mqtt_handlers mops) n", unfolded tree]
  note unfolds = nested_transition.simps state_machine_transition_def mqtt_move_def move_target_def tree
  let ?T = "if t = STATE_MQTT_SEND_CONNECT then mqtt_tree STATE_MQTT_CONNECTING STATE_MQTT_SEND_CONNECT k p
    else if t = STATE_MQTT_CONNECTED then mqtt_tree t c None p else mqtt_tree t c k p"
  have "at_leaf t w (?T w)" for w
    using t by (elim insertE emptyE) (simp_all add: at_leaf_intros)
  moreover from t have "nested_transition (mqtt_handlers mops) (Suc n) (move_target t) m = map_option ?T (mqtt_move mops s t w)"
  proof (elim insertE emptyE)
    assume "t = STATE_MQTT_SEND_CONNECT"
    then show ?thesis
      by (cases "leave_leaf s w")
         (simp_all add: unfolds left entering_inner entering_leaf enter_children_inner mqtt_entering_children)
  next
    assume "t = STATE_MQTT_CONNECTED"
    then show ?thesis
      by (cases "leave_leaf s w")
         (simp_all add: unfolds left entering_inner enter_children_leaf enter_leaf_def)
  qed (cases "leave_leaf s w"; simp add: unfolds left entering_leaf mqtt_entering_children)+
  ultimately show thesis by (rule that)
qed

lemma leaving_below_connected:
  assumes m: "at_leaf s w m" and s: "s \<in> connected_leaves"
  obtains c k p where "m = mqtt_tree STATE_MQTT_CONNECTED c k p w"
    "(case k of None \<Rightarrow> Some m
      | Some i \<Rightarrow> map_option snd (state_machine_process_event (mqtt_handlers mops tr) (Node i) EVENT_LEAVING_STATE m)) = Some m"
proof -
  from m obtain c k p where tree: "m = mqtt_tree (top_state s) c k p w"
    and k: "s = STATE_MQTT_CONNECTED \<longrightarrow> k = None" "s \<in> connected_states \<longrightarrow> k = Some s"
      "s \<in> ping_states \<longrightarrow> k = Some STATE_MQTT_PING \<and> p = Some s"
    unfolding at_leaf_def by blast
  have top: "top_state s = STATE_MQTT_CONNECTED" using s by (auto simp: top_state_def)
  show thesis
  proof (cases "s = STATE_MQTT_CONNECTED")
    case True
    with k tree top that [of c None p] show ?thesis by simp
  next
    case False
    with s have s': "s \<in> connected_states \<or> s \<in> ping_states" by blast
    have "state_machine_process_event (mqtt_handlers mops tr) (Node (the k)) EVENT_LEAVING_STATE m = Some (False, m)"
      unfolding tree by (rule leaving_connected [OF s']) (use s' k(2,3) in \<open>auto simp only: mqtt_state_neq split: if_splits\<close>)
    moreover obtain i where "k = Some i" using s' k(2,3) by blast
    ultimately show ?thesis using that [of c k p] tree top by simp
  qed
qed

lemma move_below:
  assumes m: "at_leaf s w m" and t: "t \<in> mqtt_leaves" "may_move s t"
    and deep: "t \<notin> {STATE_MQTT_DISCONNECTED, STATE_MQTT_SEND_CONNECT, STATE_MQTT_CONNECTED, STATE_MQTT_DISCONNECTING}"
  obtains T where "\<And>w. at_leaf t w (T w)"
    "nested_transition (mqtt_handlers mops) (Suc n) (move_target t) m = map_option T (mqtt_move mops s t w)"
proof -
  note unfolds = nested_transition.simps state_machine_transition_def mqtt_move_def move_target_def leave_leaf_def
  have not_connect: "t \<noteq> STATE_MQTT_SEND_CONNECT" using deep by simp
  from t(2) show thesis
  proof (cases rule: may_move_cases)
    case top
    with deep show ?thesis by contradiction
  next
    case connecting
    from m connecting(2) obtain k p where tree: "m = mqtt_tree STATE_MQTT_CONNECTING s k p w"
      by (rule at_connecting)
    have leave: "state_machine_process_event (mqtt_handlers mops tr) (Node s) EVENT_LEAVING_STATE m = Some (False, m)" for tr
      by (rule leaving_leaf) (use connecting(2) in \<open>auto simp only: tree mqtt_tree_leaf mqtt_state_neq\<close>)
    have s: "s \<noteq> STATE_MQTT_DISCONNECTING" using connecting(2) by auto
    have t': "t \<noteq> STATE_MQTT_CONNECTED" "t \<noteq> STATE_MQTT_SEND_PINREQ" "t \<in> mqtt_leaves" using connecting(1) by auto
    have "at_leaf t w (mqtt_tree STATE_MQTT_CONNECTING t k p w)" for w
      by (rule at_leaf_intros(1) [OF connecting(1)])
    moreover have "nested_transition (mqtt_handlers mops) (Suc n) (move_target t) m =
        map_option (mqtt_tree STATE_MQTT_CONNECTING t k p) (mqtt_move mops s t w)"
      using not_connect s t'(1,2) leave [unfolded tree] mqtt_parents_nth(2) [OF connecting(1)]
      by (simp add: unfolds tree entering_leaf [OF t'(3)] mqtt_entering_children [OF mqtt_tree_leaf(1) [OF connecting(1)]]
            del: insert_iff)
    ultimately show ?thesis by (rule that)
  next
    case connected
    from m connected(2) obtain c k p where tree: "m = mqtt_tree STATE_MQTT_CONNECTED c k p w"
      "(case k of None \<Rightarrow> Some m
        | Some i \<Rightarrow> map_option snd (state_machine_process_event
            (mqtt_handlers mops (nested_transition (mqtt_handlers mops) n)) (Node i) EVENT_LEAVING_STATE m)) = Some m"
      by (rule leaving_below_connected)
    have s: "s \<noteq> STATE_MQTT_DISCONNECTING" using connected(2) by auto
    have t': "t \<noteq> STATE_MQTT_CONNECTED" "t \<noteq> STATE_MQTT_SEND_PINREQ" "t \<noteq> STATE_MQTT_SEND_CONNECT" "t \<in> mqtt_leaves"
      using connected(1) by auto
    have "at_leaf t w (mqtt_tree STATE_MQTT_CONNECTED c (Some t) p w)" for w
      by (rule at_leaf_intros(3) [OF connected(1)])
    moreover have "nested_transition (mqtt_handlers mops) (Suc n) (move_target t) m =
        map_option (mqtt_tree STATE_MQTT_CONNECTED c (Some t) p) (mqtt_move mops s t w)"
      using s t'(1-3) tree(2) [unfolded tree(1)] mqtt_parents_nth(3) [OF connected(1)]
      by (simp add: unfolds tree(1) entering_leaf [OF t'(4)] mqtt_entering_children [OF mqtt_tree_leaf(2) [OF connected(1)]]
            del: insert_iff)
    ultimately show ?thesis by (rule that)
  next
    case ping
    from m ping(2) obtain c k p where tree: "m = mqtt_tree STATE_MQTT_CONNECTED c k p w"
      "(case k of None \<Rightarrow> Some m
        | Some i \<Rightarrow> map_option snd (state_machine_process_event
            (mqtt_handlers mops (nested_transition (mqtt_handlers mops) n)) (Node i) EVENT_LEAVING_STATE m)) = Some m"
      by (rule leaving_below_connected)
    have s: "s \<noteq> STATE_MQTT_DISCONNECTING" using ping(2) by auto
    have "at_leaf t w (mqtt_tree STATE_MQTT_CONNECTED c (Some STATE_MQTT_PING) (Some STATE_MQTT_SEND_PINREQ) w)" for w
      using ping(1) by (simp add: at_leaf_intros)
    moreover have "nested_transition (mqtt_handlers mops) (Suc n) (move_target t) m =
        map_option (mqtt_tree STATE_MQTT_CONNECTED c (Some STATE_MQTT_PING) (Some STATE_MQTT_SEND_PINREQ))
          (mqtt_move mops s t w)"
      using s ping(1) tree(2) [unfolded tree(1)]
      by (simp add: unfolds tree(1) entering_leaf entering_inner enter_children_inner mqtt_entering_children)
    ultimately show ?thesis by (rule that)
  next
    case pingresp
    from m pingresp(2) obtain c where tree: "m = mqtt_tree STATE_MQTT_CONNECTED c (Some STATE_MQTT_PING) (Some s) w"
      by (rule at_ping)
    have leave: "state_machine_process_event (mqtt_handlers mops tr) (Node s) EVENT_LEAVING_STATE m = Some (False, m)" for tr
      by (rule leaving_leaf) (use pingresp(2) in \<open>auto simp only: tree mqtt_tree_leaf mqtt_state_neq\<close>)
    have s: "s \<noteq> STATE_MQTT_DISCONNECTING" using pingresp(2) by auto
    have "at_leaf t w (mqtt_tree STATE_MQTT_CONNECTED c (Some STATE_MQTT_PING) (Some STATE_MQTT_RECEIVE_PINGRESP) w)" for w
      using pingresp(1) by (simp add: at_leaf_intros)
    moreover have "nested_transition (mqtt_handlers mops) (Suc n) (move_target t) m =
        map_option (mqtt_tree STATE_MQTT_CONNECTED c (Some STATE_MQTT_PING) (Some STATE_MQTT_RECEIVE_PINGRESP))
          (mqtt_move mops s t w)"
      using s pingresp(1) leave [unfolded tree]
      by (simp add: unfolds tree entering_leaf mqtt_entering_children)
    ultimately show ?thesis by (rule that)
  qed
qed

end
