(* ===== verification/Mqtt_Modes.thy ===== *)
theory Mqtt_Modes
  imports Mqtt_Machine
begin

text \<open>
  What the MQTT machine promises, without its tree: the state it is in is one of fifteen leaves, and
  a table says what each event does there.  The refinement lemma says that dispatch through the
  hierarchy of the seventeen handlers is this table.
\<close>

section \<open>The table\<close>

type_synonym 'q leaf_step = "('q mqtt \<times> nat) option"

definition stay :: "nat \<Rightarrow> 'q mqtt option \<Rightarrow> 'q leaf_step" where
  "stay s r = map_option (\<lambda>w. (w, s)) r"

definition mqtt_go :: "'q mqtt_ops \<Rightarrow> nat \<Rightarrow> nat \<Rightarrow> 'q mqtt \<Rightarrow> 'q leaf_step" where
  "mqtt_go mops s t w = stay t (mqtt_move mops s t w)"

abbreviation "receive_states \<equiv> {STATE_MQTT_RECEIVE_CONNACK, STATE_MQTT_RECEIVE_SUBACK, STATE_MQTT_RECEIVE_PUBLISH,
  STATE_MQTT_RECEIVE_PUBACK, STATE_MQTT_RECEIVE_PUBREC, STATE_MQTT_RECEIVE_PUBCOMP, STATE_MQTT_RECEIVE_PINGRESP}"

abbreviation "mqtt_requests \<equiv> {EVENT_MQTT_PUBLISH, EVENT_MQTT_RECEIVE_PUBLISH, EVENT_MQTT_RECEIVE_PUBACK,
  EVENT_MQTT_RECEIVE_PUBREC, EVENT_MQTT_RECEIVE_PUBCOMP}"

definition request_state :: "u8 \<Rightarrow> nat" where
  "request_state e =
     (if e = EVENT_MQTT_PUBLISH then STATE_MQTT_PUBLISH
      else if e = EVENT_MQTT_RECEIVE_PUBLISH then STATE_MQTT_RECEIVE_PUBLISH
      else if e = EVENT_MQTT_RECEIVE_PUBACK then STATE_MQTT_RECEIVE_PUBACK
      else if e = EVENT_MQTT_RECEIVE_PUBREC then STATE_MQTT_RECEIVE_PUBREC
      else STATE_MQTT_RECEIVE_PUBCOMP)"

definition module_processing :: "'q mqtt_ops \<Rightarrow> 'q mqtt_step" where
  "module_processing mops w = do {
     h \<leftarrow> module_handle w;
     (again, buf, pos, q) \<leftarrow> module_step mops h (mqtt_buffer w) (mqtt_buffer_position w) (link w);
     add_mqtt_communication_protocol_event_type
       (if again then EVENT_COMMUNICATION_MODULE_PROCESS else EVENT_COMMUNICATION_MODULE_DONE)
       (w\<lparr>mqtt_buffer := buf, mqtt_buffer_position := pos, link := q\<rparr>)
   }"

text \<open>A packet was sent to reach the state \<open>t\<close>, or could not be sent.\<close>

definition when_sent :: "'q mqtt_ops \<Rightarrow> nat \<Rightarrow> nat \<Rightarrow> 'q mqtt \<Rightarrow> 'q leaf_step" where
  "when_sent mops s t w =
     (if module_success mops w then mqtt_go mops s t (take_module_result mops w)
      else mqtt_go mops s STATE_MQTT_DISCONNECTED
        (set_mqtt_communication_protocol_error ERROR_SENDING_MQTT_MESSAGE s (take_module_result mops w)))"

definition when_published :: "'q mqtt_ops \<Rightarrow> 'q mqtt \<Rightarrow> 'q leaf_step" where
  "when_published mops w =
     (let w' = take_module_result mops w in
      if module_success mops w then
        mqtt_go mops STATE_MQTT_PUBLISH STATE_MQTT_CONNECTED
          (report_sent (serialized_sensor_readings w') (serialized_system_items w') w')
      else mqtt_go mops STATE_MQTT_PUBLISH STATE_MQTT_DISCONNECTED
          (report_sent 0 0 (set_mqtt_communication_protocol_error ERROR_SENDING_MQTT_MESSAGE STATE_MQTT_PUBLISH w')))"

definition no_answer :: "'q mqtt_ops \<Rightarrow> nat \<Rightarrow> nat \<Rightarrow> 'q mqtt \<Rightarrow> 'q leaf_step" where
  "no_answer mops s t w =
     mqtt_go mops s t (set_mqtt_communication_protocol_error ERROR_RECEIVING_MQTT_MESSAGE s w)"

text \<open>Something was received: \<open>use\<close> gets the parsed message, \<open>t\<close> is the state when it is not complete.\<close>

definition when_received ::
  "'q mqtt_ops \<Rightarrow> nat \<Rightarrow> ('q mqtt \<Rightarrow> 'q leaf_step) \<Rightarrow> ('q mqtt \<Rightarrow> 'q leaf_step) \<Rightarrow> 'q mqtt \<Rightarrow> 'q leaf_step" where
  "when_received mops s use incomplete w =
     (let w' = take_module_result mops w in
      if module_success mops w then do {
        (complete, w) \<leftarrow> mqtt_parse_message w';
        (if complete then use w else incomplete w)
      } else no_answer mops s STATE_MQTT_DISCONNECTED w')"

definition post_again :: "nat \<Rightarrow> u8 \<Rightarrow> 'q mqtt \<Rightarrow> 'q leaf_step" where
  "post_again s e w = stay s (add_mqtt_communication_protocol_event_type e w)"

definition when_answered :: "'q mqtt_ops \<Rightarrow> nat \<Rightarrow> u8 \<Rightarrow> u8 \<Rightarrow> nat \<Rightarrow> 'q mqtt \<Rightarrow> 'q leaf_step" where
  "when_answered mops s ty retry t =
     when_received mops s
       (\<lambda>w. if msg_type (mqtt_message w) = ty then
              (if msg_id (mqtt_message w) = message_id w then mqtt_go mops s t w
               else post_again s (of_nat STATE_MQTT_DISCONNECTING)
                 (set_mqtt_communication_protocol_error ERROR_INCORRECT_MQTT_MESSAGE_RECEIVED s w))
            else post_again s retry w)
       (no_answer mops s STATE_MQTT_DISCONNECTING)"

definition when_delivered :: "'q mqtt_ops \<Rightarrow> 'q mqtt \<Rightarrow> 'q leaf_step" where
  "when_delivered mops =
     (let s = STATE_MQTT_RECEIVE_PUBLISH in when_received mops s
       (\<lambda>w. let ty = msg_type (mqtt_message w) in
            if ty = MQTT_MSG_PUBLISH then
              do { w \<leftarrow> extract_received_commands mops w; mqtt_go mops s STATE_MQTT_CONNECTED w }
            else if ty = MQTT_MSG_PUBACK \<or> ty = MQTT_MSG_PUBCOMP then mqtt_go mops s s w
            else if ty = MQTT_MSG_PUBREC then mqtt_go mops s STATE_MQTT_SEND_PUBREL w
            else post_again s EVENT_MQTT_RECEIVE_PUBLISH w)
       (mqtt_go mops s STATE_MQTT_SEND_PINREQ))"

definition module_done :: "'q mqtt_ops \<Rightarrow> nat \<Rightarrow> 'q mqtt \<Rightarrow> 'q leaf_step" where
  "module_done mops s =
     (if s = STATE_MQTT_SEND_CONNECT then when_sent mops s STATE_MQTT_RECEIVE_CONNACK
      else if s = STATE_MQTT_RECEIVE_CONNACK then
        when_received mops s
          (\<lambda>w. if msg_type (mqtt_message w) = MQTT_MSG_CONNACK then mqtt_go mops s STATE_MQTT_SEND_SUBSCRIBE w
               else post_again s EVENT_MQTT_RECEIVE_CONNACK w)
          (no_answer mops s STATE_MQTT_DISCONNECTED)
      else if s = STATE_MQTT_SEND_SUBSCRIBE then when_sent mops s STATE_MQTT_RECEIVE_SUBACK
      else if s = STATE_MQTT_RECEIVE_SUBACK then
        when_answered mops s MQTT_MSG_SUBACK EVENT_MQTT_RECEIVE_SUBACK STATE_MQTT_CONNECTED
      else if s = STATE_MQTT_PUBLISH then when_published mops
      else if s = STATE_MQTT_RECEIVE_PUBLISH then when_delivered mops
      else if s = STATE_MQTT_RECEIVE_PUBACK then
        when_answered mops s MQTT_MSG_PUBACK EVENT_MQTT_RECEIVE_PUBACK STATE_MQTT_CONNECTED
      else if s = STATE_MQTT_RECEIVE_PUBREC then
        when_answered mops s MQTT_MSG_PUBREC EVENT_MQTT_RECEIVE_PUBACK STATE_MQTT_SEND_PUBREL
      else if s = STATE_MQTT_SEND_PUBREL then when_sent mops s STATE_MQTT_RECEIVE_PUBLISH
      else if s = STATE_MQTT_RECEIVE_PUBCOMP then
        when_answered mops s MQTT_MSG_PUBCOMP EVENT_MQTT_RECEIVE_PUBCOMP STATE_MQTT_CONNECTED
      else if s = STATE_MQTT_SEND_PINREQ then when_sent mops s STATE_MQTT_RECEIVE_PINGRESP
      else if s = STATE_MQTT_RECEIVE_PINGRESP then
        when_received mops s
          (\<lambda>w. if msg_type (mqtt_message w) = MQTT_MSG_PINGRESP then mqtt_go mops s STATE_MQTT_CONNECTED w
               else no_answer mops s STATE_MQTT_DISCONNECTED w)
          (no_answer mops s STATE_MQTT_DISCONNECTED)
      else when_sent mops s STATE_MQTT_DISCONNECTED)"

fun mqtt_event :: "'q mqtt_ops \<Rightarrow> u8 \<Rightarrow> 'q mqtt \<times> nat \<Rightarrow> 'q leaf_step" where
  "mqtt_event mops e (w, s) =
     (if e = EVENT_COMMUNICATION_MODULE_PROCESS then stay s (module_processing mops w)
      else if e = EVENT_COMMUNICATION_MODULE_DONE then
        (if s = STATE_MQTT_DISCONNECTED \<or> s = STATE_MQTT_CONNECTED then Some (w, s) else module_done mops s w)
      else if s \<in> receive_states \<and> e = awaited_event s then stay s (start_receiving mops w)
      else if e \<in> mqtt_requests then
        (if s = STATE_MQTT_DISCONNECTED then
           (if mqtt_parameters_set w then do {
              w \<leftarrow> add_mqtt_communication_protocol_event_type e w;
              mqtt_go mops s STATE_MQTT_SEND_CONNECT w
            } else Some (set_mqtt_communication_protocol_error ERROR_MQTT_PARAMETERS_MISSING s w, s))
         else if s \<in> connecting_states then post_again s e w
         else if s \<in> connected_leaves then mqtt_go mops s (request_state e) w
         else Some (w, s))
      else if e = EVENT_MQTT_DISCONNECT \<and> s \<in> connected_leaves then mqtt_go mops s STATE_MQTT_DISCONNECTING w
      else Some (w, s))"

section \<open>Simulation\<close>

definition ends_at :: "(bool \<times> 'q mqttm) option \<Rightarrow> 'q leaf_step \<Rightarrow> bool" where
  "ends_at = rel_option (\<lambda>(p, m) (w, s). p \<and> at_leaf s w m)"

definition leads_to :: "(bool \<times> 'q mqttm) option \<Rightarrow> 'q leaf_step \<Rightarrow> bool" where
  "leads_to = rel_option (\<lambda>(_, m) (w, s). at_leaf s w m)"

lemma ends_at_None [simp]: "ends_at None None"
  by (simp add: ends_at_def)

lemma at_leaf_world:
  assumes "at_leaf s w m"
  shows "world m = w" "at_leaf s w' (m\<lparr>world := w'\<rparr>)"
proof -
  from assms obtain c k p where m: "m = mqtt_tree (top_state s) c k p w" and s: "s \<in> mqtt_leaves"
    "s \<in> connecting_states \<longrightarrow> c = s" "s = STATE_MQTT_CONNECTED \<longrightarrow> k = None"
    "s \<in> connected_states \<longrightarrow> k = Some s" "s \<in> ping_states \<longrightarrow> k = Some STATE_MQTT_PING \<and> p = Some s"
    unfolding at_leaf_def by (elim conjE exE)
  from m show "world m = w" by simp
  from m have "m\<lparr>world := w'\<rparr> = mqtt_tree (top_state s) c k p w'" by simp
  with s show "at_leaf s w' (m\<lparr>world := w'\<rparr>)" unfolding at_leaf_def by blast
qed

lemma mqtt_transition_to_leaf:
  assumes "at_leaf s w m" "t \<in> mqtt_leaves" "may_move s t"
  shows "ends_at (processed True (mqtt_transition mops (move_target t) m)) (mqtt_go mops s t w)"
proof -
  obtain T where "\<And>w. at_leaf t w (T w)"
    "nested_transition (mqtt_handlers mops) (Suc 0) (move_target t) m = map_option T (mqtt_move mops s t w)"
    using move_to_top [OF assms(1)] move_below [OF assms] by metis
  then show ?thesis
    by (cases "mqtt_move mops s t w") (simp_all add: ends_at_def mqtt_transition_def processed_def mqtt_go_def stay_def)
qed

lemma lift_stays:
  "at_leaf s w m \<Longrightarrow> ends_at (processed True (lift_mqtt f m)) (stay s (f w))"
  by (cases "f w") (auto simp: ends_at_def lift_mqtt_def at_leaf_world processed_def stay_def)

lemma post_stays:
  "at_leaf s w m \<Longrightarrow> ends_at (post_mqtt e m) (post_again s e w)"
  unfolding post_mqtt_def post_again_def by (rule lift_stays)

lemma ends_leads: "ends_at x y \<Longrightarrow> leads_to x y"
  unfolding ends_at_def leads_to_def by (erule option.rel_mono_strong) auto

lemma ends_chain: "ends_at x y \<Longrightarrow> (do { r \<leftarrow> x; (if \<not> fst r then f r else Some r) }) = x"
  by (cases x; cases y) (auto simp: ends_at_def)

lemma module_success_take [simp]:
  "module_success mops (take_module_result mops w) \<longleftrightarrow> module_success mops w"
  by (simp add: module_success_def take_module_result_def)

lemma move_target_self [simp]: "t \<notin> {STATE_MQTT_SEND_CONNECT, STATE_MQTT_SEND_PINREQ} \<Longrightarrow> move_target t = t"
  by (simp add: move_target_def)

lemma transition_ends:
  assumes "at_leaf s w m" "t \<in> mqtt_leaves" "may_move s t" "move_target t = t'"
  shows "ends_at (processed True (mqtt_transition mops t' (m\<lparr>world := w'\<rparr>))) (mqtt_go mops s t w')"
  using mqtt_transition_to_leaf [OF at_leaf_world(2) [OF assms(1)] assms(2,3)] assms(4) by simp

lemma may_always [simp]:
  "may_move s STATE_MQTT_DISCONNECTED" "may_move s STATE_MQTT_CONNECTED" "may_move s STATE_MQTT_DISCONNECTING"
  "may_move s STATE_MQTT_SEND_CONNECT"
  by (simp_all add: may_move_def)

lemma packet_sent_ends:
  assumes m: "at_leaf s w m" and t: "t \<in> mqtt_leaves" "may_move s t" "move_target t = t"
  shows "ends_at (packet_sent mops (mqtt_transition mops) s t m) (when_sent mops s t w)"
proof (cases "module_success mops w")
  case True
  with transition_ends [OF m t] show ?thesis by (simp add: packet_sent_def when_sent_def at_leaf_world(1) [OF m] Let_def)
next
  case False
  with transition_ends [OF m, of STATE_MQTT_DISCONNECTED] show ?thesis
    by (simp add: packet_sent_def when_sent_def at_leaf_world(1) [OF m] Let_def)
qed

lemma receive_failed_ends:
  assumes m: "at_leaf s w m" and t: "t \<in> {STATE_MQTT_DISCONNECTED, STATE_MQTT_DISCONNECTING}"
  shows "ends_at (receive_failed (mqtt_transition mops) s t m) (no_answer mops s t w)"
  unfolding receive_failed_def no_answer_def at_leaf_world(1) [OF m]
  by (rule transition_ends [OF m]) (use t in auto)

text \<open>The common frame of the states that receive.\<close>

lemma received_ends:
  assumes m: "at_leaf s w m"
    and use: "\<And>w. ends_at (f w (m\<lparr>world := w\<rparr>)) (use' w)" and incomplete: "\<And>w. ends_at (g w (m\<lparr>world := w\<rparr>)) (inc w)"
    and failed: "\<And>w. ends_at (k (m\<lparr>world := w\<rparr>)) (no_answer mops s STATE_MQTT_DISCONNECTED w)"
  shows "ends_at
    (let m = m\<lparr>world := take_module_result mops (world m)\<rparr> in
     if module_success mops (world m) then do {
       (complete, w) \<leftarrow> mqtt_parse_message (world m);
       let m = m\<lparr>world := w\<rparr>;
       (if complete then f w m else g w m)
     } else k m)
    (when_received mops s use' inc w)"
proof (cases "module_success mops w")
  case True
  show ?thesis
  proof (cases "mqtt_parse_message (take_module_result mops w)")
    case None
    with True show ?thesis by (simp add: at_leaf_world(1) [OF m] when_received_def)
  next
    case (Some r)
    with True use [of "snd r"] incomplete [of "snd r"] show ?thesis
      by (cases r) (simp add: at_leaf_world(1) [OF m] when_received_def)
  qed
next
  case False
  with failed show ?thesis by (simp add: at_leaf_world(1) [OF m] when_received_def)
qed

lemma answer_received_ends:
  assumes m: "at_leaf s w m" and t: "t \<in> mqtt_leaves" "may_move s t" "move_target t = t"
  shows "ends_at (answer_received mops (mqtt_transition mops) s ty retry t m) (when_answered mops s ty retry t w)"
proof -
  note m' = at_leaf_world(2) [OF m]
  show ?thesis
    unfolding answer_received_def when_answered_def
    by (rule received_ends [OF m])
       (auto intro: transition_ends [OF m t] post_stays [OF m'] receive_failed_ends [OF m'] 
          post_stays [OF at_leaf_world(2) [OF m'], simplified])
qed

lemma mqtt_msgs_distinct:
  "distinct [MQTT_MSG_CONNACK, MQTT_MSG_PUBLISH, MQTT_MSG_PUBACK, MQTT_MSG_PUBREC, MQTT_MSG_PUBCOMP, MQTT_MSG_SUBACK,
     MQTT_MSG_PINGRESP]"
  "distinct [MQTT_MSG_PINGRESP, MQTT_MSG_SUBACK, MQTT_MSG_PUBCOMP, MQTT_MSG_PUBREC, MQTT_MSG_PUBACK, MQTT_MSG_PUBLISH,
     MQTT_MSG_CONNACK]"
  by (simp_all add: mqtt_msg_defs)

lemmas mqtt_msg_neq [simp] = mqtt_msgs_distinct [simplified]

lemma if_conj: "(if a \<and> b then x else y) = (if a then (if b then x else y) else y)"
  by simp

lemmas only_taken = mqtt_event_neq mqtt_state_neq if_False if_True refl simp_thms

lemma module_done_ends:
  assumes m: "at_leaf s w m" and s: "s \<noteq> STATE_MQTT_DISCONNECTED" "s \<noteq> STATE_MQTT_CONNECTED"
    and h: "mqtt_handlers mops (mqtt_transition mops) (Node s) = Some h"
  shows "ends_at (h EVENT_COMMUNICATION_MODULE_DONE m) (module_done mops s w)"
proof -
  note m' = at_leaf_world(2) [OF m]
  from m have "s \<in> mqtt_leaves" by (simp only: at_leaf_def)
  then consider "s \<in> {STATE_MQTT_SEND_CONNECT, STATE_MQTT_SEND_SUBSCRIBE, STATE_MQTT_SEND_PUBREL,
      STATE_MQTT_SEND_PINREQ, STATE_MQTT_DISCONNECTING}"
    | "s \<in> {STATE_MQTT_RECEIVE_SUBACK, STATE_MQTT_RECEIVE_PUBACK, STATE_MQTT_RECEIVE_PUBREC, STATE_MQTT_RECEIVE_PUBCOMP}"
    | "s = STATE_MQTT_RECEIVE_CONNACK" | "s = STATE_MQTT_PUBLISH" | "s = STATE_MQTT_RECEIVE_PUBLISH"
    | "s = STATE_MQTT_RECEIVE_PINGRESP"
    using s by blast
  then show ?thesis
  proof cases
    case 1
    with h m show ?thesis
      by (elim insertE emptyE)
         (auto simp: mqtt_handler_defs module_done_def may_move_def intro!: packet_sent_ends)
  next
    case 2
    with h m show ?thesis
      by (elim insertE emptyE)
         (auto simp: mqtt_handler_defs module_done_def may_move_def intro!: answer_received_ends)
  next
    case 3
    with h have h': "h = state_mqtt_receive_connnack mops (mqtt_transition mops)" by simp
    have "ends_at (processed True (mqtt_transition mops STATE_MQTT_SEND_SUBSCRIBE (m\<lparr>world := v\<rparr>)))
        (mqtt_go mops s STATE_MQTT_SEND_SUBSCRIBE v)" for v
      by (rule transition_ends [OF m]) (simp_all add: 3 may_move_def)
    then show ?thesis
      unfolding 3 h' module_done_def
      by (simp only: state_mqtt_receive_connnack_def only_taken)
         (rule received_ends [OF m [unfolded 3]],
          auto simp: 3 intro: post_stays [OF m' [unfolded 3]] receive_failed_ends [OF m' [unfolded 3]])
  next
    case 4
    with h have h': "h = state_mqtt_publish mops (mqtt_transition mops)" by simp
    show ?thesis
      unfolding 4 h' module_done_def
      by (simp add: state_mqtt_publish_def when_published_def at_leaf_world(1) [OF m] Let_def)
         (auto intro!: transition_ends [OF m [unfolded 4]])
  next
    case 5
    with h have h': "h = state_mqtt_receive_publish mops (mqtt_transition mops)" by simp
    have go: "ends_at (processed True (mqtt_transition mops t' (m\<lparr>world := v\<rparr>))) (mqtt_go mops s t v)"
      if "t \<in> {STATE_MQTT_RECEIVE_PUBLISH, STATE_MQTT_CONNECTED, STATE_MQTT_SEND_PUBREL, STATE_MQTT_SEND_PINREQ}"
        "move_target t = t'" for t t' v
      by (rule transition_ends [OF m]) (use that in \<open>auto simp: 5 may_move_def\<close>)
    have commands: "ends_at (processed True (do {
          m \<leftarrow> lift_mqtt (extract_received_commands mops) (m\<lparr>world := v\<rparr>);
          mqtt_transition mops STATE_MQTT_CONNECTED m }))
        (do { w \<leftarrow> extract_received_commands mops v; mqtt_go mops s STATE_MQTT_CONNECTED w })" for v
      using go [of STATE_MQTT_CONNECTED]
      by (cases "extract_received_commands mops v") (simp_all add: lift_mqtt_def processed_def)
    show ?thesis
      unfolding 5 h' module_done_def
      by (simp only: state_mqtt_receive_publish_def when_delivered_def Let_def [of STATE_MQTT_RECEIVE_PUBLISH] only_taken)
         (rule received_ends [OF m [unfolded 5]],
          auto simp: 5 Let_def move_target_def intro: go [unfolded 5] commands [unfolded 5] post_stays [OF m' [unfolded 5]]
            receive_failed_ends [OF m' [unfolded 5]])
  next
    case 6
    with h have h': "h = state_mqtt_receive_pingresp mops (mqtt_transition mops)" by simp
    show ?thesis
      unfolding 6 h' module_done_def
      by (simp only: state_mqtt_receive_pingresp_def only_taken if_conj)
         (rule received_ends [OF m [unfolded 6]],
          auto intro: transition_ends [OF m [unfolded 6]] receive_failed_ends [OF m' [unfolded 6]])
  qed
qed

section \<open>Dispatch follows the table\<close>

text \<open>What the leaf handlers leave to the states above them.\<close>

lemma leaf_ignores:
  assumes "s \<in> mqtt_leaves" "s \<noteq> STATE_MQTT_DISCONNECTED" "s \<noteq> STATE_MQTT_CONNECTED"
    and "mqtt_handlers mops tr (Node s) = Some h"
    and "e \<noteq> EVENT_ENTERING_STATE" "e \<noteq> EVENT_LEAVING_STATE" "e \<noteq> EVENT_COMMUNICATION_MODULE_DONE"
    and "\<not> (s \<in> receive_states \<and> e = awaited_event s)"
  shows "h e m = Some (False, m)"
  using assms(1)
  by (elim insertE emptyE) (use assms(2-) in \<open>auto simp: mqtt_handler_defs awaited_event_def\<close>)

lemma leaf_receives:
  assumes "s \<in> receive_states" "mqtt_handlers mops tr (Node s) = Some h"
  shows "h (awaited_event s) m = processed True (lift_mqtt (start_receiving mops) m)"
  using assms(1) by (elim insertE emptyE) (use assms(2) in \<open>auto simp: mqtt_handler_defs awaited_event_def\<close>)

text \<open>The path from the root to a leaf.\<close>

definition above_leaf :: "'q mqtt_ops \<Rightarrow> nat \<Rightarrow> u8 \<Rightarrow> 'q mqttm \<Rightarrow> (bool \<times> 'q mqttm) option" where
  "above_leaf mops s e m = do {
     r \<leftarrow> (if s \<in> connecting_states then state_mqtt_connecting e m
          else if s \<in> connected_states \<or> s \<in> ping_states then state_mqtt_connected (mqtt_transition mops) e m
          else Some (False, m));
     (if \<not> fst r then mqtt_communication_protocol_handler mops e (snd r) else Some r)
   }"

lemma mqtt_dispatch_path:
  assumes m: "at_leaf s w m" and h: "mqtt_handlers mops (mqtt_transition mops) (Node s) = Some h"
    and e: "e \<noteq> EVENT_ENTERING_STATE"
  shows "state_machine_process_event (mqtt_handlers mops (mqtt_transition mops)) Root e m = do {
     r \<leftarrow> h e m; (if \<not> fst r then above_leaf mops s e (snd r) else Some r) }"
proof -
  from m obtain c k p where tree: "m = mqtt_tree (top_state s) c k p w" and s: "s \<in> mqtt_leaves"
    and below: "s \<in> connected_states \<longrightarrow> k = Some s" "s \<in> ping_states \<longrightarrow> k = Some STATE_MQTT_PING \<and> p = Some s"
      "s = STATE_MQTT_CONNECTED \<longrightarrow> k = None" "s \<in> connecting_states \<longrightarrow> c = s"
    unfolding at_leaf_def by blast
  let ?H = "mqtt_handlers mops (mqtt_transition mops)"
  let ?go = "state_machine_process_event ?H"
  have root: "?go Root e m = do { r \<leftarrow> ?go (Node (top_state s)) e m;
      (if \<not> fst r then mqtt_communication_protocol_handler mops e (snd r) else Some r) }"
    by (rule process_event_inner) (simp_all add: tree)
  have leaf: "?go (Node s) e m = h e m" if "current_state m (Node s) = Some None"
    using process_event_leaf [of m "Node s" ?H h e] that h by blast
  consider "s \<in> connecting_states" | "s \<in> connected_states" | "s \<in> ping_states"
    | "s \<in> {STATE_MQTT_DISCONNECTED, STATE_MQTT_CONNECTED, STATE_MQTT_DISCONNECTING}"
    using s by (elim insertE emptyE) simp_all
  then show ?thesis
  proof cases
    case 1
    have "?go (Node STATE_MQTT_CONNECTING) e m = do { r \<leftarrow> ?go (Node s) e m;
        (if \<not> fst r then state_mqtt_connecting e (snd r) else Some r) }"
      by (rule process_event_inner) (use 1 below(4) in \<open>simp_all only: tree mqtt_tree_current mqtt_handlers_at simp_thms\<close>)
    with 1 leaf show ?thesis
      unfolding root top_state(1) [OF 1] above_leaf_def
      by (cases "h e m") (simp_all add: tree del: insert_iff)
  next
    case 2
    have "?go (Node STATE_MQTT_CONNECTED) e m = do { r \<leftarrow> ?go (Node s) e m;
        (if \<not> fst r then state_mqtt_connected (mqtt_transition mops) e (snd r) else Some r) }"
      by (rule process_event_inner) (use 2 below(1) in \<open>simp_all only: tree mqtt_tree_current mqtt_handlers_at simp_thms\<close>)
    moreover have "s \<notin> connecting_states" using 2 by auto
    ultimately show ?thesis
      using 2 leaf unfolding root top_state(2) [OF 2] above_leaf_def
      by (cases "h e m") (simp_all add: tree del: insert_iff)
  next
    case 3
    have "?go (Node STATE_MQTT_CONNECTED) e m = do { r \<leftarrow> ?go (Node STATE_MQTT_PING) e m;
        (if \<not> fst r then state_mqtt_connected (mqtt_transition mops) e (snd r) else Some r) }"
      by (rule process_event_inner) (use 3 below(2) in \<open>simp_all only: tree mqtt_tree_current mqtt_handlers_at simp_thms\<close>)
    moreover have "?go (Node STATE_MQTT_PING) e m = do { r \<leftarrow> ?go (Node s) e m;
        (if \<not> fst r then state_mqtt_ping e (snd r) else Some r) }"
      by (rule process_event_inner) (use 3 below(2) in \<open>simp_all only: tree mqtt_tree_current mqtt_handlers_at simp_thms\<close>)
    moreover have "s \<notin> connecting_states" using 3 by auto
    ultimately show ?thesis
      using 3 leaf e unfolding root top_state(3) [OF 3] above_leaf_def
      by (cases "h e m") (simp_all add: tree state_mqtt_ping_def del: insert_iff)
  next
    case 4
    then have "top_state s = s" "s \<notin> connecting_states" "\<not> (s \<in> connected_states \<or> s \<in> ping_states)" "current_state m (Node s) = Some None"
      using below(3) by (auto simp: top_state_def tree)
    with leaf show ?thesis
      unfolding root above_leaf_def by (cases "h e m") (simp_all del: insert_iff)
  qed
qed

lemma leads_stay: "at_leaf s w m \<Longrightarrow> leads_to (Some (p, m)) (Some (w, s))"
  by (simp add: leads_to_def)

lemma root_sim:
  assumes m: "at_leaf s w m" and e: "e \<noteq> EVENT_ENTERING_STATE"
  shows "leads_to (mqtt_communication_protocol_handler mops e m)
    (if e = EVENT_COMMUNICATION_MODULE_PROCESS then stay s (module_processing mops w) else Some (w, s))"
proof (cases "e = EVENT_COMMUNICATION_MODULE_PROCESS")
  case True
  have "mqtt_communication_protocol_handler mops e m = processed True (lift_mqtt (module_processing mops) m)"
    unfolding True by (simp add: mqtt_communication_protocol_handler_def module_processing_def [abs_def])
  with True ends_leads [OF lift_stays [OF m]] show ?thesis by simp
next
  case False
  with e m show ?thesis by (simp add: mqtt_communication_protocol_handler_def leads_stay)
qed

abbreviation "posted_events \<equiv> - {EVENT_ENTERING_STATE, EVENT_LEAVING_STATE}"

lemma connecting_sim:
  assumes m: "at_leaf s w m" and s: "s \<in> connecting_states" and e: "e \<in> posted_events"
  shows "leads_to (above_leaf mops s e m)
    (if e = EVENT_COMMUNICATION_MODULE_PROCESS then stay s (module_processing mops w)
     else if e \<in> mqtt_requests then post_again s e w else Some (w, s))"
proof (cases "e \<in> mqtt_requests")
  case True
  then have r: "state_mqtt_connecting e m = post_mqtt e m" "e \<noteq> EVENT_COMMUNICATION_MODULE_PROCESS"
    by (auto simp: state_mqtt_connecting_def post_mqtt_def)
  have "above_leaf mops s e m = post_mqtt e m"
    unfolding above_leaf_def r(1) using s ends_chain [OF post_stays [OF m]] by (simp only: if_True)
  with True r(2) ends_leads [OF post_stays [OF m]] show ?thesis by (simp only: if_True if_False)
next
  case False
  then have "\<exists>p. state_mqtt_connecting e m = Some (p, m) \<and> (p \<longrightarrow> e = EVENT_MQTT_DISCONNECT)"
    using e by (auto simp: state_mqtt_connecting_def)
  then obtain p where p: "state_mqtt_connecting e m = Some (p, m)" "p \<longrightarrow> e = EVENT_MQTT_DISCONNECT" by blast
  have r: "leads_to (mqtt_communication_protocol_handler mops e m)
    (if e = EVENT_COMMUNICATION_MODULE_PROCESS then stay s (module_processing mops w) else Some (w, s))"
    using root_sim [OF m] e by simp
  show ?thesis
  proof (cases p)
    case True
    with p s False leads_stay [OF m] show ?thesis by (simp add: above_leaf_def del: insert_iff)
  next
    case notp: False
    with p s False r show ?thesis
      by (simp only: above_leaf_def if_True if_False simp_thms bind.bind_lunit fst_conv snd_conv)
  qed
qed

lemma connected_handler_sim:
  assumes m: "at_leaf s w m" and s: "s \<in> connected_leaves" and e: "e \<in> posted_events"
  shows "leads_to (do { r \<leftarrow> state_mqtt_connected (mqtt_transition mops) e m;
      (if \<not> fst r then mqtt_communication_protocol_handler mops e (snd r) else Some r) })
    (if e = EVENT_COMMUNICATION_MODULE_PROCESS then stay s (module_processing mops w)
     else if e \<in> mqtt_requests then mqtt_go mops s (request_state e) w
     else if e = EVENT_MQTT_DISCONNECT then mqtt_go mops s STATE_MQTT_DISCONNECTING w else Some (w, s))"
proof -
  have go: "leads_to (do { r \<leftarrow> processed True (mqtt_transition mops t m);
      (if \<not> fst r then mqtt_communication_protocol_handler mops e (snd r) else Some r) }) (mqtt_go mops s t w)"
    if "t \<in> insert STATE_MQTT_DISCONNECTING connected_states" for t
  proof -
    have "ends_at (processed True (mqtt_transition mops (move_target t) m)) (mqtt_go mops s t w)"
      by (rule mqtt_transition_to_leaf [OF m]) (use that s in \<open>auto simp: may_move_def\<close>)
    moreover have "move_target t = t" using that by auto
    ultimately have "ends_at (processed True (mqtt_transition mops t m)) (mqtt_go mops s t w)" by (simp only:)
    with ends_chain [OF this] ends_leads [OF this] show ?thesis by (simp only:)
  qed
  consider "e \<in> mqtt_requests" | "e = EVENT_MQTT_DISCONNECT" | "e \<notin> mqtt_requests" "e \<noteq> EVENT_MQTT_DISCONNECT" by blast
  then show ?thesis
  proof cases
    case 1
    then have "state_mqtt_connected (mqtt_transition mops) e m = processed True (mqtt_transition mops (request_state e) m)"
      "request_state e \<in> insert STATE_MQTT_DISCONNECTING connected_states" "e \<noteq> EVENT_COMMUNICATION_MODULE_PROCESS"
      by (auto simp: state_mqtt_connected_def request_state_def)
    with 1 go [of "request_state e"] show ?thesis by (simp only: if_True if_False)
  next
    case 2
    with go [of STATE_MQTT_DISCONNECTING] show ?thesis by (simp add: state_mqtt_connected_def)
  next
    case 3
    with e have "state_mqtt_connected (mqtt_transition mops) e m = Some (False, m)"
      by (simp add: state_mqtt_connected_def)
    moreover have "leads_to (mqtt_communication_protocol_handler mops e m)
      (if e = EVENT_COMMUNICATION_MODULE_PROCESS then stay s (module_processing mops w) else Some (w, s))"
      by (rule root_sim [OF m]) (use e in simp)
    ultimately show ?thesis
      using 3 by (simp only: if_True if_False simp_thms bind.bind_lunit fst_conv snd_conv)
  qed
qed

lemma above_leaf_sim:
  assumes m: "at_leaf s w m" and e: "e \<in> posted_events" "e \<noteq> EVENT_COMMUNICATION_MODULE_DONE"
    and s: "s \<noteq> STATE_MQTT_CONNECTED" "s \<noteq> STATE_MQTT_DISCONNECTED"
    and not_awaited: "\<not> (s \<in> receive_states \<and> e = awaited_event s)"
  shows "leads_to (above_leaf mops s e m) (mqtt_event mops e (w, s))"
proof -
  from m have "s \<in> mqtt_leaves" unfolding at_leaf_def by blast
  then consider "s \<in> connecting_states" | "s \<in> connected_states \<or> s \<in> ping_states" | "s = STATE_MQTT_DISCONNECTING"
    using s by (elim insertE emptyE) simp_all
  then show ?thesis
  proof cases
    case 1
    then have "s \<notin> connected_leaves" by auto
    with connecting_sim [OF m 1 e(1)] 1 e(2) s not_awaited show ?thesis
      by (simp only: mqtt_event.simps if_False if_True simp_thms)
  next
    case 2
    then have s': "s \<notin> connecting_states" "s \<in> connected_leaves" by auto
    have "leads_to (above_leaf mops s e m)
      (if e = EVENT_COMMUNICATION_MODULE_PROCESS then stay s (module_processing mops w)
       else if e \<in> mqtt_requests then mqtt_go mops s (request_state e) w
       else if e = EVENT_MQTT_DISCONNECT then mqtt_go mops s STATE_MQTT_DISCONNECTING w else Some (w, s))"
      using connected_handler_sim [OF m s'(2) e(1)] 2 s'(1) by (simp only: above_leaf_def if_False if_True)
    with s' e(2) s not_awaited show ?thesis
      by (simp only: mqtt_event.simps if_False if_True simp_thms)
  next
    case 3
    then have "s \<notin> connecting_states" "s \<notin> connected_leaves" "\<not> (s \<in> connected_states \<or> s \<in> ping_states)" by auto
    moreover have "leads_to (mqtt_communication_protocol_handler mops e m)
      (if e = EVENT_COMMUNICATION_MODULE_PROCESS then stay s (module_processing mops w) else Some (w, s))"
      by (rule root_sim [OF m]) (use e(1) in simp)
    ultimately show ?thesis using e(2) s not_awaited
      by (simp only: above_leaf_def mqtt_event.simps if_False if_True simp_thms bind.bind_lunit fst_conv snd_conv if_cancel)
  qed
qed

lemma disconnected_sim:
  assumes m: "at_leaf STATE_MQTT_DISCONNECTED w m" and e: "e \<in> posted_events"
  shows "leads_to (do { r \<leftarrow> state_mqtt_disconnected (mqtt_transition mops) e m;
      (if \<not> fst r then mqtt_communication_protocol_handler mops e (snd r) else Some r) })
    (mqtt_event mops e (w, STATE_MQTT_DISCONNECTED))"
proof (cases "e \<in> mqtt_requests")
  case True
  then have neq: "e \<noteq> EVENT_COMMUNICATION_MODULE_PROCESS" "e \<noteq> EVENT_COMMUNICATION_MODULE_DONE"
    "e \<noteq> EVENT_MQTT_DISCONNECT" "e \<noteq> EVENT_ENTERING_STATE" by auto
  show ?thesis
  proof (cases "mqtt_parameters_set w")
    case set: True
    have "ends_at (processed True (do {
          m \<leftarrow> lift_mqtt (add_mqtt_communication_protocol_event_type e) m; mqtt_transition mops STATE_MQTT_CONNECTING m }))
        (do { w \<leftarrow> add_mqtt_communication_protocol_event_type e w; mqtt_go mops STATE_MQTT_DISCONNECTED STATE_MQTT_SEND_CONNECT w })"
    proof (cases "add_mqtt_communication_protocol_event_type e w")
      case (Some w')
      have "ends_at (processed True (mqtt_transition mops STATE_MQTT_CONNECTING (m\<lparr>world := w'\<rparr>)))
          (mqtt_go mops STATE_MQTT_DISCONNECTED STATE_MQTT_SEND_CONNECT w')"
        by (rule transition_ends [OF m]) (simp_all add: move_target_def)
      with Some show ?thesis by (simp add: lift_mqtt_def at_leaf_world(1) [OF m])
    qed (simp add: lift_mqtt_def at_leaf_world(1) [OF m] processed_def)
    with True neq set ends_leads [OF this] ends_chain [OF this] show ?thesis
      by (simp only: state_mqtt_disconnected_def mqtt_event.simps at_leaf_world(1) [OF m] if_True if_False simp_thms
          mqtt_state_neq insert_iff empty_iff)
  next
    case False
    with True neq leads_stay [OF at_leaf_world(2) [OF m]] show ?thesis
      by (simp only: state_mqtt_disconnected_def mqtt_event.simps at_leaf_world(1) [OF m] if_True if_False simp_thms
          mqtt_state_neq insert_iff empty_iff bind.bind_lunit fst_conv snd_conv)
  qed
next
  case False
  have root: "leads_to (mqtt_communication_protocol_handler mops e m)
    (if e = EVENT_COMMUNICATION_MODULE_PROCESS then stay STATE_MQTT_DISCONNECTED (module_processing mops w)
     else Some (w, STATE_MQTT_DISCONNECTED))"
    by (rule root_sim [OF m]) (use e in simp)
  show ?thesis
  proof (cases "e = EVENT_MQTT_DISCONNECT")
    case True
    then show ?thesis using leads_stay [OF m] by (simp add: state_mqtt_disconnected_def)
  next
    case neq: False
    then have "state_mqtt_disconnected (mqtt_transition mops) e m = Some (False, m)"
      using False e by (simp add: state_mqtt_disconnected_def)
    with False root neq show ?thesis
      by (simp only: mqtt_event.simps bind.bind_lunit fst_conv snd_conv simp_thms if_True if_False mqtt_state_neq insert_iff
          empty_iff if_cancel)
  qed
qed

lemma dispatch_follows_table:
  assumes m: "at_leaf s w m" and e: "e \<noteq> EVENT_ENTERING_STATE" "e \<noteq> EVENT_LEAVING_STATE"
  shows "leads_to (state_machine_process_event (mqtt_handlers mops (mqtt_transition mops)) Root e m)
    (mqtt_event mops e (w, s))"
proof -
  from m have "s \<in> mqtt_leaves" unfolding at_leaf_def by blast
  then obtain h where h: "mqtt_handlers mops (mqtt_transition mops) (Node s) = Some h"
    by (elim insertE emptyE) simp_all
  note path = mqtt_dispatch_path [OF m h e(1)]
  have e': "e \<in> posted_events" using e by simp
  consider "s = STATE_MQTT_CONNECTED" | "s = STATE_MQTT_DISCONNECTED"
    | "s \<noteq> STATE_MQTT_CONNECTED" "s \<noteq> STATE_MQTT_DISCONNECTED" by blast
  then show ?thesis
  proof cases
    case 1
    with h have "h = state_mqtt_connected (mqtt_transition mops)" by simp
    with connected_handler_sim [OF m _ e'] 1 show ?thesis
      unfolding path by (auto simp: above_leaf_def cong: if_cong)
  next
    case 2
    with h have "h = state_mqtt_disconnected (mqtt_transition mops)" by simp
    with disconnected_sim [OF m [unfolded 2] e'] 2 show ?thesis
      unfolding path by (simp add: above_leaf_def del: mqtt_event.simps cong: if_cong)
  next
    case 3
    consider "e = EVENT_COMMUNICATION_MODULE_DONE" | "s \<in> receive_states \<and> e = awaited_event s"
      | "e \<noteq> EVENT_COMMUNICATION_MODULE_DONE" "\<not> (s \<in> receive_states \<and> e = awaited_event s)" by argo
    then show ?thesis
    proof cases
      case 1
      have fin: "ends_at (h e m) (module_done mops s w)"
        unfolding 1 by (rule module_done_ends [OF m 3(2,1) h])
      have "mqtt_event mops e (w, s) = module_done mops s w" using 1 3 by simp
      with ends_leads [OF fin] ends_chain [OF fin] show ?thesis unfolding path by (simp only:)
    next
      case 2
      have received: "ends_at (h e m) (stay s (start_receiving mops w))"
        using 2 leaf_receives [OF _ h] lift_stays [OF m] by (simp only: simp_thms)
      have "e \<noteq> EVENT_COMMUNICATION_MODULE_PROCESS" "e \<noteq> EVENT_COMMUNICATION_MODULE_DONE"
        using 2 by (auto simp: awaited_event_def)
      with 2 have "mqtt_event mops e (w, s) = stay s (start_receiving mops w)"
        by (simp only: mqtt_event.simps if_True if_False simp_thms)
      with ends_leads [OF received] ends_chain [OF received] show ?thesis unfolding path by (simp only:)
    next
      case ignored: 3
      have "h e m = Some (False, m)"
        by (rule leaf_ignores [OF \<open>s \<in> mqtt_leaves\<close> 3(2,1) h e ignored(1,2)])
      with above_leaf_sim [OF m e' ignored(1) 3 ignored(2)] show ?thesis unfolding path by simp
    qed
  qed
qed

text \<open>C4: The seventeen nested handlers of the MQTT protocol are a flat table: whatever leaf the machine is
  at, processing one event is defined exactly when the table defines a step, and then the machine
  ends with the data and at the leaf the table says.\<close>

theorem mqtt_follows_table:
  assumes m: "at_leaf s w m" and e: "e \<noteq> EVENT_ENTERING_STATE" "e \<noteq> EVENT_LEAVING_STATE"
  shows "leads_to (state_machine_process_event (mqtt_handlers mops (mqtt_transition mops)) Root e m)
    (mqtt_event mops e (w, s))"
  by (rule dispatch_follows_table [OF assms])

end
