(* ===== verification/Mqtt_Communication.thy ===== *)
theory Mqtt_Communication
  imports App_Reachable Mqtt_Modes
begin

text \<open>
  The application on the MQTT protocol, as \<open>WolkSensor/main.c\<close> plugs them together: the functions of
  \<open>mqtt_communication_protocol.c\<close> are those behind the pointers of \<open>communication_protocol\<close>, and the
  module that the protocol drives is the one the application stops.  The platform of the
  application is then the MQTT machine with its link.
\<close>

section \<open>The pointers the two share\<close>

definition load_memory :: "'q mqttm platform_ops \<Rightarrow> 'q mqttm app \<Rightarrow> 'q mqttm" where
  "load_memory ops a = (platform a)\<lparr>world := (world (platform a))\<lparr>memory :=
     \<lparr>mem_config = app_config a, mem_sensors = app_sensors a, mem_now = app_now ops a,
      mem_readings = app_readings a, mem_system = app_system a, mem_commands = app_commands a,
      mem_sent_readings = sent_sensor_readings a, mem_sent_items = sent_system_items a\<rparr>\<rparr>\<rparr>"

definition store_memory :: "'q mqttm app \<Rightarrow> 'q mqttm \<Rightarrow> 'q mqttm app" where
  "store_memory a m = (let mem = memory (world m) in
     a\<lparr>app_commands := mem_commands mem, sent_system_items := mem_sent_items mem,
       sent_sensor_readings := mem_sent_readings mem, platform := m\<rparr>)"

section \<open>The interface\<close>

text \<open>Every operation returns the same handle, \<open>mqtt_communinication_protocol_process\<close>.\<close>

definition mqtt_operation ::
  "'q mqttm platform_ops \<Rightarrow> 'q mqtt_step \<Rightarrow> 'q mqttm app \<Rightarrow> (nat \<times> 'q mqttm app) option" where
  "mqtt_operation ops f a = map_option (\<lambda>m. (0, store_memory a m)) (lift_mqtt f (load_memory ops a))"

definition mqtt_processing ::
  "'q mqttm platform_ops \<Rightarrow> 'q mqtt_ops \<Rightarrow> 'q mqttm app \<Rightarrow> (bool \<times> 'q mqttm app) option" where
  "mqtt_processing ops mops a = map_option (\<lambda>(p, m). (p, store_memory a m))
     (mqtt_communinication_protocol_process mops (load_memory ops a))"

definition with_link :: "'q mqttm app \<Rightarrow> 'q \<Rightarrow> 'q mqttm app" where
  "with_link a q = a\<lparr>platform := (platform a)\<lparr>world := (world (platform a))\<lparr>link := q\<rparr>\<rparr>\<rparr>"

definition stop_module :: "'q mqtt_ops \<Rightarrow> 'q mqttm app \<Rightarrow> (nat \<times> 'q mqttm app) option" where
  "stop_module mops a = map_option (\<lambda>(h, q). (h, with_link a q)) (module_halt mops (link (world (platform a))))"

text \<open>The module still has the addresses of the MQTT buffer and its position.\<close>

definition stop_processing :: "'q mqtt_ops \<Rightarrow> nat \<Rightarrow> 'q mqttm app \<Rightarrow> (bool \<times> 'q mqttm app) option" where
  "stop_processing mops h a = do {
     let w = world (platform a);
     (again, buf, pos, q) \<leftarrow> module_step mops h (mqtt_buffer w) (mqtt_buffer_position w) (link w);
     Some (again, a\<lparr>platform := (platform a)\<lparr>world :=
       w\<lparr>mqtt_buffer := buf, mqtt_buffer_position := pos, link := q\<rparr>\<rparr>\<rparr>)
   }"

definition mqtt_comm :: "'q mqttm platform_ops \<Rightarrow> 'q mqtt_ops \<Rightarrow> 'q mqttm comm_ops" where
  "mqtt_comm ops mops = \<lparr>
     comm_send = mqtt_operation ops (mqtt_protocol_send_sensor_readings_and_system_data True True True True),
     comm_receive = mqtt_operation ops (mqtt_protocol_receive_commands True),
     comm_disconnect = mqtt_operation ops mqtt_protocol_disconnect,
     comm_process = (\<lambda>_. mqtt_processing ops mops),
     comm_result = (\<lambda>a. get_mqtt_communication_result (world (platform a))),
     module_stop = stop_module mops,
     module_process = stop_processing mops,
     module_result = (\<lambda>a. module_data mops (link (world (platform a))))\<rparr>"

lemma store_memory_exchanges [simp]: "only_exchanges a (store_memory a m)"
  by (simp add: only_exchanges_def store_memory_def Let_def)

lemma platform_exchanges [simp]: "only_exchanges a (a\<lparr>platform := q\<rparr>)"
  by (simp add: only_exchanges_def)

interpretation mqtt: communication "mqtt_comm ops mops" for ops :: "'q mqttm platform_ops" and mops
proof
  fix f a h a'
  assume "f \<in> {comm_send (mqtt_comm ops mops), comm_receive (mqtt_comm ops mops), comm_disconnect (mqtt_comm ops mops),
      module_stop (mqtt_comm ops mops)}" "f a = Some (h, a')"
  then consider g where "mqtt_operation ops g a = Some (h, a')" | "stop_module mops a = Some (h, a')"
    by (auto simp: mqtt_comm_def)
  then show "only_exchanges a a'"
    by cases (auto simp: mqtt_operation_def stop_module_def with_link_def split: prod.splits)
next
  fix g h a p a'
  assume "g \<in> {comm_process (mqtt_comm ops mops) h, module_process (mqtt_comm ops mops) h}" "g a = Some (p, a')"
  then show "only_exchanges a a'"
    by (auto simp: mqtt_comm_def mqtt_processing_def stop_processing_def bind_eq_Some_conv Let_def split: prod.splits)
qed

section \<open>The application during its life\<close>

text \<open>C3: In every reachable state of the application on MQTT it is idle, in brownout or in one of the four
  phases of an exchange, with the machine's tree as that mode has it, and only known events wait.\<close>

theorem reachable_in_mode:
  assumes "app_reachable ops (mqtt_comm ops mops) m"
  shows "\<exists>md. in_mode md (world m) m \<and> known_events (world m)"
  using assms by (rule mqtt.reachable_mode)

text \<open>C30: Whatever the communication over MQTT does, while data are exchanged no event changes the stored
  readings, except the one that ends a receiving with success and commands: an exchange that
  fails keeps every reading.\<close>

theorem readings_survive_failed_exchange:
  assumes "in_mode (Exchanging ph) a m" "known_events a" "event_types (app_events a) = e # es"
    and "process_wolksensor_event ops (mqtt_comm ops mops) m = Some (p, m')"
    and "ph \<noteq> Receiving \<or> e \<noteq> EVENT_COMMUNICATION_PROTOCOL_DONE \<or> circular_buffer_size (app_commands a) = 0 \<or>
      \<not> is_communication_protocol_success (mqtt_result (world (platform a)))"
  shows "app_readings (world m') = app_readings a"
  by (rule mqtt.readings_survive [OF assms(1-4)])
     (use assms(5) in \<open>auto simp: mqtt_comm_def get_mqtt_communication_result_def\<close>)

end
