(* ===== verification/Mqtt_Process.thy ===== *)
theory Mqtt_Process
  imports Mqtt_Modes
begin

text \<open>
  The MQTT operations as a whole: the events that wait in the queue of
  \<open>SDK/core/mqtt_communication_protocol.c\<close>, one call of its processing function, and how operations
  end, or do not.
\<close>

section \<open>The queue\<close>

declare mqtt_event.simps [simp del]

definition mqtt_queue :: "'q mqtt \<Rightarrow> bool" where
  "mqtt_queue w \<longleftrightarrow> event_queue (mqtt_events w) \<and> cb_capacity (mqtt_events w) = 10"

definition waiting :: "'q mqtt \<Rightarrow> u8 list" where
  "waiting w = event_types (mqtt_events w)"

lemma post_waiting:
  assumes "mqtt_queue w"
  obtains b where "add_mqtt_communication_protocol_event_type e w = Some (w\<lparr>mqtt_events := b\<rparr>)"
    "mqtt_queue (w\<lparr>mqtt_events := b\<rparr>)" "event_types b = keep_last 10 (waiting w @ [e])"
proof -
  from assms have q: "event_queue (mqtt_events w)" "cb_capacity (mqtt_events w) = 10" by (simp_all add: mqtt_queue_def)
  from q(1) obtain b where "add_event_type (mem_now (memory w)) (mqtt_events w) e = Some b" "event_queue b"
    "cb_capacity b = cb_capacity (mqtt_events w)" "event_types b = keep_last (cb_capacity (mqtt_events w)) (event_types (mqtt_events w) @ [e])"
    by (rule add_event_type_ok)
  with q that [of b] show thesis
    by (simp add: add_mqtt_communication_protocol_event_type_def mqtt_queue_def waiting_def)
qed

lemma clear_waiting:
  assumes "mqtt_queue w"
  obtains b where "clear_mqtt_events w = Some (w\<lparr>mqtt_events := b\<rparr>)" "mqtt_queue (w\<lparr>mqtt_events := b\<rparr>)"
    "event_types b = []"
proof -
  from assms have q: "cb_inv (mqtt_events w)" "cb_wrap (mqtt_events w)" "cb_capacity (mqtt_events w) = 10"
    by (simp_all add: mqtt_queue_def event_queue_def)
  from q(1) have "0 < unat (cb_storage_size (mqtt_events w))"
    "length (cb_storage (mqtt_events w)) = unat (cb_storage_size (mqtt_events w))"
    "unat (cb_storage_size (mqtt_events w)) * unat (cb_element_size (mqtt_events w)) < 65536"
    by (simp_all add: cb_inv_def)
  then obtain b where
    "circular_buffer_clear \<lparr>event_type = 0, event_timestamp = 0\<rparr> (mqtt_events w) = Some b" "cb_inv b" "cb_list b = []"
    "cb_storage_size b = cb_storage_size (mqtt_events w)" "cb_wrap b = cb_wrap (mqtt_events w)" by (rule cb_clear)
  with q that [of b] show thesis
    by (simp add: clear_mqtt_events_def mqtt_queue_def event_queue_def event_types_def cb_capacity_def)
qed

section \<open>One call\<close>

lemma process_empty:
  assumes "mqtt_queue (world m)" "waiting (world m) = []"
  obtains b where "mqtt_communinication_protocol_process mops m = Some (False, m\<lparr>world := (world m)\<lparr>mqtt_events := b\<rparr>\<rparr>)"
    "mqtt_queue ((world m)\<lparr>mqtt_events := b\<rparr>)" "event_types b = []"
proof -
  from assms(1) have "event_queue (mqtt_events (world m))" by (simp add: mqtt_queue_def)
  from pop_event_ok [OF this] obtain b where
    "pop_event (mqtt_events (world m)) = Some (cb_list (mqtt_events (world m)) \<noteq> [],
       (case cb_list (mqtt_events (world m)) of [] \<Rightarrow> None | e # _ \<Rightarrow> Some e), b)"
    "event_queue b" "cb_list b = tl (cb_list (mqtt_events (world m)))" "cb_capacity b = cb_capacity (mqtt_events (world m))" .
  with assms that [of b] show thesis
    by (simp add: mqtt_communinication_protocol_process_def waiting_def event_types_def mqtt_queue_def)
qed

lemma process_first:
  assumes m: "at_leaf s w m" and queue: "mqtt_queue w" and first: "waiting w = e # es"
    and e: "e \<noteq> EVENT_ENTERING_STATE" "e \<noteq> EVENT_LEAVING_STATE"
  obtains b where "mqtt_queue (w\<lparr>mqtt_events := b\<rparr>)" "event_types b = es"
    "ends_at (mqtt_communinication_protocol_process mops m) (mqtt_event mops e (w\<lparr>mqtt_events := b\<rparr>, s))"
proof -
  from queue have q: "event_queue (mqtt_events w)" by (simp add: mqtt_queue_def)
  from pop_event_ok [OF q] obtain b where
    b: "pop_event (mqtt_events w) = Some (cb_list (mqtt_events w) \<noteq> [],
       (case cb_list (mqtt_events w) of [] \<Rightarrow> None | e # _ \<Rightarrow> Some e), b)"
    "event_queue b" "cb_list b = tl (cb_list (mqtt_events w))" "cb_capacity b = cb_capacity (mqtt_events w)" .
  from first obtain ev evs where list: "cb_list (mqtt_events w) = ev # evs" and ev: "event_type ev = e"
    by (auto simp: waiting_def event_types_def)
  let ?w = "w\<lparr>mqtt_events := b\<rparr>"
  from at_leaf_world(2) [OF m] have leaf: "at_leaf s ?w (m\<lparr>world := ?w\<rparr>)" .
  from dispatch_follows_table [OF leaf e, of mops] have
    "ends_at (map_option (\<lambda>r. (True, snd r))
        (state_machine_process_event (mqtt_handlers mops (mqtt_transition mops)) Root e (m\<lparr>world := ?w\<rparr>)))
      (mqtt_event mops e (?w, s))"
    unfolding ends_at_def leads_to_def option.rel_map by (rule option.rel_mono_strong) auto
  then have "ends_at (mqtt_communinication_protocol_process mops m) (mqtt_event mops e (?w, s))"
    by (simp only: mqtt_communinication_protocol_process_def at_leaf_world(1) [OF m] b(1) list ev bind.bind_lunit
        fst_conv snd_conv list.case option.case Let_def)
  moreover have "event_types b = es" using first b(3) list by (simp add: event_types_def waiting_def)
  ultimately show thesis using that [of b] b queue by (simp add: mqtt_queue_def)
qed

section \<open>Known events\<close>

text \<open>
  The types that are posted are the eleven events of the protocol and, by mistake, the number 16 of a state.
\<close>

definition posted_type :: "u8 \<Rightarrow> bool" where
  "posted_type e \<longleftrightarrow> e \<le> EVENT_COMMUNICATION_MODULE_DONE \<or> e = of_nat STATE_MQTT_DISCONNECTING"

definition mqtt_known :: "'q mqtt \<Rightarrow> bool" where
  "mqtt_known w \<longleftrightarrow> mqtt_queue w \<and> (\<forall>e \<in> set (waiting w). posted_type e)"

lemma mqtt_known_cong: "mqtt_events w' = mqtt_events w \<Longrightarrow> mqtt_known w' = mqtt_known w"
  by (simp add: mqtt_known_def mqtt_queue_def waiting_def)

lemma mqtt_known_frames [simp]:
  "mqtt_known (w\<lparr>module_handle := h\<rparr>) = mqtt_known w" "mqtt_known (w\<lparr>link := q\<rparr>) = mqtt_known w"
  "mqtt_known (w\<lparr>mqtt_buffer := x\<rparr>) = mqtt_known w" "mqtt_known (w\<lparr>mqtt_buffer_position := p\<rparr>) = mqtt_known w"
  "mqtt_known (w\<lparr>broker := b\<rparr>) = mqtt_known w" "mqtt_known (w\<lparr>message_id := i\<rparr>) = mqtt_known w"
  "mqtt_known (w\<lparr>stack_message_id := i\<rparr>) = mqtt_known w" "mqtt_known (w\<lparr>mqtt_message := ms\<rparr>) = mqtt_known w"
  "mqtt_known (w\<lparr>serialized_sensor_readings := n\<rparr>) = mqtt_known w"
  "mqtt_known (w\<lparr>serialized_system_items := n\<rparr>) = mqtt_known w"
  "mqtt_known (w\<lparr>memory := mem\<rparr>) = mqtt_known w" "mqtt_known (w\<lparr>mqtt_result := r\<rparr>) = mqtt_known w"
  "mqtt_known (w\<lparr>received_commands_buffer := c\<rparr>) = mqtt_known w"
  "mqtt_known (clear_mqtt_buffer w) = mqtt_known w" "mqtt_known (take_module_result mops w) = mqtt_known w"
  "mqtt_known (set_mqtt_communication_protocol_error ty s w) = mqtt_known w"
  "mqtt_known (report_sent n k w) = mqtt_known w" "mqtt_known (clear_communication_protocol_data w) = mqtt_known w"
  by (rule mqtt_known_cong; simp add: clear_mqtt_buffer_def take_module_result_def
      set_mqtt_communication_protocol_error_def report_sent_def clear_communication_protocol_data_def Let_def)+

lemma post_known:
  assumes "add_mqtt_communication_protocol_event_type e w = Some w'" "mqtt_known w" "posted_type e"
  shows "mqtt_known w'"
proof -
  from assms(2) have "mqtt_queue w" by (simp add: mqtt_known_def)
  then obtain b where "add_mqtt_communication_protocol_event_type e w = Some (w\<lparr>mqtt_events := b\<rparr>)"
    "mqtt_queue (w\<lparr>mqtt_events := b\<rparr>)" "event_types b = keep_last 10 (waiting w @ [e])" by (rule post_waiting)
  moreover have "set (keep_last 10 (waiting w @ [e])) \<subseteq> insert e (set (waiting w))"
    using set_drop_subset unfolding keep_last_def by fastforce
  ultimately show ?thesis
    using assms by (auto simp: mqtt_known_def waiting_def [of "_\<lparr>mqtt_events := _\<rparr>"])
qed

lemma clear_known:
  assumes "clear_mqtt_events w = Some w'" "mqtt_known w"
  shows "mqtt_known w'"
proof -
  from assms(2) have "mqtt_queue w" by (simp add: mqtt_known_def)
  then obtain b where "clear_mqtt_events w = Some (w\<lparr>mqtt_events := b\<rparr>)" "mqtt_queue (w\<lparr>mqtt_events := b\<rparr>)"
    "event_types b = []" by (rule clear_waiting)
  with assms show ?thesis by (auto simp: mqtt_known_def waiting_def)
qed

lemma known_types:
  "posted_type EVENT_MQTT_PUBLISH" "posted_type EVENT_MQTT_RECEIVE_CONNACK" "posted_type EVENT_MQTT_RECEIVE_SUBACK"
  "posted_type EVENT_MQTT_RECEIVE_PUBLISH" "posted_type EVENT_MQTT_RECEIVE_PUBACK" "posted_type EVENT_MQTT_RECEIVE_PUBREC"
  "posted_type EVENT_MQTT_RECEIVE_PUBCOMP" "posted_type EVENT_MQTT_RECEIVE_PINGRESP" "posted_type EVENT_COMMUNICATION_MODULE_PROCESS"
  "posted_type EVENT_COMMUNICATION_MODULE_DONE" "posted_type EVENT_MQTT_DISCONNECT" "posted_type (of_nat STATE_MQTT_DISCONNECTING)"
  "posted_type (awaited_event s)"
  by (simp_all add: posted_type_def mqtt_event_defs mqtt_state_defs awaited_event_def)

lemma start_known:
  "start_sending mops n w = Some w' \<Longrightarrow> mqtt_known w \<Longrightarrow> mqtt_known w'"
  "start_receiving mops w = Some w' \<Longrightarrow> mqtt_known w \<Longrightarrow> mqtt_known w'"
  by (auto simp: start_sending_def start_receiving_def Let_def bind_eq_Some_conv
      elim!: post_known [OF _ _ known_types(9)])

lemma append_networks_known: "append_networks mops mb w = Some (mb', w') \<Longrightarrow> mqtt_known w' = mqtt_known w"
  by (auto simp: append_networks_def bind_eq_Some_conv split: option.splits if_splits prod.splits)

lemma compose_known:
  assumes "compose_message mops mb w = Some (mb', w')"
  shows "mqtt_known w' = mqtt_known w"
  using assms
  by (auto simp: compose_message_def bind_eq_Some_conv dest!: append_networks_known split: option.splits)

lemma send_publish_known:
  assumes "send_publish mops w = Some w'" "mqtt_known w"
  shows "mqtt_known w'"
  using assms by (auto simp: send_publish_def Let_def bind_eq_Some_conv dest!: compose_known start_known(1))

lemma bind_SomeE:
  assumes "x \<bind> f = Some y"
  obtains z where "f z = Some y"
  using assms by (cases x) simp_all

lemma fixed_known: "send_fixed_packet mops f w = Some w' \<Longrightarrow> mqtt_known w \<Longrightarrow> mqtt_known w'"
  by (auto simp: send_fixed_packet_def Let_def bind_eq_Some_conv dest!: start_known(1))

lemma connect_known: "send_connect mops w = Some w' \<Longrightarrow> mqtt_known w \<Longrightarrow> mqtt_known w'"
  by (auto simp: send_connect_def Let_def bind_eq_Some_conv dest!: start_known(1))

lemma subscribe_known: "send_subscribe mops w = Some w' \<Longrightarrow> mqtt_known w \<Longrightarrow> mqtt_known w'"
  by (auto simp: send_subscribe_def Let_def bind_eq_Some_conv dest!: start_known(1))

lemma pubrel_known: "start_sending mops n (clear_mqtt_buffer w) = Some w' \<Longrightarrow> mqtt_known w \<Longrightarrow> mqtt_known w'"
  using start_known(1) [of mops n "clear_mqtt_buffer w" w'] by simp

lemma processing_known:
  assumes "module_processing mops w = Some w'" "mqtt_known w"
  shows "mqtt_known w'"
proof -
  from assms(1) obtain again buf pos q where
    "add_mqtt_communication_protocol_event_type (if again then EVENT_COMMUNICATION_MODULE_PROCESS
       else EVENT_COMMUNICATION_MODULE_DONE) (w\<lparr>mqtt_buffer := buf, mqtt_buffer_position := pos, link := q\<rparr>) = Some w'"
    by (auto simp: module_processing_def bind_eq_Some_conv)
  then show ?thesis by (rule post_known) (simp_all add: assms(2) known_types)
qed

lemma extract_known: "extract_received_commands mops w = Some w' \<Longrightarrow> mqtt_known w' = mqtt_known w"
  by (auto simp: extract_received_commands_def Let_def bind_eq_Some_conv split: if_splits)

lemma parse_frame:
  assumes "mqtt_parse_message w = Some (c, w')"
  obtains ms where "w' = w\<lparr>mqtt_message := ms\<rparr>"
proof -
  have "\<exists>ms. w' = w\<lparr>mqtt_message := ms\<rparr>"
    using assms unfolding mqtt_parse_message_def Let_def
    apply (elim bind_SomeE)
    apply (simp only: split: if_split_asm)
     apply (rule exI [of _ "mqtt_message w"], simp)
    by (elim bind_SomeE, simp, metis)
  with that show thesis by blast
qed

section \<open>What every event keeps\<close>

text \<open>
  What touches the buffer or the module: the packets that are sent, the start of a reception, one step
  of the module and the reading of a received message.  A property of the queue, the buffer and the
  link that these keep is kept by every event, every operation and every call.
\<close>

definition exchange_steps :: "'q mqtt_ops \<Rightarrow> 'q mqtt_step set" where
  "exchange_steps mops = {send_connect mops, send_subscribe mops, send_publish mops,
     send_fixed_packet mops mqtt_ping, send_fixed_packet mops mqtt_disconnect,
     (\<lambda>w. start_sending mops (mqtt_pubrel (stack_message_id w)) (clear_mqtt_buffer w)),
     start_receiving mops, module_processing mops, extract_received_commands mops}"

locale mqtt_invariant =
  fixes mops :: "'q mqtt_ops" and I :: "'q mqtt \<Rightarrow> bool"
  assumes kept_known: "I w \<Longrightarrow> mqtt_known w"
    and kept_cong: "I w \<Longrightarrow> mqtt_events v = mqtt_events w \<Longrightarrow> mqtt_buffer v = mqtt_buffer w \<Longrightarrow> link v = link w \<Longrightarrow> I v"
    and kept_queue: "I w \<Longrightarrow> mqtt_known (w\<lparr>mqtt_events := b\<rparr>) \<Longrightarrow> I (w\<lparr>mqtt_events := b\<rparr>)"
    and kept_exchange: "f \<in> exchange_steps mops \<Longrightarrow> f w = Some w' \<Longrightarrow> I w \<Longrightarrow> I w'"
begin

lemma exchanges_kept:
  "send_connect mops w = Some w' \<Longrightarrow> I w \<Longrightarrow> I w'" "send_subscribe mops w = Some w' \<Longrightarrow> I w \<Longrightarrow> I w'"
  "send_publish mops w = Some w' \<Longrightarrow> I w \<Longrightarrow> I w'" "send_fixed_packet mops mqtt_ping w = Some w' \<Longrightarrow> I w \<Longrightarrow> I w'"
  "send_fixed_packet mops mqtt_disconnect w = Some w' \<Longrightarrow> I w \<Longrightarrow> I w'"
  "start_sending mops (mqtt_pubrel (stack_message_id w)) (clear_mqtt_buffer w) = Some w' \<Longrightarrow> I w \<Longrightarrow> I w'"
  "start_receiving mops w = Some w' \<Longrightarrow> I w \<Longrightarrow> I w'" "module_processing mops w = Some w' \<Longrightarrow> I w \<Longrightarrow> I w'"
  "extract_received_commands mops w = Some w' \<Longrightarrow> I w \<Longrightarrow> I w'"
  by (erule (1) kept_exchange [rotated]; simp add: exchange_steps_def)+

lemma frames_kept [simp]:
  "I w \<Longrightarrow> I (w\<lparr>mqtt_message := ms\<rparr>)" "I w \<Longrightarrow> I (take_module_result mops w)"
  "I w \<Longrightarrow> I (set_mqtt_communication_protocol_error ty s w)" "I w \<Longrightarrow> I (report_sent n k w)"
  "I w \<Longrightarrow> I (clear_communication_protocol_data w)"
  by (erule kept_cong; simp add: take_module_result_def set_mqtt_communication_protocol_error_def report_sent_def
      clear_communication_protocol_data_def Let_def)+

lemma post_kept:
  assumes "add_mqtt_communication_protocol_event_type e w = Some w'" "I w" "posted_type e"
  shows "I w'"
proof -
  from assms(1) obtain b where "w' = w\<lparr>mqtt_events := b\<rparr>"
    by (auto simp: add_mqtt_communication_protocol_event_type_def)
  with kept_queue [OF assms(2)] post_known [OF assms(1) kept_known [OF assms(2)] assms(3)] show ?thesis by simp
qed

lemma clear_kept:
  assumes "clear_mqtt_events w = Some w'" "I w"
  shows "I w'"
proof -
  from assms(1) obtain b where "w' = w\<lparr>mqtt_events := b\<rparr>" by (auto simp: clear_mqtt_events_def)
  with kept_queue [OF assms(2)] clear_known [OF assms(1) kept_known [OF assms(2)]] show ?thesis by simp
qed

lemma enter_kept: "enter_leaf mops t w = Some w' \<Longrightarrow> I w \<Longrightarrow> I w'"
  using clear_kept exchanges_kept post_kept [OF _ _ known_types(13)] by (auto simp: enter_leaf_def split: if_splits)

lemma move_kept: "mqtt_move mops s t w = Some w' \<Longrightarrow> I w \<Longrightarrow> I w'"
  using enter_kept clear_kept by (fastforce simp: mqtt_move_def leave_leaf_def bind_eq_Some_conv split: if_splits)

lemma go_kept: "mqtt_go mops s t w = Some (w', s') \<Longrightarrow> I w \<Longrightarrow> I w'"
  by (auto simp: mqtt_go_def stay_def elim: move_kept)

lemma again_kept: "post_again s e w = Some (w', s') \<Longrightarrow> I w \<Longrightarrow> posted_type e \<Longrightarrow> I w'"
  by (auto simp: post_again_def stay_def elim: post_kept)

lemma no_answer_kept: "no_answer mops s t w = Some (w', s') \<Longrightarrow> I w \<Longrightarrow> I w'"
  unfolding no_answer_def by (erule go_kept) simp

lemma parse_kept: "mqtt_parse_message w = Some (c, w') \<Longrightarrow> I w \<Longrightarrow> I w'"
  by (erule parse_frame) simp

lemma received_kept:
  assumes "when_received mops s use inc w = Some (w', s')" "I w"
    and "\<And>v. use v = Some (w', s') \<Longrightarrow> I v \<Longrightarrow> I w'"
    and "\<And>v. inc v = Some (w', s') \<Longrightarrow> I v \<Longrightarrow> I w'"
  shows "I w'"
proof (cases "module_success mops w")
  case True
  with assms(1) obtain c v where p: "mqtt_parse_message (take_module_result mops w) = Some (c, v)"
    and run: "(if c then use v else inc v) = Some (w', s')"
    by (cases "mqtt_parse_message (take_module_result mops w)") (auto simp: when_received_def)
  from parse_kept [OF p] assms(2) have "I v" by simp
  with run assms(3,4) show ?thesis by (cases c) simp_all
next
  case False
  with assms(1) have "no_answer mops s STATE_MQTT_DISCONNECTED (take_module_result mops w) = Some (w', s')"
    by (simp add: when_received_def)
  then show ?thesis by (rule no_answer_kept) (simp add: assms(2))
qed

lemma sent_kept: "when_sent mops s t w = Some (w', s') \<Longrightarrow> I w \<Longrightarrow> I w'"
  by (auto simp: when_sent_def elim: go_kept split: if_splits)

lemma published_kept: "when_published mops w = Some (w', s') \<Longrightarrow> I w \<Longrightarrow> I w'"
  by (auto simp: when_published_def Let_def elim: go_kept split: if_splits)

lemma answered_kept:
  assumes "when_answered mops s ty retry t w = Some (w', s')" "I w" "posted_type retry"
  shows "I w'"
  using assms(1,2) unfolding when_answered_def
  by (rule received_kept)
     (auto elim: go_kept no_answer_kept again_kept [OF _ _ assms(3)] again_kept [OF _ _ known_types(12)] split: if_splits)

lemma delivered_kept:
  assumes "when_delivered mops w = Some (w', s')" "I w"
  shows "I w'"
  using assms unfolding when_delivered_def Let_def
  by (rule received_kept)
     (auto simp: bind_eq_Some_conv dest!: exchanges_kept(9) elim: go_kept again_kept [OF _ _ known_types(4)] split: if_splits)

lemma done_kept:
  assumes "module_done mops s w = Some (w', s')" "I w"
  shows "I w'"
proof -
  have connack: "I w'" if "when_received mops s'' (\<lambda>w. if msg_type (mqtt_message w) = ty then mqtt_go mops s'' t w
       else post_again s'' EVENT_MQTT_RECEIVE_CONNACK w) (no_answer mops s'' STATE_MQTT_DISCONNECTED) w = Some (w', s')" for s'' ty t
    using that assms(2)
    by (rule received_kept) (auto elim: go_kept no_answer_kept again_kept [OF _ _ known_types(2)] split: if_splits)
  have pingresp: "I w'" if "when_received mops s'' (\<lambda>w. if msg_type (mqtt_message w) = ty then mqtt_go mops s'' t w
       else no_answer mops s'' STATE_MQTT_DISCONNECTED w) (no_answer mops s'' STATE_MQTT_DISCONNECTED) w = Some (w', s')" for s'' ty t
    using that assms(2)
    by (rule received_kept) (auto elim: go_kept no_answer_kept split: if_splits)
  note answers = answered_kept [OF _ assms(2) known_types(3)] answered_kept [OF _ assms(2) known_types(5)]
    answered_kept [OF _ assms(2) known_types(7)]
  show ?thesis
    using assms(1) unfolding module_done_def
    by (simp only: split: if_split_asm)
       (erule connack pingresp answers sent_kept [OF _ assms(2)] published_kept [OF _ assms(2)]
          delivered_kept [OF _ assms(2)])+
qed

lemma event_kept:
  assumes "mqtt_event mops e (w, s) = Some (w', s')" "I w" "posted_type e"
  shows "I w'"
proof -
  have connect: "I w'" if "add_mqtt_communication_protocol_event_type e w \<bind>
      mqtt_go mops t STATE_MQTT_SEND_CONNECT = Some (w', s')" for t
    using that assms(2,3) by (auto simp: bind_eq_Some_conv elim: go_kept post_kept)
  have stays: "I w'" if "stay s x = Some (w', s')" "\<And>v. x = Some v \<Longrightarrow> I v" for x
    using that by (auto simp: stay_def)
  have same: "I w'" if "Some (v, t) = Some (w', s')" "I v" for v t
    using that by simp
  show ?thesis
    using assms(1) unfolding mqtt_event.simps
    by (simp only: split: if_split_asm)
       ((erule stays same go_kept [OF _ assms(2)] done_kept [OF _ assms(2)] again_kept [OF _ assms(2,3)] connect;
         simp add: assms(2) exchanges_kept(7,8))+)
qed

end

interpretation known: mqtt_invariant mops mqtt_known for mops :: "'q mqtt_ops"
proof
  fix w v :: "'q mqtt"
  show "mqtt_known w \<Longrightarrow> mqtt_events v = mqtt_events w \<Longrightarrow> mqtt_known v" using mqtt_known_cong [of v w] by blast
next
  fix f and w w' :: "'q mqtt"
  assume "f \<in> exchange_steps mops" "f w = Some w'" "mqtt_known w"
  then show "mqtt_known w'" unfolding exchange_steps_def
    by (elim insertE emptyE)
       (auto elim: connect_known subscribe_known send_publish_known fixed_known pubrel_known start_known(2) processing_known
          simp: extract_known)
qed

end
