(* ===== verification/Mqtt_Reachable.thy ===== *)
theory Mqtt_Reachable
  imports Mqtt_Process App_Start
begin

text \<open>
  The life of the MQTT machine of \<open>SDK/core/mqtt_communication_protocol.c\<close>: from its initialisation
  on, whatever operations are started and however the module and the application behave, it rests at
  a leaf of its tree.
\<close>

section \<open>Initialisation\<close>

lemma list17:
  assumes "length xs = 17"
  obtains x0 x1 x2 x3 x4 x5 x6 x7 x8 x9 xa xb xc xd xe xf xg
  where "xs = [x0, x1, x2, x3, x4, x5, x6, x7, x8, x9, xa, xb, xc, xd, xe, xf, xg]"
  using assms by (auto simp: eval_nat_numeral length_Suc_conv)

lemma mqtt_protocol_init_ok:
  assumes lists: "length (state_current m) = 17" "length (state_parent m) = 17"
    and events: "length (cb_storage (mqtt_events (world m))) = 10" "0 < unat esize" "unat esize < 6553"
  obtains a' w where "mqtt_protocol_init ops esize (a, m) =
      Some (a', mqtt_tree STATE_MQTT_DISCONNECTED STATE_MQTT_SEND_CONNECT None None w)"
    "mqtt_queue w" "waiting w = []" "length (mqtt_buffer w) = unat MQTT_BUFFER_SIZE" "link w = link (world m)"
proof -
  from lists(1) obtain x0 x1 x2 x3 x4 x5 x6 x7 x8 x9 xa xb xc xd xe xf xg where
    xs: "state_current m = [x0, x1, x2, x3, x4, x5, x6, x7, x8, x9, xa, xb, xc, xd, xe, xf, xg]" by (rule list17)
  from lists(2) obtain y0 y1 y2 y3 y4 y5 y6 y7 y8 y9 ya yb yc yd ye yf yg where
    ys: "state_parent m = [y0, y1, y2, y3, y4, y5, y6, y7, y8, y9, ya, yb, yc, yd, ye, yf, yg]" by (rule list17)
  have "length (cb_storage (mqtt_events (world m))) = unat (10 :: u16)" "0 < unat (10 :: u16)" "unat (10 :: u16) * unat esize < 65536"
    using events by simp_all
  then obtain b where b: "circular_buffer_init \<lparr>event_type = 0, event_timestamp = 0\<rparr> (mqtt_events (world m))
      (cb_storage (mqtt_events (world m))) 10 esize True True = Some b" "cb_inv b" "cb_list b = []" "cb_wrap b = True"
      "cb_capacity b = unat (10 :: u16)"
    by (rule init_clears)
  let ?w = "clear_mqtt_buffer ((world m)\<lparr>mqtt_events := b\<rparr>)"
  obtain a' where "mqtt_protocol_init ops esize (a, m) =
      Some (a', mqtt_tree STATE_MQTT_DISCONNECTED STATE_MQTT_SEND_CONNECT None None ?w)"
    using xs ys
    by (simp add: mqtt_protocol_init_def b(1) state_machine_init_state_def mqtt_tree_def mqtt_parents_def array_set_def
        mqtt_state_defs eval_nat_numeral Let_def)
  moreover have "mqtt_queue ?w" "waiting ?w = []"
    using b by (simp_all add: mqtt_queue_def waiting_def event_queue_def event_types_def clear_mqtt_buffer_def)
  moreover have "length (mqtt_buffer ?w) = unat MQTT_BUFFER_SIZE" "link ?w = link (world m)" by (simp_all add: clear_mqtt_buffer_def)
  ultimately show thesis by (rule that)
qed

section \<open>Life\<close>

text \<open>
  What happens to it: an operation is started, it is processed, or the variables the pointers lead to
  and the state of the module change.
\<close>

definition mqtt_operations :: "'q mqtt_step set" where
  "mqtt_operations =
     {mqtt_protocol_send_sensor_readings_and_system_data r i rs is | r i rs is. True} \<union>
     {mqtt_protocol_send_actuator_state act s | act s. True} \<union>
     {mqtt_protocol_receive_commands c | c. True} \<union> {mqtt_protocol_disconnect}"

inductive mqtt_reachable :: "'p platform_ops \<Rightarrow> 'q mqtt_ops \<Rightarrow> 'q mqttm \<Rightarrow> bool" for ops mops where
  start: "length (state_current m) = 17 \<Longrightarrow> length (state_parent m) = 17 \<Longrightarrow>
    length (cb_storage (mqtt_events (world m))) = 10 \<Longrightarrow> 0 < unat esize \<Longrightarrow> unat esize < 6553 \<Longrightarrow>
    mqtt_protocol_init ops esize (a, m) = Some (a', m') \<Longrightarrow> mqtt_reachable ops mops m'"
| operation: "mqtt_reachable ops mops m \<Longrightarrow> f \<in> mqtt_operations \<Longrightarrow> lift_mqtt f m = Some m' \<Longrightarrow> mqtt_reachable ops mops m'"
| process: "mqtt_reachable ops mops m \<Longrightarrow> mqtt_communinication_protocol_process mops m = Some (p, m') \<Longrightarrow>
    mqtt_reachable ops mops m'"
| outside: "mqtt_reachable ops mops m \<Longrightarrow>
    mqtt_reachable ops mops (m\<lparr>world := (world m)\<lparr>mqtt_buffer := buf, mqtt_buffer_position := pos, memory := mem, link := q\<rparr>\<rparr>)"

inductive_cases mqtt_reachableE: "mqtt_reachable ops mops m"

lemma posted_known: "posted_type e \<Longrightarrow> e \<noteq> EVENT_ENTERING_STATE \<and> e \<noteq> EVENT_LEAVING_STATE"
  by (auto simp: posted_type_def mqtt_event_defs mqtt_state_defs)

context mqtt_invariant
begin

lemma operation_kept:
  assumes "f \<in> mqtt_operations" "f w = Some w'" "I w"
  shows "I w'"
proof -
  from assms(1,2) obtain v e u where u: "add_mqtt_communication_protocol_event_type e v = Some u" "posted_type e"
      "mqtt_events v = mqtt_events w" "mqtt_buffer v = mqtt_buffer w" "link v = link w"
      "w' = u \<or> w' = clear_communication_protocol_data u"
    unfolding mqtt_operations_def Un_iff
    by (elim disjE)
       (fastforce simp: mqtt_protocol_send_sensor_readings_and_system_data_def mqtt_protocol_send_actuator_state_def
        mqtt_protocol_receive_commands_def mqtt_protocol_disconnect_def clear_communication_protocol_data_def
        intro: known_types)+
  from kept_cong [OF assms(3) u(3-5)] have "I v" .
  with post_kept [OF u(1) _ u(2)] u(6) show ?thesis by auto
qed

lemma process_kept:
  assumes m: "at_leaf s (world m) m" "I (world m)"
    and run: "mqtt_communinication_protocol_process mops m = Some (p, m')"
  shows "\<exists>s. at_leaf s (world m') m' \<and> I (world m')"
proof (cases "waiting (world m)")
  case Nil
  from kept_known [OF m(2)] Nil obtain b where "mqtt_communinication_protocol_process mops m = Some (False, m\<lparr>world := (world m)\<lparr>mqtt_events := b\<rparr>\<rparr>)"
    "mqtt_queue ((world m)\<lparr>mqtt_events := b\<rparr>)" "event_types b = []"
    using process_empty mqtt_known_def by metis
  with run have "m' = m\<lparr>world := (world m)\<lparr>mqtt_events := b\<rparr>\<rparr>" "mqtt_known ((world m)\<lparr>mqtt_events := b\<rparr>)"
    by (auto simp: mqtt_known_def waiting_def)
  with kept_queue [OF m(2)] at_leaf_world(2) [OF m(1), of "(world m)\<lparr>mqtt_events := b\<rparr>"] show ?thesis by auto
next
  case (Cons e es)
  with kept_known [OF m(2)] have q: "mqtt_queue (world m)" and e: "posted_type e" and es: "\<forall>e \<in> set es. posted_type e"
    by (auto simp: mqtt_known_def)
  from process_first [OF m(1) q Cons] posted_known [OF e] obtain b where
    b: "mqtt_queue ((world m)\<lparr>mqtt_events := b\<rparr>)" "event_types b = es"
    "ends_at (mqtt_communinication_protocol_process mops m) (mqtt_event mops e ((world m)\<lparr>mqtt_events := b\<rparr>, s))"
    by metis
  with run obtain w' s' where step: "mqtt_event mops e ((world m)\<lparr>mqtt_events := b\<rparr>, s) = Some (w', s')" "at_leaf s' w' m'"
    by (auto simp: ends_at_def option_rel_Some1)
  from b es have "mqtt_known ((world m)\<lparr>mqtt_events := b\<rparr>)" by (simp add: mqtt_known_def waiting_def)
  with event_kept [OF step(1) kept_queue [OF m(2)] e] at_leaf_world(1) [OF step(2)] step(2) show ?thesis by auto
qed

end

lemma reachable_known:
  assumes "mqtt_reachable ops mops m"
  shows "\<exists>s. at_leaf s (world m) m \<and> mqtt_known (world m)"
  using assms
proof induction
  case (start m esize a a' m')
  from mqtt_protocol_init_ok [OF start(1-5), of ops a] obtain a'' w where
    "mqtt_protocol_init ops esize (a, m) = Some (a'', mqtt_tree STATE_MQTT_DISCONNECTED STATE_MQTT_SEND_CONNECT None None w)"
    "mqtt_queue w" "waiting w = []" by metis
  moreover have "at_leaf STATE_MQTT_DISCONNECTED w (mqtt_tree STATE_MQTT_DISCONNECTED STATE_MQTT_SEND_CONNECT None None w)"
    unfolding at_leaf_def top_state_def by auto
  ultimately show ?case using start(6) by (auto simp: mqtt_known_def)
next
  case (operation m f m')
  then obtain s w' where s: "at_leaf s (world m) m" "mqtt_known (world m)" and w': "f (world m) = Some w'" "m' = m\<lparr>world := w'\<rparr>"
    by (auto simp: lift_mqtt_def)
  with at_leaf_world(2) [OF s(1)] known.operation_kept [OF operation(2) w'(1) s(2)] show ?case by auto
next
  case (process m p m')
  then show ?case using known.process_kept by blast
next
  case (outside m buf pos mem q)
  then obtain s where s: "at_leaf s (world m) m" "mqtt_known (world m)" by blast
  with at_leaf_world(2) [OF s(1)] show ?case by auto
qed

text \<open>C21: At every moment of its life the MQTT machine rests at one of the fifteen leaves of its tree, with the
  active states above it, and what waits in its queue are the eleven events of the protocol or 16, the number of a state
  that the handlers post for an answer with a wrong identifier and that no handler knows.\<close>

theorem mqtt_rests_at_leaf:
  assumes "mqtt_reachable ops mops m"
  shows "\<exists>s. at_leaf s (world m) m \<and> mqtt_queue (world m) \<and>
    (\<forall>e \<in> set (waiting (world m)). e \<le> EVENT_COMMUNICATION_MODULE_DONE \<or> e = of_nat STATE_MQTT_DISCONNECTING)"
  using reachable_known [OF assms] by (auto simp: mqtt_known_def posted_type_def)

end
