(* ===== verification/Mqtt_Link.thy ===== *)
theory Mqtt_Link
  imports Mqtt_Reachable Mqtt_Round_Trip
begin

text \<open>
  The contract between \<open>SDK/core/mqtt_communication_protocol.c\<close> and the communication module under it:
  they share the MQTT buffer, so the protocol may hand over no more bytes than it has, and the module
  and the cipher leave its length as it is.
\<close>

section \<open>Packets stay in their buffer\<close>

lemma put_bytes_length:
  assumes "put_bytes p k bs = Some p'"
  shows "length p' = length p" "k + length bs \<le> length p"
  using assms by (auto simp: put_bytes_def split: if_splits)

lemma connect_fits:
  assumes "mqtt_connect b p = Some (n, p')" "connect_flags b \<noteq> None"
  shows "length p' = length p" "unat (of_int n :: u16) \<le> length p"
proof -
  from assms obtain q k bs where q: "put_bytes p 0 (replicate (unat k) 0) = Some q" and p': "put_bytes q 0 bs = Some p'"
    and n: "n = uint (k :: u16)"
    by (auto simp: mqtt_connect_def bind_eq_Some_conv Let_def)
  from put_bytes_length [OF q] put_bytes_length [OF p'] n
  show "length p' = length p" "unat (of_int n :: u16) \<le> length p" by simp_all
qed

lemma subscribe_fits:
  assumes "mqtt_subscribe b t p sz = Some (n, mid, b', p')"
  shows "length p' = length p" "unat (ucast n :: u16) \<le> length p"
proof -
  let ?u = "ucast (of_nat (length t) :: u16) + 3 :: u8"
  from assms obtain y q where y: "unat ?u \<le> length y" and q: "put_bytes p 0 (replicate (unat sz) 0) = Some q"
    and p': "put_bytes q 0 ([MQTT_MSG_SUBSCRIBE OR 0x02, 2 + ?u, high_byte (broker_seq b), low_byte (broker_seq b)] @ take (unat ?u) y) = Some p'"
    and n: "n = 4 + ?u"
    by (auto simp: mqtt_subscribe_def bind_eq_Some_conv Let_def array_prefix_eq_Some)
  have "unat (4 + v) \<le> 4 + unat v" for v :: u8 by (simp add: unat_word_ariths(1))
  with n have "unat n \<le> 4 + unat ?u" by blast
  with put_bytes_length [OF q] put_bytes_length [OF p'] y
  show "length p' = length p" "unat (ucast n :: u16) \<le> length p" by (simp_all add: unat_ucast_8_16)
qed

lemma publish_fits:
  assumes "mqtt_publish_with_qos b t r 0 p n = Some (k, mid, b', p')" "length t + 5 + unat n \<le> length p"
  shows "length p' = length p" "unat k \<le> length p"
proof -
  from assms(1) have k: "k = of_nat (length t) + 2 + 0 + 3 + n" and "\<exists>bs. put_bytes p 0 bs = Some p'"
    by (auto simp: mqtt_publish_with_qos_def bind_eq_Some_conv Let_def)
  then show "length p' = length p" using put_bytes_length(1) by blast
  have "k = of_nat (length t + 5 + unat n)" unfolding k by (simp add: algebra_simps)
  then have "unat k \<le> length t + 5 + unat n" by (simp only: unat_of_nat) (rule mod_less_eq_dividend)
  with assms(2) show "unat k \<le> length p" by simp
qed

section \<open>Messages stay in theirs\<close>

text \<open>A message that only grows, in a buffer of the same size.\<close>

definition grows :: "char_buffer \<Rightarrow> char_buffer \<Rightarrow> bool" where
  "grows b b' \<longleftrightarrow> message_buffer b' \<and> cb_capacity b' = cb_capacity b \<and> length (cb_list b) \<le> length (cb_list b')"

lemma grows_refl: "message_buffer b \<Longrightarrow> grows b b"
  by (simp add: grows_def)

lemma grows_trans [trans]: "grows a b \<Longrightarrow> grows b c \<Longrightarrow> grows a c"
  by (auto simp: grows_def)

lemma add_text_grows:
  assumes "add_text b s = Some (p, b')" "message_buffer b"
  shows "grows b b'"
proof -
  have s: "length s < 128" using assms(1) by (simp add: add_text_def bind_eq_Some_conv split: if_splits)
  obtain c where c: "add_text b s = Some (length s \<le> room b, c)" "message_buffer c" "cb_capacity c = cb_capacity b"
    "cb_list c = (if length s \<le> room b then cb_list b @ s else cb_list b)" by (rule add_text_ok [OF assms(2) s])
  then have "length (cb_list b) \<le> length (cb_list c)" by (simp del: length_cb_list)
  with c assms(1) show ?thesis by (simp add: grows_def)
qed

lemma append_line_grows: "append_line b s = Some b' \<Longrightarrow> message_buffer b \<Longrightarrow> grows b b'"
  by (auto simp: append_line_def dest: add_text_grows)

lemma append_lines_grows: "append_lines b ts = Some b' \<Longrightarrow> message_buffer b \<Longrightarrow> grows b b'"
proof (induction b ts rule: append_lines.induct)
  case (2 b t ts)
  then obtain b1 where b1: "append_line b t = Some b1" "append_lines b1 ts = Some b'" by (auto simp: bind_eq_Some_conv)
  from append_line_grows [OF b1(1) 2(3)] 2(1) [OF _ b1(2)] b1(1) show ?case
    by (meson grows_def grows_trans)
qed (simp add: grows_refl)

lemma networks_listed: "append_detected_wifi_networks ns mb = Some mb' \<Longrightarrow> message_buffer mb \<Longrightarrow> grows mb mb'"
  unfolding append_detected_wifi_networks_def by (rule append_lines_grows)

lemma char_add_grows:
  assumes "circular_buffer_add b x = Some (p, b')" "message_buffer b"
  shows "grows b b'"
proof (cases "cb_full b")
  case True
  with assms show ?thesis by (auto simp: circular_buffer_add_def message_buffer_def grows_refl)
next
  case False
  from assms(2) have b: "cb_inv b" "\<not> cb_wrap b" "cb_capacity b \<le> 32768" "cb_head b = 0" by (simp_all add: message_buffer_def)
  from cb_push [OF b(1), of x] False obtain c where
    c: "circular_buffer_add b x = Some (True, c)" "cb_inv c" "cb_same_config b c" "cb_list c = keep_last (cb_capacity b) (cb_list b @ [x])"
    by blast
  have "length (cb_list b) < cb_capacity b"
    using False b(1) cb_count_le [OF b(1)] by (simp add: cb_full_iff le_neq_implies_less)
  with c b assms(1) head_add [OF c(1) b(2)] show ?thesis by (auto simp: grows_def message_buffer_def cb_same_configD)
qed

lemma end_message_grows:
  assumes "end_message b = Some b'" "message_buffer b" "2 \<le> length (cb_list b)"
  shows "grows b b'"
proof -
  obtain c where c: "end_message b = Some c" "message_buffer c" "cb_capacity c = cb_capacity b"
    "cb_list c = butlast (cb_list b) @ [COMMAND_TERMINATOR]" by (rule end_message_ok [OF assms(2,3)])
  then have "length (cb_list c) = length (cb_list b)" using assms(3) by (simp del: length_cb_list)
  with c assms(1) show ?thesis by (simp add: grows_def)
qed

lemma readings_grow:
  assumes run: "serialize_sensor_readings_loop fmt ss rb start n mb = Some r" and mb: "message_buffer mb"
  shows "grows mb (snd r)"
proof -
  have "message_buffer mb \<longrightarrow> grows mb (snd r)"
  proof (rule serialize_sensor_readings_loop.raw_induct
      [where P = "\<lambda>fmt ss rb start n mb r. message_buffer mb \<longrightarrow> grows mb (snd r)", OF _ run], intro impI)
    fix loop fmt ss rb start n mb r
    assume IH: "\<And>fmt ss rb start n mb r. loop fmt ss rb start n mb = Some r \<Longrightarrow> message_buffer mb \<longrightarrow> grows mb (snd r)"
      and body: "do {
        r \<leftarrow> circular_buffer_peek rb (start + n);
        (case snd r of None \<Rightarrow> Some (n, mb)
         | Some reading \<Rightarrow> do {
             p \<leftarrow> add_text mb (serialize_sensor_reading fmt ss reading);
             (if fst p then loop fmt ss rb start (n + 1) (snd p) else Some (n, snd p))
           })
      } = Some r"
      and mb: "message_buffer mb"
    from body show "grows mb (snd r)"
      by (auto simp: bind_eq_Some_conv grows_refl mb split: option.splits if_splits
          dest!: IH add_text_grows [OF _ mb] simp: grows_def)
  qed
  with mb show ?thesis by blast
qed

lemma system_items_grow:
  assumes run: "serialize_system_data_loop pe sb start n mb = Some r" and mb: "message_buffer mb"
  shows "grows mb (snd r)"
proof -
  have "message_buffer mb \<longrightarrow> grows mb (snd r)"
  proof (rule serialize_system_data_loop.raw_induct
      [where P = "\<lambda>pe sb start n mb r. message_buffer mb \<longrightarrow> grows mb (snd r)", OF _ run], intro impI)
    fix loop pe sb start n mb r
    assume IH: "\<And>pe sb start n mb r. loop pe sb start n mb = Some r \<Longrightarrow> message_buffer mb \<longrightarrow> grows mb (snd r)"
      and body: "do {
        r \<leftarrow> circular_buffer_peek sb (start + n);
        (case snd r of None \<Rightarrow> Some (n, mb)
         | Some item \<Rightarrow> do {
             p \<leftarrow> add_text mb (serialize_system_item pe item);
             (if fst p then do {
                q \<leftarrow> circular_buffer_add (snd p) (CHR ''|'');
                loop pe sb start (n + 1) (snd q)
              } else Some (n, snd p))
           })
      } = Some r"
      and mb: "message_buffer mb"
    from body show "grows mb (snd r)"
      by (auto simp: bind_eq_Some_conv grows_refl mb split: option.splits if_splits
          dest!: IH add_text_grows [OF _ mb] char_add_grows simp: grows_def)
  qed
  with mb show ?thesis by blast
qed

lemma append_readings_grows:
  assumes "append_sensor_readings fmt ss rb start mb split = Some (n, mb')" "message_buffer mb" "2 \<le> length (cb_list mb)"
  shows "grows mb mb'"
proof -
  from assms(1) obtain ok m1 where m1: "(if start = 0 then add_text mb ''READINGS '' else Some (True, mb)) = Some (ok, m1)"
    and rest: "\<not> ok \<and> mb' = m1 \<or> (\<exists>k m2. serialize_sensor_readings fmt ss rb start m1 = Some (k, m2) \<and> (mb' = m2 \<or> end_message m2 = Some mb'))"
    by (auto simp: append_sensor_readings_def bind_eq_Some_conv split: if_splits prod.splits)
  from m1 assms(2) have g1: "grows mb m1" by (auto dest: add_text_grows simp: grows_refl split: if_splits)
  then have m: "message_buffer m1" by (simp add: grows_def)
  have "grows m1 m2" if "serialize_sensor_readings fmt ss rb start m1 = Some (k, m2)" for k m2
    using readings_grow [OF that [unfolded serialize_sensor_readings_def] m] by simp
  with rest g1 assms(3) m show ?thesis
    by (auto simp del: length_cb_list dest!: end_message_grows intro: grows_trans simp: grows_def)
qed

lemma append_system_grows:
  assumes "append_system_info pe sb start mb split = Some (n, mb')" "message_buffer mb" "2 \<le> length (cb_list mb)"
  shows "grows mb mb'"
proof -
  from assms(1) obtain ok m1 where m1: "(if start = 0 then add_text mb ''SYSTEM '' else Some (True, mb)) = Some (ok, m1)"
    and rest: "\<not> ok \<and> mb' = m1 \<or> (\<exists>k m2. serialize_system_data pe sb start m1 = Some (k, m2) \<and> (mb' = m2 \<or> end_message m2 = Some mb'))"
    by (auto simp: append_system_info_def bind_eq_Some_conv split: if_splits prod.splits)
  from m1 assms(2) have g1: "grows mb m1" by (auto dest: add_text_grows simp: grows_refl split: if_splits)
  then have m: "message_buffer m1" by (simp add: grows_def)
  have "grows m1 m2" if "serialize_system_data pe sb start m1 = Some (k, m2)" for k m2
    using system_items_grow [OF that [unfolded serialize_system_data_def] m] by simp
  with rest g1 assms(3) m show ?thesis
    by (auto simp del: length_cb_list dest!: end_message_grows intro: grows_trans simp: grows_def)
qed

lemma append_line_long:
  assumes "append_line mb s = Some mb'" "message_buffer mb" "128 \<le> room mb"
  shows "length s \<le> length (cb_list mb')"
proof -
  from assms(1) have s: "length s < 128" by (auto simp: append_line_def add_text_def bind_eq_Some_conv split: if_splits)
  obtain c where "add_text mb s = Some (length s \<le> room mb, c)"
    "cb_list c = (if length s \<le> room mb then cb_list mb @ s else cb_list mb)"
    using assms(2) s by (rule add_text_ok)
  with assms(1,3) s show ?thesis by (auto simp: append_line_def simp del: length_cb_list)
qed

lemma actuator_state_grows:
  assumes "append_actuator_state act st mb = Some mb'" "message_buffer mb" "128 \<le> room mb"
  shows "grows mb mb'"
proof -
  from assms(1) obtain m1 t m2 where m1: "append_line mb ''STATUS '' = Some m1" and m2: "append_line m1 t = Some m2"
    and m3: "end_message m2 = Some mb'"
    by (auto simp: append_actuator_state_def bind_eq_Some_conv Let_def)
  have g1: "grows mb m1" using m1 assms(2) by (rule append_line_grows)
  then have "grows m1 m2" using append_line_grows [OF m2] by (simp add: grows_def)
  moreover from this append_line_long [OF m1 assms(2,3)] have "2 \<le> length (cb_list m2)"
    by (simp add: grows_def del: length_cb_list)
  ultimately have "grows m2 mb'" using end_message_grows [OF m3] by (simp add: grows_def)
  with g1 \<open>grows m1 m2\<close> show ?thesis by (meson grows_trans)
qed

lemma rtc_grows:
  assumes "append_rtc t mb = Some mb'" "message_buffer mb" "128 \<le> room mb"
  shows "grows mb mb'" "2 \<le> length (cb_list mb')"
  using append_line_grows [of mb] append_line_long [of mb] assms by (fastforce simp: append_rtc_def simp del: length_cb_list)+

text \<open>The buffer of a message begins behind the place of its header.\<close>

lemma message_room:
  assumes "length t < 32" "length buf = unat MQTT_BUFFER_SIZE"
    and init: "circular_buffer_init NUL b (chars_of (drop (3 + length t + 2) buf))
      (of_nat (unat MQTT_BUFFER_SIZE - (3 + length t + 2))) 1 False True = Some mb"
  shows "message_buffer mb" "cb_list mb = []" "cb_capacity mb = unat MQTT_BUFFER_SIZE - (3 + length t + 2)"
proof -
  let ?n = "unat MQTT_BUFFER_SIZE - (3 + length t + 2)"
  have size: "unat MQTT_BUFFER_SIZE = 803" by (simp add: MQTT_BUFFER_SIZE_def)
  then have n: "unat (of_nat ?n :: u16) = ?n" by (simp add: unat_of_nat16)
  obtain c where "circular_buffer_init NUL b (chars_of (drop (3 + length t + 2) buf)) (of_nat ?n) 1 False True = Some c"
    "cb_inv c" "cb_list c = []" "cb_wrap c = False" "cb_capacity c = unat (of_nat ?n :: u16)"
    by (rule init_clears [of "chars_of (drop (3 + length t + 2) buf)" "of_nat ?n" 1 NUL b False])
       (use assms(1,2) n size in \<open>simp_all add: chars_of_def\<close>)
  moreover have "cb_head mb = 0"
    using init by (auto simp: circular_buffer_init_def circular_buffer_clear_def bind_eq_Some_conv Let_def)
  ultimately show "message_buffer mb" "cb_list mb = []" "cb_capacity mb = unat MQTT_BUFFER_SIZE - (3 + length t + 2)"
    using init n size by (simp_all add: message_buffer_def)
qed

section \<open>The contract\<close>

locale exchange_module =
  fixes mops :: "'q mqtt_ops" and ok :: "'q \<Rightarrow> bool"
  assumes send_kept: "module_send mops n q = Some (h, q') \<Longrightarrow> ok q \<Longrightarrow> unat n \<le> unat MQTT_BUFFER_SIZE \<Longrightarrow> ok q'"
    and receive_kept: "module_receive mops MQTT_BUFFER_SIZE q = Some (h, q') \<Longrightarrow> ok q \<Longrightarrow> ok q'"
    and step_kept: "module_step mops h' buf pos q = Some (again, buf', pos', q') \<Longrightarrow> ok q \<Longrightarrow>
      length buf = unat MQTT_BUFFER_SIZE \<Longrightarrow> length buf' = unat MQTT_BUFFER_SIZE \<and> ok q'"
    and scan_kept: "get_surroundig_wifi_networks mops = Some scan \<Longrightarrow> scan q = (ns, q') \<Longrightarrow> ok q \<Longrightarrow> ok q'"
    and encrypt_fits: "mqtt_encrypt mops bs n key = Some (n', bs') \<Longrightarrow> unat n \<le> length bs \<Longrightarrow>
      length bs \<le> unat MQTT_BUFFER_SIZE \<Longrightarrow> length bs' = length bs \<and> unat n' \<le> length bs"
    and decrypt_fits: "mqtt_decrypt mops bs n key = Some bs' \<Longrightarrow> length bs' = length bs"

text \<open>The buffer has its size, and the module is as it should be.\<close>

definition mqtt_fits :: "('q \<Rightarrow> bool) \<Rightarrow> 'q mqtt \<Rightarrow> bool" where
  "mqtt_fits ok w \<longleftrightarrow> mqtt_known w \<and> length (mqtt_buffer w) = unat MQTT_BUFFER_SIZE \<and> ok (link w)"

lemma mqtt_fits_frames [simp]:
  "mqtt_fits ok (w\<lparr>broker := b\<rparr>) = mqtt_fits ok w" "mqtt_fits ok (w\<lparr>message_id := i\<rparr>) = mqtt_fits ok w"
  "mqtt_fits ok (w\<lparr>stack_message_id := i\<rparr>) = mqtt_fits ok w" "mqtt_fits ok (w\<lparr>memory := mem\<rparr>) = mqtt_fits ok w"
  "mqtt_fits ok (w\<lparr>serialized_sensor_readings := n\<rparr>) = mqtt_fits ok w"
  "mqtt_fits ok (w\<lparr>serialized_system_items := n\<rparr>) = mqtt_fits ok w"
  by (simp_all add: mqtt_fits_def)

lemma fits_cleared: "mqtt_fits ok w \<Longrightarrow> mqtt_fits ok (clear_mqtt_buffer w)"
  by (simp add: mqtt_fits_def) (simp add: clear_mqtt_buffer_def)

lemma fits_buffer: "mqtt_fits ok w \<Longrightarrow> length p = length (mqtt_buffer w) \<Longrightarrow> mqtt_fits ok (w\<lparr>mqtt_buffer := p\<rparr>)"
  by (simp add: mqtt_fits_def)

lemma fits_posted:
  assumes "add_mqtt_communication_protocol_event_type e w = Some w'" "mqtt_fits ok w" "posted_type e"
  shows "mqtt_fits ok w'"
proof -
  from assms(1) obtain b where "w' = w\<lparr>mqtt_events := b\<rparr>"
    by (auto simp: add_mqtt_communication_protocol_event_type_def)
  with assms post_known [OF assms(1)] show ?thesis by (simp add: mqtt_fits_def)
qed

section \<open>The protocol keeps it\<close>

context exchange_module
begin

lemma start_sending_fits:
  assumes "start_sending mops n w = Some w'" "mqtt_fits ok w" "unat n \<le> length (mqtt_buffer w)"
  shows "mqtt_fits ok w'"
proof -
  from assms(1) obtain h q where q: "module_send mops n (link w) = Some (h, q)" and
    post: "add_mqtt_communication_protocol_event_type EVENT_COMMUNICATION_MODULE_PROCESS (w\<lparr>module_handle := Some h, link := q\<rparr>) = Some w'"
    by (auto simp: start_sending_def bind_eq_Some_conv)
  from send_kept [OF q] assms(2,3) have "mqtt_fits ok (w\<lparr>module_handle := Some h, link := q\<rparr>)"
    by (simp add: mqtt_fits_def)
  from fits_posted [OF post this] show ?thesis by (simp add: known_types)
qed

lemma start_receiving_fits:
  assumes "start_receiving mops w = Some w'" "mqtt_fits ok w"
  shows "mqtt_fits ok w'"
proof -
  let ?w = "clear_mqtt_buffer w"
  from assms(1) obtain h q where q: "module_receive mops MQTT_BUFFER_SIZE (link ?w) = Some (h, q)" and
    post: "add_mqtt_communication_protocol_event_type EVENT_COMMUNICATION_MODULE_PROCESS (?w\<lparr>module_handle := Some h, link := q\<rparr>) = Some w'"
    by (auto simp: start_receiving_def bind_eq_Some_conv Let_def)
  from receive_kept [OF q] fits_cleared [OF assms(2)] have "mqtt_fits ok (?w\<lparr>module_handle := Some h, link := q\<rparr>)"
    by (simp add: mqtt_fits_def)
  from fits_posted [OF post this] show ?thesis by (simp add: known_types)
qed

lemma processing_fits:
  assumes "module_processing mops w = Some w'" "mqtt_fits ok w"
  shows "mqtt_fits ok w'"
proof -
  from assms(1) obtain h again buf pos q where step: "module_step mops h (mqtt_buffer w) (mqtt_buffer_position w) (link w) = Some (again, buf, pos, q)"
    and post: "add_mqtt_communication_protocol_event_type (if again then EVENT_COMMUNICATION_MODULE_PROCESS
       else EVENT_COMMUNICATION_MODULE_DONE) (w\<lparr>mqtt_buffer := buf, mqtt_buffer_position := pos, link := q\<rparr>) = Some w'"
    by (auto simp: module_processing_def bind_eq_Some_conv)
  from step_kept [OF step] assms(2) have "mqtt_fits ok (w\<lparr>mqtt_buffer := buf, mqtt_buffer_position := pos, link := q\<rparr>)"
    by (simp add: mqtt_fits_def)
  from fits_posted [OF post this] show ?thesis by (simp add: known_types)
qed

lemma fixed_fits:
  assumes "send_fixed_packet mops f w = Some w'" "f \<in> {mqtt_ping, mqtt_disconnect}" "mqtt_fits ok w"
  shows "mqtt_fits ok w'"
proof -
  from assms(1) obtain n p where p: "f (mqtt_buffer (clear_mqtt_buffer w)) = Some (n, p)" and
    send: "start_sending mops n ((clear_mqtt_buffer w)\<lparr>mqtt_buffer := p\<rparr>) = Some w'"
    by (auto simp: send_fixed_packet_def bind_eq_Some_conv Let_def)
  from p assms(2) obtain ty where "put_bytes (mqtt_buffer (clear_mqtt_buffer w)) 0 [ty, 0] = Some p" "n = 2"
    by (auto simp: mqtt_ping_def mqtt_disconnect_def)
  with put_bytes_length [OF this(1)] start_sending_fits [OF send fits_buffer [OF fits_cleared [OF assms(3)]]]
  show ?thesis by simp
qed

lemma connect_step_fits:
  assumes "send_connect mops w = Some w'" "mqtt_fits ok w"
  shows "mqtt_fits ok w'"
proof -
  let ?w = "clear_mqtt_buffer w"
  from assms(1) obtain b n p u v t m where p: "mqtt_connect (mqttlib_init_auth (mqtt_set_alive (mqtt_init_will b t m 0 0) 60) u v) (mqtt_buffer ?w) = Some (n, p)"
    and send: "start_sending mops (of_int n) (?w\<lparr>broker := mqttlib_init_auth (mqtt_set_alive (mqtt_init_will b t m 0 0) 60) u v, mqtt_buffer := p\<rparr>) = Some w'"
    by (auto simp: send_connect_def bind_eq_Some_conv Let_def)
  have "connect_flags (mqttlib_init_auth (mqtt_set_alive (mqtt_init_will b t m 0 0) 60) u v) \<noteq> None"
    by (simp add: connect_flags_def mqttlib_init_auth_def mqtt_set_alive_def mqtt_init_will_def Let_def split: option.splits list.splits)
  note fits = connect_fits [OF p this]
  have "mqtt_fits ok (?w\<lparr>broker := mqttlib_init_auth (mqtt_set_alive (mqtt_init_will b t m 0 0) 60) u v, mqtt_buffer := p\<rparr>)"
    using fits_cleared [OF assms(2)] fits(1) by (simp add: mqtt_fits_def)
  from start_sending_fits [OF send this] fits show ?thesis by simp
qed

lemma subscribe_step_fits:
  assumes "send_subscribe mops w = Some w'" "mqtt_fits ok w"
  shows "mqtt_fits ok w'"
proof -
  let ?w = "clear_mqtt_buffer w"
  from assms(1) obtain t n mid b p where p: "mqtt_subscribe (broker ?w) t (mqtt_buffer ?w) MQTT_BUFFER_SIZE = Some (n, mid, b, p)"
    and send: "start_sending mops (ucast n) (?w\<lparr>broker := b, message_id := mid, mqtt_buffer := p\<rparr>) = Some w'"
    by (auto simp: send_subscribe_def bind_eq_Some_conv Let_def)
  note fits = subscribe_fits [OF p]
  have "mqtt_fits ok (?w\<lparr>broker := b, message_id := mid, mqtt_buffer := p\<rparr>)"
    using fits_cleared [OF assms(2)] fits(1) by (simp add: mqtt_fits_def)
  from start_sending_fits [OF send this] fits show ?thesis by simp
qed

text \<open>A full buffer stays full when it is encrypted; otherwise the size of the cipher is its end.\<close>

lemma encrypted_fits:
  assumes "encrypt_message mops w mb = Some mb'" "message_buffer mb" "cb_capacity mb \<le> unat MQTT_BUFFER_SIZE"
  shows "length (cb_storage mb') = cb_capacity mb" "unat (circular_buffer_size mb') \<le> cb_capacity mb"
proof -
  from assms(2) have mb: "cb_inv mb" "cb_head mb = 0" by (simp_all add: message_buffer_def)
  note size = cb_size_count [OF mb(1)] cb_count_le [OF mb(1)] cb_inv_storage(1) [OF mb(1)]
  have "length (cb_storage mb') = cb_capacity mb \<and> unat (circular_buffer_size mb') \<le> cb_capacity mb"
  proof (cases "cfg_ssl (mem_config (memory w))")
    case True
    with assms(1) size show ?thesis by (simp add: encrypt_message_def)
  next
    case False
    with assms(1) obtain n bs where e: "mqtt_encrypt mops (bytes_of (cb_storage mb)) (circular_buffer_size mb)
        (cfg_device_preshared_key (mem_config (memory w))) = Some (n, bs)" and mb': "mb' = mb\<lparr>cb_storage := chars_of bs, cb_tail := n\<rparr>"
      by (auto simp: encrypt_message_def bind_eq_Some_conv)
    from encrypt_fits [OF e] size assms(3) have fits: "length bs = cb_capacity mb" "unat n \<le> cb_capacity mb" by simp_all
    then have "unat (circular_buffer_size mb') \<le> cb_capacity mb"
      unfolding mb' by (cases "n = 0") (simp_all add: circular_buffer_size_def mb(2) cb_capacity_def word_gt_0)
    with fits(1) show ?thesis unfolding mb' by (simp add: chars_of_def)
  qed
  then show "length (cb_storage mb') = cb_capacity mb" "unat (circular_buffer_size mb') \<le> cb_capacity mb" by blast+
qed

lemma networks_grow:
  assumes "append_networks mops mb w = Some (mb', w')" "message_buffer mb" "mqtt_fits ok w"
  shows "grows mb mb' \<and> mqtt_fits ok w' \<and> mqtt_buffer w' = mqtt_buffer w \<and> memory w' = memory w"
proof (cases "get_surroundig_wifi_networks mops")
  case None
  with assms show ?thesis by (simp add: append_networks_def grows_refl)
next
  case (Some scan)
  obtain ns q where q: "scan (link w) = (ns, q)" by fastforce
  from assms(3) have "mqtt_fits ok (w\<lparr>link := q\<rparr>)" using scan_kept [OF Some q] by (simp add: mqtt_fits_def)
  with Some q assms show ?thesis
    by (auto simp: append_networks_def bind_eq_Some_conv grows_refl
        dest: networks_listed split: if_splits)
qed

lemma stored_grow:
  assumes "append_stored mops w mb = Some (i, r, mb')" "message_buffer mb" "2 \<le> length (cb_list mb)"
  shows "grows mb mb'"
proof -
  from assms(1) obtain m1 where
    m1: "(if sending_system_buffer w then append_system_info (platform_error_text mops) (mem_system (memory w)) 0 mb False
       else Some (0, mb)) = Some (i, m1)" and
    m2: "(if sending_sensor_readings_buffer w then append_sensor_readings (float_text mops) (sensors (mem_sensors (memory w)))
       (mem_readings (memory w)) 0 m1 False else Some (0, m1)) = Some (r, mb')"
    by (auto simp: append_stored_def bind_eq_Some_conv Let_def)
  from m1 assms(2,3) have g: "grows mb m1" by (auto simp: grows_refl dest: append_system_grows split: if_splits)
  with assms(3) have "message_buffer m1" "2 \<le> length (cb_list m1)" by (simp_all add: grows_def)
  with m2 have "grows m1 mb'" by (auto simp: grows_refl dest: append_readings_grows split: if_splits)
  with g show ?thesis by (rule grows_trans)
qed

lemma composed_fits:
  assumes "compose_message mops mb w = Some (mb', w')" "message_buffer mb" "128 \<le> room mb" "mqtt_fits ok w"
    "cb_capacity mb \<le> unat MQTT_BUFFER_SIZE"
  shows "length (cb_storage mb') = cb_capacity mb \<and> unat (circular_buffer_size mb') \<le> cb_capacity mb \<and>
    mqtt_fits ok w' \<and> mqtt_buffer w' = mqtt_buffer w"
proof (cases "sending_actuator w \<noteq> None \<and> sending_actuator_state w \<noteq> None")
  case True
  with assms obtain act st where "append_actuator_state act st mb = Some mb'" "w' = w"
    by (auto simp: compose_message_def bind_eq_Some_conv)
  with actuator_state_grows assms(2-4) have "message_buffer mb'" "cb_capacity mb' = cb_capacity mb" "w' = w"
    by (auto simp: grows_def)
  with assms(4) cb_size_count [of mb'] cb_count_le [of mb'] cb_inv_storage(1) [of mb'] show ?thesis
    by (simp add: message_buffer_def)
next
  case False
  with assms(1) obtain m1 m2 w2 i r m3 where m1: "append_rtc (mem_now (memory w)) mb = Some m1"
    and m2: "append_networks mops m1 w = Some (m2, w2)" and m3: "append_stored mops w2 m2 = Some (i, r, m3)"
    and m4: "encrypt_message mops w2 m3 = Some mb'"
    and w': "w' = w2\<lparr>serialized_system_items := i, serialized_sensor_readings := r\<rparr>"
    by (auto simp: compose_message_def bind_eq_Some_conv split: option.splits)
  note g1 = rtc_grows [OF m1 assms(2,3)]
  then have g2: "grows m1 m2 \<and> mqtt_fits ok w2 \<and> mqtt_buffer w2 = mqtt_buffer w \<and> memory w2 = memory w"
    using networks_grow [OF m2 _ assms(4)] by (simp add: grows_def)
  then have "message_buffer m2" "2 \<le> length (cb_list m2)" using g1 by (simp_all add: grows_def)
  from stored_grow [OF m3 this] g2 g1 have "grows mb m3" by (meson grows_trans)
  with encrypted_fits [OF m4] g2 w' assms(5) show ?thesis by (simp add: grows_def)
qed

lemma publish_step_fits:
  assumes "send_publish mops w = Some w'" "mqtt_fits ok w"
  shows "mqtt_fits ok w'"
proof -
  let ?w = "(clear_mqtt_buffer w)\<lparr>serialized_sensor_readings := 0, serialized_system_items := 0\<rparr>"
  let ?b = "\<lparr>cb_head = 0, cb_tail = 0, cb_storage = [], cb_storage_size = 0, cb_element_size = 0,
        cb_empty = False, cb_full = False, cb_wrap = False\<rparr> :: char_buffer"
  from assms(1) obtain dev t mb mb' v n mid b p where t: "topic_text ''sensors/'' dev [] = Some t"
    and mb: "circular_buffer_init NUL ?b (chars_of (drop (3 + length t + 2) (mqtt_buffer ?w)))
      (of_nat (unat MQTT_BUFFER_SIZE - (3 + length t + 2))) 1 False True = Some mb"
    and mb': "compose_message mops mb ?w = Some (mb', v)"
    and p: "mqtt_publish_with_qos (broker v) t 0 0 (take (3 + length t + 2) (mqtt_buffer v) @ bytes_of (cb_storage mb'))
      (circular_buffer_size mb') = Some (n, mid, b, p)"
    and send: "start_sending mops n (v\<lparr>broker := b, mqtt_buffer := p,
       message_id := (case mid of None \<Rightarrow> message_id v | Some i \<Rightarrow> i), stack_message_id := msg_id (mqtt_message v)\<rparr>) = Some w'"
    unfolding send_publish_def Let_def by (auto simp: bind_eq_Some_conv simp del: One_nat_def)
  have fits: "mqtt_fits ok ?w" "length (mqtt_buffer ?w) = unat MQTT_BUFFER_SIZE" using fits_cleared [OF assms(2)]
    by (simp_all add: mqtt_fits_def)
  have lt: "length t < 32" using t by (auto simp: topic_text_def bind_eq_Some_conv Let_def split: if_splits)
  have size: "unat MQTT_BUFFER_SIZE = 803" by (simp add: MQTT_BUFFER_SIZE_def)
  note msg = message_room [OF lt fits(2) mb]
  have "128 \<le> room mb" using msg(2,3) lt size by (simp del: length_cb_list)
  from composed_fits [OF mb' msg(1) this fits(1)] msg(3) fits(2) lt size
  have v: "unat (circular_buffer_size mb') \<le> 803 - (3 + length t + 2)" "mqtt_fits ok v"
    "length (take (3 + length t + 2) (mqtt_buffer v) @ bytes_of (cb_storage mb')) = 803" by simp_all
  from publish_fits [OF p] v(1,3) lt have "length p = 803" "unat n \<le> 803" by simp_all
  then show ?thesis
    using start_sending_fits [OF send] v(2) size by (simp add: mqtt_fits_def)
qed

lemma pubrel_step_fits:
  "start_sending mops (mqtt_pubrel i) (clear_mqtt_buffer w) = Some w' \<Longrightarrow> mqtt_fits ok w \<Longrightarrow> mqtt_fits ok w'"
  by (erule start_sending_fits, simp only: fits_cleared)
     (simp add: mqtt_pubrel_def clear_mqtt_buffer_def MQTT_BUFFER_SIZE_def)

lemma extract_step_fits:
  assumes "extract_received_commands mops w = Some w'" "mqtt_fits ok w"
  shows "mqtt_fits ok w'"
  using assms
  by (auto simp: extract_received_commands_def Let_def bind_eq_Some_conv mqtt_fits_def dest!: decrypt_fits split: if_splits)

end

sublocale exchange_module \<subseteq> fits: mqtt_invariant mops "mqtt_fits ok"
proof
  fix f w w'
  assume "f \<in> exchange_steps mops" "f w = Some w'" "mqtt_fits ok w"
  then show "mqtt_fits ok w'" unfolding exchange_steps_def
    by (elim insertE emptyE)
       (auto elim: connect_step_fits subscribe_step_fits publish_step_fits fixed_fits start_receiving_fits
          processing_fits extract_step_fits pubrel_step_fits)
qed (auto simp: mqtt_fits_def intro: mqtt_known_cong [THEN iffD2])

end
