(* ===== verification/Socket_Module.thy ===== *)
theory Socket_Module
  imports Wolksensor
begin

text \<open>
  The state machine of the TCP module, \<open>SDK/core/tcp_communication_module.c\<close>, and what the UDP module,
  \<open>SDK/core/udp_communication_module.c\<close>, has in common with it.

  The two files differ in the calls of the driver, in the error codes, in whether they hear that the
  socket was closed, and in the order of two statements; these differences are the record
  \<open>transport\<close>, over which the handlers are defined.  The driver is a state \<open>'h\<close>; each of its
  functions also returns the signals that the module's listeners get while it runs.  An \<open>int\<close>
  is a HOL integer that the driver gives; it is compared and stored with 16 bits.
\<close>

section \<open>The driver\<close>

datatype signal =
    SecondExpired | MillisecondExpired | SocketClosed | PlatformSpecificErrorCode u32
  | WifiConnected | WifiIpAddressAcquired | WifiDisconnected | WifiError

type_synonym ('r, 'h) driver_call = "'h \<Rightarrow> 'r \<times> signal list \<times> 'h"

record ('v, 'h) transport =
  parameters_set :: "'v \<Rightarrow> bool"
  open_call :: "'v \<Rightarrow> (int, 'h) driver_call"
  close_call :: "int \<Rightarrow> (bool, 'h) driver_call"
  send_call :: "'v \<Rightarrow> int \<Rightarrow> u8 list \<Rightarrow> (int, 'h) driver_call"
  receive_call :: "int \<Rightarrow> u16 \<Rightarrow> (int \<times> u8 list, 'h) driver_call"
  hears_closing :: bool
  clears_before_leaving :: bool
  code_operation_failed :: u8
  code_socket_closed :: u8
  code_parameters_missing :: u8

section \<open>The variables\<close>

text \<open>The pointers \<open>data\<close> and \<open>buffer\<close> lead to one array, the packet buffer of the protocol.\<close>

record ('v, 'h) socket =
  socket_events :: event_buffer
  data_size :: u16
  buffer_size :: u16
  packet_buffer :: "u8 list"
  received_data_size :: u16
  open_socket_id :: int
  timeout_timer :: u8
  socket_data :: communication_module_data
  platform_specific_error_code :: u32
  tick_counter :: u16
  open_socket_retries :: u8
  parameters :: 'v
  clock :: u32
  socket_responses :: "string list"
  driver :: 'h

type_synonym ('v, 'h) socketm = "('v, 'h) socket machine"
type_synonym ('v, 'h) socket_step = "('v, 'h) socket \<Rightarrow> ('v, 'h) socket option"
type_synonym ('v, 'h) socket_trans = "nat \<Rightarrow> ('v, 'h) socketm \<Rightarrow> ('v, 'h) socketm option"

definition OPEN_SOCKET_MAX_RETRIES :: u8 where "OPEN_SOCKET_MAX_RETRIES = 3"
definition RECEIVE_TIMEOUT :: u8 where "RECEIVE_TIMEOUT = 3"

definition STATE_SOCKET_CLOSED :: nat where "STATE_SOCKET_CLOSED = 0"
definition STATE_OPENING_SOCKET :: nat where "STATE_OPENING_SOCKET = 1"
definition STATE_SOCKET_OPENED :: nat where "STATE_SOCKET_OPENED = 2"
definition STATE_SOCKET_SEND :: nat where "STATE_SOCKET_SEND = 3"
definition STATE_SOCKET_RECEIVE :: nat where "STATE_SOCKET_RECEIVE = 4"
definition STATE_CLOSING_SOCKET :: nat where "STATE_CLOSING_SOCKET = 5"

lemmas socket_state_defs = STATE_SOCKET_CLOSED_def STATE_OPENING_SOCKET_def STATE_SOCKET_OPENED_def
  STATE_SOCKET_SEND_def STATE_SOCKET_RECEIVE_def STATE_CLOSING_SOCKET_def

definition EVENT_SEND :: u8 where "EVENT_SEND = 0"
definition EVENT_RECEIVE :: u8 where "EVENT_RECEIVE = 1"
definition EVENT_OPEN_SOCKET :: u8 where "EVENT_OPEN_SOCKET = 2"
definition EVENT_CLOSE_SOCKET :: u8 where "EVENT_CLOSE_SOCKET = 3"
definition EVENT_SOCKET_CLOSED :: u8 where "EVENT_SOCKET_CLOSED = 4"
definition EVENT_TIMEOUT :: u8 where "EVENT_TIMEOUT = 5"

lemmas socket_event_defs = EVENT_SEND_def EVENT_RECEIVE_def EVENT_OPEN_SOCKET_def EVENT_CLOSE_SOCKET_def
  EVENT_SOCKET_CLOSED_def EVENT_TIMEOUT_def EVENT_ENTERING_STATE_def EVENT_LEAVING_STATE_def

section \<open>Small functions\<close>

definition lift_world :: "('w \<Rightarrow> 'w option) \<Rightarrow> 'w machine \<Rightarrow> 'w machine option" where
  "lift_world f m = map_option (\<lambda>w. m\<lparr>world := w\<rparr>) (f (world m))"

definition change_world :: "('w \<Rightarrow> 'w) \<Rightarrow> 'w machine \<Rightarrow> 'w machine" where
  "change_world f m = m\<lparr>world := f (world m)\<rparr>"

definition post_socket_event :: "u8 \<Rightarrow> ('v, 'h) socket_step" where
  "post_socket_event ty w =
     map_option (\<lambda>b. w\<lparr>socket_events := b\<rparr>) (add_event_type (clock w) (socket_events w) ty)"

definition clear_socket_events :: "('v, 'h) socket_step" where
  "clear_socket_events w = map_option (\<lambda>b. w\<lparr>socket_events := b\<rparr>)
     (circular_buffer_clear \<lparr>event_type = 0, event_timestamp = 0\<rparr> (socket_events w))"

definition schedule_timeout :: "u8 \<Rightarrow> ('v, 'h) socket \<Rightarrow> ('v, 'h) socket" where
  "schedule_timeout period w = w\<lparr>timeout_timer := period\<rparr>"

definition second_expired_listener :: "('v, 'h) socket_step" where
  "second_expired_listener w =
     (if timeout_timer w \<noteq> 0 then
        (let w = w\<lparr>timeout_timer := timeout_timer w - 1\<rparr> in
         if timeout_timer w = 0 then post_socket_event EVENT_TIMEOUT w else Some w)
      else Some w)"

definition millisecond_expired_listener :: "('v, 'h) socket \<Rightarrow> ('v, 'h) socket" where
  "millisecond_expired_listener w = (if tick_counter w \<noteq> 0 then w\<lparr>tick_counter := tick_counter w + 1\<rparr> else w)"

definition socket_closed_listener :: "('v, 'h) socket_step" where
  "socket_closed_listener w = post_socket_event EVENT_SOCKET_CLOSED w"

definition platform_specific_error_code_listener :: "u32 \<Rightarrow> ('v, 'h) socket \<Rightarrow> ('v, 'h) socket" where
  "platform_specific_error_code_listener error_code w = w\<lparr>platform_specific_error_code := error_code\<rparr>"

text \<open>The listeners that the initialisation registers.\<close>

definition hear :: "('v, 'h) transport \<Rightarrow> signal \<Rightarrow> ('v, 'h) socket_step" where
  "hear T s w = (case s of
     SecondExpired \<Rightarrow> second_expired_listener w
   | MillisecondExpired \<Rightarrow> Some (millisecond_expired_listener w)
   | SocketClosed \<Rightarrow> if hears_closing T then socket_closed_listener w else Some w
   | PlatformSpecificErrorCode c \<Rightarrow> Some (platform_specific_error_code_listener c w)
   | _ \<Rightarrow> Some w)"

fun hear_all :: "('v, 'h) transport \<Rightarrow> signal list \<Rightarrow> ('v, 'h) socket_step" where
  "hear_all T [] w = Some w"
| "hear_all T (s # ss) w = do { w \<leftarrow> hear T s w; hear_all T ss w }"

definition call_driver ::
  "('v, 'h) transport \<Rightarrow> ('r, 'h) driver_call \<Rightarrow> ('v, 'h) socket \<Rightarrow> ('r \<times> ('v, 'h) socket) option" where
  "call_driver T f w = do {
     let (r, ss, h) = f (driver w);
     w \<leftarrow> hear_all T ss (w\<lparr>driver := h\<rparr>);
     Some (r, w)
   }"

definition set_socket_error :: "u8 \<Rightarrow> nat \<Rightarrow> ('v, 'h) socket \<Rightarrow> ('v, 'h) socket" where
  "set_socket_error error_type state w =
     (if cmd_error (socket_data w) = 0
      then w\<lparr>socket_data := (socket_data w)\<lparr>cmd_error := error_type OR of_nat state,
             cmd_platform_code := platform_specific_error_code w\<rparr>\<rparr>
      else w)"

definition stopwatch_start :: "('v, 'h) socket \<Rightarrow> ('v, 'h) socket" where
  "stopwatch_start w = w\<lparr>tick_counter := 1\<rparr>"

definition stopwatch_stop :: "('v, 'h) socket \<Rightarrow> u16 \<times> ('v, 'h) socket" where
  "stopwatch_stop w = (tick_counter w, w\<lparr>tick_counter := 0\<rparr>)"

text \<open>The driver reads \<open>data_size\<close> bytes, and writes what it received at the start of the buffer.\<close>

definition send_data :: "('v, 'h) transport \<Rightarrow> ('v, 'h) socket \<Rightarrow> (int \<times> ('v, 'h) socket) option" where
  "send_data T w = do {
     bytes \<leftarrow> array_prefix (packet_buffer w) (unat (data_size w));
     call_driver T (send_call T (parameters w) (open_socket_id w) bytes) w
   }"

definition receive_data :: "('v, 'h) transport \<Rightarrow> ('v, 'h) socket \<Rightarrow> (int \<times> ('v, 'h) socket) option" where
  "receive_data T w = do {
     ((received, bytes), w) \<leftarrow> call_driver T (receive_call T (open_socket_id w) (buffer_size w)) w;
     c_assert (length bytes \<le> length (packet_buffer w));
     Some (received, w\<lparr>packet_buffer := bytes @ drop (length bytes) (packet_buffer w)\<rparr>)
   }"

section \<open>The handlers\<close>

definition socket_module_handler :: "('v, 'h) socket handler" where
  "socket_module_handler e m = (if e = EVENT_LEAVING_STATE then Some (False, m) else Some (True, m))"

definition state_socket_closed :: "('v, 'h) transport \<Rightarrow> ('v, 'h) socket_trans \<Rightarrow> ('v, 'h) socket handler" where
  "state_socket_closed T tr e m =
     (if e = EVENT_ENTERING_STATE then Some (True, m)
      else if e = EVENT_SEND \<or> e = EVENT_RECEIVE then
        (if parameters_set T (parameters (world m)) then
           processed True (do {
             m \<leftarrow> lift_world (post_socket_event e) m;
             tr STATE_OPENING_SOCKET m
           })
         else Some (True, change_world (set_socket_error (code_parameters_missing T) STATE_SOCKET_CLOSED) m))
      else if e = EVENT_CLOSE_SOCKET then Some (True, m)
      else Some (False, m))"

definition state_opening_socket :: "('v, 'h) transport \<Rightarrow> ('v, 'h) socket_trans \<Rightarrow> ('v, 'h) socket handler" where
  "state_opening_socket T tr e m =
     (if e = EVENT_ENTERING_STATE then
        processed True (lift_world (\<lambda>w.
          post_socket_event EVENT_OPEN_SOCKET
            ((stopwatch_start (w\<lparr>socket_responses := socket_responses w @ [''STATUS CONNECTING_TO_SERVER;'']\<rparr>))
               \<lparr>open_socket_retries := 0\<rparr>)) m)
      else if e = EVENT_OPEN_SOCKET then
        processed True (do {
          (socket_id, w) \<leftarrow> call_driver T (open_call T (parameters (world m))) (world m);
          let m = m\<lparr>world := w\<lparr>open_socket_id := socket_id\<rparr>\<rparr>;
          (if 0 \<le> socket_id then tr STATE_SOCKET_OPENED m
           else do {
             let m = change_world (\<lambda>w. w\<lparr>open_socket_retries := open_socket_retries w + 1\<rparr>) m;
             (if open_socket_retries (world m) = OPEN_SOCKET_MAX_RETRIES then do {
                let m = change_world (set_socket_error (code_operation_failed T) STATE_OPENING_SOCKET) m;
                m \<leftarrow> lift_world clear_socket_events m;
                tr STATE_SOCKET_CLOSED m
              } else lift_world (post_socket_event EVENT_OPEN_SOCKET) m)
           })
        })
      else if e = EVENT_SEND \<or> e = EVENT_RECEIVE then processed True (lift_world (post_socket_event e) m)
      else if e = EVENT_LEAVING_STATE then
        Some (False, change_world (\<lambda>w. let (t, w) = stopwatch_stop w in
          w\<lparr>socket_data := (socket_data w)\<lparr>cmd_connect_to_server_time := t\<rparr>\<rparr>) m)
      else Some (False, m))"

definition state_socket_opened :: "('v, 'h) transport \<Rightarrow> ('v, 'h) socket_trans \<Rightarrow> ('v, 'h) socket handler" where
  "state_socket_opened T tr e m =
     (if e = EVENT_ENTERING_STATE then processed True (set_current_state m (Node STATE_SOCKET_OPENED) None)
      else if e = EVENT_SEND then processed True (tr STATE_SOCKET_SEND m)
      else if e = EVENT_RECEIVE then processed True (tr STATE_SOCKET_RECEIVE m)
      else if e = EVENT_CLOSE_SOCKET then processed True (tr STATE_CLOSING_SOCKET m)
      else if e = EVENT_SOCKET_CLOSED \<and> hears_closing T then
        processed True (do {
          let m = change_world (set_socket_error (code_socket_closed T) STATE_SOCKET_OPENED) m;
          m \<leftarrow> lift_world clear_socket_events m;
          tr STATE_SOCKET_CLOSED m
        })
      else if e = EVENT_LEAVING_STATE then Some (True, m)
      else Some (False, m))"

definition state_socket_send :: "('v, 'h) transport \<Rightarrow> ('v, 'h) socket_trans \<Rightarrow> ('v, 'h) socket handler" where
  "state_socket_send T tr e m =
     (if e = EVENT_ENTERING_STATE then
        processed True (do {
          (sent, w) \<leftarrow> send_data T (stopwatch_start (world m));
          let m = m\<lparr>world := w\<rparr>;
          (if of_int sent = data_size w then tr STATE_SOCKET_OPENED m
           else do {
             let m = change_world (set_socket_error (code_operation_failed T) STATE_SOCKET_SEND) m;
             m \<leftarrow> lift_world clear_socket_events m;
             tr STATE_CLOSING_SOCKET m
           })
        })
      else if e = EVENT_LEAVING_STATE then
        Some (False, change_world (\<lambda>w. let (t, w) = stopwatch_stop w in
          w\<lparr>socket_data := (socket_data w)\<lparr>cmd_data_exchange_time := t\<rparr>\<rparr>) m)
      else Some (False, m))"

definition state_socket_receive :: "('v, 'h) transport \<Rightarrow> ('v, 'h) socket_trans \<Rightarrow> ('v, 'h) socket handler" where
  "state_socket_receive T tr e m =
     (if e = EVENT_ENTERING_STATE then
        processed True (lift_world (\<lambda>w.
          post_socket_event EVENT_RECEIVE (schedule_timeout RECEIVE_TIMEOUT (stopwatch_start w))) m)
      else if e = EVENT_RECEIVE then
        processed True (do {
          (received, w) \<leftarrow> receive_data T (world m);
          (if 0 < received then tr STATE_SOCKET_OPENED (m\<lparr>world := w\<lparr>received_data_size := of_int received\<rparr>\<rparr>)
           else do {
             let m = m\<lparr>world := w\<lparr>received_data_size := 0\<rparr>\<rparr>;
             (if received = 0 then lift_world (post_socket_event EVENT_RECEIVE) m
              else do {
                let m = change_world (set_socket_error (code_operation_failed T) STATE_SOCKET_RECEIVE) m;
                m \<leftarrow> lift_world clear_socket_events m;
                tr STATE_SOCKET_CLOSED m
              })
           })
        })
      else if e = EVENT_SOCKET_CLOSED \<and> hears_closing T then
        processed True (do {
          let m = change_world (set_socket_error (code_socket_closed T) STATE_SOCKET_RECEIVE) m;
          m \<leftarrow> lift_world clear_socket_events m;
          tr STATE_SOCKET_CLOSED m
        })
      else if e = EVENT_TIMEOUT then
        processed True
         (if clears_before_leaving T
          then do { m \<leftarrow> lift_world clear_socket_events m; tr STATE_SOCKET_OPENED m }
          else do { m \<leftarrow> tr STATE_SOCKET_OPENED m; lift_world clear_socket_events m })
      else if e = EVENT_LEAVING_STATE then
        Some (False, change_world (\<lambda>w. let (t, w) = stopwatch_stop (schedule_timeout 0 w) in
          w\<lparr>socket_data := (socket_data w)\<lparr>cmd_data_exchange_time := t\<rparr>\<rparr>) m)
      else Some (False, m))"

definition state_closing_socket :: "('v, 'h) transport \<Rightarrow> ('v, 'h) socket_trans \<Rightarrow> ('v, 'h) socket handler" where
  "state_closing_socket T tr e m =
     (if e = EVENT_ENTERING_STATE then
        processed True (do {
          let w = stopwatch_start (world m);
          (closed, w) \<leftarrow> call_driver T (close_call T (open_socket_id w)) w;
          (if closed then tr STATE_SOCKET_CLOSED (m\<lparr>world := w\<lparr>open_socket_id := - 1\<rparr>\<rparr>)
           else do {
             let m = m\<lparr>world := set_socket_error (code_operation_failed T) STATE_CLOSING_SOCKET w\<rparr>;
             m \<leftarrow> lift_world clear_socket_events m;
             tr STATE_SOCKET_CLOSED m
           })
        })
      else if e = EVENT_LEAVING_STATE then
        Some (False, change_world (\<lambda>w. let (t, w) = stopwatch_stop w in
          w\<lparr>socket_data := (socket_data w)\<lparr>cmd_disconnect_time := t\<rparr>\<rparr>) m)
      else Some (True, m))"

fun socket_handlers :: "('v, 'h) transport \<Rightarrow> ('v, 'h) socket_trans \<Rightarrow> ('v, 'h) socket handlers" where
  "socket_handlers T tr Root = Some socket_module_handler"
| "socket_handlers T tr (Node i) =
     (if i = STATE_SOCKET_CLOSED then Some (state_socket_closed T tr)
      else if i = STATE_OPENING_SOCKET then Some (state_opening_socket T tr)
      else if i = STATE_SOCKET_OPENED then Some (state_socket_opened T tr)
      else if i = STATE_SOCKET_SEND then Some (state_socket_send T tr)
      else if i = STATE_SOCKET_RECEIVE then Some (state_socket_receive T tr)
      else if i = STATE_CLOSING_SOCKET then Some (state_closing_socket T tr)
      else None)"

text \<open>Transitions nest three deep: sending fails, the socket is closed, the machine is closed.\<close>

definition socket_transition :: "('v, 'h) transport \<Rightarrow> ('v, 'h) socket_trans" where
  "socket_transition T = nested_transition (socket_handlers T) 3"

section \<open>The functions of the module\<close>

definition socket_process_event :: "('v, 'h) transport \<Rightarrow> ('v, 'h) socketm \<Rightarrow> (bool \<times> ('v, 'h) socketm) option" where
  "socket_process_event T m = do {
     r \<leftarrow> pop_event (socket_events (world m));
     (let m = m\<lparr>world := (world m)\<lparr>socket_events := snd (snd r)\<rparr>\<rparr> in
      case fst (snd r) of
        None \<Rightarrow> Some (False, m)
      | Some e \<Rightarrow> map_option (\<lambda>r. (True, snd r))
          (state_machine_process_event (socket_handlers T (socket_transition T)) Root (event_type e) m))
   }"

definition socket_send :: "u16 \<Rightarrow> ('v, 'h) socket_step" where
  "socket_send data_in_size w =
     post_socket_event EVENT_SEND (w\<lparr>data_size := data_in_size, socket_data := zero_module_data\<rparr>)"

definition socket_receive :: "u16 \<Rightarrow> ('v, 'h) socket_step" where
  "socket_receive buffer_out_size w =
     post_socket_event EVENT_RECEIVE (w\<lparr>buffer_size := buffer_out_size, socket_data := zero_module_data\<rparr>)"

definition socket_close :: "('v, 'h) socket_step" where
  "socket_close w = post_socket_event EVENT_CLOSE_SOCKET (w\<lparr>socket_data := zero_module_data\<rparr>)"

definition init_socket_states :: "('v, 'h) socketm \<Rightarrow> ('v, 'h) socketm option" where
  "init_socket_states m = do {
     let m = m\<lparr>root_current := Some STATE_SOCKET_CLOSED\<rparr>;
     m \<leftarrow> state_machine_init_state m STATE_SOCKET_CLOSED Root None;
     m \<leftarrow> state_machine_init_state m STATE_OPENING_SOCKET Root None;
     m \<leftarrow> state_machine_init_state m STATE_SOCKET_OPENED Root None;
     m \<leftarrow> state_machine_init_state m STATE_SOCKET_SEND (Node STATE_SOCKET_OPENED) None;
     m \<leftarrow> state_machine_init_state m STATE_SOCKET_RECEIVE (Node STATE_SOCKET_OPENED) None;
     state_machine_init_state m STATE_CLOSING_SOCKET Root None
   }"

definition init_socket_events :: "u16 \<Rightarrow> ('v, 'h) socket_step" where
  "init_socket_events event_size w = map_option (\<lambda>b. w\<lparr>socket_events := b\<rparr>)
     (circular_buffer_init \<lparr>event_type = 0, event_timestamp = 0\<rparr> (socket_events w)
        (cb_storage (socket_events w)) 10 event_size True True)"

end
