(* ===== verification/Socket_Modes.thy ===== *)
theory Socket_Modes
  imports Socket_Module
begin

text \<open>
  What the socket machine of \<open>SDK/core/tcp_communication_module.c\<close> and of its UDP twin promises: it rests in
  one of four modes, sending and closing are over within one call, and a table says what each event
  does.  The refinement lemma says that dispatch through the tree of the seven handlers is the table.
\<close>

section \<open>The tree\<close>

definition socket_parents :: "node list" where
  "socket_parents = [Root, Root, Root, Node STATE_SOCKET_OPENED, Node STATE_SOCKET_OPENED, Root]"

definition socket_tree :: "nat \<Rightarrow> nat option \<Rightarrow> ('v, 'h) socket \<Rightarrow> ('v, 'h) socketm" where
  "socket_tree r k w = \<lparr>root_current = Some r, state_current = [None, None, k, None, None, None],
     state_parent = socket_parents, world = w\<rparr>"

abbreviation "socket_tops \<equiv> {STATE_SOCKET_CLOSED, STATE_OPENING_SOCKET, STATE_SOCKET_OPENED, STATE_CLOSING_SOCKET}"

lemma socket_tree_simps [simp]:
  "world (socket_tree r k w) = w"
  "(socket_tree r k w)\<lparr>world := w'\<rparr> = socket_tree r k w'"
  "(socket_tree r k w)\<lparr>root_current := Some r'\<rparr> = socket_tree r' k w"
  "root_current (socket_tree r k w) = Some r"
  "state_parent (socket_tree r k w) = socket_parents"
  "change_world g (socket_tree r k w) = socket_tree r k (g w)"
  by (simp_all add: socket_tree_def change_world_def)

lemma lift_socket_tree [simp]: "lift_world f (socket_tree r k w) = map_option (socket_tree r k) (f w)"
  by (simp add: lift_world_def)

lemma socket_states_distinct:
  "distinct [STATE_SOCKET_CLOSED, STATE_OPENING_SOCKET, STATE_SOCKET_OPENED, STATE_SOCKET_SEND, STATE_SOCKET_RECEIVE,
     STATE_CLOSING_SOCKET]"
  "distinct [STATE_CLOSING_SOCKET, STATE_SOCKET_RECEIVE, STATE_SOCKET_SEND, STATE_SOCKET_OPENED, STATE_OPENING_SOCKET,
     STATE_SOCKET_CLOSED]"
  by (simp_all add: socket_state_defs)

lemmas socket_state_neq [simp] = socket_states_distinct [simplified]

lemma socket_events_distinct:
  "distinct [EVENT_SEND, EVENT_RECEIVE, EVENT_OPEN_SOCKET, EVENT_CLOSE_SOCKET, EVENT_SOCKET_CLOSED, EVENT_TIMEOUT,
     EVENT_ENTERING_STATE, EVENT_LEAVING_STATE]"
  "distinct [EVENT_LEAVING_STATE, EVENT_ENTERING_STATE, EVENT_TIMEOUT, EVENT_SOCKET_CLOSED, EVENT_CLOSE_SOCKET,
     EVENT_OPEN_SOCKET, EVENT_RECEIVE, EVENT_SEND]"
  by (simp_all add: socket_event_defs)

lemmas socket_event_neq [simp] = socket_events_distinct [simplified]

lemma socket_tree_current [simp]:
  "current_state (socket_tree r k w) Root = Some (Some r)"
  "current_state (socket_tree r k w) (Node STATE_SOCKET_OPENED) = Some k"
  "i \<in> {STATE_SOCKET_CLOSED, STATE_OPENING_SOCKET, STATE_SOCKET_SEND, STATE_SOCKET_RECEIVE, STATE_CLOSING_SOCKET} \<Longrightarrow>
     current_state (socket_tree r k w) (Node i) = Some None"
  "set_current_state (socket_tree r k w) (Node STATE_SOCKET_OPENED) k' = Some (socket_tree r k' w)"
  by (auto simp: socket_tree_def socket_state_defs eval_nat_numeral)

lemma socket_parents_get [simp]:
  "t \<in> socket_tops \<Longrightarrow> array_get socket_parents t = Some Root"
  "t \<in> {STATE_SOCKET_SEND, STATE_SOCKET_RECEIVE} \<Longrightarrow> array_get socket_parents t = Some (Node STATE_SOCKET_OPENED)"
  by (auto simp: socket_parents_def array_get_def socket_state_defs eval_nat_numeral)

lemma socket_handlers_at [simp]:
  "socket_handlers T tr (Node STATE_SOCKET_CLOSED) = Some (state_socket_closed T tr)"
  "socket_handlers T tr (Node STATE_OPENING_SOCKET) = Some (state_opening_socket T tr)"
  "socket_handlers T tr (Node STATE_SOCKET_OPENED) = Some (state_socket_opened T tr)"
  "socket_handlers T tr (Node STATE_SOCKET_SEND) = Some (state_socket_send T tr)"
  "socket_handlers T tr (Node STATE_SOCKET_RECEIVE) = Some (state_socket_receive T tr)"
  "socket_handlers T tr (Node STATE_CLOSING_SOCKET) = Some (state_closing_socket T tr)"
  by simp_all

declare socket_handlers.simps(2) [simp del] current_state.simps(2) [simp del] set_current_state.simps(2) [simp del]

section \<open>The table\<close>

datatype socket_mode = Shut | Opening | Ready | Awaiting

type_synonym ('v, 'h) socket_mode_step = "(('v, 'h) socket \<times> socket_mode) option"

fun socket_mode_tree :: "socket_mode \<Rightarrow> nat option \<Rightarrow> ('v, 'h) socket \<Rightarrow> ('v, 'h) socketm" where
  "socket_mode_tree Shut k = socket_tree STATE_SOCKET_CLOSED k"
| "socket_mode_tree Opening k = socket_tree STATE_OPENING_SOCKET k"
| "socket_mode_tree Ready k = socket_tree STATE_SOCKET_OPENED None"
| "socket_mode_tree Awaiting k = socket_tree STATE_SOCKET_OPENED (Some STATE_SOCKET_RECEIVE)"

definition in_socket_mode :: "socket_mode \<Rightarrow> ('v, 'h) socketm \<Rightarrow> bool" where
  "in_socket_mode md m \<longleftrightarrow> (\<exists>k. m = socket_mode_tree md k (world m))"

definition goes_to :: "socket_mode \<Rightarrow> ('v, 'h) socket option \<Rightarrow> ('v, 'h) socket_mode_step" where
  "goes_to md r = map_option (\<lambda>w. (w, md)) r"

definition record_time :: "(u16 \<Rightarrow> communication_module_data \<Rightarrow> communication_module_data) \<Rightarrow> ('v, 'h) socket \<Rightarrow> ('v, 'h) socket" where
  "record_time f w = w\<lparr>tick_counter := 0, socket_data := f (tick_counter w) (socket_data w)\<rparr>"

definition leave_receiving :: "('v, 'h) socket \<Rightarrow> ('v, 'h) socket" where
  "leave_receiving w = record_time (\<lambda>t. cmd_data_exchange_time_update (\<lambda>_. t)) (schedule_timeout 0 w)"

definition leave_opened :: "socket_mode \<Rightarrow> ('v, 'h) socket \<Rightarrow> ('v, 'h) socket" where
  "leave_opened md w = (if md = Awaiting then leave_receiving w else w)"

definition leave_opening :: "('v, 'h) socket \<Rightarrow> ('v, 'h) socket" where
  "leave_opening w = record_time (\<lambda>t. cmd_connect_to_server_time_update (\<lambda>_. t)) w"

definition begin_opening :: "('v, 'h) socket_step" where
  "begin_opening w = post_socket_event EVENT_OPEN_SOCKET
     (w\<lparr>socket_responses := socket_responses w @ [''STATUS CONNECTING_TO_SERVER;''], tick_counter := 1, open_socket_retries := 0\<rparr>)"

definition begin_receiving :: "('v, 'h) socket_step" where
  "begin_receiving w = post_socket_event EVENT_RECEIVE (w\<lparr>tick_counter := 1, timeout_timer := RECEIVE_TIMEOUT\<rparr>)"

text \<open>An operation that fails sets the first error and drops what waits.\<close>

definition fail :: "u8 \<Rightarrow> nat \<Rightarrow> ('v, 'h) socket_step" where
  "fail error_type state w = clear_socket_events (set_socket_error error_type state w)"

definition closes :: "('v, 'h) transport \<Rightarrow> ('v, 'h) socket_step" where
  "closes T w = do {
     (closed, w) \<leftarrow> call_driver T (close_call T (open_socket_id w)) (stopwatch_start w);
     map_option (record_time (\<lambda>t. cmd_disconnect_time_update (\<lambda>_. t)))
      (if closed then Some (w\<lparr>open_socket_id := - 1\<rparr>) else fail (code_operation_failed T) STATE_CLOSING_SOCKET w)
   }"

definition sends :: "('v, 'h) transport \<Rightarrow> ('v, 'h) socket \<Rightarrow> ('v, 'h) socket_mode_step" where
  "sends T w = do {
     (sent, w) \<leftarrow> send_data T (stopwatch_start w);
     let timed = record_time (\<lambda>t. cmd_data_exchange_time_update (\<lambda>_. t));
     (if of_int sent = data_size w then Some (timed w, Ready)
      else do {
        w \<leftarrow> fail (code_operation_failed T) STATE_SOCKET_SEND w;
        goes_to Shut (closes T (timed w))
      })
   }"

definition opens :: "('v, 'h) transport \<Rightarrow> ('v, 'h) socket \<Rightarrow> ('v, 'h) socket_mode_step" where
  "opens T w = do {
     (socket_id, w) \<leftarrow> call_driver T (open_call T (parameters w)) w;
     let w = w\<lparr>open_socket_id := socket_id\<rparr>;
     (if 0 \<le> socket_id then Some (leave_opening w, Ready)
      else
       (let w = w\<lparr>open_socket_retries := open_socket_retries w + 1\<rparr> in
        if open_socket_retries w = OPEN_SOCKET_MAX_RETRIES
        then goes_to Shut (map_option leave_opening (fail (code_operation_failed T) STATE_OPENING_SOCKET w))
        else goes_to Opening (post_socket_event EVENT_OPEN_SOCKET w)))
   }"

definition receives :: "('v, 'h) transport \<Rightarrow> ('v, 'h) socket \<Rightarrow> ('v, 'h) socket_mode_step" where
  "receives T w = do {
     (received, w) \<leftarrow> receive_data T w;
     (if 0 < received then Some (leave_receiving (w\<lparr>received_data_size := of_int received\<rparr>), Ready)
      else if received = 0 then goes_to Awaiting (post_socket_event EVENT_RECEIVE (w\<lparr>received_data_size := 0\<rparr>))
      else goes_to Shut (map_option leave_receiving
        (fail (code_operation_failed T) STATE_SOCKET_RECEIVE (w\<lparr>received_data_size := 0\<rparr>))))
   }"

definition socket_lost :: "('v, 'h) transport \<Rightarrow> socket_mode \<Rightarrow> ('v, 'h) socket \<Rightarrow> ('v, 'h) socket_mode_step" where
  "socket_lost T md w = goes_to Shut (map_option (leave_opened md)
     (fail (code_socket_closed T) (if md = Awaiting then STATE_SOCKET_RECEIVE else STATE_SOCKET_OPENED) w))"

fun socket_event :: "('v, 'h) transport \<Rightarrow> u8 \<Rightarrow> ('v, 'h) socket \<times> socket_mode \<Rightarrow> ('v, 'h) socket_mode_step" where
  "socket_event T e (w, Shut) =
     (if e = EVENT_SEND \<or> e = EVENT_RECEIVE then
        (if parameters_set T (parameters w) then do { w \<leftarrow> post_socket_event e w; goes_to Opening (begin_opening w) }
         else Some (set_socket_error (code_parameters_missing T) STATE_SOCKET_CLOSED w, Shut))
      else Some (w, Shut))"
| "socket_event T e (w, Opening) =
     (if e = EVENT_OPEN_SOCKET then opens T w
      else if e = EVENT_SEND \<or> e = EVENT_RECEIVE then goes_to Opening (post_socket_event e w)
      else Some (w, Opening))"
| "socket_event T e (w, md) =
     (if e = EVENT_SEND then sends T (leave_opened md w)
      else if e = EVENT_RECEIVE \<and> md = Ready then goes_to Awaiting (begin_receiving w)
      else if e = EVENT_RECEIVE then receives T w
      else if e = EVENT_CLOSE_SOCKET then goes_to Shut (closes T (leave_opened md w))
      else if e = EVENT_SOCKET_CLOSED \<and> hears_closing T then socket_lost T md w
      else if e = EVENT_TIMEOUT \<and> md = Awaiting
      then goes_to Ready (map_option leave_receiving (clear_socket_events w))
      else Some (w, md))"

section \<open>Transitions\<close>

lemmas socket_handler_defs = state_socket_closed_def state_opening_socket_def state_socket_opened_def
  state_socket_send_def state_socket_receive_def state_closing_socket_def

text \<open>What the states that are left do.\<close>

definition left_behind :: "nat \<Rightarrow> ('v, 'h) socket \<Rightarrow> ('v, 'h) socket" where
  "left_behind s w =
     (if s = STATE_OPENING_SOCKET then leave_opening w
      else if s = STATE_SOCKET_SEND then record_time (\<lambda>t. cmd_data_exchange_time_update (\<lambda>_. t)) w
      else if s = STATE_SOCKET_RECEIVE then leave_receiving w
      else if s = STATE_CLOSING_SOCKET then record_time (\<lambda>t. cmd_disconnect_time_update (\<lambda>_. t)) w
      else w)"

lemma left_behind_simps [simp]:
  "left_behind STATE_SOCKET_CLOSED w = w"
  "left_behind STATE_SOCKET_OPENED w = w"
  "left_behind STATE_OPENING_SOCKET w = leave_opening w"
  "left_behind STATE_SOCKET_RECEIVE w = leave_receiving w"
  by (simp_all add: left_behind_def)

lemma leaving_socket_leaf:
  assumes "s \<in> socket_tops \<union> {STATE_SOCKET_SEND, STATE_SOCKET_RECEIVE}" "s = STATE_SOCKET_OPENED \<Longrightarrow> k = None"
  shows "map_option snd (state_machine_process_event (socket_handlers T tr) (Node s) EVENT_LEAVING_STATE (socket_tree r k w)) =
    Some (socket_tree r k (left_behind s w))"
  using assms
  by (elim UnE insertE emptyE)
     (simp_all add: process_event_leaf socket_handler_defs left_behind_def record_time_def leave_opening_def
       leave_receiving_def stopwatch_stop_def schedule_timeout_def)

lemma leaving_opened:
  assumes "c \<in> {STATE_SOCKET_SEND, STATE_SOCKET_RECEIVE}"
  shows "map_option snd (state_machine_process_event (socket_handlers T tr) (Node STATE_SOCKET_OPENED) EVENT_LEAVING_STATE
      (socket_tree r (Some c) w)) = Some (socket_tree r (Some c) (left_behind c w))"
  using assms
  by (elim insertE emptyE)
     (simp_all add: process_event_inner process_event_leaf socket_handler_defs left_behind_def record_time_def
       leave_receiving_def stopwatch_stop_def schedule_timeout_def)

text \<open>The innermost state that is left, from the top state and its child.\<close>

definition innermost_left :: "nat \<Rightarrow> nat option \<Rightarrow> nat" where
  "innermost_left r k = (if r = STATE_SOCKET_OPENED then (case k of None \<Rightarrow> r | Some c \<Rightarrow> c) else r)"

definition proper_children :: "nat option \<Rightarrow> bool" where
  "proper_children k \<longleftrightarrow> k \<in> {None, Some STATE_SOCKET_SEND, Some STATE_SOCKET_RECEIVE}"

lemma proper_children_simps [simp]:
  "proper_children None" "proper_children (Some STATE_SOCKET_SEND)" "proper_children (Some STATE_SOCKET_RECEIVE)"
  by (simp_all add: proper_children_def)

lemma leaving_socket_top:
  assumes "r \<in> socket_tops" "proper_children k"
  shows "map_option snd (state_machine_process_event (socket_handlers T tr) (Node r) EVENT_LEAVING_STATE (socket_tree r k w)) =
    Some (socket_tree r k (left_behind (innermost_left r k) w))"
proof (cases "r = STATE_SOCKET_OPENED \<and> k \<noteq> None")
  case True
  then obtain c where c: "k = Some c" by auto
  with True leaving_opened [of c T tr r w] assms(2) show ?thesis by (simp add: innermost_left_def proper_children_def)
next
  case False
  then have "innermost_left r k = r" by (auto simp: innermost_left_def)
  with False leaving_socket_leaf [of r k T tr r w] assms(1) show ?thesis by auto
qed

lemma entering_top:
  assumes "r \<in> socket_tops" "proper_children k" "t \<in> socket_tops"
  shows "state_machine_transition (socket_handlers T tr) t (socket_tree r k w) = do {
    m \<leftarrow> run_handler (socket_handlers T tr) (Node t) EVENT_ENTERING_STATE (socket_tree t k (left_behind (innermost_left r k) w));
    enter_children (socket_handlers T tr) (Node t) m
  }"
proof -
  have "array_get socket_parents t = Some Root" using assms(3) by (rule socket_parents_get)
  then show ?thesis
    by (simp only: state_machine_transition_def socket_tree_simps socket_tree_current set_current_state.simps option.case
        leaving_socket_top [OF assms(1,2)] bind.bind_lunit)
qed

lemma to_closed:
  assumes "r \<in> socket_tops" "proper_children k"
  shows "nested_transition (socket_handlers T) (Suc n) STATE_SOCKET_CLOSED (socket_tree r k w) =
    Some (socket_tree STATE_SOCKET_CLOSED k (left_behind (innermost_left r k) w))"
  by (simp add: entering_top [OF assms] run_handler_Some enter_children_leaf state_socket_closed_def)

lemma to_opening:
  assumes "r \<in> socket_tops" "proper_children k"
  shows "nested_transition (socket_handlers T) (Suc n) STATE_OPENING_SOCKET (socket_tree r k w) =
    map_option (socket_tree STATE_OPENING_SOCKET k) (begin_opening (left_behind (innermost_left r k) w))"
  by (cases "begin_opening (left_behind (innermost_left r k) w)")
     (simp_all add: entering_top [OF assms] run_handler_Some enter_children_leaf state_opening_socket_def begin_opening_def
       stopwatch_start_def processed_def)

lemma to_opened:
  assumes "r \<in> socket_tops" "proper_children k"
  shows "nested_transition (socket_handlers T) (Suc n) STATE_SOCKET_OPENED (socket_tree r k w) =
    Some (socket_tree STATE_SOCKET_OPENED None (left_behind (innermost_left r k) w))"
  by (simp add: entering_top [OF assms] run_handler_Some enter_children_leaf state_socket_opened_def processed_def)

lemma bind_then_map: "map_option f (do { x \<leftarrow> r; g x }) = do { x \<leftarrow> r; map_option f (g x) }"
  by (cases r) simp_all

text \<open>What the two states do that are left before the call returns.\<close>

lemma entering_closing:
  assumes "proper_children k"
  shows "state_closing_socket T (nested_transition (socket_handlers T) (Suc n)) EVENT_ENTERING_STATE
      (socket_tree STATE_CLOSING_SOCKET k w) =
    map_option (\<lambda>w. (True, socket_tree STATE_SOCKET_CLOSED k w)) (closes T w)"
proof -
  have "innermost_left STATE_CLOSING_SOCKET k = STATE_CLOSING_SOCKET" by (simp add: innermost_left_def)
  then have "nested_transition (socket_handlers T) (Suc n) STATE_SOCKET_CLOSED (socket_tree STATE_CLOSING_SOCKET k v) =
      Some (socket_tree STATE_SOCKET_CLOSED k (record_time (\<lambda>t. cmd_disconnect_time_update (\<lambda>_. t)) v))" for v
    using to_closed [of STATE_CLOSING_SOCKET k T n v] assms by (simp add: left_behind_def del: nested_transition.simps)
  note tr = this
  show ?thesis
  proof (cases "call_driver T (close_call T (open_socket_id w)) (stopwatch_start w)")
    case None
    then show ?thesis by (simp add: state_closing_socket_def closes_def processed_def stopwatch_start_def)
  next
    case (Some r)
    obtain closed v where r: "r = (closed, v)" by fastforce
    show ?thesis
      using Some r
      by (cases closed; cases "clear_socket_events (set_socket_error (code_operation_failed T) STATE_CLOSING_SOCKET v)")
         (simp_all add: state_closing_socket_def closes_def processed_def stopwatch_start_def tr fail_def Let_def
           del: nested_transition.simps)
  qed
qed

lemma to_closing:
  assumes "r \<in> socket_tops" "proper_children k"
  shows "nested_transition (socket_handlers T) (Suc (Suc n)) STATE_CLOSING_SOCKET (socket_tree r k w) =
    map_option (socket_tree STATE_SOCKET_CLOSED k) (closes T (left_behind (innermost_left r k) w))"
  unfolding nested_transition.simps(2) [of _ "Suc n"]
  by (cases "closes T (left_behind (innermost_left r k) w)")
     (simp_all add: entering_top [OF assms] run_handler_Some entering_closing [OF assms(2)] enter_children_leaf
       del: nested_transition.simps)

lemma entering_send:
  "state_socket_send T (nested_transition (socket_handlers T) (Suc (Suc n))) EVENT_ENTERING_STATE
      (socket_tree STATE_SOCKET_OPENED (Some STATE_SOCKET_SEND) w) =
    map_option (\<lambda>(w, md). (True, socket_mode_tree md (Some STATE_SOCKET_SEND) w)) (sends T w)"
proof -
  let ?timed = "record_time (\<lambda>t. cmd_data_exchange_time_update (\<lambda>_. t))"
  have "innermost_left STATE_SOCKET_OPENED (Some STATE_SOCKET_SEND) = STATE_SOCKET_SEND"
    by (simp add: innermost_left_def)
  then have opened: "nested_transition (socket_handlers T) (Suc (Suc n)) STATE_SOCKET_OPENED
        (socket_tree STATE_SOCKET_OPENED (Some STATE_SOCKET_SEND) v) = Some (socket_tree STATE_SOCKET_OPENED None (?timed v))"
    and closed: "nested_transition (socket_handlers T) (Suc (Suc n)) STATE_CLOSING_SOCKET
        (socket_tree STATE_SOCKET_OPENED (Some STATE_SOCKET_SEND) v) =
      map_option (socket_tree STATE_SOCKET_CLOSED (Some STATE_SOCKET_SEND)) (closes T (?timed v))" for v
    using to_opened [of STATE_SOCKET_OPENED "Some STATE_SOCKET_SEND" T "Suc n" v]
      to_closing [of STATE_SOCKET_OPENED "Some STATE_SOCKET_SEND" T n v]
    by (simp_all add: left_behind_def del: nested_transition.simps)
  show ?thesis
  proof (cases "send_data T (stopwatch_start w)")
    case None
    then show ?thesis by (simp add: state_socket_send_def sends_def processed_def)
  next
    case (Some r)
    obtain sent v where r: "r = (sent, v)" by fastforce
    let ?v = "set_socket_error (code_operation_failed T) STATE_SOCKET_SEND v"
    show ?thesis
    proof (cases "clear_socket_events ?v")
      case None
      with Some r show ?thesis
        by (simp add: state_socket_send_def sends_def processed_def opened fail_def Let_def del: nested_transition.simps)
    next
      case (Some u)
      with \<open>send_data T (stopwatch_start w) = Some r\<close> r show ?thesis
        by (cases "closes T (?timed u)")
           (simp_all add: state_socket_send_def sends_def processed_def opened closed fail_def Let_def goes_to_def
             del: nested_transition.simps)
    qed
  qed
qed

lemma leaving_child:
  assumes "k \<in> {None, Some STATE_SOCKET_RECEIVE}"
  shows "(case k of None \<Rightarrow> Some (socket_tree STATE_SOCKET_OPENED k w)
      | Some i \<Rightarrow> map_option snd (state_machine_process_event (socket_handlers T tr) (Node i) EVENT_LEAVING_STATE
          (socket_tree STATE_SOCKET_OPENED k w))) =
    Some (socket_tree STATE_SOCKET_OPENED k (left_behind (innermost_left STATE_SOCKET_OPENED k) w))"
proof (cases k)
  case (Some i)
  with assms leaving_socket_leaf [of i k T tr STATE_SOCKET_OPENED w] show ?thesis by (simp add: innermost_left_def)
qed (simp add: innermost_left_def)

lemma to_send:
  assumes "k \<in> {None, Some STATE_SOCKET_RECEIVE}"
  shows "nested_transition (socket_handlers T) (Suc (Suc (Suc n))) STATE_SOCKET_SEND (socket_tree STATE_SOCKET_OPENED k w) =
    map_option (\<lambda>(w, md). socket_mode_tree md (Some STATE_SOCKET_SEND) w)
      (sends T (left_behind (innermost_left STATE_SOCKET_OPENED k) w))"
proof -
  have "enter_children H (Node STATE_SOCKET_SEND) (socket_mode_tree md k' w) = Some (socket_mode_tree md k' w)"
    for H md k' and w :: "('a, 'b) socket"
    by (cases md) (simp_all add: enter_children_leaf)
  then show ?thesis
    unfolding nested_transition.simps(2) [of _ "Suc (Suc n)"]
    by (cases "sends T (left_behind (innermost_left STATE_SOCKET_OPENED k) w)")
       (auto simp add: state_machine_transition_def leaving_child [OF assms] run_handler_Some entering_send
         simp del: nested_transition.simps)
qed

lemma to_receive:
  assumes "k \<in> {None, Some STATE_SOCKET_RECEIVE}"
  shows "nested_transition (socket_handlers T) (Suc n) STATE_SOCKET_RECEIVE (socket_tree STATE_SOCKET_OPENED k w) =
    map_option (socket_mode_tree Awaiting k) (begin_receiving (left_behind (innermost_left STATE_SOCKET_OPENED k) w))"
  by (cases "begin_receiving (left_behind (innermost_left STATE_SOCKET_OPENED k) w)")
     (simp_all add: state_machine_transition_def leaving_child [OF assms] run_handler_Some enter_children_leaf
       state_socket_receive_def begin_receiving_def stopwatch_start_def schedule_timeout_def processed_def)

lemma socket_moves:
  assumes "proper_children k"
  shows "r \<in> socket_tops \<Longrightarrow> socket_transition T STATE_SOCKET_CLOSED (socket_tree r k w) =
      Some (socket_tree STATE_SOCKET_CLOSED k (left_behind (innermost_left r k) w))"
    and "r \<in> socket_tops \<Longrightarrow> socket_transition T STATE_OPENING_SOCKET (socket_tree r k w) =
      map_option (socket_tree STATE_OPENING_SOCKET k) (begin_opening (left_behind (innermost_left r k) w))"
    and "r \<in> socket_tops \<Longrightarrow> socket_transition T STATE_SOCKET_OPENED (socket_tree r k w) =
      Some (socket_tree STATE_SOCKET_OPENED None (left_behind (innermost_left r k) w))"
    and "r \<in> socket_tops \<Longrightarrow> socket_transition T STATE_CLOSING_SOCKET (socket_tree r k w) =
      map_option (socket_tree STATE_SOCKET_CLOSED k) (closes T (left_behind (innermost_left r k) w))"
    and "k \<noteq> Some STATE_SOCKET_SEND \<Longrightarrow> socket_transition T STATE_SOCKET_SEND (socket_tree STATE_SOCKET_OPENED k w) =
      map_option (\<lambda>(w, md). socket_mode_tree md (Some STATE_SOCKET_SEND) w)
        (sends T (left_behind (innermost_left STATE_SOCKET_OPENED k) w))"
    and "k \<noteq> Some STATE_SOCKET_SEND \<Longrightarrow> socket_transition T STATE_SOCKET_RECEIVE (socket_tree STATE_SOCKET_OPENED k w) =
      map_option (socket_mode_tree Awaiting k) (begin_receiving (left_behind (innermost_left STATE_SOCKET_OPENED k) w))"
  unfolding socket_transition_def numeral_3_eq_3
  by (rule to_closed to_opening to_opened to_closing to_send to_receive; use assms in \<open>auto simp: proper_children_def\<close>)+

lemma innermost_left_simps [simp]:
  "innermost_left STATE_SOCKET_CLOSED k = STATE_SOCKET_CLOSED"
  "innermost_left STATE_OPENING_SOCKET k = STATE_OPENING_SOCKET"
  "innermost_left STATE_SOCKET_OPENED None = STATE_SOCKET_OPENED"
  "innermost_left STATE_SOCKET_OPENED (Some c) = c"
  by (simp_all add: innermost_left_def)

section \<open>Simulation\<close>

definition at_socket :: "socket_mode \<Rightarrow> ('v, 'h) socket \<Rightarrow> ('v, 'h) socketm \<Rightarrow> bool" where
  "at_socket md w m \<longleftrightarrow> (\<exists>k. proper_children k \<and> m = socket_mode_tree md k w)"

definition reaches :: "(bool \<times> ('v, 'h) socketm) option \<Rightarrow> ('v, 'h) socket_mode_step \<Rightarrow> bool" where
  "reaches = rel_option (\<lambda>(p, m) (w, md). p \<and> at_socket md w m)"

lemma at_socket_world:
  assumes "at_socket md w m"
  shows "world m = w" "at_socket md w' (m\<lparr>world := w'\<rparr>)"
  using assms by (cases md; auto simp: at_socket_def)+

lemma reaches_goes_to [simp]:
  "proper_children k \<Longrightarrow> reaches (processed True (map_option (socket_mode_tree md k) r)) (goes_to md r)"
  by (cases r) (auto simp: reaches_def goes_to_def processed_def at_socket_def)

lemma reaches_Some:
  "proper_children k \<Longrightarrow> reaches (Some (True, socket_mode_tree md k w)) (Some (w, md))"
  by (auto simp: reaches_def at_socket_def)

lemmas reaches_trees [simp] =
  reaches_goes_to [where md = Shut, simplified] reaches_goes_to [where md = Opening, simplified]
  reaches_goes_to [where md = Ready and k = None, simplified] reaches_goes_to [where md = Awaiting and k = None, simplified]
  reaches_Some [where md = Shut, simplified] reaches_Some [where md = Opening, simplified]
  reaches_Some [where md = Ready and k = None, simplified] reaches_Some [where md = Awaiting and k = None, simplified]

lemma goes_to_simps [simp]: "goes_to md None = None" "goes_to md (Some w) = Some (w, md)"
  by (simp_all add: goes_to_def)

lemma reaches_None [simp]: "reaches None None"
  by (simp add: reaches_def)

lemma processed_simps [simp]: "processed p None = None" "processed p (Some m) = Some (p, m)"
  by (simp_all add: processed_def)

lemma fst_processed [simp]: "map_option (\<lambda>r. (True, snd r)) (processed True r) = processed True r"
  by (cases r) simp_all

abbreviation row :: "(bool \<times> ('v, 'h) socketm) option \<Rightarrow> (bool \<times> ('v, 'h) socketm) option" where
  "row r \<equiv> map_option (\<lambda>r. (True, snd r)) r"

lemma closed_row:
  assumes "proper_children k" "e \<noteq> EVENT_ENTERING_STATE" "e \<noteq> EVENT_LEAVING_STATE"
  shows "reaches (row (state_socket_closed T (socket_transition T) e (socket_tree STATE_SOCKET_CLOSED k w)))
    (socket_event T e (w, Shut))"
  using assms
  by (cases "post_socket_event e w") (auto simp: state_socket_closed_def socket_moves(2) [OF assms(1)])

lemma opening_row:
  assumes "proper_children k" "e \<noteq> EVENT_ENTERING_STATE" "e \<noteq> EVENT_LEAVING_STATE"
  shows "reaches (row (state_opening_socket T (socket_transition T) e (socket_tree STATE_OPENING_SOCKET k w)))
    (socket_event T e (w, Opening))"
proof (cases "e = EVENT_OPEN_SOCKET")
  case True
  show ?thesis
  proof (cases "call_driver T (open_call T (parameters w)) w")
    case None
    with True show ?thesis by (simp add: state_opening_socket_def opens_def)
  next
    case (Some r)
    obtain i v where r: "r = (i, v)" by fastforce
    let ?w = "v\<lparr>open_socket_id := i, open_socket_retries := open_socket_retries v + 1\<rparr>"
    show ?thesis
      using True Some r assms
      by (cases "clear_socket_events (set_socket_error (code_operation_failed T) STATE_OPENING_SOCKET ?w)")
         (auto simp: state_opening_socket_def opens_def socket_moves(1,3) [OF assms(1)] fail_def Let_def)
  qed
qed (use assms in \<open>auto simp: state_opening_socket_def\<close>)

lemma reaches_sends [simp]:
  "reaches (processed True (map_option (\<lambda>(w, md). socket_mode_tree md (Some STATE_SOCKET_SEND) w) r)) r"
  by (cases r) (auto simp: reaches_Some)

lemma opened_row:
  assumes "e \<noteq> EVENT_ENTERING_STATE" "e \<noteq> EVENT_LEAVING_STATE"
  shows "reaches (row (state_socket_opened T (socket_transition T) e (socket_tree STATE_SOCKET_OPENED None w)))
    (socket_event T e (w, Ready))"
  using assms
  by (cases "clear_socket_events (set_socket_error (code_socket_closed T) STATE_SOCKET_OPENED w)")
     (auto simp: state_socket_opened_def socket_moves socket_lost_def leave_opened_def fail_def)

text \<open>What the receiving state does not process goes to the opened state above it.\<close>

lemma clear_leave_receiving:
  "clear_socket_events (leave_receiving w) = map_option leave_receiving (clear_socket_events w)"
  by (cases "circular_buffer_clear \<lparr>event_type = 0, event_timestamp = 0\<rparr> (socket_events w)")
     (simp_all add: clear_socket_events_def leave_receiving_def record_time_def schedule_timeout_def)

lemma receives_row:
  "reaches (row (state_socket_receive T (socket_transition T) EVENT_RECEIVE
      (socket_tree STATE_SOCKET_OPENED (Some STATE_SOCKET_RECEIVE) w))) (receives T w)"
proof (cases "receive_data T w")
  case None
  then show ?thesis by (simp add: state_socket_receive_def receives_def)
next
  case (Some r)
  obtain n v where r: "r = (n, v)" by fastforce
  let ?w = "v\<lparr>received_data_size := 0\<rparr>"
  show ?thesis
    using Some r
    by (cases "clear_socket_events (set_socket_error (code_operation_failed T) STATE_SOCKET_RECEIVE ?w)")
       (auto simp: state_socket_receive_def receives_def socket_moves fail_def Let_def)
qed

lemma receiving_row:
  assumes "e \<in> {EVENT_RECEIVE, EVENT_TIMEOUT} \<or> e = EVENT_SOCKET_CLOSED \<and> hears_closing T"
  shows "reaches (row (state_socket_receive T (socket_transition T) e
      (socket_tree STATE_SOCKET_OPENED (Some STATE_SOCKET_RECEIVE) w))) (socket_event T e (w, Awaiting))"
proof -
  consider "e = EVENT_RECEIVE" | "e = EVENT_TIMEOUT" | "e = EVENT_SOCKET_CLOSED" "hears_closing T" using assms by auto
  then show ?thesis
  proof cases
    case 1
    with receives_row show ?thesis by simp
  next
    case 2
    then show ?thesis
      by (cases "clear_socket_events w")
         (auto simp: state_socket_receive_def socket_moves clear_leave_receiving)
  next
    case 3
    then show ?thesis
      by (cases "clear_socket_events (set_socket_error (code_socket_closed T) STATE_SOCKET_RECEIVE w)")
         (auto simp: state_socket_receive_def socket_moves socket_lost_def leave_opened_def fail_def)
  qed
qed

lemma receive_handles:
  assumes "e \<in> {EVENT_RECEIVE, EVENT_TIMEOUT} \<or> e = EVENT_SOCKET_CLOSED \<and> hears_closing T"
  obtains r where "state_socket_receive T tr e m = processed True r"
  using assms by (auto simp: state_socket_receive_def)

lemma processed_stops: "do { r \<leftarrow> processed True x; (if \<not> fst r then f r else Some r) } = processed True x"
  by (cases x) simp_all

lemma above_receiving_row:
  assumes "e \<noteq> EVENT_ENTERING_STATE" "e \<noteq> EVENT_LEAVING_STATE"
    and "e \<notin> {EVENT_RECEIVE, EVENT_TIMEOUT}" "\<not> (e = EVENT_SOCKET_CLOSED \<and> hears_closing T)"
  shows "state_socket_receive T (socket_transition T) e m = Some (False, m)"
    and "reaches (row (state_socket_opened T (socket_transition T) e
      (socket_tree STATE_SOCKET_OPENED (Some STATE_SOCKET_RECEIVE) w))) (socket_event T e (w, Awaiting))"
  using assms by (auto simp: state_socket_receive_def state_socket_opened_def socket_moves leave_opened_def)

section \<open>Dispatch\<close>

text \<open>The root handler processes what no state did.\<close>

lemma to_root:
  "e \<noteq> EVENT_LEAVING_STATE \<Longrightarrow> do { r \<leftarrow> x; (if \<not> fst r then socket_module_handler e (snd r) else Some r) } = row x"
  by (cases x) (auto simp: socket_module_handler_def)

lemma dispatch_top:
  assumes "r \<in> socket_tops" "e \<noteq> EVENT_LEAVING_STATE"
  shows "state_machine_process_event (socket_handlers T tr) Root e (socket_tree r k w) =
    row (state_machine_process_event (socket_handlers T tr) (Node r) e (socket_tree r k w))"
  using to_root [OF assms(2)] by (simp add: process_event_inner del: not_not)

lemma socket_dispatch_follows_table:
  assumes m: "at_socket md w m" and e: "e \<noteq> EVENT_ENTERING_STATE" "e \<noteq> EVENT_LEAVING_STATE"
  shows "reaches (state_machine_process_event (socket_handlers T (socket_transition T)) Root e m) (socket_event T e (w, md))"
proof -
  from m obtain k where k: "proper_children k" and m': "m = socket_mode_tree md k w" by (auto simp: at_socket_def)
  show ?thesis
  proof (cases md)
    case Shut
    with m' closed_row [OF k e] e show ?thesis by (simp add: dispatch_top process_event_leaf del: socket_event.simps)
  next
    case Opening
    with m' opening_row [OF k e] e show ?thesis by (simp add: dispatch_top process_event_leaf del: socket_event.simps)
  next
    case Ready
    with m' opened_row [OF e] e show ?thesis by (simp add: dispatch_top process_event_leaf del: socket_event.simps)
  next
    case Awaiting
    let ?m = "socket_tree STATE_SOCKET_OPENED (Some STATE_SOCKET_RECEIVE) w"
    have "state_machine_process_event (socket_handlers T (socket_transition T)) (Node STATE_SOCKET_OPENED) e ?m = do {
        r \<leftarrow> state_socket_receive T (socket_transition T) e ?m;
        (if \<not> fst r then state_socket_opened T (socket_transition T) e (snd r) else Some r)
      }"
      by (simp add: process_event_inner process_event_leaf)
    note dispatch = dispatch_top [of STATE_SOCKET_OPENED e T "socket_transition T" "Some STATE_SOCKET_RECEIVE" w, OF _ e(2), unfolded this]
    show ?thesis
    proof (cases "e \<in> {EVENT_RECEIVE, EVENT_TIMEOUT} \<or> e = EVENT_SOCKET_CLOSED \<and> hears_closing T")
      case True
      then obtain r where r: "state_socket_receive T (socket_transition T) e ?m = processed True r" by (rule receive_handles)
      have "reaches (row (state_socket_receive T (socket_transition T) e ?m)) (socket_event T e (w, Awaiting))"
        using True by (rule receiving_row)
      with r Awaiting m' show ?thesis by (simp add: dispatch processed_stops del: socket_event.simps)
    next
      case False
      with above_receiving_row [OF e, of T] Awaiting m' show ?thesis
        by (simp add: dispatch del: socket_event.simps)
    qed
  qed
qed

text \<open>C5: From every mode, with a tree the mode allows, the hierarchical dispatch of an event on the socket
  machine does what the flat table of modes does: it leads to the same variables and to a tree of the mode the table
  names, and it fails where the table fails.\<close>

theorem socket_follows_table:
  assumes "at_socket md w m" "e \<noteq> EVENT_ENTERING_STATE" "e \<noteq> EVENT_LEAVING_STATE"
  shows "reaches (state_machine_process_event (socket_handlers T (socket_transition T)) Root e m) (socket_event T e (w, md))"
  using assms by (rule socket_dispatch_follows_table)

end
