(* ===== verification/Event_Queue.thy ===== *)
theory Event_Queue
  imports App_Start
begin

text \<open>
  The event queues of the communication modules: ten places that overwrite, filled with
  \<open>add_event_type\<close>, emptied with \<open>circular_buffer_clear\<close> and read with \<open>pop_event\<close>
  (\<open>SDK/core/event_buffer.c\<close>).  On such a queue every operation returns, and what it leaves is named, so
  that the proofs about a module rewrite with it.
\<close>

definition event_fifo :: "event_buffer \<Rightarrow> bool" where
  "event_fifo b \<longleftrightarrow> event_queue b \<and> cb_capacity b = 10"

definition enqueued :: "u32 \<Rightarrow> u8 \<Rightarrow> event_buffer \<Rightarrow> event_buffer" where
  "enqueued now e b = the (add_event_type now b e)"

definition emptied :: "event_buffer \<Rightarrow> event_buffer" where
  "emptied b = the (circular_buffer_clear \<lparr>event_type = 0, event_timestamp = 0\<rparr> b)"

definition dequeued :: "event_buffer \<Rightarrow> event_buffer" where
  "dequeued b = snd (snd (the (pop_event b)))"

lemma enqueue_fifo [simp]:
  assumes "event_fifo b"
  shows "add_event_type now b e = Some (enqueued now e b)" "event_fifo (enqueued now e b)"
    "event_types (enqueued now e b) = keep_last 10 (event_types b @ [e])"
proof -
  from assms have "event_queue b" "cb_capacity b = 10" by (simp_all add: event_fifo_def)
  from this(1) obtain b' where "add_event_type now b e = Some b'" "event_queue b'" "cb_capacity b' = cb_capacity b"
    "event_types b' = keep_last (cb_capacity b) (event_types b @ [e])" by (rule add_event_type_ok)
  with \<open>cb_capacity b = 10\<close> show "add_event_type now b e = Some (enqueued now e b)" "event_fifo (enqueued now e b)"
    "event_types (enqueued now e b) = keep_last 10 (event_types b @ [e])"
    by (simp_all add: enqueued_def event_fifo_def)
qed

lemma empty_fifo [simp]:
  assumes "event_fifo b"
  shows "circular_buffer_clear \<lparr>event_type = 0, event_timestamp = 0\<rparr> b = Some (emptied b)" "event_fifo (emptied b)"
    "event_types (emptied b) = []"
proof -
  from assms have q: "cb_inv b" "cb_wrap b" "cb_capacity b = 10" by (simp_all add: event_fifo_def event_queue_def)
  from q(1) have "0 < unat (cb_storage_size b)" "length (cb_storage b) = unat (cb_storage_size b)"
    "unat (cb_storage_size b) * unat (cb_element_size b) < 65536" by (simp_all add: cb_inv_def)
  then obtain b' where "circular_buffer_clear \<lparr>event_type = 0, event_timestamp = 0\<rparr> b = Some b'" "cb_inv b'" "cb_list b' = []"
    "cb_storage_size b' = cb_storage_size b" "cb_wrap b' = cb_wrap b" by (rule cb_clear)
  with q show "circular_buffer_clear \<lparr>event_type = 0, event_timestamp = 0\<rparr> b = Some (emptied b)" "event_fifo (emptied b)"
    "event_types (emptied b) = []"
    by (simp_all add: emptied_def event_fifo_def event_queue_def event_types_def cb_capacity_def)
qed

lemma dequeue_fifo:
  assumes "event_fifo b"
  obtains (empty) "event_types b = []" "pop_event b = Some (False, None, dequeued b)" "event_fifo (dequeued b)"
      "event_types (dequeued b) = []"
    | (first) ev es where "event_types b = event_type ev # es" "pop_event b = Some (True, Some ev, dequeued b)"
      "event_fifo (dequeued b)" "event_types (dequeued b) = es"
proof -
  from assms have "event_queue b" "cb_capacity b = 10" by (simp_all add: event_fifo_def)
  from this(1) obtain b' where
    b': "pop_event b = Some (cb_list b \<noteq> [], (case cb_list b of [] \<Rightarrow> None | e # _ \<Rightarrow> Some e), b')" "event_queue b'"
      "cb_list b' = tl (cb_list b)" "cb_capacity b' = cb_capacity b" by (rule pop_event_ok)
  with \<open>cb_capacity b = 10\<close> have d: "dequeued b = b'" "event_fifo b'" by (simp_all add: dequeued_def event_fifo_def)
  show thesis
  proof (cases "cb_list b")
    case Nil
    with b' d show ?thesis by (intro empty) (simp_all add: event_types_def)
  next
    case (Cons ev evs)
    with b' d show ?thesis by (intro first [of ev "map event_type evs"]) (simp_all add: event_types_def)
  qed
qed

lemma set_keep_last: "set (keep_last n xs) \<subseteq> set xs"
  unfolding keep_last_def by (rule set_drop_subset)

lemma all_kept: "\<forall>x \<in> set xs. P x \<Longrightarrow> \<forall>x \<in> set (keep_last n xs). P x"
  using set_keep_last by fast

lemma fifo_length: "event_fifo b \<Longrightarrow> length (event_types b) \<le> 10"
  using cb.contents_bound [of b] by (simp add: event_fifo_def event_queue_def event_types_def)

end
