(* ===== verification/Socket_Life.thy ===== *)
theory Socket_Life
  imports Socket_Modes Event_Queue
begin

text \<open>
  The life of a socket machine (\<open>SDK/core/tcp_communication_module.c\<close>): what its queue and its variables
  keep from the initialisation on, whatever the application asks, the driver answers and the
  listeners hear, and that every call of its processing function returns.
\<close>

section \<open>What listening changes\<close>

abbreviation socket_queue :: "('v, 'h) socket \<Rightarrow> bool" where
  "socket_queue w \<equiv> event_fifo (socket_events w)"

abbreviation socket_waiting :: "('v, 'h) socket \<Rightarrow> u8 list" where
  "socket_waiting w \<equiv> event_types (socket_events w)"

lemma post_socket_queue [simp]:
  "socket_queue w \<Longrightarrow> post_socket_event e w = Some (w\<lparr>socket_events := enqueued (clock w) e (socket_events w)\<rparr>)"
  by (simp add: post_socket_event_def)

lemma clear_socket_queue [simp]:
  "socket_queue w \<Longrightarrow> clear_socket_events w = Some (w\<lparr>socket_events := emptied (socket_events w)\<rparr>)"
  by (simp add: clear_socket_events_def)

definition listened :: "('v, 'h) socket \<Rightarrow> ('v, 'h) socket \<Rightarrow> bool" where
  "listened w w' \<longleftrightarrow> socket_queue w' \<and> set (socket_waiting w') \<subseteq> set (socket_waiting w) \<union> {EVENT_TIMEOUT, EVENT_SOCKET_CLOSED} \<and>
     (timeout_timer w = 0 \<longrightarrow> timeout_timer w' = 0) \<and>
     w' = w\<lparr>socket_events := socket_events w', timeout_timer := timeout_timer w',
       platform_specific_error_code := platform_specific_error_code w', tick_counter := tick_counter w'\<rparr>"

lemma listened_refl: "socket_queue w \<Longrightarrow> listened w w"
  by (cases w) (auto simp: listened_def)

lemma listened_trans: "listened u v \<Longrightarrow> listened v w \<Longrightarrow> listened u w"
  unfolding listened_def by (cases u; cases v; cases w) auto

text \<open>The fields that listening leaves alone.\<close>

lemma listened_frame:
  assumes "listened w w'"
  shows "data_size w' = data_size w" "buffer_size w' = buffer_size w" "packet_buffer w' = packet_buffer w"
    "received_data_size w' = received_data_size w" "open_socket_id w' = open_socket_id w"
    "socket_data w' = socket_data w" "open_socket_retries w' = open_socket_retries w" "parameters w' = parameters w"
    "clock w' = clock w" "socket_responses w' = socket_responses w" "driver w' = driver w"
    "socket_queue w'" "timeout_timer w = 0 \<Longrightarrow> timeout_timer w' = 0"
  using assms unfolding listened_def by (cases w; cases w'; simp)+

lemma post_listened:
  assumes "socket_queue w" "e \<in> {EVENT_TIMEOUT, EVENT_SOCKET_CLOSED}"
  shows "listened w (w\<lparr>socket_events := enqueued (clock w) e (socket_events w)\<rparr>)"
  using assms set_keep_last [of 10 "socket_waiting w @ [e]"] by (cases w) (auto simp: listened_def)

lemma hear_listened:
  assumes "socket_queue w"
  obtains w' where "hear T s w = Some w'" "listened w w'"
proof (cases s)
  case SecondExpired
  let ?t = "timeout_timer w - 1"
  let ?w = "w\<lparr>timeout_timer := ?t\<rparr>"
  have "timeout_timer w \<noteq> 0 \<Longrightarrow> listened w ?w"
    using assms by (cases w) (auto simp: listened_def)
  note decremented = this
  let ?v = "?w\<lparr>socket_events := enqueued (clock w) EVENT_TIMEOUT (socket_events w)\<rparr>"
  have posted: "listened ?w ?v" using post_listened [of ?w EVENT_TIMEOUT] assms by simp
  consider "timeout_timer w = 0" | "timeout_timer w = 1" | "timeout_timer w \<noteq> 0" "timeout_timer w \<noteq> 1" by blast
  then show ?thesis
  proof cases
    case 1
    with SecondExpired listened_refl [OF assms] show ?thesis
      by (intro that [of w]) (simp_all add: hear_def second_expired_listener_def)
  next
    case 2
    with SecondExpired assms listened_trans [OF decremented posted] show ?thesis
      by (intro that [of ?v]) (simp_all add: hear_def second_expired_listener_def)
  next
    case 3
    with SecondExpired decremented show ?thesis
      by (intro that [of ?w]) (simp_all add: hear_def second_expired_listener_def)
  qed
next
  case MillisecondExpired
  moreover have "listened w (millisecond_expired_listener w)"
    using assms by (cases w) (auto simp: listened_def millisecond_expired_listener_def)
  ultimately show ?thesis by (intro that) (simp_all add: hear_def)
next
  case SocketClosed
  with assms post_listened [OF assms, of EVENT_SOCKET_CLOSED] listened_refl [OF assms] show ?thesis
    by (cases "hears_closing T") (auto intro!: that simp: hear_def socket_closed_listener_def)
next
  case (PlatformSpecificErrorCode c)
  moreover have "listened w (platform_specific_error_code_listener c w)"
    using assms by (cases w) (auto simp: listened_def platform_specific_error_code_listener_def)
  ultimately show ?thesis by (intro that) (simp_all add: hear_def)
qed (use that listened_refl [OF assms] in \<open>simp_all add: hear_def\<close>)

lemma hear_all_listened:
  assumes "socket_queue w"
  obtains w' where "hear_all T ss w = Some w'" "listened w w'"
proof -
  have "\<exists>w'. hear_all T ss w = Some w' \<and> listened w w'" using assms
  proof (induction ss arbitrary: w)
    case (Cons s ss)
    obtain v where v: "hear T s w = Some v" "listened w v" using Cons.prems by (rule hear_listened)
    from Cons.IH [OF listened_frame(12) [OF v(2)]] obtain u where "hear_all T ss v = Some u" "listened v u" by blast
    with v listened_trans show ?case by fastforce
  qed (use listened_refl in auto)
  with that show thesis by blast
qed

lemma call_driver_ok:
  assumes "socket_queue w"
  obtains w' where "call_driver T f w = Some (fst (f (driver w)), w')" "listened (w\<lparr>driver := snd (snd (f (driver w)))\<rparr>) w'"
proof -
  let ?w = "w\<lparr>driver := snd (snd (f (driver w)))\<rparr>"
  have "socket_queue ?w" using assms by simp
  then obtain w' where "hear_all T (fst (snd (f (driver w)))) ?w = Some w'" "listened ?w w'" by (rule hear_all_listened)
  with that show thesis by (simp add: call_driver_def split_def Let_def)
qed

section \<open>What every event keeps\<close>

text \<open>The driver gives at most as many bytes as it was asked for.\<close>

definition driver_fits :: "('v, 'h) transport \<Rightarrow> bool" where
  "driver_fits T \<longleftrightarrow> (\<forall>i n h. length (snd (fst (receive_call T i n h))) \<le> unat n)"

definition socket_events_known :: "('v, 'h) socket \<Rightarrow> bool" where
  "socket_events_known w \<longleftrightarrow> socket_queue w \<and> (\<forall>e \<in> set (socket_waiting w). e < 6)"

definition sizes_fit :: "('v, 'h) socket \<Rightarrow> bool" where
  "sizes_fit w \<longleftrightarrow> unat (data_size w) \<le> length (packet_buffer w) \<and> unat (buffer_size w) \<le> length (packet_buffer w)"

definition socket_ok :: "socket_mode \<Rightarrow> ('v, 'h) socket \<Rightarrow> bool" where
  "socket_ok md w \<longleftrightarrow> socket_events_known w \<and> sizes_fit w \<and>
     (md = Ready \<or> md = Awaiting \<longrightarrow> 0 \<le> open_socket_id w) \<and> (timeout_timer w \<noteq> 0 \<longrightarrow> md = Awaiting)"

lemma known_socket_events [simp]:
  "EVENT_SEND < 6" "EVENT_RECEIVE < 6" "EVENT_OPEN_SOCKET < 6" "EVENT_CLOSE_SOCKET < 6" "EVENT_SOCKET_CLOSED < 6"
  "EVENT_TIMEOUT < 6"
  by (simp_all add: socket_event_defs)

lemma listened_known: "listened w w' \<Longrightarrow> socket_events_known w \<Longrightarrow> socket_events_known w'"
  by (auto simp: listened_def socket_events_known_def)

text \<open>The frame of a step: what the sizes depend on.\<close>

definition same_sizes :: "('v, 'h) socket \<Rightarrow> ('v, 'h) socket \<Rightarrow> bool" where
  "same_sizes w w' \<longleftrightarrow> data_size w' = data_size w \<and> buffer_size w' = buffer_size w \<and>
     length (packet_buffer w') = length (packet_buffer w)"

lemma same_sizes_trans: "same_sizes u v \<Longrightarrow> same_sizes v w \<Longrightarrow> same_sizes u w"
  by (simp add: same_sizes_def)

lemma listened_same_sizes: "listened w w' \<Longrightarrow> same_sizes w w'"
  by (simp add: same_sizes_def listened_frame)

lemma same_sizes_fit: "same_sizes w w' \<Longrightarrow> sizes_fit w' = sizes_fit w"
  by (simp add: same_sizes_def sizes_fit_def)

text \<open>What is left for the mode to promise.\<close>

definition step_safe :: "('v, 'h) socket \<Rightarrow> ('v, 'h) socket_mode_step \<Rightarrow> bool" where
  "step_safe w r \<longleftrightarrow> (\<exists>w' md'. r = Some (w', md') \<and> socket_ok md' w' \<and> same_sizes w w')"

lemma step_safeI: "r = Some (w', md') \<Longrightarrow> socket_ok md' w' \<Longrightarrow> same_sizes w w' \<Longrightarrow> step_safe w r"
  by (auto simp: step_safe_def)

lemma socket_okI:
  "socket_events_known w \<Longrightarrow> sizes_fit w \<Longrightarrow> (md = Ready \<or> md = Awaiting \<Longrightarrow> 0 \<le> open_socket_id w) \<Longrightarrow>
   (timeout_timer w \<noteq> 0 \<Longrightarrow> md = Awaiting) \<Longrightarrow> socket_ok md w"
  by (auto simp: socket_ok_def)

lemma known_enqueued [simp]:
  "socket_events_known w \<Longrightarrow> e < 6 \<Longrightarrow> socket_events_known (w\<lparr>socket_events := enqueued n e (socket_events w)\<rparr>)"
proof -
  assume w: "socket_events_known w" and e: "e < 6"
  then have "\<forall>x \<in> set (socket_waiting w @ [e]). x < 6" by (simp add: socket_events_known_def)
  from all_kept [OF this, of 10] w show ?thesis by (simp add: socket_events_known_def)
qed

lemma known_emptied [simp]:
  "socket_events_known w \<Longrightarrow> socket_events_known (w\<lparr>socket_events := emptied (socket_events w)\<rparr>)"
  by (simp add: socket_events_known_def)

lemma known_queue: "socket_events_known w \<Longrightarrow> socket_queue w"
  by (simp add: socket_events_known_def)

lemmas step_defs = record_time_def leave_receiving_def leave_opened_def leave_opening_def schedule_timeout_def
  stopwatch_start_def

lemma set_socket_error_frame [simp]:
  "socket_events (set_socket_error c s w) = socket_events w" "data_size (set_socket_error c s w) = data_size w"
  "buffer_size (set_socket_error c s w) = buffer_size w" "packet_buffer (set_socket_error c s w) = packet_buffer w"
  "timeout_timer (set_socket_error c s w) = timeout_timer w" "open_socket_id (set_socket_error c s w) = open_socket_id w"
  "driver (set_socket_error c s w) = driver w" "parameters (set_socket_error c s w) = parameters w"
  "clock (set_socket_error c s w) = clock w"
  by (simp_all add: set_socket_error_def)

lemma fail_ok:
  assumes "socket_events_known w"
  obtains w' where "fail c s w = Some w'" "socket_events_known w'" "socket_waiting w' = []" "same_sizes w w'"
    "timeout_timer w' = timeout_timer w" "open_socket_id w' = open_socket_id w" "driver w' = driver w"
    "socket_data w' = socket_data (set_socket_error c s w)"
proof (rule that)
  let ?v = "set_socket_error c s w"
  show "fail c s w = Some (?v\<lparr>socket_events := emptied (socket_events ?v)\<rparr>)"
    using known_queue [OF assms] by (simp add: fail_def)
  show "socket_events_known (?v\<lparr>socket_events := emptied (socket_events ?v)\<rparr>)"
    using assms by (simp add: socket_events_known_def)
qed (use known_queue [OF assms] in \<open>simp_all add: same_sizes_def\<close>)

lemma closes_ok:
  assumes "socket_events_known w" "timeout_timer w = 0"
  obtains w' where "closes T w = Some w'" "socket_events_known w'" "timeout_timer w' = 0" "same_sizes w w'"
proof -
  let ?c = "close_call T (open_socket_id w) (driver w)"
  have "socket_queue (stopwatch_start w)" using known_queue [OF assms(1)] by (simp add: stopwatch_start_def)
  then obtain v where v: "call_driver T (close_call T (open_socket_id w)) (stopwatch_start w) = Some (fst ?c, v)"
    "listened ((stopwatch_start w)\<lparr>driver := snd (snd ?c)\<rparr>) v"
    using call_driver_ok [of "stopwatch_start w" T "close_call T (open_socket_id w)"] by (auto simp: stopwatch_start_def)
  have known: "socket_events_known v" and same: "same_sizes w v" and zero: "timeout_timer v = 0"
    using listened_known [OF v(2)] listened_same_sizes [OF v(2)] listened_frame(13) [OF v(2)] assms
    by (simp_all add: stopwatch_start_def same_sizes_def socket_events_known_def)
  obtain u where u: "fail (code_operation_failed T) STATE_CLOSING_SOCKET v = Some u" "socket_events_known u" "same_sizes v u"
    "timeout_timer u = timeout_timer v" using fail_ok [OF known] by metis
  show thesis
  proof (cases "fst ?c")
    case True
    let ?w = "record_time (\<lambda>t. cmd_disconnect_time_update (\<lambda>_. t)) (v\<lparr>open_socket_id := - 1\<rparr>)"
    show ?thesis
      by (rule that [of ?w]) (use True v(1) known same zero in \<open>simp_all add: closes_def record_time_def same_sizes_def socket_events_known_def\<close>)
  next
    case False
    let ?w = "record_time (\<lambda>t. cmd_disconnect_time_update (\<lambda>_. t)) u"
    show ?thesis
      by (rule that [of ?w]) (use False v(1) u same zero in \<open>simp_all add: closes_def record_time_def same_sizes_def socket_events_known_def\<close>)
  qed
qed

text \<open>The calls of the driver that the handlers make.\<close>

lemma call_ok:
  assumes "socket_events_known w"
  obtains w' where "call_driver T f w = Some (fst (f (driver w)), w')" "socket_events_known w'" "same_sizes w w'"
    "timeout_timer w = 0 \<Longrightarrow> timeout_timer w' = 0" "open_socket_id w' = open_socket_id w"
    "packet_buffer w' = packet_buffer w" "open_socket_retries w' = open_socket_retries w"
proof -
  obtain w' where w': "call_driver T f w = Some (fst (f (driver w)), w')"
    "listened (w\<lparr>driver := snd (snd (f (driver w)))\<rparr>) w'" using call_driver_ok [OF known_queue [OF assms]] .
  from listened_known [OF w'(2)] listened_same_sizes [OF w'(2)] listened_frame [OF w'(2)] assms show thesis
    by (intro that [OF w'(1)]) (simp_all add: socket_events_known_def same_sizes_def)
qed

lemma closes_safe:
  assumes "socket_events_known w" "sizes_fit w" "timeout_timer w = 0"
  shows "step_safe w (goes_to Shut (closes T w))"
proof -
  obtain w' where w': "closes T w = Some w'" "socket_events_known w'" "timeout_timer w' = 0" "same_sizes w w'"
    using closes_ok [OF assms(1,3)] .
  with same_sizes_fit [OF w'(4)] assms(2) show ?thesis
    by (intro step_safeI [where w' = w' and md' = Shut]) (simp_all add: socket_ok_def)
qed

lemma sends_safe:
  assumes w: "socket_events_known w" "sizes_fit w" "timeout_timer w = 0" "0 \<le> open_socket_id w"
  shows "step_safe w (sends T w)"
proof -
  let ?w = "stopwatch_start w"
  let ?timed = "record_time (\<lambda>t. cmd_data_exchange_time_update (\<lambda>_. t))"
  let ?bytes = "take (unat (data_size w)) (packet_buffer w)"
  let ?f = "send_call T (parameters w) (open_socket_id w) ?bytes"
  have "socket_events_known ?w" using w(1) by (simp add: socket_events_known_def stopwatch_start_def)
  then obtain v where v: "call_driver T ?f ?w = Some (fst (?f (driver w)), v)" "socket_events_known v" "same_sizes ?w v"
      "timeout_timer ?w = 0 \<Longrightarrow> timeout_timer v = 0" "open_socket_id v = open_socket_id w"
    by (rule call_ok [of ?w T ?f]) (simp add: stopwatch_start_def)
  have sent: "send_data T ?w = Some (fst (?f (driver w)), v)"
    using v(1) w(2) by (simp add: send_data_def stopwatch_start_def sizes_fit_def)
  have same: "same_sizes w v" and zero: "timeout_timer v = 0"
    using v(3,4) w(3) by (simp_all add: stopwatch_start_def same_sizes_def)
  show ?thesis
  proof (cases "of_int (fst (?f (driver w))) = data_size v")
    case True
    show ?thesis
      by (rule step_safeI [where w' = "?timed v" and md' = Ready])
         (use True sent v same same_sizes_fit [OF same] zero w in
           \<open>simp_all add: sends_def socket_ok_def record_time_def same_sizes_def socket_events_known_def sizes_fit_def\<close>)
  next
    case False
    obtain u where u: "fail (code_operation_failed T) STATE_SOCKET_SEND v = Some u" "socket_events_known u" "same_sizes v u"
      "timeout_timer u = timeout_timer v" using fail_ok [OF v(2)] by metis
    have "sizes_fit u" using same_sizes_fit [OF same] same_sizes_fit [OF u(3)] w(2) by simp
    then have "step_safe (?timed u) (goes_to Shut (closes T (?timed u)))"
      using u zero by (intro closes_safe) (simp_all add: record_time_def socket_events_known_def sizes_fit_def)
    then obtain w' md' where "goes_to Shut (closes T (?timed u)) = Some (w', md')" "socket_ok md' w'" "same_sizes (?timed u) w'"
      by (auto simp: step_safe_def)
    moreover have "same_sizes w (?timed u)" using same u(3) by (simp add: same_sizes_def record_time_def)
    ultimately show ?thesis using False sent u(1) same_sizes_trans
      by (intro step_safeI [where w' = w' and md' = md']) (auto simp: sends_def)
  qed
qed

lemma opens_safe:
  assumes w: "socket_events_known w" "sizes_fit w" "timeout_timer w = 0"
  shows "step_safe w (opens T w)"
proof -
  let ?f = "open_call T (parameters w)"
  obtain v where v: "call_driver T ?f w = Some (fst (?f (driver w)), v)" "socket_events_known v" "same_sizes w v"
    "timeout_timer w = 0 \<Longrightarrow> timeout_timer v = 0" using call_ok [OF w(1)] by metis
  let ?v = "v\<lparr>open_socket_id := fst (?f (driver w))\<rparr>"
  let ?u = "?v\<lparr>open_socket_retries := open_socket_retries v + 1\<rparr>"
  have u: "socket_events_known ?u" using v(2) by (simp add: socket_events_known_def)
  have q: "socket_queue ?u" using known_queue [OF u] .
  note fit = same_sizes_fit [OF v(3)]
  consider (opened) "0 \<le> fst (?f (driver w))" | (failed) "\<not> 0 \<le> fst (?f (driver w))" "open_socket_retries ?u = OPEN_SOCKET_MAX_RETRIES"
    | (again) "\<not> 0 \<le> fst (?f (driver w))" "open_socket_retries ?u \<noteq> OPEN_SOCKET_MAX_RETRIES" by blast
  then show ?thesis
  proof cases
    case opened
    show ?thesis
      by (rule step_safeI [where w' = "leave_opening ?v" and md' = Ready])
         (use opened v w fit in \<open>simp_all add: opens_def socket_ok_def leave_opening_def record_time_def same_sizes_def
           socket_events_known_def sizes_fit_def\<close>)
  next
    case failed
    obtain x where x: "fail (code_operation_failed T) STATE_OPENING_SOCKET ?u = Some x" "socket_events_known x" "same_sizes ?u x"
      "timeout_timer x = timeout_timer ?u" using fail_ok [OF u] by metis
    have "step_safe w (Some (leave_opening x, Shut))"
      by (rule step_safeI [where w' = "leave_opening x" and md' = Shut])
         (use v x w fit in \<open>simp_all add: socket_ok_def leave_opening_def record_time_def same_sizes_def
           socket_events_known_def sizes_fit_def\<close>)
    with failed v(1) x(1) show ?thesis by (simp add: opens_def)
  next
    case again
    let ?x = "?u\<lparr>socket_events := enqueued (clock ?u) EVENT_OPEN_SOCKET (socket_events ?u)\<rparr>"
    have "step_safe w (Some (?x, Opening))"
      by (rule step_safeI [where w' = ?x and md' = Opening])
         (use v w fit known_enqueued [OF u, of EVENT_OPEN_SOCKET] in \<open>simp_all add: socket_ok_def same_sizes_def sizes_fit_def\<close>)
    with again v(1) q show ?thesis by (simp add: opens_def)
  qed
qed

lemma receive_data_ok:
  assumes "driver_fits T" "socket_events_known w" "sizes_fit w"
  obtains n w' where "receive_data T w = Some (n, w')" "socket_events_known w'" "same_sizes w w'"
    "open_socket_id w' = open_socket_id w" "n = fst (fst (receive_call T (open_socket_id w) (buffer_size w) (driver w)))"
proof -
  let ?f = "receive_call T (open_socket_id w) (buffer_size w)"
  obtain v where v: "call_driver T ?f w = Some (fst (?f (driver w)), v)" "socket_events_known v" "same_sizes w v"
    "open_socket_id v = open_socket_id w" using call_ok [OF assms(2)] by metis
  obtain n bs where r: "fst (?f (driver w)) = (n, bs)" by fastforce
  let ?w = "v\<lparr>packet_buffer := bs @ drop (length bs) (packet_buffer v)\<rparr>"
  have "length bs \<le> unat (buffer_size w)" using assms(1) r by (metis driver_fits_def snd_conv)
  then have "length bs \<le> length (packet_buffer v)" using assms(3) v(3) by (simp add: sizes_fit_def same_sizes_def)
  with v r show thesis
    by (intro that [of n ?w]) (simp_all add: receive_data_def socket_events_known_def same_sizes_def)
qed

lemma receives_safe:
  assumes w: "driver_fits T" "socket_events_known w" "sizes_fit w" "0 \<le> open_socket_id w"
  shows "step_safe w (receives T w)"
proof -
  obtain n v where v: "receive_data T w = Some (n, v)" "socket_events_known v" "same_sizes w v" "open_socket_id v = open_socket_id w"
    using receive_data_ok [OF w(1-3)] by metis
  let ?v = "v\<lparr>received_data_size := 0\<rparr>"
  have known: "socket_events_known ?v" using v(2) by (simp add: socket_events_known_def)
  note fit = same_sizes_fit [OF v(3)]
  consider (some) "0 < n" | (none) "n = 0" | (failed) "n < 0" by linarith
  then show ?thesis
  proof cases
    case some
    show ?thesis
      by (rule step_safeI [where w' = "leave_receiving (v\<lparr>received_data_size := of_int n\<rparr>)" and md' = Ready])
         (use some v w fit in \<open>simp_all add: receives_def socket_ok_def step_defs same_sizes_def socket_events_known_def sizes_fit_def\<close>)
  next
    case none
    let ?x = "?v\<lparr>socket_events := enqueued (clock ?v) EVENT_RECEIVE (socket_events ?v)\<rparr>"
    have "step_safe w (Some (?x, Awaiting))"
      by (rule step_safeI [where w' = ?x and md' = Awaiting])
         (use v w fit known_enqueued [OF known, of EVENT_RECEIVE] in \<open>simp_all add: socket_ok_def same_sizes_def sizes_fit_def\<close>)
    with none v(1) known_queue [OF known] show ?thesis by (simp add: receives_def)
  next
    case failed
    obtain x where x: "fail (code_operation_failed T) STATE_SOCKET_RECEIVE ?v = Some x" "socket_events_known x" "same_sizes ?v x"
      using fail_ok [OF known] by metis
    have "step_safe w (Some (leave_receiving x, Shut))"
      by (rule step_safeI [where w' = "leave_receiving x" and md' = Shut])
         (use v x w fit in \<open>simp_all add: socket_ok_def step_defs same_sizes_def socket_events_known_def sizes_fit_def\<close>)
    with failed v(1) x(1) show ?thesis by (simp add: receives_def)
  qed
qed

text \<open>Steps that only post, clear or record.\<close>

lemma lost_safe:
  assumes "socket_events_known w" "sizes_fit w"
  shows "step_safe w (goes_to Shut (map_option (leave_opened Awaiting) (fail c s w)))"
    and "timeout_timer w = 0 \<Longrightarrow> step_safe w (goes_to Shut (fail c s w))"
proof -
  obtain x where x: "fail c s w = Some x" "socket_events_known x" "same_sizes w x" "timeout_timer x = timeout_timer w"
    using fail_ok [OF assms(1)] by metis
  have "step_safe w (Some (leave_receiving x, Shut))"
    by (rule step_safeI [where w' = "leave_receiving x" and md' = Shut])
       (use x assms in \<open>simp_all add: socket_ok_def step_defs same_sizes_def socket_events_known_def sizes_fit_def\<close>)
  with x show "step_safe w (goes_to Shut (map_option (leave_opened Awaiting) (fail c s w)))"
    by (simp add: leave_opened_def)
  show "timeout_timer w = 0 \<Longrightarrow> step_safe w (goes_to Shut (fail c s w))"
    by (rule step_safeI [where w' = x and md' = Shut])
       (use x assms in \<open>simp_all add: socket_ok_def same_sizes_def sizes_fit_def\<close>)
qed

lemma stays_safe: "socket_ok md w \<Longrightarrow> step_safe w (Some (w, md))"
  by (rule step_safeI) (simp_all add: same_sizes_def)

lemma posts_safe:
  assumes "socket_events_known w" "sizes_fit w" "e < 6"
    and "md = Ready \<or> md = Awaiting \<Longrightarrow> 0 \<le> open_socket_id w" "timeout_timer w \<noteq> 0 \<Longrightarrow> md = Awaiting" "same_sizes v w"
  shows "step_safe v (goes_to md (post_socket_event e w))"
  by (rule step_safeI [where w' = "w\<lparr>socket_events := enqueued (clock w) e (socket_events w)\<rparr>" and md' = md])
     (use assms known_queue [OF assms(1)] in \<open>auto simp: socket_ok_def same_sizes_def sizes_fit_def\<close>)

lemma shut_event_safe:
  assumes "socket_ok Shut w"
  shows "step_safe w (socket_event T e (w, Shut))"
proof (cases "(e = EVENT_SEND \<or> e = EVENT_RECEIVE) \<and> parameters_set T (parameters w)")
  case True
  from assms have w: "socket_events_known w" "sizes_fit w" "timeout_timer w = 0" by (auto simp: socket_ok_def)
  let ?v = "w\<lparr>socket_events := enqueued (clock w) e (socket_events w)\<rparr>"
  let ?u = "?v\<lparr>socket_responses := socket_responses w @ [''STATUS CONNECTING_TO_SERVER;''], tick_counter := 1, open_socket_retries := 0\<rparr>"
  have "socket_events_known ?v" using w(1) True by (intro known_enqueued) auto
  then have "socket_events_known ?u" by (simp add: socket_events_known_def)
  then have "step_safe w (goes_to Opening (post_socket_event EVENT_OPEN_SOCKET ?u))"
    using w by (intro posts_safe) (simp_all add: sizes_fit_def same_sizes_def)
  with True known_queue [OF w(1)] show ?thesis by (auto simp: begin_opening_def)
next
  case False
  let ?v = "set_socket_error (code_parameters_missing T) STATE_SOCKET_CLOSED w"
  have "step_safe w (Some (?v, Shut))"
    by (rule step_safeI [where w' = ?v and md' = Shut])
       (use assms in \<open>auto simp: socket_ok_def same_sizes_def socket_events_known_def sizes_fit_def\<close>)
  with False stays_safe [OF assms] show ?thesis by auto
qed

lemma opening_event_safe:
  assumes "socket_ok Opening w"
  shows "step_safe w (socket_event T e (w, Opening))"
proof -
  from assms have w: "socket_events_known w" "sizes_fit w" "timeout_timer w = 0" by (auto simp: socket_ok_def)
  have "e < 6 \<Longrightarrow> step_safe w (goes_to Opening (post_socket_event e w))"
    using w by (intro posts_safe) (simp_all add: same_sizes_def)
  with opens_safe [OF w] stays_safe [OF assms] show ?thesis by auto
qed

lemma opened_event_safe:
  assumes md: "md = Ready \<or> md = Awaiting" and ok: "socket_ok md w" and fits: "driver_fits T"
  shows "step_safe w (socket_event T e (w, md))"
proof -
  from ok md have w: "socket_events_known w" "sizes_fit w" "0 \<le> open_socket_id w" "timeout_timer w \<noteq> 0 \<longrightarrow> md = Awaiting"
    by (auto simp: socket_ok_def)
  let ?l = "leave_opened md w"
  have l: "socket_events_known ?l" "sizes_fit ?l" "timeout_timer ?l = 0" "0 \<le> open_socket_id ?l" "same_sizes w ?l"
    using w by (auto simp: step_defs socket_events_known_def sizes_fit_def same_sizes_def)
  have through: "step_safe ?l r \<Longrightarrow> step_safe w r" for r
    using same_sizes_trans [OF l(5)] unfolding step_safe_def by blast
  have send: "step_safe w (sends T ?l)" and close: "step_safe w (goes_to Shut (closes T ?l))"
    using through sends_safe [OF l(1-4)] closes_safe [OF l(1-3)] by blast+
  let ?r = "w\<lparr>tick_counter := 1, timeout_timer := RECEIVE_TIMEOUT\<rparr>"
  have "socket_events_known ?r" using w(1) by (simp add: socket_events_known_def)
  then have start: "step_safe w (goes_to Awaiting (begin_receiving w))"
    unfolding begin_receiving_def using w by (intro posts_safe) (simp_all add: sizes_fit_def same_sizes_def)
  let ?e = "w\<lparr>socket_events := emptied (socket_events w)\<rparr>"
  have timeout: "step_safe w (goes_to Ready (map_option leave_receiving (clear_socket_events w)))"
    by (rule step_safeI [where w' = "leave_receiving ?e" and md' = Ready])
       (use w known_queue [OF w(1)] in \<open>simp_all add: socket_ok_def step_defs same_sizes_def socket_events_known_def sizes_fit_def\<close>)
  have lost: "step_safe w (socket_lost T md w)"
  proof (cases "md = Awaiting")
    case True
    with lost_safe(1) [OF w(1,2)] show ?thesis by (simp add: socket_lost_def)
  next
    case False
    have "map_option (leave_opened Ready) r = r" for r :: "('a, 'b) socket option" by (cases r) (simp_all add: leave_opened_def)
    with False md w(4) lost_safe(2) [OF w(1,2)] show ?thesis by (auto simp: socket_lost_def)
  qed
  from md show ?thesis
    using send close start timeout lost receives_safe [OF fits w(1-3)] stays_safe [OF ok] by auto
qed

lemma socket_event_safe:
  assumes "socket_ok md w" "driver_fits T"
  shows "step_safe w (socket_event T e (w, md))"
  using assms shut_event_safe opening_event_safe opened_event_safe by (cases md) blast+

section \<open>One call\<close>

lemma socket_process_empty:
  assumes "socket_queue (world m)" "socket_waiting (world m) = []"
  shows "socket_process_event T m = Some (False, m\<lparr>world := (world m)\<lparr>socket_events := dequeued (socket_events (world m))\<rparr>\<rparr>)"
    and "event_fifo (dequeued (socket_events (world m)))" "event_types (dequeued (socket_events (world m))) = []"
  using assms by (cases rule: dequeue_fifo [OF assms(1)]; simp add: socket_process_event_def Let_def)+

lemma socket_process_first:
  assumes m: "at_socket md w m" and queue: "socket_queue w" and first: "socket_waiting w = e # es"
    and e: "e \<noteq> EVENT_ENTERING_STATE" "e \<noteq> EVENT_LEAVING_STATE"
  shows "reaches (socket_process_event T m) (socket_event T e (w\<lparr>socket_events := dequeued (socket_events w)\<rparr>, md))"
    and "event_fifo (dequeued (socket_events w))" "event_types (dequeued (socket_events w)) = es"
proof -
  note world = at_socket_world [OF m]
  from queue first obtain ev where ev: "event_type ev = e" "pop_event (socket_events w) = Some (True, Some ev, dequeued (socket_events w))"
    and deq: "event_fifo (dequeued (socket_events w))" "event_types (dequeued (socket_events w)) = es"
    by (cases rule: dequeue_fifo [OF queue]) auto
  let ?w = "w\<lparr>socket_events := dequeued (socket_events w)\<rparr>"
  have "reaches (row (state_machine_process_event (socket_handlers T (socket_transition T)) Root e (m\<lparr>world := ?w\<rparr>)))
      (socket_event T e (?w, md))"
    using socket_dispatch_follows_table [OF world(2) e, of T ?w]
    unfolding reaches_def option.rel_map by (rule option.rel_mono_strong) auto
  then show "reaches (socket_process_event T m) (socket_event T e (?w, md))"
    by (simp add: socket_process_event_def world(1) ev Let_def)
  show "event_fifo (dequeued (socket_events w))" "event_types (dequeued (socket_events w)) = es" by (rule deq)+
qed

lemma below_6: "(e :: u8) < 6 \<Longrightarrow> e \<noteq> EVENT_ENTERING_STATE \<and> e \<noteq> EVENT_LEAVING_STATE"
  by (auto simp: EVENT_ENTERING_STATE_def EVENT_LEAVING_STATE_def)

lemma socket_process_safe:
  assumes m: "at_socket md (world m) m" "socket_ok md (world m)" and fits: "driver_fits T"
  obtains m' md' where "socket_process_event T m = Some (socket_waiting (world m) \<noteq> [], m')"
    "at_socket md' (world m') m'" "socket_ok md' (world m')" "same_sizes (world m) (world m')"
proof (cases "socket_waiting (world m)")
  case Nil
  from m(2) have queue: "socket_queue (world m)" by (simp add: socket_ok_def socket_events_known_def)
  note run = socket_process_empty [OF queue Nil]
  from run m(2) at_socket_world(2) [OF m(1)] Nil show thesis
    by (intro that [of "m\<lparr>world := (world m)\<lparr>socket_events := dequeued (socket_events (world m))\<rparr>\<rparr>" md])
       (auto simp: socket_ok_def socket_events_known_def sizes_fit_def same_sizes_def)
next
  case (Cons e es)
  let ?w = "(world m)\<lparr>socket_events := dequeued (socket_events (world m))\<rparr>"
  from m(2) Cons have queue: "socket_queue (world m)" and e: "e < 6" and es: "\<forall>e \<in> set es. e < 6"
    by (auto simp: socket_ok_def socket_events_known_def)
  have ee: "e \<noteq> EVENT_ENTERING_STATE" "e \<noteq> EVENT_LEAVING_STATE" using below_6 [OF e] by simp_all
  note first = socket_process_first(1) [OF m(1) queue Cons ee, of T] socket_process_first(2,3) [OF m(1) queue Cons ee]
  from first m(2) es have "socket_ok md ?w" by (auto simp: socket_ok_def socket_events_known_def sizes_fit_def)
  from socket_event_safe [OF this fits, of e] obtain w' md' where
    w': "socket_event T e (?w, md) = Some (w', md')" "socket_ok md' w'" "same_sizes ?w w'" by (auto simp: step_safe_def)
  from first w'(1) obtain m' where m': "socket_process_event T m = Some (True, m')" "at_socket md' w' m'"
    by (auto simp: reaches_def option_rel_Some2)
  with at_socket_world(1) [OF m'(2)] w' Cons show thesis
    by (intro that [of m' md']) (simp_all add: same_sizes_def)
qed

section \<open>Life\<close>

definition init_socket_module :: "('v, 'h) transport \<Rightarrow> bool \<Rightarrow> u16 \<Rightarrow> ('v, 'h) socketm \<Rightarrow> ('v, 'h) socketm option" where
  "init_socket_module T enter event_size m = do {
     m \<leftarrow> lift_world (init_socket_events event_size) m;
     m \<leftarrow> init_socket_states m;
     (if enter then socket_transition T STATE_SOCKET_CLOSED m else Some m)
   }"

inductive socket_reachable :: "('v, 'h) transport \<Rightarrow> ('v, 'h) socketm \<Rightarrow> bool" for T where
  start: "length (state_current m) = 6 \<Longrightarrow> length (state_parent m) = 6 \<Longrightarrow>
    length (cb_storage (socket_events (world m))) = 10 \<Longrightarrow> 0 < unat esize \<Longrightarrow> unat esize < 6553 \<Longrightarrow>
    data_size (world m) = 0 \<Longrightarrow> buffer_size (world m) = 0 \<Longrightarrow> timeout_timer (world m) = 0 \<Longrightarrow>
    init_socket_module T enter esize m = Some m' \<Longrightarrow> socket_reachable T m'"
| send: "socket_reachable T m \<Longrightarrow> unat n \<le> length (packet_buffer (world m)) \<Longrightarrow>
    lift_world (socket_send n) m = Some m' \<Longrightarrow> socket_reachable T m'"
| receive: "socket_reachable T m \<Longrightarrow> unat n \<le> length (packet_buffer (world m)) \<Longrightarrow>
    lift_world (socket_receive n) m = Some m' \<Longrightarrow> socket_reachable T m'"
| close: "socket_reachable T m \<Longrightarrow> lift_world socket_close m = Some m' \<Longrightarrow> socket_reachable T m'"
| process: "socket_reachable T m \<Longrightarrow> socket_process_event T m = Some (p, m') \<Longrightarrow> socket_reachable T m'"
| signal: "socket_reachable T m \<Longrightarrow> lift_world (hear T s) m = Some m' \<Longrightarrow> socket_reachable T m'"
| outside: "socket_reachable T m \<Longrightarrow> length buf = length (packet_buffer (world m)) \<Longrightarrow>
    socket_reachable T (change_world (\<lambda>w. w\<lparr>packet_buffer := buf, received_data_size := n, parameters := v, clock := t,
      socket_responses := rs, driver := h\<rparr>) m)"

lemma list6:
  assumes "length xs = 6"
  obtains x0 x1 x2 x3 x4 x5 where "xs = [x0, x1, x2, x3, x4, x5]"
  using assms by (auto simp: eval_nat_numeral length_Suc_conv)

lemma init_socket_module_ok:
  assumes lists: "length (state_current m) = 6" "length (state_parent m) = 6"
    and events: "length (cb_storage (socket_events (world m))) = 10" "0 < unat esize" "unat esize < 6553"
  obtains b where "init_socket_module T enter esize m =
      Some (socket_tree STATE_SOCKET_CLOSED None ((world m)\<lparr>socket_events := b\<rparr>))" "event_fifo b" "event_types b = []"
proof -
  from lists(1) obtain x0 x1 x2 x3 x4 x5 where xs: "state_current m = [x0, x1, x2, x3, x4, x5]" by (rule list6)
  from lists(2) obtain y0 y1 y2 y3 y4 y5 where ys: "state_parent m = [y0, y1, y2, y3, y4, y5]" by (rule list6)
  have "length (cb_storage (socket_events (world m))) = unat (10 :: u16)" "0 < unat (10 :: u16)" "unat (10 :: u16) * unat esize < 65536"
    using events by simp_all
  then obtain b where b: "circular_buffer_init \<lparr>event_type = 0, event_timestamp = 0\<rparr> (socket_events (world m))
      (cb_storage (socket_events (world m))) 10 esize True True = Some b" "cb_inv b" "cb_list b = []" "cb_wrap b = True"
      "cb_capacity b = unat (10 :: u16)"
    by (rule init_clears)
  let ?w = "(world m)\<lparr>socket_events := b\<rparr>"
  have "init_socket_states (m\<lparr>world := ?w\<rparr>) = Some (socket_tree STATE_SOCKET_CLOSED None ?w)"
    using xs ys by (cases m) (simp add: init_socket_states_def state_machine_init_state_def socket_tree_def socket_parents_def
      array_set_def socket_state_defs eval_nat_numeral Let_def)
  moreover have "socket_transition T STATE_SOCKET_CLOSED (socket_tree STATE_SOCKET_CLOSED None ?w) =
      Some (socket_tree STATE_SOCKET_CLOSED None ?w)" by (simp add: socket_moves)
  ultimately have "init_socket_module T enter esize m = Some (socket_tree STATE_SOCKET_CLOSED None ?w)"
    by (simp add: init_socket_module_def lift_world_def init_socket_events_def b(1))
  then show thesis
    using b by (intro that) (simp_all add: event_fifo_def event_queue_def event_types_def)
qed

lemma operation_ok:
  assumes "socket_ok md w" "e < 6"
  shows "socket_ok md (w\<lparr>socket_data := zero_module_data, socket_events := enqueued (clock w) e (socket_events w)\<rparr>)"
  using assms known_enqueued [of w e "clock w"] by (simp add: socket_ok_def socket_events_known_def sizes_fit_def)

lemma signal_ok:
  assumes "socket_ok md w" "hear T s w = Some w'"
  shows "socket_ok md w'"
proof -
  from assms(1) have "socket_queue w" by (simp add: socket_ok_def socket_events_known_def)
  then have l: "listened w w'" using assms(2) by (metis hear_listened option.inject)
  show ?thesis
    using assms(1) listened_known [OF l] same_sizes_fit [OF listened_same_sizes [OF l]] listened_frame [OF l]
    by (auto simp: socket_ok_def)
qed

lemma at_socket_change:
  assumes "at_socket md (world m) m" "socket_ok md w"
  shows "at_socket md (world (m\<lparr>world := w\<rparr>)) (m\<lparr>world := w\<rparr>) \<and> socket_ok md (world (m\<lparr>world := w\<rparr>))"
  using at_socket_world(2) [OF assms(1)] assms(2) by simp

lemma socket_reachable_ok:
  assumes "socket_reachable T m" "driver_fits T"
  shows "\<exists>md. at_socket md (world m) m \<and> socket_ok md (world m)"
  using assms(1)
proof induction
  case (start m esize enter m')
  from init_socket_module_ok [OF start(1-5), of T enter] start(9) obtain b where
    "m' = socket_tree STATE_SOCKET_CLOSED None ((world m)\<lparr>socket_events := b\<rparr>)" "event_fifo b" "event_types b = []" by auto
  with start(6-8) show ?case
    by (intro exI [of _ Shut])
       (auto simp: at_socket_def socket_ok_def socket_events_known_def sizes_fit_def intro!: exI [of _ "None :: nat option"])
next
  case (send m n m')
  then obtain md where md: "at_socket md (world m) m" "socket_ok md (world m)" by blast
  then have "socket_ok md ((world m)\<lparr>data_size := n\<rparr>)"
    using send(2) by (simp add: socket_ok_def socket_events_known_def sizes_fit_def)
  note ok = operation_ok [OF this, of EVENT_SEND, simplified]
  have "socket_queue (world m)" using md(2) by (simp add: socket_ok_def socket_events_known_def)
  with send(3) have "m' = m\<lparr>world := (world m)\<lparr>data_size := n, socket_data := zero_module_data,
      socket_events := enqueued (clock (world m)) EVENT_SEND (socket_events (world m))\<rparr>\<rparr>"
    by (auto simp: lift_world_def socket_send_def)
  with at_socket_change [OF md(1) ok] show ?case by blast
next
  case (receive m n m')
  then obtain md where md: "at_socket md (world m) m" "socket_ok md (world m)" by blast
  then have "socket_ok md ((world m)\<lparr>buffer_size := n\<rparr>)"
    using receive(2) by (simp add: socket_ok_def socket_events_known_def sizes_fit_def)
  note ok = operation_ok [OF this, of EVENT_RECEIVE, simplified]
  have "socket_queue (world m)" using md(2) by (simp add: socket_ok_def socket_events_known_def)
  with receive(3) have "m' = m\<lparr>world := (world m)\<lparr>buffer_size := n, socket_data := zero_module_data,
      socket_events := enqueued (clock (world m)) EVENT_RECEIVE (socket_events (world m))\<rparr>\<rparr>"
    by (auto simp: lift_world_def socket_receive_def)
  with at_socket_change [OF md(1) ok] show ?case by blast
next
  case (close m m')
  then obtain md where md: "at_socket md (world m) m" "socket_ok md (world m)" by blast
  have "socket_queue (world m)" using md(2) by (simp add: socket_ok_def socket_events_known_def)
  with close(2) have "m' = m\<lparr>world := (world m)\<lparr>socket_data := zero_module_data,
      socket_events := enqueued (clock (world m)) EVENT_CLOSE_SOCKET (socket_events (world m))\<rparr>\<rparr>"
    by (auto simp: lift_world_def socket_close_def)
  with at_socket_change [OF md(1) operation_ok [OF md(2), of EVENT_CLOSE_SOCKET]] show ?case by auto
next
  case (process m p m')
  then obtain md where md: "at_socket md (world m) m" "socket_ok md (world m)" by blast
  obtain m'' md' where "socket_process_event T m = Some (socket_waiting (world m) \<noteq> [], m'')"
    "at_socket md' (world m'') m''" "socket_ok md' (world m'')"
    using socket_process_safe [OF md assms(2)] by metis
  with process(2) show ?case by auto
next
  case (signal m s m')
  then obtain md where md: "at_socket md (world m) m" "socket_ok md (world m)" by blast
  with signal(2) signal_ok [OF md(2)] at_socket_change [OF md(1)] show ?case
    by (auto simp: lift_world_def intro!: exI [of _ md])
next
  case (outside m buf h rs t v n)
  then obtain md where md: "at_socket md (world m) m" "socket_ok md (world m)" by blast
  then have "socket_ok md ((world m)\<lparr>packet_buffer := buf, received_data_size := n, parameters := v, clock := t,
      socket_responses := rs, driver := h\<rparr>)"
    using outside(2) by (simp add: socket_ok_def socket_events_known_def sizes_fit_def)
  with at_socket_change [OF md(1)] show ?case by (auto simp: change_world_def)
qed

text \<open>C8: With a driver that gives at most as many bytes as it was asked for, a socket machine is well formed at
  every moment of its life: it rests in one of four modes with its tree as the mode has it, only its
  own six events wait, it holds a socket the driver gave whenever it is open, the timer runs only while
  it waits for data, and the next processing call returns, saying whether an event was waiting.\<close>

theorem socket_well_formed:
  assumes "socket_reachable T m" "driver_fits T"
  shows "\<exists>md m'. at_socket md (world m) m \<and> (\<forall>e \<in> set (socket_waiting (world m)). e < 6) \<and>
    (md = Ready \<or> md = Awaiting \<longrightarrow> 0 \<le> open_socket_id (world m)) \<and>
    (timeout_timer (world m) \<noteq> 0 \<longrightarrow> md = Awaiting) \<and>
    socket_process_event T m = Some (socket_waiting (world m) \<noteq> [], m')"
proof -
  obtain md where md: "at_socket md (world m) m" "socket_ok md (world m)" using socket_reachable_ok [OF assms] by blast
  obtain m' where "socket_process_event T m = Some (socket_waiting (world m) \<noteq> [], m')"
    using socket_process_safe [OF md assms(2)] by metis
  with md show ?thesis by (auto simp: socket_ok_def socket_events_known_def)
qed

end
