(* ===== verification/Tcp_Module.thy ===== *)
theory Tcp_Module
  imports Socket_Life Config
begin

text \<open>
  The TCP module, \<open>SDK/core/tcp_communication_module.c\<close>: the socket machine with the calls of
  \<open>tcp_communication_module_dependencies\<close>, the variables of the server in the configuration, and the
  functions that other modules call.
\<close>

record 'h tcp_dependencies =
  open_socket :: "string \<Rightarrow> u16 \<Rightarrow> bool \<Rightarrow> (int, 'h) driver_call"
  close_socket :: "int \<Rightarrow> (bool, 'h) driver_call"
  tcp_receive :: "int \<Rightarrow> u16 \<Rightarrow> (int \<times> u8 list, 'h) driver_call"
  tcp_send :: "int \<Rightarrow> u8 list \<Rightarrow> (int, 'h) driver_call"

type_synonym 'h tcpm = "(config, 'h) socketm"

definition TCP_OPERATION_FAILED :: u8 where "TCP_OPERATION_FAILED = 0x10"
definition TCP_SOCKET_CLOSED :: u8 where "TCP_SOCKET_CLOSED = 0x30"
definition TCP_PARAMETERS_MISSING :: u8 where "TCP_PARAMETERS_MISSING = 0x40"

definition connection_parameters_set :: "config \<Rightarrow> bool" where
  "connection_parameters_set c \<longleftrightarrow> hd (cfg_hostname c) \<noteq> NUL \<and> cfg_server_port c \<noteq> 0"

definition tcp_transport :: "'h tcp_dependencies \<Rightarrow> (config, 'h) transport" where
  "tcp_transport D = \<lparr>parameters_set = connection_parameters_set,
     open_call = (\<lambda>c. open_socket D (c_string (cfg_hostname c)) (cfg_server_port c) (cfg_ssl c)),
     close_call = close_socket D, send_call = (\<lambda>_. tcp_send D), receive_call = tcp_receive D,
     hears_closing = True, clears_before_leaving = False, code_operation_failed = TCP_OPERATION_FAILED,
     code_socket_closed = TCP_SOCKET_CLOSED, code_parameters_missing = TCP_PARAMETERS_MISSING\<rparr>"

text \<open>The server variables are loaded into the configuration, which the module reads.\<close>

definition init_tcp_communication_module ::
  "'p platform_ops \<Rightarrow> 'h tcp_dependencies \<Rightarrow> u16 \<Rightarrow> 'p app \<times> 'h tcpm \<Rightarrow> ('p app \<times> 'h tcpm) option" where
  "init_tcp_communication_module ops D event_size am = do {
     let (a, m) = am;
     let a = snd (load_ssl_status ops (snd (load_server_port ops (snd (load_server_ip ops a)))));
     m \<leftarrow> init_socket_module (tcp_transport D) True event_size (change_world (\<lambda>w. w\<lparr>parameters := app_config a\<rparr>) m);
     Some (a, m)
   }"

definition tcp_communication_module_send :: "u16 \<Rightarrow> 'h tcpm \<Rightarrow> 'h tcpm option" where
  "tcp_communication_module_send data_in_size = lift_world (socket_send data_in_size)"

definition tcp_communication_module_receive :: "u16 \<Rightarrow> 'h tcpm \<Rightarrow> 'h tcpm option" where
  "tcp_communication_module_receive buffer_out_size = lift_world (socket_receive buffer_out_size)"

definition tcp_communication_module_close_socket :: "'h tcpm \<Rightarrow> 'h tcpm option" where
  "tcp_communication_module_close_socket = lift_world socket_close"

definition tcp_process_event :: "'h tcp_dependencies \<Rightarrow> 'h tcpm \<Rightarrow> (bool \<times> 'h tcpm) option" where
  "tcp_process_event D = socket_process_event (tcp_transport D)"

definition get_tcp_communication_module_result :: "'h tcpm \<Rightarrow> communication_module_type_data" where
  "get_tcp_communication_module_result m = \<lparr>cmtd_type = COMMUNICATION_MODULE_TCP, cmtd_data = socket_data (world m)\<rparr>"

definition socket_state_name :: "node \<Rightarrow> string option" where
  "socket_state_name n = (case n of Root \<Rightarrow> None | Node i \<Rightarrow>
     if i = STATE_SOCKET_CLOSED then Some ''SOCKED_CLOSED''
     else if i = STATE_OPENING_SOCKET then Some ''OPENEING_SOCKET''
     else if i = STATE_SOCKET_OPENED then Some ''SOCKET_OPENED''
     else if i = STATE_SOCKET_SEND then Some ''SEND''
     else if i = STATE_SOCKET_RECEIVE then Some ''RECEIVE''
     else if i = STATE_CLOSING_SOCKET then Some ''CLOSING_SOCKET'' else None)"

definition get_tcp_communication_module_status :: "'h tcpm \<Rightarrow> string option" where
  "get_tcp_communication_module_status m = do {
     n \<leftarrow> innermost m Root;
     get_state_human_readable_name socket_state_name (parent_node m) n
   }"

end
