(* ===== verification/Udp_Module.thy ===== *)
theory Udp_Module
  imports Socket_Life Tcp_Module
begin

text \<open>
  The UDP module, \<open>SDK/core/udp_communication_module.c\<close>: the socket machine with datagram calls, its own
  addresses, no news of a closed socket, and the queue cleared before the receiving state is left.  Every
  handler is the one of \<^theory_text>\<open>Socket_Module\<close> on the UDP transport.
\<close>

record udp_addresses =
  bind_address :: string
  bind_port :: u16
  destination_address :: string
  destination_port :: u16

record 'h udp_dependencies =
  open_udp_socket :: "string \<Rightarrow> u16 \<Rightarrow> (int, 'h) driver_call"
  close_udp_socket :: "int \<Rightarrow> (bool, 'h) driver_call"
  send_to :: "int \<Rightarrow> u8 list \<Rightarrow> string \<Rightarrow> u16 \<Rightarrow> (int, 'h) driver_call"
  receive_from :: "int \<Rightarrow> u16 \<Rightarrow> (int \<times> u8 list, 'h) driver_call"

type_synonym 'h udpm = "(udp_addresses, 'h) socketm"
type_synonym 'h udp_trans = "(udp_addresses, 'h) socket_trans"
type_synonym 'h udp_handler = "(udp_addresses, 'h) socket handler"

definition UDP_OPERATION_FAILED :: u8 where "UDP_OPERATION_FAILED = 0x10"
definition UDP_PARAMETERS_MISSING :: u8 where "UDP_PARAMETERS_MISSING = 0x20"

definition udp_connection_parameters_set :: "udp_addresses \<Rightarrow> bool" where
  "udp_connection_parameters_set a \<longleftrightarrow>
     hd (bind_address a) \<noteq> NUL \<and> hd (destination_address a) \<noteq> NUL \<and> destination_port a \<noteq> 0"

text \<open>The code for a closed socket is never used.\<close>

definition udp_transport :: "'h udp_dependencies \<Rightarrow> (udp_addresses, 'h) transport" where
  "udp_transport D = \<lparr>parameters_set = udp_connection_parameters_set,
     open_call = (\<lambda>a. open_udp_socket D (c_string (bind_address a)) (bind_port a)),
     close_call = close_udp_socket D,
     send_call = (\<lambda>a i bytes. send_to D i bytes (c_string (destination_address a)) (destination_port a)),
     receive_call = receive_from D, hears_closing = False, clears_before_leaving = True,
     code_operation_failed = UDP_OPERATION_FAILED, code_socket_closed = 0,
     code_parameters_missing = UDP_PARAMETERS_MISSING\<rparr>"

section \<open>The handlers\<close>

definition udp_communication_module_handler :: "'h udp_handler" where
  "udp_communication_module_handler = socket_module_handler"

definition udp_state_socket_closed :: "'h udp_dependencies \<Rightarrow> 'h udp_trans \<Rightarrow> 'h udp_handler" where
  "udp_state_socket_closed D = state_socket_closed (udp_transport D)"

definition udp_state_opening_socket :: "'h udp_dependencies \<Rightarrow> 'h udp_trans \<Rightarrow> 'h udp_handler" where
  "udp_state_opening_socket D = state_opening_socket (udp_transport D)"

definition udp_state_socket_opened :: "'h udp_dependencies \<Rightarrow> 'h udp_trans \<Rightarrow> 'h udp_handler" where
  "udp_state_socket_opened D = state_socket_opened (udp_transport D)"

definition udp_state_send :: "'h udp_dependencies \<Rightarrow> 'h udp_trans \<Rightarrow> 'h udp_handler" where
  "udp_state_send D = state_socket_send (udp_transport D)"

definition udp_state_receive :: "'h udp_dependencies \<Rightarrow> 'h udp_trans \<Rightarrow> 'h udp_handler" where
  "udp_state_receive D = state_socket_receive (udp_transport D)"

definition udp_state_closing_socket :: "'h udp_dependencies \<Rightarrow> 'h udp_trans \<Rightarrow> 'h udp_handler" where
  "udp_state_closing_socket D = state_closing_socket (udp_transport D)"

section \<open>The functions of the module\<close>

text \<open>\<open>strcpy_P\<close> writes eight of the fifteen characters of the address, which starts as zeros.\<close>

definition init_udp_communication_module :: "'h udp_dependencies \<Rightarrow> u16 \<Rightarrow> 'h udpm \<Rightarrow> 'h udpm option" where
  "init_udp_communication_module D event_size m =
     init_socket_module (udp_transport D) False event_size
       (change_world (\<lambda>w. w\<lparr>parameters := (parameters w)\<lparr>
          bind_address := ''0.0.0.0'' @ NUL # drop 8 (bind_address (parameters w)),
          destination_address := replicate 15 NUL\<rparr>\<rparr>) m)"

definition udp_communication_module_send :: "u16 \<Rightarrow> 'h udpm \<Rightarrow> 'h udpm option" where
  "udp_communication_module_send data_in_size = lift_world (socket_send data_in_size)"

definition udp_communication_module_receive :: "u16 \<Rightarrow> 'h udpm \<Rightarrow> 'h udpm option" where
  "udp_communication_module_receive buffer_out_size = lift_world (socket_receive buffer_out_size)"

definition udp_communication_module_close_socket :: "'h udpm \<Rightarrow> 'h udpm option" where
  "udp_communication_module_close_socket = lift_world socket_close"

definition udp_process_event :: "'h udp_dependencies \<Rightarrow> 'h udpm \<Rightarrow> (bool \<times> 'h udpm) option" where
  "udp_process_event D = socket_process_event (udp_transport D)"

text \<open>The \<open>int\<close> of the error code is read where it is printed (\<^const>\<open>udp_code\<close>).\<close>

definition get_udp_communication_module_result :: "'h udpm \<Rightarrow> communication_module_type_data" where
  "get_udp_communication_module_result m = \<lparr>cmtd_type = COMMUNICATION_MODULE_UDP, cmtd_data = socket_data (world m)\<rparr>"

definition get_udp_communication_module_status :: "'h udpm \<Rightarrow> string option" where
  "get_udp_communication_module_status m = do {
     n \<leftarrow> innermost m Root;
     get_state_human_readable_name socket_state_name (parent_node m) n
   }"

text \<open>The handlers of the UDP machine are these.\<close>

lemma udp_handlers:
  "socket_handlers (udp_transport D) tr Root = Some udp_communication_module_handler"
  "socket_handlers (udp_transport D) tr (Node STATE_SOCKET_CLOSED) = Some (udp_state_socket_closed D tr)"
  "socket_handlers (udp_transport D) tr (Node STATE_OPENING_SOCKET) = Some (udp_state_opening_socket D tr)"
  "socket_handlers (udp_transport D) tr (Node STATE_SOCKET_OPENED) = Some (udp_state_socket_opened D tr)"
  "socket_handlers (udp_transport D) tr (Node STATE_SOCKET_SEND) = Some (udp_state_send D tr)"
  "socket_handlers (udp_transport D) tr (Node STATE_SOCKET_RECEIVE) = Some (udp_state_receive D tr)"
  "socket_handlers (udp_transport D) tr (Node STATE_CLOSING_SOCKET) = Some (udp_state_closing_socket D tr)"
  by (simp_all add: udp_communication_module_handler_def udp_state_socket_closed_def udp_state_opening_socket_def
      udp_state_socket_opened_def udp_state_send_def udp_state_receive_def udp_state_closing_socket_def)

end
