(* ===== verification/Wifi_Module.thy ===== *)
theory Wifi_Module
  imports Tcp_Module Udp_Module
begin

text \<open>
  The Wi-Fi module, \<open>SDK/core/wifi_communication_module.c\<close>: its variables, the calls of its driver and of
  the TCP and UDP modules, and its sixteen handlers.

  The three modules share one driver \<open>'h\<close>, one packet buffer, the configuration and the line on which
  responses are sent.  They are the Wi-Fi module's fields; when a function of the TCP or UDP module is
  called it gets them, and gives them back when it returns.  While a driver function runs, its signals
  reach the module that called it; the record of them that comes back with the driver
  reaches the listeners of the other modules.
\<close>

section \<open>The driver\<close>

text \<open>The driver gives the address as the text that \<open>get_ip_address\<close> writes.\<close>

record 'h wifi_dependencies =
  wifi_start :: "(bool, 'h) driver_call"
  wifi_connect :: "string \<Rightarrow> string \<Rightarrow> u8 \<Rightarrow> (bool, 'h) driver_call"
  wifi_disconnect :: "(bool, 'h) driver_call"
  wifi_stop :: "(bool, 'h) driver_call"
  wifi_reset :: "(bool, 'h) driver_call"
  wifi_open_socket :: "string \<Rightarrow> u16 \<Rightarrow> bool \<Rightarrow> (int, 'h) driver_call"
  wifi_open_udp_socket :: "string \<Rightarrow> u16 \<Rightarrow> (int, 'h) driver_call"
  wifi_close_socket :: "int \<Rightarrow> (bool, 'h) driver_call"
  wifi_send :: "int \<Rightarrow> u8 list \<Rightarrow> (int, 'h) driver_call"
  wifi_send_to :: "int \<Rightarrow> u8 list \<Rightarrow> string \<Rightarrow> u16 \<Rightarrow> (int, 'h) driver_call"
  wifi_receive :: "int \<Rightarrow> u16 \<Rightarrow> (int \<times> u8 list, 'h) driver_call"
  wifi_receive_from :: "int \<Rightarrow> u16 \<Rightarrow> (int \<times> u8 list, 'h) driver_call"
  get_ip_address :: "(string, 'h) driver_call"

type_synonym 'h logged = "'h \<times> signal list"

definition logging :: "('r, 'h) driver_call \<Rightarrow> ('r, 'h logged) driver_call" where
  "logging f hl = (let (r, ss, h) = f (fst hl) in (r, ss, (h, snd hl @ ss)))"

definition wifi_tcp_dependencies :: "'h wifi_dependencies \<Rightarrow> 'h logged tcp_dependencies" where
  "wifi_tcp_dependencies D = \<lparr>open_socket = (\<lambda>a p s. logging (wifi_open_socket D a p s)),
     close_socket = (\<lambda>i. logging (wifi_close_socket D i)), tcp_receive = (\<lambda>i n. logging (wifi_receive D i n)),
     tcp_send = (\<lambda>i bs. logging (wifi_send D i bs))\<rparr>"

definition wifi_udp_dependencies :: "'h wifi_dependencies \<Rightarrow> 'h logged udp_dependencies" where
  "wifi_udp_dependencies D = \<lparr>open_udp_socket = (\<lambda>a p. logging (wifi_open_udp_socket D a p)),
     close_udp_socket = (\<lambda>i. logging (wifi_close_socket D i)), send_to = (\<lambda>i bs a p. logging (wifi_send_to D i bs a p)),
     receive_from = (\<lambda>i n. logging (wifi_receive_from D i n))\<rparr>"

abbreviation "wifi_tcp D \<equiv> tcp_transport (wifi_tcp_dependencies D)"
abbreviation "wifi_udp D \<equiv> udp_transport (wifi_udp_dependencies D)"

section \<open>The variables\<close>

datatype process_handle = TCP_PROCESS | UDP_PROCESS

record 'h wifi =
  wifi_events :: event_buffer
  wifi_data_size :: u16
  wifi_buffer_size :: u16
  wifi_packet_buffer :: "u8 list"
  wifi_received_data_size :: u16
  wifi_sequence_timeout_timer :: u8
  wifi_tick_counter :: u16
  wifi_communication_module_data :: communication_module_data
  wifi_platform_code :: u32
  communication_module_process_handle :: "process_handle option"
  tcp_process_handle :: "process_handle option"
  udp_process_handle :: "process_handle option"
  tcp_module :: "'h logged tcpm"
  udp_module :: "'h logged udpm"
  wifi_config :: config
  wifi_clock :: u32
  wifi_responses :: "string list"
  wifi_driver :: 'h

type_synonym 'h wifim = "'h wifi machine"
type_synonym 'h wifi_step = "'h wifi \<Rightarrow> 'h wifi option"
type_synonym 'h wifi_trans = "nat \<Rightarrow> 'h wifim \<Rightarrow> 'h wifim option"

definition WIFI_CONNECTING_TIMEOUT :: u8 where "WIFI_CONNECTING_TIMEOUT = 20"
definition WIFI_DISCONECT_TIMEOUT :: u8 where "WIFI_DISCONECT_TIMEOUT = 3"

definition STATE_WIFI_STARTING :: nat where "STATE_WIFI_STARTING = 0"
definition STATE_WIFI_STARTED :: nat where "STATE_WIFI_STARTED = 1"
definition STATE_WIFI_DISCONNECTED :: nat where "STATE_WIFI_DISCONNECTED = 2"
definition STATE_WIFI_CONNECTING :: nat where "STATE_WIFI_CONNECTING = 3"
definition STATE_WIFI_CONNECTING_TO_AP :: nat where "STATE_WIFI_CONNECTING_TO_AP = 4"
definition STATE_WIFI_ACQUIRING_IP_ADDRESS :: nat where "STATE_WIFI_ACQUIRING_IP_ADDRESS = 5"
definition STATE_WIFI_CONNECTED :: nat where "STATE_WIFI_CONNECTED = 6"
definition STATE_WIFI_SEND :: nat where "STATE_WIFI_SEND = 7"
definition STATE_WIFI_SEND_TO :: nat where "STATE_WIFI_SEND_TO = 8"
definition STATE_WIFI_RECEIVE :: nat where "STATE_WIFI_RECEIVE = 9"
definition STATE_WIFI_RECEIVE_FROM :: nat where "STATE_WIFI_RECEIVE_FROM = 10"
definition STATE_WIFI_CLOSING_SOCKET :: nat where "STATE_WIFI_CLOSING_SOCKET = 11"
definition STATE_WIFI_DISCONNECTING :: nat where "STATE_WIFI_DISCONNECTING = 12"
definition STATE_WIFI_RESET :: nat where "STATE_WIFI_RESET = 13"
definition STATE_WIFI_STOPPING :: nat where "STATE_WIFI_STOPPING = 14"
definition STATE_WIFI_STOPPED :: nat where "STATE_WIFI_STOPPED = 15"

lemmas wifi_state_defs = STATE_WIFI_STARTING_def STATE_WIFI_STARTED_def STATE_WIFI_DISCONNECTED_def
  STATE_WIFI_CONNECTING_def STATE_WIFI_CONNECTING_TO_AP_def STATE_WIFI_ACQUIRING_IP_ADDRESS_def
  STATE_WIFI_CONNECTED_def STATE_WIFI_SEND_def STATE_WIFI_SEND_TO_def STATE_WIFI_RECEIVE_def
  STATE_WIFI_RECEIVE_FROM_def STATE_WIFI_CLOSING_SOCKET_def STATE_WIFI_DISCONNECTING_def STATE_WIFI_RESET_def
  STATE_WIFI_STOPPING_def STATE_WIFI_STOPPED_def

definition EVENT_WIFI_DISCONNECT :: u8 where "EVENT_WIFI_DISCONNECT = 0"
definition EVENT_WIFI_CONNECT :: u8 where "EVENT_WIFI_CONNECT = 1"
definition EVENT_WIFI_DISCONNECT_SOCKET_CLOSED :: u8 where "EVENT_WIFI_DISCONNECT_SOCKET_CLOSED = 2"
definition EVENT_WIFI_SEND :: u8 where "EVENT_WIFI_SEND = 3"
definition EVENT_WIFI_SEND_TO :: u8 where "EVENT_WIFI_SEND_TO = 4"
definition EVENT_WIFI_RECEIVE :: u8 where "EVENT_WIFI_RECEIVE = 5"
definition EVENT_WIFI_RECEIVE_FROM :: u8 where "EVENT_WIFI_RECEIVE_FROM = 6"
definition EVENT_WIFI_STOP :: u8 where "EVENT_WIFI_STOP = 7"
definition EVENT_WIFI_STOP_SOCKET_CLOSED :: u8 where "EVENT_WIFI_STOP_SOCKET_CLOSED = 8"
definition EVENT_WIFI_CONNECTING :: u8 where "EVENT_WIFI_CONNECTING = 9"
definition EVENT_WIFI_CONNECTED :: u8 where "EVENT_WIFI_CONNECTED = 10"
definition EVENT_WIFI_ACQUIRING_IP_ADDRESS :: u8 where "EVENT_WIFI_ACQUIRING_IP_ADDRESS = 11"
definition EVENT_WIFI_IP_ADDRESS_ACQUIRED :: u8 where "EVENT_WIFI_IP_ADDRESS_ACQUIRED = 12"
definition EVENT_WIFI_DISCONNECTING :: u8 where "EVENT_WIFI_DISCONNECTING = 13"
definition EVENT_WIFI_DISCONNECTED :: u8 where "EVENT_WIFI_DISCONNECTED = 14"
definition EVENT_WIFI_SEQUENCE_TIMEOUT :: u8 where "EVENT_WIFI_SEQUENCE_TIMEOUT = 15"
definition EVENT_WIFI_ERROR :: u8 where "EVENT_WIFI_ERROR = 16"
definition EVENT_WIFI_CLOSE_SOCKET :: u8 where "EVENT_WIFI_CLOSE_SOCKET = 17"
definition EVENT_WIFI_COMMUNICATION_MODULE_PROCESS :: u8 where "EVENT_WIFI_COMMUNICATION_MODULE_PROCESS = 18"
definition EVENT_WIFI_COMMUNICATION_MODULE_DONE :: u8 where "EVENT_WIFI_COMMUNICATION_MODULE_DONE = 19"

lemmas wifi_event_defs = EVENT_WIFI_DISCONNECT_def EVENT_WIFI_CONNECT_def EVENT_WIFI_DISCONNECT_SOCKET_CLOSED_def
  EVENT_WIFI_SEND_def EVENT_WIFI_SEND_TO_def EVENT_WIFI_RECEIVE_def EVENT_WIFI_RECEIVE_FROM_def EVENT_WIFI_STOP_def
  EVENT_WIFI_STOP_SOCKET_CLOSED_def EVENT_WIFI_CONNECTING_def EVENT_WIFI_CONNECTED_def
  EVENT_WIFI_ACQUIRING_IP_ADDRESS_def EVENT_WIFI_IP_ADDRESS_ACQUIRED_def EVENT_WIFI_DISCONNECTING_def
  EVENT_WIFI_DISCONNECTED_def EVENT_WIFI_SEQUENCE_TIMEOUT_def EVENT_WIFI_ERROR_def EVENT_WIFI_CLOSE_SOCKET_def
  EVENT_WIFI_COMMUNICATION_MODULE_PROCESS_def EVENT_WIFI_COMMUNICATION_MODULE_DONE_def
  EVENT_ENTERING_STATE_def EVENT_LEAVING_STATE_def

definition WIFI_SUCCESS :: u8 where "WIFI_SUCCESS = 0x00"
definition WIFI_ERROR :: u8 where "WIFI_ERROR = 0x10"
definition WIFI_TIMEOUT :: u8 where "WIFI_TIMEOUT = 0x20"
definition WIFI_DISCONNECTED :: u8 where "WIFI_DISCONNECTED = 0x30"
definition WIFI_OPERATION_FAILED :: u8 where "WIFI_OPERATION_FAILED = 0x40"
definition WIFI_PARAMETERS_MISSING :: u8 where "WIFI_PARAMETERS_MISSING = 0x50"
definition WIFI_SOCKET_CLOSED :: u8 where "WIFI_SOCKET_CLOSED = 0x60"

section \<open>Small functions\<close>

definition add_wifi_communication_module_event_type :: "u8 \<Rightarrow> 'h wifi_step" where
  "add_wifi_communication_module_event_type ty w =
     map_option (\<lambda>b. w\<lparr>wifi_events := b\<rparr>) (add_event_type (wifi_clock w) (wifi_events w) ty)"

definition clear_wifi_events :: "'h wifi_step" where
  "clear_wifi_events w = map_option (\<lambda>b. w\<lparr>wifi_events := b\<rparr>)
     (circular_buffer_clear \<lparr>event_type = 0, event_timestamp = 0\<rparr> (wifi_events w))"

definition schedule_wifi_sequence_timeout :: "u8 \<Rightarrow> 'h wifi \<Rightarrow> 'h wifi" where
  "schedule_wifi_sequence_timeout period w = w\<lparr>wifi_sequence_timeout_timer := period\<rparr>"

definition wifi_stopwatch_start :: "'h wifi \<Rightarrow> 'h wifi" where
  "wifi_stopwatch_start w = w\<lparr>wifi_tick_counter := 1\<rparr>"

definition wifi_stopwatch_stop :: "'h wifi \<Rightarrow> u16 \<times> 'h wifi" where
  "wifi_stopwatch_stop w = (wifi_tick_counter w, w\<lparr>wifi_tick_counter := 0\<rparr>)"

definition change_wifi_data :: "(communication_module_data \<Rightarrow> communication_module_data) \<Rightarrow> 'h wifi \<Rightarrow> 'h wifi" where
  "change_wifi_data f w = w\<lparr>wifi_communication_module_data := f (wifi_communication_module_data w)\<rparr>"

definition send_wifi_response :: "string \<Rightarrow> 'h wifi \<Rightarrow> 'h wifi" where
  "send_wifi_response s w = w\<lparr>wifi_responses := wifi_responses w @ [s]\<rparr>"

definition set_wifi_communication_module_error :: "u8 \<Rightarrow> nat \<Rightarrow> 'h wifi \<Rightarrow> 'h wifi" where
  "set_wifi_communication_module_error error_type state w =
     (if cmd_error (wifi_communication_module_data w) = 0
      then change_wifi_data (\<lambda>d. d\<lparr>cmd_error := error_type OR of_nat state, cmd_platform_code := wifi_platform_code w\<rparr>) w
      else w)"

section \<open>Signals\<close>

definition wifi_second_expired :: "'h wifi_step" where
  "wifi_second_expired w =
     (if wifi_sequence_timeout_timer w \<noteq> 0 then
        (let w = w\<lparr>wifi_sequence_timeout_timer := wifi_sequence_timeout_timer w - 1\<rparr> in
         if wifi_sequence_timeout_timer w = 0
         then add_wifi_communication_module_event_type EVENT_WIFI_SEQUENCE_TIMEOUT w else Some w)
      else Some w)"

text \<open>The listeners of the module itself.\<close>

definition wifi_hears :: "signal \<Rightarrow> 'h wifi_step" where
  "wifi_hears s w = (case s of
     SecondExpired \<Rightarrow> wifi_second_expired w
   | MillisecondExpired \<Rightarrow>
       Some (if wifi_tick_counter w \<noteq> 0 then w\<lparr>wifi_tick_counter := wifi_tick_counter w + 1\<rparr> else w)
   | SocketClosed \<Rightarrow> Some w
   | PlatformSpecificErrorCode c \<Rightarrow> Some (w\<lparr>wifi_platform_code := c\<rparr>)
   | WifiConnected \<Rightarrow> add_wifi_communication_module_event_type EVENT_WIFI_CONNECTED w
   | WifiIpAddressAcquired \<Rightarrow> add_wifi_communication_module_event_type EVENT_WIFI_IP_ADDRESS_ACQUIRED w
   | WifiDisconnected \<Rightarrow> add_wifi_communication_module_event_type EVENT_WIFI_DISCONNECTED w
   | WifiError \<Rightarrow> add_wifi_communication_module_event_type EVENT_WIFI_ERROR w)"

text \<open>
  The seconds, milliseconds and error codes are passed on to the TCP and UDP listeners; the TCP module
  hears from the driver itself that a socket was closed.
\<close>

definition tcp_hears :: "'h wifi_dependencies \<Rightarrow> signal \<Rightarrow> 'h wifi_step" where
  "tcp_hears D s w = map_option (\<lambda>m. w\<lparr>tcp_module := m\<rparr>)
     (lift_world (hear (wifi_tcp D) s) (change_world (\<lambda>t. t\<lparr>clock := wifi_clock w\<rparr>) (tcp_module w)))"

definition udp_hears :: "'h wifi_dependencies \<Rightarrow> signal \<Rightarrow> 'h wifi_step" where
  "udp_hears D s w = map_option (\<lambda>m. w\<lparr>udp_module := m\<rparr>)
     (lift_world (hear (wifi_udp D) s) (change_world (\<lambda>t. t\<lparr>clock := wifi_clock w\<rparr>) (udp_module w)))"

fun wifi_hear_all :: "'h wifi_dependencies \<Rightarrow> process_handle option \<Rightarrow> signal list \<Rightarrow> 'h wifi_step" where
  "wifi_hear_all D caller [] w = Some w"
| "wifi_hear_all D caller (s # ss) w = do {
     w \<leftarrow> wifi_hears s w;
     w \<leftarrow> (if caller = Some TCP_PROCESS then Some w else tcp_hears D s w);
     w \<leftarrow> (if caller = Some UDP_PROCESS then Some w else udp_hears D s w);
     wifi_hear_all D caller ss w
   }"

definition wifi_call :: "'h wifi_dependencies \<Rightarrow> ('r, 'h) driver_call \<Rightarrow> 'h wifi \<Rightarrow> ('r \<times> 'h wifi) option" where
  "wifi_call D f w = do {
     let (r, ss, h) = f (wifi_driver w);
     w \<leftarrow> wifi_hear_all D None ss (w\<lparr>wifi_driver := h\<rparr>);
     Some (r, w)
   }"

section \<open>Calling the TCP and UDP modules\<close>

definition lend_tcp :: "'h wifi \<Rightarrow> 'h logged tcpm" where
  "lend_tcp w = change_world (\<lambda>t. t\<lparr>packet_buffer := wifi_packet_buffer w,
     received_data_size := wifi_received_data_size w, parameters := wifi_config w, clock := wifi_clock w,
     socket_responses := wifi_responses w, driver := (wifi_driver w, [])\<rparr>) (tcp_module w)"

definition return_tcp :: "'h wifi_dependencies \<Rightarrow> 'h logged tcpm \<Rightarrow> 'h wifi_step" where
  "return_tcp D m w = (let t = world m in
     wifi_hear_all D (Some TCP_PROCESS) (snd (driver t))
       (w\<lparr>tcp_module := m, wifi_packet_buffer := packet_buffer t, wifi_received_data_size := received_data_size t,
          wifi_responses := socket_responses t, wifi_driver := fst (driver t)\<rparr>))"

definition lend_udp :: "'h wifi \<Rightarrow> 'h logged udpm" where
  "lend_udp w = change_world (\<lambda>t. t\<lparr>packet_buffer := wifi_packet_buffer w,
     received_data_size := wifi_received_data_size w, clock := wifi_clock w,
     socket_responses := wifi_responses w, driver := (wifi_driver w, [])\<rparr>) (udp_module w)"

definition return_udp :: "'h wifi_dependencies \<Rightarrow> 'h logged udpm \<Rightarrow> 'h wifi_step" where
  "return_udp D m w = (let t = world m in
     wifi_hear_all D (Some UDP_PROCESS) (snd (driver t))
       (w\<lparr>udp_module := m, wifi_packet_buffer := packet_buffer t, wifi_received_data_size := received_data_size t,
          wifi_responses := socket_responses t, wifi_driver := fst (driver t)\<rparr>))"

definition run_handle :: "'h wifi_dependencies \<Rightarrow> process_handle option \<Rightarrow> 'h wifi \<Rightarrow> (bool \<times> 'h wifi) option" where
  "run_handle D p w = (case p of
     None \<Rightarrow> None
   | Some TCP_PROCESS \<Rightarrow> do {
       (again, m) \<leftarrow> tcp_process_event (wifi_tcp_dependencies D) (lend_tcp w);
       w \<leftarrow> return_tcp D m w;
       Some (again, w)
     }
   | Some UDP_PROCESS \<Rightarrow> do {
       (again, m) \<leftarrow> udp_process_event (wifi_udp_dependencies D) (lend_udp w);
       w \<leftarrow> return_udp D m w;
       Some (again, w)
     })"

definition with_tcp :: "'h wifi_dependencies \<Rightarrow> ('h logged tcpm \<Rightarrow> 'h logged tcpm option) \<Rightarrow> 'h wifi_step" where
  "with_tcp D f w = do { m \<leftarrow> f (lend_tcp w); return_tcp D m w }"

definition with_udp :: "'h wifi_dependencies \<Rightarrow> ('h logged udpm \<Rightarrow> 'h logged udpm option) \<Rightarrow> 'h wifi_step" where
  "with_udp D f w = do { m \<leftarrow> f (lend_udp w); return_udp D m w }"

definition close_both_sockets :: "'h wifi_dependencies \<Rightarrow> 'h wifi_step" where
  "close_both_sockets D w = do {
     w \<leftarrow> with_tcp D tcp_communication_module_close_socket w;
     let w = w\<lparr>tcp_process_handle := Some TCP_PROCESS\<rparr>;
     w \<leftarrow> with_udp D udp_communication_module_close_socket w;
     let w = w\<lparr>udp_process_handle := Some UDP_PROCESS\<rparr>;
     add_wifi_communication_module_event_type EVENT_WIFI_COMMUNICATION_MODULE_PROCESS w
   }"

definition module_called :: "bool \<Rightarrow> 'h wifi_step" where
  "module_called again = add_wifi_communication_module_event_type
     (if again then EVENT_WIFI_COMMUNICATION_MODULE_PROCESS else EVENT_WIFI_COMMUNICATION_MODULE_DONE)"

text \<open>\<open>tcp_process_handle() || udp_process_handle()\<close>\<close>

definition process_closing :: "'h wifi_dependencies \<Rightarrow> 'h wifi_step" where
  "process_closing D w = do {
     (again, w) \<leftarrow> run_handle D (tcp_process_handle w) w;
     (again, w) \<leftarrow> (if again then Some (True, w) else run_handle D (udp_process_handle w) w);
     module_called again w
   }"

section \<open>Helpers of the handlers\<close>

text \<open>The first \<open>n\<close> events are taken out and posted again, but for the requests.\<close>

fun repost :: "nat \<Rightarrow> 'h wifi_step" where
  "repost 0 w = Some w"
| "repost (Suc n) w = do {
     (_, e, b) \<leftarrow> pop_event (wifi_events w);
     let w = w\<lparr>wifi_events := b\<rparr>;
     w \<leftarrow> (case e of None \<Rightarrow> Some w
        | Some e \<Rightarrow>
            if event_type e \<in> {EVENT_WIFI_SEND, EVENT_WIFI_SEND_TO, EVENT_WIFI_RECEIVE, EVENT_WIFI_RECEIVE_FROM, EVENT_WIFI_CONNECT}
            then Some w else add_wifi_communication_module_event_type (event_type e) w);
     repost n w
   }"

definition remove_send_and_receive_events :: "'h wifi_step" where
  "remove_send_and_receive_events w = repost (unat (circular_buffer_size (wifi_events w))) w"

definition wifi_is_static_ip_set :: "config \<Rightarrow> bool" where
  "wifi_is_static_ip_set c \<longleftrightarrow> c_string (cfg_wifi_static_ip c) \<noteq> [] \<and> c_string (cfg_wifi_static_mask c) \<noteq> [] \<and>
     c_string (cfg_wifi_static_gateway c) \<noteq> [] \<and> c_string (cfg_wifi_static_dns c) \<noteq> []"

definition verify_static_ip :: "'h wifi_dependencies \<Rightarrow> 'h wifi \<Rightarrow> (bool \<times> 'h wifi) option" where
  "verify_static_ip D w = do {
     (current_ip, w) \<leftarrow> wifi_call D (get_ip_address D) w;
     Some (current_ip = c_string (cfg_wifi_static_ip (wifi_config w)), w)
   }"

definition wifi_parameters_set :: "config \<Rightarrow> bool" where
  "wifi_parameters_set c \<longleftrightarrow>
     hd (cfg_wifi_ssid c) \<noteq> NUL \<and> hd (cfg_wifi_password c) \<noteq> NUL \<or> hd (cfg_wifi_ssid c) \<noteq> NUL \<and> hd (cfg_wifi_password c) = NUL"

definition tcp_to_wifi_error_type :: "u8 \<Rightarrow> u8" where
  "tcp_to_wifi_error_type e =
     (if e = 0 then WIFI_SUCCESS else if e = TCP_OPERATION_FAILED then WIFI_OPERATION_FAILED
      else if e = 0x20 then WIFI_TIMEOUT else if e = TCP_SOCKET_CLOSED then WIFI_SOCKET_CLOSED
      else if e = TCP_PARAMETERS_MISSING then WIFI_PARAMETERS_MISSING else WIFI_SUCCESS)"

definition udp_to_wifi_error_type :: "u8 \<Rightarrow> u8" where
  "udp_to_wifi_error_type e =
     (if e = 0 then WIFI_SUCCESS else if e = UDP_OPERATION_FAILED then WIFI_OPERATION_FAILED
      else if e = UDP_PARAMETERS_MISSING then WIFI_PARAMETERS_MISSING else WIFI_SUCCESS)"

text \<open>What most failures do: set the first error, drop what waits, or only the requests, and reset.\<close>

definition wifi_fail :: "'h wifi_trans \<Rightarrow> u8 \<Rightarrow> nat \<Rightarrow> 'h wifim \<Rightarrow> (bool \<times> 'h wifim) option" where
  "wifi_fail tr error_type state m = processed True (do {
     m \<leftarrow> lift_world (\<lambda>w. clear_wifi_events (set_wifi_communication_module_error error_type state w)) m;
     tr STATE_WIFI_RESET m
   })"

definition wifi_fail_keeping :: "'h wifi_trans \<Rightarrow> u8 \<Rightarrow> nat \<Rightarrow> 'h wifim \<Rightarrow> (bool \<times> 'h wifim) option" where
  "wifi_fail_keeping tr error_type state m = processed True (do {
     m \<leftarrow> lift_world (\<lambda>w. remove_send_and_receive_events (set_wifi_communication_module_error error_type state w)) m;
     tr STATE_WIFI_RESET m
   })"

definition wifi_post :: "u8 \<Rightarrow> 'h wifim \<Rightarrow> (bool \<times> 'h wifim) option" where
  "wifi_post ty m = processed True (lift_world (add_wifi_communication_module_event_type ty) m)"

definition wifi_post_and_go :: "'h wifi_trans \<Rightarrow> u8 \<Rightarrow> nat \<Rightarrow> 'h wifim \<Rightarrow> (bool \<times> 'h wifim) option" where
  "wifi_post_and_go tr ty state m = processed True (do {
     m \<leftarrow> lift_world (add_wifi_communication_module_event_type ty) m;
     tr state m
   })"

end
