(* ===== verification/Wifi_States.thy ===== *)
theory Wifi_States
  imports Wifi_Module
begin

text \<open>
  The handlers of the Wi-Fi state machine, the functions that other modules call and the processing step,
  \<open>SDK/core/wifi_communication_module.c\<close>.
\<close>

section \<open>Stopped, starting, started\<close>

abbreviation "wifi_requests \<equiv> {EVENT_WIFI_SEND, EVENT_WIFI_SEND_TO, EVENT_WIFI_RECEIVE, EVENT_WIFI_RECEIVE_FROM}"

definition wifi_module_handler :: "'h wifi_dependencies \<Rightarrow> 'h wifi handler" where
  "wifi_module_handler D e m =
     (if e = EVENT_WIFI_COMMUNICATION_MODULE_PROCESS then
        processed True (lift_world (\<lambda>w. do {
          (again, w) \<leftarrow> run_handle D (communication_module_process_handle w) w;
          module_called again w
        }) m)
      else if e = EVENT_LEAVING_STATE then Some (False, m)
      else Some (True, m))"

definition state_stopped :: "'h wifi_trans \<Rightarrow> 'h wifi handler" where
  "state_stopped tr e m =
     (if e = EVENT_ENTERING_STATE then Some (True, m)
      else if e = EVENT_WIFI_CONNECT \<or> e \<in> wifi_requests then wifi_post_and_go tr e STATE_WIFI_STARTING m
      else Some (False, m))"

definition state_starting :: "'h wifi_dependencies \<Rightarrow> 'h wifi_trans \<Rightarrow> 'h wifi handler" where
  "state_starting D tr e m =
     (if e = EVENT_ENTERING_STATE then
        processed True (do {
          (started, w) \<leftarrow> wifi_call D (wifi_start D) (world m);
          let m = m\<lparr>world := w\<rparr>;
          (if started then tr STATE_WIFI_STARTED m
           else do {
             m \<leftarrow> lift_world (\<lambda>w. clear_wifi_events
               (set_wifi_communication_module_error WIFI_OPERATION_FAILED STATE_WIFI_STARTING w)) m;
             tr STATE_WIFI_STOPPED m
           })
        })
      else if e = EVENT_WIFI_CONNECT \<or> e \<in> wifi_requests then wifi_post e m
      else Some (False, m))"

definition state_started :: "'h wifi handler" where
  "state_started e m =
     (if e = EVENT_ENTERING_STATE
      then processed True (set_current_state m (Node STATE_WIFI_STARTED) (Some STATE_WIFI_DISCONNECTED))
      else Some (False, m))"

definition state_stopping :: "'h wifi_dependencies \<Rightarrow> 'h wifi_trans \<Rightarrow> 'h wifi handler" where
  "state_stopping D tr e m =
     (if e = EVENT_ENTERING_STATE then
        processed True (do {
          (stopped, w) \<leftarrow> wifi_call D (wifi_stop D) (world m);
          let w = (if stopped then w else set_wifi_communication_module_error WIFI_OPERATION_FAILED STATE_WIFI_STOPPING w);
          tr STATE_WIFI_STOPPED (m\<lparr>world := w\<rparr>)
        })
      else Some (False, m))"

section \<open>Reset and disconnected\<close>

definition wifi_state_reset :: "'h wifi_dependencies \<Rightarrow> 'h wifi_trans \<Rightarrow> 'h wifi handler" where
  "wifi_state_reset D tr e m =
     (if e = EVENT_ENTERING_STATE then processed True (lift_world (close_both_sockets D) m)
      else if e = EVENT_WIFI_COMMUNICATION_MODULE_PROCESS then processed True (lift_world (process_closing D) m)
      else if e = EVENT_WIFI_COMMUNICATION_MODULE_DONE then
        processed True (do {
          (done_reset, w) \<leftarrow> wifi_call D (wifi_reset D) (world m);
          let w = (if done_reset then w else set_wifi_communication_module_error WIFI_OPERATION_FAILED STATE_WIFI_RESET w);
          tr STATE_WIFI_DISCONNECTED (m\<lparr>world := w\<rparr>)
        })
      else if e = EVENT_WIFI_STOP_SOCKET_CLOSED \<or> e = EVENT_WIFI_STOP then wifi_post EVENT_WIFI_STOP m
      else Some (False, m))"

definition wifi_state_disconnected :: "'h wifi_trans \<Rightarrow> 'h wifi handler" where
  "wifi_state_disconnected tr e m =
     (if e = EVENT_ENTERING_STATE then Some (True, m)
      else if e = EVENT_WIFI_STOP then processed True (tr STATE_WIFI_STOPPING m)
      else if e = EVENT_WIFI_CONNECT then processed True (tr STATE_WIFI_CONNECTING m)
      else if e \<in> wifi_requests then
        (if wifi_parameters_set (wifi_config (world m)) then wifi_post_and_go tr e STATE_WIFI_CONNECTING m
         else Some (True, change_world
           (set_wifi_communication_module_error WIFI_PARAMETERS_MISSING STATE_WIFI_DISCONNECTED) m))
      else if e = EVENT_WIFI_ERROR then wifi_fail_keeping tr WIFI_ERROR STATE_WIFI_DISCONNECTED m
      else Some (False, m))"

section \<open>Connecting\<close>

definition wifi_state_connecting :: "'h wifi handler" where
  "wifi_state_connecting e m =
     (if e = EVENT_ENTERING_STATE then
        processed True (map_option (change_world (schedule_wifi_sequence_timeout WIFI_CONNECTING_TIMEOUT))
          (set_current_state m (Node STATE_WIFI_CONNECTING) (Some STATE_WIFI_CONNECTING_TO_AP)))
      else if e \<in> wifi_requests then wifi_post e m
      else if e = EVENT_LEAVING_STATE then Some (False, change_world (schedule_wifi_sequence_timeout 0) m)
      else Some (False, m))"

definition state_connecting_to_ap :: "'h wifi_dependencies \<Rightarrow> 'h wifi_trans \<Rightarrow> 'h wifi handler" where
  "state_connecting_to_ap D tr e m =
     (if e = EVENT_ENTERING_STATE then do {
        let w = send_wifi_response ''STATUS CONNECTING_TO_AP;'' (wifi_stopwatch_start (world m));
        let c = wifi_config w;
        (connecting, w) \<leftarrow> wifi_call D
          (wifi_connect D (c_string (cfg_wifi_ssid c)) (c_string (cfg_wifi_password c)) (cfg_wifi_auth_type c)) w;
        let m = m\<lparr>world := w\<rparr>;
        (if connecting then wifi_post EVENT_WIFI_CONNECTING m
         else wifi_fail tr WIFI_OPERATION_FAILED STATE_WIFI_CONNECTING_TO_AP m)
      }
      else if e = EVENT_WIFI_CONNECTING \<or> e = EVENT_WIFI_IP_ADDRESS_ACQUIRED then wifi_post e m
      else if e = EVENT_WIFI_CONNECTED then processed True (tr STATE_WIFI_ACQUIRING_IP_ADDRESS m)
      else if e = EVENT_WIFI_DISCONNECTED then wifi_fail tr WIFI_DISCONNECTED STATE_WIFI_CONNECTING_TO_AP m
      else if e = EVENT_WIFI_SEQUENCE_TIMEOUT then wifi_fail tr WIFI_TIMEOUT STATE_WIFI_CONNECTING_TO_AP m
      else if e = EVENT_WIFI_ERROR then wifi_fail tr WIFI_ERROR STATE_WIFI_CONNECTING_TO_AP m
      else if e = EVENT_LEAVING_STATE then
        Some (False, change_world (\<lambda>w. let (t, w) = wifi_stopwatch_stop w in
          change_wifi_data (\<lambda>d. d\<lparr>cmd_connect_to_ap_time := cmd_connect_to_ap_time d + t\<rparr>) w) m)
      else Some (False, m))"

definition state_acquiring_ip_address :: "'h wifi_dependencies \<Rightarrow> 'h wifi_trans \<Rightarrow> 'h wifi handler" where
  "state_acquiring_ip_address D tr e m =
     (if e = EVENT_ENTERING_STATE then
        wifi_post EVENT_WIFI_ACQUIRING_IP_ADDRESS
          (change_world (\<lambda>w. send_wifi_response ''STATUS ACQUIRING_IP_ADDRESS;'' (wifi_stopwatch_start w)) m)
      else if e = EVENT_WIFI_ACQUIRING_IP_ADDRESS then wifi_post EVENT_WIFI_ACQUIRING_IP_ADDRESS m
      else if e = EVENT_WIFI_IP_ADDRESS_ACQUIRED then
        (if wifi_is_static_ip_set (wifi_config (world m)) then do {
           (verified, w) \<leftarrow> verify_static_ip D (world m);
           let m = m\<lparr>world := w\<rparr>;
           (if verified then processed True (tr STATE_WIFI_CONNECTED m)
            else wifi_fail tr WIFI_OPERATION_FAILED STATE_WIFI_ACQUIRING_IP_ADDRESS m)
         } else processed True (tr STATE_WIFI_CONNECTED m))
      else if e = EVENT_WIFI_DISCONNECTED then wifi_fail tr WIFI_DISCONNECTED STATE_WIFI_ACQUIRING_IP_ADDRESS m
      else if e = EVENT_WIFI_SEQUENCE_TIMEOUT then wifi_fail tr WIFI_TIMEOUT STATE_WIFI_ACQUIRING_IP_ADDRESS m
      else if e = EVENT_WIFI_ERROR then wifi_fail tr WIFI_ERROR STATE_WIFI_ACQUIRING_IP_ADDRESS m
      else if e = EVENT_LEAVING_STATE then
        Some (False, change_world (\<lambda>w. let (t, w) = wifi_stopwatch_stop w in
          change_wifi_data (\<lambda>d. d\<lparr>cmd_acquire_ip_address_time := t\<rparr>) w) m)
      else Some (False, m))"

section \<open>Connected\<close>

definition wifi_state_connected :: "'h wifi_trans \<Rightarrow> 'h wifi handler" where
  "wifi_state_connected tr e m =
     (if e = EVENT_ENTERING_STATE then processed True (set_current_state m (Node STATE_WIFI_CONNECTED) None)
      else if e = EVENT_WIFI_SEND then processed True (tr STATE_WIFI_SEND m)
      else if e = EVENT_WIFI_SEND_TO then processed True (tr STATE_WIFI_SEND_TO m)
      else if e = EVENT_WIFI_RECEIVE then processed True (tr STATE_WIFI_RECEIVE m)
      else if e = EVENT_WIFI_RECEIVE_FROM then processed True (tr STATE_WIFI_RECEIVE_FROM m)
      else if e = EVENT_WIFI_CLOSE_SOCKET then processed True (tr STATE_WIFI_CLOSING_SOCKET m)
      else if e = EVENT_WIFI_DISCONNECT
      then wifi_post_and_go tr EVENT_WIFI_DISCONNECT_SOCKET_CLOSED STATE_WIFI_DISCONNECTING m
      else if e = EVENT_WIFI_DISCONNECT_SOCKET_CLOSED then processed True (tr STATE_WIFI_DISCONNECTING m)
      else if e = EVENT_WIFI_STOP
      then wifi_post_and_go tr EVENT_WIFI_STOP_SOCKET_CLOSED STATE_WIFI_CLOSING_SOCKET m
      else if e = EVENT_WIFI_STOP_SOCKET_CLOSED
      then wifi_post_and_go tr EVENT_WIFI_STOP STATE_WIFI_DISCONNECTING m
      else if e = EVENT_WIFI_DISCONNECTED then wifi_fail_keeping tr WIFI_DISCONNECTED STATE_WIFI_CONNECTED m
      else if e = EVENT_WIFI_ERROR then wifi_fail_keeping tr WIFI_ERROR STATE_WIFI_CONNECTED m
      else Some (False, m))"

text \<open>
  What the four states that exchange data have in common once the TCP or UDP module is done: its success
  leads back to the connected state, its error becomes the Wi-Fi module's.
\<close>

definition exchange_finished :: "'h wifi_trans \<Rightarrow> nat \<Rightarrow> communication_module_type_data \<Rightarrow> (u8 \<Rightarrow> u8) \<Rightarrow> 'h wifim \<Rightarrow> (bool \<times> 'h wifim) option" where
  "exchange_finished tr state result to_wifi m =
     (if is_communication_module_success result then processed True (tr STATE_WIFI_CONNECTED m)
      else wifi_fail tr (to_wifi (cmd_error (cmtd_data result) AND 0xf0)) state m)"

definition take_server_time :: "communication_module_type_data \<Rightarrow> 'h wifim \<Rightarrow> 'h wifim" where
  "take_server_time result = change_world (change_wifi_data
     (\<lambda>d. d\<lparr>cmd_connect_to_server_time := cmd_connect_to_server_time (cmtd_data result)\<rparr>))"

definition lost_while_exchanging :: "'h wifi_trans \<Rightarrow> nat \<Rightarrow> 'h wifi handler" where
  "lost_while_exchanging tr state e m =
     (if e = EVENT_WIFI_DISCONNECTED then wifi_fail tr WIFI_DISCONNECTED state m
      else if e = EVENT_WIFI_ERROR then wifi_fail tr WIFI_ERROR state m
      else Some (False, m))"

definition wifi_state_send :: "'h wifi_dependencies \<Rightarrow> 'h wifi_trans \<Rightarrow> 'h wifi handler" where
  "wifi_state_send D tr e m =
     (if e = EVENT_ENTERING_STATE then
        processed True (lift_world (\<lambda>w. do {
          let w = wifi_stopwatch_start w;
          w \<leftarrow> with_tcp D (tcp_communication_module_send (wifi_data_size w)) w;
          add_wifi_communication_module_event_type EVENT_WIFI_COMMUNICATION_MODULE_PROCESS
            (w\<lparr>communication_module_process_handle := Some TCP_PROCESS\<rparr>)
        }) m)
      else if e = EVENT_WIFI_COMMUNICATION_MODULE_DONE then
        (let send_result = get_tcp_communication_module_result (tcp_module (world m)) in
         exchange_finished tr STATE_WIFI_SEND send_result tcp_to_wifi_error_type (take_server_time send_result m))
      else if e = EVENT_LEAVING_STATE then
        Some (False, change_world (\<lambda>w. let (t, w) = wifi_stopwatch_stop w in
          change_wifi_data (\<lambda>d. d\<lparr>cmd_data_exchange_time := t\<rparr>) w) m)
      else lost_while_exchanging tr STATE_WIFI_SEND e m)"

definition wifi_state_send_to :: "'h wifi_dependencies \<Rightarrow> 'h wifi_trans \<Rightarrow> 'h wifi handler" where
  "wifi_state_send_to D tr e m =
     (if e = EVENT_ENTERING_STATE then
        processed True (lift_world (\<lambda>w. do {
          let w = wifi_stopwatch_start w;
          w \<leftarrow> with_udp D (udp_communication_module_send (wifi_data_size w)) w;
          add_wifi_communication_module_event_type EVENT_WIFI_COMMUNICATION_MODULE_PROCESS
            (w\<lparr>communication_module_process_handle := Some UDP_PROCESS\<rparr>)
        }) m)
      else if e = EVENT_WIFI_COMMUNICATION_MODULE_DONE then
        (let send_result = get_udp_communication_module_result (udp_module (world m)) in
         exchange_finished tr STATE_WIFI_SEND_TO send_result udp_to_wifi_error_type m)
      else if e = EVENT_LEAVING_STATE then
        Some (False, change_world (\<lambda>w. let (t, w) = wifi_stopwatch_stop w in
          change_wifi_data (\<lambda>d. d\<lparr>cmd_data_exchange_time := t\<rparr>) w) m)
      else lost_while_exchanging tr STATE_WIFI_SEND_TO e m)"

definition wifi_state_receive :: "'h wifi_dependencies \<Rightarrow> 'h wifi_trans \<Rightarrow> 'h wifi handler" where
  "wifi_state_receive D tr e m =
     (if e = EVENT_ENTERING_STATE then
        processed True (lift_world (\<lambda>w. do {
          let w = wifi_stopwatch_start w;
          w \<leftarrow> with_tcp D (tcp_communication_module_receive (wifi_buffer_size w)) w;
          add_wifi_communication_module_event_type EVENT_WIFI_COMMUNICATION_MODULE_PROCESS
            (w\<lparr>communication_module_process_handle := Some TCP_PROCESS\<rparr>)
        }) m)
      else if e = EVENT_WIFI_COMMUNICATION_MODULE_DONE then
        (let receive_result = get_tcp_communication_module_result (tcp_module (world m)) in
         exchange_finished tr STATE_WIFI_RECEIVE receive_result tcp_to_wifi_error_type (take_server_time receive_result m))
      else if e = EVENT_LEAVING_STATE then
        Some (False, change_world (\<lambda>w. let (t, w) = wifi_stopwatch_stop w in
          change_wifi_data (\<lambda>d. d\<lparr>cmd_data_exchange_time := cmd_data_exchange_time d + t\<rparr>) w) m)
      else lost_while_exchanging tr STATE_WIFI_RECEIVE e m)"

definition wifi_state_receive_from :: "'h wifi_dependencies \<Rightarrow> 'h wifi_trans \<Rightarrow> 'h wifi handler" where
  "wifi_state_receive_from D tr e m =
     (if e = EVENT_ENTERING_STATE then
        processed True (lift_world (\<lambda>w. do {
          let w = wifi_stopwatch_start w;
          w \<leftarrow> with_udp D (udp_communication_module_receive (wifi_buffer_size w)) w;
          add_wifi_communication_module_event_type EVENT_WIFI_COMMUNICATION_MODULE_PROCESS
            (w\<lparr>communication_module_process_handle := Some UDP_PROCESS\<rparr>)
        }) m)
      else if e = EVENT_WIFI_COMMUNICATION_MODULE_DONE then
        (let receive_result = get_udp_communication_module_result (udp_module (world m)) in
         exchange_finished tr STATE_WIFI_RECEIVE_FROM receive_result udp_to_wifi_error_type
           (take_server_time receive_result m))
      else if e = EVENT_LEAVING_STATE then
        Some (False, change_world (\<lambda>w. let (t, w) = wifi_stopwatch_stop w in
          change_wifi_data (\<lambda>d. d\<lparr>cmd_data_exchange_time := cmd_data_exchange_time d + t\<rparr>) w) m)
      else lost_while_exchanging tr STATE_WIFI_RECEIVE_FROM e m)"

definition wifi_state_closing_socket :: "'h wifi_dependencies \<Rightarrow> 'h wifi_trans \<Rightarrow> 'h wifi handler" where
  "wifi_state_closing_socket D tr e m =
     (if e = EVENT_ENTERING_STATE then processed True (lift_world (close_both_sockets D) m)
      else if e = EVENT_WIFI_COMMUNICATION_MODULE_PROCESS then processed True (lift_world (process_closing D) m)
      else if e = EVENT_WIFI_COMMUNICATION_MODULE_DONE then
        (let tcp_result = get_tcp_communication_module_result (tcp_module (world m));
             udp_result = get_udp_communication_module_result (udp_module (world m)) in
         if is_communication_module_success tcp_result \<and> is_communication_module_success udp_result
         then processed True (tr STATE_WIFI_CONNECTED m)
         else if cmd_error (cmtd_data tcp_result) AND 0xf0 = TCP_SOCKET_CLOSED
         then processed True (tr STATE_WIFI_CONNECTED m)
         else wifi_fail_keeping tr WIFI_OPERATION_FAILED STATE_WIFI_CLOSING_SOCKET m)
      else if e = EVENT_WIFI_DISCONNECT_SOCKET_CLOSED \<or> e = EVENT_WIFI_STOP_SOCKET_CLOSED then wifi_post e m
      else if e = EVENT_WIFI_DISCONNECTED then wifi_fail_keeping tr WIFI_DISCONNECTED STATE_WIFI_CLOSING_SOCKET m
      else if e = EVENT_WIFI_ERROR then wifi_fail_keeping tr WIFI_ERROR STATE_WIFI_CLOSING_SOCKET m
      else if e = EVENT_LEAVING_STATE then Some (False, m)
      else Some (True, m))"

definition wifi_state_disconnecting :: "'h wifi_dependencies \<Rightarrow> 'h wifi_trans \<Rightarrow> 'h wifi handler" where
  "wifi_state_disconnecting D tr e m =
     (if e = EVENT_ENTERING_STATE then do {
        let w = schedule_wifi_sequence_timeout WIFI_DISCONECT_TIMEOUT
          (send_wifi_response ''STATUS DISCONNECTING;'' (wifi_stopwatch_start (world m)));
        (disconnecting, w) \<leftarrow> wifi_call D (wifi_disconnect D) w;
        let m = m\<lparr>world := w\<rparr>;
        (if disconnecting then wifi_post EVENT_WIFI_DISCONNECTING m
         else wifi_fail_keeping tr WIFI_OPERATION_FAILED STATE_WIFI_DISCONNECTING m)
      }
      else if e = EVENT_WIFI_STOP \<or> e = EVENT_WIFI_DISCONNECTING then wifi_post e m
      else if e = EVENT_WIFI_DISCONNECTED then processed True (tr STATE_WIFI_DISCONNECTED m)
      else if e = EVENT_WIFI_SEQUENCE_TIMEOUT then wifi_fail_keeping tr WIFI_TIMEOUT STATE_WIFI_DISCONNECTING m
      else if e = EVENT_WIFI_ERROR then wifi_fail_keeping tr WIFI_ERROR STATE_WIFI_DISCONNECTING m
      else if e = EVENT_LEAVING_STATE then
        Some (False, change_world (\<lambda>w. let (t, w) = wifi_stopwatch_stop (schedule_wifi_sequence_timeout 0 w) in
          change_wifi_data (\<lambda>d. d\<lparr>cmd_disconnect_time := t\<rparr>) w) m)
      else Some (False, m))"

section \<open>The machine\<close>

fun wifi_handlers :: "'h wifi_dependencies \<Rightarrow> 'h wifi_trans \<Rightarrow> 'h wifi handlers" where
  "wifi_handlers D tr Root = Some (wifi_module_handler D)"
| "wifi_handlers D tr (Node i) =
     (if i = STATE_WIFI_STARTING then Some (state_starting D tr)
      else if i = STATE_WIFI_STARTED then Some state_started
      else if i = STATE_WIFI_DISCONNECTED then Some (wifi_state_disconnected tr)
      else if i = STATE_WIFI_CONNECTING then Some wifi_state_connecting
      else if i = STATE_WIFI_CONNECTING_TO_AP then Some (state_connecting_to_ap D tr)
      else if i = STATE_WIFI_ACQUIRING_IP_ADDRESS then Some (state_acquiring_ip_address D tr)
      else if i = STATE_WIFI_CONNECTED then Some (wifi_state_connected tr)
      else if i = STATE_WIFI_SEND then Some (wifi_state_send D tr)
      else if i = STATE_WIFI_SEND_TO then Some (wifi_state_send_to D tr)
      else if i = STATE_WIFI_RECEIVE then Some (wifi_state_receive D tr)
      else if i = STATE_WIFI_RECEIVE_FROM then Some (wifi_state_receive_from D tr)
      else if i = STATE_WIFI_CLOSING_SOCKET then Some (wifi_state_closing_socket D tr)
      else if i = STATE_WIFI_DISCONNECTING then Some (wifi_state_disconnecting D tr)
      else if i = STATE_WIFI_RESET then Some (wifi_state_reset D tr)
      else if i = STATE_WIFI_STOPPING then Some (state_stopping D tr)
      else if i = STATE_WIFI_STOPPED then Some (state_stopped tr)
      else None)"

text \<open>Transitions nest two deep: a state that is entered moves on at once.\<close>

definition wifi_transition :: "'h wifi_dependencies \<Rightarrow> 'h wifi_trans" where
  "wifi_transition D = nested_transition (wifi_handlers D) 2"

definition wifi_communication_module_process_event :: "'h wifi_dependencies \<Rightarrow> 'h wifim \<Rightarrow> (bool \<times> 'h wifim) option" where
  "wifi_communication_module_process_event D m = do {
     r \<leftarrow> pop_event (wifi_events (world m));
     (let m = m\<lparr>world := (world m)\<lparr>wifi_events := snd (snd r)\<rparr>\<rparr> in
      case fst (snd r) of
        None \<Rightarrow> Some (False, m)
      | Some e \<Rightarrow> map_option (\<lambda>r. (True, snd r))
          (state_machine_process_event (wifi_handlers D (wifi_transition D)) Root (event_type e) m))
   }"

section \<open>The functions that other modules call\<close>

definition wifi_operation :: "u8 \<Rightarrow> 'h wifi_step" where
  "wifi_operation ty w =
     add_wifi_communication_module_event_type ty (w\<lparr>wifi_communication_module_data := zero_module_data\<rparr>)"

definition wifi_communication_module_connect :: "'h wifi_step" where
  "wifi_communication_module_connect = wifi_operation EVENT_WIFI_CONNECT"

definition wifi_communication_module_send :: "u16 \<Rightarrow> 'h wifi_step" where
  "wifi_communication_module_send n w = wifi_operation EVENT_WIFI_SEND (w\<lparr>wifi_data_size := n\<rparr>)"

definition wifi_communication_module_send_to :: "u16 \<Rightarrow> 'h wifi_step" where
  "wifi_communication_module_send_to n w = wifi_operation EVENT_WIFI_SEND_TO (w\<lparr>wifi_data_size := n\<rparr>)"

definition wifi_communication_module_receive :: "u16 \<Rightarrow> 'h wifi_step" where
  "wifi_communication_module_receive n w = wifi_operation EVENT_WIFI_RECEIVE (w\<lparr>wifi_buffer_size := n\<rparr>)"

definition wifi_communication_module_receive_from :: "u16 \<Rightarrow> 'h wifi_step" where
  "wifi_communication_module_receive_from n w = wifi_operation EVENT_WIFI_RECEIVE_FROM (w\<lparr>wifi_buffer_size := n\<rparr>)"

definition wifi_communication_module_close_socket :: "'h wifi_step" where
  "wifi_communication_module_close_socket = wifi_operation EVENT_WIFI_CLOSE_SOCKET"

definition wifi_communication_module_disconnect :: "'h wifi_step" where
  "wifi_communication_module_disconnect = wifi_operation EVENT_WIFI_DISCONNECT"

definition wifi_communication_module_stop :: "'h wifi_step" where
  "wifi_communication_module_stop = wifi_operation EVENT_WIFI_STOP"

definition get_wifi_communication_result :: "'h wifi \<Rightarrow> communication_module_type_data" where
  "get_wifi_communication_result w =
     \<lparr>cmtd_type = COMMUNICATION_MODULE_WIFI, cmtd_data = wifi_communication_module_data w\<rparr>"

definition wifi_state_name :: "node \<Rightarrow> string option" where
  "wifi_state_name n = (case n of Root \<Rightarrow> None | Node i \<Rightarrow>
     if i < 16 then Some ([''STARTING'', ''STARTED'', ''DISCONNECTED'', ''CONNECTING'', ''CONNECTING_TO_AP'',
       ''ACQUIRING_IP_ADDRESS'', ''CONNECTED'', ''SEND'', ''SEND_TO'', ''RECEIVE'', ''RECEIVE_FROM'',
       ''CLOSING_SOCKET'', ''DISCONNECTING'', ''RESET'', ''STOPPING'', ''STOPPED''] ! i) else None)"

definition get_wifi_communication_module_status :: "'h wifim \<Rightarrow> string option" where
  "get_wifi_communication_module_status m = do {
     n \<leftarrow> innermost m Root;
     get_state_human_readable_name wifi_state_name (parent_node m) n
   }"

fun init_wifi_states :: "(nat \<times> node \<times> nat option) list \<Rightarrow> 'h wifim \<Rightarrow> 'h wifim option" where
  "init_wifi_states [] m = Some m"
| "init_wifi_states ((i, p, c) # xs) m = do { m \<leftarrow> state_machine_init_state m i p c; init_wifi_states xs m }"

text \<open>
  The Wi-Fi parameters are loaded into the configuration; the TCP and UDP modules are initialised
  with the driver of this one.
\<close>

definition init_wifi_communication_module ::
  "'p platform_ops \<Rightarrow> 'h wifi_dependencies \<Rightarrow> u16 \<Rightarrow> 'p app \<times> 'h wifim \<Rightarrow> ('p app \<times> 'h wifim) option" where
  "init_wifi_communication_module ops D event_size am = do {
     let (a, m) = am;
     b \<leftarrow> circular_buffer_init \<lparr>event_type = 0, event_timestamp = 0\<rparr> (wifi_events (world m))
            (cb_storage (wifi_events (world m))) 10 event_size True True;
     let m = change_world (\<lambda>w. w\<lparr>wifi_events := b\<rparr>) m;
     let a = snd (load_wifi_static_dns ops (snd (load_wifi_static_gateway ops (snd (load_wifi_static_mask ops
       (snd (load_wifi_static_ip ops (snd (load_wifi_auth_type ops (snd (load_wifi_password ops
       (snd (load_wifi_ssid ops a)))))))))))));
     m \<leftarrow> init_wifi_states
       [(STATE_WIFI_STOPPED, Root, None),
        (STATE_WIFI_STARTING, Root, None),
        (STATE_WIFI_STARTED, Root, Some STATE_WIFI_DISCONNECTED),
        (STATE_WIFI_DISCONNECTED, Node STATE_WIFI_STARTED, None),
        (STATE_WIFI_CONNECTING, Node STATE_WIFI_STARTED, Some STATE_WIFI_CONNECTING_TO_AP),
        (STATE_WIFI_CONNECTING_TO_AP, Node STATE_WIFI_CONNECTING, None),
        (STATE_WIFI_ACQUIRING_IP_ADDRESS, Node STATE_WIFI_CONNECTING, None),
        (STATE_WIFI_CONNECTED, Node STATE_WIFI_STARTED, None),
        (STATE_WIFI_SEND, Node STATE_WIFI_CONNECTED, None),
        (STATE_WIFI_SEND_TO, Node STATE_WIFI_CONNECTED, None),
        (STATE_WIFI_RECEIVE, Node STATE_WIFI_CONNECTED, None),
        (STATE_WIFI_RECEIVE_FROM, Node STATE_WIFI_CONNECTED, None),
        (STATE_WIFI_CLOSING_SOCKET, Node STATE_WIFI_CONNECTED, None),
        (STATE_WIFI_DISCONNECTING, Node STATE_WIFI_STARTED, None),
        (STATE_WIFI_RESET, Node STATE_WIFI_STARTED, None),
        (STATE_WIFI_STOPPING, Root, None)]
       (m\<lparr>root_current := Some STATE_WIFI_STOPPED\<rparr>);
     (a, t) \<leftarrow> init_tcp_communication_module ops (wifi_tcp_dependencies D) event_size (a, tcp_module (world m));
     u \<leftarrow> init_udp_communication_module (wifi_udp_dependencies D) event_size (udp_module (world m));
     Some (a, change_world (\<lambda>w. w\<lparr>tcp_module := t, udp_module := u, wifi_config := app_config a\<rparr>) m)
   }"

end
