(* ===== verification/Wifi_Modes.thy ===== *)
theory Wifi_Modes
  imports Wifi_States
begin

text \<open>
  What the Wi-Fi machine of \<open>SDK/core/wifi_communication_module.c\<close> promises, without its tree: between two
  events it is in one of twelve states, and a table says what each event does there.  The refinement lemma
  says that dispatch through the hierarchy of the seventeen handlers is this table.
\<close>

section \<open>The tree\<close>

definition wifi_parents :: "node list" where
  "wifi_parents = [Root, Root, Node STATE_WIFI_STARTED, Node STATE_WIFI_STARTED, Node STATE_WIFI_CONNECTING,
     Node STATE_WIFI_CONNECTING, Node STATE_WIFI_STARTED, Node STATE_WIFI_CONNECTED, Node STATE_WIFI_CONNECTED,
     Node STATE_WIFI_CONNECTED, Node STATE_WIFI_CONNECTED, Node STATE_WIFI_CONNECTED, Node STATE_WIFI_STARTED,
     Node STATE_WIFI_STARTED, Root, Root]"

definition wifi_tree :: "nat \<Rightarrow> nat \<Rightarrow> nat \<Rightarrow> nat option \<Rightarrow> 'h wifi \<Rightarrow> 'h wifim" where
  "wifi_tree r s c k w = \<lparr>root_current = Some r,
     state_current = [None, Some s, None, Some c, None, None, k, None, None, None, None, None, None, None, None, None],
     state_parent = wifi_parents, world = w\<rparr>"

abbreviation "wifi_connecting_leaves \<equiv> {STATE_WIFI_CONNECTING_TO_AP, STATE_WIFI_ACQUIRING_IP_ADDRESS}"
abbreviation "wifi_exchange_leaves \<equiv> {STATE_WIFI_SEND, STATE_WIFI_SEND_TO, STATE_WIFI_RECEIVE, STATE_WIFI_RECEIVE_FROM}"
abbreviation "wifi_connected_leaves \<equiv> {STATE_WIFI_SEND, STATE_WIFI_SEND_TO, STATE_WIFI_RECEIVE, STATE_WIFI_RECEIVE_FROM,
  STATE_WIFI_CLOSING_SOCKET}"
abbreviation "wifi_plain_leaves \<equiv> {STATE_WIFI_DISCONNECTED, STATE_WIFI_DISCONNECTING, STATE_WIFI_RESET}"

lemma wifi_tree_simps [simp]:
  "world (wifi_tree r s c k w) = w"
  "(wifi_tree r s c k w)\<lparr>world := w'\<rparr> = wifi_tree r s c k w'"
  "(wifi_tree r s c k w)\<lparr>root_current := Some r'\<rparr> = wifi_tree r' s c k w"
  "root_current (wifi_tree r s c k w) = Some r"
  "state_parent (wifi_tree r s c k w) = wifi_parents"
  "change_world g (wifi_tree r s c k w) = wifi_tree r s c k (g w)"
  by (simp_all add: wifi_tree_def change_world_def)

lemma lift_wifi_tree [simp]: "lift_world f (wifi_tree r s c k w) = map_option (wifi_tree r s c k) (f w)"
  by (simp add: lift_world_def)

lemma wifi_states_distinct:
  "distinct [STATE_WIFI_STARTING, STATE_WIFI_STARTED, STATE_WIFI_DISCONNECTED, STATE_WIFI_CONNECTING,
     STATE_WIFI_CONNECTING_TO_AP, STATE_WIFI_ACQUIRING_IP_ADDRESS, STATE_WIFI_CONNECTED, STATE_WIFI_SEND,
     STATE_WIFI_SEND_TO, STATE_WIFI_RECEIVE, STATE_WIFI_RECEIVE_FROM, STATE_WIFI_CLOSING_SOCKET,
     STATE_WIFI_DISCONNECTING, STATE_WIFI_RESET, STATE_WIFI_STOPPING, STATE_WIFI_STOPPED]"
  "distinct [STATE_WIFI_STOPPED, STATE_WIFI_STOPPING, STATE_WIFI_RESET, STATE_WIFI_DISCONNECTING,
     STATE_WIFI_CLOSING_SOCKET, STATE_WIFI_RECEIVE_FROM, STATE_WIFI_RECEIVE, STATE_WIFI_SEND_TO, STATE_WIFI_SEND,
     STATE_WIFI_CONNECTED, STATE_WIFI_ACQUIRING_IP_ADDRESS, STATE_WIFI_CONNECTING_TO_AP, STATE_WIFI_CONNECTING,
     STATE_WIFI_DISCONNECTED, STATE_WIFI_STARTED, STATE_WIFI_STARTING]"
  by (simp_all add: wifi_state_defs)

lemmas wifi_state_neq [simp] = wifi_states_distinct [simplified]

lemma wifi_events_distinct:
  "distinct [EVENT_WIFI_DISCONNECT, EVENT_WIFI_CONNECT, EVENT_WIFI_DISCONNECT_SOCKET_CLOSED, EVENT_WIFI_SEND,
     EVENT_WIFI_SEND_TO, EVENT_WIFI_RECEIVE, EVENT_WIFI_RECEIVE_FROM, EVENT_WIFI_STOP, EVENT_WIFI_STOP_SOCKET_CLOSED,
     EVENT_WIFI_CONNECTING, EVENT_WIFI_CONNECTED, EVENT_WIFI_ACQUIRING_IP_ADDRESS, EVENT_WIFI_IP_ADDRESS_ACQUIRED,
     EVENT_WIFI_DISCONNECTING, EVENT_WIFI_DISCONNECTED, EVENT_WIFI_SEQUENCE_TIMEOUT, EVENT_WIFI_ERROR,
     EVENT_WIFI_CLOSE_SOCKET, EVENT_WIFI_COMMUNICATION_MODULE_PROCESS, EVENT_WIFI_COMMUNICATION_MODULE_DONE,
     EVENT_ENTERING_STATE, EVENT_LEAVING_STATE]"
  "distinct [EVENT_LEAVING_STATE, EVENT_ENTERING_STATE, EVENT_WIFI_COMMUNICATION_MODULE_DONE,
     EVENT_WIFI_COMMUNICATION_MODULE_PROCESS, EVENT_WIFI_CLOSE_SOCKET, EVENT_WIFI_ERROR, EVENT_WIFI_SEQUENCE_TIMEOUT,
     EVENT_WIFI_DISCONNECTED, EVENT_WIFI_DISCONNECTING, EVENT_WIFI_IP_ADDRESS_ACQUIRED,
     EVENT_WIFI_ACQUIRING_IP_ADDRESS, EVENT_WIFI_CONNECTED, EVENT_WIFI_CONNECTING, EVENT_WIFI_STOP_SOCKET_CLOSED,
     EVENT_WIFI_STOP, EVENT_WIFI_RECEIVE_FROM, EVENT_WIFI_RECEIVE, EVENT_WIFI_SEND_TO, EVENT_WIFI_SEND,
     EVENT_WIFI_DISCONNECT_SOCKET_CLOSED, EVENT_WIFI_CONNECT, EVENT_WIFI_DISCONNECT]"
  by (simp_all add: wifi_event_defs)

lemmas wifi_event_neq [simp] = wifi_events_distinct [simplified]

lemma wifi_tree_current [simp]:
  "current_state (wifi_tree r s c k w) Root = Some (Some r)"
  "current_state (wifi_tree r s c k w) (Node STATE_WIFI_STARTED) = Some (Some s)"
  "current_state (wifi_tree r s c k w) (Node STATE_WIFI_CONNECTING) = Some (Some c)"
  "current_state (wifi_tree r s c k w) (Node STATE_WIFI_CONNECTED) = Some k"
  "current_state (wifi_tree r s c k w) (Node STATE_WIFI_STARTING) = Some None"
  "current_state (wifi_tree r s c k w) (Node STATE_WIFI_STOPPING) = Some None"
  "current_state (wifi_tree r s c k w) (Node STATE_WIFI_STOPPED) = Some None"
  "i \<in> wifi_plain_leaves \<Longrightarrow> current_state (wifi_tree r s c k w) (Node i) = Some None"
  "i \<in> wifi_connecting_leaves \<Longrightarrow> current_state (wifi_tree r s c k w) (Node i) = Some None"
  "i \<in> wifi_connected_leaves \<Longrightarrow> current_state (wifi_tree r s c k w) (Node i) = Some None"
  by (auto simp: wifi_tree_def wifi_state_defs eval_nat_numeral current_state.simps(2))

lemma wifi_tree_set [simp]:
  "set_current_state (wifi_tree r s c k w) (Node STATE_WIFI_STARTED) (Some s') = Some (wifi_tree r s' c k w)"
  "set_current_state (wifi_tree r s c k w) (Node STATE_WIFI_CONNECTING) (Some c') = Some (wifi_tree r s c' k w)"
  "set_current_state (wifi_tree r s c k w) (Node STATE_WIFI_CONNECTED) k' = Some (wifi_tree r s c k' w)"
  by (simp_all add: wifi_tree_def wifi_state_defs eval_nat_numeral set_current_state.simps(2))

lemma wifi_parents_get [simp]:
  "t \<in> {STATE_WIFI_STARTING, STATE_WIFI_STARTED, STATE_WIFI_STOPPING, STATE_WIFI_STOPPED} \<Longrightarrow>
     array_get wifi_parents t = Some Root"
  "t \<in> wifi_plain_leaves \<union> {STATE_WIFI_CONNECTING, STATE_WIFI_CONNECTED} \<Longrightarrow>
     array_get wifi_parents t = Some (Node STATE_WIFI_STARTED)"
  "t \<in> wifi_connecting_leaves \<Longrightarrow> array_get wifi_parents t = Some (Node STATE_WIFI_CONNECTING)"
  "t \<in> wifi_connected_leaves \<Longrightarrow> array_get wifi_parents t = Some (Node STATE_WIFI_CONNECTED)"
  by (auto simp: wifi_parents_def array_get_def wifi_state_defs eval_nat_numeral)

lemma wifi_handlers_at [simp]:
  "wifi_handlers D tr (Node STATE_WIFI_STARTING) = Some (state_starting D tr)"
  "wifi_handlers D tr (Node STATE_WIFI_STARTED) = Some state_started"
  "wifi_handlers D tr (Node STATE_WIFI_DISCONNECTED) = Some (wifi_state_disconnected tr)"
  "wifi_handlers D tr (Node STATE_WIFI_CONNECTING) = Some wifi_state_connecting"
  "wifi_handlers D tr (Node STATE_WIFI_CONNECTING_TO_AP) = Some (state_connecting_to_ap D tr)"
  "wifi_handlers D tr (Node STATE_WIFI_ACQUIRING_IP_ADDRESS) = Some (state_acquiring_ip_address D tr)"
  "wifi_handlers D tr (Node STATE_WIFI_CONNECTED) = Some (wifi_state_connected tr)"
  "wifi_handlers D tr (Node STATE_WIFI_SEND) = Some (wifi_state_send D tr)"
  "wifi_handlers D tr (Node STATE_WIFI_SEND_TO) = Some (wifi_state_send_to D tr)"
  "wifi_handlers D tr (Node STATE_WIFI_RECEIVE) = Some (wifi_state_receive D tr)"
  "wifi_handlers D tr (Node STATE_WIFI_RECEIVE_FROM) = Some (wifi_state_receive_from D tr)"
  "wifi_handlers D tr (Node STATE_WIFI_CLOSING_SOCKET) = Some (wifi_state_closing_socket D tr)"
  "wifi_handlers D tr (Node STATE_WIFI_DISCONNECTING) = Some (wifi_state_disconnecting D tr)"
  "wifi_handlers D tr (Node STATE_WIFI_RESET) = Some (wifi_state_reset D tr)"
  "wifi_handlers D tr (Node STATE_WIFI_STOPPING) = Some (state_stopping D tr)"
  "wifi_handlers D tr (Node STATE_WIFI_STOPPED) = Some (state_stopped tr)"
  by simp_all

declare wifi_handlers.simps(2) [simp del]

section \<open>Leaving and entering\<close>

text \<open>What a leaf and the states above it, up to those that stay active, leave behind.\<close>

definition record_wifi_time :: "(u16 \<Rightarrow> communication_module_data \<Rightarrow> communication_module_data) \<Rightarrow> 'h wifi \<Rightarrow> 'h wifi" where
  "record_wifi_time f w = change_wifi_data (f (wifi_tick_counter w)) (w\<lparr>wifi_tick_counter := 0\<rparr>)"

definition leave_leaf_only :: "nat \<Rightarrow> 'h wifi \<Rightarrow> 'h wifi" where
  "leave_leaf_only s w =
     (if s = STATE_WIFI_CONNECTING_TO_AP
      then record_wifi_time (\<lambda>t d. d\<lparr>cmd_connect_to_ap_time := cmd_connect_to_ap_time d + t\<rparr>) w
      else if s = STATE_WIFI_ACQUIRING_IP_ADDRESS
      then record_wifi_time (\<lambda>t d. d\<lparr>cmd_acquire_ip_address_time := t\<rparr>) w
      else if s = STATE_WIFI_SEND \<or> s = STATE_WIFI_SEND_TO
      then record_wifi_time (\<lambda>t d. d\<lparr>cmd_data_exchange_time := t\<rparr>) w
      else if s = STATE_WIFI_RECEIVE \<or> s = STATE_WIFI_RECEIVE_FROM
      then record_wifi_time (\<lambda>t d. d\<lparr>cmd_data_exchange_time := cmd_data_exchange_time d + t\<rparr>) w
      else if s = STATE_WIFI_DISCONNECTING
      then record_wifi_time (\<lambda>t d. d\<lparr>cmd_disconnect_time := t\<rparr>) (schedule_wifi_sequence_timeout 0 w)
      else w)"

definition leave_wifi :: "nat \<Rightarrow> 'h wifi \<Rightarrow> 'h wifi" where
  "leave_wifi s w = (let w = leave_leaf_only s w in
     if s \<in> wifi_connecting_leaves then schedule_wifi_sequence_timeout 0 w else w)"

type_synonym 'h wifi_leaf_step = "('h wifi \<times> nat) option"

definition rests :: "nat \<Rightarrow> 'h wifi option \<Rightarrow> 'h wifi_leaf_step" where
  "rests s r = map_option (\<lambda>w. (w, s)) r"

definition wifi_failed :: "u8 \<Rightarrow> nat \<Rightarrow> 'h wifi_step" where
  "wifi_failed error_type s w = clear_wifi_events (set_wifi_communication_module_error error_type s w)"

definition wifi_failed_keeping :: "u8 \<Rightarrow> nat \<Rightarrow> 'h wifi_step" where
  "wifi_failed_keeping error_type s w =
     remove_send_and_receive_events (set_wifi_communication_module_error error_type s w)"

definition resets :: "'h wifi_dependencies \<Rightarrow> 'h wifi \<Rightarrow> 'h wifi_leaf_step" where
  "resets D w = rests STATE_WIFI_RESET (close_both_sockets D w)"

text \<open>Entering a state leads to a leaf, at once or through the states that are entered next.\<close>

definition start_exchange :: "'h wifi_dependencies \<Rightarrow> nat \<Rightarrow> 'h wifi_step" where
  "start_exchange D t w = (let w = wifi_stopwatch_start w in
     if t = STATE_WIFI_SEND \<or> t = STATE_WIFI_RECEIVE then do {
       w \<leftarrow> with_tcp D (if t = STATE_WIFI_SEND then tcp_communication_module_send (wifi_data_size w)
                        else tcp_communication_module_receive (wifi_buffer_size w)) w;
       add_wifi_communication_module_event_type EVENT_WIFI_COMMUNICATION_MODULE_PROCESS
         (w\<lparr>communication_module_process_handle := Some TCP_PROCESS\<rparr>)
     } else do {
       w \<leftarrow> with_udp D (if t = STATE_WIFI_SEND_TO then udp_communication_module_send (wifi_data_size w)
                        else udp_communication_module_receive (wifi_buffer_size w)) w;
       add_wifi_communication_module_event_type EVENT_WIFI_COMMUNICATION_MODULE_PROCESS
         (w\<lparr>communication_module_process_handle := Some UDP_PROCESS\<rparr>)
     })"

definition start_connecting :: "'h wifi_dependencies \<Rightarrow> 'h wifi \<Rightarrow> 'h wifi_leaf_step" where
  "start_connecting D w = do {
     let w = send_wifi_response ''STATUS CONNECTING_TO_AP;''
       (wifi_stopwatch_start (schedule_wifi_sequence_timeout WIFI_CONNECTING_TIMEOUT w));
     let c = wifi_config w;
     (connecting, w) \<leftarrow> wifi_call D
       (wifi_connect D (c_string (cfg_wifi_ssid c)) (c_string (cfg_wifi_password c)) (cfg_wifi_auth_type c)) w;
     (if connecting then rests STATE_WIFI_CONNECTING_TO_AP (add_wifi_communication_module_event_type EVENT_WIFI_CONNECTING w)
      else do {
        w \<leftarrow> wifi_failed WIFI_OPERATION_FAILED STATE_WIFI_CONNECTING_TO_AP w;
        resets D (leave_wifi STATE_WIFI_CONNECTING_TO_AP w)
      })
   }"

definition start_disconnecting :: "'h wifi_dependencies \<Rightarrow> 'h wifi \<Rightarrow> 'h wifi_leaf_step" where
  "start_disconnecting D w = do {
     let w = schedule_wifi_sequence_timeout WIFI_DISCONECT_TIMEOUT
       (send_wifi_response ''STATUS DISCONNECTING;'' (wifi_stopwatch_start w));
     (disconnecting, w) \<leftarrow> wifi_call D (wifi_disconnect D) w;
     (if disconnecting
      then rests STATE_WIFI_DISCONNECTING (add_wifi_communication_module_event_type EVENT_WIFI_DISCONNECTING w)
      else do {
        w \<leftarrow> wifi_failed_keeping WIFI_OPERATION_FAILED STATE_WIFI_DISCONNECTING w;
        resets D (leave_wifi STATE_WIFI_DISCONNECTING w)
      })
   }"

definition starts :: "'h wifi_dependencies \<Rightarrow> 'h wifi \<Rightarrow> 'h wifi_leaf_step" where
  "starts D w = do {
     (started, w) \<leftarrow> wifi_call D (wifi_start D) w;
     (if started then Some (w, STATE_WIFI_DISCONNECTED)
      else rests STATE_WIFI_STOPPED (wifi_failed WIFI_OPERATION_FAILED STATE_WIFI_STARTING w))
   }"

definition stops :: "'h wifi_dependencies \<Rightarrow> 'h wifi \<Rightarrow> 'h wifi_leaf_step" where
  "stops D w = do {
     (stopped, w) \<leftarrow> wifi_call D (wifi_stop D) w;
     Some (if stopped then w else set_wifi_communication_module_error WIFI_OPERATION_FAILED STATE_WIFI_STOPPING w,
           STATE_WIFI_STOPPED)
   }"

definition starts_acquiring :: "'h wifi \<Rightarrow> 'h wifi_leaf_step" where
  "starts_acquiring w = rests STATE_WIFI_ACQUIRING_IP_ADDRESS
     (add_wifi_communication_module_event_type EVENT_WIFI_ACQUIRING_IP_ADDRESS
       (send_wifi_response ''STATUS ACQUIRING_IP_ADDRESS;'' (wifi_stopwatch_start w)))"

definition enter_wifi :: "'h wifi_dependencies \<Rightarrow> nat \<Rightarrow> 'h wifi \<Rightarrow> 'h wifi_leaf_step" where
  "enter_wifi D t w =
     (if t = STATE_WIFI_RESET then resets D w
      else if t \<in> wifi_exchange_leaves then rests t (start_exchange D t w)
      else if t = STATE_WIFI_CLOSING_SOCKET then rests t (close_both_sockets D w)
      else if t = STATE_WIFI_CONNECTING then start_connecting D w
      else if t = STATE_WIFI_DISCONNECTING then start_disconnecting D w
      else if t = STATE_WIFI_STARTING then starts D w
      else if t = STATE_WIFI_STOPPING then stops D w
      else if t = STATE_WIFI_ACQUIRING_IP_ADDRESS then starts_acquiring w
      else Some (w, t))"

section \<open>The table\<close>

definition reset_after :: "'h wifi_dependencies \<Rightarrow> nat \<Rightarrow> 'h wifi option \<Rightarrow> 'h wifi_leaf_step" where
  "reset_after D s r = do { w \<leftarrow> r; resets D (leave_wifi s w) }"

definition exchange_ended :: "'h wifi_dependencies \<Rightarrow> nat \<Rightarrow> 'h wifi \<Rightarrow> 'h wifi_leaf_step" where
  "exchange_ended D s w =
     (let over_tcp = s = STATE_WIFI_SEND \<or> s = STATE_WIFI_RECEIVE;
          result = (if over_tcp then get_tcp_communication_module_result (tcp_module w)
                    else get_udp_communication_module_result (udp_module w));
          w = (if s = STATE_WIFI_SEND_TO then w else change_wifi_data
            (\<lambda>d. d\<lparr>cmd_connect_to_server_time := cmd_connect_to_server_time (cmtd_data result)\<rparr>) w) in
      if is_communication_module_success result then Some (leave_wifi s w, STATE_WIFI_CONNECTED)
      else reset_after D s (wifi_failed
        ((if over_tcp then tcp_to_wifi_error_type else udp_to_wifi_error_type) (cmd_error (cmtd_data result) AND 0xf0)) s w))"

definition closing_ended :: "'h wifi_dependencies \<Rightarrow> 'h wifi \<Rightarrow> 'h wifi_leaf_step" where
  "closing_ended D w =
     (let tcp_result = get_tcp_communication_module_result (tcp_module w);
          udp_result = get_udp_communication_module_result (udp_module w) in
      if is_communication_module_success tcp_result \<and> is_communication_module_success udp_result \<or>
         cmd_error (cmtd_data tcp_result) AND 0xf0 = TCP_SOCKET_CLOSED
      then Some (w, STATE_WIFI_CONNECTED)
      else reset_after D STATE_WIFI_CLOSING_SOCKET (wifi_failed_keeping WIFI_OPERATION_FAILED STATE_WIFI_CLOSING_SOCKET w))"

definition address_acquired :: "'h wifi_dependencies \<Rightarrow> 'h wifi \<Rightarrow> 'h wifi_leaf_step" where
  "address_acquired D w = do {
     (good, w) \<leftarrow> (if wifi_is_static_ip_set (wifi_config w) then verify_static_ip D w else Some (True, w));
     let s = STATE_WIFI_ACQUIRING_IP_ADDRESS;
     (if good then Some (leave_wifi s w, STATE_WIFI_CONNECTED) else reset_after D s (wifi_failed WIFI_OPERATION_FAILED s w))
   }"

definition reset_done :: "'h wifi_dependencies \<Rightarrow> 'h wifi \<Rightarrow> 'h wifi_leaf_step" where
  "reset_done D w = do {
     (ok, w) \<leftarrow> wifi_call D (wifi_reset D) w;
     Some (if ok then w else set_wifi_communication_module_error WIFI_OPERATION_FAILED STATE_WIFI_RESET w,
           STATE_WIFI_DISCONNECTED)
   }"

definition posts :: "nat \<Rightarrow> u8 \<Rightarrow> 'h wifi \<Rightarrow> 'h wifi_leaf_step" where
  "posts s e w = rests s (add_wifi_communication_module_event_type e w)"

definition wifi_request_state :: "u8 \<Rightarrow> nat" where
  "wifi_request_state e =
     (if e = EVENT_WIFI_SEND then STATE_WIFI_SEND else if e = EVENT_WIFI_SEND_TO then STATE_WIFI_SEND_TO
      else if e = EVENT_WIFI_RECEIVE then STATE_WIFI_RECEIVE else STATE_WIFI_RECEIVE_FROM)"

definition root_processes :: "'h wifi_dependencies \<Rightarrow> 'h wifi_step" where
  "root_processes D w = do {
     (again, w) \<leftarrow> run_handle D (communication_module_process_handle w) w;
     module_called again w
   }"

definition stopped_row :: "'h wifi_dependencies \<Rightarrow> u8 \<Rightarrow> 'h wifi \<Rightarrow> 'h wifi_leaf_step" where
  "stopped_row D e w =
     (if e = EVENT_WIFI_CONNECT \<or> e \<in> wifi_requests
      then do { w \<leftarrow> add_wifi_communication_module_event_type e w; starts D w }
      else Some (w, STATE_WIFI_STOPPED))"

definition disconnected_row :: "'h wifi_dependencies \<Rightarrow> u8 \<Rightarrow> 'h wifi \<Rightarrow> 'h wifi_leaf_step" where
  "disconnected_row D e w = (let s = STATE_WIFI_DISCONNECTED in
     if e = EVENT_WIFI_STOP then stops D w
     else if e = EVENT_WIFI_CONNECT then start_connecting D w
     else if e \<in> wifi_requests then
       (if wifi_parameters_set (wifi_config w)
        then do { w \<leftarrow> add_wifi_communication_module_event_type e w; start_connecting D w }
        else Some (set_wifi_communication_module_error WIFI_PARAMETERS_MISSING s w, s))
     else if e = EVENT_WIFI_ERROR then reset_after D s (wifi_failed_keeping WIFI_ERROR s w)
     else Some (w, s))"

definition wifi_lost :: "u8 \<Rightarrow> u8" where
  "wifi_lost e = (if e = EVENT_WIFI_DISCONNECTED then WIFI_DISCONNECTED
     else if e = EVENT_WIFI_SEQUENCE_TIMEOUT then WIFI_TIMEOUT else WIFI_ERROR)"

definition connecting_row :: "'h wifi_dependencies \<Rightarrow> nat \<Rightarrow> u8 \<Rightarrow> 'h wifi \<Rightarrow> 'h wifi_leaf_step" where
  "connecting_row D s e w =
     (if e \<in> {EVENT_WIFI_DISCONNECTED, EVENT_WIFI_SEQUENCE_TIMEOUT, EVENT_WIFI_ERROR}
      then reset_after D s (wifi_failed (wifi_lost e) s w)
      else if e \<in> wifi_requests then posts s e w
      else if s = STATE_WIFI_CONNECTING_TO_AP then
        (if e = EVENT_WIFI_CONNECTING \<or> e = EVENT_WIFI_IP_ADDRESS_ACQUIRED then posts s e w
         else if e = EVENT_WIFI_CONNECTED then starts_acquiring (leave_leaf_only s w)
         else Some (w, s))
      else if e = EVENT_WIFI_ACQUIRING_IP_ADDRESS then posts s e w
      else if e = EVENT_WIFI_IP_ADDRESS_ACQUIRED then address_acquired D w
      else Some (w, s))"

text \<open>What the connected state does with an event, also for the exchanging states below it.\<close>

definition connected_row :: "'h wifi_dependencies \<Rightarrow> nat \<Rightarrow> u8 \<Rightarrow> 'h wifi \<Rightarrow> 'h wifi_leaf_step" where
  "connected_row D s e w =
     (if e \<in> wifi_requests then enter_wifi D (wifi_request_state e) (leave_wifi s w)
      else if e = EVENT_WIFI_CLOSE_SOCKET then enter_wifi D STATE_WIFI_CLOSING_SOCKET (leave_wifi s w)
      else if e = EVENT_WIFI_DISCONNECT then do {
        w \<leftarrow> add_wifi_communication_module_event_type EVENT_WIFI_DISCONNECT_SOCKET_CLOSED w;
        start_disconnecting D (leave_wifi s w)
      }
      else if e = EVENT_WIFI_DISCONNECT_SOCKET_CLOSED then start_disconnecting D (leave_wifi s w)
      else if e = EVENT_WIFI_STOP then do {
        w \<leftarrow> add_wifi_communication_module_event_type EVENT_WIFI_STOP_SOCKET_CLOSED w;
        enter_wifi D STATE_WIFI_CLOSING_SOCKET (leave_wifi s w)
      }
      else if e = EVENT_WIFI_STOP_SOCKET_CLOSED then do {
        w \<leftarrow> add_wifi_communication_module_event_type EVENT_WIFI_STOP w;
        start_disconnecting D (leave_wifi s w)
      }
      else if e = EVENT_WIFI_DISCONNECTED \<or> e = EVENT_WIFI_ERROR
      then reset_after D s (wifi_failed_keeping (wifi_lost e) STATE_WIFI_CONNECTED w)
      else Some (w, s))"

definition exchanging_row :: "'h wifi_dependencies \<Rightarrow> nat \<Rightarrow> u8 \<Rightarrow> 'h wifi \<Rightarrow> 'h wifi_leaf_step" where
  "exchanging_row D s e w =
     (if e = EVENT_WIFI_COMMUNICATION_MODULE_DONE then exchange_ended D s w
      else if e = EVENT_WIFI_DISCONNECTED \<or> e = EVENT_WIFI_ERROR then reset_after D s (wifi_failed (wifi_lost e) s w)
      else connected_row D s e w)"

definition closing_row :: "'h wifi_dependencies \<Rightarrow> u8 \<Rightarrow> 'h wifi \<Rightarrow> 'h wifi_leaf_step" where
  "closing_row D e w = (let s = STATE_WIFI_CLOSING_SOCKET in
     if e = EVENT_WIFI_COMMUNICATION_MODULE_PROCESS then rests s (process_closing D w)
     else if e = EVENT_WIFI_COMMUNICATION_MODULE_DONE then closing_ended D w
     else if e = EVENT_WIFI_DISCONNECT_SOCKET_CLOSED \<or> e = EVENT_WIFI_STOP_SOCKET_CLOSED then posts s e w
     else if e = EVENT_WIFI_DISCONNECTED \<or> e = EVENT_WIFI_ERROR then reset_after D s (wifi_failed_keeping (wifi_lost e) s w)
     else Some (w, s))"

definition disconnecting_row :: "'h wifi_dependencies \<Rightarrow> u8 \<Rightarrow> 'h wifi \<Rightarrow> 'h wifi_leaf_step" where
  "disconnecting_row D e w = (let s = STATE_WIFI_DISCONNECTING in
     if e = EVENT_WIFI_STOP \<or> e = EVENT_WIFI_DISCONNECTING then posts s e w
     else if e = EVENT_WIFI_DISCONNECTED then Some (leave_wifi s w, STATE_WIFI_DISCONNECTED)
     else if e = EVENT_WIFI_SEQUENCE_TIMEOUT \<or> e = EVENT_WIFI_ERROR
     then reset_after D s (wifi_failed_keeping (wifi_lost e) s w)
     else Some (w, s))"

definition reset_row :: "'h wifi_dependencies \<Rightarrow> u8 \<Rightarrow> 'h wifi \<Rightarrow> 'h wifi_leaf_step" where
  "reset_row D e w = (let s = STATE_WIFI_RESET in
     if e = EVENT_WIFI_COMMUNICATION_MODULE_PROCESS then rests s (process_closing D w)
     else if e = EVENT_WIFI_COMMUNICATION_MODULE_DONE then reset_done D w
     else if e = EVENT_WIFI_STOP_SOCKET_CLOSED \<or> e = EVENT_WIFI_STOP then posts s EVENT_WIFI_STOP w
     else Some (w, s))"

definition wifi_event :: "'h wifi_dependencies \<Rightarrow> u8 \<Rightarrow> 'h wifi \<times> nat \<Rightarrow> 'h wifi_leaf_step" where
  "wifi_event D e = (\<lambda>(w, s).
     if s = STATE_WIFI_CLOSING_SOCKET then closing_row D e w
     else if s = STATE_WIFI_RESET then reset_row D e w
     else if e = EVENT_WIFI_COMMUNICATION_MODULE_PROCESS then rests s (root_processes D w)
     else if s = STATE_WIFI_STOPPED then stopped_row D e w
     else if s = STATE_WIFI_DISCONNECTED then disconnected_row D e w
     else if s \<in> wifi_connecting_leaves then connecting_row D s e w
     else if s = STATE_WIFI_DISCONNECTING then disconnecting_row D e w
     else if s = STATE_WIFI_CONNECTED then connected_row D s e w
     else exchanging_row D s e w)"

section \<open>Transitions\<close>

definition proper_tree :: "nat \<Rightarrow> nat \<Rightarrow> nat option \<Rightarrow> bool" where
  "proper_tree s c k \<longleftrightarrow> s \<in> wifi_plain_leaves \<union> {STATE_WIFI_CONNECTING, STATE_WIFI_CONNECTED} \<and>
     c \<in> wifi_connecting_leaves \<and> (k = None \<or> the k \<in> wifi_connected_leaves)"

text \<open>The leaf below the started state.\<close>

definition leaf_below :: "nat \<Rightarrow> nat \<Rightarrow> nat option \<Rightarrow> nat" where
  "leaf_below s c k = (if s = STATE_WIFI_CONNECTING then c
     else if s = STATE_WIFI_CONNECTED then (case k of None \<Rightarrow> s | Some i \<Rightarrow> i) else s)"

lemmas wifi_handler_defs = state_stopped_def state_starting_def state_started_def state_stopping_def
  wifi_state_reset_def wifi_state_disconnected_def wifi_state_connecting_def state_connecting_to_ap_def
  state_acquiring_ip_address_def wifi_state_connected_def wifi_state_send_def wifi_state_send_to_def
  wifi_state_receive_def wifi_state_receive_from_def wifi_state_closing_socket_def wifi_state_disconnecting_def

lemmas wifi_leave_defs = leave_wifi_def leave_leaf_only_def record_wifi_time_def wifi_stopwatch_stop_def
  change_wifi_data_def schedule_wifi_sequence_timeout_def

text \<open>Leaving a leaf.\<close>

lemma wifi_leaving_leaf:
  assumes "s \<in> wifi_plain_leaves \<union> wifi_connecting_leaves \<union> wifi_connected_leaves"
  shows "state_machine_process_event (wifi_handlers D tr) (Node s) EVENT_LEAVING_STATE (wifi_tree r a c k w) =
    Some (False, wifi_tree r a c k (leave_leaf_only s w))"
  using assms
  by (elim UnE insertE emptyE)
     (simp_all add: process_event_leaf wifi_handler_defs wifi_leave_defs lost_while_exchanging_def)

lemma wifi_leaving_connected:
  "state_machine_process_event (wifi_handlers D tr) (Node STATE_WIFI_CONNECTED) EVENT_LEAVING_STATE (wifi_tree r a c k w) =
    Some (False, wifi_tree r a c k (leave_leaf_only (case k of None \<Rightarrow> STATE_WIFI_CONNECTED | Some i \<Rightarrow> i) w))"
  if "k = None \<or> the k \<in> wifi_connected_leaves"
proof (cases k)
  case None
  then show ?thesis by (simp add: process_event_leaf wifi_state_connected_def leave_leaf_only_def)
next
  case (Some i)
  with that have "i \<in> wifi_connected_leaves" by (simp only: option.sel option.simps simp_thms)
  then have "i \<in> wifi_plain_leaves \<union> wifi_connecting_leaves \<union> wifi_connected_leaves" by (rule UnI2)
  note leaf = wifi_leaving_leaf [OF this, of D tr r a c "Some i" w]
  from Some show ?thesis by (simp add: process_event_inner leaf wifi_state_connected_def)
qed

lemma wifi_leaving_below_started:
  assumes "proper_tree s c k"
  shows "state_machine_process_event (wifi_handlers D tr) (Node s) EVENT_LEAVING_STATE (wifi_tree r a c k w) =
    Some (False, wifi_tree r a c k (leave_wifi (leaf_below s c k) w))"
proof -
  have c: "c \<in> wifi_connecting_leaves" and k: "k = None \<or> the k \<in> wifi_connected_leaves"
    and s: "s \<in> wifi_plain_leaves \<or> s = STATE_WIFI_CONNECTING \<or> s = STATE_WIFI_CONNECTED"
    using assms by (auto simp: proper_tree_def)
  from s show ?thesis
  proof (elim disjE)
    assume s: "s \<in> wifi_plain_leaves"
    then have "leave_wifi (leaf_below s c k) w = leave_leaf_only s w" by (auto simp: leaf_below_def leave_wifi_def)
    with s wifi_leaving_leaf [of s D tr r a c k w] show ?thesis by simp
  next
    assume s: "s = STATE_WIFI_CONNECTING"
    have "leave_wifi (leaf_below s c k) w = schedule_wifi_sequence_timeout 0 (leave_leaf_only c w)"
      using s c by (auto simp: leaf_below_def leave_wifi_def Let_def)
    moreover have "c \<in> wifi_plain_leaves \<union> wifi_connecting_leaves \<union> wifi_connected_leaves"
      by (intro UnI1 UnI2 c)
    note leaf = wifi_leaving_leaf [OF this, of D tr r a c k w]
    ultimately show ?thesis by (simp add: s process_event_inner leaf wifi_state_connecting_def)
  next
    assume s: "s = STATE_WIFI_CONNECTED"
    have "leave_wifi (leaf_below s c k) w = leave_leaf_only (case k of None \<Rightarrow> STATE_WIFI_CONNECTED | Some i \<Rightarrow> i) w"
      using s k by (cases k) (auto simp: leaf_below_def leave_wifi_def Let_def)
    with s wifi_leaving_connected [OF k, of D tr r a c w] show ?thesis by simp
  qed
qed

text \<open>The machine rests at a leaf.\<close>

definition wifi_shape :: "nat \<Rightarrow> nat \<Rightarrow> nat \<Rightarrow> nat option \<Rightarrow> nat \<Rightarrow> bool" where
  "wifi_shape r s c k l \<longleftrightarrow> proper_tree s c k \<and>
     (r = STATE_WIFI_STOPPED \<and> l = STATE_WIFI_STOPPED \<or> r = STATE_WIFI_STARTED \<and> l = leaf_below s c k)"

definition at_wifi :: "nat \<Rightarrow> 'h wifi \<Rightarrow> 'h wifim \<Rightarrow> bool" where
  "at_wifi l w m \<longleftrightarrow> (\<exists>r s c k. m = wifi_tree r s c k w \<and> wifi_shape r s c k l)"

definition lands :: "'h wifim option \<Rightarrow> 'h wifi_leaf_step \<Rightarrow> bool" where
  "lands x y \<longleftrightarrow> rel_option (\<lambda>m (w, l). at_wifi l w m) x y"

definition wifi_reaches :: "(bool \<times> 'h wifim) option \<Rightarrow> 'h wifi_leaf_step \<Rightarrow> bool" where
  "wifi_reaches x y \<longleftrightarrow> rel_option (\<lambda>(p, m) (w, l). at_wifi l w m) x y"

lemma lands_Some: "lands (Some (wifi_tree r s c k w)) (Some (w, l))" if "wifi_shape r s c k l"
  using that by (auto simp: lands_def at_wifi_def)

lemma lands_rests: "lands (map_option (wifi_tree r s c k) x) (rests l x)" if "wifi_shape r s c k l"
  using that by (cases x) (auto simp: lands_def rests_def at_wifi_def)

lemma lands_bind: "(\<And>a. lands (f a) (g a)) \<Longrightarrow> lands (Option.bind x f) (Option.bind x g)"
  by (cases x) (auto simp: lands_def)

lemma lands_if: "(b \<Longrightarrow> lands x y) \<Longrightarrow> (\<not> b \<Longrightarrow> lands x' y') \<Longrightarrow> lands (if b then x else x') (if b then y else y')"
  by simp

abbreviation "wifi_leaves \<equiv> {STATE_WIFI_STARTING, STATE_WIFI_STOPPING, STATE_WIFI_STOPPED} \<union> wifi_plain_leaves \<union>
  wifi_connecting_leaves \<union> wifi_connected_leaves"

lemma leaf_has_no_child: "i \<in> wifi_leaves \<Longrightarrow> enter_children H (Node i) (wifi_tree r s c k w) = Some (wifi_tree r s c k w)"
  by (rule enter_children_leaf) (elim UnE insertE emptyE; simp)

lemma lands_children:
  assumes "lands x y" "i \<in> wifi_leaves"
  shows "lands (Option.bind x (enter_children H (Node i))) y"
proof (cases x)
  case (Some m)
  with assms(1) obtain r s c k w where "m = wifi_tree r s c k w" by (auto simp: lands_def at_wifi_def option_rel_Some1)
  with Some assms(1) show ?thesis by (simp only: bind.bind_lunit leaf_has_no_child [OF assms(2)])
qed (use assms in simp)

lemma proper_started_shape: "proper_tree s c k \<Longrightarrow> wifi_shape STATE_WIFI_STARTED s c k (leaf_below s c k)"
  by (simp add: wifi_shape_def)

lemma leaf_below_simps [simp]:
  "s \<in> wifi_plain_leaves \<Longrightarrow> leaf_below s c k = s"
  "leaf_below STATE_WIFI_CONNECTING c k = c"
  "leaf_below STATE_WIFI_CONNECTED c None = STATE_WIFI_CONNECTED"
  "leaf_below STATE_WIFI_CONNECTED c (Some i) = i"
  by (auto simp: leaf_below_def)

lemma proper_tree_change:
  "proper_tree s c k \<Longrightarrow> s' \<in> wifi_plain_leaves \<union> {STATE_WIFI_CONNECTING, STATE_WIFI_CONNECTED} \<Longrightarrow> proper_tree s' c k"
  "proper_tree s c k \<Longrightarrow> c' \<in> wifi_connecting_leaves \<Longrightarrow> proper_tree s c' k"
  "proper_tree s c k \<Longrightarrow> i \<in> wifi_connected_leaves \<Longrightarrow> proper_tree s c (Some i)"
  "proper_tree s c k \<Longrightarrow> proper_tree s c None"
  by (auto simp: proper_tree_def)

text \<open>Transitions below the started state.\<close>

lemma entering_below_started:
  assumes "proper_tree s c k" "t \<in> wifi_plain_leaves \<union> {STATE_WIFI_CONNECTING, STATE_WIFI_CONNECTED}"
  shows "state_machine_transition (wifi_handlers D tr) t (wifi_tree STATE_WIFI_STARTED s c k w) = do {
    m \<leftarrow> run_handler (wifi_handlers D tr) (Node t) EVENT_ENTERING_STATE
      (wifi_tree STATE_WIFI_STARTED t c k (leave_wifi (leaf_below s c k) w));
    enter_children (wifi_handlers D tr) (Node t) m
  }"
  by (simp only: state_machine_transition_def wifi_tree_simps wifi_parents_get(2) [OF assms(2)] bind.bind_lunit
      wifi_tree_current(2) option.case wifi_leaving_below_started [OF assms(1)] option.map snd_conv wifi_tree_set)

lemma to_disconnected:
  assumes "proper_tree s c k"
  shows "lands (nested_transition (wifi_handlers D) (Suc n) STATE_WIFI_DISCONNECTED (wifi_tree STATE_WIFI_STARTED s c k w))
    (Some (leave_wifi (leaf_below s c k) w, STATE_WIFI_DISCONNECTED))"
  using proper_started_shape [OF proper_tree_change(1) [OF assms, of STATE_WIFI_DISCONNECTED]]
  by (simp add: entering_below_started [OF assms] run_handler_Some leaf_has_no_child wifi_state_disconnected_def lands_Some)

lemma to_connected:
  assumes "proper_tree s c k"
  shows "lands (nested_transition (wifi_handlers D) (Suc n) STATE_WIFI_CONNECTED (wifi_tree STATE_WIFI_STARTED s c k w))
    (Some (leave_wifi (leaf_below s c k) w, STATE_WIFI_CONNECTED))"
  using proper_started_shape [OF proper_tree_change(1) [OF proper_tree_change(4) [OF assms], of STATE_WIFI_CONNECTED]]
  by (simp add: entering_below_started [OF assms] run_handler_Some enter_children_leaf wifi_state_connected_def processed_def
      lands_Some)

lemma to_reset:
  assumes "proper_tree s c k"
  shows "lands (nested_transition (wifi_handlers D) (Suc n) STATE_WIFI_RESET (wifi_tree STATE_WIFI_STARTED s c k w))
    (resets D (leave_wifi (leaf_below s c k) w))"
proof -
  have "wifi_shape STATE_WIFI_STARTED STATE_WIFI_RESET c k STATE_WIFI_RESET"
    using proper_started_shape [OF proper_tree_change(1) [OF assms, of STATE_WIFI_RESET]] by simp
  then have "lands (map_option (wifi_tree STATE_WIFI_STARTED STATE_WIFI_RESET c k)
      (close_both_sockets D (leave_wifi (leaf_below s c k) w))) (resets D (leave_wifi (leaf_below s c k) w))"
    unfolding resets_def by (rule lands_rests)
  then have "lands (Option.bind (map_option (wifi_tree STATE_WIFI_STARTED STATE_WIFI_RESET c k)
      (close_both_sockets D (leave_wifi (leaf_below s c k) w)))
      (enter_children (wifi_handlers D (nested_transition (wifi_handlers D) n)) (Node STATE_WIFI_RESET)))
      (resets D (leave_wifi (leaf_below s c k) w))"
    by (rule lands_children) simp
  then show ?thesis
    by (simp add: entering_below_started [OF assms] run_handler_Some wifi_state_reset_def processed_def
        option.map_comp o_def option.map_ident del: bind_map_option)
qed

end
