(* ===== verification/Wifi_Dispatch.thy ===== *)
theory Wifi_Dispatch
  imports Wifi_Modes
begin

text \<open>
  The remaining transitions of the Wi-Fi machine (\<open>SDK/core/wifi_communication_module.c\<close>) and the refinement:
  dispatch through the hierarchy of handlers is the flat table of \<open>Wifi_Modes\<close>.
\<close>

section \<open>States that are left again\<close>

lemma lands_bind2: "(\<And>a b. lands (f (a, b)) (g (a, b))) \<Longrightarrow> lands (Option.bind x f) (Option.bind x g)"
  by (rule lands_bind) (simp add: split_paired_all)

lemma snd_processed [simp]: "map_option snd (processed p x) = x"
  by (simp add: processed_def option.map_comp o_def option.map_ident)

lemma wifi_fail_tree:
  "wifi_fail tr er st (wifi_tree r s c k w) =
    processed True (do { w \<leftarrow> wifi_failed er st w; tr STATE_WIFI_RESET (wifi_tree r s c k w) })"
  "wifi_fail_keeping tr er st (wifi_tree r s c k w) =
    processed True (do { w \<leftarrow> wifi_failed_keeping er st w; tr STATE_WIFI_RESET (wifi_tree r s c k w) })"
  by (simp_all add: wifi_fail_def wifi_fail_keeping_def wifi_failed_def wifi_failed_keeping_def bind_map_option o_def)

lemma wifi_post_tree:
  "wifi_post e (wifi_tree r s c k w) =
    processed True (map_option (wifi_tree r s c k) (add_wifi_communication_module_event_type e w))"
  "wifi_post_and_go tr e t (wifi_tree r s c k w) =
    processed True (do { w \<leftarrow> add_wifi_communication_module_event_type e w; tr t (wifi_tree r s c k w) })"
  by (simp_all add: wifi_post_def wifi_post_and_go_def bind_map_option o_def)

lemma lands_reset_after:
  assumes "proper_tree s c k" "l = leaf_below s c k"
  shows "lands (do { w \<leftarrow> x; nested_transition (wifi_handlers D) (Suc n) STATE_WIFI_RESET (wifi_tree STATE_WIFI_STARTED s c k w) })
    (reset_after D l x)"
  unfolding reset_after_def assms(2) by (rule lands_bind) (rule to_reset [OF assms(1)])

lemma entering_connecting_to_ap:
  assumes "proper_tree STATE_WIFI_CONNECTING STATE_WIFI_CONNECTING_TO_AP k"
  shows "lands (map_option snd (state_connecting_to_ap D (nested_transition (wifi_handlers D) (Suc n)) EVENT_ENTERING_STATE
      (wifi_tree STATE_WIFI_STARTED STATE_WIFI_CONNECTING STATE_WIFI_CONNECTING_TO_AP k
        (schedule_wifi_sequence_timeout WIFI_CONNECTING_TIMEOUT w)))) (start_connecting D w)"
proof -
  have "wifi_shape STATE_WIFI_STARTED STATE_WIFI_CONNECTING STATE_WIFI_CONNECTING_TO_AP k STATE_WIFI_CONNECTING_TO_AP"
    using proper_started_shape [OF assms] by simp
  note posted = lands_rests [OF this]
  have "STATE_WIFI_CONNECTING_TO_AP = leaf_below STATE_WIFI_CONNECTING STATE_WIFI_CONNECTING_TO_AP k" by simp
  note reset = lands_reset_after [OF assms this, unfolded reset_after_def]
  show ?thesis
    unfolding state_connecting_to_ap_def start_connecting_def Let_def
    by (simp add: wifi_fail_tree wifi_post_tree map_option_bind o_def del: nested_transition.simps)
       (rule lands_bind2; simp add: wifi_fail_tree wifi_post_tree posted reset del: nested_transition.simps)
qed


lemma to_connecting:
  assumes "proper_tree s c k"
  shows "lands (nested_transition (wifi_handlers D) (Suc (Suc n)) STATE_WIFI_CONNECTING (wifi_tree STATE_WIFI_STARTED s c k w))
    (start_connecting D (leave_wifi (leaf_below s c k) w))"
proof -
  let ?v = "leave_wifi (leaf_below s c k) w"
  let ?tr = "nested_transition (wifi_handlers D) (Suc n)"
  have "proper_tree STATE_WIFI_CONNECTING STATE_WIFI_CONNECTING_TO_AP k"
    using assms by (simp add: proper_tree_def)
  from lands_children [OF entering_connecting_to_ap [OF this], of STATE_WIFI_CONNECTING_TO_AP]
  have "lands (Option.bind (map_option snd (state_connecting_to_ap D ?tr EVENT_ENTERING_STATE
      (wifi_tree STATE_WIFI_STARTED STATE_WIFI_CONNECTING STATE_WIFI_CONNECTING_TO_AP k
        (schedule_wifi_sequence_timeout WIFI_CONNECTING_TIMEOUT ?v))))
      (enter_children (wifi_handlers D ?tr) (Node STATE_WIFI_CONNECTING_TO_AP))) (start_connecting D ?v)" by simp
  then show ?thesis
    unfolding nested_transition.simps(2) [of _ "Suc n"]
    by (simp add: entering_below_started [OF assms] run_handler_Some wifi_state_connecting_def enter_children_inner
        del: nested_transition.simps)
qed

lemma to_disconnecting:
  assumes "proper_tree s c k"
  shows "lands (nested_transition (wifi_handlers D) (Suc (Suc n)) STATE_WIFI_DISCONNECTING (wifi_tree STATE_WIFI_STARTED s c k w))
    (start_disconnecting D (leave_wifi (leaf_below s c k) w))"
proof -
  let ?v = "leave_wifi (leaf_below s c k) w"
  let ?tr = "nested_transition (wifi_handlers D) (Suc n)"
  have p: "proper_tree STATE_WIFI_DISCONNECTING c k" using assms by (simp add: proper_tree_def)
  then have "wifi_shape STATE_WIFI_STARTED STATE_WIFI_DISCONNECTING c k STATE_WIFI_DISCONNECTING"
    using proper_started_shape by fastforce
  note posted = lands_rests [OF this]
  have "STATE_WIFI_DISCONNECTING = leaf_below STATE_WIFI_DISCONNECTING c k" by simp
  note reset = lands_reset_after [OF p this, unfolded reset_after_def]
  have "lands (map_option snd (wifi_state_disconnecting D ?tr EVENT_ENTERING_STATE
      (wifi_tree STATE_WIFI_STARTED STATE_WIFI_DISCONNECTING c k ?v))) (start_disconnecting D ?v)"
    unfolding wifi_state_disconnecting_def start_disconnecting_def Let_def
    by (simp add: map_option_bind o_def del: nested_transition.simps)
       (rule lands_bind2; simp add: wifi_fail_tree wifi_post_tree posted reset del: nested_transition.simps)
  from lands_children [OF this, of STATE_WIFI_DISCONNECTING] show ?thesis
    unfolding nested_transition.simps(2) [of _ "Suc n"]
    by (simp add: entering_below_started [OF assms] run_handler_Some del: nested_transition.simps)
qed

section \<open>Transitions at the top\<close>

lemma entering_wifi_top:
  assumes "t \<in> {STATE_WIFI_STARTING, STATE_WIFI_STARTED, STATE_WIFI_STOPPING, STATE_WIFI_STOPPED}"
    "r \<in> {STATE_WIFI_STARTING, STATE_WIFI_STOPPING, STATE_WIFI_STOPPED}"
  shows "state_machine_transition (wifi_handlers D tr) t (wifi_tree r s c k w) = do {
    m \<leftarrow> run_handler (wifi_handlers D tr) (Node t) EVENT_ENTERING_STATE (wifi_tree t s c k w);
    enter_children (wifi_handlers D tr) (Node t) m
  }"
proof -
  have "state_machine_process_event (wifi_handlers D tr) (Node r) EVENT_LEAVING_STATE (wifi_tree r s c k w) =
      Some (False, wifi_tree r s c k w)"
    using assms(2) by (elim insertE emptyE) (simp_all add: process_event_leaf wifi_handler_defs)
  then show ?thesis
    by (simp only: state_machine_transition_def wifi_tree_simps wifi_parents_get(1) [OF assms(1)] bind.bind_lunit
        wifi_tree_current(1) option.case option.map snd_conv set_current_state.simps(1) wifi_tree_simps)
qed

lemma from_started:
  assumes "proper_tree s c k" "t \<in> {STATE_WIFI_STARTING, STATE_WIFI_STARTED, STATE_WIFI_STOPPING, STATE_WIFI_STOPPED}"
  shows "state_machine_transition (wifi_handlers D tr) t (wifi_tree STATE_WIFI_STARTED s c k w) = do {
    m \<leftarrow> run_handler (wifi_handlers D tr) (Node t) EVENT_ENTERING_STATE
      (wifi_tree t s c k (leave_wifi (leaf_below s c k) w));
    enter_children (wifi_handlers D tr) (Node t) m
  }"
proof -
  have "state_machine_process_event (wifi_handlers D tr) (Node STATE_WIFI_STARTED) EVENT_LEAVING_STATE
      (wifi_tree STATE_WIFI_STARTED s c k w) =
      Some (False, wifi_tree STATE_WIFI_STARTED s c k (leave_wifi (leaf_below s c k) w))"
    by (simp add: process_event_inner wifi_leaving_below_started [OF assms(1)] state_started_def)
  then show ?thesis
    by (simp only: state_machine_transition_def wifi_tree_simps wifi_parents_get(1) [OF assms(2)] bind.bind_lunit
        wifi_tree_current(1) option.case option.map snd_conv set_current_state.simps(1) wifi_tree_simps)
qed

lemma stopped_shape: "proper_tree s c k \<Longrightarrow> wifi_shape STATE_WIFI_STOPPED s c k STATE_WIFI_STOPPED"
  by (simp add: wifi_shape_def)

lemma to_stopped:
  assumes "proper_tree s c k" "r \<in> {STATE_WIFI_STARTING, STATE_WIFI_STOPPING}"
  shows "lands (nested_transition (wifi_handlers D) (Suc n) STATE_WIFI_STOPPED (wifi_tree r s c k w))
    (Some (w, STATE_WIFI_STOPPED))"
proof -
  have "STATE_WIFI_STOPPED \<in> {STATE_WIFI_STARTING, STATE_WIFI_STARTED, STATE_WIFI_STOPPING, STATE_WIFI_STOPPED}"
    "r \<in> {STATE_WIFI_STARTING, STATE_WIFI_STOPPING, STATE_WIFI_STOPPED}" using assms(2) by auto
  note top = entering_wifi_top [OF this]
  from lands_Some [OF stopped_shape [OF assms(1)]] show ?thesis
    by (simp add: top run_handler_Some state_stopped_def leaf_has_no_child)
qed

lemma to_started:
  assumes "proper_tree s c k"
  shows "lands (nested_transition (wifi_handlers D) (Suc n) STATE_WIFI_STARTED (wifi_tree STATE_WIFI_STARTING s c k w))
    (Some (w, STATE_WIFI_DISCONNECTED))"
proof -
  have "wifi_shape STATE_WIFI_STARTED STATE_WIFI_DISCONNECTED c k STATE_WIFI_DISCONNECTED"
    using proper_started_shape [OF proper_tree_change(1) [OF assms, of STATE_WIFI_DISCONNECTED]] by simp
  then show ?thesis
    by (simp add: entering_wifi_top run_handler_Some state_started_def wifi_state_disconnected_def processed_def
        enter_children_inner leaf_has_no_child lands_Some)
qed

lemma to_stopping:
  assumes "proper_tree s c k"
  shows "lands (nested_transition (wifi_handlers D) (Suc (Suc n)) STATE_WIFI_STOPPING (wifi_tree STATE_WIFI_STARTED s c k w))
    (stops D (leave_wifi (leaf_below s c k) w))"
proof -
  let ?v = "leave_wifi (leaf_below s c k) w"
  let ?tr = "nested_transition (wifi_handlers D) (Suc n)"
  have "lands (map_option snd (state_stopping D ?tr EVENT_ENTERING_STATE (wifi_tree STATE_WIFI_STOPPING s c k ?v)))
      (stops D ?v)"
    unfolding state_stopping_def stops_def Let_def
    by (simp del: nested_transition.simps)
       (rule lands_bind2; simp add: to_stopped [OF assms] del: nested_transition.simps)
  from lands_children [OF this, of STATE_WIFI_STOPPING] show ?thesis
    unfolding nested_transition.simps(2) [of _ "Suc n"]
    by (simp add: from_started [OF assms] run_handler_Some del: nested_transition.simps)
qed

lemma to_starting:
  assumes "proper_tree s c k"
  shows "lands (nested_transition (wifi_handlers D) (Suc (Suc n)) STATE_WIFI_STARTING (wifi_tree STATE_WIFI_STOPPED s c k w))
    (starts D w)"
proof -
  let ?tr = "nested_transition (wifi_handlers D) (Suc n)"
  have "lands (map_option snd (state_starting D ?tr EVENT_ENTERING_STATE (wifi_tree STATE_WIFI_STARTING s c k w))) (starts D w)"
    unfolding state_starting_def starts_def Let_def rests_def wifi_failed_def
    by (simp add: bind_map_option o_def del: nested_transition.simps)
       (rule lands_bind2; simp add: to_started [OF assms] map_conv_bind_option lands_bind to_stopped [OF assms] del: nested_transition.simps)
  from lands_children [OF this, of STATE_WIFI_STARTING] show ?thesis
    unfolding nested_transition.simps(2) [of _ "Suc n"]
    by (simp add: entering_wifi_top run_handler_Some del: nested_transition.simps)
qed


section \<open>The transitions\<close>

lemma wifi_moves_up:
  assumes "proper_tree s c k" "l = leaf_below s c k"
  shows "lands (wifi_transition D STATE_WIFI_DISCONNECTED (wifi_tree STATE_WIFI_STARTED s c k w))
      (Some (leave_wifi l w, STATE_WIFI_DISCONNECTED))"
    and "lands (wifi_transition D STATE_WIFI_CONNECTED (wifi_tree STATE_WIFI_STARTED s c k w))
      (Some (leave_wifi l w, STATE_WIFI_CONNECTED))"
    and "lands (wifi_transition D STATE_WIFI_RESET (wifi_tree STATE_WIFI_STARTED s c k w)) (resets D (leave_wifi l w))"
    and "lands (wifi_transition D STATE_WIFI_CONNECTING (wifi_tree STATE_WIFI_STARTED s c k w))
      (start_connecting D (leave_wifi l w))"
    and "lands (wifi_transition D STATE_WIFI_DISCONNECTING (wifi_tree STATE_WIFI_STARTED s c k w))
      (start_disconnecting D (leave_wifi l w))"
    and "lands (wifi_transition D STATE_WIFI_STOPPING (wifi_tree STATE_WIFI_STARTED s c k w)) (stops D (leave_wifi l w))"
  unfolding wifi_transition_def numeral_2_eq_2 assms(2)
  by (rule to_disconnected to_connected to_reset to_connecting to_disconnecting to_stopping; rule assms(1))+

lemma wifi_starts: "proper_tree s c k \<Longrightarrow>
    lands (wifi_transition D STATE_WIFI_STARTING (wifi_tree STATE_WIFI_STOPPED s c k w)) (starts D w)"
  unfolding wifi_transition_def numeral_2_eq_2 by (rule to_starting)

lemma wifi_acquires:
  assumes "proper_tree STATE_WIFI_CONNECTING STATE_WIFI_CONNECTING_TO_AP k"
  shows "lands (wifi_transition D STATE_WIFI_ACQUIRING_IP_ADDRESS
      (wifi_tree STATE_WIFI_STARTED STATE_WIFI_CONNECTING STATE_WIFI_CONNECTING_TO_AP k w))
    (starts_acquiring (leave_leaf_only STATE_WIFI_CONNECTING_TO_AP w))"
proof -
  have leaf: "state_machine_process_event (wifi_handlers D tr) (Node STATE_WIFI_CONNECTING_TO_AP) EVENT_LEAVING_STATE
      (wifi_tree r s c k w) = Some (False, wifi_tree r s c k (leave_leaf_only STATE_WIFI_CONNECTING_TO_AP w))" for D :: "'a wifi_dependencies" and tr r s c w
    by (rule wifi_leaving_leaf) simp
  have "wifi_shape STATE_WIFI_STARTED STATE_WIFI_CONNECTING STATE_WIFI_ACQUIRING_IP_ADDRESS k STATE_WIFI_ACQUIRING_IP_ADDRESS"
    using proper_started_shape [OF proper_tree_change(2) [OF assms, of STATE_WIFI_ACQUIRING_IP_ADDRESS]] by simp
  note posted = lands_rests [OF this]
  let ?v = "send_wifi_response ''STATUS ACQUIRING_IP_ADDRESS;'' (wifi_stopwatch_start (leave_leaf_only STATE_WIFI_CONNECTING_TO_AP w))"
  have "lands (Option.bind (map_option (wifi_tree STATE_WIFI_STARTED STATE_WIFI_CONNECTING STATE_WIFI_ACQUIRING_IP_ADDRESS k)
      (add_wifi_communication_module_event_type EVENT_WIFI_ACQUIRING_IP_ADDRESS ?v))
      (enter_children H (Node STATE_WIFI_ACQUIRING_IP_ADDRESS))) (starts_acquiring (leave_leaf_only STATE_WIFI_CONNECTING_TO_AP w))" for H
    unfolding starts_acquiring_def by (rule lands_children [OF posted]) simp
  then show ?thesis
    by (simp add: wifi_transition_def numeral_2_eq_2 state_machine_transition_def leaf run_handler_Some
        state_acquiring_ip_address_def wifi_post_tree)
qed

lemma wifi_exchanges:
  assumes "proper_tree STATE_WIFI_CONNECTED c k" "t \<in> wifi_connected_leaves" "l = leaf_below STATE_WIFI_CONNECTED c k"
  shows "lands (wifi_transition D t (wifi_tree STATE_WIFI_STARTED STATE_WIFI_CONNECTED c k w)) (enter_wifi D t (leave_wifi l w))"
proof -
  let ?v = "leave_wifi l w"
  let ?H = "wifi_handlers D (nested_transition (wifi_handlers D) (Suc 0))"
  have k: "k = None \<or> the k \<in> wifi_connected_leaves" and c: "c \<in> wifi_connecting_leaves"
    using assms(1) by (auto simp: proper_tree_def)
  have leaf: "(case k of None \<Rightarrow> Some (wifi_tree STATE_WIFI_STARTED STATE_WIFI_CONNECTED c k w)
      | Some i \<Rightarrow> map_option snd (state_machine_process_event ?H (Node i) EVENT_LEAVING_STATE
          (wifi_tree STATE_WIFI_STARTED STATE_WIFI_CONNECTED c k w))) =
      Some (wifi_tree STATE_WIFI_STARTED STATE_WIFI_CONNECTED c k ?v)"
  proof (cases k)
    case None
    then show ?thesis using assms(3) by (simp add: leave_wifi_def leave_leaf_only_def)
  next
    case (Some i)
    with k have i: "i \<in> wifi_connected_leaves" by (simp only: option.sel option.simps simp_thms)
    then have "i \<in> wifi_plain_leaves \<union> wifi_connecting_leaves \<union> wifi_connected_leaves" by (rule UnI2)
    note leaving = wifi_leaving_leaf [OF this]
    have "leave_leaf_only i w = ?v" using i Some assms(3) by (elim insertE emptyE) (simp_all add: leave_wifi_def)
    then show ?thesis using Some by (simp only: option.case leaving option.map snd_conv)
  qed
  have "wifi_shape STATE_WIFI_STARTED STATE_WIFI_CONNECTED c (Some t) t"
    using proper_started_shape [OF proper_tree_change(3) [OF assms(1,2)]] by simp
  note shape = this
  have "lands (run_handler ?H (Node t) EVENT_ENTERING_STATE (wifi_tree STATE_WIFI_STARTED STATE_WIFI_CONNECTED c (Some t) ?v))
      (enter_wifi D t ?v)"
    using assms(2) shape
    by (elim insertE emptyE)
       (simp_all add: run_handler_Some wifi_handler_defs enter_wifi_def start_exchange_def lands_rests Let_def del: nested_transition.simps)
  from lands_children [OF this, of t ?H] assms(2) have
    "lands (Option.bind (run_handler ?H (Node t) EVENT_ENTERING_STATE (wifi_tree STATE_WIFI_STARTED STATE_WIFI_CONNECTED c (Some t) ?v))
      (enter_children ?H (Node t))) (enter_wifi D t ?v)" by blast
  then show ?thesis
    unfolding wifi_transition_def numeral_2_eq_2 nested_transition.simps(2) [of _ "Suc 0"]
    by (simp only: state_machine_transition_def wifi_tree_simps wifi_parents_get(4) [OF assms(2)] bind.bind_lunit
        wifi_tree_current(4) leaf wifi_tree_set)
qed


section \<open>Dispatch\<close>

definition to_wifi_root :: "'h wifi_dependencies \<Rightarrow> u8 \<Rightarrow> (bool \<times> 'h wifim) option \<Rightarrow> (bool \<times> 'h wifim) option" where
  "to_wifi_root D e x = do { r \<leftarrow> x; (if \<not> fst r then wifi_module_handler D e (snd r) else Some r) }"

lemma dispatch_stopped:
  "state_machine_process_event (wifi_handlers D tr) Root e (wifi_tree STATE_WIFI_STOPPED s c k w) =
    to_wifi_root D e (state_stopped tr e (wifi_tree STATE_WIFI_STOPPED s c k w))"
  by (simp add: process_event_inner process_event_leaf to_wifi_root_def)

lemma dispatch_started:
  assumes "e \<noteq> EVENT_ENTERING_STATE"
  shows "state_machine_process_event (wifi_handlers D tr) Root e (wifi_tree STATE_WIFI_STARTED s c k w) =
    to_wifi_root D e (state_machine_process_event (wifi_handlers D tr) (Node s) e (wifi_tree STATE_WIFI_STARTED s c k w))"
proof (cases "state_machine_process_event (wifi_handlers D tr) (Node s) e (wifi_tree STATE_WIFI_STARTED s c k w)")
  case None
  then show ?thesis by (simp add: process_event_inner to_wifi_root_def)
next
  case (Some r)
  then show ?thesis
    using assms by (cases "fst r") (simp_all add: process_event_inner to_wifi_root_def state_started_def)
qed

lemma reach_move: "lands x y \<Longrightarrow> wifi_reaches (to_wifi_root D e (processed True x)) y"
  by (cases x; cases y) (auto simp: lands_def wifi_reaches_def to_wifi_root_def processed_def)

lemma reach_pass:
  assumes "wifi_shape r s c k l" "e \<noteq> EVENT_LEAVING_STATE" "e \<noteq> EVENT_WIFI_COMMUNICATION_MODULE_PROCESS"
  shows "wifi_reaches (to_wifi_root D e (Some (False, wifi_tree r s c k w))) (Some (w, l))"
  using lands_Some [OF assms(1), of w] assms(2,3)
  by (simp add: to_wifi_root_def wifi_module_handler_def wifi_reaches_def lands_def)

lemma reach_process:
  assumes "wifi_shape r s c k l"
  shows "wifi_reaches (to_wifi_root D EVENT_WIFI_COMMUNICATION_MODULE_PROCESS (Some (False, wifi_tree r s c k w)))
    (rests l (root_processes D w))"
  using lands_rests [OF assms, of "root_processes D w"]
  by (cases "root_processes D w")
     (simp_all add: to_wifi_root_def wifi_module_handler_def wifi_reaches_def lands_def processed_def root_processes_def rests_def)

lemma reach_same: "wifi_shape r s c k l \<Longrightarrow> wifi_reaches (to_wifi_root D e (Some (True, wifi_tree r s c k w))) (Some (w, l))"
  using lands_Some by (fastforce simp: to_wifi_root_def wifi_reaches_def lands_def)

lemma lands_starts_connecting: "lands x y \<Longrightarrow> wifi_reaches (map_option (Pair True) x) y"
  by (cases x; cases y) (auto simp: lands_def wifi_reaches_def)

abbreviation "wifi_known_events \<equiv> {EVENT_WIFI_DISCONNECT, EVENT_WIFI_CONNECT, EVENT_WIFI_DISCONNECT_SOCKET_CLOSED,
  EVENT_WIFI_SEND, EVENT_WIFI_SEND_TO, EVENT_WIFI_RECEIVE, EVENT_WIFI_RECEIVE_FROM, EVENT_WIFI_STOP,
  EVENT_WIFI_STOP_SOCKET_CLOSED, EVENT_WIFI_CONNECTING, EVENT_WIFI_CONNECTED, EVENT_WIFI_ACQUIRING_IP_ADDRESS,
  EVENT_WIFI_IP_ADDRESS_ACQUIRED, EVENT_WIFI_DISCONNECTING, EVENT_WIFI_DISCONNECTED, EVENT_WIFI_SEQUENCE_TIMEOUT,
  EVENT_WIFI_ERROR, EVENT_WIFI_CLOSE_SOCKET, EVENT_WIFI_COMMUNICATION_MODULE_PROCESS,
  EVENT_WIFI_COMMUNICATION_MODULE_DONE}"

lemma leave_wifi_simps [simp]:
  "leave_wifi STATE_WIFI_DISCONNECTED w = w" "leave_wifi STATE_WIFI_CONNECTED w = w" "leave_wifi STATE_WIFI_RESET w = w"
  "leave_wifi STATE_WIFI_CLOSING_SOCKET w = w"
  by (simp_all add: leave_wifi_def leave_leaf_only_def)

section \<open>The rows\<close>

lemma stopped_row:
  assumes "proper_tree s c k" "e \<noteq> EVENT_ENTERING_STATE" "e \<noteq> EVENT_LEAVING_STATE"
  shows "wifi_reaches (to_wifi_root D e (state_stopped (wifi_transition D) e (wifi_tree STATE_WIFI_STOPPED s c k w)))
    (wifi_event D e (w, STATE_WIFI_STOPPED))"
proof (cases "e = EVENT_WIFI_CONNECT \<or> e \<in> wifi_requests")
  case True
  then have "wifi_event D e (w, STATE_WIFI_STOPPED) = do { w \<leftarrow> add_wifi_communication_module_event_type e w; starts D w }"
    by (auto simp: wifi_event_def stopped_row_def)
  with True assms(2) show ?thesis
    by (simp add: state_stopped_def wifi_post_tree reach_move lands_bind wifi_starts [OF assms(1)])
next
  case False
  note shape = stopped_shape [OF assms(1)]
  from False assms(2,3) show ?thesis
    by (simp add: state_stopped_def wifi_event_def stopped_row_def reach_pass [OF shape] reach_process [OF shape])
qed

lemma disconnected_row:
  assumes "proper_tree STATE_WIFI_DISCONNECTED c k" "e \<noteq> EVENT_ENTERING_STATE" "e \<noteq> EVENT_LEAVING_STATE"
  shows "wifi_reaches (to_wifi_root D e (wifi_state_disconnected (wifi_transition D) e
      (wifi_tree STATE_WIFI_STARTED STATE_WIFI_DISCONNECTED c k w))) (wifi_event D e (w, STATE_WIFI_DISCONNECTED))"
proof -
  have l: "STATE_WIFI_DISCONNECTED = leaf_below STATE_WIFI_DISCONNECTED c k" by simp
  note moves = wifi_moves_up [OF assms(1) l, where D = D]
  have shape: "wifi_shape STATE_WIFI_STARTED STATE_WIFI_DISCONNECTED c k STATE_WIFI_DISCONNECTED"
    using proper_started_shape [OF assms(1)] by simp
  show ?thesis
  proof (cases "e \<in> wifi_known_events")
    case True
    with assms(2,3) show ?thesis
      by (elim insertE emptyE; simp add: wifi_state_disconnected_def wifi_event_def disconnected_row_def wifi_post_tree
          wifi_fail_tree reset_after_def reach_move lands_bind moves [simplified] reach_same [OF shape]
          reach_process [OF shape] reach_pass [OF shape])
  next
    case False
    with assms(2,3) show ?thesis
      by (simp add: wifi_state_disconnected_def wifi_event_def disconnected_row_def reach_pass [OF shape])
  qed
qed


lemma disconnecting_row:
  assumes "proper_tree STATE_WIFI_DISCONNECTING c k" "e \<noteq> EVENT_ENTERING_STATE" "e \<noteq> EVENT_LEAVING_STATE"
  shows "wifi_reaches (to_wifi_root D e (wifi_state_disconnecting D (wifi_transition D) e
      (wifi_tree STATE_WIFI_STARTED STATE_WIFI_DISCONNECTING c k w))) (wifi_event D e (w, STATE_WIFI_DISCONNECTING))"
proof -
  have l: "STATE_WIFI_DISCONNECTING = leaf_below STATE_WIFI_DISCONNECTING c k" by simp
  note moves = wifi_moves_up [OF assms(1) l, where D = D]
  have shape: "wifi_shape STATE_WIFI_STARTED STATE_WIFI_DISCONNECTING c k STATE_WIFI_DISCONNECTING"
    using proper_started_shape [OF assms(1)] by simp
  show ?thesis
  proof (cases "e \<in> wifi_known_events")
    case True
    with assms(2,3) show ?thesis
      by (elim insertE emptyE; simp add: wifi_state_disconnecting_def wifi_event_def disconnecting_row_def wifi_post_tree
          wifi_fail_tree reset_after_def posts_def wifi_lost_def reach_move lands_rests [OF shape] lands_bind moves
          reach_process [OF shape] reach_pass [OF shape])
  next
    case False
    with assms(2,3) show ?thesis
      by (simp add: wifi_state_disconnecting_def wifi_event_def disconnecting_row_def reach_pass [OF shape])
  qed
qed

lemma reset_row:
  assumes "proper_tree STATE_WIFI_RESET c k" "e \<noteq> EVENT_ENTERING_STATE" "e \<noteq> EVENT_LEAVING_STATE"
  shows "wifi_reaches (to_wifi_root D e (wifi_state_reset D (wifi_transition D) e
      (wifi_tree STATE_WIFI_STARTED STATE_WIFI_RESET c k w))) (wifi_event D e (w, STATE_WIFI_RESET))"
proof -
  have l: "STATE_WIFI_RESET = leaf_below STATE_WIFI_RESET c k" by simp
  note moves = wifi_moves_up [OF assms(1) l, where D = D, simplified]
  have shape: "wifi_shape STATE_WIFI_STARTED STATE_WIFI_RESET c k STATE_WIFI_RESET"
    using proper_started_shape [OF assms(1)] by simp
  have reset_ends: "lands (Option.bind (wifi_call D (wifi_reset D) w) (\<lambda>(ok, w). wifi_transition D STATE_WIFI_DISCONNECTED
      (wifi_tree STATE_WIFI_STARTED STATE_WIFI_RESET c k
        (if ok then w else set_wifi_communication_module_error WIFI_OPERATION_FAILED STATE_WIFI_RESET w)))) (reset_done D w)"
    unfolding reset_done_def by (rule lands_bind2) (simp add: moves)
  show ?thesis
  proof (cases "e \<in> wifi_known_events")
    case True
    with assms(2,3) show ?thesis
      by (elim insertE emptyE; simp add: wifi_state_reset_def wifi_event_def reset_row_def wifi_post_tree
          posts_def reach_move lands_rests [OF shape] reset_ends Let_def reach_pass [OF shape])
  next
    case False
    with assms(2,3) show ?thesis
      by (simp add: wifi_state_reset_def wifi_event_def reset_row_def reach_pass [OF shape])
  qed
qed

lemma processed_at_once: "processed True (Some m) = Some (True, m)"
  by (simp add: processed_def)

lemma closing_handles:
  assumes "e \<noteq> EVENT_LEAVING_STATE"
  shows "wifi_state_closing_socket D tr e m = processed True (map_option snd (wifi_state_closing_socket D tr e m))"
  using assms
  by (simp add: wifi_state_closing_socket_def Let_def wifi_post_def wifi_fail_keeping_def processed_at_once if_distrib [of "map_option snd"]
      if_distrib [of "processed True"])

lemma closing_row:
  assumes "proper_tree STATE_WIFI_CONNECTED c (Some STATE_WIFI_CLOSING_SOCKET)" "e \<noteq> EVENT_ENTERING_STATE" "e \<noteq> EVENT_LEAVING_STATE"
  shows "lands (map_option snd (wifi_state_closing_socket D (wifi_transition D) e
      (wifi_tree STATE_WIFI_STARTED STATE_WIFI_CONNECTED c (Some STATE_WIFI_CLOSING_SOCKET) w)))
    (wifi_event D e (w, STATE_WIFI_CLOSING_SOCKET))"
proof -
  have l: "STATE_WIFI_CLOSING_SOCKET = leaf_below STATE_WIFI_CONNECTED c (Some STATE_WIFI_CLOSING_SOCKET)" by simp
  note moves = wifi_moves_up [OF assms(1) l, where D = D, simplified]
  have shape: "wifi_shape STATE_WIFI_STARTED STATE_WIFI_CONNECTED c (Some STATE_WIFI_CLOSING_SOCKET) STATE_WIFI_CLOSING_SOCKET"
    using proper_started_shape [OF assms(1)] by simp
  show ?thesis
  proof (cases "e \<in> wifi_known_events")
    case True
    with assms(2,3) show ?thesis
      by (elim insertE emptyE; simp add: wifi_state_closing_socket_def wifi_event_def closing_row_def wifi_post_tree
          wifi_fail_tree posts_def closing_ended_def reset_after_def wifi_lost_def Let_def lands_rests [OF shape]
          lands_Some [OF shape] lands_bind moves)
  next
    case False
    with assms(2,3) lands_Some [OF shape, of w] show ?thesis
      by (simp add: wifi_state_closing_socket_def wifi_event_def closing_row_def)
  qed
qed


text \<open>A parent is asked after its child.\<close>

definition asked_after :: "'h wifi handler \<Rightarrow> u8 \<Rightarrow> (bool \<times> 'h wifim) option \<Rightarrow> (bool \<times> 'h wifim) option" where
  "asked_after h e x = do { r \<leftarrow> x; (if \<not> fst r then h e (snd r) else Some r) }"

lemma asked_after_simps [simp]:
  "asked_after h e (processed True x) = processed True x"
  "asked_after h e (Some (False, m)) = h e m"
  by (cases x) (simp_all add: asked_after_def processed_def)

lemma connecting_to_ap_row:
  assumes "proper_tree STATE_WIFI_CONNECTING STATE_WIFI_CONNECTING_TO_AP k" "e \<noteq> EVENT_ENTERING_STATE" "e \<noteq> EVENT_LEAVING_STATE"
  shows "wifi_reaches (to_wifi_root D e (asked_after wifi_state_connecting e (state_connecting_to_ap D (wifi_transition D) e
      (wifi_tree STATE_WIFI_STARTED STATE_WIFI_CONNECTING STATE_WIFI_CONNECTING_TO_AP k w))))
    (wifi_event D e (w, STATE_WIFI_CONNECTING_TO_AP))"
proof -
  have l: "STATE_WIFI_CONNECTING_TO_AP = leaf_below STATE_WIFI_CONNECTING STATE_WIFI_CONNECTING_TO_AP k" by simp
  note moves = wifi_moves_up [OF assms(1) l, where D = D, simplified]
  have shape: "wifi_shape STATE_WIFI_STARTED STATE_WIFI_CONNECTING STATE_WIFI_CONNECTING_TO_AP k STATE_WIFI_CONNECTING_TO_AP"
    using proper_started_shape [OF assms(1)] by simp
  show ?thesis
  proof (cases "e \<in> wifi_known_events")
    case True
    with assms(2,3) show ?thesis
      by (elim insertE emptyE; simp add: state_connecting_to_ap_def wifi_state_connecting_def
          wifi_event_def connecting_row_def wifi_post_tree wifi_fail_tree reset_after_def posts_def wifi_lost_def reach_move
          lands_rests [OF shape] lands_bind moves reach_process [OF shape] reach_pass [OF shape] wifi_acquires [OF assms(1)])
  next
    case False
    with assms(2,3) show ?thesis
      by (simp add: state_connecting_to_ap_def wifi_state_connecting_def wifi_event_def connecting_row_def reach_pass [OF shape])
  qed
qed

lemma verifying_row:
  assumes "proper_tree STATE_WIFI_CONNECTING STATE_WIFI_ACQUIRING_IP_ADDRESS k"
  shows "wifi_reaches (to_wifi_root D EVENT_WIFI_IP_ADDRESS_ACQUIRED (asked_after wifi_state_connecting
      EVENT_WIFI_IP_ADDRESS_ACQUIRED (state_acquiring_ip_address D (wifi_transition D) EVENT_WIFI_IP_ADDRESS_ACQUIRED
        (wifi_tree STATE_WIFI_STARTED STATE_WIFI_CONNECTING STATE_WIFI_ACQUIRING_IP_ADDRESS k w)))) (address_acquired D w)"
proof -
  have l: "STATE_WIFI_ACQUIRING_IP_ADDRESS = leaf_below STATE_WIFI_CONNECTING STATE_WIFI_ACQUIRING_IP_ADDRESS k" by simp
  note moves = wifi_moves_up [OF assms(1) l, where D = D]
  let ?tree = "wifi_tree STATE_WIFI_STARTED STATE_WIFI_CONNECTING STATE_WIFI_ACQUIRING_IP_ADDRESS k"
  let ?verified = "if wifi_is_static_ip_set (wifi_config w) then verify_static_ip D w else Some (True, w)"
  let ?moves = "do {
      (good, w) \<leftarrow> ?verified;
      (if good then wifi_transition D STATE_WIFI_CONNECTED (?tree w)
       else do { w \<leftarrow> wifi_failed WIFI_OPERATION_FAILED STATE_WIFI_ACQUIRING_IP_ADDRESS w;
         wifi_transition D STATE_WIFI_RESET (?tree w) })
    }"
  have "state_acquiring_ip_address D (wifi_transition D) EVENT_WIFI_IP_ADDRESS_ACQUIRED (?tree w) = processed True ?moves"
    by (cases "verify_static_ip D w") (auto simp: state_acquiring_ip_address_def wifi_fail_tree processed_def)
  moreover have "lands ?moves (address_acquired D w)"
    unfolding address_acquired_def Let_def reset_after_def
    by (rule lands_bind2) (simp add: lands_bind moves)
  ultimately show ?thesis by (simp add: reach_move)
qed

lemma acquiring_row:
  assumes "proper_tree STATE_WIFI_CONNECTING STATE_WIFI_ACQUIRING_IP_ADDRESS k" "e \<noteq> EVENT_ENTERING_STATE" "e \<noteq> EVENT_LEAVING_STATE"
  shows "wifi_reaches (to_wifi_root D e (asked_after wifi_state_connecting e (state_acquiring_ip_address D (wifi_transition D) e
      (wifi_tree STATE_WIFI_STARTED STATE_WIFI_CONNECTING STATE_WIFI_ACQUIRING_IP_ADDRESS k w))))
    (wifi_event D e (w, STATE_WIFI_ACQUIRING_IP_ADDRESS))"
proof (cases "e = EVENT_WIFI_IP_ADDRESS_ACQUIRED")
  case True
  with verifying_row [OF assms(1), of D w] show ?thesis by (simp add: wifi_event_def connecting_row_def)
next
  case other: False
  have l: "STATE_WIFI_ACQUIRING_IP_ADDRESS = leaf_below STATE_WIFI_CONNECTING STATE_WIFI_ACQUIRING_IP_ADDRESS k" by simp
  note moves = wifi_moves_up [OF assms(1) l, where D = D, simplified]
  have shape: "wifi_shape STATE_WIFI_STARTED STATE_WIFI_CONNECTING STATE_WIFI_ACQUIRING_IP_ADDRESS k STATE_WIFI_ACQUIRING_IP_ADDRESS"
    using proper_started_shape [OF assms(1)] by simp
  show ?thesis
  proof (cases "e \<in> wifi_known_events")
    case True
    with assms(2,3) other show ?thesis
      by (elim insertE emptyE; simp add: state_acquiring_ip_address_def wifi_state_connecting_def
          wifi_event_def connecting_row_def wifi_post_tree wifi_fail_tree reset_after_def posts_def wifi_lost_def reach_move
          lands_rests [OF shape] lands_bind moves reach_process [OF shape] reach_pass [OF shape])
  next
    case False
    with assms(2,3) show ?thesis
      by (simp add: state_acquiring_ip_address_def wifi_state_connecting_def wifi_event_def connecting_row_def reach_pass [OF shape])
  qed
qed

lemma connected_row:
  assumes "proper_tree STATE_WIFI_CONNECTED c k" "l = leaf_below STATE_WIFI_CONNECTED c k"
    and "e \<noteq> EVENT_ENTERING_STATE" "e \<noteq> EVENT_LEAVING_STATE"
  shows "wifi_reaches (to_wifi_root D e (wifi_state_connected (wifi_transition D) e
      (wifi_tree STATE_WIFI_STARTED STATE_WIFI_CONNECTED c k w)))
    (if e = EVENT_WIFI_COMMUNICATION_MODULE_PROCESS then rests l (root_processes D w) else connected_row D l e w)"
proof -
  note moves = wifi_moves_up [OF assms(1,2), where D = D] wifi_exchanges [OF assms(1) _ assms(2), where D = D]
  have shape: "wifi_shape STATE_WIFI_STARTED STATE_WIFI_CONNECTED c k l"
    using proper_started_shape [OF assms(1)] assms(2) by simp
  show ?thesis
  proof (cases "e \<in> wifi_known_events")
    case True
    with assms(3,4) show ?thesis
      by (elim insertE emptyE; simp add: wifi_state_connected_def connected_row_def wifi_request_state_def wifi_post_tree
          wifi_fail_tree reset_after_def wifi_lost_def reach_move lands_bind moves reach_process [OF shape] reach_pass [OF shape])
  next
    case False
    with assms(3,4) show ?thesis
      by (simp add: wifi_state_connected_def connected_row_def reach_pass [OF shape])
  qed
qed


lemma exchange_row:
  assumes p: "proper_tree STATE_WIFI_CONNECTED c (Some i)" and e: "e \<noteq> EVENT_ENTERING_STATE" "e \<noteq> EVENT_LEAVING_STATE"
    and i: "i \<in> wifi_exchange_leaves" and h: "wifi_handlers D (wifi_transition D) (Node i) = Some h"
  shows "wifi_reaches (to_wifi_root D e (asked_after (wifi_state_connected (wifi_transition D)) e
      (h e (wifi_tree STATE_WIFI_STARTED STATE_WIFI_CONNECTED c (Some i) w)))) (wifi_event D e (w, i))"
proof (cases "e \<in> {EVENT_WIFI_COMMUNICATION_MODULE_DONE, EVENT_WIFI_DISCONNECTED, EVENT_WIFI_ERROR}")
  case True
  have h: "h = the (wifi_handlers D (wifi_transition D) (Node i))" using h by simp
  from p i True show ?thesis
    unfolding h
    by (elim insertE emptyE)
       (simp_all add: wifi_handler_defs exchange_finished_def take_server_time_def lost_while_exchanging_def wifi_event_def
          exchanging_row_def exchange_ended_def wifi_fail_tree reset_after_def wifi_lost_def Let_def lands_bind wifi_moves_up
          reach_move)
next
  case False
  have h: "h = the (wifi_handlers D (wifi_transition D) (Node i))" using h by simp
  from False have "h e m = Some (False, m)" for m
    using e i unfolding h by (elim insertE emptyE) (auto simp: wifi_handler_defs lost_while_exchanging_def)
  moreover have "wifi_event D e (w, i) =
      (if e = EVENT_WIFI_COMMUNICATION_MODULE_PROCESS then rests i (root_processes D w) else connected_row D i e w)"
    using False i by (elim insertE emptyE) (simp_all add: wifi_event_def exchanging_row_def)
  moreover have "i = leaf_below STATE_WIFI_CONNECTED c (Some i)" by simp
  note connected_row [OF p this e, of D w]
  ultimately show ?thesis by simp
qed

section \<open>The refinement\<close>

lemma connected_dispatch:
  assumes p: "proper_tree STATE_WIFI_CONNECTED c k" and e: "e \<noteq> EVENT_ENTERING_STATE" "e \<noteq> EVENT_LEAVING_STATE"
  shows "wifi_reaches (to_wifi_root D e (state_machine_process_event (wifi_handlers D (wifi_transition D))
      (Node STATE_WIFI_CONNECTED) e (wifi_tree STATE_WIFI_STARTED STATE_WIFI_CONNECTED c k w)))
    (wifi_event D e (w, leaf_below STATE_WIFI_CONNECTED c k))"
proof (cases k)
  case None
  then have "wifi_event D e (w, leaf_below STATE_WIFI_CONNECTED c k) = (if e = EVENT_WIFI_COMMUNICATION_MODULE_PROCESS
      then rests (leaf_below STATE_WIFI_CONNECTED c k) (root_processes D w)
      else connected_row D (leaf_below STATE_WIFI_CONNECTED c k) e w)"
    by (simp add: wifi_event_def)
  with connected_row [OF p refl e, of D w] None show ?thesis by (simp only: process_event_leaf wifi_tree_current wifi_handlers_at)
next
  case (Some i)
  with p have "i \<in> wifi_connected_leaves" unfolding proper_tree_def by (simp only: option.sel option.simps simp_thms)
  then consider "i = STATE_WIFI_CLOSING_SOCKET" | "i \<in> wifi_exchange_leaves" by blast
  then show ?thesis
  proof cases
    case 1
    let ?m = "wifi_tree STATE_WIFI_STARTED STATE_WIFI_CONNECTED c (Some STATE_WIFI_CLOSING_SOCKET) w"
    let ?h = "wifi_state_closing_socket D (wifi_transition D)"
    have "state_machine_process_event (wifi_handlers D (wifi_transition D)) (Node STATE_WIFI_CONNECTED) e ?m =
        asked_after (wifi_state_connected (wifi_transition D)) e (processed True (map_option snd (?h e ?m)))"
      using closing_handles [OF e(2), of D "wifi_transition D" ?m]
      by (simp add: process_event_inner process_event_leaf asked_after_def)
    with Some 1 closing_row [of c e D w] p e show ?thesis by (simp add: reach_move)
  next
    case 2
    let ?H = "wifi_handlers D (wifi_transition D)"
    let ?m = "wifi_tree STATE_WIFI_STARTED STATE_WIFI_CONNECTED c (Some i) w"
    from 2 obtain h where h: "?H (Node i) = Some h" by (elim insertE emptyE) simp_all
    have "current_state ?m (Node i) = Some None" using 2 by (elim insertE emptyE) simp_all
    from process_event_leaf [of ?m "Node i" ?H h e, OF this h]
    have "state_machine_process_event ?H (Node i) e ?m = h e ?m" .
    with Some exchange_row [of c i e D h w] p e 2 h show ?thesis
      by (simp add: process_event_inner asked_after_def)
  qed
qed

lemma wifi_dispatch_follows_table:
  assumes "at_wifi l w m" "e \<noteq> EVENT_ENTERING_STATE" "e \<noteq> EVENT_LEAVING_STATE"
  shows "wifi_reaches (state_machine_process_event (wifi_handlers D (wifi_transition D)) Root e m) (wifi_event D e (w, l))"
proof -
  from assms(1) obtain r s c k where m: "m = wifi_tree r s c k w" and p: "proper_tree s c k"
    and l: "r = STATE_WIFI_STOPPED \<and> l = STATE_WIFI_STOPPED \<or> r = STATE_WIFI_STARTED \<and> l = leaf_below s c k"
    by (auto simp: at_wifi_def wifi_shape_def)
  show ?thesis
  proof (cases "r = STATE_WIFI_STOPPED")
    case True
    with l m stopped_row [OF p assms(2,3), of D w] show ?thesis by (simp add: dispatch_stopped)
  next
    case False
    with l have l: "r = STATE_WIFI_STARTED" "l = leaf_below s c k" by auto
    note dispatch = dispatch_started [OF assms(2)]
    from p have "c \<in> wifi_connecting_leaves" by (simp only: proper_tree_def)
    then consider "c = STATE_WIFI_CONNECTING_TO_AP" | "c = STATE_WIFI_ACQUIRING_IP_ADDRESS" by blast
    note c = this
    from p have "s \<in> wifi_plain_leaves \<union> {STATE_WIFI_CONNECTING, STATE_WIFI_CONNECTED}" by (simp only: proper_tree_def)
    then consider "s = STATE_WIFI_DISCONNECTED" | "s = STATE_WIFI_DISCONNECTING" | "s = STATE_WIFI_RESET"
      | "s = STATE_WIFI_CONNECTING" | "s = STATE_WIFI_CONNECTED" by blast
    then show ?thesis
    proof cases
      case 1
      with m l p disconnected_row [of c k e D w] assms(2,3) show ?thesis by (simp add: dispatch process_event_leaf)
    next
      case 2
      with m l p disconnecting_row [of c k e D w] assms(2,3) show ?thesis by (simp add: dispatch process_event_leaf)
    next
      case 3
      with m l p reset_row [of c k e D w] assms(2,3) show ?thesis by (simp add: dispatch process_event_leaf)
    next
      case 4
      from c show ?thesis
      proof cases
        case 1
        with \<open>s = STATE_WIFI_CONNECTING\<close> m l p connecting_to_ap_row [of k e D w] assms(2,3) show ?thesis
          by (simp add: dispatch process_event_inner process_event_leaf asked_after_def)
      next
        case 2
        with \<open>s = STATE_WIFI_CONNECTING\<close> m l p acquiring_row [of k e D w] assms(2,3) show ?thesis
          by (simp add: dispatch process_event_inner process_event_leaf asked_after_def)
      qed
    next
      case 5
      with m l p connected_dispatch [of c k e D w] assms(2,3) show ?thesis by (simp add: dispatch)
    qed
  qed
qed

text \<open>C6: From every state at which the Wi-Fi machine can rest, dispatching an event through the hierarchy of its
  handlers does what the flat table does: it leads to the same variables and rests where the table says, and
  it fails where the table fails.\<close>

theorem wifi_follows_table:
  assumes "at_wifi l w m" "e \<noteq> EVENT_ENTERING_STATE" "e \<noteq> EVENT_LEAVING_STATE"
  shows "wifi_reaches (state_machine_process_event (wifi_handlers D (wifi_transition D)) Root e m) (wifi_event D e (w, l))"
  using assms by (rule wifi_dispatch_follows_table)

end
