(* ===== verification/Wifi_Life.thy ===== *)
theory Wifi_Life
  imports Wifi_Dispatch
begin

text \<open>
  The life of the Wi-Fi module (\<open>SDK/core/wifi_communication_module.c\<close>) with its TCP and UDP modules: at every
  moment the machine rests at a leaf, its queue and its two socket machines are well formed, and the next
  call returns.
\<close>

section \<open>A socket machine as a part\<close>

definition socket_sound :: "('v, 'h) socketm \<Rightarrow> bool" where
  "socket_sound m \<longleftrightarrow> (\<exists>md. at_socket md (world m) m \<and> socket_ok md (world m))"

abbreviation buffer_room :: "('v, 'h) socketm \<Rightarrow> nat" where
  "buffer_room m \<equiv> length (packet_buffer (world m))"

text \<open>The result is there, sound, and has its buffer.\<close>

definition part_ok :: "nat \<Rightarrow> ('v, 'h) socketm option \<Rightarrow> bool" where
  "part_ok n r \<longleftrightarrow> (\<exists>m. r = Some m \<and> socket_sound m \<and> buffer_room m = n)"

lemma sound_change:
  assumes "socket_sound m" "socket_events (g (world m)) = socket_events (world m)" "data_size (g (world m)) = data_size (world m)"
    "buffer_size (g (world m)) = buffer_size (world m)" "timeout_timer (g (world m)) = timeout_timer (world m)"
    "open_socket_id (g (world m)) = open_socket_id (world m)"
    "length (packet_buffer (g (world m))) = length (packet_buffer (world m))"
  shows "socket_sound (change_world g m)"
proof -
  obtain md where md: "at_socket md (world m) m" "socket_ok md (world m)" using assms(1) by (auto simp: socket_sound_def)
  from md(2) assms(2-7) have "socket_ok md (g (world m))"
    by (simp add: socket_ok_def socket_events_known_def sizes_fit_def)
  with at_socket_change [OF md(1)] show ?thesis by (auto simp: socket_sound_def change_world_def)
qed

lemma sound_processes:
  assumes "socket_sound m" "driver_fits T"
  obtains p m' where "socket_process_event T m = Some (p, m')" "socket_sound m'" "buffer_room m' = buffer_room m"
proof -
  obtain md where md: "at_socket md (world m) m" "socket_ok md (world m)" using assms(1) by (auto simp: socket_sound_def)
  obtain m' md' where "socket_process_event T m = Some (socket_waiting (world m) \<noteq> [], m')"
    "at_socket md' (world m') m'" "socket_ok md' (world m')" "same_sizes (world m) (world m')"
    using md assms(2) by (rule socket_process_safe)
  with that show thesis by (auto simp: socket_sound_def same_sizes_def)
qed

lemma sound_hears:
  assumes "socket_sound m"
  shows "part_ok (buffer_room m) (lift_world (hear T s) m)"
proof -
  obtain md where md: "at_socket md (world m) m" "socket_ok md (world m)" using assms by (auto simp: socket_sound_def)
  from md(2) have "socket_queue (world m)" by (simp add: socket_ok_def socket_events_known_def)
  then obtain w' where w': "hear T s (world m) = Some w'" "listened (world m) w'" by (rule hear_listened)
  with at_socket_change [OF md(1) signal_ok [OF md(2) w'(1)]] listened_frame(3) [OF w'(2)] show ?thesis
    by (auto simp: part_ok_def lift_world_def socket_sound_def)
qed

lemma sound_operates:
  assumes "socket_sound m" "unat n \<le> buffer_room m"
  shows "part_ok (buffer_room m) (lift_world (socket_send n) m)" "part_ok (buffer_room m) (lift_world (socket_receive n) m)"
    "part_ok (buffer_room m) (lift_world socket_close m)"
proof -
  obtain md where md: "at_socket md (world m) m" "socket_ok md (world m)" using assms(1) by (auto simp: socket_sound_def)
  from md(2) have queue: "socket_queue (world m)" by (simp add: socket_ok_def socket_events_known_def)
  have "socket_ok md ((world m)\<lparr>data_size := n\<rparr>)" "socket_ok md ((world m)\<lparr>buffer_size := n\<rparr>)"
    using md(2) assms(2) by (simp_all add: socket_ok_def socket_events_known_def sizes_fit_def)
  note ok = operation_ok [OF this(1), of EVENT_SEND, simplified] operation_ok [OF this(2), of EVENT_RECEIVE, simplified]
    operation_ok [OF md(2), of EVENT_CLOSE_SOCKET, simplified]
  from at_socket_change [OF md(1) ok(1)] queue show "part_ok (buffer_room m) (lift_world (socket_send n) m)"
    by (auto simp: part_ok_def lift_world_def socket_sound_def socket_send_def)
  from at_socket_change [OF md(1) ok(2)] queue show "part_ok (buffer_room m) (lift_world (socket_receive n) m)"
    by (auto simp: part_ok_def lift_world_def socket_sound_def socket_receive_def)
  from at_socket_change [OF md(1) ok(3)] queue show "part_ok (buffer_room m) (lift_world socket_close m)"
    by (auto simp: part_ok_def lift_world_def socket_sound_def socket_close_def)
qed

section \<open>The variables\<close>

abbreviation wifi_waiting :: "'h wifi \<Rightarrow> u8 list" where
  "wifi_waiting w \<equiv> event_types (wifi_events w)"

text \<open>
  With \<open>a\<close> the handle of the last exchange is known to be set, those in \<open>b\<close> of the closing sockets too.
\<close>

definition wifi_ok :: "nat \<Rightarrow> bool \<Rightarrow> process_handle set \<Rightarrow> 'h wifi \<Rightarrow> bool" where
  "wifi_ok sz a b w \<longleftrightarrow> length (wifi_packet_buffer w) = sz \<and> event_fifo (wifi_events w) \<and> (\<forall>e \<in> set (wifi_waiting w). e < 20) \<and>
     socket_sound (tcp_module w) \<and> socket_sound (udp_module w) \<and>
     buffer_room (tcp_module w) = length (wifi_packet_buffer w) \<and> buffer_room (udp_module w) = length (wifi_packet_buffer w) \<and>
     unat (wifi_data_size w) \<le> length (wifi_packet_buffer w) \<and> unat (wifi_buffer_size w) \<le> length (wifi_packet_buffer w) \<and>
     (a \<longrightarrow> communication_module_process_handle w \<noteq> None) \<and>
     (TCP_PROCESS \<in> b \<longrightarrow> tcp_process_handle w \<noteq> None) \<and> (UDP_PROCESS \<in> b \<longrightarrow> udp_process_handle w \<noteq> None)"

definition all_ok :: "nat \<Rightarrow> bool \<Rightarrow> process_handle set \<Rightarrow> 'h wifi option \<Rightarrow> bool" where
  "all_ok sz a b r \<longleftrightarrow> (\<exists>w. r = Some w \<and> wifi_ok sz a b w)"

definition all_ok2 :: "nat \<Rightarrow> bool \<Rightarrow> process_handle set \<Rightarrow> ('r \<times> 'h wifi) option \<Rightarrow> bool" where
  "all_ok2 sz a b r \<longleftrightarrow> (\<exists>x w. r = Some (x, w) \<and> wifi_ok sz a b w)"

lemma all_ok_Some [simp]: "all_ok sz a b (Some w) = wifi_ok sz a b w"
  by (simp add: all_ok_def)

lemma all_ok2_Some [simp]: "all_ok2 sz a b (Some (x, w)) = wifi_ok sz a b w"
  by (simp add: all_ok2_def)

lemma all_ok_bind: "all_ok sz a b r \<Longrightarrow> (\<And>w. wifi_ok sz a b w \<Longrightarrow> all_ok sz a' b' (f w)) \<Longrightarrow> all_ok sz a' b' (Option.bind r f)"
  by (auto simp: all_ok_def)

lemma all_ok_bind2: "all_ok2 sz a b r \<Longrightarrow> (\<And>x w. wifi_ok sz a b w \<Longrightarrow> all_ok sz a' b' (f (x, w))) \<Longrightarrow> all_ok sz a' b' (Option.bind r f)"
  by (auto simp: all_ok_def all_ok2_def)

lemma all_ok2_bind: "all_ok sz a b r \<Longrightarrow> (\<And>w. wifi_ok sz a b w \<Longrightarrow> all_ok2 sz a' b' (f w)) \<Longrightarrow> all_ok2 sz a' b' (Option.bind r f)"
  by (auto simp: all_ok_def all_ok2_def)

lemma all_ok2_bind2: "all_ok2 sz a b r \<Longrightarrow> (\<And>x w. wifi_ok sz a b w \<Longrightarrow> all_ok2 sz a' b' (f (x, w))) \<Longrightarrow> all_ok2 sz a' b' (Option.bind r f)"
  by (auto simp: all_ok2_def)

lemma wifi_ok_weaken: "wifi_ok sz a b w \<Longrightarrow> (a' \<Longrightarrow> a) \<Longrightarrow> b' \<subseteq> b \<Longrightarrow> wifi_ok sz a' b' w"
  by (auto simp: wifi_ok_def)

text \<open>Steps on variables of no concern.\<close>

lemma wifi_ok_frame [simp]:
  "wifi_ok sz a b (w\<lparr>wifi_tick_counter := t\<rparr>) = wifi_ok sz a b w"
  "wifi_ok sz a b (w\<lparr>wifi_sequence_timeout_timer := p\<rparr>) = wifi_ok sz a b w"
  "wifi_ok sz a b (w\<lparr>wifi_communication_module_data := d\<rparr>) = wifi_ok sz a b w"
  "wifi_ok sz a b (w\<lparr>wifi_platform_code := c\<rparr>) = wifi_ok sz a b w"
  "wifi_ok sz a b (w\<lparr>wifi_responses := rs\<rparr>) = wifi_ok sz a b w"
  "wifi_ok sz a b (w\<lparr>wifi_driver := h\<rparr>) = wifi_ok sz a b w"
  "wifi_ok sz a b (w\<lparr>wifi_received_data_size := n\<rparr>) = wifi_ok sz a b w"
  by (simp_all add: wifi_ok_def)

lemma wifi_ok_small [simp]:
  "wifi_ok sz a b (schedule_wifi_sequence_timeout p w) = wifi_ok sz a b w"
  "wifi_ok sz a b (wifi_stopwatch_start w) = wifi_ok sz a b w"
  "wifi_ok sz a b (change_wifi_data f w) = wifi_ok sz a b w"
  "wifi_ok sz a b (send_wifi_response s w) = wifi_ok sz a b w"
  "wifi_ok sz a b (set_wifi_communication_module_error er st w) = wifi_ok sz a b w"
  "wifi_ok sz a b (record_wifi_time g w) = wifi_ok sz a b w"
  by (simp_all add: schedule_wifi_sequence_timeout_def wifi_stopwatch_start_def change_wifi_data_def send_wifi_response_def
      set_wifi_communication_module_error_def record_wifi_time_def)

lemma wifi_ok_leaving [simp]: "wifi_ok sz a b (leave_leaf_only l w) = wifi_ok sz a b w" "wifi_ok sz a b (leave_wifi l w) = wifi_ok sz a b w"
  by (simp_all add: leave_wifi_def leave_leaf_only_def Let_def)

section \<open>Steps\<close>

lemma add_ok: "wifi_ok sz a b w \<Longrightarrow> e < 20 \<Longrightarrow> all_ok sz a b (add_wifi_communication_module_event_type e w)"
proof -
  assume w: "wifi_ok sz a b w" and e: "e < 20"
  then have "\<forall>x \<in> set (wifi_waiting w @ [e]). x < 20" by (simp add: wifi_ok_def)
  from all_kept [OF this, of 10] w show ?thesis
    by (simp add: wifi_ok_def add_wifi_communication_module_event_type_def)
qed

lemma clear_ok: "wifi_ok sz a b w \<Longrightarrow> all_ok sz a b (clear_wifi_events w)"
  by (simp add: wifi_ok_def clear_wifi_events_def)

lemma wifi_events_below_20 [simp]:
  "EVENT_WIFI_DISCONNECT < 20" "EVENT_WIFI_CONNECT < 20" "EVENT_WIFI_DISCONNECT_SOCKET_CLOSED < 20" "EVENT_WIFI_SEND < 20"
  "EVENT_WIFI_SEND_TO < 20" "EVENT_WIFI_RECEIVE < 20" "EVENT_WIFI_RECEIVE_FROM < 20" "EVENT_WIFI_STOP < 20"
  "EVENT_WIFI_STOP_SOCKET_CLOSED < 20" "EVENT_WIFI_CONNECTING < 20" "EVENT_WIFI_CONNECTED < 20"
  "EVENT_WIFI_ACQUIRING_IP_ADDRESS < 20" "EVENT_WIFI_IP_ADDRESS_ACQUIRED < 20" "EVENT_WIFI_DISCONNECTING < 20"
  "EVENT_WIFI_DISCONNECTED < 20" "EVENT_WIFI_SEQUENCE_TIMEOUT < 20" "EVENT_WIFI_ERROR < 20" "EVENT_WIFI_CLOSE_SOCKET < 20"
  "EVENT_WIFI_COMMUNICATION_MODULE_PROCESS < 20" "EVENT_WIFI_COMMUNICATION_MODULE_DONE < 20"
  by (simp_all add: wifi_event_defs)

lemma repost_ok: "wifi_ok sz a b w \<Longrightarrow> all_ok sz a b (repost n w)"
proof (induction n arbitrary: w)
  case (Suc n)
  then have "event_fifo (wifi_events w)" by (simp add: wifi_ok_def)
  then show ?case
  proof (cases rule: dequeue_fifo)
    case empty
    then have "wifi_ok sz a b (w\<lparr>wifi_events := dequeued (wifi_events w)\<rparr>)" using Suc.prems by (simp add: wifi_ok_def)
    with empty Suc.IH show ?thesis by simp
  next
    case (first ev es)
    let ?w = "w\<lparr>wifi_events := dequeued (wifi_events w)\<rparr>"
    from first Suc.prems have ok: "wifi_ok sz a b ?w" and e: "event_type ev < 20" by (simp_all add: wifi_ok_def)
    have "all_ok sz a b (Option.bind (add_wifi_communication_module_event_type (event_type ev) ?w) (repost n))"
      by (rule all_ok_bind [OF add_ok [OF ok e]]) (rule Suc.IH)
    with first Suc.IH [OF ok] show ?thesis by (simp add: Let_def)
  qed
qed simp

lemma failed_ok:
  "wifi_ok sz a b w \<Longrightarrow> all_ok sz a b (wifi_failed er st w)" "wifi_ok sz a b w \<Longrightarrow> all_ok sz a b (wifi_failed_keeping er st w)"
  by (simp_all add: wifi_failed_def wifi_failed_keeping_def clear_ok repost_ok remove_send_and_receive_events_def)


section \<open>Signals\<close>

lemma wifi_hears_ok:
  assumes "wifi_ok sz a b w"
  shows "all_ok sz a b (wifi_hears s w)"
  using assms by (cases s) (simp_all add: wifi_hears_def wifi_second_expired_def Let_def add_ok)

lemma tcp_hears_ok:
  assumes "wifi_ok sz a b w"
  shows "all_ok sz a b (tcp_hears D s w)"
proof -
  let ?m = "change_world (\<lambda>t. t\<lparr>clock := wifi_clock w\<rparr>) (tcp_module w)"
  have "socket_sound ?m" by (rule sound_change) (use assms in \<open>simp_all add: wifi_ok_def\<close>)
  moreover have "buffer_room ?m = length (wifi_packet_buffer w)" using assms by (simp add: wifi_ok_def change_world_def)
  ultimately obtain m where "lift_world (hear (wifi_tcp D) s) ?m = Some m" "socket_sound m" "buffer_room m = length (wifi_packet_buffer w)"
    using sound_hears [of ?m "wifi_tcp D" s] by (auto simp: part_ok_def)
  with assms show ?thesis by (simp add: tcp_hears_def wifi_ok_def)
qed

lemma udp_hears_ok:
  assumes "wifi_ok sz a b w"
  shows "all_ok sz a b (udp_hears D s w)"
proof -
  let ?m = "change_world (\<lambda>t. t\<lparr>clock := wifi_clock w\<rparr>) (udp_module w)"
  have "socket_sound ?m" by (rule sound_change) (use assms in \<open>simp_all add: wifi_ok_def\<close>)
  moreover have "buffer_room ?m = length (wifi_packet_buffer w)" using assms by (simp add: wifi_ok_def change_world_def)
  ultimately obtain m where "lift_world (hear (wifi_udp D) s) ?m = Some m" "socket_sound m" "buffer_room m = length (wifi_packet_buffer w)"
    using sound_hears [of ?m "wifi_udp D" s] by (auto simp: part_ok_def)
  with assms show ?thesis by (simp add: udp_hears_def wifi_ok_def)
qed

lemma wifi_hear_all_ok: "wifi_ok sz a b w \<Longrightarrow> all_ok sz a b (wifi_hear_all D c ss w)"
proof (induction ss arbitrary: w)
  case (Cons s ss)
  show ?case
    unfolding wifi_hear_all.simps
  proof (intro all_ok_bind)
    show "all_ok sz a b (wifi_hears s w)" by (rule wifi_hears_ok [OF Cons.prems])
    show "all_ok sz a b (if c = Some TCP_PROCESS then Some w else tcp_hears D s w)" if "wifi_ok sz a b w" for w
      by (simp add: that tcp_hears_ok)
    show "all_ok sz a b (if c = Some UDP_PROCESS then Some w else udp_hears D s w)" if "wifi_ok sz a b w" for w
      by (simp add: that udp_hears_ok)
    show "all_ok sz a b (wifi_hear_all D c ss w)" if "wifi_ok sz a b w" for w by (rule Cons.IH [OF that])
  qed
qed simp

lemma wifi_call_ok: "wifi_ok sz a b w \<Longrightarrow> all_ok2 sz a b (wifi_call D f w)"
  using wifi_hear_all_ok [of sz a b "w\<lparr>wifi_driver := snd (snd (f (wifi_driver w)))\<rparr>" D None "fst (snd (f (wifi_driver w)))"]
  by (auto simp: wifi_call_def split_def Let_def all_ok_def all_ok2_def)

section \<open>Calls of the socket modules\<close>

lemma lend_sound:
  assumes "wifi_ok sz a b w"
  shows "socket_sound (lend_tcp w)" "buffer_room (lend_tcp w) = length (wifi_packet_buffer w)"
    "socket_sound (lend_udp w)" "buffer_room (lend_udp w) = length (wifi_packet_buffer w)"
proof -
  show "socket_sound (lend_tcp w)" "socket_sound (lend_udp w)"
    unfolding lend_tcp_def lend_udp_def by (rule sound_change; use assms in \<open>simp add: wifi_ok_def\<close>)+
  show "buffer_room (lend_tcp w) = length (wifi_packet_buffer w)" "buffer_room (lend_udp w) = length (wifi_packet_buffer w)"
    by (simp_all add: lend_tcp_def lend_udp_def change_world_def)
qed

lemma return_ok:
  "wifi_ok sz a b w \<Longrightarrow> socket_sound m \<Longrightarrow> buffer_room m = length (wifi_packet_buffer w) \<Longrightarrow> all_ok sz a b (return_tcp D m w)"
  "wifi_ok sz a b w \<Longrightarrow> socket_sound u \<Longrightarrow> buffer_room u = length (wifi_packet_buffer w) \<Longrightarrow> all_ok sz a b (return_udp D u w)"
  unfolding return_tcp_def return_udp_def Let_def by (rule wifi_hear_all_ok; simp add: wifi_ok_def)+

lemma with_tcp_ok:
  assumes "wifi_ok sz a b w" "part_ok (length (wifi_packet_buffer w)) (f (lend_tcp w))"
  shows "all_ok sz a b (with_tcp D f w)"
  using assms return_ok(1) [OF assms(1)] by (auto simp: with_tcp_def part_ok_def)

lemma with_udp_ok:
  assumes "wifi_ok sz a b w" "part_ok (length (wifi_packet_buffer w)) (f (lend_udp w))"
  shows "all_ok sz a b (with_udp D f w)"
  using assms return_ok(2) [OF assms(1)] by (auto simp: with_udp_def part_ok_def)

lemma operations_ok:
  assumes "wifi_ok sz a b w"
  shows "all_ok sz a b (with_tcp D (tcp_communication_module_send (wifi_data_size w)) w)"
    "all_ok sz a b (with_tcp D (tcp_communication_module_receive (wifi_buffer_size w)) w)"
    "all_ok sz a b (with_tcp D tcp_communication_module_close_socket w)"
    "all_ok sz a b (with_udp D (udp_communication_module_send (wifi_data_size w)) w)"
    "all_ok sz a b (with_udp D (udp_communication_module_receive (wifi_buffer_size w)) w)"
    "all_ok sz a b (with_udp D udp_communication_module_close_socket w)"
proof -
  note lend = lend_sound [OF assms]
  have size: "unat (wifi_data_size w) \<le> length (wifi_packet_buffer w)" "unat (wifi_buffer_size w) \<le> length (wifi_packet_buffer w)"
    using assms by (simp_all add: wifi_ok_def)
  note tcp = sound_operates [OF lend(1), unfolded lend(2)] and udp = sound_operates [OF lend(3), unfolded lend(4)]
  show "all_ok sz a b (with_tcp D (tcp_communication_module_send (wifi_data_size w)) w)"
    "all_ok sz a b (with_tcp D (tcp_communication_module_receive (wifi_buffer_size w)) w)"
    "all_ok sz a b (with_tcp D tcp_communication_module_close_socket w)"
    unfolding tcp_communication_module_send_def tcp_communication_module_receive_def tcp_communication_module_close_socket_def
    by (rule with_tcp_ok [OF assms]; rule tcp; rule size)+
  show "all_ok sz a b (with_udp D (udp_communication_module_send (wifi_data_size w)) w)"
    "all_ok sz a b (with_udp D (udp_communication_module_receive (wifi_buffer_size w)) w)"
    "all_ok sz a b (with_udp D udp_communication_module_close_socket w)"
    unfolding udp_communication_module_send_def udp_communication_module_receive_def udp_communication_module_close_socket_def
    by (rule with_udp_ok [OF assms]; rule udp; rule size)+
qed

definition wifi_driver_fits :: "'h wifi_dependencies \<Rightarrow> bool" where
  "wifi_driver_fits D \<longleftrightarrow> driver_fits (wifi_tcp D) \<and> driver_fits (wifi_udp D)"

lemma run_handle_ok:
  assumes "wifi_ok sz a b w" "wifi_driver_fits D" "p \<noteq> None"
  shows "all_ok2 sz a b (run_handle D p w)"
proof -
  note lend = lend_sound [OF assms(1)]
  from assms(3) consider "p = Some TCP_PROCESS" | "p = Some UDP_PROCESS" by (metis option.exhaust process_handle.exhaust)
  then show ?thesis
  proof cases
    case 1
    obtain r m where "socket_process_event (wifi_tcp D) (lend_tcp w) = Some (r, m)" "socket_sound m" "buffer_room m = buffer_room (lend_tcp w)"
      using lend(1) assms(2) by (auto simp: wifi_driver_fits_def elim: sound_processes)
    with 1 lend(2) return_ok(1) [OF assms(1), of m D] show ?thesis
      by (auto simp: run_handle_def tcp_process_event_def all_ok_def)
  next
    case 2
    obtain r m where "socket_process_event (wifi_udp D) (lend_udp w) = Some (r, m)" "socket_sound m" "buffer_room m = buffer_room (lend_udp w)"
      using lend(3) assms(2) by (auto simp: wifi_driver_fits_def elim: sound_processes)
    with 2 lend(4) return_ok(2) [OF assms(1), of m D] show ?thesis
      by (auto simp: run_handle_def udp_process_event_def all_ok_def)
  qed
qed


section \<open>The rows of the table\<close>

definition closing_handles :: "nat \<Rightarrow> process_handle set \<Rightarrow> process_handle set" where
  "closing_handles l b = (if l = STATE_WIFI_CLOSING_SOCKET \<or> l = STATE_WIFI_RESET then UNIV else b)"

definition leaf_ok :: "nat \<Rightarrow> bool \<Rightarrow> process_handle set \<Rightarrow> 'h wifi_leaf_step \<Rightarrow> bool" where
  "leaf_ok sz a b r \<longleftrightarrow> (\<exists>w l. r = Some (w, l) \<and>
     wifi_ok sz a (closing_handles l b) w)"

lemma leaf_ok_Some [simp]:
  "leaf_ok sz a b (Some (w, l)) = wifi_ok sz a (closing_handles l b) w"
  by (simp add: leaf_ok_def)

lemma leaf_ok_rests:
  "all_ok sz a (closing_handles l b) r \<Longrightarrow> leaf_ok sz a b (rests l r)"
  by (auto simp: leaf_ok_def rests_def all_ok_def)

lemma leaf_ok_bind: "all_ok sz a b r \<Longrightarrow> (\<And>w. wifi_ok sz a b w \<Longrightarrow> leaf_ok sz a b (f w)) \<Longrightarrow> leaf_ok sz a b (Option.bind r f)"
  by (auto simp: all_ok_def)

lemma leaf_ok_bind2: "all_ok2 sz a b r \<Longrightarrow> (\<And>x w. wifi_ok sz a b w \<Longrightarrow> leaf_ok sz a b (f (x, w))) \<Longrightarrow> leaf_ok sz a b (Option.bind r f)"
  by (auto simp: all_ok2_def)

lemma module_called_ok: "wifi_ok sz a b w \<Longrightarrow> all_ok sz a b (module_called p w)"
  by (simp add: module_called_def add_ok)

lemma process_closing_ok:
  assumes "wifi_ok sz a UNIV w" "wifi_driver_fits D"
  shows "all_ok sz a UNIV (process_closing D w)"
proof -
  from assms(1) have "tcp_process_handle w \<noteq> None" by (simp add: wifi_ok_def)
  note first = run_handle_ok [OF assms this]
  have "all_ok2 sz a UNIV (if p then Some (True, v) else run_handle D (udp_process_handle v) v)" if "wifi_ok sz a UNIV v" for p v
  proof (cases p)
    case False
    from that have "udp_process_handle v \<noteq> None" by (simp add: wifi_ok_def)
    with False run_handle_ok [OF that assms(2)] show ?thesis by simp
  qed (use that in simp)
  note second = this
  show ?thesis
    unfolding process_closing_def
    by (rule all_ok_bind2 [OF first], unfold prod.case, rule all_ok_bind2 [OF second]) (simp_all add: module_called_ok)
qed

lemma root_processes_ok:
  assumes "wifi_ok sz True b w" "wifi_driver_fits D"
  shows "all_ok sz True b (root_processes D w)"
proof -
  from assms(1) have "communication_module_process_handle w \<noteq> None" by (simp add: wifi_ok_def)
  note first = run_handle_ok [OF assms this]
  show ?thesis unfolding root_processes_def by (rule all_ok_bind2 [OF first]) (simp add: module_called_ok)
qed

lemma handles_set:
  "wifi_ok sz a b w \<Longrightarrow> wifi_ok sz a b (w\<lparr>communication_module_process_handle := Some p\<rparr>)"
  "wifi_ok sz a b w \<Longrightarrow> wifi_ok sz a {TCP_PROCESS} (w\<lparr>tcp_process_handle := Some p\<rparr>)"
  "wifi_ok sz a {TCP_PROCESS} w \<Longrightarrow> wifi_ok sz a UNIV (w\<lparr>udp_process_handle := Some p\<rparr>)"
  by (simp_all add: wifi_ok_def)

lemma close_both_ok:
  assumes "wifi_ok sz a b w"
  shows "all_ok sz a UNIV (close_both_sockets D w)"
  unfolding close_both_sockets_def Let_def
  by (rule all_ok_bind [OF operations_ok(3) [OF assms]], drule handles_set(2), rule all_ok_bind [OF operations_ok(6)], assumption,
      drule handles_set(3), erule add_ok) simp

lemma resets_ok: "wifi_ok sz a b w \<Longrightarrow> leaf_ok sz a b (resets D w)"
  unfolding resets_def by (rule leaf_ok_rests) (simp add: closing_handles_def close_both_ok)

lemma reset_after_ok: "all_ok sz a b r \<Longrightarrow> leaf_ok sz a b (reset_after D l r)"
  unfolding reset_after_def by (rule leaf_ok_bind) (simp_all add: resets_ok)

lemma rest_ok: "l \<noteq> STATE_WIFI_CLOSING_SOCKET \<Longrightarrow> l \<noteq> STATE_WIFI_RESET \<Longrightarrow> all_ok sz a b r \<Longrightarrow> leaf_ok sz a b (rests l r)"
  by (rule leaf_ok_rests) (simp add: closing_handles_def)

lemma start_exchange_ok:
  assumes "wifi_ok sz a b w"
  shows "all_ok sz a b (start_exchange D t w)"
proof -
  have w: "wifi_ok sz a b (wifi_stopwatch_start w)" using assms by simp
  note ops = operations_ok [OF w, of D]
  have "all_ok sz a b (with_tcp D (if t = STATE_WIFI_SEND then tcp_communication_module_send (wifi_data_size (wifi_stopwatch_start w))
      else tcp_communication_module_receive (wifi_buffer_size (wifi_stopwatch_start w))) (wifi_stopwatch_start w))"
    "all_ok sz a b (with_udp D (if t = STATE_WIFI_SEND_TO then udp_communication_module_send (wifi_data_size (wifi_stopwatch_start w))
      else udp_communication_module_receive (wifi_buffer_size (wifi_stopwatch_start w))) (wifi_stopwatch_start w))"
    using ops by simp_all
  note first = this
  show ?thesis
  proof (cases "t = STATE_WIFI_SEND \<or> t = STATE_WIFI_RECEIVE")
    case True
    show ?thesis
      unfolding start_exchange_def Let_def if_P [OF True]
      by (rule all_ok_bind [OF first(1)]) (simp add: add_ok handles_set)
  next
    case False
    show ?thesis
      unfolding start_exchange_def Let_def if_not_P [OF False]
      by (rule all_ok_bind [OF first(2)]) (simp add: add_ok handles_set)
  qed
qed

lemma starting_ok:
  assumes "wifi_ok sz a b w"
  shows "leaf_ok sz a b (start_connecting D w)" "leaf_ok sz a b (start_disconnecting D w)" "leaf_ok sz a b (starts D w)"
    "leaf_ok sz a b (stops D w)" "leaf_ok sz a b (starts_acquiring w)" "leaf_ok sz a b (reset_done D w)" "leaf_ok sz a b (address_acquired D w)"
proof -
  note after = reset_after_ok [unfolded reset_after_def, OF failed_ok(1)] reset_after_ok [unfolded reset_after_def, OF failed_ok(2)]
  show "leaf_ok sz a b (start_connecting D w)"
    unfolding start_connecting_def Let_def
    by (rule leaf_ok_bind2 [OF wifi_call_ok]) (simp_all add: assms rest_ok add_ok after)
  show "leaf_ok sz a b (start_disconnecting D w)"
    unfolding start_disconnecting_def Let_def
    by (rule leaf_ok_bind2 [OF wifi_call_ok]) (simp_all add: assms rest_ok add_ok after)
  show "leaf_ok sz a b (starts D w)"
    unfolding starts_def
    by (rule leaf_ok_bind2 [OF wifi_call_ok]) (simp_all add: assms rest_ok failed_ok closing_handles_def)
  show "leaf_ok sz a b (stops D w)"
    unfolding stops_def
    by (rule leaf_ok_bind2 [OF wifi_call_ok]) (simp_all add: assms closing_handles_def)
  show "leaf_ok sz a b (starts_acquiring w)"
    unfolding starts_acquiring_def by (rule rest_ok) (simp_all add: assms add_ok)
  show "leaf_ok sz a b (reset_done D w)"
    unfolding reset_done_def
    by (rule leaf_ok_bind2 [OF wifi_call_ok]) (simp_all add: assms closing_handles_def)
  have "all_ok2 sz a b (if wifi_is_static_ip_set (wifi_config w) then verify_static_ip D w else Some (True, w))"
  proof (cases "wifi_is_static_ip_set (wifi_config w)")
    case True
    have "all_ok2 sz a b (verify_static_ip D w)"
      unfolding verify_static_ip_def by (rule all_ok2_bind2 [OF wifi_call_ok [OF assms]]) simp
    with True show ?thesis by simp
  qed (use assms in simp)
  then show "leaf_ok sz a b (address_acquired D w)"
    unfolding address_acquired_def Let_def
    by (rule leaf_ok_bind2) (simp_all add: closing_handles_def reset_after_ok failed_ok)
qed


lemma exchange_ended_ok:
  assumes "wifi_ok sz a b w"
  shows "leaf_ok sz a b (exchange_ended D l w)" "leaf_ok sz a b (closing_ended D w)"
  using assms
  by (simp_all add: exchange_ended_def closing_ended_def Let_def reset_after_ok failed_ok closing_handles_def)

lemma enter_ok:
  assumes "wifi_ok sz a b w" "l \<in> wifi_connected_leaves"
  shows "leaf_ok sz a b (enter_wifi D l w)"
  using assms(2)
  by (elim insertE emptyE)
     (simp_all add: enter_wifi_def rest_ok start_exchange_ok leaf_ok_rests closing_handles_def close_both_ok [OF assms(1)] assms(1))

lemma connected_row_ok:
  assumes "wifi_ok sz a b w" "e < 20" "l \<noteq> STATE_WIFI_CLOSING_SOCKET" "l \<noteq> STATE_WIFI_RESET"
  shows "leaf_ok sz a b (connected_row D l e w)"
proof -
  have posting: "leaf_ok sz a b (do { w \<leftarrow> add_wifi_communication_module_event_type EVENT_WIFI_DISCONNECT_SOCKET_CLOSED w;
      start_disconnecting D (leave_wifi l w) })"
    "leaf_ok sz a b (do { w \<leftarrow> add_wifi_communication_module_event_type EVENT_WIFI_STOP_SOCKET_CLOSED w;
      enter_wifi D STATE_WIFI_CLOSING_SOCKET (leave_wifi l w) })"
    "leaf_ok sz a b (do { w \<leftarrow> add_wifi_communication_module_event_type EVENT_WIFI_STOP w; start_disconnecting D (leave_wifi l w) })"
    by (rule leaf_ok_bind [OF add_ok [OF assms(1)]]; simp add: starting_ok enter_ok)+
  have "wifi_request_state e \<in> wifi_connected_leaves" by (simp add: wifi_request_state_def)
  then have request: "leaf_ok sz a b (enter_wifi D (wifi_request_state e) (leave_wifi l w))" using assms(1) by (simp add: enter_ok)
  show ?thesis
    unfolding connected_row_def
    by (simp add: request posting starting_ok enter_ok reset_after_ok failed_ok assms closing_handles_def)
qed

lemma connecting_row_ok:
  assumes "wifi_ok sz a b w" "e < 20" "l \<in> wifi_connecting_leaves"
  shows "leaf_ok sz a b (connecting_row D l e w)"
proof -
  from assms(3) have "l \<noteq> STATE_WIFI_CLOSING_SOCKET" "l \<noteq> STATE_WIFI_RESET" by auto
  with assms(1,2) show ?thesis
    unfolding connecting_row_def
    by (simp add: posts_def rest_ok add_ok starting_ok reset_after_ok failed_ok closing_handles_def)
qed

lemma other_rows_ok:
  assumes "wifi_ok sz a b w" "e < 20"
  shows "leaf_ok sz a b (stopped_row D e w)" "leaf_ok sz a b (disconnected_row D e w)" "leaf_ok sz a b (disconnecting_row D e w)"
proof -
  have "leaf_ok sz a b (do { w \<leftarrow> add_wifi_communication_module_event_type e w; starts D w })"
    "leaf_ok sz a b (do { w \<leftarrow> add_wifi_communication_module_event_type e w; start_connecting D w })" if "e < 20" for e
    by (rule leaf_ok_bind [OF add_ok [OF assms(1) that]]; simp add: starting_ok)+
  with assms show "leaf_ok sz a b (stopped_row D e w)" "leaf_ok sz a b (disconnected_row D e w)" "leaf_ok sz a b (disconnecting_row D e w)"
    by (simp_all add: stopped_row_def disconnected_row_def disconnecting_row_def Let_def posts_def rest_ok add_ok starting_ok
        reset_after_ok failed_ok closing_handles_def)
qed

lemma closing_rows_ok:
  assumes "wifi_ok sz a UNIV w" "e < 20" "wifi_driver_fits D"
  shows "leaf_ok sz a UNIV (closing_row D e w)" "leaf_ok sz a UNIV (reset_row D e w)"
  using assms
  by (simp_all add: closing_row_def reset_row_def Let_def posts_def leaf_ok_rests add_ok starting_ok closing_handles_def
      process_closing_ok exchange_ended_ok reset_after_ok failed_ok)

text \<open>
  An event that is processed where the machine rests: a call of the last exchange needs its handle.
\<close>

lemma leaf_ok_weaken: "leaf_ok sz a b r \<Longrightarrow> leaf_ok sz a {} r"
proof -
  assume "leaf_ok sz a b r"
  then obtain w l where r: "r = Some (w, l)" "wifi_ok sz a (closing_handles l b) w" by (auto simp: leaf_ok_def)
  have "closing_handles l {} \<subseteq> closing_handles l b" by (simp add: closing_handles_def)
  with r show "leaf_ok sz a {} r" by (simp add: wifi_ok_weaken)
qed

lemma at_wifi_leaf:
  assumes "at_wifi l w m"
  shows "l \<in> {STATE_WIFI_STOPPED, STATE_WIFI_DISCONNECTED, STATE_WIFI_DISCONNECTING, STATE_WIFI_RESET, STATE_WIFI_CONNECTING_TO_AP,
    STATE_WIFI_ACQUIRING_IP_ADDRESS, STATE_WIFI_CONNECTED, STATE_WIFI_CLOSING_SOCKET} \<union> wifi_exchange_leaves"
proof -
  from assms obtain r s c k where p: "proper_tree s c k" and "l = STATE_WIFI_STOPPED \<or> l = leaf_below s c k"
    by (auto simp: at_wifi_def wifi_shape_def)
  then consider "l = STATE_WIFI_STOPPED" | "s \<in> wifi_plain_leaves" "l = s" | "l = c" | "l = STATE_WIFI_CONNECTED" | "k = Some l"
    unfolding leaf_below_def proper_tree_def by (auto split: if_splits option.splits)
  then show ?thesis using p unfolding proper_tree_def by cases (auto simp: option.sel)
qed

lemma wifi_event_ok:
  assumes "wifi_ok sz a (closing_handles l {}) w" "e < 20" "wifi_driver_fits D" "at_wifi l v m"
    and "e = EVENT_WIFI_COMMUNICATION_MODULE_PROCESS \<Longrightarrow> a \<or> l = STATE_WIFI_CLOSING_SOCKET \<or> l = STATE_WIFI_RESET"
  shows "leaf_ok sz a {} (wifi_event D e (w, l))"
proof (cases "l = STATE_WIFI_CLOSING_SOCKET \<or> l = STATE_WIFI_RESET")
  case True
  then have "wifi_ok sz a UNIV w" using assms(1) by (simp add: closing_handles_def)
  note rows = closing_rows_ok [OF this assms(2,3), THEN leaf_ok_weaken]
  from True rows show ?thesis by (auto simp: wifi_event_def)
next
  case False
  then have ok: "wifi_ok sz a {} w" using assms(1) by (simp add: closing_handles_def)
  note rows = other_rows_ok [OF ok assms(2)] connected_row_ok [OF ok assms(2)] connecting_row_ok [OF ok assms(2)]
  show ?thesis
  proof (cases "e = EVENT_WIFI_COMMUNICATION_MODULE_PROCESS")
    case True
    with assms(5) False have a by simp
    with ok have "wifi_ok sz True {} w" by simp
    from root_processes_ok [OF this assms(3)] \<open>a\<close> True False show ?thesis by (simp add: wifi_event_def rest_ok)
  next
    case other: False
    have exchange: "leaf_ok sz a {} (exchanging_row D l e w)"
      using False by (simp add: exchanging_row_def exchange_ended_ok ok reset_after_ok failed_ok rows)
    from False other rows exchange show ?thesis by (simp add: wifi_event_def)
  qed
qed


section \<open>One call\<close>

lemma at_wifi_world:
  assumes "at_wifi l w m"
  shows "world m = w" "at_wifi l w' (m\<lparr>world := w'\<rparr>)"
proof -
  from assms obtain r s c k where m: "m = wifi_tree r s c k w" "wifi_shape r s c k l" by (auto simp: at_wifi_def)
  then show "world m = w" by simp
  from m have "m\<lparr>world := w'\<rparr> = wifi_tree r s c k w'" by simp
  with m(2) show "at_wifi l w' (m\<lparr>world := w'\<rparr>)" unfolding at_wifi_def by blast
qed

lemma below_20: "(e :: u8) < 20 \<Longrightarrow> e \<noteq> EVENT_ENTERING_STATE \<and> e \<noteq> EVENT_LEAVING_STATE"
  by (auto simp: EVENT_ENTERING_STATE_def EVENT_LEAVING_STATE_def)

lemma wifi_process_empty:
  assumes "event_fifo (wifi_events (world m))" "wifi_waiting (world m) = []"
  shows "wifi_communication_module_process_event D m =
    Some (False, m\<lparr>world := (world m)\<lparr>wifi_events := dequeued (wifi_events (world m))\<rparr>\<rparr>)"
    and "event_fifo (dequeued (wifi_events (world m)))" "event_types (dequeued (wifi_events (world m))) = []"
  by (cases rule: dequeue_fifo [OF assms(1)]; use assms(2) in \<open>simp add: wifi_communication_module_process_event_def Let_def\<close>)+

lemma wifi_process_first:
  assumes m: "at_wifi l w m" and queue: "event_fifo (wifi_events w)" and first: "wifi_waiting w = e # es" and e: "e < 20"
  shows "rel_option (\<lambda>(p, m') (w', l'). p \<and> at_wifi l' w' m') (wifi_communication_module_process_event D m)
      (wifi_event D e (w\<lparr>wifi_events := dequeued (wifi_events w)\<rparr>, l))"
    and "event_fifo (dequeued (wifi_events w))" "event_types (dequeued (wifi_events w)) = es"
proof -
  note world = at_wifi_world [OF m]
  from queue first obtain ev where ev: "event_type ev = e" "pop_event (wifi_events w) = Some (True, Some ev, dequeued (wifi_events w))"
    and deq: "event_fifo (dequeued (wifi_events w))" "event_types (dequeued (wifi_events w)) = es"
    by (cases rule: dequeue_fifo [OF queue]) auto
  let ?w = "w\<lparr>wifi_events := dequeued (wifi_events w)\<rparr>"
  have "rel_option (\<lambda>(p, m') (w', l'). p \<and> at_wifi l' w' m')
      (map_option (\<lambda>r. (True, snd r)) (state_machine_process_event (wifi_handlers D (wifi_transition D)) Root e (m\<lparr>world := ?w\<rparr>)))
      (wifi_event D e (?w, l))"
    using wifi_dispatch_follows_table [OF world(2) [of ?w], of e D] below_20 [OF e]
    unfolding wifi_reaches_def option.rel_map by (auto elim: option.rel_mono_strong)
  then show "rel_option (\<lambda>(p, m') (w', l'). p \<and> at_wifi l' w' m') (wifi_communication_module_process_event D m) (wifi_event D e (?w, l))"
    by (simp add: wifi_communication_module_process_event_def world(1) ev Let_def)
  show "event_fifo (dequeued (wifi_events w))" "event_types (dequeued (wifi_events w)) = es" by (rule deq)+
qed

definition wifi_sound :: "nat \<Rightarrow> bool \<Rightarrow> 'h wifim \<Rightarrow> bool" where
  "wifi_sound sz a m \<longleftrightarrow> (\<exists>l. at_wifi l (world m) m \<and> wifi_ok sz a (closing_handles l {}) (world m))"

text \<open>Some exchange has been started, or the next call does not need it.\<close>

definition exchange_known :: "nat \<Rightarrow> 'h wifi \<Rightarrow> bool" where
  "exchange_known l w \<longleftrightarrow> communication_module_process_handle w \<noteq> None \<or> l = STATE_WIFI_CLOSING_SOCKET \<or> l = STATE_WIFI_RESET \<or>
     take 1 (wifi_waiting w) \<noteq> [EVENT_WIFI_COMMUNICATION_MODULE_PROCESS]"

lemma wifi_process_safe:
  assumes m: "at_wifi l (world m) m" "wifi_ok sz False (closing_handles l {}) (world m)" and fits: "wifi_driver_fits D"
    and known: "exchange_known l (world m)"
  obtains m' where "wifi_communication_module_process_event D m = Some (wifi_waiting (world m) \<noteq> [], m')" "wifi_sound sz False m'"
proof (cases "wifi_waiting (world m)")
  case Nil
  from m(2) have queue: "event_fifo (wifi_events (world m))" by (simp add: wifi_ok_def)
  let ?m = "m\<lparr>world := (world m)\<lparr>wifi_events := dequeued (wifi_events (world m))\<rparr>\<rparr>"
  have "wifi_ok sz False (closing_handles l {}) (world ?m)" using wifi_process_empty [OF queue Nil] m(2) by (simp add: wifi_ok_def)
  then have "wifi_sound sz False ?m" using at_wifi_world(2) [OF m(1)] by (auto simp: wifi_sound_def)
  with wifi_process_empty [OF queue Nil] Nil that [of ?m] show thesis by simp
next
  case (Cons e es)
  from m(2) Cons have queue: "event_fifo (wifi_events (world m))" and e: "e < 20" by (simp_all add: wifi_ok_def)
  note first = wifi_process_first(1) [OF m(1) queue Cons e, of D] wifi_process_first(2,3) [OF m(1) queue Cons e]
  let ?w = "(world m)\<lparr>wifi_events := dequeued (wifi_events (world m))\<rparr>"
  let ?a = "communication_module_process_handle (world m) \<noteq> None"
  have ok: "wifi_ok sz ?a (closing_handles l {}) ?w" using first(2,3) m(2) Cons by (auto simp: wifi_ok_def)
  have "e = EVENT_WIFI_COMMUNICATION_MODULE_PROCESS \<Longrightarrow> ?a \<or> l = STATE_WIFI_CLOSING_SOCKET \<or> l = STATE_WIFI_RESET"
    using known Cons by (simp add: exchange_known_def)
  from wifi_event_ok [OF ok e fits m(1) this] obtain w' l' where
    w': "wifi_event D e (?w, l) = Some (w', l')" "wifi_ok sz ?a (closing_handles l' {}) w'" by (auto simp: leaf_ok_def)
  from first(1) w'(1) obtain m' where m': "wifi_communication_module_process_event D m = Some (True, m')" "at_wifi l' w' m'"
    by (auto simp: option_rel_Some2)
  from wifi_ok_weaken [OF w'(2), of False] at_wifi_world(1) [OF m'(2)] m'(2) have "wifi_sound sz False m'"
    by (auto simp: wifi_sound_def)
  with m' Cons that [of m'] show thesis by simp
qed

text \<open>Without the handle the call through the null pointer is the end.\<close>

lemma wifi_process_lost:
  assumes m: "at_wifi l (world m) m" "wifi_ok sz False (closing_handles l {}) (world m)" and lost: "\<not> exchange_known l (world m)"
  shows "wifi_communication_module_process_event D m = None"
proof -
  from lost obtain es where es: "wifi_waiting (world m) = EVENT_WIFI_COMMUNICATION_MODULE_PROCESS # es"
    by (cases "wifi_waiting (world m)") (auto simp: exchange_known_def)
  from m(2) have "event_fifo (wifi_events (world m))" by (simp add: wifi_ok_def)
  from wifi_process_first(1) [OF m(1) this es, of D] lost show ?thesis
    by (simp add: exchange_known_def wifi_event_def root_processes_def run_handle_def rests_def)
qed


section \<open>Life\<close>

text \<open>The variables of a socket machine before its initialisation.\<close>

definition part_at_start :: "nat \<Rightarrow> ('v, 'h) socketm \<Rightarrow> bool" where
  "part_at_start n m \<longleftrightarrow> length (state_current m) = 6 \<and> length (state_parent m) = 6 \<and>
     length (cb_storage (socket_events (world m))) = 10 \<and> data_size (world m) = 0 \<and> buffer_size (world m) = 0 \<and>
     timeout_timer (world m) = 0 \<and> buffer_room m = n"

inductive wifi_reachable :: "'p platform_ops \<Rightarrow> 'h wifi_dependencies \<Rightarrow> 'h wifim \<Rightarrow> bool" for ops D where
  start: "length (state_current m) = 16 \<Longrightarrow> length (state_parent m) = 16 \<Longrightarrow>
    length (cb_storage (wifi_events (world m))) = 10 \<Longrightarrow> 0 < unat esize \<Longrightarrow> unat esize < 6553 \<Longrightarrow>
    wifi_data_size (world m) = 0 \<Longrightarrow> wifi_buffer_size (world m) = 0 \<Longrightarrow>
    part_at_start (length (wifi_packet_buffer (world m))) (tcp_module (world m)) \<Longrightarrow>
    part_at_start (length (wifi_packet_buffer (world m))) (udp_module (world m)) \<Longrightarrow>
    init_wifi_communication_module ops D esize (a, m) = Some (a', m') \<Longrightarrow> wifi_reachable ops D m'"
| request: "wifi_reachable ops D m \<Longrightarrow> f \<in> {wifi_communication_module_connect, wifi_communication_module_close_socket,
      wifi_communication_module_disconnect, wifi_communication_module_stop} \<Longrightarrow>
    lift_world f m = Some m' \<Longrightarrow> wifi_reachable ops D m'"
| exchange: "wifi_reachable ops D m \<Longrightarrow> unat n \<le> length (wifi_packet_buffer (world m)) \<Longrightarrow>
    f \<in> {wifi_communication_module_send, wifi_communication_module_send_to, wifi_communication_module_receive,
      wifi_communication_module_receive_from} \<Longrightarrow>
    lift_world (f n) m = Some m' \<Longrightarrow> wifi_reachable ops D m'"
| process: "wifi_reachable ops D m \<Longrightarrow> wifi_communication_module_process_event D m = Some (p, m') \<Longrightarrow> wifi_reachable ops D m'"
| signal: "wifi_reachable ops D m \<Longrightarrow> lift_world (wifi_hear_all D None [s]) m = Some m' \<Longrightarrow> wifi_reachable ops D m'"
| outside: "wifi_reachable ops D m \<Longrightarrow> length buf = length (wifi_packet_buffer (world m)) \<Longrightarrow>
    wifi_reachable ops D (change_world (\<lambda>w. w\<lparr>wifi_packet_buffer := buf, wifi_received_data_size := n, wifi_config := c,
      wifi_clock := t, wifi_responses := rs, wifi_driver := h\<rparr>) m)"


lemma part_starts:
  assumes "part_at_start n m" "0 < unat esize" "unat esize < 6553"
  shows "part_ok n (init_socket_module T enter esize (change_world (\<lambda>w. w\<lparr>parameters := v\<rparr>) m))"
proof -
  let ?m = "change_world (\<lambda>w. w\<lparr>parameters := v\<rparr>) m"
  have "length (state_current ?m) = 6" "length (state_parent ?m) = 6" "length (cb_storage (socket_events (world ?m))) = 10"
    using assms(1) by (simp_all add: part_at_start_def change_world_def)
  from init_socket_module_ok [OF this assms(2,3), of T enter] obtain b where b: "init_socket_module T enter esize ?m =
      Some (socket_tree STATE_SOCKET_CLOSED None ((world ?m)\<lparr>socket_events := b\<rparr>))" "event_fifo b" "event_types b = []" by metis
  let ?w = "(world ?m)\<lparr>socket_events := b\<rparr>"
  have "at_socket Shut ?w (socket_tree STATE_SOCKET_CLOSED None ?w)"
    unfolding at_socket_def by (intro exI [of _ "None :: nat option"]) simp
  moreover have "socket_ok Shut ?w"
    using assms(1) b(2,3) by (simp add: part_at_start_def socket_ok_def socket_events_known_def sizes_fit_def change_world_def)
  ultimately show ?thesis using b(1) assms(1) by (auto simp: part_ok_def socket_sound_def part_at_start_def change_world_def)
qed

lemma list16:
  assumes "length xs = 16"
  obtains x0 x1 x2 x3 x4 x5 x6 x7 x8 x9 xa xb xc xd xe xf where "xs = [x0, x1, x2, x3, x4, x5, x6, x7, x8, x9, xa, xb, xc, xd, xe, xf]"
  using assms by (auto simp: eval_nat_numeral length_Suc_conv)

abbreviation "wifi_tree_at_start \<equiv> [(STATE_WIFI_STOPPED, Root, None), (STATE_WIFI_STARTING, Root, None),
  (STATE_WIFI_STARTED, Root, Some STATE_WIFI_DISCONNECTED), (STATE_WIFI_DISCONNECTED, Node STATE_WIFI_STARTED, None),
  (STATE_WIFI_CONNECTING, Node STATE_WIFI_STARTED, Some STATE_WIFI_CONNECTING_TO_AP),
  (STATE_WIFI_CONNECTING_TO_AP, Node STATE_WIFI_CONNECTING, None),
  (STATE_WIFI_ACQUIRING_IP_ADDRESS, Node STATE_WIFI_CONNECTING, None), (STATE_WIFI_CONNECTED, Node STATE_WIFI_STARTED, None),
  (STATE_WIFI_SEND, Node STATE_WIFI_CONNECTED, None), (STATE_WIFI_SEND_TO, Node STATE_WIFI_CONNECTED, None),
  (STATE_WIFI_RECEIVE, Node STATE_WIFI_CONNECTED, None), (STATE_WIFI_RECEIVE_FROM, Node STATE_WIFI_CONNECTED, None),
  (STATE_WIFI_CLOSING_SOCKET, Node STATE_WIFI_CONNECTED, None), (STATE_WIFI_DISCONNECTING, Node STATE_WIFI_STARTED, None),
  (STATE_WIFI_RESET, Node STATE_WIFI_STARTED, None), (STATE_WIFI_STOPPING, Root, None)]"

lemma init_wifi_tree:
  assumes "length (state_current m) = 16" "length (state_parent m) = 16"
  shows "init_wifi_states wifi_tree_at_start (m\<lparr>root_current := Some STATE_WIFI_STOPPED\<rparr>) =
    Some (wifi_tree STATE_WIFI_STOPPED STATE_WIFI_DISCONNECTED STATE_WIFI_CONNECTING_TO_AP None (world m))"
proof -
  from assms(1) obtain x0 x1 x2 x3 x4 x5 x6 x7 x8 x9 xa xb xc xd xe xf where
    xs: "state_current m = [x0, x1, x2, x3, x4, x5, x6, x7, x8, x9, xa, xb, xc, xd, xe, xf]" by (rule list16)
  from assms(2) obtain y0 y1 y2 y3 y4 y5 y6 y7 y8 y9 ya yb yc yd ye yf where
    ys: "state_parent m = [y0, y1, y2, y3, y4, y5, y6, y7, y8, y9, ya, yb, yc, yd, ye, yf]" by (rule list16)
  show ?thesis
    using xs ys
    by (cases m) (simp add: state_machine_init_state_def array_set_def wifi_state_defs wifi_tree_def wifi_parents_def eval_nat_numeral)
qed

lemmas wifi_loaders = load_wifi_ssid_def load_wifi_password_def load_wifi_auth_type_def load_wifi_static_ip_def
  load_wifi_static_mask_def load_wifi_static_gateway_def load_wifi_static_dns_def load_server_ip_def load_server_port_def
  load_ssl_status_def

lemma init_wifi_starts:
  assumes m: "length (state_current m) = 16" "length (state_parent m) = 16"
    and events: "length (cb_storage (wifi_events (world m))) = 10" "0 < unat esize" "unat esize < 6553"
    and sizes: "wifi_data_size (world m) = 0" "wifi_buffer_size (world m) = 0"
    and parts: "part_at_start (length (wifi_packet_buffer (world m))) (tcp_module (world m))"
      "part_at_start (length (wifi_packet_buffer (world m))) (udp_module (world m))"
  shows "\<exists>c m'. init_wifi_communication_module ops D esize (a, m) = Some (a\<lparr>app_config := c\<rparr>, m') \<and>
    at_wifi STATE_WIFI_STOPPED (world m') m' \<and> wifi_waiting (world m') = [] \<and>
    wifi_sound (length (wifi_packet_buffer (world m))) False m'"
proof -
  let ?z = "\<lparr>event_type = 0, event_timestamp = 0\<rparr>"
  have "length (cb_storage (wifi_events (world m))) = unat (10 :: u16)" "0 < unat (10 :: u16)" "unat (10 :: u16) * unat esize < 65536"
    using events by simp_all
  then obtain b where b: "circular_buffer_init ?z (wifi_events (world m)) (cb_storage (wifi_events (world m))) 10 esize True True = Some b"
    "cb_inv b" "cb_list b = []" "cb_wrap b = True" "cb_capacity b = unat (10 :: u16)" by (rule init_clears)
  let ?w = "(world m)\<lparr>wifi_events := b\<rparr>"
  have tree: "init_wifi_states wifi_tree_at_start ((change_world (\<lambda>w. w\<lparr>wifi_events := b\<rparr>) m)\<lparr>root_current := Some STATE_WIFI_STOPPED\<rparr>) =
      Some (wifi_tree STATE_WIFI_STOPPED STATE_WIFI_DISCONNECTED STATE_WIFI_CONNECTING_TO_AP None ?w)"
    using init_wifi_tree [of "change_world (\<lambda>w. w\<lparr>wifi_events := b\<rparr>) m"] m by (simp add: change_world_def)
  define a1 where "a1 = snd (load_wifi_static_dns ops (snd (load_wifi_static_gateway ops (snd (load_wifi_static_mask ops
       (snd (load_wifi_static_ip ops (snd (load_wifi_auth_type ops (snd (load_wifi_password ops
       (snd (load_wifi_ssid ops a)))))))))))))"
  define a2 where "a2 = snd (load_ssl_status ops (snd (load_server_port ops (snd (load_server_ip ops a1)))))"
  obtain t where t: "init_socket_module (wifi_tcp D) True esize (change_world (\<lambda>w. w\<lparr>parameters := app_config a2\<rparr>) (tcp_module (world m))) = Some t"
    "socket_sound t" "buffer_room t = length (wifi_packet_buffer (world m))"
    using part_starts [OF parts(1) events(2,3), of "wifi_tcp D" True "app_config a2"] by (auto simp: part_ok_def)
  let ?u = "udp_module (world m)"
  let ?addresses = "(parameters (world ?u))\<lparr>bind_address := ''0.0.0.0'' @ NUL # drop 8 (bind_address (parameters (world ?u))),
    destination_address := replicate 15 NUL\<rparr>"
  have "init_udp_communication_module (wifi_udp_dependencies D) esize ?u =
      init_socket_module (wifi_udp D) False esize (change_world (\<lambda>w. w\<lparr>parameters := ?addresses\<rparr>) ?u)"
    by (simp add: init_udp_communication_module_def change_world_def)
  then obtain u where u: "init_udp_communication_module (wifi_udp_dependencies D) esize ?u = Some u"
    "socket_sound u" "buffer_room u = length (wifi_packet_buffer (world m))"
    using part_starts [OF parts(2) events(2,3), of "wifi_udp D" False ?addresses] by (auto simp: part_ok_def)
  let ?v = "?w\<lparr>tcp_module := t, udp_module := u, wifi_config := app_config a2\<rparr>"
  let ?m = "wifi_tree STATE_WIFI_STOPPED STATE_WIFI_DISCONNECTED STATE_WIFI_CONNECTING_TO_AP None ?v"
  have "init_wifi_communication_module ops D esize (a, m) = Some (a2, ?m)"
    using b(1) tree t(1) u(1)
    by (simp add: init_wifi_communication_module_def init_tcp_communication_module_def Let_def a1_def a2_def change_world_def
        del: init_wifi_states.simps)
  moreover have "at_wifi STATE_WIFI_STOPPED ?v ?m"
    unfolding at_wifi_def by (intro exI conjI; (rule refl)?) (simp add: wifi_shape_def proper_tree_def)
  moreover have "wifi_ok (length (wifi_packet_buffer (world m))) False (closing_handles STATE_WIFI_STOPPED {}) ?v"
    using b(2-5) t(2,3) u(2,3) sizes
    by (simp add: wifi_ok_def closing_handles_def event_fifo_def event_queue_def event_types_def)
  moreover have "\<exists>c. a2 = a\<lparr>app_config := c\<rparr>"
    by (auto simp: a2_def a1_def wifi_loaders load_var_def)
  moreover have "wifi_waiting ?v = []" using b(3) by (simp add: event_types_def)
  ultimately show ?thesis by (auto simp: wifi_sound_def)
qed

lemma wifi_starts_sound:
  assumes "length (state_current m) = 16" "length (state_parent m) = 16"
    "length (cb_storage (wifi_events (world m))) = 10" "0 < unat esize" "unat esize < 6553"
    "wifi_data_size (world m) = 0" "wifi_buffer_size (world m) = 0"
    "part_at_start (length (wifi_packet_buffer (world m))) (tcp_module (world m))"
    "part_at_start (length (wifi_packet_buffer (world m))) (udp_module (world m))"
  shows "\<exists>a' m'. init_wifi_communication_module ops D esize (a, m) = Some (a', m') \<and> wifi_sound (length (wifi_packet_buffer (world m))) False m'"
  using init_wifi_starts [OF assms, of ops D a] by blast

lemma sound_after:
  assumes "at_wifi l (world m) m" "all_ok sz False (closing_handles l {}) (f (world m))" "lift_world f m = Some m'"
  shows "wifi_sound sz False m'"
proof -
  from assms(2) obtain w where w: "f (world m) = Some w" "wifi_ok sz False (closing_handles l {}) w" by (auto simp: all_ok_def)
  with assms(3) have "m' = m\<lparr>world := w\<rparr>" by (simp add: lift_world_def)
  with at_wifi_world(2) [OF assms(1), of w] w(2) show ?thesis unfolding wifi_sound_def by (intro exI [of _ l]) simp
qed

text \<open>Every call from outside keeps it.\<close>

lemma wifi_requests_ok:
  assumes "wifi_ok sz False b w"
  shows "f \<in> {wifi_communication_module_connect, wifi_communication_module_close_socket,
      wifi_communication_module_disconnect, wifi_communication_module_stop} \<Longrightarrow> all_ok sz False b (f w)"
    and "unat n \<le> sz \<Longrightarrow> g \<in> {wifi_communication_module_send, wifi_communication_module_send_to,
      wifi_communication_module_receive, wifi_communication_module_receive_from} \<Longrightarrow> all_ok sz False b (g n w)"
proof -
  have ok: "all_ok sz False b (wifi_operation e v)" if "wifi_ok sz False b v" "e < 20" for v e
    unfolding wifi_operation_def using that by (simp add: add_ok)
  show "all_ok sz False b (f w)" if "f \<in> {wifi_communication_module_connect, wifi_communication_module_close_socket,
      wifi_communication_module_disconnect, wifi_communication_module_stop}"
    using that ok [OF assms]
    by (auto simp: wifi_communication_module_connect_def wifi_communication_module_close_socket_def
        wifi_communication_module_disconnect_def wifi_communication_module_stop_def)
  have "wifi_ok sz False b (w\<lparr>wifi_data_size := n\<rparr>)" "wifi_ok sz False b (w\<lparr>wifi_buffer_size := n\<rparr>)" if "unat n \<le> sz"
    using assms that by (simp_all add: wifi_ok_def)
  then show "all_ok sz False b (g n w)" if "unat n \<le> sz" "g \<in> {wifi_communication_module_send, wifi_communication_module_send_to,
      wifi_communication_module_receive, wifi_communication_module_receive_from}"
    using that
    by (auto simp: wifi_communication_module_send_def wifi_communication_module_send_to_def
        wifi_communication_module_receive_def wifi_communication_module_receive_from_def intro!: ok)
qed

lemma wifi_sound_lift:
  assumes "wifi_sound sz False m" "\<And>b. wifi_ok sz False b (world m) \<Longrightarrow> all_ok sz False b (f (world m))" "lift_world f m = Some m'"
  shows "wifi_sound sz False m'"
proof -
  from assms(1) obtain l where l: "at_wifi l (world m) m" "wifi_ok sz False (closing_handles l {}) (world m)" by (auto simp: wifi_sound_def)
  from sound_after [OF l(1) assms(2) [OF l(2)] assms(3)] show ?thesis .
qed

lemma wifi_sound_outside:
  assumes "wifi_sound sz False m" "length buf = sz"
  shows "wifi_sound sz False (change_world (\<lambda>w. w\<lparr>wifi_packet_buffer := buf, wifi_received_data_size := n, wifi_config := c,
      wifi_clock := t, wifi_responses := rs, wifi_driver := h\<rparr>) m)"
proof -
  from assms(1) obtain l where l: "at_wifi l (world m) m" "wifi_ok sz False (closing_handles l {}) (world m)" by (auto simp: wifi_sound_def)
  from l(2) assms(2) have "wifi_ok sz False (closing_handles l {}) ((world m)\<lparr>wifi_packet_buffer := buf,
      wifi_received_data_size := n, wifi_config := c, wifi_clock := t, wifi_responses := rs, wifi_driver := h\<rparr>)"
    by (simp add: wifi_ok_def)
  with at_wifi_world(2) [OF l(1)] show ?thesis by (auto simp: change_world_def wifi_sound_def)
qed

lemma wifi_sound_process:
  assumes "wifi_sound sz False m" "wifi_driver_fits D" "wifi_communication_module_process_event D m = Some (p, m')"
  shows "wifi_sound sz False m'"
proof -
  from assms(1) obtain l where l: "at_wifi l (world m) m" "wifi_ok sz False (closing_handles l {}) (world m)" by (auto simp: wifi_sound_def)
  show ?thesis
  proof (cases "exchange_known l (world m)")
    case True
    obtain m'' where "wifi_communication_module_process_event D m = Some (wifi_waiting (world m) \<noteq> [], m'')" "wifi_sound sz False m''"
      using l assms(2) True by (rule wifi_process_safe)
    with assms(3) show ?thesis by auto
  next
    case False
    from wifi_process_lost [OF l this] assms(3) show ?thesis by simp
  qed
qed

lemma wifi_sound_room: "wifi_sound sz a m \<Longrightarrow> length (wifi_packet_buffer (world m)) = sz"
  by (auto simp: wifi_sound_def wifi_ok_def)

lemma wifi_reachable_sound:
  assumes "wifi_reachable ops D m" "wifi_driver_fits D"
  shows "\<exists>sz. wifi_sound sz False m"
  using assms(1)
proof induction
  case (start m esize a a' m')
  from wifi_starts_sound [OF start(1-9), of ops D a] start(10) show ?case by auto
next
  case (request m f m')
  then show ?case by (metis wifi_sound_lift wifi_requests_ok(1))
next
  case (exchange m n f m')
  then obtain sz where s: "wifi_sound sz False m" by blast
  with exchange(2) have "unat n \<le> sz" by (simp add: wifi_sound_room)
  from wifi_sound_lift [OF s wifi_requests_ok(2) [OF _ this exchange(3)] exchange(4)] show ?case by blast
next
  case (process m p m')
  then show ?case using wifi_sound_process assms(2) by blast
next
  case (signal m s m')
  then show ?case using wifi_sound_lift wifi_hear_all_ok by blast
next
  case (outside m buf h rs t c n)
  then show ?case using wifi_sound_outside wifi_sound_room by metis
qed

text \<open>C9: With a driver that gives at most as many bytes as it was asked for, the Wi-Fi module is well formed at
  every moment of its life: it rests at one of twelve leaves, only its twenty events wait, its TCP and UDP machines are
  well formed, and the next processing call returns, saying whether an event was waiting, except that a call
  of an exchange that was never started goes through a null pointer.\<close>

theorem wifi_well_formed:
  assumes "wifi_reachable ops D m" "wifi_driver_fits D"
  shows "\<exists>l. at_wifi l (world m) m \<and> (\<forall>e \<in> set (wifi_waiting (world m)). e < 20) \<and>
    socket_sound (tcp_module (world m)) \<and> socket_sound (udp_module (world m)) \<and>
    (if exchange_known l (world m)
     then \<exists>m'. wifi_communication_module_process_event D m = Some (wifi_waiting (world m) \<noteq> [], m')
     else wifi_communication_module_process_event D m = None)"
proof -
  from wifi_reachable_sound [OF assms] obtain l sz where
    l: "at_wifi l (world m) m" "wifi_ok sz False (closing_handles l {}) (world m)" by (auto simp: wifi_sound_def)
  have "if exchange_known l (world m)
     then \<exists>m'. wifi_communication_module_process_event D m = Some (wifi_waiting (world m) \<noteq> [], m')
     else wifi_communication_module_process_event D m = None"
  proof (cases "exchange_known l (world m)")
    case True
    obtain m' where "wifi_communication_module_process_event D m = Some (wifi_waiting (world m) \<noteq> [], m')"
      using l assms(2) True by (rule wifi_process_safe)
    with True show ?thesis by simp
  next
    case False
    with wifi_process_lost [OF l False] show ?thesis by simp
  qed
  with l show ?thesis by (auto simp: wifi_ok_def)
qed

end
