(* ===== verification/Wifi_Communication.thy ===== *)
theory Wifi_Communication
  imports Mqtt_Communication Mqtt_Link Wifi_Life Encryption
begin

text \<open>
  The firmware as \<open>WolkSensor/main.c\<close> wires it: the application on the MQTT protocol, the protocol on
  the Wi-Fi module, and the messages of the protocol ciphered by \<open>encryption.c\<close>.
\<close>

section \<open>The wiring\<close>

text \<open>
  The module works on the buffer of the protocol, on the configuration and on the clock; its operations
  return the one process handle it has.  The networks around are not scanned.
\<close>

definition wifi_request :: "config \<Rightarrow> u32 \<Rightarrow> 'h wifi_step \<Rightarrow> 'h wifim \<Rightarrow> (nat \<times> 'h wifim) option" where
  "wifi_request c now f q = map_option (Pair 0)
     (lift_world f (change_world (\<lambda>w. w\<lparr>wifi_config := c, wifi_clock := now\<rparr>) q))"

definition wifi_link_step ::
  "'h wifi_dependencies \<Rightarrow> config \<Rightarrow> u32 \<Rightarrow> u8 list \<Rightarrow> u16 \<Rightarrow> 'h wifim \<Rightarrow> (bool \<times> u8 list \<times> u16 \<times> 'h wifim) option" where
  "wifi_link_step D c now buf pos q = do {
     (again, q) \<leftarrow> wifi_communication_module_process_event D (change_world (\<lambda>w. w\<lparr>wifi_config := c, wifi_clock := now,
        wifi_packet_buffer := buf, wifi_received_data_size := pos\<rparr>) q);
     Some (again, wifi_packet_buffer (world q), wifi_received_data_size (world q), q)
   }"

definition wifi_link :: "'h wifi_dependencies \<Rightarrow> config \<Rightarrow> u32 \<Rightarrow> 'h wifim mqtt_ops \<Rightarrow> 'h wifim mqtt_ops" where
  "wifi_link D c now base = base\<lparr>
     module_send := (\<lambda>n. wifi_request c now (wifi_communication_module_send n)),
     module_receive := (\<lambda>n. wifi_request c now (wifi_communication_module_receive n)),
     module_halt := wifi_request c now wifi_communication_module_stop,
     module_step := (\<lambda>_. wifi_link_step D c now),
     module_data := (\<lambda>q. get_wifi_communication_result (world q)),
     mqtt_encrypt := (\<lambda>bs n key. encrypt bs n (bytes_of key)),
     mqtt_decrypt := (\<lambda>bs n key. decrypt bs n (bytes_of key)),
     get_surroundig_wifi_networks := None\<rparr>"

section \<open>The application on it\<close>

definition wifi_comm ::
  "'h wifim mqttm platform_ops \<Rightarrow> 'h wifi_dependencies \<Rightarrow> 'h wifim mqtt_ops \<Rightarrow> 'h wifim mqttm comm_ops" where
  "wifi_comm ops D base = (let with = (\<lambda>a. mqtt_comm ops (wifi_link D (app_config a) (app_now ops a) base)) in \<lparr>
     comm_send = (\<lambda>a. comm_send (with a) a),
     comm_receive = (\<lambda>a. comm_receive (with a) a),
     comm_disconnect = (\<lambda>a. comm_disconnect (with a) a),
     comm_process = (\<lambda>h a. comm_process (with a) h a),
     comm_result = (\<lambda>a. comm_result (with a) a),
     module_stop = (\<lambda>a. module_stop (with a) a),
     module_process = (\<lambda>h a. module_process (with a) h a),
     module_result = (\<lambda>a. module_result (with a) a)\<rparr>)"

interpretation wifi: communication "wifi_comm ops D base"
  for ops :: "'h wifim mqttm platform_ops" and D and base
proof
  fix f a h a'
  assume "f \<in> {comm_send (wifi_comm ops D base), comm_receive (wifi_comm ops D base), comm_disconnect (wifi_comm ops D base),
      module_stop (wifi_comm ops D base)}" "f a = Some (h, a')"
  then show "only_exchanges a a'"
    by (auto simp: wifi_comm_def Let_def intro: mqtt.operations_only_exchange)
next
  fix g h a p a'
  assume "g \<in> {comm_process (wifi_comm ops D base) h, module_process (wifi_comm ops D base) h}" "g a = Some (p, a')"
  then show "only_exchanges a a'"
    by (auto simp: wifi_comm_def Let_def intro: mqtt.processes_only_exchange)
qed

section \<open>The cipher keeps the buffer\<close>

lemma put_block_length: "i + length b \<le> length buff \<Longrightarrow> length (put_block i b buff) = length buff"
  by (simp add: put_block_def)

lemma encrypt_loop_length:
  assumes run: "encrypt_loop ek i n buff = Some buff'"
  shows "length buff' = length buff"
proof (rule encrypt_loop.raw_induct [where P = "\<lambda>ek i n buff buff'. length buff' = length buff", OF _ run])
  fix loop ek i n buff buff'
  assume IH: "\<And>ek i n buff buff'. loop ek i n buff = Some buff' \<Longrightarrow> length buff' = length buff"
    and body: "(if i < n then do {
        block \<leftarrow> get_block (unat i) buff;
        block \<leftarrow> (if 0 < i then do { last \<leftarrow> get_block (unat i - 16) buff; Some (map2 (XOR) block last) } else Some block);
        loop ek (i + 16) n (put_block (unat i) (aes_encr block ek) buff)
      } else Some buff) = Some buff'"
  then show "length buff' = length buff"
    by (auto simp: bind_eq_Some_conv get_block_def put_block_length length_aes dest!: IH split: if_splits)
qed

lemma decrypt_loop_length:
  assumes run: "decrypt_loop ek i n tmp buff = Some buff'" and tmp: "length tmp = 16"
  shows "length buff' = length buff"
proof -
  have "length tmp = 16 \<longrightarrow> length buff' = length buff"
  proof (rule decrypt_loop.raw_induct [where P = "\<lambda>ek i n tmp buff buff'. length tmp = 16 \<longrightarrow> length buff' = length buff", OF _ run])
    fix loop ek i n tmp buff buff'
    assume IH: "\<And>ek i n tmp buff buff'. loop ek i n tmp buff = Some buff' \<Longrightarrow> length tmp = 16 \<longrightarrow> length buff' = length buff"
      and body: "(if i < n - 1 then do {
          tmp1 \<leftarrow> get_block (unat i) buff;
          loop ek (i + 16) n tmp1 (put_block (unat i) (map2 (XOR) (aes_decr tmp1 ek) tmp) buff)
        } else Some buff) = Some buff'"
    then show "length tmp = 16 \<longrightarrow> length buff' = length buff"
      by (auto simp: bind_eq_Some_conv get_block_def put_block_length length_aes_decr dest!: IH split: if_splits)
  qed
  with tmp show ?thesis by blast
qed

lemma encrypt_fits_buffer:
  assumes run: "encrypt bs n key = Some (n', bs')" and n: "unat n \<le> length bs" "length bs \<le> 65520"
  shows "length bs' = length bs" "unat n' \<le> length bs"
proof -
  have small: "unat n \<le> 65520" using n by simp
  show "length bs' = length bs" "unat n' \<le> length bs"
    using run padding [OF small] padded_length_bounds(1) [OF small] n(1)
    by (auto simp: encrypt_def bind_eq_Some_conv Let_def put_block_length dest!: encrypt_loop_length split: if_splits)
qed

lemma decrypt_keeps_length: "decrypt bs n key = Some bs' \<Longrightarrow> length bs' = length bs"
  by (auto simp: decrypt_def bind_eq_Some_conv dest!: decrypt_loop_length)

text \<open>C12: The text of a message is ciphered where it lies exactly when its padding to whole blocks fits behind it:
  a text that ends inside the last, incomplete block of its buffer makes the cipher write past the MQTT buffer.\<close>

theorem nearly_full_message_overruns:
  assumes mb: "message_buffer mb" "cb_capacity mb \<le> unat MQTT_BUFFER_SIZE"
    and key: "\<not> cfg_ssl (mem_config (memory w))" "16 \<le> length (cfg_device_preshared_key (mem_config (memory w)))"
  shows "encrypt_message (wifi_link D c now base) w mb = None \<longleftrightarrow>
    cb_capacity mb < padded_length (of_nat (length (cb_list mb)))"
proof -
  let ?n = "circular_buffer_size mb"
  let ?bs = "bytes_of (cb_storage mb)"
  let ?key = "bytes_of (cfg_device_preshared_key (mem_config (memory w)))"
  from mb(1) have b: "cb_inv mb" by (simp add: message_buffer_def)
  have n: "?n = of_nat (length (cb_list mb))" using cb_size_of_nat [OF b] by simp
  have cap: "unat ?n \<le> cb_capacity mb" "length ?bs = cb_capacity mb"
    using cb_size_count [OF b] cb_count_le [OF b] cb_inv_storage(1) [OF b] by simp_all
  have small: "unat ?n \<le> 65520" using cap mb(2) by (simp add: MQTT_BUFFER_SIZE_def)
  have "encrypt ?bs ?n ?key = None \<longleftrightarrow> cb_capacity mb < padded_length ?n"
  proof (cases "padded_length ?n \<le> cb_capacity mb")
    case True
    with encrypt_chained [of ?key ?n ?bs] small key(2) cap show ?thesis by auto
  next
    case False
    with cap padding [OF small] have "?n AND 0x000f \<noteq> 0" "\<not> unat ?n + unat ((?n AND 0xfff0) + 0x0010 - ?n) \<le> length ?bs"
      by (simp_all split: if_splits)
    with False show ?thesis by (simp add: encrypt_def Let_def)
  qed
  with key(1) n show ?thesis by (auto simp: encrypt_message_def wifi_link_def bind_eq_None_conv)
qed

section \<open>The module keeps the contract\<close>

text \<open>With a driver that gives no more than it was asked for the module is sound on the buffer of the protocol.\<close>

definition link_sound :: "'h wifi_dependencies \<Rightarrow> 'h wifim \<Rightarrow> bool" where
  "link_sound D q \<longleftrightarrow> wifi_driver_fits D \<and> wifi_sound (unat MQTT_BUFFER_SIZE) False q"

lemma outside_of:
  "change_world (\<lambda>w. w\<lparr>wifi_config := c, wifi_clock := now, wifi_packet_buffer := buf, wifi_received_data_size := pos\<rparr>) q =
   change_world (\<lambda>w. w\<lparr>wifi_packet_buffer := buf, wifi_received_data_size := pos, wifi_config := c,
      wifi_clock := now, wifi_responses := wifi_responses (world q), wifi_driver := wifi_driver (world q)\<rparr>) q"
  by (simp add: change_world_def)

lemma lent_sound:
  assumes "wifi_sound sz False q"
  shows "wifi_sound sz False (change_world (\<lambda>w. w\<lparr>wifi_config := c, wifi_clock := now\<rparr>) q)"
    "length buf = sz \<Longrightarrow> wifi_sound sz False (change_world (\<lambda>w. w\<lparr>wifi_config := c, wifi_clock := now,
        wifi_packet_buffer := buf, wifi_received_data_size := pos\<rparr>) q)"
proof -
  have "change_world (\<lambda>w. w\<lparr>wifi_config := c, wifi_clock := now\<rparr>) q =
    change_world (\<lambda>w. w\<lparr>wifi_packet_buffer := wifi_packet_buffer (world q), wifi_received_data_size := wifi_received_data_size (world q),
      wifi_config := c, wifi_clock := now, wifi_responses := wifi_responses (world q), wifi_driver := wifi_driver (world q)\<rparr>) q"
    by (simp add: change_world_def)
  then show "wifi_sound sz False (change_world (\<lambda>w. w\<lparr>wifi_config := c, wifi_clock := now\<rparr>) q)"
    using wifi_sound_outside [OF assms wifi_sound_room [OF assms]] by simp
  show "wifi_sound sz False (change_world (\<lambda>w. w\<lparr>wifi_config := c, wifi_clock := now,
        wifi_packet_buffer := buf, wifi_received_data_size := pos\<rparr>) q)" if "length buf = sz"
    unfolding outside_of by (rule wifi_sound_outside [OF assms that])
qed

lemma request_sound:
  assumes "wifi_request c now f q = Some (h, q')" "link_sound D q"
    and "\<And>b w. wifi_ok (unat MQTT_BUFFER_SIZE) False b w \<Longrightarrow> all_ok (unat MQTT_BUFFER_SIZE) False b (f w)"
  shows "link_sound D q'"
  using assms wifi_sound_lift [OF lent_sound(1) assms(3)] by (auto simp: link_sound_def wifi_request_def)

interpretation wifi_exchange: exchange_module "wifi_link D c now base" "link_sound D"
  for D :: "'h wifi_dependencies" and c now base
proof
  fix n h q q'
  assume "module_send (wifi_link D c now base) n q = Some (h, q')" "link_sound D q" "unat n \<le> unat MQTT_BUFFER_SIZE"
  then show "link_sound D q'" by (auto simp: wifi_link_def intro: request_sound wifi_requests_ok(2))
next
  fix h q q'
  assume "module_receive (wifi_link D c now base) MQTT_BUFFER_SIZE q = Some (h, q')" "link_sound D q"
  then show "link_sound D q'" by (auto simp: wifi_link_def intro: request_sound wifi_requests_ok(2))
next
  fix h buf pos q again buf' pos' q'
  assume "module_step (wifi_link D c now base) h buf pos q = Some (again, buf', pos', q')" "link_sound D q"
    and buf: "length buf = unat MQTT_BUFFER_SIZE"
  then obtain p where run: "wifi_communication_module_process_event D (change_world (\<lambda>w. w\<lparr>wifi_config := c, wifi_clock := now,
        wifi_packet_buffer := buf, wifi_received_data_size := pos\<rparr>) q) = Some (p, q')"
    and sound: "wifi_driver_fits D" "wifi_sound (unat MQTT_BUFFER_SIZE) False q" and buf': "buf' = wifi_packet_buffer (world q')"
    by (auto simp: wifi_link_def wifi_link_step_def link_sound_def bind_eq_Some_conv)
  from wifi_sound_process [OF lent_sound(2) [OF sound(2) buf] sound(1) run] sound(1) buf'
  show "length buf' = unat MQTT_BUFFER_SIZE \<and> link_sound D q'" by (simp add: link_sound_def wifi_sound_room)
next
  fix bs n key n' bs'
  assume "mqtt_encrypt (wifi_link D c now base) bs n key = Some (n', bs')" "unat n \<le> length bs" "length bs \<le> unat MQTT_BUFFER_SIZE"
  then show "length bs' = length bs \<and> unat n' \<le> length bs"
    using encrypt_fits_buffer [of bs n "bytes_of key" n' bs'] by (simp add: wifi_link_def MQTT_BUFFER_SIZE_def)
qed (auto simp: wifi_link_def dest: decrypt_keeps_length)

section \<open>Life\<close>

text \<open>
  What happens to the protocol and the module: both are initialised, the application calls them through
  its pointers, changes its own variables, and the module hears of its driver and of the time.
\<close>

definition stack_link :: "('h wifim \<Rightarrow> 'h wifim option) \<Rightarrow> 'h wifim mqttm app \<Rightarrow> 'h wifim mqttm app option" where
  "stack_link f a = map_option (with_link a) (f (link (world (platform a))))"

inductive stack_reachable ::
  "'h wifim mqttm platform_ops \<Rightarrow> 'h wifi_dependencies \<Rightarrow> 'h wifim mqtt_ops \<Rightarrow> 'h wifim mqttm app \<Rightarrow> bool" for ops D base where
  start: "length (state_current m) = 17 \<Longrightarrow> length (state_parent m) = 17 \<Longrightarrow>
    length (cb_storage (mqtt_events (world m))) = 10 \<Longrightarrow> 0 < unat esize \<Longrightarrow> unat esize < 6553 \<Longrightarrow>
    wifi_reachable ops D (link (world m)) \<Longrightarrow> length (wifi_packet_buffer (world (link (world m)))) = unat MQTT_BUFFER_SIZE \<Longrightarrow>
    mqtt_protocol_init ops esize (a, m) = Some (a', m') \<Longrightarrow> stack_reachable ops D base (b\<lparr>platform := m'\<rparr>)"
| operation: "stack_reachable ops D base a \<Longrightarrow> f \<in> {comm_send (wifi_comm ops D base), comm_receive (wifi_comm ops D base),
      comm_disconnect (wifi_comm ops D base), module_stop (wifi_comm ops D base)} \<Longrightarrow> f a = Some (h, a') \<Longrightarrow>
    stack_reachable ops D base a'"
| process: "stack_reachable ops D base a \<Longrightarrow> g \<in> {comm_process (wifi_comm ops D base) h, module_process (wifi_comm ops D base) h} \<Longrightarrow>
    g a = Some (p, a') \<Longrightarrow> stack_reachable ops D base a'"
| signal: "stack_reachable ops D base a \<Longrightarrow> stack_link (lift_world (wifi_hear_all D None [s])) a = Some a' \<Longrightarrow>
    stack_reachable ops D base a'"
| application: "stack_reachable ops D base a \<Longrightarrow> platform a' = platform a \<Longrightarrow> stack_reachable ops D base a'"

definition stack_ok :: "'h wifi_dependencies \<Rightarrow> 'h wifim mqttm \<Rightarrow> bool" where
  "stack_ok D m \<longleftrightarrow> (\<exists>s. at_leaf s (world m) m) \<and> mqtt_fits (link_sound D) (world m)"

lemma stack_ok_change:
  assumes "stack_ok D m" "mqtt_fits (link_sound D) w"
  shows "stack_ok D (m\<lparr>world := w\<rparr>)"
proof -
  from assms(1) obtain s where "at_leaf s (world m) m" by (auto simp: stack_ok_def)
  from at_leaf_world(2) [OF this, of w] assms(2) show ?thesis by (auto simp: stack_ok_def)
qed

lemma stack_ok_memory: "stack_ok D m \<Longrightarrow> stack_ok D (m\<lparr>world := (world m)\<lparr>memory := mem\<rparr>\<rparr>)"
  by (rule stack_ok_change) (simp_all add: stack_ok_def)

lemma stack_ok_link:
  assumes "stack_ok D m" "link_sound D q"
  shows "stack_ok D (m\<lparr>world := (world m)\<lparr>link := q\<rparr>\<rparr>)"
  using assms by (intro stack_ok_change) (simp_all add: stack_ok_def mqtt_fits_def)

lemma application_operations:
  "mqtt_protocol_send_sensor_readings_and_system_data r i rs is \<in> mqtt_operations"
  "mqtt_protocol_receive_commands c \<in> mqtt_operations" "mqtt_protocol_disconnect \<in> mqtt_operations"
  unfolding mqtt_operations_def by blast+

lemma stack_operation:
  assumes "mqtt_operation ops f a = Some (h, a')" "f \<in> mqtt_operations" "stack_ok D (platform a)"
  shows "stack_ok D (platform a')"
proof -
  let ?m = "load_memory ops a"
  from assms(1) obtain w where w: "f (world ?m) = Some w" "platform a' = ?m\<lparr>world := w\<rparr>"
    by (auto simp: mqtt_operation_def lift_mqtt_def store_memory_def Let_def)
  have m: "stack_ok D ?m" using stack_ok_memory [OF assms(3)] by (simp add: load_memory_def)
  have "mqtt_fits (link_sound D) w"
    by (rule wifi_exchange.fits.operation_kept [OF assms(2) w(1)]) (use m in \<open>simp add: stack_ok_def\<close>)
  with stack_ok_change [OF m] w(2) show ?thesis by simp
qed

lemma stack_stop:
  assumes "stop_module (wifi_link D c now base) a = Some (h, a')" "stack_ok D (platform a)"
  shows "stack_ok D (platform a')"
proof -
  from assms(1) obtain q where q: "wifi_request c now wifi_communication_module_stop (link (world (platform a))) = Some (h, q)"
    "a' = with_link a q" by (auto simp: stop_module_def wifi_link_def)
  have "link_sound D q"
    by (rule request_sound [OF q(1)]) (use assms(2) in \<open>auto simp: stack_ok_def mqtt_fits_def intro: wifi_requests_ok(1)\<close>)
  from stack_ok_link [OF assms(2) this] q(2) show ?thesis by (simp add: with_link_def)
qed

lemma stack_process:
  assumes "mqtt_processing ops (wifi_link D c now base) a = Some (p, a')" "stack_ok D (platform a)"
  shows "stack_ok D (platform a')"
proof -
  from assms(1) have run: "mqtt_communinication_protocol_process (wifi_link D c now base) (load_memory ops a) = Some (p, platform a')"
    by (auto simp: mqtt_processing_def store_memory_def Let_def)
  from stack_ok_memory [OF assms(2)] obtain s where "at_leaf s (world (load_memory ops a)) (load_memory ops a)"
    "mqtt_fits (link_sound D) (world (load_memory ops a))" by (auto simp: stack_ok_def load_memory_def)
  from wifi_exchange.fits.process_kept [OF this run] show ?thesis by (auto simp: stack_ok_def)
qed

lemma stack_stopping:
  assumes "stop_processing (wifi_link D c now base) h a = Some (p, a')" "stack_ok D (platform a)"
  shows "stack_ok D (platform a')"
proof -
  let ?w = "world (platform a)"
  from assms(1) obtain buf pos q where
    q: "module_step (wifi_link D c now base) h (mqtt_buffer ?w) (mqtt_buffer_position ?w) (link ?w) = Some (p, buf, pos, q)" and
    a': "platform a' = (platform a)\<lparr>world := ?w\<lparr>mqtt_buffer := buf, mqtt_buffer_position := pos, link := q\<rparr>\<rparr>"
    by (auto simp: stop_processing_def bind_eq_Some_conv Let_def)
  from assms(2) have "mqtt_fits (link_sound D) (?w\<lparr>mqtt_buffer := buf, mqtt_buffer_position := pos, link := q\<rparr>)"
    using wifi_exchange.step_kept [OF q] by (simp add: stack_ok_def mqtt_fits_def)
  from stack_ok_change [OF assms(2) this] a' show ?thesis by simp
qed

lemma signal_sound:
  assumes "link_sound D q" "lift_world (wifi_hear_all D None [s]) q = Some q'"
  shows "link_sound D q'"
  using assms wifi_sound_lift wifi_hear_all_ok by (fastforce simp: link_sound_def)

lemma stack_starts:
  assumes "length (state_current m) = 17" "length (state_parent m) = 17"
    "length (cb_storage (mqtt_events (world m))) = 10" "0 < unat esize" "unat esize < 6553"
    and "link_sound D (link (world m))" "mqtt_protocol_init ops esize (a, m) = Some (a', m')"
  shows "stack_ok D m'"
proof -
  obtain a'' w where w: "mqtt_protocol_init ops esize (a, m) = Some (a'', mqtt_tree STATE_MQTT_DISCONNECTED STATE_MQTT_SEND_CONNECT None None w)"
    "mqtt_queue w" "waiting w = []" "length (mqtt_buffer w) = unat MQTT_BUFFER_SIZE" "link w = link (world m)"
    by (rule mqtt_protocol_init_ok [OF assms(1-5), of ops a])
  have "at_leaf STATE_MQTT_DISCONNECTED w (mqtt_tree STATE_MQTT_DISCONNECTED STATE_MQTT_SEND_CONNECT None None w)"
    unfolding at_leaf_def top_state_def by auto
  with w assms(6,7) show ?thesis by (auto simp: stack_ok_def mqtt_fits_def mqtt_known_def)
qed

lemma stack_reachable_ok:
  assumes "stack_reachable ops D base a" "wifi_driver_fits D"
  shows "stack_ok D (platform a)"
  using assms(1)
proof induction
  case (start m esize a a' m' b)
  from wifi_reachable_sound [OF start(6) assms(2)] obtain sz where sound: "wifi_sound sz False (link (world m))" by blast
  with wifi_sound_room [OF sound] start(7) assms(2) have "link_sound D (link (world m))" by (simp add: link_sound_def)
  from stack_starts [OF start(1-5) this start(8)] show ?case by simp
next
  case (operation a f h a')
  then show ?case
    by (auto simp: wifi_comm_def mqtt_comm_def Let_def elim!: stack_operation stack_stop
        intro: application_operations)
next
  case (process a g h p a')
  then show ?case by (auto simp: wifi_comm_def mqtt_comm_def Let_def elim!: stack_process stack_stopping)
next
  case (signal a s a')
  then obtain q where "lift_world (wifi_hear_all D None [s]) (link (world (platform a))) = Some q" "a' = with_link a q"
    by (auto simp: stack_link_def)
  with stack_ok_link [OF signal(3), of q] signal(3) show ?case
    by (auto simp: with_link_def stack_ok_def mqtt_fits_def dest: signal_sound)
qed simp

text \<open>C11: With a driver that gives no more bytes than it was asked for, the protocol and the Wi-Fi module stay well
  formed however the application uses them through its pointers: both machines rest at leaves of their trees, the
  buffer they share has its 803 bytes, and no packet that is handed over and no reception reaches past its end.  The
  next step of the module returns, with a buffer of the same size, unless the event that continues an exchange is the
  next one while no exchange was ever given: then the code calls a null pointer.\<close>

theorem wifi_stack_well_formed:
  assumes "stack_reachable ops D base a" "wifi_driver_fits D"
  shows "\<exists>w q s l. w = world (platform a) \<and> q = link w \<and> at_leaf s w (platform a) \<and> mqtt_known w \<and>
    length (mqtt_buffer w) = unat MQTT_BUFFER_SIZE \<and> at_wifi l (world q) q \<and>
    unat (wifi_data_size (world q)) \<le> unat MQTT_BUFFER_SIZE \<and> unat (wifi_buffer_size (world q)) \<le> unat MQTT_BUFFER_SIZE \<and>
    socket_sound (tcp_module (world q)) \<and> socket_sound (udp_module (world q)) \<and>
    (if exchange_known l (world q)
     then \<exists>again buf pos q'.
       wifi_link_step D (app_config a) (app_now ops a) (mqtt_buffer w) (mqtt_buffer_position w) q = Some (again, buf, pos, q') \<and>
       length buf = unat MQTT_BUFFER_SIZE
     else wifi_link_step D (app_config a) (app_now ops a) (mqtt_buffer w) (mqtt_buffer_position w) q = None)"
proof -
  let ?w = "world (platform a)"
  let ?q = "link ?w"
  let ?lent = "change_world (\<lambda>w. w\<lparr>wifi_config := app_config a, wifi_clock := app_now ops a,
      wifi_packet_buffer := mqtt_buffer ?w, wifi_received_data_size := mqtt_buffer_position ?w\<rparr>) ?q"
  from stack_reachable_ok [OF assms] obtain s where s: "at_leaf s ?w (platform a)" "mqtt_known ?w"
      "length (mqtt_buffer ?w) = unat MQTT_BUFFER_SIZE" and q: "wifi_sound (unat MQTT_BUFFER_SIZE) False ?q"
    by (auto simp: stack_ok_def mqtt_fits_def link_sound_def)
  from q obtain l where l: "at_wifi l (world ?q) ?q" "wifi_ok (unat MQTT_BUFFER_SIZE) False (closing_handles l {}) (world ?q)"
    by (auto simp: wifi_sound_def)
  have lent: "at_wifi l (world ?lent) ?lent" "exchange_known l (world ?lent) = exchange_known l (world ?q)"
    "wifi_ok (unat MQTT_BUFFER_SIZE) False (closing_handles l {}) (world ?lent)"
    using at_wifi_world(2) [OF l(1)] l(2) s(3) by (simp_all add: change_world_def exchange_known_def wifi_ok_def)
  have "if exchange_known l (world ?q)
    then \<exists>again buf pos q'. wifi_link_step D (app_config a) (app_now ops a) (mqtt_buffer ?w) (mqtt_buffer_position ?w) ?q =
      Some (again, buf, pos, q') \<and> length buf = unat MQTT_BUFFER_SIZE
    else wifi_link_step D (app_config a) (app_now ops a) (mqtt_buffer ?w) (mqtt_buffer_position ?w) ?q = None"
  proof (cases "exchange_known l (world ?q)")
    case True
    with lent(2) have known: "exchange_known l (world ?lent)" by simp
    obtain q' where "wifi_communication_module_process_event D ?lent = Some (wifi_waiting (world ?lent) \<noteq> [], q')"
      "wifi_sound (unat MQTT_BUFFER_SIZE) False q'" using lent(1,3) assms(2) known by (rule wifi_process_safe)
    with True show ?thesis by (auto simp: wifi_link_step_def wifi_sound_room)
  next
    case False
    with lent(2) have "\<not> exchange_known l (world ?lent)" by simp
    with False wifi_process_lost [OF lent(1,3) this, of D] show ?thesis by (simp add: wifi_link_step_def)
  qed
  moreover from l(2) have "unat (wifi_data_size (world ?q)) \<le> unat MQTT_BUFFER_SIZE"
    "unat (wifi_buffer_size (world ?q)) \<le> unat MQTT_BUFFER_SIZE" "socket_sound (tcp_module (world ?q))"
    "socket_sound (udp_module (world ?q))" by (simp_all add: wifi_ok_def)
  ultimately show ?thesis using s l(1) by blast
qed

end
