(* ===== verification/Firmware.thy ===== *)
theory Firmware
  imports Wifi_Communication
begin

text \<open>
  The start of the firmware, \<open>WolkSensor/main.c\<close>: why the device was reset, and the initialisation of the
  Wi-Fi module, the MQTT protocol and the application, in the order of \<open>main\<close>.  The registers, the
  peripherals and the chip itself are started in between; of these only the start of the chip can be heard
  by the modules.
\<close>

section \<open>The reason\<close>

definition RST_POWER_ON :: u8 where "RST_POWER_ON = 1"
definition RST_PROGRAMMING_DEBUG :: u8 where "RST_PROGRAMMING_DEBUG = 2"
definition RST_EXTERNAL :: u8 where "RST_EXTERNAL = 3"
definition RST_BROWN_OUT :: u8 where "RST_BROWN_OUT = 4"
definition RST_WATCHDOG :: u8 where "RST_WATCHDOG = 5"

text \<open>The flags of the status register.\<close>

record reset_status =
  power_on_flag :: bool
  program_flag :: bool
  external_flag :: bool
  watchdog_flag :: bool
  brownout_flag :: bool

text \<open>A reset by the software leaves the reason as it was.\<close>

definition resetCheck :: "reset_status \<Rightarrow> u8 \<Rightarrow> u8" where
  "resetCheck s reset_reason =
     (if power_on_flag s then RST_POWER_ON
      else if program_flag s then RST_PROGRAMMING_DEBUG
      else if external_flag s then RST_EXTERNAL
      else if watchdog_flag s then RST_WATCHDOG
      else if brownout_flag s then RST_BROWN_OUT
      else reset_reason)"

definition start_type_of :: "u8 \<Rightarrow> start_type" where
  "start_type_of reset_reason =
     (if reset_reason = RST_WATCHDOG then WATCHDOG_RESET
      else if reset_reason = RST_BROWN_OUT then BROWNOUT_RESET
      else POWER_ON)"

section \<open>The start\<close>

text \<open>\<open>init_wifi\<close> is the function of the chip; \<open>event_size\<close> is the size of an event.\<close>

definition firmware_start ::
  "'h wifim mqttm platform_ops \<Rightarrow> 'h wifi_dependencies \<Rightarrow> 'h wifim mqtt_ops \<Rightarrow> (bool, 'h) driver_call \<Rightarrow> u16 \<Rightarrow>
   reset_status \<Rightarrow> u8 \<Rightarrow> 'h wifim mqttm app \<Rightarrow> (u8 \<times> 'h wifim mqttm appm) option" where
  "firmware_start ops D base init_wifi event_size status old a = do {
     let reset_reason = resetCheck status old;
     let st = start_type_of reset_reason;
     let a = a\<lparr>rtc_offset := chrono_init (st = POWER_ON) (rtc_offset a),
               app_sensors := (app_sensors a)\<lparr>sensors := set_sensors_types\<rparr>\<rparr>;
     let m = platform a;
     (a, q) \<leftarrow> init_wifi_communication_module ops D event_size (a, link (world m));
     (a, m) \<leftarrow> mqtt_protocol_init ops event_size (a, m\<lparr>world := (world m)\<lparr>link := q\<rparr>\<rparr>);
     let a = a\<lparr>platform := m\<rparr>;
     a \<leftarrow> (if st \<noteq> BROWNOUT_RESET
           then stack_link (lift_world (\<lambda>w. map_option snd (wifi_call D init_wifi w))) a else Some a);
     m \<leftarrow> init_wolksensor ops (wifi_comm ops D base) st a;
     sb \<leftarrow> add_system_error (app_now ops (world m)) (SYSTEM_RESET reset_reason) (app_system (world m));
     Some (reset_reason, m\<lparr>world := (world m)\<lparr>app_system := sb\<rparr>\<rparr>)
   }"

text \<open>The memory before the start.\<close>

definition firmware_memory :: "'h wifim mqttm app \<Rightarrow> bool" where
  "firmware_memory a \<longleftrightarrow> (let m = platform a; q = link (world m) in
     memory_ok (a\<lparr>app_sensors := (app_sensors a)\<lparr>sensors := set_sensors_types\<rparr>\<rparr>) \<and> current_heartbeat a = 0 \<and>
     cb_inv ((app_system a)\<lparr>cb_storage_size := 60, cb_element_size := 25, cb_wrap := True\<rparr>) \<and>
     length (state_current m) = 17 \<and> length (state_parent m) = 17 \<and> length (cb_storage (mqtt_events (world m))) = 10 \<and>
     length (state_current q) = 16 \<and> length (state_parent q) = 16 \<and> length (cb_storage (wifi_events (world q))) = 10 \<and>
     wifi_data_size (world q) = 0 \<and> wifi_buffer_size (world q) = 0 \<and> length (wifi_packet_buffer (world q)) = unat MQTT_BUFFER_SIZE \<and>
     part_at_start (unat MQTT_BUFFER_SIZE) (tcp_module (world q)) \<and> part_at_start (unat MQTT_BUFFER_SIZE) (udp_module (world q)))"

section \<open>What it reaches\<close>

lemma mqtt_init_config:
  assumes "mqtt_protocol_init ops esize (a, m) = Some (a', m')"
  shows "\<exists>c. a' = a\<lparr>app_config := c\<rparr>"
  using assms
  by (auto simp: mqtt_protocol_init_def bind_eq_Some_conv Let_def load_location_status_def load_device_preshared_key_def
      load_device_id_def load_var_def)

lemma reset_item_added:
  assumes "cb_inv b" "cb_wrap b \<or> cb_list b = []"
  obtains b' where "add_system_error now e b = Some b'"
    "cb_list b' = keep_last (cb_capacity b) (cb_list b @ [\<lparr>sys_timestamp = now, sys_data = SystemError e\<rparr>])"
proof -
  let ?i = "\<lparr>sys_timestamp = now, sys_data = SystemError e\<rparr>"
  have pos: "0 < cb_capacity b" using assms(1) by (auto simp: cb_inv_def cb_capacity_def)
  then have "cb_wrap b \<or> \<not> cb_full b" using assms by (auto simp: cb_full_iff simp flip: length_cb_list)
  from cb_push [OF assms(1) this, of ?i] have "circular_buffer_add b ?i = Some (True, cb_push b ?i)"
    "cb_list (cb_push b ?i) = keep_last (cb_capacity b) (cb_list b @ [?i])" by blast+
  then show thesis using that [of "cb_push b ?i"] by (simp add: add_system_error_def add_system_data_def)
qed

text \<open>What the platform does to the movement sensor is nothing to the modules.\<close>

definition movement_apart :: "'h wifim mqttm platform_ops \<Rightarrow> 'h wifi_dependencies \<Rightarrow> bool" where
  "movement_apart ops D \<longleftrightarrow> (\<forall>m. stack_ok D m \<longrightarrow> stack_ok D (enable_movement ops m) \<and> stack_ok D (disable_movement ops m))"

lemma loaded_platform: "platform (loaded ops a) \<in> {enable_movement ops (platform a), disable_movement ops (platform a)}"
  by (simp add: loaded_def loaders Let_def split_def split: option.split)

lemma chip_started:
  assumes "stack_ok D (platform a)" "wifi_driver_fits D"
  obtains q where "stack_link (lift_world (\<lambda>w. map_option snd (wifi_call D f w))) a = Some (with_link a q)"
    "stack_ok D (platform (with_link a q))"
proof -
  let ?q = "link (world (platform a))"
  have sound: "wifi_sound (unat MQTT_BUFFER_SIZE) False ?q"
    using assms(1) by (simp add: stack_ok_def mqtt_fits_def link_sound_def)
  then obtain b where ok: "wifi_ok (unat MQTT_BUFFER_SIZE) False b (world ?q)" by (auto simp: wifi_sound_def)
  have all: "all_ok (unat MQTT_BUFFER_SIZE) False b (map_option snd (wifi_call D f (world ?q)))"
    if "wifi_ok (unat MQTT_BUFFER_SIZE) False b (world ?q)" for b
    using wifi_call_ok [OF that, of D f] by (auto simp: all_ok2_def all_ok_def)
  from all [OF ok] obtain q where q: "lift_world (\<lambda>w. map_option snd (wifi_call D f w)) ?q = Some q"
    by (auto simp: all_ok_def lift_world_def)
  from wifi_sound_lift [OF sound all q] assms(2) have "link_sound D q" by (simp add: link_sound_def)
  from stack_ok_link [OF assms(1) this] q that [of q] show thesis by (simp add: stack_link_def with_link_def)
qed

lemma before_application:
  "memory_ok (a\<lparr>rtc_offset := r, app_sensors := s, app_config := d, platform := p\<rparr>) = memory_ok (a\<lparr>app_sensors := s\<rparr>)"
  by (simp add: memory_ok_def)

text \<open>The modules, up to the start of the application.\<close>

lemma modules_started:
  assumes memory: "firmware_memory a" and fits: "wifi_driver_fits D" and size: "0 < unat esize" "unat esize < 6553"
    and a0: "platform a0 = platform a"
  obtains c q a2 m2 a4 d p where
    "init_wifi_communication_module ops D esize (a0, link (world (platform a0))) = Some (a0\<lparr>app_config := c\<rparr>, q)"
    "mqtt_protocol_init ops esize (a0\<lparr>app_config := c\<rparr>, (platform a0)\<lparr>world := (world (platform a0))\<lparr>link := q\<rparr>\<rparr>) = Some (a2, m2)"
    "(if chip then stack_link (lift_world (\<lambda>w. map_option snd (wifi_call D f w))) (a2\<lparr>platform := m2\<rparr>)
      else Some (a2\<lparr>platform := m2\<rparr>)) = Some a4"
    "a4 = a0\<lparr>app_config := d, platform := p\<rparr>" "stack_ok D p"
proof -
  let ?m = "platform a"
  note mem = memory [unfolded firmware_memory_def Let_def]
  have w: "length (state_current (link (world ?m))) = 16" "length (state_parent (link (world ?m))) = 16"
    "length (cb_storage (wifi_events (world (link (world ?m))))) = 10" "0 < unat esize" "unat esize < 6553"
    "wifi_data_size (world (link (world ?m))) = 0" "wifi_buffer_size (world (link (world ?m))) = 0"
    "part_at_start (length (wifi_packet_buffer (world (link (world ?m))))) (tcp_module (world (link (world ?m))))"
    "part_at_start (length (wifi_packet_buffer (world (link (world ?m))))) (udp_module (world (link (world ?m))))"
    using mem size by simp_all
  from init_wifi_starts [OF w, of ops D a0] mem obtain c q where
    q: "init_wifi_communication_module ops D esize (a0, link (world ?m)) = Some (a0\<lparr>app_config := c\<rparr>, q)"
    "wifi_sound (unat MQTT_BUFFER_SIZE) False q" by auto
  let ?m1 = "?m\<lparr>world := (world ?m)\<lparr>link := q\<rparr>\<rparr>"
  have m1: "length (state_current ?m1) = 17" "length (state_parent ?m1) = 17"
    "length (cb_storage (mqtt_events (world ?m1))) = 10" using mem by simp_all
  have "link_sound D (link (world ?m1))" using q(2) fits by (simp add: link_sound_def)
  obtain a2 m2 where m2: "mqtt_protocol_init ops esize (a0\<lparr>app_config := c\<rparr>, ?m1) = Some (a2, m2)"
    by (rule mqtt_protocol_init_ok [OF m1 size])
  from stack_starts [OF m1 size \<open>link_sound D (link (world ?m1))\<close> m2] have ok: "stack_ok D m2" .
  from mqtt_init_config [OF m2] obtain c2 where a2: "a2 = a0\<lparr>app_config := c2\<rparr>" by auto
  show thesis
  proof (cases chip)
    case True
    have "stack_ok D (platform (a2\<lparr>platform := m2\<rparr>))" using ok by simp
    then obtain q' where "stack_link (lift_world (\<lambda>w. map_option snd (wifi_call D f w))) (a2\<lparr>platform := m2\<rparr>) =
        Some (with_link (a2\<lparr>platform := m2\<rparr>) q')" "stack_ok D (platform (with_link (a2\<lparr>platform := m2\<rparr>) q'))"
      using fits by (rule chip_started)
    note started = this
    show thesis
      by (rule that [of c q a2 m2 "with_link (a2\<lparr>platform := m2\<rparr>) q'" "platform (with_link (a2\<lparr>platform := m2\<rparr>) q')" c2])
         (use True q(1) m2 a2 started in \<open>simp_all add: a0 with_link_def\<close>)
  next
    case False
    show thesis
      by (rule that [of c q a2 m2 "a2\<lparr>platform := m2\<rparr>" m2 c2]) (use False q(1) m2 a2 ok in \<open>simp_all add: a0\<close>)
  qed
qed

text \<open>The stored data, the pointers of their rings included, after a start of type \<open>st\<close> that is recorded at \<open>t\<close>.\<close>

definition stored_data_after :: "start_type \<Rightarrow> system_item \<Rightarrow> 'p app \<Rightarrow> 'p app \<Rightarrow> bool" where
  "stored_data_after st item a a' \<longleftrightarrow>
     (if st = POWER_ON
      then cb_list (app_readings a') = [] \<and> cb_list (app_system a') = [item] \<and> rtc_offset a' = 0x5B85E200
      else app_readings a' = (app_readings a)\<lparr>cb_storage_size := 150, cb_element_size := 20, cb_wrap := False\<rparr> \<and>
        cb_list (app_system a') =
          keep_last 60 (cb_list ((app_system a)\<lparr>cb_storage_size := 60, cb_element_size := 25, cb_wrap := True\<rparr>) @ [item]) \<and>
        rtc_offset a' = rtc_offset a)"

text \<open>The readings of a ring that was already in use are all there.\<close>

lemma readings_kept:
  assumes "stored_data_after st item a a'" "st \<noteq> POWER_ON" "readings_queue (app_readings a)" "cb_element_size (app_readings a) = 20"
  shows "app_readings a' = app_readings a"
  using assms by (simp add: stored_data_after_def readings_queue_def SENSOR_READINGS_BUFFER_SIZE_def)


end
