(* ===== verification/Socket_Ends.thy ===== *)
theory Socket_Ends
  imports Socket_Life
begin

text \<open>
  How the operations of a socket machine (\<open>SDK/core/tcp_communication_module.c\<close>) end: a request to send ends
  after at most nine calls, with the data sent or with an error, and waiting for data ends with the third
  second.
\<close>

section \<open>Calling until the module is done\<close>

text \<open>\<open>while(handle())\<close>, with at most \<open>n\<close> calls.\<close>

fun run_socket :: "('v, 'h) transport \<Rightarrow> nat \<Rightarrow> ('v, 'h) socketm \<Rightarrow> ('v, 'h) socketm option" where
  "run_socket T 0 m = None"
| "run_socket T (Suc n) m = do {
     (again, m) \<leftarrow> socket_process_event T m;
     (if again then run_socket T n m else Some m)
   }"

text \<open>The driver never tells that the socket was closed.\<close>

definition driver_quiet :: "('v, 'h) transport \<Rightarrow> bool" where
  "driver_quiet T \<longleftrightarrow> (\<forall>v h. SocketClosed \<notin> set (fst (snd (open_call T v h)))) \<and>
     (\<forall>i h. SocketClosed \<notin> set (fst (snd (close_call T i h)))) \<and>
     (\<forall>v i bs h. SocketClosed \<notin> set (fst (snd (send_call T v i bs h))))"

lemma hear_quiet:
  assumes "SocketClosed \<notin> set ss" "timeout_timer w = 0"
  obtains w' where "hear_all T ss w = Some w'" "socket_events w' = socket_events w" "timeout_timer w' = 0"
    "data_size w' = data_size w" "packet_buffer w' = packet_buffer w" "open_socket_id w' = open_socket_id w"
    "socket_data w' = socket_data w" "open_socket_retries w' = open_socket_retries w" "parameters w' = parameters w"
    "driver w' = driver w"
proof -
  have "\<exists>w'. hear_all T ss w = Some w' \<and> socket_events w' = socket_events w \<and> timeout_timer w' = 0 \<and>
    data_size w' = data_size w \<and> packet_buffer w' = packet_buffer w \<and> open_socket_id w' = open_socket_id w \<and>
    socket_data w' = socket_data w \<and> open_socket_retries w' = open_socket_retries w \<and> parameters w' = parameters w \<and>
    driver w' = driver w"
    using assms
  proof (induction ss arbitrary: w)
    case (Cons s ss)
    then obtain v where v: "hear T s w = Some v" "socket_events v = socket_events w" "timeout_timer v = 0"
      "data_size v = data_size w" "packet_buffer v = packet_buffer w" "open_socket_id v = open_socket_id w"
      "socket_data v = socket_data w" "open_socket_retries v = open_socket_retries w" "parameters v = parameters w"
      "driver v = driver w"
      by (cases s) (auto simp: hear_def second_expired_listener_def millisecond_expired_listener_def
        platform_specific_error_code_listener_def)
    have "SocketClosed \<notin> set ss" using Cons.prems by simp
    from Cons.IH [OF this v(3)] show ?case using v by auto
  qed simp
  with that show thesis by blast
qed

lemma call_quiet:
  assumes "SocketClosed \<notin> set (fst (snd (f (driver w))))" "timeout_timer w = 0"
  obtains w' where "call_driver T f w = Some (fst (f (driver w)), w')" "socket_events w' = socket_events w" "timeout_timer w' = 0"
    "data_size w' = data_size w" "packet_buffer w' = packet_buffer w" "open_socket_id w' = open_socket_id w"
    "socket_data w' = socket_data w" "open_socket_retries w' = open_socket_retries w" "parameters w' = parameters w"
proof -
  let ?w = "w\<lparr>driver := snd (snd (f (driver w)))\<rparr>"
  have "timeout_timer ?w = 0" using assms(2) by simp
  with assms(1) obtain w' where "hear_all T (fst (snd (f (driver w)))) ?w = Some w'" "socket_events w' = socket_events ?w"
    "timeout_timer w' = 0" "data_size w' = data_size ?w" "packet_buffer w' = packet_buffer ?w"
    "open_socket_id w' = open_socket_id ?w" "socket_data w' = socket_data ?w"
    "open_socket_retries w' = open_socket_retries ?w" "parameters w' = parameters ?w" by (rule hear_quiet)
  with that show thesis by (simp add: call_driver_def split_def Let_def)
qed

section \<open>A request to send\<close>

text \<open>What is known of the variables while the request is served.\<close>

definition serving :: "u8 list \<Rightarrow> ('v, 'h) socket \<Rightarrow> bool" where
  "serving es w \<longleftrightarrow> socket_queue w \<and> socket_waiting w = es \<and> timeout_timer w = 0 \<and>
     unat (data_size w) \<le> length (packet_buffer w) \<and> cmd_error (socket_data w) = 0"

definition served :: "('v, 'h) transport \<Rightarrow> ('v, 'h) socketm \<Rightarrow> bool" where
  "served T m \<longleftrightarrow> socket_queue (world m) \<and> socket_waiting (world m) = [] \<and>
     (at_socket Ready (world m) m \<and> cmd_error (socket_data (world m)) = 0 \<or>
      at_socket Shut (world m) m \<and> cmd_error (socket_data (world m)) \<noteq> 0)"

lemma run_step:
  assumes "at_socket md w m" "socket_queue w" "socket_waiting w = e # es" "e < 6"
    and "socket_event T e (w\<lparr>socket_events := dequeued (socket_events w)\<rparr>, md) = Some (w', md')"
  obtains m' where "run_socket T (Suc n) m = run_socket T n m'" "at_socket md' w' m'"
proof -
  have "e \<noteq> EVENT_ENTERING_STATE" "e \<noteq> EVENT_LEAVING_STATE" using below_6 [OF assms(4)] by simp_all
  from socket_process_first(1) [OF assms(1-3) this, of T] assms(5) obtain m' where
    "socket_process_event T m = Some (True, m')" "at_socket md' w' m'" by (auto simp: reaches_def option_rel_Some2)
  with that show thesis by simp
qed

lemma run_done:
  assumes "served T m"
  obtains m' where "run_socket T (Suc n) m = Some m'" "served T m'"
proof -
  from assms have w: "socket_queue (world m)" "socket_waiting (world m) = []" by (simp_all add: served_def)
  let ?m = "m\<lparr>world := (world m)\<lparr>socket_events := dequeued (socket_events (world m))\<rparr>\<rparr>"
  have "served T ?m"
    using assms socket_process_empty(2,3) [OF w] by (auto simp: served_def at_socket_world(2))
  with socket_process_empty(1) [OF w, of T] that show thesis by simp
qed

lemma error_set: "s \<in> {STATE_OPENING_SOCKET, STATE_SOCKET_SEND, STATE_SOCKET_RECEIVE, STATE_CLOSING_SOCKET} \<Longrightarrow>
  cmd_error (socket_data (set_socket_error c s w)) \<noteq> 0"
  by (auto simp: set_socket_error_def socket_state_defs or_eq_0_iff)

text \<open>The machine is shut with an error, or open without.\<close>

definition outcome :: "('v, 'h) socket_mode_step \<Rightarrow> bool" where
  "outcome r \<longleftrightarrow> (\<exists>w md. r = Some (w, md) \<and> socket_queue w \<and> socket_waiting w = [] \<and>
     (md = Ready \<and> cmd_error (socket_data w) = 0 \<or> md = Shut \<and> cmd_error (socket_data w) \<noteq> 0))"

lemma closes_quiet:
  assumes "driver_quiet T" "timeout_timer w = 0" "socket_queue w" "socket_waiting w = []" "cmd_error (socket_data w) \<noteq> 0"
  shows "outcome (goes_to Shut (closes T w))"
proof -
  let ?f = "close_call T (open_socket_id w)"
  have "SocketClosed \<notin> set (fst (snd (?f (driver (stopwatch_start w)))))" "timeout_timer (stopwatch_start w) = 0"
    using assms(1,2) by (simp_all add: driver_quiet_def stopwatch_start_def)
  then obtain v where v: "call_driver T ?f (stopwatch_start w) = Some (fst (?f (driver w)), v)"
    "socket_events v = socket_events w" "socket_data v = socket_data w"
    by (rule call_quiet) (simp add: stopwatch_start_def)
  with assms error_set [of STATE_CLOSING_SOCKET "code_operation_failed T" v] show ?thesis
    by (cases "fst (?f (driver w))") (auto simp: closes_def outcome_def record_time_def fail_def)
qed

lemma sends_quiet:
  assumes quiet: "driver_quiet T" and w: "serving [] w"
  shows "outcome (sends T w)"
proof -
  let ?w = "stopwatch_start w"
  let ?timed = "record_time (\<lambda>t. cmd_data_exchange_time_update (\<lambda>_. t))"
  let ?f = "send_call T (parameters w) (open_socket_id w) (take (unat (data_size w)) (packet_buffer w))"
  have "SocketClosed \<notin> set (fst (snd (?f (driver ?w))))" "timeout_timer ?w = 0"
    using quiet w by (simp_all add: driver_quiet_def stopwatch_start_def serving_def)
  then obtain v where v: "call_driver T ?f ?w = Some (fst (?f (driver w)), v)" "socket_events v = socket_events w"
    "timeout_timer v = 0" "data_size v = data_size w" "socket_data v = socket_data w"
    by (rule call_quiet) (simp_all add: stopwatch_start_def)
  have sent: "send_data T ?w = Some (fst (?f (driver w)), v)"
    using v(1) w by (simp add: send_data_def stopwatch_start_def serving_def)
  let ?u = "set_socket_error (code_operation_failed T) STATE_SOCKET_SEND v"
  let ?x = "?timed (?u\<lparr>socket_events := emptied (socket_events ?u)\<rparr>)"
  have "outcome (goes_to Shut (closes T ?x))"
    using v w error_set [of STATE_SOCKET_SEND "code_operation_failed T" v]
    by (intro closes_quiet [OF quiet]) (simp_all add: record_time_def serving_def)
  with sent v w show ?thesis
    by (cases "of_int (fst (?f (driver w))) = data_size v")
       (simp_all add: sends_def outcome_def [of "Some _"] record_time_def serving_def fail_def)
qed

lemma outcome_served:
  assumes "at_socket md w m" "socket_queue w" "socket_waiting w = e # es" "e < 6"
    and "outcome (socket_event T e (w\<lparr>socket_events := dequeued (socket_events w)\<rparr>, md))"
  obtains m' where "run_socket T (Suc (Suc n)) m = Some m'" "served T m'"
proof -
  from assms(5) obtain w' md' where w': "socket_event T e (w\<lparr>socket_events := dequeued (socket_events w)\<rparr>, md) = Some (w', md')"
    "socket_queue w'" "socket_waiting w' = []"
    "md' = Ready \<and> cmd_error (socket_data w') = 0 \<or> md' = Shut \<and> cmd_error (socket_data w') \<noteq> 0"
    by (auto simp: outcome_def)
  obtain m1 where m1: "run_socket T (Suc (Suc n)) m = run_socket T (Suc n) m1" "at_socket md' w' m1"
    using run_step [OF assms(1-4) w'(1)] .
  with w' at_socket_world(1) [OF m1(2)] have "served T m1" by (auto simp: served_def)
  with m1(1) that show thesis by (metis run_done)
qed

text \<open>Once the socket is open the packet is sent.\<close>

lemma ready_sends:
  assumes quiet: "driver_quiet T" and m: "at_socket Ready w m" "serving [EVENT_SEND] w"
  obtains m' where "run_socket T (Suc (Suc n)) m = Some m'" "served T m'"
proof -
  from m(2) have queue: "socket_queue w" "socket_waiting w = [EVENT_SEND]" by (simp_all add: serving_def)
  have "serving [] (w\<lparr>socket_events := dequeued (socket_events w)\<rparr>)"
    using m(2) socket_process_first(2,3) [OF m(1) queue] by (simp add: serving_def)
  with sends_quiet [OF quiet] have "outcome (socket_event T EVENT_SEND (w\<lparr>socket_events := dequeued (socket_events w)\<rparr>, Ready))"
    by (simp add: leave_opened_def)
  then obtain m' where "run_socket T (Suc (Suc n)) m = Some m'" "served T m'"
    by (rule outcome_served [OF m(1) queue known_socket_events(1)])
  then show thesis by (rule that)
qed

text \<open>While the socket is being opened the request goes round the queue.\<close>

lemma request_rotates:
  assumes m: "at_socket Opening w m" "serving [EVENT_SEND, EVENT_OPEN_SOCKET] w"
  obtains w' m' where "run_socket T (Suc n) m = run_socket T n m'" "at_socket Opening w' m'"
    "serving [EVENT_OPEN_SOCKET, EVENT_SEND] w'" "open_socket_retries w' = open_socket_retries w"
proof -
  from m(2) have queue: "socket_queue w" "socket_waiting w = [EVENT_SEND, EVENT_OPEN_SOCKET]" by (simp_all add: serving_def)
  note deq = socket_process_first(2,3) [OF m(1) queue, simplified]
  let ?w = "w\<lparr>socket_events := dequeued (socket_events w)\<rparr>"
  let ?v = "?w\<lparr>socket_events := enqueued (clock ?w) EVENT_SEND (socket_events ?w)\<rparr>"
  have "socket_event T EVENT_SEND (?w, Opening) = Some (?v, Opening)" using deq by simp
  then obtain m' where "run_socket T (Suc n) m = run_socket T n m'" "at_socket Opening ?v m'"
    by (rule run_step [OF m(1) queue known_socket_events(1)])
  moreover have "serving [EVENT_OPEN_SOCKET, EVENT_SEND] ?v" using m(2) deq by (simp add: serving_def)
  ultimately show thesis by (intro that [of m' ?v]) simp_all
qed

lemma opening_ends:
  assumes quiet: "driver_quiet T"
    and m: "at_socket Opening w m" "serving [EVENT_SEND, EVENT_OPEN_SOCKET] w"
    and retries: "open_socket_retries w = of_nat (3 - j)" "0 < j" "j \<le> 3"
  shows "\<exists>m'. run_socket T (2 * j + 2) m = Some m' \<and> served T m'"
  using m retries
proof (induction j arbitrary: w m)
  case (Suc j)
  have calls: "2 * Suc j + 2 = Suc (2 * j + 3)" "2 * j + 3 = Suc (2 * j + 2)" by simp_all
  obtain w1 m1 where m1: "run_socket T (2 * Suc j + 2) m = run_socket T (2 * j + 3) m1" "at_socket Opening w1 m1"
      "serving [EVENT_OPEN_SOCKET, EVENT_SEND] w1" "open_socket_retries w1 = of_nat (3 - Suc j)"
    unfolding calls(1) Suc.prems(3) [symmetric] by (rule request_rotates [OF Suc.prems(1,2)])
  from m1(3) have queue: "socket_queue w1" "socket_waiting w1 = [EVENT_OPEN_SOCKET, EVENT_SEND]" by (simp_all add: serving_def)
  note deq = socket_process_first(2,3) [OF m1(2) queue, simplified]
  let ?w = "w1\<lparr>socket_events := dequeued (socket_events w1)\<rparr>"
  let ?f = "open_call T (parameters w1)"
  have "SocketClosed \<notin> set (fst (snd (?f (driver ?w))))" "timeout_timer ?w = 0"
    using quiet m1(3) by (simp_all add: driver_quiet_def serving_def)
  then obtain v where v: "call_driver T ?f ?w = Some (fst (?f (driver w1)), v)" "socket_events v = socket_events ?w"
    "timeout_timer v = 0" "data_size v = data_size w1" "packet_buffer v = packet_buffer w1"
    "socket_data v = socket_data w1" "open_socket_retries v = open_socket_retries w1"
    by (rule call_quiet) simp
  let ?v = "v\<lparr>open_socket_id := fst (?f (driver w1))\<rparr>"
  let ?u = "?v\<lparr>open_socket_retries := open_socket_retries v + 1\<rparr>"
  note step = run_step [OF m1(2) queue known_socket_events(3)]
  consider (opened) "0 \<le> fst (?f (driver w1))" | (failed) "\<not> 0 \<le> fst (?f (driver w1))" "j = 0"
    | (again) "\<not> 0 \<le> fst (?f (driver w1))" "0 < j" by blast
  then show ?case
  proof cases
    case opened
    have "socket_event T EVENT_OPEN_SOCKET (?w, Opening) = Some (leave_opening ?v, Ready)"
      using opened v(1) by (simp add: opens_def)
    then obtain m2 where m2: "run_socket T (2 * j + 3) m1 = run_socket T (2 * j + 2) m2" "at_socket Ready (leave_opening ?v) m2"
      unfolding calls(2) by (rule step)
    have "serving [EVENT_SEND] (leave_opening ?v)"
      using v m1(3) deq by (simp add: serving_def leave_opening_def record_time_def)
    then obtain m' where "run_socket T (Suc (Suc (2 * j))) m2 = Some m'" "served T m'" by (rule ready_sends [OF quiet m2(2)])
    with m1(1) m2(1) show ?thesis by simp
  next
    case failed
    let ?x = "set_socket_error (code_operation_failed T) STATE_OPENING_SOCKET ?u"
    have "outcome (socket_event T EVENT_OPEN_SOCKET (?w, Opening))"
      using failed v m1(4) deq error_set [of STATE_OPENING_SOCKET "code_operation_failed T" ?u]
      by (simp add: opens_def fail_def outcome_def leave_opening_def record_time_def OPEN_SOCKET_MAX_RETRIES_def)
    then obtain m' where "run_socket T (Suc (Suc (2 * j + 1))) m1 = Some m'" "served T m'"
      by (rule outcome_served [OF m1(2) queue known_socket_events(3)])
    moreover have "Suc (Suc (2 * j + 1)) = 2 * j + 3" by simp
    ultimately show ?thesis using m1(1) by metis
  next
    case again
    let ?x = "?u\<lparr>socket_events := enqueued (clock ?u) EVENT_OPEN_SOCKET (socket_events ?u)\<rparr>"
    have retries: "open_socket_retries ?u = of_nat (3 - j)" "open_socket_retries ?u \<noteq> OPEN_SOCKET_MAX_RETRIES"
      using v(7) m1(4) again(2) Suc.prems(5) by (auto simp: OPEN_SOCKET_MAX_RETRIES_def numeral_3_eq_3 le_Suc_eq)
    have "socket_event T EVENT_OPEN_SOCKET (?w, Opening) = Some (?x, Opening)"
      using again(1) v(1,2) retries(2) deq by (simp add: opens_def)
    then obtain m2 where m2: "run_socket T (2 * j + 3) m1 = run_socket T (2 * j + 2) m2" "at_socket Opening ?x m2"
      unfolding calls(2) by (rule step)
    have "serving [EVENT_SEND, EVENT_OPEN_SOCKET] ?x" using v m1(3) deq by (simp add: serving_def)
    with Suc.IH [OF m2(2)] again(2) retries(1) Suc.prems(5) m1(1) m2(1) show ?thesis by simp
  qed
qed simp

text \<open>C7: A request to send, made to a module that is shut and has its parameters, ends after at most nine
  processing calls, whatever the driver answers, unless it tells that the socket was closed: the socket is
  open and the result is a success, or the module is shut again and the result has an error, and
  nothing waits.\<close>

theorem send_request_ends:
  assumes "at_socket Shut (world m) m" "socket_queue (world m)" "socket_waiting (world m) = []" "timeout_timer (world m) = 0"
    and "parameters_set T (parameters (world m))" "unat n \<le> length (packet_buffer (world m))" "driver_quiet T"
  shows "\<exists>m1 m'. lift_world (socket_send n) m = Some m1 \<and> run_socket T 9 m1 = Some m' \<and> socket_waiting (world m') = [] \<and>
    (at_socket Ready (world m') m' \<and> cmd_error (socket_data (world m')) = 0 \<or>
     at_socket Shut (world m') m' \<and> cmd_error (socket_data (world m')) \<noteq> 0)"
proof -
  let ?w = "world m"
  let ?w1 = "?w\<lparr>data_size := n, socket_data := zero_module_data, socket_events := enqueued (clock ?w) EVENT_SEND (socket_events ?w)\<rparr>"
  let ?m1 = "m\<lparr>world := ?w1\<rparr>"
  have start: "lift_world (socket_send n) m = Some ?m1" using assms(2) by (simp add: lift_world_def socket_send_def)
  have shut: "at_socket Shut ?w1 ?m1" and queue: "socket_queue ?w1" "socket_waiting ?w1 = [EVENT_SEND]"
    using at_socket_world(2) [OF assms(1)] assms(2,3) by simp_all
  note deq = socket_process_first(2,3) [OF shut queue, simplified]
  let ?w2 = "?w1\<lparr>socket_events := dequeued (socket_events ?w1)\<rparr>"
  let ?w3 = "?w2\<lparr>socket_events := enqueued (clock ?w2) EVENT_SEND (socket_events ?w2)\<rparr>"
  let ?w4 = "?w3\<lparr>socket_responses := socket_responses ?w3 @ [''STATUS CONNECTING_TO_SERVER;''], tick_counter := 1, open_socket_retries := 0\<rparr>"
  let ?w5 = "?w4\<lparr>socket_events := enqueued (clock ?w4) EVENT_OPEN_SOCKET (socket_events ?w4)\<rparr>"
  have "socket_event T EVENT_SEND (?w2, Shut) = Some (?w5, Opening)"
    using assms(5) deq by (simp add: begin_opening_def)
  then obtain m2 where m2: "run_socket T (Suc 8) ?m1 = run_socket T 8 m2" "at_socket Opening ?w5 m2"
    by (rule run_step [OF shut queue known_socket_events(1)])
  have "serving [EVENT_SEND, EVENT_OPEN_SOCKET] ?w5"
    using deq assms(4,6) by (simp add: serving_def zero_module_data_def)
  from opening_ends [OF assms(7) m2(2) this, of 3] obtain m' where "run_socket T 8 m2 = Some m'" "served T m'" by auto
  with start m2(1) show ?thesis by (auto simp: served_def simp del: run_socket.simps)
qed

section \<open>Waiting for data\<close>

datatype happening = Call | Second

fun happens :: "('v, 'h) transport \<Rightarrow> happening list \<Rightarrow> ('v, 'h) socketm \<Rightarrow> ('v, 'h) socketm option" where
  "happens T [] m = Some m"
| "happens T (Call # xs) m = do { (_, m) \<leftarrow> socket_process_event T m; happens T xs m }"
| "happens T (Second # xs) m = do { m \<leftarrow> lift_world (hear T SecondExpired) m; happens T xs m }"

definition driver_silent :: "('v, 'h) transport \<Rightarrow> bool" where
  "driver_silent T \<longleftrightarrow> (\<forall>i n h. receive_call T i n h = ((0, []), [], h))"

text \<open>Nothing was received and \<open>k\<close> seconds are left; at the end the time-out waits, or was processed.\<close>

definition awaiting :: "u8 \<Rightarrow> nat \<Rightarrow> ('v, 'h) socketm \<Rightarrow> bool" where
  "awaiting c k m \<longleftrightarrow> (let w = world m in socket_queue w \<and> cmd_error (socket_data w) = c \<and> at_socket Awaiting w m \<and>
     socket_waiting w = [EVENT_RECEIVE] \<and> timeout_timer w = of_nat k)"

definition timing_out :: "u8 \<Rightarrow> nat \<Rightarrow> ('v, 'h) socketm \<Rightarrow> bool" where
  "timing_out c calls m \<longleftrightarrow> (let w = world m in socket_queue w \<and> cmd_error (socket_data w) = c \<and> timeout_timer w = 0 \<and>
     (calls = 2 \<and> at_socket Awaiting w m \<and> socket_waiting w = [EVENT_RECEIVE, EVENT_TIMEOUT] \<or>
      received_data_size w = 0 \<and>
      (calls = 1 \<and> at_socket Awaiting w m \<and> socket_waiting w = [EVENT_TIMEOUT, EVENT_RECEIVE] \<or>
       calls = 0 \<and> at_socket Ready w m \<and> socket_waiting w = [])))"

lemma call_receives:
  assumes "driver_silent T" "at_socket Awaiting w m" "socket_queue w" "socket_waiting w = EVENT_RECEIVE # es"
    and "length es < 10"
  obtains b m' where "socket_process_event T m = Some (True, m')"
    "at_socket Awaiting (w\<lparr>socket_events := b, received_data_size := 0\<rparr>) m'" "event_fifo b"
    "event_types b = es @ [EVENT_RECEIVE]"
proof -
  have "EVENT_RECEIVE \<noteq> EVENT_ENTERING_STATE" "EVENT_RECEIVE \<noteq> EVENT_LEAVING_STATE" by simp_all
  note run = socket_process_first(1) [OF assms(2-4) this, of T] socket_process_first(2,3) [OF assms(2-4) this]
  let ?w = "w\<lparr>socket_events := dequeued (socket_events w)\<rparr>"
  let ?b = "enqueued (clock w) EVENT_RECEIVE (dequeued (socket_events w))"
  have "socket_event T EVENT_RECEIVE (?w, Awaiting) = Some (w\<lparr>socket_events := ?b, received_data_size := 0\<rparr>, Awaiting)"
    using run assms(1) by (cases w) (simp add: receives_def receive_data_def call_driver_def driver_silent_def)
  with run(1) obtain m' where "socket_process_event T m = Some (True, m')"
    "at_socket Awaiting (w\<lparr>socket_events := ?b, received_data_size := 0\<rparr>) m'" by (auto simp: reaches_def option_rel_Some2)
  with run(2,3) assms(5) show thesis by (intro that [of m' ?b]) simp_all
qed

lemma call_awaiting:
  assumes "driver_silent T" "awaiting c k m"
  obtains m' where "socket_process_event T m = Some (True, m')" "awaiting c k m'"
proof -
  let ?w = "world m"
  from assms(2) have w: "at_socket Awaiting ?w m" "socket_queue ?w" "socket_waiting ?w = [EVENT_RECEIVE]"
    "cmd_error (socket_data ?w) = c" "timeout_timer ?w = of_nat k" by (auto simp: awaiting_def Let_def)
  obtain b m' where m': "socket_process_event T m = Some (True, m')"
    "at_socket Awaiting (?w\<lparr>socket_events := b, received_data_size := 0\<rparr>) m'" "event_fifo b" "event_types b = [EVENT_RECEIVE]"
    by (rule call_receives [OF assms(1) w(1-3)]) auto
  with at_socket_world(1) [OF m'(2)] w that show thesis by (auto simp: awaiting_def)
qed

lemma second_awaiting:
  assumes "awaiting c (Suc k) m" "k < 3"
  obtains m' where "lift_world (hear T SecondExpired) m = Some m'"
    "if k = 0 then timing_out c 2 m' else awaiting c k m'"
proof -
  let ?w = "world m"
  from assms(1) have w: "at_socket Awaiting ?w m" "socket_queue ?w" "socket_waiting ?w = [EVENT_RECEIVE]"
    "cmd_error (socket_data ?w) = c" "timeout_timer ?w = of_nat (Suc k)" by (auto simp: awaiting_def Let_def)
  note leaf = at_socket_world(2) [OF w(1)]
  have k: "k = 0 \<or> k = 1 \<or> k = 2" using assms(2) by auto
  show thesis
  proof (cases "k = 0")
    case True
    with w leaf show ?thesis
      by (intro that) (auto simp: lift_world_def hear_def second_expired_listener_def timing_out_def)
  next
    case False
    let ?v = "?w\<lparr>timeout_timer := of_nat k\<rparr>"
    have "(of_nat (Suc k) :: u8) \<noteq> 0" "(of_nat k :: u8) \<noteq> 0" "(of_nat (Suc k) :: u8) - 1 = of_nat k" using k False by auto
    with w(5) have "lift_world (hear T SecondExpired) m = Some (m\<lparr>world := ?v\<rparr>)"
      by (simp add: lift_world_def hear_def second_expired_listener_def del: of_nat_Suc)
    moreover have "awaiting c k (m\<lparr>world := ?v\<rparr>)" using w(2-4) leaf [of ?v] by (simp add: awaiting_def)
    ultimately show ?thesis using False by (intro that) simp_all
  qed
qed

lemma call_timing_out:
  assumes "driver_silent T" "timing_out c n m"
  obtains p m' where "socket_process_event T m = Some (p, m')" "timing_out c (n - 1) m'"
proof -
  let ?w = "world m"
  from assms(2) have w: "socket_queue ?w" "cmd_error (socket_data ?w) = c" "timeout_timer ?w = 0"
    by (auto simp: timing_out_def Let_def)
  from assms(2) consider (two) "n = 2" "at_socket Awaiting ?w m" "socket_waiting ?w = [EVENT_RECEIVE, EVENT_TIMEOUT]"
    | (one) "n = 1" "at_socket Awaiting ?w m" "socket_waiting ?w = [EVENT_TIMEOUT, EVENT_RECEIVE]" "received_data_size ?w = 0"
    | (none) "n = 0" "at_socket Ready ?w m" "socket_waiting ?w = []" "received_data_size ?w = 0"
    by (auto simp: timing_out_def Let_def)
  then show thesis
  proof cases
    case two
    obtain b m' where m': "socket_process_event T m = Some (True, m')"
      "at_socket Awaiting (?w\<lparr>socket_events := b, received_data_size := 0\<rparr>) m'" "event_fifo b"
      "event_types b = [EVENT_TIMEOUT, EVENT_RECEIVE]"
      by (rule call_receives [OF assms(1) two(2) w(1) two(3)]) auto
    with at_socket_world(1) [OF m'(2)] w two(1) that show thesis by (auto simp: timing_out_def)
  next
    case one
    have "EVENT_TIMEOUT \<noteq> EVENT_ENTERING_STATE" "EVENT_TIMEOUT \<noteq> EVENT_LEAVING_STATE" by simp_all
    note run = socket_process_first(1) [OF one(2) w(1) one(3) this, of T] socket_process_first(2,3) [OF one(2) w(1) one(3) this]
    let ?d = "dequeued (socket_events ?w)"
    let ?v = "leave_receiving (?w\<lparr>socket_events := emptied ?d\<rparr>)"
    have "socket_event T EVENT_TIMEOUT (?w\<lparr>socket_events := ?d\<rparr>, Awaiting) = Some (?v, Ready)" using run by simp
    with run(1) obtain m' where m': "socket_process_event T m = Some (True, m')" "at_socket Ready ?v m'"
      by (auto simp: reaches_def option_rel_Some2)
    have "timing_out c 0 m'"
      using at_socket_world(1) [OF m'(2)] m'(2) run w one(4)
      by (simp add: timing_out_def leave_receiving_def record_time_def schedule_timeout_def)
    with m'(1) one(1) show thesis by (intro that [of True m']) simp_all
  next
    case none
    let ?m = "m\<lparr>world := ?w\<lparr>socket_events := dequeued (socket_events ?w)\<rparr>\<rparr>"
    have "timing_out c 0 ?m"
      using socket_process_empty(2,3) [OF w(1) none(3)] at_socket_world(2) [OF none(2)] w none(4) by (simp add: timing_out_def)
    with socket_process_empty(1) [OF w(1) none(3), of T] none(1) show thesis by (intro that [of False ?m]) simp_all
  qed
qed

lemma second_timing_out: "timing_out c n m \<Longrightarrow> lift_world (hear T SecondExpired) m = Some m"
  by (cases m) (auto simp: timing_out_def lift_world_def hear_def second_expired_listener_def Let_def)

lemma happens_timing_out:
  assumes "driver_silent T" "timing_out c n m"
  shows "\<exists>m'. happens T (xs @ [Call, Call]) m = Some m' \<and> timing_out c 0 m'"
  using assms(2)
proof (induction xs arbitrary: n m)
  case Nil
  have "n \<le> 2" using Nil by (auto simp: timing_out_def Let_def)
  obtain p1 m1 where m1: "socket_process_event T m = Some (p1, m1)" "timing_out c (n - 1) m1"
    using call_timing_out [OF assms(1) Nil] .
  obtain p2 m2 where "socket_process_event T m1 = Some (p2, m2)" "timing_out c (n - 1 - 1) m2"
    using call_timing_out [OF assms(1) m1(2)] .
  moreover have "n - 1 - 1 = 0" using \<open>n \<le> 2\<close> by simp
  ultimately show ?case using m1(1) by auto
next
  case (Cons x xs)
  show ?case
  proof (cases x)
    case Call
    obtain p m1 where m1: "socket_process_event T m = Some (p, m1)" "timing_out c (n - 1) m1"
      using call_timing_out [OF assms(1) Cons.prems] .
    with Cons.IH [OF m1(2)] Call show ?thesis by auto
  next
    case Second
    with Cons.IH [OF Cons.prems] second_timing_out [OF Cons.prems, of T] show ?thesis by simp
  qed
qed

lemma happens_awaiting:
  assumes "driver_silent T" "awaiting c k m" "0 < k" "k \<le> 3" "k \<le> count_list xs Second"
  shows "\<exists>m'. happens T (xs @ [Call, Call]) m = Some m' \<and> timing_out c 0 m'"
  using assms(2-5)
proof (induction xs arbitrary: k m)
  case (Cons x xs)
  show ?case
  proof (cases x)
    case Call
    obtain m1 where "socket_process_event T m = Some (True, m1)" "awaiting c k m1"
      using call_awaiting [OF assms(1) Cons.prems(1)] .
    with Cons.IH [of k m1] Cons.prems(2-4) Call show ?thesis by auto
  next
    case Second
    from Cons.prems(2) obtain j where j: "k = Suc j" by (cases k) auto
    have "awaiting c (Suc j) m" "j < 3" using Cons.prems(1,3) j by simp_all
    then obtain m1 where m1: "lift_world (hear T SecondExpired) m = Some m1"
      "if j = 0 then timing_out c 2 m1 else awaiting c j m1" by (rule second_awaiting)
    show ?thesis
    proof (cases "j = 0")
      case True
      with m1 happens_timing_out [OF assms(1), of c 2 m1 xs] Second show ?thesis by simp
    next
      case False
      with m1 Cons.IH [of j m1] Cons.prems(3,4) j Second show ?thesis by auto
    qed
  qed
qed simp

text \<open>C18: Waiting for data that never come ends with the third second: however the processing calls fall
  between the seconds, two calls after the third the socket is open, nothing waits, no byte was received,
  and no error was added, so that the reception counts as a success.\<close>

theorem silent_reception_times_out:
  assumes "at_socket Awaiting (world m) m" "socket_queue (world m)" "socket_waiting (world m) = [EVENT_RECEIVE]"
    and "timeout_timer (world m) = RECEIVE_TIMEOUT" "driver_silent T" "3 \<le> count_list xs Second"
  shows "\<exists>m'. happens T (xs @ [Call, Call]) m = Some m' \<and> at_socket Ready (world m') m' \<and> socket_waiting (world m') = [] \<and>
    received_data_size (world m') = 0 \<and> cmd_error (socket_data (world m')) = cmd_error (socket_data (world m))"
proof -
  have "awaiting (cmd_error (socket_data (world m))) 3 m"
    using assms(1-4) by (simp add: awaiting_def RECEIVE_TIMEOUT_def)
  from happens_awaiting [OF assms(5) this, of xs] assms(6) show ?thesis by (auto simp: timing_out_def Let_def)
qed

text \<open>A request to close the socket is lost when its turn comes while the socket is still being opened:
  the module goes on opening, and the driver is not called.\<close>

theorem close_lost_while_opening:
  assumes "at_socket Opening (world m) m" "socket_queue (world m)" "socket_waiting (world m) = EVENT_CLOSE_SOCKET # es"
  shows "\<exists>b m'. socket_process_event T m = Some (True, m') \<and>
    at_socket Opening ((world m)\<lparr>socket_events := b\<rparr>) m' \<and> event_types b = es"
proof -
  have "EVENT_CLOSE_SOCKET \<noteq> EVENT_ENTERING_STATE" "EVENT_CLOSE_SOCKET \<noteq> EVENT_LEAVING_STATE" by simp_all
  from socket_process_first(1) [OF assms this, of T] socket_process_first(3) [OF assms this] show ?thesis
    by (auto simp: reaches_def option_rel_Some2)
qed

end
