(* ===== verification/Socket_Witnesses.thy ===== *)
theory Socket_Witnesses
  imports App_Witnesses Socket_Ends Tcp_Module
begin

text \<open>
  The theorems about the socket machine on the TCP module, with a driver that always opens and closes, sends
  all it is given, and receives nothing.
\<close>

section \<open>The instance\<close>

definition sample_tcp :: "nat tcp_dependencies" where
  "sample_tcp = \<lparr>open_socket = (\<lambda>_ _ _ h. (1, [], h)), close_socket = (\<lambda>_ h. (True, [], h)),
     tcp_receive = (\<lambda>_ _ h. ((0, []), [], h)), tcp_send = (\<lambda>_ bs h. (int (length bs), [], h + length bs))\<rparr>"

definition sample_socket :: "event list \<Rightarrow> u8 \<Rightarrow> (config, nat) socket" where
  "sample_socket evs t = \<lparr>socket_events = filled \<lparr>event_type = 0, event_timestamp = 0\<rparr> 10 20 True evs,
     data_size = 0, buffer_size = 0, packet_buffer = replicate 8 0, received_data_size = 0, open_socket_id = 1,
     timeout_timer = t, socket_data = zero_module_data, platform_specific_error_code = 0, tick_counter = 0,
     open_socket_retries = 0, parameters = sample_config\<lparr>cfg_hostname := CHR ''h'' # replicate 29 NUL\<rparr>,
     clock = 0, socket_responses = [], driver = 0\<rparr>"

definition sample_socketm :: "socket_mode \<Rightarrow> event list \<Rightarrow> u8 \<Rightarrow> (config, nat) socketm" where
  "sample_socketm md evs t = socket_mode_tree md None (sample_socket evs t)"

lemma sample_socketm_world [simp]: "world (sample_socketm md evs t) = sample_socket evs t"
  by (cases md) (simp_all add: sample_socketm_def)

lemma sample_at_socket: "at_socket md (world (sample_socketm md evs t)) (sample_socketm md evs t)"
  unfolding at_socket_def by (intro exI [of _ "None :: nat option"]) (cases md; simp add: sample_socketm_def)

lemma sample_socket_waiting:
  assumes "length evs < 10"
  shows "socket_queue (sample_socket evs t)" "socket_waiting (sample_socket evs t) = map event_type evs"
  using assms by (simp_all add: sample_socket_def event_fifo_def event_queue_def event_types_def filled)

lemma sample_socket_simps [simp]:
  "timeout_timer (sample_socket evs t) = t" "length (packet_buffer (sample_socket evs t)) = 8"
  "parameters_set (tcp_transport D) (parameters (sample_socket evs t))"
  "data_size (sample_socket evs t) = 0" "buffer_size (sample_socket evs t) = 0" "socket_data (sample_socket evs t) = zero_module_data"
  by (simp_all add: sample_socket_def tcp_transport_def connection_parameters_set_def sample_config_def)

lemma sample_tcp_quiet: "driver_quiet (tcp_transport sample_tcp)"
  by (simp add: driver_quiet_def tcp_transport_def sample_tcp_def)

lemma sample_tcp_silent: "driver_silent (tcp_transport sample_tcp)"
  by (simp add: driver_silent_def tcp_transport_def sample_tcp_def)

lemma sample_tcp_fits: "driver_fits (tcp_transport sample_tcp)"
  by (simp add: driver_fits_def tcp_transport_def sample_tcp_def)

section \<open>The theorems\<close>

lemma socket_follows_table_witness:
  "reaches (state_machine_process_event (socket_handlers (tcp_transport sample_tcp) (socket_transition (tcp_transport sample_tcp)))
      Root EVENT_SEND (sample_socketm Ready [] 0))
    (socket_event (tcp_transport sample_tcp) EVENT_SEND (world (sample_socketm Ready [] 0), Ready))"
  by (rule socket_follows_table [OF sample_at_socket]) simp_all

lemma send_request_ends_witness:
  "\<exists>m1 m'. lift_world (socket_send 5) (sample_socketm Shut [] 0) = Some m1 \<and>
     run_socket (tcp_transport sample_tcp) 9 m1 = Some m' \<and> socket_waiting (world m') = [] \<and>
     (at_socket Ready (world m') m' \<and> cmd_error (socket_data (world m')) = 0 \<or>
      at_socket Shut (world m') m' \<and> cmd_error (socket_data (world m')) \<noteq> 0)"
  by (rule send_request_ends [OF sample_at_socket]) (simp_all add: sample_socket_waiting sample_tcp_quiet)

lemma silent_reception_times_out_witness:
  "\<exists>m'. happens (tcp_transport sample_tcp) ([Call, Second, Second, Call, Call, Second] @ [Call, Call])
       (sample_socketm Awaiting [sample_event EVENT_RECEIVE] RECEIVE_TIMEOUT) = Some m' \<and>
     at_socket Ready (world m') m' \<and> socket_waiting (world m') = [] \<and> received_data_size (world m') = 0 \<and>
     cmd_error (socket_data (world m')) = 0"
proof -
  let ?m = "sample_socketm Awaiting [sample_event EVENT_RECEIVE] RECEIVE_TIMEOUT"
  have "at_socket Awaiting (world ?m) ?m" "socket_queue (world ?m)" "socket_waiting (world ?m) = [EVENT_RECEIVE]"
    "timeout_timer (world ?m) = RECEIVE_TIMEOUT" "3 \<le> count_list [Call, Second, Second, Call, Call, Second] Second"
    by (rule sample_at_socket) (simp_all add: sample_socket_waiting sample_event_def)
  from silent_reception_times_out [OF this(1-4) sample_tcp_silent this(5)] show ?thesis
    by (simp add: zero_module_data_def)
qed

lemma close_lost_while_opening_witness:
  "\<exists>b m'. socket_process_event (tcp_transport sample_tcp) (sample_socketm Opening [sample_event EVENT_CLOSE_SOCKET] 0) = Some (True, m') \<and>
     at_socket Opening ((sample_socket [sample_event EVENT_CLOSE_SOCKET] 0)\<lparr>socket_events := b\<rparr>) m' \<and> event_types b = []"
proof -
  let ?m = "sample_socketm Opening [sample_event EVENT_CLOSE_SOCKET] 0"
  have "at_socket Opening (world ?m) ?m" "socket_queue (world ?m)" "socket_waiting (world ?m) = EVENT_CLOSE_SOCKET # []"
    by (rule sample_at_socket) (simp_all add: sample_socket_waiting sample_event_def)
  from close_lost_while_opening [OF this] show ?thesis by simp
qed

text \<open>The life of a module that was told to send.\<close>

lemma socket_well_formed_witness:
  "\<exists>m. socket_reachable (tcp_transport sample_tcp) m \<and> (\<exists>md m'. at_socket md (world m) m \<and>
     (\<forall>e \<in> set (socket_waiting (world m)). e < 6) \<and> (md = Ready \<or> md = Awaiting \<longrightarrow> 0 \<le> open_socket_id (world m)) \<and>
     (timeout_timer (world m) \<noteq> 0 \<longrightarrow> md = Awaiting) \<and>
     socket_process_event (tcp_transport sample_tcp) m = Some (socket_waiting (world m) \<noteq> [], m'))"
proof -
  let ?T = "tcp_transport sample_tcp"
  let ?m = "sample_socketm Shut [] 0"
  have m: "length (state_current ?m) = 6" "length (state_parent ?m) = 6" "length (cb_storage (socket_events (world ?m))) = 10"
    "data_size (world ?m) = 0" "buffer_size (world ?m) = 0" "timeout_timer (world ?m) = 0" "0 < unat (20 :: u16)" "unat (20 :: u16) < 6553"
    by (simp_all add: sample_socketm_def socket_tree_def socket_parents_def) (simp add: sample_socket_def filled_def)
  from init_socket_module_ok [OF m(1-3,7,8), of ?T True] obtain b where
    b: "init_socket_module ?T True 20 ?m = Some (socket_tree STATE_SOCKET_CLOSED None ((world ?m)\<lparr>socket_events := b\<rparr>))"
      "event_fifo b" by metis
  have "socket_reachable ?T (socket_tree STATE_SOCKET_CLOSED None ((world ?m)\<lparr>socket_events := b\<rparr>))"
    by (rule socket_reachable.start [OF m(1-3,7,8,4-6) b(1)])
  moreover obtain m where "lift_world (socket_send 5) (socket_tree STATE_SOCKET_CLOSED None ((world ?m)\<lparr>socket_events := b\<rparr>)) = Some m"
    using b(2) by (auto simp: socket_send_def post_socket_event_def)
  ultimately have "socket_reachable ?T m" by (elim socket_reachable.send) simp_all
  with socket_well_formed [OF this sample_tcp_fits] show ?thesis by blast
qed

end
