(* ===== verification/Wifi_Effects.thy ===== *)
theory Wifi_Effects
  imports Wifi_Life
begin

text \<open>
  What a disconnect and a failure do to the Wi-Fi module (\<open>SDK/core/wifi_communication_module.c\<close>) and to the sockets
  below it.
\<close>

section \<open>Disconnecting\<close>

lemma wifi_call_silent: "fst (snd (f (wifi_driver w))) = [] \<Longrightarrow>
    wifi_call D f w = Some (fst (f (wifi_driver w)), w\<lparr>wifi_driver := snd (snd (f (wifi_driver w)))\<rparr>)"
  by (simp add: wifi_call_def split_def Let_def)

text \<open>C40: A disconnect in the connected state, which the driver accepts without a signal, leaves the sockets
  open: the module is disconnecting, the driver was called once, to leave the network, and the TCP and UDP modules are
  as before, so that an open TCP module goes on using a socket of the network that was left.\<close>

theorem disconnect_leaves_socket_open:
  assumes "at_wifi STATE_WIFI_CONNECTED (world m) m" "event_fifo (wifi_events (world m))"
    and "wifi_waiting (world m) = EVENT_WIFI_DISCONNECT # es"
    and "wifi_disconnect D (wifi_driver (world m)) = (True, [], h)"
  shows "\<exists>m'. wifi_communication_module_process_event D m = Some (True, m') \<and>
    at_wifi STATE_WIFI_DISCONNECTING (world m') m' \<and> wifi_driver (world m') = h \<and>
    tcp_module (world m') = tcp_module (world m) \<and> udp_module (world m') = udp_module (world m)"
proof -
  note first = wifi_process_first [OF assms(1-3)]
  let ?w = "(world m)\<lparr>wifi_events := dequeued (wifi_events (world m))\<rparr>"
  let ?b = "enqueued (wifi_clock (world m)) EVENT_WIFI_DISCONNECT_SOCKET_CLOSED (dequeued (wifi_events (world m)))"
  have fifo: "event_fifo (dequeued (wifi_events (world m)))" by (rule first(2)) simp
  then obtain w' where "wifi_event D EVENT_WIFI_DISCONNECT (?w, STATE_WIFI_CONNECTED) = Some (w', STATE_WIFI_DISCONNECTING)"
    "wifi_driver w' = h" "tcp_module w' = tcp_module (world m)" "udp_module w' = udp_module (world m)"
    using assms(4)
    by (simp add: wifi_event_def connected_row_def add_wifi_communication_module_event_type_def start_disconnecting_def
        wifi_call_silent rests_def schedule_wifi_sequence_timeout_def send_wifi_response_def wifi_stopwatch_start_def)
  moreover have "rel_option (\<lambda>(p, m') (w', l'). p \<and> at_wifi l' w' m') (wifi_communication_module_process_event D m)
      (wifi_event D EVENT_WIFI_DISCONNECT (?w, STATE_WIFI_CONNECTED))" by (rule first(1)) simp
  ultimately obtain m' where m': "wifi_communication_module_process_event D m = Some (True, m')"
    "at_wifi STATE_WIFI_DISCONNECTING w' m'" by (auto simp: option_rel_Some2)
  with at_wifi_world(1) [OF m'(2)] \<open>wifi_driver w' = h\<close> \<open>tcp_module w' = tcp_module (world m)\<close> \<open>udp_module w' = udp_module (world m)\<close>
  show ?thesis by auto
qed


section \<open>Failing\<close>

abbreviation wifi_error_code :: "'h wifi \<Rightarrow> u8" where
  "wifi_error_code w \<equiv> cmd_error (wifi_communication_module_data w)"

text \<open>A close request was put into the queue of the socket machine.\<close>

definition told_to_close :: "('v, 'h) socketm \<Rightarrow> bool" where
  "told_to_close m \<longleftrightarrow> EVENT_CLOSE_SOCKET \<in> set (socket_waiting (world m))"

lemma last_is_kept: "0 < n \<Longrightarrow> x \<in> set (keep_last n (xs @ [x]))"
  by (cases "length xs + 1 - n \<le> length xs") (auto simp: keep_last_def)

lemma close_told:
  assumes "socket_sound m"
  obtains m' where "lift_world socket_close m = Some m'" "told_to_close m'" "driver (world m') = driver (world m)"
proof -
  from assms have "socket_queue (world m)" by (auto simp: socket_sound_def socket_ok_def socket_events_known_def)
  with that show thesis
    by (auto simp: lift_world_def socket_close_def told_to_close_def last_is_kept)
qed

lemma close_both_tells:
  assumes "wifi_ok sz a b w"
  obtains w' where "close_both_sockets D w = Some w'" "wifi_communication_module_data w' = wifi_communication_module_data w"
    "told_to_close (tcp_module w')" "told_to_close (udp_module w')"
proof -
  obtain t where t: "lift_world socket_close (lend_tcp w) = Some t" "told_to_close t" "driver (world t) = driver (world (lend_tcp w))"
    using lend_sound(1) [OF assms] by (rule close_told)
  have v: "with_tcp D tcp_communication_module_close_socket w = Some (w\<lparr>tcp_module := t, wifi_packet_buffer := packet_buffer (world t),
      wifi_received_data_size := received_data_size (world t), wifi_responses := socket_responses (world t)\<rparr>)"
    (is "_ = Some ?v")
    using t(1,3) by (simp add: with_tcp_def tcp_communication_module_close_socket_def return_tcp_def Let_def lend_tcp_def change_world_def)
  have "all_ok sz a b (Some ?v)" using operations_ok(3) [OF assms, of D] by (simp only: v)
  then have "wifi_ok sz a {TCP_PROCESS} (?v\<lparr>tcp_process_handle := Some TCP_PROCESS\<rparr>)" (is "wifi_ok sz _ _ ?v'")
    by (simp add: handles_set(2))
  note ok = this
  obtain u where u: "lift_world socket_close (lend_udp ?v') = Some u" "told_to_close u" "driver (world u) = driver (world (lend_udp ?v'))"
    using lend_sound(3) [OF ok] by (rule close_told)
  have x: "with_udp D udp_communication_module_close_socket ?v' = Some (?v'\<lparr>udp_module := u, wifi_packet_buffer := packet_buffer (world u),
      wifi_received_data_size := received_data_size (world u), wifi_responses := socket_responses (world u)\<rparr>)"
    (is "_ = Some ?x")
    using u(1,3) by (simp add: with_udp_def udp_communication_module_close_socket_def return_udp_def Let_def lend_udp_def change_world_def)
  have "all_ok sz a {TCP_PROCESS} (Some ?x)" using operations_ok(6) [OF ok, of D] by (simp only: x)
  then have "event_fifo (wifi_events ?x)" by (simp add: wifi_ok_def)
  then show thesis
    using t(2) u(2)
    by (intro that [of "?x\<lparr>udp_process_handle := Some UDP_PROCESS,
          wifi_events := enqueued (wifi_clock w) EVENT_WIFI_COMMUNICATION_MODULE_PROCESS (wifi_events w)\<rparr>"])
       (simp_all add: close_both_sockets_def v x add_wifi_communication_module_event_type_def)
qed

lemma repost_data: "repost n w = Some w' \<Longrightarrow> wifi_communication_module_data w' = wifi_communication_module_data w"
proof (induction n arbitrary: w)
  case (Suc n)
  then show ?case
    by (fastforce simp: bind_eq_Some_conv Let_def add_wifi_communication_module_event_type_def split: option.splits if_splits prod.splits)
qed simp

lemma failed_code:
  assumes "wifi_ok sz a b w" "r = wifi_failed WIFI_ERROR st w \<or> r = wifi_failed_keeping WIFI_ERROR st w"
  obtains w' where "r = Some w'" "wifi_ok sz a b w'"
    "wifi_error_code w' = (if wifi_error_code w = 0 then WIFI_ERROR OR of_nat st else wifi_error_code w)"
proof -
  let ?v = "set_wifi_communication_module_error WIFI_ERROR st w"
  have code: "wifi_error_code ?v = (if wifi_error_code w = 0 then WIFI_ERROR OR of_nat st else wifi_error_code w)"
    by (simp add: set_wifi_communication_module_error_def change_wifi_data_def)
  from assms(2) have "all_ok sz a b r" using failed_ok [OF assms(1)] by auto
  then obtain w' where w': "r = Some w'" "wifi_ok sz a b w'" by (auto simp: all_ok_def)
  with assms(2) consider "wifi_failed WIFI_ERROR st w = Some w'" | "wifi_failed_keeping WIFI_ERROR st w = Some w'" by auto
  then have "wifi_communication_module_data w' = wifi_communication_module_data ?v"
  proof cases
    case 1
    then show ?thesis by (auto simp: wifi_failed_def clear_wifi_events_def)
  next
    case 2
    then show ?thesis unfolding wifi_failed_keeping_def remove_send_and_receive_events_def by (rule repost_data)
  qed
  with w' code that show thesis by simp
qed

lemma leave_code [simp]: "wifi_error_code (leave_wifi l w) = wifi_error_code w"
  by (simp add: leave_wifi_def leave_leaf_only_def Let_def record_wifi_time_def change_wifi_data_def schedule_wifi_sequence_timeout_def)

lemma wifi_error_row:
  assumes "at_wifi l v m" "l \<noteq> STATE_WIFI_STOPPED" "l \<noteq> STATE_WIFI_RESET"
  shows "\<exists>st r. (r = wifi_failed WIFI_ERROR st w \<or> r = wifi_failed_keeping WIFI_ERROR st w) \<and>
    wifi_event D EVENT_WIFI_ERROR (w, l) = reset_after D l r"
  using at_wifi_leaf [OF assms(1)] assms(2,3)
  by (elim UnE insertE emptyE)
     (auto simp: wifi_event_def disconnected_row_def disconnecting_row_def connecting_row_def connected_row_def closing_row_def
        exchanging_row_def wifi_lost_def Let_def)

text \<open>C17: From whatever it does, unless it is stopped or resetting already, a well formed module answers an error
  of the Wi-Fi chip by going to its reset state: both sockets are told to close, and an error is reported,
  the first one of the operation.\<close>

theorem wifi_error_resets:
  assumes "at_wifi l (world m) m" "wifi_ok sz False {} (world m)" "l \<noteq> STATE_WIFI_STOPPED" "l \<noteq> STATE_WIFI_RESET"
    and "wifi_waiting (world m) = EVENT_WIFI_ERROR # es"
  shows "\<exists>m'. wifi_communication_module_process_event D m = Some (True, m') \<and> at_wifi STATE_WIFI_RESET (world m') m' \<and>
    told_to_close (tcp_module (world m')) \<and> told_to_close (udp_module (world m')) \<and>
    wifi_error_code (world m') \<noteq> 0 \<and>
    (wifi_error_code (world m) \<noteq> 0 \<longrightarrow> wifi_error_code (world m') = wifi_error_code (world m))"
proof -
  have queue: "event_fifo (wifi_events (world m))" using assms(2) by (simp add: wifi_ok_def)
  let ?w = "(world m)\<lparr>wifi_events := dequeued (wifi_events (world m))\<rparr>"
  note first = wifi_process_first(1) [OF assms(1) queue assms(5), of D] wifi_process_first(2,3) [OF assms(1) queue assms(5)]
  have ok: "wifi_ok sz False {} ?w" using first(2,3) assms(2,5) by (simp add: wifi_ok_def)
  from wifi_error_row [OF assms(1,3,4)] obtain st r where r: "r = wifi_failed WIFI_ERROR st ?w \<or> r = wifi_failed_keeping WIFI_ERROR st ?w"
    and row: "wifi_event D EVENT_WIFI_ERROR (?w, l) = reset_after D l r" by blast
  obtain v where v: "r = Some v" "wifi_ok sz False {} v"
    "wifi_error_code v = (if wifi_error_code ?w = 0 then WIFI_ERROR OR of_nat st else wifi_error_code ?w)"
    using ok r by (rule failed_code)
  have "wifi_ok sz False {} (leave_wifi l v)" using v(2) by simp
  then obtain w' where w': "close_both_sockets D (leave_wifi l v) = Some w'"
    "wifi_communication_module_data w' = wifi_communication_module_data (leave_wifi l v)"
    "told_to_close (tcp_module w')" "told_to_close (udp_module w')" by (rule close_both_tells)
  then have "wifi_event D EVENT_WIFI_ERROR (?w, l) = Some (w', STATE_WIFI_RESET)"
    using v(1) row by (simp add: reset_after_def resets_def rests_def)
  with first(1) obtain m' where m': "wifi_communication_module_process_event D m = Some (True, m')" "at_wifi STATE_WIFI_RESET w' m'"
    by (auto simp: option_rel_Some2)
  have "wifi_error_code w' = wifi_error_code v" using w'(2) by simp
  moreover have "WIFI_ERROR OR of_nat st \<noteq> 0" by (simp add: or_eq_0_iff WIFI_ERROR_def)
  ultimately show ?thesis using m' at_wifi_world(1) [OF m'(2)] w'(3,4) v(3) by auto
qed

end
