(* ===== verification/Wifi_Witnesses.thy ===== *)
theory Wifi_Witnesses
  imports Socket_Witnesses Wifi_Effects
begin

text \<open>
  The theorems about the Wi-Fi module on a driver that always succeeds and raises no signal, and a module
  whose sockets are shut.
\<close>

section \<open>The instance\<close>

definition sample_wifi_driver :: "nat wifi_dependencies" where
  "sample_wifi_driver = \<lparr>wifi_start = (\<lambda>h. (True, [], h)), wifi_connect = (\<lambda>_ _ _ h. (True, [], h)),
     wifi_disconnect = (\<lambda>h. (True, [], h + 1)), wifi_stop = (\<lambda>h. (True, [], h)), wifi_reset = (\<lambda>h. (True, [], h)),
     wifi_open_socket = (\<lambda>_ _ _ h. (1, [], h)), wifi_open_udp_socket = (\<lambda>_ _ h. (2, [], h)),
     wifi_close_socket = (\<lambda>_ h. (True, [], h)), wifi_send = (\<lambda>_ bs h. (int (length bs), [], h)),
     wifi_send_to = (\<lambda>_ bs _ _ h. (int (length bs), [], h)), wifi_receive = (\<lambda>_ _ h. ((0, []), [], h)),
     wifi_receive_from = (\<lambda>_ _ h. ((0, []), [], h)), get_ip_address = (\<lambda>h. (''10.0.0.2'', [], h))\<rparr>"

definition sample_part :: "'v \<Rightarrow> ('v, nat logged) socketm" where
  "sample_part v = socket_mode_tree Shut None
     \<lparr>socket_events = filled \<lparr>event_type = 0, event_timestamp = 0\<rparr> 10 20 True [],
      data_size = 0, buffer_size = 0, packet_buffer = replicate 8 0, received_data_size = 0, open_socket_id = - 1,
      timeout_timer = 0, socket_data = zero_module_data, platform_specific_error_code = 0, tick_counter = 0,
      open_socket_retries = 0, parameters = v, clock = 0, socket_responses = [], driver = (0, [])\<rparr>"

definition sample_wifi :: "event list \<Rightarrow> nat wifi" where
  "sample_wifi evs = \<lparr>wifi_events = filled \<lparr>event_type = 0, event_timestamp = 0\<rparr> 10 20 True evs,
     wifi_data_size = 0, wifi_buffer_size = 0, wifi_packet_buffer = replicate 8 0, wifi_received_data_size = 0,
     wifi_sequence_timeout_timer = 0, wifi_tick_counter = 0, wifi_communication_module_data = zero_module_data,
     wifi_platform_code = 0, communication_module_process_handle = Some TCP_PROCESS, tcp_process_handle = Some TCP_PROCESS,
     udp_process_handle = Some UDP_PROCESS, tcp_module = sample_part sample_config,
     udp_module = sample_part \<lparr>bind_address = replicate 15 NUL, bind_port = 0, destination_address = replicate 15 NUL,
       destination_port = 0\<rparr>,
     wifi_config = sample_config, wifi_clock = 0, wifi_responses = [], wifi_driver = 0\<rparr>"

lemma sample_at_connected:
  "at_wifi STATE_WIFI_CONNECTED w (wifi_tree STATE_WIFI_STARTED STATE_WIFI_CONNECTED STATE_WIFI_CONNECTING_TO_AP None w)"
  unfolding at_wifi_def
  by (intro exI conjI; (rule refl)?) (simp add: wifi_shape_def proper_tree_def)

section \<open>The theorems\<close>

lemma wifi_follows_table_witness:
  "wifi_reaches (state_machine_process_event (wifi_handlers sample_wifi_driver (wifi_transition sample_wifi_driver)) Root
      EVENT_WIFI_SEND (wifi_tree STATE_WIFI_STARTED STATE_WIFI_CONNECTED STATE_WIFI_CONNECTING_TO_AP None (sample_wifi [])))
    (wifi_event sample_wifi_driver EVENT_WIFI_SEND (sample_wifi [], STATE_WIFI_CONNECTED))"
  by (rule wifi_follows_table [OF sample_at_connected]) simp_all


lemma sample_wifi_waiting:
  assumes "length evs < 10"
  shows "event_fifo (wifi_events (sample_wifi evs))" "wifi_waiting (sample_wifi evs) = map event_type evs"
  using assms by (simp_all add: sample_wifi_def event_fifo_def event_queue_def event_types_def filled)

lemma sample_wifi_fits: "wifi_driver_fits sample_wifi_driver"
  by (simp add: wifi_driver_fits_def driver_fits_def tcp_transport_def udp_transport_def wifi_tcp_dependencies_def
      wifi_udp_dependencies_def sample_wifi_driver_def logging_def)

lemma disconnect_leaves_socket_open_witness:
  "\<exists>m'. wifi_communication_module_process_event sample_wifi_driver
      (wifi_tree STATE_WIFI_STARTED STATE_WIFI_CONNECTED STATE_WIFI_CONNECTING_TO_AP None
        (sample_wifi [sample_event EVENT_WIFI_DISCONNECT])) = Some (True, m') \<and>
    at_wifi STATE_WIFI_DISCONNECTING (world m') m' \<and> wifi_driver (world m') = 1 \<and>
    tcp_module (world m') = tcp_module (sample_wifi []) \<and> udp_module (world m') = udp_module (sample_wifi [])"
proof -
  let ?m = "wifi_tree STATE_WIFI_STARTED STATE_WIFI_CONNECTED STATE_WIFI_CONNECTING_TO_AP None (sample_wifi [sample_event EVENT_WIFI_DISCONNECT])"
  have m: "at_wifi STATE_WIFI_CONNECTED (world ?m) ?m" "event_fifo (wifi_events (world ?m))"
    "wifi_waiting (world ?m) = EVENT_WIFI_DISCONNECT # []"
    by (simp_all add: sample_at_connected sample_wifi_waiting sample_event_def)
  have "wifi_disconnect sample_wifi_driver (wifi_driver (world ?m)) = (True, [], 1)"
    by (simp add: sample_wifi_driver_def sample_wifi_def)
  from disconnect_leaves_socket_open [OF m this] show ?thesis by (simp add: sample_wifi_def)
qed

section \<open>A life\<close>

lemma sample_part_at_start: "part_at_start 8 (sample_part v)"
  by (simp add: part_at_start_def sample_part_def socket_tree_def socket_parents_def filled_def)

lemma wifi_well_formed_witness:
  "\<exists>m. wifi_reachable (sample_ops :: nat platform_ops) sample_wifi_driver m \<and> (\<exists>l. at_wifi l (world m) m \<and> (\<forall>e \<in> set (wifi_waiting (world m)). e < 20) \<and>
    socket_sound (tcp_module (world m)) \<and> socket_sound (udp_module (world m)) \<and>
    (if exchange_known l (world m)
     then \<exists>m'. wifi_communication_module_process_event sample_wifi_driver m = Some (wifi_waiting (world m) \<noteq> [], m')
     else wifi_communication_module_process_event sample_wifi_driver m = None))"
proof -
  let ?m = "wifi_tree STATE_WIFI_STOPPED STATE_WIFI_DISCONNECTED STATE_WIFI_CONNECTING_TO_AP None (sample_wifi [])"
  have m: "length (state_current ?m) = 16" "length (state_parent ?m) = 16" "length (cb_storage (wifi_events (world ?m))) = 10"
    "0 < unat (20 :: u16)" "unat (20 :: u16) < 6553" "wifi_data_size (world ?m) = 0" "wifi_buffer_size (world ?m) = 0"
    "part_at_start (length (wifi_packet_buffer (world ?m))) (tcp_module (world ?m))"
    "part_at_start (length (wifi_packet_buffer (world ?m))) (udp_module (world ?m))"
    by (simp_all add: wifi_tree_def wifi_parents_def) (simp_all add: sample_wifi_def filled_def sample_part_at_start)
  from wifi_starts_sound [OF m, of sample_ops sample_wifi_driver "sample_app [] [] []"] obtain a' m' where
    "init_wifi_communication_module sample_ops sample_wifi_driver 20 (sample_app [] [] [], ?m) = Some (a', m')" by auto
  then have "wifi_reachable (sample_ops :: nat platform_ops) sample_wifi_driver m'" by (rule wifi_reachable.start [OF m])
  with wifi_well_formed [OF this sample_wifi_fits] show ?thesis by blast
qed

lemma sample_part_sound: "socket_sound (sample_part v)"
proof -
  have "at_socket Shut (world (sample_part v)) (sample_part v)"
    unfolding at_socket_def by (intro exI [of _ "None :: nat option"]) (simp add: sample_part_def)
  moreover have "socket_ok Shut (world (sample_part v))"
    by (simp add: socket_ok_def socket_events_known_def sizes_fit_def sample_part_def event_fifo_def event_queue_def event_types_def filled)
  ultimately show ?thesis by (auto simp: socket_sound_def)
qed

lemma wifi_error_resets_witness:
  "\<exists>m'. wifi_communication_module_process_event sample_wifi_driver
      (wifi_tree STATE_WIFI_STARTED STATE_WIFI_CONNECTED STATE_WIFI_CONNECTING_TO_AP None
        (sample_wifi [sample_event EVENT_WIFI_ERROR])) = Some (True, m') \<and> at_wifi STATE_WIFI_RESET (world m') m' \<and>
    told_to_close (tcp_module (world m')) \<and> told_to_close (udp_module (world m')) \<and> wifi_error_code (world m') \<noteq> 0"
proof -
  let ?m = "wifi_tree STATE_WIFI_STARTED STATE_WIFI_CONNECTED STATE_WIFI_CONNECTING_TO_AP None (sample_wifi [sample_event EVENT_WIFI_ERROR])"
  have m: "at_wifi STATE_WIFI_CONNECTED (world ?m) ?m" "wifi_waiting (world ?m) = EVENT_WIFI_ERROR # []"
    by (simp_all add: sample_at_connected sample_wifi_waiting sample_event_def)
  have "wifi_ok 8 False {} (world ?m)"
    by (simp add: wifi_ok_def sample_wifi_waiting sample_event_def) (simp add: sample_wifi_def sample_part_sound; simp add: sample_part_def)
  from wifi_error_resets [OF m(1) this _ _ m(2), of sample_wifi_driver] show ?thesis by auto
qed

end
