(* ===== verification/Mqtt_Ends.thy ===== *)
theory Mqtt_Ends
  imports Mqtt_Process Mqtt_Round_Trip
begin

text \<open>
  How the operations of \<open>SDK/core/mqtt_communication_protocol.c\<close> end: with the module's failure, with
  missing parameters, with an identifier that does not fit its texts, or, after an answer to the
  wrong subscription, not at all.
\<close>

section \<open>A failed module\<close>

lemma go_disconnected:
  assumes "mqtt_queue v"
  obtains b where "mqtt_go mops s STATE_MQTT_DISCONNECTED v = Some (v\<lparr>mqtt_events := b\<rparr>, STATE_MQTT_DISCONNECTED)"
    "mqtt_queue (v\<lparr>mqtt_events := b\<rparr>)" "event_types b = []"
proof -
  have enter: "mqtt_go mops s STATE_MQTT_DISCONNECTED v = stay STATE_MQTT_DISCONNECTED (do { v \<leftarrow> leave_leaf s v; clear_mqtt_events v })"
    by (simp add: mqtt_go_def mqtt_move_def enter_leaf_def)
  obtain b where b: "clear_mqtt_events v = Some (v\<lparr>mqtt_events := b\<rparr>)" "mqtt_queue (v\<lparr>mqtt_events := b\<rparr>)" "event_types b = []"
    using assms by (rule clear_waiting)
  obtain b' where b': "clear_mqtt_events (v\<lparr>mqtt_events := b\<rparr>) = Some (v\<lparr>mqtt_events := b'\<rparr>)"
    "mqtt_queue (v\<lparr>mqtt_events := b'\<rparr>)" "event_types b' = []"
    using clear_waiting [OF b(2)] by auto
  show thesis
  proof (cases "s = STATE_MQTT_DISCONNECTING")
    case True
    with enter b(1) b' show ?thesis by (intro that [of b']) (simp_all add: leave_leaf_def stay_def)
  next
    case False
    with enter b show ?thesis by (intro that [of b]) (simp_all add: leave_leaf_def stay_def)
  qed
qed

text \<open>What a leaf leaves behind when the module has failed.\<close>

definition failed_result :: "'q mqtt_ops \<Rightarrow> nat \<Rightarrow> 'q mqtt \<Rightarrow> 'q mqtt" where
  "failed_result mops s w =
     (let v = set_mqtt_communication_protocol_error
        (if s \<in> receive_states then ERROR_RECEIVING_MQTT_MESSAGE else ERROR_SENDING_MQTT_MESSAGE) s (take_module_result mops w)
      in if s = STATE_MQTT_PUBLISH then report_sent 0 0 v else v)"

lemma failed_step:
  assumes "s \<in> mqtt_leaves" "s \<noteq> STATE_MQTT_DISCONNECTED" "s \<noteq> STATE_MQTT_CONNECTED" "\<not> module_success mops w"
  shows "module_done mops s w = mqtt_go mops s STATE_MQTT_DISCONNECTED (failed_result mops s w)"
  using assms
  by (elim insertE emptyE)
     (simp_all add: module_done_def when_sent_def when_received_def when_answered_def when_delivered_def when_published_def
       no_answer_def failed_result_def Let_def)

lemma error_byte: "ty \<in> {ERROR_SENDING_MQTT_MESSAGE, ERROR_RECEIVING_MQTT_MESSAGE} \<Longrightarrow> ty OR x \<noteq> (0 :: u8)"
  by (auto simp: ERROR_SENDING_MQTT_MESSAGE_def ERROR_RECEIVING_MQTT_MESSAGE_def or_eq_0_iff)

lemma failed_result_fails: "\<not> is_communication_protocol_success (mqtt_result (failed_result mops s w))"
  by (simp add: failed_result_def set_mqtt_communication_protocol_error_def report_sent_def Let_def error_byte
      is_communication_protocol_success_def is_mqtt_communication_protocol_success_def split: communication_protocol_type.splits)

text \<open>C19: When the module below fails while the protocol is at work, the next call ends the operation: the
  machine is disconnected, nothing waits any more, so the call after it reports the end, the result
  is not a success, and when data were being published the counts of what was sent are zero.\<close>

theorem module_failure_ends_operation:
  assumes m: "at_leaf s w m" "s \<noteq> STATE_MQTT_DISCONNECTED" "s \<noteq> STATE_MQTT_CONNECTED" and queue: "mqtt_queue w"
    and first: "waiting w = EVENT_COMMUNICATION_MODULE_DONE # es" and failed: "\<not> module_success mops w"
  shows "\<exists>m'. mqtt_communinication_protocol_process mops m = Some (True, m') \<and>
    at_leaf STATE_MQTT_DISCONNECTED (world m') m' \<and> waiting (world m') = [] \<and>
    map_option fst (mqtt_communinication_protocol_process mops m') = Some False \<and>
    \<not> is_communication_protocol_success (get_mqtt_communication_result (world m')) \<and>
    (s = STATE_MQTT_PUBLISH \<and> sensor_readings_sent w \<longrightarrow> mem_sent_readings (memory (world m')) = 0) \<and>
    (s = STATE_MQTT_PUBLISH \<and> system_items_sent w \<longrightarrow> mem_sent_items (memory (world m')) = 0)"
proof -
  have "EVENT_COMMUNICATION_MODULE_DONE \<noteq> EVENT_ENTERING_STATE" "EVENT_COMMUNICATION_MODULE_DONE \<noteq> EVENT_LEAVING_STATE"
    by simp_all
  from process_first [OF m(1) queue first this, of mops] obtain b where
    b: "mqtt_queue (w\<lparr>mqtt_events := b\<rparr>)" "event_types b = es" "ends_at (mqtt_communinication_protocol_process mops m)
       (mqtt_event mops EVENT_COMMUNICATION_MODULE_DONE (w\<lparr>mqtt_events := b\<rparr>, s))" .
  let ?w = "w\<lparr>mqtt_events := b\<rparr>"
  let ?v = "failed_result mops s ?w"
  have "\<not> module_success mops ?w" using failed by (simp add: module_success_def)
  moreover have "s \<in> mqtt_leaves" using m(1) unfolding at_leaf_def by blast
  ultimately have "mqtt_event mops EVENT_COMMUNICATION_MODULE_DONE (?w, s) = mqtt_go mops s STATE_MQTT_DISCONNECTED ?v"
    using m(2,3) failed_step [of s mops ?w] by (simp add: mqtt_event.simps)
  moreover have "mqtt_events ?v = b"
    by (simp add: failed_result_def set_mqtt_communication_protocol_error_def take_module_result_def report_sent_def Let_def)
  then have "mqtt_queue ?v" using b(1) by (simp add: mqtt_queue_def)
  then obtain c where c: "mqtt_go mops s STATE_MQTT_DISCONNECTED ?v = Some (?v\<lparr>mqtt_events := c\<rparr>, STATE_MQTT_DISCONNECTED)"
    "mqtt_queue (?v\<lparr>mqtt_events := c\<rparr>)" "event_types c = []" by (rule go_disconnected)
  ultimately obtain m' where m': "mqtt_communinication_protocol_process mops m = Some (True, m')"
    "at_leaf STATE_MQTT_DISCONNECTED (?v\<lparr>mqtt_events := c\<rparr>) m'"
    using b(3) by (auto simp: ends_at_def option_rel_Some2)
  note w' = at_leaf_world(1) [OF m'(2)]
  have empty: "waiting (world m') = []" using c(3) by (simp add: w' waiting_def)
  moreover have "map_option fst (mqtt_communinication_protocol_process mops m') = Some False"
    using process_empty [of m' mops] empty c(2) w' by (metis fst_conv option.simps(9))
  ultimately show ?thesis
    using m' failed_result_fails [of mops s ?w]
    by (simp add: w' get_mqtt_communication_result_def)
       (simp add: failed_result_def report_sent_def set_mqtt_communication_protocol_error_def take_module_result_def Let_def)
qed

section \<open>An operation that does not end\<close>

text \<open>The return values of a number of calls, and the machine after them.\<close>

fun mqtt_calls :: "'q mqtt_ops \<Rightarrow> nat \<Rightarrow> 'q mqttm \<Rightarrow> (bool list \<times> 'q mqttm) option" where
  "mqtt_calls mops 0 m = Some ([], m)"
| "mqtt_calls mops (Suc n) m = do {
     (p, m) \<leftarrow> mqtt_communinication_protocol_process mops m;
     (ps, m) \<leftarrow> mqtt_calls mops n m;
     Some (p # ps, m)
   }"

abbreviation "lost_event \<equiv> (of_nat STATE_MQTT_DISCONNECTING :: u8)"

text \<open>A request waits while the connection is made, and perhaps the event that nobody knows.\<close>

definition stuck :: "nat \<Rightarrow> u8 \<Rightarrow> 'q \<Rightarrow> 'q mqttm \<Rightarrow> bool" where
  "stuck s r q m \<longleftrightarrow> at_leaf s (world m) m \<and> mqtt_queue (world m) \<and> link (world m) = q \<and>
     waiting (world m) \<in> {[r, lost_event], [lost_event, r], [r]}"

lemma request_facts:
  assumes "r \<in> mqtt_requests"
  shows "r \<noteq> EVENT_ENTERING_STATE" "r \<noteq> EVENT_LEAVING_STATE" "r \<noteq> EVENT_COMMUNICATION_MODULE_PROCESS"
    "r \<noteq> EVENT_COMMUNICATION_MODULE_DONE" "\<not> (s \<in> connecting_states \<and> s \<in> receive_states \<and> r = awaited_event s)"
  using assms by (auto simp: awaited_event_def)

lemma stuck_step:
  assumes s: "s \<in> connecting_states" and r: "r \<in> mqtt_requests" and m: "stuck s r q m"
  obtains m' where "mqtt_communinication_protocol_process mops m = Some (True, m')" "stuck s r q m'"
proof -
  let ?w = "world m"
  from m have leaf: "at_leaf s ?w m" and queue: "mqtt_queue ?w" and link: "link ?w = q"
    and wait: "waiting ?w \<in> {[r, lost_event], [lost_event, r], [r]}" by (auto simp: stuck_def)
  have s': "s \<noteq> STATE_MQTT_DISCONNECTED" "s \<noteq> STATE_MQTT_CONNECTED" using s by auto
  consider (request) es where "waiting ?w = r # es" "es = [lost_event] \<or> es = []"
    | (lost) "waiting ?w = [lost_event, r]" using wait by auto
  then show thesis
  proof cases
    case request
    obtain b where b: "mqtt_queue (?w\<lparr>mqtt_events := b\<rparr>)" "event_types b = es"
      "ends_at (mqtt_communinication_protocol_process mops m) (mqtt_event mops r (?w\<lparr>mqtt_events := b\<rparr>, s))"
      by (rule process_first [OF leaf queue request(1) request_facts(1,2) [OF r], of mops])
    from b(1) obtain c where c: "add_mqtt_communication_protocol_event_type r (?w\<lparr>mqtt_events := b\<rparr>) = Some (?w\<lparr>mqtt_events := c\<rparr>)"
      "mqtt_queue (?w\<lparr>mqtt_events := c\<rparr>)" "event_types c = keep_last 10 (es @ [r])"
      by (rule post_waiting [where e = r]) (simp add: b(2) waiting_def)
    have "mqtt_event mops r (?w\<lparr>mqtt_events := b\<rparr>, s) = Some (?w\<lparr>mqtt_events := c\<rparr>, s)"
      using request_facts(3,4) [OF r] request_facts(5) [OF r, of s] s s' r c(1)
      by (simp only: mqtt_event.simps post_again_def stay_def option.map if_True if_False simp_thms)
    with b(3) obtain m' where m': "mqtt_communinication_protocol_process mops m = Some (True, m')"
      "at_leaf s (?w\<lparr>mqtt_events := c\<rparr>) m'"
      by (auto simp: ends_at_def option_rel_Some2)
    then show ?thesis
      using that [of m'] c(2,3) request(2) link at_leaf_world(1) [OF m'(2)] by (auto simp: stuck_def waiting_def)
  next
    case lost
    have e: "lost_event \<noteq> EVENT_ENTERING_STATE" "lost_event \<noteq> EVENT_LEAVING_STATE"
      "lost_event \<noteq> EVENT_COMMUNICATION_MODULE_PROCESS" "lost_event \<noteq> EVENT_COMMUNICATION_MODULE_DONE"
      "lost_event \<noteq> awaited_event s" "lost_event \<notin> mqtt_requests" "lost_event \<noteq> EVENT_MQTT_DISCONNECT"
      by (simp_all add: awaited_event_def mqtt_event_defs mqtt_state_defs)
    obtain b where b: "mqtt_queue (?w\<lparr>mqtt_events := b\<rparr>)" "event_types b = [r]"
      "ends_at (mqtt_communinication_protocol_process mops m) (mqtt_event mops lost_event (?w\<lparr>mqtt_events := b\<rparr>, s))"
      by (rule process_first [OF leaf queue lost e(1,2), of mops])
    have "mqtt_event mops lost_event (?w\<lparr>mqtt_events := b\<rparr>, s) = Some (?w\<lparr>mqtt_events := b\<rparr>, s)"
      using e by (simp only: mqtt_event.simps if_True if_False simp_thms)
    with b(3) obtain m' where m': "mqtt_communinication_protocol_process mops m = Some (True, m')"
      "at_leaf s (?w\<lparr>mqtt_events := b\<rparr>) m'"
      by (auto simp: ends_at_def option_rel_Some2)
    then show ?thesis
      using that [of m'] b(1,2) link at_leaf_world(1) [OF m'(2)] by (auto simp: stuck_def waiting_def)
  qed
qed

lemma stuck_forever:
  assumes "s \<in> connecting_states" "r \<in> mqtt_requests" "stuck s r q m"
  shows "\<exists>m'. mqtt_calls mops n m = Some (replicate n True, m') \<and> stuck s r q m'"
  using assms(3)
proof (induction n arbitrary: m)
  case (Suc n)
  from stuck_step [OF assms(1,2) Suc.prems, of mops] obtain m1 where
    "mqtt_communinication_protocol_process mops m = Some (True, m1)" "stuck s r q m1" .
  with Suc.IH [of m1] show ?case by auto
qed simp

lemma suback_parsed:
  assumes "mqtt_buffer w = 0x90 # 3 # hi # lo # rest" "5 \<le> unat (mqtt_buffer_position w)"
  shows "mqtt_parse_message w =
    Some (True, w\<lparr>mqtt_message := (mqtt_message w)\<lparr>msg_type := MQTT_MSG_SUBACK, msg_id := ucast lo\<rparr>\<rparr>)"
proof -
  have "parse_message_type (mqtt_buffer w) = Some MQTT_MSG_SUBACK" "parse_message_qos (mqtt_buffer w) = Some 0"
    "mqtt_num_rem_len_bytes (mqtt_buffer w) = Some 1" "mqtt_parse_rem_len (mqtt_buffer w) = Some 3"
    by (simp_all add: assms(1) parse_message_type_def parse_message_qos_def mqtt_num_rem_len_bytes_def
        mqtt_parse_rem_len_def array_get_def MQTT_MSG_SUBACK_def)
  moreover from this have "mqtt_parse_msg_id (mqtt_buffer w) = Some lo"
    by (simp add: mqtt_parse_msg_id_def mqtt_msg_defs) (simp add: assms(1) array_get_def)
  ultimately show ?thesis
    using assms(2) by (simp add: mqtt_parse_message_def Let_def)
qed

text \<open>C20: When the answer to the subscription carries another identifier in its low byte than the one that was
  sent, the protocol posts the number of its disconnecting state as an event, which no state knows:
  however often it is processed after that, it says that it is to be processed again, never calls the
  module, and the request that waits is put back into the queue every time.\<close>

theorem wrong_suback_never_ends:
  assumes m: "at_leaf STATE_MQTT_RECEIVE_SUBACK w m" and queue: "mqtt_queue w"
    and wait: "waiting w = [EVENT_COMMUNICATION_MODULE_DONE, r]" and r: "r \<in> mqtt_requests"
    and received: "module_success mops w" "mqtt_buffer w = 0x90 # 3 # hi # lo # rest" "5 \<le> unat (mqtt_buffer_position w)"
    and wrong: "ucast lo \<noteq> message_id w"
  shows "\<exists>m'. mqtt_calls mops n m = Some (replicate n True, m') \<and> at_leaf STATE_MQTT_RECEIVE_SUBACK (world m') m' \<and>
    link (world m') = link w \<and> (0 < n \<longrightarrow> r \<in> set (waiting (world m')))"
proof (cases n)
  case 0
  with m at_leaf_world(1) [OF m] show ?thesis by simp
next
  case (Suc k)
  let ?s = "STATE_MQTT_RECEIVE_SUBACK"
  have e: "EVENT_COMMUNICATION_MODULE_DONE \<noteq> EVENT_ENTERING_STATE" "EVENT_COMMUNICATION_MODULE_DONE \<noteq> EVENT_LEAVING_STATE"
    by simp_all
  obtain b where b: "mqtt_queue (w\<lparr>mqtt_events := b\<rparr>)" "event_types b = [r]"
    "ends_at (mqtt_communinication_protocol_process mops m)
       (mqtt_event mops EVENT_COMMUNICATION_MODULE_DONE (w\<lparr>mqtt_events := b\<rparr>, ?s))"
    by (rule process_first [OF m queue wait e, of mops])
  let ?w = "w\<lparr>mqtt_events := b\<rparr>"
  let ?v = "take_module_result mops ?w"
  let ?u = "set_mqtt_communication_protocol_error ERROR_INCORRECT_MQTT_MESSAGE_RECEIVED ?s
    (?v\<lparr>mqtt_message := (mqtt_message ?v)\<lparr>msg_type := MQTT_MSG_SUBACK, msg_id := ucast lo\<rparr>\<rparr>)"
  have "mqtt_buffer ?v = 0x90 # 3 # hi # lo # rest" "5 \<le> unat (mqtt_buffer_position ?v)"
    using received(2,3) by (simp_all add: take_module_result_def)
  note parsed = suback_parsed [OF this]
  have "message_id ?v = message_id w" "module_success mops ?w"
    using received(1) by (simp_all add: take_module_result_def module_success_def)
  with wrong have posted: "mqtt_event mops EVENT_COMMUNICATION_MODULE_DONE (?w, ?s) = post_again ?s lost_event ?u"
    by (simp add: mqtt_event.simps module_done_def when_answered_def when_received_def Let_def parsed)
  have u: "mqtt_queue ?u" "waiting ?u = [r]" "link ?u = link w"
    using b(1,2) by (simp_all add: mqtt_queue_def waiting_def set_mqtt_communication_protocol_error_def take_module_result_def)
  from u(1) obtain c where c: "add_mqtt_communication_protocol_event_type lost_event ?u = Some (?u\<lparr>mqtt_events := c\<rparr>)"
    "mqtt_queue (?u\<lparr>mqtt_events := c\<rparr>)" "event_types c = keep_last 10 (waiting ?u @ [lost_event])" by (rule post_waiting)
  obtain m1 where m1: "mqtt_communinication_protocol_process mops m = Some (True, m1)" "at_leaf ?s (?u\<lparr>mqtt_events := c\<rparr>) m1"
    using b(3) unfolding posted post_again_def c(1) stay_def by (auto simp: ends_at_def option_rel_Some2)
  have "stuck ?s r (link w) m1"
    using m1(2) c(2,3) u(2,3) at_leaf_world(1) [OF m1(2)] by (simp add: stuck_def waiting_def)
  from stuck_forever [OF _ r this, of mops k] obtain m' where
    "mqtt_calls mops k m1 = Some (replicate k True, m')" "stuck ?s r (link w) m'" by auto
  with m1(1) Suc show ?thesis by (auto simp: stuck_def)
qed

section \<open>The identifier in the topics\<close>

definition connect_broker :: "string \<Rightarrow> string \<Rightarrow> mqtt_broker \<Rightarrow> mqtt_broker" where
  "connect_broker d key b = b\<lparr>clientid := d, broker_username := take 29 d, broker_password := take 29 key, clean_session := 1,
     broker_seq := 1, broker_alive := 60, will_qos := 0, will_retain := 0, will_topic := Some (''will/'' @ d @ ''/001''),
     will_msg := Some ''Connection break with WolkSensor''\<rparr>"

lemma broker_filled:
  assumes "d \<noteq> []" "key \<noteq> []" "length d < 50"
  shows "mqttlib_init b (Some d) = Some (b\<lparr>clientid := d, broker_username := [], broker_password := [], clean_session := 1,
      broker_seq := 1, broker_alive := 300\<rparr>)"
    "mqttlib_init_auth (mqtt_set_alive (mqtt_init_will (b\<lparr>clientid := d, broker_username := [], broker_password := [],
       clean_session := 1, broker_seq := 1, broker_alive := 300\<rparr>) (''will/'' @ d @ ''/001'')
       ''Connection break with WolkSensor'' 0 0) 60) (Some d) (Some key) = connect_broker d key b"
  using assms
  by (cases d; cases key;
      simp add: mqttlib_init_def strncpy_text_def mqttlib_init_auth_def mqtt_set_alive_def mqtt_init_will_def connect_broker_def)+

lemma optional_nonempty: "t \<noteq> [] \<Longrightarrow> length (optional_field (Some t)) = length t + 2"
  by (cases t) (simp_all add: optional_field_def)

lemma connect_broker_flags:
  assumes "length d \<le> 22"
  obtains flags where "connect_flags (connect_broker d key b) = Some flags"
    "strlen16 (will_topic (connect_broker d key b)) > 0" "strlen16 (will_msg (connect_broker d key b)) > 0"
proof -
  have "unat (of_nat (length (''will/'' @ d @ ''/001'')) :: u16) = 9 + length d"
    using unat_of_nat16 [of "9 + length d"] assms by simp
  then have "strlen16 (will_topic (connect_broker d key b)) > 0"
    by (simp only: strlen16_def connect_broker_def select_convs option.case word_less_nat_alt unat_0 add_is_0) simp
  moreover have "strlen16 (will_msg (connect_broker d key b)) > 0"
    by (simp add: strlen16_def connect_broker_def)
  moreover have "will_qos (connect_broker d key b) = 0" by (simp add: connect_broker_def)
  ultimately show thesis using that by (simp add: connect_flags_def)
qed

text \<open>C27: When the module below accepts what is to be sent, the message that announces the device to the server
  fits its packet, with the length the packet says, for identifiers of up to 22 characters.  A longer one, which the command that sets it accepts up to
  29 characters, overflows the array of the topics.\<close>

theorem connect_needs_short_id:
  assumes queue: "mqtt_queue w" and id: "c_str (cfg_device_id (mem_config (memory w))) = Some d" "d \<noteq> []" "length d < 30"
    and key: "c_string (cfg_device_preshared_key (mem_config (memory w))) = key" "key \<noteq> []"
    and accepts: "\<And>n q. module_send mops n q \<noteq> None"
  shows "if length d \<le> 22
    then \<exists>w'. send_connect mops w = Some w' \<and> parse_message_type (mqtt_buffer w') = Some MQTT_MSG_CONNECT \<and>
      mqtt_parse_rem_len (mqtt_buffer w') = Some (of_nat (63 + 3 * length d + min 29 (length key)))
    else send_connect mops w = None"
proof (cases "length d \<le> 22")
  case False
  then have "topic_text ''will/'' d ''/001'' = None" by (simp add: topic_text_def)
  with False id show ?thesis
    by (simp add: send_connect_def clear_mqtt_buffer_def broker_filled mqttlib_init_def strncpy_text_def)
next
  case True
  let ?b = "connect_broker d key (broker w)"
  obtain flags where flags: "connect_flags ?b = Some flags" "strlen16 (will_topic ?b) > 0" "strlen16 (will_msg ?b) > 0"
    using True by (rule connect_broker_flags)
  have body: "length (connect_body flags ?b) = 63 + 3 * length d + min 29 (length key)"
    using True id(2,3) key(2) by (simp add: connect_body_def connect_broker_def optional_nonempty)
  then have small: "length (connect_body flags ?b) < 256" using True by simp
  let ?n = "length (connect_body flags ?b)"
  from connect_announces_length [OF flags(1) small, of "replicate 803 0"] flags(2,3) small obtain p where
    p: "mqtt_connect ?b (replicate 803 0) = Some (int (length (connect_header ?n) + ?n), p)"
    "mqtt_parse_rem_len p = Some (of_nat ?n)" "parse_message_type p = Some MQTT_MSG_CONNECT"
    by auto
  let ?w = "(clear_mqtt_buffer w)\<lparr>broker := ?b, mqtt_buffer := p\<rparr>"
  have "topic_text ''will/'' d ''/001'' = Some (''will/'' @ d @ ''/001'')" using True by (simp add: topic_text_def)
  then have run: "send_connect mops w = start_sending mops (of_int (int (length (connect_header ?n) + ?n))) ?w"
    using id key broker_filled [OF id(2) key(2), of "broker w"] p(1)
    by (simp add: send_connect_def clear_mqtt_buffer_def MQTT_BUFFER_SIZE_def Let_def)
  obtain h q where hq: "module_send mops (of_int (int (length (connect_header ?n) + ?n))) (link ?w) = Some (h, q)"
    using accepts by fastforce
  have "mqtt_queue (?w\<lparr>module_handle := Some h, link := q\<rparr>)"
    using queue by (simp add: mqtt_queue_def clear_mqtt_buffer_def)
  then obtain c where "add_mqtt_communication_protocol_event_type EVENT_COMMUNICATION_MODULE_PROCESS
      (?w\<lparr>module_handle := Some h, link := q\<rparr>) = Some ((?w\<lparr>module_handle := Some h, link := q\<rparr>)\<lparr>mqtt_events := c\<rparr>)"
    by (rule post_waiting)
  with hq have "start_sending mops (of_int (int (length (connect_header ?n) + ?n))) ?w =
      Some ((?w\<lparr>module_handle := Some h, link := q\<rparr>)\<lparr>mqtt_events := c\<rparr>)"
    unfolding start_sending_def by simp
  with run True p body show ?thesis by simp
qed

end
