(* ===== verification/Mqtt_Witnesses.thy ===== *)
theory Mqtt_Witnesses
  imports Mqtt_Communication App_Witnesses Mqtt_Ends Mqtt_Reachable
begin

text \<open>
  The theorems about the MQTT protocol, and about the application on top of it, on a small instance:
  a module that sends and receives nothing and always reports success.
\<close>

section \<open>The instance\<close>

definition sample_mops :: "'q mqtt_ops" where
  "sample_mops = \<lparr>module_send = (\<lambda>_ q. Some (1, q)), module_receive = (\<lambda>_ q. Some (2, q)), module_halt = (\<lambda>q. Some (3, q)),
     module_step = (\<lambda>_ buf pos q. Some (False, buf, pos, q)), module_data = (\<lambda>_. cptd_module zero_protocol_data),
     mqtt_encrypt = (\<lambda>bs n _. Some (n, bs)), mqtt_decrypt = (\<lambda>bs _ _. Some bs),
     get_surroundig_wifi_networks = None, float_text = (\<lambda>_. ''1.0''), platform_error_text = (\<lambda>_. []),
     parser_junk = \<lparr>alarm_low = zero_alarm, alarm_high = zero_alarm\<rparr>, command_junk = sample_command\<rparr>"

definition sample_memory :: exchange_memory where
  "sample_memory = \<lparr>mem_config = sample_config, mem_sensors = sample_table, mem_now = 0,
     mem_readings = app_readings (sample_app [] [] []), mem_system = app_system (sample_app [] [] []),
     mem_commands = app_commands (sample_app [] [] []), mem_sent_readings = 0, mem_sent_items = 0\<rparr>"

definition sample_mqtt_on :: "'q \<Rightarrow> event list \<Rightarrow> u8 \<Rightarrow> 'q mqtt" where
  "sample_mqtt_on q evs err = \<lparr>mqtt_events = filled \<lparr>event_type = 0, event_timestamp = 0\<rparr> 10 20 True evs,
     broker = \<lparr>clientid = [], broker_username = [], broker_password = [], will_retain = 0, will_qos = 0,
       clean_session = 0, will_topic = None, will_msg = None, broker_seq = 1, broker_alive = 60\<rparr>,
     mqtt_message = \<lparr>msg_type = 0, msg_id = 0, msg_topic = None, msg_topic_size = 0, msg_data = None, msg_data_size = 0\<rparr>,
     mqtt_buffer_position = 0, mqtt_buffer = replicate 803 0, sending_sensor_readings_buffer = False,
     sensor_readings_sent = False, sending_system_buffer = False, system_items_sent = False,
     sending_actuator = None, sending_actuator_state = None, received_commands_buffer = False, message_id = 0,
     stack_message_id = 0, module_handle = Some 1, mqtt_result = zero_protocol_data\<lparr>cptd_mqtt_error := err\<rparr>,
     serialized_sensor_readings = 0, serialized_system_items = 0, memory = sample_memory, link = q\<rparr>"

abbreviation "sample_mqtt \<equiv> sample_mqtt_on (0 :: nat)"

lemmas sample_mqtt_def = sample_mqtt_on_def

definition sample_mqttm :: "nat \<Rightarrow> event list \<Rightarrow> u8 \<Rightarrow> nat mqttm" where
  "sample_mqttm s evs err = mqtt_tree (top_state s) s (Some s) None (sample_mqtt evs err)"

text \<open>The sample application on another platform.\<close>

definition onto :: "'p \<Rightarrow> 'q app \<Rightarrow> 'p app" where
  "onto p a = \<lparr>app_config = app_config a, app_sensors = app_sensors a, app_readings = app_readings a,
     app_system = app_system a, app_events = app_events a, app_command_string = app_command_string a,
     app_commands = app_commands a, app_response = app_response a, current_heartbeat = current_heartbeat a,
     heartbeat_timer = heartbeat_timer a, no_connection_heartbeat = no_connection_heartbeat a,
     no_connection_count = no_connection_count a, brownout = brownout a,
     sound_alarm_retries = sound_alarm_retries a, sent_system_items = sent_system_items a,
     sent_sensor_readings = sent_sensor_readings a, battery_voltage = battery_voltage a, app_result = app_result a,
     process_handle = process_handle a, stop_handle = stop_handle a, rtc_offset = rtc_offset a,
     responses = responses a, platform = p\<rparr>"

lemma onto_simps [simp]:
  "app_events (onto p a) = app_events a" "app_readings (onto p a) = app_readings a"
  "app_commands (onto p a) = app_commands a" "platform (onto p a) = p" "app_config (onto p a) = app_config a"
  "current_heartbeat (onto p a) = current_heartbeat a" "app_result (onto p a) = app_result a"
  "memory_ok (onto p a) = memory_ok a"
  by (simp_all add: onto_def memory_ok_def)

lemma known_onto [simp]: "known_events (onto p a) = known_events a"
  by (simp add: known_events_def)

section \<open>The application\<close>

lemma reachable_in_mode_witness:
  "\<exists>m. init_wolksensor sample_ops (mqtt_comm sample_ops sample_mops) POWER_ON
       (onto (sample_mqttm STATE_MQTT_DISCONNECTED [] 0) (sample_app [] [] [])) = Some m \<and>
     (\<exists>md. in_mode md (world m) m \<and> known_events (world m))"
proof -
  let ?a = "onto (sample_mqttm STATE_MQTT_DISCONNECTED [] 0) (sample_app [] [] [])"
  have a: "memory_ok ?a" "current_heartbeat ?a = 0"
    by (simp_all add: sample_memory_ok) (simp add: sample_app_def)
  from init_wolksensor_ok [OF a] obtain m where
    m: "init_wolksensor sample_ops (mqtt_comm sample_ops sample_mops) POWER_ON ?a = Some m" by metis
  have "app_reachable sample_ops (mqtt_comm sample_ops sample_mops) m"
    by (rule app_reachable.start [OF a m])
  with reachable_in_mode m show ?thesis by blast
qed

text \<open>An exchange whose receiving ended with an error of the protocol.\<close>

definition failed_app :: "event list \<Rightarrow> nat mqttm app" where
  "failed_app evs = onto (sample_mqttm STATE_MQTT_DISCONNECTED [] 0x28) (sample_app evs [] [])"

lemma readings_survive_failed_exchange_witness:
  "\<exists>p m'. process_wolksensor_event sample_ops (mqtt_comm sample_ops sample_mops)
       (app_tree STATE_DATA_EXCHANGE STATE_NORMAL STATE_RECEIVE
         (failed_app [sample_event EVENT_COMMUNICATION_PROTOCOL_DONE])) = Some (p, m') \<and>
     app_readings (world m') = app_readings (failed_app [])"
proof -
  let ?a = "failed_app [sample_event EVENT_COMMUNICATION_PROTOCOL_DONE]"
  let ?m = "app_tree STATE_DATA_EXCHANGE STATE_NORMAL STATE_RECEIVE ?a"
  have mode: "in_mode (Exchanging Receiving) ?a ?m" by (auto simp: app_state_defs)
  have known: "known_events ?a"
    by (simp add: failed_app_def) (simp add: known_events_def sample_event_def app_event_defs)
  have first: "event_types (app_events ?a) = EVENT_COMMUNICATION_PROTOCOL_DONE # []"
    by (simp add: failed_app_def sample_event_def)
  have failed: "\<not> is_communication_protocol_success (mqtt_result (world (platform ?a)))"
    by (simp add: failed_app_def sample_mqttm_def sample_mqtt_def zero_protocol_data_def zero_result_def
        is_communication_protocol_success_def is_mqtt_communication_protocol_success_def)
  from first_event_step [OF mode known first, of sample_ops "mqtt_comm sample_ops sample_mops"] obtain b where
    b: "event_queue b" "rel_option (\<lambda>(p, m') (a', md'). p \<and> in_mode md' a' m')
      (process_wolksensor_event sample_ops (mqtt_comm sample_ops sample_mops) ?m)
      (mode_event sample_ops (mqtt_comm sample_ops sample_mops) EVENT_COMMUNICATION_PROTOCOL_DONE
        (?a\<lparr>app_events := b\<rparr>, Exchanging Receiving))" .
  have "mode_event sample_ops (mqtt_comm sample_ops sample_mops) EVENT_COMMUNICATION_PROTOCOL_DONE
      (?a\<lparr>app_events := b\<rparr>, Exchanging Receiving) \<noteq> None"
  proof -
    let ?c = "mqtt_comm sample_ops sample_mops"
    define a where "a = append_to_result (comm_result ?c (?a\<lparr>app_events := b\<rparr>)) (?a\<lparr>app_events := b\<rparr>)"
    have stop: "module_stop ?c a = Some (3, with_link a (link (world (platform a))))"
      by (simp add: mqtt_comm_def stop_module_def sample_mops_def)
    have "event_queue (app_events ((with_link a (link (world (platform a))))\<lparr>stop_handle := 3\<rparr>))"
      using b(1) by (simp add: with_link_def a_def append_to_result_def)
    then have "post_event sample_ops EVENT_COMMUNICATION_PROTOCOL_PROCESS
        ((with_link a (link (world (platform a))))\<lparr>stop_handle := 3\<rparr>) \<noteq> None"
      by (rule post_event_last [of _ sample_ops EVENT_COMMUNICATION_PROTOCOL_PROCESS]) simp
    then have "enter_phase sample_ops ?c Stopping a \<noteq> None"
      by (simp add: enter_phase_def enter_exchange_state_def stop app_state_defs)
    moreover have "\<not> is_communication_protocol_success (comm_result ?c (?a\<lparr>app_events := b\<rparr>))"
      using failed by (simp add: mqtt_comm_def get_mqtt_communication_result_def)
    ultimately show ?thesis by (simp add: exchange_event_def a_def Let_def)
  qed
  with b obtain p m' where
    run: "process_wolksensor_event sample_ops (mqtt_comm sample_ops sample_mops) ?m = Some (p, m')"
    by (auto simp: option_rel_Some2 simp del: in_mode.simps)
  have "app_readings (world m') = app_readings ?a"
    by (rule readings_survive_failed_exchange [OF mode known first run]) (simp add: failed)
  with run show ?thesis by (auto simp: failed_app_def sample_app_def)
qed

section \<open>The protocol\<close>

lemma sample_waiting:
  assumes "length evs < 10"
  shows "mqtt_queue (sample_mqtt evs err)" "waiting (sample_mqtt evs err) = map event_type evs"
  using assms by (simp_all add: mqtt_queue_def waiting_def sample_mqtt_def event_queue_def event_types_def filled)

lemma sample_leaf: "s \<in> connecting_states \<union> connected_states \<Longrightarrow> at_leaf s (sample_mqtt evs err) (sample_mqttm s evs err)"
  unfolding sample_mqttm_def
  by (erule UnE; simp only: top_state; rule at_leaf_intros; assumption)

lemma mqtt_follows_table_witness:
  "leads_to (state_machine_process_event (mqtt_handlers sample_mops (mqtt_transition sample_mops)) Root
      EVENT_COMMUNICATION_MODULE_DONE (sample_mqttm STATE_MQTT_PUBLISH [] 0))
    (mqtt_event sample_mops EVENT_COMMUNICATION_MODULE_DONE (sample_mqtt [] 0, STATE_MQTT_PUBLISH))"
  by (rule mqtt_follows_table [OF sample_leaf]) simp_all

lemma mqtt_rests_at_leaf_witness:
  "\<exists>a m. mqtt_protocol_init sample_ops 5 (sample_app [] [] [], sample_mqttm STATE_MQTT_PUBLISH [] 0) = Some (a, m) \<and>
     (\<exists>s. at_leaf s (world m) m \<and> mqtt_queue (world m) \<and>
       (\<forall>e \<in> set (waiting (world m)). e \<le> EVENT_COMMUNICATION_MODULE_DONE \<or> e = of_nat STATE_MQTT_DISCONNECTING))"
proof -
  let ?m = "sample_mqttm STATE_MQTT_PUBLISH [] 0"
  have lists: "length (state_current ?m) = 17" "length (state_parent ?m) = 17"
    "length (cb_storage (mqtt_events (world ?m))) = 10" "0 < unat (5 :: u16)" "unat (5 :: u16) < 6553"
    by (simp_all add: sample_mqttm_def mqtt_tree_def mqtt_parents_def sample_mqtt_def filled_def)
  obtain a w where
    i: "mqtt_protocol_init sample_ops 5 (sample_app [] [] [], ?m) =
      Some (a, mqtt_tree STATE_MQTT_DISCONNECTED STATE_MQTT_SEND_CONNECT None None w)"
    by (rule mqtt_protocol_init_ok [OF lists])
  have "mqtt_reachable (sample_ops :: nat platform_ops) sample_mops (mqtt_tree STATE_MQTT_DISCONNECTED STATE_MQTT_SEND_CONNECT None None w)"
    by (rule mqtt_reachable.start [OF lists i])
  from mqtt_rests_at_leaf [OF this] i show ?thesis by blast
qed

text \<open>A module that always fails.\<close>

definition failing_mops :: "nat mqtt_ops" where
  "failing_mops = sample_mops\<lparr>module_data := (\<lambda>_. \<lparr>cmtd_type = COMMUNICATION_MODULE_WIFI, cmtd_data = zero_module_data\<lparr>cmd_error := 7\<rparr>\<rparr>)\<rparr>"

lemma module_failure_ends_operation_witness:
  "\<exists>m'. mqtt_communinication_protocol_process failing_mops
       (sample_mqttm STATE_MQTT_PUBLISH [sample_event EVENT_COMMUNICATION_MODULE_DONE] 0) = Some (True, m') \<and>
     at_leaf STATE_MQTT_DISCONNECTED (world m') m' \<and> waiting (world m') = []"
proof -
  let ?evs = "[sample_event EVENT_COMMUNICATION_MODULE_DONE]"
  have "at_leaf STATE_MQTT_PUBLISH (sample_mqtt ?evs 0) (sample_mqttm STATE_MQTT_PUBLISH ?evs 0)" by (rule sample_leaf) simp
  moreover have "mqtt_queue (sample_mqtt ?evs 0)" "waiting (sample_mqtt ?evs 0) = EVENT_COMMUNICATION_MODULE_DONE # []"
    by (simp_all add: sample_waiting) (simp add: sample_event_def)
  moreover have "\<not> module_success failing_mops (sample_mqtt ?evs 0)"
    by (simp add: module_success_def failing_mops_def is_communication_module_success_def is_wifi_communication_module_success_def)
  ultimately show ?thesis
    using module_failure_ends_operation [of STATE_MQTT_PUBLISH "sample_mqtt ?evs 0" "sample_mqttm STATE_MQTT_PUBLISH ?evs 0" "[]" failing_mops]
    by (auto simp del: insert_iff)
qed

definition wrong_suback :: "nat mqtt" where
  "wrong_suback = (sample_mqtt [sample_event EVENT_COMMUNICATION_MODULE_DONE, sample_event EVENT_MQTT_PUBLISH] 0)
     \<lparr>mqtt_buffer := [0x90, 3, 0, 2, 0], mqtt_buffer_position := 5, message_id := 1\<rparr>"

lemma wrong_suback_never_ends_witness:
  "\<exists>m'. mqtt_calls sample_mops 1000 (mqtt_tree STATE_MQTT_CONNECTING STATE_MQTT_RECEIVE_SUBACK None None wrong_suback) =
     Some (replicate 1000 True, m') \<and> EVENT_MQTT_PUBLISH \<in> set (waiting (world m'))"
proof -
  have leaf: "at_leaf STATE_MQTT_RECEIVE_SUBACK wrong_suback
      (mqtt_tree STATE_MQTT_CONNECTING STATE_MQTT_RECEIVE_SUBACK None None wrong_suback)"
    by (rule at_leaf_intros(1)) simp
  have queue: "mqtt_queue wrong_suback" "waiting wrong_suback = [EVENT_COMMUNICATION_MODULE_DONE, EVENT_MQTT_PUBLISH]"
    using sample_waiting [of "[sample_event EVENT_COMMUNICATION_MODULE_DONE, sample_event EVENT_MQTT_PUBLISH]" 0]
    by (simp_all add: wrong_suback_def mqtt_queue_def waiting_def sample_event_def)
  have "module_success sample_mops wrong_suback"
    by (simp add: module_success_def sample_mops_def zero_protocol_data_def zero_result_def zero_module_data_def
        is_communication_module_success_def is_wifi_communication_module_success_def)
  then have "\<exists>m'. mqtt_calls sample_mops 1000 (mqtt_tree STATE_MQTT_CONNECTING STATE_MQTT_RECEIVE_SUBACK None None wrong_suback) =
     Some (replicate 1000 True, m') \<and> at_leaf STATE_MQTT_RECEIVE_SUBACK (world m') m' \<and> link (world m') = link wrong_suback \<and>
     (0 < (1000 :: nat) \<longrightarrow> EVENT_MQTT_PUBLISH \<in> set (waiting (world m')))"
    by (intro wrong_suback_never_ends [OF leaf queue, where lo = 2 and hi = 0 and rest = "[0]"])
      (simp_all add: wrong_suback_def word_unat_eq_iff)
  then show ?thesis by auto
qed

definition with_id :: "string \<Rightarrow> nat mqtt" where
  "with_id d = (sample_mqtt [] 0)\<lparr>memory := sample_memory\<lparr>mem_config := sample_config
     \<lparr>cfg_device_id := d @ replicate (30 - length d) NUL, cfg_device_preshared_key := ''secret'' @ replicate 24 NUL\<rparr>\<rparr>\<rparr>"

lemma connect_needs_short_id_witness:
  "(\<exists>w'. send_connect sample_mops (with_id ''dev1'') = Some w' \<and> mqtt_parse_rem_len (mqtt_buffer w') = Some 81) \<and>
   send_connect sample_mops (with_id ''a-name-of-23-characters'') = None"
proof -
  have id: "c_str (cfg_device_id (mem_config (memory (with_id d)))) = Some d"
      "c_string (cfg_device_preshared_key (mem_config (memory (with_id d)))) = ''secret''" if "NUL \<notin> set d" "length d < 30" for d
    using that by (auto simp: with_id_def sample_memory_def sample_config_def c_str_def c_string_def takeWhile_append
        eval_nat_numeral)
  have queue: "mqtt_queue (with_id d)" for d
    using sample_waiting(1) [of "[]" 0] by (simp add: with_id_def mqtt_queue_def)
  have "\<exists>w'. send_connect sample_mops (with_id ''dev1'') = Some w' \<and> mqtt_parse_rem_len (mqtt_buffer w') = Some 81"
    using connect_needs_short_id [OF queue id(1) _ _ id(2), of "''dev1''" sample_mops] by (auto simp: sample_mops_def)
  moreover have "send_connect sample_mops (with_id ''a-name-of-23-characters'') = None"
    using connect_needs_short_id [OF queue id(1) _ _ id(2), of "''a-name-of-23-characters''" sample_mops] by (auto simp: sample_mops_def)
  ultimately show ?thesis by blast
qed

section \<open>Packets\<close>


lemma connect_announces_length_witness:
  "\<exists>p. mqtt_connect (broker (sample_mqtt [] 0)) (replicate 20 0) = Some (16, p) \<and> mqtt_parse_rem_len p = Some 14"
proof -
  let ?b = "broker (sample_mqtt [] 0)"
  have flags: "connect_flags ?b = Some 0" by (simp add: sample_mqtt_def connect_flags_def strlen16_def)
  have body: "length (connect_body 0 ?b) = 14" by (simp add: sample_mqtt_def connect_body_def optional_field_def)
  have "strlen16 (will_topic ?b) > 0 \<longleftrightarrow> strlen16 (will_msg ?b) > 0" by (simp add: sample_mqtt_def)
  from connect_announces_length [OF flags _ this, of "replicate 20 0"] body show ?thesis
    by (auto simp: connect_header_def)
qed

end
