(* ===== verification/Stack_Witnesses.thy ===== *)
theory Stack_Witnesses
  imports Firmware Wifi_Witnesses Mqtt_Witnesses
begin

text \<open>The theorems on the protocol and the module together, on a module with the buffer of the protocol.\<close>

definition wide :: "('v, 'h) socketm \<Rightarrow> ('v, 'h) socketm" where
  "wide = change_world (\<lambda>t. t\<lparr>packet_buffer := replicate 803 0\<rparr>)"

definition sample_link :: "nat wifim" where
  "sample_link = wifi_tree STATE_WIFI_STOPPED STATE_WIFI_DISCONNECTED STATE_WIFI_CONNECTING_TO_AP None
     ((sample_wifi [])\<lparr>wifi_packet_buffer := replicate 803 0, tcp_module := wide (tcp_module (sample_wifi [])),
       udp_module := wide (udp_module (sample_wifi []))\<rparr>)"

lemma wide_at_start: "part_at_start 8 m \<Longrightarrow> part_at_start 803 (wide m)"
  by (simp add: part_at_start_def wide_def change_world_def)

lemma sample_link_starts:
  fixes a :: "'p app"
  obtains a' q where "init_wifi_communication_module sample_ops sample_wifi_driver 20 (a, sample_link) = Some (a', q)"
    "length (wifi_packet_buffer (world q)) = 803" "wifi_reachable (sample_ops :: 'p platform_ops) sample_wifi_driver q"
proof -
  have m: "length (state_current sample_link) = 16" "length (state_parent sample_link) = 16"
    "length (cb_storage (wifi_events (world sample_link))) = 10" "0 < unat (20 :: u16)" "unat (20 :: u16) < 6553"
    "wifi_data_size (world sample_link) = 0" "wifi_buffer_size (world sample_link) = 0"
    "part_at_start (length (wifi_packet_buffer (world sample_link))) (tcp_module (world sample_link))"
    "part_at_start (length (wifi_packet_buffer (world sample_link))) (udp_module (world sample_link))"
    by (simp_all add: sample_link_def wifi_tree_def wifi_parents_def)
       (simp_all add: sample_wifi_def filled_def sample_part_at_start wide_at_start)
  have room: "length (wifi_packet_buffer (world sample_link)) = 803" by (simp add: sample_link_def)
  from wifi_starts_sound [OF m, of sample_ops sample_wifi_driver a] obtain a' q where
    init: "init_wifi_communication_module sample_ops sample_wifi_driver 20 (a, sample_link) = Some (a', q)"
    and "wifi_sound (length (wifi_packet_buffer (world sample_link))) False q" by blast
  from this(2) room have "length (wifi_packet_buffer (world q)) = 803" by (simp add: wifi_sound_room)
  from init this wifi_reachable.start [OF m init] show thesis by (rule that)
qed

lemma wifi_stack_well_formed_witness:
  "\<exists>a w q s l. stack_reachable sample_ops sample_wifi_driver sample_mops a \<and> w = world (platform a) \<and> q = link w \<and>
    at_leaf s w (platform a) \<and> mqtt_known w \<and>
    length (mqtt_buffer w) = unat MQTT_BUFFER_SIZE \<and> at_wifi l (world q) q \<and>
    unat (wifi_data_size (world q)) \<le> unat MQTT_BUFFER_SIZE \<and> unat (wifi_buffer_size (world q)) \<le> unat MQTT_BUFFER_SIZE \<and>
    socket_sound (tcp_module (world q)) \<and> socket_sound (udp_module (world q))"
proof -
  obtain q where q: "length (wifi_packet_buffer (world q)) = 803" "wifi_reachable (sample_ops :: nat wifim mqttm platform_ops) sample_wifi_driver q"
    using sample_link_starts by blast
  let ?m = "mqtt_tree STATE_MQTT_DISCONNECTED STATE_MQTT_SEND_CONNECT None None (sample_mqtt_on q [] 0)"
  have m: "length (state_current ?m) = 17" "length (state_parent ?m) = 17"
    "length (cb_storage (mqtt_events (world ?m))) = 10" "0 < unat (5 :: u16)" "unat (5 :: u16) < 6553"
    "wifi_reachable (sample_ops :: nat wifim mqttm platform_ops) sample_wifi_driver (link (world ?m))"
    "length (wifi_packet_buffer (world (link (world ?m)))) = unat MQTT_BUFFER_SIZE"
    using q by (simp_all add: mqtt_tree_def mqtt_parents_def sample_mqtt_def filled_def MQTT_BUFFER_SIZE_def)
  obtain a'' w where
    "mqtt_protocol_init sample_ops 5 (onto ?m (sample_app [] [] []), ?m) =
      Some (a'', mqtt_tree STATE_MQTT_DISCONNECTED STATE_MQTT_SEND_CONNECT None None w)"
    by (rule mqtt_protocol_init_ok [OF m(1-5)])
  from stack_reachable.start [OF m this] have
    "stack_reachable sample_ops sample_wifi_driver sample_mops
       (onto ?m (sample_app [] [] [])\<lparr>platform := mqtt_tree STATE_MQTT_DISCONNECTED STATE_MQTT_SEND_CONNECT None None w\<rparr>)" .
  from wifi_stack_well_formed [OF this sample_wifi_fits] this show ?thesis by blast
qed

text \<open>A message of 17 characters in a buffer of 20, and a configuration with a key and without SSL.\<close>

definition keyed_memory :: exchange_memory where
  "keyed_memory = sample_memory\<lparr>mem_config := sample_config\<lparr>cfg_ssl := False, cfg_device_preshared_key := replicate 16 (CHR ''k'')\<rparr>\<rparr>"

lemma nearly_full_message_overruns_witness:
  "encrypt_message (wifi_link sample_wifi_driver sample_config 0 sample_mops)
     ((sample_mqtt_on sample_link [] 0)\<lparr>memory := keyed_memory\<rparr>)
     (filled NUL 20 1 False (replicate 17 (CHR ''x''))) = None"
proof -
  let ?mb = "filled NUL 20 1 False (replicate 17 (CHR ''x''))"
  have mb: "message_buffer ?mb" "cb_list ?mb = replicate 17 (CHR ''x'')" "cb_capacity ?mb = 20"
    by (simp_all add: message_buffer_def filled)
  have "padded_length (of_nat 17) = 32" by (simp add: padded_length_def)
  with nearly_full_message_overruns [OF mb(1), of "(sample_mqtt_on sample_link [] 0)\<lparr>memory := keyed_memory\<rparr>"
      sample_wifi_driver sample_config 0 sample_mops] mb(2,3)
  show ?thesis by (simp add: keyed_memory_def MQTT_BUFFER_SIZE_def del: length_cb_list)
qed

text \<open>A start after a watchdog reset.\<close>

definition watchdog_status :: reset_status where
  "watchdog_status = \<lparr>power_on_flag = False, program_flag = False, external_flag = False, watchdog_flag = True, brownout_flag = False\<rparr>"

definition sample_firmware :: "nat wifim mqttm app" where
  "sample_firmware = onto (mqtt_tree STATE_MQTT_DISCONNECTED STATE_MQTT_SEND_CONNECT None None (sample_mqtt_on sample_link [] 0))
     (sample_app [] [] [])"

lemma sample_firmware_memory: "firmware_memory sample_firmware"
proof -
  have "memory_ok (sample_firmware\<lparr>app_sensors := (app_sensors sample_firmware)\<lparr>sensors := set_sensors_types\<rparr>\<rparr>) = memory_ok sample_firmware"
    by (simp add: memory_ok_def sample_firmware_def onto_def sample_app_def sample_table_def)
  moreover have "memory_ok sample_firmware" by (simp add: sample_firmware_def sample_memory_ok)
  moreover have "(app_system sample_firmware)\<lparr>cb_storage_size := 60, cb_element_size := 25, cb_wrap := True\<rparr> = filled zero_system_item 60 25 True []"
    by (simp add: sample_firmware_def onto_def sample_app_def) (simp add: filled_def)
  moreover have "cb_inv (filled zero_system_item 60 25 True [])" by (rule filled) simp_all
  moreover have "current_heartbeat sample_firmware = 0" by (simp add: sample_firmware_def sample_app_def)
  moreover have "platform sample_firmware = mqtt_tree STATE_MQTT_DISCONNECTED STATE_MQTT_SEND_CONNECT None None (sample_mqtt_on sample_link [] 0)"
    by (simp add: sample_firmware_def)
  ultimately show ?thesis
    unfolding firmware_memory_def Let_def
    by (simp add: mqtt_tree_def mqtt_parents_def sample_mqtt_def filled_def MQTT_BUFFER_SIZE_def)
       (simp add: sample_link_def wifi_tree_def wifi_parents_def sample_wifi_def filled_def sample_part_at_start wide_at_start)
qed


end
