(* ===== verification/Chip_Driver.thy ===== *)
theory Chip_Driver
  imports Wifi_Module "HOL-Library.State_Monad"
begin

text \<open>
  The driver of the Wi-Fi chip, \<open>OS/CC3100/wifi_cc3100.c\<close>: the functions that \<open>main.c\<close> puts into
  \<open>wifi_communication_module_dependencies\<close>, and the handlers of the events of the chip.

  The library of the chip (\<open>simplelink.h\<close>, by Texas Instruments) is a record of functions on its state
  \<open>'s\<close>.  A call of it gives its result, the events that it reported meanwhile, and the new state; the
  events go to the handlers below, which call the listeners of the modules.  Of the structures of the
  events the model has the fields the handlers read, and \<^const>\<open>None\<close> is the null pointer.

  A function of the driver runs in the state monad over its variables and the calls of listeners so far.
  The variables of \<open>config.c\<close> it reads are in \<open>variables\<close>; their texts end inside their arrays.  A result
  of the chip is an \<open>int16_t\<close>, the signed reading of a word.
\<close>

section \<open>The library of the chip\<close>

datatype sl_event =
    DeviceEvent "u32 option"
  | WlanEvent "(u32 \<times> u8) option"
  | NetAppEvent "u32 option"
  | SockEvent "(u32 \<times> u16 \<times> u8) option"

type_synonym ('r, 's) sl_call = "'s \<Rightarrow> 'r \<times> sl_event list \<times> 's"

record socket_address =
  sin_family :: u16
  sin_port :: u16
  s_addr :: u32

record security_parameters =
  security_key :: string
  security_type :: u8

record network_entry =
  entry_ssid :: string
  entry_bssid :: "u8 list"
  entry_rssi :: "8 word"

datatype file_mode = FS_MODE_OPEN_READ | FS_MODE_OPEN_WRITE | FS_MODE_OPEN_CREATE u32

record 's simplelink =
  sl_Start :: "(u16, 's) sl_call"
  sl_Stop :: "u16 \<Rightarrow> (u16, 's) sl_call"
  sl_DevGet :: "u8 \<Rightarrow> u8 \<Rightarrow> (u16, 's) sl_call"
  sl_DevSet :: "u8 \<Rightarrow> u8 \<Rightarrow> u32 list \<Rightarrow> (u32, 's) sl_call"
  sl_NetCfgGet :: "u8 \<Rightarrow> u8 \<Rightarrow> (u16 \<times> u8 list, 's) sl_call"
  sl_NetCfgSet :: "u8 \<Rightarrow> u8 \<Rightarrow> u8 list \<Rightarrow> (u16, 's) sl_call"
  sl_WlanPolicySet :: "u8 \<Rightarrow> u8 \<Rightarrow> u8 list \<Rightarrow> (u16, 's) sl_call"
  sl_WlanSet :: "u16 \<Rightarrow> u16 \<Rightarrow> u8 list \<Rightarrow> (u16, 's) sl_call"
  sl_WlanRxFilterSet :: "u8 \<Rightarrow> u8 list \<Rightarrow> (u16, 's) sl_call"
  sl_WlanProfileDel :: "u16 \<Rightarrow> (u16, 's) sl_call"
  sl_WlanConnect :: "string \<Rightarrow> security_parameters \<Rightarrow> (u16, 's) sl_call"
  sl_WlanDisconnect :: "(u16, 's) sl_call"
  sl_WlanGetNetworkList :: "u8 \<Rightarrow> (u16 \<times> network_entry, 's) sl_call"
  sl_NetAppMDNSUnRegisterService :: "(u16, 's) sl_call"
  sl_NetAppDnsGetHostByName :: "string \<Rightarrow> (u16 \<times> u32, 's) sl_call"
  sl_FsOpen :: "string \<Rightarrow> file_mode \<Rightarrow> (u32 \<times> u32, 's) sl_call"
  sl_FsRead :: "u32 \<Rightarrow> u32 \<Rightarrow> (u32 \<times> u8 list, 's) sl_call"
  sl_FsWrite :: "u32 \<Rightarrow> u8 list \<Rightarrow> (u32, 's) sl_call"
  sl_FsClose :: "u32 \<Rightarrow> (u16, 's) sl_call"
  sl_FsDel :: "string \<Rightarrow> (u16, 's) sl_call"
  sl_Socket :: "u16 \<Rightarrow> u16 \<Rightarrow> u16 \<Rightarrow> (u16, 's) sl_call"
  sl_SetSockOpt :: "u16 \<Rightarrow> u16 \<Rightarrow> u16 \<Rightarrow> u8 list \<Rightarrow> (u16, 's) sl_call"
  sl_Connect :: "u16 \<Rightarrow> socket_address \<Rightarrow> (u16, 's) sl_call"
  sl_Bind :: "u16 \<Rightarrow> socket_address \<Rightarrow> (u16, 's) sl_call"
  sl_Close :: "u16 \<Rightarrow> (u16, 's) sl_call"
  sl_Send :: "u16 \<Rightarrow> u8 list \<Rightarrow> (u16, 's) sl_call"
  sl_SendTo :: "u16 \<Rightarrow> u8 list \<Rightarrow> socket_address \<Rightarrow> (u16, 's) sl_call"
  sl_Recv :: "u16 \<Rightarrow> u16 \<Rightarrow> (u16 \<times> u8 list, 's) sl_call"
  sl_RecvFrom :: "u16 \<Rightarrow> u16 \<Rightarrow> (u16 \<times> u8 list, 's) sl_call"
  sl_main_loop_task :: "(unit, 's) sl_call"

definition SL_OPCODE_DEVICE_NETCFG_SET_COMMAND :: u16 where "SL_OPCODE_DEVICE_NETCFG_SET_COMMAND = 0x8432"
definition SL_OPCODE_DEVICE_NETCFG_GET_COMMAND :: u16 where "SL_OPCODE_DEVICE_NETCFG_GET_COMMAND = 0x8433"
definition SL_OPCODE_DEVICE_STOP_COMMAND :: u16 where "SL_OPCODE_DEVICE_STOP_COMMAND = 0x8473"
definition SL_OPCODE_WLAN_WLANCONNECTCOMMAND :: u16 where "SL_OPCODE_WLAN_WLANCONNECTCOMMAND = 0x8C80"
definition SL_OPCODE_WLAN_PROFILEDELCOMMAND :: u16 where "SL_OPCODE_WLAN_PROFILEDELCOMMAND = 0x8C85"
definition SL_OPCODE_WLAN_POLICYSETCOMMAND :: u16 where "SL_OPCODE_WLAN_POLICYSETCOMMAND = 0x8C86"
definition SL_OPCODE_SOCKET_SOCKET :: u16 where "SL_OPCODE_SOCKET_SOCKET = 0x9401"
definition SL_OPCODE_SOCKET_CLOSE :: u16 where "SL_OPCODE_SOCKET_CLOSE = 0x9402"
definition SL_OPCODE_SOCKET_CONNECT :: u16 where "SL_OPCODE_SOCKET_CONNECT = 0x9406"
definition SL_OPCODE_SOCKET_SETSOCKOPT :: u16 where "SL_OPCODE_SOCKET_SETSOCKOPT = 0x9408"
definition SL_OPCODE_SOCKET_RECV :: u16 where "SL_OPCODE_SOCKET_RECV = 0x940A"
definition SL_OPCODE_SOCKET_SEND :: u16 where "SL_OPCODE_SOCKET_SEND = 0x940C"

definition SL_EAGAIN :: u16 where "SL_EAGAIN = -11"
definition SL_EALREADY :: u16 where "SL_EALREADY = -114"
definition SL_USER_INITIATED_DISCONNECTION :: u8 where "SL_USER_INITIATED_DISCONNECTION = 200"

definition SL_POLICY_CONNECTION :: u8 where "SL_POLICY_CONNECTION = 0x10"
definition SL_POLICY_SCAN :: u8 where "SL_POLICY_SCAN = 0x20"

definition SL_MAC_ADDRESS_GET :: u8 where "SL_MAC_ADDRESS_GET = 2"
definition SL_IPV4_STA_P2P_CL_GET_INFO :: u8 where "SL_IPV4_STA_P2P_CL_GET_INFO = 3"
definition SL_IPV4_STA_P2P_CL_DHCP_ENABLE :: u8 where "SL_IPV4_STA_P2P_CL_DHCP_ENABLE = 4"
definition SL_IPV4_STA_P2P_CL_STATIC_ENABLE :: u8 where "SL_IPV4_STA_P2P_CL_STATIC_ENABLE = 5"

definition SL_AF_INET :: u16 where "SL_AF_INET = 2"
definition SL_SOCK_STREAM :: u16 where "SL_SOCK_STREAM = 1"
definition SL_SOCK_DGRAM :: u16 where "SL_SOCK_DGRAM = 2"
definition SL_SEC_SOCKET :: u16 where "SL_SEC_SOCKET = 100"
definition SL_SOL_SOCKET :: u16 where "SL_SOL_SOCKET = 1"
definition SL_SO_NONBLOCKING :: u16 where "SL_SO_NONBLOCKING = 24"
definition SL_SO_SECMETHOD :: u16 where "SL_SO_SECMETHOD = 25"
definition SL_SO_SECURE_MASK :: u16 where "SL_SO_SECURE_MASK = 26"
definition SL_SO_SECURE_FILES_CA_FILE_NAME :: u16 where "SL_SO_SECURE_FILES_CA_FILE_NAME = 32"

text \<open>The byte orders.\<close>

definition sl_Htons :: "u16 \<Rightarrow> u16" where
  "sl_Htons w = push_bit 8 w OR drop_bit 8 w"

definition sl_Htonl :: "u32 \<Rightarrow> u32" where
  "sl_Htonl w = push_bit 24 w OR push_bit 8 (w AND 0xff00) OR (drop_bit 8 w AND 0xff00) OR drop_bit 24 w"

definition bytes_le :: "u32 \<Rightarrow> u8 list" where
  "bytes_le w = map (octet w) [0, 1, 2, 3]"

section \<open>The variables of the driver\<close>

record 's cc3100 =
  chip :: 's
  variables :: config
  rtc_now :: u32
  own_tcp_data :: communication_module_data
  cc3100_ssid :: string
  cc3100_password :: string
  cc3100_auth_type :: u8
  cc3100_static_ip :: string
  cc3100_static_mask :: string
  cc3100_static_gateway :: string
  cc3100_static_dns :: string
  fast_connect :: bool
  scanner_set :: bool

type_synonym ('s, 'r) action = "('s cc3100 \<times> signal list, 'r) state"

abbreviation returns :: "'r \<Rightarrow> ('s, 'r) action" where
  "returns \<equiv> State_Monad.return"

definition reads :: "('s cc3100 \<Rightarrow> 'r) \<Rightarrow> ('s, 'r) action" where
  "reads f = State (\<lambda>(h, ss). (f h, (h, ss)))"

definition sets :: "('s cc3100 \<Rightarrow> 's cc3100) \<Rightarrow> ('s, unit) action" where
  "sets f = State (\<lambda>(h, ss). ((), (f h, ss)))"

definition calls_listeners :: "signal list \<Rightarrow> ('s, unit) action" where
  "calls_listeners new = State (\<lambda>(h, ss). ((), (h, ss @ new)))"

definition driver_function :: "('s, 'r) action \<Rightarrow> ('r, 's cc3100) driver_call" where
  "driver_function m h = (let (r, h, ss) = run_state m (h, []) in (r, ss, h))"

section \<open>The events of the chip\<close>

definition create_CC3100_error_code :: "u16 \<Rightarrow> u16 \<Rightarrow> u32" where
  "create_CC3100_error_code command error = push_bit 16 (ucast command) OR (0x0000FFFF AND scast error)"

definition reports :: "u16 \<Rightarrow> u16 \<Rightarrow> signal list" where
  "reports command error = [PlatformSpecificErrorCode (create_CC3100_error_code command error)]"

definition SimpleLinkGeneralEventHandler :: "u32 option \<Rightarrow> ('s, unit) action" where
  "SimpleLinkGeneralEventHandler ev = calls_listeners (case ev of
       None \<Rightarrow> reports 0 0 @ [WifiError]
     | Some Event \<Rightarrow> reports 0 (ucast Event) @ [WifiError])"

definition SimpleLinkWlanEventHandler :: "(u32 \<times> u8) option \<Rightarrow> ('s, unit) action" where
  "SimpleLinkWlanEventHandler ev = calls_listeners (case ev of
       None \<Rightarrow> reports 1 0 @ [WifiError]
     | Some (Event, reason_code) \<Rightarrow>
         if Event = 1 then [WifiConnected]
         else if Event = 2
         then (if reason_code = SL_USER_INITIATED_DISCONNECTION then [WifiDisconnected]
               else reports 1 (ucast reason_code) @ [WifiDisconnected])
         else reports 1 (ucast Event) @ [WifiError])"

definition SimpleLinkNetAppEventHandler :: "u32 option \<Rightarrow> ('s, unit) action" where
  "SimpleLinkNetAppEventHandler ev = (case ev of
       None \<Rightarrow> calls_listeners (reports 2 0 @ [WifiError])
     | Some Event \<Rightarrow>
         if Event = 1 then do {
           sets (\<lambda>h. h\<lparr>fast_connect := True\<rparr>);
           calls_listeners [WifiIpAddressAcquired]
         } else calls_listeners (reports 2 (ucast Event) @ [WifiError]))"

definition SimpleLinkSockEventHandler :: "(u32 \<times> u16 \<times> u8) option \<Rightarrow> ('s, unit) action" where
  "SimpleLinkSockEventHandler ev = calls_listeners (case ev of
       None \<Rightarrow> reports 3 0 @ [WifiError]
     | Some (Event, status, ty) \<Rightarrow>
         if Event = 1 then reports 3 (ucast (push_bit 8 Event OR scast status)) @ [SocketClosed]
         else if Event = 2
         then (if ty = 2 then reports 3 (ucast (push_bit 8 Event OR ucast ty)) @ [SocketClosed]
               else if ty = 3 then reports 3 (ucast (push_bit 8 Event OR ucast ty)) @ [WifiError]
               else [])
         else reports 3 (ucast Event) @ [WifiError])"

fun handle_event :: "sl_event \<Rightarrow> ('s, unit) action" where
  "handle_event (DeviceEvent ev) = SimpleLinkGeneralEventHandler ev"
| "handle_event (WlanEvent ev) = SimpleLinkWlanEventHandler ev"
| "handle_event (NetAppEvent ev) = SimpleLinkNetAppEventHandler ev"
| "handle_event (SockEvent ev) = SimpleLinkSockEventHandler ev"

fun handle_events :: "sl_event list \<Rightarrow> ('s, unit) action" where
  "handle_events [] = returns ()"
| "handle_events (ev # evs) = do { handle_event ev; handle_events evs }"

definition chip_call :: "('r, 's) sl_call \<Rightarrow> ('s, 'r) action" where
  "chip_call f = do {
     (r, evs) \<leftarrow> State (\<lambda>(h, ss). let (r, evs, s) = f (chip h) in ((r, evs), (h\<lparr>chip := s\<rparr>, ss)));
     handle_events evs;
     returns r
   }"

text \<open>A call whose failure is reported under its operation code.\<close>

definition reporting :: "u16 \<Rightarrow> (u16, 's) sl_call \<Rightarrow> ('s, u16) action" where
  "reporting command f = do {
     r \<leftarrow> chip_call f;
     if sint r < 0 then do { calls_listeners (reports command r); returns r } else returns r
   }"

definition CC3100_process :: "'s simplelink \<Rightarrow> ('s, bool) action" where
  "CC3100_process L = do { chip_call (sl_main_loop_task L); returns True }"

section \<open>Starting and stopping\<close>

definition cc_start :: "'s simplelink \<Rightarrow> ('s, bool) action" where
  "cc_start L = do { r \<leftarrow> reporting 0 (sl_Start L); returns (0 \<le> sint r) }"

definition cc_stop :: "'s simplelink \<Rightarrow> ('s, bool) action" where
  "cc_stop L = do { r \<leftarrow> reporting SL_OPCODE_DEVICE_STOP_COMMAND (sl_Stop L 0); returns (0 \<le> sint r) }"

definition cc_disconnect :: "'s simplelink \<Rightarrow> ('s, bool) action" where
  "cc_disconnect L = do { chip_call (sl_WlanDisconnect L); returns True }"

definition cc_reset :: "'s simplelink \<Rightarrow> ('s, bool) action" where
  "cc_reset L = do {
     sets (\<lambda>h. h\<lparr>fast_connect := False\<rparr>);
     stopped \<leftarrow> cc_stop L;
     if \<not> stopped then returns False else do {
       started \<leftarrow> cc_start L;
       if \<not> started then returns False else do {
         chip_call (sl_WlanDisconnect L);
         r \<leftarrow> reporting SL_OPCODE_WLAN_POLICYSETCOMMAND (sl_WlanPolicySet L SL_POLICY_CONNECTION 0 []);
         if sint r < 0 then returns False else do {
           r \<leftarrow> reporting SL_OPCODE_WLAN_PROFILEDELCOMMAND (sl_WlanProfileDel L 0xFF);
           returns (0 \<le> sint r)
         }
       }
     }
   }"

end
