(* ===== verification/Chip_Sockets.thy ===== *)
theory Chip_Sockets
  imports Chip_Driver Mqtt_Packets
begin

text \<open>
  The driver of the chip, continued: joining the access point, and the sockets
  (\<open>OS/CC3100/wifi_cc3100.c\<close>).

  The parameters of \<open>wifi_connect\<close> and \<open>wifi_open_socket\<close> are not used: the functions read the variables of
  \<open>config.c\<close>.  The arrays of the driver are as long as those they are copied from.
\<close>

section \<open>Joining the access point\<close>

definition copied_text :: "string \<Rightarrow> string \<Rightarrow> string" where
  "copied_text src dst = c_string src @ NUL # drop (Suc (length (c_string src))) dst"

definition same_text :: "string \<Rightarrow> string \<Rightarrow> bool" where
  "same_text s t \<longleftrightarrow> c_string s = c_string t"

definition static_ip_parameters_changed :: "'s cc3100 \<Rightarrow> bool" where
  "static_ip_parameters_changed h \<longleftrightarrow> (let v = variables h in
     \<not> same_text (cc3100_static_ip h) (cfg_wifi_static_ip v) \<or> \<not> same_text (cc3100_static_mask h) (cfg_wifi_static_mask v) \<or>
     \<not> same_text (cc3100_static_gateway h) (cfg_wifi_static_gateway v) \<or> \<not> same_text (cc3100_static_dns h) (cfg_wifi_static_dns v))"

definition static_ip_set :: "'s cc3100 \<Rightarrow> bool" where
  "static_ip_set h \<longleftrightarrow> c_string (cc3100_static_ip h) \<noteq> [] \<and> c_string (cc3100_static_mask h) \<noteq> [] \<and>
     c_string (cc3100_static_gateway h) \<noteq> [] \<and> c_string (cc3100_static_dns h) \<noteq> []"

definition wifi_parameters_changed :: "'s cc3100 \<Rightarrow> bool" where
  "wifi_parameters_changed h \<longleftrightarrow> (let v = variables h in
     \<not> same_text (cc3100_ssid h) (cfg_wifi_ssid v) \<or> \<not> same_text (cc3100_password h) (cfg_wifi_password v) \<or>
     cc3100_auth_type h \<noteq> cfg_wifi_auth_type v)"

text \<open>
  The key of WEP is the text of its bytes.  \<open>sscanf\<close> with \<open>%2x\<close> skips white space and takes at most two
  characters, of which the first may be a sign; \<open>0x\<close> alone is not a number.  The loop advances by two
  characters, from a single last digit over the end of the text.
\<close>

definition hex_value :: "char \<Rightarrow> u16" where
  "hex_value c = of_nat (if isdigit c then of_char c - 48 else of_char c + 10 - (if islower c then 97 else 65))"

definition sscanf_2x :: "string \<Rightarrow> u16 option" where
  "sscanf_2x s = (case dropWhile isspace s of
       [] \<Rightarrow> None
     | c # rest \<Rightarrow>
         let digit_next = rest \<noteq> [] \<and> isxdigit (hd rest) in
         if c = CHR ''-'' then (if digit_next then Some (- hex_value (hd rest)) else None)
         else if c = CHR ''+'' then (if digit_next then Some (hex_value (hd rest)) else None)
         else if \<not> isxdigit c then None
         else if digit_next then Some (16 * hex_value c + hex_value (hd rest))
         else if c = CHR ''0'' \<and> rest \<noteq> [] \<and> hd rest \<in> {CHR ''x'', CHR ''X''} then None
         else Some (hex_value c))"

function hexstring_to_asciistring :: "string \<Rightarrow> string" where
  "hexstring_to_asciistring text = (case sscanf_2x (c_string text) of
       None \<Rightarrow> []
     | Some ch \<Rightarrow> chars_of [if ch = 0 then 48 else ucast ch] @ hexstring_to_asciistring (drop 2 text))"
  by auto

termination
proof (relation "measure length")
  fix t ch
  assume "sscanf_2x (c_string t) = Some ch"
  then have "t \<noteq> []" by (auto simp: sscanf_2x_def c_string_def)
  then show "(drop 2 t, t) \<in> measure length" by simp
qed simp

text \<open>The way back, in capital letters at last, copies from the null pointer when it comes to a zero digit.\<close>

fun asciistring_to_hexstring :: "string \<Rightarrow> string option" where
  "asciistring_to_hexstring [] = Some []"
| "asciistring_to_hexstring (c # cs) = do {
     c_assert (c \<noteq> CHR ''0'');
     rest \<leftarrow> asciistring_to_hexstring cs;
     Some (hex_digit (of_char c div 16) # hex_digit (of_char c mod 16) # rest)
   }"

definition copies_parameters :: "'s cc3100 \<Rightarrow> 's cc3100" where
  "copies_parameters h = (let v = variables h in
     if wifi_parameters_changed h
     then h\<lparr>cc3100_ssid := copied_text (cfg_wifi_ssid v) (cc3100_ssid h),
            cc3100_password := copied_text (cfg_wifi_password v) (cc3100_password h),
            cc3100_auth_type := cfg_wifi_auth_type v, fast_connect := False\<rparr>
     else h)"

definition copies_static_ip :: "'s cc3100 \<Rightarrow> 's cc3100" where
  "copies_static_ip h = (let v = variables h in
     h\<lparr>cc3100_static_ip := copied_text (cfg_wifi_static_ip v) (cc3100_static_ip h),
       cc3100_static_mask := copied_text (cfg_wifi_static_mask v) (cc3100_static_mask h),
       cc3100_static_gateway := copied_text (cfg_wifi_static_gateway v) (cc3100_static_gateway h),
       cc3100_static_dns := copied_text (cfg_wifi_static_dns v) (cc3100_static_dns h)\<rparr>)"

definition static_ip_values :: "'s cc3100 \<Rightarrow> u8 list" where
  "static_ip_values h = concat (map (\<lambda>t. bytes_le (inet_aton (c_string t)))
     [cc3100_static_ip h, cc3100_static_mask h, cc3100_static_gateway h, cc3100_static_dns h])"

text \<open>A new address is given to the chip, which takes it when it starts again.\<close>

definition new_address :: "'s simplelink \<Rightarrow> ('s, bool) action" where
  "new_address L = do {
     sets copies_static_ip;
     static \<leftarrow> reads static_ip_set;
     values \<leftarrow> reads static_ip_values;
     r \<leftarrow> reporting SL_OPCODE_DEVICE_NETCFG_SET_COMMAND
       (if static then sl_NetCfgSet L SL_IPV4_STA_P2P_CL_STATIC_ENABLE 1 values
        else sl_NetCfgSet L SL_IPV4_STA_P2P_CL_DHCP_ENABLE 1 [1]);
     if sint r < 0 then returns False else do {
       stopped \<leftarrow> cc_stop L;
       if \<not> stopped then returns False else do {
         started \<leftarrow> cc_start L;
         if \<not> started then returns False else do {
           sets (\<lambda>h. h\<lparr>fast_connect := False\<rparr>);
           returns True
         }
       }
     }
   }"

definition regular_connect :: "'s simplelink \<Rightarrow> ('s, bool) action" where
  "regular_connect L = do {
     name \<leftarrow> reads (\<lambda>h. c_string (cc3100_ssid h));
     key \<leftarrow> reads (\<lambda>h. if ucast (cc3100_auth_type h) = WIFI_SECURITY_WEP
       then hexstring_to_asciistring (cc3100_password h) else c_string (cc3100_password h));
     sets (\<lambda>h. if ucast (cc3100_auth_type h) = WIFI_SECURITY_WPA
       then h\<lparr>cc3100_auth_type := ucast WIFI_SECURITY_WPA2\<rparr> else h);
     type \<leftarrow> reads cc3100_auth_type;
     r \<leftarrow> reporting SL_OPCODE_WLAN_WLANCONNECTCOMMAND
       (sl_WlanConnect L name \<lparr>security_key = key, security_type = type\<rparr>);
     returns (0 \<le> sint r)
   }"

definition cc_connect :: "'s simplelink \<Rightarrow> string \<Rightarrow> string \<Rightarrow> u8 \<Rightarrow> ('s, bool) action" where
  "cc_connect L ssid password auth_type = do {
     sets copies_parameters;
     changed \<leftarrow> reads static_ip_parameters_changed;
     ready \<leftarrow> (if changed then new_address L else returns True);
     if \<not> ready then returns False else regular_connect L
   }"

section \<open>The address of the server\<close>

text \<open>
  \<open>inet_pton_ipv4\<close> is asked only for its answer; the four bytes it writes go to the null pointer it is given.
  The driver has a \<open>tcp_communication_module_data\<close> of its own, which is not that of the TCP module.
\<close>

definition is_ipv4 :: "string \<Rightarrow> bool" where
  "is_ipv4 s \<longleftrightarrow> (case inet_pton_ipv4 s of Some (Some _) \<Rightarrow> True | _ \<Rightarrow> False)"

definition server_text :: "'s cc3100 \<Rightarrow> string" where
  "server_text h = c_string (cfg_server_ip (variables h))"

definition set_server_text :: "string \<Rightarrow> 's cc3100 \<Rightarrow> 's cc3100" where
  "set_server_text t h = h\<lparr>variables := (variables h)\<lparr>cfg_server_ip := copied_text t (cfg_server_ip (variables h))\<rparr>\<rparr>"

definition asks_dns :: "'s cc3100 \<Rightarrow> bool" where
  "asks_dns h \<longleftrightarrow> sint (ucast (cmd_platform_code (own_tcp_data h)) :: u16) < 0 \<or> \<not> is_ipv4 (server_text h)"

definition normal_address :: "'s cc3100 \<Rightarrow> 's cc3100" where
  "normal_address h = (if is_ipv4 (server_text h) then set_server_text (inet_ntoa (inet_aton (server_text h))) h else h)"

definition resolve_server :: "'s simplelink \<Rightarrow> ('s, u32 option) action" where
  "resolve_server L = do {
     ip \<leftarrow> reads (\<lambda>h. inet_aton (server_text h));
     sets normal_address;
     ask \<leftarrow> reads asks_dns;
     if \<not> ask then returns (Some ip) else do {
       name \<leftarrow> reads (\<lambda>h. cfg_hostname (variables h));
       (r, ip) \<leftarrow> chip_call (sl_NetAppDnsGetHostByName L name);
       if sint r < 0 \<or> ip = 0 then returns None else do {
         sets (\<lambda>h. set_server_text (inet_ntoa ip) (h\<lparr>own_tcp_data := (own_tcp_data h)\<lparr>cmd_error := 0\<rparr>\<rparr>));
         returns (Some ip)
       }
     }
   }"

section \<open>Sockets\<close>

definition CA_CERT :: string where "CA_CERT = ''ca.der''"

definition nonblocking_option :: "u16 \<times> u8 list" where
  "nonblocking_option = (SL_SO_NONBLOCKING, bytes_le 1)"

definition secure_options :: "(u16 \<times> u8 list) list" where
  "secure_options = [(SL_SO_SECMETHOD, [4]), (SL_SO_SECURE_MASK, bytes_le 4), (SL_SO_SECURE_FILES_CA_FILE_NAME, bytes_of CA_CERT)]"

fun set_options :: "'s simplelink \<Rightarrow> u16 \<Rightarrow> (u16 \<times> u8 list) list \<Rightarrow> ('s, bool) action" where
  "set_options L socket_id [] = returns True"
| "set_options L socket_id ((optname, optval) # opts) = do {
     r \<leftarrow> reporting SL_OPCODE_SOCKET_SETSOCKOPT (sl_SetSockOpt L socket_id SL_SOL_SOCKET optname optval);
     if sint r < 0 then returns False else set_options L socket_id opts
   }"

text \<open>The loop has 200 tries; it goes on while the chip is connecting, and after a positive result.\<close>

primrec connect_loop :: "'s simplelink \<Rightarrow> u16 \<Rightarrow> socket_address \<Rightarrow> nat \<Rightarrow> u16 \<Rightarrow> ('s, u16) action" where
  "connect_loop L socket_id addr 0 connect_result = returns connect_result"
| "connect_loop L socket_id addr (Suc tries) connect_result = do {
     r \<leftarrow> chip_call (sl_Connect L socket_id addr);
     if r = 0 then returns r
     else if r \<noteq> SL_EALREADY \<and> sint r < 0 then returns r
     else connect_loop L socket_id addr tries r
   }"

definition connected_socket :: "'s simplelink \<Rightarrow> bool \<Rightarrow> u32 \<Rightarrow> ('s, int) action" where
  "connected_socket L secure ip_address = do {
     socket_id \<leftarrow> reporting SL_OPCODE_SOCKET_SOCKET (sl_Socket L SL_AF_INET SL_SOCK_STREAM (if secure then SL_SEC_SOCKET else 0));
     if sint socket_id < 0 then returns (sint socket_id) else do {
       ready \<leftarrow> set_options L socket_id (nonblocking_option # (if secure then secure_options else []));
       if \<not> ready then returns (- 1) else do {
         server_port \<leftarrow> reads (\<lambda>h. cfg_server_port (variables h));
         r \<leftarrow> connect_loop L socket_id \<lparr>sin_family = SL_AF_INET, sin_port = sl_Htons server_port, s_addr = sl_Htonl ip_address\<rparr> 200 (- 1);
         if sint r < 0 then do {
           calls_listeners (reports SL_OPCODE_SOCKET_CONNECT r);
           chip_call (sl_Close L socket_id);
           returns (- 1)
         } else returns (sint socket_id)
       }
     }
   }"

definition cc_open_socket :: "'s simplelink \<Rightarrow> string \<Rightarrow> u16 \<Rightarrow> bool \<Rightarrow> ('s, int) action" where
  "cc_open_socket L address port secure = do {
     server \<leftarrow> resolve_server L;
     case server of None \<Rightarrow> returns (- 1) | Some ip_address \<Rightarrow> connected_socket L secure ip_address
   }"

definition cc_open_udp_socket :: "'s simplelink \<Rightarrow> string \<Rightarrow> u16 \<Rightarrow> ('s, int) action" where
  "cc_open_udp_socket L address port = do {
     socket_id \<leftarrow> reporting SL_OPCODE_SOCKET_SOCKET (sl_Socket L SL_AF_INET SL_SOCK_DGRAM 0);
     if sint socket_id < 0 then returns (sint socket_id) else do {
       ready \<leftarrow> set_options L socket_id [nonblocking_option];
       if \<not> ready then returns (- 1) else do {
         r \<leftarrow> chip_call (sl_Bind L socket_id \<lparr>sin_family = SL_AF_INET, sin_port = sl_Htons port, s_addr = 0\<rparr>);
         if sint r < 0 then returns (- 1) else returns (sint socket_id)
       }
     }
   }"

definition cc_close_socket :: "'s simplelink \<Rightarrow> int \<Rightarrow> ('s, bool) action" where
  "cc_close_socket L socket_id = do {
     r \<leftarrow> reporting SL_OPCODE_SOCKET_CLOSE (sl_Close L (word_of_int socket_id));
     returns (0 \<le> sint r)
   }"

definition cc_send :: "'s simplelink \<Rightarrow> int \<Rightarrow> u8 list \<Rightarrow> ('s, int) action" where
  "cc_send L socket buffer = do {
     r \<leftarrow> reporting SL_OPCODE_SOCKET_SEND (sl_Send L (word_of_int socket) buffer);
     returns (sint r)
   }"

definition cc_send_to :: "'s simplelink \<Rightarrow> int \<Rightarrow> u8 list \<Rightarrow> string \<Rightarrow> u16 \<Rightarrow> ('s, int) action" where
  "cc_send_to L socket buffer address port = do {
     r \<leftarrow> chip_call (sl_SendTo L (word_of_int socket) buffer
       \<lparr>sin_family = SL_AF_INET, sin_port = sl_Htons port, s_addr = sl_Htonl (inet_aton address)\<rparr>);
     returns (sint r)
   }"

text \<open>A chip that has no data yet is not a failure.\<close>

definition received_or_none :: "(u16 \<times> u8 list, 's) sl_call \<Rightarrow> ('s, int \<times> u8 list) action" where
  "received_or_none f = do {
     (received, bytes) \<leftarrow> chip_call f;
     if received = SL_EAGAIN then returns (0, bytes)
     else if sint received < 0 then do { calls_listeners (reports SL_OPCODE_SOCKET_RECV received); returns (sint received, bytes) }
     else returns (sint received, bytes)
   }"

definition cc_receive :: "'s simplelink \<Rightarrow> int \<Rightarrow> u16 \<Rightarrow> ('s, int \<times> u8 list) action" where
  "cc_receive L socket n = received_or_none (sl_Recv L (word_of_int socket) n)"

definition cc_receive_from :: "'s simplelink \<Rightarrow> int \<Rightarrow> u16 \<Rightarrow> ('s, int \<times> u8 list) action" where
  "cc_receive_from L socket n = received_or_none (sl_RecvFrom L (word_of_int socket) n)"

section \<open>The own address\<close>

definition word_le :: "u8 list \<Rightarrow> u32" where
  "word_le bs = foldr (\<lambda>b w. push_bit 8 w OR ucast b) bs 0"

text \<open>The text and the address; on a failure the text of the caller stays as it was, which is empty.\<close>

definition wifi_get_current_ip :: "'s simplelink \<Rightarrow> ('s, string \<times> u32) action" where
  "wifi_get_current_ip L = do {
     (r, bytes) \<leftarrow> chip_call (sl_NetCfgGet L SL_IPV4_STA_P2P_CL_GET_INFO 16);
     if sint r < 0 then do {
       calls_listeners (reports SL_OPCODE_DEVICE_NETCFG_GET_COMMAND r);
       returns ([], 0)
     } else do {
       let ip = word_le (take 4 (bytes @ replicate 4 0));
       returns (show_nat (unat (octet ip 3)) @ ''.'' @ show_nat (unat (octet ip 2)) @ ''.'' @
         show_nat (unat (octet ip 1)) @ ''.'' @ show_nat (unat (octet ip 0)), ip)
     }
   }"

section \<open>The functions of the module below\<close>

text \<open>
  The pointers that \<open>init_wifi_communication_module_dependencies\<close> of \<open>main.c\<close> sets.  It leaves those of the datagram sockets
  unset, although the driver has the functions: \<open>wifi_open_udp_socket\<close>, \<open>wifi_send_to\<close> and \<open>wifi_receive_from\<close> stay null.  What
  a call through one of them would do is not in the code; it is the argument \<open>unset\<close>.
\<close>

record 'h unset_calls =
  unset_open :: "string \<Rightarrow> u16 \<Rightarrow> (int, 'h) driver_call"
  unset_send_to :: "int \<Rightarrow> u8 list \<Rightarrow> string \<Rightarrow> u16 \<Rightarrow> (int, 'h) driver_call"
  unset_receive_from :: "int \<Rightarrow> u16 \<Rightarrow> (int \<times> u8 list, 'h) driver_call"

definition cc3100_dependencies :: "'s simplelink \<Rightarrow> 's cc3100 unset_calls \<Rightarrow> 's cc3100 wifi_dependencies" where
  "cc3100_dependencies L unset = \<lparr>
     wifi_start = driver_function (cc_start L),
     wifi_connect = (\<lambda>s p t. driver_function (cc_connect L s p t)),
     wifi_disconnect = driver_function (cc_disconnect L),
     wifi_stop = driver_function (cc_stop L),
     wifi_reset = driver_function (cc_reset L),
     wifi_open_socket = (\<lambda>a p s. driver_function (cc_open_socket L a p s)),
     wifi_open_udp_socket = unset_open unset,
     wifi_close_socket = (\<lambda>i. driver_function (cc_close_socket L i)),
     wifi_send = (\<lambda>i bs. driver_function (cc_send L i bs)),
     wifi_send_to = unset_send_to unset,
     wifi_receive = (\<lambda>i n. driver_function (cc_receive L i n)),
     wifi_receive_from = unset_receive_from unset,
     get_ip_address = driver_function (do { (t, _) \<leftarrow> wifi_get_current_ip L; returns t })\<rparr>"

end
