(* ===== verification/Chip_Start.thy ===== *)
theory Chip_Start
  imports Chip_Sockets Mqtt
begin

text \<open>
  The driver of the chip, concluded: its initialisation at the start of the firmware, with the date and the
  certificate that secure sockets need, and the search for networks (\<open>OS/CC3100/wifi_cc3100.c\<close>).
\<close>

section \<open>The date\<close>

text \<open>
  \<open>gmtime\<close> of the C library of the AVR counts the seconds from the first of January 2000; the driver gives it
  the seconds from 1970 and corrects the year and the day.
\<close>

definition year_length :: "nat \<Rightarrow> nat" where
  "year_length y = (if y mod 4 = 0 \<and> (y mod 100 \<noteq> 0 \<or> y mod 400 = 0) then 366 else 365)"

function year_and_day :: "nat \<Rightarrow> nat \<Rightarrow> nat \<times> nat" where
  "year_and_day y d = (if d < year_length y then (y, d) else year_and_day (Suc y) (d - year_length y))"
  by auto

termination by (relation "measure snd") (auto simp: year_length_def split: if_splits)

definition month_lengths :: "nat \<Rightarrow> nat list" where
  "month_lengths y = [31, year_length y - 337, 31, 30, 31, 30, 31, 31, 30, 31, 30, 31]"

fun month_and_day :: "nat list \<Rightarrow> nat \<Rightarrow> nat \<Rightarrow> nat \<times> nat" where
  "month_and_day [] m d = (m, d)"
| "month_and_day (l # ls) m d = (if d < l then (m, d) else month_and_day ls (Suc m) (d - l))"

record tm =
  tm_sec :: nat
  tm_min :: nat
  tm_hour :: nat
  tm_mday :: nat
  tm_mon :: nat
  tm_year :: nat

definition gmtime :: "u32 \<Rightarrow> tm" where
  "gmtime t = (let s = unat t mod 86400; (y, d) = year_and_day 2000 (unat t div 86400);
       (m, d) = month_and_day (month_lengths y) 0 d in
     \<lparr>tm_sec = s mod 60, tm_min = s div 60 mod 60, tm_hour = s div 3600, tm_mday = Suc d, tm_mon = m, tm_year = y - 1900\<rparr>)"

definition date_time :: "u32 \<Rightarrow> nat list" where
  "date_time t = (let times = gmtime t in [tm_sec times, tm_min times, tm_hour times,
     1 + tm_mday times, 1 + tm_mon times, 1870 + tm_year times, 0, 0, 0, 0, 0])"

definition SetTime :: "'s simplelink \<Rightarrow> ('s, bool) action" where
  "SetTime L = do {
     now \<leftarrow> reads rtc_now;
     r \<leftarrow> chip_call (sl_DevSet L 1 11 (map of_nat (date_time now)));
     returns (0 \<le> sint r)
   }"

section \<open>The certificate\<close>

definition CA_CERT_VERSION :: string where "CA_CERT_VERSION = ''ca_version.txt''"
definition CA_CERTIFICATE_VERSION :: u8 where "CA_CERTIFICATE_VERSION = 1"

definition cert :: "u8 list" where
  "cert = [
    48, 130, 3, 249, 48, 130, 2, 225, 160, 3, 2, 1, 2, 2, 9, 0, 188, 226, 85, 212, 45, 127, 247, 29, 48, 13, 6,
    9, 42, 134, 72, 134, 247, 13, 1, 1, 11, 5, 0, 48, 129, 145, 49, 11, 48, 9, 6, 3, 85, 4, 6, 19, 2, 82, 83,
    49, 15, 48, 13, 6, 3, 85, 4, 8, 12, 6, 83, 101, 114, 98, 105, 97, 49, 17, 48, 15, 6, 3, 85, 4, 7, 12, 8,
    78, 111, 118, 105, 32, 83, 97, 100, 49, 18, 48, 16, 6, 3, 85, 4, 10, 12, 9, 119, 111, 108, 107, 97, 98,
    111, 117, 116, 49, 12, 48, 10, 6, 3, 85, 4, 11, 12, 3, 82, 38, 68, 49, 22, 48, 20, 6, 3, 85, 4, 3, 12, 13,
    119, 111, 108, 107, 97, 98, 111, 117, 116, 46, 99, 111, 109, 49, 36, 48, 34, 6, 9, 42, 134, 72, 134, 247,
    13, 1, 9, 1, 22, 21, 115, 117, 112, 112, 111, 114, 116, 64, 119, 111, 108, 107, 97, 98, 111, 117, 116, 46,
    99, 111, 109, 48, 32, 23, 13, 49, 53, 49, 50, 49, 48, 49, 50, 51, 57, 49, 48, 90, 24, 15, 50, 48, 54, 53,
    49, 49, 50, 55, 49, 50, 51, 57, 49, 48, 90, 48, 129, 145, 49, 11, 48, 9, 6, 3, 85, 4, 6, 19, 2, 82, 83, 49,
    15, 48, 13, 6, 3, 85, 4, 8, 12, 6, 83, 101, 114, 98, 105, 97, 49, 17, 48, 15, 6, 3, 85, 4, 7, 12, 8, 78,
    111, 118, 105, 32, 83, 97, 100, 49, 18, 48, 16, 6, 3, 85, 4, 10, 12, 9, 119, 111, 108, 107, 97, 98, 111,
    117, 116, 49, 12, 48, 10, 6, 3, 85, 4, 11, 12, 3, 82, 38, 68, 49, 22, 48, 20, 6, 3, 85, 4, 3, 12, 13, 119,
    111, 108, 107, 97, 98, 111, 117, 116, 46, 99, 111, 109, 49, 36, 48, 34, 6, 9, 42, 134, 72, 134, 247, 13, 1,
    9, 1, 22, 21, 115, 117, 112, 112, 111, 114, 116, 64, 119, 111, 108, 107, 97, 98, 111, 117, 116, 46, 99,
    111, 109, 48, 130, 1, 34, 48, 13, 6, 9, 42, 134, 72, 134, 247, 13, 1, 1, 1, 5, 0, 3, 130, 1, 15, 0, 48,
    130, 1, 10, 2, 130, 1, 1, 0, 174, 208, 182, 39, 242, 124, 84, 168, 87, 50, 75, 90, 232, 234, 48, 165, 98,
    128, 23, 72, 119, 9, 172, 3, 82, 84, 216, 123, 15, 39, 158, 87, 160, 167, 231, 12, 214, 214, 138, 200, 219,
    175, 81, 222, 65, 102, 123, 162, 143, 184, 47, 29, 113, 164, 229, 0, 39, 117, 22, 125, 253, 242, 89, 196,
    12, 125, 198, 104, 186, 217, 158, 55, 239, 109, 101, 159, 31, 247, 97, 24, 31, 108, 77, 117, 100, 92, 45,
    63, 31, 50, 54, 13, 186, 46, 60, 108, 193, 113, 56, 126, 37, 18, 32, 89, 242, 120, 247, 7, 188, 71, 231,
    57, 131, 236, 76, 249, 127, 184, 171, 67, 232, 59, 9, 40, 157, 99, 185, 102, 71, 245, 70, 73, 231, 22, 222,
    107, 49, 202, 73, 93, 212, 93, 217, 243, 242, 112, 140, 155, 253, 66, 145, 174, 169, 248, 246, 188, 162,
    159, 120, 253, 247, 214, 123, 174, 183, 54, 37, 37, 239, 89, 17, 31, 115, 112, 143, 193, 38, 220, 80, 27,
    202, 6, 195, 79, 221, 67, 140, 183, 240, 163, 13, 110, 57, 74, 89, 153, 232, 1, 151, 54, 33, 142, 10, 174,
    33, 147, 80, 41, 84, 151, 127, 164, 115, 29, 160, 49, 215, 85, 140, 175, 150, 249, 188, 101, 5, 209, 129,
    92, 199, 160, 46, 167, 13, 41, 149, 15, 16, 187, 105, 234, 113, 72, 218, 86, 98, 108, 241, 38, 140, 158,
    196, 235, 133, 245, 73, 131, 2, 3, 1, 0, 1, 163, 80, 48, 78, 48, 29, 6, 3, 85, 29, 14, 4, 22, 4, 20, 11,
    147, 156, 75, 27, 177, 228, 207, 183, 12, 251, 26, 55, 84, 74, 40, 204, 125, 49, 159, 48, 31, 6, 3, 85, 29,
    35, 4, 24, 48, 22, 128, 20, 11, 147, 156, 75, 27, 177, 228, 207, 183, 12, 251, 26, 55, 84, 74, 40, 204,
    125, 49, 159, 48, 12, 6, 3, 85, 29, 19, 4, 5, 48, 3, 1, 1, 255, 48, 13, 6, 9, 42, 134, 72, 134, 247, 13, 1,
    1, 11, 5, 0, 3, 130, 1, 1, 0, 156, 71, 232, 114, 184, 236, 45, 199, 246, 116, 39, 128, 228, 110, 236, 158,
    164, 17, 253, 93, 138, 50, 110, 149, 81, 29, 40, 25, 163, 152, 43, 160, 3, 44, 58, 7, 155, 225, 219, 9,
    137, 76, 63, 147, 250, 52, 98, 98, 196, 16, 167, 190, 246, 211, 253, 194, 34, 202, 41, 222, 25, 3, 83, 1,
    255, 25, 249, 115, 92, 55, 162, 14, 203, 32, 122, 167, 195, 106, 1, 60, 231, 126, 191, 136, 149, 100, 192,
    107, 250, 166, 45, 250, 113, 241, 66, 24, 75, 147, 79, 164, 109, 40, 82, 148, 15, 178, 229, 11, 76, 30, 7,
    226, 243, 172, 163, 5, 241, 106, 185, 20, 130, 249, 78, 161, 124, 55, 160, 190, 99, 86, 245, 153, 233, 200,
    111, 20, 190, 150, 146, 64, 90, 167, 206, 8, 43, 191, 35, 226, 186, 154, 109, 53, 149, 68, 15, 151, 231,
    146, 141, 230, 121, 90, 94, 218, 126, 234, 149, 184, 93, 132, 55, 48, 32, 95, 88, 87, 108, 181, 131, 175,
    207, 218, 77, 243, 148, 175, 228, 104, 9, 14, 236, 165, 131, 241, 135, 25, 120, 60, 136, 177, 59, 99, 240,
    164, 183, 254, 235, 141, 71, 237, 53, 95, 1, 31, 222, 102, 144, 15, 95, 238, 246, 191, 84, 8, 23, 10, 223,
    88, 214, 47, 169, 0, 73, 189, 70, 110, 169, 210, 24, 190, 133, 173, 159, 56, 143, 40, 107, 182, 178, 101,
    209, 232, 254, 40, 107, 165]"

text \<open>Both files are opened with a handle; a version that cannot be read is 0.\<close>

definition read_ca_version :: "'s simplelink \<Rightarrow> ('s, (u8 \<times> u32) option) action" where
  "read_ca_version L = do {
     (opened, file) \<leftarrow> chip_call (sl_FsOpen L CA_CERT_VERSION FS_MODE_OPEN_READ);
     if opened \<noteq> 0 then do {
       (opened, file) \<leftarrow> chip_call (sl_FsOpen L CA_CERT_VERSION (FS_MODE_OPEN_CREATE 1));
       returns (if sint opened < 0 then None else Some (0, file))
     } else do {
       (n, bytes) \<leftarrow> chip_call (sl_FsRead L file 1);
       returns (Some (hd (bytes @ [0]), file))
     }
   }"

definition write_cert :: "'s simplelink \<Rightarrow> ('s, bool) action" where
  "write_cert L = do {
     (opened, file) \<leftarrow> chip_call (sl_FsOpen L CA_CERT (FS_MODE_OPEN_CREATE (of_nat (length cert))));
     if sint opened < 0 then returns False else do {
       n \<leftarrow> chip_call (sl_FsWrite L file cert);
       if n \<noteq> of_nat (length cert) then returns False else do {
         closed \<leftarrow> chip_call (sl_FsClose L file);
         returns (0 \<le> sint closed)
       }
     }
   }"

text \<open>A version file that cannot be opened for writing keeps the handle that was closed before.\<close>

definition write_ca_version :: "'s simplelink \<Rightarrow> ('s, bool) action" where
  "write_ca_version L = do {
     (opened, file) \<leftarrow> chip_call (sl_FsOpen L CA_CERT_VERSION FS_MODE_OPEN_WRITE);
     n \<leftarrow> chip_call (sl_FsWrite L file [CA_CERTIFICATE_VERSION]);
     if n \<noteq> 1 then returns False else do {
       closed \<leftarrow> chip_call (sl_FsClose L file);
       returns (0 \<le> sint closed)
     }
   }"

definition update_ca_cert :: "'s simplelink \<Rightarrow> ('s, bool) action" where
  "update_ca_cert L = do {
     version \<leftarrow> read_ca_version L;
     case version of None \<Rightarrow> returns False | Some (ca_version, file) \<Rightarrow> do {
       closed \<leftarrow> chip_call (sl_FsClose L file);
       if sint closed < 0 then returns False
       else if ca_version = CA_CERTIFICATE_VERSION then returns True else do {
         chip_call (sl_FsDel L CA_CERT);
         written \<leftarrow> write_cert L;
         if \<not> written then returns False else write_ca_version L
       }
     }
   }"

section \<open>The networks around\<close>

text \<open>
  The entries of the chip are asked from the last to the first; the loop ends at the first that is missing,
  and when the array of the caller is full.  The names are not part of the messages, and the model leaves
  them out.
\<close>

fun scan_loop :: "'s simplelink \<Rightarrow> nat \<Rightarrow> nat \<Rightarrow> wifi_network list \<Rightarrow> ('s, wifi_network list) action" where
  "scan_loop L 0 networks_size found = returns found"
| "scan_loop L (Suc running_idx) networks_size found = do {
     (n, entry) \<leftarrow> chip_call (sl_WlanGetNetworkList L (of_nat running_idx));
     if sint n < 1 then returns found else do {
       let found = (if entry_bssid entry \<in> network_bssid ` set found then found
                    else found @ [\<lparr>network_bssid = entry_bssid entry, network_rssi = entry_rssi entry\<rparr>]);
       if 0 < running_idx \<and> length found < networks_size then scan_loop L running_idx networks_size found
       else returns found
     }
   }"

definition get_surroundig_networks :: "'s simplelink \<Rightarrow> u8 \<Rightarrow> ('s, wifi_network list) action" where
  "get_surroundig_networks L networks_size = do {
     r \<leftarrow> chip_call (sl_WlanPolicySet L SL_POLICY_SCAN 1 (bytes_le 10));
     if sint r < 0 then returns [] else do {
       found \<leftarrow> scan_loop L 10 (unat networks_size) [];
       chip_call (sl_WlanPolicySet L SL_POLICY_SCAN 0 []);
       returns found
     }
   }"

section \<open>The initialisation\<close>

text \<open>
  The steps in their order; the first that fails ends the initialisation.  The answer of
  \<open>update_ca_cert\<close> is compared with zero, which a boolean is never below.
\<close>

definition reads_mac :: "'s simplelink \<Rightarrow> ('s, bool) action" where
  "reads_mac L = do {
     (r, bytes) \<leftarrow> chip_call (sl_NetCfgGet L SL_MAC_ADDRESS_GET 6);
     sets (\<lambda>h. h\<lparr>variables := (variables h)\<lparr>cfg_mac_address := bytes @ drop (length bytes) (cfg_mac_address (variables h))\<rparr>\<rparr>);
     returns (0 \<le> sint r)
   }"

definition succeeds :: "(u16, 's) sl_call \<Rightarrow> ('s, bool) action" where
  "succeeds f = do { r \<leftarrow> chip_call f; returns (0 \<le> sint r) }"

definition init_steps :: "'s simplelink \<Rightarrow> ('s, bool) action list" where
  "init_steps L = [
     succeeds (sl_Start L),
     succeeds (sl_DevGet L 1 12),
     reads_mac L,
     succeeds (sl_WlanPolicySet L SL_POLICY_CONNECTION 0 []),
     do { r \<leftarrow> chip_call (sl_WlanPolicySet L SL_POLICY_SCAN 0 []); returns (r = 0) },
     succeeds (sl_WlanSet L 1 10 [0]),
     succeeds (sl_NetAppMDNSUnRegisterService L),
     succeeds (sl_WlanRxFilterSet L 1 (replicate 8 0xFF @ replicate 12 0)),
     succeeds (sl_WlanProfileDel L 0xFF),
     SetTime L,
     do { updated \<leftarrow> update_ca_cert L; returns True },
     succeeds (sl_Stop L 1000)]"

fun all_steps :: "('s, bool) action list \<Rightarrow> ('s, bool) action" where
  "all_steps [] = returns True"
| "all_steps (m # ms) = do { ok \<leftarrow> m; if ok then all_steps ms else returns False }"

definition init_wifi :: "'s simplelink \<Rightarrow> ('s, bool) action" where
  "init_wifi L = do {
     started \<leftarrow> all_steps (init_steps L);
     if started then do { sets (\<lambda>h. h\<lparr>scanner_set := True\<rparr>); returns True } else returns False
   }"

definition serialize_wifi_platform_specific_error_code :: "u32 \<Rightarrow> string" where
  "serialize_wifi_platform_specific_error_code error_code =
     concat (map (\<lambda>i. show_hex2 (octet error_code i)) [3, 2, 1, 0])"

end
