(* ===== verification/Chip_Life.thy ===== *)
theory Chip_Life
  imports Chip_Start Wifi_Life
begin

text \<open>
  What the functions of the driver do to its variables and to the sockets of the chip, and that they are
  what the Wi-Fi module needs.
\<close>

named_theorems driver_rules \<open>what the statements of the driver keep\<close>

section \<open>Running the driver\<close>

lemma run_driver [simp]:
  "run_state (reads f) (h, ss) = (f h, (h, ss))"
  "run_state (sets g) (h, ss) = ((), (g h, ss))"
  "run_state (calls_listeners new) (h, ss) = ((), (h, ss @ new))"
  by (simp_all add: reads_def sets_def calls_listeners_def)

lemma event_heard:
  obtains b new where "run_state (handle_event ev) (h, ss) = ((), (h\<lparr>fast_connect := b\<rparr>, ss @ new))"
proof -
  have self: "\<exists>b. h = h\<lparr>fast_connect := b\<rparr>" by (rule exI [of _ "fast_connect h"]) simp
  have "\<exists>b new. run_state (handle_event ev) (h, ss) = ((), (h\<lparr>fast_connect := b\<rparr>, ss @ new))"
    by (cases ev)
      (use self in \<open>auto simp: SimpleLinkGeneralEventHandler_def SimpleLinkWlanEventHandler_def
         SimpleLinkNetAppEventHandler_def SimpleLinkSockEventHandler_def split: option.split\<close>)
  with that show thesis by blast
qed

lemma events_heard:
  obtains b new where "run_state (handle_events evs) (h, ss) = ((), (h\<lparr>fast_connect := b\<rparr>, ss @ new))"
proof -
  have "\<exists>b new. run_state (handle_events evs) (h, ss) = ((), (h\<lparr>fast_connect := b\<rparr>, ss @ new))"
  proof (induction evs arbitrary: h ss)
    case Nil
    have "h = h\<lparr>fast_connect := fast_connect h\<rparr>" by simp
    then show ?case by (metis append_Nil2 handle_events.simps(1) run_state_return)
  next
    case (Cons ev evs)
    obtain b new where "run_state (handle_event ev) (h, ss) = ((), (h\<lparr>fast_connect := b\<rparr>, ss @ new))"
      by (rule event_heard)
    then show ?case using Cons.IH [of "h\<lparr>fast_connect := b\<rparr>" "ss @ new"] by auto
  qed
  with that show thesis by blast
qed

lemma chip_called:
  obtains b new where "run_state (chip_call f) (h, ss) =
    (fst (f (chip h)), (h\<lparr>chip := snd (snd (f (chip h))), fast_connect := b\<rparr>, ss @ new))"
proof -
  obtain r evs s where f: "f (chip h) = (r, evs, s)" by (metis prod_cases3)
  obtain b new where "run_state (handle_events evs) (h\<lparr>chip := s\<rparr>, ss) = ((), (h\<lparr>chip := s, fast_connect := b\<rparr>, ss @ new))"
    by (rule events_heard [of evs "h\<lparr>chip := s\<rparr>" ss]) simp
  with f that [of b new] show thesis by (simp add: chip_call_def)
qed

lemma reported:
  obtains b new where "run_state (reporting command f) (h, ss) =
    (fst (f (chip h)), (h\<lparr>chip := snd (snd (f (chip h))), fast_connect := b\<rparr>, ss @ new))"
proof -
  obtain b new where c: "run_state (chip_call f) (h, ss) =
    (fst (f (chip h)), (h\<lparr>chip := snd (snd (f (chip h))), fast_connect := b\<rparr>, ss @ new))"
    by (rule chip_called)
  show thesis
  proof (cases "sint (fst (f (chip h))) < 0")
    case True
    with c that [of b "new @ reports command (fst (f (chip h)))"] show thesis by (simp add: reporting_def)
  next
    case False
    with c that [of b new] show thesis by (simp add: reporting_def)
  qed
qed

section \<open>What the driver keeps\<close>

text \<open>A view of the variables is kept by a statement.\<close>

definition keeps :: "('s cc3100 \<Rightarrow> 'v) \<Rightarrow> ('s, 'r) action \<Rightarrow> bool" where
  "keeps f m \<longleftrightarrow> (\<forall>h ss. f (fst (snd (run_state m (h, ss)))) = f h)"

lemma keepsI: "(\<And>h ss r h' ss'. run_state m (h, ss) = (r, (h', ss')) \<Longrightarrow> f h' = f h) \<Longrightarrow> keeps f m"
  unfolding keeps_def by (metis prod.collapse)

lemma keepsD: "keeps f m \<Longrightarrow> run_state m (h, ss) = (r, (h', ss')) \<Longrightarrow> f h' = f h"
  unfolding keeps_def by (metis fst_conv snd_conv)

lemma keeps_basic [driver_rules]:
  "keeps f (returns r)" "keeps f (reads g)" "keeps f (calls_listeners new)"
  by (simp_all add: keeps_def)

lemma keeps_sets [driver_rules]: "(\<And>h. f (g h) = f h) \<Longrightarrow> keeps f (sets g)"
  by (simp add: keeps_def)

lemma keeps_bind [driver_rules]: "keeps f m \<Longrightarrow> (\<And>r. keeps f (k r)) \<Longrightarrow> keeps f (m \<bind> k)"
  by (rule keepsI) (auto split: prod.splits, metis keepsD)

lemma keeps_if [driver_rules]: "(c \<Longrightarrow> keeps f m) \<Longrightarrow> (\<not> c \<Longrightarrow> keeps f n) \<Longrightarrow> keeps f (if c then m else n)"
  by simp

lemma keeps_case [driver_rules]:
  "keeps f m \<Longrightarrow> (\<And>x. keeps f (n x)) \<Longrightarrow> keeps f (case v of None \<Rightarrow> m | Some x \<Rightarrow> n x)"
  "(\<And>x y. keeps f (q x y)) \<Longrightarrow> keeps f (case p of (x, y) \<Rightarrow> q x y)"
  by (simp_all split: option.split prod.split)

text \<open>A view that the chip and its events do not touch.\<close>

locale driver_variable =
  fixes f :: "'s cc3100 \<Rightarrow> 'v"
  assumes apart: "f (h\<lparr>chip := s, fast_connect := b\<rparr>) = f h"
begin

lemma call [driver_rules]: "keeps f (chip_call c)"
proof (rule keepsI)
  fix h ss r h' ss'
  assume run: "run_state (chip_call c) (h, ss) = (r, (h', ss'))"
  obtain b new where "run_state (chip_call c) (h, ss) =
    (fst (c (chip h)), (h\<lparr>chip := snd (snd (c (chip h))), fast_connect := b\<rparr>, ss @ new))" by (rule chip_called)
  with run apart [of b "snd (snd (c (chip h)))" h] show "f h' = f h" by auto
qed

lemma report [driver_rules]: "keeps f (reporting command c)"
  unfolding reporting_def by (intro driver_rules call)

lemma fast [driver_rules]: "keeps f (sets (\<lambda>h. h\<lparr>fast_connect := b\<rparr>))"
proof (rule keeps_sets)
  show "f (h\<lparr>fast_connect := b\<rparr>) = f h" for h using apart [of b "chip h" h] by simp
qed

lemma starting: "keeps f (cc_start L)" "keeps f (cc_stop L)" "keeps f (cc_disconnect L)" "keeps f (CC3100_process L)"
  unfolding cc_start_def cc_stop_def cc_disconnect_def CC3100_process_def by (intro driver_rules call report)+

lemma resetting: "keeps f (cc_reset L)"
  unfolding cc_reset_def by (intro driver_rules starting call report fast)

lemma options: "keeps f (set_options L i os)"
  by (induction os) (auto intro!: driver_rules report)

lemma connecting: "keeps f (connect_loop L i addr n r)"
  by (induction n arbitrary: r) (auto intro!: driver_rules call)

lemma transfers:
  "keeps f (cc_close_socket L i)" "keeps f (cc_send L i bs)" "keeps f (cc_send_to L i bs a p)"
  "keeps f (cc_receive L i n)" "keeps f (cc_receive_from L i n)" "keeps f (wifi_get_current_ip L)"
  unfolding cc_close_socket_def cc_send_def cc_send_to_def cc_receive_def cc_receive_from_def received_or_none_def
    wifi_get_current_ip_def Let_def
  by (intro driver_rules call report)+

lemma opening_udp: "keeps f (cc_open_udp_socket L a p)"
  unfolding cc_open_udp_socket_def by (intro driver_rules call report options)

lemma opening_connected: "keeps f (connected_socket L s ip)"
  unfolding connected_socket_def by (intro driver_rules call report options connecting)

lemma opening_tcp: "keeps f (resolve_server L) \<Longrightarrow> keeps f (cc_open_socket L a p s)"
  unfolding cc_open_socket_def by (intro driver_rules opening_connected)

lemma scanning: "keeps f (get_surroundig_networks L n)"
proof -
  have "keeps f (scan_loop L i k found)" for i k found
    by (induction L i k found rule: scan_loop.induct) (auto simp: Let_def intro!: driver_rules call)
  then show ?thesis unfolding get_surroundig_networks_def by (intro driver_rules call)
qed

end

text \<open>The code that the driver looks at before it asks for the address again.\<close>

definition own_code :: "'s cc3100 \<Rightarrow> u32" where
  "own_code h = cmd_platform_code (own_tcp_data h)"

interpretation own_code: driver_variable own_code
  by unfold_locales (simp add: own_code_def)

lemma own_code_frames [simp]:
  "own_code (copies_parameters h) = own_code h" "own_code (copies_static_ip h) = own_code h"
  "own_code (normal_address h) = own_code h" "own_code (set_server_text t h) = own_code h"
  by (simp_all add: own_code_def copies_parameters_def copies_static_ip_def normal_address_def set_server_text_def Let_def)

lemma resolving_keeps_code: "keeps own_code (resolve_server L)"
  unfolding resolve_server_def
  by (intro driver_rules own_code.call) (simp_all add: own_code_def set_server_text_def normal_address_def)

lemma connecting_keeps_code: "keeps own_code (cc_connect L s p t)"
  unfolding cc_connect_def new_address_def regular_connect_def
  by (intro driver_rules own_code.report own_code.starting own_code.fast) (simp_all add: own_code_def copies_parameters_def copies_static_ip_def Let_def)

lemma starting_keeps_code: "keeps own_code (init_wifi L)"
proof -
  have steps: "keeps own_code (all_steps ms)" if "\<And>m. m \<in> set ms \<Longrightarrow> keeps own_code m" for ms :: "('a, bool) action list"
    using that by (induction ms) (auto intro!: driver_rules)
  have mac: "keeps own_code (reads_mac L)"
    unfolding reads_mac_def by (intro driver_rules own_code.call) (simp_all add: own_code_def)
  have cert: "keeps own_code (update_ca_cert L)"
    unfolding update_ca_cert_def read_ca_version_def write_cert_def write_ca_version_def
    by (intro driver_rules own_code.call)
  have "keeps own_code m" if "m \<in> set (init_steps L)" for m
    using that mac cert
    by (auto simp: init_steps_def succeeds_def SetTime_def intro!: driver_rules own_code.call)
  then show ?thesis
    unfolding init_wifi_def by (intro driver_rules steps) (simp_all add: own_code_def)
qed

end
