(* ===== verification/Chip_Facts.thy ===== *)
theory Chip_Facts
  imports Chip_Life
begin

text \<open>
  What holds of the driver of the chip: when it is fit for the Wi-Fi module, how it accounts for the sockets
  of the chip, when it looks the server up, and what the search for networks gives.
\<close>

section \<open>The bytes it receives\<close>

lemma received_bytes: "snd (fst (driver_function (received_or_none f) h)) = snd (fst (f (chip h)))"
proof -
  obtain n bs evs s where f: "f (chip h) = ((n, bs), evs, s)" by (metis prod.collapse)
  obtain b new where "run_state (chip_call f) (h, []) =
    (fst (f (chip h)), (h\<lparr>chip := snd (snd (f (chip h))), fast_connect := b\<rparr>, [] @ new))" by (rule chip_called)
  with f show ?thesis by (simp add: received_or_none_def driver_function_def)
qed

definition gives_at_most_asked :: "'s simplelink \<Rightarrow> bool" where
  "gives_at_most_asked L \<longleftrightarrow> (\<forall>i n s. length (snd (fst (sl_Recv L i n s))) \<le> unat n)"

lemma receives_as_chip:
  "length (snd (fst (receive_call (wifi_tcp (cc3100_dependencies L unset)) i n (h, l)))) = length (snd (fst (sl_Recv L (word_of_int i) n (chip h))))"
  "snd (fst (receive_call (wifi_udp (cc3100_dependencies L unset)) i n (h, l))) = snd (fst (unset_receive_from unset i n h))"
  by (simp_all add: tcp_transport_def udp_transport_def wifi_tcp_dependencies_def wifi_udp_dependencies_def cc3100_dependencies_def
      logging_def cc_receive_def split_def Let_def received_bytes)


section \<open>The address of the server\<close>

lemma c_string_copied [simp]: "c_string (copied_text t dst) = c_string t"
proof -
  have "takeWhile (\<lambda>c. c \<noteq> NUL) (takeWhile (\<lambda>c. c \<noteq> NUL) t @ NUL # xs) = takeWhile (\<lambda>c. c \<noteq> NUL) t" for xs
    by (subst takeWhile_append2) (auto dest: set_takeWhileD)
  then show ?thesis by (simp add: copied_text_def c_string_def)
qed

lemma ntoa_is_text: "c_string (inet_ntoa ip) = inet_ntoa ip"
proof -
  have digits: "NUL \<notin> set (decimal (unat x))" for x :: u8
    using decimal_digits [of "unat x" NUL] by (auto simp: isdigit_def)
  then have "\<forall>c \<in> set (inet_ntoa ip). c \<noteq> NUL"
    by (auto simp: inet_ntoa_def integer_to_ascii_decimal)
  then show ?thesis unfolding c_string_def by (rule takeWhile_eq_all_conv [THEN iffD2])
qed

lemma ntoa_is_ipv4: "is_ipv4 (inet_ntoa ip)"
  by (simp add: is_ipv4_def inet_ntoa_dotted inet_pton_dotted)

lemma server_text_set [simp]: "server_text (set_server_text (inet_ntoa ip) h) = inet_ntoa ip"
  by (simp add: server_text_def set_server_text_def ntoa_is_text)

lemma normal_address_text: "is_ipv4 (server_text (normal_address h)) = is_ipv4 (server_text h)"
  by (simp add: normal_address_def ntoa_is_ipv4)

lemma known_server:
  assumes "is_ipv4 (server_text h)" "own_code h = 0"
  shows "run_state (resolve_server L) (h, ss) = (Some (inet_aton (server_text h)), (normal_address h, ss))"
  using assms by (simp add: resolve_server_def asks_dns_def normal_address_text flip: own_code_def)

lemma resolved_text:
  assumes "run_state (resolve_server L) (h, ss) = (Some ip, (h', ss'))"
  shows "is_ipv4 (server_text h')"
proof (cases "asks_dns (normal_address h)")
  case True
  let ?h = "normal_address h"
  let ?f = "sl_NetAppDnsGetHostByName L (cfg_hostname (variables ?h))"
  obtain r i where f: "fst (?f (chip ?h)) = (r, i)" by fastforce
  obtain b new where "run_state (chip_call ?f) (?h, ss) =
    (fst (?f (chip ?h)), (?h\<lparr>chip := snd (snd (?f (chip ?h))), fast_connect := b\<rparr>, ss @ new))" by (rule chip_called)
  with f True assms ntoa_is_ipv4 show ?thesis by (auto simp: resolve_server_def split: if_splits)
next
  case False
  with assms show ?thesis by (auto simp: resolve_server_def asks_dns_def)
qed

interpretation server: driver_variable server_text
  by unfold_locales (simp add: server_text_def)

lemma dns_unused [simp]:
  "set_options (L\<lparr>sl_NetAppDnsGetHostByName := f\<rparr>) i os = set_options L i os"
  "connect_loop (L\<lparr>sl_NetAppDnsGetHostByName := f\<rparr>) i addr n r = connect_loop L i addr n r"
proof -
  show "set_options (L\<lparr>sl_NetAppDnsGetHostByName := f\<rparr>) i os = set_options L i os"
    by (induction os) (auto cong: if_cong)
  show "connect_loop (L\<lparr>sl_NetAppDnsGetHostByName := f\<rparr>) i addr n r = connect_loop L i addr n r"
    by (induction n arbitrary: r) (auto cong: if_cong)
qed

lemma dns_unused_later [simp]:
  "connected_socket (L\<lparr>sl_NetAppDnsGetHostByName := f\<rparr>) secure ip = connected_socket L secure ip"
  by (simp add: connected_socket_def cong: if_cong)

text \<open>What is done with the driver, in any order; the configuration and the clock change by themselves.\<close>

datatype driver_request =
    StartChip | StopChip | ResetChip | Connect string string u8 | Disconnect | InitWifi | ProcessChip | Scan u8 | AskAddress
  | OpenTcp string u16 bool | OpenUdp string u16 | CloseSocket int | SendData int "u8 list"
  | SendDataTo int "u8 list" string u16 | ReceiveData int u16 | ReceiveDataFrom int u16

abbreviation ended :: "('s, 'r) action \<Rightarrow> ('s, unit) action" where
  "ended m \<equiv> m \<bind> (\<lambda>_. returns ())"

fun requested :: "'s simplelink \<Rightarrow> driver_request \<Rightarrow> ('s, unit) action" where
  "requested L StartChip = ended (cc_start L)"
| "requested L StopChip = ended (cc_stop L)"
| "requested L ResetChip = ended (cc_reset L)"
| "requested L (Connect s p t) = ended (cc_connect L s p t)"
| "requested L Disconnect = ended (cc_disconnect L)"
| "requested L InitWifi = ended (init_wifi L)"
| "requested L ProcessChip = ended (CC3100_process L)"
| "requested L (Scan n) = ended (get_surroundig_networks L n)"
| "requested L AskAddress = ended (wifi_get_current_ip L)"
| "requested L (OpenTcp a p s) = ended (cc_open_socket L a p s)"
| "requested L (OpenUdp a p) = ended (cc_open_udp_socket L a p)"
| "requested L (CloseSocket i) = ended (cc_close_socket L i)"
| "requested L (SendData i bs) = ended (cc_send L i bs)"
| "requested L (SendDataTo i bs a p) = ended (cc_send_to L i bs a p)"
| "requested L (ReceiveData i n) = ended (cc_receive L i n)"
| "requested L (ReceiveDataFrom i n) = ended (cc_receive_from L i n)"

inductive driver_reachable :: "'s simplelink \<Rightarrow> 's cc3100 \<Rightarrow> bool" for L where
  memory_zero: "own_code h = 0 \<Longrightarrow> driver_reachable L h"
| request: "driver_reachable L h \<Longrightarrow> driver_reachable L (snd (snd (driver_function (requested L req) h)))"
| outside: "driver_reachable L h \<Longrightarrow> driver_reachable L (h\<lparr>variables := v, rtc_now := t\<rparr>)"

lemma request_keeps_code: "keeps own_code (requested L req)"
  by (cases req)
    (auto intro!: driver_rules own_code.starting own_code.resetting own_code.transfers own_code.opening_udp
      own_code.opening_tcp own_code.scanning resolving_keeps_code connecting_keeps_code starting_keeps_code)

lemma driver_reachable_code: "driver_reachable L h \<Longrightarrow> own_code h = 0"
proof (induction rule: driver_reachable.induct)
  case (request h req)
  obtain r h' ss where run: "run_state (requested L req) (h, []) = (r, (h', ss))" by (metis prod_cases3)
  with keepsD [OF request_keeps_code run] request.IH show ?case by (simp add: driver_function_def)
qed (simp_all add: own_code_def)

text \<open>C13: The driver looks the name of the server up once: when the text of the address is an address, the DNS
  is not asked again, also after connections that failed, because the error code it tests is a variable of its
  own that nothing sets; and a socket is opened only with such a text.\<close>

theorem server_not_looked_up_again:
  assumes "driver_reachable L h"
  shows "(is_ipv4 (server_text h) \<longrightarrow> driver_function (cc_open_socket L a p secure) h =
      driver_function (cc_open_socket (L\<lparr>sl_NetAppDnsGetHostByName := f\<rparr>) a p secure) h) \<and>
    (driver_function (cc_open_socket L a p secure) h = (r, ss, h') \<longrightarrow> 0 \<le> r \<longrightarrow> is_ipv4 (server_text h'))"
proof (intro conjI impI)
  note code = driver_reachable_code [OF assms]
  assume "is_ipv4 (server_text h)"
  from known_server [OF this code] show "driver_function (cc_open_socket L a p secure) h =
      driver_function (cc_open_socket (L\<lparr>sl_NetAppDnsGetHostByName := f\<rparr>) a p secure) h"
    by (simp add: driver_function_def cc_open_socket_def)
next
  assume run: "driver_function (cc_open_socket L a p secure) h = (r, ss, h')" and r: "0 \<le> r"
  obtain server h1 s1 where resolve: "run_state (resolve_server L) (h, []) = (server, (h1, s1))" by (metis prod_cases3)
  from run r resolve obtain ip where ip: "server = Some ip" and rest: "run_state (connected_socket L secure ip) (h1, s1) = (r, (h', ss))"
    by (auto simp: driver_function_def cc_open_socket_def split: option.splits prod.splits)
  from resolved_text resolve ip have "is_ipv4 (server_text h1)" by metis
  with keepsD [OF server.opening_connected rest] show "is_ipv4 (server_text h')" by simp
qed

section \<open>The sockets of the chip\<close>

text \<open>
  What the library documents about the sockets that are open: a new identifier is not in use, closing a
  socket frees it unless it fails, and nothing else that the driver calls here opens or closes one.
\<close>

definition accounts_sockets :: "'s simplelink \<Rightarrow> ('s \<Rightarrow> u16 set) \<Rightarrow> bool" where
  "accounts_sockets L live \<longleftrightarrow>
     (\<forall>d t p s. let (i, evs, s') = sl_Socket L d t p s in
        if sint i < 0 then live s' = live s else i \<notin> live s \<and> live s' = insert i (live s)) \<and>
     (\<forall>i s. let (r, evs, s') = sl_Close L i s in live s' = (if sint r < 0 then live s else live s - {i})) \<and>
     (\<forall>i l n v s. live (snd (snd (sl_SetSockOpt L i l n v s))) = live s) \<and>
     (\<forall>i addr s. live (snd (snd (sl_Connect L i addr s))) = live s) \<and>
     (\<forall>name s. live (snd (snd (sl_NetAppDnsGetHostByName L name s))) = live s)"

abbreviation open_sockets :: "('s \<Rightarrow> u16 set) \<Rightarrow> 's cc3100 \<Rightarrow> u16 set" where
  "open_sockets live h \<equiv> live (chip h)"

lemma quiet_call:
  assumes "\<And>s. live (snd (snd (f s))) = live s"
  shows "keeps (open_sockets live) (chip_call f)"
proof (rule keepsI)
  fix h ss r h' ss'
  assume run: "run_state (chip_call f) (h, ss) = (r, (h', ss'))"
  obtain b new where "run_state (chip_call f) (h, ss) =
    (fst (f (chip h)), (h\<lparr>chip := snd (snd (f (chip h))), fast_connect := b\<rparr>, ss @ new))" by (rule chip_called)
  with run assms show "live (chip h') = live (chip h)" by auto
qed

lemma quiet_report: "(\<And>s. live (snd (snd (f s))) = live s) \<Longrightarrow> keeps (open_sockets live) (reporting c f)"
  unfolding reporting_def by (intro driver_rules quiet_call)

lemma quiet_steps:
  assumes "accounts_sockets L live"
  shows "keeps (open_sockets live) (set_options L i os)" "keeps (open_sockets live) (connect_loop L i addr n r)"
    "keeps (open_sockets live) (resolve_server L)"
proof -
  from assms have quiet: "live (snd (snd (sl_SetSockOpt L i l k v s))) = live s" "live (snd (snd (sl_Connect L i addr s))) = live s"
    "live (snd (snd (sl_NetAppDnsGetHostByName L name s))) = live s" for l k v name s
    by (simp_all add: accounts_sockets_def)
  show "keeps (open_sockets live) (set_options L i os)"
    by (induction os) (auto intro!: driver_rules quiet_report quiet)
  show "keeps (open_sockets live) (connect_loop L i addr n r)"
    by (induction n arbitrary: r) (auto intro!: driver_rules quiet_call quiet)
  show "keeps (open_sockets live) (resolve_server L)"
    unfolding resolve_server_def by (intro driver_rules quiet_call quiet) (simp_all add: normal_address_def set_server_text_def)
qed

definition option_refused :: "'s simplelink \<Rightarrow> u16 \<Rightarrow> (u16 \<times> u8 list) list \<Rightarrow> bool" where
  "option_refused L i os \<longleftrightarrow> (\<exists>(k, v) \<in> set os. \<exists>s. sint (fst (sl_SetSockOpt L i SL_SOL_SOCKET k v s)) < 0)"

lemma not_ready_refused:
  "run_state (set_options L i os) (h, ss) = (False, u) \<Longrightarrow> option_refused L i os"
proof (induction os arbitrary: h ss)
  case (Cons kv os)
  obtain k v where kv: "kv = (k, v)" by fastforce
  let ?f = "sl_SetSockOpt L i SL_SOL_SOCKET k v"
  obtain b new where "run_state (reporting SL_OPCODE_SOCKET_SETSOCKOPT ?f) (h, ss) =
    (fst (?f (chip h)), (h\<lparr>chip := snd (snd (?f (chip h))), fast_connect := b\<rparr>, ss @ new))" by (rule reported)
  with Cons kv show ?case by (fastforce simp: option_refused_def split: if_splits)
qed simp

lemma socket_created:
  assumes "accounts_sockets L live"
  obtains i h' ss' where "run_state (reporting c (sl_Socket L d t p)) (h, ss) = (i, (h', ss'))"
    "i = fst (sl_Socket L d t p (chip h))"
    "if sint i < 0 then live (chip h') = live (chip h) else i \<notin> live (chip h) \<and> live (chip h') = insert i (live (chip h))"
proof -
  let ?f = "sl_Socket L d t p"
  obtain b new where r: "run_state (reporting c ?f) (h, ss) =
    (fst (?f (chip h)), (h\<lparr>chip := snd (snd (?f (chip h))), fast_connect := b\<rparr>, ss @ new))" by (rule reported)
  obtain i evs s where f: "?f (chip h) = (i, evs, s)" by (metis prod_cases3)
  from assms have "let (i, evs, s') = ?f (chip h) in
      if sint i < 0 then live s' = live (chip h) else i \<notin> live (chip h) \<and> live s' = insert i (live (chip h))"
    by (simp add: accounts_sockets_def)
  with f r that show thesis by (auto split: if_splits)
qed

lemma socket_closed:
  assumes "accounts_sockets L live"
  obtains r h' ss' where "run_state (chip_call (sl_Close L i)) (h, ss) = (r, (h', ss'))" "r = fst (sl_Close L i (chip h))"
    "live (chip h') = (if sint r < 0 then live (chip h) else live (chip h) - {i})"
proof -
  obtain b new where c: "run_state (chip_call (sl_Close L i)) (h, ss) =
    (fst (sl_Close L i (chip h)), (h\<lparr>chip := snd (snd (sl_Close L i (chip h))), fast_connect := b\<rparr>, ss @ new))" by (rule chip_called)
  obtain r evs s where f: "sl_Close L i (chip h) = (r, evs, s)" by (metis prod_cases3)
  from assms have "let (r, evs, s') = sl_Close L i (chip h) in live s' = (if sint r < 0 then live (chip h) else live (chip h) - {i})"
    by (simp add: accounts_sockets_def)
  with f c that show thesis by auto
qed

definition socket_options :: "bool \<Rightarrow> (u16 \<times> u8 list) list" where
  "socket_options secure = nonblocking_option # (if secure then secure_options else [])"

text \<open>What may be open after \<open>connected_socket\<close>, by its result.\<close>

definition left_open :: "'s simplelink \<Rightarrow> bool \<Rightarrow> int \<Rightarrow> u16 set \<Rightarrow> u16 set \<Rightarrow> bool" where
  "left_open L secure r before after \<longleftrightarrow>
     0 \<le> r \<and> word_of_int r \<notin> before \<and> after = insert (word_of_int r) before \<or>
     r < 0 \<and> after = before \<or>
     r = - 1 \<and> (\<exists>i. i \<notin> before \<and> after = insert i before \<and>
       (option_refused L i (socket_options secure) \<or> (\<exists>s. sint (fst (sl_Close L i s)) < 0)))"

lemma connected_socket_accounts:
  assumes acc: "accounts_sockets L live" and run: "run_state (connected_socket L secure ip) (h, ss) = (r, (h', ss'))"
  shows "left_open L secure r (live (chip h)) (live (chip h'))"
proof -
  let ?f = "sl_Socket L SL_AF_INET SL_SOCK_STREAM (if secure then SL_SEC_SOCKET else 0)"
  obtain i h1 s1 where created: "run_state (reporting SL_OPCODE_SOCKET_SOCKET ?f) (h, ss) = (i, (h1, s1))"
    "if sint i < 0 then live (chip h1) = live (chip h) else i \<notin> live (chip h) \<and> live (chip h1) = insert i (live (chip h))"
    by (rule socket_created [OF acc])
  show ?thesis
  proof (cases "sint i < 0")
    case True
    with run created show ?thesis by (auto simp: connected_socket_def left_open_def)
  next
    case False
    with created have new: "i \<notin> live (chip h)" "live (chip h1) = insert i (live (chip h))" by simp_all
    obtain ready h2 s2 where opts: "run_state (set_options L i (socket_options secure)) (h1, s1) = (ready, (h2, s2))" by (metis prod_cases3)
    from keepsD [OF quiet_steps(1) [OF acc] opts] have l2: "live (chip h2) = insert i (live (chip h))" using new by simp
    show ?thesis
    proof (cases ready)
      case False
      with run created \<open>\<not> sint i < 0\<close> opts have "r = - 1" "h' = h2" by (auto simp: connected_socket_def socket_options_def)
      with not_ready_refused [of L i "socket_options secure" h1 s1] opts False l2 new show ?thesis by (auto simp: left_open_def)
    next
      case True
      let ?addr = "\<lparr>sin_family = SL_AF_INET, sin_port = sl_Htons (cfg_server_port (variables h2)), s_addr = sl_Htonl ip\<rparr>"
      obtain c h3 s3 where conn: "run_state (connect_loop L i ?addr 200 (- 1)) (h2, s2) = (c, (h3, s3))" by (metis prod_cases3)
      from keepsD [OF quiet_steps(2) [OF acc] conn] l2 have l3: "live (chip h3) = insert i (live (chip h))" by simp
      obtain q h4 s4 where closed: "run_state (chip_call (sl_Close L i)) (h3, s3 @ reports SL_OPCODE_SOCKET_CONNECT c) = (q, (h4, s4))"
        "q = fst (sl_Close L i (chip h3))" "live (chip h4) = (if sint q < 0 then live (chip h3) else live (chip h3) - {i})"
        by (rule socket_closed [OF acc])
      from run created(1) \<open>\<not> sint i < 0\<close> opts True conn closed(1)
      have "(r, h') = (if sint c < 0 then (- 1, h4) else (sint i, h3))"
        by (auto simp: connected_socket_def socket_options_def split: if_splits)
      with closed l3 new \<open>\<not> sint i < 0\<close> show ?thesis by (auto simp: left_open_def split: if_splits)
    qed
  qed
qed

text \<open>C14: \<open>wifi_open_socket\<close> accounts for its socket: a result that is not negative is a new socket, the only one
  more that is open; after a failure no more sockets are open than before, unless the chip refused an option
  of the new socket or did not close it, and then the result is -1.\<close>

theorem open_socket_accounts:
  assumes "accounts_sockets L live" "driver_function (cc_open_socket L a p secure) h = (r, ss, h')"
  shows "left_open L secure r (live (chip h)) (live (chip h'))"
proof -
  obtain server h1 s1 where resolve: "run_state (resolve_server L) (h, []) = (server, (h1, s1))" by (metis prod_cases3)
  from keepsD [OF quiet_steps(3) [OF assms(1)] resolve] have l1: "live (chip h1) = live (chip h)" .
  show ?thesis
  proof (cases server)
    case None
    with assms(2) resolve l1 show ?thesis by (auto simp: driver_function_def cc_open_socket_def left_open_def)
  next
    case (Some ip)
    with assms(2) resolve have "run_state (connected_socket L secure ip) (h1, s1) = (r, (h', ss))"
      by (auto simp: driver_function_def cc_open_socket_def split: prod.splits)
    from connected_socket_accounts [OF assms(1) this] l1 show ?thesis by simp
  qed
qed

text \<open>C39: A chip that refuses to make its sockets non-blocking loses a socket with every try: the function returns -1
  and leaves the new socket open, which nobody knows and nobody closes.\<close>

theorem refused_option_leaks_socket:
  assumes acc: "accounts_sockets L live" and known: "own_code h = 0" "is_ipv4 (server_text h)"
    and created: "0 \<le> sint (fst (sl_Socket L SL_AF_INET SL_SOCK_STREAM (if secure then SL_SEC_SOCKET else 0) (chip h)))"
    and refused: "\<And>i s. sint (fst (sl_SetSockOpt L i SL_SOL_SOCKET SL_SO_NONBLOCKING (bytes_le 1) s)) < 0"
  shows "\<exists>i ss h'. driver_function (cc_open_socket L a p secure) h = (- 1, ss, h') \<and> i \<notin> live (chip h) \<and>
    live (chip h') = insert i (live (chip h))"
proof -
  have same: "chip (normal_address h) = chip h" by (simp add: normal_address_def set_server_text_def)
  let ?f = "sl_Socket L SL_AF_INET SL_SOCK_STREAM (if secure then SL_SEC_SOCKET else 0)"
  obtain i h1 s1 where "run_state (reporting SL_OPCODE_SOCKET_SOCKET ?f) (normal_address h, []) = (i, (h1, s1))"
    "i = fst (?f (chip (normal_address h)))"
    "if sint i < 0 then live (chip h1) = live (chip (normal_address h))
     else i \<notin> live (chip (normal_address h)) \<and> live (chip h1) = insert i (live (chip (normal_address h)))"
    by (rule socket_created [OF acc])
  note new = this [unfolded same]
  have i: "\<not> sint i < 0" using created new(2) by simp
  let ?g = "sl_SetSockOpt L i SL_SOL_SOCKET SL_SO_NONBLOCKING (bytes_le 1)"
  obtain b more where opt: "run_state (reporting SL_OPCODE_SOCKET_SETSOCKOPT ?g) (h1, s1) =
    (fst (?g (chip h1)), (h1\<lparr>chip := snd (snd (?g (chip h1))), fast_connect := b\<rparr>, s1 @ more))" by (rule reported)
  let ?h = "h1\<lparr>chip := snd (snd (?g (chip h1))), fast_connect := b\<rparr>"
  have opts: "run_state (set_options L i (nonblocking_option # os)) (h1, s1) = (False, (?h, s1 @ more))" for os
    using opt refused by (simp add: nonblocking_option_def)
  have "run_state (cc_open_socket L a p secure) (h, []) = (- 1, (?h, s1 @ more))"
    unfolding cc_open_socket_def connected_socket_def run_state_bind known_server [OF known(2,1)] prod.case option.case new(1)
    using i opts by simp
  moreover from acc have "live (snd (snd (?g (chip h1)))) = live (chip h1)" by (simp add: accounts_sockets_def)
  ultimately show ?thesis using i new(3) by (auto simp: driver_function_def)
qed

section \<open>The connection\<close>

primrec polled :: "'s simplelink \<Rightarrow> u16 \<Rightarrow> socket_address \<Rightarrow> nat \<Rightarrow> 's \<Rightarrow> 's" where
  "polled L i addr 0 s = s"
| "polled L i addr (Suc k) s = polled L i addr k (snd (snd (sl_Connect L i addr s)))"

text \<open>C15: A server that accepts the connection when it is asked for the k-th time is connected exactly when k is
  below the 200 tries of the loop; else the loop ends with the result that the chip is still connecting, which
  the caller takes for an error.\<close>

theorem connects_within_200_polls:
  assumes "\<And>j. j < k \<Longrightarrow> fst (sl_Connect L i addr (polled L i addr j (chip h))) = SL_EALREADY"
    and "fst (sl_Connect L i addr (polled L i addr k (chip h))) = 0"
  shows "fst (run_state (connect_loop L i addr 200 (- 1)) (h, ss)) = (if k < 200 then 0 else SL_EALREADY) \<and> sint SL_EALREADY < 0"
proof -
  have loop: "fst (run_state (connect_loop L i addr n r) (h, ss)) = (if k < n then 0 else if n = 0 then r else SL_EALREADY)"
    if "\<And>j. j < k \<Longrightarrow> fst (sl_Connect L i addr (polled L i addr j (chip h))) = SL_EALREADY"
      "fst (sl_Connect L i addr (polled L i addr k (chip h))) = 0" for n k h ss r
    using that
  proof (induction n arbitrary: k h ss r)
    case (Suc n)
    let ?f = "sl_Connect L i addr"
    obtain b new where call: "run_state (chip_call ?f) (h, ss) =
      (fst (?f (chip h)), (h\<lparr>chip := snd (snd (?f (chip h))), fast_connect := b\<rparr>, ss @ new))" by (rule chip_called)
    show ?case
    proof (cases k)
      case 0
      with Suc.prems(2) call show ?thesis by simp
    next
      case (Suc l)
      let ?h = "h\<lparr>chip := snd (snd (?f (chip h))), fast_connect := b\<rparr>"
      have first: "fst (?f (chip h)) = SL_EALREADY" using Suc.prems(1) [of 0] \<open>k = Suc l\<close> by simp
      have "fst (sl_Connect L i addr (polled L i addr j (chip ?h))) = SL_EALREADY" if "j < l" for j
        using Suc.prems(1) [of "Suc j"] that \<open>k = Suc l\<close> by simp
      moreover have "fst (sl_Connect L i addr (polled L i addr l (chip ?h))) = 0" using Suc.prems(2) \<open>k = Suc l\<close> by simp
      ultimately have "fst (run_state (connect_loop L i addr n SL_EALREADY) (?h, ss @ new)) =
          (if l < n then 0 else if n = 0 then SL_EALREADY else SL_EALREADY)" by (rule Suc.IH)
      with call first \<open>k = Suc l\<close> show ?thesis by (simp add: SL_EALREADY_def)
    qed
  qed simp
  show ?thesis using loop [OF assms, of 200 "- 1" ss] by (simp add: SL_EALREADY_def)
qed

section \<open>The networks around\<close>

lemma scan_loop_found:
  "run_state (scan_loop L idx places found) s = (result, s') \<Longrightarrow> distinct (map network_bssid found) \<Longrightarrow> length found < places \<Longrightarrow>
   distinct (map network_bssid result) \<and> length result \<le> places \<and> length result \<le> length found + idx"
proof (induction idx arbitrary: found s)
  case (Suc idx)
  let ?f = "sl_WlanGetNetworkList L (of_nat idx)"
  obtain h ss where s: "s = (h, ss)" by fastforce
  obtain n e where f: "fst (?f (chip h)) = (n, e)" by fastforce
  obtain b new where call: "run_state (chip_call ?f) (h, ss) =
    (fst (?f (chip h)), (h\<lparr>chip := snd (snd (?f (chip h))), fast_connect := b\<rparr>, ss @ new))" by (rule chip_called)
  let ?found = "if entry_bssid e \<in> network_bssid ` set found then found
    else found @ [\<lparr>network_bssid = entry_bssid e, network_rssi = entry_rssi e\<rparr>]"
  have grown: "distinct (map network_bssid ?found)" "length ?found \<le> Suc (length found)" using Suc.prems(2) by auto
  show ?case
  proof (cases "sint n < 1 \<or> \<not> (0 < idx \<and> length ?found < places)")
    case True
    with Suc.prems s f call grown show ?thesis by (auto simp: Let_def split: if_splits)
  next
    case False
    with Suc.prems(1) s f call have "run_state (scan_loop L idx places ?found) (h\<lparr>chip := snd (snd (?f (chip h))), fast_connect := b\<rparr>, ss @ new) = (result, s')"
      by (auto simp: Let_def split: if_splits)
    from Suc.IH [OF this grown(1)] False grown(2) show ?thesis by simp
  qed
qed auto

text \<open>The search for networks gives at most as many as the caller has place for, never more than ten, and no two
  of them have the same address; with no place at all one network is written all the same.\<close>

theorem surrounding_networks:
  assumes "run_state (get_surroundig_networks L n) s = (found, s')" "0 < n"
  shows "distinct (map network_bssid found) \<and> length found \<le> unat n \<and> length found \<le> 10"
proof -
  obtain r u where policy: "run_state (chip_call (sl_WlanPolicySet L SL_POLICY_SCAN 1 (bytes_le 10))) s = (r, u)" by (meson surj_pair)
  obtain result v where loop: "run_state (scan_loop L 10 (unat n) []) u = (result, v)" by (meson surj_pair)
  from scan_loop_found [OF loop] assms(2) have "distinct (map network_bssid result) \<and> length result \<le> unat n \<and> length result \<le> 10"
    by (simp add: unat_gt_0 word_neq_0_conv)
  with assms(1) policy loop show ?thesis
    by (auto simp: get_surroundig_networks_def split: if_splits prod.splits)
qed

section \<open>The date\<close>

text \<open>The correction of the date is right on most days, but not at the ends of months.\<close>

lemma first_of_december: "date_time 1448928000 = [0, 0, 0, 31, 11, 2015, 0, 0, 0, 0, 0]"
  by (simp add: date_time_def gmtime_def month_lengths_def year_length_def)

section \<open>The key of WEP\<close>

lemma hex_digits:
  assumes "d < 16"
  shows "isxdigit (hex_digit d)" "\<not> isspace (hex_digit d)" "hex_digit d \<noteq> NUL"
    "hex_digit d \<notin> {CHR ''-'', CHR ''+''}" "hex_value (hex_digit d) = of_nat d"
proof -
  have c: "code (hex_digit d) = (if d < 10 then 48 + d else 55 + d)"
    using assms by (simp add: hex_digit_def digit_def)
  show "isxdigit (hex_digit d)" "\<not> isspace (hex_digit d)" "hex_value (hex_digit d) = of_nat d"
    using c assms by (auto simp: isxdigit_def isdigit_def isspace_def islower_def hex_value_def)
  show "hex_digit d \<noteq> NUL" "hex_digit d \<notin> {CHR ''-'', CHR ''+''}" using c by (auto split: if_splits)
qed

lemma sscanf_two_digits:
  assumes "x < 16" "y < 16"
  shows "sscanf_2x (hex_digit x # hex_digit y # t) = Some (16 * of_nat x + of_nat y)"
  using hex_digits [OF assms(1)] hex_digits [OF assms(2)] by (auto simp: sscanf_2x_def)

lemma wep_key_round_trip:
  assumes "asciistring_to_hexstring s = Some t" "NUL \<notin> set s"
  shows "hexstring_to_asciistring (t @ [NUL]) = s"
  using assms
proof (induction s arbitrary: t)
  case Nil
  then show ?case by (simp add: hexstring_to_asciistring.simps [of "[NUL]"] c_string_def sscanf_2x_def)
next
  case (Cons c s)
  let ?n = "of_char c :: nat"
  let ?x = "?n div 16" and ?y = "?n mod 16"
  have n: "?n < 256" "?x < 16" "?y < 16" by (simp_all add: less_mult_imp_div_less)
  from Cons.prems obtain u where u: "asciistring_to_hexstring s = Some u"
    "t = hex_digit ?x # hex_digit ?y # u" by (auto simp: bind_eq_Some_conv)
  have "c_string (t @ [NUL]) = hex_digit ?x # hex_digit ?y # c_string (u @ [NUL])"
    using u(2) hex_digits(3) n by (simp add: c_string_def)
  then have "sscanf_2x (c_string (t @ [NUL])) = Some (16 * of_nat ?x + of_nat ?y)" using sscanf_two_digits [OF n(2,3)] by simp
  also have "16 * of_nat ?x + of_nat ?y = (of_nat ?n :: u16)"
    by (metis mult_div_mod_eq of_nat_add of_nat_mult of_nat_numeral)
  finally have one: "sscanf_2x (c_string (t @ [NUL])) = Some (of_nat ?n)" .
  have "c \<noteq> NUL" using Cons.prems(2) by auto
  moreover have "code NUL = 0" by simp
  ultimately have "?n \<noteq> 0" by (metis of_char_eq_iff)
  moreover have small: "?n < 65536" using n(1) by (rule less_trans) simp
  ultimately have "(of_nat ?n :: u16) \<noteq> 0" using unat_of_nat16 [OF small] by (metis unat_0)
  moreover have "chars_of [ucast (of_nat ?n :: u16)] = [c]"
    using n(1) unat_of_nat16 [OF small] by (simp add: chars_of_def unat_ucast_16_8)
  ultimately show ?case
    using Cons.IH [OF u(1)] Cons.prems(2) u(2) one by (simp add: hexstring_to_asciistring.simps [of "t @ [NUL]"])
qed

end
