(* ===== verification/Chip_Witnesses.thy ===== *)
theory Chip_Witnesses
  imports Chip_Facts App_Samples
begin

text \<open>The properties of the driver of the chip, on a chip that counts the sockets it was asked for.\<close>

definition sample_chip :: "nat simplelink" where
  "sample_chip = \<lparr>sl_Start = (\<lambda>s. (0, [], s)), sl_Stop = (\<lambda>_ s. (0, [], s)), sl_DevGet = (\<lambda>_ _ s. (0, [], s)),
     sl_DevSet = (\<lambda>_ _ _ s. (0, [], s)), sl_NetCfgGet = (\<lambda>_ _ s. ((0, [2, 0, 0, 10]), [], s)),
     sl_NetCfgSet = (\<lambda>_ _ _ s. (0, [], s)), sl_WlanPolicySet = (\<lambda>_ _ _ s. (0, [], s)), sl_WlanSet = (\<lambda>_ _ _ s. (0, [], s)),
     sl_WlanRxFilterSet = (\<lambda>_ _ s. (0, [], s)), sl_WlanProfileDel = (\<lambda>_ s. (0, [], s)),
     sl_WlanConnect = (\<lambda>_ _ s. (0, [WlanEvent (Some (1, 0))], s)), sl_WlanDisconnect = (\<lambda>s. (0, [], s)),
     sl_WlanGetNetworkList = (\<lambda>i s. ((1, \<lparr>entry_ssid = ''net'', entry_bssid = replicate 6 (i AND 1), entry_rssi = - 40\<rparr>), [], s)),
     sl_NetAppMDNSUnRegisterService = (\<lambda>s. (0, [], s)), sl_NetAppDnsGetHostByName = (\<lambda>_ s. ((0, 0x0A000001), [], s)),
     sl_FsOpen = (\<lambda>_ _ s. ((0, 1), [], s)), sl_FsRead = (\<lambda>_ _ s. ((1, [1]), [], s)), sl_FsWrite = (\<lambda>_ bs s. (of_nat (length bs), [], s)),
     sl_FsClose = (\<lambda>_ s. (0, [], s)), sl_FsDel = (\<lambda>_ s. (0, [], s)),
     sl_Socket = (\<lambda>_ _ _ s. if s < 32767 then (of_nat s, [], Suc s) else (- 1, [], s)),
     sl_SetSockOpt = (\<lambda>_ _ _ _ s. (0, [], s)), sl_Connect = (\<lambda>_ _ s. (0, [], s)), sl_Bind = (\<lambda>_ _ s. (0, [], s)),
     sl_Close = (\<lambda>_ s. (- 1, [], s)), sl_Send = (\<lambda>_ bs s. (of_nat (length bs), [], s)),
     sl_SendTo = (\<lambda>_ bs _ s. (of_nat (length bs), [], s)), sl_Recv = (\<lambda>_ _ s. ((SL_EAGAIN, []), [], s)),
     sl_RecvFrom = (\<lambda>_ _ s. ((SL_EAGAIN, []), [], s)), sl_main_loop_task = (\<lambda>s. ((), [], s))\<rparr>"

definition sample_live :: "nat \<Rightarrow> u16 set" where
  "sample_live s = of_nat ` {..<s}"

definition sample_driver :: "nat cc3100" where
  "sample_driver = \<lparr>chip = 0,
     variables = sample_config\<lparr>cfg_server_ip := ''10.0.0.1'' @ replicate 22 NUL, cfg_server_port := 1883\<rparr>, rtc_now = 0,
     own_tcp_data = \<lparr>cmd_error = 0, cmd_platform_code = 0, cmd_connect_to_ap_time = 0, cmd_acquire_ip_address_time = 0,
       cmd_connect_to_server_time = 0, cmd_data_exchange_time = 0, cmd_disconnect_time = 0\<rparr>,
     cc3100_ssid = replicate 33 NUL, cc3100_password = replicate 64 NUL, cc3100_auth_type = 0,
     cc3100_static_ip = replicate 30 NUL, cc3100_static_mask = replicate 30 NUL, cc3100_static_gateway = replicate 30 NUL,
     cc3100_static_dns = replicate 30 NUL, fast_connect = False, scanner_set = False\<rparr>"

lemma sample_chip_accounts:
  "accounts_sockets sample_chip sample_live"
  "accounts_sockets (sample_chip\<lparr>sl_SetSockOpt := \<lambda>_ _ _ _ s. (- 3, [], s)\<rparr>) sample_live"
proof -
  have new: "(of_nat s :: u16) \<notin> of_nat ` {..<s}" "\<not> sint (of_nat s :: u16) < 0" if "s < 32767" for s :: nat
  proof -
    have "s = t" if "(of_nat s :: u16) = of_nat t" "t < s" for t
      using that(2) \<open>s < 32767\<close> arg_cong [OF that(1), of unat] unat_of_nat16 [of s] unat_of_nat16 [of t] by simp
    then show "(of_nat s :: u16) \<notin> of_nat ` {..<s}" by blast
    have "unat (of_nat s :: u16) = s" using unat_of_nat16 [of s] that by simp
    then have "uint (of_nat s :: u16) = int s" unfolding uint_nat by simp
    then show "\<not> sint (of_nat s :: u16) < 0" using that by (simp add: sint_uint signed_take_bit_int_eq_self)
  qed
  show "accounts_sockets sample_chip sample_live"
    "accounts_sockets (sample_chip\<lparr>sl_SetSockOpt := \<lambda>_ _ _ _ s. (- 3, [], s)\<rparr>) sample_live"
    using new by (auto simp: accounts_sockets_def sample_chip_def sample_live_def lessThan_Suc)
qed

lemma sample_server: "server_text sample_driver = ''10.0.0.1''"
  by (simp add: server_text_def sample_driver_def c_string_def)

lemma sample_server_known: "own_code sample_driver = 0" "is_ipv4 (server_text sample_driver)"
  unfolding sample_server by (simp add: own_code_def sample_driver_def, code_simp)

theorem server_not_looked_up_again_witness:
  "driver_function (cc_open_socket sample_chip ''wolk'' 1883 False) sample_driver =
   driver_function (cc_open_socket (sample_chip\<lparr>sl_NetAppDnsGetHostByName := \<lambda>_ s. ((- 1, 0), [], s)\<rparr>) ''wolk'' 1883 False) sample_driver"
  using server_not_looked_up_again [OF driver_reachable.memory_zero [OF sample_server_known(1)], of sample_chip "''wolk''" 1883 False
      "\<lambda>_ s. ((- 1, 0), [], s)"] sample_server_known(2) by blast

theorem open_socket_accounts_witness:
  "\<exists>r ss h'. driver_function (cc_open_socket sample_chip ''wolk'' 1883 False) sample_driver = (r, ss, h') \<and>
     left_open sample_chip False r (sample_live 0) (sample_live (chip h'))"
proof -
  obtain r ss h' where run: "driver_function (cc_open_socket sample_chip ''wolk'' 1883 False) sample_driver = (r, ss, h')"
    by (metis prod_cases3)
  have "chip sample_driver = 0" by (simp add: sample_driver_def)
  with open_socket_accounts [OF sample_chip_accounts(1) run] run show ?thesis by auto
qed

theorem refused_option_leaks_socket_witness:
  "\<exists>i ss h'. driver_function (cc_open_socket (sample_chip\<lparr>sl_SetSockOpt := \<lambda>_ _ _ _ s. (- 3, [], s)\<rparr>) ''wolk'' 1883 False) sample_driver =
     (- 1, ss, h') \<and> i \<notin> sample_live 0 \<and> sample_live (chip h') = insert i (sample_live 0)"
proof -
  have "chip sample_driver = 0" by (simp add: sample_driver_def)
  with refused_option_leaks_socket [OF sample_chip_accounts(2) sample_server_known, of False "''wolk''" 1883] show ?thesis
    by (simp add: sample_chip_def)
qed

theorem connects_within_200_polls_witness:
  "fst (run_state (connect_loop (sample_chip\<lparr>sl_Connect := \<lambda>_ _ s. (if s < 2 then SL_EALREADY else 0, [], Suc s)\<rparr>) 0
     \<lparr>sin_family = 2, sin_port = 0, s_addr = 0\<rparr> 200 (- 1)) (sample_driver, [])) = 0"
proof -
  let ?L = "sample_chip\<lparr>sl_Connect := \<lambda>_ _ s. (if s < 2 then SL_EALREADY else 0, [], Suc s)\<rparr>"
  have "polled ?L 0 \<lparr>sin_family = 2, sin_port = 0, s_addr = 0\<rparr> j s = s + j" for j s
    by (induction j arbitrary: s) simp_all
  moreover have "chip sample_driver = 0" by (simp add: sample_driver_def)
  ultimately show ?thesis
    using connects_within_200_polls [of 2 ?L 0
        "\<lparr>sin_family = 2, sin_port = 0, s_addr = 0\<rparr>" sample_driver "[]"]
    by simp
qed

theorem surrounding_networks_witness:
  "\<exists>found s'. run_state (get_surroundig_networks sample_chip 10) (sample_driver, []) = (found, s') \<and>
     distinct (map network_bssid found) \<and> length found \<le> 10"
proof -
  obtain found s' where run: "run_state (get_surroundig_networks sample_chip 10) (sample_driver, []) = (found, s')"
    by (meson surj_pair)
  from surrounding_networks [OF run] run show ?thesis by auto
qed

end
