(* ===== verification/Atmosphere_Sensor.thy ===== *)
theory Atmosphere_Sensor
  imports Sensors "HOL-Library.Signed_Division"
begin

text \<open>
  The sensor of pressure, temperature and humidity, \<open>OS/Sensors/BME280.c\<close>, and the readings made of it,
  \<open>OS/Sensors/sensor.c\<close>.

  The two-wire bus is a function: it writes some bytes to the sensor, reads a number of bytes, and gives
  \<^const>\<open>None\<close> when it fails or is not ready in time.  A \<open>char\<close> is signed, as avr-gcc has it unless it is told
  otherwise, which the project of the firmware does not do.  An \<open>int32_t\<close> is a word read as signed; its
  right shift is \<^const>\<open>signed_drop_bit\<close>.
\<close>

unbundle bit_operations_syntax

section \<open>The registers\<close>

record 'd twi =
  twi_transfer :: "u8 list \<Rightarrow> nat \<Rightarrow> 'd \<Rightarrow> u8 list option \<times> 'd"

record bme280_calibration_param =
  dig_T1 :: u16
  dig_T2 :: u16
  dig_T3 :: u16
  dig_P1 :: u16
  dig_P2 :: u16
  dig_P3 :: u16
  dig_P4 :: u16
  dig_P5 :: u16
  dig_P6 :: u16
  dig_P7 :: u16
  dig_P8 :: u16
  dig_P9 :: u16
  dig_H1 :: u8
  dig_H2 :: u16
  dig_H3 :: u8
  dig_H4 :: u16
  dig_H5 :: u16
  dig_H6 :: u8

record 'd bme280 =
  cal_param :: bme280_calibration_param
  adc_t :: u32
  adc_p :: u32
  adc_h :: u32
  t_fine :: u32
  twi_bus :: 'd

type_synonym ('d, 'r) bme_step = "'d bme280 \<Rightarrow> ('r \<times> 'd bme280) option"

definition BME280_CHIP_ID :: u8 where "BME280_CHIP_ID = 0x60"
definition BME280_CHIP_ID_REG :: u8 where "BME280_CHIP_ID_REG = 0xD0"
definition BME280_RST_REG :: u8 where "BME280_RST_REG = 0xE0"
definition BME280_CTRL_HUMIDITY_REG :: u8 where "BME280_CTRL_HUMIDITY_REG = 0xF2"
definition BME280_STAT_REG :: u8 where "BME280_STAT_REG = 0xF3"
definition BME280_CTRL_MEAS_REG :: u8 where "BME280_CTRL_MEAS_REG = 0xF4"
definition BME280_CONFIG_REG :: u8 where "BME280_CONFIG_REG = 0xF5"
definition BME280_PRESSURE_MSB_REG :: u8 where "BME280_PRESSURE_MSB_REG = 0xF7"

definition BME280_SLEEP_MODE :: u8 where "BME280_SLEEP_MODE = 0"
definition BME280_FORCED_MODE :: u8 where "BME280_FORCED_MODE = 1"
definition BME280_OVERSAMP_1X :: u8 where "BME280_OVERSAMP_1X = 1"
definition BME280_FILTER_COEFF_OFF :: u8 where "BME280_FILTER_COEFF_OFF = 0"

definition transfer :: "'d twi \<Rightarrow> u8 list \<Rightarrow> nat \<Rightarrow> ('d, u8 list option) bme_step" where
  "transfer T ws n b = (let (r, d) = twi_transfer T ws n (twi_bus b) in Some (r, b\<lparr>twi_bus := d\<rparr>))"

definition I2C_WriteRegister :: "'d twi \<Rightarrow> u8 \<Rightarrow> u8 \<Rightarrow> ('d, bool) bme_step" where
  "I2C_WriteRegister T wrAddr wrData b = do {
     (r, b) \<leftarrow> transfer T [wrAddr, wrData] 0 b;
     Some (r \<noteq> None, b)
   }"

text \<open>A register that cannot be read is 0.\<close>

definition I2C_ReadRegister :: "'d twi \<Rightarrow> u8 \<Rightarrow> ('d, u8) bme_step" where
  "I2C_ReadRegister T rAddr b = do {
     (r, b) \<leftarrow> transfer T [rAddr] 1 b;
     (case r of None \<Rightarrow> Some (0, b) | Some bytes \<Rightarrow> do { v \<leftarrow> array_get bytes 0; Some (v, b) })
   }"

definition BME280_GetID :: "'d twi \<Rightarrow> ('d, u8) bme_step" where
  "BME280_GetID T = I2C_ReadRegister T BME280_CHIP_ID_REG"

definition BME280_SoftReset :: "'d twi \<Rightarrow> ('d, bool) bme_step" where
  "BME280_SoftReset T = I2C_WriteRegister T BME280_RST_REG 0xB6"

definition BME280_GetStatus :: "'d twi \<Rightarrow> ('d, u8) bme_step" where
  "BME280_GetStatus T = I2C_ReadRegister T BME280_STAT_REG"

definition BME280_GetCtrlMeasurement :: "'d twi \<Rightarrow> ('d, u8) bme_step" where
  "BME280_GetCtrlMeasurement T = I2C_ReadRegister T BME280_CTRL_MEAS_REG"

definition BME280_GetCtrlHumidity :: "'d twi \<Rightarrow> ('d, u8) bme_step" where
  "BME280_GetCtrlHumidity T = I2C_ReadRegister T BME280_CTRL_HUMIDITY_REG"

definition BME280_GetConfig :: "'d twi \<Rightarrow> ('d, u8) bme_step" where
  "BME280_GetConfig T = I2C_ReadRegister T BME280_CONFIG_REG"

definition BME280_IsMeasuring :: "'d twi \<Rightarrow> ('d, u8) bme_step" where
  "BME280_IsMeasuring T b = do { (output, b) \<leftarrow> BME280_GetStatus T b; Some (output AND 0x08, b) }"

text \<open>The frame has the pressure, the temperature and the humidity, the high byte first.\<close>

definition BME280_ReadMeasurements :: "'d twi \<Rightarrow> ('d, bool) bme_step" where
  "BME280_ReadMeasurements T b = do {
     (r, b) \<leftarrow> transfer T [BME280_PRESSURE_MSB_REG] 8 b;
     (case r of None \<Rightarrow> Some (False, b) | Some bytes \<Rightarrow> do {
        p2 \<leftarrow> array_get bytes 0; p1 \<leftarrow> array_get bytes 1; p0 \<leftarrow> array_get bytes 2;
        t2 \<leftarrow> array_get bytes 3; t1 \<leftarrow> array_get bytes 4; t0 \<leftarrow> array_get bytes 5;
        h1 \<leftarrow> array_get bytes 6; h0 \<leftarrow> array_get bytes 7;
        Some (True, b\<lparr>adc_h := ucast h0 OR ucast (push_bit 8 (ucast h1 :: u16)),
          adc_t := drop_bit 4 (ucast t0) OR push_bit 4 (ucast t1) OR push_bit 12 (ucast t2),
          adc_p := drop_bit 4 (ucast p0) OR push_bit 4 (ucast p1) OR push_bit 12 (ucast p2)\<rparr>)
      })
   }"

section \<open>The calibration\<close>

text \<open>Two registers, the high one first, put together with signed characters.\<close>

definition read_word :: "'d twi \<Rightarrow> u8 \<Rightarrow> ('d, u16) bme_step" where
  "read_word T lsb_reg b = do {
     (msb, b) \<leftarrow> I2C_ReadRegister T (lsb_reg + 1) b;
     (lsb, b) \<leftarrow> I2C_ReadRegister T lsb_reg b;
     Some (push_bit 8 (scast msb) + scast lsb, b)
   }"

fun read_words :: "'d twi \<Rightarrow> u8 list \<Rightarrow> ('d, u16 list) bme_step" where
  "read_words T [] b = Some ([], b)"
| "read_words T (r # rs) b = do { (w, b) \<leftarrow> read_word T r b; (ws, b) \<leftarrow> read_words T rs b; Some (w # ws, b) }"

definition set_words :: "u16 list \<Rightarrow> bme280_calibration_param \<Rightarrow> bme280_calibration_param" where
  "set_words ws c = c\<lparr>dig_T1 := ws ! 0, dig_T2 := ws ! 1, dig_T3 := ws ! 2, dig_P1 := ws ! 3, dig_P2 := ws ! 4, dig_P3 := ws ! 5,
     dig_P4 := ws ! 6, dig_P5 := ws ! 7, dig_P6 := ws ! 8, dig_P7 := ws ! 9, dig_P8 := ws ! 10, dig_P9 := ws ! 11\<rparr>"

definition word_registers :: "u8 list" where
  "word_registers = [0x88, 0x8A, 0x8C, 0x8E, 0x90, 0x92, 0x94, 0x96, 0x98, 0x9A, 0x9C, 0x9E]"

definition BME280_ReadCalibrationParams :: "'d twi \<Rightarrow> ('d, unit) bme_step" where
  "BME280_ReadCalibrationParams T b = do {
     (ws, b) \<leftarrow> read_words T word_registers b;
     (h1, b) \<leftarrow> I2C_ReadRegister T 0xA1 b;
     (h2, b) \<leftarrow> read_word T 0xE1 b;
     (h3, b) \<leftarrow> I2C_ReadRegister T 0xE3 b;
     (msb, b) \<leftarrow> I2C_ReadRegister T 0xE4 b;
     (lsb, b) \<leftarrow> I2C_ReadRegister T 0xE5 b;
     let h4 = push_bit 4 (scast msb) OR (scast lsb AND 0xF);
     (msb, b) \<leftarrow> I2C_ReadRegister T 0xE6 b;
     let h5 = push_bit 4 (scast msb) OR signed_drop_bit 4 (scast lsb);
     (h6, b) \<leftarrow> I2C_ReadRegister T 0xE7 b;
     Some ((), b\<lparr>cal_param := (set_words ws (cal_param b))\<lparr>dig_H1 := h1, dig_H2 := h2, dig_H3 := h3, dig_H4 := h4,
       dig_H5 := h5, dig_H6 := h6\<rparr>\<rparr>)
   }"

section \<open>The settings\<close>

definition BME280_SetOversamplingPressure :: "'d twi \<Rightarrow> u8 \<Rightarrow> ('d, bool) bme_step" where
  "BME280_SetOversamplingPressure T v b = do {
     (ctrlm, b) \<leftarrow> BME280_GetCtrlMeasurement T b;
     I2C_WriteRegister T BME280_CTRL_MEAS_REG ((ctrlm AND NOT 0x1C) OR push_bit 2 v) b
   }"

definition BME280_SetOversamplingTemperature :: "'d twi \<Rightarrow> u8 \<Rightarrow> ('d, bool) bme_step" where
  "BME280_SetOversamplingTemperature T v b = do {
     (ctrlm, b) \<leftarrow> BME280_GetCtrlMeasurement T b;
     I2C_WriteRegister T BME280_CTRL_MEAS_REG ((ctrlm AND NOT 0xE0) OR push_bit 5 v) b
   }"

definition BME280_SetOversamplingHumidity :: "'d twi \<Rightarrow> u8 \<Rightarrow> ('d, bool) bme_step" where
  "BME280_SetOversamplingHumidity T v = I2C_WriteRegister T BME280_CTRL_HUMIDITY_REG v"

definition BME280_SetOversamplingMode :: "'d twi \<Rightarrow> u8 \<Rightarrow> ('d, bool) bme_step" where
  "BME280_SetOversamplingMode T v b = do {
     (ctrlm, b) \<leftarrow> BME280_GetCtrlMeasurement T b;
     I2C_WriteRegister T BME280_CTRL_MEAS_REG (ctrlm OR v) b
   }"

text \<open>These two compute a value and write it nowhere.\<close>

definition BME280_SetFilterCoefficient :: "'d twi \<Rightarrow> u8 \<Rightarrow> ('d, unit) bme_step" where
  "BME280_SetFilterCoefficient T v b = do { (cfgv, b) \<leftarrow> BME280_GetConfig T b; Some ((), b) }"

definition BME280_SetStandbyTime :: "'d twi \<Rightarrow> u8 \<Rightarrow> ('d, unit) bme_step" where
  "BME280_SetStandbyTime T v b = do { (cfgv, b) \<leftarrow> BME280_GetConfig T b; Some ((), b) }"

section \<open>The compensation\<close>

definition BME280_Compensate_T :: "'d bme280 \<Rightarrow> u32 \<times> 'd bme280" where
  "BME280_Compensate_T b = (let c = cal_param b;
       d = signed_drop_bit 4 (adc_t b) - ucast (dig_T1 c);
       temp1 = signed_drop_bit 11 ((signed_drop_bit 3 (adc_t b) - push_bit 1 (ucast (dig_T1 c))) * ucast (dig_T2 c));
       temp2 = signed_drop_bit 14 (signed_drop_bit 12 (d * d) * ucast (dig_T3 c));
       fine = temp1 + temp2
     in (signed_drop_bit 8 (fine * 5 + 128), b\<lparr>t_fine := fine\<rparr>))"

definition humidity_limit :: "u32 \<Rightarrow> u32" where
  "humidity_limit v = (let v = (if sint v < 0 then 0 else v) in if 419430400 < sint v then 419430400 else v)"

definition BME280_Compensate_H :: "'d bme280 \<Rightarrow> u32" where
  "BME280_Compensate_H b = (let c = cal_param b;
       x = t_fine b - 76800;
       left = signed_drop_bit 15 (push_bit 14 (adc_h b) - push_bit 20 (scast (dig_H4 c)) - scast (dig_H5 c) * x + 16384);
       inner = signed_drop_bit 10 (x * scast (dig_H6 c)) * (signed_drop_bit 11 (x * ucast (dig_H3 c)) + 32768);
       right = signed_drop_bit 14 ((signed_drop_bit 10 inner + 2097152) * scast (dig_H2 c) + 8192);
       v = left * right;
       v = v - signed_drop_bit 4 (signed_drop_bit 7 (signed_drop_bit 15 v * signed_drop_bit 15 v) * ucast (dig_H1 c))
     in signed_drop_bit 12 (humidity_limit v))"

definition divide64 :: "64 word \<Rightarrow> 64 word \<Rightarrow> 64 word" where
  "divide64 x y = word_of_int (sint x sdiv sint y)"

definition BME280_Compensate_P :: "'d bme280 \<Rightarrow> u32" where
  "BME280_Compensate_P b = (let c = cal_param b;
       x = scast (t_fine b) - 128000 :: 64 word;
       var2 = x * x * scast (dig_P6 c) + push_bit 17 (x * scast (dig_P5 c)) + push_bit 35 (scast (dig_P4 c));
       y = signed_drop_bit 8 (x * x * scast (dig_P3 c)) + push_bit 12 (x * scast (dig_P2 c));
       var1 = signed_drop_bit 33 ((push_bit 47 1 + y) * ucast (dig_P1 c))
     in if var1 = 0 then 0 else
       (let p = scast (1048576 - adc_p b);
            p = divide64 ((push_bit 31 p - var2) * 3125) var1;
            q = signed_drop_bit 25 (scast (dig_P9 c) * signed_drop_bit 13 p * signed_drop_bit 13 p);
            r = signed_drop_bit 19 (scast (dig_P8 c) * p);
            p = signed_drop_bit 8 (p + q + r) + push_bit 4 (scast (dig_P7 c))
        in ucast (divide64 p 256)))"

definition BME280_GetTemperature :: "'d bme280 \<Rightarrow> rat \<times> 'd bme280" where
  "BME280_GetTemperature b = (let (t, b) = BME280_Compensate_T b in (of_int (sint t) / 100, b))"

definition BME280_GetHumidity :: "'d bme280 \<Rightarrow> rat" where
  "BME280_GetHumidity b = of_nat (unat (BME280_Compensate_H b)) / 1024"

definition BME280_GetPressure :: "'d bme280 \<Rightarrow> rat" where
  "BME280_GetPressure b = of_nat (unat (BME280_Compensate_P b)) / 100"

section \<open>Measuring\<close>

text \<open>The loop waits for the sensor to end its measurement; a failed reading of the status ends it too.\<close>

partial_function (option) wait_measured :: "'d twi \<Rightarrow> 'd bme280 \<Rightarrow> 'd bme280 option" where
  "wait_measured T b = do {
     (m, b) \<leftarrow> BME280_IsMeasuring T b;
     if m \<noteq> 0 then wait_measured T b else Some b
   }"

declare wait_measured.simps [code]

text \<open>The result of the last reading is not looked at.\<close>

definition BME280_poll :: "'d twi \<Rightarrow> ('d, bool) bme_step" where
  "BME280_poll T b = do {
     (r1, b) \<leftarrow> BME280_SetOversamplingPressure T BME280_OVERSAMP_1X b;
     if \<not> r1 then Some (False, b) else do {
       (r2, b) \<leftarrow> BME280_SetOversamplingTemperature T BME280_OVERSAMP_1X b;
       if \<not> r2 then Some (False, b) else do {
         (r3, b) \<leftarrow> BME280_SetOversamplingHumidity T BME280_OVERSAMP_1X b;
         if \<not> r3 then Some (False, b) else do {
           (r4, b) \<leftarrow> BME280_SetOversamplingMode T BME280_FORCED_MODE b;
           if \<not> r4 then Some (False, b) else do {
             b \<leftarrow> wait_measured T b;
             (_, b) \<leftarrow> BME280_ReadMeasurements T b;
             Some (True, b)
           }
         }
       }
     }
   }"

definition BME280_init :: "'d twi \<Rightarrow> ('d, bool) bme_step" where
  "BME280_init T b = do {
     (chip, b) \<leftarrow> BME280_GetID T b;
     if chip \<noteq> BME280_CHIP_ID then Some (False, b) else do {
       (_, b) \<leftarrow> BME280_ReadCalibrationParams T b;
       (_, b) \<leftarrow> BME280_SetFilterCoefficient T BME280_FILTER_COEFF_OFF b;
       (_, b) \<leftarrow> BME280_SetOversamplingPressure T BME280_OVERSAMP_1X b;
       (_, b) \<leftarrow> BME280_SetOversamplingTemperature T BME280_OVERSAMP_1X b;
       (_, b) \<leftarrow> BME280_SetOversamplingHumidity T BME280_OVERSAMP_1X b;
       (_, b) \<leftarrow> BME280_SetOversamplingMode T BME280_FORCED_MODE b;
       b \<leftarrow> wait_measured T b;
       (_, b) \<leftarrow> BME280_ReadMeasurements T b;
       Some (True, b)
     }
   }"

section \<open>The readings\<close>

fun float_plus :: "c_float \<Rightarrow> c_float \<Rightarrow> c_float" where
  "float_plus (Finite x) (Finite y) = Finite (x + y)"
| "float_plus (Finite x) v = v"
| "float_plus v (Finite y) = v"
| "float_plus PosInf PosInf = PosInf"
| "float_plus NegInf NegInf = NegInf"
| "float_plus _ _ = NotANumber"

text \<open>A value that is not a number is not out of the range.\<close>

definition out_of_range :: "c_float \<Rightarrow> int \<Rightarrow> int \<Rightarrow> bool" where
  "out_of_range v low high \<longleftrightarrow> v \<noteq> NotANumber \<and> (\<not> float_le_int v high \<or> \<not> float_ge_int v low)"

definition ranged :: "c_float \<Rightarrow> int \<Rightarrow> int \<Rightarrow> int \<Rightarrow> c_float" where
  "ranged v low high substitute = (if out_of_range v low high then Finite (of_int substitute) else v)"

definition get_pressure :: "c_float list \<Rightarrow> 'd bme280 \<Rightarrow> c_float option" where
  "get_pressure offsets b = do {
     off \<leftarrow> array_get offsets 1;
     Some (ranged (float_plus (Finite (BME280_GetPressure b)) off) 300 1100 0)
   }"

definition get_temperature :: "c_float list \<Rightarrow> 'd bme280 \<Rightarrow> (c_float \<times> 'd bme280) option" where
  "get_temperature offsets b = do {
     off \<leftarrow> array_get offsets 0;
     let (t, b) = BME280_GetTemperature b;
     Some (ranged (float_plus (Finite t) off) (- 40) 85 2000, b)
   }"

definition get_humidity :: "c_float list \<Rightarrow> 'd bme280 \<Rightarrow> c_float option" where
  "get_humidity offsets b = do {
     off \<leftarrow> array_get offsets 2;
     Some (ranged (float_plus (Finite (BME280_GetHumidity b)) off) 0 100 0)
   }"

text \<open>An element for another sensor stays what the memory had.\<close>

fun read_states :: "c_float list \<Rightarrow> sensor_state list \<Rightarrow> char list \<Rightarrow> ('d, sensor_state list) bme_step" where
  "read_states offsets junk [] b = Some ([], b)"
| "read_states offsets [] (c # cs) b = None"
| "read_states offsets (j # js) (c # cs) b = do {
     (s, b) \<leftarrow> (if c = CHR ''P'' then do { v \<leftarrow> get_pressure offsets b; Some (\<lparr>state_id = c, state_value = v\<rparr>, b) }
       else if c = CHR ''T'' then do { (v, b) \<leftarrow> get_temperature offsets b; Some (\<lparr>state_id = c, state_value = v\<rparr>, b) }
       else if c = CHR ''H'' then do { v \<leftarrow> get_humidity offsets b; Some (\<lparr>state_id = c, state_value = v\<rparr>, b) }
       else Some (j, b));
     (ss, b) \<leftarrow> read_states offsets js cs b;
     Some (s # ss, b)
   }"

text \<open>
  \<open>get_sensors_states\<close>.  The states go to the listener before the sensor is told to sleep, whether it obeys or not;
  \<open>junk\<close> is the array on the stack.  The result is what the function returns and what the listener was given.
\<close>

definition read_sensors :: "'d twi \<Rightarrow> c_float list \<Rightarrow> sensor_state list \<Rightarrow> char list \<Rightarrow> u8 \<Rightarrow>
    ('d, bool \<times> sensor_state list option) bme_step" where
  "read_sensors T offsets junk sensors_ids sensors_count b = do {
     (polled, b) \<leftarrow> BME280_poll T b;
     if \<not> polled then Some ((False, None), b) else do {
       ids \<leftarrow> array_prefix sensors_ids (unat sensors_count);
       (ss, b) \<leftarrow> read_states offsets junk ids b;
       (slept, b) \<leftarrow> BME280_SetOversamplingMode T BME280_SLEEP_MODE b;
       Some ((slept, Some ss), b)
     }
   }"

end
