(* ===== verification/Atmosphere_Facts.thy ===== *)
theory Atmosphere_Facts
  imports Atmosphere_Sensor
begin

text \<open>
  What the readings of the sensor are worth: how the calibration is read, that the humidity is at most 100%,
  that a reading out of the range is replaced, and from which temperature the pressure is computed.
\<close>

section \<open>The calibration\<close>

text \<open>A bus that answers with the registers of the sensor.\<close>

definition answers :: "'d twi \<Rightarrow> (u8 \<Rightarrow> u8) \<Rightarrow> bool" where
  "answers T regs \<longleftrightarrow> (\<forall>r d. twi_transfer T [r] 1 d = (Some [regs r], d))"

definition word_at :: "(u8 \<Rightarrow> u8) \<Rightarrow> u8 \<Rightarrow> u16" where
  "word_at regs r = push_bit 8 (ucast (regs (r + 1))) OR ucast (regs r)"

lemma read_register: "answers T regs \<Longrightarrow> I2C_ReadRegister T r b = Some (regs r, b)"
  by (simp add: I2C_ReadRegister_def transfer_def answers_def array_get_def)

lemma byte_bits: "bit (l :: u8) n \<Longrightarrow> n < 8"
  using bit_imp_le_length [of l n] by simp

lemma signed_byte: "(scast (l :: u8) :: u16) = ucast l - (if bit l 7 then 256 else 0)"
proof (cases "bit l 7")
  case True
  have low: "min 7 n = (if n < 8 then n else 7)" for n :: nat by auto
  have "(scast l :: u16) = ucast l OR NOT (mask 8)"
  proof (rule bit_word_eqI)
    fix n assume "n < LENGTH(16)"
    then show "bit (scast l :: u16) n \<longleftrightarrow> bit (ucast l OR NOT (mask 8) :: u16) n"
      using True by (auto simp: bit_simps low split: if_splits intro: byte_bits)
  qed
  also have "\<dots> = ucast l + NOT (mask 8)"
    by (rule disjunctive_add [symmetric]) (auto simp: bit_simps intro: byte_bits)
  also have "NOT (mask 8) = (- 256 :: u16)" by (simp add: mask_numeral)
  finally show ?thesis using True by simp
next
  case False
  then have low: "bit l n \<Longrightarrow> n < 7" for n using byte_bits [of l n] by (cases "n = 7") auto
  with False have "(scast l :: u16) = ucast l" by (auto intro!: bit_word_eqI simp: bit_simps min_def split: if_splits) (drule low, simp)
  with False show ?thesis by simp
qed

lemma put_together: "push_bit 8 (scast (m :: u8)) + scast (l :: u8) =
    ((push_bit 8 (ucast m) OR ucast l) - (if bit l 7 then 256 else 0) :: u16)"
proof -
  have "(push_bit 8 (scast m) :: u16) = push_bit 8 (ucast m)" by (auto intro!: bit_word_eqI simp: bit_simps)
  moreover have "(push_bit 8 (ucast m) :: u16) + ucast l = push_bit 8 (ucast m) OR ucast l"
    by (rule disjunctive_add) (auto simp: bit_simps dest: bit_imp_le_length)
  ultimately show ?thesis by (simp add: signed_byte)
qed

definition misread :: "(u8 \<Rightarrow> u8) \<Rightarrow> u8 \<Rightarrow> u16" where
  "misread regs r = word_at regs r - (if bit (regs r) 7 then 256 else 0)"

lemma read_word_misread: "answers T regs \<Longrightarrow> read_word T r b = Some (misread regs r, b)"
  by (simp add: read_word_def read_register put_together misread_def word_at_def)

lemma read_words_misread: "answers T regs \<Longrightarrow> read_words T rs b = Some (map (misread regs) rs, b)"
  by (induction rs) (simp_all add: read_word_misread)

text \<open>C38: The words of the calibration are the registers put together, the low one first, less 256 for every word whose
  low byte has its highest bit set, because the bytes are read as signed characters.\<close>

theorem calibration_words_read:
  assumes "answers T regs"
  shows "\<exists>c b'. BME280_ReadCalibrationParams T b = Some ((), b') \<and> c = cal_param b' \<and>
    [dig_T1 c, dig_T2 c, dig_T3 c, dig_P1 c, dig_P2 c, dig_P3 c, dig_P4 c, dig_P5 c, dig_P6 c, dig_P7 c, dig_P8 c, dig_P9 c, dig_H2 c] =
    map (misread regs) [0x88, 0x8A, 0x8C, 0x8E, 0x90, 0x92, 0x94, 0x96, 0x98, 0x9A, 0x9C, 0x9E, 0xE1]"
  using assms
  by (simp add: BME280_ReadCalibrationParams_def read_words_misread read_word_misread read_register set_words_def
      word_registers_def Let_def)

section \<open>The humidity\<close>

lemma humidity_limits: "0 \<le> sint (humidity_limit v)" "sint (humidity_limit v) \<le> 419430400"
  by (simp_all add: humidity_limit_def Let_def)

text \<open>C37: Whatever the sensor and its calibration give, the humidity is between 0 and 100 percent.\<close>

theorem humidity_is_percentage: "0 \<le> BME280_GetHumidity b \<and> BME280_GetHumidity b \<le> 100"
proof -
  have "unat (signed_drop_bit 12 (humidity_limit v)) \<le> 102400" for v
  proof -
    let ?w = "signed_drop_bit 12 (humidity_limit v)"
    have s: "sint ?w = sint (humidity_limit v) div 4096" by (simp add: sint_signed_drop_bit_eq drop_bit_eq_div)
    have "0 \<le> sint ?w" using s humidity_limits(1) [of v] by simp
    moreover have "sint ?w \<le> 102400" using s zdiv_mono1 [OF humidity_limits(2) [of v], of 4096] by simp
    ultimately have "uint ?w = sint ?w" "uint ?w \<le> 102400" unfolding uint_sint by (simp_all add: take_bit_int_eq_self)
    then show ?thesis by (metis uint_nat of_nat_le_iff of_nat_numeral)
  qed
  then have "unat (BME280_Compensate_H b) \<le> 102400" by (simp add: BME280_Compensate_H_def Let_def)
  then obtain n where n: "unat (BME280_Compensate_H b) = n" "n \<le> 102400" by blast
  then have "rat_of_nat n \<le> 102400" by (metis of_nat_le_iff of_nat_numeral)
  moreover have "BME280_GetHumidity b = of_nat n / 1024" unfolding BME280_GetHumidity_def n(1) by simp
  ultimately show ?thesis by simp
qed

section \<open>The readings\<close>

lemma ranged_in_range:
  assumes "v = Finite q"
  shows "ranged v low high sub = Finite (of_int sub) \<or> (\<exists>q. ranged v low high sub = Finite q \<and> of_int low \<le> q \<and> q \<le> of_int high)"
  using assms by (auto simp: ranged_def out_of_range_def)

text \<open>What a reading may be: in the range of its sensor, or the value that stands for no reading.\<close>

definition plausible :: "char \<Rightarrow> c_float \<Rightarrow> bool" where
  "plausible c v \<longleftrightarrow>
     (if c = CHR ''P'' then v = Finite 0 \<or> (\<exists>q. v = Finite q \<and> 300 \<le> q \<and> q \<le> 1100)
      else if c = CHR ''T'' then v = Finite 2000 \<or> (\<exists>q. v = Finite q \<and> - 40 \<le> q \<and> q \<le> 85)
      else \<exists>q. v = Finite q \<and> 0 \<le> q \<and> q \<le> 100)"

lemma offset_added:
  assumes "\<forall>v \<in> set offsets. \<exists>q. v = Finite q" "array_get offsets i = Some off"
  obtains q where "float_plus (Finite x) off = Finite q"
proof -
  from assms(2) have "off \<in> set offsets" by (auto simp: array_get_eq_Some)
  with assms(1) that show thesis by fastforce
qed

lemma readings_plausible:
  assumes offsets: "\<forall>v \<in> set offsets. \<exists>q. v = Finite q"
  shows "get_pressure offsets b = Some v \<Longrightarrow> plausible (CHR ''P'') v"
    "get_temperature offsets b = Some (v, b') \<Longrightarrow> plausible (CHR ''T'') v"
    "get_humidity offsets b = Some v \<Longrightarrow> plausible (CHR ''H'') v"
proof -
  show "plausible (CHR ''P'') v" if "get_pressure offsets b = Some v"
  proof -
    from that obtain off where off: "array_get offsets 1 = Some off"
      "v = ranged (float_plus (Finite (BME280_GetPressure b)) off) 300 1100 0" by (auto simp: get_pressure_def bind_eq_Some_conv)
    obtain q where "float_plus (Finite (BME280_GetPressure b)) off = Finite q" by (rule offset_added [OF offsets off(1)])
    from ranged_in_range [OF this, of 300 1100 0] off(2) show ?thesis by (simp add: plausible_def)
  qed
  show "plausible (CHR ''T'') v" if "get_temperature offsets b = Some (v, b')"
  proof -
    from that obtain off t where off: "array_get offsets 0 = Some off" "v = ranged (float_plus (Finite t) off) (- 40) 85 2000"
      by (cases "BME280_GetTemperature b") (auto simp: get_temperature_def bind_eq_Some_conv)
    obtain q where "float_plus (Finite t) off = Finite q" by (rule offset_added [OF offsets off(1)])
    from ranged_in_range [OF this, of "- 40" 85 2000] off(2) show ?thesis by (simp add: plausible_def)
  qed
  show "plausible (CHR ''H'') v" if "get_humidity offsets b = Some v"
  proof -
    from that obtain off where off: "array_get offsets 2 = Some off"
      "v = ranged (float_plus (Finite (BME280_GetHumidity b)) off) 0 100 0" by (auto simp: get_humidity_def bind_eq_Some_conv)
    obtain q where "float_plus (Finite (BME280_GetHumidity b)) off = Finite q" by (rule offset_added [OF offsets off(1)])
    from ranged_in_range [OF this, of 0 100 0] off(2) show ?thesis by (auto simp: plausible_def)
  qed
qed

lemma read_states_plausible:
  shows "\<forall>v \<in> set offsets. \<exists>q. v = Finite q \<Longrightarrow> read_states offsets junk ids b = Some (ss, b') \<Longrightarrow> set ids \<subseteq> {CHR ''P'', CHR ''T'', CHR ''H''} \<Longrightarrow>
    map state_id ss = ids \<and> (\<forall>s \<in> set ss. plausible (state_id s) (state_value s))"
proof (induction offsets junk ids b arbitrary: ss b' rule: read_states.induct)
  case (3 offsets j js c cs b)
  let ?read = "if c = CHR ''P'' then do { v \<leftarrow> get_pressure offsets b; Some (\<lparr>state_id = c, state_value = v\<rparr>, b) }
       else if c = CHR ''T'' then do { (v, b) \<leftarrow> get_temperature offsets b; Some (\<lparr>state_id = c, state_value = v\<rparr>, b) }
       else if c = CHR ''H'' then do { v \<leftarrow> get_humidity offsets b; Some (\<lparr>state_id = c, state_value = v\<rparr>, b) }
       else Some (j, b)"
  from 3(3) obtain s b1 rest where r: "?read = Some (s, b1)" "read_states offsets js cs b1 = Some (rest, b')" "ss = s # rest"
    by (auto simp: bind_eq_Some_conv split: if_splits prod.splits)
  from r(1) 3(4) have "state_id s = c \<and> plausible (state_id s) (state_value s)"
    by (auto simp: bind_eq_Some_conv split: if_splits dest: readings_plausible [OF 3(2)])
  moreover have "map state_id rest = cs \<and> (\<forall>s \<in> set rest. plausible (state_id s) (state_value s))"
    using 3(1) [OF r(1) refl 3(2) r(2)] 3(4) by simp
  ultimately show ?case using r(3) by auto
qed simp_all

text \<open>With finite offsets the states of the sensors asked for come back in their order, each with a value in the
  operating range of its sensor or with the value that stands for no reading.\<close>

lemma readings_in_range:
  fixes T :: "'d twi"
  assumes "\<forall>v \<in> set offsets. \<exists>q. v = Finite q" "set sensors_ids \<subseteq> {CHR ''P'', CHR ''T'', CHR ''H''}"
    and "read_sensors T offsets junk sensors_ids n b = Some ((ok, Some ss), b')"
  shows "map state_id ss = take (unat n) sensors_ids \<and> (\<forall>s \<in> set ss. plausible (state_id s) (state_value s))"
proof -
  from assms(3) have "\<exists>(b1 :: 'd bme280) b2. read_states offsets junk (take (unat n) sensors_ids) b1 = Some (ss, b2)"
    by (auto simp: read_sensors_def bind_eq_Some_conv array_prefix_eq_Some split: if_splits prod.splits)
  then obtain b1 b2 :: "'d bme280" where "read_states offsets junk (take (unat n) sensors_ids) b1 = Some (ss, b2)" by blast
  moreover have "set (take (unat n) sensors_ids) \<subseteq> {CHR ''P'', CHR ''T'', CHR ''H''}" using assms(2) set_take_subset by fastforce
  ultimately show ?thesis by (rule read_states_plausible [OF assms(1)])
qed

section \<open>The sleep mode\<close>

text \<open>Telling the sensor to sleep writes back what its register holds: the mode bits are set and never cleared.\<close>

lemma sleep_changes_nothing:
  "answers T regs \<Longrightarrow> BME280_SetOversamplingMode T BME280_SLEEP_MODE b = I2C_WriteRegister T BME280_CTRL_MEAS_REG (regs BME280_CTRL_MEAS_REG) b"
  by (simp add: BME280_SetOversamplingMode_def BME280_GetCtrlMeasurement_def read_register BME280_SLEEP_MODE_def)

section \<open>The temperature of the pressure\<close>

definition same_climate :: "'d bme280 \<Rightarrow> 'd bme280 \<Rightarrow> bool" where
  "same_climate b b' \<longleftrightarrow> t_fine b' = t_fine b \<and> cal_param b' = cal_param b"

lemma transfer_keeps: "transfer T ws n b = Some (r, b') \<Longrightarrow> same_climate b b'"
  by (auto simp: transfer_def same_climate_def split: prod.splits)

lemma same_climate_trans [trans]: "same_climate a b \<Longrightarrow> same_climate b c \<Longrightarrow> same_climate a c"
  by (simp add: same_climate_def)

lemma registers_keep:
  "I2C_WriteRegister T r v b = Some (ok, b') \<Longrightarrow> same_climate b b'"
  "I2C_ReadRegister T r b = Some (w, b') \<Longrightarrow> same_climate b b'"
  by (auto simp: I2C_WriteRegister_def I2C_ReadRegister_def bind_eq_Some_conv dest: transfer_keeps split: option.splits)

lemma settings_keep:
  "BME280_SetOversamplingPressure T v b = Some (r, b') \<Longrightarrow> same_climate b b'"
  "BME280_SetOversamplingTemperature T v b = Some (r, b') \<Longrightarrow> same_climate b b'"
  "BME280_SetOversamplingHumidity T v b = Some (r, b') \<Longrightarrow> same_climate b b'"
  "BME280_SetOversamplingMode T v b = Some (r, b') \<Longrightarrow> same_climate b b'"
  by (auto simp: BME280_SetOversamplingPressure_def BME280_SetOversamplingTemperature_def BME280_SetOversamplingHumidity_def
      BME280_SetOversamplingMode_def BME280_GetCtrlMeasurement_def bind_eq_Some_conv dest!: registers_keep intro: same_climate_trans)

lemma waiting_keeps:
  assumes run: "wait_measured T b = Some b'"
  shows "same_climate b b'"
proof (rule wait_measured.raw_induct [where P = "\<lambda>T b b'. same_climate b b'", OF _ run])
  fix loop T b b'
  assume IH: "\<And>T b b'. loop T b = Some b' \<Longrightarrow> same_climate b b'"
    and body: "do { (m, b) \<leftarrow> BME280_IsMeasuring T b; if m \<noteq> 0 then loop T b else Some b } = Some b'"
  from body show "same_climate b b'"
    by (auto simp: BME280_IsMeasuring_def BME280_GetStatus_def bind_eq_Some_conv dest!: registers_keep IH
        intro: same_climate_trans split: if_splits)
qed

section \<open>The frame\<close>

text \<open>The three values of a frame: twenty bits of pressure and of temperature, sixteen of humidity, the high byte first.\<close>

definition raw_value :: "u8 list \<Rightarrow> nat \<Rightarrow> u32" where
  "raw_value frame i = of_nat (unat (frame ! i) * 4096 + unat (frame ! (i + 1)) * 16 + unat (frame ! (i + 2)) div 16)"

definition raw_humidity :: "u8 list \<Rightarrow> u32" where
  "raw_humidity frame = of_nat (unat (frame ! 6) * 256 + unat (frame ! 7))"

lemma byte_value: "of_nat (unat (x :: u8)) = (ucast x :: u32)"
  by (rule word_unat_eq_iff [THEN iffD2]) (simp add: unat_of_nat32 less_trans [OF unat_less_size8])

lemma put_twenty: "drop_bit 4 (ucast (p0 :: u8)) OR push_bit 4 (ucast (p1 :: u8)) OR push_bit 12 (ucast (p2 :: u8)) =
    (of_nat (unat p2 * 4096 + unat p1 * 16 + unat p0 div 16) :: u32)"
proof -
  have low: "of_nat (unat p0 div 16) = (drop_bit 4 (ucast p0) :: u32)"
  proof (rule word_unat_eq_iff [THEN iffD2])
    have "unat p0 div 16 < 4294967296" 
      by (rule le_less_trans [OF div_le_dividend]) (simp add: less_trans [OF unat_less_size8])
    then show "unat (of_nat (unat p0 div 16) :: u32) = unat (drop_bit 4 (ucast p0) :: u32)"
      by (simp add: unat_of_nat32 drop_bit_eq_div unat_div)
  qed
  have mid: "(ucast p1 :: u32) * 16 = push_bit 4 (ucast p1)" and high: "(ucast p2 :: u32) * 4096 = push_bit 12 (ucast p2)"
    by (simp_all add: push_bit_eq_mult)
  let ?a = "drop_bit 4 (ucast p0) :: u32" and ?b = "push_bit 4 (ucast p1) :: u32" and ?c = "push_bit 12 (ucast p2) :: u32"
  have "?a OR ?b OR ?c = (?a OR ?b) OR ?c" by (rule or.assoc [symmetric])
  also have "\<dots> = (?a OR ?b) + ?c"
    by (rule disjunctive_add [symmetric]) (auto simp: bit_simps dest: byte_bits)
  also have "?a OR ?b = ?a + ?b"
    by (rule disjunctive_add [symmetric]) (auto simp: bit_simps dest: byte_bits)
  also have "?a + ?b + ?c = of_nat (unat p2 * 4096 + unat p1 * 16 + unat p0 div 16)"
    by (simp add: byte_value mid high flip: low)
  finally show ?thesis .
qed

lemma put_sixteen: "ucast (h0 :: u8) OR ucast (push_bit 8 (ucast (h1 :: u8) :: u16)) = (of_nat (unat h1 * 256 + unat h0) :: u32)"
proof -
  have "(ucast (push_bit 8 (ucast h1 :: u16)) :: u32) = push_bit 8 (ucast h1)"
    by (rule bit_word_eqI) (auto simp: bit_simps dest: byte_bits)
  moreover have "ucast h0 OR push_bit 8 (ucast h1) = (ucast h0 + push_bit 8 (ucast h1) :: u32)"
    by (rule disjunctive_add [symmetric]) (auto simp: bit_simps dest: byte_bits)
  moreover have "(ucast h1 :: u32) * 256 = push_bit 8 (ucast h1)" by (simp add: push_bit_eq_mult)
  ultimately show ?thesis by (simp add: byte_value ac_simps)
qed

definition gives_frame :: "'d twi \<Rightarrow> u8 list \<Rightarrow> bool" where
  "gives_frame T frame \<longleftrightarrow> length frame = 8 \<and> (\<forall>d. fst (twi_transfer T [BME280_PRESSURE_MSB_REG] 8 d) = Some frame)"

lemma measuring_takes:
  assumes frame: "gives_frame T frame" and run: "BME280_ReadMeasurements T b = Some (r, b')"
  obtains d where "b' = b\<lparr>adc_t := raw_value frame 3, adc_p := raw_value frame 0, adc_h := raw_humidity frame, twi_bus := d\<rparr>"
proof -
  obtain d where t: "transfer T [BME280_PRESSURE_MSB_REG] 8 b = Some (Some frame, b\<lparr>twi_bus := d\<rparr>)"
    using frame by (cases "twi_transfer T [BME280_PRESSURE_MSB_REG] 8 (twi_bus b)") (auto simp: gives_frame_def transfer_def, metis fst_conv)
  have bytes: "array_get frame i = Some (frame ! i)" if "i < 8" for i using that frame by (simp add: gives_frame_def array_get_def)
  from run have "b' = b\<lparr>adc_t := raw_value frame 3, adc_p := raw_value frame 0, adc_h := raw_humidity frame, twi_bus := d\<rparr>"
    by (auto simp: BME280_ReadMeasurements_def t bytes put_twenty put_sixteen raw_value_def raw_humidity_def numeral_2_eq_2)
  then show thesis by (rule that)
qed

lemma poll_takes:
  assumes frame: "gives_frame T frame" and run: "BME280_poll T b = Some (True, b')"
  obtains d where "b' = b\<lparr>adc_t := raw_value frame 3, adc_p := raw_value frame 0, adc_h := raw_humidity frame, twi_bus := d\<rparr>"
proof -
  from run obtain b1 r where b1: "same_climate b b1" "BME280_ReadMeasurements T b1 = Some (r, b')"
    by (auto simp: BME280_poll_def bind_eq_Some_conv dest!: settings_keep waiting_keeps split: if_splits)
       (simp_all add: same_climate_def)
  from frame b1(2) obtain d where "b' = b1\<lparr>adc_t := raw_value frame 3, adc_p := raw_value frame 0, adc_h := raw_humidity frame, twi_bus := d\<rparr>"
    by (rule measuring_takes)
  with b1(1) have "b' = b\<lparr>adc_t := raw_value frame 3, adc_p := raw_value frame 0, adc_h := raw_humidity frame, twi_bus := d\<rparr>"
    by (simp add: same_climate_def)
  then show thesis by (rule that)
qed

text \<open>C36: The sensors of the firmware are read in the order pressure, temperature, humidity.  From the frame that the
  sensor gives, the pressure is compensated with the fine temperature that the reading before left, which is none after a
  start; the temperature is that of the frame; and the humidity is compensated with the new fine temperature.  To
  each its offset is added, and a value out of its range is replaced.\<close>

theorem pressure_of_old_temperature:
  assumes "gives_frame T frame" "read_sensors T offsets junk (''PTH'' @ others) 3 b = Some ((ok, Some ss), b')"
  shows "let p = BME280_GetPressure (b\<lparr>adc_p := raw_value frame 0\<rparr>);
      (t, warm) = BME280_GetTemperature (b\<lparr>adc_t := raw_value frame 3\<rparr>);
      h = BME280_GetHumidity (warm\<lparr>adc_h := raw_humidity frame\<rparr>)
    in ss = [\<lparr>state_id = CHR ''P'', state_value = ranged (float_plus (Finite p) (offsets ! 1)) 300 1100 0\<rparr>,
      \<lparr>state_id = CHR ''T'', state_value = ranged (float_plus (Finite t) (offsets ! 0)) (- 40) 85 2000\<rparr>,
      \<lparr>state_id = CHR ''H'', state_value = ranged (float_plus (Finite h) (offsets ! 2)) 0 100 0\<rparr>]"
proof -
  let ?b = "\<lambda>d. b\<lparr>adc_t := raw_value frame 3, adc_p := raw_value frame 0, adc_h := raw_humidity frame, twi_bus := d\<rparr>"
  from assms(2) obtain b1 b2 where poll: "BME280_poll T b = Some (True, b1)"
    and states: "read_states offsets junk ''PTH'' b1 = Some (ss, b2)"
    by (auto simp: read_sensors_def bind_eq_Some_conv array_prefix_eq_Some split: if_splits prod.splits)
  from assms(1) poll obtain d where b1: "b1 = ?b d" by (rule poll_takes)
  obtain t warm where t: "BME280_GetTemperature (b\<lparr>adc_t := raw_value frame 3\<rparr>) = (t, warm)" by fastforce
  have p: "BME280_GetPressure (?b d) = BME280_GetPressure (b\<lparr>adc_p := raw_value frame 0\<rparr>)"
    by (simp add: BME280_GetPressure_def BME280_Compensate_P_def Let_def)
  obtain v where v: "BME280_GetTemperature (?b d) = (t, v)" "t_fine v = t_fine warm" "cal_param v = cal_param warm"
      "adc_h v = raw_humidity frame"
    using t by (auto simp: BME280_GetTemperature_def BME280_Compensate_T_def Let_def)
  from v(2-4) have h: "BME280_GetHumidity v = BME280_GetHumidity (warm\<lparr>adc_h := raw_humidity frame\<rparr>)"
    by (simp add: BME280_GetHumidity_def BME280_Compensate_H_def Let_def)
  from states obtain j1 j2 j3 js where junk: "junk = j1 # j2 # j3 # js"
    by (cases junk; cases "tl junk"; cases "tl (tl junk)") (auto simp: bind_eq_Some_conv)
  from states show ?thesis
    unfolding junk b1 t Let_def
    by (auto simp: bind_eq_Some_conv get_pressure_def get_temperature_def get_humidity_def v(1) p h array_get_def split: if_splits)
qed

end
