(* ===== verification/Atmosphere_Witnesses.thy ===== *)
theory Atmosphere_Witnesses
  imports Atmosphere_Facts
begin

text \<open>
  The measurement of the data sheet of the sensor: its calibration and its raw values, and what the firmware makes
  of them; and an instance of every property of the sensor.
\<close>

definition sheet_calibration :: bme280_calibration_param where
  "sheet_calibration = \<lparr>dig_T1 = 27504, dig_T2 = 26435, dig_T3 = - 1000, dig_P1 = 36477, dig_P2 = - 10685, dig_P3 = 3024,
     dig_P4 = 2855, dig_P5 = 140, dig_P6 = - 7, dig_P7 = 15500, dig_P8 = - 14600, dig_P9 = 6000,
     dig_H1 = 75, dig_H2 = 362, dig_H3 = 0, dig_H4 = 313, dig_H5 = 50, dig_H6 = 30\<rparr>"

text \<open>A bus with the frame of the data sheet, every other register being 0.\<close>

definition sheet_bus :: "unit twi" where
  "sheet_bus = \<lparr>twi_transfer = (\<lambda>ws n d. (Some (if n = 8 then [0x65, 0x5A, 0xC0, 0x7E, 0xED, 0, 0x6B, 0] else replicate n 0), d))\<rparr>"

definition sheet_sensor :: "unit bme280" where
  "sheet_sensor = \<lparr>cal_param = sheet_calibration, adc_t = 519888, adc_p = 415148, adc_h = 0x6B00, t_fine = 128422, twi_bus = ()\<rparr>"

definition some_states :: "sensor_state list" where
  "some_states = map (\<lambda>c. \<lparr>state_id = c, state_value = NotANumber\<rparr>) ''XYZ''"

definition no_offsets :: "c_float list" where
  "no_offsets = [Finite 0, Finite 0, Finite 0]"

text \<open>
  The data sheet gives 25.08 degrees and 1006.53 hPa for these values.  The pressure comes out right; the temperature
  does not, because the firmware keeps the third constant, which is negative, without its sign.
\<close>

lemma sheet_pressure: "BME280_GetPressure sheet_sensor = 100653 / 100"
proof -
  have "BME280_Compensate_P sheet_sensor = 100653" by code_simp
  then show ?thesis by (simp add: BME280_GetPressure_def)
qed

definition sheet_measured :: "unit bme280" where
  "sheet_measured = sheet_sensor\<lparr>t_fine := 152726\<rparr>"

lemma sheet_temperature: "BME280_GetTemperature sheet_sensor = (2983 / 100, sheet_measured)"
proof -
  have "BME280_Compensate_T sheet_sensor = (2983, sheet_measured)" by code_simp
  then show ?thesis by (simp add: BME280_GetTemperature_def)
qed

lemma sheet_humidity: "BME280_GetHumidity sheet_measured = 20721 / 512"
proof -
  have "BME280_Compensate_H sheet_measured = 41442" by code_simp
  then show ?thesis by (simp add: BME280_GetHumidity_def)
qed

section \<open>The calibration\<close>

text \<open>A sensor whose every register is 0x80: the word 0x8080 is read as 0x7F80.\<close>

definition high_bus :: "unit twi" where
  "high_bus = \<lparr>twi_transfer = (\<lambda>ws n d. (Some (replicate n 0x80), d))\<rparr>"

theorem calibration_words_read_witness:
  "word_at (\<lambda>r. 0x80) 0x88 = 0x8080 \<and> misread (\<lambda>r. 0x80) 0x88 = 0x7F80 \<and>
   (\<exists>c b'. BME280_ReadCalibrationParams high_bus sheet_sensor = Some ((), b') \<and> c = cal_param b' \<and>
    [dig_T1 c, dig_T2 c, dig_T3 c, dig_P1 c, dig_P2 c, dig_P3 c, dig_P4 c, dig_P5 c, dig_P6 c, dig_P7 c, dig_P8 c, dig_P9 c, dig_H2 c] =
    map (misread (\<lambda>r. 0x80)) [0x88, 0x8A, 0x8C, 0x8E, 0x90, 0x92, 0x94, 0x96, 0x98, 0x9A, 0x9C, 0x9E, 0xE1])"
proof (intro conjI)
  show "word_at (\<lambda>r. 0x80) 0x88 = 0x8080" by code_simp
  show "misread (\<lambda>r. 0x80) 0x88 = 0x7F80" by code_simp
  have "answers high_bus (\<lambda>r. 0x80)" by (simp add: answers_def high_bus_def)
  from calibration_words_read [OF this, of sheet_sensor]
  show "\<exists>c b'. BME280_ReadCalibrationParams high_bus sheet_sensor = Some ((), b') \<and> c = cal_param b' \<and>
    [dig_T1 c, dig_T2 c, dig_T3 c, dig_P1 c, dig_P2 c, dig_P3 c, dig_P4 c, dig_P5 c, dig_P6 c, dig_P7 c, dig_P8 c, dig_P9 c, dig_H2 c] =
    map (misread (\<lambda>r. 0x80)) [0x88, 0x8A, 0x8C, 0x8E, 0x90, 0x92, 0x94, 0x96, 0x98, 0x9A, 0x9C, 0x9E, 0xE1]" .
qed

section \<open>The readings\<close>

definition sheet_states :: "sensor_state list" where
  "sheet_states = [\<lparr>state_id = CHR ''P'', state_value = Finite (100653 / 100)\<rparr>, \<lparr>state_id = CHR ''T'', state_value = Finite (2983 / 100)\<rparr>,
     \<lparr>state_id = CHR ''H'', state_value = Finite (20721 / 512)\<rparr>]"

lemma sheet_poll: "BME280_poll sheet_bus sheet_sensor = Some (True, sheet_sensor)"
  by code_simp

lemma sheet_sleep: "BME280_SetOversamplingMode sheet_bus BME280_SLEEP_MODE sheet_measured = Some (True, sheet_measured)"
  by code_simp

lemma three_prefix: "array_prefix ''PTH'' (unat (3 :: u8)) = Some ''PTH''"
  by (simp add: array_prefix_def)

lemma sheet_reading: "read_sensors sheet_bus no_offsets some_states ''PTH'' 3 sheet_sensor = Some ((True, Some sheet_states), sheet_measured)"
  by (simp add: read_sensors_def sheet_poll sheet_sleep three_prefix [simplified] array_get_def some_states_def no_offsets_def sheet_states_def
      get_pressure_def get_temperature_def get_humidity_def sheet_pressure sheet_temperature sheet_humidity ranged_def out_of_range_def)

lemma sheet_reading_plausible:
  "map state_id sheet_states = take (unat (3 :: u8)) ''PTH'' \<and> (\<forall>s \<in> set sheet_states. plausible (state_id s) (state_value s))"
  by (rule readings_in_range [OF _ _ sheet_reading]) (simp_all add: no_offsets_def)

text \<open>The same frame after a start, when there is no temperature before: 968.21 hPa instead of 1006.53.\<close>

definition cold_sensor :: "unit bme280" where
  "cold_sensor = sheet_sensor\<lparr>t_fine := 0\<rparr>"

lemma cold_pressure: "BME280_GetPressure cold_sensor = 96821 / 100"
proof -
  have "BME280_Compensate_P cold_sensor = 96821" by code_simp
  then show ?thesis by (simp add: BME280_GetPressure_def)
qed

lemma sheet_frame: "gives_frame sheet_bus [0x65, 0x5A, 0xC0, 0x7E, 0xED, 0, 0x6B, 0]"
  by (simp add: gives_frame_def sheet_bus_def)

theorem pressure_of_old_temperature_witness:
  "let p = BME280_GetPressure (sheet_sensor\<lparr>adc_p := raw_value [0x65, 0x5A, 0xC0, 0x7E, 0xED, 0, 0x6B, 0] 0\<rparr>);
      (t, warm) = BME280_GetTemperature (sheet_sensor\<lparr>adc_t := raw_value [0x65, 0x5A, 0xC0, 0x7E, 0xED, 0, 0x6B, 0] 3\<rparr>);
      h = BME280_GetHumidity (warm\<lparr>adc_h := raw_humidity [0x65, 0x5A, 0xC0, 0x7E, 0xED, 0, 0x6B, 0]\<rparr>)
    in sheet_states = [\<lparr>state_id = CHR ''P'', state_value = ranged (float_plus (Finite p) (no_offsets ! 1)) 300 1100 0\<rparr>,
      \<lparr>state_id = CHR ''T'', state_value = ranged (float_plus (Finite t) (no_offsets ! 0)) (- 40) 85 2000\<rparr>,
      \<lparr>state_id = CHR ''H'', state_value = ranged (float_plus (Finite h) (no_offsets ! 2)) 0 100 0\<rparr>]"
  by (rule pressure_of_old_temperature [where others = "[]" and T = sheet_bus and junk = some_states and ok = True and b' = sheet_measured])
    (simp_all add: sheet_frame sheet_reading)

end
