(* ===== verification/Spec2Isabelle.thy ===== *)
theory Spec2Isabelle
  imports Buffer_Refinement Inet Aes Storage_Witnesses App_Witnesses Stack_Witnesses Chip_Witnesses Atmosphere_Witnesses
begin

text \<open>
  A verification of the WolkSensor firmware: a battery powered sensor device that stores readings,
  exchanges them with a server over MQTT on a Wi-Fi module and is configured with text commands.  All
  paths below are relative to \<open>src/wolksensor\<close>.

  \<^bold>\<open>The program.\<close>  The firmware is a loop that calls the processing function of the application until no
  event is left.  The application (\<open>SDK/application/wolksensor.c\<close>) is a hierarchical state machine
  (\<open>SDK/core/state_machine.c\<close>) fed by a queue of events: a clock, a USB driver, a command interface, a
  voltage monitor and the sensors post into it.  Its data exchange starts operations of a protocol,
  \<open>SDK/core/mqtt_communication_protocol.c\<close>, itself a hierarchical machine of seventeen states with its own queue,
  which in turn drives a communication module: \<open>SDK/core/wifi_communication_module.c\<close>, a machine of sixteen states that
  connects to the network and drives the socket machines of \<open>SDK/core/tcp_communication_module.c\<close> and
  \<open>SDK/core/udp_communication_module.c\<close>.  All queues and stores are instances of one ring buffer, \<open>SDK/core/circular_buffer.c\<close>.

  \<^bold>\<open>The theories.\<close>
  \<^item> \<open>Prelude\<close>: arrays with their bounds, word facts, the assertion \<open>c_assert\<close>.
  \<^item> \<open>Circular_Buffer\<close>, \<open>Buffer_Refinement\<close>: \<open>SDK/core/circular_buffer.c\<close>, every function; the ring buffer
    refines a bounded queue of a list.
  \<^item> \<open>Sensors\<close>, \<open>System_Data\<close>, \<open>Record_Buffers\<close>: \<open>sensors.c\<close>, \<open>system.c\<close>, \<open>chrono.c\<close>, and the typed buffers
    \<open>event_buffer.c\<close>, \<open>sensor_readings_buffer.c\<close>, \<open>system_buffer.c\<close>.
  \<^item> \<open>Inet\<close>: \<open>wolksensor/src/inet.c\<close> and the string checks of \<open>util_conversions.c\<close>.
  \<^item> \<open>State_Machine\<close>: \<open>state_machine.c\<close> over any set of handlers, and the interface
    \<open>hierarchical_machine\<close> that both machines instantiate.
  \<^item> \<open>Command_Parser\<close>, \<open>Protocol\<close>, \<open>App_State\<close>, \<open>Commands\<close>, \<open>Config\<close>: \<open>command_parser.c\<close>, the texts of
    \<open>protocol.c\<close>, the variables of the application, \<open>commands.c\<close> and \<open>config.c\<close>.
  \<^item> \<open>Wolksensor\<close>: the handlers and listeners of \<open>wolksensor.c\<close>; \<open>App_Machine\<close>, \<open>App_Modes\<close>, \<open>App_Dispatch\<close> say
    what its transitions do and that dispatch is a flat table of modes; \<open>Command_Effects\<close>,
    \<open>Command_Responses\<close>, \<open>Command_Limits\<close>, \<open>App_Exchange\<close>, \<open>App_Heartbeat\<close>, \<open>App_Start\<close>, \<open>App_Reachable\<close>
    hold its properties, and the interface \<open>communication\<close> of the protocol below it.
  \<^item> \<open>Mqtt_Packets\<close>, \<open>Mqtt_Round_Trip\<close>: \<open>libemqtt.c\<close>, the packets and what their parser reads back.
  \<^item> \<open>Mqtt\<close>, \<open>Mqtt_States\<close>: the variables and handlers of \<open>mqtt_communication_protocol.c\<close>; \<open>Mqtt_Machine\<close>,
    \<open>Mqtt_Modes\<close>: its transitions and its flat table; \<open>Mqtt_Process\<close>, \<open>Mqtt_Ends\<close>, \<open>Mqtt_Reachable\<close>: the queue,
    how operations end, and the invariant of its life; \<open>Mqtt_Communication\<close>: the application on it.
  \<^item> \<open>Event_Queue\<close>: the queues of the communication modules.  \<open>Socket_Module\<close>: the machine that the TCP and the UDP
    module share, over a record of the calls and codes in which they differ; \<open>Tcp_Module\<close>, \<open>Udp_Module\<close>: the two modules.
    \<open>Socket_Modes\<close>, \<open>Socket_Life\<close>, \<open>Socket_Ends\<close>: its table, the invariant of its life, and how its operations end.
  \<^item> \<open>Wifi_Module\<close>, \<open>Wifi_States\<close>: the variables, handlers and operations of \<open>wifi_communication_module.c\<close> on the TCP and UDP
    modules; \<open>Wifi_Modes\<close>, \<open>Wifi_Dispatch\<close>: its table and the proof that dispatch is the table; \<open>Wifi_Life\<close>,
    \<open>Wifi_Effects\<close>: the invariant of its life, and what an error of the chip and a disconnect do.
  \<^item> \<open>Encryption\<close>, \<open>Aes\<close>: \<open>wolksensor/src/encryption.c\<close>, its inverse and its chaining, and the standard that it computes.
  \<^item> \<open>Nonvolatile_Memory\<close>: \<open>wolksensor/src/OS/nonvolatile_memory.c\<close>, a map of fields in the
    128 pages of the EEPROM of the ATxmega256C3, the device that \<open>WolkSensor.cproj\<close> builds for;
    \<open>Config_Storage\<close>: what the commands and the loaders expect of a storage, and the EEPROM as that storage.
  \<^item> \<open>Mqtt_Link\<close>: the contract \<open>exchange_module\<close> between the MQTT protocol and the module below it, and that the protocol
    stays within the buffer they share; \<open>Wifi_Communication\<close>: the application, the protocol, the Wi-Fi module and the cipher
    as \<open>WolkSensor/main.c\<close> wires them; \<open>Firmware\<close>: the start of the firmware in the order of \<open>main\<close>.
  \<^item> \<open>Chip_Driver\<close>, \<open>Chip_Sockets\<close>, \<open>Chip_Start\<close>: the driver of the chip, \<open>OS/CC3100/wifi_cc3100.c\<close>, in the state monad over
    the library of the chip; \<open>Chip_Life\<close>, \<open>Chip_Facts\<close>: what it keeps, the sockets it opens, how it finds the server, and when
    it is fit for the Wi-Fi module.  \<open>main.c\<close> gives the Wi-Fi module the stream functions of the driver and leaves the three
    datagram pointers unset: what a call through them does is an argument, \<open>unset\<close>, and no function of the driver.
  \<^item> \<open>Atmosphere_Sensor\<close>, \<open>Atmosphere_Facts\<close>: the driver of the sensor of pressure, temperature and humidity,
    \<open>OS/Sensors/BME280.c\<close>, the readings made of it in \<open>OS/Sensors/sensor.c\<close>, and what they are worth.
  \<^item> \<open>App_Samples\<close>, \<open>App_Witnesses\<close>, \<open>Mqtt_Witnesses\<close>, \<open>Socket_Witnesses\<close>, \<open>Wifi_Witnesses\<close>, \<open>Stack_Witnesses\<close>, \<open>Storage_Witnesses\<close>,
    \<open>Chip_Witnesses\<close>, \<open>Atmosphere_Witnesses\<close>: concrete instances on which the theorems are applied.

  \<^bold>\<open>How the code is read.\<close>  A structure is a record, an enumeration a datatype or the number of its
  member, an \<open>uintN_t\<close> a word of \<open>N\<close> bits.  A function on static variables takes and returns the record
  of the module.  A function returns \<open>None\<close> where the C code leaves its memory: an index out of an
  array, a string without an end, a text longer than the array it is printed into, a division by
  zero.  So a theorem that a function is defined is a theorem that it stays within its memory.
  Floats are exact rationals with infinities and NaN, decimal constants included.  The
  size of an element is kept with a buffer, because its offsets are computed in sixteen bits.
  Logging is left out.  What the code reaches through function pointers (configuration storage, USB,
  clock, the module, encryption, printing of floats) is a record of functions, an argument.

  \<^bold>\<open>Loops.\<close>  Loops that need not end (dispatch, a dump of readings, executing the queued commands) are
  \<open>partial_function (option)\<close>, and their ending is proved where it matters.  Transitions can nest,
  because a handler of an entered state may start one: the depth is three in the application and the socket
  machine, two in the Wi-Fi machine and one in the MQTT machine, which the machine theories prove to be enough, since the unfolded
  transitions never reach the bound.

  \<^bold>\<open>What is shown.\<close>  Refinement: the ring buffer of a queue, the four machines of their tables.  Invariants: the
  application is in one of its modes, the MQTT machine at a leaf, the socket machine and the Wi-Fi module well formed
  during all of their lives, offsets stay in range.  Function: commands are parsed, executed and answered as intended; what is stored is
  kept until it is delivered; the firmware starts whatever the reset.  Safety: the protocol and the Wi-Fi module stay well
  formed together, within the buffer they share.  Round trips: addresses, packets, ciphered messages and the
  stored configuration.  Equivalence: the cipher is that of FIPS 197.  Ends: a dump of readings
  is complete, a failed module ends an operation, sending and receiving over a socket end, an error of the chip
  resets the Wi-Fi module.  And where the code goes wrong: buffers that overflow, events that are lost, sockets
  that stay open, an operation that never ends.

  \<^bold>\<open>Not modelled.\<close>  \<open>ethernet_communication_module.c\<close>, which the firmware does not use, and the
  drivers of the accelerometer, the battery and the clock are not modelled.  The library of the CC3100, ASF and the USB stack are third-party code; the bootloader and the
  rest of \<open>main.c\<close>, the sleep and the watchdog, set up hardware.
\<close>

end
